(* ===== verification/Prelude.thy ===== *)
theory Prelude
  imports Main "HOL-Library.Char_ord"
begin

text \<open>
  Shared vocabulary of the development: Go's byte strings and the functions of package
  \<^verbatim>\<open>strings\<close> that the modelled sources call, Go's \<^verbatim>\<open>time.Time\<close> and
  \<^verbatim>\<open>time.Duration\<close>, maps with in-place update, and the generic lemmas the
  component theories use.

  A Go \<^verbatim>\<open>string\<close> is a byte sequence; it is a \<open>string\<close> (a list of 8-bit
  characters) here, and \<open>length\<close>, slicing and indexing agree with Go's.
  \<^verbatim>\<open>ToLower\<close>, \<^verbatim>\<open>TrimSpace\<close>, \<^verbatim>\<open>Fields\<close> and \<^verbatim>\<open>EqualFold\<close> classify Unicode
  code points in Go; the definitions below are their restriction to ASCII, which is the
  domain on which the development reads them.
\<close>

named_theorems str_simps \<open>evaluation of the string functions\<close>
named_theorems lookup_simps \<open>what a lookup returns after an update\<close>
named_theorems inv_intros \<open>preservation of the components' invariants\<close>

subsection \<open>Characters\<close>

definition is_space :: "char \<Rightarrow> bool" where
  "is_space c \<longleftrightarrow> c \<in> {CHR '' '', CHR 0x09, CHR 0x0A, CHR 0x0B, CHR 0x0C, CHR 0x0D}"

definition is_upper :: "char \<Rightarrow> bool" where
  "is_upper c \<longleftrightarrow> CHR ''A'' \<le> c \<and> c \<le> CHR ''Z''"

definition is_lower :: "char \<Rightarrow> bool" where
  "is_lower c \<longleftrightarrow> CHR ''a'' \<le> c \<and> c \<le> CHR ''z''"

definition is_digit :: "char \<Rightarrow> bool" where
  "is_digit c \<longleftrightarrow> CHR ''0'' \<le> c \<and> c \<le> CHR ''9''"

definition lower_char :: "char \<Rightarrow> char" where
  "lower_char c = (if is_upper c then char_of (of_char c + 32 :: nat) else c)"

subsection \<open>Package strings\<close>

definition trim_right :: "(char \<Rightarrow> bool) \<Rightarrow> string \<Rightarrow> string" where
  "trim_right p s = rev (dropWhile p (rev s))"

definition trim_space :: "string \<Rightarrow> string" where
  "trim_space s = trim_right is_space (dropWhile is_space s)"

definition to_lower :: "string \<Rightarrow> string" where
  "to_lower s = map lower_char s"

definition has_prefix :: "string \<Rightarrow> string \<Rightarrow> bool" where
  "has_prefix p s \<longleftrightarrow> take (length p) s = p"

fun index_of :: "string \<Rightarrow> string \<Rightarrow> nat option" where
  "index_of sub [] = (if sub = [] then Some 0 else None)"
| "index_of sub (c # s) =
     (if has_prefix sub (c # s) then Some 0 else map_option Suc (index_of sub s))"

definition contains :: "string \<Rightarrow> string \<Rightarrow> bool" where
  "contains s sub \<longleftrightarrow> index_of sub s \<noteq> None"

definition equal_fold :: "string \<Rightarrow> string \<Rightarrow> bool" where
  "equal_fold a b \<longleftrightarrow> to_lower a = to_lower b"

definition replace_char :: "char \<Rightarrow> char \<Rightarrow> string \<Rightarrow> string" where
  "replace_char a b s = map (\<lambda>c. if c = a then b else c) s"

text \<open>\<^verbatim>\<open>strings.SplitN(s, sep, n)\<close> with a one-byte separator and \<open>0 < n\<close>.\<close>

fun split_n :: "nat \<Rightarrow> char \<Rightarrow> string \<Rightarrow> string list" where
  "split_n 0 c s = []"
| "split_n (Suc n) c s =
     (if n = 0 then [s]
      else case index_of [c] s of
             None \<Rightarrow> [s]
           | Some i \<Rightarrow> take i s # split_n n c (drop (Suc i) s))"

fun split_on :: "(char \<Rightarrow> bool) \<Rightarrow> string \<Rightarrow> string list" where
  "split_on p [] = [[]]"
| "split_on p (c # s) =
     (if p c then [] # split_on p s
      else case split_on p s of [] \<Rightarrow> [[c]] | w # ws \<Rightarrow> (c # w) # ws)"

definition fields :: "string \<Rightarrow> string list" where
  "fields s = filter (\<lambda>w. w \<noteq> []) (split_on is_space s)"

fun join :: "string \<Rightarrow> string list \<Rightarrow> string" where
  "join sep [] = []"
| "join sep [x] = x"
| "join sep (x # y # ys) = x @ sep @ join sep (y # ys)"

text \<open>\<^verbatim>\<open>fmt\<close>'s \<^verbatim>\<open>%d\<close>: the digits of a non-negative number, and an integer.\<close>

function digits10 :: "int \<Rightarrow> string" where
  "digits10 n = (if n < 10 then [char_of (48 + n)] else digits10 (n div 10) @ [char_of (48 + n mod 10)])"
  by pat_completeness auto
termination
  by (relation "measure nat") auto

declare digits10.simps [simp del]

definition itoa :: "int \<Rightarrow> string" where
  "itoa i = (if i < 0 then ''-'' @ digits10 (- i) else digits10 i)"

text \<open>The control characters the sources write in string literals.\<close>

abbreviation nl :: char where "nl \<equiv> CHR 0x0A"
abbreviation tab :: char where "tab \<equiv> CHR 0x09"
abbreviation cr :: char where "cr \<equiv> CHR 0x0D"
abbreviation dquote :: char where "dquote \<equiv> CHR 0x22"

subsection \<open>Time\<close>

text \<open>
  A \<^verbatim>\<open>time.Time\<close> is the number of nanoseconds since Go's zero time, so \<^verbatim>\<open>IsZero\<close> is
  equality with \<open>0\<close>; a \<^verbatim>\<open>time.Duration\<close> is an \<^verbatim>\<open>int64\<close> number of nanoseconds, and
  \<^verbatim>\<open>Time.Sub\<close> saturates at its bounds.
\<close>

type_synonym time = int
type_synonym duration = int

definition max_duration :: duration where "max_duration = 2 ^ 63 - 1"
definition min_duration :: duration where "min_duration = - (2 ^ 63)"

definition time_sub :: "time \<Rightarrow> time \<Rightarrow> duration" where
  "time_sub a b = max min_duration (min max_duration (a - b))"

abbreviation millisecond :: duration where "millisecond \<equiv> 1000000"
abbreviation second :: duration where "second \<equiv> 1000000000"
abbreviation minute :: duration where "minute \<equiv> 60 * second"
abbreviation hour :: duration where "hour \<equiv> 60 * minute"

text \<open>Go's \<^verbatim>\<open>int64\<close> addition: two's complement wrap-around.\<close>

definition wrap64 :: "int \<Rightarrow> int" where
  "wrap64 i = (i + 2 ^ 63) mod 2 ^ 64 - 2 ^ 63"

text \<open>Go's integer division truncates towards zero; the sources divide by positive constants.\<close>

definition quot :: "int \<Rightarrow> int \<Rightarrow> int" where
  "quot a b = (if a < 0 then - ((- a) div b) else a div b)"

subsection \<open>Lemmas on characters and strings\<close>

lemma is_space_lower_char [simp]: "is_space (lower_char c) = is_space c"
proof (cases "is_upper c")
  case True
  then have c: "65 \<le> (of_char c :: nat)" "(of_char c :: nat) \<le> 90"
    by (simp_all add: is_upper_def less_eq_char_def)
  then have "(of_char (lower_char c) :: nat) = of_char c + 32"
    using True by (simp add: lower_char_def)
  then have "97 \<le> (of_char (lower_char c) :: nat)" using c by simp
  then have "\<not> is_space (lower_char c)" by (auto simp: is_space_def)
  moreover have "\<not> is_space c" using c by (auto simp: is_space_def)
  ultimately show ?thesis by simp
qed (simp add: lower_char_def)

lemma not_is_upper_lower_char [simp]: "\<not> is_upper (lower_char c)"
proof (cases "is_upper c")
  case True
  then have c: "65 \<le> (of_char c :: nat)" "(of_char c :: nat) \<le> 90"
    by (simp_all add: is_upper_def less_eq_char_def)
  then have "(of_char (lower_char c) :: nat) = of_char c + 32"
    using True by (simp add: lower_char_def)
  with c show ?thesis by (simp add: is_upper_def less_eq_char_def)
qed (simp add: lower_char_def)

lemma lower_char_id: "\<not> is_upper c \<Longrightarrow> lower_char c = c"
  by (simp add: lower_char_def)

lemma lower_char_not_lower: "\<not> is_lower (lower_char c) \<Longrightarrow> lower_char c = c"
proof (cases "is_upper c")
  case True
  then have c: "65 \<le> (of_char c :: nat)" "(of_char c :: nat) \<le> 90"
    by (simp_all add: is_upper_def less_eq_char_def)
  then have "(of_char (lower_char c) :: nat) = of_char c + 32"
    using True by (simp add: lower_char_def)
  with c have "is_lower (lower_char c)" by (simp add: is_lower_def less_eq_char_def)
  then show "\<not> is_lower (lower_char c) \<Longrightarrow> lower_char c = c" by simp
qed (simp add: lower_char_id)

lemma lower_char_idem [simp]: "lower_char (lower_char c) = lower_char c"
  by (simp add: lower_char_id)

lemma to_lower_Nil [simp]: "to_lower [] = []"
  by (simp add: to_lower_def)

lemma to_lower_Cons [simp]: "to_lower (c # s) = lower_char c # to_lower s"
  by (simp add: to_lower_def)

lemma to_lower_append [simp]: "to_lower (a @ b) = to_lower a @ to_lower b"
  by (simp add: to_lower_def)

lemma length_to_lower [simp]: "length (to_lower s) = length s"
  by (simp add: to_lower_def)

lemma to_lower_eq_Nil [simp]: "to_lower s = [] \<longleftrightarrow> s = []"
  by (simp add: to_lower_def)

lemma to_lower_idem [simp]: "to_lower (to_lower s) = to_lower s"
  by (induction s) simp_all

lemma to_lower_id: "\<forall>c \<in> set s. \<not> is_upper c \<Longrightarrow> to_lower s = s"
  by (induction s) (simp_all add: lower_char_id)

lemma not_upper_to_lower: "c \<in> set (to_lower s) \<Longrightarrow> \<not> is_upper c"
  by (auto simp: to_lower_def)

lemma trim_right_eq_Nil: "trim_right p s = [] \<longleftrightarrow> (\<forall>c \<in> set s. p c)"
  by (simp add: trim_right_def dropWhile_eq_Nil_conv)

lemma trim_right_snoc: "\<not> p c \<Longrightarrow> trim_right p (s @ [c]) = s @ [c]"
  by (simp add: trim_right_def)

lemma trim_right_id: "s = [] \<or> \<not> p (last s) \<Longrightarrow> trim_right p s = s"
  by (cases s rule: rev_cases) (auto simp: trim_right_def)

lemma last_trim_right: "trim_right p s \<noteq> [] \<Longrightarrow> \<not> p (last (trim_right p s))"
  using hd_dropWhile [of p "rev s"] by (simp add: trim_right_def last_rev)

lemma length_trim_right: "length (trim_right p s) \<le> length s"
  using length_dropWhile_le [of p "rev s"] by (simp add: trim_right_def)

lemma prefix_trim_right: "\<exists>t. s = trim_right p s @ t \<and> (\<forall>c \<in> set t. p c)"
proof -
  have "rev s = takeWhile p (rev s) @ dropWhile p (rev s)" by simp
  then have "s = rev (dropWhile p (rev s)) @ rev (takeWhile p (rev s))"
    by (metis rev_append rev_rev_ident)
  then show ?thesis
    unfolding trim_right_def by (metis set_rev set_takeWhileD)
qed

lemma hd_trim_right: "trim_right p s \<noteq> [] \<Longrightarrow> hd (trim_right p s) = hd s"
  using prefix_trim_right [of s p] by (metis hd_append2)

lemma trim_space_idem [simp]: "trim_space (trim_space s) = trim_space s"
proof (cases "trim_space s = []")
  case True
  then show ?thesis by (simp only: trim_space_def trim_right_def) simp
next
  case False
  have ne: "dropWhile is_space s \<noteq> []"
  proof
    assume "dropWhile is_space s = []"
    then have "trim_space s = []" by (simp only: trim_space_def trim_right_def) simp
    with False show False by simp
  qed
  have "hd (trim_space s) = hd (dropWhile is_space s)"
    using False unfolding trim_space_def by (rule hd_trim_right)
  then have "\<not> is_space (hd (trim_space s))"
    using hd_dropWhile [OF ne] by simp
  then have "dropWhile is_space (trim_space s) = trim_space s"
    using False by (cases "trim_space s") auto
  moreover have "\<not> is_space (last (trim_space s))"
    using last_trim_right False unfolding trim_space_def by blast
  ultimately show ?thesis
    using trim_right_id [of "trim_space s" is_space] by (simp add: trim_space_def)
qed

lemma dropWhile_to_lower: "dropWhile is_space (to_lower s) = to_lower (dropWhile is_space s)"
  by (induction s) simp_all

lemma rev_to_lower: "rev (to_lower s) = to_lower (rev s)"
  by (simp add: to_lower_def rev_map)

lemma trim_space_to_lower: "trim_space (to_lower s) = to_lower (trim_space s)"
  by (simp add: trim_space_def trim_right_def dropWhile_to_lower rev_to_lower)

lemma length_trim_space: "length (trim_space s) \<le> length s"
  unfolding trim_space_def by (meson length_trim_right length_dropWhile_le le_trans)

lemma set_trim_space: "set (trim_space s) \<subseteq> set s"
  unfolding trim_space_def trim_right_def
  by (metis set_dropWhileD set_rev subsetI)

lemma trim_space_id:
  "s = [] \<or> (\<not> is_space (hd s) \<and> \<not> is_space (last s)) \<Longrightarrow> trim_space s = s"
proof (cases s)
  case (Cons c t)
  moreover assume "s = [] \<or> (\<not> is_space (hd s) \<and> \<not> is_space (last s))"
  ultimately show ?thesis
    using trim_right_id [of s is_space] by (simp add: trim_space_def)
qed (simp add: trim_space_def trim_right_def)

lemma trim_space_Nil [simp]: "trim_space [] = []"
  by (simp add: trim_space_def trim_right_def)

text \<open>Lower-casing and trimming introduce no character that is not a lower-case letter.\<close>

lemma notin_to_lower: "d \<notin> set s \<Longrightarrow> \<not> is_lower d \<Longrightarrow> d \<notin> set (to_lower s)"
  unfolding to_lower_def by (metis imageE list.set_map lower_char_not_lower)

lemma notin_to_lower_trim: "d \<notin> set s \<Longrightarrow> \<not> is_lower d \<Longrightarrow> d \<notin> set (to_lower (trim_space s))"
  using set_trim_space [of s] by (intro notin_to_lower) auto

subsection \<open>Prefixes and substrings\<close>

lemma has_prefix_append [simp]: "has_prefix p (p @ s)"
  by (simp add: has_prefix_def)

lemma has_prefixE: "has_prefix p s \<Longrightarrow> \<exists>t. s = p @ t"
  by (metis append_take_drop_id has_prefix_def)

lemma has_prefix_iff: "has_prefix p s \<longleftrightarrow> (\<exists>t. s = p @ t)"
  using has_prefixE by auto

lemma has_prefix_Nil [simp]: "has_prefix [] s"
  by (simp add: has_prefix_def)

lemma has_prefix_Cons [simp]:
  "has_prefix (a # p) s \<longleftrightarrow> (case s of [] \<Rightarrow> False | c # t \<Rightarrow> a = c \<and> has_prefix p t)"
  by (cases s) (auto simp: has_prefix_def)

lemma index_of_Some: "index_of sub s = Some i \<Longrightarrow> \<exists>t. s = take i s @ sub @ t \<and> i + length sub \<le> length s"
proof (induction sub s arbitrary: i rule: index_of.induct)
  case (1 sub)
  then show ?case by (simp split: if_splits)
next
  case (2 sub c s)
  show ?case
  proof (cases "has_prefix sub (c # s)")
    case True
    then obtain t where t: "c # s = sub @ t" using has_prefixE by blast
    from 2(2) True have "i = 0" by simp
    moreover have "length sub \<le> length (c # s)" by (simp only: t length_append)
    ultimately show ?thesis using t by auto
  next
    case False
    with 2(2) obtain j where j: "index_of sub s = Some j" "i = Suc j" by auto
    with 2(1) [OF False j(1)] show ?thesis by auto
  qed
qed

lemma index_of_None: "index_of sub s = None \<Longrightarrow> s \<noteq> a @ sub @ b"
proof (induction a arbitrary: s)
  case Nil
  then show ?case
    by (cases s) (auto simp: has_prefix_iff split: if_splits)
next
  case (Cons x a)
  show ?case
  proof
    assume "s = (x # a) @ sub @ b"
    then obtain t where t: "s = x # t" "t = a @ sub @ b" by simp
    with Cons.prems have "index_of sub t = None" by (simp split: if_splits)
    from Cons.IH [OF this] t show False by blast
  qed
qed

lemma contains_iff: "contains s sub \<longleftrightarrow> (\<exists>a b. s = a @ sub @ b)"
proof
  assume "contains s sub"
  then obtain i where "index_of sub s = Some i" by (auto simp: contains_def)
  then show "\<exists>a b. s = a @ sub @ b" using index_of_Some by blast
next
  assume "\<exists>a b. s = a @ sub @ b"
  then show "contains s sub" unfolding contains_def by (metis index_of_None)
qed

lemma index_of_single_append: "c \<notin> set a \<Longrightarrow> index_of [c] (a @ c # b) = Some (length a)"
  by (induction a) auto

lemma index_of_single_None: "index_of [c] s = None \<longleftrightarrow> c \<notin> set s"
  by (induction s) auto

subsection \<open>Time and arithmetic\<close>

lemma time_sub_exact: "min_duration \<le> a - b \<Longrightarrow> a - b \<le> max_duration \<Longrightarrow> time_sub a b = a - b"
  by (simp add: time_sub_def)

lemma time_sub_pos: "0 < time_sub a b \<longleftrightarrow> b < a"
  by (auto simp: time_sub_def max_duration_def min_duration_def)

lemma wrap64_id: "- (2 ^ 63) \<le> i \<Longrightarrow> i < 2 ^ 63 \<Longrightarrow> wrap64 i = i"
  by (simp add: wrap64_def)

lemma wrap64_bounds: "- (2 ^ 63) \<le> wrap64 i \<and> wrap64 i < 2 ^ 63"
  by (simp add: wrap64_def)

lemma split_on_nonempty [simp]: "split_on p s \<noteq> []"
  by (induction s) (auto split: list.splits)

lemma index_of_sep:
  assumes "c \<notin> set a"
  shows "index_of [c] (a @ c # b) = Some (length a)"
  using assms by (induction a) (auto simp: has_prefix_def)

subsection \<open>Decimal numbers\<close>

lemma digit_char:
  assumes "0 \<le> m" "m < 10"
  shows "is_digit (char_of (48 + m :: int))"
proof -
  have "m = 0 \<or> m = 1 \<or> m = 2 \<or> m = 3 \<or> m = 4 \<or> m = 5 \<or> m = 6 \<or> m = 7 \<or> m = 8 \<or> m = 9" using assms by arith
  then show ?thesis unfolding is_digit_def less_eq_char_def by (elim disjE) (simp_all, code_simp+)
qed

lemma digits10_digits: "0 \<le> n \<Longrightarrow> list_all is_digit (digits10 n)"
proof (induction n rule: digits10.induct)
  case (1 n)
  show ?case
  proof (cases "n < 10")
    case True
    then show ?thesis using digit_char [of n] 1(2) by (subst digits10.simps) simp
  next
    case False
    have "list_all is_digit (digits10 (n div 10))" using 1(1) [OF False] 1(2) by simp
    then show ?thesis using digit_char [of "n mod 10"] False by (subst digits10.simps) simp
  qed
qed

lemma itoa_notin: "\<not> is_digit c \<Longrightarrow> c \<noteq> CHR ''-'' \<Longrightarrow> c \<notin> set (itoa n)"
  using digits10_digits [of n] digits10_digits [of "- n"] by (auto simp: itoa_def list_all_iff)

lemma digits10_nonempty [simp]: "digits10 n \<noteq> []"
  by (subst digits10.simps) simp

lemma digits10_value: "0 \<le> n \<Longrightarrow> foldl (\<lambda>a c. a * 10 + (of_char c - 48)) 0 (digits10 n) = (n :: int)"
proof (induction n rule: digits10.induct)
  case (1 n)
  have small: "of_char (char_of (48 + m) :: char) = (48 + m :: int)" if "0 \<le> m" "m < 10" for m
  proof -
    have "(48 + m) mod 256 = 48 + m" using that by (intro mod_pos_pos_trivial) linarith+
    then show ?thesis by (simp only: of_char_of)
  qed
  show ?case
  proof (cases "n < 10")
    case True
    then have "digits10 n = [char_of (48 + n)]" by (subst digits10.simps) simp
    then show ?thesis using small [OF 1(2) True] by (simp only: foldl.simps)
  next
    case False
    then have "digits10 n = digits10 (n div 10) @ [char_of (48 + n mod 10)]" by (subst digits10.simps) simp
    moreover have "foldl (\<lambda>a c. a * 10 + (of_char c - 48)) 0 (digits10 (n div 10)) = n div 10"
      by (rule 1(1) [OF False]) (use 1(2) in simp)
    moreover have "of_char (char_of (48 + n mod 10) :: char) = 48 + n mod 10" by (rule small) simp_all
    moreover have "n div 10 * 10 + (48 + n mod 10 - 48) = n" by simp
    ultimately show ?thesis by (simp only: foldl_append foldl.simps)
  qed
qed

end
