(* ===== verification/Agent_Id.thy ===== *)
theory Agent_Id
  imports Prelude
begin

text \<open>
  Identifier normalisation, \<^verbatim>\<open>pkg/routing/agent_id.go\<close>: \<open>NormalizeAgentID\<close> and
  \<open>NormalizeAccountID\<close>. The regular expressions of the file are the character predicates
  and list functions below; both normalisers share one body in the source and differ in the
  default they return. The locale \<open>id_normaliser\<close> states what the callers of either
  function rely on, and both are interpretations of it.
\<close>

definition DefaultAgentID :: string where "DefaultAgentID = ''main''"
definition DefaultMainKey :: string where "DefaultMainKey = ''main''"
definition DefaultAccountID :: string where "DefaultAccountID = ''default''"
definition MaxAgentIDLength :: nat where "MaxAgentIDLength = 64"

definition id_head_char :: "char \<Rightarrow> bool" where
  "id_head_char c \<longleftrightarrow> is_lower c \<or> is_digit c"

definition id_char :: "char \<Rightarrow> bool" where
  "id_char c \<longleftrightarrow> is_lower c \<or> is_digit c \<or> c = CHR ''_'' \<or> c = CHR ''-''"

definition validIDRe :: "string \<Rightarrow> bool" where
  "validIDRe s = (case s of [] \<Rightarrow> False | c # t \<Rightarrow> id_head_char c \<and> list_all id_char t \<and> length t \<le> 63)"

text \<open>\<open>ReplaceAllString(lower, "-")\<close> for \<open>[^a-z0-9_-]+\<close>: one dash per maximal run of
  invalid characters; the flag says whether the previous character was invalid.\<close>

fun invalidCharsRe_replace :: "bool \<Rightarrow> string \<Rightarrow> string" where
  "invalidCharsRe_replace bad [] = []"
| "invalidCharsRe_replace bad (c # s) =
     (if id_char c then c # invalidCharsRe_replace False s
      else if bad then invalidCharsRe_replace True s
      else CHR ''-'' # invalidCharsRe_replace True s)"

definition leadingDashRe_strip :: "string \<Rightarrow> string" where
  "leadingDashRe_strip s = dropWhile (\<lambda>c. c = CHR ''-'') s"

definition trailingDashRe_strip :: "string \<Rightarrow> string" where
  "trailingDashRe_strip s = trim_right (\<lambda>c. c = CHR ''-'') s"

definition NormalizeAgentID :: "string \<Rightarrow> string" where
  "NormalizeAgentID ident =
     (let trimmed = trim_space ident in
      if trimmed = [] then DefaultAgentID
      else let lower = to_lower trimmed in
        if validIDRe lower then lower
        else let result = invalidCharsRe_replace False lower;
                 result = leadingDashRe_strip result;
                 result = trailingDashRe_strip result;
                 result = (if length result > MaxAgentIDLength then take MaxAgentIDLength result
                           else result)
             in if result = [] then DefaultAgentID else result)"

definition NormalizeAccountID :: "string \<Rightarrow> string" where
  "NormalizeAccountID ident =
     (let trimmed = trim_space ident in
      if trimmed = [] then DefaultAccountID
      else let lower = to_lower trimmed in
        if validIDRe lower then lower
        else let result = invalidCharsRe_replace False lower;
                 result = leadingDashRe_strip result;
                 result = trailingDashRe_strip result;
                 result = (if length result > MaxAgentIDLength then take MaxAgentIDLength result
                           else result)
             in if result = [] then DefaultAccountID else result)"

text \<open>What a normalised identifier looks like: the shape the callers may rely on, and the
  exact set of identifiers that normalisation maps to themselves.\<close>

definition id_shape :: "string \<Rightarrow> bool" where
  "id_shape s \<longleftrightarrow> s \<noteq> [] \<and> length s \<le> MaxAgentIDLength \<and> list_all id_char s \<and> hd s \<noteq> CHR ''-''"

definition id_stable :: "string \<Rightarrow> bool" where
  "id_stable s \<longleftrightarrow> id_shape s \<and> \<not> (hd s = CHR ''_'' \<and> last s = CHR ''-'')"

subsection \<open>The body shared by the two normalisers\<close>

definition normalize_with :: "string \<Rightarrow> string \<Rightarrow> string" where
  "normalize_with dflt ident =
     (let lower = to_lower (trim_space ident) in
      if lower = [] then dflt
      else if validIDRe lower then lower
      else let result = take MaxAgentIDLength (trailingDashRe_strip
                 (leadingDashRe_strip (invalidCharsRe_replace False lower)))
           in if result = [] then dflt else result)"

lemma NormalizeAgentID_with: "NormalizeAgentID = normalize_with DefaultAgentID"
  by (rule ext) (simp add: NormalizeAgentID_def normalize_with_def Let_def)

lemma NormalizeAccountID_with: "NormalizeAccountID = normalize_with DefaultAccountID"
  by (rule ext) (simp add: NormalizeAccountID_def normalize_with_def Let_def)

lemma id_char_not_space: "id_char c \<Longrightarrow> \<not> is_space c"
  by (auto simp: id_char_def is_space_def is_lower_def is_digit_def less_eq_char_def)

lemma id_char_not_upper: "id_char c \<Longrightarrow> \<not> is_upper c"
  by (auto simp: id_char_def is_upper_def is_lower_def is_digit_def less_eq_char_def)

lemma id_char_not_colon: "id_char c \<Longrightarrow> c \<noteq> CHR '':''"
  by (auto simp: id_char_def is_lower_def is_digit_def less_eq_char_def)

lemma id_head_char_id_char: "id_head_char c \<Longrightarrow> id_char c \<and> c \<noteq> CHR ''-'' \<and> c \<noteq> CHR ''_''"
  by (auto simp: id_head_char_def id_char_def is_lower_def is_digit_def less_eq_char_def)

lemma id_char_cases: "id_char c \<Longrightarrow> id_head_char c \<or> c = CHR ''_'' \<or> c = CHR ''-''"
  by (auto simp: id_head_char_def id_char_def)

lemma invalidCharsRe_replace_valid: "list_all id_char (invalidCharsRe_replace b s)"
  by (induction b s rule: invalidCharsRe_replace.induct) (simp_all add: id_char_def)

lemma invalidCharsRe_replace_id: "list_all id_char s \<Longrightarrow> invalidCharsRe_replace b s = s"
  by (induction b s rule: invalidCharsRe_replace.induct) auto

lemma validIDRe_shape: "validIDRe s \<Longrightarrow> id_shape s \<and> hd s \<noteq> CHR ''_''"
  by (cases s) (auto simp: validIDRe_def id_shape_def MaxAgentIDLength_def dest: id_head_char_id_char)

lemma id_shape_valid: "id_shape s \<Longrightarrow> hd s \<noteq> CHR ''_'' \<Longrightarrow> validIDRe s"
  by (cases s) (auto simp: validIDRe_def id_shape_def MaxAgentIDLength_def dest: id_char_cases)

lemma list_all_dropWhile: "list_all P s \<Longrightarrow> list_all P (dropWhile Q s)"
  by (induction s) auto

lemma list_all_trim_right: "list_all P s \<Longrightarrow> list_all P (trim_right Q s)"
  using prefix_trim_right [of s Q] by (metis list_all_append)

lemma list_all_take: "list_all P s \<Longrightarrow> list_all P (take n s)"
  by (metis append_take_drop_id list_all_append)

lemma hd_dropWhile_dash: "leadingDashRe_strip s \<noteq> [] \<Longrightarrow> hd (leadingDashRe_strip s) \<noteq> CHR ''-''"
  unfolding leadingDashRe_strip_def by (rule hd_dropWhile)

lemma stripped_shape:
  assumes "r = take MaxAgentIDLength (trailingDashRe_strip
             (leadingDashRe_strip (invalidCharsRe_replace False s)))" "r \<noteq> []"
  shows "id_shape r"
proof -
  let ?m = "leadingDashRe_strip (invalidCharsRe_replace False s)"
  have all: "list_all id_char r"
    unfolding assms(1) trailingDashRe_strip_def leadingDashRe_strip_def
    by (intro list_all_take list_all_trim_right list_all_dropWhile invalidCharsRe_replace_valid)
  have t: "trailingDashRe_strip ?m \<noteq> []" using assms by auto
  have "hd r = hd (trailingDashRe_strip ?m)"
    unfolding assms(1) by (rule hd_take) (simp add: MaxAgentIDLength_def)
  also have "\<dots> = hd ?m"
    using t unfolding trailingDashRe_strip_def by (rule hd_trim_right)
  finally have "hd r \<noteq> CHR ''-''"
    using t hd_dropWhile_dash [of "invalidCharsRe_replace False s"]
    by (cases ?m) (auto simp: trailingDashRe_strip_def trim_right_def)
  with all assms show ?thesis by (simp add: id_shape_def)
qed

lemma normalize_with_shape:
  assumes "id_shape dflt"
  shows "id_shape (normalize_with dflt s)"
  using assms stripped_shape [OF refl]
  by (auto simp: normalize_with_def Let_def dest: validIDRe_shape)

lemma id_shape_trim: "id_shape s \<Longrightarrow> trim_space s = s"
  by (rule trim_space_id) (auto simp: id_shape_def list_all_iff intro!: id_char_not_space)

lemma id_shape_lower: "id_shape s \<Longrightarrow> to_lower s = s"
  by (rule to_lower_id) (auto simp: id_shape_def list_all_iff intro!: id_char_not_upper)

lemma id_shape_no_colon: "id_shape s \<Longrightarrow> CHR '':'' \<notin> set s"
  using id_char_not_colon by (fastforce simp: id_shape_def list_all_iff)

lemma leadingDashRe_strip_id: "hd s \<noteq> CHR ''-'' \<Longrightarrow> leadingDashRe_strip s = s"
  by (cases s) (simp_all add: leadingDashRe_strip_def)

text \<open>Normalisation leaves a stable identifier alone, and of the identifiers it can produce
  only the stable ones.\<close>

lemma normalize_with_stable:
  assumes "id_stable s"
  shows "normalize_with d s = s"
proof (cases "validIDRe s")
  case True
  with assms show ?thesis
    by (auto simp: normalize_with_def id_stable_def id_shape_trim id_shape_lower validIDRe_def)
next
  case False
  have shape: "id_shape s" using assms by (simp add: id_stable_def)
  with False have "hd s = CHR ''_''" using id_shape_valid by blast
  with assms have "last s \<noteq> CHR ''-''" "hd s \<noteq> CHR ''-''" by (auto simp: id_stable_def)
  then have "trailingDashRe_strip s = s" "leadingDashRe_strip s = s"
    by (simp_all add: trailingDashRe_strip_def trim_right_id leadingDashRe_strip_id)
  with False shape show ?thesis
    by (simp add: normalize_with_def Let_def id_shape_trim id_shape_lower
        invalidCharsRe_replace_id id_shape_def)
qed

lemma normalize_with_unstable:
  assumes "id_shape s" "\<not> id_stable s"
  shows "normalize_with d s \<noteq> s"
proof
  assume eq: "normalize_with d s = s"
  from assms have hl: "hd s = CHR ''_''" "last s = CHR ''-''" by (auto simp: id_stable_def)
  have "\<not> validIDRe s" using hl validIDRe_shape by blast
  then have "s = take MaxAgentIDLength (trailingDashRe_strip s) \<or> trailingDashRe_strip s = []"
    using eq assms(1) hl
    by (auto simp: normalize_with_def Let_def id_shape_trim id_shape_lower MaxAgentIDLength_def
        invalidCharsRe_replace_id id_shape_def leadingDashRe_strip_id split: if_splits)
  moreover have "length (trailingDashRe_strip s) \<le> MaxAgentIDLength"
    using assms(1) length_trim_right [of "\<lambda>c. c = CHR ''-''" s]
    by (simp add: id_shape_def trailingDashRe_strip_def)
  moreover have "trailingDashRe_strip s \<noteq> []"
    using hl assms(1) hd_in_set [of s]
    by (auto simp: trailingDashRe_strip_def trim_right_eq_Nil id_shape_def)
  ultimately have "s = trailingDashRe_strip s" by auto
  with hl last_trim_right [of "\<lambda>c. c = CHR ''-''" s] assms(1) show False
    by (simp add: trailingDashRe_strip_def id_shape_def)
qed

lemma last_stripped:
  assumes "length (trailingDashRe_strip s) \<le> MaxAgentIDLength" "trailingDashRe_strip s \<noteq> []"
  shows "last (take MaxAgentIDLength (trailingDashRe_strip s)) \<noteq> CHR ''-''"
  using assms last_trim_right [of "\<lambda>c. c = CHR ''-''" s] by (simp add: trailingDashRe_strip_def)

lemma length_invalidCharsRe_replace: "length (invalidCharsRe_replace b s) \<le> length s"
  by (induction b s rule: invalidCharsRe_replace.induct) auto

text \<open>Inputs of at most 64 bytes after trimming never reach the truncation, and their
  normal form is stable.\<close>

lemma normalize_with_short_stable:
  assumes "length (trim_space s) \<le> MaxAgentIDLength" "id_stable d"
  shows "id_stable (normalize_with d s)"
proof -
  let ?l = "to_lower (trim_space s)"
  let ?t = "trailingDashRe_strip (leadingDashRe_strip (invalidCharsRe_replace False ?l))"
  have len: "length ?t \<le> MaxAgentIDLength"
    using assms(1) length_invalidCharsRe_replace [of False ?l]
      length_dropWhile_le [of "\<lambda>c. c = CHR ''-''" "invalidCharsRe_replace False ?l"]
      length_trim_right [of "\<lambda>c. c = CHR ''-''" "leadingDashRe_strip (invalidCharsRe_replace False ?l)"]
    by (simp add: trailingDashRe_strip_def leadingDashRe_strip_def)
  have "id_stable (take MaxAgentIDLength ?t)" if "?t \<noteq> []"
    using stripped_shape [OF refl, of ?l] last_stripped [OF len that] that
    by (simp add: id_stable_def MaxAgentIDLength_def)
  then show ?thesis
    using assms(2) validIDRe_shape [of ?l]
    by (auto simp: normalize_with_def Let_def id_stable_def MaxAgentIDLength_def)
qed

subsection \<open>The interface of an identifier normaliser\<close>

locale id_normaliser =
  fixes norm :: "string \<Rightarrow> string" and dflt :: string
  assumes norm_shape: "id_shape (norm s)"
    and norm_empty: "trim_space s = [] \<Longrightarrow> norm s = dflt"
    and norm_stable: "id_stable s \<Longrightarrow> norm s = s"
    and norm_unstable: "id_shape s \<Longrightarrow> \<not> id_stable s \<Longrightarrow> norm s \<noteq> s"
    and norm_short: "length (trim_space s) \<le> MaxAgentIDLength \<Longrightarrow> id_stable (norm s)"
    and norm_trim: "norm (trim_space s) = norm s"
    and norm_lower: "norm (to_lower s) = norm s"
begin

lemma norm_idem_iff: "norm (norm s) = norm s \<longleftrightarrow> id_stable (norm s)"
  using norm_shape norm_stable norm_unstable by blast

lemma norm_idem_short: "length (trim_space s) \<le> MaxAgentIDLength \<Longrightarrow> norm (norm s) = norm s"
  by (simp add: norm_idem_iff norm_short)

text \<open>A second application always reaches a fixed point: the result of the first has at most
  64 bytes and no spaces.\<close>

lemma norm_twice: "norm (norm (norm s)) = norm (norm s)"
proof -
  have "length (trim_space (norm s)) \<le> MaxAgentIDLength"
    using norm_shape [of s] by (simp add: id_shape_trim id_shape_def)
  then show ?thesis by (rule norm_idem_short)
qed

lemma norm_no_colon: "CHR '':'' \<notin> set (norm s)"
  using norm_shape by (rule id_shape_no_colon)

lemma norm_nonempty: "norm s \<noteq> []"
  using norm_shape [of s] by (simp add: id_shape_def)

lemma lower_norm [simp]: "to_lower (norm s) = norm s"
  using norm_shape by (rule id_shape_lower)

lemma trim_norm [simp]: "trim_space (norm s) = norm s"
  using norm_shape by (rule id_shape_trim)

end

lemma id_normaliser_with:
  assumes "id_stable d"
  shows "id_normaliser (normalize_with d) d"
proof
  show "id_shape (normalize_with d s)" for s
    using assms by (simp add: normalize_with_shape id_stable_def)
  show "normalize_with d s = d" if "trim_space s = []" for s
    using that by (simp add: normalize_with_def)
  show "normalize_with d s = s" if "id_stable s" for s
    using that by (rule normalize_with_stable)
  show "normalize_with d s \<noteq> s" if "id_shape s" "\<not> id_stable s" for s
    using that by (rule normalize_with_unstable)
  show "id_stable (normalize_with d s)" if "length (trim_space s) \<le> MaxAgentIDLength" for s
    using that assms by (rule normalize_with_short_stable)
  show "normalize_with d (trim_space s) = normalize_with d s" for s
    by (simp add: normalize_with_def)
  show "normalize_with d (to_lower s) = normalize_with d s" for s
    by (simp add: normalize_with_def trim_space_to_lower)
qed

lemma id_stable_defaults: "id_stable DefaultAgentID" "id_stable DefaultAccountID"
  by code_simp+

interpretation agent_id: id_normaliser NormalizeAgentID DefaultAgentID
  unfolding NormalizeAgentID_with by (rule id_normaliser_with) (rule id_stable_defaults)

interpretation account_id: id_normaliser NormalizeAccountID DefaultAccountID
  unfolding NormalizeAccountID_with by (rule id_normaliser_with) (rule id_stable_defaults)

subsection \<open>Properties\<close>

text \<open>Both normalisers return, for every input, a non-empty identifier of at most 64 bytes
  over \<open>[a-z0-9_-]\<close> that does not begin with a dash; white-space input gives the default.\<close>

theorem normalize_ids_shape:
  "(\<forall>s. id_shape (NormalizeAgentID s) \<and> id_shape (NormalizeAccountID s)) \<and>
   NormalizeAgentID ''  '' = ''main'' \<and> NormalizeAccountID [tab] = ''default''"
proof -
  have "NormalizeAgentID ''  '' = ''main'' \<and> NormalizeAccountID [tab] = ''default''" by code_simp
  then show ?thesis by (simp add: agent_id.norm_shape account_id.norm_shape)
qed

text \<open>Normalising twice is the same as normalising once exactly for results that do not
  both begin with an underscore and end in a dash; inputs of at most 64 bytes never produce
  such a result, and a third application changes nothing for any input.\<close>

theorem NormalizeAgentID_idempotence:
  "(NormalizeAgentID (NormalizeAgentID s) = NormalizeAgentID s \<longleftrightarrow>
     \<not> (hd (NormalizeAgentID s) = CHR ''_'' \<and> last (NormalizeAgentID s) = CHR ''-'')) \<and>
   (length (trim_space s) \<le> 64 \<longrightarrow> NormalizeAgentID (NormalizeAgentID s) = NormalizeAgentID s) \<and>
   NormalizeAgentID (NormalizeAgentID (NormalizeAgentID s)) = NormalizeAgentID (NormalizeAgentID s)"
  using agent_id.norm_idem_iff [of s] agent_id.norm_shape [of s] agent_id.norm_idem_short [of s]
    agent_id.norm_twice [of s]
  by (simp add: id_stable_def MaxAgentIDLength_def)

theorem NormalizeAgentID_idempotence_witness:
  "length (trim_space '' My Bot!! '') \<le> 64 \<and>
   NormalizeAgentID (NormalizeAgentID '' My Bot!! '') = NormalizeAgentID '' My Bot!! '' \<and>
   NormalizeAgentID '' My Bot!! '' = ''my-bot''"
proof -
  have l: "length (trim_space '' My Bot!! '') \<le> 64" by code_simp
  have v: "NormalizeAgentID '' My Bot!! '' = ''my-bot''" by code_simp
  show ?thesis
    using NormalizeAgentID_idempotence [of "'' My Bot!! ''"] l v by simp
qed

text \<open>The documented target form \<open>[a-z0-9][a-z0-9_-]{0,63}\<close> with stripped dashes is not
  always reached: a leading underscore survives, and truncation to 64 bytes can leave a
  trailing dash, after which a second normalisation gives a different identifier.\<close>

theorem NormalizeAgentID_misses_documented_form:
  "NormalizeAgentID ''_ops'' = ''_ops'' \<and> \<not> validIDRe (NormalizeAgentID ''_ops'') \<and>
   (let s = ''_'' @ replicate 62 CHR ''a'' @ ''-b'' in
      last (NormalizeAgentID s) = CHR ''-'' \<and>
      NormalizeAgentID (NormalizeAgentID s) \<noteq> NormalizeAgentID s)"
  by code_simp

end
