(* ===== verification/Session_Key.thy ===== *)
theory Session_Key
  imports Agent_Id
begin

text \<open>
  Session keys, \<^verbatim>\<open>pkg/routing/session_key.go\<close>: building the key under which a
  conversation is stored from agent, channel, account, peer and direct-message scope, and
  parsing it back. A Go map is iterated in an unspecified order, so \<open>identity_links\<close> is the
  list of its entries in the order one iteration visits them; what depends on that order is
  stated as such.
\<close>

type_synonym dm_scope = string

definition DMScopeMain :: dm_scope where "DMScopeMain = ''main''"
definition DMScopePerPeer :: dm_scope where "DMScopePerPeer = ''per-peer''"
definition DMScopePerChannelPeer :: dm_scope where "DMScopePerChannelPeer = ''per-channel-peer''"
definition DMScopePerAccountChannelPeer :: dm_scope where
  "DMScopePerAccountChannelPeer = ''per-account-channel-peer''"

record RoutePeer =
  Kind :: string
  ID :: string

type_synonym identity_links = "(string \<times> string list) list"

record SessionKeyParams =
  kp_AgentID :: string
  kp_Channel :: string
  kp_AccountID :: string
  kp_Peer :: "RoutePeer option"
  kp_DMScope :: dm_scope
  kp_IdentityLinks :: identity_links

record ParsedSessionKey =
  ps_AgentID :: string
  ps_Rest :: string

definition BuildAgentMainSessionKey :: "string \<Rightarrow> string" where
  "BuildAgentMainSessionKey agentID =
     ''agent:'' @ NormalizeAgentID agentID @ '':'' @ DefaultMainKey"

definition normalizeChannel :: "string \<Rightarrow> string" where
  "normalizeChannel channel =
     (let c = trim_space (to_lower channel) in if c = [] then ''unknown'' else c)"

definition link_candidates :: "string \<Rightarrow> string \<Rightarrow> string list" where
  "link_candidates channel peerID =
     (let peerID = trim_space peerID;
          rawCandidate = to_lower peerID;
          channel = to_lower (trim_space channel)
      in (if rawCandidate \<noteq> [] then [rawCandidate] else []) @
         (if channel \<noteq> [] then [channel @ '':'' @ to_lower peerID] else []))"

text \<open>One entry of the loop over \<^verbatim>\<open>identityLinks\<close>: the canonical name when one of the
  listed identifiers is a candidate.\<close>

definition link_entry :: "string list \<Rightarrow> string \<times> string list \<Rightarrow> string option" where
  "link_entry candidates e =
     (let canonicalName = trim_space (fst e) in
      if canonicalName = [] then None
      else if \<exists>i \<in> set (snd e). (let normalized = to_lower (trim_space i) in
                normalized \<noteq> [] \<and> normalized \<in> set candidates)
           then Some canonicalName else None)"

fun resolve_links :: "string list \<Rightarrow> identity_links \<Rightarrow> string" where
  "resolve_links candidates [] = []"
| "resolve_links candidates (e # es) =
     (case link_entry candidates e of Some name \<Rightarrow> name | None \<Rightarrow> resolve_links candidates es)"

definition resolveLinkedPeerID :: "identity_links \<Rightarrow> string \<Rightarrow> string \<Rightarrow> string" where
  "resolveLinkedPeerID identityLinks channel peerID =
     (if identityLinks = [] then []
      else if trim_space peerID = [] then []
      else let candidates = link_candidates channel peerID in
        if candidates = [] then [] else resolve_links candidates identityLinks)"

text \<open>The identifier a direct peer is keyed by, after identity links and lower-casing.\<close>

definition direct_peer_id :: "SessionKeyParams \<Rightarrow> dm_scope \<Rightarrow> RoutePeer \<Rightarrow> string" where
  "direct_peer_id params dmScope peer =
     (let peerID = trim_space (ID peer);
          peerID = (if dmScope \<noteq> DMScopeMain \<and> peerID \<noteq> [] then
                      let linked = resolveLinkedPeerID (kp_IdentityLinks params) (kp_Channel params) peerID
                      in if linked \<noteq> [] then linked else peerID
                    else peerID)
      in to_lower peerID)"

definition BuildAgentPeerSessionKey :: "SessionKeyParams \<Rightarrow> string" where
  "BuildAgentPeerSessionKey params =
     (let agentID = NormalizeAgentID (kp_AgentID params);
          peer = (case kp_Peer params of None \<Rightarrow> \<lparr>Kind = ''direct'', ID = []\<rparr> | Some p \<Rightarrow> p);
          peerKind = trim_space (Kind peer);
          peerKind = (if peerKind = [] then ''direct'' else peerKind)
      in if peerKind = ''direct'' then
           let dmScope = (if kp_DMScope params = [] then DMScopeMain else kp_DMScope params);
               peerID = direct_peer_id params dmScope peer
           in if dmScope = DMScopePerAccountChannelPeer \<and> peerID \<noteq> [] then
                ''agent:'' @ agentID @ '':'' @ normalizeChannel (kp_Channel params) @ '':'' @
                  NormalizeAccountID (kp_AccountID params) @ '':direct:'' @ peerID
              else if dmScope = DMScopePerChannelPeer \<and> peerID \<noteq> [] then
                ''agent:'' @ agentID @ '':'' @ normalizeChannel (kp_Channel params) @ '':direct:'' @ peerID
              else if dmScope = DMScopePerPeer \<and> peerID \<noteq> [] then
                ''agent:'' @ agentID @ '':direct:'' @ peerID
              else BuildAgentMainSessionKey agentID
         else
           let channel = normalizeChannel (kp_Channel params);
               peerID = to_lower (trim_space (ID peer));
               peerID = (if peerID = [] then ''unknown'' else peerID)
           in ''agent:'' @ agentID @ '':'' @ channel @ '':'' @ peerKind @ '':'' @ peerID)"

definition ParseAgentSessionKey :: "string \<Rightarrow> ParsedSessionKey option" where
  "ParseAgentSessionKey sessionKey =
     (let raw = trim_space sessionKey in
      if raw = [] then None
      else case split_n 3 CHR '':'' raw of
             [p0, p1, rest] \<Rightarrow>
               if p0 \<noteq> ''agent'' then None
               else let agentID = trim_space p1 in
                 if agentID = [] \<or> rest = [] then None
                 else Some \<lparr>ps_AgentID = agentID, ps_Rest = rest\<rparr>
           | _ \<Rightarrow> None)"

definition IsSubagentSessionKey :: "string \<Rightarrow> bool" where
  "IsSubagentSessionKey sessionKey =
     (let raw = trim_space sessionKey in
      if raw = [] then False
      else if has_prefix ''subagent:'' (to_lower raw) then True
      else case ParseAgentSessionKey raw of
             None \<Rightarrow> False
           | Some parsed \<Rightarrow> has_prefix ''subagent:'' (to_lower (ps_Rest parsed)))"

subsection \<open>Identity links\<close>

lemma resolve_links_None: "\<forall>e \<in> set es. link_entry c e = None \<Longrightarrow> resolve_links c es = []"
  by (induction es) auto

lemma resolve_links_unique:
  assumes "\<forall>e \<in> set es. \<forall>n. link_entry c e = Some n \<longrightarrow> n = name"
    and "\<exists>e \<in> set es. link_entry c e = Some name"
  shows "resolve_links c es = name"
  using assms by (induction es) (auto split: option.splits)

lemma link_entry_trimmed: "link_entry c e = Some n \<Longrightarrow> n \<noteq> [] \<and> trim_space n = n"
  by (auto simp: link_entry_def Let_def split: if_splits)

lemma resolve_links_trimmed: "trim_space (resolve_links c es) = resolve_links c es"
  by (induction es) (auto split: option.splits dest: link_entry_trimmed)

lemma direct_peer_id_trimmed: "trim_space (direct_peer_id p s r) = direct_peer_id p s r"
  by (simp add: direct_peer_id_def resolveLinkedPeerID_def Let_def trim_space_to_lower
      resolve_links_trimmed)

lemma direct_peer_id_empty: "trim_space (ID r) = [] \<Longrightarrow> direct_peer_id p s r = []"
  by (simp add: direct_peer_id_def)

lemma direct_peer_id_unlinked:
  "kp_IdentityLinks p = [] \<Longrightarrow> direct_peer_id p s r = to_lower (trim_space (ID r))"
  by (simp add: direct_peer_id_def resolveLinkedPeerID_def Let_def)

subsection \<open>The shape of a key and parsing it back\<close>

definition agent_key :: "string \<Rightarrow> string \<Rightarrow> string" where
  "agent_key agentID rest = ''agent:'' @ agentID @ '':'' @ rest"

lemma split_n_agent_key:
  "CHR '':'' \<notin> set a \<Longrightarrow> split_n 3 CHR '':'' (agent_key a rest) = [''agent'', a, rest]"
  using index_of_single_append [of "CHR '':''" "''agent''" "a @ '':'' @ rest"]
    index_of_single_append [of "CHR '':''" a rest]
  by (simp add: agent_key_def numeral_3_eq_3)

lemma trim_agent_key:
  assumes "rest \<noteq> []" "\<not> is_space (last rest)"
  shows "trim_space (agent_key a rest) = agent_key a rest"
  using assms by (intro trim_space_id) (simp add: agent_key_def is_space_def)

lemma Parse_agent_key:
  assumes "id_shape a" "rest \<noteq> []" "\<not> is_space (last rest)"
  shows "ParseAgentSessionKey (agent_key a rest) = Some \<lparr>ps_AgentID = a, ps_Rest = rest\<rparr>"
  using assms split_n_agent_key [OF id_shape_no_colon [OF assms(1)], of rest]
  by (simp add: ParseAgentSessionKey_def trim_agent_key Let_def id_shape_trim id_shape_def)
     (simp add: agent_key_def)

lemma last_not_space_trimmed: "trim_space s = s \<Longrightarrow> s \<noteq> [] \<Longrightarrow> \<not> is_space (last s)"
  by (metis last_trim_right trim_space_def)

lemma main_key_as_agent_key: "BuildAgentMainSessionKey a = agent_key (NormalizeAgentID a) ''main''"
  by (simp add: BuildAgentMainSessionKey_def agent_key_def DefaultMainKey_def)

lemma trimmed_lower_last: "to_lower (trim_space s) \<noteq> [] \<Longrightarrow> \<not> is_space (last (to_lower (trim_space s)))"
  by (rule last_not_space_trimmed) (simp_all add: trim_space_to_lower)

lemma direct_peer_id_last: "direct_peer_id p s r \<noteq> [] \<Longrightarrow> \<not> is_space (last (direct_peer_id p s r))"
  by (rule last_not_space_trimmed) (simp_all add: direct_peer_id_trimmed)

text \<open>The local variables of \<open>BuildAgentPeerSessionKey\<close>, named, and the function as a case
  distinction over them.\<close>

definition key_peer :: "SessionKeyParams \<Rightarrow> RoutePeer" where
  "key_peer p = (case kp_Peer p of None \<Rightarrow> \<lparr>Kind = ''direct'', ID = []\<rparr> | Some r \<Rightarrow> r)"

definition key_kind :: "SessionKeyParams \<Rightarrow> string" where
  "key_kind p = (if trim_space (Kind (key_peer p)) = [] then ''direct'' else trim_space (Kind (key_peer p)))"

definition key_scope :: "SessionKeyParams \<Rightarrow> dm_scope" where
  "key_scope p = (if kp_DMScope p = [] then DMScopeMain else kp_DMScope p)"

definition key_direct_id :: "SessionKeyParams \<Rightarrow> string" where
  "key_direct_id p = direct_peer_id p (key_scope p) (key_peer p)"

definition key_group_id :: "SessionKeyParams \<Rightarrow> string" where
  "key_group_id p = (let g = to_lower (trim_space (ID (key_peer p))) in if g = [] then ''unknown'' else g)"

lemmas scope_defs = DMScopeMain_def DMScopePerPeer_def DMScopePerChannelPeer_def
  DMScopePerAccountChannelPeer_def

lemma Build_cases:
  "BuildAgentPeerSessionKey p =
     (if key_kind p \<noteq> ''direct'' then
        agent_key (NormalizeAgentID (kp_AgentID p))
          (normalizeChannel (kp_Channel p) @ '':'' @ key_kind p @ '':'' @ key_group_id p)
      else if key_scope p = DMScopePerAccountChannelPeer \<and> key_direct_id p \<noteq> [] then
        agent_key (NormalizeAgentID (kp_AgentID p))
          (normalizeChannel (kp_Channel p) @ '':'' @ NormalizeAccountID (kp_AccountID p) @
           '':direct:'' @ key_direct_id p)
      else if key_scope p = DMScopePerChannelPeer \<and> key_direct_id p \<noteq> [] then
        agent_key (NormalizeAgentID (kp_AgentID p))
          (normalizeChannel (kp_Channel p) @ '':direct:'' @ key_direct_id p)
      else if key_scope p = DMScopePerPeer \<and> key_direct_id p \<noteq> [] then
        agent_key (NormalizeAgentID (kp_AgentID p)) (''direct:'' @ key_direct_id p)
      else agent_key (NormalizeAgentID (NormalizeAgentID (kp_AgentID p))) ''main'')"
  unfolding BuildAgentPeerSessionKey_def key_peer_def [symmetric] key_scope_def [symmetric]
  unfolding Let_def key_kind_def [symmetric] key_direct_id_def [symmetric] main_key_as_agent_key
  by (simp add: agent_key_def key_group_id_def Let_def)

lemma scopes_distinct:
  "DMScopePerPeer \<noteq> DMScopePerChannelPeer" "DMScopePerPeer \<noteq> DMScopePerAccountChannelPeer"
  "DMScopePerChannelPeer \<noteq> DMScopePerAccountChannelPeer"
  by (simp_all add: scope_defs)

lemma Build_per_peer:
  "key_kind p = ''direct'' \<Longrightarrow> key_scope p = DMScopePerPeer \<Longrightarrow> key_direct_id p \<noteq> [] \<Longrightarrow>
   BuildAgentPeerSessionKey p =
     agent_key (NormalizeAgentID (kp_AgentID p)) (''direct:'' @ key_direct_id p)"
  unfolding Build_cases using scopes_distinct by presburger

lemma Build_per_channel_peer:
  "key_kind p = ''direct'' \<Longrightarrow> key_scope p = DMScopePerChannelPeer \<Longrightarrow> key_direct_id p \<noteq> [] \<Longrightarrow>
   BuildAgentPeerSessionKey p = agent_key (NormalizeAgentID (kp_AgentID p))
     (normalizeChannel (kp_Channel p) @ '':direct:'' @ key_direct_id p)"
  unfolding Build_cases using scopes_distinct by presburger

lemma Build_per_account_channel_peer:
  "key_kind p = ''direct'' \<Longrightarrow> key_scope p = DMScopePerAccountChannelPeer \<Longrightarrow> key_direct_id p \<noteq> [] \<Longrightarrow>
   BuildAgentPeerSessionKey p = agent_key (NormalizeAgentID (kp_AgentID p))
     (normalizeChannel (kp_Channel p) @ '':'' @ NormalizeAccountID (kp_AccountID p) @
      '':direct:'' @ key_direct_id p)"
  unfolding Build_cases by presburger

lemma normalizeChannel_no_colon:
  assumes "CHR '':'' \<notin> set c"
  shows "CHR '':'' \<notin> set (normalizeChannel c)"
  using notin_to_lower_trim [OF assms] by (simp add: normalizeChannel_def Let_def trim_space_to_lower is_lower_def less_eq_char_def)

lemma key_direct_id_last: "key_direct_id p \<noteq> [] \<Longrightarrow> \<not> is_space (last (key_direct_id p))"
  unfolding key_direct_id_def by (rule direct_peer_id_last)

lemma key_group_id_last: "key_group_id p \<noteq> [] \<and> \<not> is_space (last (key_group_id p))"
  using trimmed_lower_last [of "ID (key_peer p)"]
  by (simp add: key_group_id_def Let_def is_space_def)

text \<open>Every key has the form \<open>agent:<normalised id>:<rest>\<close> with a non-empty rest that does not
  end in white space. The main key normalises the agent identifier a second time.\<close>

lemma peer_key_as_agent_key:
  "\<exists>a rest. BuildAgentPeerSessionKey p = agent_key a rest \<and> rest \<noteq> [] \<and> \<not> is_space (last rest) \<and>
     (a = NormalizeAgentID (kp_AgentID p) \<or> a = NormalizeAgentID (NormalizeAgentID (kp_AgentID p)))"
proof -
  define P where "P k \<longleftrightarrow> (\<exists>a rest. k = agent_key a rest \<and> rest \<noteq> [] \<and> \<not> is_space (last rest) \<and>
     (a = NormalizeAgentID (kp_AgentID p) \<or> a = NormalizeAgentID (NormalizeAgentID (kp_AgentID p))))" for k
  have I: "P (agent_key a rest)" if "rest \<noteq> [] \<and> \<not> is_space (last rest)"
    "a = NormalizeAgentID (kp_AgentID p) \<or> a = NormalizeAgentID (NormalizeAgentID (kp_AgentID p))" for a rest
    using that unfolding P_def by blast
  have "P (BuildAgentPeerSessionKey p)"
    using key_direct_id_last [of p] key_group_id_last [of p]
    unfolding Build_cases by (auto intro!: I simp: is_space_def)
  then show ?thesis unfolding P_def .
qed

text \<open>The scope prefix of a direct key: what stands between the agent identifier and the peer.\<close>

lemma Parse_peer_key:
  assumes "id_stable (NormalizeAgentID (kp_AgentID p))"
  shows "\<exists>rest. ParseAgentSessionKey (BuildAgentPeerSessionKey p) =
           Some \<lparr>ps_AgentID = NormalizeAgentID (kp_AgentID p), ps_Rest = rest\<rparr> \<and>
         BuildAgentPeerSessionKey p = agent_key (NormalizeAgentID (kp_AgentID p)) rest"
  using peer_key_as_agent_key [of p] agent_id.norm_stable [OF assms]
    Parse_agent_key [OF agent_id.norm_shape] by metis

lemma append_colon_inj:
  assumes "a @ CHR '':'' # x = b @ CHR '':'' # y" "CHR '':'' \<notin> set a" "CHR '':'' \<notin> set b"
  shows "a = b \<and> x = y"
proof -
  have "takeWhile (\<lambda>c. c \<noteq> CHR '':'') (a @ CHR '':'' # x) = a"
    using assms(2) by (subst takeWhile_append2) auto
  moreover have "takeWhile (\<lambda>c. c \<noteq> CHR '':'') (b @ CHR '':'' # y) = b"
    using assms(3) by (subst takeWhile_append2) auto
  ultimately have "a = b" using assms(1) by simp
  with assms(1) show ?thesis by simp
qed

lemma agent_key_inj:
  assumes "agent_key a x = agent_key b y" "id_shape a" "id_shape b"
  shows "a = b \<and> x = y"
  using append_colon_inj [of a x b y] assms id_shape_no_colon by (simp add: agent_key_def)

subsection \<open>Properties\<close>

text \<open>Parsing a built session key gives back the normalised agent identifier and the rest
  of the key, for every parameter set whose agent identifier normalises to a stable one (in
  particular for every identifier of at most 64 bytes).\<close>

theorem session_key_roundtrip:
  assumes "length (trim_space (kp_AgentID p)) \<le> 64"
  shows "\<exists>rest. rest \<noteq> [] \<and>
    BuildAgentPeerSessionKey p = ''agent:'' @ NormalizeAgentID (kp_AgentID p) @ '':'' @ rest \<and>
    ParseAgentSessionKey (BuildAgentPeerSessionKey p) =
      Some \<lparr>ps_AgentID = NormalizeAgentID (kp_AgentID p), ps_Rest = rest\<rparr>"
proof -
  have st: "id_stable (NormalizeAgentID (kp_AgentID p))"
    using assms agent_id.norm_short by (simp add: MaxAgentIDLength_def)
  obtain rest where r: "ParseAgentSessionKey (BuildAgentPeerSessionKey p) =
      Some \<lparr>ps_AgentID = NormalizeAgentID (kp_AgentID p), ps_Rest = rest\<rparr>"
    "BuildAgentPeerSessionKey p = agent_key (NormalizeAgentID (kp_AgentID p)) rest"
    using Parse_peer_key [OF st] by blast
  obtain a rest' where k: "BuildAgentPeerSessionKey p = agent_key a rest'" "rest' \<noteq> []" "id_shape a"
    using peer_key_as_agent_key [of p] agent_id.norm_shape by metis
  have "rest = rest'" using agent_key_inj k r(2) agent_id.norm_shape by metis
  with r k(2) show ?thesis by (auto simp: agent_key_def)
qed

definition sample_group_params :: SessionKeyParams where
  "sample_group_params = \<lparr>kp_AgentID = ''Ops'', kp_Channel = ''Slack'', kp_AccountID = [],
     kp_Peer = Some \<lparr>Kind = ''group'', ID = ''C42''\<rparr>, kp_DMScope = [], kp_IdentityLinks = []\<rparr>"

theorem session_key_roundtrip_witness:
  "BuildAgentPeerSessionKey sample_group_params = ''agent:ops:slack:group:c42'' \<and>
   (\<exists>rest. rest \<noteq> [] \<and>
    BuildAgentPeerSessionKey sample_group_params =
      ''agent:'' @ NormalizeAgentID (kp_AgentID sample_group_params) @ '':'' @ rest \<and>
    ParseAgentSessionKey (BuildAgentPeerSessionKey sample_group_params) =
      Some \<lparr>ps_AgentID = NormalizeAgentID (kp_AgentID sample_group_params), ps_Rest = rest\<rparr>)"
proof
  show "BuildAgentPeerSessionKey sample_group_params = ''agent:ops:slack:group:c42''" by code_simp
  have "length (trim_space (kp_AgentID sample_group_params)) \<le> 64" by code_simp
  then show "\<exists>rest. rest \<noteq> [] \<and>
    BuildAgentPeerSessionKey sample_group_params =
      ''agent:'' @ NormalizeAgentID (kp_AgentID sample_group_params) @ '':'' @ rest \<and>
    ParseAgentSessionKey (BuildAgentPeerSessionKey sample_group_params) =
      Some \<lparr>ps_AgentID = NormalizeAgentID (kp_AgentID sample_group_params), ps_Rest = rest\<rparr>"
    by (rule session_key_roundtrip)
qed

text \<open>(C10) Direct-message isolation: under the scopes \<open>per-peer\<close>, \<open>per-channel-peer\<close> and
  \<open>per-account-channel-peer\<close>, two direct conversations of named peers on colon-free channels get
  the same session key only if they agree on the agent and on the resolved peer, and, as the
  scope asks, on the channel and the account.\<close>

theorem direct_sessions_isolated:
  assumes "key_kind p = ''direct''" "key_kind q = ''direct''"
    and "key_scope p = key_scope q"
    and "key_scope p \<in> {DMScopePerPeer, DMScopePerChannelPeer, DMScopePerAccountChannelPeer}"
    and "key_direct_id p \<noteq> []" "key_direct_id q \<noteq> []"
    and "CHR '':'' \<notin> set (kp_Channel p)" "CHR '':'' \<notin> set (kp_Channel q)"
    and eq: "BuildAgentPeerSessionKey p = BuildAgentPeerSessionKey q"
  shows "NormalizeAgentID (kp_AgentID p) = NormalizeAgentID (kp_AgentID q) \<and>
    key_direct_id p = key_direct_id q \<and>
    (key_scope p \<noteq> DMScopePerPeer \<longrightarrow>
       normalizeChannel (kp_Channel p) = normalizeChannel (kp_Channel q)) \<and>
    (key_scope p = DMScopePerAccountChannelPeer \<longrightarrow>
       NormalizeAccountID (kp_AccountID p) = NormalizeAccountID (kp_AccountID q))"
proof -
  note inj = agent_key_inj [OF _ agent_id.norm_shape agent_id.norm_shape]
  note split1 = append_colon_inj [OF _ normalizeChannel_no_colon [OF assms(7)]
      normalizeChannel_no_colon [OF assms(8)]]
  note split2 = append_colon_inj [OF _ account_id.norm_no_colon account_id.norm_no_colon]
  from assms(4) consider (peer) "key_scope p = DMScopePerPeer"
    | (chan) "key_scope p = DMScopePerChannelPeer"
    | (acct) "key_scope p = DMScopePerAccountChannelPeer" by blast
  then show ?thesis
  proof cases
    case peer
    from inj [OF eq [unfolded Build_per_peer [OF assms(1) peer assms(5)]
        Build_per_peer [OF assms(2) peer [unfolded assms(3)] assms(6)]]]
    show ?thesis using peer scopes_distinct by simp
  next
    case chan
    from inj [OF eq [unfolded Build_per_channel_peer [OF assms(1) chan assms(5)]
        Build_per_channel_peer [OF assms(2) chan [unfolded assms(3)] assms(6)]]]
    have a: "NormalizeAgentID (kp_AgentID p) = NormalizeAgentID (kp_AgentID q)"
      and r: "normalizeChannel (kp_Channel p) @ CHR '':'' # (''direct:'' @ key_direct_id p) =
          normalizeChannel (kp_Channel q) @ CHR '':'' # (''direct:'' @ key_direct_id q)" by simp_all
    from split1 [OF r] a show ?thesis using chan scopes_distinct by simp
  next
    case acct
    from inj [OF eq [unfolded Build_per_account_channel_peer [OF assms(1) acct assms(5)]
        Build_per_account_channel_peer [OF assms(2) acct [unfolded assms(3)] assms(6)]]]
    have a: "NormalizeAgentID (kp_AgentID p) = NormalizeAgentID (kp_AgentID q)"
      and r: "normalizeChannel (kp_Channel p) @ CHR '':'' #
            (NormalizeAccountID (kp_AccountID p) @ CHR '':'' # (''direct:'' @ key_direct_id p)) =
          normalizeChannel (kp_Channel q) @ CHR '':'' #
            (NormalizeAccountID (kp_AccountID q) @ CHR '':'' # (''direct:'' @ key_direct_id q))"
      by simp_all
    from split1 [OF r] have c: "normalizeChannel (kp_Channel p) = normalizeChannel (kp_Channel q)"
      and r2: "NormalizeAccountID (kp_AccountID p) @ CHR '':'' # (''direct:'' @ key_direct_id p) =
        NormalizeAccountID (kp_AccountID q) @ CHR '':'' # (''direct:'' @ key_direct_id q)" by blast+
    from split2 [OF r2] a c show ?thesis by simp
  qed
qed

definition sample_direct_params :: "string \<Rightarrow> SessionKeyParams" where
  "sample_direct_params peer = \<lparr>kp_AgentID = ''main'', kp_Channel = ''Telegram'', kp_AccountID = [],
     kp_Peer = Some \<lparr>Kind = ''direct'', ID = peer\<rparr>, kp_DMScope = DMScopePerChannelPeer,
     kp_IdentityLinks = [(''alice'', [''telegram:77'', ''U9''])]\<rparr>"

theorem direct_sessions_isolated_witness:
  "BuildAgentPeerSessionKey (sample_direct_params ''77'') =
     BuildAgentPeerSessionKey (sample_direct_params '' u9'') \<and>
   key_direct_id (sample_direct_params ''77'') = key_direct_id (sample_direct_params '' u9'') \<and>
   normalizeChannel (kp_Channel (sample_direct_params ''77'')) =
     normalizeChannel (kp_Channel (sample_direct_params '' u9''))"
proof -
  let ?p = "sample_direct_params ''77''" and ?q = "sample_direct_params '' u9''"
  have k: "key_kind ?p = ''direct''" "key_kind ?q = ''direct''" "key_scope ?p = key_scope ?q"
    by code_simp+
  have s: "key_scope ?p \<in> {DMScopePerPeer, DMScopePerChannelPeer, DMScopePerAccountChannelPeer}"
    by code_simp
  have d: "key_direct_id ?p \<noteq> []" "key_direct_id ?q \<noteq> []" by code_simp+
  have c: "CHR '':'' \<notin> set (kp_Channel ?p)" "CHR '':'' \<notin> set (kp_Channel ?q)" by code_simp+
  have eq: "BuildAgentPeerSessionKey ?p = BuildAgentPeerSessionKey ?q" by code_simp
  have "key_scope ?p \<noteq> DMScopePerPeer" by code_simp
  then show ?thesis using direct_sessions_isolated [OF k s d c eq] eq by blast
qed

text \<open>Identity links are independent of the map's iteration order whenever they are
  unambiguous: if all entries that list one of the candidates carry the same canonical name,
  two iteration orders of the same map resolve to the same peer.\<close>

theorem resolveLinkedPeerID_order_independent:
  assumes "set es = set es'"
    and "\<forall>e \<in> set es. \<forall>e' \<in> set es. \<forall>n n'.
           link_entry (link_candidates channel peerID) e = Some n \<longrightarrow>
           link_entry (link_candidates channel peerID) e' = Some n' \<longrightarrow> n = n'"
  shows "resolveLinkedPeerID es channel peerID = resolveLinkedPeerID es' channel peerID"
proof -
  let ?c = "link_candidates channel peerID"
  have "resolve_links ?c es = resolve_links ?c es'"
  proof (cases "\<exists>e \<in> set es. \<exists>n. link_entry ?c e = Some n")
    case True
    then obtain e n where e: "e \<in> set es" "link_entry ?c e = Some n" by blast
    then have "resolve_links ?c es = n" "resolve_links ?c es' = n"
      using assms by (intro resolve_links_unique; blast)+
    then show ?thesis by simp
  next
    case False
    then have "\<forall>e \<in> set es. link_entry ?c e = None" by auto
    then show ?thesis using assms(1) by (simp add: resolve_links_None)
  qed
  moreover have "es = [] \<longleftrightarrow> es' = []" using assms(1) by (cases es; cases es') auto
  ultimately show ?thesis by (simp add: resolveLinkedPeerID_def Let_def)
qed

theorem resolveLinkedPeerID_order_independent_witness:
  "resolveLinkedPeerID [(''alice'', [''telegram:77'']), (''bob'', [''x''])] ''telegram'' ''77'' =
   resolveLinkedPeerID [(''bob'', [''x'']), (''alice'', [''telegram:77''])] ''telegram'' ''77''"
proof (rule resolveLinkedPeerID_order_independent)
  have "link_entry (link_candidates ''telegram'' ''77'') (''bob'', [''x'']) = None" by code_simp
  then show "\<forall>e \<in> set [(''alice'', [''telegram:77'']), (''bob'', [''x''])].
      \<forall>e' \<in> set [(''alice'', [''telegram:77'']), (''bob'', [''x''])]. \<forall>n n'.
        link_entry (link_candidates ''telegram'' ''77'') e = Some n \<longrightarrow>
        link_entry (link_candidates ''telegram'' ''77'') e' = Some n' \<longrightarrow> n = n'"
    by auto
qed auto

end
