(* ===== verification/Route.thy ===== *)
theory Route
  imports Session_Key
begin

text \<open>
  Agent routing, \<^verbatim>\<open>pkg/routing/route.go\<close>: which agent handles an inbound message and
  under which session keys. The configuration is the part of \<^verbatim>\<open>config.Config\<close> that the
  resolver reads: the bindings, the agent list and the session settings.
\<close>

record BindingMatch =
  m_Channel :: string
  m_AccountID :: string
  m_Peer :: "RoutePeer option"
  m_GuildID :: string
  m_TeamID :: string

record AgentBinding =
  b_AgentID :: string
  b_Match :: BindingMatch

record AgentConfig =
  a_ID :: string
  a_Default :: bool

record RouteConfig =
  cfg_Bindings :: "AgentBinding list"
  cfg_AgentsList :: "AgentConfig list"
  cfg_DMScope :: string
  cfg_IdentityLinks :: identity_links

record RouteInput =
  in_Channel :: string
  in_AccountID :: string
  in_Peer :: "RoutePeer option"
  in_ParentPeer :: "RoutePeer option"
  in_GuildID :: string
  in_TeamID :: string

record ResolvedRoute =
  rt_AgentID :: string
  rt_Channel :: string
  rt_AccountID :: string
  rt_SessionKey :: string
  rt_MainSessionKey :: string
  rt_MatchedBy :: string

definition matchesAccountID :: "string \<Rightarrow> string \<Rightarrow> bool" where
  "matchesAccountID matchAccountID actual =
     (let trimmed = trim_space matchAccountID in
      if trimmed = [] then actual = DefaultAccountID
      else if trimmed = ''*'' then True
      else equal_fold trimmed actual)"

definition binding_applies :: "string \<Rightarrow> string \<Rightarrow> AgentBinding \<Rightarrow> bool" where
  "binding_applies channel accountID b =
     (let matchChannel = to_lower (trim_space (m_Channel (b_Match b))) in
      if matchChannel = [] \<or> matchChannel \<noteq> channel then False
      else matchesAccountID (m_AccountID (b_Match b)) accountID)"

definition filterBindings :: "RouteConfig \<Rightarrow> string \<Rightarrow> string \<Rightarrow> AgentBinding list" where
  "filterBindings cfg channel accountID = filter (binding_applies channel accountID) (cfg_Bindings cfg)"

definition peer_matches :: "RoutePeer \<Rightarrow> AgentBinding \<Rightarrow> bool" where
  "peer_matches peer b =
     (case m_Peer (b_Match b) of
        None \<Rightarrow> False
      | Some mp \<Rightarrow>
          let peerKind = to_lower (trim_space (Kind mp)); peerID = trim_space (ID mp) in
          if peerKind = [] \<or> peerID = [] then False
          else peerKind = to_lower (Kind peer) \<and> peerID = ID peer)"

definition findPeerMatch :: "AgentBinding list \<Rightarrow> RoutePeer \<Rightarrow> AgentBinding option" where
  "findPeerMatch bindings peer = find (peer_matches peer) bindings"

definition guild_matches :: "string \<Rightarrow> AgentBinding \<Rightarrow> bool" where
  "guild_matches guildID b =
     (let matchGuild = trim_space (m_GuildID (b_Match b)) in matchGuild \<noteq> [] \<and> matchGuild = guildID)"

definition findGuildMatch :: "AgentBinding list \<Rightarrow> string \<Rightarrow> AgentBinding option" where
  "findGuildMatch bindings guildID = find (guild_matches guildID) bindings"

definition team_matches :: "string \<Rightarrow> AgentBinding \<Rightarrow> bool" where
  "team_matches teamID b =
     (let matchTeam = trim_space (m_TeamID (b_Match b)) in matchTeam \<noteq> [] \<and> matchTeam = teamID)"

definition findTeamMatch :: "AgentBinding list \<Rightarrow> string \<Rightarrow> AgentBinding option" where
  "findTeamMatch bindings teamID = find (team_matches teamID) bindings"

definition unscoped :: "AgentBinding \<Rightarrow> bool" where
  "unscoped b \<longleftrightarrow> \<not> (m_Peer (b_Match b) \<noteq> None \<or> m_GuildID (b_Match b) \<noteq> [] \<or> m_TeamID (b_Match b) \<noteq> [])"

definition account_matches :: "AgentBinding \<Rightarrow> bool" where
  "account_matches b \<longleftrightarrow> trim_space (m_AccountID (b_Match b)) \<noteq> ''*'' \<and> unscoped b"

definition findAccountMatch :: "AgentBinding list \<Rightarrow> AgentBinding option" where
  "findAccountMatch bindings = find account_matches bindings"

definition wildcard_matches :: "AgentBinding \<Rightarrow> bool" where
  "wildcard_matches b \<longleftrightarrow> trim_space (m_AccountID (b_Match b)) = ''*'' \<and> unscoped b"

definition findChannelWildcardMatch :: "AgentBinding list \<Rightarrow> AgentBinding option" where
  "findChannelWildcardMatch bindings = find wildcard_matches bindings"

definition resolveDefaultAgentID :: "RouteConfig \<Rightarrow> string" where
  "resolveDefaultAgentID cfg =
     (case cfg_AgentsList cfg of
        [] \<Rightarrow> DefaultAgentID
      | a0 # as \<Rightarrow>
          (case find (\<lambda>a. a_Default a \<and> trim_space (a_ID a) \<noteq> []) (a0 # as) of
             Some a \<Rightarrow> NormalizeAgentID (trim_space (a_ID a))
           | None \<Rightarrow>
               if trim_space (a_ID a0) \<noteq> [] then NormalizeAgentID (trim_space (a_ID a0))
               else DefaultAgentID))"

definition pickAgentID :: "RouteConfig \<Rightarrow> string \<Rightarrow> string" where
  "pickAgentID cfg agentID =
     (let trimmed = trim_space agentID in
      if trimmed = [] then NormalizeAgentID (resolveDefaultAgentID cfg)
      else let normalized = NormalizeAgentID trimmed; agents = cfg_AgentsList cfg in
        if agents = [] then normalized
        else if \<exists>a \<in> set agents. NormalizeAgentID (a_ID a) = normalized then normalized
        else NormalizeAgentID (resolveDefaultAgentID cfg))"

text \<open>The closure \<open>choose\<close> of \<open>ResolveRoute\<close>.\<close>

definition choose_route :: "RouteConfig \<Rightarrow> RouteInput \<Rightarrow> string \<Rightarrow> string \<Rightarrow> ResolvedRoute" where
  "choose_route cfg input agentID matchedBy =
     (let channel = to_lower (trim_space (in_Channel input));
          accountID = NormalizeAccountID (in_AccountID input);
          dmScope = (if cfg_DMScope cfg = [] then DMScopeMain else cfg_DMScope cfg);
          resolvedAgentID = pickAgentID cfg agentID
      in \<lparr>rt_AgentID = resolvedAgentID,
          rt_Channel = channel,
          rt_AccountID = accountID,
          rt_SessionKey = to_lower (BuildAgentPeerSessionKey
            \<lparr>kp_AgentID = resolvedAgentID, kp_Channel = channel, kp_AccountID = accountID,
             kp_Peer = in_Peer input, kp_DMScope = dmScope,
             kp_IdentityLinks = cfg_IdentityLinks cfg\<rparr>),
          rt_MainSessionKey = to_lower (BuildAgentMainSessionKey resolvedAgentID),
          rt_MatchedBy = matchedBy\<rparr>)"

definition find_peer_opt :: "AgentBinding list \<Rightarrow> RoutePeer option \<Rightarrow> AgentBinding option" where
  "find_peer_opt bindings peer =
     (case peer of
        None \<Rightarrow> None
      | Some p \<Rightarrow> if trim_space (ID p) \<noteq> [] then findPeerMatch bindings p else None)"

definition ResolveRoute :: "RouteConfig \<Rightarrow> RouteInput \<Rightarrow> ResolvedRoute" where
  "ResolveRoute cfg input =
     (let channel = to_lower (trim_space (in_Channel input));
          accountID = NormalizeAccountID (in_AccountID input);
          bindings = filterBindings cfg channel accountID;
          guildID = trim_space (in_GuildID input);
          teamID = trim_space (in_TeamID input)
      in case find_peer_opt bindings (in_Peer input) of
           Some b \<Rightarrow> choose_route cfg input (b_AgentID b) ''binding.peer''
         | None \<Rightarrow>
      (case find_peer_opt bindings (in_ParentPeer input) of
           Some b \<Rightarrow> choose_route cfg input (b_AgentID b) ''binding.peer.parent''
         | None \<Rightarrow>
      (case (if guildID \<noteq> [] then findGuildMatch bindings guildID else None) of
           Some b \<Rightarrow> choose_route cfg input (b_AgentID b) ''binding.guild''
         | None \<Rightarrow>
      (case (if teamID \<noteq> [] then findTeamMatch bindings teamID else None) of
           Some b \<Rightarrow> choose_route cfg input (b_AgentID b) ''binding.team''
         | None \<Rightarrow>
      (case findAccountMatch bindings of
           Some b \<Rightarrow> choose_route cfg input (b_AgentID b) ''binding.account''
         | None \<Rightarrow>
      (case findChannelWildcardMatch bindings of
           Some b \<Rightarrow> choose_route cfg input (b_AgentID b) ''binding.channel''
         | None \<Rightarrow> choose_route cfg input (resolveDefaultAgentID cfg) ''default''))))))"

subsection \<open>The routing policy\<close>

text \<open>
  The documented contract is a priority cascade. Its abstract form: the levels in order of
  priority, each a label and the bindings it admits; the first level that admits an applicable
  binding decides, and within a level the first binding of the configuration wins.
\<close>

definition route_levels :: "RouteInput \<Rightarrow> (string \<times> (AgentBinding \<Rightarrow> bool)) list" where
  "route_levels input =
     [(''binding.peer'', \<lambda>b. case in_Peer input of None \<Rightarrow> False
          | Some p \<Rightarrow> trim_space (ID p) \<noteq> [] \<and> peer_matches p b),
      (''binding.peer.parent'', \<lambda>b. case in_ParentPeer input of None \<Rightarrow> False
          | Some p \<Rightarrow> trim_space (ID p) \<noteq> [] \<and> peer_matches p b),
      (''binding.guild'', guild_matches (trim_space (in_GuildID input))),
      (''binding.team'', team_matches (trim_space (in_TeamID input))),
      (''binding.account'', account_matches),
      (''binding.channel'', wildcard_matches)]"

fun cascade :: "'b list \<Rightarrow> (string \<times> ('b \<Rightarrow> bool)) list \<Rightarrow> (string \<times> 'b) option" where
  "cascade bs [] = None"
| "cascade bs ((label, adm) # ls) =
     (case find adm bs of Some b \<Rightarrow> Some (label, b) | None \<Rightarrow> cascade bs ls)"

definition route_spec :: "RouteConfig \<Rightarrow> RouteInput \<Rightarrow> string \<times> string" where
  "route_spec cfg input =
     (case cascade (filterBindings cfg (to_lower (trim_space (in_Channel input)))
                     (NormalizeAccountID (in_AccountID input))) (route_levels input) of
        Some (label, b) \<Rightarrow> (b_AgentID b, label)
      | None \<Rightarrow> (resolveDefaultAgentID cfg, ''default''))"

lemma find_False: "find (\<lambda>_. False) bs = None"
  by (induction bs) auto

lemma find_guard: "(if P then find Q bs else None) = find (\<lambda>b. P \<and> Q b) bs"
  by (cases P) (simp_all add: find_False)

lemma find_peer_opt_level:
  "find_peer_opt bs po = find (\<lambda>b. case po of None \<Rightarrow> False
     | Some p \<Rightarrow> trim_space (ID p) \<noteq> [] \<and> peer_matches p b) bs"
  by (cases po) (simp_all add: find_peer_opt_def findPeerMatch_def find_False)

lemma guild_level: "(if g \<noteq> [] then findGuildMatch bs g else None) = find (guild_matches g) bs"
proof (cases "g = []")
  case True
  then have "guild_matches g = (\<lambda>_. False)" by (auto simp: guild_matches_def Let_def)
  with True show ?thesis by (simp add: find_False)
qed (simp add: findGuildMatch_def)

lemma team_level: "(if g \<noteq> [] then findTeamMatch bs g else None) = find (team_matches g) bs"
proof (cases "g = []")
  case True
  then have "team_matches g = (\<lambda>_. False)" by (auto simp: team_matches_def Let_def)
  with True show ?thesis by (simp add: find_False)
qed (simp add: findTeamMatch_def)

lemma ResolveRoute_spec:
  "ResolveRoute cfg input =
     choose_route cfg input (fst (route_spec cfg input)) (snd (route_spec cfg input))"
  unfolding ResolveRoute_def route_spec_def route_levels_def Let_def find_peer_opt_level
    guild_level team_level findAccountMatch_def findChannelWildcardMatch_def
  by (simp split: option.split)

lemma cascade_Some:
  assumes "cascade bs ls = Some (l, b)"
  shows "\<exists>pre adm post. ls = pre @ (l, adm) # post \<and> find adm bs = Some b \<and>
           (\<forall>(l', adm') \<in> set pre. \<forall>b' \<in> set bs. \<not> adm' b')"
  using assms
proof (induction bs ls rule: cascade.induct)
  case (1 bs)
  then show ?case by simp
next
  case (2 bs l0 adm0 ls)
  show ?case
  proof (cases "find adm0 bs")
    case (Some b0)
    with 2(2) have "l = l0" "b = b0" by simp_all
    with Some show ?thesis by (intro exI [of _ "[]"]) auto
  next
    case None
    with 2 obtain pre adm post where *: "ls = pre @ (l, adm) # post" "find adm bs = Some b"
      "\<forall>(l', adm') \<in> set pre. \<forall>b' \<in> set bs. \<not> adm' b'" by auto
    from None have "\<forall>b' \<in> set bs. \<not> adm0 b'" by (simp add: find_None_iff)
    with * have "(l0, adm0) # ls = ((l0, adm0) # pre) @ (l, adm) # post \<and> find adm bs = Some b \<and>
      (\<forall>(l', adm') \<in> set ((l0, adm0) # pre). \<forall>b' \<in> set bs. \<not> adm' b')" by auto
    then show ?thesis by blast
  qed
qed

lemma cascade_None: "cascade bs ls = None \<Longrightarrow> \<forall>(l, adm) \<in> set ls. \<forall>b \<in> set bs. \<not> adm b"
  by (induction bs ls rule: cascade.induct) (auto simp: find_None_iff split: option.splits)

subsection \<open>The chosen agent\<close>

lemma resolveDefaultAgentID_shape: "id_shape (resolveDefaultAgentID cfg)"
  using agent_id.norm_shape id_stable_defaults
  by (simp add: resolveDefaultAgentID_def id_stable_def split: list.split option.split)

lemma resolveDefaultAgentID_configured:
  assumes "cfg_AgentsList cfg \<noteq> []"
  shows "\<exists>a \<in> set (cfg_AgentsList cfg). NormalizeAgentID (a_ID a) = resolveDefaultAgentID cfg"
proof -
  obtain a0 as where l: "cfg_AgentsList cfg = a0 # as" using assms by (cases "cfg_AgentsList cfg") auto
  show ?thesis
  proof (cases "find (\<lambda>a. a_Default a \<and> trim_space (a_ID a) \<noteq> []) (a0 # as)")
    case (Some a)
    then have "a \<in> set (a0 # as)" by (metis find_Some_iff nth_mem)
    with Some l show ?thesis by (auto simp: resolveDefaultAgentID_def agent_id.norm_trim)
  next
    case None
    then have "resolveDefaultAgentID cfg = NormalizeAgentID (a_ID a0)"
      using l agent_id.norm_empty [of "a_ID a0"]
      by (simp add: resolveDefaultAgentID_def agent_id.norm_trim)
    with l show ?thesis by auto
  qed
qed

lemma pickAgentID_shape: "id_shape (pickAgentID cfg a)"
  using agent_id.norm_shape by (simp add: pickAgentID_def Let_def)

lemma pickAgentID_configured:
  assumes "cfg_AgentsList cfg \<noteq> []"
    and "\<forall>a \<in> set (cfg_AgentsList cfg). id_stable (NormalizeAgentID (a_ID a))"
  shows "\<exists>a \<in> set (cfg_AgentsList cfg). NormalizeAgentID (a_ID a) = pickAgentID cfg x"
proof -
  obtain d where d: "d \<in> set (cfg_AgentsList cfg)" "NormalizeAgentID (a_ID d) = resolveDefaultAgentID cfg"
    using resolveDefaultAgentID_configured [OF assms(1)] by blast
  then have "NormalizeAgentID (resolveDefaultAgentID cfg) = resolveDefaultAgentID cfg"
    using assms(2) agent_id.norm_stable by metis
  with d assms(1) show ?thesis by (auto simp: pickAgentID_def Let_def)
qed

lemma rt_AgentID_choose: "rt_AgentID (choose_route cfg input a m) = pickAgentID cfg a"
  by (simp add: choose_route_def Let_def)

lemma to_lower_agent_key:
  "id_shape a \<Longrightarrow> to_lower (agent_key a rest) = agent_key a (to_lower rest)"
  by (simp add: agent_key_def id_shape_lower lower_char_def is_upper_def less_eq_char_def)

lemma last_to_lower: "s \<noteq> [] \<Longrightarrow> last (to_lower s) = lower_char (last s)"
  by (simp add: to_lower_def last_map)

lemma Parse_lower_peer_key:
  assumes "id_stable a" "NormalizeAgentID (kp_AgentID p) = a"
  shows "\<exists>rest. rest \<noteq> [] \<and>
    ParseAgentSessionKey (to_lower (BuildAgentPeerSessionKey p)) = Some \<lparr>ps_AgentID = a, ps_Rest = rest\<rparr>"
proof -
  obtain rest where r: "BuildAgentPeerSessionKey p = agent_key a rest" "rest \<noteq> []" "\<not> is_space (last rest)"
    using peer_key_as_agent_key [of p] assms agent_id.norm_stable by metis
  have shape: "id_shape a" using assms(1) by (simp add: id_stable_def)
  have "ParseAgentSessionKey (agent_key a (to_lower rest)) = Some \<lparr>ps_AgentID = a, ps_Rest = to_lower rest\<rparr>"
    using r(2,3) shape by (intro Parse_agent_key) (simp_all add: last_to_lower)
  with r shape show ?thesis by (auto simp: to_lower_agent_key)
qed

subsection \<open>Properties\<close>

text \<open>A configuration with a guild binding, a channel wildcard and two agents, and a message.\<close>

definition sample_match :: BindingMatch where
  "sample_match = \<lparr>m_Channel = ''Discord'', m_AccountID = ''*'', m_Peer = None, m_GuildID = [], m_TeamID = []\<rparr>"

definition sample_cfg :: RouteConfig where
  "sample_cfg = \<lparr>cfg_Bindings = [\<lparr>b_AgentID = ''Fallback Bot'', b_Match = sample_match\<rparr>,
       \<lparr>b_AgentID = ''ops'', b_Match = sample_match\<lparr>m_GuildID := ''g1''\<rparr>\<rparr>],
     cfg_AgentsList = [\<lparr>a_ID = ''main'', a_Default = True\<rparr>, \<lparr>a_ID = ''Ops'', a_Default = False\<rparr>],
     cfg_DMScope = [], cfg_IdentityLinks = []\<rparr>"

definition sample_input :: RouteInput where
  "sample_input = \<lparr>in_Channel = '' discord'', in_AccountID = ''acct'', in_Peer = Some \<lparr>Kind = ''group'', ID = ''C1''\<rparr>,
     in_ParentPeer = None, in_GuildID = ''g1'', in_TeamID = []\<rparr>"

text \<open>(C2) The priority cascade: among the bindings that apply to the message's channel and
  account, the route is decided by the first of the levels peer, parent peer, guild, team,
  account, channel wildcard that admits one, within it by the first admitted binding, and the
  default agent is used exactly when no level admits any binding.\<close>

theorem ResolveRoute_priority:
  fixes cfg :: RouteConfig and input :: RouteInput
  defines "bs \<equiv> filterBindings cfg (to_lower (trim_space (in_Channel input)))
                   (NormalizeAccountID (in_AccountID input))"
  shows "(\<exists>pre label adm post b.
            route_levels input = pre @ (label, adm) # post \<and> find adm bs = Some b \<and>
            (\<forall>(l', adm') \<in> set pre. \<forall>b' \<in> set bs. \<not> adm' b') \<and>
            rt_MatchedBy (ResolveRoute cfg input) = label \<and>
            rt_AgentID (ResolveRoute cfg input) = pickAgentID cfg (b_AgentID b)) \<or>
         ((\<forall>(l', adm') \<in> set (route_levels input). \<forall>b' \<in> set bs. \<not> adm' b') \<and>
            rt_MatchedBy (ResolveRoute cfg input) = ''default'' \<and>
            rt_AgentID (ResolveRoute cfg input) = pickAgentID cfg (resolveDefaultAgentID cfg))"
proof (cases "cascade bs (route_levels input)")
  case None
  then have "route_spec cfg input = (resolveDefaultAgentID cfg, ''default'')"
    by (simp add: route_spec_def bs_def)
  then show ?thesis
    using cascade_None [OF None] by (simp add: ResolveRoute_spec choose_route_def Let_def)
next
  case (Some lb)
  obtain l b where lb: "lb = (l, b)" by (cases lb)
  with Some have "route_spec cfg input = (b_AgentID b, l)" by (simp add: route_spec_def bs_def)
  then have "rt_MatchedBy (ResolveRoute cfg input) = l"
    "rt_AgentID (ResolveRoute cfg input) = pickAgentID cfg (b_AgentID b)"
    by (simp_all add: ResolveRoute_spec choose_route_def Let_def)
  with cascade_Some [OF Some [unfolded lb]] show ?thesis by blast
qed

theorem ResolveRoute_priority_witness:
  "rt_MatchedBy (ResolveRoute sample_cfg sample_input) = ''binding.guild'' \<and>
   rt_AgentID (ResolveRoute sample_cfg sample_input) = ''ops'' \<and>
   \<not> (rt_MatchedBy (ResolveRoute sample_cfg sample_input) = ''default'')"
proof -
  have "rt_MatchedBy (ResolveRoute sample_cfg sample_input) = ''binding.guild'' \<and>
    rt_AgentID (ResolveRoute sample_cfg sample_input) = ''ops''" by code_simp
  then show ?thesis using ResolveRoute_priority [of sample_input sample_cfg] by auto
qed

text \<open>A message is always routed to a configured agent: when the agent list is not empty
  and its identifiers normalise stably, the resolved agent identifier is the normalised
  identifier of a listed agent, whatever the bindings name.\<close>

theorem ResolveRoute_agent_configured:
  assumes "cfg_AgentsList cfg \<noteq> []"
    and "\<forall>a \<in> set (cfg_AgentsList cfg). length (trim_space (a_ID a)) \<le> 64"
  shows "\<exists>a \<in> set (cfg_AgentsList cfg).
           NormalizeAgentID (a_ID a) = rt_AgentID (ResolveRoute cfg input)"
  using assms pickAgentID_configured [of cfg] agent_id.norm_short
  by (simp add: ResolveRoute_spec rt_AgentID_choose MaxAgentIDLength_def)

theorem ResolveRoute_agent_configured_witness:
  "\<exists>a \<in> set (cfg_AgentsList sample_cfg).
     NormalizeAgentID (a_ID a) = rt_AgentID (ResolveRoute sample_cfg (sample_input\<lparr>in_GuildID := []\<rparr>))"
proof (rule ResolveRoute_agent_configured)
  show "cfg_AgentsList sample_cfg \<noteq> []" by (simp add: sample_cfg_def)
  show "\<forall>a \<in> set (cfg_AgentsList sample_cfg). length (trim_space (a_ID a)) \<le> 64" by code_simp
qed

text \<open>The session key of a route names the agent it was routed to: parsing it gives the
  resolved agent identifier and a non-empty rest, and the key contains no upper-case letter.\<close>

theorem ResolveRoute_session_key:
  assumes "id_stable (rt_AgentID (ResolveRoute cfg input))"
  shows "(\<exists>rest. rest \<noteq> [] \<and> ParseAgentSessionKey (rt_SessionKey (ResolveRoute cfg input)) =
            Some \<lparr>ps_AgentID = rt_AgentID (ResolveRoute cfg input), ps_Rest = rest\<rparr>) \<and>
         to_lower (rt_SessionKey (ResolveRoute cfg input)) = rt_SessionKey (ResolveRoute cfg input)"
proof -
  have "NormalizeAgentID (rt_AgentID (ResolveRoute cfg input)) = rt_AgentID (ResolveRoute cfg input)"
    using assms by (rule agent_id.norm_stable)
  then show ?thesis
    using Parse_lower_peer_key assms
    by (simp add: ResolveRoute_spec rt_AgentID_choose) (simp add: choose_route_def Let_def)
qed

theorem ResolveRoute_session_key_witness:
  "\<exists>rest. rest \<noteq> [] \<and> ParseAgentSessionKey (rt_SessionKey (ResolveRoute sample_cfg sample_input)) =
     Some \<lparr>ps_AgentID = rt_AgentID (ResolveRoute sample_cfg sample_input), ps_Rest = rest\<rparr>"
proof -
  have "id_stable (rt_AgentID (ResolveRoute sample_cfg sample_input))" by code_simp
  from ResolveRoute_session_key [OF this] show ?thesis by blast
qed

end
