(* ===== verification/Regex.thy ===== *)
theory Regex
  imports Prelude
begin

text \<open>
  The fragment of Go's package \<^verbatim>\<open>regexp\<close> that the error classifier uses: sequences of
  character classes with the greedy operators \<open>*\<close>, \<open>+\<close> and \<open>?\<close> on a class, the word boundary
  \<open>\b\<close> and one trailing capture group \<open>(\d{3})\<close>. \<open>rx_match\<close> matches at a position (with the
  previous character for \<open>\b\<close>) in leftmost-first order and returns the captured text;
  \<open>rx_find\<close> tries the positions from left to right, as \<^verbatim>\<open>FindStringSubmatch\<close> and
  \<^verbatim>\<open>MatchString\<close> do.
\<close>

datatype rx =
    Cls "char \<Rightarrow> bool"
  | Opt "char \<Rightarrow> bool"
  | Star "char \<Rightarrow> bool"
  | WordB
  | Digits3

definition rx_word :: "char \<Rightarrow> bool" where
  "rx_word c \<longleftrightarrow> is_lower c \<or> is_upper c \<or> is_digit c \<or> c = CHR ''_''"

definition rx_space :: "char \<Rightarrow> bool" where
  "rx_space c \<longleftrightarrow> c \<in> {CHR '' '', tab, nl, CHR 0x0C, cr}"

definition rx_any :: "char \<Rightarrow> bool" where
  "rx_any c \<longleftrightarrow> c \<noteq> nl"

definition word_at :: "char option \<Rightarrow> bool" where
  "word_at c = (case c of None \<Rightarrow> False | Some d \<Rightarrow> rx_word d)"

definition hd_opt :: "'a list \<Rightarrow> 'a option" where
  "hd_opt s = (case s of [] \<Rightarrow> None | c # _ \<Rightarrow> Some c)"

definition or_else :: "'a option \<Rightarrow> 'a option \<Rightarrow> 'a option" where
  "or_else a b = (case a of None \<Rightarrow> b | Some x \<Rightarrow> Some x)"

fun rx_match :: "rx list \<Rightarrow> char option \<Rightarrow> string \<Rightarrow> string option" where
  "rx_match [] prev s = Some []"
| "rx_match (Cls p # rs) prev [] = None"
| "rx_match (Cls p # rs) prev (c # s) = (if p c then rx_match rs (Some c) s else None)"
| "rx_match (Opt p # rs) prev [] = rx_match rs prev []"
| "rx_match (Opt p # rs) prev (c # s) =
     or_else (if p c then rx_match rs (Some c) s else None) (rx_match rs prev (c # s))"
| "rx_match (Star p # rs) prev [] = rx_match rs prev []"
| "rx_match (Star p # rs) prev (c # s) =
     or_else (if p c then rx_match (Star p # rs) (Some c) s else None) (rx_match rs prev (c # s))"
| "rx_match (WordB # rs) prev s =
     (if word_at prev \<noteq> word_at (hd_opt s) then rx_match rs prev s else None)"
| "rx_match (Digits3 # rs) prev s =
     (if 3 \<le> length s \<and> list_all is_digit (take 3 s)
      then map_option (\<lambda>_. take 3 s) (rx_match rs (Some (s ! 2)) (drop 3 s)) else None)"

fun rx_find :: "rx list \<Rightarrow> char option \<Rightarrow> string \<Rightarrow> string option" where
  "rx_find rs prev [] = rx_match rs prev []"
| "rx_find rs prev (c # s) = or_else (rx_match rs prev (c # s)) (rx_find rs (Some c) s)"

definition MatchString :: "rx list \<Rightarrow> string \<Rightarrow> bool" where
  "MatchString rs s \<longleftrightarrow> rx_find rs None s \<noteq> None"

definition FindStringSubmatch :: "rx list \<Rightarrow> string \<Rightarrow> string option" where
  "FindStringSubmatch rs s = rx_find rs None s"

text \<open>Literals: exact, and under the flag \<open>(?i)\<close>.\<close>

definition lit :: "string \<Rightarrow> rx list" where
  "lit s = map (\<lambda>a. Cls (\<lambda>c. c = a)) s"

definition ilit :: "string \<Rightarrow> rx list" where
  "ilit s = map (\<lambda>a. Cls (\<lambda>c. lower_char c = lower_char a)) s"

definition plus :: "(char \<Rightarrow> bool) \<Rightarrow> rx list" where
  "plus p = [Cls p, Star p]"

subsection \<open>Lemmas\<close>

lemma or_else_None [simp]: "or_else a b = None \<longleftrightarrow> a = None \<and> b = None"
  by (cases a) (simp_all add: or_else_def)

lemma or_else_Some: "or_else a b = Some x \<longleftrightarrow> a = Some x \<or> (a = None \<and> b = Some x)"
  by (cases a) (simp_all add: or_else_def)

text \<open>A pattern whose first element is a class that no character of the text satisfies does not
  match.\<close>

lemma rx_find_head_None: "\<forall>c \<in> set s. \<not> p c \<Longrightarrow> rx_find (Cls p # rs) prev s = None"
  by (induction s arbitrary: prev) auto

lemma rx_match_ilit_append:
  "to_lower u = to_lower s \<Longrightarrow> \<exists>prev'. rx_match (ilit s @ rs) prev (u @ t) = rx_match rs prev' t"
proof (induction s arbitrary: u prev)
  case Nil
  then show ?case by (auto simp: ilit_def)
next
  case (Cons a s)
  then obtain c v where u: "u = c # v" "lower_char c = lower_char a" "to_lower v = to_lower s"
    by (cases u) auto
  from Cons.IH [OF u(3)] u show ?case by (simp add: ilit_def)
qed



lemma rx_find_later:
  "\<forall>prev. rx_match rs prev t \<noteq> None \<Longrightarrow> rx_find rs prev (u @ t) \<noteq> None"
proof (induction u arbitrary: prev)
  case Nil
  then show ?case by (cases t) auto
qed auto

lemma MatchString_ilit: "MatchString (ilit p) s \<longleftrightarrow> (\<exists>u v w. s = u @ v @ w \<and> to_lower v = to_lower p)"
proof
  assume "\<exists>u v w. s = u @ v @ w \<and> to_lower v = to_lower p"
  then obtain u v w where s: "s = u @ v @ w" "to_lower v = to_lower p" by blast
  have "\<forall>prev. rx_match (ilit p) prev (v @ w) \<noteq> None"
    using rx_match_ilit_append [OF s(2), of "[]"] by (metis append_Nil2 option.distinct(1) rx_match.simps(1))
  from rx_find_later [OF this] s(1) show "MatchString (ilit p) s" by (simp add: MatchString_def)
next
  have m: "\<exists>v w. s = v @ w \<and> to_lower v = to_lower p" if "rx_match (ilit p) prev s \<noteq> None" for prev p s
    using that
  proof (induction p arbitrary: s prev)
    case Nil
    then show ?case by auto
  next
    case (Cons a p)
    then obtain c t where t: "s = c # t" "lower_char c = lower_char a" "rx_match (ilit p) (Some c) t \<noteq> None"
      by (cases s) (auto simp: ilit_def split: if_splits)
    from Cons.IH [OF t(3)] obtain v w where "t = v @ w" "to_lower v = to_lower p" by blast
    with t have "s = (c # v) @ w \<and> to_lower (c # v) = to_lower (a # p)" by simp
    then show ?case by blast
  qed
  have "\<exists>u v w. s = u @ v @ w \<and> to_lower v = to_lower p" if "rx_find (ilit p) prev s \<noteq> None" for prev
    using that
  proof (induction s arbitrary: prev)
    case Nil
    then show ?case using m [of p prev "[]"] by auto
  next
    case (Cons c s)
    show ?case
    proof (cases "rx_match (ilit p) prev (c # s)")
      case None
      with Cons.prems have "rx_find (ilit p) (Some c) s \<noteq> None" by simp
      from Cons.IH [OF this] show ?thesis by (metis append_Cons)
    next
      case (Some x)
      then show ?thesis using m [of p prev "c # s"] by (metis append_Nil option.distinct(1))
    qed
  qed
  then show "MatchString (ilit p) s \<Longrightarrow> \<exists>u v w. s = u @ v @ w \<and> to_lower v = to_lower p"
    by (simp add: MatchString_def)
qed

end
