(* ===== verification/Errors.thy ===== *)
theory Errors
  imports Regex
begin

text \<open>
  Errors of the provider layer and their classification: \<^verbatim>\<open>FailoverReason\<close> and
  \<^verbatim>\<open>FailoverError\<close> of \<^verbatim>\<open>pkg/providers/types.go\<close>, \<^verbatim>\<open>FallbackAttempt\<close> and
  \<^verbatim>\<open>FallbackExhaustedError\<close> of \<^verbatim>\<open>pkg/providers/fallback.go\<close>, and
  \<^verbatim>\<open>pkg/providers/error_classifier.go\<close>. A Go \<^verbatim>\<open>error\<close> is the datatype \<open>GoError\<close>: the
  two context errors, a plain error, an error wrapped with \<^verbatim>\<open>%w\<close> after a prefix, and the two
  error types of the package. \<open>ReasonEmpty\<close> is the empty string of type \<^verbatim>\<open>FailoverReason\<close>.
\<close>

datatype FailoverReason =
    ReasonEmpty | FailoverAuth | FailoverRateLimit | FailoverBilling | FailoverTimeout
  | FailoverFormat | FailoverOverloaded | FailoverUnknown

definition reason_string :: "FailoverReason \<Rightarrow> string" where
  "reason_string r = (case r of
      ReasonEmpty \<Rightarrow> [] | FailoverAuth \<Rightarrow> ''auth'' | FailoverRateLimit \<Rightarrow> ''rate_limit''
    | FailoverBilling \<Rightarrow> ''billing'' | FailoverTimeout \<Rightarrow> ''timeout'' | FailoverFormat \<Rightarrow> ''format''
    | FailoverOverloaded \<Rightarrow> ''overloaded'' | FailoverUnknown \<Rightarrow> ''unknown'')"

datatype GoError =
    ErrCanceled
  | ErrDeadlineExceeded
  | ErrNew string
  | ErrWrap string GoError
  | ErrFailover (fe_Reason: FailoverReason) (fe_Provider: string) (fe_Model: string)
      (fe_Status: int) (fe_Wrapped: GoError)
  | ErrExhausted (ex_Attempts: "FallbackAttempt list")
and FallbackAttempt =
    FallbackAttempt (fa_Provider: string) (fa_Model: string) (fa_Error: GoError)
      (fa_Reason: FailoverReason) (fa_Duration: duration) (fa_Skipped: bool)

text \<open>\<^verbatim>\<open>Duration.String\<close> on a duration already rounded to whole milliseconds.\<close>

definition frac_ms :: "int \<Rightarrow> string" where
  "frac_ms ms =
     (if ms = 0 then []
      else ''.'' @ trim_right (\<lambda>c. c = CHR ''0'')
             (if ms < 10 then ''00'' @ digits10 ms
              else if ms < 100 then ''0'' @ digits10 ms else digits10 ms))"

definition duration_ms_string :: "int \<Rightarrow> string" where
  "duration_ms_string ms =
     (let m = \<bar>ms\<bar>; neg = (if ms < 0 then ''-'' else []);
          secs = m div 1000; s = secs mod 60; mins = secs div 60; h = mins div 60
      in if m = 0 then ''0s''
         else if m < 1000 then neg @ digits10 m @ ''ms''
         else neg @ (if 0 < h then digits10 h @ ''h'' else []) @
              (if 0 < mins then digits10 (mins mod 60) @ ''m'' else []) @
              digits10 s @ frac_ms (m mod 1000) @ ''s'')"

text \<open>\<^verbatim>\<open>Duration.Round(d)\<close>: to the nearest multiple of \<open>d\<close>, halves away from zero.\<close>

definition duration_round :: "int \<Rightarrow> int \<Rightarrow> int" where
  "duration_round d x = (let r = \<bar>x\<bar> mod d; y = (if r + r < d then \<bar>x\<bar> - r else \<bar>x\<bar> + d - r)
                         in if x < 0 then - y else y)"

text \<open>The text of an error, and the lines of \<^verbatim>\<open>FallbackExhaustedError.Error\<close>.\<close>

primrec error_text :: "GoError \<Rightarrow> string" and attempt_text :: "FallbackAttempt \<Rightarrow> string" where
  "error_text ErrCanceled = ''context canceled''"
| "error_text ErrDeadlineExceeded = ''context deadline exceeded''"
| "error_text (ErrNew s) = s"
| "error_text (ErrWrap prefix e) = prefix @ error_text e"
| "error_text (ErrFailover r p m st e) =
     ''failover('' @ reason_string r @ ''): provider='' @ p @ '' model='' @ m @ '' status='' @
     itoa st @ '': '' @ error_text e"
| "error_text (ErrExhausted as) =
     ''fallback: all '' @ itoa (int (length as)) @ '' candidates failed:'' @
     concat (map (\<lambda>(i, t). [nl] @ ''  ['' @ itoa (int i + 1) @ ''] '' @ t)
       (enumerate 0 (map attempt_text as)))"
| "attempt_text (FallbackAttempt p m e r d skipped) =
     p @ ''/'' @ m @
     (if skipped then '': skipped (cooldown)''
      else '': '' @ error_text e @ '' (reason='' @ reason_string r @ '', '' @
           duration_ms_string (duration_round millisecond d div millisecond) @ '')'')"

text \<open>\<^verbatim>\<open>errors.Is\<close> against a context error follows the chain of wrapped errors.\<close>

primrec errors_Is :: "GoError \<Rightarrow> GoError \<Rightarrow> bool" where
  "errors_Is ErrCanceled t = (t = ErrCanceled)"
| "errors_Is ErrDeadlineExceeded t = (t = ErrDeadlineExceeded)"
| "errors_Is (ErrNew s) t = (t = ErrNew s)"
| "errors_Is (ErrWrap p e) t = (t = ErrWrap p e \<or> errors_Is e t)"
| "errors_Is (ErrFailover r p m st e) t = (t = ErrFailover r p m st e \<or> errors_Is e t)"
| "errors_Is (ErrExhausted as) t = (t = ErrExhausted as)"

definition IsRetriable :: "FailoverReason \<Rightarrow> bool" where
  "IsRetriable r \<longleftrightarrow> r \<noteq> FailoverFormat"

subsection \<open>Patterns\<close>

datatype errorPattern = Substr string | Rxp "rx list"

definition opt_sep :: "rx list" where
  "opt_sep = [Opt (\<lambda>c. c = CHR ''_'' \<or> c = CHR '' '')]"

definition rateLimitPatterns :: "errorPattern list" where
  "rateLimitPatterns =
     [Rxp (ilit ''rate'' @ [Cls (\<lambda>c. c = CHR ''_'' \<or> c = CHR '' '')] @ ilit ''limit''),
      Substr ''too many requests'',
      Substr ''429'',
      Substr ''exceeded your current quota'',
      Rxp (ilit ''exceeded'' @ [Star rx_any] @ ilit ''quota''),
      Rxp (ilit ''resource has been exhausted''),
      Rxp (ilit ''resource'' @ [Star rx_any] @ ilit ''exhausted''),
      Substr ''resource_exhausted'',
      Substr ''quota exceeded'',
      Substr ''usage limit'']"

definition overloadedPatterns :: "errorPattern list" where
  "overloadedPatterns =
     [Rxp (ilit ''overloaded_error''),
      Rxp (ilit [dquote] @ ilit ''type'' @ ilit [dquote] @ [Star rx_space] @ ilit '':'' @ [Star rx_space] @
           ilit [dquote] @ ilit ''overloaded_error'' @ ilit [dquote]),
      Substr ''overloaded'']"

definition timeoutPatterns :: "errorPattern list" where
  "timeoutPatterns =
     [Substr ''timeout'', Substr ''timed out'', Substr ''deadline exceeded'',
      Substr ''context deadline exceeded'']"

definition billingPatterns :: "errorPattern list" where
  "billingPatterns =
     [Rxp ([WordB] @ ilit ''402'' @ [WordB]),
      Substr ''payment required'', Substr ''insufficient credits'', Substr ''credit balance'',
      Substr ''plans & billing'', Substr ''insufficient balance'']"

definition authPatterns :: "errorPattern list" where
  "authPatterns =
     [Rxp (ilit ''invalid'' @ opt_sep @ ilit ''api'' @ opt_sep @ ilit ''key''),
      Substr ''incorrect api key'', Substr ''invalid token'', Substr ''authentication'',
      Substr ''re-authenticate'', Substr ''oauth token refresh failed'', Substr ''unauthorized'',
      Substr ''forbidden'', Substr ''access denied'', Substr ''expired'', Substr ''token has expired'',
      Rxp ([WordB] @ ilit ''401'' @ [WordB]),
      Rxp ([WordB] @ ilit ''403'' @ [WordB]),
      Substr ''no credentials found'', Substr ''no api key found'']"

definition formatPatterns :: "errorPattern list" where
  "formatPatterns =
     [Substr ''string should match pattern'', Substr ''tool_use.id'', Substr ''tool_use_id'',
      Substr ''messages.1.content.1.tool_use.id'', Substr ''invalid request format'']"

definition imageDimensionPatterns :: "errorPattern list" where
  "imageDimensionPatterns = [Rxp (ilit ''image dimensions exceed max'')]"

definition imageSizePatterns :: "errorPattern list" where
  "imageSizePatterns = [Rxp (ilit ''image exceeds'' @ [Star rx_any] @ ilit ''mb'')]"

definition transientStatusCodes :: "int list" where
  "transientStatusCodes = [500, 502, 503, 521, 522, 523, 524, 529]"

subsection \<open>Classification\<close>

definition pattern_matches :: "string \<Rightarrow> errorPattern \<Rightarrow> bool" where
  "pattern_matches msg p =
     (case p of
        Rxp r \<Rightarrow> MatchString r msg
      | Substr sub \<Rightarrow> sub \<noteq> [] \<and> contains msg sub)"

definition matchesAny :: "string \<Rightarrow> errorPattern list \<Rightarrow> bool" where
  "matchesAny msg patterns \<longleftrightarrow> list_ex (pattern_matches msg) patterns"

definition IsImageDimensionError :: "string \<Rightarrow> bool" where
  "IsImageDimensionError msg = matchesAny msg imageDimensionPatterns"

definition IsImageSizeError :: "string \<Rightarrow> bool" where
  "IsImageSizeError msg = matchesAny msg imageSizePatterns"

fun parseDigits_from :: "int \<Rightarrow> string \<Rightarrow> int" where
  "parseDigits_from n [] = n"
| "parseDigits_from n (c # s) =
     parseDigits_from (if is_digit c then n * 10 + (of_char c - 48) else n) s"

definition parseDigits :: "string \<Rightarrow> int" where
  "parseDigits s = parseDigits_from 0 s"

definition statusRe :: "rx list" where
  "statusRe = lit ''status'' @ plus (\<lambda>c. c = CHR '':'' \<or> rx_space c) @ [Digits3]"

definition httpRe :: "rx list" where
  "httpRe = lit ''HTTP'' @ plus (\<lambda>c. c = CHR ''/'' \<or> rx_space c) @ [Star is_digit, Opt (\<lambda>c. c = CHR ''.''),
     Star is_digit] @ plus rx_space @ [Digits3]"

definition extractHTTPStatus :: "string \<Rightarrow> int" where
  "extractHTTPStatus msg =
     (case FindStringSubmatch statusRe msg of
        Some m \<Rightarrow> parseDigits m
      | None \<Rightarrow>
          (case FindStringSubmatch httpRe msg of
             Some m \<Rightarrow> parseDigits m
           | None \<Rightarrow> 0))"

definition classifyByStatus :: "int \<Rightarrow> FailoverReason" where
  "classifyByStatus status =
     (if status = 401 \<or> status = 403 then FailoverAuth
      else if status = 402 then FailoverBilling
      else if status = 408 then FailoverTimeout
      else if status = 429 then FailoverRateLimit
      else if status = 400 then FailoverFormat
      else if status \<in> set transientStatusCodes then FailoverTimeout
      else ReasonEmpty)"

definition classifyByMessage :: "string \<Rightarrow> FailoverReason" where
  "classifyByMessage msg =
     (if matchesAny msg rateLimitPatterns then FailoverRateLimit
      else if matchesAny msg overloadedPatterns then FailoverRateLimit
      else if matchesAny msg billingPatterns then FailoverBilling
      else if matchesAny msg timeoutPatterns then FailoverTimeout
      else if matchesAny msg authPatterns then FailoverAuth
      else if matchesAny msg formatPatterns then FailoverFormat
      else ReasonEmpty)"

text \<open>\<open>ClassifyError\<close> returns a \<^verbatim>\<open>*FailoverError\<close>, that is, reason and status of an
  \<open>ErrFailover\<close> error, or nothing. A nil error is the caller's \<open>None\<close>.\<close>

definition ClassifyError :: "GoError option \<Rightarrow> string \<Rightarrow> string \<Rightarrow> GoError option" where
  "ClassifyError eo provider model =
     (case eo of
        None \<Rightarrow> None
      | Some err \<Rightarrow>
          if errors_Is err ErrCanceled then None
          else if errors_Is err ErrDeadlineExceeded then
            Some (ErrFailover FailoverTimeout provider model 0 err)
          else let msg = to_lower (error_text err) in
            if IsImageDimensionError msg \<or> IsImageSizeError msg then
              Some (ErrFailover FailoverFormat provider model 0 err)
            else let status = extractHTTPStatus msg in
              if status > 0 \<and> classifyByStatus status \<noteq> ReasonEmpty then
                Some (ErrFailover (classifyByStatus status) provider model status err)
              else if classifyByMessage msg \<noteq> ReasonEmpty then
                Some (ErrFailover (classifyByMessage msg) provider model 0 err)
              else None)"

subsection \<open>Lemmas\<close>

lemma classifyByStatus_range:
  "classifyByStatus st \<in> {ReasonEmpty, FailoverAuth, FailoverBilling, FailoverTimeout, FailoverRateLimit, FailoverFormat}"
  by (simp add: classifyByStatus_def)

lemma classifyByMessage_range:
  "classifyByMessage m \<in> {ReasonEmpty, FailoverAuth, FailoverBilling, FailoverTimeout, FailoverRateLimit, FailoverFormat}"
  by (simp add: classifyByMessage_def)

lemma httpRe_cons: "\<exists>rs. httpRe = Cls (\<lambda>c. c = CHR ''H'') # rs"
  by (simp add: httpRe_def lit_def)

lemma httpRe_lower_None: "FindStringSubmatch httpRe (to_lower m) = None"
proof -
  obtain rs where rs: "httpRe = Cls (\<lambda>c. c = CHR ''H'') # rs" using httpRe_cons by blast
  have "\<forall>c \<in> set (to_lower m). \<not> c = CHR ''H''"
    using not_upper_to_lower [of "CHR ''H''" m] by (auto simp: is_upper_def less_eq_char_def)
  then show ?thesis unfolding FindStringSubmatch_def rs by (rule rx_find_head_None)
qed

lemma parseDigits_from_bounds:
  "0 \<le> n \<Longrightarrow> n < 10 ^ k \<Longrightarrow> 0 \<le> parseDigits_from n s \<and> parseDigits_from n s < 10 ^ (k + length s)"
proof (induction n s arbitrary: k rule: parseDigits_from.induct)
  case (1 n)
  then show ?case by simp
next
  case (2 n c s)
  let ?n = "if is_digit c then n * 10 + (of_char c - 48) else n"
  have d: "48 \<le> (of_char c :: int) \<and> (of_char c :: int) \<le> 57" if "is_digit c"
  proof -
    have "48 \<le> (of_char c :: nat) \<and> (of_char c :: nat) \<le> 57"
      using that by (simp add: is_digit_def less_eq_char_def)
    moreover have "int (of_char c) = (of_char c :: int)" by (rule of_nat_of_char)
    ultimately show ?thesis by linarith
  qed
  have "0 \<le> ?n \<and> ?n < 10 ^ Suc k" using 2(2,3) d by auto
  from 2(1) [of "Suc k"] this show ?case by simp
qed

lemma rx_match_Digits3: "rx_match rs prev s = Some m \<Longrightarrow> m = [] \<or> length m = 3"
  by (induction rs prev s arbitrary: m rule: rx_match.induct)
     (auto simp: or_else_Some split: if_splits)

lemma rx_find_Digits3: "rx_find rs prev s = Some m \<Longrightarrow> m = [] \<or> length m = 3"
  by (induction rs prev s rule: rx_find.induct) (auto simp: or_else_Some dest: rx_match_Digits3)

lemma parseDigits_bounds: "m = [] \<or> length m = 3 \<Longrightarrow> 0 \<le> parseDigits m \<and> parseDigits m < 1000"
  using parseDigits_from_bounds [of 0 0 m] by (auto simp: parseDigits_def)

lemma extractHTTPStatus_bounds: "0 \<le> extractHTTPStatus s \<and> extractHTTPStatus s < 1000"
  using rx_find_Digits3 parseDigits_bounds
  by (auto simp: extractHTTPStatus_def FindStringSubmatch_def split: option.split)

lemma ClassifyError_Some:
  assumes "ClassifyError (Some err) p m = Some e"
  shows "\<exists>r st. e = ErrFailover r p m st err \<and> 0 \<le> st \<and> st < 1000 \<and>
         r \<in> {FailoverAuth, FailoverBilling, FailoverTimeout, FailoverRateLimit, FailoverFormat}"
proof -
  let ?msg = "to_lower (error_text err)"
  let ?st = "extractHTTPStatus ?msg"
  have "e = ErrFailover FailoverTimeout p m 0 err \<or> e = ErrFailover FailoverFormat p m 0 err \<or>
      (e = ErrFailover (classifyByStatus ?st) p m ?st err \<and> classifyByStatus ?st \<noteq> ReasonEmpty) \<or>
      (e = ErrFailover (classifyByMessage ?msg) p m 0 err \<and> classifyByMessage ?msg \<noteq> ReasonEmpty)"
    using assms by (auto simp: ClassifyError_def Let_def split: if_splits)
  then show ?thesis
    using extractHTTPStatus_bounds [of ?msg] classifyByStatus_range [of ?st]
      classifyByMessage_range [of ?msg] by fastforce
qed

subsection \<open>Properties\<close>

text \<open>A classified error wraps the original one, names the provider and model of the
  attempt, and carries one of the five reasons auth, billing, timeout, rate limit and format;
  a cancelled context is never classified, an exceeded deadline always is, as a retriable
  timeout.\<close>

theorem ClassifyError_sound:
  "(ClassifyError (Some err) p m = Some e \<longrightarrow>
      (\<exists>r st. e = ErrFailover r p m st err \<and> 0 \<le> st \<and> st < 1000 \<and>
         r \<in> {FailoverAuth, FailoverBilling, FailoverTimeout, FailoverRateLimit, FailoverFormat})) \<and>
   (errors_Is err ErrCanceled \<longrightarrow> ClassifyError (Some err) p m = None) \<and>
   (errors_Is err ErrDeadlineExceeded \<and> \<not> errors_Is err ErrCanceled \<longrightarrow>
      ClassifyError (Some err) p m = Some (ErrFailover FailoverTimeout p m 0 err) \<and>
      IsRetriable FailoverTimeout)"
  using ClassifyError_Some [of err p m e] by (simp add: ClassifyError_def IsRetriable_def)

theorem ClassifyError_sound_witness:
  "(\<exists>r st. ClassifyError (Some (ErrNew ''API error: Status: 429'')) ''openai'' ''gpt'' =
     Some (ErrFailover r ''openai'' ''gpt'' st (ErrNew ''API error: Status: 429'')) \<and> st = 429 \<and>
     r = FailoverRateLimit) \<and>
   ClassifyError (Some (ErrWrap ''llm: '' ErrCanceled)) ''openai'' ''gpt'' = None"
proof -
  have c: "ClassifyError (Some (ErrNew ''API error: Status: 429'')) ''openai'' ''gpt'' =
     Some (ErrFailover FailoverRateLimit ''openai'' ''gpt'' 429 (ErrNew ''API error: Status: 429''))"
    by code_simp
  have "errors_Is (ErrWrap ''llm: '' ErrCanceled) ErrCanceled" by simp
  with c ClassifyError_sound [of "ErrWrap ''llm: '' ErrCanceled" "''openai''" "''gpt''"] show ?thesis
    by blast
qed

text \<open>The second status pattern of \<open>extractHTTPStatus\<close>, written with upper-case \<open>HTTP\<close>, never
  matches: the classifier lower-cases the message first. Messages such as \<open>HTTP/1.1 503\<close> therefore
  yield no status, and this one is not classified at all.\<close>

theorem extractHTTPStatus_http_pattern_dead:
  "FindStringSubmatch httpRe (to_lower msg) = None \<and>
   FindStringSubmatch httpRe ''HTTP/1.1 503 Service Unavailable'' = Some ''503'' \<and>
   extractHTTPStatus (to_lower ''HTTP/1.1 503 Service Unavailable'') = 0 \<and>
   ClassifyError (Some (ErrNew ''HTTP/1.1 503 Service Unavailable'')) p m = None"
proof -
  have m: "FindStringSubmatch httpRe ''HTTP/1.1 503 Service Unavailable'' = Some ''503''" by code_simp
  have e: "extractHTTPStatus (to_lower ''HTTP/1.1 503 Service Unavailable'') = 0" by code_simp
  have n: "IsImageDimensionError (to_lower ''HTTP/1.1 503 Service Unavailable'') = False"
    "IsImageSizeError (to_lower ''HTTP/1.1 503 Service Unavailable'') = False"
    "classifyByMessage (to_lower ''HTTP/1.1 503 Service Unavailable'') = ReasonEmpty" by code_simp+
  have "ClassifyError (Some (ErrNew ''HTTP/1.1 503 Service Unavailable'')) p m = None"
    unfolding ClassifyError_def option.case Let_def error_text.simps e n by simp
  with m e show ?thesis using httpRe_lower_None by blast
qed

end
