(* ===== verification/Cooldown.thy ===== *)
theory Cooldown
  imports Errors
begin

text \<open>
  The per-provider cooldown tracker, \<^verbatim>\<open>pkg/providers/cooldown.go\<close>. The clock
  \<^verbatim>\<open>nowFunc\<close> is an explicit argument of the operations that read it; the mutex makes each
  operation atomic, so a concurrent history is a sequence of these operations. Counters are
  unbounded integers: reaching \<open>2 ^ 63\<close> failures of one provider is out of scope.
\<close>

definition defaultFailureWindow :: duration where "defaultFailureWindow = 24 * hour"

record cooldownEntry =
  ce_ErrorCount :: int
  ce_FailureCounts :: "FailoverReason \<Rightarrow> int"
  ce_CooldownEnd :: time
  ce_DisabledUntil :: time
  ce_DisabledReason :: FailoverReason
  ce_LastFailure :: time

record CooldownTracker =
  ct_entries :: "string \<rightharpoonup> cooldownEntry"
  ct_failureWindow :: duration

definition NewCooldownTracker :: CooldownTracker where
  "NewCooldownTracker = \<lparr>ct_entries = Map.empty, ct_failureWindow = defaultFailureWindow\<rparr>"

definition calculateStandardCooldown :: "int \<Rightarrow> duration" where
  "calculateStandardCooldown errorCount =
     (let n = max 1 errorCount; e = min (n - 1) 3; ms = 60000 * 5 ^ nat e; ms = min 3600000 ms
      in ms * millisecond)"

definition calculateBillingCooldown :: "int \<Rightarrow> duration" where
  "calculateBillingCooldown billingErrorCount =
     (let baseMs = 5 * 60 * 60 * 1000; maxMs = 24 * 60 * 60 * 1000;
          n = max 1 billingErrorCount; e = min (n - 1) 10; raw = baseMs * 2 ^ nat e; ms = min maxMs raw
      in ms * millisecond)"

definition new_entry :: cooldownEntry where
  "new_entry = \<lparr>ce_ErrorCount = 0, ce_FailureCounts = (\<lambda>_. 0), ce_CooldownEnd = 0,
     ce_DisabledUntil = 0, ce_DisabledReason = ReasonEmpty, ce_LastFailure = 0\<rparr>"

definition getOrCreate :: "CooldownTracker \<Rightarrow> string \<Rightarrow> cooldownEntry" where
  "getOrCreate ct provider = (case ct_entries ct provider of None \<Rightarrow> new_entry | Some e \<Rightarrow> e)"

definition fail_entry :: "duration \<Rightarrow> time \<Rightarrow> FailoverReason \<Rightarrow> cooldownEntry \<Rightarrow> cooldownEntry" where
  "fail_entry window now reason entry =
     (let entry = (if ce_LastFailure entry \<noteq> 0 \<and> time_sub now (ce_LastFailure entry) > window
                   then entry\<lparr>ce_ErrorCount := 0, ce_FailureCounts := (\<lambda>_. 0)\<rparr> else entry);
          entry = entry\<lparr>ce_ErrorCount := ce_ErrorCount entry + 1,
                    ce_FailureCounts := (ce_FailureCounts entry)(reason := ce_FailureCounts entry reason + 1),
                    ce_LastFailure := now\<rparr>
      in if reason = FailoverBilling
         then entry\<lparr>ce_DisabledUntil := now + calculateBillingCooldown (ce_FailureCounts entry FailoverBilling),
                ce_DisabledReason := FailoverBilling\<rparr>
         else entry\<lparr>ce_CooldownEnd := now + calculateStandardCooldown (ce_ErrorCount entry)\<rparr>)"

definition MarkFailure :: "CooldownTracker \<Rightarrow> time \<Rightarrow> string \<Rightarrow> FailoverReason \<Rightarrow> CooldownTracker" where
  "MarkFailure ct now provider reason =
     ct\<lparr>ct_entries := (ct_entries ct)(provider \<mapsto>
          fail_entry (ct_failureWindow ct) now reason (getOrCreate ct provider))\<rparr>"

definition MarkSuccess :: "CooldownTracker \<Rightarrow> string \<Rightarrow> CooldownTracker" where
  "MarkSuccess ct provider =
     (case ct_entries ct provider of
        None \<Rightarrow> ct
      | Some entry \<Rightarrow> ct\<lparr>ct_entries := (ct_entries ct)(provider \<mapsto>
          entry\<lparr>ce_ErrorCount := 0, ce_FailureCounts := (\<lambda>_. 0), ce_CooldownEnd := 0,
            ce_DisabledUntil := 0, ce_DisabledReason := ReasonEmpty\<rparr>)\<rparr>)"

definition IsAvailable :: "CooldownTracker \<Rightarrow> time \<Rightarrow> string \<Rightarrow> bool" where
  "IsAvailable ct now provider =
     (case ct_entries ct provider of
        None \<Rightarrow> True
      | Some entry \<Rightarrow>
          if ce_DisabledUntil entry \<noteq> 0 \<and> now < ce_DisabledUntil entry then False
          else if ce_CooldownEnd entry \<noteq> 0 \<and> now < ce_CooldownEnd entry then False
          else True)"

definition CooldownRemaining :: "CooldownTracker \<Rightarrow> time \<Rightarrow> string \<Rightarrow> duration" where
  "CooldownRemaining ct now provider =
     (case ct_entries ct provider of
        None \<Rightarrow> 0
      | Some entry \<Rightarrow>
          let remaining = 0;
              remaining = (if ce_DisabledUntil entry \<noteq> 0 \<and> now < ce_DisabledUntil entry
                           then let d = time_sub (ce_DisabledUntil entry) now
                                in if d > remaining then d else remaining
                           else remaining);
              remaining = (if ce_CooldownEnd entry \<noteq> 0 \<and> now < ce_CooldownEnd entry
                           then let d = time_sub (ce_CooldownEnd entry) now
                                in if d > remaining then d else remaining
                           else remaining)
          in remaining)"

definition ErrorCount :: "CooldownTracker \<Rightarrow> string \<Rightarrow> int" where
  "ErrorCount ct provider = (case ct_entries ct provider of None \<Rightarrow> 0 | Some e \<Rightarrow> ce_ErrorCount e)"

definition FailureCount :: "CooldownTracker \<Rightarrow> string \<Rightarrow> FailoverReason \<Rightarrow> int" where
  "FailureCount ct provider reason =
     (case ct_entries ct provider of None \<Rightarrow> 0 | Some e \<Rightarrow> ce_FailureCounts e reason)"

text \<open>The trackers the program can reach: any sequence of marks under a clock that does not go
  backwards.\<close>

inductive tracker_reach :: "time \<Rightarrow> CooldownTracker \<Rightarrow> bool" where
  new: "0 < t \<Longrightarrow> tracker_reach t NewCooldownTracker"
| failure: "tracker_reach t ct \<Longrightarrow> t \<le> now \<Longrightarrow> tracker_reach now (MarkFailure ct now p r)"
| success: "tracker_reach t ct \<Longrightarrow> t \<le> now \<Longrightarrow> tracker_reach now (MarkSuccess ct p)"

subsection \<open>The back-off schedules\<close>

lemma standard_cases:
  "calculateStandardCooldown n =
     (if n \<le> 1 then minute else if n = 2 then 5 * minute else if n = 3 then 25 * minute else hour)"
proof -
  consider "n \<le> 1" | "n = 2" | "n = 3" | "n = 4" | "n > 4" by linarith
  then show ?thesis by cases (simp_all add: calculateStandardCooldown_def Let_def)
qed

lemma billing_ge_4: "4 \<le> n \<Longrightarrow> calculateBillingCooldown n = 24 * hour"
proof -
  assume n: "4 \<le> n"
  let ?e = "nat (min (n - 1) 10)"
  have "3 \<le> ?e" using n by simp
  then have "(2::int) ^ 3 \<le> 2 ^ ?e" by (rule power_increasing) simp
  then have "min (24 * 60 * 60 * 1000) (5 * 60 * 60 * 1000 * 2 ^ ?e) = (24 * 60 * 60 * 1000 :: int)" by simp
  moreover have "max 1 n = n" using n by simp
  ultimately show ?thesis unfolding calculateBillingCooldown_def Let_def by simp
qed

lemma billing_cases:
  "calculateBillingCooldown n =
     (if n \<le> 1 then 5 * hour else if n = 2 then 10 * hour else if n = 3 then 20 * hour else 24 * hour)"
proof -
  consider "n \<le> 1" | "n = 2" | "n = 3" | "n \<ge> 4" by linarith
  then show ?thesis
  proof cases
    case 4
    then show ?thesis by (simp add: billing_ge_4)
  qed (simp_all add: calculateBillingCooldown_def Let_def)
qed

lemma standard_bounds: "minute \<le> calculateStandardCooldown n \<and> calculateStandardCooldown n \<le> hour"
  by (simp add: standard_cases)

lemma billing_bounds: "5 * hour \<le> calculateBillingCooldown n \<and> calculateBillingCooldown n \<le> 24 * hour"
  by (simp add: billing_cases)

subsection \<open>Operations on one entry\<close>

lemma entries_MarkFailure [lookup_simps]:
  "ct_entries (MarkFailure ct now p r) q =
     (if q = p then Some (fail_entry (ct_failureWindow ct) now r (getOrCreate ct p)) else ct_entries ct q)"
  by (simp add: MarkFailure_def)

lemma entries_MarkSuccess [lookup_simps]:
  "ct_entries (MarkSuccess ct p) q =
     (if q = p then map_option (\<lambda>e. e\<lparr>ce_ErrorCount := 0, ce_FailureCounts := (\<lambda>_. 0), ce_CooldownEnd := 0,
            ce_DisabledUntil := 0, ce_DisabledReason := ReasonEmpty\<rparr>) (ct_entries ct p)
      else ct_entries ct q)"
  by (auto simp: MarkSuccess_def split: option.split)

lemma fail_entry_times:
  "ce_LastFailure (fail_entry w now r e) = now"
  "ce_DisabledUntil (fail_entry w now r e) =
     (if r = FailoverBilling
      then now + calculateBillingCooldown (ce_FailureCounts (fail_entry w now r e) FailoverBilling)
      else ce_DisabledUntil e)"
  "ce_CooldownEnd (fail_entry w now r e) =
     (if r = FailoverBilling then ce_CooldownEnd e
      else now + calculateStandardCooldown (ce_ErrorCount (fail_entry w now r e)))"
  by (simp_all add: fail_entry_def Let_def)

lemma window_MarkFailure [simp]: "ct_failureWindow (MarkFailure ct now p r) = ct_failureWindow ct"
  by (simp add: MarkFailure_def)

lemma window_MarkSuccess [simp]: "ct_failureWindow (MarkSuccess ct p) = ct_failureWindow ct"
  by (simp add: MarkSuccess_def split: option.split)

lemma failure_blocks:
  assumes "0 < now" "now \<le> t" "t < now + minute"
  shows "\<not> IsAvailable (MarkFailure ct now p r) t p"
proof (cases "r = FailoverBilling")
  case True
  let ?n = "ce_FailureCounts (fail_entry (ct_failureWindow ct) now r (getOrCreate ct p)) FailoverBilling"
  have "t < now + calculateBillingCooldown ?n \<and> now + calculateBillingCooldown ?n \<noteq> 0"
    using assms billing_bounds [of ?n] by linarith
  with True show ?thesis by (simp add: IsAvailable_def entries_MarkFailure fail_entry_times)
next
  case False
  let ?n = "ce_ErrorCount (fail_entry (ct_failureWindow ct) now r (getOrCreate ct p))"
  have "t < now + calculateStandardCooldown ?n \<and> now + calculateStandardCooldown ?n \<noteq> 0"
    using assms standard_bounds [of ?n] by linarith
  with False show ?thesis by (simp add: IsAvailable_def entries_MarkFailure fail_entry_times)
qed

lemma success_clears: "IsAvailable (MarkSuccess ct p) t p"
  by (simp add: IsAvailable_def entries_MarkSuccess split: option.split)

lemma failure_frame: "q \<noteq> p \<Longrightarrow> IsAvailable (MarkFailure ct now p r) t q = IsAvailable ct t q"
  by (simp add: IsAvailable_def entries_MarkFailure)

lemma success_frame: "q \<noteq> p \<Longrightarrow> IsAvailable (MarkSuccess ct p) t q = IsAvailable ct t q"
  by (simp add: IsAvailable_def entries_MarkSuccess)

subsection \<open>The interface the fallback chain relies on\<close>

locale cooldown_tracker =
  fixes available :: "'t \<Rightarrow> time \<Rightarrow> string \<Rightarrow> bool"
    and mark_failure :: "'t \<Rightarrow> time \<Rightarrow> string \<Rightarrow> FailoverReason \<Rightarrow> 't"
    and mark_success :: "'t \<Rightarrow> string \<Rightarrow> 't"
  assumes fail_blocks: "0 < now \<Longrightarrow> now \<le> t \<Longrightarrow> t < now + minute \<Longrightarrow>
      \<not> available (mark_failure ct now p r) t p"
    and success_available: "available (mark_success ct p) t p"
    and fail_other: "q \<noteq> p \<Longrightarrow> available (mark_failure ct now p r) t q = available ct t q"
    and success_other: "q \<noteq> p \<Longrightarrow> available (mark_success ct p) t q = available ct t q"
begin

text \<open>A series of failure marks leaves the providers it does not name as they were, and blocks
  every provider it names for the minute after the last mark.\<close>

primrec mark_failures :: "'t \<Rightarrow> (time \<times> string \<times> FailoverReason) list \<Rightarrow> 't" where
  "mark_failures ct [] = ct"
| "mark_failures ct (m # ms) = mark_failures (mark_failure ct (fst m) (fst (snd m)) (snd (snd m))) ms"

lemma mark_failures_other:
  "q \<notin> (fst \<circ> snd) ` set ms \<Longrightarrow> available (mark_failures ct ms) t q = available ct t q"
  by (induction ms arbitrary: ct) (auto simp: fail_other)

lemma mark_failures_blocks:
  assumes "q \<in> (fst \<circ> snd) ` set ms" "\<forall>m \<in> set ms. 0 < fst m \<and> fst m \<le> t \<and> t < fst m + minute"
  shows "\<not> available (mark_failures ct ms) t q"
  using assms
proof (induction ms arbitrary: ct)
  case (Cons m ms)
  show ?case
  proof (cases "q \<in> (fst \<circ> snd) ` set ms")
    case True
    with Cons show ?thesis by simp
  next
    case False
    with Cons.prems have "fst (snd m) = q" "0 < fst m" "fst m \<le> t" "t < fst m + minute" by auto
    then show ?thesis using False fail_blocks by (simp add: mark_failures_other)
  qed
qed simp

end

interpretation tracker: cooldown_tracker IsAvailable MarkFailure MarkSuccess
  by unfold_locales
     (simp_all only: failure_blocks success_clears failure_frame success_frame not_False_eq_True)

subsection \<open>Invariants of the reachable trackers\<close>

definition total_failures :: "(FailoverReason \<Rightarrow> int) \<Rightarrow> int" where
  "total_failures f = sum_list (map f [ReasonEmpty, FailoverAuth, FailoverRateLimit, FailoverBilling,
     FailoverTimeout, FailoverFormat, FailoverOverloaded, FailoverUnknown])"

lemma total_failures_upd: "total_failures (f(r := f r + 1)) = total_failures f + 1"
  by (cases r) (simp_all add: total_failures_def)

lemma total_failures_zero: "total_failures (\<lambda>_. 0) = 0"
  by (simp add: total_failures_def)

definition entry_inv :: "time \<Rightarrow> cooldownEntry \<Rightarrow> bool" where
  "entry_inv now e \<longleftrightarrow>
     ce_LastFailure e \<le> now \<and>
     (ce_CooldownEnd e = 0 \<or> ce_CooldownEnd e \<le> now + hour) \<and>
     (ce_DisabledUntil e = 0 \<or> ce_DisabledUntil e \<le> now + 24 * hour) \<and>
     ce_ErrorCount e = total_failures (ce_FailureCounts e)"

definition tracker_inv :: "time \<Rightarrow> CooldownTracker \<Rightarrow> bool" where
  "tracker_inv now ct \<longleftrightarrow> 0 < now \<and> (\<forall>p e. ct_entries ct p = Some e \<longrightarrow> entry_inv now e)"

lemma entry_inv_mono: "entry_inv t e \<Longrightarrow> t \<le> now \<Longrightarrow> entry_inv now e"
  by (auto simp: entry_inv_def)

lemma entry_inv_new: "0 < now \<Longrightarrow> entry_inv now new_entry"
  by (simp add: entry_inv_def new_entry_def total_failures_zero)

lemma entry_inv_fail [inv_intros]:
  assumes "entry_inv now e"
  shows "entry_inv now (fail_entry w now r e)"
proof -
  have "ce_ErrorCount (fail_entry w now r e) = total_failures (ce_FailureCounts (fail_entry w now r e))"
    using assms by (simp add: entry_inv_def fail_entry_def Let_def total_failures_upd total_failures_zero)
  moreover have "ce_CooldownEnd (fail_entry w now r e) \<le> now + hour \<or> ce_CooldownEnd (fail_entry w now r e) = 0"
    using assms standard_bounds by (auto simp: entry_inv_def fail_entry_times)
  moreover have "ce_DisabledUntil (fail_entry w now r e) \<le> now + 24 * hour \<or> ce_DisabledUntil (fail_entry w now r e) = 0"
    using assms billing_bounds by (auto simp: entry_inv_def fail_entry_times)
  ultimately show ?thesis using fail_entry_times(1) [of w now r e] unfolding entry_inv_def by auto
qed

lemma tracker_inv_failure [inv_intros]:
  assumes "tracker_inv t ct" "t \<le> now"
  shows "tracker_inv now (MarkFailure ct now p r)"
proof -
  have "entry_inv now (getOrCreate ct p)"
    using assms entry_inv_mono entry_inv_new [of now]
    by (fastforce simp: tracker_inv_def getOrCreate_def split: option.split)
  then show ?thesis
    using assms by (auto simp: tracker_inv_def entries_MarkFailure intro: entry_inv_fail entry_inv_mono)
qed

lemma tracker_inv_success [inv_intros]:
  assumes "tracker_inv t ct" "t \<le> now"
  shows "tracker_inv now (MarkSuccess ct p)"
proof -
  have "entry_inv now e" if "ct_entries ct q = Some e" for q e
    using that assms entry_inv_mono unfolding tracker_inv_def by blast
  then show ?thesis
    using assms by (auto simp: tracker_inv_def entries_MarkSuccess entry_inv_def total_failures_zero split: if_splits)
qed

lemma tracker_inv_new: "0 < t \<Longrightarrow> tracker_inv t NewCooldownTracker"
  by (simp add: tracker_inv_def NewCooldownTracker_def)

lemma tracker_reach_inv: "tracker_reach t ct \<Longrightarrow> tracker_inv t ct"
  by (induction rule: tracker_reach.induct) (blast intro: tracker_inv_new inv_intros)+

lemma available_iff_remaining: "IsAvailable ct now p \<longleftrightarrow> CooldownRemaining ct now p = 0"
proof (cases "ct_entries ct p")
  case (Some e)
  show ?thesis
    using Some time_sub_pos [of "ce_DisabledUntil e" now] time_sub_pos [of "ce_CooldownEnd e" now]
    by (simp add: IsAvailable_def CooldownRemaining_def Let_def) linarith
qed (simp add: IsAvailable_def CooldownRemaining_def)

subsection \<open>Properties\<close>

text \<open>The back-off schedules are the documented tables: 1, 5, 25 and then 60 minutes for the
  standard cooldown, 5, 10, 20 and then 24 hours for billing failures.\<close>

theorem cooldown_schedules:
  "calculateStandardCooldown n =
     (if n \<le> 1 then minute else if n = 2 then 5 * minute else if n = 3 then 25 * minute else hour) \<and>
   calculateBillingCooldown n =
     (if n \<le> 1 then 5 * hour else if n = 2 then 10 * hour else if n = 3 then 20 * hour else 24 * hour)"
  using standard_cases billing_cases by blast

text \<open>Marking a failure takes the provider out of service for at least the next minute and
  nobody else; marking a success puts it back at once; and in every case a provider is available
  exactly when its remaining cooldown is zero.\<close>

theorem cooldown_marks:
  assumes "0 < now" "now \<le> t" "t < now + minute"
  shows "\<not> IsAvailable (MarkFailure ct now p r) t p \<and> IsAvailable (MarkSuccess ct p) t p \<and>
    (\<forall>q. q \<noteq> p \<longrightarrow> IsAvailable (MarkFailure ct now p r) t q = IsAvailable ct t q \<and>
                  IsAvailable (MarkSuccess ct p) t q = IsAvailable ct t q) \<and>
    (IsAvailable ct t p \<longleftrightarrow> CooldownRemaining ct t p = 0)"
  using tracker.fail_blocks [OF assms] tracker.success_available tracker.fail_other
    tracker.success_other available_iff_remaining by blast

theorem cooldown_marks_witness:
  "\<not> IsAvailable (MarkFailure NewCooldownTracker 5 ''openai'' FailoverTimeout) (5 + 30 * second) ''openai'' \<and>
   IsAvailable (MarkFailure NewCooldownTracker 5 ''openai'' FailoverTimeout) (5 + 30 * second) ''zai''"
  using cooldown_marks [of 5 "5 + 30 * second" NewCooldownTracker "''openai''" FailoverTimeout]
  by (simp add: IsAvailable_def NewCooldownTracker_def)

text \<open>No provider is locked out for ever: from every reachable tracker, a provider is
  available again at the latest 24 hours after the last operation.\<close>

theorem cooldown_expires:
  assumes "tracker_reach t ct" "t + 24 * hour \<le> now"
  shows "IsAvailable ct now p"
  using tracker_reach_inv [OF assms(1)] assms(2)
  by (fastforce simp: IsAvailable_def tracker_inv_def entry_inv_def split: option.split)

theorem cooldown_expires_witness:
  "IsAvailable (MarkFailure NewCooldownTracker 7 ''openai'' FailoverBilling) (7 + 24 * hour) ''openai''"
proof (rule cooldown_expires)
  show "tracker_reach 7 (MarkFailure NewCooldownTracker 7 ''openai'' FailoverBilling)"
    by (rule tracker_reach.failure [OF tracker_reach.new [of 7]]) simp_all
qed simp

text \<open>In every reachable tracker the error count of a provider is the sum of its failure
  counts over all reasons.\<close>

theorem error_count_is_sum:
  assumes "tracker_reach t ct"
  shows "ErrorCount ct p = (\<Sum>r \<leftarrow> [ReasonEmpty, FailoverAuth, FailoverRateLimit, FailoverBilling,
     FailoverTimeout, FailoverFormat, FailoverOverloaded, FailoverUnknown]. FailureCount ct p r)"
  using tracker_reach_inv [OF assms]
  by (auto simp: ErrorCount_def FailureCount_def tracker_inv_def entry_inv_def total_failures_def
      split: option.split)

theorem error_count_is_sum_witness:
  "ErrorCount (MarkFailure NewCooldownTracker 7 ''a'' FailoverAuth) ''a'' =
     (\<Sum>r \<leftarrow> [ReasonEmpty, FailoverAuth, FailoverRateLimit, FailoverBilling,
     FailoverTimeout, FailoverFormat, FailoverOverloaded, FailoverUnknown].
        FailureCount (MarkFailure NewCooldownTracker 7 ''a'' FailoverAuth) ''a'' r)"
  by (rule error_count_is_sum [OF tracker_reach.failure [OF tracker_reach.new [of 7]]]) simp_all

end
