(* ===== verification/Fallback.thy ===== *)
theory Fallback
  imports Cooldown
begin

text \<open>
  Model references and the fallback chain: \<^verbatim>\<open>pkg/providers/model_ref.go\<close> and
  \<^verbatim>\<open>pkg/providers/fallback.go\<close>. What the chain meets outside the program is the argument
  \<open>env\<close>: for the \<open>i\<close>-th candidate, what \<^verbatim>\<open>ctx.Err()\<close> says before and after the call, the clock
  readings, and what the \<^verbatim>\<open>run\<close> callback returns. The effects are explicit: the tracker is
  threaded through, and the second component of the result lists the candidates for which
  \<^verbatim>\<open>run\<close> was called, in order.
\<close>

subsection \<open>Model references\<close>

record ModelRef =
  mr_Provider :: string
  mr_Model :: string

definition NormalizeProvider :: "string \<Rightarrow> string" where
  "NormalizeProvider provider =
     (let p = to_lower (trim_space provider) in
      if p = ''z.ai'' \<or> p = ''z-ai'' then ''zai''
      else if p = ''opencode-zen'' then ''opencode''
      else if p = ''qwen'' then ''qwen-portal''
      else if p = ''kimi-code'' then ''kimi-coding''
      else if p = ''gpt'' then ''openai''
      else if p = ''claude'' then ''anthropic''
      else if p = ''glm'' then ''zhipu''
      else if p = ''google'' then ''gemini''
      else p)"

definition ParseModelRef :: "string \<Rightarrow> string \<Rightarrow> ModelRef option" where
  "ParseModelRef raw defaultProvider =
     (let raw = trim_space raw in
      if raw = [] then None
      else case index_of ''/'' raw of
             Some (Suc j) \<Rightarrow>
               (let idx = Suc j; provider = NormalizeProvider (take idx raw);
                    model = trim_space (drop (idx + 1) raw)
                in if model = [] then None else Some \<lparr>mr_Provider = provider, mr_Model = model\<rparr>)
           | _ \<Rightarrow> Some \<lparr>mr_Provider = NormalizeProvider defaultProvider, mr_Model = raw\<rparr>)"

definition ModelKey :: "string \<Rightarrow> string \<Rightarrow> string" where
  "ModelKey provider model = NormalizeProvider provider @ ''/'' @ to_lower (trim_space model)"

subsection \<open>Candidates\<close>

record ModelConfig =
  mc_Primary :: string
  mc_Fallbacks :: "string list"

record FallbackCandidate =
  fc_Provider :: string
  fc_Model :: string

type_synonym candidate_acc = "string list \<times> FallbackCandidate list"

definition addCandidate :: "string \<Rightarrow> string \<Rightarrow> candidate_acc \<Rightarrow> candidate_acc" where
  "addCandidate defaultProvider raw acc =
     (case ParseModelRef raw defaultProvider of
        None \<Rightarrow> acc
      | Some ref \<Rightarrow>
          let key = ModelKey (mr_Provider ref) (mr_Model ref); (seen, candidates) = acc in
          if key \<in> set seen then acc
          else (key # seen, candidates @ [\<lparr>fc_Provider = mr_Provider ref, fc_Model = mr_Model ref\<rparr>]))"

definition ResolveCandidates :: "ModelConfig \<Rightarrow> string \<Rightarrow> FallbackCandidate list" where
  "ResolveCandidates cfg defaultProvider =
     snd (fold (addCandidate defaultProvider) (mc_Fallbacks cfg)
            (addCandidate defaultProvider (mc_Primary cfg) ([], [])))"

subsection \<open>The chain\<close>

record 'r attempt_env =
  ae_canceled_before :: bool
  ae_now_check :: time
  ae_now_remaining :: time
  ae_result :: "GoError + 'r"
  ae_elapsed :: duration
  ae_canceled_after :: bool
  ae_now_mark :: time

record 'r FallbackResult =
  fr_Response :: 'r
  fr_Provider :: string
  fr_Model :: string
  fr_Attempts :: "FallbackAttempt list"

type_synonym 'r chain_result =
  "CooldownTracker \<times> FallbackCandidate list \<times> (GoError + 'r FallbackResult)"

definition skipped_attempt :: "FallbackCandidate \<Rightarrow> duration \<Rightarrow> FallbackAttempt" where
  "skipped_attempt c remaining =
     FallbackAttempt (fc_Provider c) (fc_Model c)
       (ErrNew (''provider '' @ fc_Provider c @ '' in cooldown ('' @
          duration_ms_string (duration_round second remaining div millisecond) @ '' remaining)''))
       FailoverRateLimit 0 True"

definition ran :: "FallbackCandidate \<Rightarrow> 'r chain_result \<Rightarrow> 'r chain_result" where
  "ran c res = (case res of (ct, calls, out) \<Rightarrow> (ct, c # calls, out))"

fun Execute_from :: "(nat \<Rightarrow> 'r attempt_env) \<Rightarrow> nat \<Rightarrow> FallbackAttempt list \<Rightarrow> CooldownTracker \<Rightarrow>
    FallbackCandidate list \<Rightarrow> 'r chain_result" where
  "Execute_from env i attempts ct [] = (ct, [], Inl (ErrExhausted attempts))"
| "Execute_from env i attempts ct (c # cs) =
     (let e = env i in
      if ae_canceled_before e then (ct, [], Inl ErrCanceled)
      else if \<not> IsAvailable ct (ae_now_check e) (fc_Provider c) then
        Execute_from env (Suc i)
          (attempts @ [skipped_attempt c (CooldownRemaining ct (ae_now_remaining e) (fc_Provider c))]) ct cs
      else ran c
        (case ae_result e of
           Inr resp \<Rightarrow>
             (MarkSuccess ct (fc_Provider c), [],
              Inr \<lparr>fr_Response = resp, fr_Provider = fc_Provider c, fr_Model = fc_Model c,
                   fr_Attempts = attempts\<rparr>)
         | Inl err \<Rightarrow>
             if ae_canceled_after e then (ct, [], Inl ErrCanceled)
             else (case ClassifyError (Some err) (fc_Provider c) (fc_Model c) of
                None \<Rightarrow>
                  (ct, [], Inl (ErrWrap (''fallback: unclassified error from '' @ fc_Provider c @ ''/'' @
                     fc_Model c @ '': '') err))
              | Some failErr \<Rightarrow>
                  if \<not> IsRetriable (fe_Reason failErr) then (ct, [], Inl failErr)
                  else let ct' = MarkFailure ct (ae_now_mark e) (fc_Provider c) (fe_Reason failErr);
                           attempts' = attempts @ [FallbackAttempt (fc_Provider c) (fc_Model c) failErr
                             (fe_Reason failErr) (ae_elapsed e) False]
                       in if cs = [] then (ct', [], Inl (ErrExhausted attempts'))
                          else Execute_from env (Suc i) attempts' ct' cs)))"

definition Execute :: "(nat \<Rightarrow> 'r attempt_env) \<Rightarrow> CooldownTracker \<Rightarrow> FallbackCandidate list \<Rightarrow>
    'r chain_result" where
  "Execute env ct candidates =
     (if candidates = [] then (ct, [], Inl (ErrNew ''fallback: no candidates configured''))
      else Execute_from env 0 [] ct candidates)"

text \<open>The image chain has no cooldown checks; the tracker is not an argument of it.\<close>

fun ExecuteImage_from :: "(nat \<Rightarrow> 'r attempt_env) \<Rightarrow> nat \<Rightarrow> FallbackAttempt list \<Rightarrow>
    FallbackCandidate list \<Rightarrow> GoError + 'r FallbackResult" where
  "ExecuteImage_from env i attempts [] = Inl (ErrExhausted attempts)"
| "ExecuteImage_from env i attempts (c # cs) =
     (let e = env i in
      if ae_canceled_before e then Inl ErrCanceled
      else case ae_result e of
        Inr resp \<Rightarrow> Inr \<lparr>fr_Response = resp, fr_Provider = fc_Provider c, fr_Model = fc_Model c,
                         fr_Attempts = attempts\<rparr>
      | Inl err \<Rightarrow>
          if ae_canceled_after e then Inl ErrCanceled
          else let errMsg = to_lower (error_text err) in
            if IsImageDimensionError errMsg \<or> IsImageSizeError errMsg then
              Inl (ErrFailover FailoverFormat (fc_Provider c) (fc_Model c) 0 err)
            else let attempts' = attempts @ [FallbackAttempt (fc_Provider c) (fc_Model c) err
                        ReasonEmpty (ae_elapsed e) False]
                 in if cs = [] then Inl (ErrExhausted attempts')
                    else ExecuteImage_from env (Suc i) attempts' cs)"

definition ExecuteImage :: "(nat \<Rightarrow> 'r attempt_env) \<Rightarrow> FallbackCandidate list \<Rightarrow>
    GoError + 'r FallbackResult" where
  "ExecuteImage env candidates =
     (if candidates = [] then Inl (ErrNew ''image fallback: no candidates configured'')
      else ExecuteImage_from env 0 [] candidates)"

subsection \<open>Lemmas on model references\<close>

lemma NormalizeProvider_cases:
  "NormalizeProvider p = to_lower (trim_space p) \<or>
   NormalizeProvider p \<in> set [''zai'', ''opencode'', ''qwen-portal'', ''kimi-coding'', ''openai'',
      ''anthropic'', ''zhipu'', ''gemini'']"
  by (simp add: NormalizeProvider_def Let_def)

lemma NormalizeProvider_targets:
  "list_all (\<lambda>q. NormalizeProvider q = q \<and> CHR ''/'' \<notin> set q \<and> q \<noteq> [])
     [''zai'', ''opencode'', ''qwen-portal'', ''kimi-coding'', ''openai'', ''anthropic'', ''zhipu'', ''gemini'']"
  by code_simp

lemma NormalizeProvider_trim_lower: "NormalizeProvider (to_lower (trim_space p)) = NormalizeProvider p"
  by (simp add: NormalizeProvider_def trim_space_to_lower)

lemma NormalizeProvider_idem: "NormalizeProvider (NormalizeProvider p) = NormalizeProvider p"
  using NormalizeProvider_cases [of p] NormalizeProvider_targets NormalizeProvider_trim_lower [of p]
  by (auto simp: list_all_iff)

lemma NormalizeProvider_no_slash:
  assumes "CHR ''/'' \<notin> set p" shows "CHR ''/'' \<notin> set (NormalizeProvider p)"
proof -
  have n: "CHR ''/'' \<notin> set (to_lower (trim_space p))"
    by (rule notin_to_lower_trim [OF assms]) (simp add: is_lower_def less_eq_char_def)
  have t: "CHR ''/'' \<notin> set q" if "q \<in> set [''zai'', ''opencode'', ''qwen-portal'', ''kimi-coding'', ''openai'',
      ''anthropic'', ''zhipu'', ''gemini'']" for q
    using that NormalizeProvider_targets unfolding list_all_iff by blast
  from NormalizeProvider_cases [of p] show ?thesis
  proof
    assume "NormalizeProvider p = to_lower (trim_space p)"
    with n show ?thesis by simp
  next
    assume "NormalizeProvider p \<in> set [''zai'', ''opencode'', ''qwen-portal'', ''kimi-coding'', ''openai'',
      ''anthropic'', ''zhipu'', ''gemini'']"
    then show ?thesis by (rule t)
  qed
qed

lemma NormalizeProvider_trimmed: "trim_space (NormalizeProvider p) = NormalizeProvider p"
proof -
  have "list_all (\<lambda>q. trim_space q = q) [''zai'', ''opencode'', ''qwen-portal'', ''kimi-coding'', ''openai'',
      ''anthropic'', ''zhipu'', ''gemini'']" by code_simp
  then show ?thesis
    using NormalizeProvider_cases [of p] by (auto simp: trim_space_to_lower list_all_iff)
qed

lemma index_of_slash: "CHR ''/'' \<notin> set a \<Longrightarrow> index_of ''/'' (a @ CHR ''/'' # b) = Some (length a)"
  by (rule index_of_single_append)

lemma index_of_single_take: "index_of [c] s = Some i \<Longrightarrow> c \<notin> set (take i s)"
  by (induction s arbitrary: i) (auto split: if_splits)

lemma trim_provider_model:
  assumes "trim_space p = p" "p \<noteq> []" "trim_space m = m" "m \<noteq> []"
  shows "trim_space (p @ CHR ''/'' # m) = p @ CHR ''/'' # m"
proof -
  have "\<not> is_space (hd p)"
  proof -
    have "dropWhile is_space p \<noteq> []" using assms(1,2) by (metis trim_right_def dropWhile.simps(1) rev.simps(1) trim_space_def)
    then have "\<not> is_space (hd (dropWhile is_space p))" by (rule hd_dropWhile)
    moreover have "hd p = hd (dropWhile is_space p)"
      using assms(1,2) hd_trim_right [of is_space "dropWhile is_space p"] by (simp add: trim_space_def)
    ultimately show ?thesis by simp
  qed
  moreover have "\<not> is_space (last m)" using assms(3,4) by (metis last_trim_right trim_space_def)
  ultimately show ?thesis using assms(2,4) by (intro trim_space_id) simp
qed

lemma ParseModelRef_roundtrip:
  assumes "NormalizeProvider p = p" "CHR ''/'' \<notin> set p" "p \<noteq> []" "trim_space m = m" "m \<noteq> []"
  shows "ParseModelRef (p @ ''/'' @ m) d = Some \<lparr>mr_Provider = p, mr_Model = m\<rparr>"
proof -
  have "trim_space p = p" using NormalizeProvider_trimmed [of p] assms(1) by simp
  then have t: "trim_space (p @ CHR ''/'' # m) = p @ CHR ''/'' # m"
    using assms by (intro trim_provider_model) auto
  obtain j where j: "length p = Suc j" using assms(3) by (cases p) auto
  show ?thesis
    using assms t index_of_slash [OF assms(2), of m] j by (simp add: ParseModelRef_def Let_def)
qed

lemma ParseModelRef_model: "ParseModelRef raw d = Some ref \<Longrightarrow> trim_space (mr_Model ref) = mr_Model ref \<and> mr_Model ref \<noteq> []"
  by (auto simp: ParseModelRef_def Let_def split: if_splits option.splits nat.splits)

lemma ParseModelRef_provider: "ParseModelRef raw d = Some ref \<Longrightarrow> NormalizeProvider (mr_Provider ref) = mr_Provider ref"
  by (auto simp: ParseModelRef_def Let_def NormalizeProvider_idem split: if_splits option.splits nat.splits)

subsection \<open>Lemmas on candidates\<close>

definition cand_key :: "FallbackCandidate \<Rightarrow> string" where
  "cand_key c = ModelKey (fc_Provider c) (fc_Model c)"

definition acc_inv :: "candidate_acc \<Rightarrow> bool" where
  "acc_inv acc \<longleftrightarrow> set (fst acc) = set (map cand_key (snd acc)) \<and> distinct (map cand_key (snd acc))"

definition raw_keys :: "string \<Rightarrow> string list \<Rightarrow> string set" where
  "raw_keys d raws = {ModelKey (mr_Provider ref) (mr_Model ref) |raw ref.
      raw \<in> set raws \<and> ParseModelRef raw d = Some ref}"

lemma acc_inv_add: "acc_inv acc \<Longrightarrow> acc_inv (addCandidate d raw acc)"
  by (auto simp: acc_inv_def addCandidate_def Let_def cand_key_def split: option.split prod.split)

lemma keys_add:
  "acc_inv acc \<Longrightarrow> cand_key ` set (snd (addCandidate d raw acc)) =
     cand_key ` set (snd acc) \<union> raw_keys d [raw]"
  by (auto simp: acc_inv_def addCandidate_def Let_def cand_key_def raw_keys_def split: option.split prod.split)

lemma prefix_add: "\<exists>more. snd (addCandidate d raw acc) = snd acc @ more"
  by (auto simp: addCandidate_def Let_def split: option.split prod.split)

lemma raw_keys_Cons: "raw_keys d (r # rs) = raw_keys d [r] \<union> raw_keys d rs"
  by (auto simp: raw_keys_def)

lemma fold_addCandidate:
  "acc_inv acc \<Longrightarrow> acc_inv (fold (addCandidate d) raws acc) \<and>
     cand_key ` set (snd (fold (addCandidate d) raws acc)) = cand_key ` set (snd acc) \<union> raw_keys d raws \<and>
     (\<exists>more. snd (fold (addCandidate d) raws acc) = snd acc @ more)"
proof (induction raws arbitrary: acc)
  case Nil
  then show ?case by (simp add: raw_keys_def)
next
  case (Cons r rs)
  have inv: "acc_inv (addCandidate d r acc)" using Cons.prems by (rule acc_inv_add)
  obtain m where "snd (addCandidate d r acc) = snd acc @ m" using prefix_add by blast
  with Cons.IH [OF inv] keys_add [OF Cons.prems, of d r] show ?case
    by (auto simp: raw_keys_Cons [of d r rs])
qed

subsection \<open>Lemmas on the chain\<close>

lemma ran_eq: "ran c res = (ct, calls, out) \<longleftrightarrow> (\<exists>calls'. res = (ct, calls', out) \<and> calls = c # calls')"
  by (cases res) (auto simp: ran_def)

definition attempt_of :: "FallbackAttempt \<Rightarrow> string \<times> string" where
  "attempt_of a = (fa_Provider a, fa_Model a)"

definition cand_of :: "FallbackCandidate \<Rightarrow> string \<times> string" where
  "cand_of c = (fc_Provider c, fc_Model c)"

definition passed_over :: "FallbackAttempt \<Rightarrow> bool" where
  "passed_over a \<longleftrightarrow> (fa_Skipped a \<or> IsRetriable (fa_Reason a))"

text \<open>The steps that pass to the next candidate, and the invariant they keep: one attempt per
  candidate passed over, in order, each skipped or retriable.\<close>

lemma skipped_attempt_facts [simp]:
  "attempt_of (skipped_attempt c d) = cand_of c" "passed_over (skipped_attempt c d)"
  by (simp_all add: attempt_of_def cand_of_def passed_over_def skipped_attempt_def)

definition covers :: "FallbackAttempt list \<Rightarrow> FallbackCandidate list \<Rightarrow> bool" where
  "covers as cs \<longleftrightarrow> map attempt_of as = map cand_of cs \<and> list_all passed_over as"

lemma covers_Nil [simp]: "covers [] []"
  by (simp add: covers_def)

lemma covers_snoc: "covers as cs \<Longrightarrow> attempt_of a = cand_of c \<Longrightarrow> passed_over a \<Longrightarrow> covers (as @ [a]) (cs @ [c])"
  by (simp add: covers_def)

text \<open>One step of the chain: how it goes on or ends.\<close>

lemma Execute_from_step:
  obtains (canceled) calls where "Execute_from env i as ct (c # cs) = (ct, calls, Inl ErrCanceled)"
      "calls = [] \<or> (calls = [c] \<and> IsAvailable ct (ae_now_check (env i)) (fc_Provider c))"
  | (success) resp where "ae_result (env i) = Inr resp" "IsAvailable ct (ae_now_check (env i)) (fc_Provider c)"
      "Execute_from env i as ct (c # cs) = (MarkSuccess ct (fc_Provider c), [c],
         Inr \<lparr>fr_Response = resp, fr_Provider = fc_Provider c, fr_Model = fc_Model c, fr_Attempts = as\<rparr>)"
  | (abort) err where "IsAvailable ct (ae_now_check (env i)) (fc_Provider c)" "ae_result (env i) = Inl err"
      "Execute_from env i as ct (c # cs) = (ct, [c], Inl (case ClassifyError (Some err) (fc_Provider c) (fc_Model c) of
          None \<Rightarrow> ErrWrap (''fallback: unclassified error from '' @ fc_Provider c @ ''/'' @ fc_Model c @ '': '') err
        | Some fe \<Rightarrow> fe))"
      "\<forall>fe. ClassifyError (Some err) (fc_Provider c) (fc_Model c) = Some fe \<longrightarrow> fe_Reason fe = FailoverFormat"
  | (skip) a where "attempt_of a = cand_of c" "passed_over a" "\<not> IsAvailable ct (ae_now_check (env i)) (fc_Provider c)"
      "Execute_from env i as ct (c # cs) = Execute_from env (Suc i) (as @ [a]) ct cs"
  | (retry) a r where "attempt_of a = cand_of c" "passed_over a" "IsAvailable ct (ae_now_check (env i)) (fc_Provider c)"
      "Execute_from env i as ct (c # cs) =
         ran c (Execute_from env (Suc i) (as @ [a]) (MarkFailure ct (ae_now_mark (env i)) (fc_Provider c) r) cs)"
proof (cases "ae_canceled_before (env i)")
  case True
  then show ?thesis by (intro canceled [of "[]"]) simp_all
next
  case nb: False
  show ?thesis
  proof (cases "IsAvailable ct (ae_now_check (env i)) (fc_Provider c)")
    case False
    with nb show ?thesis
      by (intro skip [of "skipped_attempt c (CooldownRemaining ct (ae_now_remaining (env i)) (fc_Provider c))"])
         simp_all
  next
    case av: True
    show ?thesis
    proof (cases "ae_result (env i)")
      case (Inr resp)
      with nb av show ?thesis by (intro success) (simp_all add: ran_def)
    next
      case (Inl err)
      consider (ca) "ae_canceled_after (env i)"
        | (ab) "\<not> ae_canceled_after (env i)" "\<forall>fe. ClassifyError (Some err) (fc_Provider c) (fc_Model c) = Some fe \<longrightarrow>
            fe_Reason fe = FailoverFormat"
        | (re) fe where "\<not> ae_canceled_after (env i)" "ClassifyError (Some err) (fc_Provider c) (fc_Model c) = Some fe"
            "IsRetriable (fe_Reason fe)"
        by (auto simp: IsRetriable_def)
      then show ?thesis
      proof cases
        case ca
        with nb av Inl show ?thesis by (intro canceled [of "[c]"]) (simp_all add: ran_def)
      next
        case ab
        then have "Execute_from env i as ct (c # cs) = (ct, [c], Inl (case ClassifyError (Some err) (fc_Provider c) (fc_Model c) of
          None \<Rightarrow> ErrWrap (''fallback: unclassified error from '' @ fc_Provider c @ ''/'' @ fc_Model c @ '': '') err
        | Some fe \<Rightarrow> fe))"
          using nb av Inl by (simp add: ran_def IsRetriable_def split: option.split)
        with av Inl ab show ?thesis by (intro abort) simp_all
      next
        case re
        let ?a = "FallbackAttempt (fc_Provider c) (fc_Model c) fe (fe_Reason fe) (ae_elapsed (env i)) False"
        have "Execute_from env i as ct (c # cs) =
         ran c (Execute_from env (Suc i) (as @ [?a]) (MarkFailure ct (ae_now_mark (env i)) (fc_Provider c) (fe_Reason fe)) cs)"
          using nb av Inl re by (cases cs) (simp_all add: Let_def del: Execute_from.simps(2), simp_all add: Let_def)
        with av re show ?thesis
          by (intro retry [of ?a "fe_Reason fe"]) (simp_all add: attempt_of_def cand_of_def passed_over_def del: Execute_from.simps)
      qed
    qed
  qed
qed

declare Execute_from.simps(2) [simp del]

lemma Execute_from_sound:
  assumes "Execute_from env i as ct cs = (ct', calls, out)" "covers as done" "i = length done"
  shows "(\<forall>r. out = Inr r \<longrightarrow> (\<exists>pre c post. done @ cs = pre @ c # post \<and>
            cand_of c = (fr_Provider r, fr_Model r) \<and> covers (fr_Attempts r) pre \<and>
            ae_result (env (length pre)) = Inr (fr_Response r) \<and> calls \<noteq> [] \<and> last calls = c)) \<and>
         (\<forall>e. out = Inl e \<longrightarrow> e = ErrCanceled \<or> (\<exists>xs. e = ErrExhausted xs \<and> covers xs (done @ cs)) \<or>
            (\<exists>c \<in> set cs. calls \<noteq> [] \<and> last calls = c \<and> (\<exists>err st.
               e = ErrFailover FailoverFormat (fc_Provider c) (fc_Model c) st err \<or>
               e = ErrWrap (''fallback: unclassified error from '' @ fc_Provider c @ ''/'' @ fc_Model c @ '': '') err)))"
  (is "?S done cs calls out")
  using assms
proof (induction cs arbitrary: i as ct calls "done")
  case Nil
  then show ?case by auto
next
  case (Cons c cs)
  show ?case
  proof (cases rule: Execute_from_step [of env i as ct c cs])
    case (canceled calls1)
    with Cons.prems show ?thesis by auto
  next
    case (success resp)
    with Cons.prems have "calls = [c] \<and> out = Inr \<lparr>fr_Response = resp, fr_Provider = fc_Provider c,
        fr_Model = fc_Model c, fr_Attempts = as\<rparr>" by simp
    with success(1) Cons.prems(2,3) show ?thesis by (auto simp: cand_of_def)
  next
    case (abort err)
    with Cons.prems(1) have *: "calls = [c]" "out = Inl (case ClassifyError (Some err) (fc_Provider c) (fc_Model c) of
          None \<Rightarrow> ErrWrap (''fallback: unclassified error from '' @ fc_Provider c @ ''/'' @ fc_Model c @ '': '') err
        | Some fe \<Rightarrow> fe)" by simp_all
    show ?thesis
    proof (cases "ClassifyError (Some err) (fc_Provider c) (fc_Model c)")
      case None
      with * show ?thesis by auto
    next
      case (Some fe)
      with abort(4) ClassifyError_Some [OF Some] * show ?thesis by auto
    qed
  next
    case (skip a)
    have cov: "covers (as @ [a]) (done @ [c])" using covers_snoc Cons.prems(2) skip(1,2) by blast
    have "?S (done @ [c]) cs calls out"
      by (rule Cons.IH [OF _ cov]) (use Cons.prems skip in simp_all)
    then show ?thesis by auto
  next
    case (retry a r)
    with Cons.prems(1) obtain calls' where c': "calls = c # calls'"
      "Execute_from env (Suc i) (as @ [a]) (MarkFailure ct (ae_now_mark (env i)) (fc_Provider c) r) cs = (ct', calls', out)"
      by (auto simp: ran_eq)
    have cov: "covers (as @ [a]) (done @ [c])" using covers_snoc Cons.prems(2) retry(1,2) by blast
    have "?S (done @ [c]) cs calls' out"
      by (rule Cons.IH [OF c'(2) cov]) (use Cons.prems in simp_all)
    then show ?thesis using c'(1) by auto
  qed
qed

lemma Execute_from_providers:
  assumes "Execute_from env i as ct cs = (ct', calls, out)"
    and "\<And>p j. p \<in> B \<Longrightarrow> i \<le> j \<Longrightarrow> j < n \<Longrightarrow> \<not> IsAvailable ct (ae_now_check (env j)) p"
    and "\<And>j k. j < k \<Longrightarrow> k < n \<Longrightarrow> 0 < ae_now_mark (env j) \<and> ae_now_mark (env j) \<le> ae_now_check (env k) \<and>
           ae_now_check (env k) < ae_now_mark (env j) + minute"
    and "i + length cs = n"
  shows "distinct (map fc_Provider calls) \<and> set (map fc_Provider calls) \<inter> B = {}"
  using assms
proof (induction cs arbitrary: i as ct calls B)
  case Nil
  then show ?case by simp
next
  case (Cons c cs)
  show ?case
  proof (cases rule: Execute_from_step [of env i as ct c cs])
    case (canceled calls1)
    with Cons.prems(1) have "calls = [] \<or> (calls = [c] \<and> IsAvailable ct (ae_now_check (env i)) (fc_Provider c))"
      by simp
    with Cons.prems(2) [of "fc_Provider c" i] Cons.prems(4) show ?thesis by auto
  next
    case (success resp)
    with Cons.prems(1) have "calls = [c]" by simp
    with success(2) Cons.prems(2) [of "fc_Provider c" i] Cons.prems(4) show ?thesis by auto
  next
    case (abort err)
    with Cons.prems(1) have "calls = [c]" by simp
    with abort(1) Cons.prems(2) [of "fc_Provider c" i] Cons.prems(4) show ?thesis by auto
  next
    case (skip a)
    show ?thesis by (rule Cons.IH [of "Suc i" "as @ [a]" ct calls B]) (use Cons.prems skip in auto)
  next
    case (retry a r)
    let ?ct = "MarkFailure ct (ae_now_mark (env i)) (fc_Provider c) r"
    from retry(4) Cons.prems(1) obtain calls' where c': "calls = c # calls'"
      "Execute_from env (Suc i) (as @ [a]) ?ct cs = (ct', calls', out)"
      using ran_eq [of c _ ct' calls out] by metis
    have notB: "fc_Provider c \<notin> B" using retry(3) Cons.prems(2) [of "fc_Provider c" i] Cons.prems(4) by auto
    have "distinct (map fc_Provider calls') \<and> set (map fc_Provider calls') \<inter> insert (fc_Provider c) B = {}"
    proof (rule Cons.IH [OF c'(2)])
      fix p j assume "p \<in> insert (fc_Provider c) B" "Suc i \<le> j" "j < n"
      then show "\<not> IsAvailable ?ct (ae_now_check (env j)) p"
        using tracker.fail_blocks Cons.prems(2) [of p j] Cons.prems(3) [of i j] tracker.fail_other
        by (cases "p = fc_Provider c") auto
    qed (use Cons.prems in auto)
    with notB c'(1) show ?thesis by auto
  qed
qed

subsection \<open>Properties\<close>

text \<open>(C4) What the fallback chain returns. A success comes from one candidate, whose call was
  the last one made; the recorded attempts name exactly the candidates before it, in order, each
  skipped in cooldown or failed with a retriable reason. An error is a cancellation, an aggregate
  over all candidates, or the immediate abort by a non-retriable or unclassified error of the
  candidate called last.\<close>

theorem Execute_outcomes:
  assumes "candidates \<noteq> []" "Execute env ct candidates = (ct', calls, out)"
  shows "(\<forall>r. out = Inr r \<longrightarrow> (\<exists>pre c post. candidates = pre @ c # post \<and>
            cand_of c = (fr_Provider r, fr_Model r) \<and> covers (fr_Attempts r) pre \<and>
            ae_result (env (length pre)) = Inr (fr_Response r) \<and> calls \<noteq> [] \<and> last calls = c)) \<and>
         (\<forall>e. out = Inl e \<longrightarrow> e = ErrCanceled \<or> (\<exists>xs. e = ErrExhausted xs \<and> covers xs candidates) \<or>
            (\<exists>c \<in> set candidates. calls \<noteq> [] \<and> last calls = c \<and> (\<exists>err st.
               e = ErrFailover FailoverFormat (fc_Provider c) (fc_Model c) st err \<or>
               e = ErrWrap (''fallback: unclassified error from '' @ fc_Provider c @ ''/'' @ fc_Model c @ '': '') err)))"
  using Execute_from_sound [of env 0 "[]" ct candidates ct' calls out "[]"] assms
  by (simp add: Execute_def)

text \<open>A chain of two providers whose first call times out and whose second succeeds.\<close>

definition sample_candidates :: "FallbackCandidate list" where
  "sample_candidates = [\<lparr>fc_Provider = ''openai'', fc_Model = ''gpt-5''\<rparr>,
     \<lparr>fc_Provider = ''openai'', fc_Model = ''gpt-4''\<rparr>, \<lparr>fc_Provider = ''zai'', fc_Model = ''glm''\<rparr>]"

definition sample_env :: "nat \<Rightarrow> string attempt_env" where
  "sample_env i = \<lparr>ae_canceled_before = False, ae_now_check = 10, ae_now_remaining = 10,
     ae_result = (if i = 0 then Inl (ErrWrap ''post: '' ErrDeadlineExceeded) else Inr ''hello''),
     ae_elapsed = 3, ae_canceled_after = False, ae_now_mark = 10\<rparr>"

lemma sample_run:
  "fst (snd (Execute sample_env NewCooldownTracker sample_candidates)) =
     [\<lparr>fc_Provider = ''openai'', fc_Model = ''gpt-5''\<rparr>, \<lparr>fc_Provider = ''zai'', fc_Model = ''glm''\<rparr>] \<and>
   (case snd (snd (Execute sample_env NewCooldownTracker sample_candidates)) of
      Inr r \<Rightarrow> fr_Response r = ''hello'' \<and> fr_Provider r = ''zai'' | Inl _ \<Rightarrow> False)"
  by code_simp

theorem Execute_outcomes_witness:
  "\<exists>r. snd (snd (Execute sample_env NewCooldownTracker sample_candidates)) = Inr r \<and>
     (\<exists>pre c post. sample_candidates = pre @ c # post \<and> covers (fr_Attempts r) pre)"
proof -
  obtain ct' calls out where e: "Execute sample_env NewCooldownTracker sample_candidates = (ct', calls, out)"
    by (cases "Execute sample_env NewCooldownTracker sample_candidates") auto
  with sample_run obtain r where r: "out = Inr r" by (auto split: sum.splits)
  have "sample_candidates \<noteq> []" by (simp add: sample_candidates_def)
  from Execute_outcomes [OF this e] r e show ?thesis by auto
qed

text \<open>One call per provider: when the clock readings of a chain lie within a minute of each
  other, the cooldown set by a failure blocks every later candidate of the same provider, so no
  provider is called twice in one run of the chain.\<close>

theorem Execute_one_call_per_provider:
  assumes "Execute env ct candidates = (ct', calls, out)"
    and "\<forall>j k. j < k \<and> k < length candidates \<longrightarrow> 0 < ae_now_mark (env j) \<and>
           ae_now_mark (env j) \<le> ae_now_check (env k) \<and> ae_now_check (env k) < ae_now_mark (env j) + minute"
  shows "distinct (map fc_Provider calls)"
proof (cases "candidates = []")
  case True
  with assms(1) show ?thesis by (simp add: Execute_def)
next
  case False
  then have "Execute_from env 0 [] ct candidates = (ct', calls, out)"
    using assms(1) by (simp add: Execute_def)
  from Execute_from_providers [OF this, of "{}" "length candidates"] assms(2) show ?thesis by simp
qed

theorem Execute_one_call_per_provider_witness:
  "distinct (map fc_Provider (fst (snd (Execute sample_env NewCooldownTracker sample_candidates))))"
proof -
  obtain ct' calls out where e: "Execute sample_env NewCooldownTracker sample_candidates = (ct', calls, out)"
    by (cases "Execute sample_env NewCooldownTracker sample_candidates") auto
  have "\<forall>j k. j < k \<and> k < length sample_candidates \<longrightarrow> 0 < ae_now_mark (sample_env j) \<and>
     ae_now_mark (sample_env j) \<le> ae_now_check (sample_env k) \<and>
     ae_now_check (sample_env k) < ae_now_mark (sample_env j) + minute" by (simp add: sample_env_def)
  from Execute_one_call_per_provider [OF e this] e show ?thesis by simp
qed

text \<open>The candidate list contains every model that the configuration names, once: its keys
  are pairwise distinct, they are exactly the keys of the references that parse, and a parseable
  primary comes first.\<close>

theorem ResolveCandidates_keys:
  "distinct (map cand_key (ResolveCandidates cfg d)) \<and>
   set (map cand_key (ResolveCandidates cfg d)) = raw_keys d (mc_Primary cfg # mc_Fallbacks cfg) \<and>
   (\<forall>ref. ParseModelRef (mc_Primary cfg) d = Some ref \<longrightarrow> (\<exists>more. ResolveCandidates cfg d =
      \<lparr>fc_Provider = mr_Provider ref, fc_Model = mr_Model ref\<rparr> # more))"
proof -
  let ?acc = "addCandidate d (mc_Primary cfg) ([], [])"
  have inv0: "acc_inv ([], [])" by (simp add: acc_inv_def)
  have inv: "acc_inv ?acc" using inv0 by (rule acc_inv_add)
  note f = fold_addCandidate [OF inv, of d "mc_Fallbacks cfg"]
  have k: "cand_key ` set (snd ?acc) = raw_keys d [mc_Primary cfg]" using keys_add [OF inv0] by simp
  have "snd ?acc = [\<lparr>fc_Provider = mr_Provider ref, fc_Model = mr_Model ref\<rparr>]"
    if "ParseModelRef (mc_Primary cfg) d = Some ref" for ref
    using that by (simp add: addCandidate_def Let_def)
  with f k show ?thesis
    by (auto simp: ResolveCandidates_def acc_inv_def raw_keys_Cons [of d "mc_Primary cfg" "mc_Fallbacks cfg"])
qed

theorem ResolveCandidates_keys_witness:
  "let cfg = \<lparr>mc_Primary = ''GPT/gpt-5'', mc_Fallbacks = [''openai/GPT-5'', ''glm-4'']\<rparr> in
   length (ResolveCandidates cfg ''zhipu'') = 2 \<and>
   (\<exists>more. ResolveCandidates cfg ''zhipu'' = \<lparr>fc_Provider = ''openai'', fc_Model = ''gpt-5''\<rparr> # more)"
proof -
  let ?cfg = "\<lparr>mc_Primary = ''GPT/gpt-5'', mc_Fallbacks = [''openai/GPT-5'', ''glm-4'']\<rparr>"
  have l: "length (ResolveCandidates ?cfg ''zhipu'') = 2" by code_simp
  have "ParseModelRef (mc_Primary ?cfg) ''zhipu'' = Some \<lparr>mr_Provider = ''openai'', mr_Model = ''gpt-5''\<rparr>"
    by code_simp
  with ResolveCandidates_keys [of ?cfg "''zhipu''"]
  have "\<exists>more. ResolveCandidates ?cfg ''zhipu'' = \<lparr>fc_Provider = ''openai'', fc_Model = ''gpt-5''\<rparr> # more"
    by (metis ModelRef.select_convs)
  with l show ?thesis by (simp add: Let_def)
qed

text \<open>Model references round-trip: the provider/model form of a parsed reference that names a
  provider parses to the same reference under any default provider, and provider normalisation is
  idempotent.\<close>

theorem ParseModelRef_stable:
  assumes "ParseModelRef raw d = Some ref" "mr_Provider ref \<noteq> []" "CHR ''/'' \<notin> set (mr_Provider ref)"
  shows "ParseModelRef (mr_Provider ref @ ''/'' @ mr_Model ref) d' = Some ref \<and>
    NormalizeProvider (NormalizeProvider d) = NormalizeProvider d"
  using ParseModelRef_roundtrip [of "mr_Provider ref" "mr_Model ref" d'] assms(2,3)
    ParseModelRef_model [OF assms(1)] ParseModelRef_provider [OF assms(1)] NormalizeProvider_idem
  by simp

theorem ParseModelRef_stable_witness:
  "ParseModelRef ''anthropic/opus'' ''x'' = Some \<lparr>mr_Provider = ''anthropic'', mr_Model = ''opus''\<rparr>"
proof -
  let ?r = "\<lparr>mr_Provider = ''anthropic'', mr_Model = ''opus''\<rparr>"
  have p: "ParseModelRef '' Claude / opus '' ''zai'' = Some ?r" by code_simp
  have n: "mr_Provider ?r \<noteq> []" "CHR ''/'' \<notin> set (mr_Provider ?r)" by simp_all
  show ?thesis using ParseModelRef_stable [OF p n, of "''x''"] by simp
qed

end
