(* ===== verification/Protocol.thy ===== *)
theory Protocol
  imports Errors
begin

text \<open>
  The vocabulary the components exchange: messages, tool calls and LLM responses of
  \<^verbatim>\<open>pkg/providers/protocoltypes/types.go\<close>, the bus messages of \<^verbatim>\<open>pkg/bus/types.go\<close>,
  \<^verbatim>\<open>NormalizeToolCall\<close>, \<^verbatim>\<open>Truncate\<close> and the internal channels. A decoded JSON value is a
  \<open>json\<close>, a decoded object (\<^verbatim>\<open>map[string]any\<close>) an association list. The text codec
  \<^verbatim>\<open>json.Marshal\<close>/\<^verbatim>\<open>json.Unmarshal\<close> on such objects is the argument \<open>codec\<close>; marshalling
  can fail (\<open>Inl\<close>), unmarshalling gives \<open>None\<close> for an error and for the text \<open>null\<close>.
\<close>

datatype json = JNull | JBool bool | JNum string | JStr string | JArr "json list"
  | JObj "(string \<times> json) list"

type_synonym json_obj = "(string \<times> json) list"

record json_codec =
  jc_marshal :: "json_obj \<Rightarrow> GoError + string"
  jc_unmarshal :: "string \<Rightarrow> json_obj option"

record FunctionCall =
  fn_Name :: string
  fn_Arguments :: string
  fn_ThoughtSignature :: string

text \<open>\<open>ExtraContent\<close> is a pointer to a struct with a pointer to \<open>GoogleExtra\<close>.\<close>

record ToolCall =
  tc_ID :: string
  tc_Type :: string
  tc_Function :: "FunctionCall option"
  tc_Name :: string
  tc_Arguments :: "json_obj option"
  tc_ThoughtSignature :: string
  tc_ExtraContent :: "string option option"

record ContentBlock =
  cb_Type :: string
  cb_Text :: string
  cb_CacheControl :: "string option"

record Message =
  msg_Role :: string
  msg_Content :: string
  msg_ReasoningContent :: string
  msg_SystemParts :: "ContentBlock list"
  msg_ToolCalls :: "ToolCall list"
  msg_ToolCallID :: string

record LLMResponse =
  lr_Content :: string
  lr_ReasoningContent :: string
  lr_ToolCalls :: "ToolCall list"
  lr_FinishReason :: string

record InboundMessage =
  im_Channel :: string
  im_SenderID :: string
  im_ChatID :: string
  im_Content :: string
  im_Media :: "string list"
  im_SessionKey :: string
  im_Metadata :: "(string \<times> string) list"

record OutboundMessage =
  om_Channel :: string
  om_ChatID :: string
  om_Content :: string

text \<open>A message literal with only role and content set.\<close>

definition text_message :: "string \<Rightarrow> string \<Rightarrow> Message" where
  "text_message role content = \<lparr>msg_Role = role, msg_Content = content, msg_ReasoningContent = [],
     msg_SystemParts = [], msg_ToolCalls = [], msg_ToolCallID = []\<rparr>"

definition tool_message :: "string \<Rightarrow> string \<Rightarrow> Message" where
  "tool_message content callID = (text_message ''tool'' content)\<lparr>msg_ToolCallID := callID\<rparr>"

text \<open>Reading a \<^verbatim>\<open>map[string]string\<close>: a missing key reads as the empty string.\<close>

definition map_get :: "(string \<times> string) list \<Rightarrow> string \<Rightarrow> string" where
  "map_get m k = (case map_of m k of None \<Rightarrow> [] | Some v \<Rightarrow> v)"

definition internalChannels :: "string list" where
  "internalChannels = [''cli'', ''system'', ''subagent'', ''api'']"

definition IsInternalChannel :: "string \<Rightarrow> bool" where
  "IsInternalChannel channel \<longleftrightarrow> channel \<in> set internalChannels"

text \<open>\<open>Truncate\<close> counts runes; \<open>runes\<close> is the list of code points of the text and a slice of it
  is again text.\<close>

definition Truncate :: "string \<Rightarrow> int \<Rightarrow> string" where
  "Truncate runes maxLen =
     (if maxLen \<le> 0 then []
      else if int (length runes) \<le> maxLen then runes
      else if maxLen \<le> 3 then take (nat maxLen) runes
      else take (nat (maxLen - 3)) runes @ ''...'')"

definition DerefStr :: "string option \<Rightarrow> string \<Rightarrow> string" where
  "DerefStr s fallback = (case s of None \<Rightarrow> fallback | Some v \<Rightarrow> v)"

text \<open>\<^verbatim>\<open>%q\<close> on the text of a marshalling error.\<close>

definition hex_digit :: "int \<Rightarrow> char" where
  "hex_digit n = (if n < 10 then char_of (48 + n) else char_of (87 + n))"

definition quote_char :: "char \<Rightarrow> string" where
  "quote_char c =
     (if c = dquote then [CHR 0x5C, dquote]
      else if c = CHR 0x5C then [CHR 0x5C, CHR 0x5C]
      else if c = CHR 0x07 then [CHR 0x5C, CHR ''a'']
      else if c = CHR 0x08 then [CHR 0x5C, CHR ''b'']
      else if c = CHR 0x0C then [CHR 0x5C, CHR ''f'']
      else if c = nl then [CHR 0x5C, CHR ''n'']
      else if c = cr then [CHR 0x5C, CHR ''r'']
      else if c = tab then [CHR 0x5C, CHR ''t'']
      else if c = CHR 0x0B then [CHR 0x5C, CHR ''v'']
      else if of_char c < (32 :: int) \<or> of_char c = (127 :: int)
        then [CHR 0x5C, CHR ''x'', hex_digit (of_char c div 16), hex_digit (of_char c mod 16)]
      else [c])"

definition go_quote :: "string \<Rightarrow> string" where
  "go_quote s = [dquote] @ concat (map quote_char s) @ [dquote]"

text \<open>The steps of \<open>NormalizeToolCall\<close>: fill the name, fill the arguments, fill the function.\<close>

definition fill_name :: "ToolCall \<Rightarrow> ToolCall" where
  "fill_name n =
     (case tc_Function n of
        Some f \<Rightarrow> if tc_Name n = [] then n\<lparr>tc_Name := fn_Name f\<rparr> else n
      | None \<Rightarrow> n)"

definition fill_arguments :: "json_codec \<Rightarrow> ToolCall \<Rightarrow> ToolCall" where
  "fill_arguments codec n =
     (let n = (if tc_Arguments n = None then n\<lparr>tc_Arguments := Some []\<rparr> else n) in
      case tc_Function n of
        Some f \<Rightarrow>
          if tc_Arguments n = Some [] \<and> fn_Arguments f \<noteq> [] then
            (case jc_unmarshal codec (fn_Arguments f) of
               Some parsed \<Rightarrow> n\<lparr>tc_Arguments := Some parsed\<rparr>
             | None \<Rightarrow> n)
          else n
      | None \<Rightarrow> n)"

definition args_json :: "json_codec \<Rightarrow> ToolCall \<Rightarrow> string" where
  "args_json codec n =
     (case jc_marshal codec (case tc_Arguments n of Some a \<Rightarrow> a | None \<Rightarrow> []) of
        Inr s \<Rightarrow> s
      | Inl err \<Rightarrow> ''{'' @ [dquote] @ ''_marshal_error'' @ [dquote] @ '': '' @ go_quote (error_text err) @ ''}'')"

definition fill_function :: "string \<Rightarrow> ToolCall \<Rightarrow> ToolCall" where
  "fill_function argsJSON n =
     (case tc_Function n of
        None \<Rightarrow> n\<lparr>tc_Function := Some \<lparr>fn_Name = tc_Name n, fn_Arguments = argsJSON,
                   fn_ThoughtSignature = []\<rparr>\<rparr>
      | Some f \<Rightarrow>
          let f = (if fn_Name f = [] then f\<lparr>fn_Name := tc_Name n\<rparr> else f);
              n = (if tc_Name n = [] then n\<lparr>tc_Name := fn_Name f\<rparr> else n);
              f = (if fn_Arguments f = [] then f\<lparr>fn_Arguments := argsJSON\<rparr> else f)
          in n\<lparr>tc_Function := Some f\<rparr>)"

definition NormalizeToolCall :: "json_codec \<Rightarrow> ToolCall \<Rightarrow> ToolCall" where
  "NormalizeToolCall codec tc =
     (let n = fill_arguments codec (fill_name tc) in fill_function (args_json codec n) n)"

subsection \<open>Lemmas\<close>

lemma length_Truncate: "0 \<le> maxLen \<Longrightarrow> int (length (Truncate s maxLen)) \<le> maxLen"
  by (auto simp: Truncate_def)

lemma map_get_Nil [simp]: "map_get [] k = []"
  by (simp add: map_get_def)

lemma fill_name_facts:
  "tc_ID (fill_name n) = tc_ID n" "tc_Function (fill_name n) = tc_Function n"
  "tc_Name (fill_name n) =
     (if tc_Name n = [] then (case tc_Function n of None \<Rightarrow> [] | Some f \<Rightarrow> fn_Name f) else tc_Name n)"
  by (simp_all add: fill_name_def split: option.split)

lemma fill_arguments_facts:
  "tc_ID (fill_arguments codec n) = tc_ID n" "tc_Function (fill_arguments codec n) = tc_Function n"
  "tc_Name (fill_arguments codec n) = tc_Name n" "\<exists>args. tc_Arguments (fill_arguments codec n) = Some args"
  by (simp_all add: fill_arguments_def Let_def split: option.split)

lemma fill_function_facts:
  "tc_ID (fill_function j n) = tc_ID n" "tc_Arguments (fill_function j n) = tc_Arguments n"
  "tc_Name (fill_function j n) =
     (if tc_Name n = [] then (case tc_Function n of None \<Rightarrow> [] | Some f \<Rightarrow> fn_Name f) else tc_Name n)"
  "\<exists>f. tc_Function (fill_function j n) = Some f \<and> fn_Name f = (case tc_Function n of None \<Rightarrow> tc_Name n
           | Some g \<Rightarrow> if fn_Name g = [] then tc_Name n else fn_Name g)"
  by (auto simp: fill_function_def Let_def split: option.split)

lemma NormalizeToolCall_ID [simp]: "tc_ID (NormalizeToolCall codec tc) = tc_ID tc"
  by (simp add: NormalizeToolCall_def Let_def fill_name_facts fill_arguments_facts fill_function_facts)

lemma NormalizeToolCall_name:
  "tc_Name (NormalizeToolCall codec tc) =
     (if tc_Name tc = [] then (case tc_Function tc of None \<Rightarrow> [] | Some f \<Rightarrow> fn_Name f) else tc_Name tc)"
  by (simp add: NormalizeToolCall_def Let_def fill_name_facts fill_arguments_facts fill_function_facts)

lemma NormalizeToolCall_arguments: "\<exists>args. tc_Arguments (NormalizeToolCall codec tc) = Some args"
  using fill_arguments_facts(4) by (simp add: NormalizeToolCall_def Let_def fill_function_facts)

lemma NormalizeToolCall_function:
  "\<exists>f. tc_Function (NormalizeToolCall codec tc) = Some f \<and>
     fn_Name f = (case tc_Function tc of None \<Rightarrow> tc_Name tc
       | Some g \<Rightarrow> if fn_Name g = [] then tc_Name tc else fn_Name g)"
  using fill_function_facts(4) [of "args_json codec (fill_arguments codec (fill_name tc))"
      "fill_arguments codec (fill_name tc)"]
  by (auto simp: NormalizeToolCall_def Let_def fill_name_facts fill_arguments_facts split: option.split)

subsection \<open>Properties\<close>

text \<open>After normalisation every tool call has arguments and a function record, its identifier
  is unchanged, and its name and the function's name are taken from whichever place gave one: if at
  most one of the two was set, they agree.\<close>

theorem NormalizeToolCall_complete:
  "\<exists>args f. tc_Arguments (NormalizeToolCall codec tc) = Some args \<and>
     tc_Function (NormalizeToolCall codec tc) = Some f \<and>
     tc_ID (NormalizeToolCall codec tc) = tc_ID tc \<and>
     tc_Name (NormalizeToolCall codec tc) =
       (if tc_Name tc = [] then (case tc_Function tc of None \<Rightarrow> [] | Some g \<Rightarrow> fn_Name g) else tc_Name tc) \<and>
     ((tc_Name tc = [] \<or> (case tc_Function tc of None \<Rightarrow> True | Some g \<Rightarrow> fn_Name g \<in> {[], tc_Name tc})) \<longrightarrow>
        fn_Name f = tc_Name (NormalizeToolCall codec tc))"
proof -
  obtain args where a: "tc_Arguments (NormalizeToolCall codec tc) = Some args"
    using NormalizeToolCall_arguments by blast
  obtain f where f: "tc_Function (NormalizeToolCall codec tc) = Some f"
    "fn_Name f = (case tc_Function tc of None \<Rightarrow> tc_Name tc
       | Some g \<Rightarrow> if fn_Name g = [] then tc_Name tc else fn_Name g)"
    using NormalizeToolCall_function by blast
  show ?thesis using a f by (auto simp: NormalizeToolCall_name split: option.split)
qed

definition sample_call :: ToolCall where
  "sample_call = \<lparr>tc_ID = ''c1'', tc_Type = [], tc_Function = Some \<lparr>fn_Name = ''exec'', fn_Arguments = [],
     fn_ThoughtSignature = []\<rparr>, tc_Name = [], tc_Arguments = None, tc_ThoughtSignature = [],
     tc_ExtraContent = None\<rparr>"

definition empty_codec :: json_codec where
  "empty_codec = \<lparr>jc_marshal = (\<lambda>m. Inr ''{}''), jc_unmarshal = (\<lambda>s. None)\<rparr>"

theorem NormalizeToolCall_complete_witness:
  "\<exists>f. tc_Function (NormalizeToolCall empty_codec sample_call) = Some f \<and>
     fn_Name f = tc_Name (NormalizeToolCall empty_codec sample_call) \<and> tc_Name (NormalizeToolCall empty_codec sample_call) = ''exec''"
proof -
  have "tc_Name (NormalizeToolCall empty_codec sample_call) = ''exec''" "tc_Name sample_call = []"
    by code_simp+
  then show ?thesis using NormalizeToolCall_complete [of empty_codec sample_call] by auto
qed

end
