(* ===== verification/Session.thy ===== *)
theory Session
  imports Protocol "HOL-Library.AList" "HOL-Library.List_Lexorder"
begin

text \<open>
  The session manager, \<^verbatim>\<open>pkg/session/manager.go\<close>. The mutex makes every operation atomic.
  The storage directory is an association list from file names to contents; a content is either
  what the JSON decoder returns for it or undecodable. Encoding drops the fields tagged
  \<^verbatim>\<open>json:"-"\<close> (\<open>persisted\<close>). A failing system call of \<open>Save\<close> is chosen by the argument
  \<open>fault\<close>; \<open>save_steps\<close> lists the directory operations of a successful save for the crash
  analysis. Path handling is that of Unix.
\<close>

record Session =
  s_Key :: string
  s_Messages :: "Message list"
  s_Summary :: string
  s_Created :: time
  s_Updated :: time

record SessionManager =
  sm_sessions :: "string \<rightharpoonup> Session"
  sm_storage :: string

datatype file_content = Encoded Session | Undecodable

type_synonym dir = "(string \<times> file_content) list"

subsection \<open>In-memory operations\<close>

definition new_session :: "string \<Rightarrow> time \<Rightarrow> time \<Rightarrow> Session" where
  "new_session key created updated =
     \<lparr>s_Key = key, s_Messages = [], s_Summary = [], s_Created = created, s_Updated = updated\<rparr>"

definition put_session :: "SessionManager \<Rightarrow> string \<Rightarrow> Session \<Rightarrow> SessionManager" where
  "put_session sm key s = sm\<lparr>sm_sessions := (sm_sessions sm)(key \<mapsto> s)\<rparr>"

definition GetOrCreate :: "SessionManager \<Rightarrow> time \<Rightarrow> time \<Rightarrow> string \<Rightarrow> SessionManager \<times> Session" where
  "GetOrCreate sm now1 now2 key =
     (case sm_sessions sm key of
        Some session \<Rightarrow> (sm, session)
      | None \<Rightarrow> let session = new_session key now1 now2 in (put_session sm key session, session))"

definition AddFullMessage :: "SessionManager \<Rightarrow> time \<Rightarrow> time \<Rightarrow> string \<Rightarrow> Message \<Rightarrow> SessionManager" where
  "AddFullMessage sm now1 now2 sessionKey msg =
     (let session = (case sm_sessions sm sessionKey of
                       Some s \<Rightarrow> s
                     | None \<Rightarrow> new_session sessionKey now1 0)
      in put_session sm sessionKey
           (session\<lparr>s_Messages := s_Messages session @ [msg], s_Updated := now2\<rparr>))"

definition AddMessage :: "SessionManager \<Rightarrow> time \<Rightarrow> time \<Rightarrow> string \<Rightarrow> string \<Rightarrow> string \<Rightarrow> SessionManager" where
  "AddMessage sm now1 now2 sessionKey role content =
     AddFullMessage sm now1 now2 sessionKey (text_message role content)"

definition GetHistory :: "SessionManager \<Rightarrow> string \<Rightarrow> Message list" where
  "GetHistory sm key = (case sm_sessions sm key of None \<Rightarrow> [] | Some s \<Rightarrow> s_Messages s)"

definition GetSummary :: "SessionManager \<Rightarrow> string \<Rightarrow> string" where
  "GetSummary sm key = (case sm_sessions sm key of None \<Rightarrow> [] | Some s \<Rightarrow> s_Summary s)"

definition SetSummary :: "SessionManager \<Rightarrow> time \<Rightarrow> string \<Rightarrow> string \<Rightarrow> SessionManager" where
  "SetSummary sm now key summary =
     (case sm_sessions sm key of
        Some s \<Rightarrow> put_session sm key (s\<lparr>s_Summary := summary, s_Updated := now\<rparr>)
      | None \<Rightarrow> sm)"

definition TruncateHistory :: "SessionManager \<Rightarrow> time \<Rightarrow> string \<Rightarrow> int \<Rightarrow> SessionManager" where
  "TruncateHistory sm now key keepLast =
     (case sm_sessions sm key of
        None \<Rightarrow> sm
      | Some s \<Rightarrow>
          if keepLast \<le> 0 then put_session sm key (s\<lparr>s_Messages := [], s_Updated := now\<rparr>)
          else if int (length (s_Messages s)) \<le> keepLast then sm
          else put_session sm key
                 (s\<lparr>s_Messages := drop (nat (int (length (s_Messages s)) - keepLast)) (s_Messages s),
                    s_Updated := now\<rparr>))"

definition SetHistory :: "SessionManager \<Rightarrow> time \<Rightarrow> string \<Rightarrow> Message list \<Rightarrow> SessionManager" where
  "SetHistory sm now key history =
     (case sm_sessions sm key of
        Some s \<Rightarrow> put_session sm key (s\<lparr>s_Messages := history, s_Updated := now\<rparr>)
      | None \<Rightarrow> sm)"

subsection \<open>Persistence\<close>

text \<open>What decoding an encoded session gives: the fields \<open>Name\<close>, \<open>Arguments\<close> and
  \<open>ThoughtSignature\<close> of a tool call are not encoded.\<close>

definition persisted_call :: "ToolCall \<Rightarrow> ToolCall" where
  "persisted_call tc = tc\<lparr>tc_Name := [], tc_Arguments := None, tc_ThoughtSignature := []\<rparr>"

definition persisted_msg :: "Message \<Rightarrow> Message" where
  "persisted_msg m = m\<lparr>msg_ToolCalls := map persisted_call (msg_ToolCalls m)\<rparr>"

definition persisted :: "Session \<Rightarrow> Session" where
  "persisted s = s\<lparr>s_Messages := map persisted_msg (s_Messages s)\<rparr>"

definition sanitizeFilename :: "string \<Rightarrow> string" where
  "sanitizeFilename key = replace_char CHR '':'' CHR ''_'' key"

text \<open>\<^verbatim>\<open>filepath.IsLocal\<close> on Unix for a name without a slash.\<close>

definition IsLocal_name :: "string \<Rightarrow> bool" where
  "IsLocal_name n \<longleftrightarrow> n \<noteq> [] \<and> n \<noteq> ''..''"

definition bad_filename :: "string \<Rightarrow> bool" where
  "bad_filename filename \<longleftrightarrow>
     filename = ''.'' \<or> \<not> IsLocal_name filename \<or> CHR ''/'' \<in> set filename \<or> CHR 0x5C \<in> set filename"

definition session_file :: "string \<Rightarrow> string" where
  "session_file key = sanitizeFilename key @ ''.json''"

datatype save_fault = NoFault | FailMarshal | FailCreateTemp | FailWrite | FailChmod | FailSync
  | FailClose | FailRename

definition ErrInvalid :: GoError where "ErrInvalid = ErrNew ''invalid argument''"
definition ErrIO :: GoError where "ErrIO = ErrNew ''input/output error''"

datatype dir_step = CreateFile string file_content | RenameFile string string | RemoveFile string

fun dir_apply :: "dir \<Rightarrow> dir_step \<Rightarrow> dir" where
  "dir_apply d (CreateFile n c) = AList.update n c d"
| "dir_apply d (RenameFile a b) =
     (case map_of d a of None \<Rightarrow> d | Some c \<Rightarrow> AList.update b c (AList.delete a d))"
| "dir_apply d (RemoveFile n) = AList.delete n d"

text \<open>The temporary file is created empty, which does not decode, then written, then renamed.\<close>

definition save_steps :: "string \<Rightarrow> Session \<Rightarrow> string \<Rightarrow> dir_step list" where
  "save_steps key s tmp =
     [CreateFile tmp Undecodable, CreateFile tmp (Encoded (persisted s)), RenameFile tmp (session_file key)]"

definition Save :: "SessionManager \<Rightarrow> save_fault \<Rightarrow> string \<Rightarrow> dir \<Rightarrow> string \<Rightarrow> dir \<times> GoError option" where
  "Save sm fault tmp d key =
     (if sm_storage sm = [] then (d, None)
      else let filename = sanitizeFilename key in
        if bad_filename filename then (d, Some ErrInvalid)
        else case sm_sessions sm key of
               None \<Rightarrow> (d, None)
             | Some stored \<Rightarrow>
                 let d1 = dir_apply d (CreateFile tmp Undecodable);
                     d2 = dir_apply d1 (CreateFile tmp (Encoded (persisted stored)))
                 in case fault of
                      FailMarshal \<Rightarrow> (d, Some ErrIO)
                    | FailCreateTemp \<Rightarrow> (d, Some ErrIO)
                    | FailWrite \<Rightarrow> (dir_apply d1 (RemoveFile tmp), Some ErrIO)
                    | FailChmod \<Rightarrow> (dir_apply d2 (RemoveFile tmp), Some ErrIO)
                    | FailSync \<Rightarrow> (dir_apply d2 (RemoveFile tmp), Some ErrIO)
                    | FailClose \<Rightarrow> (dir_apply d2 (RemoveFile tmp), Some ErrIO)
                    | FailRename \<Rightarrow> (dir_apply d2 (RemoveFile tmp), Some ErrIO)
                    | NoFault \<Rightarrow> (dir_apply d2 (RenameFile tmp (session_file key)), None))"

text \<open>\<^verbatim>\<open>filepath.Ext(name) = ".json"\<close>: the part from the last dot on.\<close>

definition has_json_ext :: "string \<Rightarrow> bool" where
  "has_json_ext name \<longleftrightarrow> 5 \<le> length name \<and> drop (length name - 5) name = ''.json''"

definition load_file :: "string \<times> file_content \<Rightarrow> SessionManager \<Rightarrow> SessionManager" where
  "load_file f sm =
     (if \<not> has_json_ext (fst f) then sm
      else case snd f of
             Encoded s \<Rightarrow> put_session sm (s_Key s) s
           | Undecodable \<Rightarrow> sm)"

definition loadSessions :: "dir \<Rightarrow> SessionManager \<Rightarrow> SessionManager" where
  "loadSessions d sm = fold load_file (sort_key fst d) sm"

definition NewSessionManager :: "string \<Rightarrow> dir \<Rightarrow> SessionManager" where
  "NewSessionManager storage d =
     (let sm = \<lparr>sm_sessions = Map.empty, sm_storage = storage\<rparr>
      in if storage = [] then sm else loadSessions d sm)"

subsection \<open>Lookup laws\<close>

lemma put_session_lookup [lookup_simps]:
  "sm_sessions (put_session sm k s) k' = (if k' = k then Some s else sm_sessions sm k')"
  by (simp add: put_session_def)

lemma storage_put [simp]: "sm_storage (put_session sm k s) = sm_storage sm"
  by (simp add: put_session_def)

lemmas session_ops = AddFullMessage_def AddMessage_def SetSummary_def SetHistory_def TruncateHistory_def
  GetHistory_def GetSummary_def

lemma GetHistory_Add [lookup_simps]:
  "GetHistory (AddFullMessage sm t1 t2 k m) k' = (if k' = k then GetHistory sm k @ [m] else GetHistory sm k')"
  by (auto simp: session_ops lookup_simps new_session_def Let_def split: option.split)

lemma GetSummary_Add [lookup_simps]:
  "GetSummary (AddFullMessage sm t1 t2 k m) k' = GetSummary sm k'"
  by (auto simp: session_ops lookup_simps new_session_def Let_def split: option.split)

lemma GetHistory_SetHistory [lookup_simps]:
  "GetHistory (SetHistory sm t k h) k' =
     (if k' = k \<and> sm_sessions sm k \<noteq> None then h else GetHistory sm k')"
  by (auto simp: session_ops lookup_simps split: option.split)

lemma GetSummary_SetHistory [lookup_simps]: "GetSummary (SetHistory sm t k h) k' = GetSummary sm k'"
  by (auto simp: session_ops lookup_simps split: option.split)

lemma GetHistory_SetSummary [lookup_simps]: "GetHistory (SetSummary sm t k s) k' = GetHistory sm k'"
  by (auto simp: session_ops lookup_simps split: option.split)

lemma GetSummary_SetSummary [lookup_simps]:
  "GetSummary (SetSummary sm t k s) k' = (if k' = k \<and> sm_sessions sm k \<noteq> None then s else GetSummary sm k')"
  by (auto simp: session_ops lookup_simps split: option.split)

text \<open>The last \<open>n\<close> elements of a list, all of it if it is shorter.\<close>

definition lastn :: "int \<Rightarrow> 'a list \<Rightarrow> 'a list" where
  "lastn n xs = drop (length xs - nat n) xs"

lemma lastn_all: "int (length xs) \<le> n \<Longrightarrow> lastn n xs = xs"
  by (simp add: lastn_def)

lemma length_lastn: "length (lastn n xs) = min (length xs) (nat n)"
  by (simp add: lastn_def)

lemma GetHistory_Truncate [lookup_simps]:
  "GetHistory (TruncateHistory sm t k n) k' = (if k' = k then lastn n (GetHistory sm k) else GetHistory sm k')"
  by (auto simp: session_ops lookup_simps lastn_def nat_diff_distrib' split: option.split)

lemma GetSummary_Truncate [lookup_simps]: "GetSummary (TruncateHistory sm t k n) k' = GetSummary sm k'"
  by (auto simp: session_ops lookup_simps split: option.split)

subsection \<open>The interface of a session store\<close>

locale session_store =
  fixes history :: "'s \<Rightarrow> string \<Rightarrow> Message list"
    and summary :: "'s \<Rightarrow> string \<Rightarrow> string"
    and known :: "'s \<Rightarrow> string \<Rightarrow> bool"
    and add :: "'s \<Rightarrow> string \<Rightarrow> Message \<Rightarrow> 's"
    and set_history :: "'s \<Rightarrow> string \<Rightarrow> Message list \<Rightarrow> 's"
    and set_summary :: "'s \<Rightarrow> string \<Rightarrow> string \<Rightarrow> 's"
    and truncate :: "'s \<Rightarrow> string \<Rightarrow> int \<Rightarrow> 's"
  assumes history_add: "history (add s k m) k' = (if k' = k then history s k @ [m] else history s k')"
    and known_add: "known (add s k m) k' \<longleftrightarrow> k' = k \<or> known s k'"
    and summary_add: "summary (add s k m) k' = summary s k'"
    and history_unknown: "\<not> known s k \<Longrightarrow> history s k = []"
    and history_set_history: "history (set_history s k h) k' = (if k' = k \<and> known s k then h else history s k')"
    and history_set_summary: "history (set_summary s k x) k' = history s k'"
    and summary_set_summary: "summary (set_summary s k x) k' = (if k' = k \<and> known s k then x else summary s k')"
    and known_set_summary: "known (set_summary s k x) k' = known s k'"
    and history_truncate: "history (truncate s k n) k' = (if k' = k then lastn n (history s k) else history s k')"
    and summary_truncate: "summary (truncate s k n) k' = summary s k'"
begin

primrec add_all :: "'s \<Rightarrow> string \<Rightarrow> Message list \<Rightarrow> 's" where
  "add_all s k [] = s"
| "add_all s k (m # ms) = add_all (add s k m) k ms"

lemma history_add_all: "history (add_all s k ms) k' = (if k' = k then history s k @ ms else history s k')"
  by (induction ms arbitrary: s) (auto simp: history_add)

text \<open>Compaction: storing a summary and keeping the last messages of a conversation.\<close>

lemma compact:
  assumes "known s k"
  shows "history (truncate (set_summary s k x) k n) k = lastn n (history s k)"
    and "summary (truncate (set_summary s k x) k n) k = x"
    and "k' \<noteq> k \<Longrightarrow> history (truncate (set_summary s k x) k n) k' = history s k'"
    and "k' \<noteq> k \<Longrightarrow> summary (truncate (set_summary s k x) k n) k' = summary s k'"
  using assms by (simp_all add: history_truncate history_set_summary summary_truncate summary_set_summary)

end

definition known_session :: "SessionManager \<Rightarrow> string \<Rightarrow> bool" where
  "known_session sm k \<longleftrightarrow> sm_sessions sm k \<noteq> None"

lemma session_manager_store:
  "session_store GetHistory GetSummary known_session (\<lambda>s. AddFullMessage s t1 t2)
     (\<lambda>s. SetHistory s t3) (\<lambda>s. SetSummary s t4) (\<lambda>s. TruncateHistory s t5)"
proof
  show "known_session (AddFullMessage s t1 t2 k m) k' \<longleftrightarrow> k' = k \<or> known_session s k'" for s k m k'
    by (auto simp: known_session_def AddFullMessage_def lookup_simps Let_def)
  show "known_session (SetSummary s t4 k x) k' = known_session s k'" for s k x k'
    by (auto simp: known_session_def SetSummary_def lookup_simps split: option.split)
qed (simp_all add: lookup_simps, auto simp: known_session_def GetHistory_def)

interpretation sessions: session_store GetHistory GetSummary known_session "\<lambda>s. AddFullMessage s t1 t2"
    "\<lambda>s. SetHistory s t3" "\<lambda>s. SetSummary s t4" "\<lambda>s. TruncateHistory s t5" for t1 t2 t3 t4 t5
  by (rule session_manager_store)

subsection \<open>Loading what was saved\<close>

definition carries :: "string \<Rightarrow> string \<times> file_content \<Rightarrow> bool" where
  "carries k f \<longleftrightarrow> has_json_ext (fst f) \<and> (\<exists>s. snd f = Encoded s \<and> s_Key s = k)"

definition dir_inv :: "dir \<Rightarrow> bool" where
  "dir_inv d \<longleftrightarrow> distinct (map fst d) \<and>
     (\<forall>(n, c) \<in> set d. \<forall>s. has_json_ext n \<and> c = Encoded s \<longrightarrow> n = session_file (s_Key s))"

definition manager_inv :: "SessionManager \<Rightarrow> bool" where
  "manager_inv sm \<longleftrightarrow> (\<forall>k s. sm_sessions sm k = Some s \<longrightarrow> s_Key s = k)"

lemma load_file_other: "\<not> carries k f \<Longrightarrow> sm_sessions (load_file f sm) k = sm_sessions sm k"
  by (auto simp: load_file_def carries_def lookup_simps split: file_content.split)

lemma load_file_carries: "has_json_ext n \<Longrightarrow> sm_sessions (load_file (n, Encoded s) sm) (s_Key s) = Some s"
  by (simp add: load_file_def lookup_simps)

lemma fold_load_none: "\<forall>f \<in> set fs. \<not> carries k f \<Longrightarrow> sm_sessions (fold load_file fs sm) k = sm_sessions sm k"
  by (induction fs arbitrary: sm) (auto simp: load_file_other)

lemma fold_load_unique:
  assumes "(n, Encoded s) \<in> set fs" "has_json_ext n"
    and "\<forall>f \<in> set fs. carries (s_Key s) f \<longrightarrow> f = (n, Encoded s)"
  shows "sm_sessions (fold load_file fs sm) (s_Key s) = Some s"
  using assms
proof (induction fs arbitrary: sm)
  case (Cons f fs)
  show ?case
  proof (cases "(n, Encoded s) \<in> set fs")
    case True
    with Cons show ?thesis by simp
  next
    case False
    with Cons.prems have "f = (n, Encoded s)" "\<forall>g \<in> set fs. \<not> carries (s_Key s) g" by auto
    then show ?thesis using Cons.prems(2) by (simp add: fold_load_none load_file_carries)
  qed
qed simp

lemma session_file_json: "has_json_ext (session_file k)"
  by (simp add: has_json_ext_def session_file_def)

lemma load_saved:
  assumes "dir_inv d" "map_of d (session_file (s_Key s)) = Some (Encoded s)"
  shows "sm_sessions (loadSessions d sm) (s_Key s) = Some s"
  unfolding loadSessions_def
proof (rule fold_load_unique [OF _ session_file_json])
  show "(session_file (s_Key s), Encoded s) \<in> set (sort_key fst d)"
    using assms(2) map_of_SomeD by force
  show "\<forall>f \<in> set (sort_key fst d). carries (s_Key s) f \<longrightarrow> f = (session_file (s_Key s), Encoded s)"
  proof (intro ballI impI)
    fix f assume f: "f \<in> set (sort_key fst d)" "carries (s_Key s) f"
    then obtain n s' where ns: "f = (n, Encoded s')" "has_json_ext n" "s_Key s' = s_Key s" "(n, Encoded s') \<in> set d"
      by (cases f rule: prod.exhaust) (auto simp: carries_def)
    then have "n = session_file (s_Key s)" using assms(1) by (fastforce simp: dir_inv_def)
    moreover have "map_of d n = Some (Encoded s')"
      using ns(4) assms(1) by (simp add: dir_inv_def)
    ultimately show "f = (session_file (s_Key s), Encoded s)" using ns(1) assms(2) by simp
  qed
qed

subsection \<open>The directory under a save\<close>

lemma map_of_dir_apply:
  "map_of (dir_apply d (CreateFile n c)) = (map_of d)(n \<mapsto> c)"
  "map_of (dir_apply d (RemoveFile n)) = (map_of d)(n := None)"
  "map_of d a = Some c \<Longrightarrow> map_of (dir_apply d (RenameFile a b)) = ((map_of d)(a := None))(b \<mapsto> c)"
  by (simp_all add: update_conv' delete_conv')

lemma distinct_dir_apply: "distinct (map fst d) \<Longrightarrow> distinct (map fst (dir_apply d st))"
  by (cases st) (auto simp: distinct_update distinct_delete split: option.split)

definition tmp_name :: "dir \<Rightarrow> string \<Rightarrow> bool" where
  "tmp_name d tmp \<longleftrightarrow> \<not> has_json_ext tmp \<and> map_of d tmp = None"

lemma save_ok:
  assumes "sm_storage sm \<noteq> []" "\<not> bad_filename (sanitizeFilename key)" "sm_sessions sm key = Some s"
    "tmp_name d tmp"
  shows "\<exists>d'. Save sm NoFault tmp d key = (d', None) \<and>
    map_of d' = (map_of d)(session_file key \<mapsto> Encoded (persisted s)) \<and>
    d' = fold (\<lambda>st d. dir_apply d st) (save_steps key s tmp) d"
proof -
  let ?d2 = "dir_apply (dir_apply d (CreateFile tmp Undecodable)) (CreateFile tmp (Encoded (persisted s)))"
  have m2: "map_of ?d2 = (map_of d)(tmp \<mapsto> Encoded (persisted s))"
    by (simp add: map_of_dir_apply del: dir_apply.simps)
  then have "map_of (dir_apply ?d2 (RenameFile tmp (session_file key))) =
      (map_of d)(session_file key \<mapsto> Encoded (persisted s))"
    using assms(4) map_of_dir_apply(3) [of ?d2 tmp "Encoded (persisted s)" "session_file key"]
    by (auto simp: tmp_name_def fun_eq_iff simp del: dir_apply.simps)
  then show ?thesis
    using assms(1-3) by (simp add: Save_def save_steps_def Let_def del: dir_apply.simps)
qed

lemma save_preserves_dir_inv:
  assumes "sm_storage sm \<noteq> []" "\<not> bad_filename (sanitizeFilename key)" "sm_sessions sm key = Some s"
    "tmp_name d tmp" "dir_inv d" "manager_inv sm" "Save sm NoFault tmp d key = (d', None)"
  shows "dir_inv d'"
proof -
  from save_ok [OF assms(1-4)] assms(7) have m: "map_of d' = (map_of d)(session_file key \<mapsto> Encoded (persisted s))"
    and d': "d' = fold (\<lambda>st d. dir_apply d st) (save_steps key s tmp) d" by auto
  have dist: "distinct (map fst d')"
    using assms(5) unfolding d' save_steps_def dir_inv_def
    by (simp add: distinct_dir_apply del: dir_apply.simps)
  have key: "s_Key s = key" using assms(3,6) by (simp add: manager_inv_def)
  have "n = session_file (s_Key s')" if "(n, Encoded s') \<in> set d'" "has_json_ext n" for n s'
  proof (cases "n = session_file key")
    case True
    with that(1) dist m have "s' = persisted s" by (auto dest!: map_of_is_SomeI [OF dist])
    with True key show ?thesis by (simp add: persisted_def)
  next
    case False
    with that(1) dist m have "(n, Encoded s') \<in> set d"
      by (auto dest!: map_of_is_SomeI [OF dist] intro: map_of_SomeD)
    then show ?thesis using assms(5) that(2) by (fastforce simp: dir_inv_def)
  qed
  with dist show ?thesis by (auto simp: dir_inv_def)
qed

subsection \<open>Properties\<close>

text \<open>What the operations do to the history and summary of a conversation: adding appends,
  truncating keeps the last \<open>n\<close> messages (none for \<open>n \<le> 0\<close>), setting a history or summary takes
  effect on existing sessions only, and no operation touches another session.\<close>

theorem session_operations:
  "GetHistory (AddFullMessage sm t1 t2 k m) k' = (if k' = k then GetHistory sm k @ [m] else GetHistory sm k') \<and>
   GetHistory (TruncateHistory sm t k n) k' =
     (if k' = k then drop (length (GetHistory sm k) - nat n) (GetHistory sm k) else GetHistory sm k') \<and>
   GetHistory (SetHistory sm t k h) k' = (if k' = k \<and> sm_sessions sm k \<noteq> None then h else GetHistory sm k') \<and>
   GetSummary (SetSummary sm t k x) k' = (if k' = k \<and> sm_sessions sm k \<noteq> None then x else GetSummary sm k') \<and>
   GetSummary (AddFullMessage sm t1 t2 k m) k' = GetSummary sm k' \<and>
   GetHistory (SetSummary sm t k x) k' = GetHistory sm k'"
  using sessions.history_add [of sm t1 t2 k m k'] sessions.history_truncate [of sm t k n k']
    sessions.history_set_history [of sm t k h k'] sessions.summary_set_summary [of sm t k x k']
    sessions.summary_add [of sm t1 t2 k m k'] sessions.history_set_summary [of sm t k x k']
  by (simp add: lastn_def known_session_def)


definition sample_manager :: "string \<Rightarrow> SessionManager" where
  "sample_manager k = AddMessage \<lparr>sm_sessions = Map.empty, sm_storage = ''/data''\<rparr> 1 2 k ''user'' ''hi''"

lemma manager_inv_sample: "manager_inv (sample_manager k)"
  by (auto simp: sample_manager_def manager_inv_def AddMessage_def AddFullMessage_def new_session_def
      lookup_simps Let_def split: if_splits)

lemma sample_lookup: "\<exists>s. sm_sessions (sample_manager k) k = Some s"
  by (simp add: sample_manager_def AddMessage_def AddFullMessage_def lookup_simps Let_def)

lemma sample_storage: "sm_storage (sample_manager k) = ''/data''"
  by (simp add: sample_manager_def AddMessage_def AddFullMessage_def Let_def)


text \<open>(C6) Crash safety: however many of the directory operations of a save have happened, every
  file other than the temporary one has its old content, except that the target may already have
  the complete new one; the temporary file is not read by a load. A save that reports an error
  leaves the directory as it was, and an invalid name is refused before anything is written.\<close>

theorem save_crash_safe:
  assumes "tmp_name d tmp" "sm_sessions sm key = Some s" "sm_storage sm \<noteq> []"
  shows "(\<forall>n name. name \<noteq> tmp \<longrightarrow>
            (let d' = fold (\<lambda>st d. dir_apply d st) (take n (save_steps key s tmp)) d in
             map_of d' name = map_of d name \<or>
             (name = session_file key \<and> map_of d' name = Some (Encoded (persisted s))))) \<and>
         load_file (tmp, c) sm0 = sm0 \<and>
         (\<forall>fault d' e. Save sm fault tmp d key = (d', Some e) \<longrightarrow> map_of d' = map_of d) \<and>
         (bad_filename (sanitizeFilename key) \<longrightarrow> Save sm fault0 tmp d key = (d, Some ErrInvalid))"
proof -
  let ?a = "CreateFile tmp Undecodable" and ?b = "CreateFile tmp (Encoded (persisted s))"
  let ?r = "RenameFile tmp (session_file key)"
  have t: "map_of d tmp = None" "\<not> has_json_ext tmp" using assms(1) by (simp_all add: tmp_name_def)
  have m1: "map_of (dir_apply d ?a) = (map_of d)(tmp \<mapsto> Undecodable)"
    by (rule map_of_dir_apply)
  have m2: "map_of (dir_apply (dir_apply d ?a) ?b) = (map_of d)(tmp \<mapsto> Encoded (persisted s))"
    by (simp only: map_of_dir_apply fun_upd_upd)
  have m3: "map_of (dir_apply (dir_apply (dir_apply d ?a) ?b) ?r) =
      ((map_of d)(tmp := None))(session_file key \<mapsto> Encoded (persisted s))"
    using map_of_dir_apply(3) [of "dir_apply (dir_apply d ?a) ?b" tmp "Encoded (persisted s)" "session_file key"]
    by (simp only: m2 fun_upd_same fun_upd_upd simp_thms)
  have restore: "map_of (dir_apply d2 (RemoveFile tmp)) = map_of d" if "map_of d2 = (map_of d)(tmp \<mapsto> x)" for d2 x
    using that t(1) by (simp only: map_of_dir_apply fun_upd_upd) (simp add: fun_upd_idem)
  have prefixes: "take n (save_steps key s tmp) \<in> {[], [?a], [?a, ?b], [?a, ?b, ?r]}" for n
    by (cases n; cases "n - 1"; cases "n - 2") (simp_all add: save_steps_def numeral_2_eq_2)
  have "map_of (fold (\<lambda>st d. dir_apply d st) (take n (save_steps key s tmp)) d) name = map_of d name \<or>
      (name = session_file key \<and>
       map_of (fold (\<lambda>st d. dir_apply d st) (take n (save_steps key s tmp)) d) name = Some (Encoded (persisted s)))"
    if "name \<noteq> tmp" for n name
  proof -
    consider "take n (save_steps key s tmp) = []" | "take n (save_steps key s tmp) = [?a]"
      | "take n (save_steps key s tmp) = [?a, ?b]" | "take n (save_steps key s tmp) = [?a, ?b, ?r]"
      using prefixes [of n] by blast
    then show ?thesis
    proof cases
      case 1
      show ?thesis unfolding 1 by simp
    qed (use that in \<open>simp_all add: m1 m2 m3 del: dir_apply.simps\<close>)
  qed
  moreover have "load_file (tmp, c) sm0 = sm0" using t(2) by (simp add: load_file_def)
  moreover have "map_of d' = map_of d" if "Save sm fault tmp d key = (d', Some e)" for fault d' e
    using that assms(2,3) restore [OF m1] restore [OF m2]
    by (auto simp: Save_def Let_def simp del: dir_apply.simps split: if_splits save_fault.splits)
  moreover have "Save sm fault0 tmp d key = (d, Some ErrInvalid)" if "bad_filename (sanitizeFilename key)"
    using that assms(3) by (simp add: Save_def)
  ultimately show ?thesis unfolding Let_def by blast
qed

theorem save_crash_safe_witness:
  "\<exists>s. sm_sessions (sample_manager ''slack:C1'') ''slack:C1'' = Some s \<and>
     map_of (fold (\<lambda>st d. dir_apply d st) (take 2 (save_steps ''slack:C1'' s ''session-1.tmp'')) [(''x.json'', Undecodable)])
       ''x.json'' = Some Undecodable"
proof -
  obtain s where s: "sm_sessions (sample_manager ''slack:C1'') ''slack:C1'' = Some s" using sample_lookup by blast
  have t: "tmp_name [(''x.json'', Undecodable)] ''session-1.tmp''" by code_simp
  have st: "sm_storage (sample_manager ''slack:C1'') \<noteq> []" by (simp add: sample_storage)
  have n: "''x.json'' \<noteq> session_file ''slack:C1''" "''x.json'' \<noteq> ''session-1.tmp''" by code_simp+
  note safe = conjunct1 [OF save_crash_safe [OF t s st], unfolded Let_def, rule_format, OF n(2), of 2]
  show ?thesis using safe n(1) s by (simp only: simp_thms map_of.simps fst_conv snd_conv fun_upd_same) blast
qed

text \<open>The file name does not determine the key. \<open>sanitizeFilename\<close> maps a colon to an
  underscore, so two different conversations can share one file: saving the second overwrites the
  first, and after a restart the first conversation is gone although both saves succeeded.\<close>

theorem session_files_collide:
  "let sm0 = AddMessage (sample_manager ''slack:a:b'') 3 4 ''slack:a_b'' ''user'' ''yo'';
       (d1, e1) = Save sm0 NoFault ''t1'' [] ''slack:a:b'';
       (d2, e2) = Save sm0 NoFault ''t2'' d1 ''slack:a_b'';
       sm1 = NewSessionManager ''/data'' d2
   in e1 = None \<and> e2 = None \<and> GetHistory sm0 ''slack:a:b'' = [text_message ''user'' ''hi''] \<and>
      GetHistory sm1 ''slack:a:b'' = [] \<and> GetHistory sm1 ''slack:a_b'' = [text_message ''user'' ''yo'']"
  by code_simp

end
