(* ===== verification/Tools.thy ===== *)
theory Tools
  imports Protocol "HOL-Library.AList" "HOL-Library.List_Lexorder" "HOL-Library.Sublist"
begin

text \<open>
  The tool registry (\<^verbatim>\<open>pkg/tools/registry.go\<close>), tool results (\<^verbatim>\<open>result.go\<close>), the message
  tool (\<^verbatim>\<open>message.go\<close>) and the tool loop of subagents (\<^verbatim>\<open>toolloop.go\<close>). A Go map is an
  association list with distinct keys whose order stands for the iteration order. What tools and
  the LLM provider do outside the program is a change of an abstract world of type \<open>'w\<close>; a tool is
  a record of its methods, the optional interfaces \<^verbatim>\<open>ContextualTool\<close> and \<^verbatim>\<open>AsyncTool\<close> being
  optional methods.
\<close>

subsection \<open>Results\<close>

record ToolResult =
  tr_ForLLM :: string
  tr_ForUser :: string
  tr_Silent :: bool
  tr_IsError :: bool
  tr_Async :: bool
  tr_Err :: "GoError option"

definition NewToolResult :: "string \<Rightarrow> ToolResult" where
  "NewToolResult forLLM = \<lparr>tr_ForLLM = forLLM, tr_ForUser = [], tr_Silent = False, tr_IsError = False,
     tr_Async = False, tr_Err = None\<rparr>"

definition SilentResult :: "string \<Rightarrow> ToolResult" where
  "SilentResult forLLM = (NewToolResult forLLM)\<lparr>tr_Silent := True\<rparr>"

definition AsyncResult :: "string \<Rightarrow> ToolResult" where
  "AsyncResult forLLM = (NewToolResult forLLM)\<lparr>tr_Async := True\<rparr>"

definition ErrorResult :: "string \<Rightarrow> ToolResult" where
  "ErrorResult message = (NewToolResult message)\<lparr>tr_IsError := True\<rparr>"

definition UserResult :: "string \<Rightarrow> ToolResult" where
  "UserResult content = (NewToolResult content)\<lparr>tr_ForUser := content\<rparr>"

definition WithError :: "ToolResult \<Rightarrow> GoError \<Rightarrow> ToolResult" where
  "WithError tr err = tr\<lparr>tr_Err := Some err\<rparr>"

subsection \<open>Tools and their schemas\<close>

record 'w Tool =
  tl_Name :: string
  tl_Description :: string
  tl_Parameters :: json_obj
  tl_SetContext :: "(string \<Rightarrow> string \<Rightarrow> 'w \<Rightarrow> 'w) option"
  tl_SetCallback :: "('w \<Rightarrow> 'w) option"
  tl_Execute :: "json_obj option \<Rightarrow> 'w \<Rightarrow> 'w \<times> ToolResult"

record ToolFunctionDefinition =
  tfd_Name :: string
  tfd_Description :: string
  tfd_Parameters :: "json_obj option"

record ToolDefinition =
  td_Type :: string
  td_Function :: ToolFunctionDefinition

definition ToolToSchema :: "'w Tool \<Rightarrow> json_obj" where
  "ToolToSchema tool =
     [(''type'', JStr ''function''),
      (''function'', JObj [(''name'', JStr (tl_Name tool)), (''description'', JStr (tl_Description tool)),
                        (''parameters'', JObj (tl_Parameters tool))])]"

text \<open>Type assertions with a second result: the zero value when the assertion fails.\<close>

definition as_string :: "json option \<Rightarrow> string" where
  "as_string v = (case v of Some (JStr s) \<Rightarrow> s | _ \<Rightarrow> [])"

definition as_object :: "json option \<Rightarrow> json_obj option" where
  "as_object v = (case v of Some (JObj m) \<Rightarrow> Some m | _ \<Rightarrow> None)"

subsection \<open>The registry\<close>

type_synonym 'w ToolRegistry = "(string \<times> 'w Tool) list"

definition NewToolRegistry :: "'w ToolRegistry" where
  "NewToolRegistry = []"

definition Register :: "'w ToolRegistry \<Rightarrow> 'w Tool \<Rightarrow> 'w ToolRegistry" where
  "Register r tool = AList.update (tl_Name tool) tool r"

definition Get :: "'w ToolRegistry \<Rightarrow> string \<Rightarrow> 'w Tool option" where
  "Get r name = map_of r name"

definition ExecuteWithContext :: "'w ToolRegistry \<Rightarrow> string \<Rightarrow> json_obj option \<Rightarrow> string \<Rightarrow> string \<Rightarrow> bool \<Rightarrow>
    'w \<Rightarrow> 'w \<times> ToolResult" where
  "ExecuteWithContext r name args channel chatID has_callback w =
     (case Get r name of
        None \<Rightarrow> (w, WithError (ErrorResult (''tool '' @ go_quote name @ '' not found'')) (ErrNew ''tool not found''))
      | Some tool \<Rightarrow>
          let w = (case tl_SetContext tool of
                     Some set_context \<Rightarrow> if channel \<noteq> [] \<and> chatID \<noteq> [] then set_context channel chatID w else w
                   | None \<Rightarrow> w);
              w = (case tl_SetCallback tool of
                     Some set_callback \<Rightarrow> if has_callback then set_callback w else w
                   | None \<Rightarrow> w)
          in tl_Execute tool args w)"

definition Execute :: "'w ToolRegistry \<Rightarrow> string \<Rightarrow> json_obj option \<Rightarrow> 'w \<Rightarrow> 'w \<times> ToolResult" where
  "Execute r name args w = ExecuteWithContext r name args [] [] False w"

definition sortedToolNames :: "'w ToolRegistry \<Rightarrow> string list" where
  "sortedToolNames r = sort (map fst r)"

definition GetDefinitions :: "'w ToolRegistry \<Rightarrow> json_obj list" where
  "GetDefinitions r = map (\<lambda>name. ToolToSchema (the (map_of r name))) (sortedToolNames r)"

definition provider_def :: "json_obj \<Rightarrow> ToolDefinition list" where
  "provider_def schema =
     (case as_object (map_of schema ''function'') of
        None \<Rightarrow> []
      | Some fn \<Rightarrow> [\<lparr>td_Type = ''function'',
          td_Function = \<lparr>tfd_Name = as_string (map_of fn ''name''), tfd_Description = as_string (map_of fn ''description''),
            tfd_Parameters = as_object (map_of fn ''parameters'')\<rparr>\<rparr>])"

definition ToProviderDefs :: "'w ToolRegistry \<Rightarrow> ToolDefinition list" where
  "ToProviderDefs r = concat (map (\<lambda>name. provider_def (ToolToSchema (the (map_of r name)))) (sortedToolNames r))"

definition ListTools :: "'w ToolRegistry \<Rightarrow> string list" where
  "ListTools r = sortedToolNames r"

definition Count :: "'w ToolRegistry \<Rightarrow> int" where
  "Count r = int (length r)"

definition GetSummaries :: "'w ToolRegistry \<Rightarrow> string list" where
  "GetSummaries r = map (\<lambda>name. let tool = the (map_of r name)
     in ''- `'' @ tl_Name tool @ ''` - '' @ tl_Description tool) (sortedToolNames r)"

subsection \<open>The message tool\<close>

record MessageTool =
  mt_defaultChannel :: string
  mt_defaultChatID :: string
  mt_sentInRound :: bool

definition NewMessageTool :: MessageTool where
  "NewMessageTool = \<lparr>mt_defaultChannel = [], mt_defaultChatID = [], mt_sentInRound = False\<rparr>"

definition MessageTool_SetContext :: "string \<Rightarrow> string \<Rightarrow> MessageTool \<Rightarrow> MessageTool" where
  "MessageTool_SetContext channel chatID t =
     t\<lparr>mt_defaultChannel := channel, mt_defaultChatID := chatID, mt_sentInRound := False\<rparr>"

definition HasSentInRound :: "MessageTool \<Rightarrow> bool" where
  "HasSentInRound t = mt_sentInRound t"

text \<open>\<open>send\<close> is the callback: \<open>None\<close> when it was never set, otherwise its effect on the world.\<close>

definition MessageTool_Execute :: "(string \<Rightarrow> string \<Rightarrow> string \<Rightarrow> 'w \<Rightarrow> 'w \<times> GoError option) option \<Rightarrow>
    json_obj option \<Rightarrow> MessageTool \<Rightarrow> 'w \<Rightarrow> (MessageTool \<times> 'w) \<times> ToolResult" where
  "MessageTool_Execute send args t w =
     (let arg = (\<lambda>k. case args of None \<Rightarrow> None | Some m \<Rightarrow> map_of m k) in
      case arg ''content'' of
        Some (JStr content) \<Rightarrow>
          let channel = as_string (arg ''channel''); chatID = as_string (arg ''chat_id'');
              channel = (if channel = [] then mt_defaultChannel t else channel);
              chatID = (if chatID = [] then mt_defaultChatID t else chatID)
          in if channel = [] \<or> chatID = [] then ((t, w), ErrorResult ''No target channel/chat specified'')
             else (case send of
                     None \<Rightarrow> ((t, w), ErrorResult ''Message sending not configured'')
                   | Some callback \<Rightarrow>
                       (case callback channel chatID content w of
                          (w, Some err) \<Rightarrow>
                            ((t, w), WithError (ErrorResult (''sending message: '' @ error_text err)) err)
                        | (w, None) \<Rightarrow>
                            ((t\<lparr>mt_sentInRound := True\<rparr>, w),
                             SilentResult (''Message sent to '' @ channel @ '':'' @ chatID))))
      | _ \<Rightarrow> ((t, w), ErrorResult ''content is required''))"

subsection \<open>The tool loop\<close>

type_synonym 'w chat = "Message list \<Rightarrow> ToolDefinition list \<Rightarrow> string \<Rightarrow> json_obj \<Rightarrow> 'w \<Rightarrow> 'w \<times> (GoError + LLMResponse)"

record 'w ToolLoopConfig =
  tlc_Provider :: "'w chat"
  tlc_Model :: string
  tlc_Tools :: "'w ToolRegistry option"
  tlc_MaxIterations :: int
  tlc_LLMOptions :: "json_obj option"

record ToolLoopResult =
  tlr_Content :: string
  tlr_Iterations :: int

definition marshal_arguments :: "json_codec \<Rightarrow> ToolCall \<Rightarrow> GoError + string" where
  "marshal_arguments codec tc = (case tc_Arguments tc of None \<Rightarrow> Inr ''null'' | Some m \<Rightarrow> jc_marshal codec m)"

text \<open>Building the tool calls of the assistant message; the first marshalling error ends it.\<close>

fun build_calls :: "json_codec \<Rightarrow> (ToolCall \<Rightarrow> string \<Rightarrow> ToolCall) \<Rightarrow> ToolCall list \<Rightarrow> GoError + ToolCall list" where
  "build_calls codec mk [] = Inr []"
| "build_calls codec mk (tc # tcs) =
     (case marshal_arguments codec tc of
        Inl err \<Rightarrow> Inl (ErrWrap ''marshal tool call arguments: '' err)
      | Inr argumentsJSON \<Rightarrow>
          (case build_calls codec mk tcs of Inl err \<Rightarrow> Inl err | Inr cs \<Rightarrow> Inr (mk tc argumentsJSON # cs)))"

definition loop_call :: "ToolCall \<Rightarrow> string \<Rightarrow> ToolCall" where
  "loop_call tc argumentsJSON =
     \<lparr>tc_ID = tc_ID tc, tc_Type = ''function'',
      tc_Function = Some \<lparr>fn_Name = tc_Name tc, fn_Arguments = argumentsJSON, fn_ThoughtSignature = []\<rparr>,
      tc_Name = tc_Name tc, tc_Arguments = tc_Arguments tc, tc_ThoughtSignature = [], tc_ExtraContent = None\<rparr>"

definition content_for_llm :: "ToolResult \<Rightarrow> string" where
  "content_for_llm tr =
     (case tr_Err tr of
        Some err \<Rightarrow> if tr_ForLLM tr = [] then error_text err else tr_ForLLM tr
      | None \<Rightarrow> tr_ForLLM tr)"

text \<open>Executing the calls one after the other: the new world, the result messages so far and the
  error that ended the execution early, if any.\<close>

fun exec_calls :: "json_codec \<Rightarrow> (ToolCall \<Rightarrow> 'w \<Rightarrow> 'w \<times> ToolResult) \<Rightarrow> ToolCall list \<Rightarrow> 'w \<Rightarrow>
    'w \<times> Message list \<times> GoError option" where
  "exec_calls codec run [] w = (w, [], None)"
| "exec_calls codec run (tc # tcs) w =
     (case marshal_arguments codec tc of
        Inl err \<Rightarrow> (w, [], Some (ErrWrap ''marshal tool call arguments for preview: '' err))
      | Inr argsJSON \<Rightarrow>
          let (w, tr) = run tc w;
              (w, msgs, err) = exec_calls codec run tcs w
          in (w, tool_message (content_for_llm tr) (tc_ID tc) # msgs, err))"

definition loop_exec :: "'w ToolLoopConfig \<Rightarrow> string \<Rightarrow> string \<Rightarrow> ToolCall \<Rightarrow> 'w \<Rightarrow> 'w \<times> ToolResult" where
  "loop_exec config channel chatID tc w =
     (case tlc_Tools config of
        Some r \<Rightarrow> ExecuteWithContext r (tc_Name tc) (tc_Arguments tc) channel chatID False w
      | None \<Rightarrow> (w, ErrorResult ''No tools available''))"

text \<open>One iteration of the loop, and the loop. \<open>prompts\<close> collects the message lists that were sent to
  the provider. The number of remaining iterations is \<open>MaxIterations - iteration\<close>.\<close>

datatype 'w iteration = Finished 'w "GoError + string" | Again 'w "Message list"

definition loop_iteration :: "json_codec \<Rightarrow> 'w ToolLoopConfig \<Rightarrow> string \<Rightarrow> string \<Rightarrow> Message list \<Rightarrow> 'w \<Rightarrow> 'w iteration" where
  "loop_iteration codec config channel chatID messages w =
     (let defs = (case tlc_Tools config of Some r \<Rightarrow> ToProviderDefs r | None \<Rightarrow> []);
          llmOpts = (case tlc_LLMOptions config of Some opts \<Rightarrow> opts | None \<Rightarrow> [])
      in case tlc_Provider config messages defs (tlc_Model config) llmOpts w of
           (w, Inl err) \<Rightarrow> Finished w (Inl (ErrWrap ''LLM call failed: '' err))
         | (w, Inr response) \<Rightarrow>
             if lr_ToolCalls response = [] then Finished w (Inr (lr_Content response))
             else let normalized = map (NormalizeToolCall codec) (lr_ToolCalls response) in
               case build_calls codec loop_call normalized of
                 Inl err \<Rightarrow> Finished w (Inl err)
               | Inr calls \<Rightarrow>
                   let assistantMsg = (text_message ''assistant'' (lr_Content response))\<lparr>msg_ToolCalls := calls\<rparr> in
                   (case exec_calls codec (loop_exec config channel chatID) normalized w of
                      (w, msgs, Some err) \<Rightarrow> Finished w (Inl err)
                    | (w, msgs, None) \<Rightarrow> Again w (messages @ assistantMsg # msgs)))"

fun tool_loop :: "nat \<Rightarrow> json_codec \<Rightarrow> 'w ToolLoopConfig \<Rightarrow> string \<Rightarrow> string \<Rightarrow> int \<Rightarrow> Message list \<Rightarrow> 'w \<Rightarrow>
    'w \<times> Message list list \<times> (GoError + ToolLoopResult)" where
  "tool_loop 0 codec config channel chatID it messages w =
     (w, [], Inr \<lparr>tlr_Content = [], tlr_Iterations = it\<rparr>)"
| "tool_loop (Suc n) codec config channel chatID it messages w =
     (case loop_iteration codec config channel chatID messages w of
        Finished w (Inl err) \<Rightarrow> (w, [messages], Inl err)
      | Finished w (Inr content) \<Rightarrow> (w, [messages], Inr \<lparr>tlr_Content = content, tlr_Iterations = it + 1\<rparr>)
      | Again w messages' \<Rightarrow>
          (let (w, prompts, r) = tool_loop n codec config channel chatID (it + 1) messages' w
           in (w, messages # prompts, r)))"

definition RunToolLoop :: "json_codec \<Rightarrow> 'w ToolLoopConfig \<Rightarrow> Message list \<Rightarrow> string \<Rightarrow> string \<Rightarrow> 'w \<Rightarrow>
    'w \<times> Message list list \<times> (GoError + ToolLoopResult)" where
  "RunToolLoop codec config messages channel chatID w =
     tool_loop (nat (tlc_MaxIterations config)) codec config channel chatID 0 messages w"

subsection \<open>The interface of a registry\<close>

locale tool_registry =
  fixes empty :: 'r
    and register :: "'r \<Rightarrow> 'w Tool \<Rightarrow> 'r"
    and get :: "'r \<Rightarrow> string \<Rightarrow> 'w Tool option"
    and names :: "'r \<Rightarrow> string list"
    and ok :: "'r \<Rightarrow> bool"
  assumes ok_empty: "ok empty"
    and ok_register: "ok r \<Longrightarrow> ok (register r t)"
    and get_empty: "get empty n = None"
    and get_register: "get (register r t) n = (if n = tl_Name t then Some t else get r n)"
    and names_get: "set (names r) = {n. get r n \<noteq> None}"
    and names_sorted: "ok r \<Longrightarrow> sorted (names r) \<and> distinct (names r)"
begin

definition registered :: "'w Tool list \<Rightarrow> 'r" where
  "registered ts = foldl register empty ts"

lemma ok_registered: "ok (registered ts)"
  unfolding registered_def by (induction ts rule: rev_induct) (simp_all add: ok_empty ok_register)

text \<open>The last tool registered under a name wins.\<close>

lemma get_registered: "get (registered ts) n = find (\<lambda>t. tl_Name t = n) (rev ts)"
  unfolding registered_def by (induction ts rule: rev_induct) (simp_all add: get_empty get_register)

text \<open>The listing depends on the contents alone, not on how the registry came about.\<close>

lemma names_unique:
  assumes "ok r" "ok r'" "\<And>n. get r n = get r' n"
  shows "names r = names r'"
proof (rule sorted_distinct_set_unique)
  show "set (names r) = set (names r')" using assms(3) by (simp add: names_get)
qed (use names_sorted assms(1,2) in blast)+

lemma get_registered_set:
  assumes "distinct (map tl_Name ts)" "distinct (map tl_Name ts')" "set ts = set ts'"
  shows "get (registered ts) n = get (registered ts') n"
proof -
  have find: "find (\<lambda>t. tl_Name t = n) (rev us) = Some t \<longleftrightarrow> t \<in> set us \<and> tl_Name t = n"
    if "distinct (map tl_Name us)" for us :: "'w Tool list" and t
    using that by (induction us rule: rev_induct) (auto simp: image_iff)
  have "find (\<lambda>t. tl_Name t = n) (rev ts) = Some t \<longleftrightarrow> find (\<lambda>t. tl_Name t = n) (rev ts') = Some t" for t
    using find [OF assms(1)] find [OF assms(2)] assms(3) by simp
  then show ?thesis unfolding get_registered by (metis option.exhaust)
qed

end

lemma Register_keys: "distinct (map fst r) \<Longrightarrow> distinct (map fst (Register r t))"
  by (simp add: Register_def distinct_update)

interpretation registry: tool_registry NewToolRegistry Register Get sortedToolNames "\<lambda>r. distinct (map fst r)"
proof
  fix r :: "'w ToolRegistry" and t :: "'w Tool" and n
  show "distinct (map fst r) \<Longrightarrow> distinct (map fst (Register r t))" by (rule Register_keys)
  show "Get (Register r t) n = (if n = tl_Name t then Some t else Get r n)"
    by (simp add: Get_def Register_def update_conv')
  show "set (sortedToolNames r) = {n. Get r n \<noteq> None}"
    by (auto simp: sortedToolNames_def Get_def map_of_eq_None_iff simp flip: not_None_eq)
  show "distinct (map fst r) \<Longrightarrow> sorted (sortedToolNames r) \<and> distinct (sortedToolNames r)"
    by (simp add: sortedToolNames_def)
qed (simp_all add: NewToolRegistry_def Get_def)

lemma provider_def_schema:
  "provider_def (ToolToSchema t) = [\<lparr>td_Type = ''function'', td_Function = \<lparr>tfd_Name = tl_Name t,
     tfd_Description = tl_Description t, tfd_Parameters = Some (tl_Parameters t)\<rparr>\<rparr>]"
  by (simp add: provider_def_def ToolToSchema_def as_string_def as_object_def)

lemma ToProviderDefs_map:
  "ToProviderDefs r = map (\<lambda>n. let t = the (Get r n) in \<lparr>td_Type = ''function'', td_Function = \<lparr>tfd_Name = tl_Name t,
     tfd_Description = tl_Description t, tfd_Parameters = Some (tl_Parameters t)\<rparr>\<rparr>) (sortedToolNames r)"
  unfolding ToProviderDefs_def provider_def_schema Let_def Get_def by (induction "sortedToolNames r") auto

subsection \<open>Conversations in which every tool call is answered\<close>

text \<open>\<open>answered pending ms\<close>: after the calls with the identifiers \<open>pending\<close>, the messages continue
  with exactly their results in order, and so on for every assistant message with calls; no other
  message is a tool result.\<close>

fun answered :: "string list \<Rightarrow> Message list \<Rightarrow> bool" where
  "answered pend [] = (pend = [])"
| "answered (i # pend) (m # ms) = (msg_Role m = ''tool'' \<and> msg_ToolCallID m = i \<and> answered pend ms)"
| "answered [] (m # ms) = (msg_Role m \<noteq> ''tool'' \<and>
     answered (if msg_Role m = ''assistant'' then map tc_ID (msg_ToolCalls m) else []) ms)"

lemma answered_append: "answered pend ms \<Longrightarrow> answered [] ns \<Longrightarrow> answered pend (ms @ ns)"
  by (induction pend ms rule: answered.induct) auto

lemma answered_results: "map msg_ToolCallID ms = ids \<Longrightarrow> \<forall>m \<in> set ms. msg_Role m = ''tool'' \<Longrightarrow> answered ids ms"
  by (induction ms arbitrary: ids) auto

lemma build_calls_ids:
  assumes "build_calls codec mk tcs = Inr cs" "\<And>tc j. tc_ID (mk tc j) = tc_ID tc"
  shows "map tc_ID cs = map tc_ID tcs"
  using assms(1) by (induction tcs arbitrary: cs) (auto simp: assms(2) split: sum.splits)

lemma exec_calls_ids:
  assumes "exec_calls codec run tcs w = (w', ms, None)"
  shows "map msg_ToolCallID ms = map tc_ID tcs \<and> (\<forall>m \<in> set ms. msg_Role m = ''tool'')"
  using assms
  by (induction tcs arbitrary: w ms) (auto simp: tool_message_def text_message_def split: sum.splits prod.splits)

lemma loop_iteration_again:
  assumes "loop_iteration codec config channel chatID messages w = Again w' messages'"
  shows "\<exists>ns. messages' = messages @ ns \<and> answered [] ns"
proof -
  obtain w1 response where r: "tlc_Provider config messages
      (case tlc_Tools config of Some r \<Rightarrow> ToProviderDefs r | None \<Rightarrow> []) (tlc_Model config)
      (case tlc_LLMOptions config of Some opts \<Rightarrow> opts | None \<Rightarrow> []) w = (w1, Inr response)"
    using assms unfolding loop_iteration_def Let_def by (auto split: prod.splits sum.splits)
  let ?tcs = "map (NormalizeToolCall codec) (lr_ToolCalls response)"
  obtain calls where b: "build_calls codec loop_call ?tcs = Inr calls"
    using assms r unfolding loop_iteration_def Let_def by (auto split: sum.splits if_splits)
  obtain w2 ms where e: "exec_calls codec (loop_exec config channel chatID) ?tcs w1 = (w2, ms, None)"
    using assms r b unfolding loop_iteration_def Let_def by (auto split: prod.splits if_splits option.splits)
  have m: "messages' = messages @ (text_message ''assistant'' (lr_Content response))\<lparr>msg_ToolCalls := calls\<rparr> # ms"
    using assms r b e unfolding loop_iteration_def Let_def by (auto split: if_splits)
  have "map tc_ID calls = map tc_ID ?tcs" using build_calls_ids [OF b] by (simp add: loop_call_def)
  then have "answered (map tc_ID calls) ms"
    using exec_calls_ids [OF e] by (intro answered_results) auto
  then show ?thesis using m by (auto simp: text_message_def)
qed

text \<open>Prompts that only grow: each is a prefix of the next.\<close>

fun growing :: "'a list list \<Rightarrow> bool" where
  "growing (p # q # ps) = (prefix p q \<and> growing (q # ps))"
| "growing _ = True"

lemma tool_loop_facts:
  assumes "tool_loop n codec config channel chatID it messages w = (w', prompts, r)" "answered [] messages"
  shows "length prompts \<le> n \<and> (\<forall>p \<in> set prompts. answered [] p) \<and> growing prompts \<and>
    (prompts \<noteq> [] \<longrightarrow> hd prompts = messages) \<and>
    (case r of Inr res \<Rightarrow> tlr_Iterations res = it + int (length prompts) | Inl _ \<Rightarrow> prompts \<noteq> [])"
  using assms
proof (induction n arbitrary: it messages w prompts w' r)
  case (Suc n)
  show ?case
  proof (cases "loop_iteration codec config channel chatID messages w")
    case (Finished w1 res)
    with Suc.prems show ?thesis by (cases res) auto
  next
    case (Again w1 messages')
    obtain ns where ns: "messages' = messages @ ns" "answered [] ns"
      using loop_iteration_again [OF Again] by blast
    obtain w2 ps r2 where l: "tool_loop n codec config channel chatID (it + 1) messages' w1 = (w2, ps, r2)"
      by (cases "tool_loop n codec config channel chatID (it + 1) messages' w1") auto
    have "answered [] messages'" using answered_append [OF Suc.prems(2) ns(2)] ns(1) by simp
    note ih = Suc.IH [OF l this]
    have p: "prompts = messages # ps" "r = r2" using Suc.prems(1) Again l by simp_all
    have "growing prompts" using ih ns(1) by (cases ps) (auto simp: p)
    then show ?thesis using ih Suc.prems(2) by (auto simp: p split: sum.splits)
  qed
qed simp

subsection \<open>Properties\<close>

text \<open>The tool definitions sent to the provider do not depend on the order of registration: two
  registries filled with the same tools, in any order, give the same definitions, listing and
  schemas, sorted by name, with one definition per tool that carries its name, description and
  parameters.\<close>

theorem tool_definitions_deterministic:
  assumes "distinct (map tl_Name ts)" "distinct (map tl_Name ts')" "set ts = set ts'"
  shows "ToProviderDefs (foldl Register NewToolRegistry ts) = ToProviderDefs (foldl Register NewToolRegistry ts') \<and>
    GetDefinitions (foldl Register NewToolRegistry ts) = GetDefinitions (foldl Register NewToolRegistry ts') \<and>
    ListTools (foldl Register NewToolRegistry ts) = ListTools (foldl Register NewToolRegistry ts') \<and>
    sorted (ListTools (foldl Register NewToolRegistry ts)) \<and>
    set (ListTools (foldl Register NewToolRegistry ts)) = tl_Name ` set ts \<and>
    length (ToProviderDefs (foldl Register NewToolRegistry ts)) = length ts"
proof -
  let ?r = "registry.registered ts" and ?r' = "registry.registered ts'"
  have g: "Get ?r n = Get ?r' n" for n using assms by (rule registry.get_registered_set)
  have n: "sortedToolNames ?r = sortedToolNames ?r'"
    using registry.ok_registered registry.ok_registered g by (rule registry.names_unique)
  have names: "set (sortedToolNames ?r) = tl_Name ` set ts"
    by (auto simp: registry.names_get registry.get_registered find_Some_iff find_None_iff simp flip: not_None_eq)
  have "length (sortedToolNames ?r) = card (tl_Name ` set ts)"
    using registry.names_sorted [OF registry.ok_registered] names by (metis distinct_card)
  also have "\<dots> = length ts" using assms(1) distinct_card by force
  finally have len: "length (sortedToolNames ?r) = length ts" .
  have defs: "GetDefinitions ?r = GetDefinitions ?r'"
    unfolding GetDefinitions_def n using g by (simp add: Get_def)
  have "ToProviderDefs ?r = ToProviderDefs ?r'" unfolding ToProviderDefs_map n using g by simp
  moreover have "sorted (sortedToolNames ?r)" using registry.names_sorted [OF registry.ok_registered] by blast
  ultimately show ?thesis using n names len defs
    unfolding registry.registered_def ListTools_def by (simp add: ToProviderDefs_map)
qed

definition sample_tool :: "string \<Rightarrow> unit Tool" where
  "sample_tool n = \<lparr>tl_Name = n, tl_Description = ''a tool'', tl_Parameters = [], tl_SetContext = None,
     tl_SetCallback = None, tl_Execute = (\<lambda>args w. (w, NewToolResult n))\<rparr>"

theorem tool_definitions_deterministic_witness:
  "ToProviderDefs (foldl Register NewToolRegistry [sample_tool ''exec'', sample_tool ''cron'']) =
   ToProviderDefs (foldl Register NewToolRegistry [sample_tool ''cron'', sample_tool ''exec'']) \<and>
   ListTools (foldl Register NewToolRegistry [sample_tool ''exec'', sample_tool ''cron'']) = [''cron'', ''exec'']"
proof -
  have d: "distinct (map tl_Name [sample_tool ''exec'', sample_tool ''cron''])"
    "distinct (map tl_Name [sample_tool ''cron'', sample_tool ''exec''])" by code_simp+
  have s: "set [sample_tool ''exec'', sample_tool ''cron''] = set [sample_tool ''cron'', sample_tool ''exec'']" by auto
  have "ListTools (foldl Register NewToolRegistry [sample_tool ''exec'', sample_tool ''cron'']) = [''cron'', ''exec'']"
    by code_simp
  then show ?thesis using tool_definitions_deterministic [OF d s] by blast
qed

text \<open>(C9) The tool loop of a subagent. Started on a conversation in which every tool call is
  answered, it calls the provider at most \<open>MaxIterations\<close> times, every prompt it sends is again such
  a conversation (each call followed by exactly one result with its identifier, in order, even for
  unknown tools and failing ones), each prompt extends the one before, and the reported number of
  iterations is the number of prompts. It always returns.\<close>

theorem RunToolLoop_prompts:
  assumes "answered [] messages" "RunToolLoop codec config messages channel chatID w = (w', prompts, r)"
  shows "int (length prompts) \<le> max 0 (tlc_MaxIterations config) \<and> (\<forall>p \<in> set prompts. answered [] p) \<and>
    growing prompts \<and> (prompts \<noteq> [] \<longrightarrow> hd prompts = messages) \<and>
    (\<forall>res. r = Inr res \<longrightarrow> tlr_Iterations res = int (length prompts))"
  using tool_loop_facts [OF assms(2) [unfolded RunToolLoop_def] assms(1)] by auto

definition sample_chat :: "nat chat" where
  "sample_chat msgs defs model opts w =
     (Suc w, Inr \<lparr>lr_Content = ''ok'', lr_ReasoningContent = [],
        lr_ToolCalls = (if w < 2 then [sample_call, sample_call\<lparr>tc_ID := ''c2''\<rparr>] else []), lr_FinishReason = []\<rparr>)"

definition sample_config :: "int \<Rightarrow> nat ToolLoopConfig" where
  "sample_config n = \<lparr>tlc_Provider = sample_chat, tlc_Model = ''m'', tlc_Tools = Some [], tlc_MaxIterations = n, tlc_LLMOptions = None\<rparr>"

theorem RunToolLoop_prompts_witness:
  "let (w, prompts, r) = RunToolLoop empty_codec (sample_config 5) [text_message ''user'' ''hi''] ''cli'' ''direct'' 0 in
   map length prompts = [1, 4, 7] \<and> (\<forall>p \<in> set prompts. answered [] p) \<and> r = Inr \<lparr>tlr_Content = ''ok'', tlr_Iterations = 3\<rparr>"
proof -
  obtain w prompts r where run:
    "RunToolLoop empty_codec (sample_config 5) [text_message ''user'' ''hi''] ''cli'' ''direct'' 0 = (w, prompts, r)"
    by (cases "RunToolLoop empty_codec (sample_config 5) [text_message ''user'' ''hi''] ''cli'' ''direct'' 0") auto
  have a: "answered [] [text_message ''user'' ''hi'']" by code_simp
  have "map length (fst (snd (RunToolLoop empty_codec (sample_config 5) [text_message ''user'' ''hi''] ''cli'' ''direct'' 0))) = [1, 4, 7]"
    "snd (snd (RunToolLoop empty_codec (sample_config 5) [text_message ''user'' ''hi''] ''cli'' ''direct'' 0)) =
      Inr \<lparr>tlr_Content = ''ok'', tlr_Iterations = 3\<rparr>"
    by code_simp+
  then show ?thesis using RunToolLoop_prompts [OF a run] by (simp add: run)
qed

end
