(* ===== verification/Context.thy ===== *)
theory Context
  imports Tools
begin

text \<open>
  Building the messages of a request: the memory store (\<^verbatim>\<open>pkg/agent/memory.go\<close>) and the context
  builder with its prompt cache and history repair (\<^verbatim>\<open>pkg/agent/context.go\<close>). The files the
  builder looks at are a \<open>wfs\<close>: modification times (for files and directories), contents, and the
  files found by walking the skills directory. An instant is a number of nanoseconds after the Unix
  epoch, 0 standing for Go's zero time. The summary of the skills, built by
  \<^verbatim>\<open>pkg/skills/loader.go\<close>, is an argument; so are the clock and the runtime strings.
\<close>

record wfs =
  fs_stat :: "string \<Rightarrow> time option"
  fs_read :: "string \<Rightarrow> string option"
  fs_walk :: "string list"

definition write_file :: "wfs \<Rightarrow> time \<Rightarrow> string \<Rightarrow> string \<Rightarrow> wfs" where
  "write_file fs now p content =
     fs\<lparr>fs_stat := (fs_stat fs)(p \<mapsto> now), fs_read := (fs_read fs)(p \<mapsto> content)\<rparr>"

definition path_join :: "string \<Rightarrow> string \<Rightarrow> string" where
  "path_join d f = d @ ''/'' @ f"

definition nl2 :: string where "nl2 = [nl, nl]"

definition separator :: string where "separator = nl2 @ ''---'' @ nl2"

subsection \<open>Memory store\<close>

definition memory_file :: "string \<Rightarrow> string" where
  "memory_file ws = path_join (path_join ws ''memory'') ''MEMORY.md''"

text \<open>A day is its date in the form \<^verbatim>\<open>YYYYMMDD\<close>.\<close>

definition daily_file :: "string \<Rightarrow> string \<Rightarrow> string" where
  "daily_file ws day = path_join (path_join (path_join ws ''memory'') (take 6 day)) (day @ ''.md'')"

definition ReadLongTerm :: "string \<Rightarrow> wfs \<Rightarrow> string" where
  "ReadLongTerm ws fs = (case fs_read fs (memory_file ws) of Some data \<Rightarrow> data | None \<Rightarrow> [])"

definition WriteLongTerm :: "string \<Rightarrow> time \<Rightarrow> string \<Rightarrow> wfs \<Rightarrow> wfs" where
  "WriteLongTerm ws now content fs = write_file fs now (memory_file ws) content"

definition ReadToday :: "string \<Rightarrow> string \<Rightarrow> wfs \<Rightarrow> string" where
  "ReadToday ws today fs = (case fs_read fs (daily_file ws today) of Some data \<Rightarrow> data | None \<Rightarrow> [])"

text \<open>\<open>dashed\<close> is today's date in the form \<^verbatim>\<open>YYYY-MM-DD\<close>.\<close>

definition AppendToday :: "string \<Rightarrow> string \<Rightarrow> string \<Rightarrow> time \<Rightarrow> string \<Rightarrow> wfs \<Rightarrow> wfs" where
  "AppendToday ws today dashed now content fs =
     (let existingContent = ReadToday ws today fs;
          newContent = (if existingContent = [] then ''# '' @ dashed @ nl2 @ content
                        else existingContent @ [nl] @ content)
      in write_file fs now (daily_file ws today) newContent)"

text \<open>\<open>days\<close> are the dates of the last days, today first; only readable notes are joined.\<close>

definition GetRecentDailyNotes :: "string \<Rightarrow> string list \<Rightarrow> wfs \<Rightarrow> string" where
  "GetRecentDailyNotes ws days fs = join separator (List.map_filter (\<lambda>d. fs_read fs (daily_file ws d)) days)"

definition GetMemoryContext :: "string \<Rightarrow> string list \<Rightarrow> wfs \<Rightarrow> string" where
  "GetMemoryContext ws days fs =
     (let longTerm = ReadLongTerm ws fs; recentNotes = GetRecentDailyNotes ws (take 3 days) fs in
      if longTerm = [] \<and> recentNotes = [] then []
      else (if longTerm \<noteq> [] then ''## Long-term Memory'' @ nl2 @ longTerm else []) @
           (if recentNotes \<noteq> []
            then (if longTerm \<noteq> [] then separator else []) @ ''## Recent Daily Notes'' @ nl2 @ recentNotes
            else []))"

subsection \<open>The static prompt\<close>

text \<open>The lobster of the heading, in UTF-8.\<close>

definition lobster :: string where "lobster = [CHR 0xF0, CHR 0x9F, CHR 0xA6, CHR 0x9E]"

definition getIdentity :: "string \<Rightarrow> string" where
  "getIdentity workspacePath = join [nl]
     [''# tinyclaw '' @ lobster, [],
      ''You are tinyclaw, a helpful AI assistant.'', [],
      ''## Workspace'',
      ''Your workspace is at: '' @ workspacePath,
      ''- Memory: '' @ workspacePath @ ''/memory/MEMORY.md'',
      ''- Daily Notes: '' @ workspacePath @ ''/memory/YYYYMM/YYYYMMDD.md'',
      ''- Skills: '' @ workspacePath @ ''/skills/{skill-name}/SKILL.md'', [],
      ''## Important Rules'', [],
      ''1. **ALWAYS use tools** - When you need to perform an action (schedule reminders, send messages, execute commands, etc.), you MUST call the appropriate tool. Do NOT just say you'' @ [CHR 0x27] @ ''ll do it or pretend to do it.'', [],
      ''2. **Be helpful and accurate** - When using tools, briefly explain what you'' @ [CHR 0x27] @ ''re doing.'', [],
      ''3. **Memory** - When interacting with me if something seems memorable, update '' @ workspacePath @ ''/memory/MEMORY.md'', [],
      ''4. **Context summaries** - Conversation summaries provided as context are approximate references only. They may be incomplete or outdated. Always defer to explicit user instructions over summary content.'']"

definition bootstrap_files :: "string list" where
  "bootstrap_files = [''AGENTS.md'', ''SOUL.md'', ''USER.md'', ''IDENTITY.md'']"

definition LoadBootstrapFiles :: "string \<Rightarrow> wfs \<Rightarrow> string" where
  "LoadBootstrapFiles ws fs = concat (map (\<lambda>f. case fs_read fs (path_join ws f) of
       Some data \<Rightarrow> ''## '' @ f @ nl2 @ data @ nl2 | None \<Rightarrow> []) bootstrap_files)"

definition BuildSystemPrompt :: "string \<Rightarrow> string list \<Rightarrow> (wfs \<Rightarrow> string) \<Rightarrow> wfs \<Rightarrow> string" where
  "BuildSystemPrompt ws days skills fs =
     (let bootstrapContent = LoadBootstrapFiles ws fs; skillsSummary = skills fs;
          memoryContext = GetMemoryContext ws days fs
      in join separator
           ([getIdentity ws] @
            (if bootstrapContent \<noteq> [] then [bootstrapContent] else []) @
            (if skillsSummary \<noteq> [] then
               [''# Skills'' @ nl2 @ ''The following skills extend your capabilities. To use a skill, read its SKILL.md file using the read_file tool.''
                 @ nl2 @ skillsSummary] else []) @
            (if memoryContext \<noteq> [] then [''# Memory'' @ nl2 @ memoryContext] else [])))"

subsection \<open>The prompt cache\<close>

record ContextBuilder =
  cb_workspace :: string
  cb_cachedSystemPrompt :: string
  cb_cachedAt :: time
  cb_existedAtCache :: "(string \<Rightarrow> bool) option"

definition NewContextBuilder :: "string \<Rightarrow> ContextBuilder" where
  "NewContextBuilder ws = \<lparr>cb_workspace = ws, cb_cachedSystemPrompt = [], cb_cachedAt = 0, cb_existedAtCache = None\<rparr>"

definition sourcePaths :: "string \<Rightarrow> string list" where
  "sourcePaths ws = map (path_join ws) bootstrap_files @ [memory_file ws]"

definition skills_dir :: "string \<Rightarrow> string" where
  "skills_dir ws = path_join ws ''skills''"

definition later :: "time \<Rightarrow> time option \<Rightarrow> time" where
  "later acc m = (case m of Some t \<Rightarrow> if t > acc then t else acc | None \<Rightarrow> acc)"

definition buildCacheBaseline :: "string \<Rightarrow> wfs \<Rightarrow> (string \<Rightarrow> bool) \<times> time" where
  "buildCacheBaseline ws fs =
     (let allPaths = sourcePaths ws @ [skills_dir ws];
          maxMtime = foldl later 0 (map (fs_stat fs) (allPaths @ fs_walk fs))
      in ((\<lambda>p. p \<in> set allPaths \<and> fs_stat fs p \<noteq> None), if maxMtime = 0 then second else maxMtime))"

definition fileChangedSince :: "ContextBuilder \<Rightarrow> wfs \<Rightarrow> string \<Rightarrow> bool" where
  "fileChangedSince cb fs p =
     (case cb_existedAtCache cb of
        None \<Rightarrow> True
      | Some existed \<Rightarrow>
          (case fs_stat fs p of
             None \<Rightarrow> existed p
           | Some mtime \<Rightarrow> if \<not> existed p then True else mtime > cb_cachedAt cb))"

definition skillFilesModifiedSince :: "wfs \<Rightarrow> time \<Rightarrow> bool" where
  "skillFilesModifiedSince fs t \<longleftrightarrow>
     list_ex (\<lambda>p. case fs_stat fs p of Some mtime \<Rightarrow> mtime > t | None \<Rightarrow> False) (fs_walk fs)"

definition sourceFilesChangedLocked :: "ContextBuilder \<Rightarrow> wfs \<Rightarrow> bool" where
  "sourceFilesChangedLocked cb fs \<longleftrightarrow>
     cb_cachedAt cb = 0 \<or> list_ex (fileChangedSince cb fs) (sourcePaths (cb_workspace cb)) \<or>
     fileChangedSince cb fs (skills_dir (cb_workspace cb)) \<or> skillFilesModifiedSince fs (cb_cachedAt cb)"

definition cache_valid :: "ContextBuilder \<Rightarrow> wfs \<Rightarrow> bool" where
  "cache_valid cb fs \<longleftrightarrow> cb_cachedSystemPrompt cb \<noteq> [] \<and> \<not> sourceFilesChangedLocked cb fs"

text \<open>The files may change while the prompt is built: \<open>fs1\<close> is what the fast path sees, \<open>fs2\<close> what the
  second check and the baseline see, and \<open>fs3\<close> what the prompt is built from.\<close>

definition BuildSystemPromptWithCache :: "(wfs \<Rightarrow> string) \<Rightarrow> string list \<Rightarrow> wfs \<Rightarrow> wfs \<Rightarrow> wfs \<Rightarrow> ContextBuilder \<Rightarrow>
    ContextBuilder \<times> string" where
  "BuildSystemPromptWithCache skills days fs1 fs2 fs3 cb =
     (if cache_valid cb fs1 then (cb, cb_cachedSystemPrompt cb)
      else if cache_valid cb fs2 then (cb, cb_cachedSystemPrompt cb)
      else let (existed, maxMtime) = buildCacheBaseline (cb_workspace cb) fs2;
               prompt = BuildSystemPrompt (cb_workspace cb) days skills fs3
           in (cb\<lparr>cb_cachedSystemPrompt := prompt, cb_cachedAt := maxMtime, cb_existedAtCache := Some existed\<rparr>, prompt))"

definition InvalidateCache :: "ContextBuilder \<Rightarrow> ContextBuilder" where
  "InvalidateCache cb = cb\<lparr>cb_cachedSystemPrompt := [], cb_cachedAt := 0, cb_existedAtCache := None\<rparr>"

subsection \<open>Repairing and building the messages\<close>

text \<open>Whether \<open>sanitizeHistoryForProvider\<close> appends a message to what it has kept so far.\<close>

definition open_call :: "Message list \<Rightarrow> bool" where
  "open_call kept = (case dropWhile (\<lambda>m. msg_Role m = ''tool'') (rev kept) of
     [] \<Rightarrow> False | m # _ \<Rightarrow> msg_Role m = ''assistant'' \<and> msg_ToolCalls m \<noteq> [])"

definition keeps :: "Message list \<Rightarrow> Message \<Rightarrow> bool" where
  "keeps kept msg =
     (if msg_Role msg = ''system'' then False
      else if msg_Role msg = ''tool'' then kept \<noteq> [] \<and> open_call kept
      else if msg_Role msg = ''assistant'' \<and> msg_ToolCalls msg \<noteq> []
        then kept \<noteq> [] \<and> msg_Role (last kept) \<in> {''user'', ''tool''}
      else True)"

definition sanitizeHistoryForProvider :: "Message list \<Rightarrow> Message list" where
  "sanitizeHistoryForProvider history = foldl (\<lambda>kept msg. if keeps kept msg then kept @ [msg] else kept) [] history"

text \<open>\<open>now\<close> and \<open>rt\<close> are the formatted time and the runtime description.\<close>

definition buildDynamicContext :: "string \<Rightarrow> string \<Rightarrow> string \<Rightarrow> string \<Rightarrow> string" where
  "buildDynamicContext now rt channel chatID =
     ''## Current Time'' @ [nl] @ now @ nl2 @ ''## Runtime'' @ [nl] @ rt @
     (if channel \<noteq> [] \<and> chatID \<noteq> []
      then nl2 @ ''## Current Session'' @ [nl] @ ''Channel: '' @ channel @ [nl] @ ''Chat ID: '' @ chatID else [])"

definition em_dash :: string where "em_dash = [CHR 0xE2, CHR 0x80, CHR 0x94]"

definition summary_text :: "string \<Rightarrow> string" where
  "summary_text summary =
     ''CONTEXT_SUMMARY: The following is an approximate summary of prior conversation '' @
     ''for reference only. It may be incomplete or outdated '' @ em_dash @ '' always defer to explicit instructions.'' @ nl2 @ summary"

definition text_block :: "string \<Rightarrow> string option \<Rightarrow> ContentBlock" where
  "text_block t cache = \<lparr>cb_Type = ''text'', cb_Text = t, cb_CacheControl = cache\<rparr>"

definition system_message :: "string \<Rightarrow> string \<Rightarrow> string \<Rightarrow> Message" where
  "system_message staticPrompt dynamicCtx summary =
     (let extra = (if summary \<noteq> [] then [summary_text summary] else [])
      in (text_message ''system'' (join separator ([staticPrompt, dynamicCtx] @ extra)))
           \<lparr>msg_SystemParts := [text_block staticPrompt (Some ''ephemeral''), text_block dynamicCtx None] @
              map (\<lambda>t. text_block t None) extra\<rparr>)"

definition BuildMessages :: "string \<Rightarrow> string \<Rightarrow> Message list \<Rightarrow> string \<Rightarrow> string \<Rightarrow> Message list" where
  "BuildMessages staticPrompt dynamicCtx history summary currentMessage =
     [system_message staticPrompt dynamicCtx summary] @ sanitizeHistoryForProvider history @
     (if trim_space currentMessage \<noteq> [] then [text_message ''user'' currentMessage] else [])"

definition AddToolResult :: "Message list \<Rightarrow> string \<Rightarrow> string \<Rightarrow> Message list" where
  "AddToolResult messages toolCallID result = messages @ [tool_message result toolCallID]"

definition AddAssistantMessage :: "Message list \<Rightarrow> string \<Rightarrow> Message list" where
  "AddAssistantMessage messages content = messages @ [text_message ''assistant'' content]"

subsection \<open>Facts about the repair\<close>

lemma sanitize_Nil [simp]: "sanitizeHistoryForProvider [] = []"
  by (simp add: sanitizeHistoryForProvider_def)

lemma sanitize_snoc: "sanitizeHistoryForProvider (h @ [m]) =
    (if keeps (sanitizeHistoryForProvider h) m then sanitizeHistoryForProvider h @ [m] else sanitizeHistoryForProvider h)"
  by (simp add: sanitizeHistoryForProvider_def)

text \<open>A history every message of which would be kept.\<close>

definition sane :: "Message list \<Rightarrow> bool" where
  "sane h \<longleftrightarrow> (\<forall>i < length h. keeps (take i h) (h ! i))"

lemma sane_snoc: "sane (h @ [m]) \<longleftrightarrow> sane h \<and> keeps h m"
  by (auto simp: sane_def nth_append less_Suc_eq)

lemma sane_sanitize: "sane (sanitizeHistoryForProvider h)"
  by (induction h rule: rev_induct) (simp_all add: sanitize_snoc sane_snoc, simp add: sane_def)

lemma sanitize_sane: "sane h \<Longrightarrow> sanitizeHistoryForProvider h = h"
  by (induction h rule: rev_induct) (simp_all add: sanitize_snoc sane_snoc)

lemma no_system: "m \<in> set (sanitizeHistoryForProvider h) \<Longrightarrow> msg_Role m \<noteq> ''system''"
  by (induction h rule: rev_induct) (auto simp: sanitize_snoc keeps_def split: if_splits)

lemma subseq_sanitize: "subseq (sanitizeHistoryForProvider h) h"
  by (induction h rule: rev_induct) (simp_all add: sanitize_snoc subseq_rev_drop_many)

lemma open_call_snoc: "open_call (kept @ [m]) =
    (if msg_Role m = ''tool'' then open_call kept else msg_Role m = ''assistant'' \<and> msg_ToolCalls m \<noteq> [])"
  by (simp add: open_call_def)

text \<open>Processing from a state in which \<open>kept\<close> is what was kept before.\<close>

definition sanitize_from :: "Message list \<Rightarrow> Message list \<Rightarrow> Message list" where
  "sanitize_from kept h = foldl (\<lambda>kept msg. if keeps kept msg then kept @ [msg] else kept) kept h"

lemma sanitize_from_simps [simp]:
  "sanitize_from kept [] = kept"
  "sanitize_from kept (m # h) = sanitize_from (if keeps kept m then kept @ [m] else kept) h"
  by (simp_all add: sanitize_from_def)

lemma sanitize_from_append: "sanitize_from kept (h @ h') = sanitize_from (sanitize_from kept h) h'"
  by (simp add: sanitize_from_def)

lemma sanitize_from_Nil: "sanitizeHistoryForProvider h = sanitize_from [] h"
  by (simp add: sanitize_from_def sanitizeHistoryForProvider_def)

lemma sanitize_orphans:
  "\<forall>m \<in> set ms. msg_Role m = ''tool'' \<Longrightarrow> \<not> open_call kept \<Longrightarrow> sanitize_from kept ms = kept"
  by (induction ms) (simp_all add: keeps_def)

lemma sanitize_results:
  "\<forall>m \<in> set ms. msg_Role m = ''tool'' \<Longrightarrow> open_call kept \<Longrightarrow> kept \<noteq> [] \<Longrightarrow> sanitize_from kept ms = kept @ ms"
  by (induction ms arbitrary: kept) (simp_all add: keeps_def open_call_snoc)

lemma answered_split:
  assumes "answered pend ms"
  shows "\<exists>ts rest. ms = ts @ rest \<and> (\<forall>t \<in> set ts. msg_Role t = ''tool'') \<and> answered pend ts \<and> answered [] rest \<and> length ts = length pend"
  using assms
proof (induction pend arbitrary: ms)
  case (Cons i pend)
  then obtain m ms' where m: "ms = m # ms'" "msg_Role m = ''tool''" "msg_ToolCallID m = i" "answered pend ms'"
    by (cases ms) auto
  from Cons.IH [OF m(4)] obtain ts rest where "ms' = ts @ rest" "\<forall>t \<in> set ts. msg_Role t = ''tool''" "answered pend ts"
    "answered [] rest" "length ts = length pend" by blast
  with m show ?case by (intro exI [of _ "m # ts"] exI [of _ rest]) simp
qed auto

lemma answered_not_open:
  "answered pend ms \<Longrightarrow> ms \<noteq> [] \<Longrightarrow> msg_Role (last ms) \<noteq> ''tool'' \<Longrightarrow> \<not> open_call ms"
proof (induction ms rule: rev_induct)
  case (snoc m ms)
  have "msg_Role m = ''assistant'' \<Longrightarrow> msg_ToolCalls m = []"
    if "answered p (ms @ [m])" "msg_Role m \<noteq> ''tool''" for p
    using that
  proof (induction p ms rule: answered.induct)
    case (1 pend)
    then show ?case by (cases pend) auto
  qed auto
  then show ?case using snoc.prems by (auto simp: open_call_snoc)
qed simp

text \<open>Feeding an answered conversation to the repair keeps the result answered.\<close>

lemma sanitize_answered:
  assumes "answered [] rest" "answered [] kept"
  shows "answered [] (sanitize_from kept rest)"
  using assms
proof (induction "length rest" arbitrary: rest kept rule: less_induct)
  case less
  show ?case
  proof (cases rest)
    case Nil
    then show ?thesis using less.prems by simp
  next
    case (Cons m ms)
    let ?pend = "if msg_Role m = ''assistant'' then map tc_ID (msg_ToolCalls m) else []"
    have m: "msg_Role m \<noteq> ''tool''" "answered ?pend ms" using less.prems(1) Cons by auto
    obtain ts rest' where sp: "ms = ts @ rest'" "\<forall>t \<in> set ts. msg_Role t = ''tool''" "answered ?pend ts"
      "answered [] rest'" "length ts = length ?pend"
      using answered_split [OF m(2)] by blast
    have short: "length rest' < length rest" using Cons sp(1) by simp
    let ?kept = "if keeps kept m then kept @ [m] else kept"
    have "answered [] (sanitize_from ?kept ts)"
    proof (cases "msg_Role m = ''assistant'' \<and> msg_ToolCalls m \<noteq> []")
      case True
      have mts: "answered [] (m # ts)" using m(1) sp(3) by simp
      show ?thesis
      proof (cases "keeps kept m")
        case True
        have "open_call (kept @ [m])" using m(1) \<open>msg_Role m = ''assistant'' \<and> msg_ToolCalls m \<noteq> []\<close>
          by (simp add: open_call_snoc)
        then have "sanitize_from (kept @ [m]) ts = kept @ m # ts" using sanitize_results sp(2) by simp
        then show ?thesis using True answered_append [OF less.prems(2) mts] by simp
      next
        case False
        then have "kept = [] \<or> msg_Role (last kept) \<noteq> ''tool''"
          using \<open>msg_Role m = ''assistant'' \<and> msg_ToolCalls m \<noteq> []\<close> by (auto simp: keeps_def split: if_splits)
        then have "\<not> open_call kept"
          using answered_not_open [OF less.prems(2)] by (cases "kept = []") (auto simp: open_call_def)
        then show ?thesis using False sp(2) less.prems(2) by (simp add: sanitize_orphans)
      qed
    next
      case False
      then have p: "?pend = []" by auto
      then have "ts = []" using sp(5) by (simp only: list.size length_0_conv)
      moreover have "answered [] [m]" using m(1) p by simp
      ultimately show ?thesis using less.prems(2) answered_append [of "[]" kept "[m]"] by simp
    qed
    from less.hyps [OF short sp(4) this] show ?thesis by (simp add: Cons sp(1) sanitize_from_append)
  qed
qed

lemma answered_drop:
  assumes "answered pend ms"
  shows "\<exists>ts rest. drop n ms = ts @ rest \<and> (\<forall>t \<in> set ts. msg_Role t = ''tool'') \<and> answered [] rest"
  using assms
proof (induction pend ms arbitrary: n rule: answered.induct)
  case (1 pend)
  then show ?case by simp
next
  case (2 i pend m ms)
  show ?case
  proof (cases n)
    case 0
    from answered_split [OF 2(2)] show ?thesis using 0 by auto
  next
    case (Suc k)
    then show ?thesis using 2 by simp
  qed
next
  case (3 m ms)
  show ?case
  proof (cases n)
    case 0
    show ?thesis unfolding 0 by (intro exI [of _ "[]"] exI [of _ "m # ms"]) (use 3(2) in simp)
  next
    case (Suc k)
    then show ?thesis using 3(1) [of k] 3(2) by (simp split: if_splits)
  qed
qed

lemma sanitize_first: "\<not> open_call (sanitize_from [] [m]) \<and> answered [] (sanitize_from [] [m])"
  by (auto simp: keeps_def open_call_def)

text \<open>The repair of the end of an answered conversation, with or without a message in front.\<close>

lemma repaired_suffix:
  assumes "answered [] history"
  shows "answered [] (sanitizeHistoryForProvider (drop n history)) \<and>
    answered [] (sanitizeHistoryForProvider (m # drop n history))"
proof -
  obtain ts rest where d: "drop n history = ts @ rest" "\<forall>t \<in> set ts. msg_Role t = ''tool''" "answered [] rest"
    using answered_drop [OF assms] by blast
  let ?k = "sanitize_from [] [m]"
  have "sanitizeHistoryForProvider (m # drop n history) = sanitize_from ?k (ts @ rest)"
    unfolding d(1) sanitize_from_Nil by simp
  also have "\<dots> = sanitize_from ?k rest"
    using sanitize_orphans [OF d(2) conjunct1 [OF sanitize_first [of m]]] by (simp only: sanitize_from_append)
  finally have "answered [] (sanitizeHistoryForProvider (m # drop n history))"
    using sanitize_answered [OF d(3)] sanitize_first by simp
  moreover have "sanitizeHistoryForProvider (drop n history) = sanitize_from [] rest"
    unfolding d(1) sanitize_from_Nil sanitize_from_append
    using sanitize_orphans [OF d(2), of "[]"] by (simp add: open_call_def)
  then have "answered [] (sanitizeHistoryForProvider (drop n history))"
    using sanitize_answered [OF d(3)] by simp
  ultimately show ?thesis by blast
qed

subsection \<open>The prompt cache\<close>

definition tracked :: "string \<Rightarrow> wfs \<Rightarrow> string list" where
  "tracked ws fs = sourcePaths ws @ [skills_dir ws] @ fs_walk fs"

text \<open>What the prompt shows of the files, apart from the daily notes.\<close>

definition same_sources :: "string \<Rightarrow> (wfs \<Rightarrow> string) \<Rightarrow> wfs \<Rightarrow> wfs \<Rightarrow> bool" where
  "same_sources ws skills fs fs' \<longleftrightarrow>
     (\<forall>p \<in> set (sourcePaths ws). fs_read fs p = fs_read fs' p) \<and> skills fs = skills fs'"

lemma foldl_later_ge: "acc \<le> foldl later acc ms"
proof (induction ms arbitrary: acc)
  case (Cons m ms)
  have "acc \<le> later acc m" by (simp add: later_def split: option.split)
  also have "\<dots> \<le> foldl later (later acc m) ms" by (rule Cons)
  finally show ?case by simp
qed simp

lemma foldl_later_mem: "Some t \<in> set ms \<Longrightarrow> t \<le> foldl later acc ms"
proof (induction ms arbitrary: acc)
  case (Cons m ms)
  show ?case
  proof (cases "m = Some t")
    case True
    have "t \<le> later acc m" by (simp add: later_def True)
    also have "\<dots> \<le> foldl later (later acc m) ms" by (rule foldl_later_ge)
    finally show ?thesis by simp
  next
    case False
    with Cons show ?thesis by simp
  qed
qed simp

lemma BuildSystemPrompt_cong:
  assumes "same_sources ws skills fs fs'" "GetRecentDailyNotes ws (take 3 days) fs = GetRecentDailyNotes ws (take 3 days) fs'"
  shows "BuildSystemPrompt ws days skills fs = BuildSystemPrompt ws days skills fs'"
proof -
  have b: "LoadBootstrapFiles ws fs = LoadBootstrapFiles ws fs'"
    unfolding LoadBootstrapFiles_def using assms(1)
    by (auto simp: same_sources_def sourcePaths_def intro!: arg_cong [where f = concat] map_cong)
  have "ReadLongTerm ws fs = ReadLongTerm ws fs'"
    using assms(1) by (simp add: ReadLongTerm_def same_sources_def sourcePaths_def)
  then have m: "GetMemoryContext ws days fs = GetMemoryContext ws days fs'"
    using assms(2) by (simp add: GetMemoryContext_def)
  show ?thesis using assms(1) b m by (simp add: BuildSystemPrompt_def same_sources_def)
qed

subsection \<open>Properties\<close>

text \<open>(C8) Compaction never leaves dangling tool calls or results. Take any conversation in which every
  tool call is answered; keep only its last messages (as truncation does), or one arbitrary message
  followed by its last messages (as the emergency compression does). After the repair, in what is
  sent to the provider, again every tool call is answered by exactly its results, whatever the cut.\<close>

theorem sanitize_repairs_compaction:
  assumes "answered [] history"
  shows "answered [] (sanitizeHistoryForProvider (drop n history)) \<and>
    answered [] (sanitizeHistoryForProvider (m # drop n history))"
  using repaired_suffix [OF assms] .

definition call_message :: "string list \<Rightarrow> Message" where
  "call_message ids = (text_message ''assistant'' [])\<lparr>msg_ToolCalls := map (\<lambda>i. sample_call\<lparr>tc_ID := i\<rparr>) ids\<rparr>"

definition sample_conversation :: "Message list" where
  "sample_conversation = [text_message ''user'' ''hi'', call_message [''a'', ''b''], tool_message ''1'' ''a'',
     tool_message ''2'' ''b'', text_message ''assistant'' ''done'', text_message ''user'' ''more'']"

theorem sanitize_repairs_compaction_witness:
  "answered [] (sanitizeHistoryForProvider (drop 3 sample_conversation)) \<and>
   sanitizeHistoryForProvider (drop 3 sample_conversation) = drop 4 sample_conversation"
proof -
  have "answered [] sample_conversation" by code_simp
  moreover have "sanitizeHistoryForProvider (drop 3 sample_conversation) = drop 4 sample_conversation" by code_simp
  ultimately show ?thesis using sanitize_repairs_compaction by blast
qed

text \<open>The repair keeps a subsequence of the history without system messages; in it every tool
  result stands in a run of results after an assistant message with calls, and every assistant
  message with calls directly follows a user message or a tool result. Repairing twice changes
  nothing more, and a history that meets these rules is left alone.\<close>

theorem sanitize_valid:
  "subseq (sanitizeHistoryForProvider h) h \<and>
   (\<forall>m \<in> set (sanitizeHistoryForProvider h). msg_Role m \<noteq> ''system'') \<and>
   (\<forall>i < length (sanitizeHistoryForProvider h). let m = sanitizeHistoryForProvider h ! i in
      (msg_Role m = ''tool'' \<longrightarrow> open_call (take i (sanitizeHistoryForProvider h))) \<and>
      (msg_Role m = ''assistant'' \<and> msg_ToolCalls m \<noteq> [] \<longrightarrow>
         0 < i \<and> msg_Role (sanitizeHistoryForProvider h ! (i - 1)) \<in> {''user'', ''tool''})) \<and>
   sanitizeHistoryForProvider (sanitizeHistoryForProvider h) = sanitizeHistoryForProvider h \<and>
   (sane h \<longrightarrow> sanitizeHistoryForProvider h = h)"
proof -
  let ?s = "sanitizeHistoryForProvider h"
  have k: "keeps (take i ?s) (?s ! i)" if "i < length ?s" for i
    using sane_sanitize [of h] that by (simp add: sane_def)
  have sys: "\<forall>m \<in> set ?s. msg_Role m \<noteq> ''system''" using no_system by blast
  have shape: "(msg_Role (?s ! i) = ''tool'' \<longrightarrow> open_call (take i ?s)) \<and>
      (msg_Role (?s ! i) = ''assistant'' \<and> msg_ToolCalls (?s ! i) \<noteq> [] \<longrightarrow>
         0 < i \<and> msg_Role (?s ! (i - 1)) \<in> {''user'', ''tool''})" if i: "i < length ?s" for i
  proof -
    have "last (take i ?s) = ?s ! (i - 1)" if "take i ?s \<noteq> []"
      using that i by (simp add: last_conv_nth min_def)
    then show ?thesis using k [OF i] by (auto simp: keeps_def split: if_splits)
  qed
  show ?thesis unfolding Let_def
    using subseq_sanitize sys shape sanitize_sane [OF sane_sanitize] sanitize_sane by blast
qed

theorem sanitize_valid_witness:
  "sanitizeHistoryForProvider [text_message ''system'' ''x'', tool_message ''1'' ''a'', call_message [''b''],
      text_message ''user'' ''hi''] = [text_message ''user'' ''hi''] \<and>
   sanitizeHistoryForProvider sample_conversation = sample_conversation"
proof -
  have "sane sample_conversation" by code_simp
  then have "sanitizeHistoryForProvider sample_conversation = sample_conversation"
    using sanitize_valid [of sample_conversation] by blast
  moreover have "sanitizeHistoryForProvider [text_message ''system'' ''x'', tool_message ''1'' ''a'', call_message [''b''],
      text_message ''user'' ''hi''] = [text_message ''user'' ''hi'']" by code_simp
  ultimately show ?thesis by blast
qed

text \<open>The messages of a request: exactly one system message, at the head, whose text is the
  concatenation of its blocks with the cached prompt as first and only cacheable block; then the
  repaired history; then the current message unless it is blank.\<close>

theorem BuildMessages_shape:
  "\<exists>sys. BuildMessages sp dyn history summary current =
       sys # sanitizeHistoryForProvider history @ (if trim_space current = [] then [] else [text_message ''user'' current]) \<and>
     filter (\<lambda>m. msg_Role m = ''system'') (BuildMessages sp dyn history summary current) = [sys] \<and>
     msg_Content sys = join separator (map cb_Text (msg_SystemParts sys)) \<and>
     msg_SystemParts sys \<noteq> [] \<and> cb_Text (hd (msg_SystemParts sys)) = sp \<and>
     (\<forall>b \<in> set (msg_SystemParts sys). cb_CacheControl b \<noteq> None \<longrightarrow> cb_Text b = sp)"
proof -
  have "filter (\<lambda>m. msg_Role m = ''system'') (sanitizeHistoryForProvider history) = []"
    using no_system by (auto simp: filter_empty_conv)
  then show ?thesis
    by (intro exI [of _ "system_message sp dyn summary"])
      (auto simp: BuildMessages_def system_message_def text_message_def text_block_def Let_def comp_def)
qed

theorem BuildMessages_shape_witness:
  "length (BuildMessages ''static'' ''dyn'' sample_conversation ''sum'' ''next'') = 8 \<and>
   (\<exists>sys. filter (\<lambda>m. msg_Role m = ''system'') (BuildMessages ''static'' ''dyn'' sample_conversation ''sum'' ''next'') = [sys])"
proof -
  have "length (BuildMessages ''static'' ''dyn'' sample_conversation ''sum'' ''next'') = 8" by code_simp
  then show ?thesis using BuildMessages_shape [of "''static''" "''dyn''" sample_conversation "''sum''" "''next''"] by blast
qed

text \<open>(C26) The prompt cache is transparent for tracked files. Suppose the cache was built with the
  baseline of \<open>fs2\<close> from the files \<open>fs3\<close>, and times are honest: whenever a prompt source differs
  between \<open>fs3\<close> and a later state \<open>fs\<close>, a tracked path appeared, vanished, or carries a time later
  than every time of the baseline. Then, as long as the daily notes are the same, the prompt served
  at \<open>fs\<close> is the one a fresh build would give.\<close>

theorem prompt_cache_transparent:
  assumes "cb' = fst (BuildSystemPromptWithCache skills days fs2 fs2 fs3 (NewContextBuilder ws))"
    and "\<not> same_sources ws skills fs3 fs \<Longrightarrow>
      (\<exists>p \<in> set (sourcePaths ws @ [skills_dir ws]). (fs_stat fs2 p = None) \<noteq> (fs_stat fs p = None)) \<or>
      (\<exists>p \<in> set (tracked ws fs). \<exists>t. fs_stat fs p = Some t \<and> snd (buildCacheBaseline ws fs2) < t)"
    and "GetRecentDailyNotes ws (take 3 days) fs3 = GetRecentDailyNotes ws (take 3 days) fs"
  shows "snd (BuildSystemPromptWithCache skills days fs fs fs cb') = BuildSystemPrompt ws days skills fs"
proof -
  let ?b = "buildCacheBaseline ws fs2"
  have cb': "cb' = \<lparr>cb_workspace = ws, cb_cachedSystemPrompt = BuildSystemPrompt ws days skills fs3,
      cb_cachedAt = snd ?b, cb_existedAtCache = Some (fst ?b)\<rparr>"
    unfolding assms(1) by (simp add: BuildSystemPromptWithCache_def cache_valid_def NewContextBuilder_def case_prod_beta Let_def)
  show ?thesis
  proof (cases "cache_valid cb' fs")
    case False
    then show ?thesis by (simp add: BuildSystemPromptWithCache_def case_prod_beta Let_def cb')
  next
    case True
    then have nc: "\<not> sourceFilesChangedLocked cb' fs" by (simp add: cache_valid_def)
    have stat: "(fs_stat fs2 p = None) = (fs_stat fs p = None)" "fs_stat fs p = Some t \<Longrightarrow> t \<le> snd ?b"
      if "p \<in> set (sourcePaths ws @ [skills_dir ws])" for p t
    proof -
      have "\<not> fileChangedSince cb' fs p" using nc that by (auto simp: sourceFilesChangedLocked_def list_ex_iff cb')
      moreover have "fst ?b p \<longleftrightarrow> fs_stat fs2 p \<noteq> None" using that by (simp add: buildCacheBaseline_def Let_def)
      ultimately show "(fs_stat fs2 p = None) = (fs_stat fs p = None)" "fs_stat fs p = Some t \<Longrightarrow> t \<le> snd ?b"
        by (auto simp: fileChangedSince_def cb' split: option.splits if_splits)
    qed
    have walk: "t \<le> snd ?b" if "p \<in> set (fs_walk fs)" "fs_stat fs p = Some t" for p t
      using nc that by (fastforce simp: sourceFilesChangedLocked_def skillFilesModifiedSince_def list_ex_iff cb')
    have "same_sources ws skills fs3 fs"
    proof (rule ccontr)
      assume "\<not> same_sources ws skills fs3 fs"
      from assms(2) [OF this] show False
      proof
        assume "\<exists>p \<in> set (sourcePaths ws @ [skills_dir ws]). (fs_stat fs2 p = None) \<noteq> (fs_stat fs p = None)"
        then show False using stat(1) by blast
      next
        assume "\<exists>p \<in> set (tracked ws fs). \<exists>t. fs_stat fs p = Some t \<and> snd ?b < t"
        then obtain p t where "p \<in> set (sourcePaths ws @ [skills_dir ws]) \<or> p \<in> set (fs_walk fs)"
          "fs_stat fs p = Some t" "snd ?b < t" by (auto simp: tracked_def)
        then show False using stat(2) walk by force
      qed
    qed
    then show ?thesis using BuildSystemPrompt_cong [OF _ assms(3)] True
      by (simp add: BuildSystemPromptWithCache_def cb')
  qed
qed

definition no_files :: wfs where
  "no_files = \<lparr>fs_stat = (\<lambda>_. None), fs_read = (\<lambda>_. None), fs_walk = []\<rparr>"

definition with_soul :: wfs where
  "with_soul = write_file no_files 5000000000 ''/w/SOUL.md'' ''be kind''"

theorem prompt_cache_transparent_witness:
  "let cb = fst (BuildSystemPromptWithCache (\<lambda>_. []) [] no_files no_files no_files (NewContextBuilder ''/w'')) in
   snd (BuildSystemPromptWithCache (\<lambda>_. []) [] with_soul with_soul with_soul cb) = BuildSystemPrompt ''/w'' [] (\<lambda>_. []) with_soul"
proof -
  have p: "''/w/SOUL.md'' \<in> set (sourcePaths ''/w'' @ [skills_dir ''/w''])" by code_simp
  have "(fs_stat no_files ''/w/SOUL.md'' = None) \<noteq> (fs_stat with_soul ''/w/SOUL.md'' = None)" by code_simp
  with p have h: "(\<exists>p \<in> set (sourcePaths ''/w'' @ [skills_dir ''/w'']). (fs_stat no_files p = None) \<noteq> (fs_stat with_soul p = None)) \<or>
      (\<exists>p \<in> set (tracked ''/w'' with_soul). \<exists>t. fs_stat with_soul p = Some t \<and> snd (buildCacheBaseline ''/w'' no_files) < t)"
    by blast
  have n: "GetRecentDailyNotes ''/w'' (take 3 []) no_files = GetRecentDailyNotes ''/w'' (take 3 []) with_soul"
    by (simp add: GetRecentDailyNotes_def)
  show ?thesis unfolding Let_def by (rule prompt_cache_transparent [OF refl h n])
qed

text \<open>Daily notes are cached but not tracked. The static prompt contains the notes of the last
  three days, yet appending to today's note never invalidates the cache: the agent keeps getting
  the old prompt.\<close>

theorem daily_notes_stale:
  "let cb = fst (BuildSystemPromptWithCache (\<lambda>_. []) [''20260131''] no_files no_files no_files (NewContextBuilder ''/w''));
       fs = AppendToday ''/w'' ''20260131'' ''2026-01-31'' 9000000000 ''met Ada'' no_files
   in snd (BuildSystemPromptWithCache (\<lambda>_. []) [''20260131''] fs fs fs cb) =
        BuildSystemPrompt ''/w'' [''20260131''] (\<lambda>_. []) no_files \<and>
      BuildSystemPrompt ''/w'' [''20260131''] (\<lambda>_. []) fs \<noteq> BuildSystemPrompt ''/w'' [''20260131''] (\<lambda>_. []) no_files"
  by code_simp

end
