(* ===== verification/Agent.thy ===== *)
theory Agent
  imports Route Fallback Session Context
begin

text \<open>
  Agent instances (\<^verbatim>\<open>pkg/agent/instance.go\<close>) and their registry (\<^verbatim>\<open>pkg/agent/registry.go\<close>).
  The settings of an agent extend the part of the configuration that routing reads. The registry is
  a Go map from normalised identifiers to instances, an association list whose order is the order
  of iteration; \<open>home\<close> is the home directory. The LLM provider and the tools an instance is built
  with are arguments; temperatures are kept as decimal text.
\<close>

record AgentModelConfig =
  am_Primary :: string
  am_Fallbacks :: "string list option"

record AgentSettings = AgentConfig +
  as_Name :: string
  as_Workspace :: string
  as_Model :: "AgentModelConfig option"
  as_Skills :: "string list"
  as_AllowAgents :: "string list option"

record AgentDefaults =
  ad_Workspace :: string
  ad_Provider :: string
  ad_ModelName :: string
  ad_Model :: string
  ad_ModelFallbacks :: "string list"
  ad_MaxTokens :: int
  ad_Temperature :: "string option"
  ad_MaxToolIterations :: int

record 'w AgentInstance =
  ai_ID :: string
  ai_Name :: string
  ai_Model :: string
  ai_Fallbacks :: "string list"
  ai_Workspace :: string
  ai_MaxIterations :: int
  ai_MaxTokens :: int
  ai_Temperature :: string
  ai_ContextWindow :: int
  ai_Tools :: "'w ToolRegistry"
  ai_AllowAgents :: "string list option"
  ai_SkillsFilter :: "string list"
  ai_Candidates :: "FallbackCandidate list"

definition GetModelName :: "AgentDefaults \<Rightarrow> string" where
  "GetModelName d = (if ad_ModelName d \<noteq> [] then ad_ModelName d else ad_Model d)"

definition expandHome :: "string \<Rightarrow> string \<Rightarrow> string" where
  "expandHome home path =
     (case path of
        [] \<Rightarrow> path
      | c # rest \<Rightarrow> if c = CHR ''~'' then (case rest of d # _ \<Rightarrow> if d = CHR ''/'' then home @ rest else home | [] \<Rightarrow> home)
                    else path)"

definition resolveAgentWorkspace :: "string \<Rightarrow> AgentSettings option \<Rightarrow> AgentDefaults \<Rightarrow> string" where
  "resolveAgentWorkspace home agentCfg defaults =
     (case agentCfg of
        None \<Rightarrow> expandHome home (ad_Workspace defaults)
      | Some cfg \<Rightarrow>
          if trim_space (as_Workspace cfg) \<noteq> [] then expandHome home (trim_space (as_Workspace cfg))
          else if a_Default cfg \<or> a_ID cfg = [] \<or> NormalizeAgentID (a_ID cfg) = ''main''
            then expandHome home (ad_Workspace defaults)
          else path_join (path_join home ''.tinyclaw'') (''workspace-'' @ NormalizeAgentID (a_ID cfg)))"

definition resolveAgentModel :: "AgentSettings option \<Rightarrow> AgentDefaults \<Rightarrow> string" where
  "resolveAgentModel agentCfg defaults =
     (case Option.bind agentCfg as_Model of
        Some m \<Rightarrow> if trim_space (am_Primary m) \<noteq> [] then trim_space (am_Primary m) else GetModelName defaults
      | None \<Rightarrow> GetModelName defaults)"

definition resolveAgentFallbacks :: "AgentSettings option \<Rightarrow> AgentDefaults \<Rightarrow> string list" where
  "resolveAgentFallbacks agentCfg defaults =
     (case Option.bind (Option.bind agentCfg as_Model) am_Fallbacks of
        Some fs \<Rightarrow> fs
      | None \<Rightarrow> ad_ModelFallbacks defaults)"

definition NewAgentInstance :: "string \<Rightarrow> 'w ToolRegistry \<Rightarrow> AgentSettings option \<Rightarrow> AgentDefaults \<Rightarrow> 'w AgentInstance" where
  "NewAgentInstance home tools agentCfg defaults =
     (let model = resolveAgentModel agentCfg defaults;
          fallbacks = resolveAgentFallbacks agentCfg defaults;
          maxTokens = (if ad_MaxTokens defaults = 0 then 8192 else ad_MaxTokens defaults)
      in \<lparr>ai_ID = (case agentCfg of None \<Rightarrow> DefaultAgentID | Some cfg \<Rightarrow> NormalizeAgentID (a_ID cfg)),
          ai_Name = (case agentCfg of None \<Rightarrow> [] | Some cfg \<Rightarrow> as_Name cfg),
          ai_Model = model, ai_Fallbacks = fallbacks,
          ai_Workspace = resolveAgentWorkspace home agentCfg defaults,
          ai_MaxIterations = (if ad_MaxToolIterations defaults = 0 then 20 else ad_MaxToolIterations defaults),
          ai_MaxTokens = maxTokens,
          ai_Temperature = (case ad_Temperature defaults of None \<Rightarrow> ''0.7'' | Some t \<Rightarrow> t),
          ai_ContextWindow = maxTokens, ai_Tools = tools,
          ai_AllowAgents = (case agentCfg of None \<Rightarrow> None | Some cfg \<Rightarrow> as_AllowAgents cfg),
          ai_SkillsFilter = (case agentCfg of None \<Rightarrow> [] | Some cfg \<Rightarrow> as_Skills cfg),
          ai_Candidates = ResolveCandidates \<lparr>mc_Primary = model, mc_Fallbacks = fallbacks\<rparr> (ad_Provider defaults)\<rparr>)"

subsection \<open>The registry\<close>

type_synonym 'w AgentRegistry = "(string \<times> 'w AgentInstance) list"

definition implicit_agent :: AgentSettings where
  "implicit_agent = \<lparr>a_ID = ''main'', a_Default = True, as_Name = [], as_Workspace = [], as_Model = None,
     as_Skills = [], as_AllowAgents = None\<rparr>"

definition NewAgentRegistry :: "string \<Rightarrow> 'w ToolRegistry \<Rightarrow> AgentSettings list \<Rightarrow> AgentDefaults \<Rightarrow> 'w AgentRegistry" where
  "NewAgentRegistry home tools agentConfigs defaults =
     (if agentConfigs = [] then [(''main'', NewAgentInstance home tools (Some implicit_agent) defaults)]
      else foldl (\<lambda>r ac. AList.update (NormalizeAgentID (a_ID ac)) (NewAgentInstance home tools (Some ac) defaults) r)
             [] agentConfigs)"

definition GetAgent :: "'w AgentRegistry \<Rightarrow> string \<Rightarrow> 'w AgentInstance option" where
  "GetAgent r agentID = map_of r (NormalizeAgentID agentID)"

definition ListAgentIDs :: "'w AgentRegistry \<Rightarrow> string list" where
  "ListAgentIDs r = map fst r"

definition CanSpawnSubagent :: "'w AgentRegistry \<Rightarrow> string \<Rightarrow> string \<Rightarrow> bool" where
  "CanSpawnSubagent r parentAgentID targetAgentID =
     (case GetAgent r parentAgentID of
        None \<Rightarrow> False
      | Some parent \<Rightarrow>
          (case ai_AllowAgents parent of
             None \<Rightarrow> False
           | Some allow \<Rightarrow>
               list_ex (\<lambda>allowed. allowed = ''*'' \<or> NormalizeAgentID allowed = NormalizeAgentID targetAgentID) allow))"

definition GetDefaultAgent :: "'w AgentRegistry \<Rightarrow> 'w AgentInstance option" where
  "GetDefaultAgent r =
     (case map_of r ''main'' of
        Some agent \<Rightarrow> Some agent
      | None \<Rightarrow> (case r of (_, agent) # _ \<Rightarrow> Some agent | [] \<Rightarrow> None))"

subsection \<open>Lemmas\<close>

lemma registry_lookup:
  "map_of (foldl (\<lambda>r ac. AList.update (NormalizeAgentID (a_ID ac)) (f ac) r) r0 cs) k =
     (case find (\<lambda>ac. NormalizeAgentID (a_ID ac) = k) (rev cs) of Some ac \<Rightarrow> Some (f ac) | None \<Rightarrow> map_of r0 k)"
proof (induction cs rule: rev_induct)
  case (snoc c cs)
  then show ?case by (simp add: update_conv')
qed simp

lemma registry_get:
  assumes "ac \<in> set agentConfigs"
  shows "\<exists>ac' \<in> set agentConfigs. NormalizeAgentID (a_ID ac') = NormalizeAgentID (a_ID ac) \<and>
    map_of (NewAgentRegistry home tools agentConfigs defaults) (NormalizeAgentID (a_ID ac)) =
      Some (NewAgentInstance home tools (Some ac') defaults)"
proof -
  have "find (\<lambda>c. NormalizeAgentID (a_ID c) = NormalizeAgentID (a_ID ac)) (rev agentConfigs) \<noteq> None"
    using assms by (auto simp: find_None_iff)
  then obtain ac' where f: "find (\<lambda>c. NormalizeAgentID (a_ID c) = NormalizeAgentID (a_ID ac)) (rev agentConfigs) = Some ac'"
    by auto
  then have "ac' \<in> set agentConfigs" "NormalizeAgentID (a_ID ac') = NormalizeAgentID (a_ID ac)"
    by (auto simp: find_Some_iff in_set_conv_nth) (metis length_rev nth_mem set_rev in_set_conv_nth)
  with f show ?thesis using assms by (auto simp: NewAgentRegistry_def registry_lookup)
qed

subsection \<open>Properties\<close>

text \<open>The routing configuration that belongs to a list of agent settings.\<close>

definition route_config :: "AgentBinding list \<Rightarrow> AgentSettings list \<Rightarrow> string \<Rightarrow> identity_links \<Rightarrow> RouteConfig" where
  "route_config bindings agents scope links = \<lparr>cfg_Bindings = bindings, cfg_AgentsList = map AgentConfig.truncate agents,
     cfg_DMScope = scope, cfg_IdentityLinks = links\<rparr>"

lemma truncate_simps [simp]: "a_ID (AgentConfig.truncate ac) = a_ID ac" "a_Default (AgentConfig.truncate ac) = a_Default ac"
  by (simp_all add: AgentConfig.truncate_def)

text \<open>Routing and the registry agree: when agents are configured, with identifiers of at most 64
  characters, the agent a message is routed to is registered, under its own identifier, and was
  built from one of the configured agents, so the message loop never has to fall back.\<close>

theorem routed_agent_registered:
  assumes "agents \<noteq> []" "\<forall>a \<in> set agents. length (trim_space (a_ID a)) \<le> 64"
  shows "let agentID = rt_AgentID (ResolveRoute (route_config bindings agents scope links) input) in
    \<exists>inst ac. GetAgent (NewAgentRegistry home tools agents defaults) agentID = Some inst \<and>
      ai_ID inst = agentID \<and> ac \<in> set agents \<and> inst = NewAgentInstance home tools (Some ac) defaults"
proof -
  let ?cfg = "route_config bindings agents scope links"
  have ne: "cfg_AgentsList ?cfg \<noteq> []" and short: "\<forall>a \<in> set (cfg_AgentsList ?cfg). length (trim_space (a_ID a)) \<le> 64"
    using assms by (auto simp: route_config_def)
  define rid where "rid = rt_AgentID (ResolveRoute ?cfg input)"
  have "\<forall>a \<in> set (cfg_AgentsList ?cfg). id_stable (NormalizeAgentID (a_ID a))"
    using short agent_id.norm_short by (simp add: MaxAgentIDLength_def)
  then have "\<exists>a \<in> set (cfg_AgentsList ?cfg). NormalizeAgentID (a_ID a) = rid"
    using pickAgentID_configured [OF ne] unfolding rid_def by (simp only: ResolveRoute_spec rt_AgentID_choose)
  then obtain a where a: "a \<in> set agents" "NormalizeAgentID (a_ID a) = rid" by (auto simp: route_config_def)
  have "NormalizeAgentID rid = rid"
    using agent_id.norm_idem_short [of "a_ID a"] a assms(2) by (simp add: MaxAgentIDLength_def)
  moreover obtain ac where "ac \<in> set agents" "NormalizeAgentID (a_ID ac) = rid"
    "map_of (NewAgentRegistry home tools agents defaults) rid = Some (NewAgentInstance home tools (Some ac) defaults)"
    using registry_get [OF a(1), of home tools defaults] a(2) by auto
  ultimately show ?thesis unfolding rid_def [symmetric] Let_def GetAgent_def
    by (auto simp: NewAgentInstance_def Let_def)
qed

definition sample_agent :: "string \<Rightarrow> bool \<Rightarrow> AgentSettings" where
  "sample_agent i d = implicit_agent\<lparr>a_ID := i, a_Default := d\<rparr>"

definition sample_defaults :: AgentDefaults where
  "sample_defaults = \<lparr>ad_Workspace = ''~/w'', ad_Provider = ''openai'', ad_ModelName = ''gpt-4o'', ad_Model = [],
     ad_ModelFallbacks = [], ad_MaxTokens = 0, ad_Temperature = None, ad_MaxToolIterations = 0\<rparr>"

theorem routed_agent_registered_witness:
  "let agentID = rt_AgentID (ResolveRoute (route_config [] [sample_agent ''Ops Team'' False] [] []) sample_input) in
   agentID = ''ops-team'' \<and>
   (\<exists>inst. GetAgent (NewAgentRegistry ''/h'' ([] :: unit ToolRegistry) [sample_agent ''Ops Team'' False] sample_defaults) agentID = Some inst)"
proof -
  have ne: "[sample_agent ''Ops Team'' False] \<noteq> []" by simp
  have s: "\<forall>a \<in> set [sample_agent ''Ops Team'' False]. length (trim_space (a_ID a)) \<le> 64" by code_simp
  have i: "rt_AgentID (ResolveRoute (route_config [] [sample_agent ''Ops Team'' False] [] []) sample_input) = ''ops-team''"
    by code_simp
  show ?thesis
    using routed_agent_registered [OF ne s, of "[]" "[]" "[]" sample_input "''/h''" "[] :: unit ToolRegistry" sample_defaults] i
    unfolding Let_def by blast
qed

text \<open>Spawning is allowed exactly to the agents on the parent's list, up to normalisation, or to
  all with a star; an unknown parent, a parent without a list or with an empty one spawns nothing.\<close>

theorem CanSpawnSubagent_iff:
  "CanSpawnSubagent r parent target \<longleftrightarrow>
     (\<exists>p allow. map_of r (NormalizeAgentID parent) = Some p \<and> ai_AllowAgents p = Some allow \<and>
        (''*'' \<in> set allow \<or> NormalizeAgentID target \<in> NormalizeAgentID ` set allow))"
  by (force simp: CanSpawnSubagent_def GetAgent_def list_ex_iff image_iff split: option.splits)

text \<open>The default flag of an agent is ignored by \<open>GetDefaultAgent\<close>: if no agent is called main, the
  default agent is whichever the iteration over the map yields first, although routing sends
  unbound messages to the agent that is marked as default. The two disagree on a configuration
  with two agents.\<close>

theorem default_agent_ignores_flag:
  "let agents = [sample_agent ''ops'' True, sample_agent ''dev'' False];
       r = NewAgentRegistry ''/h'' ([] :: unit ToolRegistry) agents sample_defaults
   in rt_AgentID (ResolveRoute (route_config [] agents [] []) sample_input) = ''ops'' \<and>
      map_of (rev r) = map_of r \<and>
      map_option ai_ID (GetDefaultAgent r) = Some ''ops'' \<and> map_option ai_ID (GetDefaultAgent (rev r)) = Some ''dev''"
proof -
  let ?agents = "[sample_agent ''ops'' True, sample_agent ''dev'' False]"
  let ?r = "NewAgentRegistry ''/h'' ([] :: unit ToolRegistry) ?agents sample_defaults"
  have 1: "rt_AgentID (ResolveRoute (route_config [] ?agents [] []) sample_input) = ''ops''" by code_simp
  have "distinct (map fst ?r)" by code_simp
  then have 2: "map_of (rev ?r) = map_of ?r"
    using map_of_inject_set [of "rev ?r" ?r] by (simp add: rev_map [symmetric])
  have 3: "map_option ai_ID (GetDefaultAgent ?r) = Some ''ops''" "map_option ai_ID (GetDefaultAgent (rev ?r)) = Some ''dev''"
    by code_simp+
  show ?thesis unfolding Let_def by (intro conjI 1 2 3)
qed

end
