(* ===== verification/Agent_Loop.thy ===== *)
theory Agent_Loop
  imports Agent
begin

text \<open>
  The agent loop, \<^verbatim>\<open>pkg/agent/loop.go\<close>. The state of the loop is a record: the sessions and
  session files of every agent, what was published to the outbound side of the bus, the cooldown
  tracker of the fallback chain, the last active channel, the running summarisations, the world the
  tools act on, and, as a record of the history, the requests sent to the provider. What the loop
  meets outside is \<open>env\<close>: the outcome of every LLM call (numbered from 0), the prompts the context
  builder returns, the outcome of every save. The clock shows \<open>ev_now\<close> during a turn.
\<close>

record 'w LoopState =
  ls_world :: 'w
  ls_sessions :: "string \<Rightarrow> SessionManager"
  ls_dir :: "string \<Rightarrow> dir"
  ls_outbound :: "OutboundMessage list"
  ls_tracker :: CooldownTracker
  ls_lastChannel :: string
  ls_summarizing :: "string set"
  ls_requests :: "Message list list"
  ls_saves :: nat

record env =
  ev_llm :: "nat \<Rightarrow> Message list \<Rightarrow> ToolDefinition list \<Rightarrow> json_obj \<Rightarrow> nat \<Rightarrow> LLMResponse attempt_env"
  ev_static :: "nat \<Rightarrow> string"
  ev_dynamic :: "nat \<Rightarrow> string \<Rightarrow> string \<Rightarrow> string"
  ev_save :: "nat \<Rightarrow> save_fault \<times> string"
  ev_now :: time
  ev_codec :: json_codec

record processOptions =
  po_SessionKey :: string
  po_Channel :: string
  po_ChatID :: string
  po_UserMessage :: string
  po_DefaultResponse :: string
  po_EnableSummary :: bool
  po_SendResponse :: bool
  po_NoHistory :: bool

subsection \<open>Effects on the state\<close>

definition publish :: "string \<Rightarrow> string \<Rightarrow> string \<Rightarrow> 'w LoopState \<Rightarrow> 'w LoopState" where
  "publish channel chatID content st =
     st\<lparr>ls_outbound := ls_outbound st @ [\<lparr>om_Channel = channel, om_ChatID = chatID, om_Content = content\<rparr>]\<rparr>"

definition history_of :: "'w LoopState \<Rightarrow> string \<Rightarrow> string \<Rightarrow> Message list" where
  "history_of st agentID key = GetHistory (ls_sessions st agentID) key"

definition summary_of :: "'w LoopState \<Rightarrow> string \<Rightarrow> string \<Rightarrow> string" where
  "summary_of st agentID key = GetSummary (ls_sessions st agentID) key"

definition set_sessions :: "string \<Rightarrow> SessionManager \<Rightarrow> 'w LoopState \<Rightarrow> 'w LoopState" where
  "set_sessions agentID sm st = st\<lparr>ls_sessions := (ls_sessions st)(agentID := sm)\<rparr>"

definition add_message :: "env \<Rightarrow> string \<Rightarrow> string \<Rightarrow> Message \<Rightarrow> 'w LoopState \<Rightarrow> 'w LoopState" where
  "add_message env agentID key m st =
     set_sessions agentID (AddFullMessage (ls_sessions st agentID) (ev_now env) (ev_now env) key m) st"

definition save_session :: "env \<Rightarrow> string \<Rightarrow> string \<Rightarrow> 'w LoopState \<Rightarrow> 'w LoopState" where
  "save_session env agentID key st =
     (let (fault, tmp) = ev_save env (ls_saves st);
          d = fst (Save (ls_sessions st agentID) fault tmp (ls_dir st agentID) key)
      in st\<lparr>ls_dir := (ls_dir st)(agentID := d), ls_saves := Suc (ls_saves st)\<rparr>)"

definition build_messages :: "env \<Rightarrow> 'w LoopState \<Rightarrow> processOptions \<Rightarrow> Message list \<Rightarrow> string \<Rightarrow> string \<Rightarrow> Message list" where
  "build_messages env st opts history summary current =
     BuildMessages (ev_static env (length (ls_requests st)))
       (ev_dynamic env (length (ls_requests st)) (po_Channel opts) (po_ChatID opts)) history summary current"

subsection \<open>Compression and summaries\<close>

definition compression_note :: "int \<Rightarrow> string" where
  "compression_note droppedCount =
     nl2 @ ''[System Note: Emergency compression dropped '' @ itoa droppedCount @ '' oldest messages due to context limit]''"

definition compress_history :: "Message list \<Rightarrow> Message list" where
  "compress_history history =
     (let conversation = butlast (tl history); mid = length conversation div 2;
          h0 = hd history; enhanced = h0\<lparr>msg_Content := msg_Content h0 @ compression_note (int mid)\<rparr>
      in [enhanced] @ drop mid conversation @ [last history])"

definition forceCompression :: "env \<Rightarrow> 'w AgentInstance \<Rightarrow> string \<Rightarrow> 'w LoopState \<Rightarrow> 'w LoopState" where
  "forceCompression env agent sessionKey st =
     (let history = history_of st (ai_ID agent) sessionKey in
      if length history \<le> 4 then st
      else save_session env (ai_ID agent) sessionKey
             (set_sessions (ai_ID agent)
                (SetHistory (ls_sessions st (ai_ID agent)) (ev_now env) sessionKey (compress_history history)) st))"

text \<open>The number of runes of a valid UTF-8 text: its bytes that do not continue a rune.\<close>

definition rune_count :: "string \<Rightarrow> int" where
  "rune_count s = int (length (filter (\<lambda>c. of_char c < (128 :: int) \<or> (192 :: int) \<le> of_char c) s))"

definition estimateTokens :: "Message list \<Rightarrow> int" where
  "estimateTokens messages = sum_list (map (\<lambda>m. rune_count (msg_Content m)) messages) * 2 div 5"

definition needs_summary :: "'w AgentInstance \<Rightarrow> Message list \<Rightarrow> bool" where
  "needs_summary agent history \<longleftrightarrow>
     20 < length history \<or> ai_ContextWindow agent * 75 div 100 < estimateTokens history"

text \<open>\<open>maybeSummarize\<close> up to the start of the goroutine: the key is marked, at most once.\<close>

definition maybeSummarize :: "'w AgentInstance \<Rightarrow> string \<Rightarrow> string \<Rightarrow> string \<Rightarrow> 'w LoopState \<Rightarrow> 'w LoopState" where
  "maybeSummarize agent sessionKey channel chatID st =
     (let summarizeKey = ai_ID agent @ '':'' @ sessionKey in
      if needs_summary agent (history_of st (ai_ID agent) sessionKey) \<and> summarizeKey \<notin> ls_summarizing st
      then (let st = st\<lparr>ls_summarizing := insert summarizeKey (ls_summarizing st)\<rparr>
            in if IsInternalChannel channel then st
               else publish channel chatID ''Memory threshold reached. Optimizing conversation history...'' st)
      else st)"

text \<open>The messages worth summarising, and whether an oversized one was left out.\<close>

definition summary_candidate :: "Message \<Rightarrow> bool" where
  "summary_candidate m \<longleftrightarrow> msg_Role m = ''user'' \<or> msg_Role m = ''assistant''"

definition oversized :: "'w AgentInstance \<Rightarrow> Message \<Rightarrow> bool" where
  "oversized agent m \<longleftrightarrow> ai_ContextWindow agent div 2 < int (length (msg_Content m)) div 2"

definition summarize_prompt :: "Message list \<Rightarrow> string \<Rightarrow> string" where
  "summarize_prompt batch existingSummary =
     ''Provide a concise summary of this conversation segment, preserving core context and key points.'' @ [nl] @
     (if existingSummary \<noteq> [] then ''Existing context: '' @ existingSummary @ [nl] else []) @
     [nl] @ ''CONVERSATION:'' @ [nl] @ concat (map (\<lambda>m. msg_Role m @ '': '' @ msg_Content m @ [nl]) batch)"

text \<open>\<open>ask\<close> is the provider's answer to a one-message prompt; a failed batch counts as empty.\<close>

definition summarizeBatch :: "(string \<Rightarrow> GoError + string) \<Rightarrow> Message list \<Rightarrow> string \<Rightarrow> string" where
  "summarizeBatch ask batch existingSummary =
     (case ask (summarize_prompt batch existingSummary) of Inr s \<Rightarrow> s | Inl _ \<Rightarrow> [])"

definition summary_of_history :: "(string \<Rightarrow> GoError + string) \<Rightarrow> 'w AgentInstance \<Rightarrow> Message list \<Rightarrow> string \<Rightarrow> string" where
  "summary_of_history ask agent history summary =
     (if length history \<le> 4 then []
      else let toSummarize = take (length history - 4) history;
               relevant = filter summary_candidate toSummarize;
               validMessages = filter (\<lambda>m. \<not> oversized agent m) relevant;
               omitted = list_ex (oversized agent) relevant
           in if validMessages = [] then []
              else let finalSummary =
                     (if 10 < length validMessages then
                        (let mid = length validMessages div 2;
                             s1 = summarizeBatch ask (take mid validMessages) [];
                             s2 = summarizeBatch ask (drop mid validMessages) []
                         in case ask (''Merge these two conversation summaries into one cohesive summary:'' @ nl2 @
                                    ''1: '' @ s1 @ nl2 @ ''2: '' @ s2) of
                              Inr s \<Rightarrow> s
                            | Inl _ \<Rightarrow> s1 @ '' '' @ s2)
                      else summarizeBatch ask validMessages summary)
                   in if omitted \<and> finalSummary \<noteq> []
                      then finalSummary @ [nl] @ ''[Note: Some oversized messages were omitted from this summary for efficiency.]''
                      else finalSummary)"

text \<open>Storing the result, on the session as it is when the provider has answered.\<close>

definition commit_summary :: "env \<Rightarrow> string \<Rightarrow> string \<Rightarrow> string \<Rightarrow> 'w LoopState \<Rightarrow> 'w LoopState" where
  "commit_summary env agentID sessionKey finalSummary st =
     (if finalSummary = [] then st
      else let sm = ls_sessions st agentID;
               sm = SetSummary sm (ev_now env) sessionKey finalSummary;
               sm = TruncateHistory sm (ev_now env) sessionKey 4
           in save_session env agentID sessionKey (set_sessions agentID sm st))"

text \<open>\<open>summarizeSession\<close> when nothing else happens meanwhile; the goroutine also clears its mark.\<close>

definition summarizeSession :: "env \<Rightarrow> (string \<Rightarrow> GoError + string) \<Rightarrow> 'w AgentInstance \<Rightarrow> string \<Rightarrow> 'w LoopState \<Rightarrow> 'w LoopState" where
  "summarizeSession env ask agent sessionKey st =
     commit_summary env (ai_ID agent) sessionKey
       (summary_of_history ask agent (history_of st (ai_ID agent) sessionKey) (summary_of st (ai_ID agent) sessionKey)) st"

definition summarize_done :: "'w AgentInstance \<Rightarrow> string \<Rightarrow> 'w LoopState \<Rightarrow> 'w LoopState" where
  "summarize_done agent sessionKey st =
     st\<lparr>ls_summarizing := ls_summarizing st - {ai_ID agent @ '':'' @ sessionKey}\<rparr>"

subsection \<open>Calling the LLM\<close>

definition llm_options :: "'w AgentInstance \<Rightarrow> json_obj" where
  "llm_options agent = [(''max_tokens'', JNum (itoa (ai_MaxTokens agent))), (''temperature'', JNum (ai_Temperature agent)),
     (''prompt_cache_key'', JStr (ai_ID agent))]"

definition callLLM :: "env \<Rightarrow> 'w AgentInstance \<Rightarrow> ToolDefinition list \<Rightarrow> Message list \<Rightarrow> 'w LoopState \<Rightarrow>
    'w LoopState \<times> (GoError + LLMResponse)" where
  "callLLM env agent defs messages st =
     (let oracle = ev_llm env (length (ls_requests st)) messages defs (llm_options agent);
          st = st\<lparr>ls_requests := ls_requests st @ [messages]\<rparr>
      in if 1 < length (ai_Candidates agent)
         then (case Fallback.Execute oracle (ls_tracker st) (ai_Candidates agent) of
                 (ct, calls, Inl err) \<Rightarrow> (st\<lparr>ls_tracker := ct\<rparr>, Inl err)
               | (ct, calls, Inr fbResult) \<Rightarrow> (st\<lparr>ls_tracker := ct\<rparr>, Inr (fr_Response fbResult)))
         else (st, ae_result (oracle 0)))"

definition is_context_error :: "GoError \<Rightarrow> bool" where
  "is_context_error err =
     (let errMsg = to_lower (error_text err)
      in contains errMsg ''token'' \<or> contains errMsg ''context'' \<or> contains errMsg ''invalidparameter'' \<or>
         contains errMsg ''length'')"

text \<open>Compression before a retry: the notice on the first retry, the compression, the new messages.\<close>

definition compress_and_rebuild :: "env \<Rightarrow> 'w AgentInstance \<Rightarrow> processOptions \<Rightarrow> bool \<Rightarrow> 'w LoopState \<Rightarrow>
    'w LoopState \<times> Message list" where
  "compress_and_rebuild env agent opts first st =
     (let st = (if first \<and> \<not> IsInternalChannel (po_Channel opts)
                then publish (po_Channel opts) (po_ChatID opts) ''Context window exceeded. Compressing history and retrying...'' st
                else st);
          st = forceCompression env agent (po_SessionKey opts) st
      in (st, build_messages env st opts (history_of st (ai_ID agent) (po_SessionKey opts))
                (summary_of st (ai_ID agent) (po_SessionKey opts)) []))"

text \<open>The retry loop; \<open>left\<close> retries are left of \<open>maxRetries = 2\<close>.\<close>

fun llm_retry :: "nat \<Rightarrow> env \<Rightarrow> 'w AgentInstance \<Rightarrow> processOptions \<Rightarrow> ToolDefinition list \<Rightarrow> Message list \<Rightarrow>
    'w LoopState \<Rightarrow> 'w LoopState \<times> Message list \<times> (GoError + LLMResponse)" where
  "llm_retry left env agent opts defs messages st =
     (case callLLM env agent defs messages st of
        (st, Inr response) \<Rightarrow> (st, messages, Inr response)
      | (st, Inl err) \<Rightarrow>
          (case left of
             Suc n \<Rightarrow>
               if is_context_error err
               then (let (st, messages) = compress_and_rebuild env agent opts (left = 2) st
                     in llm_retry n env agent opts defs messages st)
               else (st, messages, Inl err)
           | 0 \<Rightarrow> (st, messages, Inl err)))"

declare llm_retry.simps [simp del]

subsection \<open>Tool calls\<close>

definition agent_call :: "ToolCall \<Rightarrow> string \<Rightarrow> ToolCall" where
  "agent_call tc argumentsJSON =
     (let sig = (case tc_Function tc of Some f \<Rightarrow> fn_ThoughtSignature f | None \<Rightarrow> [])
      in \<lparr>tc_ID = tc_ID tc, tc_Type = ''function'',
          tc_Function = Some \<lparr>fn_Name = tc_Name tc, fn_Arguments = argumentsJSON, fn_ThoughtSignature = sig\<rparr>,
          tc_Name = tc_Name tc, tc_Arguments = None, tc_ThoughtSignature = sig, tc_ExtraContent = tc_ExtraContent tc\<rparr>)"

definition assistant_message :: "LLMResponse \<Rightarrow> ToolCall list \<Rightarrow> Message" where
  "assistant_message response calls =
     (text_message ''assistant'' (lr_Content response))\<lparr>msg_ReasoningContent := lr_ReasoningContent response,
        msg_ToolCalls := calls\<rparr>"

text \<open>Executing one call: the tool, the message to the user, the result in the session.\<close>

definition agent_exec :: "env \<Rightarrow> 'w AgentInstance \<Rightarrow> processOptions \<Rightarrow> ToolCall \<Rightarrow> 'w LoopState \<Rightarrow> 'w LoopState \<times> ToolResult" where
  "agent_exec env agent opts tc st =
     (let (w, tr) = ExecuteWithContext (ai_Tools agent) (tc_Name tc) (tc_Arguments tc) (po_Channel opts) (po_ChatID opts) True (ls_world st);
          st = st\<lparr>ls_world := w\<rparr>;
          st = (if \<not> tr_Silent tr \<and> tr_ForUser tr \<noteq> [] \<and> po_SendResponse opts
                then publish (po_Channel opts) (po_ChatID opts) (tr_ForUser tr) st else st)
      in (add_message env (ai_ID agent) (po_SessionKey opts) (tool_message (content_for_llm tr) (tc_ID tc)) st, tr))"

subsection \<open>The iteration\<close>

definition llm_iteration :: "env \<Rightarrow> 'w AgentInstance \<Rightarrow> processOptions \<Rightarrow> Message list \<Rightarrow> 'w LoopState \<Rightarrow> 'w LoopState iteration" where
  "llm_iteration env agent opts messages st =
     (case llm_retry 2 env agent opts (ToProviderDefs (ai_Tools agent)) messages st of
        (st, messages, Inl err) \<Rightarrow> Finished st (Inl (ErrWrap ''LLM call failed after retries: '' err))
      | (st, messages, Inr response) \<Rightarrow>
          if lr_ToolCalls response = [] then Finished st (Inr (lr_Content response))
          else let normalized = map (NormalizeToolCall (ev_codec env)) (lr_ToolCalls response) in
            case build_calls (ev_codec env) agent_call normalized of
              Inl err \<Rightarrow> Finished st (Inl err)
            | Inr calls \<Rightarrow>
                let assistantMsg = assistant_message response calls;
                    st = add_message env (ai_ID agent) (po_SessionKey opts) assistantMsg st in
                (case exec_calls (ev_codec env) (agent_exec env agent opts) normalized st of
                   (st, msgs, Some err) \<Rightarrow> Finished st (Inl err)
                 | (st, msgs, None) \<Rightarrow> Again st (messages @ assistantMsg # msgs)))"

fun llm_loop :: "nat \<Rightarrow> env \<Rightarrow> 'w AgentInstance \<Rightarrow> processOptions \<Rightarrow> Message list \<Rightarrow> 'w LoopState \<Rightarrow>
    'w LoopState \<times> (GoError + string)" where
  "llm_loop 0 env agent opts messages st = (st, Inr [])"
| "llm_loop (Suc n) env agent opts messages st =
     (case llm_iteration env agent opts messages st of
        Finished st r \<Rightarrow> (st, r)
      | Again st messages \<Rightarrow> llm_loop n env agent opts messages st)"

definition runLLMIteration :: "env \<Rightarrow> 'w AgentInstance \<Rightarrow> processOptions \<Rightarrow> Message list \<Rightarrow> 'w LoopState \<Rightarrow>
    'w LoopState \<times> (GoError + string)" where
  "runLLMIteration env agent opts messages st = llm_loop (nat (ai_MaxIterations agent)) env agent opts messages st"

subsection \<open>One turn of an agent\<close>

definition set_context :: "'w ToolRegistry \<Rightarrow> string \<Rightarrow> string \<Rightarrow> string \<Rightarrow> 'w \<Rightarrow> 'w" where
  "set_context r channel chatID name w =
     (case Get r name of
        None \<Rightarrow> w
      | Some t \<Rightarrow> (case tl_SetContext t of None \<Rightarrow> w | Some f \<Rightarrow> f channel chatID w))"

definition updateToolContexts :: "'w AgentInstance \<Rightarrow> string \<Rightarrow> string \<Rightarrow> 'w \<Rightarrow> 'w" where
  "updateToolContexts agent channel chatID w =
     fold (set_context (ai_Tools agent) channel chatID) [''message'', ''spawn'', ''subagent''] w"

definition record_channel :: "processOptions \<Rightarrow> 'w LoopState \<Rightarrow> 'w LoopState" where
  "record_channel opts st =
     (if po_Channel opts \<noteq> [] \<and> po_ChatID opts \<noteq> [] \<and> \<not> IsInternalChannel (po_Channel opts)
      then st\<lparr>ls_lastChannel := po_Channel opts @ '':'' @ po_ChatID opts\<rparr> else st)"

definition runAgentLoop :: "env \<Rightarrow> 'w AgentInstance \<Rightarrow> processOptions \<Rightarrow> 'w LoopState \<Rightarrow> 'w LoopState \<times> (GoError + string)" where
  "runAgentLoop env agent opts st =
     (let st = record_channel opts st;
          st = st\<lparr>ls_world := updateToolContexts agent (po_Channel opts) (po_ChatID opts) (ls_world st)\<rparr>;
          history = (if po_NoHistory opts then [] else history_of st (ai_ID agent) (po_SessionKey opts));
          summary = (if po_NoHistory opts then [] else summary_of st (ai_ID agent) (po_SessionKey opts));
          messages = build_messages env st opts history summary (po_UserMessage opts);
          st = add_message env (ai_ID agent) (po_SessionKey opts) (text_message ''user'' (po_UserMessage opts)) st
      in case runLLMIteration env agent opts messages st of
           (st, Inl err) \<Rightarrow> (st, Inl err)
         | (st, Inr finalContent) \<Rightarrow>
             let finalContent = (if finalContent = [] then po_DefaultResponse opts else finalContent);
                 st = add_message env (ai_ID agent) (po_SessionKey opts) (text_message ''assistant'' finalContent) st;
                 st = save_session env (ai_ID agent) (po_SessionKey opts) st;
                 st = (if po_EnableSummary opts
                       then maybeSummarize agent (po_SessionKey opts) (po_Channel opts) (po_ChatID opts) st else st);
                 st = (if po_SendResponse opts then publish (po_Channel opts) (po_ChatID opts) finalContent st else st)
             in (st, Inr finalContent))"

subsection \<open>Dispatching messages\<close>

definition extractPeer :: "InboundMessage \<Rightarrow> RoutePeer option" where
  "extractPeer msg =
     (let peerKind = map_get (im_Metadata msg) ''peer_kind''; peerID = map_get (im_Metadata msg) ''peer_id'' in
      if peerKind = [] then None
      else Some \<lparr>Kind = peerKind,
             ID = (if peerID = [] then (if peerKind = ''direct'' then im_SenderID msg else im_ChatID msg) else peerID)\<rparr>)"

definition extractParentPeer :: "InboundMessage \<Rightarrow> RoutePeer option" where
  "extractParentPeer msg =
     (let parentKind = map_get (im_Metadata msg) ''parent_peer_kind''; parentID = map_get (im_Metadata msg) ''parent_peer_id'' in
      if parentKind = [] \<or> parentID = [] then None else Some \<lparr>Kind = parentKind, ID = parentID\<rparr>)"

text \<open>\<open>channels\<close> are the enabled channels, \<open>None\<close> before the channel manager is set.\<close>

definition show_command :: "'w AgentRegistry \<Rightarrow> InboundMessage \<Rightarrow> string list \<Rightarrow> string" where
  "show_command reg msg args =
     (case args of
        [] \<Rightarrow> ''Usage: /show [model|channel|agents]''
      | target # _ \<Rightarrow>
          if target = ''model'' then
            (case GetDefaultAgent reg of
               None \<Rightarrow> ''No default agent configured''
             | Some agent \<Rightarrow> ''Current model: '' @ ai_Model agent)
          else if target = ''channel'' then ''Current channel: '' @ im_Channel msg
          else if target = ''agents'' then ''Registered agents: '' @ join '', '' (ListAgentIDs reg)
          else ''Unknown show target: '' @ target)"

definition list_command :: "'w AgentRegistry \<Rightarrow> string list option \<Rightarrow> string list \<Rightarrow> string" where
  "list_command reg channels args =
     (case args of
        [] \<Rightarrow> ''Usage: /list [models|channels|agents]''
      | target # _ \<Rightarrow>
          if target = ''models'' then ''Available models: configured in config.json per agent''
          else if target = ''channels'' then
            (case channels of
               None \<Rightarrow> ''Channel manager not initialized''
             | Some cs \<Rightarrow> if cs = [] then ''No channels enabled'' else ''Enabled channels: '' @ join '', '' cs)
          else if target = ''agents'' then ''Registered agents: '' @ join '', '' (ListAgentIDs reg)
          else ''Unknown list target: '' @ target)"

text \<open>The default agent is a pointer into the registry, so the switch changes the registered instance.\<close>

definition switch_model :: "'w AgentRegistry \<Rightarrow> string \<Rightarrow> 'w AgentRegistry \<times> string" where
  "switch_model reg value =
     (case map_of reg ''main'' of
        Some agent \<Rightarrow>
          (AList.update ''main'' (agent\<lparr>ai_Model := value\<rparr>) reg, ''Switched model from '' @ ai_Model agent @ '' to '' @ value)
      | None \<Rightarrow>
          (case reg of
             [] \<Rightarrow> (reg, ''No default agent configured'')
           | (k, agent) # rest \<Rightarrow>
               ((k, agent\<lparr>ai_Model := value\<rparr>) # rest, ''Switched model from '' @ ai_Model agent @ '' to '' @ value)))"

definition switch_command :: "'w AgentRegistry \<Rightarrow> string list option \<Rightarrow> string list \<Rightarrow> 'w AgentRegistry \<times> string" where
  "switch_command reg channels args =
     (case args of
        target # kw # value # _ \<Rightarrow>
          if kw \<noteq> ''to'' then (reg, ''Usage: /switch [model|channel] to <name>'')
          else if target = ''model'' then switch_model reg value
          else if target = ''channel'' then
            (reg, (case channels of
               None \<Rightarrow> ''Channel manager not initialized''
             | Some cs \<Rightarrow>
                 if value \<notin> set cs \<and> value \<noteq> ''cli'' then ''Channel '' @ [CHR 0x27] @ value @ [CHR 0x27] @ '' not found or not enabled''
                 else ''Switched target channel to '' @ value))
          else (reg, ''Unknown switch target: '' @ target)
      | _ \<Rightarrow> (reg, ''Usage: /switch [model|channel] to <name>''))"

definition handleCommand :: "'w AgentRegistry \<Rightarrow> string list option \<Rightarrow> InboundMessage \<Rightarrow> 'w AgentRegistry \<times> string option" where
  "handleCommand reg channels msg =
     (let content = trim_space (im_Content msg) in
      if \<not> has_prefix ''/'' content then (reg, None)
      else case Prelude.fields content of
             [] \<Rightarrow> (reg, None)
           | cmd # args \<Rightarrow>
               if cmd = ''/show'' then (reg, Some (show_command reg msg args))
               else if cmd = ''/list'' then (reg, Some (list_command reg channels args))
               else if cmd = ''/switch'' then (let (reg, s) = switch_command reg channels args in (reg, Some s))
               else (reg, None))"

definition apostrophe :: string where "apostrophe = [CHR 0x27]"

definition no_response :: string where
  "no_response = ''I'' @ apostrophe @ ''ve completed processing but have no response to give.''"

text \<open>The dereference of a nil agent panics; it is reported as this error.\<close>

definition nil_agent :: GoError where "nil_agent = ErrNew ''nil pointer dereference''"

definition run_with :: "env \<Rightarrow> 'w AgentInstance option \<Rightarrow> ('w AgentInstance \<Rightarrow> processOptions) \<Rightarrow> 'w LoopState \<Rightarrow>
    'w LoopState \<times> (GoError + string)" where
  "run_with env agent opts st = (case agent of None \<Rightarrow> (st, Inl nil_agent) | Some a \<Rightarrow> runAgentLoop env a (opts a) st)"

definition origin_of :: "InboundMessage \<Rightarrow> string \<times> string" where
  "origin_of msg =
     (case index_of '':'' (im_ChatID msg) of
        Some (Suc j) \<Rightarrow> (take (Suc j) (im_ChatID msg), drop (Suc j + 1) (im_ChatID msg))
      | _ \<Rightarrow> (''cli'', im_ChatID msg))"

definition processSystemMessage :: "env \<Rightarrow> 'w AgentRegistry \<Rightarrow> InboundMessage \<Rightarrow> 'w LoopState \<Rightarrow> 'w LoopState \<times> (GoError + string)" where
  "processSystemMessage env reg msg st =
     (if im_Channel msg \<noteq> ''system''
      then (st, Inl (ErrNew (''processSystemMessage called with non-system message channel: '' @ im_Channel msg)))
      else let (originChannel, originChatID) = origin_of msg in
        if IsInternalChannel originChannel then (st, Inr [])
        else run_with env (GetDefaultAgent reg) (\<lambda>agent.
          \<lparr>po_SessionKey = BuildAgentMainSessionKey (ai_ID agent), po_Channel = originChannel, po_ChatID = originChatID,
           po_UserMessage = ''[System: '' @ im_SenderID msg @ ''] '' @ im_Content msg,
           po_DefaultResponse = ''Background task completed.'', po_EnableSummary = False, po_SendResponse = True,
           po_NoHistory = False\<rparr>) st)"

definition message_route :: "RouteConfig \<Rightarrow> InboundMessage \<Rightarrow> ResolvedRoute" where
  "message_route cfg msg = ResolveRoute cfg
     \<lparr>in_Channel = im_Channel msg, in_AccountID = map_get (im_Metadata msg) ''account_id'', in_Peer = extractPeer msg,
      in_ParentPeer = extractParentPeer msg, in_GuildID = map_get (im_Metadata msg) ''guild_id'',
      in_TeamID = map_get (im_Metadata msg) ''team_id''\<rparr>"

definition message_session :: "RouteConfig \<Rightarrow> InboundMessage \<Rightarrow> string" where
  "message_session cfg msg =
     (if im_SessionKey msg \<noteq> [] \<and> has_prefix ''agent:'' (im_SessionKey msg) then im_SessionKey msg
      else rt_SessionKey (message_route cfg msg))"

definition message_options :: "InboundMessage \<Rightarrow> string \<Rightarrow> processOptions" where
  "message_options msg key = \<lparr>po_SessionKey = key, po_Channel = im_Channel msg, po_ChatID = im_ChatID msg,
     po_UserMessage = im_Content msg, po_DefaultResponse = no_response, po_EnableSummary = True,
     po_SendResponse = False, po_NoHistory = False\<rparr>"

definition processMessage :: "env \<Rightarrow> RouteConfig \<Rightarrow> string list option \<Rightarrow> InboundMessage \<Rightarrow>
    'w AgentRegistry \<times> 'w LoopState \<Rightarrow> ('w AgentRegistry \<times> 'w LoopState) \<times> (GoError + string)" where
  "processMessage env cfg channels msg al =
     (let (reg, st) = al in
      if im_Channel msg = ''system'' then (let (st, r) = processSystemMessage env reg msg st in ((reg, st), r))
      else case handleCommand reg channels msg of
             (reg, Some response) \<Rightarrow> ((reg, st), Inr response)
           | (reg, None) \<Rightarrow>
               let agent = (case GetAgent reg (rt_AgentID (message_route cfg msg)) of
                              Some a \<Rightarrow> Some a | None \<Rightarrow> GetDefaultAgent reg);
                   (st, r) = run_with env agent (\<lambda>a. message_options msg (message_session cfg msg)) st
               in ((reg, st), r))"

definition ProcessDirectWithChannel :: "env \<Rightarrow> RouteConfig \<Rightarrow> string list option \<Rightarrow> string \<Rightarrow> string \<Rightarrow> string \<Rightarrow> string \<Rightarrow>
    'w AgentRegistry \<times> 'w LoopState \<Rightarrow> ('w AgentRegistry \<times> 'w LoopState) \<times> (GoError + string)" where
  "ProcessDirectWithChannel env cfg channels content sessionKey channel chatID al =
     processMessage env cfg channels
       \<lparr>im_Channel = channel, im_SenderID = ''cron'', im_ChatID = chatID, im_Content = content, im_Media = [],
        im_SessionKey = sessionKey, im_Metadata = []\<rparr> al"

definition ProcessDirect :: "env \<Rightarrow> RouteConfig \<Rightarrow> string list option \<Rightarrow> string \<Rightarrow> string \<Rightarrow>
    'w AgentRegistry \<times> 'w LoopState \<Rightarrow> ('w AgentRegistry \<times> 'w LoopState) \<times> (GoError + string)" where
  "ProcessDirect env cfg channels content sessionKey al =
     ProcessDirectWithChannel env cfg channels content sessionKey ''cli'' ''direct'' al"

definition ProcessHeartbeat :: "env \<Rightarrow> 'w AgentRegistry \<Rightarrow> string \<Rightarrow> string \<Rightarrow> string \<Rightarrow> 'w LoopState \<Rightarrow>
    'w LoopState \<times> (GoError + string)" where
  "ProcessHeartbeat env reg content channel chatID st =
     run_with env (GetDefaultAgent reg) (\<lambda>a.
       \<lparr>po_SessionKey = ''heartbeat'', po_Channel = channel, po_ChatID = chatID, po_UserMessage = content,
        po_DefaultResponse = no_response, po_EnableSummary = False, po_SendResponse = False, po_NoHistory = True\<rparr>) st"

text \<open>One round of \<open>Run\<close> on a consumed message; \<open>sent\<close> tells whether the message tool in a registry has
  sent something since its context was set.\<close>

definition Run_round :: "env \<Rightarrow> RouteConfig \<Rightarrow> string list option \<Rightarrow> ('w \<Rightarrow> 'w AgentInstance \<Rightarrow> bool) \<Rightarrow> InboundMessage \<Rightarrow>
    'w AgentRegistry \<times> 'w LoopState \<Rightarrow> 'w AgentRegistry \<times> 'w LoopState" where
  "Run_round env cfg channels sent msg al =
     (let ((reg, st), r) = processMessage env cfg channels msg al;
          response = (case r of Inr s \<Rightarrow> s | Inl err \<Rightarrow> ''Error processing message: '' @ error_text err);
          alreadySent = (case GetDefaultAgent reg of None \<Rightarrow> False | Some a \<Rightarrow> sent (ls_world st) a)
      in if response \<noteq> [] \<and> \<not> alreadySent
         then (reg, publish (im_Channel msg) (im_ChatID msg) response st) else (reg, st))"

subsection \<open>Histories that compaction can produce\<close>

text \<open>The end of a conversation in which every tool call is answered, possibly with one arbitrary
  message in front of it.\<close>

definition compacted :: "Message list \<Rightarrow> bool" where
  "compacted h \<longleftrightarrow> (\<exists>full n. answered [] full \<and> n \<le> length full \<and> (h = drop n full \<or> (\<exists>m. h = m # drop n full)))"

lemma compactedI: "answered [] full \<Longrightarrow> n \<le> length full \<Longrightarrow> compacted (drop n full)"
  "answered [] full \<Longrightarrow> n \<le> length full \<Longrightarrow> compacted (m # drop n full)"
  by (auto simp: compacted_def)

lemma compacted_Nil [simp]: "compacted []"
  using compactedI(1) [of "[]" 0] by simp

lemma compacted_append:
  assumes "compacted h" "answered [] t"
  shows "compacted (h @ t)"
proof -
  obtain full n where f: "answered [] full" "n \<le> length full" "h = drop n full \<or> (\<exists>m. h = m # drop n full)"
    using assms(1) by (auto simp: compacted_def)
  have "answered [] (full @ t)" using f(1) assms(2) by (rule answered_append)
  moreover have "drop n (full @ t) = drop n full @ t" using f(2) by simp
  ultimately show ?thesis using f(2,3) compactedI [of "full @ t" n] by fastforce
qed

lemma compacted_tl:
  assumes "compacted h" "k < length h"
  shows "compacted (x # drop k (tl h))"
proof -
  obtain full n where f: "answered [] full" "n \<le> length full" "h = drop n full \<or> (\<exists>m. h = m # drop n full)"
    using assms(1) by (auto simp: compacted_def)
  then have "drop k (tl h) = drop (n + Suc k) full \<or> drop k (tl h) = drop (n + k) full"
    by (auto simp: drop_Suc [symmetric] add.commute)
  moreover have "drop j full = drop (min j (length full)) full" for j by (simp add: min_def)
  ultimately show ?thesis using compactedI(2) [OF f(1)] by (metis min.cobounded2)
qed

lemma compacted_drop:
  assumes "compacted h"
  shows "compacted (drop k h)"
proof -
  obtain full n where f: "answered [] full" "n \<le> length full" "h = drop n full \<or> (\<exists>m. h = m # drop n full)"
    using assms(1) by (auto simp: compacted_def)
  have d: "compacted (drop j full)" for j
  proof -
    have "drop j full = drop (min j (length full)) full" by (simp add: min_def)
    then show ?thesis using compactedI(1) [OF f(1)] by (metis min.cobounded2)
  qed
  show ?thesis using f(3) assms d by (cases k) auto
qed

lemma compacted_lastn: "compacted h \<Longrightarrow> compacted (lastn n h)"
  by (simp add: lastn_def compacted_drop)

lemma compress_history_drop:
  assumes "2 \<le> length h"
  shows "\<exists>x. compress_history h = x # drop ((length h - 2) div 2) (tl h)"
proof -
  have "tl h \<noteq> []" using assms by (cases h) auto
  then have "tl h = butlast (tl h) @ [last h]" by (cases h) (auto simp: append_butlast_last_id)
  moreover have "length (butlast (tl h)) = length h - 2" by simp
  ultimately have "drop ((length h - 2) div 2) (tl h) = drop ((length h - 2) div 2) (butlast (tl h)) @ [last h]"
    by (metis diff_is_0_eq' div_le_dividend drop_0 drop_append)
  then show ?thesis by (auto simp: compress_history_def Let_def numeral_2_eq_2)
qed

lemma compacted_compress: "compacted h \<Longrightarrow> 2 \<le> length h \<Longrightarrow> compacted (compress_history h)"
  using compress_history_drop [of h] compacted_tl [of h "(length h - 2) div 2"] by auto

lemma compacted_request:
  assumes "compacted h"
  shows "answered [] (BuildMessages sp dyn h summary current)"
proof -
  have "answered [] (sanitizeHistoryForProvider h)"
  proof -
    obtain full n where f: "answered [] full" "h = drop n full \<or> (\<exists>m. h = m # drop n full)"
      using assms by (auto simp: compacted_def)
    then show ?thesis using repaired_suffix [OF f(1), of n] by auto
  qed
  moreover have "answered [] (if trim_space current \<noteq> [] then [text_message ''user'' current] else [])"
    by (simp add: text_message_def)
  ultimately show ?thesis
    using answered_append by (auto simp: BuildMessages_def system_message_def text_message_def Let_def)
qed

subsection \<open>Effects on histories and requests\<close>

lemma effects_simps [simp]:
  "history_of (publish c i t st) a k = history_of st a k" "ls_requests (publish c i t st) = ls_requests st"
  "history_of (save_session env b k' st) a k = history_of st a k" "ls_requests (save_session env b k' st) = ls_requests st"
  "history_of (st\<lparr>ls_world := w\<rparr>) a k = history_of st a k" "history_of (st\<lparr>ls_requests := rs\<rparr>) a k = history_of st a k"
  "history_of (st\<lparr>ls_tracker := ct\<rparr>) a k = history_of st a k" "history_of (st\<lparr>ls_summarizing := su\<rparr>) a k = history_of st a k"
  "history_of (record_channel opts st) a k = history_of st a k" "ls_requests (record_channel opts st) = ls_requests st"
  "ls_requests (add_message env b k' m st) = ls_requests st" "ls_requests (set_sessions b sm st) = ls_requests st"
  by (simp_all add: history_of_def publish_def save_session_def record_channel_def add_message_def set_sessions_def
      Let_def case_prod_beta)

lemma history_add_message:
  "history_of (add_message env b key m st) a k =
     (if a = b \<and> k = key then history_of st a k @ [m] else history_of st a k)"
  by (simp add: history_of_def add_message_def set_sessions_def lookup_simps)

lemma history_forceCompression:
  "history_of (forceCompression env agent key st) a k =
     (if a = ai_ID agent \<and> k = key \<and> 4 < length (history_of st a k) then compress_history (history_of st a k)
      else history_of st a k)"
proof -
  have unknown: "sm_sessions sm key = None \<Longrightarrow> GetHistory sm key = []" for sm
    by (simp add: GetHistory_def)
  show ?thesis
    by (auto simp: unknown forceCompression_def Let_def history_of_def set_sessions_def save_session_def case_prod_beta lookup_simps)
qed

definition loop_inv :: "'w LoopState \<Rightarrow> bool" where
  "loop_inv st \<longleftrightarrow> (\<forall>a k. compacted (history_of st a k)) \<and> (\<forall>r \<in> set (ls_requests st). answered [] r)"

lemma loop_inv_cong:
  "loop_inv st \<Longrightarrow> (\<And>a k. history_of st' a k = history_of st a k) \<Longrightarrow> ls_requests st' = ls_requests st \<Longrightarrow> loop_inv st'"
  by (simp add: loop_inv_def)

lemma loop_inv_add: "loop_inv st \<Longrightarrow> answered [] [m] \<Longrightarrow> loop_inv (add_message env b key m st)"
  by (auto simp: loop_inv_def history_add_message compacted_append)

lemma requests_forceCompression [simp]: "ls_requests (forceCompression env agent key st) = ls_requests st"
  by (simp add: forceCompression_def Let_def)

lemma loop_inv_forceCompression: "loop_inv st \<Longrightarrow> loop_inv (forceCompression env agent key st)"
  by (auto simp: loop_inv_def history_forceCompression intro!: compacted_compress)

lemma callLLM_facts:
  assumes "callLLM env agent defs messages st = (st', r)"
  shows "history_of st' a k = history_of st a k" "ls_requests st' = ls_requests st @ [messages]"
  using assms by (auto simp: callLLM_def Let_def split: if_splits prod.splits sum.splits)

lemma rebuild_facts:
  assumes "compress_and_rebuild env agent opts first st = (st', messages)" "loop_inv st"
  shows "loop_inv st'" "answered [] messages" "ls_requests st' = ls_requests st"
proof -
  define st1 where "st1 = (if first \<and> \<not> IsInternalChannel (po_Channel opts)
      then publish (po_Channel opts) (po_ChatID opts) ''Context window exceeded. Compressing history and retrying...'' st else st)"
  have st1: "st' = forceCompression env agent (po_SessionKey opts) st1" "st1 = st \<or> (\<exists>c i t. st1 = publish c i t st)"
    and m: "messages = build_messages env st' opts (history_of st' (ai_ID agent) (po_SessionKey opts))
       (summary_of st' (ai_ID agent) (po_SessionKey opts)) []"
    using assms(1) unfolding compress_and_rebuild_def Let_def st1_def [symmetric] by (auto simp: st1_def)
  have "loop_inv st1" using st1(2) assms(2) by (auto simp: loop_inv_def)
  then show inv: "loop_inv st'" using st1(1) loop_inv_forceCompression by simp
  show "answered [] messages" using inv by (simp add: m build_messages_def loop_inv_def compacted_request)
  show "ls_requests st' = ls_requests st" using st1 by auto
qed

lemma llm_retry_facts:
  assumes "llm_retry left env agent opts defs messages st = (st', messages', r)" "loop_inv st" "answered [] messages"
  shows "loop_inv st' \<and> answered [] messages' \<and> length (ls_requests st') \<le> length (ls_requests st) + Suc left"
  using assms
proof (induction left arbitrary: messages st)
  case 0
  obtain st1 r1 where c: "callLLM env agent defs messages st = (st1, r1)" by (cases "callLLM env agent defs messages st")
  have "loop_inv st1" using 0(2,3) callLLM_facts [OF c] by (simp add: loop_inv_def)
  then show ?case using 0 callLLM_facts(2) [OF c] by (auto simp: llm_retry.simps c split: sum.splits)
next
  case (Suc n)
  obtain st1 r1 where c: "callLLM env agent defs messages st = (st1, r1)" by (cases "callLLM env agent defs messages st")
  have inv1: "loop_inv st1" using Suc.prems(2,3) callLLM_facts [OF c] by (simp add: loop_inv_def)
  obtain st2 m2 where b: "compress_and_rebuild env agent opts (Suc n = 2) st1 = (st2, m2)"
    by (cases "compress_and_rebuild env agent opts (Suc n = 2) st1")
  show ?case
  proof (cases "\<exists>err. r1 = Inl err \<and> is_context_error err")
    case True
    then have l: "llm_retry n env agent opts defs m2 st2 = (st', messages', r)"
      using Suc.prems(1) b by (auto simp: llm_retry.simps [of "Suc n"] c)
    from Suc.IH [OF l] rebuild_facts [OF b inv1] callLLM_facts(2) [OF c] show ?thesis by simp
  next
    case False
    then show ?thesis using Suc.prems inv1 callLLM_facts(2) [OF c]
      by (cases r1) (auto simp: llm_retry.simps [of "Suc n"] c)
  qed
qed

lemma build_exec_no_error:
  "build_calls codec mk tcs = Inr cs \<Longrightarrow> exec_calls codec run tcs w = (w', ms, e) \<Longrightarrow> e = None"
  by (induction tcs arbitrary: cs w ms) (auto split: sum.splits prod.splits)

lemma agent_exec_facts:
  assumes "agent_exec env agent opts tc st = (st', tr)"
  shows "history_of st' a k = (if a = ai_ID agent \<and> k = po_SessionKey opts
      then history_of st a k @ [tool_message (content_for_llm tr) (tc_ID tc)] else history_of st a k)"
    and "ls_requests st' = ls_requests st"
  using assms by (auto simp: agent_exec_def Let_def history_add_message split: prod.splits)

lemma exec_calls_history:
  "exec_calls codec (agent_exec env agent opts) tcs st = (st', ms, None) \<Longrightarrow>
   history_of st' a k = (if a = ai_ID agent \<and> k = po_SessionKey opts then history_of st a k @ ms else history_of st a k) \<and>
   ls_requests st' = ls_requests st"
proof (induction tcs arbitrary: st ms st')
  case (Cons tc tcs)
  obtain st1 tr where e: "agent_exec env agent opts tc st = (st1, tr)" by (cases "agent_exec env agent opts tc st")
  obtain st2 ms2 e2 where x: "exec_calls codec (agent_exec env agent opts) tcs st1 = (st2, ms2, e2)"
    by (cases "exec_calls codec (agent_exec env agent opts) tcs st1") auto
  have s: "st' = st2" "ms = tool_message (content_for_llm tr) (tc_ID tc) # ms2" "e2 = None"
    using Cons.prems e x by (auto split: sum.splits)
  show ?case using Cons.IH [OF x [unfolded s(3)]] agent_exec_facts [OF e] s by auto
qed auto

definition iteration_ok :: "nat \<Rightarrow> 'w LoopState iteration \<Rightarrow> bool" where
  "iteration_ok n it = (case it of
     Finished st r \<Rightarrow> loop_inv st \<and> length (ls_requests st) \<le> n
   | Again st messages \<Rightarrow> loop_inv st \<and> length (ls_requests st) \<le> n \<and> answered [] messages)"

lemma llm_iteration_ok:
  assumes "loop_inv st" "answered [] messages"
  shows "iteration_ok (length (ls_requests st) + 3) (llm_iteration env agent opts messages st)"
proof -
  obtain st1 m1 r where l: "llm_retry 2 env agent opts (ToProviderDefs (ai_Tools agent)) messages st = (st1, m1, r)"
    by (cases "llm_retry 2 env agent opts (ToProviderDefs (ai_Tools agent)) messages st") auto
  have f: "loop_inv st1" "answered [] m1" "length (ls_requests st1) \<le> length (ls_requests st) + 3"
    using llm_retry_facts [OF l assms] by auto
  show ?thesis
  proof (cases "\<exists>response calls. r = Inr response \<and> lr_ToolCalls response \<noteq> [] \<and>
      build_calls (ev_codec env) agent_call (map (NormalizeToolCall (ev_codec env)) (lr_ToolCalls response)) = Inr calls")
    case False
    then show ?thesis using f
      by (auto simp: llm_iteration_def l iteration_ok_def Let_def split: sum.splits)
  next
    case True
    then obtain response calls where r: "r = Inr response" "lr_ToolCalls response \<noteq> []"
      and b: "build_calls (ev_codec env) agent_call (map (NormalizeToolCall (ev_codec env)) (lr_ToolCalls response)) = Inr calls"
      by blast
    let ?tcs = "map (NormalizeToolCall (ev_codec env)) (lr_ToolCalls response)"
    let ?am = "assistant_message response calls"
    let ?st2 = "add_message env (ai_ID agent) (po_SessionKey opts) ?am st1"
    obtain st3 ms e where x: "exec_calls (ev_codec env) (agent_exec env agent opts) ?tcs ?st2 = (st3, ms, e)"
      by (cases "exec_calls (ev_codec env) (agent_exec env agent opts) ?tcs ?st2") auto
    have e: "e = None" using build_exec_no_error [OF b x] .
    have it: "llm_iteration env agent opts messages st = Again st3 (m1 @ ?am # ms)"
      using r b x e by (simp add: llm_iteration_def l Let_def)
    have "map tc_ID calls = map tc_ID ?tcs" using build_calls_ids [OF b] by (simp add: agent_call_def Let_def)
    moreover have "map msg_ToolCallID ms = map tc_ID ?tcs \<and> (\<forall>m \<in> set ms. msg_Role m = ''tool'')"
      using exec_calls_ids [OF x [unfolded e]] .
    ultimately have "answered (map tc_ID calls) ms" by (intro answered_results) auto
    then have turn: "answered [] (?am # ms)" by (simp add: assistant_message_def text_message_def)
    have h: "history_of st3 a k = (if a = ai_ID agent \<and> k = po_SessionKey opts then history_of st1 a k @ ?am # ms
        else history_of st1 a k)" and rq: "ls_requests st3 = ls_requests st1" for a k
      using exec_calls_history [OF x [unfolded e], of a k] by (auto simp: history_add_message)
    have "loop_inv st3" using f(1) turn by (auto simp: loop_inv_def h rq compacted_append)
    then show ?thesis using f rq answered_append [OF f(2) turn] by (simp add: it iteration_ok_def)
  qed
qed

lemma llm_loop_facts:
  assumes "llm_loop n env agent opts messages st = (st', r)" "loop_inv st" "answered [] messages"
  shows "loop_inv st' \<and> length (ls_requests st') \<le> length (ls_requests st) + 3 * n"
  using assms
proof (induction n arbitrary: messages st)
  case (Suc n)
  note ok = llm_iteration_ok [OF Suc.prems(2,3), of env agent opts]
  show ?case
  proof (cases "llm_iteration env agent opts messages st")
    case (Finished st1 r1)
    with Suc.prems ok show ?thesis by (auto simp: iteration_ok_def)
  next
    case (Again st1 m1)
    with Suc.prems have l: "llm_loop n env agent opts m1 st1 = (st', r)" by simp
    from Again ok have "loop_inv st1" "answered [] m1" "length (ls_requests st1) \<le> length (ls_requests st) + 3"
      by (auto simp: iteration_ok_def)
    with Suc.IH [OF l] show ?thesis by simp
  qed
qed auto

lemma maybeSummarize_simps [simp]:
  "history_of (maybeSummarize agent key c i st) a k = history_of st a k"
  "ls_requests (maybeSummarize agent key c i st) = ls_requests st"
  by (simp_all add: maybeSummarize_def Let_def)

lemma answered_plain: "answered [] [text_message ''user'' c]" "answered [] [text_message ''assistant'' c]"
  by (simp_all add: text_message_def)

lemma runAgentLoop_facts:
  assumes "loop_inv st" "runAgentLoop env agent opts st = (st', r)"
  shows "loop_inv st'" "length (ls_requests st') \<le> length (ls_requests st) + 3 * nat (ai_MaxIterations agent)"
proof -
  let ?st1 = "(record_channel opts st)\<lparr>ls_world := updateToolContexts agent (po_Channel opts) (po_ChatID opts)
     (ls_world (record_channel opts st))\<rparr>"
  let ?ms = "build_messages env ?st1 opts (if po_NoHistory opts then [] else history_of ?st1 (ai_ID agent) (po_SessionKey opts))
     (if po_NoHistory opts then [] else summary_of ?st1 (ai_ID agent) (po_SessionKey opts)) (po_UserMessage opts)"
  let ?st2 = "add_message env (ai_ID agent) (po_SessionKey opts) (text_message ''user'' (po_UserMessage opts)) ?st1"
  have inv1: "loop_inv ?st1" by (rule loop_inv_cong [OF assms(1)]) simp_all
  have inv2: "loop_inv ?st2" by (intro loop_inv_add inv1 answered_plain)
  have m: "answered [] ?ms" using inv1 by (auto simp: build_messages_def loop_inv_def intro!: compacted_request)
  obtain st3 r3 where l: "runLLMIteration env agent opts ?ms ?st2 = (st3, r3)"
    by (cases "runLLMIteration env agent opts ?ms ?st2")
  have f: "loop_inv st3" "length (ls_requests st3) \<le> length (ls_requests st) + 3 * nat (ai_MaxIterations agent)"
    using llm_loop_facts [OF l [unfolded runLLMIteration_def] inv2 m] by auto
  have "loop_inv st' \<and> ls_requests st' = ls_requests st3"
  proof (cases r3)
    case (Inl err)
    then show ?thesis using assms(2) f l by (simp add: runAgentLoop_def Let_def)
  next
    case (Inr c)
    let ?fc = "if c = [] then po_DefaultResponse opts else c"
    let ?st4 = "add_message env (ai_ID agent) (po_SessionKey opts) (text_message ''assistant'' ?fc) st3"
    have inv4: "loop_inv ?st4" by (intro loop_inv_add f(1) answered_plain)
    have "(\<forall>a k. history_of st' a k = history_of ?st4 a k) \<and> ls_requests st' = ls_requests ?st4"
      using assms(2) l Inr by (auto simp: runAgentLoop_def Let_def)
    then show ?thesis using inv4 loop_inv_cong [of ?st4 st'] by simp
  qed
  with f show "loop_inv st'" "length (ls_requests st') \<le> length (ls_requests st) + 3 * nat (ai_MaxIterations agent)"
    by auto
qed

subsection \<open>Everything the loop does\<close>

lemma history_commit:
  "history_of (commit_summary env b key s st) a k =
     (if s \<noteq> [] \<and> a = b \<and> k = key then lastn 4 (history_of st a k) else history_of st a k)"
  by (auto simp: commit_summary_def Let_def history_of_def set_sessions_def save_session_def case_prod_beta lookup_simps)

lemma requests_commit [simp]: "ls_requests (commit_summary env b key s st) = ls_requests st"
  by (simp add: commit_summary_def Let_def)

lemma loop_inv_commit: "loop_inv st \<Longrightarrow> loop_inv (commit_summary env b key s st)"
  by (auto simp: loop_inv_def history_commit compacted_lastn)

lemma run_with_inv: "loop_inv st \<Longrightarrow> run_with env agent opts st = (st', r) \<Longrightarrow> loop_inv st'"
  by (auto simp: run_with_def split: option.splits dest: runAgentLoop_facts)

lemma processMessage_inv:
  assumes "loop_inv st" "processMessage env cfg channels msg (reg, st) = ((reg', st'), r)"
  shows "loop_inv st'"
proof -
  have "loop_inv st1" if "processSystemMessage env reg msg st = (st1, r1)" for st1 r1
    using that assms(1) by (auto simp: processSystemMessage_def split: if_splits prod.splits dest: run_with_inv)
  then show ?thesis using assms
    by (auto simp: processMessage_def Let_def split: if_splits prod.splits option.splits dest: run_with_inv)
qed

lemma Run_round_inv:
  assumes "loop_inv st" "Run_round env cfg channels sent msg (reg, st) = (reg', st')"
  shows "loop_inv st'"
proof -
  obtain reg1 st1 r1 where p: "processMessage env cfg channels msg (reg, st) = ((reg1, st1), r1)"
    by (metis prod.exhaust)
  have "loop_inv st1" using processMessage_inv [OF assms(1) p] .
  moreover have "st' = st1 \<or> (\<exists>c i t. st' = publish c i t st1)"
    using assms(2) by (auto simp: Run_round_def p Let_def split: if_splits)
  ultimately show ?thesis by (auto simp: loop_inv_def)
qed

text \<open>The states the loop can reach: rounds of \<open>Run\<close>, heartbeats, direct messages, and summaries that
  are committed between them, whatever they were computed from.\<close>

inductive loop_reach :: "RouteConfig \<Rightarrow> ('w \<Rightarrow> 'w AgentInstance \<Rightarrow> bool) \<Rightarrow> 'w AgentRegistry \<Rightarrow> 'w LoopState \<Rightarrow> bool"
  for cfg :: RouteConfig and sent :: "'w \<Rightarrow> 'w AgentInstance \<Rightarrow> bool" where
  fresh: "(\<And>a k. history_of st a k = []) \<Longrightarrow> ls_requests st = [] \<Longrightarrow> loop_reach cfg sent reg st"
| round: "loop_reach cfg sent reg st \<Longrightarrow> Run_round env cfg channels sent msg (reg, st) = (reg', st') \<Longrightarrow>
    loop_reach cfg sent reg' st'"
| heartbeat: "loop_reach cfg sent reg st \<Longrightarrow> ProcessHeartbeat env reg content channel chatID st = (st', r) \<Longrightarrow>
    loop_reach cfg sent reg st'"
| direct: "loop_reach cfg sent reg st \<Longrightarrow>
    ProcessDirectWithChannel env cfg channels content key channel chatID (reg, st) = ((reg', st'), r) \<Longrightarrow>
    loop_reach cfg sent reg' st'"
| summary: "loop_reach cfg sent reg st \<Longrightarrow> loop_reach cfg sent reg (commit_summary env agentID key s st)"
| summary_end: "loop_reach cfg sent reg st \<Longrightarrow> loop_reach cfg sent reg (summarize_done agent key st)"

lemma loop_reach_inv: "loop_reach cfg sent reg st \<Longrightarrow> loop_inv st"
proof (induction rule: loop_reach.induct)
  case (fresh st reg)
  then show ?case by (simp add: loop_inv_def)
next
  case (round reg st env channels msg reg' st')
  then show ?case using Run_round_inv by blast
next
  case (heartbeat reg st env content channel chatID st' r)
  then show ?case using run_with_inv by (auto simp: ProcessHeartbeat_def)
next
  case (direct reg st env channels content key channel chatID reg' st' r)
  then show ?case using processMessage_inv by (auto simp: ProcessDirectWithChannel_def)
next
  case (summary reg st env agentID key s)
  then show ?case by (simp add: loop_inv_commit)
next
  case (summary_end reg st agent key)
  then show ?case by (simp add: loop_inv_def summarize_done_def)
qed

subsection \<open>A turn touches one session\<close>

definition others_kept :: "string \<Rightarrow> string \<Rightarrow> 'w LoopState \<Rightarrow> 'w LoopState \<Rightarrow> bool" where
  "others_kept agentID key st st' \<longleftrightarrow> (\<forall>a k. (a, k) \<noteq> (agentID, key) \<longrightarrow> history_of st' a k = history_of st a k)"

lemma others_kept_refl [simp]: "others_kept a k st st"
  by (simp add: others_kept_def)

lemma others_kept_trans: "others_kept a k st1 st2 \<Longrightarrow> others_kept a k st2 st3 \<Longrightarrow> others_kept a k st1 st3"
  by (simp add: others_kept_def)

lemma others_kept_add: "others_kept a k st st' \<Longrightarrow> others_kept a k st (add_message env a k m st')"
  by (auto simp: others_kept_def history_add_message)

lemma retry_others:
  "llm_retry left env agent opts defs messages st = (st', messages', r) \<Longrightarrow> others_kept (ai_ID agent) (po_SessionKey opts) st st'"
proof (induction left arbitrary: messages st)
  case 0
  obtain st1 r1 where c: "callLLM env agent defs messages st = (st1, r1)" by (cases "callLLM env agent defs messages st")
  show ?case using 0 callLLM_facts(1) [OF c] by (auto simp: llm_retry.simps c others_kept_def split: sum.splits)
next
  case (Suc n)
  obtain st1 r1 where c: "callLLM env agent defs messages st = (st1, r1)" by (cases "callLLM env agent defs messages st")
  have k1: "others_kept (ai_ID agent) (po_SessionKey opts) st st1" using callLLM_facts(1) [OF c] by (simp add: others_kept_def)
  obtain st2 m2 where b: "compress_and_rebuild env agent opts (Suc n = 2) st1 = (st2, m2)"
    by (cases "compress_and_rebuild env agent opts (Suc n = 2) st1")
  have "others_kept (ai_ID agent) (po_SessionKey opts) st1 st2"
    using b by (auto simp: compress_and_rebuild_def Let_def others_kept_def history_forceCompression)
  then have k2: "others_kept (ai_ID agent) (po_SessionKey opts) st st2" using k1 others_kept_trans by blast
  show ?case
  proof (cases "\<exists>err. r1 = Inl err \<and> is_context_error err")
    case True
    then have "llm_retry n env agent opts defs m2 st2 = (st', messages', r)"
      using Suc.prems b by (auto simp: llm_retry.simps [of "Suc n"] c)
    from Suc.IH [OF this] k2 others_kept_trans show ?thesis by blast
  next
    case False
    then show ?thesis using Suc.prems k1 by (cases r1) (auto simp: llm_retry.simps [of "Suc n"] c)
  qed
qed

lemma exec_others:
  "exec_calls codec (agent_exec env agent opts) tcs st = (st', ms, e) \<Longrightarrow> others_kept (ai_ID agent) (po_SessionKey opts) st st'"
proof (induction tcs arbitrary: st ms)
  case (Cons tc tcs)
  obtain st1 tr where x: "agent_exec env agent opts tc st = (st1, tr)" by (cases "agent_exec env agent opts tc st")
  have k: "others_kept (ai_ID agent) (po_SessionKey opts) st st1" using agent_exec_facts(1) [OF x] by (auto simp: others_kept_def)
  obtain st2 ms2 e2 where y: "exec_calls codec (agent_exec env agent opts) tcs st1 = (st2, ms2, e2)"
    by (cases "exec_calls codec (agent_exec env agent opts) tcs st1") auto
  then have "st' = st \<or> (st' = st2 \<and> e = e2)" using Cons.prems x by (auto split: sum.splits)
  then show ?case using Cons.IH [of st1 ms2] y k others_kept_trans by auto
qed auto

lemma iteration_others:
  "(\<exists>r. llm_iteration env agent opts messages st = Finished st' r) \<or> (\<exists>m. llm_iteration env agent opts messages st = Again st' m) \<Longrightarrow>
   others_kept (ai_ID agent) (po_SessionKey opts) st st'"
proof -
  assume st': "(\<exists>r. llm_iteration env agent opts messages st = Finished st' r) \<or> (\<exists>m. llm_iteration env agent opts messages st = Again st' m)"
  obtain st1 m1 r where l: "llm_retry 2 env agent opts (ToProviderDefs (ai_Tools agent)) messages st = (st1, m1, r)"
    by (cases "llm_retry 2 env agent opts (ToProviderDefs (ai_Tools agent)) messages st") auto
  have "st' = st1 \<or> (\<exists>am tcs ms e. exec_calls (ev_codec env) (agent_exec env agent opts) tcs
      (add_message env (ai_ID agent) (po_SessionKey opts) am st1) = (st', ms, e))"
    using st' by (auto simp: llm_iteration_def l Let_def split: sum.splits if_splits prod.splits option.splits)
  then show ?thesis
  proof
    assume "\<exists>am tcs ms e. exec_calls (ev_codec env) (agent_exec env agent opts) tcs
      (add_message env (ai_ID agent) (po_SessionKey opts) am st1) = (st', ms, e)"
    then show ?thesis using exec_others retry_others [OF l] others_kept_trans others_kept_add by blast
  qed (use retry_others [OF l] in simp)
qed

lemma llm_loop_others:
  "llm_loop n env agent opts messages st = (st', r) \<Longrightarrow> others_kept (ai_ID agent) (po_SessionKey opts) st st'"
proof (induction n arbitrary: messages st)
  case (Suc n)
  show ?case
  proof (cases "llm_iteration env agent opts messages st")
    case (Finished st1 r1)
    with Suc.prems iteration_others [of env agent opts messages st st1] show ?thesis by simp
  next
    case (Again st1 m1)
    with Suc.prems Suc.IH [of m1 st1] iteration_others [of env agent opts messages st st1] show ?thesis
      using others_kept_trans by fastforce
  qed
qed simp

lemma runAgentLoop_others:
  assumes "runAgentLoop env agent opts st = (st', r)"
  shows "others_kept (ai_ID agent) (po_SessionKey opts) st st'"
    and "r = Inr c \<Longrightarrow> history_of st' (ai_ID agent) (po_SessionKey opts) \<noteq> [] \<and>
      last (history_of st' (ai_ID agent) (po_SessionKey opts)) = text_message ''assistant'' c"
proof -
  let ?st1 = "(record_channel opts st)\<lparr>ls_world := updateToolContexts agent (po_Channel opts) (po_ChatID opts)
     (ls_world (record_channel opts st))\<rparr>"
  let ?ms = "build_messages env ?st1 opts (if po_NoHistory opts then [] else history_of ?st1 (ai_ID agent) (po_SessionKey opts))
     (if po_NoHistory opts then [] else summary_of ?st1 (ai_ID agent) (po_SessionKey opts)) (po_UserMessage opts)"
  let ?st2 = "add_message env (ai_ID agent) (po_SessionKey opts) (text_message ''user'' (po_UserMessage opts)) ?st1"
  obtain st3 r3 where l: "runLLMIteration env agent opts ?ms ?st2 = (st3, r3)"
    by (cases "runLLMIteration env agent opts ?ms ?st2")
  have "others_kept (ai_ID agent) (po_SessionKey opts) st ?st2"
    by (intro others_kept_add) (simp add: others_kept_def)
  then have k3: "others_kept (ai_ID agent) (po_SessionKey opts) st st3"
    using llm_loop_others [OF l [unfolded runLLMIteration_def]] others_kept_trans by blast
  have fin: "(\<forall>a k. history_of st' a k = history_of (add_message env (ai_ID agent) (po_SessionKey opts) (text_message ''assistant'' d) st3) a k)"
    if "r3 = Inr c" "r = Inr d" for c d
    using assms l that by (auto simp: runAgentLoop_def Let_def)
  have err: "st' = st3" if "r3 = Inl e" for e
    using assms l that by (auto simp: runAgentLoop_def Let_def)
  have rr: "\<exists>d. r = Inr d" if "r3 = Inr c" for c
    using assms l that by (auto simp: runAgentLoop_def Let_def)
  show "others_kept (ai_ID agent) (po_SessionKey opts) st st'"
  proof (cases r3)
    case (Inl e)
    then show ?thesis using err k3 by simp
  next
    case (Inr c)
    then obtain d where "r = Inr d" using rr by blast
    then show ?thesis using fin [OF Inr] others_kept_add [OF k3, of env "text_message ''assistant'' d"]
      by (simp add: others_kept_def)
  qed
  show "history_of st' (ai_ID agent) (po_SessionKey opts) \<noteq> [] \<and>
      last (history_of st' (ai_ID agent) (po_SessionKey opts)) = text_message ''assistant'' c" if "r = Inr c"
  proof -
    have "\<exists>c'. r3 = Inr c'" using assms l that by (cases r3) (auto simp: runAgentLoop_def Let_def)
    then show ?thesis using fin that by (auto simp: history_add_message)
  qed
qed

subsection \<open>Properties\<close>

definition sample_env :: env where
  "sample_env = \<lparr>ev_llm = (\<lambda>k messages defs opts i. \<lparr>ae_canceled_before = False, ae_now_check = 0, ae_now_remaining = 0,
       ae_result = (if k = 0 then Inl (ErrNew ''context window exceeded'')
         else Inr \<lparr>lr_Content = ''done'', lr_ReasoningContent = [], lr_ToolCalls = (if k = 1 then [sample_call] else []),
                lr_FinishReason = []\<rparr>),
       ae_elapsed = 0, ae_canceled_after = False, ae_now_mark = 0\<rparr>),
     ev_static = (\<lambda>_. ''static''), ev_dynamic = (\<lambda>_ _ _. ''dynamic''), ev_save = (\<lambda>_. (NoFault, ''session-1.tmp'')),
     ev_now = 7, ev_codec = empty_codec\<rparr>"

definition sample_reg :: "nat AgentRegistry" where
  "sample_reg = NewAgentRegistry ''/h'' [] [] sample_defaults"

definition sample_state :: "nat LoopState" where
  "sample_state = \<lparr>ls_world = 0, ls_sessions = (\<lambda>_. NewSessionManager [] []), ls_dir = (\<lambda>_. []), ls_outbound = [],
     ls_tracker = NewCooldownTracker, ls_lastChannel = [], ls_summarizing = {}, ls_requests = [], ls_saves = 0\<rparr>"

definition sample_inbound :: InboundMessage where
  "sample_inbound = \<lparr>im_Channel = ''slack'', im_SenderID = ''u'', im_ChatID = ''C1'', im_Content = ''hello'', im_Media = [],
     im_SessionKey = [], im_Metadata = []\<rparr>"

definition empty_routes :: RouteConfig where
  "empty_routes = route_config [] [] [] []"

definition sample_round :: "nat AgentRegistry \<times> nat LoopState" where
  "sample_round = Run_round sample_env empty_routes None (\<lambda>_ _. False) sample_inbound (sample_reg, sample_state)"

lemma sample_fresh: "loop_reach cfg sent reg sample_state"
  by (rule fresh) (simp_all add: sample_state_def history_of_def GetHistory_def NewSessionManager_def)

lemma sample_round_reach: "loop_reach empty_routes (\<lambda>_ _. False) (fst sample_round) (snd sample_round)"
  by (rule round [OF sample_fresh]) (simp add: sample_round_def)

lemma sample_round_result:
  "length (ls_requests (snd sample_round)) = 3" "map om_Content (ls_outbound (snd sample_round)) =
     [''Context window exceeded. Compressing history and retrying...'', ''done'']"
  by code_simp+



text \<open>A turn makes at most three provider requests per iteration, \<open>3 * MaxIterations\<close> in all, and
  always returns.\<close>

theorem turn_request_bound:
  assumes "loop_reach cfg sent reg st" "runAgentLoop env agent opts st = (st', r)"
  shows "length (ls_requests st') \<le> length (ls_requests st) + 3 * nat (ai_MaxIterations agent)"
  using runAgentLoop_facts(2) [OF loop_reach_inv [OF assms(1)] assms(2)] .

definition sample_opts :: processOptions where
  "sample_opts = \<lparr>po_SessionKey = ''agent:main:main'', po_Channel = ''slack'', po_ChatID = ''C1'', po_UserMessage = ''hello'',
     po_DefaultResponse = no_response, po_EnableSummary = True, po_SendResponse = True, po_NoHistory = False\<rparr>"

definition sample_instance :: "nat AgentInstance" where
  "sample_instance = NewAgentInstance ''/h'' [] (Some implicit_agent) sample_defaults"

theorem turn_request_bound_witness:
  "length (ls_requests (fst (runAgentLoop sample_env sample_instance sample_opts sample_state))) \<le> 60"
proof -
  have "ai_MaxIterations sample_instance = 20" "length (ls_requests sample_state) = 0" by code_simp+
  then show ?thesis
    using turn_request_bound [OF sample_fresh, of sample_env sample_instance sample_opts
        "fst (runAgentLoop sample_env sample_instance sample_opts sample_state)"
        "snd (runAgentLoop sample_env sample_instance sample_opts sample_state)"] by simp
qed



text \<open>Emergency compression of a history of more than four messages keeps the first message, with a
  note appended, and the most recent messages in their order, and drops the oldest half of those in
  between. The first message keeps its role: it is no system prompt, which is never part of a
  stored history, but the oldest message of the conversation, so the note is added to a user's or
  the assistant's words.\<close>

theorem forceCompression_effect:
  assumes "4 < length (history_of st (ai_ID agent) key)"
  shows "let h = history_of st (ai_ID agent) key; h' = history_of (forceCompression env agent key st) (ai_ID agent) key;
      dropped = (length h - 2) div 2
    in length h' = length h - dropped \<and> tl h' = drop dropped (tl h) \<and> msg_Role (hd h') = msg_Role (hd h) \<and>
       msg_Content (hd h') = msg_Content (hd h) @ compression_note (int dropped) \<and> length h' < length h"
proof -
  let ?h = "history_of st (ai_ID agent) key"
  obtain x where x: "compress_history ?h = x # drop ((length ?h - 2) div 2) (tl ?h)"
    using compress_history_drop [of ?h] assms by auto
  have "x = (hd ?h)\<lparr>msg_Content := msg_Content (hd ?h) @ compression_note (int ((length ?h - 2) div 2))\<rparr>"
    using x by (simp add: compress_history_def Let_def numeral_2_eq_2)
  moreover have "(length ?h - 2) div 2 \<le> length ?h - 1" "0 < (length ?h - 2) div 2" using assms by auto
  moreover have "Suc (n - Suc d) = n - d \<and> n - d < n" if "d \<le> n - 1" "0 < d" "4 < n" for n d :: nat
    using that by linarith
  ultimately show ?thesis using assms unfolding history_forceCompression Let_def by (simp add: x)
qed

definition long_state :: "nat LoopState" where
  "long_state = foldr (\<lambda>i. add_message sample_env ''main'' ''k'' (text_message ''user'' (itoa i))) [6, 5, 4, 3, 2, 1] sample_state"

theorem forceCompression_effect_witness:
  "length (history_of (forceCompression sample_env sample_instance ''k'' long_state) ''main'' ''k'') = 4"
proof -
  have l: "length (history_of long_state (ai_ID sample_instance) ''k'') = 6" by code_simp
  have i: "ai_ID sample_instance = ''main''" by code_simp
  show ?thesis using forceCompression_effect [of long_state sample_instance "''k''" sample_env] l i by (simp add: Let_def)
qed

text \<open>A summary commits to the wrong history. The summary is computed from a snapshot, leaving its
  last four messages out, but it is stored, with a truncation to four messages, on the history as
  it is when the provider has answered. If four or more messages arrived meanwhile, the four
  messages left out of the summary are deleted, and so are all but four of the new ones, although
  no summary covers them.\<close>

theorem summary_race_loses_messages:
  assumes "4 \<le> length extra" "s \<noteq> []" "s = summary_of_history ask agent (old @ last4) summary" "length last4 = 4"
    and "history_of st (ai_ID agent) key = (old @ last4) @ extra"
  shows "history_of (commit_summary env (ai_ID agent) key s st) (ai_ID agent) key = drop (length extra - 4) extra \<and>
    (\<forall>other. length other = 4 \<longrightarrow> s = summary_of_history ask agent (old @ other) summary)"
proof -
  have "lastn 4 ((old @ last4) @ extra) = drop (length extra - 4) extra"
    using assms(1,4) by (simp add: lastn_def)
  moreover have "summary_of_history ask agent (old @ last4) summary = summary_of_history ask agent (old @ other) summary"
    if "length other = 4" for other
    using that assms(4) by (simp add: summary_of_history_def)
  ultimately show ?thesis using assms(2,3,5) by (simp add: history_commit)
qed

definition numbered :: "int list \<Rightarrow> Message list" where
  "numbered is = map (\<lambda>i. text_message ''user'' (itoa i)) is"

definition busy_state :: "nat LoopState" where
  "busy_state = fold (add_message sample_env ''main'' ''k'') (numbered [1..10]) sample_state"

theorem summary_race_loses_messages_witness:
  "history_of busy_state ''main'' ''k'' = numbered [1..10] \<and>
   history_of (commit_summary sample_env ''main'' ''k''
      (summary_of_history (\<lambda>_. Inr ''sum'') sample_instance (numbered [1..5]) []) busy_state) ''main'' ''k'' = numbered [7..10]"
proof -
  have e: "4 \<le> length (numbered [6..10])" by code_simp
  have s: "summary_of_history (\<lambda>_. Inr ''sum'') sample_instance (numbered [1] @ numbered [2..5]) [] \<noteq> []" by code_simp
  have l: "length (numbered [2..5]) = 4" by code_simp
  have i: "ai_ID sample_instance = ''main''" by code_simp
  have h: "history_of busy_state ''main'' ''k'' = numbered [1..10]" by code_simp
  have h': "history_of busy_state (ai_ID sample_instance) ''k'' = (numbered [1] @ numbered [2..5]) @ numbered [6..10]"
    unfolding i h by code_simp
  have d: "drop (length (numbered [6..10]) - 4) (numbered [6..10]) = numbered [7..10]" by code_simp
  have n: "numbered [1] @ numbered [2..5] = numbered [1..5]" by code_simp
  show ?thesis
    using summary_race_loses_messages [OF e s refl l h', of sample_env] h unfolding i d n by blast
qed

text \<open>Two agents with a message tool each; the world holds the two tools and what they sent.\<close>

type_synonym two_tools = "(MessageTool \<times> MessageTool) \<times> (string \<times> string \<times> string) list"

definition message_tool_of :: "(two_tools \<Rightarrow> MessageTool) \<Rightarrow> (MessageTool \<Rightarrow> two_tools \<Rightarrow> two_tools) \<Rightarrow> two_tools Tool" where
  "message_tool_of get put = \<lparr>tl_Name = ''message'', tl_Description = [], tl_Parameters = [],
     tl_SetContext = Some (\<lambda>c i w. put (MessageTool_SetContext c i (get w)) w), tl_SetCallback = None,
     tl_Execute = (\<lambda>args w. let ((t, out), tr) = MessageTool_Execute (Some (\<lambda>c i x out. (out @ [(c, i, x)], None))) args (get w) (snd w)
        in (let w' = put t w in (fst w', out), tr))\<rparr>"

definition plain_agent :: "string \<Rightarrow> 'w ToolRegistry \<Rightarrow> 'w AgentInstance" where
  "plain_agent i tools = \<lparr>ai_ID = i, ai_Name = [], ai_Model = ''gpt-4o'', ai_Fallbacks = [], ai_Workspace = ''/w'', ai_MaxIterations = 20,
     ai_MaxTokens = 8192, ai_Temperature = ''0.7'', ai_ContextWindow = 8192, ai_Tools = tools, ai_AllowAgents = None,
     ai_SkillsFilter = [], ai_Candidates = []\<rparr>"

definition two_agents :: "two_tools AgentRegistry" where
  "two_agents =
     [(''main'', plain_agent ''main'' [(''message'', message_tool_of (\<lambda>w. fst (fst w)) (\<lambda>t w. ((t, snd (fst w)), snd w)))]),
      (''dev'', plain_agent ''dev'' [(''message'', message_tool_of (\<lambda>w. snd (fst w)) (\<lambda>t w. ((fst (fst w), t), snd w)))])]"

definition two_routes :: RouteConfig where
  "two_routes = route_config
     [\<lparr>b_AgentID = ''dev'', b_Match = \<lparr>m_Channel = ''slack'', m_AccountID = ''*'', m_Peer = None, m_GuildID = [], m_TeamID = []\<rparr>\<rparr>]
     [implicit_agent, sample_agent ''dev'' False] [] []"

definition two_env :: env where
  "two_env = sample_env\<lparr>ev_llm := (\<lambda>k messages defs opts i. \<lparr>ae_canceled_before = False, ae_now_check = 0, ae_now_remaining = 0,
       ae_result = Inr \<lparr>lr_Content = (if k = 1 then ''done'' else ''answer''), lr_ReasoningContent = [],
          lr_ToolCalls = (if k = 0 then [sample_call\<lparr>tc_Name := ''message'', tc_Arguments := Some [(''content'', JStr ''hi'')],
             tc_Function := None\<rparr>] else []), lr_FinishReason = []\<rparr>,
       ae_elapsed = 0, ae_canceled_after = False, ae_now_mark = 0\<rparr>)\<rparr>"

definition two_state :: "two_tools LoopState" where
  "two_state = \<lparr>ls_world = ((NewMessageTool, NewMessageTool), []), ls_sessions = (\<lambda>_. NewSessionManager [] []),
     ls_dir = (\<lambda>_. []), ls_outbound = [], ls_tracker = NewCooldownTracker, ls_lastChannel = [], ls_summarizing = {},
     ls_requests = [], ls_saves = 0\<rparr>"

text \<open>What \<open>Run\<close> asks: whether the message tool of that agent has sent in its current round.\<close>

definition two_sent :: "two_tools \<Rightarrow> two_tools AgentInstance \<Rightarrow> bool" where
  "two_sent w a = HasSentInRound (if ai_ID a = ''main'' then fst (fst w) else snd (fst w))"

text \<open>The world after a round in which the default agent answered through its message tool.\<close>

definition main_has_sent :: two_tools where
  "main_has_sent = ((\<lparr>mt_defaultChannel = ''telegram'', mt_defaultChatID = ''C1'', mt_sentInRound = True\<rparr>, NewMessageTool),
     [(''telegram'', ''C1'', ''hi'')])"

lemma processMessage_routed:
  assumes "im_Channel msg \<noteq> ''system''" "handleCommand reg channels msg = (reg', None)"
    and "GetAgent reg' (rt_AgentID (message_route cfg msg)) = Some a" "message_session cfg msg = key"
    and "runAgentLoop env a (message_options msg key) st = (st', r)"
  shows "processMessage env cfg channels msg (reg, st) = ((reg', st'), r)"
  using assms by (simp add: processMessage_def run_with_def)

definition quiet_env :: env where
  "quiet_env = two_env\<lparr>ev_llm := (\<lambda>k. ev_llm two_env (Suc (Suc k)))\<rparr>"



text \<open>The first round, and the second, in which the other agent answers.\<close>

lemma first_turn:
  "(\<lambda>(st, r). (ls_world st, r)) (runAgentLoop two_env (snd (two_agents ! 0)) (message_options (sample_inbound\<lparr>im_Channel := ''telegram''\<rparr>) ''agent:main:main'')
     two_state) = (main_has_sent, Inr ''done'')"
  by code_simp

lemma second_turn:
  "(\<lambda>(st, r). (snd (ls_world st), two_sent (ls_world st) (snd (two_agents ! 0)), ls_outbound st, r))
     (runAgentLoop quiet_env (snd (two_agents ! 1)) (message_options sample_inbound ''agent:dev:main'')
       (two_state\<lparr>ls_world := main_has_sent\<rparr>)) = (snd main_has_sent, True, [], Inr ''answer'')"
  by code_simp

lemma two_dispatch:
  "handleCommand two_agents None sample_inbound = (two_agents, None)"
  "handleCommand two_agents None (sample_inbound\<lparr>im_Channel := ''telegram''\<rparr>) = (two_agents, None)"
proof -
  have "\<not> has_prefix ''/'' (trim_space ''hello'')" by code_simp
  then show "handleCommand two_agents None sample_inbound = (two_agents, None)"
    "handleCommand two_agents None (sample_inbound\<lparr>im_Channel := ''telegram''\<rparr>) = (two_agents, None)"
    by (simp_all add: handleCommand_def sample_inbound_def Let_def)
qed

lemma two_routing:
  "rt_AgentID (message_route two_routes sample_inbound) = ''dev''"
  "rt_AgentID (message_route two_routes (sample_inbound\<lparr>im_Channel := ''telegram''\<rparr>)) = ''main''"
  "message_session two_routes sample_inbound = ''agent:dev:main''"
  "message_session two_routes (sample_inbound\<lparr>im_Channel := ''telegram''\<rparr>) = ''agent:main:main''"
  "NormalizeAgentID ''dev'' = ''dev''" "NormalizeAgentID ''main'' = ''main''"
  by code_simp+

lemma first_round:
  "ls_world (snd (Run_round two_env two_routes None two_sent (sample_inbound\<lparr>im_Channel := ''telegram''\<rparr>) (two_agents, two_state))) =
     main_has_sent"
proof -
  let ?msg = "sample_inbound\<lparr>im_Channel := ''telegram''\<rparr>"
  obtain st r where t: "runAgentLoop two_env (snd (two_agents ! 0)) (message_options ?msg ''agent:main:main'') two_state = (st, r)"
    by (cases "runAgentLoop two_env (snd (two_agents ! 0)) (message_options ?msg ''agent:main:main'') two_state")
  have w: "ls_world st = main_has_sent" using first_turn by (simp add: t)
  have a: "GetAgent two_agents (rt_AgentID (message_route two_routes ?msg)) = Some (snd (two_agents ! 0))"
    unfolding two_routing GetAgent_def by (simp add: two_agents_def)
  have "processMessage two_env two_routes None ?msg (two_agents, two_state) = ((two_agents, st), r)"
    by (rule processMessage_routed [OF _ two_dispatch(2) a two_routing(4) t]) simp
  then show ?thesis using w by (simp add: Run_round_def Let_def publish_def)
qed

lemma second_round:
  assumes "al = (two_agents, two_state\<lparr>ls_world := main_has_sent\<rparr>)"
  shows "snd (processMessage quiet_env two_routes None sample_inbound al) = Inr ''answer''"
    and "ls_outbound (snd (Run_round quiet_env two_routes None two_sent sample_inbound al)) = []"
    and "snd (ls_world (snd (Run_round quiet_env two_routes None two_sent sample_inbound al))) = snd main_has_sent"
proof -
  let ?run = "runAgentLoop quiet_env (snd (two_agents ! 1)) (message_options sample_inbound ''agent:dev:main'')
       (two_state\<lparr>ls_world := main_has_sent\<rparr>)"
  obtain st r where t: "?run = (st, r)" by (cases ?run)
  have w: "snd (ls_world st) = snd main_has_sent" "two_sent (ls_world st) (snd (two_agents ! 0))" "ls_outbound st = []" "r = Inr ''answer''"
    using second_turn unfolding t by simp_all
  have a: "GetAgent two_agents (rt_AgentID (message_route two_routes sample_inbound)) = Some (snd (two_agents ! 1))"
    unfolding two_routing GetAgent_def by (simp add: two_agents_def)
  have "im_Channel sample_inbound \<noteq> ''system''" by (simp add: sample_inbound_def)
  then have p: "processMessage quiet_env two_routes None sample_inbound al = ((two_agents, st), r)"
    unfolding assms by (rule processMessage_routed [OF _ two_dispatch(1) a two_routing(3) t])
  have d: "GetDefaultAgent two_agents = Some (snd (two_agents ! 0))" by (simp add: GetDefaultAgent_def two_agents_def)
  show "snd (processMessage quiet_env two_routes None sample_inbound al) = Inr ''answer''"
    and "ls_outbound (snd (Run_round quiet_env two_routes None two_sent sample_inbound al)) = []"
    and "snd (ls_world (snd (Run_round quiet_env two_routes None two_sent sample_inbound al))) = snd main_has_sent"
    using w p d by (simp_all add: Run_round_def Let_def)
qed

text \<open>An answer is swallowed. \<open>Run\<close> asks the default agent's message tool whether an answer was
  already sent, but every agent has its own tool, and only the tool of the agent that handles a
  message is reset. After the default agent used its tool in one round (for a message on telegram),
  the answer of another agent to the next message (on slack) is computed but neither published nor
  sent by a tool.\<close>

theorem other_agents_answer_swallowed:
  "ls_world (snd (Run_round two_env two_routes None two_sent (sample_inbound\<lparr>im_Channel := ''telegram''\<rparr>) (two_agents, two_state))) =
     main_has_sent \<and>
   (let al = (two_agents, two_state\<lparr>ls_world := main_has_sent\<rparr>);
        al' = Run_round quiet_env two_routes None two_sent sample_inbound al
    in rt_AgentID (message_route two_routes sample_inbound) = ''dev'' \<and>
       snd (processMessage quiet_env two_routes None sample_inbound al) = Inr ''answer'' \<and>
       ls_outbound (snd al') = [] \<and> snd (ls_world (snd al')) = snd main_has_sent)"
  unfolding Let_def by (intro conjI first_round two_routing second_round [OF refl])

end
