(* ===== verification/Bus.thy ===== *)
theory Bus
  imports Protocol
begin

text \<open>
  The message bus, \<^verbatim>\<open>pkg/bus/bus.go\<close>. A Go channel is a record of its buffer, its capacity
  and whether it was closed; \<open>chan_send\<close> and \<open>chan_recv\<close> give the language's outcomes: a send blocks
  on a full buffer and panics on a closed channel, a receive blocks on an empty open channel and
  yields the zero value on an empty closed one. A publisher holds the read lock from the check of
  \<open>closed\<close> to the end of the send, so a publication is two steps: \<open>enter\<close> (lock and check) and
  \<open>send\<close>. \<open>mb_in_pub\<close> and \<open>mb_out_pub\<close> are the publishers that are between the two. \<open>Close\<close> and
  \<open>RegisterHandler\<close> take the write lock, which is available only when no publisher holds the read
  lock. A history of the concurrent bus is a sequence of such steps (\<open>bus_reach\<close>).
\<close>

subsection \<open>Go channels\<close>

record 'a chan =
  ch_buf :: "'a list"
  ch_cap :: nat
  ch_closed :: bool

datatype ('s, 'r) outcome = Done 's 'r | Blocked | Panic

definition make_chan :: "nat \<Rightarrow> 'a chan" where
  "make_chan n = \<lparr>ch_buf = [], ch_cap = n, ch_closed = False\<rparr>"

definition chan_send :: "'a chan \<Rightarrow> 'a \<Rightarrow> ('a chan, unit) outcome" where
  "chan_send c x =
     (if ch_closed c then Panic
      else if length (ch_buf c) < ch_cap c then Done (c\<lparr>ch_buf := ch_buf c @ [x]\<rparr>) ()
      else Blocked)"

definition chan_recv :: "'a \<Rightarrow> 'a chan \<Rightarrow> ('a chan, 'a) outcome" where
  "chan_recv zero c =
     (case ch_buf c of
        x # xs \<Rightarrow> Done (c\<lparr>ch_buf := xs\<rparr>) x
      | [] \<Rightarrow> if ch_closed c then Done c zero else Blocked)"

definition chan_close :: "'a chan \<Rightarrow> ('a chan, unit) outcome" where
  "chan_close c = (if ch_closed c then Panic else Done (c\<lparr>ch_closed := True\<rparr>) ())"

subsection \<open>The bus\<close>

record 'h MessageBus =
  mb_inbound :: "InboundMessage chan"
  mb_outbound :: "OutboundMessage chan"
  mb_handlers :: "string \<rightharpoonup> 'h"
  mb_closed :: bool
  mb_in_pub :: "InboundMessage list"
  mb_out_pub :: "OutboundMessage list"

definition NewMessageBus :: "'h MessageBus" where
  "NewMessageBus = \<lparr>mb_inbound = make_chan 100, mb_outbound = make_chan 100, mb_handlers = Map.empty,
     mb_closed = False, mb_in_pub = [], mb_out_pub = []\<rparr>"

definition readers :: "'h MessageBus \<Rightarrow> nat" where
  "readers mb = length (mb_in_pub mb) + length (mb_out_pub mb)"

definition PublishInbound_enter :: "'h MessageBus \<Rightarrow> InboundMessage \<Rightarrow> 'h MessageBus" where
  "PublishInbound_enter mb msg =
     (if mb_closed mb then mb else mb\<lparr>mb_in_pub := mb_in_pub mb @ [msg]\<rparr>)"

definition PublishInbound_send :: "'h MessageBus \<Rightarrow> InboundMessage \<Rightarrow> ('h MessageBus, unit) outcome" where
  "PublishInbound_send mb msg =
     (case chan_send (mb_inbound mb) msg of
        Done c u \<Rightarrow> Done (mb\<lparr>mb_inbound := c, mb_in_pub := remove1 msg (mb_in_pub mb)\<rparr>) u
      | Blocked \<Rightarrow> Blocked
      | Panic \<Rightarrow> Panic)"

definition PublishOutbound_enter :: "'h MessageBus \<Rightarrow> OutboundMessage \<Rightarrow> 'h MessageBus" where
  "PublishOutbound_enter mb msg =
     (if mb_closed mb then mb else mb\<lparr>mb_out_pub := mb_out_pub mb @ [msg]\<rparr>)"

definition PublishOutbound_send :: "'h MessageBus \<Rightarrow> OutboundMessage \<Rightarrow> ('h MessageBus, unit) outcome" where
  "PublishOutbound_send mb msg =
     (case chan_send (mb_outbound mb) msg of
        Done c u \<Rightarrow> Done (mb\<lparr>mb_outbound := c, mb_out_pub := remove1 msg (mb_out_pub mb)\<rparr>) u
      | Blocked \<Rightarrow> Blocked
      | Panic \<Rightarrow> Panic)"

definition zero_inbound :: InboundMessage where
  "zero_inbound = \<lparr>im_Channel = [], im_SenderID = [], im_ChatID = [], im_Content = [], im_Media = [],
     im_SessionKey = [], im_Metadata = []\<rparr>"

definition zero_outbound :: OutboundMessage where
  "zero_outbound = \<lparr>om_Channel = [], om_ChatID = [], om_Content = []\<rparr>"

text \<open>The \<open>select\<close> of a consumer: \<open>take_ctx\<close> says which ready case is taken when the context is
  done as well; a case that is not ready is never taken.\<close>

definition ConsumeInbound :: "'h MessageBus \<Rightarrow> bool \<Rightarrow> bool \<Rightarrow> ('h MessageBus, InboundMessage \<times> bool) outcome" where
  "ConsumeInbound mb ctx_done take_ctx =
     (case chan_recv zero_inbound (mb_inbound mb) of
        Done c msg \<Rightarrow> if ctx_done \<and> take_ctx then Done mb (zero_inbound, False)
                      else Done (mb\<lparr>mb_inbound := c\<rparr>) (msg, True)
      | _ \<Rightarrow> if ctx_done then Done mb (zero_inbound, False) else Blocked)"

definition SubscribeOutbound :: "'h MessageBus \<Rightarrow> bool \<Rightarrow> bool \<Rightarrow> ('h MessageBus, OutboundMessage \<times> bool) outcome" where
  "SubscribeOutbound mb ctx_done take_ctx =
     (case chan_recv zero_outbound (mb_outbound mb) of
        Done c msg \<Rightarrow> if ctx_done \<and> take_ctx then Done mb (zero_outbound, False)
                      else Done (mb\<lparr>mb_outbound := c\<rparr>) (msg, True)
      | _ \<Rightarrow> if ctx_done then Done mb (zero_outbound, False) else Blocked)"

definition RegisterHandler :: "'h MessageBus \<Rightarrow> string \<Rightarrow> 'h \<Rightarrow> ('h MessageBus, unit) outcome" where
  "RegisterHandler mb channel handler =
     (if readers mb > 0 then Blocked
      else Done (mb\<lparr>mb_handlers := (mb_handlers mb)(channel \<mapsto> handler)\<rparr>) ())"

definition GetHandler :: "'h MessageBus \<Rightarrow> string \<Rightarrow> 'h option" where
  "GetHandler mb channel = mb_handlers mb channel"

definition Close :: "'h MessageBus \<Rightarrow> ('h MessageBus, unit) outcome" where
  "Close mb =
     (if readers mb > 0 then Blocked
      else if mb_closed mb then Done mb ()
      else case (chan_close (mb_inbound mb), chan_close (mb_outbound mb)) of
             (Done i _, Done out _) \<Rightarrow> Done (mb\<lparr>mb_closed := True, mb_inbound := i, mb_outbound := out\<rparr>) ()
           | _ \<Rightarrow> Panic)"

subsection \<open>Histories\<close>

datatype 'h bus_event =
    EnterIn InboundMessage | SendIn InboundMessage
  | EnterOut OutboundMessage | SendOut OutboundMessage
  | RecvIn bool bool | RecvOut bool bool
  | Register string 'h | CloseBus

definition drop_reply :: "('s, 'r) outcome \<Rightarrow> ('s, unit) outcome" where
  "drop_reply r = (case r of Done s _ \<Rightarrow> Done s () | Blocked \<Rightarrow> Blocked | Panic \<Rightarrow> Panic)"

text \<open>A send is a step of a publisher that has entered; nobody else can take it.\<close>

fun bus_step :: "'h MessageBus \<Rightarrow> 'h bus_event \<Rightarrow> ('h MessageBus, unit) outcome" where
  "bus_step mb (EnterIn m) = Done (PublishInbound_enter mb m) ()"
| "bus_step mb (SendIn m) = (if m \<in> set (mb_in_pub mb) then PublishInbound_send mb m else Blocked)"
| "bus_step mb (EnterOut m) = Done (PublishOutbound_enter mb m) ()"
| "bus_step mb (SendOut m) = (if m \<in> set (mb_out_pub mb) then PublishOutbound_send mb m else Blocked)"
| "bus_step mb (RecvIn c t) = drop_reply (ConsumeInbound mb c t)"
| "bus_step mb (RecvOut c t) = drop_reply (SubscribeOutbound mb c t)"
| "bus_step mb (Register ch h) = RegisterHandler mb ch h"
| "bus_step mb CloseBus = Close mb"

text \<open>The messages an event puts into, and takes out of, the inbound channel.\<close>

fun sent_in :: "'h bus_event \<Rightarrow> InboundMessage list" where
  "sent_in (SendIn m) = [m]"
| "sent_in _ = []"

fun received_in :: "'h MessageBus \<Rightarrow> 'h bus_event \<Rightarrow> InboundMessage list" where
  "received_in mb (RecvIn c t) =
     (case (ch_buf (mb_inbound mb), ConsumeInbound mb c t) of
        (_ # _, Done _ (m, True)) \<Rightarrow> [m]
      | _ \<Rightarrow> [])"
| "received_in mb _ = []"

text \<open>\<open>bus_reach mb sent got\<close>: the state is reached by a history that sent and received these
  messages on the inbound channel.\<close>

inductive bus_reach :: "'h MessageBus \<Rightarrow> InboundMessage list \<Rightarrow> InboundMessage list \<Rightarrow> bool" where
  bus_start: "bus_reach NewMessageBus [] []"
| bus_next: "bus_reach mb sent got \<Longrightarrow> bus_step mb e = Done mb' () \<Longrightarrow>
    bus_reach mb' (sent @ sent_in e) (got @ received_in mb e)"

definition bus_inv :: "'h MessageBus \<Rightarrow> bool" where
  "bus_inv mb \<longleftrightarrow>
     ch_cap (mb_inbound mb) = 100 \<and> ch_cap (mb_outbound mb) = 100 \<and>
     length (ch_buf (mb_inbound mb)) \<le> 100 \<and> length (ch_buf (mb_outbound mb)) \<le> 100 \<and>
     ch_closed (mb_inbound mb) = mb_closed mb \<and> ch_closed (mb_outbound mb) = mb_closed mb \<and>
     (mb_closed mb \<longrightarrow> mb_in_pub mb = [] \<and> mb_out_pub mb = [])"

lemmas bus_ops = PublishInbound_enter_def PublishInbound_send_def PublishOutbound_enter_def
  PublishOutbound_send_def ConsumeInbound_def SubscribeOutbound_def RegisterHandler_def Close_def
  chan_send_def chan_recv_def chan_close_def drop_reply_def

lemma bus_inv_start: "bus_inv NewMessageBus"
  by (simp add: bus_inv_def NewMessageBus_def make_chan_def)

lemma bus_inv_step:
  assumes "bus_inv mb" "bus_step mb e = Done mb' u"
  shows "bus_inv mb'"
  using assms
  by (cases e) (auto simp: bus_inv_def bus_ops readers_def split: if_splits list.splits)

lemma bus_reach_inv: "bus_reach mb sent got \<Longrightarrow> bus_inv mb"
  by (induction rule: bus_reach.induct) (auto intro: bus_inv_start bus_inv_step)

lemma bus_step_fifo:
  assumes "bus_step mb e = Done mb' u"
  shows "received_in mb e @ ch_buf (mb_inbound mb') = ch_buf (mb_inbound mb) @ sent_in e"
  using assms
  by (cases e) (auto simp: bus_ops split: if_splits list.splits prod.splits)

lemma bus_reach_fifo: "bus_reach mb sent got \<Longrightarrow> sent = got @ ch_buf (mb_inbound mb)"
proof (induction rule: bus_reach.induct)
  case bus_start
  show ?case by (simp add: NewMessageBus_def make_chan_def)
next
  case (bus_next mb sent got e mb')
  then show ?case using bus_step_fifo [OF bus_next.hyps(2)] by simp
qed

subsection \<open>Properties\<close>

lemma bus_step_no_panic: "bus_inv mb \<Longrightarrow> bus_step mb e \<noteq> Panic"
  by (cases e) (auto simp: bus_inv_def bus_ops readers_def split: list.splits)


text \<open>Running a list of events from a state; \<open>None\<close> as soon as one of them blocks or panics.\<close>

fun run_bus :: "'h bus_event list \<Rightarrow> 'h MessageBus \<times> InboundMessage list \<times> InboundMessage list \<Rightarrow>
    ('h MessageBus \<times> InboundMessage list \<times> InboundMessage list) option" where
  "run_bus [] st = Some st"
| "run_bus (e # es) (mb, sent, got) =
     (case bus_step mb e of
        Done mb' _ \<Rightarrow> run_bus es (mb', sent @ sent_in e, got @ received_in mb e)
      | _ \<Rightarrow> None)"

lemma run_bus_reach:
  "bus_reach mb sent got \<Longrightarrow> run_bus es (mb, sent, got) = Some (mb', sent', got') \<Longrightarrow> bus_reach mb' sent' got'"
  by (induction es arbitrary: mb sent got) (auto split: outcome.splits dest: bus_next)

definition inbound :: "string \<Rightarrow> InboundMessage" where
  "inbound x = zero_inbound\<lparr>im_Channel := ''cli'', im_Content := x\<rparr>"

definition sample_history :: "unit bus_event list" where
  "sample_history = [EnterIn (inbound ''a''), EnterIn (inbound ''b''), SendIn (inbound ''b''),
     SendIn (inbound ''a''), RecvIn False False, CloseBus]"

lemma sample_bus_run: "map_option snd (run_bus sample_history (NewMessageBus, [], [])) =
    Some ([inbound ''b'', inbound ''a''], [inbound ''b''])"
  by code_simp


text \<open>Back-pressure: a publisher that has entered waits exactly while the inbound buffer is
  full; while it waits, \<open>Close\<close> and \<open>RegisterHandler\<close> wait too; and one receive by a consumer lets
  the publisher finish, so the lock is released as long as somebody consumes.\<close>

theorem bus_backpressure:
  assumes "bus_reach mb sent got" "m \<in> set (mb_in_pub mb)"
  shows "(bus_step mb (SendIn m) = Blocked \<longleftrightarrow> length (ch_buf (mb_inbound mb)) = 100) \<and>
    Close mb = Blocked \<and> RegisterHandler mb channel h = Blocked \<and>
    (length (ch_buf (mb_inbound mb)) = 100 \<longrightarrow>
       (\<exists>mb1 mb2. bus_step mb (RecvIn False False) = Done mb1 () \<and> bus_step mb1 (SendIn m) = Done mb2 ()))"
proof -
  have inv: "bus_inv mb" using bus_reach_inv [OF assms(1)] .
  have r: "readers mb > 0" using assms(2) by (auto simp: readers_def)
  have open': "\<not> ch_closed (mb_inbound mb)" using inv assms(2) by (auto simp: bus_inv_def)
  have send: "bus_step mb (SendIn m) = Blocked \<longleftrightarrow> length (ch_buf (mb_inbound mb)) = 100"
    using inv open' assms(2) by (auto simp: bus_inv_def bus_ops)
  have release: "\<exists>mb1 mb2. bus_step mb (RecvIn False False) = Done mb1 () \<and> bus_step mb1 (SendIn m) = Done mb2 ()"
    if "length (ch_buf (mb_inbound mb)) = 100"
    using that inv open' assms(2) by (cases "ch_buf (mb_inbound mb)") (auto simp: bus_inv_def bus_ops)
  show ?thesis using send release r by (simp add: Close_def RegisterHandler_def)
qed

theorem bus_backpressure_witness:
  "\<exists>mb. bus_reach (mb :: unit MessageBus) [] [] \<and> Close mb = Blocked \<and>
     bus_step mb (SendIn (inbound ''a'')) \<noteq> Blocked"
proof -
  let ?mb = "PublishInbound_enter NewMessageBus (inbound ''a'') :: unit MessageBus"
  have "bus_reach ?mb ([] @ sent_in (EnterIn (inbound ''a'') :: unit bus_event))
      ([] @ received_in (NewMessageBus :: unit MessageBus) (EnterIn (inbound ''a'')))"
    by (rule bus_next [OF bus_start]) simp
  then have r: "bus_reach ?mb [] []" by simp
  have m: "inbound ''a'' \<in> set (mb_in_pub ?mb)"
    by (simp add: PublishInbound_enter_def NewMessageBus_def)
  have n: "length (ch_buf (mb_inbound ?mb)) \<noteq> 100"
    by (simp add: PublishInbound_enter_def NewMessageBus_def make_chan_def)
  show ?thesis using bus_backpressure [OF r m] r n by blast
qed

text \<open>A consumer cannot tell a closed bus from a message: once the buffer of a closed bus is
  drained, \<open>ConsumeInbound\<close> never blocks and returns the zero message with a result of true, again
  and again, although nobody sent it. A publication after \<open>Close\<close> is dropped silently.\<close>

theorem closed_bus_yields_empty_messages:
  "let closed = mb\<lparr>mb_closed := True, mb_inbound := (mb_inbound mb)\<lparr>ch_closed := True, ch_buf := []\<rparr>\<rparr>
   in ConsumeInbound closed False take_ctx = Done closed (zero_inbound, True) \<and>
      PublishInbound_enter closed m = closed"
  by (simp add: ConsumeInbound_def chan_recv_def PublishInbound_enter_def)

end
