(* ===== verification/Cron.thy ===== *)
theory Cron
  imports Errors
begin

text \<open>
  The cron service, \<^verbatim>\<open>pkg/cron/service.go\<close>. Instants are Unix milliseconds held in
  \<^verbatim>\<open>int64\<close>; the one addition that can wrap is written with \<open>wrap64\<close>. The expression library
  gronx is the parameter \<open>tick\<close>: \<open>tick expr now\<close> is the next tick strictly after \<open>now\<close>, or
  \<open>None\<close> for an error. The job handler is of an abstract type \<open>'h\<close>; it runs outside the lock, so
  \<open>call\<close> may change the whole service. The store file and the outcome of each write are explicit;
  a write that fails half-way leaves an undecodable file, because \<^verbatim>\<open>os.WriteFile\<close> truncates first.
\<close>

subsection \<open>Data\<close>

record CronSchedule =
  sch_Kind :: string
  sch_AtMS :: "int option"
  sch_EveryMS :: "int option"
  sch_Expr :: string
  sch_TZ :: string

record CronPayload =
  pl_Kind :: string
  pl_Message :: string
  pl_Command :: string
  pl_Deliver :: bool
  pl_Channel :: string
  pl_To :: string

record CronJobState =
  js_NextRunAtMS :: "int option"
  js_LastRunAtMS :: "int option"
  js_LastStatus :: string
  js_LastError :: string

record CronJob =
  cj_ID :: string
  cj_Name :: string
  cj_Enabled :: bool
  cj_Schedule :: CronSchedule
  cj_Payload :: CronPayload
  cj_State :: CronJobState
  cj_CreatedAtMS :: int
  cj_UpdatedAtMS :: int
  cj_DeleteAfterRun :: bool

record CronStore =
  st_Version :: int
  st_Jobs :: "CronJob list"

text \<open>The store file: missing, unreadable, not decodable (with what the decoder had filled in before
  it failed) or holding a store.\<close>

datatype cron_file = NoFile | Unreadable | Corrupt CronStore | Stored CronStore

datatype save_result = SaveOk | SaveRefused | SaveTorn

record 'h CronService =
  cs_file :: cron_file
  cs_store :: CronStore
  cs_onJob :: "'h option"
  cs_running :: bool

type_synonym next_tick = "string \<Rightarrow> int \<Rightarrow> int option"

definition empty_store :: CronStore where
  "empty_store = \<lparr>st_Version = 1, st_Jobs = []\<rparr>"

definition jobs :: "'h CronService \<Rightarrow> CronJob list" where
  "jobs cs = st_Jobs (cs_store cs)"

definition set_jobs :: "'h CronService \<Rightarrow> CronJob list \<Rightarrow> 'h CronService" where
  "set_jobs cs js = cs\<lparr>cs_store := (cs_store cs)\<lparr>st_Jobs := js\<rparr>\<rparr>"

definition set_next :: "int option \<Rightarrow> CronJob \<Rightarrow> CronJob" where
  "set_next n job = job\<lparr>cj_State := (cj_State job)\<lparr>js_NextRunAtMS := n\<rparr>\<rparr>"

definition next_run :: "CronJob \<Rightarrow> int option" where
  "next_run job = js_NextRunAtMS (cj_State job)"

fun update_first :: "('a \<Rightarrow> bool) \<Rightarrow> ('a \<Rightarrow> 'a) \<Rightarrow> 'a list \<Rightarrow> 'a list" where
  "update_first P f [] = []"
| "update_first P f (x # xs) = (if P x then f x # xs else x # update_first P f xs)"

subsection \<open>Store file\<close>

definition loadStore :: "'h CronService \<Rightarrow> 'h CronService \<times> GoError option" where
  "loadStore cs =
     (case cs_file cs of
        NoFile \<Rightarrow> (cs\<lparr>cs_store := empty_store\<rparr>, None)
      | Unreadable \<Rightarrow> (cs\<lparr>cs_store := empty_store\<rparr>, Some (ErrNew ''permission denied''))
      | Corrupt st \<Rightarrow> (cs\<lparr>cs_store := st\<rparr>, Some (ErrNew ''invalid json''))
      | Stored st \<Rightarrow> (cs\<lparr>cs_store := st\<rparr>, None))"

fun saveStoreUnsafe :: "save_result \<Rightarrow> 'h CronService \<Rightarrow> 'h CronService \<times> GoError option" where
  "saveStoreUnsafe SaveOk cs = (cs\<lparr>cs_file := Stored (cs_store cs)\<rparr>, None)"
| "saveStoreUnsafe SaveRefused cs = (cs, Some (ErrNew ''permission denied''))"
| "saveStoreUnsafe SaveTorn cs = (cs\<lparr>cs_file := Corrupt empty_store\<rparr>, Some (ErrNew ''no space left''))"

definition NewCronService :: "cron_file \<Rightarrow> 'h option \<Rightarrow> 'h CronService" where
  "NewCronService file onJob =
     fst (loadStore \<lparr>cs_file = file, cs_store = empty_store, cs_onJob = onJob, cs_running = False\<rparr>)"

definition Load :: "'h CronService \<Rightarrow> 'h CronService \<times> GoError option" where
  "Load cs = loadStore cs"

definition SetOnJob :: "'h CronService \<Rightarrow> 'h option \<Rightarrow> 'h CronService" where
  "SetOnJob cs handler = cs\<lparr>cs_onJob := handler\<rparr>"

subsection \<open>Schedules\<close>

definition computeNextRun :: "next_tick \<Rightarrow> CronSchedule \<Rightarrow> int \<Rightarrow> int option" where
  "computeNextRun tick schedule nowMS =
     (if sch_Kind schedule = ''at'' then
        (case sch_AtMS schedule of
           Some at \<Rightarrow> if at > nowMS then Some at else None
         | None \<Rightarrow> None)
      else if sch_Kind schedule = ''every'' then
        (case sch_EveryMS schedule of
           None \<Rightarrow> None
         | Some every \<Rightarrow> if every \<le> 0 then None else Some (wrap64 (nowMS + every)))
      else if sch_Kind schedule = ''cron'' then
        (if sch_Expr schedule = [] then None else tick (sch_Expr schedule) nowMS)
      else None)"

definition recomputeNextRuns :: "next_tick \<Rightarrow> int \<Rightarrow> 'h CronService \<Rightarrow> 'h CronService" where
  "recomputeNextRuns tick now cs =
     set_jobs cs (map (\<lambda>job. if cj_Enabled job then set_next (computeNextRun tick (cj_Schedule job) now) job else job)
                    (jobs cs))"

definition wake_of :: "int option \<Rightarrow> CronJob \<Rightarrow> int option" where
  "wake_of nextWake job =
     (case (cj_Enabled job, next_run job) of
        (True, Some n) \<Rightarrow> (case nextWake of None \<Rightarrow> Some n | Some w \<Rightarrow> if n < w then Some n else Some w)
      | _ \<Rightarrow> nextWake)"

definition getNextWakeMS :: "'h CronService \<Rightarrow> int option" where
  "getNextWakeMS cs = foldl wake_of None (jobs cs)"

subsection \<open>Starting, stopping, and the job operations\<close>

definition Start :: "next_tick \<Rightarrow> int \<Rightarrow> save_result \<Rightarrow> 'h CronService \<Rightarrow> 'h CronService \<times> GoError option" where
  "Start tick now sv cs =
     (if cs_running cs then (cs, None)
      else case loadStore cs of
             (cs, Some e) \<Rightarrow> (cs, Some (ErrWrap ''failed to load store: '' e))
           | (cs, None) \<Rightarrow>
               (case saveStoreUnsafe sv (recomputeNextRuns tick now cs) of
                  (cs, Some e) \<Rightarrow> (cs, Some (ErrWrap ''failed to save store: '' e))
                | (cs, None) \<Rightarrow> (cs\<lparr>cs_running := True\<rparr>, None)))"

definition Stop :: "'h CronService \<Rightarrow> 'h CronService" where
  "Stop cs = cs\<lparr>cs_running := False\<rparr>"

definition removeJobUnsafe :: "save_result \<Rightarrow> string \<Rightarrow> 'h CronService \<Rightarrow> 'h CronService \<times> bool" where
  "removeJobUnsafe sv jobID cs =
     (let before = length (jobs cs);
          cs = set_jobs cs (filter (\<lambda>job. cj_ID job \<noteq> jobID) (jobs cs));
          removed = length (jobs cs) < before
      in ((if removed then fst (saveStoreUnsafe sv cs) else cs), removed))"

definition RemoveJob :: "save_result \<Rightarrow> string \<Rightarrow> 'h CronService \<Rightarrow> 'h CronService \<times> bool" where
  "RemoveJob sv jobID cs = removeJobUnsafe sv jobID cs"

definition new_job :: "next_tick \<Rightarrow> int \<Rightarrow> string \<Rightarrow> string \<Rightarrow> CronSchedule \<Rightarrow> string \<Rightarrow> bool \<Rightarrow> string \<Rightarrow> string \<Rightarrow> CronJob" where
  "new_job tick now jid name schedule message deliver channel dest =
     \<lparr>cj_ID = jid, cj_Name = name, cj_Enabled = True, cj_Schedule = schedule,
      cj_Payload = \<lparr>pl_Kind = ''agent_turn'', pl_Message = message, pl_Command = [], pl_Deliver = deliver,
        pl_Channel = channel, pl_To = dest\<rparr>,
      cj_State = \<lparr>js_NextRunAtMS = computeNextRun tick schedule now, js_LastRunAtMS = None,
        js_LastStatus = [], js_LastError = []\<rparr>,
      cj_CreatedAtMS = now, cj_UpdatedAtMS = now, cj_DeleteAfterRun = (sch_Kind schedule = ''at'')\<rparr>"

text \<open>\<open>jid\<close> is the identifier \<^verbatim>\<open>generateID\<close> draws.\<close>

definition AddJob :: "next_tick \<Rightarrow> int \<Rightarrow> string \<Rightarrow> save_result \<Rightarrow> string \<Rightarrow> CronSchedule \<Rightarrow> string \<Rightarrow> bool \<Rightarrow>
    string \<Rightarrow> string \<Rightarrow> 'h CronService \<Rightarrow> 'h CronService \<times> (GoError + CronJob)" where
  "AddJob tick now jid sv name schedule message deliver channel dest cs =
     (let job = new_job tick now jid name schedule message deliver channel dest in
      case saveStoreUnsafe sv (set_jobs cs (jobs cs @ [job])) of
        (cs, Some e) \<Rightarrow> (cs, Inl e)
      | (cs, None) \<Rightarrow> (cs, Inr job))"

definition UpdateJob :: "int \<Rightarrow> save_result \<Rightarrow> CronJob \<Rightarrow> 'h CronService \<Rightarrow> 'h CronService \<times> GoError option" where
  "UpdateJob now sv job cs =
     (if \<exists>j \<in> set (jobs cs). cj_ID j = cj_ID job
      then saveStoreUnsafe sv (set_jobs cs
             (update_first (\<lambda>j. cj_ID j = cj_ID job) (\<lambda>_. job\<lparr>cj_UpdatedAtMS := now\<rparr>) (jobs cs)))
      else (cs, Some (ErrNew ''job not found'')))"

definition enable_fields :: "next_tick \<Rightarrow> int \<Rightarrow> int \<Rightarrow> bool \<Rightarrow> CronJob \<Rightarrow> CronJob" where
  "enable_fields tick now1 now2 enabled job =
     set_next (if enabled then computeNextRun tick (cj_Schedule job) now2 else None)
       (job\<lparr>cj_Enabled := enabled, cj_UpdatedAtMS := now1\<rparr>)"

definition EnableJob :: "next_tick \<Rightarrow> int \<Rightarrow> int \<Rightarrow> save_result \<Rightarrow> string \<Rightarrow> bool \<Rightarrow> 'h CronService \<Rightarrow>
    'h CronService \<times> CronJob option" where
  "EnableJob tick now1 now2 sv jobID enabled cs =
     (case find (\<lambda>job. cj_ID job = jobID) (jobs cs) of
        None \<Rightarrow> (cs, None)
      | Some job \<Rightarrow>
          (fst (saveStoreUnsafe sv (set_jobs cs
             (update_first (\<lambda>j. cj_ID j = jobID) (enable_fields tick now1 now2 enabled) (jobs cs)))),
           Some (enable_fields tick now1 now2 enabled job)))"

definition ListJobs :: "bool \<Rightarrow> 'h CronService \<Rightarrow> CronJob list" where
  "ListJobs includeDisabled cs = (if includeDisabled then jobs cs else filter cj_Enabled (jobs cs))"

record cron_status =
  cst_enabled :: bool
  cst_jobs :: int
  cst_nextWakeAtMS :: "int option"

definition Status :: "'h CronService \<Rightarrow> cron_status" where
  "Status cs = \<lparr>cst_enabled = cs_running cs, cst_jobs = int (length (jobs cs)), cst_nextWakeAtMS = getNextWakeMS cs\<rparr>"

subsection \<open>Executing due jobs\<close>

definition is_due :: "int \<Rightarrow> CronJob \<Rightarrow> bool" where
  "is_due now job \<longleftrightarrow> cj_Enabled job \<and> (case next_run job of None \<Rightarrow> False | Some n \<Rightarrow> n \<le> now)"

text \<open>The locked part of \<^verbatim>\<open>checkJobs\<close>: the identifiers of the due jobs, whose next run is
  cleared before the lock is released.\<close>

definition collect_due :: "int \<Rightarrow> save_result \<Rightarrow> 'h CronService \<Rightarrow> 'h CronService \<times> string list" where
  "collect_due now sv cs =
     (if \<not> cs_running cs then (cs, [])
      else let dueJobIDs = map cj_ID (filter (is_due now) (jobs cs));
               cs = set_jobs cs (map (\<lambda>job. if cj_ID job \<in> set dueJobIDs then set_next None job else job) (jobs cs))
           in (fst (saveStoreUnsafe sv cs), dueJobIDs))"

definition record_run :: "int \<Rightarrow> int \<Rightarrow> GoError option \<Rightarrow> CronJob \<Rightarrow> CronJob" where
  "record_run startTime now err job =
     job\<lparr>cj_UpdatedAtMS := now,
         cj_State := (cj_State job)\<lparr>js_LastRunAtMS := Some startTime,
           js_LastStatus := (case err of Some _ \<Rightarrow> ''error'' | None \<Rightarrow> ''ok''),
           js_LastError := (case err of Some e \<Rightarrow> error_text e | None \<Rightarrow> [])\<rparr>\<rparr>"

definition after_run :: "next_tick \<Rightarrow> int \<Rightarrow> CronJob \<Rightarrow> CronJob" where
  "after_run tick now job =
     (if sch_Kind (cj_Schedule job) = ''at'' then set_next None (job\<lparr>cj_Enabled := False\<rparr>)
      else set_next (computeNextRun tick (cj_Schedule job) now) job)"

text \<open>The second locked part of \<^verbatim>\<open>executeJobByID\<close>, after the handler has returned.\<close>

definition finish_job :: "next_tick \<Rightarrow> int \<Rightarrow> int \<Rightarrow> int \<Rightarrow> save_result \<Rightarrow> save_result \<Rightarrow> GoError option \<Rightarrow> string \<Rightarrow>
    'h CronService \<Rightarrow> 'h CronService" where
  "finish_job tick startTime now1 now2 sv1 sv2 err jobID cs =
     (case find (\<lambda>job. cj_ID job = jobID) (jobs cs) of
        None \<Rightarrow> cs
      | Some job \<Rightarrow>
          let cs = set_jobs cs (update_first (\<lambda>j. cj_ID j = jobID) (record_run startTime now1 err) (jobs cs));
              cs = (if sch_Kind (cj_Schedule job) = ''at'' \<and> cj_DeleteAfterRun job
                    then fst (removeJobUnsafe sv1 (cj_ID job) cs)
                    else set_jobs cs (update_first (\<lambda>j. cj_ID j = jobID) (after_run tick now2) (jobs cs)))
          in fst (saveStoreUnsafe sv2 cs))"

record exec_env =
  ee_start :: int
  ee_updated :: int
  ee_next :: int
  ee_save1 :: save_result
  ee_save2 :: save_result

definition executeJobByID :: "next_tick \<Rightarrow> ('h \<Rightarrow> CronJob \<Rightarrow> 'h CronService \<Rightarrow> 'h CronService \<times> GoError option) \<Rightarrow>
    exec_env \<Rightarrow> string \<Rightarrow> 'h CronService \<Rightarrow> 'h CronService" where
  "executeJobByID tick call env jobID cs =
     (case find (\<lambda>job. cj_ID job = jobID) (jobs cs) of
        None \<Rightarrow> cs
      | Some callbackJob \<Rightarrow>
          let (cs, err) = (case cs_onJob cs of Some h \<Rightarrow> call h callbackJob cs | None \<Rightarrow> (cs, None))
          in finish_job tick (ee_start env) (ee_updated env) (ee_next env) (ee_save1 env) (ee_save2 env) err jobID cs)"

definition checkJobs :: "next_tick \<Rightarrow> ('h \<Rightarrow> CronJob \<Rightarrow> 'h CronService \<Rightarrow> 'h CronService \<times> GoError option) \<Rightarrow>
    int \<Rightarrow> save_result \<Rightarrow> (nat \<Rightarrow> exec_env) \<Rightarrow> 'h CronService \<Rightarrow> 'h CronService" where
  "checkJobs tick call now sv env cs =
     (let (cs, dueJobIDs) = collect_due now sv cs
      in fold (\<lambda>(i, jobID). executeJobByID tick call (env i) jobID) (enumerate 0 dueJobIDs) cs)"

subsection \<open>Generic facts\<close>

lemma cs_ops_jobs [simp]:
  "jobs (set_jobs cs js) = js" "cs_running (set_jobs cs js) = cs_running cs"
  "cs_onJob (set_jobs cs js) = cs_onJob cs" "cs_file (set_jobs cs js) = cs_file cs"
  "jobs (cs\<lparr>cs_file := f\<rparr>) = jobs cs" "jobs (cs\<lparr>cs_running := r\<rparr>) = jobs cs"
  "jobs (cs\<lparr>cs_onJob := h\<rparr>) = jobs cs"
  by (simp_all add: jobs_def set_jobs_def)

lemma save_simps [simp]:
  "jobs (fst (saveStoreUnsafe sv cs)) = jobs cs"
  "cs_running (fst (saveStoreUnsafe sv cs)) = cs_running cs"
  "cs_store (fst (saveStoreUnsafe sv cs)) = cs_store cs"
  by (cases sv; simp)+

lemma save_file_cases: "cs_file (fst (saveStoreUnsafe sv cs)) \<in> {cs_file cs, Stored (cs_store cs), Corrupt empty_store}"
  by (cases sv) simp_all

lemma save_error: "snd (saveStoreUnsafe sv cs) = None \<longleftrightarrow> sv = SaveOk"
  by (cases sv) simp_all

lemma set_next_simps [simp]:
  "cj_ID (set_next n job) = cj_ID job" "cj_Enabled (set_next n job) = cj_Enabled job"
  "cj_Schedule (set_next n job) = cj_Schedule job" "next_run (set_next n job) = n"
  "cj_DeleteAfterRun (set_next n job) = cj_DeleteAfterRun job"
  by (simp_all add: set_next_def next_run_def)

lemma record_run_simps [simp]:
  "cj_ID (record_run t n e job) = cj_ID job" "cj_Enabled (record_run t n e job) = cj_Enabled job"
  "cj_Schedule (record_run t n e job) = cj_Schedule job" "next_run (record_run t n e job) = next_run job"
  by (simp_all add: record_run_def next_run_def)

lemma after_run_simps [simp]:
  "cj_ID (after_run tick n job) = cj_ID job" "cj_Schedule (after_run tick n job) = cj_Schedule job"
  by (simp_all add: after_run_def)

lemma enable_simps [simp]:
  "cj_ID (enable_fields tick t1 t2 b job) = cj_ID job" "cj_Enabled (enable_fields tick t1 t2 b job) = b"
  "cj_Schedule (enable_fields tick t1 t2 b job) = cj_Schedule job"
  by (simp_all add: enable_fields_def)

lemma set_update_first: "set (update_first P f xs) \<subseteq> set xs \<union> {f x |x. x \<in> set xs \<and> P x}"
  by (induction xs) auto

lemma map_update_first: "(\<And>x. P x \<Longrightarrow> g (f x) = g x) \<Longrightarrow> map g (update_first P f xs) = map g xs"
  by (induction xs) auto

lemma is_due_set_next [simp]: "\<not> is_due now (set_next None job)"
  by (simp add: is_due_def)

subsection \<open>Sequential behaviour\<close>

lemma jobs_collect:
  "jobs (fst (collect_due now sv cs)) =
     (if cs_running cs
      then map (\<lambda>job. if cj_ID job \<in> cj_ID ` {j \<in> set (jobs cs). is_due now j} then set_next None job else job) (jobs cs)
      else jobs cs)"
  by (simp add: collect_due_def Let_def)

lemma ids_collect: "map cj_ID (jobs (fst (collect_due now sv cs))) = map cj_ID (jobs cs)"
  by (simp add: jobs_collect comp_def)

lemma collect_nothing_left: "cs_running cs \<Longrightarrow> j \<in> set (jobs (fst (collect_due now sv cs))) \<Longrightarrow> \<not> is_due now j"
  by (auto simp: jobs_collect split: if_splits)

lemma foldl_wake_of:
  "foldl wake_of w js = (let A = {n. \<exists>j \<in> set js. cj_Enabled j \<and> next_run j = Some n} \<union> set_option w
                         in if A = {} then None else Some (Min A))"
proof (induction js arbitrary: w)
  case Nil
  show ?case by (cases w) simp_all
next
  case (Cons j js)
  let ?A = "\<lambda>js. {n. \<exists>j \<in> set js. cj_Enabled j \<and> next_run j = Some n}"
  have fin: "finite (?A js)"
    by (rule finite_subset [of _ "(\<lambda>j. the (next_run j)) ` set js"]) force+
  have step: "?A (j # js) = (if cj_Enabled j then set_option (next_run j) else {}) \<union> ?A js"
    by (auto simp: elem_set)
  show ?case
  proof (cases "cj_Enabled j \<and> next_run j \<noteq> None")
    case False
    then have w: "wake_of w j = w" and e: "(if cj_Enabled j then set_option (next_run j) else {}) = {}"
      by (auto simp: wake_of_def split: bool.split option.split)
    show ?thesis using Cons [of w] unfolding foldl_Cons step w e by simp
  next
    case True
    then obtain n where n: "cj_Enabled j" "next_run j = Some n" by auto
    have w: "wake_of w j = Some (Min (insert n (set_option w)))"
      using n by (cases w) (auto simp: wake_of_def min_def)
    define A where "A = ?A js"
    have "Min (A \<union> {Min (insert n (set_option w))}) = Min (A \<union> insert n (set_option w))"
      using fin unfolding A_def [symmetric] by (cases "A = {}"; cases w) (simp_all add: Min_Un)
    moreover have "(if cj_Enabled j then set_option (next_run j) else {}) = {n}" using n by simp
    ultimately show ?thesis using Cons [of "wake_of w j"]
      unfolding foldl_Cons step w A_def [symmetric] Let_def by simp
  qed
qed

lemma getNextWakeMS_Min:
  "getNextWakeMS cs = (let A = {n. \<exists>j \<in> set (jobs cs). cj_Enabled j \<and> next_run j = Some n}
                       in if A = {} then None else Some (Min A))"
  by (simp add: getNextWakeMS_def foldl_wake_of)

lemma collect_ids: "cs_running cs \<Longrightarrow> snd (collect_due now sv cs) = map cj_ID (filter (is_due now) (jobs cs))"
  by (simp add: collect_due_def Let_def)

lemma wake_reached:
  "(case cst_nextWakeAtMS (Status cs) of None \<Rightarrow> False | Some w \<Rightarrow> w \<le> now) \<longleftrightarrow>
     (\<exists>n \<in> {n. \<exists>j \<in> set (jobs cs). cj_Enabled j \<and> next_run j = Some n}. n \<le> now)"
proof -
  define A where "A = {n. \<exists>j \<in> set (jobs cs). cj_Enabled j \<and> next_run j = Some n}"
  have fin: "finite A" unfolding A_def
    by (rule finite_subset [of _ "(\<lambda>j. the (next_run j)) ` set (jobs cs)"]) force+
  have "getNextWakeMS cs = (if A = {} then None else Some (Min A))"
    by (simp only: getNextWakeMS_Min A_def Let_def)
  then show ?thesis unfolding A_def [symmetric] using Min_le_iff [OF fin, of now]
    by (simp add: Status_def split: if_splits)
qed

lemma find_distinct:
  "distinct (map cj_ID js) \<Longrightarrow> job \<in> set js \<Longrightarrow> find (\<lambda>j. cj_ID j = cj_ID job) js = Some job"
  by (induction js) (auto simp: image_iff)

lemma set_update_distinct:
  "distinct (map cj_ID js) \<Longrightarrow> job \<in> set js \<Longrightarrow>
   set (update_first (\<lambda>j. cj_ID j = cj_ID job) f js) = insert (f job) {j \<in> set js. cj_ID j \<noteq> cj_ID job}"
  by (induction js) (auto simp: image_iff)

subsection \<open>The concurrent service\<close>

text \<open>
  Every section under the lock is one atomic step. \<open>runLoop\<close> is a thread that waits for a tick or
  the stop channel, or works through the identifiers it collected; between picking a job and
  finishing it the handler runs, and any other step may happen. \<open>Start\<close> after \<open>Stop\<close> creates a
  second thread while the first may still be busy. The clock never goes backwards. \<open>sys_log\<close>
  records the calls of the handler with their time.
\<close>

datatype loop_state = Waiting | Executing "string list" | InHandler string int "string list" | Exited

record 'h cron_sys =
  sys_svc :: "'h CronService"
  sys_clock :: int
  sys_loops :: "(bool \<times> loop_state) list"
  sys_log :: "(string \<times> int) list"

datatype 'h cron_event =
    Advance int
  | StartService save_result | StopService
  | Tick nat save_result | LoopExit nat | Pick nat | LoopDone nat
  | Finish nat "GoError option" int int save_result save_result
  | Add string save_result string CronSchedule string bool string string
  | Remove save_result string | Enable int save_result string bool
  | Update save_result CronJob | Reload | SetHandler "'h option"

definition set_loop :: "'h cron_sys \<Rightarrow> nat \<Rightarrow> loop_state \<Rightarrow> 'h cron_sys" where
  "set_loop sys i l = sys\<lparr>sys_loops := (sys_loops sys)[i := (fst (sys_loops sys ! i), l)]\<rparr>"

definition loop_at :: "'h cron_sys \<Rightarrow> nat \<Rightarrow> loop_state option" where
  "loop_at sys i = (if i < length (sys_loops sys) then Some (snd (sys_loops sys ! i)) else None)"

definition set_svc :: "'h cron_sys \<Rightarrow> 'h CronService \<Rightarrow> 'h cron_sys" where
  "set_svc sys cs = sys\<lparr>sys_svc := cs\<rparr>"

fun cron_step :: "next_tick \<Rightarrow> 'h cron_event \<Rightarrow> 'h cron_sys \<Rightarrow> 'h cron_sys option" where
  "cron_step tick (Advance d) sys = (if d < 0 then None else Some (sys\<lparr>sys_clock := sys_clock sys + d\<rparr>))"
| "cron_step tick (StartService sv) sys =
     (let (cs, err) = Start tick (sys_clock sys) sv (sys_svc sys)
      in Some (if cs_running (sys_svc sys) \<or> err \<noteq> None then set_svc sys cs
               else (set_svc sys cs)\<lparr>sys_loops := sys_loops sys @ [(False, Waiting)]\<rparr>))"
| "cron_step tick StopService sys =
     Some (if cs_running (sys_svc sys)
           then (set_svc sys (Stop (sys_svc sys)))\<lparr>sys_loops := map (\<lambda>(_, l). (True, l)) (sys_loops sys)\<rparr>
           else sys)"
| "cron_step tick (Tick i sv) sys =
     (case loop_at sys i of
        Some Waiting \<Rightarrow> (let (cs, due) = collect_due (sys_clock sys) sv (sys_svc sys)
                        in Some (set_loop (set_svc sys cs) i (Executing due)))
      | _ \<Rightarrow> None)"
| "cron_step tick (LoopExit i) sys =
     (case loop_at sys i of
        Some Waiting \<Rightarrow> if fst (sys_loops sys ! i) then Some (set_loop sys i Exited) else None
      | _ \<Rightarrow> None)"
| "cron_step tick (Pick i) sys =
     (case loop_at sys i of
        Some (Executing (jid # ids)) \<Rightarrow>
          (case find (\<lambda>job. cj_ID job = jid) (jobs (sys_svc sys)) of
             None \<Rightarrow> Some (set_loop sys i (Executing ids))
           | Some job \<Rightarrow>
               Some (set_loop (if cs_onJob (sys_svc sys) = None then sys
                               else sys\<lparr>sys_log := sys_log sys @ [(jid, sys_clock sys)]\<rparr>)
                      i (InHandler jid (sys_clock sys) ids)))
      | _ \<Rightarrow> None)"
| "cron_step tick (LoopDone i) sys =
     (case loop_at sys i of Some (Executing []) \<Rightarrow> Some (set_loop sys i Waiting) | _ \<Rightarrow> None)"
| "cron_step tick (Finish i err t1 t2 sv1 sv2) sys =
     (case loop_at sys i of
        Some (InHandler jid startTime ids) \<Rightarrow>
          if sys_clock sys \<le> t1 \<and> t1 \<le> t2
          then Some (set_loop (sys\<lparr>sys_svc := finish_job tick startTime t1 t2 sv1 sv2 err jid (sys_svc sys),
                      sys_clock := t2\<rparr>) i (Executing ids))
          else None
      | _ \<Rightarrow> None)"
| "cron_step tick (Add jid sv name schedule message deliver channel dest) sys =
     Some (set_svc sys (fst (AddJob tick (sys_clock sys) jid sv name schedule message deliver channel dest (sys_svc sys))))"
| "cron_step tick (Remove sv jid) sys = Some (set_svc sys (fst (RemoveJob sv jid (sys_svc sys))))"
| "cron_step tick (Enable t2 sv jid b) sys =
     (if sys_clock sys \<le> t2
      then Some (sys\<lparr>sys_svc := fst (EnableJob tick (sys_clock sys) t2 sv jid b (sys_svc sys)), sys_clock := t2\<rparr>)
      else None)"
| "cron_step tick (Update sv job) sys = Some (set_svc sys (fst (UpdateJob (sys_clock sys) sv job (sys_svc sys))))"
| "cron_step tick Reload sys = Some (set_svc sys (fst (Load (sys_svc sys))))"
| "cron_step tick (SetHandler h) sys = Some (set_svc sys (SetOnJob (sys_svc sys) h))"

fun cron_run :: "next_tick \<Rightarrow> 'h cron_event list \<Rightarrow> 'h cron_sys \<Rightarrow> 'h cron_sys option" where
  "cron_run tick [] sys = Some sys"
| "cron_run tick (e # es) sys = (case cron_step tick e sys of None \<Rightarrow> None | Some sys' \<Rightarrow> cron_run tick es sys')"

subsection \<open>One-shot jobs run at most once\<close>

definition one_shot :: "string \<Rightarrow> int \<Rightarrow> CronJob list \<Rightarrow> bool" where
  "one_shot jid t js \<longleftrightarrow> length (filter (\<lambda>j. cj_ID j = jid) js) \<le> 1 \<and>
     (\<forall>j \<in> set js. cj_ID j = jid \<longrightarrow> sch_Kind (cj_Schedule j) = ''at'' \<and> sch_AtMS (cj_Schedule j) = Some t)"

fun file_jobs :: "cron_file \<Rightarrow> CronJob list" where
  "file_jobs (Stored st) = st_Jobs st"
| "file_jobs (Corrupt st) = st_Jobs st"
| "file_jobs _ = []"

fun pending :: "loop_state \<Rightarrow> string list" where
  "pending (Executing ids) = ids"
| "pending (InHandler _ _ ids) = ids"
| "pending _ = []"

definition runs :: "string \<Rightarrow> 'h cron_sys \<Rightarrow> nat" where
  "runs jid sys = length (filter (\<lambda>x. fst x = jid) (sys_log sys)) +
     sum_list (map (\<lambda>l. count_list (pending (snd l)) jid) (sys_loops sys))"

definition armed :: "string \<Rightarrow> 'h CronService \<Rightarrow> bool" where
  "armed jid cs \<longleftrightarrow> cs_running cs \<and> (\<exists>j \<in> set (jobs cs). cj_ID j = jid \<and> cj_Enabled j \<and> next_run j \<noteq> None)"

definition armed_at :: "string \<Rightarrow> int \<Rightarrow> 'h CronService \<Rightarrow> bool" where
  "armed_at jid t cs \<longleftrightarrow>
     (\<forall>j \<in> set (jobs cs). cs_running cs \<and> cj_ID j = jid \<and> cj_Enabled j \<longrightarrow> next_run j \<in> {None, Some t})"

definition once_inv :: "string \<Rightarrow> int \<Rightarrow> 'h cron_sys \<Rightarrow> bool" where
  "once_inv jid t sys \<longleftrightarrow>
     one_shot jid t (jobs (sys_svc sys)) \<and> one_shot jid t (file_jobs (cs_file (sys_svc sys))) \<and>
     armed_at jid t (sys_svc sys) \<and>
     (armed jid (sys_svc sys) \<longrightarrow> runs jid sys = 0) \<and> runs jid sys \<le> 1 \<and>
     (0 < runs jid sys \<longrightarrow> t \<le> sys_clock sys) \<and>
     (\<forall>x \<in> set (sys_log sys). fst x = jid \<longrightarrow> t \<le> snd x)"

text \<open>The steps that do not replace the job from outside: \<open>UpdateJob\<close> on it, a new job that draws
  the same identifier, and reloading the file under a running service are excluded.\<close>

fun leaves_job :: "string \<Rightarrow> 'h cron_event \<Rightarrow> bool" where
  "leaves_job jid (Add i _ _ _ _ _ _ _) = (i \<noteq> jid)"
| "leaves_job jid (Update _ job) = (cj_ID job \<noteq> jid)"
| "leaves_job jid Reload = False"
| "leaves_job jid _ = True"

text \<open>How a locked section may change the stored job: its schedule stays, and it is armed only if it
  was armed before or its time is still to come.\<close>

definition evolves :: "string \<Rightarrow> int \<Rightarrow> int \<Rightarrow> CronJob list \<Rightarrow> CronJob list \<Rightarrow> bool" where
  "evolves jid t now js js' \<longleftrightarrow>
     length (filter (\<lambda>j. cj_ID j = jid) js') \<le> length (filter (\<lambda>j. cj_ID j = jid) js) \<and>
     (\<forall>j' \<in> set js'. cj_ID j' = jid \<longrightarrow>
        (\<exists>j \<in> set js. cj_ID j = jid \<and> cj_Schedule j' = cj_Schedule j \<and>
           (cj_Enabled j' \<and> next_run j' \<noteq> None \<longrightarrow>
              cj_Enabled j \<and> next_run j' = next_run j \<or> next_run j' = Some t \<and> now < t)))"

definition svc_good :: "string \<Rightarrow> int \<Rightarrow> 'h CronService \<Rightarrow> bool" where
  "svc_good jid t cs \<longleftrightarrow> one_shot jid t (jobs cs) \<and> one_shot jid t (file_jobs (cs_file cs)) \<and> armed_at jid t cs"

definition svc_step :: "string \<Rightarrow> int \<Rightarrow> int \<Rightarrow> 'h CronService \<Rightarrow> 'h CronService \<Rightarrow> bool" where
  "svc_step jid t now cs cs' \<longleftrightarrow> svc_good jid t cs' \<and> (armed jid cs' \<longrightarrow> armed jid cs \<or> now < t)"

lemma computeNextRun_at:
  "sch_Kind s = ''at'' \<Longrightarrow> sch_AtMS s = Some t \<Longrightarrow> computeNextRun tick s now = (if t > now then Some t else None)"
  by (simp add: computeNextRun_def)

lemma evolves_refl [intro]: "evolves jid t now js js"
  by (auto simp: evolves_def)

lemma evolves_map:
  assumes "\<And>j. j \<in> set js \<Longrightarrow> cj_ID (f j) = cj_ID j \<and> cj_Schedule (f j) = cj_Schedule j"
    and "\<And>j. j \<in> set js \<Longrightarrow> cj_ID j = jid \<Longrightarrow> cj_Enabled (f j) \<Longrightarrow> next_run (f j) \<noteq> None \<Longrightarrow>
      cj_Enabled j \<and> next_run (f j) = next_run j \<or> next_run (f j) = Some t \<and> now < t"
  shows "evolves jid t now js (map f js)"
proof -
  have "filter (\<lambda>j. cj_ID j = jid) (map f js) = map f (filter (\<lambda>j. cj_ID j = jid) js)"
    using assms(1) by (simp add: filter_map comp_def cong: filter_cong)
  then show ?thesis using assms by (auto simp: evolves_def)
qed

lemma update_first_filter:
  assumes "\<And>j. P j \<Longrightarrow> cj_ID (f j) = cj_ID j"
  shows "length (filter (\<lambda>j. cj_ID j = jid) (update_first P f js)) = length (filter (\<lambda>j. cj_ID j = jid) js)"
  using assms by (induction js) auto

lemma evolves_update:
  assumes "\<And>j. j \<in> set js \<Longrightarrow> P j \<Longrightarrow> cj_Schedule (f j) = cj_Schedule j" "\<And>j. P j \<Longrightarrow> cj_ID (f j) = cj_ID j"
    and "\<And>j. j \<in> set js \<Longrightarrow> P j \<Longrightarrow> cj_ID j = jid \<Longrightarrow> cj_Enabled (f j) \<Longrightarrow> next_run (f j) \<noteq> None \<Longrightarrow>
      cj_Enabled j \<and> next_run (f j) = next_run j \<or> next_run (f j) = Some t \<and> now < t"
  shows "evolves jid t now js (update_first P f js)"
  unfolding evolves_def
proof (intro conjI ballI impI)
  show "length (filter (\<lambda>j. cj_ID j = jid) (update_first P f js)) \<le> length (filter (\<lambda>j. cj_ID j = jid) js)"
    using update_first_filter [of P f jid js] assms(2) by simp
  fix j' assume j': "j' \<in> set (update_first P f js)" "cj_ID j' = jid"
  then consider "j' \<in> set js" | x where "x \<in> set js" "P x" "j' = f x"
    using set_update_first [of P f js] by blast
  then show "\<exists>j \<in> set js. cj_ID j = jid \<and> cj_Schedule j' = cj_Schedule j \<and>
      (cj_Enabled j' \<and> next_run j' \<noteq> None \<longrightarrow>
         cj_Enabled j \<and> next_run j' = next_run j \<or> next_run j' = Some t \<and> now < t)"
  proof cases
    case 1
    then show ?thesis using j'(2) by blast
  next
    case 2
    then show ?thesis using j'(2) assms(1,3) [OF 2(1,2)] assms(2) [OF 2(2)] by metis
  qed
qed

lemma evolves_filter: "evolves jid t now js (filter P js)"
proof -
  have "filter (\<lambda>j. cj_ID j = jid) (filter P js) = filter P (filter (\<lambda>j. cj_ID j = jid) js)"
    by (simp add: conj_commute)
  then have "length (filter (\<lambda>j. cj_ID j = jid) (filter P js)) \<le> length (filter (\<lambda>j. cj_ID j = jid) js)"
    by (simp only: length_filter_le)
  then show ?thesis by (auto simp: evolves_def)
qed

lemma evolves_same:
  assumes "filter (\<lambda>j. cj_ID j = jid) js' = filter (\<lambda>j. cj_ID j = jid) js"
  shows "evolves jid t now js js'"
proof -
  have "j \<in> set js" if "j \<in> set js'" "cj_ID j = jid" for j
    using that arg_cong [OF assms, of set] by auto
  then show ?thesis using assms unfolding evolves_def by (metis order_refl)
qed

lemma update_first_others:
  "(\<And>x. P x \<Longrightarrow> \<not> Q x \<and> \<not> Q (f x)) \<Longrightarrow> filter Q (update_first P f xs) = filter Q xs"
  by (induction xs) auto

lemma evolves_trans:
  "evolves jid t now js1 js2 \<Longrightarrow> evolves jid t now js2 js3 \<Longrightarrow> evolves jid t now js1 js3"
  unfolding evolves_def by (smt (verit, best) order_trans)

lemma evolves_one_shot: "one_shot jid t js \<Longrightarrow> evolves jid t now js js' \<Longrightarrow> one_shot jid t js'"
  by (force simp: one_shot_def evolves_def)

lemma svc_step_evolves:
  assumes "svc_good jid t cs" "evolves jid t now (jobs cs) (jobs cs')"
    "one_shot jid t (file_jobs (cs_file cs'))" "cs_running cs' = cs_running cs"
  shows "svc_step jid t now cs cs'"
proof -
  have "armed_at jid t cs'" using assms(1,2,4) by (fastforce simp: svc_good_def armed_at_def evolves_def)
  moreover have "armed jid cs \<or> now < t" if "armed jid cs'"
    using that assms(2,4) by (fastforce simp: armed_def evolves_def)
  ultimately show ?thesis
    using assms evolves_one_shot by (auto simp: svc_step_def svc_good_def)
qed

lemma one_shot_empty [simp]: "one_shot jid t []" "one_shot jid t (st_Jobs empty_store)"
  by (simp_all add: one_shot_def empty_store_def)

lemma svc_step_save:
  assumes "svc_good jid t cs" "evolves jid t now (jobs cs) (jobs cs1)" "cs_file cs1 = cs_file cs" "cs_running cs1 = cs_running cs"
  shows "svc_step jid t now cs (fst (saveStoreUnsafe sv cs1))"
proof (rule svc_step_evolves [OF assms(1)])
  show "evolves jid t now (jobs cs) (jobs (fst (saveStoreUnsafe sv cs1)))" using assms(2) by simp
  have "one_shot jid t (jobs cs1)" using assms(1,2) evolves_one_shot by (auto simp: svc_good_def)
  then show "one_shot jid t (file_jobs (cs_file (fst (saveStoreUnsafe sv cs1))))"
    using assms(1,3) by (cases sv) (simp_all add: svc_good_def jobs_def)
qed (use assms(4) in simp)

lemma svc_step_refl: "svc_good jid t cs \<Longrightarrow> svc_step jid t now cs cs"
  by (simp add: svc_step_def)

subsection \<open>The operations on a one-shot job\<close>

lemma AddJob_fst: "fst (AddJob tick now i sv nm sch m d c ds cs) =
    fst (saveStoreUnsafe sv (set_jobs cs (jobs cs @ [new_job tick now i nm sch m d c ds])))"
  by (simp add: AddJob_def Let_def split: prod.split option.split)

lemma svc_AddJob: "svc_good jid t cs \<Longrightarrow> i \<noteq> jid \<Longrightarrow>
    svc_step jid t now cs (fst (AddJob tick now' i sv nm sch m d c ds cs))"
  unfolding AddJob_fst by (rule svc_step_save) (auto simp: evolves_def new_job_def)

lemma svc_RemoveJob:
  assumes "svc_good jid t cs"
  shows "svc_step jid t now cs (fst (removeJobUnsafe sv i cs))"
proof -
  have "evolves jid t now (jobs cs) (filter (\<lambda>job. cj_ID job \<noteq> i) (jobs cs))" by (rule evolves_filter)
  then show ?thesis
    using assms svc_step_save [of jid t cs now "set_jobs cs (filter (\<lambda>job. cj_ID job \<noteq> i) (jobs cs))" sv]
      svc_step_evolves [of jid t cs now "set_jobs cs (filter (\<lambda>job. cj_ID job \<noteq> i) (jobs cs))"]
    by (simp add: removeJobUnsafe_def Let_def svc_good_def)
qed

lemma svc_EnableJob:
  assumes "svc_good jid t cs" "now1 \<le> now2"
  shows "svc_step jid t now2 cs (fst (EnableJob tick now1 now2 sv i b cs))"
proof (cases "find (\<lambda>job. cj_ID job = i) (jobs cs)")
  case None
  with assms show ?thesis by (simp add: EnableJob_def svc_step_refl)
next
  case (Some job)
  let ?js = "update_first (\<lambda>j. cj_ID j = i) (enable_fields tick now1 now2 b) (jobs cs)"
  have "evolves jid t now2 (jobs cs) ?js"
  proof (rule evolves_update)
    fix j assume j: "j \<in> set (jobs cs)" "cj_ID j = jid" "cj_Enabled (enable_fields tick now1 now2 b j)"
      "next_run (enable_fields tick now1 now2 b j) \<noteq> None"
    have "computeNextRun tick (cj_Schedule j) now2 = (if t > now2 then Some t else None)"
      using j(1,2) assms(1) by (intro computeNextRun_at) (auto simp: svc_good_def one_shot_def)
    with j(3,4) show "cj_Enabled j \<and> next_run (enable_fields tick now1 now2 b j) = next_run j \<or>
        next_run (enable_fields tick now1 now2 b j) = Some t \<and> now2 < t"
      by (auto simp: enable_fields_def split: if_splits)
  qed simp_all
  then show ?thesis using assms(1) Some by (simp add: EnableJob_def svc_step_save)
qed

lemma svc_UpdateJob:
  assumes "svc_good jid t cs" "cj_ID job \<noteq> jid"
  shows "svc_step jid t now cs (fst (UpdateJob now' sv job cs))"
proof -
  have "evolves jid t now (jobs cs)
      (update_first (\<lambda>j. cj_ID j = cj_ID job) (\<lambda>_. job\<lparr>cj_UpdatedAtMS := now'\<rparr>) (jobs cs))"
    using assms(2) by (intro evolves_same update_first_others) auto
  then show ?thesis using assms(1) by (simp add: UpdateJob_def svc_step_save svc_step_refl)
qed

lemma svc_collect:
  assumes "svc_good jid t cs"
  shows "svc_step jid t now cs (fst (collect_due now' sv cs))"
proof (cases "cs_running cs")
  case True
  have "evolves jid t now (jobs cs) (jobs (fst (collect_due now' sv cs)))"
    unfolding jobs_collect using True by (auto intro!: evolves_map split: if_splits)
  then show ?thesis using assms True
    by (simp add: collect_due_def Let_def svc_step_save)
qed (simp add: collect_due_def svc_step_refl assms)

lemma svc_step_trans:
  "svc_step jid t now cs cs1 \<Longrightarrow> svc_step jid t now cs1 cs2 \<Longrightarrow> svc_step jid t now cs cs2"
  by (auto simp: svc_step_def)

lemma svc_set_jobs:
  "svc_good jid t cs \<Longrightarrow> evolves jid t now (jobs cs) js \<Longrightarrow> svc_step jid t now cs (set_jobs cs js)"
  by (rule svc_step_evolves) (simp_all add: svc_good_def)

lemma svc_finish:
  assumes "svc_good jid t cs"
  shows "svc_step jid t now cs (finish_job tick st now1 now2 sv1 sv2 err i cs)"
proof (cases "find (\<lambda>job. cj_ID job = i) (jobs cs)")
  case None
  with assms show ?thesis by (simp add: finish_job_def svc_step_refl)
next
  case (Some job)
  let ?cs1 = "set_jobs cs (update_first (\<lambda>j. cj_ID j = i) (record_run st now1 err) (jobs cs))"
  let ?cs2 = "if sch_Kind (cj_Schedule job) = ''at'' \<and> cj_DeleteAfterRun job
     then fst (removeJobUnsafe sv1 (cj_ID job) ?cs1)
     else set_jobs ?cs1 (update_first (\<lambda>j. cj_ID j = i) (after_run tick now2) (jobs ?cs1))"
  have s1: "svc_step jid t now cs ?cs1"
    using assms by (intro svc_set_jobs evolves_update) auto
  then have g1: "svc_good jid t ?cs1" by (simp add: svc_step_def)
  have "evolves jid t now (jobs ?cs1) (update_first (\<lambda>j. cj_ID j = i) (after_run tick now2) (jobs ?cs1))"
    using g1 by (intro evolves_update) (auto simp: svc_good_def one_shot_def after_run_def split: if_splits)
  then have "svc_step jid t now ?cs1 ?cs2"
    using svc_RemoveJob [OF g1] svc_set_jobs [OF g1] by presburger
  then have s2: "svc_step jid t now cs ?cs2" using s1 svc_step_trans by blast
  then have "svc_step jid t now ?cs2 (fst (saveStoreUnsafe sv2 ?cs2))"
    by (intro svc_step_save) (auto simp: svc_step_def)
  then show ?thesis using svc_step_trans [OF s2] Some by (simp only: finish_job_def option.case Let_def)
qed

lemma svc_load: "svc_good jid t cs \<Longrightarrow> one_shot jid t (jobs (fst (loadStore cs)))"
  by (auto simp: loadStore_def svc_good_def jobs_def split: cron_file.split)

lemma load_file [simp]: "cs_file (fst (loadStore cs)) = cs_file cs"
  by (auto simp: loadStore_def split: cron_file.split)

lemma recompute_armed:
  assumes "one_shot jid t (jobs cs)"
  shows "armed_at jid t (recomputeNextRuns tick now cs)"
    and "armed jid (recomputeNextRuns tick now cs) \<Longrightarrow> now < t"
    and "one_shot jid t (jobs (recomputeNextRuns tick now cs))"
proof -
  have c: "computeNextRun tick (cj_Schedule j) now = (if t > now then Some t else None)"
    if "j \<in> set (jobs cs)" "cj_ID j = jid" for j
    using that assms by (intro computeNextRun_at) (auto simp: one_shot_def)
  show "armed_at jid t (recomputeNextRuns tick now cs)"
    using c by (auto simp: recomputeNextRuns_def armed_at_def)
  show "now < t" if "armed jid (recomputeNextRuns tick now cs)"
    using c that by (auto simp: recomputeNextRuns_def armed_def split: if_splits)
  have "filter (\<lambda>j. cj_ID j = jid) (jobs (recomputeNextRuns tick now cs)) =
      map (\<lambda>job. if cj_Enabled job then set_next (computeNextRun tick (cj_Schedule job) now) job else job)
        (filter (\<lambda>j. cj_ID j = jid) (jobs cs))"
    by (auto simp: recomputeNextRuns_def filter_map comp_def intro!: arg_cong [where f = "map _"] filter_cong)
  then show "one_shot jid t (jobs (recomputeNextRuns tick now cs))"
    using assms unfolding one_shot_def by (auto simp: recomputeNextRuns_def)
qed

lemma load_running [simp]: "cs_running (fst (loadStore cs)) = cs_running cs"
  by (auto simp: loadStore_def split: cron_file.split)

lemma recompute_simps [simp]:
  "cs_file (recomputeNextRuns tick now cs) = cs_file cs" "cs_running (recomputeNextRuns tick now cs) = cs_running cs"
  by (simp_all add: recomputeNextRuns_def)

lemma not_running_good:
  "\<not> cs_running cs \<Longrightarrow> one_shot jid t (jobs cs) \<Longrightarrow> one_shot jid t (file_jobs (cs_file cs)) \<Longrightarrow> svc_step jid t now cs0 cs"
  by (simp add: svc_step_def svc_good_def armed_at_def armed_def)

lemma save_one_shot_file:
  "one_shot jid t (jobs cs) \<Longrightarrow> one_shot jid t (file_jobs (cs_file cs)) \<Longrightarrow>
   one_shot jid t (file_jobs (cs_file (fst (saveStoreUnsafe sv cs))))"
  by (cases sv) (simp_all add: jobs_def)

lemma svc_Start:
  assumes "svc_good jid t cs"
  shows "svc_step jid t now cs (fst (Start tick now sv cs))"
proof (cases "cs_running cs")
  case True
  with assms show ?thesis by (simp add: Start_def svc_step_refl)
next
  case False
  obtain cs1 e where l: "loadStore cs = (cs1, e)" by (cases "loadStore cs")
  have one: "one_shot jid t (jobs cs1)" "one_shot jid t (file_jobs (cs_file cs1))" "\<not> cs_running cs1"
    using svc_load [OF assms] load_file [of cs] load_running [of cs] assms False
    by (simp_all add: l svc_good_def)
  let ?cs2 = "recomputeNextRuns tick now cs1"
  obtain cs3 e' where sv: "saveStoreUnsafe sv ?cs2 = (cs3, e')" by (cases "saveStoreUnsafe sv ?cs2")
  have three: "one_shot jid t (jobs cs3)" "one_shot jid t (file_jobs (cs_file cs3))" "jobs cs3 = jobs ?cs2"
    "\<not> cs_running cs3"
    using recompute_armed(3) [OF one(1)] save_simps(1,2) [of sv ?cs2] save_one_shot_file [of jid t ?cs2 sv] one(2,3)
    by (simp_all add: sv del: save_simps)
  have "svc_step jid t now cs (cs3\<lparr>cs_running := True\<rparr>)"
  proof -
    let ?r = "?cs2\<lparr>cs_running := True\<rparr>"
    have r: "recomputeNextRuns tick now (cs1\<lparr>cs_running := True\<rparr>) = ?r"
      by (simp add: recomputeNextRuns_def set_jobs_def jobs_def)
    have "armed_at jid t ?r" "armed jid ?r \<Longrightarrow> now < t"
      using recompute_armed(1,2) [of jid t "cs1\<lparr>cs_running := True\<rparr>" tick now] one(1) by (simp_all add: r)
    then show ?thesis using three by (simp add: svc_step_def svc_good_def armed_at_def armed_def)
  qed
  then show ?thesis
    using False one three by (auto simp: Start_def l sv not_running_good split: option.split)
qed

lemma svc_Stop: "svc_good jid t cs \<Longrightarrow> svc_step jid t now cs (Stop cs)"
  by (rule not_running_good) (simp_all add: Stop_def svc_good_def)

lemma svc_SetOnJob: "svc_good jid t cs \<Longrightarrow> svc_step jid t now cs (SetOnJob cs h)"
  by (rule svc_step_evolves) (auto simp: SetOnJob_def svc_good_def)

subsection \<open>The invariant of the concurrent service\<close>

lemma once_inv_alt:
  "once_inv jid t sys \<longleftrightarrow> svc_good jid t (sys_svc sys) \<and> (armed jid (sys_svc sys) \<longrightarrow> runs jid sys = 0) \<and>
     runs jid sys \<le> 1 \<and> (0 < runs jid sys \<longrightarrow> t \<le> sys_clock sys) \<and> (\<forall>x \<in> set (sys_log sys). fst x = jid \<longrightarrow> t \<le> snd x)"
  by (auto simp: once_inv_def svc_good_def)

lemma once_inv_svc:
  assumes "once_inv jid t sys" "svc_step jid t now (sys_svc sys) (sys_svc sys')" "sys_clock sys \<le> now"
    "sys_clock sys \<le> sys_clock sys'" "sys_log sys' = sys_log sys" "runs jid sys' = runs jid sys"
  shows "once_inv jid t sys'"
  using assms unfolding once_inv_alt svc_step_def by force

lemma runs_set_svc [simp]: "runs jid (set_svc sys cs) = runs jid sys"
  by (simp add: runs_def set_svc_def)

lemma set_svc_simps [simp]:
  "sys_svc (set_svc sys cs) = cs" "sys_clock (set_svc sys cs) = sys_clock sys"
  "sys_log (set_svc sys cs) = sys_log sys" "sys_loops (set_svc sys cs) = sys_loops sys"
  by (simp_all add: set_svc_def)

lemma set_loop_simps [simp]:
  "sys_svc (set_loop sys i l) = sys_svc sys" "sys_clock (set_loop sys i l) = sys_clock sys"
  "sys_log (set_loop sys i l) = sys_log sys"
  by (simp_all add: set_loop_def)

lemma sum_list_update_nat:
  "i < length xs \<Longrightarrow> sum_list (map f (xs[i := y])) + f (xs ! i) = sum_list (map f xs) + (f y :: nat)"
  by (induction xs arbitrary: i) (auto split: nat.split)

lemma runs_set_loop:
  assumes "loop_at sys i = Some l0"
  shows "runs jid (set_loop sys i l) + count_list (pending l0) jid = runs jid sys + count_list (pending l) jid"
  using assms sum_list_update_nat [of i "sys_loops sys" "\<lambda>l. count_list (pending (snd l)) jid" "(fst (sys_loops sys ! i), l)"]
  by (auto simp: loop_at_def runs_def set_loop_def split: if_splits)

lemma loop_at_simps [simp]: "loop_at (sys\<lparr>sys_log := lg\<rparr>) i = loop_at sys i"
  "loop_at (sys\<lparr>sys_svc := cs, sys_clock := c\<rparr>) i = loop_at sys i" "loop_at (set_svc sys cs) i = loop_at sys i"
  by (simp_all add: loop_at_def)

lemma runs_simps [simp]:
  "runs jid (sys\<lparr>sys_clock := c\<rparr>) = runs jid sys"
  "runs jid (sys\<lparr>sys_svc := cs\<rparr>) = runs jid sys"
  "runs jid (sys\<lparr>sys_log := sys_log sys @ [(x, c)]\<rparr>) = runs jid sys + (if x = jid then 1 else 0)"
  "runs jid (sys\<lparr>sys_loops := sys_loops sys @ [(b, Waiting)]\<rparr>) = runs jid sys"
  "runs jid (sys\<lparr>sys_loops := map (\<lambda>(_, l). (True, l)) (sys_loops sys)\<rparr>) = runs jid sys"
  by (simp_all add: runs_def comp_def case_prod_beta)

lemma collect_count:
  assumes "svc_good jid t cs" "collect_due now sv cs = (cs', due)"
  shows "count_list due jid \<le> 1"
    and "0 < count_list due jid \<Longrightarrow> armed jid cs \<and> t \<le> now \<and> \<not> armed jid cs'"
proof -
  have due: "due = (if cs_running cs then map cj_ID (filter (is_due now) (jobs cs)) else [])"
    using assms(2) by (auto simp: collect_due_def Let_def split: if_splits)
  have count: "count_list (map cj_ID xs) jid = length (filter (\<lambda>j. cj_ID j = jid) xs)" for xs
    by (induction xs) auto
  have "length (filter (\<lambda>j. cj_ID j = jid) (filter (is_due now) (jobs cs))) \<le>
      length (filter (\<lambda>j. cj_ID j = jid) (jobs cs))"
    using length_filter_le [of "is_due now" "filter (\<lambda>j. cj_ID j = jid) (jobs cs)"] by (simp add: conj_commute)
  then show "count_list due jid \<le> 1"
    using assms(1) by (auto simp: due count svc_good_def one_shot_def simp del: filter_filter)
  assume "0 < count_list due jid"
  then have "jid \<in> set due" by (metis count_list_0_iff less_irrefl)
  then obtain j where j: "cs_running cs" "j \<in> set (jobs cs)" "is_due now j" "cj_ID j = jid"
    by (auto simp: due split: if_splits)
  then have n: "cj_Enabled j" "next_run j = Some t" "t \<le> now"
    using assms(1) by (auto simp: is_due_def svc_good_def armed_at_def split: option.splits)
  have "next_run j' = None" if "j' \<in> set (jobs cs')" "cj_ID j' = jid" for j'
  proof -
    have "jobs cs' = jobs (fst (collect_due now sv cs))" using assms(2) by simp
    moreover have "jid \<in> cj_ID ` {j \<in> set (jobs cs). is_due now j}" using j by blast
    ultimately show ?thesis using that j(1) by (auto simp: jobs_collect split: if_splits)
  qed
  then show "armed jid cs \<and> t \<le> now \<and> \<not> armed jid cs'"
    using j n by (auto simp: armed_def)
qed

lemma once_inv_tick:
  assumes "once_inv jid t sys" "cron_step tick (Tick i sv) sys = Some sys'"
  shows "once_inv jid t sys'"
proof -
  obtain cs due where c: "collect_due (sys_clock sys) sv (sys_svc sys) = (cs, due)"
    by (cases "collect_due (sys_clock sys) sv (sys_svc sys)")
  have l: "loop_at sys i = Some Waiting" and sys': "sys' = set_loop (set_svc sys cs) i (Executing due)"
    using assms(2) c by (auto split: option.splits loop_state.splits)
  have "loop_at (set_svc sys cs) i = Some Waiting" using l by simp
  from runs_set_loop [OF this, of jid "Executing due"]
  have r: "runs jid sys' = runs jid sys + count_list due jid" by (simp add: sys')
  have g: "svc_good jid t (sys_svc sys)" using assms(1) by (simp add: once_inv_alt)
  have s: "svc_step jid t (sys_clock sys) (sys_svc sys) cs" using svc_collect [OF g, of "sys_clock sys" "sys_clock sys" sv] c by simp
  show ?thesis
  proof (cases "count_list due jid = 0")
    case True
    with r s show ?thesis
      by (intro once_inv_svc [OF assms(1), where now = "sys_clock sys"]) (simp_all add: sys')
  next
    case False
    then have "armed jid (sys_svc sys)" "t \<le> sys_clock sys" "\<not> armed jid cs" "count_list due jid \<le> 1"
      using collect_count [OF g c] by auto
    with assms(1) r s show ?thesis unfolding once_inv_alt svc_step_def by (simp add: sys')
  qed
qed



lemma once_inv_pick:
  assumes "once_inv jid t sys" "cron_step tick (Pick i) sys = Some sys'"
  shows "once_inv jid t sys'"
proof -
  obtain x ids where l: "loop_at sys i = Some (Executing (x # ids))"
    using assms(2) by (auto split: option.splits loop_state.splits list.splits)
  have drop: "runs jid (set_loop sys i l') + (if x = jid then 1 else 0) = runs jid sys"
    if "pending l' = ids" for l'
    using runs_set_loop [OF l, of jid l'] that by (auto split: if_splits)
  consider "sys' = set_loop sys i (Executing ids)" | "sys' = set_loop sys i (InHandler x (sys_clock sys) ids)"
    | "sys' = set_loop (sys\<lparr>sys_log := sys_log sys @ [(x, sys_clock sys)]\<rparr>) i (InHandler x (sys_clock sys) ids)"
    using assms(2) l by (auto split: option.splits if_splits)
  then show ?thesis
  proof cases
    case 3
    have l': "loop_at (sys\<lparr>sys_log := sys_log sys @ [(x, sys_clock sys)]\<rparr>) i = Some (Executing (x # ids))"
      using l by simp
    have r: "runs jid sys' = runs jid sys"
      using runs_set_loop [OF l', of jid "InHandler x (sys_clock sys) ids"] by (simp add: 3 split: if_splits)
    have "t \<le> sys_clock sys" if "x = jid"
      using that drop [of "Executing ids"] assms(1) by (auto simp: once_inv_alt)
    then show ?thesis using assms(1) r by (auto simp: once_inv_alt 3)
  qed (use assms(1) drop [of "Executing ids"] drop [of "InHandler x (sys_clock sys) ids"] in
      \<open>auto simp: once_inv_alt split: if_splits\<close>)
qed

lemma once_inv_finish:
  assumes "once_inv jid t sys" "cron_step tick (Finish i err t1 t2 sv1 sv2) sys = Some sys'"
  shows "once_inv jid t sys'"
proof -
  obtain x st ids where l: "loop_at sys i = Some (InHandler x st ids)" and c: "sys_clock sys \<le> t1" "t1 \<le> t2"
    and sys': "sys' = set_loop (sys\<lparr>sys_svc := finish_job tick st t1 t2 sv1 sv2 err x (sys_svc sys),
                      sys_clock := t2\<rparr>) i (Executing ids)"
    using assms(2) by (auto split: option.splits loop_state.splits if_splits)
  let ?mid = "sys\<lparr>sys_svc := finish_job tick st t1 t2 sv1 sv2 err x (sys_svc sys), sys_clock := t2\<rparr>"
  have "loop_at ?mid i = Some (InHandler x st ids)" using l by simp
  from runs_set_loop [OF this, of jid "Executing ids"] have r: "runs jid sys' = runs jid sys"
    by (simp add: sys')
  have "svc_good jid t (sys_svc sys)" using assms(1) by (simp add: once_inv_alt)
  then show ?thesis
    by (intro once_inv_svc [OF assms(1), where now = t2]) (use c r in \<open>simp_all add: sys' svc_finish\<close>)
qed

lemma once_inv_loop:
  assumes "once_inv jid t sys" "loop_at sys i = Some l0" "pending l0 = []" "pending l = []"
  shows "once_inv jid t (set_loop sys i l)"
  using assms runs_set_loop [OF assms(2), of jid l] by (simp add: once_inv_alt)

lemma once_inv_set_svc:
  "once_inv jid t sys \<Longrightarrow> svc_step jid t (sys_clock sys) (sys_svc sys) cs \<Longrightarrow> once_inv jid t (set_svc sys cs)"
  by (rule once_inv_svc [where now = "sys_clock sys"]) simp_all

lemma once_inv_step:
  assumes inv: "once_inv jid t sys" and ev: "leaves_job jid e" and step: "cron_step tick e sys = Some sys'"
  shows "once_inv jid t sys'"
proof -
  have g: "svc_good jid t (sys_svc sys)" using inv by (simp add: once_inv_alt)
  show ?thesis
  proof (cases e)
    case (Advance d)
    then show ?thesis using inv step by (auto simp: once_inv_alt split: if_splits)
  next
    case (StartService sv)
    have st: "once_inv jid t (set_svc sys (fst (Start tick (sys_clock sys) sv (sys_svc sys))))"
      using inv svc_Start [OF g] by (rule once_inv_set_svc)
    have new: "once_inv jid t (s\<lparr>sys_loops := ls\<rparr>)"
      if "once_inv jid t s" "ls = sys_loops s @ [(False, Waiting)]" for s ls
      using that by (simp add: once_inv_alt)
    show ?thesis using step StartService st by (auto split: prod.splits if_splits intro!: new)
  next
    case StopService
    have "once_inv jid t (s\<lparr>sys_loops := map (\<lambda>(_, l). (True, l)) (sys_loops s)\<rparr>)" if "once_inv jid t s" for s
      using that by (simp add: once_inv_alt)
    from this [OF once_inv_set_svc [OF inv svc_Stop [OF g]]] show ?thesis
      using step StopService inv by (auto split: if_splits)
  next
    case (Enable t2 sv i b)
    then show ?thesis using step inv
      by (auto split: if_splits intro!: once_inv_svc [OF inv, where now = t2] svc_EnableJob g)
  qed (use inv ev step g in \<open>auto split: option.splits loop_state.splits list.splits if_splits
      intro: once_inv_tick once_inv_pick once_inv_finish once_inv_loop once_inv_set_svc svc_AddJob svc_UpdateJob
        svc_RemoveJob svc_SetOnJob simp: RemoveJob_def simp del: cron_step.simps(4,6,8)\<close>)
qed

lemma once_inv_run:
  "once_inv jid t sys \<Longrightarrow> list_all (leaves_job jid) es \<Longrightarrow> cron_run tick es sys = Some sys' \<Longrightarrow> once_inv jid t sys'"
  by (induction es arbitrary: sys) (auto split: option.splits intro: once_inv_step)

subsection \<open>Properties\<close>

text \<open>(C3) One-shot jobs run at most once and never early. Whatever the interleaving of ticks,
  handlers, starts, stops, and the public operations on any job, and whatever writes of the store
  fail, the handler is called for a stored \<open>at\<close> job at most once, and not before its time. The
  excluded steps are those that replace the job behind the scheduler's back (\<open>leaves_job\<close>).\<close>

theorem at_job_runs_at_most_once:
  assumes "one_shot jid t (jobs (sys_svc sys))" "one_shot jid t (file_jobs (cs_file (sys_svc sys)))"
    and "armed_at jid t (sys_svc sys)" "runs jid sys = 0"
    and "list_all (leaves_job jid) es" "cron_run tick es sys = Some sys'"
  shows "length (filter (\<lambda>x. fst x = jid) (sys_log sys')) \<le> 1 \<and>
    (\<forall>x \<in> set (sys_log sys'). fst x = jid \<longrightarrow> t \<le> snd x)"
proof -
  have "\<forall>x \<in> set (sys_log sys). fst x \<noteq> jid" using assms(4) by (auto simp: runs_def filter_empty_conv)
  then have "once_inv jid t sys" using assms(1-4) by (simp add: once_inv_def)
  then have "once_inv jid t sys'" using once_inv_run assms(5,6) by blast
  then show ?thesis by (simp add: once_inv_def runs_def)
qed

definition no_tick :: next_tick where "no_tick e n = None"

definition at_schedule :: "int \<Rightarrow> CronSchedule" where
  "at_schedule t = \<lparr>sch_Kind = ''at'', sch_AtMS = Some t, sch_EveryMS = None, sch_Expr = [], sch_TZ = []\<rparr>"

definition sample_job :: CronJob where
  "sample_job = new_job no_tick 10 ''j1'' ''remind'' (at_schedule 50) ''call home'' True ''cli'' ''direct''"

definition sample_sys :: "unit cron_sys" where
  "sample_sys = \<lparr>sys_svc = fst (AddJob no_tick 10 ''j1'' SaveOk ''remind'' (at_schedule 50) ''call home'' True
       ''cli'' ''direct'' (NewCronService NoFile (Some ()))),
     sys_clock = 10, sys_loops = [], sys_log = []\<rparr>"

definition sample_events :: "unit cron_event list" where
  "sample_events = [StartService SaveOk, Advance 45, Tick 0 SaveOk, StopService, StartService SaveRefused, StartService SaveOk,
     Enable 55 SaveOk ''j1'' True, Tick 1 SaveOk, Pick 0, Finish 0 None 60 60 SaveOk SaveOk, LoopDone 0, LoopExit 0]"

lemma sample_cron_run: "map_option sys_log (cron_run no_tick sample_events sample_sys) = Some [(''j1'', 55)]"
  by code_simp

theorem at_job_runs_at_most_once_witness:
  "\<exists>sys'. cron_run no_tick sample_events sample_sys = Some sys' \<and>
     length (filter (\<lambda>x. fst x = ''j1'') (sys_log sys')) \<le> 1"
proof -
  obtain sys' where r: "cron_run no_tick sample_events sample_sys = Some sys'"
    using sample_cron_run by auto
  have "one_shot ''j1'' 50 (jobs (sys_svc sample_sys))" "one_shot ''j1'' 50 (file_jobs (cs_file (sys_svc sample_sys)))"
    "armed_at ''j1'' 50 (sys_svc sample_sys)" "runs ''j1'' sample_sys = 0"
    "list_all (leaves_job ''j1'') sample_events"
    by code_simp+
  from at_job_runs_at_most_once [OF this r] r show ?thesis by blast
qed

text \<open>What a tick collects. On a running service the collected identifiers are those of the due
  jobs in the order of the store; immediately afterwards nothing is due, so a second tick at the
  same time collects nothing; jobs that are not due keep their state; and something is collected
  exactly when the wake-up time that \<open>Status\<close> reports has been reached.\<close>

theorem collect_due_exact:
  assumes "cs_running cs" "collect_due now sv cs = (cs', due)"
  shows "due = map cj_ID (filter (is_due now) (jobs cs)) \<and>
    map cj_ID (jobs cs') = map cj_ID (jobs cs) \<and>
    snd (collect_due now sv' cs') = [] \<and>
    (\<forall>j \<in> set (jobs cs). cj_ID j \<notin> set due \<longrightarrow> j \<in> set (jobs cs')) \<and>
    (due \<noteq> [] \<longleftrightarrow> (case cst_nextWakeAtMS (Status cs) of None \<Rightarrow> False | Some w \<Rightarrow> w \<le> now))"
proof -
  let ?A = "{n. \<exists>j \<in> set (jobs cs). cj_Enabled j \<and> next_run j = Some n}"
  have cs': "cs' = fst (collect_due now sv cs)" and snd: "due = snd (collect_due now sv cs)"
    using assms(2) by simp_all
  have due: "due = map cj_ID (filter (is_due now) (jobs cs))"
    unfolding snd using assms(1) by (rule collect_ids)
  have "cs_running cs'" using assms(1) by (simp add: cs' collect_due_def Let_def)
  then have "snd (collect_due now sv' cs') = map cj_ID (filter (is_due now) (jobs cs'))" by (rule collect_ids)
  moreover have "filter (is_due now) (jobs cs') = []"
    using collect_nothing_left [OF assms(1)] by (simp add: filter_empty_conv cs')
  ultimately have again: "snd (collect_due now sv' cs') = []" by simp
  have "set due = cj_ID ` {j \<in> set (jobs cs). is_due now j}" by (auto simp: due)
  then have keep: "\<forall>j \<in> set (jobs cs). cj_ID j \<notin> set due \<longrightarrow> j \<in> set (jobs cs')"
    using assms(1) by (simp add: cs' jobs_collect image_iff)
  have "due \<noteq> [] \<longleftrightarrow> (\<exists>n \<in> ?A. n \<le> now)"
    by (auto simp: due filter_empty_conv is_due_def split: option.splits)
  then have wake: "due \<noteq> [] \<longleftrightarrow> (case cst_nextWakeAtMS (Status cs) of None \<Rightarrow> False | Some w \<Rightarrow> w \<le> now)"
    using wake_reached [of now cs] by blast
  have ids: "map cj_ID (jobs cs') = map cj_ID (jobs cs)" unfolding cs' by (rule ids_collect)
  show ?thesis by (intro conjI due ids again keep wake)
qed

theorem collect_due_exact_witness:
  "let cs = fst (Start no_tick 20 SaveOk (sys_svc sample_sys)) in
   cs_running cs \<and> snd (collect_due 60 SaveOk cs) = [''j1''] \<and>
   snd (collect_due 60 SaveOk (fst (collect_due 60 SaveOk cs))) = []"
proof -
  let ?cs = "fst (Start no_tick 20 SaveOk (sys_svc sample_sys))"
  have r: "cs_running ?cs" by code_simp
  have c: "snd (collect_due 60 SaveOk ?cs) = [''j1'']" by code_simp
  have e: "collect_due 60 SaveOk ?cs = (fst (collect_due 60 SaveOk ?cs), snd (collect_due 60 SaveOk ?cs))" by simp
  show ?thesis using collect_due_exact [OF r e, of SaveOk] r c by (simp add: Let_def)
qed

text \<open>After a run. When the handler has returned, an \<open>at\<close> job that is to be deleted is gone, any
  other \<open>at\<close> job is disabled with no next run, and a repeating job keeps being enabled as it was,
  with the next run its schedule gives; the start time, status and error of the run are recorded in
  a job that stays, and every other job is as it was. With a successful write the file holds the
  same store.\<close>

theorem finish_job_effect:
  assumes "distinct (map cj_ID (jobs cs))" "job \<in> set (jobs cs)"
    and "cs' = finish_job tick startTime now1 now2 sv1 SaveOk err (cj_ID job) cs"
  shows "(\<forall>j. cj_ID j \<noteq> cj_ID job \<longrightarrow> j \<in> set (jobs cs') \<longleftrightarrow> j \<in> set (jobs cs)) \<and>
    {j \<in> set (jobs cs'). cj_ID j = cj_ID job} =
      (if sch_Kind (cj_Schedule job) = ''at'' \<and> cj_DeleteAfterRun job then {}
       else {after_run tick now2 (record_run startTime now1 err job)}) \<and>
    cs_file cs' = Stored (cs_store cs')"
proof -
  have f: "find (\<lambda>j. cj_ID j = cj_ID job) (jobs cs) = Some job"
    using assms(1,2) by (rule find_distinct)
  let ?js1 = "update_first (\<lambda>j. cj_ID j = cj_ID job) (record_run startTime now1 err) (jobs cs)"
  have s1: "set ?js1 = insert (record_run startTime now1 err job) {j \<in> set (jobs cs). cj_ID j \<noteq> cj_ID job}"
    using assms(1,2) by (rule set_update_distinct)
  have "distinct (map cj_ID ?js1)" using assms(1) by (simp add: map_update_first)
  then have s2: "set (update_first (\<lambda>j. cj_ID j = cj_ID job) (after_run tick now2) ?js1) =
      insert (after_run tick now2 (record_run startTime now1 err job)) {j \<in> set ?js1. cj_ID j \<noteq> cj_ID job}"
    using set_update_distinct [of ?js1 "record_run startTime now1 err job" "after_run tick now2"] by (simp add: s1)
  have js: "set (jobs cs') =
      (if sch_Kind (cj_Schedule job) = ''at'' \<and> cj_DeleteAfterRun job then {j \<in> set (jobs cs). cj_ID j \<noteq> cj_ID job}
       else insert (after_run tick now2 (record_run startTime now1 err job)) {j \<in> set (jobs cs). cj_ID j \<noteq> cj_ID job})"
    unfolding assms(3) finish_job_def f option.case Let_def removeJobUnsafe_def
    using s1 s2 by (auto simp del: saveStoreUnsafe.simps)
  have "cs_file cs' = Stored (cs_store cs')" unfolding assms(3) finish_job_def f option.case Let_def by simp
  then show ?thesis unfolding js by auto
qed

theorem finish_job_effect_witness:
  "set (jobs (finish_job no_tick 55 60 60 SaveOk SaveOk None ''j1'' (sys_svc sample_sys))) = {}"
proof -
  let ?cs = "finish_job no_tick 55 60 60 SaveOk SaveOk None (cj_ID sample_job) (sys_svc sample_sys)"
  have d: "distinct (map cj_ID (jobs (sys_svc sample_sys)))" by code_simp
  have m: "sample_job \<in> set (jobs (sys_svc sample_sys))" by code_simp
  have i: "cj_ID sample_job = ''j1''" "sch_Kind (cj_Schedule sample_job) = ''at''" "cj_DeleteAfterRun sample_job"
    by code_simp+
  have o: "\<forall>j \<in> set (jobs (sys_svc sample_sys)). cj_ID j = cj_ID sample_job" by code_simp
  note eff = finish_job_effect [OF d m refl, of no_tick 55 60 60 SaveOk None]
  have "cj_ID j = cj_ID sample_job" if "j \<in> set (jobs ?cs)" for j using eff o that by blast
  then have "set (jobs ?cs) = {}" using conjunct1 [OF conjunct2 [OF eff]] i(2,3) by auto
  then show ?thesis unfolding i(1) .
qed

text \<open>The next run lies in the future. If the expression library returns instants after the
  given one, a next run is always later than now, provided the addition for an \<open>every\<close> schedule does
  not exceed the range of 64 bits. Without that proviso the sum wraps to a negative instant, which
  is due at every tick: such a job runs once per second instead of once in 292 million years.\<close>

theorem computeNextRun_future:
  assumes "\<forall>e n m. tick e n = Some m \<longrightarrow> n < m" "- (2 ^ 63) \<le> now"
  shows "(computeNextRun tick s now = Some n \<and> (\<forall>every. sch_EveryMS s = Some every \<longrightarrow> now + every < 2 ^ 63) \<longrightarrow> now < n) \<and>
    (sch_Kind s = ''every'' \<and> sch_EveryMS s = Some every \<and> 0 < every \<and> every < 2 ^ 63 \<and> now < 2 ^ 63 \<and> 2 ^ 63 \<le> now + every \<longrightarrow>
       (\<exists>n. computeNextRun tick s now = Some n \<and> n < now))"
proof (intro conjI impI)
  assume c: "computeNextRun tick s now = Some n \<and> (\<forall>every. sch_EveryMS s = Some every \<longrightarrow> now + every < 2 ^ 63)"
  show "now < n"
  proof (cases "sch_Kind s = ''every''")
    case True
    then obtain every where e: "sch_EveryMS s = Some every" "0 < every" "n = wrap64 (now + every)"
      using c by (auto simp: computeNextRun_def split: option.splits if_splits)
    have "wrap64 (now + every) = now + every"
      using c e assms(2) by (intro wrap64_id) auto
    with e show ?thesis by simp
  next
    case False
    with c assms(1) show ?thesis by (auto simp: computeNextRun_def split: option.splits if_splits)
  qed
next
  assume e: "sch_Kind s = ''every'' \<and> sch_EveryMS s = Some every \<and> 0 < every \<and> every < 2 ^ 63 \<and> now < 2 ^ 63 \<and> 2 ^ 63 \<le> now + every"
  have "(now + every + 2 ^ 63) mod 2 ^ 64 = (now + every + 2 ^ 63 - 2 ^ 64) mod 2 ^ 64"
    by (simp only: minus_mod_self2)
  also have "\<dots> = now + every + 2 ^ 63 - 2 ^ 64"
    using e by (intro mod_pos_pos_trivial) auto
  finally have "wrap64 (now + every) = now + every - 2 ^ 64"
    by (simp add: wrap64_def)
  with e show "\<exists>n. computeNextRun tick s now = Some n \<and> n < now" by (simp add: computeNextRun_def)
qed

definition every_max :: CronSchedule where
  "every_max = \<lparr>sch_Kind = ''every'', sch_AtMS = None, sch_EveryMS = Some (2 ^ 63 - 1), sch_Expr = [], sch_TZ = []\<rparr>"

theorem computeNextRun_future_witness:
  "(\<exists>n. computeNextRun no_tick every_max 1700000000000 = Some n \<and> n < 1700000000000) \<and> computeNextRun no_tick (at_schedule 50) 10 = Some 50"
proof -
  have t: "\<forall>e n m. no_tick e n = Some m \<longrightarrow> n < m" by (simp add: no_tick_def)
  have "computeNextRun no_tick (at_schedule 50) 10 = Some 50" by code_simp
  then show ?thesis
    using computeNextRun_future [OF t, of 1700000000000 every_max _ "2 ^ 63 - 1"] by (simp add: every_max_def)
qed

text \<open>Persistence. A service created on the file that a successful write left has the same jobs.
  A write that fails half-way, however, is followed by silence: the constructor ignores the decode
  error and starts with an empty store, and adding a job then overwrites the file, so that all
  earlier jobs are lost without an error.\<close>

theorem cron_store_persistence:
  "jobs (NewCronService (cs_file (fst (saveStoreUnsafe SaveOk cs))) h) = jobs cs \<and>
   (\<exists>job. let torn = cs_file (fst (saveStoreUnsafe SaveTorn cs));
        (cs', r) = AddJob tick now jid SaveOk name schedule message deliver channel dest (NewCronService torn h)
    in r = Inr job \<and> cs_file cs' = Stored \<lparr>st_Version = 1, st_Jobs = [job]\<rparr>)"
  by (simp add: NewCronService_def loadStore_def jobs_def AddJob_def empty_store_def set_jobs_def Let_def)

text \<open>A missed one-shot job is dropped silently. If the service was not running at the time of
  an \<open>at\<close> job, starting it clears the next run of the job, which stays enabled in the store for
  ever and is never collected.\<close>

theorem missed_at_job_never_runs:
  assumes "\<not> cs_running cs" "cs_file cs = Stored st" "job \<in> set (st_Jobs st)" "cj_Enabled job"
    and "sch_Kind (cj_Schedule job) = ''at''" "sch_AtMS (cj_Schedule job) = Some t" "t \<le> now"
    and "distinct (map cj_ID (st_Jobs st))" "Start tick now SaveOk cs = (cs', err)"
  shows "err = None \<and> cs_running cs' \<and> set_next None job \<in> set (jobs cs') \<and>
    cj_ID job \<notin> set (snd (collect_due later sv cs'))"
proof -
  let ?f = "\<lambda>job. if cj_Enabled job then set_next (computeNextRun tick (cj_Schedule job) now) job else job"
  have js: "jobs cs' = map ?f (st_Jobs st)" and r: "err = None" "cs_running cs'"
    using assms(1,2,9) by (auto simp: Start_def loadStore_def recomputeNextRuns_def jobs_def set_jobs_def)
  have fj: "?f job = set_next None job" using assms(4-7) by (simp add: computeNextRun_at)
  have mem: "set_next None job \<in> set (jobs cs')" unfolding js fj [symmetric] set_map using assms(3) by (rule imageI)
  have "\<not> is_due later j" if "j \<in> set (jobs cs')" "cj_ID j = cj_ID job" for j
  proof -
    from that(1) obtain j0 where j0: "j0 \<in> set (st_Jobs st)" "j = ?f j0" unfolding js set_map by (rule imageE)
    then have "cj_ID j0 = cj_ID job" using that(2) by (auto split: if_splits)
    then have "j0 = job" using assms(3,8) j0(1) by (auto dest: eq_key_imp_eq_value simp: distinct_map inj_on_def)
    then show ?thesis unfolding j0(2) using fj is_due_set_next by metis
  qed
  then show ?thesis using r mem collect_ids [OF r(2), of later sv] by auto
qed

theorem missed_at_job_never_runs_witness:
  "let cs' = fst (Start no_tick 60 SaveOk (sys_svc sample_sys)) in
   cs_running cs' \<and> set_next None sample_job \<in> set (jobs cs') \<and> ''j1'' \<notin> set (snd (collect_due 100 SaveOk cs'))"
proof -
  let ?st = "cs_store (sys_svc sample_sys)"
  have a: "\<not> cs_running (sys_svc sample_sys)" "cs_file (sys_svc sample_sys) = Stored ?st" "sample_job \<in> set (st_Jobs ?st)"
    "cj_Enabled sample_job" "sch_Kind (cj_Schedule sample_job) = ''at''" "sch_AtMS (cj_Schedule sample_job) = Some 50"
    "(50::int) \<le> 60" "distinct (map cj_ID (st_Jobs ?st))" "cj_ID sample_job = ''j1''"
    by code_simp+
  have s: "Start no_tick 60 SaveOk (sys_svc sample_sys) = (fst (Start no_tick 60 SaveOk (sys_svc sample_sys)),
      snd (Start no_tick 60 SaveOk (sys_svc sample_sys)))" by simp
  show ?thesis using missed_at_job_never_runs [OF a(1-8) s, of 100 SaveOk] a(9) by (simp add: Let_def)
qed

end
