(* ===== verification/Split_Message.thy ===== *)
theory Split_Message
  imports Prelude "HOL-Library.Sublist"
begin

text \<open>
  Splitting of long outgoing messages, \<^verbatim>\<open>pkg/utils/message.go\<close>. Positions are Go's \<^verbatim>\<open>int\<close>, with
  \<open>-1\<close> for not found. One round of the loop of \<open>SplitMessage\<close> is \<open>split_step\<close>: it keeps the whole
  content, or emits a chunk and the content of the next round, or panics on a slice that is out of
  range. The loop itself need not end, so \<open>split_loop\<close> is a partial function whose value \<open>None\<close> means
  that it runs for ever. The results: the loop ends and keeps its promises when the fence lines are
  short, and it never ends on a fence line that is as long as the limit.
\<close>

subsection \<open>Searching\<close>

definition fence :: string where "fence = [CHR 0x60, CHR 0x60, CHR 0x60]"

text \<open>The backward scan from \<open>n - 1\<close> down to \<open>start\<close>.\<close>

fun scan_back :: "(char \<Rightarrow> bool) \<Rightarrow> string \<Rightarrow> nat \<Rightarrow> nat \<Rightarrow> int" where
  "scan_back p s start 0 = - 1"
| "scan_back p s start (Suc i) =
     (if i < start then - 1 else if p (s ! i) then int i else scan_back p s start i)"

definition findLastNewline :: "string \<Rightarrow> int \<Rightarrow> int" where
  "findLastNewline s searchWindow =
     scan_back (\<lambda>c. c = nl) s (nat (max (int (length s) - searchWindow) 0)) (length s)"

definition findLastSpace :: "string \<Rightarrow> int \<Rightarrow> int" where
  "findLastSpace s searchWindow =
     scan_back (\<lambda>c. c = CHR '' '' \<or> c = tab) s (nat (max (int (length s) - searchWindow) 0)) (length s)"

text \<open>The scan for fences at position \<open>i\<close>, where \<open>s\<close> is the text from there on.\<close>

function unclosed_from :: "nat \<Rightarrow> bool \<Rightarrow> int \<Rightarrow> string \<Rightarrow> int" where
  "unclosed_from i inCodeBlock lastOpenIdx s =
     (if s = [] then (if inCodeBlock then lastOpenIdx else - 1)
      else if has_prefix fence s
        then unclosed_from (i + 3) (\<not> inCodeBlock) (if inCodeBlock then lastOpenIdx else int i) (drop 3 s)
      else unclosed_from (i + 1) inCodeBlock lastOpenIdx (drop 1 s))"
  by pat_completeness auto
termination
  by (relation "measure (\<lambda>(i, b, l, s). length s)") auto

declare unclosed_from.simps [simp del]

definition findLastUnclosedCodeBlock :: "string \<Rightarrow> int" where
  "findLastUnclosedCodeBlock text = unclosed_from 0 False (- 1) text"

fun closing_from :: "nat \<Rightarrow> string \<Rightarrow> int" where
  "closing_from i [] = - 1"
| "closing_from i (c # s) = (if has_prefix fence (c # s) then int i + 3 else closing_from (i + 1) s)"

definition findNextClosingCodeBlock :: "string \<Rightarrow> int \<Rightarrow> int" where
  "findNextClosingCodeBlock text startIdx = closing_from (nat startIdx) (drop (nat startIdx) text)"

subsection \<open>One round\<close>

definition codeBlockBuffer :: "int \<Rightarrow> int" where
  "codeBlockBuffer maxLen = min (max (quot maxLen 10) 50) (quot maxLen 2)"

definition effectiveLimit :: "int \<Rightarrow> int" where
  "effectiveLimit maxLen = max (maxLen - codeBlockBuffer maxLen) (quot maxLen 2)"

text \<open>The slice \<^verbatim>\<open>s[:n]\<close>, which panics out of range.\<close>

definition slice_to :: "string \<Rightarrow> int \<Rightarrow> string option" where
  "slice_to s n = (if 0 \<le> n \<and> n \<le> int (length s) then Some (take (nat n) s) else None)"

definition natural_end :: "string \<Rightarrow> int \<Rightarrow> int" where
  "natural_end window limit =
     (let msgEnd = findLastNewline window 200;
          msgEnd = (if msgEnd \<le> 0 then findLastSpace window 100 else msgEnd)
      in if msgEnd \<le> 0 then limit else msgEnd)"

definition header_end :: "string \<Rightarrow> nat \<Rightarrow> nat" where
  "header_end content unclosedIdx =
     (case index_of [nl] (drop unclosedIdx content) of
        None \<Rightarrow> unclosedIdx + 3
      | Some k \<Rightarrow> k + unclosedIdx)"

definition block_header :: "string \<Rightarrow> nat \<Rightarrow> string" where
  "block_header content unclosedIdx =
     trim_space (take (header_end content unclosedIdx - unclosedIdx) (drop unclosedIdx content))"

datatype split_outcome = Whole | Emit string string | Slice_Panic

definition cut_at :: "int \<Rightarrow> string \<Rightarrow> int \<Rightarrow> split_outcome" where
  "cut_at maxLen content msgEnd =
     (let msgEnd = (if msgEnd \<le> 0 then effectiveLimit maxLen else msgEnd)
      in case slice_to content msgEnd of
           None \<Rightarrow> Slice_Panic
         | Some chunk \<Rightarrow> Emit chunk (trim_space (drop (nat msgEnd) content)))"

definition cut_inside :: "string \<Rightarrow> string \<Rightarrow> int \<Rightarrow> split_outcome" where
  "cut_inside content header msgEnd =
     (case slice_to content msgEnd of
        None \<Rightarrow> Slice_Panic
      | Some chunk \<Rightarrow>
          Emit (trim_right (\<lambda>c. c \<in> {CHR '' '', tab, nl, cr}) chunk @ [nl] @ fence)
               (trim_space (header @ [nl] @ drop (nat msgEnd) content)))"

text \<open>The case of a chunk that would end inside the code block opened at \<open>u\<close>.\<close>

definition split_block :: "int \<Rightarrow> string \<Rightarrow> int \<Rightarrow> nat \<Rightarrow> split_outcome" where
  "split_block maxLen content msgEnd u =
     (let closingIdx = findNextClosingCodeBlock content msgEnd in
      if 0 < closingIdx \<and> closingIdx \<le> maxLen then cut_at maxLen content closingIdx
      else let headerEnd = int (header_end content u); header = block_header content u in
        if msgEnd > headerEnd + 20 then
          let innerLimit = maxLen - 5 in
          (case slice_to content innerLimit of
             None \<Rightarrow> Slice_Panic
           | Some inner \<Rightarrow>
               let betterEnd = findLastNewline inner 200
               in cut_inside content header (if betterEnd > headerEnd then betterEnd else innerLimit))
        else
          let newEnd = findLastNewline (take u content) 200;
              newEnd = (if newEnd \<le> 0 then findLastSpace (take u content) 100 else newEnd)
          in if newEnd > 0 then cut_at maxLen content newEnd
             else if u > 20 then cut_at maxLen content (int u)
             else cut_inside content header (maxLen - 5))"

definition split_step :: "int \<Rightarrow> string \<Rightarrow> split_outcome" where
  "split_step maxLen content =
     (if int (length content) \<le> maxLen then Whole
      else case slice_to content (effectiveLimit maxLen) of
             None \<Rightarrow> Slice_Panic
           | Some window \<Rightarrow>
               let msgEnd = natural_end window (effectiveLimit maxLen);
                   unclosedIdx = findLastUnclosedCodeBlock (take (nat msgEnd) content)
               in if 0 \<le> unclosedIdx \<and> msgEnd < int (length content)
                  then split_block maxLen content msgEnd (nat unclosedIdx)
                  else cut_at maxLen content msgEnd)"

subsection \<open>The loop\<close>

partial_function (option) split_loop :: "int \<Rightarrow> string list \<Rightarrow> string \<Rightarrow> (unit + string list) option" where
  "split_loop maxLen messages content =
     (if content = [] then Some (Inr messages)
      else case split_step maxLen content of
             Whole \<Rightarrow> Some (Inr (messages @ [content]))
           | Emit chunk rest \<Rightarrow> split_loop maxLen (messages @ [chunk]) rest
           | Slice_Panic \<Rightarrow> Some (Inl ()))"

definition SplitMessage :: "string \<Rightarrow> int \<Rightarrow> (unit + string list) option" where
  "SplitMessage content maxLen = split_loop maxLen [] content"


declare split_loop.simps [code]

subsection \<open>What the searches find\<close>

lemma scan_back_found:
  assumes "scan_back p s start n = r" "0 \<le> r"
  shows "start \<le> nat r \<and> nat r < n \<and> p (s ! nat r)"
  using assms by (induction n) (auto split: if_splits)

lemma scan_back_max: "start \<le> j \<Longrightarrow> j < n \<Longrightarrow> p (s ! j) \<Longrightarrow> int j \<le> scan_back p s start n"
  by (induction n) (auto simp: less_Suc_eq)

lemma unclosed_from_fence:
  "unclosed_from i b l s = r \<Longrightarrow> 0 \<le> r \<Longrightarrow> r = l \<or> (\<exists>k. r = int (i + k) \<and> has_prefix fence (drop k s))"
proof (induction i b l s rule: unclosed_from.induct)
  case (1 i b l s)
  consider "s = []" | (fence) "s \<noteq> []" "has_prefix fence s" | (other) "s \<noteq> []" "\<not> has_prefix fence s" by auto
  then show ?case
  proof cases
    case fence
    then have "unclosed_from (i + 3) (\<not> b) (if b then l else int i) (drop 3 s) = r"
      using "1.prems" by (simp add: unclosed_from.simps [of i])
    from "1.IH"(1) [OF fence this "1.prems"(2)] fence(2) show ?thesis
      by (auto split: if_splits simp: add.assoc add.commute intro: exI [of _ 0]
          dest: spec [of _ "3 + k" for k])
  next
    case other
    then have "unclosed_from (i + 1) b l (drop 1 s) = r"
      using "1.prems" by (simp add: unclosed_from.simps [of i])
    from "1.IH"(2) [OF other this "1.prems"(2)] show ?thesis
    proof
      assume "\<exists>k. r = int (i + 1 + k) \<and> has_prefix fence (drop k (drop 1 s))"
      then obtain k where "r = int (i + Suc k)" "has_prefix fence (drop (Suc k) s)" by auto
      then show ?thesis by blast
    qed simp
  qed (use "1.prems" in \<open>auto simp: unclosed_from.simps split: if_splits\<close>)
qed

lemma length_fence [simp]: "length fence = 3"
  by (simp add: fence_def)

lemma unclosed_fence:
  assumes "findLastUnclosedCodeBlock (take n s) = r" "0 \<le> r"
  shows "has_prefix fence (drop (nat r) s)" "nat r + 3 \<le> n"
proof -
  from unclosed_from_fence [OF assms [unfolded findLastUnclosedCodeBlock_def]] assms(2)
  have "has_prefix fence (drop (nat r) (take n s))" by auto
  then have t: "take 3 (take (n - nat r) (drop (nat r) s)) = fence"
    by (simp only: has_prefix_def length_fence drop_take)
  then have "length (take 3 (take (n - nat r) (drop (nat r) s))) = 3" by simp
  then have l: "3 \<le> n - nat r" by (simp add: min_def split: if_splits)
  then show "nat r + 3 \<le> n" by simp
  from t l show "has_prefix fence (drop (nat r) s)" by (simp add: has_prefix_def min_def)
qed

lemma effectiveLimit_bounds:
  assumes "10 \<le> maxLen"
  shows "5 \<le> effectiveLimit maxLen" "0 < effectiveLimit maxLen" "effectiveLimit maxLen \<le> maxLen - 5"
  using assms by (auto simp: effectiveLimit_def codeBlockBuffer_def quot_def)

lemma natural_end_bounds:
  assumes "0 < limit" "limit = int (length window)"
  shows "0 < natural_end window limit \<and> natural_end window limit \<le> limit"
proof -
  have "scan_back p window k (length window) \<le> limit" for p k
    using assms scan_back_found [of p window k "length window", OF refl]
    by (cases "0 \<le> scan_back p window k (length window)") auto
  then have "findLastNewline window 200 \<le> limit" "findLastSpace window 100 \<le> limit"
    by (simp_all only: findLastNewline_def findLastSpace_def)
  with assms show ?thesis by (auto simp: natural_end_def Let_def)
qed

subsection \<open>Progress\<close>

text \<open>
  Every round cuts in one of two ways: plainly after \<open>n\<close> characters, or inside a code block, which
  is closed in the chunk and reopened in the rest. In the second case the cut lies well behind the
  line of the fence, except in the last resort, where it is at \<open>maxLen - 5\<close>.
\<close>

definition plain_cut :: "int \<Rightarrow> string \<Rightarrow> split_outcome \<Rightarrow> bool" where
  "plain_cut maxLen content r \<longleftrightarrow>
     (\<exists>n. 0 < n \<and> int n \<le> maxLen \<and> r = Emit (take n content) (trim_space (drop n content)))"

definition block_cut :: "int \<Rightarrow> string \<Rightarrow> split_outcome \<Rightarrow> bool" where
  "block_cut maxLen content r \<longleftrightarrow>
     (\<exists>n u. int n \<le> maxLen - 5 \<and> has_prefix fence (drop u content) \<and>
        (header_end content u + 20 < n \<or> int n = maxLen - 5) \<and>
        r = Emit (trim_right (\<lambda>c. c \<in> {CHR '' '', tab, nl, cr}) (take n content) @ [nl] @ fence)
              (trim_space (block_header content u @ [nl] @ drop n content)))"

lemma cut_at_plain:
  assumes "10 \<le> maxLen" "maxLen < int (length content)" "e \<le> maxLen"
  shows "plain_cut maxLen content (cut_at maxLen content e)"
  using assms effectiveLimit_bounds [OF assms(1)]
  by (auto simp: cut_at_def slice_to_def plain_cut_def Let_def
      intro!: exI [of _ "nat (if e \<le> 0 then effectiveLimit maxLen else e)"])

lemma cut_inside_block:
  assumes "maxLen < int (length content)" "0 \<le> e" "e \<le> maxLen - 5" "has_prefix fence (drop u content)"
    and "int (header_end content u) + 20 < e \<or> e = maxLen - 5"
  shows "block_cut maxLen content (cut_inside content (block_header content u) e)"
proof -
  have "header_end content u + 20 < nat e \<or> int (nat e) = maxLen - 5" "int (nat e) \<le> maxLen - 5"
    using assms by auto
  with assms show ?thesis
    unfolding block_cut_def by (intro exI [of _ "nat e"] exI [of _ u] conjI) (simp_all add: cut_inside_def slice_to_def)
qed

text \<open>The better cut inside a block is not before the natural one when it is behind the header.\<close>

lemma better_end_late:
  assumes "10 \<le> maxLen" "maxLen < int (length content)"
    and "natural_end (take (nat (effectiveLimit maxLen)) content) (effectiveLimit maxLen) = msgEnd"
    and b: "findLastNewline (take (nat (maxLen - 5)) content) 200 = b" "0 < b"
  shows "msgEnd \<le> b" "b \<le> maxLen - 5"
proof -
  let ?eff = "effectiveLimit maxLen"
  note e = effectiveLimit_bounds [OF assms(1)]
  have b0: "nat (max (int (length (take (nat (maxLen - 5)) content)) - 200) 0) \<le> nat b"
    "nat b < length (take (nat (maxLen - 5)) content)" "take (nat (maxLen - 5)) content ! nat b = nl"
    using scan_back_found [OF b(1) [unfolded findLastNewline_def]] b(2) by auto
  then show le: "b \<le> maxLen - 5" by auto
  have nlb: "content ! nat b = nl" using b0(2,3) by simp
  show "msgEnd \<le> b"
  proof (cases "b < ?eff")
    case False
    have "msgEnd \<le> ?eff" using natural_end_bounds [of ?eff "take (nat ?eff) content"] e assms(2,3) by auto
    with False show ?thesis by simp
  next
    case True
    let ?w = "take (nat ?eff) content" and ?n = "findLastNewline (take (nat ?eff) content) 200"
    have l: "length ?w = nat ?eff" using e assms(2) by auto
    have "nat (max (int (length ?w) - 200) 0) \<le> nat b" using b0(1) e assms(1,2) l by auto
    moreover have "nat b < length ?w" "?w ! nat b = nl" using True b(2) nlb e l by auto
    ultimately have "int (nat b) \<le> ?n" unfolding findLastNewline_def by (rule scan_back_max)
    then have ge: "b \<le> ?n" using b(2) by simp
    then have n: "?n = msgEnd" using assms(3) b(2) by (simp add: natural_end_def Let_def)
    have "nat ?n < length ?w" "?w ! nat ?n = nl"
      using scan_back_found [OF findLastNewline_def [symmetric], of ?w 200] ge b(2) by simp_all
    then have "int (nat ?n) \<le> scan_back (\<lambda>c. c = nl) (take (nat (maxLen - 5)) content)
        (nat (max (int (length (take (nat (maxLen - 5)) content)) - 200) 0)) (length (take (nat (maxLen - 5)) content))"
      using ge b(2) b0(1) e l assms(1,2) by (intro scan_back_max) auto
    then have "int (nat ?n) \<le> b" using b(1) by (simp only: findLastNewline_def)
    then show ?thesis using n ge b(2) by simp
  qed
qed

lemma split_block_cuts:
  assumes m: "10 \<le> maxLen" "maxLen < int (length content)"
    and e: "natural_end (take (nat (effectiveLimit maxLen)) content) (effectiveLimit maxLen) = msgEnd"
    and u: "findLastUnclosedCodeBlock (take (nat msgEnd) content) = int u"
  shows "plain_cut maxLen content (split_block maxLen content msgEnd u)
       \<or> block_cut maxLen content (split_block maxLen content msgEnd u)"
proof -
  note l = effectiveLimit_bounds [OF m(1)]
  have me: "msgEnd \<le> effectiveLimit maxLen" "0 < msgEnd"
    using natural_end_bounds [of "effectiveLimit maxLen" "take (nat (effectiveLimit maxLen)) content"] l m e by auto
  have f: "has_prefix fence (drop u content)" "u + 3 \<le> nat msgEnd"
    using unclosed_fence [OF u] by simp_all
  have new: "scan_back p (take u content) k (length (take u content)) \<le> maxLen" for p k
    using scan_back_found [of p "take u content" k "length (take u content)", OF refl] f(2) me l
    by (cases "0 \<le> scan_back p (take u content) k (length (take u content))") (simp_all, linarith+)
  let ?inner = "maxLen - 5"
  show ?thesis
  proof (cases "msgEnd > int (header_end content u) + 20")
    case True
    let ?b = "findLastNewline (take (nat ?inner) content) 200"
    have "0 < ?b \<Longrightarrow> msgEnd \<le> ?b \<and> ?b \<le> ?inner"
      using better_end_late [OF m e refl] by blast
    then have "block_cut maxLen content (cut_inside content (block_header content u)
        (if ?b > int (header_end content u) then ?b else ?inner))"
      using True m l me f(1) by (intro cut_inside_block) auto
    moreover have "slice_to content ?inner = Some (take (nat ?inner) content)"
      using m by (simp add: slice_to_def)
    ultimately show ?thesis
      using True cut_at_plain [OF m] by (auto simp: split_block_def Let_def)
  next
    case False
    have "block_cut maxLen content (cut_inside content (block_header content u) ?inner)"
      using m f(1) by (intro cut_inside_block) auto
    moreover have "findLastNewline (take u content) 200 \<le> maxLen" "findLastSpace (take u content) 100 \<le> maxLen"
      "int u \<le> maxLen"
      using new f me l by (simp_all add: findLastNewline_def findLastSpace_def)
    ultimately show ?thesis
      using False cut_at_plain [OF m] by (auto simp: split_block_def Let_def)
  qed
qed

lemma split_step_cuts:
  assumes m: "10 \<le> maxLen" "maxLen < int (length content)"
  shows "plain_cut maxLen content (split_step maxLen content) \<or> block_cut maxLen content (split_step maxLen content)"
proof -
  note l = effectiveLimit_bounds [OF m(1)]
  let ?w = "take (nat (effectiveLimit maxLen)) content"
  let ?e = "natural_end ?w (effectiveLimit maxLen)"
  let ?u = "findLastUnclosedCodeBlock (take (nat ?e) content)"
  have s: "slice_to content (effectiveLimit maxLen) = Some ?w" using m l by (simp add: slice_to_def)
  have "?e \<le> maxLen" using natural_end_bounds [of "effectiveLimit maxLen" ?w] l m by auto
  then have "plain_cut maxLen content (cut_at maxLen content ?e)" by (rule cut_at_plain [OF m])
  moreover have "0 \<le> ?u \<Longrightarrow> plain_cut maxLen content (split_block maxLen content ?e (nat ?u))
      \<or> block_cut maxLen content (split_block maxLen content ?e (nat ?u))"
    by (rule split_block_cuts [OF m refl]) simp
  ultimately show ?thesis using m s by (simp add: split_step_def Let_def)
qed

subsection \<open>Short fence lines\<close>

text \<open>Every fence whose line is terminated has a line of at most \<open>L\<close> characters from the fence on.\<close>

fun short_fences :: "nat \<Rightarrow> string \<Rightarrow> bool" where
  "short_fences L [] \<longleftrightarrow> True"
| "short_fences L (c # s) \<longleftrightarrow>
     (has_prefix fence (c # s) \<and> nl \<in> set s \<longrightarrow> length (takeWhile (\<lambda>d. d \<noteq> nl) (c # s)) \<le> L) \<and> short_fences L s"

lemma has_prefix_extend: "has_prefix p s \<Longrightarrow> has_prefix p (s @ t)"
  by (auto simp: has_prefix_iff)

lemma short_fences_prefix: "short_fences L (s @ t) \<Longrightarrow> short_fences L s"
proof (induction s)
  case (Cons c s)
  then show ?case using has_prefix_extend [of fence "c # s" t] by (auto simp: takeWhile_append split: if_splits)
qed simp

lemma short_fences_suffix: "short_fences L (s @ t) \<Longrightarrow> short_fences L t"
  by (induction s) auto

lemma short_fences_trim: "short_fences L s \<Longrightarrow> short_fences L (trim_space s)"
proof -
  assume "short_fences L s"
  then have "short_fences L (dropWhile is_space s)"
    using short_fences_suffix [of L "takeWhile is_space s" "dropWhile is_space s"] by simp
  moreover obtain t where "dropWhile is_space s = trim_right is_space (dropWhile is_space s) @ t"
    using prefix_trim_right by blast
  ultimately show ?thesis unfolding trim_space_def by (metis short_fences_prefix)
qed

lemma short_fences_header: "nl \<notin> set h \<Longrightarrow> length h \<le> L \<Longrightarrow> short_fences L r \<Longrightarrow> short_fences L (h @ [nl] @ r)"
proof (induction h)
  case Nil
  then show ?case by (simp add: fence_def)
next
  case (Cons c h)
  have "takeWhile (\<lambda>d. d \<noteq> nl) (h @ nl # r) = h"
    using Cons.prems(1) by (subst takeWhile_append2) auto
  with Cons show ?case by simp
qed

lemma header_bound:
  assumes "short_fences L s" "has_prefix fence (drop u s)" "3 \<le> L"
  shows "nl \<notin> set (block_header s u)" "length (block_header s u) \<le> L"
    "length (block_header s u) \<le> header_end s u"
proof -
  let ?d = "drop u s"
  have d: "short_fences L ?d" using assms(1) short_fences_suffix [of L "take u s" ?d] by simp
  obtain t where t: "?d = fence @ t" using assms(2) by (auto simp: has_prefix_iff)
  have h: "nl \<notin> set (take (header_end s u - u) ?d) \<and> length (take (header_end s u - u) ?d) \<le> L"
  proof (cases "index_of [nl] ?d")
    case None
    then show ?thesis using t assms(3) by (simp add: header_end_def fence_def)
  next
    case (Some k)
    then have nd: "nl \<in> set ?d" using index_of_single_None [of nl ?d] by auto
    then have e: "?d = takeWhile (\<lambda>c. c \<noteq> nl) ?d @ nl # tl (dropWhile (\<lambda>c. c \<noteq> nl) ?d)"
    proof -
      have "dropWhile (\<lambda>c. c \<noteq> nl) ?d \<noteq> []" using nd by (auto simp: dropWhile_eq_Nil_conv)
      then have "dropWhile (\<lambda>c. c \<noteq> nl) ?d = nl # tl (dropWhile (\<lambda>c. c \<noteq> nl) ?d)"
        using hd_dropWhile [of "\<lambda>c. c \<noteq> nl" ?d] by (cases "dropWhile (\<lambda>c. c \<noteq> nl) ?d") auto
      then show ?thesis using takeWhile_dropWhile_id [of "\<lambda>c. c \<noteq> nl" ?d] by simp
    qed
    have k: "k = length (takeWhile (\<lambda>c. c \<noteq> nl) ?d)"
    proof -
      have "nl \<notin> set (takeWhile (\<lambda>c. c \<noteq> nl) ?d)" by (auto dest: set_takeWhileD)
      from index_of_single_append [OF this, of "tl (dropWhile (\<lambda>c. c \<noteq> nl) ?d)"] Some
      show ?thesis unfolding e [symmetric] by simp
    qed
    then have tk: "take k ?d = takeWhile (\<lambda>c. c \<noteq> nl) ?d"
      using takeWhile_eq_take [of "\<lambda>c. c \<noteq> nl" ?d] by simp
    obtain c r where c: "?d = c # r" using t by (auto simp: fence_def)
    have "c \<noteq> nl" using c t by (auto simp: fence_def)
    then have "nl \<in> set r" using nd c by simp
    then have "length (takeWhile (\<lambda>c. c \<noteq> nl) ?d) \<le> L"
      using d assms(2) unfolding c by simp
    moreover have "nl \<notin> set (takeWhile (\<lambda>c. c \<noteq> nl) ?d)" by (auto dest: set_takeWhileD)
    moreover have "take (header_end s u - u) ?d = take k ?d" using Some by (simp add: header_end_def)
    ultimately show ?thesis using tk by simp
  qed
  have len: "length (block_header s u) \<le> length (take (header_end s u - u) ?d)"
    by (simp only: block_header_def length_trim_space)
  show "nl \<notin> set (block_header s u)"
    using h set_trim_space [of "take (header_end s u - u) ?d"] by (auto simp: block_header_def)
  show "length (block_header s u) \<le> L" using h len by linarith
  show "length (block_header s u) \<le> header_end s u" using len by (simp, linarith)
qed

subsection \<open>Nothing is lost\<close>

definition visible :: "string \<Rightarrow> string" where
  "visible s = filter (\<lambda>c. \<not> is_space c) s"

lemma visible_append [simp]: "visible (a @ b) = visible a @ visible b"
  by (simp add: visible_def)

lemma visible_Nil [simp]: "visible [] = []"
  by (simp add: visible_def)

lemma visible_spaces: "\<forall>c \<in> set s. is_space c \<Longrightarrow> visible s = []"
  by (simp add: visible_def)

lemma visible_trim_right:
  assumes "\<And>c. p c \<Longrightarrow> is_space c"
  shows "visible (trim_right p s) = visible s"
proof -
  obtain t where "s = trim_right p s @ t" "\<forall>c \<in> set t. p c" using prefix_trim_right by blast
  then show ?thesis using visible_spaces [of t] assms by (metis append_Nil2 visible_append)
qed

lemma visible_trim [simp]: "visible (trim_space s) = visible s"
proof -
  have "visible s = visible (takeWhile is_space s) @ visible (dropWhile is_space s)"
    by (metis takeWhile_dropWhile_id visible_append)
  then show ?thesis
    using visible_spaces [of "takeWhile is_space s"] set_takeWhileD
    by (fastforce simp: trim_space_def visible_trim_right)
qed

lemma visible_split: "visible (take n s) @ visible (drop n s) = visible s"
  by (metis append_take_drop_id visible_append)

lemma step_emits:
  assumes "10 \<le> maxLen" "maxLen < int (length content)" "short_fences L content" "3 \<le> L" "int L + 7 \<le> maxLen"
  obtains chunk rest where "split_step maxLen content = Emit chunk rest" "chunk \<noteq> []" "int (length chunk) \<le> maxLen"
    "length rest < length content" "short_fences L rest"
    "subseq (visible content) (visible chunk @ visible rest)"
proof -
  from split_step_cuts [OF assms(1,2)] show thesis
  proof
    assume "plain_cut maxLen content (split_step maxLen content)"
    then obtain n where n: "0 < n" "int n \<le> maxLen"
      "split_step maxLen content = Emit (take n content) (trim_space (drop n content))"
      by (auto simp: plain_cut_def)
    show thesis
    proof (rule that [OF n(3)])
      show "take n content \<noteq> []" "int (length (take n content)) \<le> maxLen" using n assms(2) by auto
      show "length (trim_space (drop n content)) < length content"
        using length_trim_space [of "drop n content"] n(1) assms(1,2) by simp
      show "short_fences L (trim_space (drop n content))"
        using assms(3) short_fences_suffix [of L "take n content"] by (auto intro!: short_fences_trim)
      show "subseq (visible content) (visible (take n content) @ visible (trim_space (drop n content)))"
        by (simp add: visible_split)
    qed
  next
    let ?w = "\<lambda>c. c \<in> {CHR '' '', tab, nl, cr}"
    assume "block_cut maxLen content (split_step maxLen content)"
    then obtain n u where n: "int n \<le> maxLen - 5" "has_prefix fence (drop u content)"
      "header_end content u + 20 < n \<or> int n = maxLen - 5"
      "split_step maxLen content = Emit (trim_right ?w (take n content) @ [nl] @ fence)
         (trim_space (block_header content u @ [nl] @ drop n content))"
      by (auto simp: block_cut_def)
    note h = header_bound [OF assms(3) n(2) assms(4)]
    show thesis
    proof (rule that [OF n(4)])
      show "trim_right ?w (take n content) @ [nl] @ fence \<noteq> []" by simp
      have "length (trim_right ?w (take n content)) \<le> n"
        using length_trim_right [of ?w "take n content"] by simp
      then show "int (length (trim_right ?w (take n content) @ [nl] @ fence)) \<le> maxLen" using n(1) by simp
      have "length (block_header content u) + 2 \<le> n" using n(3) h(2,3) assms(5) by linarith
      then show "length (trim_space (block_header content u @ [nl] @ drop n content)) < length content"
        using length_trim_space [of "block_header content u @ [nl] @ drop n content"] n(1) assms(1,2) by simp
      have "short_fences L (drop n content)" using assms(3) short_fences_suffix [of L "take n content"] by simp
      then show "short_fences L (trim_space (block_header content u @ [nl] @ drop n content))"
        using h by (intro short_fences_trim short_fences_header)
      have v: "visible (trim_right ?w (take n content)) = visible (take n content)"
        by (rule visible_trim_right) (auto simp: is_space_def)
      have "subseq (visible (drop n content)) (visible ([nl] @ fence) @ visible (block_header content u @ [nl]) @
          visible (drop n content))"
        by (intro list_emb_append2 subseq_order.refl)
      then have "subseq (visible (take n content) @ visible (drop n content)) (visible (take n content) @
          visible ([nl] @ fence) @ visible (block_header content u @ [nl]) @ visible (drop n content))"
        by (intro list_emb_append_mono subseq_order.refl)
      then show "subseq (visible content) (visible (trim_right ?w (take n content) @ [nl] @ fence) @
          visible (trim_space (block_header content u @ [nl] @ drop n content)))"
        by (simp only: v visible_split visible_trim visible_append append_assoc)
    qed
  qed
qed

lemma split_loop_returns:
  assumes "short_fences L content" "3 \<le> L" "int L + 7 \<le> maxLen"
  shows "\<exists>out. split_loop maxLen messages content = Some (Inr (messages @ out)) \<and>
           (\<forall>m \<in> set out. m \<noteq> [] \<and> int (length m) \<le> maxLen) \<and> subseq (visible content) (visible (concat out))"
  using assms(1)
proof (induction "length content" arbitrary: content messages rule: less_induct)
  case less
  consider "content = []" | (short) "content \<noteq> []" "int (length content) \<le> maxLen"
    | (long) "content \<noteq> []" "maxLen < int (length content)" by linarith
  then show ?case
  proof cases
    case short
    then show ?thesis by (auto simp: split_loop.simps [of _ _ content] split_step_def intro!: exI [of _ "[content]"])
  next
    case long
    have m: "10 \<le> maxLen" using assms(2,3) by linarith
    obtain chunk rest where s: "split_step maxLen content = Emit chunk rest" "chunk \<noteq> []"
      "int (length chunk) \<le> maxLen" "length rest < length content" "short_fences L rest"
      "subseq (visible content) (visible chunk @ visible rest)"
      using step_emits [OF m long(2) less.prems assms(2,3)] by blast
    from less.hyps [OF s(4,5), of "messages @ [chunk]"] obtain out where
      o: "split_loop maxLen (messages @ [chunk]) rest = Some (Inr ((messages @ [chunk]) @ out))"
        "\<forall>m \<in> set out. m \<noteq> [] \<and> int (length m) \<le> maxLen" "subseq (visible rest) (visible (concat out))"
      by blast
    have "subseq (visible content) (visible chunk @ visible (concat out))"
      using s(6) o(3) by (meson list_emb_append_mono subseq_order.order_refl subseq_order.order_trans)
    then show ?thesis
      using long(1) s(1,2,3) o by (intro exI [of _ "chunk # out"]) (simp add: split_loop.simps [of _ _ content])
  qed (simp add: split_loop.simps)
qed


definition sample_text :: string where
  "sample_text = ''Here it is:'' @ [nl] @ fence @ ''go'' @ [nl] @ ''line one of the code'' @ [nl] @
     ''line two of the code'' @ [nl] @ ''line three'' @ [nl] @ fence @ [nl] @ ''and that is all''"


subsection \<open>A fence line that does not fit\<close>

definition long_fence :: "nat \<Rightarrow> string" where
  "long_fence k = fence @ replicate k CHR ''x''"

lemma long_fence_facts:
  "length (long_fence k) = k + 3" "nl \<notin> set (long_fence k)" "\<forall>c \<in> set (long_fence k). \<not> is_space c"
  "3 \<le> n \<Longrightarrow> drop n (long_fence k) = replicate (k + 3 - n) CHR ''x''"
  by (auto simp: long_fence_def fence_def is_space_def drop_Cons' numeral_3_eq_3)

lemma scan_back_nothing: "\<forall>c \<in> set s. \<not> p c \<Longrightarrow> n \<le> length s \<Longrightarrow> scan_back p s start n = - 1"
  by (induction n) auto

lemma unclosed_plain: "\<forall>c \<in> set s. c \<noteq> CHR 0x60 \<Longrightarrow> unclosed_from i b l s = (if b then l else - 1)"
proof (induction i b l s rule: unclosed_from.induct)
  case (1 i b l s)
  show ?case
  proof (cases s)
    case (Cons c r)
    then have "\<not> has_prefix fence s" using "1.prems" by (auto simp: fence_def)
    then show ?thesis using "1.IH"(2) "1.prems" Cons by (auto simp: unclosed_from.simps [of i b l])
  qed (simp add: unclosed_from.simps)
qed

lemma unclosed_long_fence: "3 \<le> n \<Longrightarrow> n \<le> k + 3 \<Longrightarrow> findLastUnclosedCodeBlock (take n (long_fence k)) = 0"
proof -
  assume "3 \<le> n" "n \<le> k + 3"
  then have "take n (long_fence k) = fence @ replicate (n - 3) CHR ''x''"
    by (auto simp: long_fence_def min_def)
  moreover have "unclosed_from 3 True 0 (replicate (n - 3) CHR ''x'') = 0" by (subst unclosed_plain) auto
  ultimately show ?thesis
    by (simp add: findLastUnclosedCodeBlock_def unclosed_from.simps [of 0]) (simp add: fence_def)
qed

lemma closing_late: "closing_from i (replicate m CHR ''x'' @ r) = closing_from (i + m) r"
  by (induction m arbitrary: i) (auto simp: fence_def)

lemma closing_from_ge: "0 < closing_from i s \<Longrightarrow> int i + 3 \<le> closing_from i s"
proof (induction s arbitrary: i)
  case (Cons c s)
  then show ?case using Cons.IH [of "i + 1"] by (auto split: if_splits)
qed simp

lemma trim_right_append: "c \<in> set b \<Longrightarrow> \<not> p c \<Longrightarrow> trim_right p (a @ b) = a @ trim_right p b"
  by (simp add: trim_right_def dropWhile_append1)

lemma long_fence_step:
  assumes "10 \<le> maxLen" "maxLen \<le> int k + 3"
  shows "\<exists>chunk y'. split_step maxLen (long_fence k @ [nl] @ y) = Emit chunk (long_fence k @ [nl] @ y')"
proof -
  let ?h = "long_fence k" and ?e = "nat (effectiveLimit maxLen)" and ?n = "nat (maxLen - 5)"
  let ?c = "?h @ [nl] @ y"
  note l = effectiveLimit_bounds [OF assms(1)]
  have len: "length ?h = k + 3" by (rule long_fence_facts(1))
  have e: "3 \<le> ?e" "?e \<le> k + 3" "3 \<le> ?n" "?n < k + 3" using l assms by auto
  have t: "take ?e ?c = take ?e ?h" using e len by simp
  have "\<forall>c \<in> set (take ?e ?h). \<not> is_space c" using long_fence_facts(3) by (auto dest: in_set_takeD)
  then have "\<forall>c \<in> set (take ?e ?h). c \<noteq> nl \<and> c \<noteq> CHR '' '' \<and> c \<noteq> tab" by (auto simp: is_space_def)
  then have nat_end: "natural_end (take ?e ?h) (effectiveLimit maxLen) = effectiveLimit maxLen"
    by (simp add: natural_end_def findLastNewline_def findLastSpace_def scan_back_nothing)
  have un: "findLastUnclosedCodeBlock (take ?e ?h) = 0" using e by (intro unclosed_long_fence)
  have "findNextClosingCodeBlock ?c (effectiveLimit maxLen) = closing_from (k + 4) y"
    using e len by (simp add: findNextClosingCodeBlock_def long_fence_facts(4) closing_late) (simp add: fence_def add.commute)
  then have cl: "\<not> (0 < findNextClosingCodeBlock ?c (effectiveLimit maxLen) \<and>
      findNextClosingCodeBlock ?c (effectiveLimit maxLen) \<le> maxLen)"
    using closing_from_ge [of "k + 4" y] assms by auto
  have he: "header_end ?c 0 = k + 3"
    using index_of_single_append [OF long_fence_facts(2), of k y] len by (simp add: header_end_def)
  have "trim_space ?h = ?h" using long_fence_facts(3) [of k] by (intro trim_space_id) (auto simp: len)
  then have bh: "block_header ?c 0 = ?h" using he len by (simp add: block_header_def)
  let ?x = "replicate (k + 3 - ?n) CHR ''x''"
  have d: "drop ?n ?c = ?x @ [nl] @ y" using e len by (simp add: long_fence_facts(4))
  have "CHR ''x'' \<in> set (?x @ [nl] @ y)" using e by simp
  then have tr: "trim_space (?h @ [nl] @ ?x @ [nl] @ y) = ?h @ [nl] @ trim_right is_space (?x @ [nl] @ y)"
    using trim_right_append [of "CHR ''x''" "?x @ [nl] @ y" is_space "?h @ [nl]"]
    by (simp add: trim_space_def long_fence_def fence_def is_space_def)
  have "split_step maxLen ?c = split_block maxLen ?c (effectiveLimit maxLen) 0"
    using assms l len t nat_end un by (simp add: split_step_def slice_to_def Let_def)
  also have "\<dots> = cut_inside ?c ?h (maxLen - 5)"
    unfolding split_block_def Let_def if_not_P [OF cl] he bh
    using l assms by (simp add: findLastNewline_def findLastSpace_def)
  also have "\<exists>chunk y'. \<dots> = Emit chunk (?h @ [nl] @ y')"
    using assms len unfolding cut_inside_def d tr by (simp add: slice_to_def d tr)
  finally show ?thesis .
qed

lemma split_loop_long_fence:
  assumes "split_loop maxLen messages content = Some r"
  shows "10 \<le> maxLen \<longrightarrow> maxLen \<le> int k + 3 \<longrightarrow> (\<forall>y. content \<noteq> long_fence k @ [nl] @ y)"
proof (rule split_loop.raw_induct [where P = "\<lambda>maxLen messages content r. 10 \<le> maxLen \<longrightarrow> maxLen \<le> int k + 3 \<longrightarrow>
    (\<forall>y. content \<noteq> long_fence k @ [nl] @ y)", OF _ assms])
  fix loop maxLen messages content r
  assume IH: "\<And>maxLen messages content r. loop maxLen messages content = Some r \<Longrightarrow>
      10 \<le> maxLen \<longrightarrow> maxLen \<le> int k + 3 \<longrightarrow> (\<forall>y. content \<noteq> long_fence k @ [nl] @ y)"
    and eq: "(if content = [] then Some (Inr messages)
      else case split_step maxLen content of
             Whole \<Rightarrow> Some (Inr (messages @ [content]))
           | Emit chunk rest \<Rightarrow> loop maxLen (messages @ [chunk]) rest
           | Slice_Panic \<Rightarrow> Some (Inl ())) = Some r"
  show "10 \<le> maxLen \<longrightarrow> maxLen \<le> int k + 3 \<longrightarrow> (\<forall>y. content \<noteq> long_fence k @ [nl] @ y)"
  proof (intro impI allI notI)
    fix y assume m: "10 \<le> maxLen" "maxLen \<le> int k + 3" and c: "content = long_fence k @ [nl] @ y"
    obtain chunk y' where "split_step maxLen content = Emit chunk (long_fence k @ [nl] @ y')"
      using long_fence_step [OF m] c by blast
    then have "loop maxLen (messages @ [chunk]) (long_fence k @ [nl] @ y') = Some r"
      using eq c by simp
    from IH [OF this] m show False by blast
  qed
qed

text \<open>
  A code block whose first line is as long as the limit is never delivered. The last resort of the
  splitter cuts at \<open>maxLen - 5\<close> and repeats the line of the fence in front of the rest, so the content
  does not get shorter, and \<open>SplitMessage\<close> runs for ever, collecting chunks, for every limit of at
  least ten. It is enough that the answer begins with a fence followed by one long line.
\<close>

theorem SplitMessage_diverges:
  assumes "10 \<le> maxLen" "maxLen \<le> int k + 3"
  shows "SplitMessage (long_fence k @ [nl] @ y) maxLen = None"
  using split_loop_long_fence [of maxLen "[]" _ _ k] assms
  by (cases "SplitMessage (long_fence k @ [nl] @ y) maxLen") (auto simp: SplitMessage_def)

theorem SplitMessage_diverges_witness:
  "SplitMessage (long_fence 2000 @ [nl] @ ''end'' @ [nl] @ fence) 2000 = None"
  by (rule SplitMessage_diverges) simp_all

end
