(* ===== verification/Campaign.thy ===== *)
theory Campaign
  imports Protocol
begin

text \<open>
  The campaign runner, \<^verbatim>\<open>pkg/campaign/runner.go\<close>, \<^verbatim>\<open>guardrails.go\<close> and the adapters of
  \<^verbatim>\<open>adapters/adapter.go\<close>. Every started campaign has a goroutine \<^verbatim>\<open>run\<close>; its control state is a
  \<open>run_pc\<close>, one constructor per point between two accesses to the shared execution, so that the other
  operations can happen at each of these points. A history of the runner is a list of events:
  operations of the callers, steps of the goroutines, and contexts that end on their own (the
  deadline or the caller's context). What an adapter answers is part of the event of the call. An
  execution is shared by pointer; executions are never removed from the map, so the identifier of
  the campaign stands for the pointer.
\<close>

subsection \<open>Data\<close>

datatype Status = StatusPending | StatusRunning | StatusCompleted | StatusFailed | StatusCanceled

definition status_string :: "Status \<Rightarrow> string" where
  "status_string s =
     (case s of StatusPending \<Rightarrow> ''pending'' | StatusRunning \<Rightarrow> ''running'' | StatusCompleted \<Rightarrow> ''completed''
      | StatusFailed \<Rightarrow> ''failed'' | StatusCanceled \<Rightarrow> ''canceled'')"

record Guardrails =
  gr_MaxDurationMinutes :: int
  gr_ReadOnly :: bool
  gr_AIAPIBudgetCents :: int
  gr_KillSwitch :: bool
  gr_MaxToolCalls :: int
  gr_MaxIterations :: int

definition DefaultGuardrails :: Guardrails where
  "DefaultGuardrails = \<lparr>gr_MaxDurationMinutes = 60, gr_ReadOnly = False, gr_AIAPIBudgetCents = 1000,
     gr_KillSwitch = True, gr_MaxToolCalls = 100, gr_MaxIterations = 50\<rparr>"

record Target =
  tg_AgentID :: string
  tg_Backend :: string
  tg_ConfigOverride :: string

record Step =
  sp_Name :: string
  sp_Prompt :: string
  sp_Tools :: "string list"
  sp_TimeoutMinutes :: int

record Definition =
  df_ID :: string
  df_Name :: string
  df_Description :: string
  df_Targets :: "Target list"
  df_Steps :: "Step list"
  df_Guardrails :: Guardrails
  df_Feedback :: string
  df_Tags :: "string list"

record StepResult =
  sr_StepName :: string
  sr_Output :: string
  sr_Duration :: duration
  sr_ToolCalls :: int
  sr_Tokens :: int
  sr_Error :: string

record Execution =
  xe_ID :: string
  xe_Definition :: Definition
  xe_Status :: Status
  xe_StartTime :: time
  xe_EndTime :: time
  xe_CurrentStep :: int
  xe_SpentCents :: int
  xe_ToolCalls :: int
  xe_Iterations :: int
  xe_Results :: "StepResult list"
  xe_Error :: string
  xe_KillSwitchUsed :: bool

subsection \<open>Adapters and guardrails\<close>

text \<open>The two adapters of the repository; the function behind the first is the agent loop's.\<close>

datatype Adapter =
    TinyClawAdapter "(string \<Rightarrow> string \<Rightarrow> string \<times> GoError option) option"
  | StubAdapter (ad_BackendName: string) (ad_Response: string)

fun Adapter_Execute :: "Adapter \<Rightarrow> string \<Rightarrow> string \<Rightarrow> string list \<Rightarrow> string \<times> GoError option" where
  "Adapter_Execute (TinyClawAdapter None) agentID prompt tools =
     ([], Some (ErrNew ''tinyclaw adapter not initialized: ProcessFn is nil''))"
| "Adapter_Execute (TinyClawAdapter (Some processFn)) agentID prompt tools =
     processFn prompt (''campaign:'' @ agentID)"
| "Adapter_Execute (StubAdapter name response) agentID prompt tools =
     (if response \<noteq> [] then (response, None)
      else (''['' @ name @ ''/'' @ agentID @ ''] processed: '' @ take 50 prompt, None))"

fun Adapter_Name :: "Adapter \<Rightarrow> string" where
  "Adapter_Name (TinyClawAdapter f) = ''tinyclaw''"
| "Adapter_Name (StubAdapter name response) = name"

definition elapsed_minutes :: "time \<Rightarrow> Execution \<Rightarrow> int" where
  "elapsed_minutes now exec = quot (time_sub now (xe_StartTime exec)) minute"

definition checkGuardrails :: "time \<Rightarrow> Execution \<Rightarrow> Guardrails \<Rightarrow> string" where
  "checkGuardrails now exec g =
     (if xe_KillSwitchUsed exec then ''kill_switch_activated''
      else if elapsed_minutes now exec \<ge> gr_MaxDurationMinutes g then ''duration_exceeded''
      else if xe_SpentCents exec \<ge> gr_AIAPIBudgetCents g then ''budget_exhausted''
      else if xe_ToolCalls exec \<ge> gr_MaxToolCalls g then ''tool_call_limit''
      else if xe_Iterations exec \<ge> gr_MaxIterations g then ''iteration_limit''
      else [])"

text \<open>A nil execution is \<open>None\<close>; an execution made by \<open>Start\<close> has a definition.\<close>

definition GuardrailCheck :: "time \<Rightarrow> Execution option \<Rightarrow> GoError option" where
  "GuardrailCheck now exec =
     (case exec of
        None \<Rightarrow> None
      | Some e \<Rightarrow>
          let reason = checkGuardrails now e (df_Guardrails (xe_Definition e)) in
          if reason \<noteq> [] then Some (ErrNew (''campaign '' @ xe_ID e @ '': guardrail violation: '' @ reason)) else None)"

definition CanExecuteTool :: "Execution option \<Rightarrow> string \<Rightarrow> bool" where
  "CanExecuteTool exec toolName =
     (case exec of
        None \<Rightarrow> True
      | Some e \<Rightarrow>
          let g = df_Guardrails (xe_Definition e) in
          if xe_KillSwitchUsed e then False
          else if gr_ReadOnly g \<and> toolName \<in> {''write_file'', ''exec_command'', ''delete_file''} then False
          else \<not> xe_ToolCalls e \<ge> gr_MaxToolCalls g)"

definition RecordToolCall :: "int \<Rightarrow> Execution \<Rightarrow> Execution" where
  "RecordToolCall costCents exec =
     exec\<lparr>xe_ToolCalls := wrap64 (xe_ToolCalls exec + 1), xe_SpentCents := wrap64 (xe_SpentCents exec + costCents)\<rparr>"

subsection \<open>The runner\<close>

text \<open>
  \<open>AtCheck i\<close>: before the context check of step \<open>i\<close> (or at the end of the loop); \<open>AtCanceled\<close>: the
  context had ended; \<open>AtGuard i\<close>, \<open>AtFail\<close>: before the guardrail check and after a violation;
  \<open>AtStep i\<close>: before \<^verbatim>\<open>CurrentStep\<close> is set; \<open>AtTarget i ts output err start\<close>: the loop over the
  targets with \<open>ts\<close> left; \<open>AtCall\<close>: inside \<^verbatim>\<open>adapter.Execute\<close>; \<open>AtRecord i r\<close>: before the result is
  appended; \<open>AtComplete\<close>: after the loop; \<open>AtReturn\<close>: in the deferred function.
\<close>

datatype 'a run_pc =
    AtCheck nat
  | AtCanceled GoError
  | AtGuard nat
  | AtFail string
  | AtStep nat
  | AtTarget nat "Target list" string "GoError option" time
  | AtCall nat 'a Target "Target list" time
  | AtRecord nat StepResult
  | AtComplete
  | AtReturn

record 'a Runner =
  rn_executions :: "string \<rightharpoonup> Execution"
  rn_adapters :: "string \<rightharpoonup> 'a"
  rn_cancel :: "string set"
  rn_ctx :: "string \<rightharpoonup> GoError"
  rn_pc :: "string \<rightharpoonup> 'a run_pc"

text \<open>\<open>rn_ctx\<close> holds the error of the campaigns' contexts that have ended; \<open>rn_pc\<close> the goroutines.\<close>

definition NewRunner :: "'a Runner" where
  "NewRunner = \<lparr>rn_executions = Map.empty, rn_adapters = Map.empty, rn_cancel = {}, rn_ctx = Map.empty,
     rn_pc = Map.empty\<rparr>"

definition RegisterAdapter :: "string \<Rightarrow> 'a \<Rightarrow> 'a Runner \<Rightarrow> 'a Runner" where
  "RegisterAdapter backend adapter r = r\<lparr>rn_adapters := (rn_adapters r)(backend \<mapsto> adapter)\<rparr>"

definition new_execution :: "time \<Rightarrow> Definition \<Rightarrow> Execution" where
  "new_execution now d =
     \<lparr>xe_ID = df_ID d, xe_Definition = d, xe_Status = StatusRunning, xe_StartTime = now,
      xe_EndTime = 0, xe_CurrentStep = 0, xe_SpentCents = 0, xe_ToolCalls = 0, xe_Iterations = 0,
      xe_Results = [], xe_Error = [], xe_KillSwitchUsed = False\<rparr>"

definition launch :: "time \<Rightarrow> Definition \<Rightarrow> 'a Runner \<Rightarrow> 'a Runner" where
  "launch now d r =
     r\<lparr>rn_executions := (rn_executions r)(df_ID d \<mapsto> new_execution now d),
       rn_cancel := insert (df_ID d) (rn_cancel r),
       rn_pc := (rn_pc r)(df_ID d \<mapsto> AtCheck 0)\<rparr>"

definition Start :: "time \<Rightarrow> Definition option \<Rightarrow> 'a Runner \<Rightarrow> 'a Runner \<times> (GoError + Execution)" where
  "Start now def r =
     (case def of
        None \<Rightarrow> (r, Inl (ErrNew ''campaign definition is nil''))
      | Some d \<Rightarrow>
          if df_ID d = [] then (r, Inl (ErrNew ''campaign ID is required''))
          else if df_Steps d = [] then (r, Inl (ErrNew ''campaign must have at least one step''))
          else if rn_executions r (df_ID d) \<noteq> None
            then (r, Inl (ErrNew (''campaign '' @ go_quote (df_ID d) @ '' is already running'')))
          else (launch now d r, Inr (new_execution now d)))"

definition end_context :: "string \<Rightarrow> GoError \<Rightarrow> 'a Runner \<Rightarrow> 'a Runner" where
  "end_context cid err r = (if rn_ctx r cid = None then r\<lparr>rn_ctx := (rn_ctx r)(cid \<mapsto> err)\<rparr> else r)"

definition update_exec :: "string \<Rightarrow> (Execution \<Rightarrow> Execution) \<Rightarrow> 'a Runner \<Rightarrow> 'a Runner" where
  "update_exec cid f r = r\<lparr>rn_executions := (rn_executions r)(cid := map_option f (rn_executions r cid))\<rparr>"

definition Stop :: "time \<Rightarrow> string \<Rightarrow> 'a Runner \<Rightarrow> 'a Runner \<times> GoError option" where
  "Stop now campaignID r =
     (case rn_executions r campaignID of
        None \<Rightarrow> (r, Some (ErrNew (''campaign '' @ go_quote campaignID @ '' not found'')))
      | Some exec \<Rightarrow>
          if xe_Status exec \<noteq> StatusRunning
          then (r, Some (ErrNew (''campaign '' @ go_quote campaignID @ '' is not running (status: '' @
                 status_string (xe_Status exec) @ '')'')))
          else let r = update_exec campaignID
                     (\<lambda>e. e\<lparr>xe_KillSwitchUsed := True, xe_Status := StatusCanceled, xe_EndTime := now\<rparr>) r
               in (if campaignID \<in> rn_cancel r
                   then (end_context campaignID ErrCanceled r)\<lparr>rn_cancel := rn_cancel r - {campaignID}\<rparr>
                   else r, None))"

definition GetStatus :: "string \<Rightarrow> 'a Runner \<Rightarrow> GoError + Execution" where
  "GetStatus campaignID r =
     (case rn_executions r campaignID of
        None \<Rightarrow> Inl (ErrNew (''campaign '' @ go_quote campaignID @ '' not found''))
      | Some exec \<Rightarrow> Inr exec)"

text \<open>The order of the result is that of the iteration over the map, \<open>ids\<close>.\<close>

definition ListExecutions :: "string list \<Rightarrow> 'a Runner \<Rightarrow> Execution list" where
  "ListExecutions ids r = List.map_filter (rn_executions r) ids"

subsection \<open>The goroutine\<close>

definition steps_of :: "Execution \<Rightarrow> Step list" where
  "steps_of exec = df_Steps (xe_Definition exec)"

definition targets_of :: "Execution \<Rightarrow> Target list" where
  "targets_of exec = df_Targets (xe_Definition exec)"

definition step_result :: "time \<Rightarrow> Step \<Rightarrow> string \<Rightarrow> GoError option \<Rightarrow> time \<Rightarrow> StepResult" where
  "step_result now step output stepErr stepStart =
     \<lparr>sr_StepName = sp_Name step, sr_Output = output, sr_Duration = time_sub now stepStart,
      sr_ToolCalls = int (length (sp_Tools step)), sr_Tokens = 0,
      sr_Error = (case stepErr of Some e \<Rightarrow> error_text e | None \<Rightarrow> [])\<rparr>"

text \<open>
  One step of \<^verbatim>\<open>run\<close> from a control point: the change of the execution and the next point.
  \<open>call\<close> is the answer of an adapter, \<open>ctx\<close> the error of the context.
\<close>

type_synonym 'a call = "'a \<Rightarrow> string \<Rightarrow> string \<Rightarrow> string list \<Rightarrow> string \<times> GoError option"

fun run_step :: "time \<Rightarrow> 'a call \<Rightarrow> GoError option \<Rightarrow> (string \<rightharpoonup> 'a) \<Rightarrow> Execution \<Rightarrow> 'a run_pc \<Rightarrow>
    Execution \<times> 'a run_pc option" where
  "run_step now call ctx adapters exec (AtCheck i) =
     (exec, Some (if i < length (steps_of exec)
                  then (case ctx of Some err \<Rightarrow> AtCanceled err | None \<Rightarrow> AtGuard i)
                  else AtComplete))"
| "run_step now call ctx adapters exec (AtCanceled err) =
     ((if xe_Status exec = StatusRunning then exec\<lparr>xe_Status := StatusCanceled, xe_Error := error_text err\<rparr> else exec)
        \<lparr>xe_EndTime := now\<rparr>, Some AtReturn)"
| "run_step now call ctx adapters exec (AtGuard i) =
     (exec, Some (let reason = checkGuardrails now exec (df_Guardrails (xe_Definition exec))
                  in if reason \<noteq> [] then AtFail reason else AtStep i))"
| "run_step now call ctx adapters exec (AtFail reason) =
     (exec\<lparr>xe_Status := StatusFailed, xe_Error := ''guardrail: '' @ reason, xe_EndTime := now\<rparr>, Some AtReturn)"
| "run_step now call ctx adapters exec (AtStep i) =
     (exec\<lparr>xe_CurrentStep := int i\<rparr>, Some (AtTarget i (targets_of exec) [] None now))"
| "run_step now call ctx adapters exec (AtTarget i [] output stepErr start) =
     (exec, Some (AtRecord i (step_result now (steps_of exec ! i) output stepErr start)))"
| "run_step now call ctx adapters exec (AtTarget i (t # ts) output stepErr start) =
     (exec, Some (case adapters (tg_Backend t) of
        None \<Rightarrow> AtTarget i ts output (Some (ErrNew (''no adapter for backend '' @ go_quote (tg_Backend t)))) start
      | Some adapter \<Rightarrow> AtCall i adapter t ts start))"
| "run_step now call ctx adapters exec (AtCall i adapter t ts start) =
     (exec, Some (case call adapter (tg_AgentID t) (sp_Prompt (steps_of exec ! i)) (sp_Tools (steps_of exec ! i)) of
        (output, None) \<Rightarrow> AtTarget i [] output None start
      | (output, Some err) \<Rightarrow> AtTarget i ts output (Some err) start))"
| "run_step now call ctx adapters exec (AtRecord i result) =
     (exec\<lparr>xe_Results := xe_Results exec @ [result], xe_Iterations := xe_Iterations exec + 1\<rparr>, Some (AtCheck (i + 1)))"
| "run_step now call ctx adapters exec AtComplete =
     (exec\<lparr>xe_Status := StatusCompleted, xe_EndTime := now\<rparr>, Some AtReturn)"
| "run_step now call ctx adapters exec AtReturn = (exec, None)"

definition run :: "time \<Rightarrow> 'a call \<Rightarrow> string \<Rightarrow> 'a Runner \<Rightarrow> 'a Runner" where
  "run now call cid r =
     (case (rn_executions r cid, rn_pc r cid) of
        (Some exec, Some pc) \<Rightarrow>
          (case run_step now call (rn_ctx r cid) (rn_adapters r) exec pc of
             (exec', pc') \<Rightarrow> r\<lparr>rn_executions := (rn_executions r)(cid \<mapsto> exec'), rn_pc := (rn_pc r)(cid := pc'),
               rn_cancel := (if pc' = None then rn_cancel r - {cid} else rn_cancel r)\<rparr>)
      | _ \<Rightarrow> r)"

subsection \<open>Histories\<close>

datatype 'a campaign_event =
    Starts time "Definition option"
  | Stops time string
  | Registers string 'a
  | Tool_Call string int
  | Context_Ends string GoError
  | Runs string time "'a call"

fun campaign_step :: "'a campaign_event \<Rightarrow> 'a Runner \<Rightarrow> 'a Runner" where
  "campaign_step (Starts now def) r = fst (Start now def r)"
| "campaign_step (Stops now cid) r = fst (Stop now cid r)"
| "campaign_step (Registers backend adapter) r = RegisterAdapter backend adapter r"
| "campaign_step (Tool_Call cid cost) r = update_exec cid (RecordToolCall cost) r"
| "campaign_step (Context_Ends cid err) r = (if rn_executions r cid = None then r else end_context cid err r)"
| "campaign_step (Runs cid now call) r = run now call cid r"

definition campaign_run :: "'a campaign_event list \<Rightarrow> 'a Runner \<Rightarrow> 'a Runner" where
  "campaign_run es r = fold campaign_step es r"

lemma campaign_run_simps [simp]:
  "campaign_run [] r = r"
  "campaign_run (e # es) r = campaign_run es (campaign_step e r)"
  "campaign_run (es @ fs) r = campaign_run fs (campaign_run es r)"
  by (simp_all add: campaign_run_def)

subsection \<open>The invariant\<close>

text \<open>What holds of an execution, by the control point of its goroutine.\<close>

definition exec_inv :: "string \<Rightarrow> Execution \<Rightarrow> bool" where
  "exec_inv cid e \<longleftrightarrow> xe_ID e = cid \<and> df_ID (xe_Definition e) = cid \<and> steps_of e \<noteq> [] \<and>
     xe_Iterations e = int (length (xe_Results e)) \<and>
     map sr_StepName (xe_Results e) = map sp_Name (take (length (xe_Results e)) (steps_of e)) \<and>
     length (xe_Results e) \<le> nat (gr_MaxIterations (df_Guardrails (xe_Definition e))) \<and>
     0 \<le> xe_CurrentStep e \<and> xe_CurrentStep e < int (length (steps_of e))"

fun pc_inv :: "Execution \<Rightarrow> 'a run_pc \<Rightarrow> bool" where
  "pc_inv e (AtCheck i) \<longleftrightarrow> i = length (xe_Results e) \<and> i \<le> length (steps_of e)"
| "pc_inv e (AtCanceled err) \<longleftrightarrow> True"
| "pc_inv e (AtGuard i) \<longleftrightarrow> i = length (xe_Results e) \<and> i < length (steps_of e)"
| "pc_inv e (AtFail reason) \<longleftrightarrow> True"
| "pc_inv e (AtComplete) \<longleftrightarrow> length (xe_Results e) = length (steps_of e)"
| "pc_inv e (AtRecord i result) \<longleftrightarrow> i = length (xe_Results e) \<and> i < length (steps_of e) \<and>
     int i < gr_MaxIterations (df_Guardrails (xe_Definition e)) \<and> sr_StepName result = sp_Name (steps_of e ! i)"
| "pc_inv e (AtStep i) \<longleftrightarrow> i = length (xe_Results e) \<and> i < length (steps_of e) \<and>
     int i < gr_MaxIterations (df_Guardrails (xe_Definition e))"
| "pc_inv e (AtTarget i ts out err start) \<longleftrightarrow> i = length (xe_Results e) \<and> i < length (steps_of e) \<and>
     int i < gr_MaxIterations (df_Guardrails (xe_Definition e))"
| "pc_inv e (AtCall i a t ts start) \<longleftrightarrow> i = length (xe_Results e) \<and> i < length (steps_of e) \<and>
     int i < gr_MaxIterations (df_Guardrails (xe_Definition e))"
| "pc_inv e AtReturn \<longleftrightarrow> True"

definition over :: "'a run_pc option \<Rightarrow> bool" where
  "over pc \<longleftrightarrow> pc = None \<or> pc = Some AtReturn"

definition status_inv :: "Execution \<Rightarrow> 'a run_pc option \<Rightarrow> bool" where
  "status_inv e pc \<longleftrightarrow>
     (if over pc then xe_Status e \<in> {StatusCompleted, StatusFailed, StatusCanceled} \<and>
        (xe_Status e = StatusCompleted \<longrightarrow> length (xe_Results e) = length (steps_of e))
      else xe_Status e = StatusRunning \<or> xe_Status e = StatusCanceled \<and> xe_KillSwitchUsed e)"

definition cell_inv :: "'a Runner \<Rightarrow> string \<Rightarrow> bool" where
  "cell_inv r cid \<longleftrightarrow>
     (case rn_executions r cid of
        None \<Rightarrow> rn_pc r cid = None \<and> rn_ctx r cid = None
      | Some e \<Rightarrow> exec_inv cid e \<and> status_inv e (rn_pc r cid) \<and> (\<forall>pc. rn_pc r cid = Some pc \<longrightarrow> pc_inv e pc) \<and>
          (xe_Status e = StatusRunning \<longrightarrow> cid \<in> rn_cancel r) \<and> (xe_KillSwitchUsed e \<longrightarrow> rn_ctx r cid \<noteq> None))"

lemma run_step_inv:
  assumes "run_step now call ctx adapters e pc = (e', pc')" "exec_inv cid e" "pc_inv e pc" "status_inv e (Some pc)"
  shows "exec_inv cid e' \<and> status_inv e' pc' \<and> (\<forall>pc. pc' = Some pc \<longrightarrow> pc_inv e' pc) \<and>
         xe_KillSwitchUsed e' = xe_KillSwitchUsed e \<and> (pc' = None \<longrightarrow> pc = AtReturn \<and> e' = e) \<and>
         (xe_Status e' = StatusRunning \<longrightarrow> xe_Status e = StatusRunning) \<and> xe_Definition e' = xe_Definition e"
proof (cases pc)
  case (AtGuard i)
  then show ?thesis using assms
    by (auto simp: Let_def checkGuardrails_def exec_inv_def status_inv_def over_def split: if_splits)
next
  case (AtTarget i ts out err start)
  then show ?thesis using assms
    by (cases ts) (auto simp: exec_inv_def status_inv_def over_def step_result_def split: option.splits)
next
  case (AtCall i a t ts start)
  then show ?thesis using assms
    by (auto simp: exec_inv_def status_inv_def over_def split: option.splits prod.splits)
next
  case (AtRecord i result)
  then show ?thesis using assms
    by (auto simp: exec_inv_def status_inv_def over_def steps_of_def take_Suc_conv_app_nth)
qed (use assms in \<open>auto simp: exec_inv_def status_inv_def over_def steps_of_def split: if_splits option.splits\<close>)

text \<open>The invariant of a goroutine reads the results and the definition only.\<close>

lemma pc_inv_cong:
  "xe_Results e' = xe_Results e \<Longrightarrow> xe_Definition e' = xe_Definition e \<Longrightarrow> pc_inv e' pc = pc_inv e pc"
  by (cases pc) (simp_all add: steps_of_def)

lemma exec_inv_cong:
  "xe_Results e' = xe_Results e \<Longrightarrow> xe_Definition e' = xe_Definition e \<Longrightarrow> xe_ID e' = xe_ID e \<Longrightarrow>
   xe_Iterations e' = xe_Iterations e \<Longrightarrow> xe_CurrentStep e' = xe_CurrentStep e \<Longrightarrow> exec_inv cid e' = exec_inv cid e"
  by (simp add: exec_inv_def steps_of_def)

lemma cell_inv_cong:
  assumes "cell_inv r cid" "rn_executions r' cid = rn_executions r cid" "rn_pc r' cid = rn_pc r cid"
    "rn_ctx r' cid = rn_ctx r cid" "cid \<in> rn_cancel r \<longrightarrow> cid \<in> rn_cancel r'"
  shows "cell_inv r' cid"
  using assms unfolding cell_inv_def by (cases "rn_executions r cid") auto

lemma Start_cases:
  "fst (Start now def r) = r \<or>
   (\<exists>d. def = Some d \<and> df_ID d \<noteq> [] \<and> df_Steps d \<noteq> [] \<and> rn_executions r (df_ID d) = None \<and>
      fst (Start now def r) = launch now d r)"
  by (cases "def") (simp_all add: Start_def)

lemma start_inv:
  assumes "cell_inv r cid"
  shows "cell_inv (fst (Start now def r)) cid"
proof (cases "fst (Start now def r) = r")
  case False
  then obtain d where d: "fst (Start now def r) = launch now d r" "df_Steps d \<noteq> []" "rn_executions r (df_ID d) = None"
    using Start_cases by blast
  show ?thesis
  proof (cases "df_ID d = cid")
    case True
    then show ?thesis using assms d
      by (simp add: launch_def new_execution_def cell_inv_def exec_inv_def status_inv_def over_def steps_of_def)
  next
    case False
    then show ?thesis using d(1) by (intro cell_inv_cong [OF assms]) (simp_all add: launch_def)
  qed
qed (use assms in simp)

lemma stop_inv:
  assumes "cell_inv r cid"
  shows "cell_inv (fst (Stop now sid r)) cid"
proof (cases "rn_executions r sid")
  case (Some e)
  show ?thesis
  proof (cases "xe_Status e = StatusRunning \<and> cid = sid")
    case True
    let ?e = "e\<lparr>xe_KillSwitchUsed := True, xe_Status := StatusCanceled, xe_EndTime := now\<rparr>"
    have old: "exec_inv cid e" "status_inv e (rn_pc r cid)" "\<And>pc. rn_pc r cid = Some pc \<Longrightarrow> pc_inv e pc"
      "cid \<in> rn_cancel r"
      using assms Some True by (auto simp: cell_inv_def)
    have "exec_inv cid ?e" using old(1) by (simp add: exec_inv_cong [of ?e e])
    moreover have "status_inv ?e (rn_pc r cid)" using old(2) True by (auto simp: status_inv_def split: if_splits)
    moreover have "\<And>pc. rn_pc r cid = Some pc \<Longrightarrow> pc_inv ?e pc" using old(3) by (simp add: pc_inv_cong [of ?e e])
    ultimately show ?thesis using True Some old(4)
      by (simp add: Stop_def Let_def cell_inv_def update_exec_def end_context_def)
  next
    case False
    then show ?thesis
    proof (cases "xe_Status e = StatusRunning")
      case True
      with False show ?thesis using Some
        by (intro cell_inv_cong [OF assms]) (simp_all add: Stop_def Let_def update_exec_def end_context_def)
    qed (use assms Some in \<open>simp add: Stop_def\<close>)
  qed
qed (use assms in \<open>simp add: Stop_def\<close>)

lemma run_other:
  assumes "sid \<noteq> cid"
  shows "rn_executions (run now call sid r) cid = rn_executions r cid" "rn_pc (run now call sid r) cid = rn_pc r cid"
    "rn_ctx (run now call sid r) cid = rn_ctx r cid" "cid \<in> rn_cancel (run now call sid r) \<longleftrightarrow> cid \<in> rn_cancel r"
  using assms by (auto simp: run_def split: option.splits prod.splits)

lemma run_idle: "rn_executions r cid = None \<or> rn_pc r cid = None \<Longrightarrow> run now call cid r = r"
  by (auto simp: run_def split: option.splits)

lemma step_inv:
  assumes "cell_inv r cid"
  shows "cell_inv (campaign_step ev r) cid"
proof (cases ev)
  case (Tool_Call sid cost)
  show ?thesis
  proof (cases "rn_executions r cid")
    case (Some e)
    have "exec_inv cid (RecordToolCall cost e) = exec_inv cid e"
      by (rule exec_inv_cong) (simp_all add: RecordToolCall_def)
    moreover have "status_inv (RecordToolCall cost e) (rn_pc r cid) = status_inv e (rn_pc r cid)"
      by (simp add: RecordToolCall_def status_inv_def steps_of_def)
    moreover have "pc_inv (RecordToolCall cost e) pc = pc_inv e pc" for pc :: "'a run_pc"
      by (rule pc_inv_cong) (simp_all add: RecordToolCall_def)
    ultimately show ?thesis using assms Some Tool_Call
      by (cases "sid = cid") (simp_all add: cell_inv_def update_exec_def RecordToolCall_def)
  qed (use assms Tool_Call in \<open>auto simp: cell_inv_def update_exec_def\<close>)
next
  case (Context_Ends sid err)
  then show ?thesis using assms
    by (cases "rn_executions r cid") (auto simp: cell_inv_def end_context_def)
next
  case (Runs sid now call)
  show ?thesis
  proof (cases "sid = cid \<and> (\<exists>e pc. rn_executions r cid = Some e \<and> rn_pc r cid = Some pc)")
    case True
    then obtain e pc where e: "rn_executions r cid = Some e" "rn_pc r cid = Some pc" "sid = cid" by blast
    obtain e' pc' where s: "run_step now call (rn_ctx r cid) (rn_adapters r) e pc = (e', pc')" by fastforce
    have "exec_inv cid e" "pc_inv e pc" "status_inv e (Some pc)" using assms e by (auto simp: cell_inv_def)
    note i = run_step_inv [OF s this]
    have "pc' = None \<Longrightarrow> xe_Status e' \<noteq> StatusRunning" using i by (auto simp: status_inv_def over_def)
    then have "xe_Status e' = StatusRunning \<Longrightarrow> pc' \<noteq> None" by blast
    then show ?thesis using assms e s Runs i by (auto simp: cell_inv_def run_def)
  next
    case False
    then show ?thesis using Runs run_other [of sid cid now call r] assms
      by (cases "sid = cid") (auto intro: cell_inv_cong [OF assms] simp: run_idle)
  qed
next
  case (Registers backend adapter)
  then show ?thesis by (intro cell_inv_cong [OF assms]) (simp_all add: RegisterAdapter_def)
qed (use assms start_inv stop_inv in simp_all)

lemma run_inv: "cell_inv r cid \<Longrightarrow> cell_inv (campaign_run es r) cid"
  by (induction es arbitrary: r) (simp_all add: step_inv)

lemma new_inv: "cell_inv NewRunner cid"
  by (simp add: cell_inv_def NewRunner_def)

subsection \<open>Stopping and ending\<close>

text \<open>The results that a goroutine has written or is bound to write once its context has ended.\<close>

definition bound_results :: "Execution \<Rightarrow> 'a run_pc option \<Rightarrow> nat" where
  "bound_results e pc =
     length (xe_Results e) +
     (case pc of
        Some (AtGuard i) \<Rightarrow> 1 | Some (AtStep i) \<Rightarrow> 1 | Some (AtTarget i ts out err start) \<Rightarrow> 1
      | Some (AtCall i a t ts start) \<Rightarrow> 1 | Some (AtRecord i res) \<Rightarrow> 1 | _ \<Rightarrow> 0)"

lemma bound_results_le: "bound_results e pc \<le> length (xe_Results e) + 1"
proof (cases pc)
  case (Some q)
  then show ?thesis by (cases q) (simp_all add: bound_results_def)
qed (simp add: bound_results_def)

text \<open>The steps that a goroutine can still make, for \<open>n\<close> steps and \<open>m\<close> targets.\<close>

fun steps_left :: "nat \<Rightarrow> nat \<Rightarrow> 'a run_pc \<Rightarrow> nat" where
  "steps_left n m (AtCheck i) = (n - i) * (2 * m + 5) + 3"
| "steps_left n m (AtCanceled err) = 2"
| "steps_left n m (AtGuard i) = (n - i - 1) * (2 * m + 5) + 2 * m + 7"
| "steps_left n m (AtFail reason) = 2"
| "steps_left n m (AtStep i) = (n - i - 1) * (2 * m + 5) + 2 * m + 6"
| "steps_left n m (AtTarget i ts out err start) = (n - i - 1) * (2 * m + 5) + 2 * length ts + 5"
| "steps_left n m (AtCall i a t ts start) = (n - i - 1) * (2 * m + 5) + 2 * length ts + 6"
| "steps_left n m (AtRecord i res) = (n - i - 1) * (2 * m + 5) + 4"
| "steps_left n m AtComplete = 2"
| "steps_left n m AtReturn = 1"

lemma steps_left_pos [simp]: "steps_left n m pc \<noteq> 0"
  by (cases pc) simp_all

definition work_left :: "'a Runner \<Rightarrow> string \<Rightarrow> nat" where
  "work_left r cid =
     (case (rn_executions r cid, rn_pc r cid) of
        (Some e, Some pc) \<Rightarrow> steps_left (length (steps_of e)) (length (targets_of e)) pc
      | _ \<Rightarrow> 0)"

lemma run_step_bound:
  assumes "run_step now call (Some err) adapters e pc = (e', pc')"
  shows "bound_results e' pc' \<le> bound_results e (Some pc) \<and> xe_KillSwitchUsed e' = xe_KillSwitchUsed e"
proof (cases pc)
  case (AtGuard i)
  then show ?thesis using assms by (auto simp: bound_results_def Let_def split: if_splits)
next
  case (AtTarget i ts out err start)
  then show ?thesis using assms by (cases ts) (auto simp: bound_results_def split: option.splits)
next
  case (AtCall i a t ts start)
  then show ?thesis using assms by (auto simp: bound_results_def split: option.splits prod.splits)
qed (use assms in \<open>auto simp: bound_results_def split: if_splits\<close>)

lemma run_step_progress:
  assumes "run_step now call ctx adapters e pc = (e', pc')" "pc_inv e pc"
  shows "(case pc' of None \<Rightarrow> 0 | Some q \<Rightarrow> steps_left (length (steps_of e)) (length (targets_of e)) q)
       < steps_left (length (steps_of e)) (length (targets_of e)) pc"
proof (cases pc)
  case (AtCheck i)
  show ?thesis
  proof (cases "i < length (steps_of e)")
    case True
    then have "length (steps_of e) - i = Suc (length (steps_of e) - i - 1)" by simp
    then have "(length (steps_of e) - i) * (2 * length (targets_of e) + 5) =
        (length (steps_of e) - i - 1) * (2 * length (targets_of e) + 5) + (2 * length (targets_of e) + 5)"
      by (metis add.commute mult_Suc)
    then show ?thesis using assms AtCheck True by (auto split: option.splits)
  qed (use assms AtCheck in auto)
next
  case (AtTarget i ts out err start)
  then show ?thesis using assms by (cases ts) (auto split: option.splits)
next
  case (AtCall i a t ts start)
  then show ?thesis using assms by (auto split: option.splits prod.splits)
qed (use assms in \<open>auto simp: Let_def targets_of_def split: if_splits\<close>)

text \<open>Steps of other campaigns and of the callers leave a goroutine where it is.\<close>

lemma step_others:
  assumes "rn_executions r cid = Some e" "\<And>now call. ev \<noteq> Runs cid now call"
  shows "\<exists>e'. rn_executions (campaign_step ev r) cid = Some e' \<and> rn_pc (campaign_step ev r) cid = rn_pc r cid \<and>
           xe_Results e' = xe_Results e \<and> xe_Definition e' = xe_Definition e \<and>
           (xe_KillSwitchUsed e \<longrightarrow> xe_KillSwitchUsed e') \<and>
           (rn_ctx r cid \<noteq> None \<longrightarrow> rn_ctx (campaign_step ev r) cid = rn_ctx r cid)"
proof (cases ev)
  case (Starts now d)
  then show ?thesis using assms Start_cases [of now d r] by (auto simp: launch_def)
next
  case (Stops now sid)
  show ?thesis
  proof (cases "rn_executions r sid")
    case (Some x)
    then show ?thesis using assms Stops
      by (cases "xe_Status x = StatusRunning"; cases "sid = cid")
        (simp_all add: Stop_def Let_def update_exec_def end_context_def)
  qed (use assms Stops in \<open>simp add: Stop_def\<close>)
next
  case (Runs sid now call)
  then have "sid \<noteq> cid" using assms(2) by blast
  then show ?thesis using assms(1) run_other [of sid cid now call r] Runs by simp
next
  case (Tool_Call sid cost)
  then show ?thesis using assms by (cases "sid = cid") (simp_all add: update_exec_def RecordToolCall_def)
qed (use assms in \<open>auto simp: RegisterAdapter_def end_context_def\<close>)

lemma Stop_ok:
  assumes "Stop now cid r = (r', None)" "cell_inv r cid"
  obtains e where "rn_executions r cid = Some e" "xe_Status e = StatusRunning"
    "rn_executions r' cid = Some (e\<lparr>xe_KillSwitchUsed := True, xe_Status := StatusCanceled, xe_EndTime := now\<rparr>)"
    "rn_pc r' cid = rn_pc r cid" "\<exists>err. rn_ctx r' cid = Some err"
proof (cases "rn_executions r cid")
  case (Some e)
  then have "xe_Status e = StatusRunning" "cid \<in> rn_cancel r"
    using assms by (auto simp: Stop_def cell_inv_def split: if_splits)
  with assms Some that show thesis by (auto simp: Stop_def Let_def update_exec_def end_context_def)
qed (use assms in \<open>simp add: Stop_def\<close>)

lemma step_runs:
  assumes "rn_executions r cid = Some e" "rn_pc r cid = Some pc"
    "run_step now call (rn_ctx r cid) (rn_adapters r) e pc = (e', pc')"
  shows "rn_executions (campaign_step (Runs cid now call) r) cid = Some e'"
    "rn_pc (campaign_step (Runs cid now call) r) cid = pc'"
    "rn_ctx (campaign_step (Runs cid now call) r) cid = rn_ctx r cid"
  using assms by (simp_all add: run_def)

lemma bound_results_step:
  assumes "rn_executions r cid = Some e" "rn_ctx r cid = Some err"
  shows "\<exists>e'. rn_executions (campaign_step ev r) cid = Some e' \<and> rn_ctx (campaign_step ev r) cid = Some err \<and>
           bound_results e' (rn_pc (campaign_step ev r) cid) \<le> bound_results e (rn_pc r cid) \<and>
           (xe_KillSwitchUsed e \<longrightarrow> xe_KillSwitchUsed e')"
proof (cases "\<exists>now call. ev = Runs cid now call")
  case True
  then obtain now call where ev: "ev = Runs cid now call" by blast
  show ?thesis
  proof (cases "rn_pc r cid")
    case (Some pc)
    obtain e' pc' where s: "run_step now call (rn_ctx r cid) (rn_adapters r) e pc = (e', pc')" by fastforce
    show ?thesis
      using step_runs [OF assms(1) Some s] run_step_bound [OF s [unfolded assms(2)]] ev assms(2) Some by auto
  qed (use assms ev in \<open>simp add: run_idle\<close>)
next
  case False
  then show ?thesis using step_others [OF assms(1), of ev] assms(2) by (auto simp: bound_results_def)
qed

lemma bound_results_run:
  assumes "rn_executions r cid = Some e" "rn_ctx r cid = Some err"
  shows "\<exists>e'. rn_executions (campaign_run es r) cid = Some e' \<and>
           bound_results e' (rn_pc (campaign_run es r) cid) \<le> bound_results e (rn_pc r cid) \<and>
           (xe_KillSwitchUsed e \<longrightarrow> xe_KillSwitchUsed e')"
  using assms
proof (induction es arbitrary: r e)
  case (Cons ev es)
  from bound_results_step [OF Cons.prems] Cons.IH show ?case by (fastforce dest: order_trans)
qed simp

definition own_run :: "string \<Rightarrow> 'a campaign_event \<Rightarrow> nat" where
  "own_run cid ev = (case ev of Runs sid now call \<Rightarrow> if sid = cid then 1 else 0 | _ \<Rightarrow> 0)"

definition runs_of :: "string \<Rightarrow> 'a campaign_event list \<Rightarrow> nat" where
  "runs_of cid es = sum_list (map (own_run cid) es)"

lemma work_left_step:
  assumes "cell_inv r cid" "rn_executions r cid = Some e"
  shows "work_left (campaign_step ev r) cid \<le> work_left r cid - own_run cid ev \<and>
         (\<exists>e'. rn_executions (campaign_step ev r) cid = Some e')"
proof (cases "\<exists>now call. ev = Runs cid now call")
  case True
  then obtain now call where ev: "ev = Runs cid now call" by blast
  show ?thesis
  proof (cases "rn_pc r cid")
    case (Some pc)
    obtain e' pc' where s: "run_step now call (rn_ctx r cid) (rn_adapters r) e pc = (e', pc')" by fastforce
    have i: "exec_inv cid e" "pc_inv e pc" "status_inv e (Some pc)" using assms Some by (auto simp: cell_inv_def)
    from run_step_inv [OF s i] have "xe_Definition e' = xe_Definition e" by blast
    then have "steps_of e' = steps_of e" "targets_of e' = targets_of e" by (simp_all add: steps_of_def targets_of_def)
    then show ?thesis
      using step_runs [OF assms(2) Some s] run_step_progress [OF s i(2)] ev Some assms(2)
      by (cases pc') (simp_all add: work_left_def own_run_def)
  qed (use assms ev in \<open>simp add: run_idle work_left_def\<close>)
next
  case False
  then obtain e' where e': "rn_executions (campaign_step ev r) cid = Some e'"
    "rn_pc (campaign_step ev r) cid = rn_pc r cid" "xe_Definition e' = xe_Definition e"
    using step_others [OF assms(2), of ev] by blast
  have "steps_of e' = steps_of e" "targets_of e' = targets_of e" using e'(3) by (simp_all add: steps_of_def targets_of_def)
  then have "work_left (campaign_step ev r) cid = work_left r cid"
    using assms(2) e' by (simp add: work_left_def split: option.split)
  moreover have "own_run cid ev = 0" using False by (cases ev) (auto simp: own_run_def)
  ultimately show ?thesis using e'(1) by simp
qed

lemma work_left_run:
  assumes "cell_inv r cid" "rn_executions r cid = Some e"
  shows "work_left (campaign_run es r) cid \<le> work_left r cid - runs_of cid es \<and>
         (\<exists>e'. rn_executions (campaign_run es r) cid = Some e')"
  using assms
proof (induction es arbitrary: r e)
  case (Cons ev es)
  from work_left_step [OF Cons.prems, of ev] obtain e' where
    e': "rn_executions (campaign_step ev r) cid = Some e'" "work_left (campaign_step ev r) cid \<le> work_left r cid - own_run cid ev"
    by blast
  have "runs_of cid (ev # es) = own_run cid ev + runs_of cid es" by (simp add: runs_of_def)
  then show ?case
    using Cons.IH [OF step_inv [OF Cons.prems(1)] e'(1)] e'(2) by auto
qed (simp add: runs_of_def)

subsection \<open>Properties\<close>

text \<open>(C13) 
  In every history of the runner: the results of a campaign are those of its first steps, in order,
  one per step, and never more than the iteration guardrail allows; the iteration counter is their
  number; a campaign is completed only when every step has a result; and a campaign whose goroutine
  has ended is completed, failed or cancelled.
\<close>

theorem campaign_safe:
  assumes "rn_executions (campaign_run es NewRunner) cid = Some e"
  shows "map sr_StepName (xe_Results e) = map sp_Name (take (length (xe_Results e)) (steps_of e)) \<and>
    xe_Iterations e = int (length (xe_Results e)) \<and>
    length (xe_Results e) \<le> nat (gr_MaxIterations (df_Guardrails (xe_Definition e))) \<and>
    (xe_Status e = StatusCompleted \<longrightarrow> length (xe_Results e) = length (steps_of e)) \<and>
    (rn_pc (campaign_run es NewRunner) cid = None \<longrightarrow>
       xe_Status e \<in> {StatusCompleted, StatusFailed, StatusCanceled})"
  using run_inv [OF new_inv, of es cid] assms
  by (auto simp: cell_inv_def exec_inv_def status_inv_def over_def split: if_splits)

definition sample_step :: "string \<Rightarrow> Step" where
  "sample_step name = \<lparr>sp_Name = name, sp_Prompt = ''do '' @ name, sp_Tools = [], sp_TimeoutMinutes = 5\<rparr>"

definition sample_campaign :: Definition where
  "sample_campaign = \<lparr>df_ID = ''c'', df_Name = ''sample'', df_Description = [],
     df_Targets = [\<lparr>tg_AgentID = ''main'', tg_Backend = ''stub'', tg_ConfigOverride = []\<rparr>],
     df_Steps = [sample_step ''one'', sample_step ''two''], df_Guardrails = DefaultGuardrails,
     df_Feedback = ''none'', df_Tags = []\<rparr>"

definition campaign_history :: "Adapter campaign_event list" where
  "campaign_history = [Registers ''stub'' (StubAdapter ''stub'' ''done''), Starts 0 (Some sample_campaign)] @
     replicate 7 (Runs ''c'' 1 Adapter_Execute)"

definition result_names :: "'a Runner \<Rightarrow> string \<Rightarrow> (Status \<times> string list) option" where
  "result_names r cid = map_option (\<lambda>e. (xe_Status e, map sr_StepName (xe_Results e))) (rn_executions r cid)"

theorem campaign_safe_witness:
  "let e = the (rn_executions (campaign_run campaign_history NewRunner) ''c'') in
   map sr_StepName (xe_Results e) = map sp_Name (take (length (xe_Results e)) (steps_of e)) \<and>
   xe_Iterations e = int (length (xe_Results e)) \<and>
   length (xe_Results e) \<le> nat (gr_MaxIterations (df_Guardrails (xe_Definition e)))"
proof -
  have "rn_executions (campaign_run campaign_history NewRunner) ''c'' \<noteq> None" by code_simp
  then have "rn_executions (campaign_run campaign_history NewRunner) ''c'' =
      Some (the (rn_executions (campaign_run campaign_history NewRunner) ''c''))" by simp
  from campaign_safe [OF this] show ?thesis by (simp add: Let_def)
qed

text \<open>
  The kill switch works. After a successful \<open>Stop\<close>, whatever happens next, at most the step that is
  under way still delivers its result, and no tool call is permitted any more.
\<close>

theorem kill_switch_stops:
  assumes "Stop now cid (campaign_run es NewRunner) = (r', None)"
    and "rn_executions (campaign_run es NewRunner) cid = Some e"
  shows "\<exists>e'. rn_executions (campaign_run fs r') cid = Some e' \<and>
           length (xe_Results e') \<le> length (xe_Results e) + 1 \<and> (\<forall>tool. \<not> CanExecuteTool (Some e') tool)"
proof -
  obtain e1 where e1: "rn_executions (campaign_run es NewRunner) cid = Some e1" "\<exists>err. rn_ctx r' cid = Some err"
    "rn_executions r' cid = Some (e1\<lparr>xe_KillSwitchUsed := True, xe_Status := StatusCanceled, xe_EndTime := now\<rparr>)"
    by (rule Stop_ok [OF assms(1) run_inv [OF new_inv]])
  then obtain e0 err where s: "rn_executions r' cid = Some e0" "rn_ctx r' cid = Some err" "xe_KillSwitchUsed e0"
    "xe_Results e0 = xe_Results e"
    using assms(2) by auto
  from bound_results_run [OF s(1,2), of fs] s(3) obtain e' where
    e': "rn_executions (campaign_run fs r') cid = Some e'" "xe_KillSwitchUsed e'"
      "bound_results e' (rn_pc (campaign_run fs r') cid) \<le> bound_results e0 (rn_pc r' cid)" by blast
  have "bound_results e0 (rn_pc r' cid) \<le> length (xe_Results e) + 1"
    using s(4) bound_results_le [of e0 "rn_pc r' cid"] by simp
  moreover have "length (xe_Results e') \<le> bound_results e' (rn_pc (campaign_run fs r') cid)"
    by (simp add: bound_results_def)
  ultimately show ?thesis using e' by (auto simp: CanExecuteTool_def Let_def)
qed

theorem kill_switch_stops_witness:
  "let r = campaign_run campaign_history NewRunner; r' = fst (Stop 2 ''c'' r) in
   \<exists>e'. rn_executions (campaign_run (replicate 9 (Runs ''c'' 3 Adapter_Execute)) r') ''c'' = Some e' \<and>
     length (xe_Results e') \<le> length (xe_Results (the (rn_executions r ''c''))) + 1 \<and>
     (\<forall>tool. \<not> CanExecuteTool (Some e') tool)"
proof -
  let ?r = "campaign_run campaign_history NewRunner"
  have "snd (Stop 2 ''c'' ?r) = None" by code_simp
  then have s: "Stop 2 ''c'' ?r = (fst (Stop 2 ''c'' ?r), None)" by (metis prod.collapse)
  have "rn_executions ?r ''c'' \<noteq> None" by code_simp
  then have e: "rn_executions ?r ''c'' = Some (the (rn_executions ?r ''c''))" by simp
  show ?thesis using kill_switch_stops [OF s e] by (simp add: Let_def)
qed

text \<open>(C14) 
  Every campaign ends. A campaign with \<open>n\<close> steps and \<open>m\<close> targets is over after at most
  \<open>n * (2 * m + 5) + 3\<close> steps of its goroutine, whatever the adapters answer and whatever else
  happens in between, and its status is then final.
\<close>

theorem campaign_terminates:
  assumes "Start now (Some d) (campaign_run es NewRunner) = (r', Inr e)"
    and "length (df_Steps d) * (2 * length (df_Targets d) + 5) + 3 \<le> runs_of (df_ID d) fs"
  shows "\<exists>e'. rn_executions (campaign_run fs r') (df_ID d) = Some e' \<and>
           rn_pc (campaign_run fs r') (df_ID d) = None \<and>
           xe_Status e' \<in> {StatusCompleted, StatusFailed, StatusCanceled}"
proof -
  have r': "r' = launch now d (campaign_run es NewRunner)"
    using assms(1) by (auto simp: Start_def split: if_splits)
  have i: "cell_inv r' (df_ID d)"
    using start_inv [OF run_inv [OF new_inv], of now "Some d" es "df_ID d"] assms(1) by simp
  have e0: "rn_executions r' (df_ID d) = Some (new_execution now d)" by (simp add: r' launch_def)
  have "work_left r' (df_ID d) = length (df_Steps d) * (2 * length (df_Targets d) + 5) + 3"
    by (simp add: r' launch_def work_left_def new_execution_def steps_of_def targets_of_def)
  with work_left_run [OF i e0, of fs] assms(2) obtain e' where
    e': "rn_executions (campaign_run fs r') (df_ID d) = Some e'" and w: "work_left (campaign_run fs r') (df_ID d) = 0"
    by auto
  then have "rn_pc (campaign_run fs r') (df_ID d) = None"
    by (auto simp: work_left_def steps_left_pos split: option.splits)
  then show ?thesis
    using run_inv [OF i, of fs] e' by (auto simp: cell_inv_def status_inv_def over_def)
qed

theorem campaign_terminates_witness:
  "let r = campaign_run [Registers ''stub'' (StubAdapter ''stub'' ''done'')] NewRunner;
       r' = fst (Start 0 (Some sample_campaign) r) in
   \<exists>e'. rn_executions (campaign_run (replicate 17 (Runs ''c'' 1 Adapter_Execute)) r') ''c'' = Some e' \<and>
     rn_pc (campaign_run (replicate 17 (Runs ''c'' 1 Adapter_Execute)) r') ''c'' = None \<and>
     xe_Status e' \<in> {StatusCompleted, StatusFailed, StatusCanceled}"
proof -
  let ?es = "[Registers ''stub'' (StubAdapter ''stub'' ''done'')]"
  let ?r = "campaign_run ?es NewRunner"
  have s: "Start 0 (Some sample_campaign) ?r =
      (launch 0 sample_campaign ?r, Inr (new_execution 0 sample_campaign))"
    by (simp add: Start_def sample_campaign_def RegisterAdapter_def NewRunner_def)
  have "length (df_Steps sample_campaign) * (2 * length (df_Targets sample_campaign) + 5) + 3 \<le>
      runs_of (df_ID sample_campaign) (replicate 17 (Runs ''c'' 1 Adapter_Execute))"
    by (simp add: sample_campaign_def runs_of_def own_run_def sum_list_replicate)
  from campaign_terminates [OF s this] show ?thesis
    by (simp only: s fst_conv Let_def) (simp add: sample_campaign_def)
qed

text \<open>
  A stop can be undone by the goroutine. \<open>run\<close> checks the context only before each step and sets the
  status to completed unconditionally after the last one, so a campaign that is stopped during its last
  step, where \<open>Stop\<close> reports success, ends as completed although the kill switch was used. Nor can a
  finished campaign be started again: \<open>Start\<close> reports it as already running.
\<close>

definition last_step_history :: "Adapter campaign_event list" where
  "last_step_history = campaign_history @ replicate 6 (Runs ''c'' 1 Adapter_Execute)"

theorem stop_overwritten:
  "let r = campaign_run last_step_history NewRunner;
       r' = campaign_run (replicate 4 (Runs ''c'' 3 Adapter_Execute)) (fst (Stop 2 ''c'' r)) in
   snd (Stop 2 ''c'' r) = None \<and>
   map_option xe_Status (rn_executions (fst (Stop 2 ''c'' r)) ''c'') = Some StatusCanceled \<and>
   map_option (\<lambda>e. (xe_Status e, xe_KillSwitchUsed e)) (rn_executions r' ''c'') = Some (StatusCompleted, True) \<and>
   rn_pc r' ''c'' = None \<and>
   snd (Start 9 (Some sample_campaign) r') = Inl (ErrNew (''campaign '' @ go_quote ''c'' @ '' is already running''))"
  unfolding Let_def by (intro conjI; code_simp)

end
