(* ===== verification/Skills.thy ===== *)
theory Skills
  imports Tools "HOL-Library.Word" "HOL-Library.Multiset"
begin

unbundle bit_operations_syntax

text \<open>
  Skill search: the similarity cache of \<^verbatim>\<open>pkg/skills/search_cache.go\<close>, the registry manager of
  \<^verbatim>\<open>pkg/skills/registry.go\<close>, the tool \<^verbatim>\<open>find_skills\<close> of \<^verbatim>\<open>pkg/tools/skills_search.go\<close> and the
  identifier check of \<^verbatim>\<open>pkg/utils/skills.go\<close>. Trigrams are 32-bit words. A similarity is kept as the
  fraction that Go divides as \<^verbatim>\<open>float64\<close>, a pair of intersection and union size; the comparisons with
  \<open>0.7\<close> and between similarities are those of the fractions, with which the rounded quotients agree as
  long as the sizes stay below \<open>2 ^ 25\<close>. The order in which Go iterates over the map of entries is the
  argument \<open>its\<close>. The scores of the registries are of a type \<open>'f\<close>; JSON has no \<^verbatim>\<open>NaN\<close>, so they are
  linearly ordered.
\<close>

subsection \<open>Trigrams\<close>

definition trigram :: "char \<Rightarrow> char \<Rightarrow> char \<Rightarrow> 32 word" where
  "trigram a b c = push_bit 16 (of_char a) OR push_bit 8 (of_char b) OR of_char c"

fun all_trigrams :: "string \<Rightarrow> 32 word list" where
  "all_trigrams (a # b # c # s) = trigram a b c # all_trigrams (b # c # s)"
| "all_trigrams s = []"

text \<open>The compaction of the sorted slice: every element that differs from the one before it.\<close>

fun dedup_sorted :: "32 word list \<Rightarrow> 32 word list" where
  "dedup_sorted (x # y # xs) = (if y \<noteq> x then x # dedup_sorted (y # xs) else dedup_sorted (y # xs))"
| "dedup_sorted xs = xs"

definition buildTrigrams :: "string \<Rightarrow> 32 word list" where
  "buildTrigrams s = (if length s < 3 then [] else dedup_sorted (sort (all_trigrams s)))"

text \<open>The merge loop of \<^verbatim>\<open>jaccardSimilarity\<close>: the number of common elements of two slices.\<close>

fun intersection :: "32 word list \<Rightarrow> 32 word list \<Rightarrow> nat" where
  "intersection (a # as) (b # bs) =
     (if a = b then Suc (intersection as bs)
      else if a < b then intersection as (b # bs) else intersection (a # as) bs)"
| "intersection as bs = 0"

definition jaccardSimilarity :: "32 word list \<Rightarrow> 32 word list \<Rightarrow> nat \<times> nat" where
  "jaccardSimilarity a b =
     (if a = [] \<and> b = [] then (1, 1) else (intersection a b, length a + length b - intersection a b))"

definition sim_less :: "nat \<times> nat \<Rightarrow> nat \<times> nat \<Rightarrow> bool" where
  "sim_less p q \<longleftrightarrow> fst p * snd q < fst q * snd p"

definition similar :: "nat \<times> nat \<Rightarrow> bool" where
  "similar p \<longleftrightarrow> 7 * snd p \<le> 10 * fst p"

subsection \<open>The cache\<close>

record 'f SearchResult =
  res_Score :: 'f
  res_Slug :: string
  res_DisplayName :: string
  res_Summary :: string
  res_Version :: string
  res_RegistryName :: string

record 'f cacheEntry =
  ce_query :: string
  ce_trigrams :: "32 word list"
  ce_results :: "'f SearchResult list"
  ce_createdAt :: time

record 'f SearchCache =
  sc_entries :: "(string \<times> 'f cacheEntry) list"
  sc_order :: "string list"
  sc_maxEntries :: int
  sc_ttl :: duration

definition NewSearchCache :: "int \<Rightarrow> duration \<Rightarrow> 'f SearchCache" where
  "NewSearchCache maxEntries ttl =
     \<lparr>sc_entries = [], sc_order = [], sc_maxEntries = (if maxEntries \<le> 0 then 50 else maxEntries),
      sc_ttl = (if ttl \<le> 0 then 5 * minute else ttl)\<rparr>"

definition normalizeQuery :: "string \<Rightarrow> string" where
  "normalizeQuery q = to_lower (trim_space q)"

definition moveToEndLocked :: "string \<Rightarrow> 'f SearchCache \<Rightarrow> 'f SearchCache" where
  "moveToEndLocked key sc = sc\<lparr>sc_order := remove1 key (sc_order sc) @ [key]\<rparr>"

definition fresh :: "time \<Rightarrow> 'f SearchCache \<Rightarrow> 'f cacheEntry \<Rightarrow> bool" where
  "fresh now sc entry \<longleftrightarrow> time_sub now (ce_createdAt entry) < sc_ttl sc"

text \<open>The loop over the entries for the best similarity.\<close>

definition best_step :: "time \<Rightarrow> 'f SearchCache \<Rightarrow> 32 word list \<Rightarrow> (nat \<times> nat) \<times> 'f cacheEntry option \<Rightarrow> string \<Rightarrow>
    (nat \<times> nat) \<times> 'f cacheEntry option" where
  "best_step now sc queryTrigrams best key =
     (case map_of (sc_entries sc) key of
        None \<Rightarrow> best
      | Some entry \<Rightarrow>
          if \<not> fresh now sc entry then best
          else let sim = jaccardSimilarity queryTrigrams (ce_trigrams entry)
               in if sim_less (fst best) sim then (sim, Some entry) else best)"

definition best_match :: "time \<Rightarrow> 'f SearchCache \<Rightarrow> 32 word list \<Rightarrow> string list \<Rightarrow> (nat \<times> nat) \<times> 'f cacheEntry option" where
  "best_match now sc queryTrigrams its = foldl (best_step now sc queryTrigrams) ((0, 1), None) its"

definition cache_similar :: "string list \<Rightarrow> time \<Rightarrow> string \<Rightarrow> 'f SearchCache \<Rightarrow> 'f SearchCache \<times> 'f SearchResult list option" where
  "cache_similar its now normalized sc =
     (case best_match now sc (buildTrigrams normalized) its of
        (bestSim, Some entry) \<Rightarrow>
          if similar bestSim then (moveToEndLocked (ce_query entry) sc, Some (ce_results entry)) else (sc, None)
      | (bestSim, None) \<Rightarrow> (sc, None))"

definition cache_get :: "string list \<Rightarrow> time \<Rightarrow> string \<Rightarrow> 'f SearchCache \<Rightarrow> 'f SearchCache \<times> 'f SearchResult list option" where
  "cache_get its now query sc =
     (let normalized = normalizeQuery query in
      if normalized = [] then (sc, None)
      else case map_of (sc_entries sc) normalized of
             Some entry \<Rightarrow>
               if fresh now sc entry then (moveToEndLocked normalized sc, Some (ce_results entry))
               else cache_similar its now normalized sc
           | None \<Rightarrow> cache_similar its now normalized sc)"

fun evict_scan :: "time \<Rightarrow> duration \<Rightarrow> string list \<Rightarrow> (string \<times> 'f cacheEntry) list \<Rightarrow>
    (string \<times> 'f cacheEntry) list \<times> string list" where
  "evict_scan now ttl [] entries = (entries, [])"
| "evict_scan now ttl (key # order) entries =
     (case map_of entries key of
        None \<Rightarrow> evict_scan now ttl order (AList.delete key entries)
      | Some entry \<Rightarrow>
          if time_sub now (ce_createdAt entry) \<ge> ttl then evict_scan now ttl order (AList.delete key entries)
          else let (entries', newOrder) = evict_scan now ttl order entries in (entries', key # newOrder))"

definition evictExpiredLocked :: "time \<Rightarrow> 'f SearchCache \<Rightarrow> 'f SearchCache" where
  "evictExpiredLocked now sc =
     (let (entries, newOrder) = evict_scan now (sc_ttl sc) (sc_order sc) (sc_entries sc)
      in sc\<lparr>sc_entries := entries, sc_order := newOrder\<rparr>)"

text \<open>The eviction of the oldest entries while the cache is full.\<close>

fun evict_oldest :: "int \<Rightarrow> string list \<Rightarrow> (string \<times> 'f cacheEntry) list \<Rightarrow>
    (string \<times> 'f cacheEntry) list \<times> string list" where
  "evict_oldest maxEntries [] entries = (entries, [])"
| "evict_oldest maxEntries (oldest # order) entries =
     (if int (length entries) \<ge> maxEntries
      then evict_oldest maxEntries order (AList.delete oldest entries)
      else (entries, oldest # order))"

definition new_cache_entry :: "time \<Rightarrow> string \<Rightarrow> 'f SearchResult list \<Rightarrow> 'f cacheEntry" where
  "new_cache_entry now normalized results =
     \<lparr>ce_query = normalized, ce_trigrams = buildTrigrams normalized, ce_results = results, ce_createdAt = now\<rparr>"

definition cache_put :: "time \<Rightarrow> string \<Rightarrow> 'f SearchResult list \<Rightarrow> 'f SearchCache \<Rightarrow> 'f SearchCache" where
  "cache_put now query results sc =
     (let normalized = normalizeQuery query in
      if normalized = [] then sc
      else let sc = evictExpiredLocked now sc; entry = new_cache_entry now normalized results in
        if map_of (sc_entries sc) normalized \<noteq> None
        then moveToEndLocked normalized (sc\<lparr>sc_entries := AList.update normalized entry (sc_entries sc)\<rparr>)
        else let (entries, order) = evict_oldest (sc_maxEntries sc) (sc_order sc) (sc_entries sc)
             in sc\<lparr>sc_entries := AList.update normalized entry entries, sc_order := order @ [normalized]\<rparr>)"

definition cache_len :: "'f SearchCache \<Rightarrow> int" where
  "cache_len sc = int (length (sc_entries sc))"

subsection \<open>The registries\<close>

text \<open>The inner loop of the insertion sort: \<open>key\<close> moves down from position \<open>j\<close>.\<close>

fun shift_down :: "('f :: linorder) SearchResult \<Rightarrow> nat \<Rightarrow> 'f SearchResult list \<Rightarrow> 'f SearchResult list" where
  "shift_down key 0 results = results[0 := key]"
| "shift_down key (Suc j) results =
     (if res_Score (results ! j) < res_Score key
      then shift_down key j (results[Suc j := results ! j])
      else results[Suc j := key])"

definition sortByScoreDesc :: "('f :: linorder) SearchResult list \<Rightarrow> 'f SearchResult list" where
  "sortByScoreDesc results = foldl (\<lambda>rs i. shift_down (rs ! i) i rs) results [1..<length results]"

text \<open>
  \<open>SearchAll\<close> over the outcomes of the registries in the order in which they arrive; \<open>None\<close> for a
  manager without registries.
\<close>

fun merge_results :: "(GoError + 'f SearchResult list) list \<Rightarrow> 'f SearchResult list \<Rightarrow> GoError option \<Rightarrow> bool \<Rightarrow>
    'f SearchResult list \<times> GoError option \<times> bool" where
  "merge_results [] merged lastErr ok = (merged, lastErr, ok)"
| "merge_results (Inl err # rest) merged lastErr ok = merge_results rest merged (Some err) ok"
| "merge_results (Inr results # rest) merged lastErr ok = merge_results rest (merged @ results) lastErr True"

definition clamp :: "int \<Rightarrow> 'f SearchResult list \<Rightarrow> 'f SearchResult list" where
  "clamp limit merged = (if limit > 0 \<and> int (length merged) > limit then take (nat limit) merged else merged)"

definition SearchAll :: "(GoError + ('f :: linorder) SearchResult list) list \<Rightarrow> int \<Rightarrow> GoError + 'f SearchResult list" where
  "SearchAll arrivals limit =
     (if arrivals = [] then Inl (ErrNew ''no registries configured'')
      else case merge_results arrivals [] None False of
        (merged, lastErr, ok) \<Rightarrow>
          if \<not> ok \<and> lastErr \<noteq> None then Inl (ErrWrap ''all registries failed: '' (the lastErr))
          else Inr (clamp limit (sortByScoreDesc merged)))"

definition ValidateSkillIdentifier :: "string \<Rightarrow> GoError option" where
  "ValidateSkillIdentifier identifier =
     (let trimmed = trim_space identifier in
      if trimmed = [] then Some (ErrNew ''identifier is required and must be a non-empty string'')
      else if CHR ''/'' \<in> set trimmed \<or> CHR 0x5C \<in> set trimmed \<or> contains trimmed ''..''
        then Some (ErrNew (''identifier must not contain path separators or '' @ [CHR 0x27] @ ''..'' @ [CHR 0x27] @
               '' to prevent directory traversal''))
      else None)"

subsection \<open>The tool find\_skills\<close>

text \<open>
  \<open>fmt\<close> is the formatting of a score with three decimals, \<open>to_int\<close> the integer part of a JSON number,
  and \<open>search\<close> the outcomes of the registries for a query and a limit.
\<close>

definition format_result :: "('f \<Rightarrow> string) \<Rightarrow> int \<Rightarrow> 'f SearchResult \<Rightarrow> string" where
  "format_result fmt n r =
     itoa n @ ''. **'' @ res_Slug r @ ''**'' @ (if res_Version r \<noteq> [] then '' v'' @ res_Version r else []) @
     ''  (score: '' @ fmt (res_Score r) @ '', registry: '' @ res_RegistryName r @ '')'' @ [nl] @
     (if res_DisplayName r \<noteq> [] \<and> res_DisplayName r \<noteq> res_Slug r then ''   Name: '' @ res_DisplayName r @ [nl] else []) @
     (if res_Summary r \<noteq> [] then ''   '' @ res_Summary r @ [nl] else []) @ [nl]"

definition formatSearchResults :: "('f \<Rightarrow> string) \<Rightarrow> string \<Rightarrow> 'f SearchResult list \<Rightarrow> bool \<Rightarrow> string" where
  "formatSearchResults fmt query results cached =
     (if results = [] then ''No skills found for query: '' @ go_quote query
      else ''Found '' @ itoa (int (length results)) @ '' skills for '' @ go_quote query @
           (if cached then '' (cached)'' else []) @ '':'' @ [nl, nl] @
           concat (map (\<lambda>(i, r). format_result fmt (int i + 1) r) (enumerate 0 results)) @
           ''Use install_skill with the slug to install a skill.'')"

definition search_limit :: "(string \<Rightarrow> int) \<Rightarrow> json option \<Rightarrow> int" where
  "search_limit to_int v =
     (case v of Some (JNum n) \<Rightarrow> (if 1 \<le> to_int n \<and> to_int n \<le> 20 then to_int n else 5) | _ \<Rightarrow> 5)"

definition FindSkillsTool_Execute :: "('f \<Rightarrow> string) \<Rightarrow> (string \<Rightarrow> int) \<Rightarrow>
    (string \<Rightarrow> int \<Rightarrow> (GoError + ('f :: linorder) SearchResult list) list) \<Rightarrow> string list \<Rightarrow> time \<Rightarrow> time \<Rightarrow>
    json_obj \<Rightarrow> 'f SearchCache option \<Rightarrow> 'f SearchCache option \<times> ToolResult" where
  "FindSkillsTool_Execute fmt to_int search its now1 now2 args cache =
     (let query = to_lower (trim_space (as_string (map_of args ''query''))) in
      if query = [] then (cache, ErrorResult ''query is required and must be a non-empty string'')
      else let limit = search_limit to_int (map_of args ''limit'');
               (cache, hit) = (case cache of
                  None \<Rightarrow> (None, None)
                | Some sc \<Rightarrow> (let (sc, hit) = cache_get its now1 query sc in (Some sc, hit)))
           in case hit of
                Some cached \<Rightarrow> (cache, SilentResult (formatSearchResults fmt query cached True))
              | None \<Rightarrow>
                  (case SearchAll (search query limit) limit of
                     Inl err \<Rightarrow> (cache, ErrorResult (''skill search failed: '' @ error_text err))
                   | Inr results \<Rightarrow>
                       (if results \<noteq> [] then map_option (cache_put now2 query results) cache else cache,
                        SilentResult (formatSearchResults fmt query results False))))"

subsection \<open>Similarity is the Jaccard index of the trigram sets\<close>

lemma set_dedup [simp]: "set (dedup_sorted xs) = set xs"
  by (induction xs rule: dedup_sorted.induct) auto

lemma dedup_sorted_distinct: "sorted xs \<Longrightarrow> sorted (dedup_sorted xs) \<and> distinct (dedup_sorted xs)"
proof (induction xs rule: dedup_sorted.induct)
  case (1 x y xs)
  then have "sorted (y # xs)" "x \<le> y" "\<forall>z \<in> set (y # xs). y \<le> z" by auto
  with 1 show ?case by (cases "y = x") fastforce+
qed auto

lemma buildTrigrams_sorted: "sorted (buildTrigrams s)" "distinct (buildTrigrams s)"
  using dedup_sorted_distinct [of "sort (all_trigrams s)"] by (auto simp: buildTrigrams_def)

lemma all_trigrams_short: "length s < 3 \<Longrightarrow> all_trigrams s = []"
  by (cases s rule: all_trigrams.cases) auto

lemma set_buildTrigrams: "set (buildTrigrams s) = set (all_trigrams s)"
  by (auto simp: buildTrigrams_def all_trigrams_short)

lemma intersection_card:
  "sorted as \<Longrightarrow> distinct as \<Longrightarrow> sorted bs \<Longrightarrow> distinct bs \<Longrightarrow> intersection as bs = card (set as \<inter> set bs)"
proof (induction as bs rule: intersection.induct)
  case (1 a as b bs)
  consider "a = b" | "a < b" | "b < a" by fastforce
  then show ?case
  proof cases
    case 1
    then have "set (a # as) \<inter> set (b # bs) = insert a (set as \<inter> set bs)" "a \<notin> set as \<inter> set bs"
      using "1.prems" by auto
    with 1 "1.IH"(1) "1.prems" show ?thesis by simp
  next
    case 2
    then have "a \<notin> set (b # bs)" using "1.prems" by auto
    with 2 "1.IH"(2) "1.prems" show ?thesis by (simp add: Int_insert_left)
  next
    case 3
    then have "b \<notin> set (a # as)" using "1.prems" by auto
    then have "set (a # as) \<inter> set (b # bs) = set (a # as) \<inter> set bs" by auto
    moreover have "a \<noteq> b" "\<not> a < b" using 3 by auto
    ultimately show ?thesis using "1.IH"(3) "1.prems" by simp
  qed
qed auto

lemma bit_of_char_word: "bit (of_char c :: 32 word) n \<Longrightarrow> n < 8"
  by (cases c) (auto simp: of_char_def bit_horner_sum_bit_word_iff simp del: horner_sum_simps)

lemma trigram_bytes:
  "take_bit 8 (trigram a b c) = of_char c"
  "take_bit 8 (drop_bit 8 (trigram a b c)) = of_char b"
  "take_bit 8 (drop_bit 16 (trigram a b c)) = of_char a"
  by (rule bit_word_eqI; auto simp: trigram_def bit_simps dest: bit_of_char_word)+

lemma of_char_word_eq: "(of_char a :: 32 word) = of_char b \<Longrightarrow> a = b"
proof -
  assume "(of_char a :: 32 word) = of_char b"
  then have "unat (of_char a :: 32 word) = unat (of_char b :: 32 word)" by simp
  moreover have "unat (of_char c :: 32 word) = of_char c" for c
  proof -
    have "(of_char c :: nat) < 2 ^ LENGTH(32)" by (rule less_trans [OF nat_of_char_less_256]) simp
    then have "unat (of_nat (of_char c) :: 32 word) = of_char c" by (simp only: unat_of_nat mod_less)
    then show ?thesis by (simp add: of_nat_of_char)
  qed
  ultimately show "a = b" by simp
qed

lemma trigram_inj: "trigram a b c = trigram a' b' c' \<longleftrightarrow> a = a' \<and> b = b' \<and> c = c'"
  by (metis of_char_word_eq trigram_bytes)

text \<open>The abstract notion: the set of the three-letter substrings of a text.\<close>

definition substrings3 :: "string \<Rightarrow> string set" where
  "substrings3 s = {x. length x = 3 \<and> sublist x s}"

fun code3 :: "string \<Rightarrow> 32 word" where
  "code3 [a, b, c] = trigram a b c"
| "code3 s = 0"

lemma all_trigrams_substrings: "set (all_trigrams s) = code3 ` substrings3 s"
proof (induction s rule: all_trigrams.induct)
  case (1 a b c s)
  have "length x = 3 \<Longrightarrow> prefix x (a # b # c # s) \<longleftrightarrow> x = [a, b, c]" for x
    by (auto simp: length_Suc_conv numeral_3_eq_3)
  then have "substrings3 (a # b # c # s) = insert [a, b, c] (substrings3 (b # c # s))"
    unfolding substrings3_def by (auto simp: sublist_Cons_right)
  with 1 show ?case by simp
qed (auto simp: substrings3_def dest: sublist_length_le)

lemma card_substrings: "length (buildTrigrams s) = card (substrings3 s)"
  and card_common: "intersection (buildTrigrams s) (buildTrigrams t) = card (substrings3 s \<inter> substrings3 t)"
proof -
  have inj: "inj_on code3 (substrings3 s \<union> substrings3 t)" for s t
    by (rule inj_onI) (auto simp: substrings3_def length_Suc_conv numeral_3_eq_3 trigram_inj)
  show "length (buildTrigrams s) = card (substrings3 s)"
    using distinct_card [OF buildTrigrams_sorted(2), of s] card_image [OF inj [of s s]]
    by (simp add: set_buildTrigrams all_trigrams_substrings)
  have "code3 ` substrings3 s \<inter> code3 ` substrings3 t = code3 ` (substrings3 s \<inter> substrings3 t)"
    using inj [of s t] by (auto simp: inj_on_def)
  moreover have "card (code3 ` (substrings3 s \<inter> substrings3 t)) = card (substrings3 s \<inter> substrings3 t)"
    by (rule card_image) (rule inj_on_subset [OF inj [of s t]], auto)
  ultimately show "intersection (buildTrigrams s) (buildTrigrams t) = card (substrings3 s \<inter> substrings3 t)"
    by (simp add: intersection_card buildTrigrams_sorted set_buildTrigrams all_trigrams_substrings)
qed

lemma finite_substrings3: "finite (substrings3 s)"
proof -
  have "finite (code3 ` substrings3 s)" by (metis List.finite_set all_trigrams_substrings)
  moreover have "inj_on code3 (substrings3 s)"
    by (rule inj_onI) (auto simp: substrings3_def length_Suc_conv numeral_3_eq_3 trigram_inj)
  ultimately show ?thesis by (rule finite_imageD)
qed

subsection \<open>The insertion sort is a stable sort\<close>

fun insert_desc :: "('f :: linorder) SearchResult \<Rightarrow> 'f SearchResult list \<Rightarrow> 'f SearchResult list" where
  "insert_desc key [] = [key]"
| "insert_desc key (r # rs) = (if res_Score r < res_Score key then key # r # rs else r # insert_desc key rs)"

lemma insert_desc_snoc:
  "sorted_wrt (\<lambda>a b. res_Score b \<le> res_Score a) (rs @ [r]) \<Longrightarrow>
   insert_desc key (rs @ [r]) = (if res_Score r < res_Score key then insert_desc key rs @ [r] else rs @ [r, key])"
  by (induction rs) (auto simp: sorted_wrt_append)

lemma shift_down_insert:
  "length rs = j \<Longrightarrow> sorted_wrt (\<lambda>a b. res_Score b \<le> res_Score a) rs \<Longrightarrow>
   shift_down key j (rs @ x # ys) = insert_desc key rs @ ys"
proof (induction j arbitrary: rs x ys)
  case (Suc j)
  then obtain r rs' where rs: "rs = rs' @ [r]" by (metis length_Suc_conv_rev)
  have nth: "(rs @ x # ys) ! j = r" using Suc.prems(1) rs by (simp add: nth_append)
  have upd: "(rs @ x # ys)[Suc j := v] = rs @ v # ys" for v using Suc.prems(1) by (simp add: list_update_append)
  show ?case
  proof (cases "res_Score r < res_Score key")
    case True
    have "shift_down key j (rs' @ r # (r # ys)) = insert_desc key rs' @ r # ys"
      using Suc.prems rs by (intro Suc.IH) (auto simp: sorted_wrt_append)
    then show ?thesis using True nth upd rs Suc.prems insert_desc_snoc [of rs' r key] by simp
  next
    case False
    then show ?thesis using nth upd rs Suc.prems insert_desc_snoc [of rs' r key] by simp
  qed
qed simp

lemma set_insert_desc [simp]: "set (insert_desc key rs) = insert key (set rs)"
  by (induction rs) auto

lemma sorted_insert_desc:
  "sorted_wrt (\<lambda>a b. res_Score b \<le> res_Score a) rs \<Longrightarrow> sorted_wrt (\<lambda>a b. res_Score b \<le> res_Score a) (insert_desc key rs)"
  by (induction rs) (auto simp: less_imp_le)

lemma insert_desc_rev: "sorted_wrt (\<lambda>a b. res_Score b \<le> res_Score a) rs \<Longrightarrow>
   insert_desc key rs = rev (insort_key res_Score key (rev rs))"
proof (induction rs rule: rev_induct)
  case (snoc r rs)
  then show ?case using insert_desc_snoc [of rs r key] by (auto simp: sorted_wrt_append)
qed simp

definition isort :: "('f :: linorder) SearchResult list \<Rightarrow> 'f SearchResult list" where
  "isort rs = foldl (\<lambda>acc key. insert_desc key acc) [] rs"

lemma isort_snoc: "isort (rs @ [r]) = insert_desc r (isort rs)"
  by (simp add: isort_def)

lemma sorted_isort: "sorted_wrt (\<lambda>a b. res_Score b \<le> res_Score a) (isort rs)"
  by (induction rs rule: rev_induct) (simp_all add: isort_snoc sorted_insert_desc, simp add: isort_def)

lemma isort_sort_key: "isort rs = rev (sort_key res_Score (rev rs))"
proof (induction rs rule: rev_induct)
  case (snoc r rs)
  then show ?case using insert_desc_rev [OF sorted_isort, of r rs] by (simp add: isort_snoc)
qed (simp add: isort_def)

lemma sort_loop:
  "i \<le> length rs \<Longrightarrow> 1 \<le> i \<Longrightarrow>
   foldl (\<lambda>rs i. shift_down (rs ! i) i rs) rs [1..<i] = isort (take i rs) @ drop i rs"
proof (induction i)
  case (Suc i)
  show ?case
  proof (cases i)
    case 0
    then show ?thesis using Suc.prems by (cases rs) (simp_all add: isort_def)
  next
    case (Suc j)
    then have i: "1 \<le> i" "i < length rs" using Suc.prems by simp_all
    have len: "length (isort (take i rs)) = i" using i by (simp add: isort_sort_key)
    have d: "drop i rs = rs ! i # drop (Suc i) rs" using i by (simp add: Cons_nth_drop_Suc)
    have "foldl (\<lambda>rs i. shift_down (rs ! i) i rs) rs [1..<Suc i] =
        shift_down (rs ! i) i (isort (take i rs) @ rs ! i # drop (Suc i) rs)"
      using Suc.IH i d len by (simp add: upt_Suc_append nth_append)
    also have "\<dots> = insert_desc (rs ! i) (isort (take i rs)) @ drop (Suc i) rs"
      by (rule shift_down_insert [OF len sorted_isort])
    also have "insert_desc (rs ! i) (isort (take i rs)) = isort (take (Suc i) rs)"
      using i by (simp add: take_Suc_conv_app_nth isort_snoc)
    finally show ?thesis .
  qed
qed simp

lemma sortByScoreDesc_stable: "sortByScoreDesc rs = rev (sort_key res_Score (rev rs))"
proof (cases "rs = []")
  case False
  then show ?thesis using sort_loop [of "length rs" rs] isort_sort_key [of rs]
    by (simp add: sortByScoreDesc_def Suc_le_eq)
qed (simp add: sortByScoreDesc_def)

definition successes :: "(GoError + 'f SearchResult list) list \<Rightarrow> 'f SearchResult list list" where
  "successes arrivals = List.map_filter (\<lambda>a. case a of Inl err \<Rightarrow> None | Inr rs \<Rightarrow> Some rs) arrivals"

definition failures :: "(GoError + 'f SearchResult list) list \<Rightarrow> GoError list" where
  "failures arrivals = List.map_filter (\<lambda>a. case a of Inl err \<Rightarrow> Some err | Inr rs \<Rightarrow> None) arrivals"

lemma failures_simps [simp]:
  "failures [] = []" "failures (Inl err # as) = err # failures as" "failures (Inr rs # as) = failures as"
  by (simp_all add: failures_def map_filter_simps)

lemma successes_simps [simp]:
  "successes [] = []" "successes (Inl err # as) = successes as" "successes (Inr rs # as) = rs # successes as"
  by (simp_all add: successes_def map_filter_simps)

lemma all_failed: "successes (map Inl errs) = []" "failures (map Inl errs) = errs"
  by (induction errs) simp_all

lemma merge_results_eq:
  "merge_results arrivals merged lastErr ok =
     (merged @ concat (successes arrivals),
      (case failures arrivals of [] \<Rightarrow> lastErr | err # errs \<Rightarrow> Some (last (err # errs))),
      ok \<or> successes arrivals \<noteq> [])"
proof (induction arrivals merged lastErr ok rule: merge_results.induct)
  case (2 err rest merged lastErr ok)
  then show ?case by (auto split: list.split)
qed simp_all

subsection \<open>The invariant of the cache\<close>

definition cache_inv :: "'f SearchCache \<Rightarrow> bool" where
  "cache_inv sc \<longleftrightarrow> distinct (map fst (sc_entries sc)) \<and> distinct (sc_order sc) \<and>
     set (sc_order sc) = fst ` set (sc_entries sc) \<and>
     int (length (sc_entries sc)) \<le> sc_maxEntries sc \<and> 0 < sc_maxEntries sc \<and> 0 < sc_ttl sc \<and>
     (\<forall>(k, e) \<in> set (sc_entries sc). ce_query e = k \<and> ce_trigrams e = buildTrigrams k)"

lemma cache_inv_new: "cache_inv (NewSearchCache n ttl)"
  by (simp add: cache_inv_def NewSearchCache_def)

lemma cache_inv_move: "cache_inv sc \<Longrightarrow> key \<in> set (sc_order sc) \<Longrightarrow> cache_inv (moveToEndLocked key sc)"
  by (auto simp: cache_inv_def moveToEndLocked_def)

definition best_good :: "time \<Rightarrow> 'f SearchCache \<Rightarrow> 32 word list \<Rightarrow> (nat \<times> nat) \<times> 'f cacheEntry option \<Rightarrow> bool" where
  "best_good now sc tg best \<longleftrightarrow> 0 < snd (fst best) \<and>
     (case snd best of
        None \<Rightarrow> fst best = (0, 1)
      | Some e \<Rightarrow> (\<exists>k. map_of (sc_entries sc) k = Some e) \<and> fresh now sc e \<and>
          fst best = jaccardSimilarity tg (ce_trigrams e))"

lemma jaccard_pos: "sorted a \<Longrightarrow> distinct a \<Longrightarrow> sorted b \<Longrightarrow> distinct b \<Longrightarrow> 0 < snd (jaccardSimilarity a b)"
proof -
  assume s: "sorted a" "distinct a" "sorted b" "distinct b"
  have "card (set a \<inter> set b) \<le> card (set a)" "card (set a \<inter> set b) \<le> card (set b)" by (simp_all add: card_mono)
  then have "intersection a b \<le> length a" "intersection a b \<le> length b"
    using s by (simp_all add: intersection_card distinct_card)
  then show ?thesis by (cases a; cases b) (auto simp: jaccardSimilarity_def)
qed

lemma best_step_good:
  assumes "cache_inv sc" "sorted tg" "distinct tg" "best_good now sc tg best"
  shows "best_good now sc tg (best_step now sc tg best key)"
proof (cases "map_of (sc_entries sc) key")
  case (Some e)
  then have "ce_trigrams e = buildTrigrams key" using assms(1) by (auto simp: cache_inv_def dest: map_of_SomeD)
  then have "0 < snd (jaccardSimilarity tg (ce_trigrams e))" using assms(2,3) by (simp add: jaccard_pos buildTrigrams_sorted)
  moreover have "best_step now sc tg best key = best \<or>
      fresh now sc e \<and> best_step now sc tg best key = (jaccardSimilarity tg (ce_trigrams e), Some e)"
    using Some by (simp add: best_step_def Let_def)
  ultimately consider "best_step now sc tg best key = best"
    | "fresh now sc e" "best_step now sc tg best key = (jaccardSimilarity tg (ce_trigrams e), Some e)"
      "0 < snd (jaccardSimilarity tg (ce_trigrams e))" by blast
  then show ?thesis
  proof cases
    case 1
    then show ?thesis using assms(4) by (simp only:)
  next
    case 2
    then show ?thesis using Some by (auto simp: best_good_def)
  qed
qed (use assms(4) in \<open>simp add: best_step_def\<close>)

definition at_least :: "nat \<times> nat \<Rightarrow> nat \<times> nat \<Rightarrow> bool" where
  "at_least p q \<longleftrightarrow> \<not> sim_less p q"

lemma at_least_trans: "0 < snd q \<Longrightarrow> at_least p q \<Longrightarrow> at_least q r \<Longrightarrow> at_least p r"
proof -
  assume q: "0 < snd q" and "at_least p q" "at_least q r"
  then have a: "fst q * snd p \<le> fst p * snd q" "fst r * snd q \<le> fst q * snd r"
    by (simp_all add: at_least_def sim_less_def)
  have "(fst r * snd p) * snd q = (fst r * snd q) * snd p" by simp
  also have "\<dots> \<le> (fst q * snd r) * snd p" using a(2) by (rule mult_right_mono) simp
  also have "\<dots> = (fst q * snd p) * snd r" by simp
  also have "\<dots> \<le> (fst p * snd q) * snd r" using a(1) by (rule mult_right_mono) simp
  also have "\<dots> = (fst p * snd r) * snd q" by simp
  finally show ?thesis using q by (simp add: at_least_def sim_less_def)
qed

lemma best_match_good:
  assumes "cache_inv sc" "sorted tg" "distinct tg" "best_good now sc tg best"
  shows "best_good now sc tg (foldl (best_step now sc tg) best its) \<and>
         at_least (fst (foldl (best_step now sc tg) best its)) (fst best) \<and>
         (\<forall>k \<in> set its. \<forall>e. map_of (sc_entries sc) k = Some e \<longrightarrow> fresh now sc e \<longrightarrow>
            at_least (fst (foldl (best_step now sc tg) best its)) (jaccardSimilarity tg (ce_trigrams e)))"
  using assms(4)
proof (induction its arbitrary: best)
  case Nil
  then show ?case by (simp add: at_least_def sim_less_def)
next
  case (Cons k its)
  let ?b = "best_step now sc tg best k"
  have g: "best_good now sc tg ?b" using best_step_good [OF assms(1-3) Cons.prems] .
  have up: "at_least (fst ?b) (fst best)"
    by (auto simp: best_step_def at_least_def sim_less_def Let_def split: option.split)
  have own: "map_of (sc_entries sc) k = Some e \<Longrightarrow> fresh now sc e \<Longrightarrow>
      at_least (fst ?b) (jaccardSimilarity tg (ce_trigrams e))" for e
    by (auto simp: best_step_def at_least_def sim_less_def Let_def)
  have "0 < snd (fst ?b)" using g by (simp add: best_good_def)
  then show ?case using Cons.IH [OF g] up own at_least_trans [of "fst ?b"] by auto
qed

text \<open>The abstract test: at least seven tenths of the trigrams of both texts are common.\<close>

definition jaccard_ok :: "string \<Rightarrow> string \<Rightarrow> bool" where
  "jaccard_ok s t \<longleftrightarrow> substrings3 s = {} \<and> substrings3 t = {} \<or>
     7 * card (substrings3 s \<union> substrings3 t) \<le> 10 * card (substrings3 s \<inter> substrings3 t)"

lemma similar_jaccard: "similar (jaccardSimilarity (buildTrigrams s) (buildTrigrams t)) \<longleftrightarrow> jaccard_ok s t"
proof -
  have e: "buildTrigrams s = [] \<longleftrightarrow> substrings3 s = {}" for s
    using card_substrings [of s] finite_substrings3 [of s] by auto
  have "card (substrings3 s \<union> substrings3 t) =
      length (buildTrigrams s) + length (buildTrigrams t) - intersection (buildTrigrams s) (buildTrigrams t)"
    using card_Un_Int [OF finite_substrings3 finite_substrings3, of s t] by (simp add: card_substrings card_common)
  then show ?thesis
    by (auto simp: similar_def jaccardSimilarity_def jaccard_ok_def e card_common)
qed

lemma similar_mono: "0 < snd q \<Longrightarrow> at_least p q \<Longrightarrow> similar q \<Longrightarrow> similar p"
proof -
  assume q: "0 < snd q" and "at_least p q" "similar q"
  then have a: "fst q * snd p \<le> fst p * snd q" "7 * snd q \<le> 10 * fst q" by (simp_all add: at_least_def sim_less_def similar_def)
  have "(7 * snd p) * snd q = (7 * snd q) * snd p" by simp
  also have "\<dots> \<le> (10 * fst q) * snd p" using a(2) by (rule mult_right_mono) simp
  also have "\<dots> \<le> 10 * (fst p * snd q)" using a(1) by simp
  also have "\<dots> = (10 * fst p) * snd q" by simp
  finally show ?thesis using q by (simp add: similar_def)
qed

lemma cache_entry:
  assumes "cache_inv sc" "map_of (sc_entries sc) k = Some e"
  shows "ce_query e = k" "ce_trigrams e = buildTrigrams k" "k \<in> set (sc_order sc)"
proof -
  have "(k, e) \<in> set (sc_entries sc)" using assms(2) by (rule map_of_SomeD)
  moreover have "k \<in> fst ` set (sc_entries sc)" using calculation by force
  ultimately show "ce_query e = k" "ce_trigrams e = buildTrigrams k" "k \<in> set (sc_order sc)"
    using assms(1) unfolding cache_inv_def by auto
qed

lemma cache_similar_hit:
  assumes "cache_inv sc" "set its = fst ` set (sc_entries sc)"
  shows "(snd (cache_similar its now q sc) \<noteq> None) \<longleftrightarrow>
           (\<exists>k e. map_of (sc_entries sc) k = Some e \<and> fresh now sc e \<and> jaccard_ok q k)"
    and "cache_similar its now q sc = (sc', Some rs) \<Longrightarrow>
           \<exists>k e. map_of (sc_entries sc) k = Some e \<and> fresh now sc e \<and> jaccard_ok q k \<and> rs = ce_results e \<and>
             sc' = moveToEndLocked k sc"
proof -
  let ?tg = "buildTrigrams q"
  obtain sim best where bm: "best_match now sc ?tg its = (sim, best)" by fastforce
  have "best_good now sc ?tg ((0, 1), None)" by (simp add: best_good_def)
  note bg = best_match_good [OF assms(1) buildTrigrams_sorted(1,2) this, of its, folded best_match_def, unfolded bm fst_conv]
  have g: "best_good now sc ?tg (sim, best)" using bg by (rule conjunct1)
  have m: "\<And>k e. k \<in> set its \<Longrightarrow> map_of (sc_entries sc) k = Some e \<Longrightarrow> fresh now sc e \<Longrightarrow>
          at_least sim (jaccardSimilarity ?tg (ce_trigrams e))"
    using bg [THEN conjunct2, THEN conjunct2] by blast
  have hit: "\<exists>k. map_of (sc_entries sc) k = Some e \<and> fresh now sc e \<and> jaccard_ok q k \<and> ce_query e = k"
    if "best = Some e" "similar sim" for e
  proof -
    from g that obtain k where k: "map_of (sc_entries sc) k = Some e" "fresh now sc e"
      "sim = jaccardSimilarity ?tg (ce_trigrams e)" unfolding best_good_def by auto
    moreover have "similar sim \<longleftrightarrow> jaccard_ok q k"
      unfolding k(3) cache_entry(2) [OF assms(1) k(1)] by (rule similar_jaccard)
    ultimately show ?thesis using cache_entry(1) [OF assms(1) k(1)] that(2) by blast
  qed
  have res: "cache_similar its now q sc = (case best of Some e \<Rightarrow> if similar sim
      then (moveToEndLocked (ce_query e) sc, Some (ce_results e)) else (sc, None) | None \<Rightarrow> (sc, None))"
    by (simp add: cache_similar_def bm)
  show "\<exists>k e. map_of (sc_entries sc) k = Some e \<and> fresh now sc e \<and> jaccard_ok q k \<and> rs = ce_results e \<and>
       sc' = moveToEndLocked k sc" if "cache_similar its now q sc = (sc', Some rs)"
  proof -
    from that obtain e where e: "best = Some e" "similar sim" "sc' = moveToEndLocked (ce_query e) sc" "rs = ce_results e"
      unfolding res by (auto split: option.splits if_splits)
    from hit [OF e(1,2)] e(3,4) show ?thesis by blast
  qed
  show "(snd (cache_similar its now q sc) \<noteq> None) \<longleftrightarrow>
     (\<exists>k e. map_of (sc_entries sc) k = Some e \<and> fresh now sc e \<and> jaccard_ok q k)"
  proof
    assume "snd (cache_similar its now q sc) \<noteq> None"
    then show "\<exists>k e. map_of (sc_entries sc) k = Some e \<and> fresh now sc e \<and> jaccard_ok q k"
      unfolding res using hit by (auto split: option.splits if_splits)
  next
    assume "\<exists>k e. map_of (sc_entries sc) k = Some e \<and> fresh now sc e \<and> jaccard_ok q k"
    then obtain k e where k: "map_of (sc_entries sc) k = Some e" "fresh now sc e" "jaccard_ok q k" by blast
    then have "k \<in> set its" using assms(2) map_of_SomeD [OF k(1)] by force
    then have "at_least sim (jaccardSimilarity ?tg (buildTrigrams k))"
      using m [OF _ k(1,2)] cache_entry [OF assms(1) k(1)] by simp
    then have "similar sim"
      using k(3) similar_mono [OF jaccard_pos [OF buildTrigrams_sorted buildTrigrams_sorted]] similar_jaccard by blast
    moreover have "best \<noteq> None"
    proof
      assume "best = None"
      then have "sim = (0, 1)" using g by (simp add: best_good_def)
      with \<open>similar sim\<close> show False by (simp add: similar_def)
    qed
    ultimately show "snd (cache_similar its now q sc) \<noteq> None" unfolding res by auto
  qed
qed

lemma jaccard_ok_refl: "jaccard_ok s s"
  by (simp add: jaccard_ok_def)



lemma dom_delete_key: "fst ` set (AList.delete k al) = fst ` set al - {k}"
  by (force simp: AList.delete_eq)

lemma set_delete_key: "set (AList.delete k al) \<subseteq> set al"
  by (auto simp: AList.delete_eq)

lemma cache_get_inv:
  assumes "cache_inv sc" "set its = fst ` set (sc_entries sc)"
  shows "cache_inv (fst (cache_get its now query sc))"
proof -
  let ?q = "normalizeQuery query"
  have s: "cache_inv (fst (cache_similar its now ?q sc))"
  proof (cases "snd (cache_similar its now ?q sc)")
    case None
    then show ?thesis using assms(1) by (auto simp: cache_similar_def split: prod.splits option.splits if_splits)
  next
    case (Some rs)
    then obtain k e where k: "map_of (sc_entries sc) k = Some e" "fst (cache_similar its now ?q sc) = moveToEndLocked k sc"
      using cache_similar_hit(2) [OF assms, of now ?q "fst (cache_similar its now ?q sc)" rs] by (metis prod.collapse)
    then show ?thesis using cache_inv_move [OF assms(1)] cache_entry(3) [OF assms(1) k(1)] by simp
  qed
  show ?thesis
  proof (cases "map_of (sc_entries sc) ?q")
    case (Some e)
    then show ?thesis using s assms(1) cache_inv_move [OF assms(1)] cache_entry(3) [OF assms(1) Some]
      by (simp add: cache_get_def Let_def)
  qed (use s assms(1) in \<open>simp add: cache_get_def Let_def\<close>)
qed

lemma evict_scan_facts:
  assumes "evict_scan now ttl order entries = (entries', order')" "distinct order" "distinct (map fst entries)"
  shows "distinct (map fst entries') \<and> distinct order' \<and> set order' \<subseteq> set order \<and> set entries' \<subseteq> set entries \<and>
         length entries' \<le> length entries \<and>
         fst ` set entries' = (fst ` set entries - set order) \<union> set order' \<and>
         set order' \<subseteq> fst ` set entries \<and>
         (\<forall>k. k \<notin> set order \<longrightarrow> map_of entries' k = map_of entries k) \<and>
         (\<forall>k \<in> set order. \<forall>e. map_of entries k = Some e \<longrightarrow> time_sub now (ce_createdAt e) < ttl \<longrightarrow>
            map_of entries' k = Some e)"
  using assms
proof (induction order arbitrary: entries entries' order')
  case (Cons key order)
  let ?gone = "AList.delete key entries"
  have d: "distinct order" "key \<notin> set order" using Cons.prems(2) by auto
  show ?case
  proof (cases "\<exists>e. map_of entries key = Some e \<and> time_sub now (ce_createdAt e) < ttl")
    case True
    then obtain e newOrder where e: "map_of entries key = Some e" "time_sub now (ce_createdAt e) < ttl"
      and n: "evict_scan now ttl order entries = (entries', newOrder)" "order' = key # newOrder"
      using Cons.prems(1) by (auto split: prod.splits)
    have "key \<in> fst ` set entries" using map_of_SomeD [OF e(1)] by force
    with Cons.IH [OF n(1) d(1) Cons.prems(3)] n(2) d e show ?thesis by auto
  next
    case False
    then have n: "evict_scan now ttl order ?gone = (entries', order')"
      using Cons.prems(1) by (auto split: option.splits if_splits)
    have g: "distinct (map fst ?gone)" "set ?gone \<subseteq> set entries" "length ?gone \<le> length entries"
      using Cons.prems(3) by (simp_all add: AList.distinct_delete AList.length_delete_le set_delete_key)
    have "\<And>k. k \<in> set order \<Longrightarrow> map_of ?gone k = map_of entries k" using d(2) by (metis AList.map_of_delete)
    then show ?thesis using Cons.IH [OF n d(1) g(1)] d g(2,3) False
      by (auto simp: dom_delete_key)
  qed
qed auto

lemma evict_oldest_facts:
  assumes "evict_oldest m order entries = (entries', order')" "distinct order" "distinct (map fst entries)"
    "set order = fst ` set entries" "0 < m"
  shows "distinct (map fst entries') \<and> distinct order' \<and> set order' = fst ` set entries' \<and>
         set entries' \<subseteq> set entries \<and> int (length entries') < m \<and> (\<exists>gone. order = gone @ order')"
  using assms
proof (induction order arbitrary: entries)
  case Nil
  then show ?case by auto
next
  case (Cons oldest order)
  show ?case
  proof (cases "int (length entries) \<ge> m")
    case True
    let ?gone = "AList.delete oldest entries"
    have g: "distinct (map fst ?gone)" "set ?gone \<subseteq> set entries" "set order = fst ` set ?gone" "distinct order"
      using Cons.prems(2-4) by (auto simp: AList.distinct_delete set_delete_key dom_delete_key)
    have "evict_oldest m order ?gone = (entries', order')" using Cons.prems(1) True by simp
    from Cons.IH [OF this g(4,1,3) Cons.prems(5)] g(2) obtain gone where "order = gone @ order'"
      "distinct (map fst entries') \<and> distinct order' \<and> set order' = fst ` set entries' \<and>
       set entries' \<subseteq> set entries \<and> int (length entries') < m" by blast
    then show ?thesis by (intro conjI exI [of _ "oldest # gone"]) simp_all
  next
    case False
    then show ?thesis using Cons.prems by (auto intro: exI [of _ "[]"])
  qed
qed

lemma evictExpired_inv:
  assumes "cache_inv sc"
  shows "cache_inv (evictExpiredLocked now sc)"
    and "map_of (sc_entries sc) k = Some e \<Longrightarrow> fresh now sc e \<Longrightarrow> map_of (sc_entries (evictExpiredLocked now sc)) k = Some e"
    and "sc_ttl (evictExpiredLocked now sc) = sc_ttl sc" "sc_maxEntries (evictExpiredLocked now sc) = sc_maxEntries sc"
proof -
  obtain entries order where s: "evict_scan now (sc_ttl sc) (sc_order sc) (sc_entries sc) = (entries, order)" by fastforce
  note f = evict_scan_facts [OF s]
  have i: "distinct (sc_order sc)" "distinct (map fst (sc_entries sc))" "set (sc_order sc) = fst ` set (sc_entries sc)"
    using assms by (auto simp: cache_inv_def)
  note f = f [OF i(1,2)]
  have "int (length entries) \<le> sc_maxEntries sc" "\<forall>(k, e) \<in> set entries. ce_query e = k \<and> ce_trigrams e = buildTrigrams k"
    using f assms unfolding cache_inv_def by auto
  then show "cache_inv (evictExpiredLocked now sc)"
    using f i(3) assms unfolding cache_inv_def evictExpiredLocked_def s by simp
  show "map_of (sc_entries (evictExpiredLocked now sc)) k = Some e" if "map_of (sc_entries sc) k = Some e" "fresh now sc e"
    using f that cache_entry(3) [OF assms that(1)] by (simp add: evictExpiredLocked_def s fresh_def)
  show "sc_ttl (evictExpiredLocked now sc) = sc_ttl sc" "sc_maxEntries (evictExpiredLocked now sc) = sc_maxEntries sc"
    by (simp_all add: evictExpiredLocked_def s)
qed

lemma length_update_new: "k \<notin> fst ` set al \<Longrightarrow> length (AList.update k v al) = Suc (length al)"
  by (induction al) auto

lemma length_update_old: "k \<in> fst ` set al \<Longrightarrow> length (AList.update k v al) = length al"
  by (induction al) auto

lemma set_update_subset: "set (AList.update k v al) \<subseteq> insert (k, v) (set al)"
  by (induction al) auto

lemma cache_put_inv:
  assumes "cache_inv sc"
  shows "cache_inv (cache_put now query results sc)"
    and "normalizeQuery query \<noteq> [] \<Longrightarrow>
         map_of (sc_entries (cache_put now query results sc)) (normalizeQuery query) =
           Some (new_cache_entry now (normalizeQuery query) results) \<and> sc_ttl (cache_put now query results sc) = sc_ttl sc"
proof -
  let ?q = "normalizeQuery query"
  let ?e = "new_cache_entry now ?q results" and ?sc = "evictExpiredLocked now sc"
  note i = evictExpired_inv(1) [OF assms, of now] evictExpired_inv(3,4) [OF assms, of now]
  obtain entries order where s: "evict_oldest (sc_maxEntries ?sc) (sc_order ?sc) (sc_entries ?sc) = (entries, order)" by fastforce
  have o: "distinct (map fst entries) \<and> distinct order \<and> set order = fst ` set entries \<and>
         set entries \<subseteq> set (sc_entries ?sc) \<and> int (length entries) < sc_maxEntries ?sc"
    using evict_oldest_facts [OF s] i(1) unfolding cache_inv_def by blast
  have e: "ce_query ?e = ?q" "ce_trigrams ?e = buildTrigrams ?q" by (simp_all add: new_cache_entry_def)
  show "cache_inv (cache_put now query results sc)"
  proof (cases "?q = []")
    case False
    show ?thesis
    proof (cases "map_of (sc_entries ?sc) ?q")
      case None
      then have q: "?q \<notin> fst ` set (sc_entries ?sc)" by (simp add: map_of_eq_None_iff)
      then have "?q \<notin> fst ` set entries" using o by auto
      moreover have "\<forall>(k, e) \<in> set entries. ce_query e = k \<and> ce_trigrams e = buildTrigrams k"
        using o i(1) unfolding cache_inv_def by auto
      ultimately show ?thesis
        using None False o e i(1) set_update_subset [of ?q ?e entries]
        unfolding cache_inv_def by (auto simp: cache_put_def Let_def s length_update_new AList.distinct_update dom_update)
    next
      case (Some old)
      then have q: "?q \<in> fst ` set (sc_entries ?sc)" by (metis map_of_eq_None_iff option.distinct(1))
      have "cache_inv (?sc\<lparr>sc_entries := AList.update ?q ?e (sc_entries ?sc)\<rparr>)"
        using q e i(1) set_update_subset [of ?q ?e "sc_entries ?sc"]
        unfolding cache_inv_def by (auto simp: length_update_old AList.distinct_update dom_update)
      then have "cache_inv (moveToEndLocked ?q (?sc\<lparr>sc_entries := AList.update ?q ?e (sc_entries ?sc)\<rparr>))"
        using q i(1) by (intro cache_inv_move) (simp_all add: cache_inv_def)
      then show ?thesis using Some False by (simp add: cache_put_def Let_def)
    qed
  qed (simp add: cache_put_def Let_def assms)
  show "map_of (sc_entries (cache_put now query results sc)) ?q = Some ?e \<and> sc_ttl (cache_put now query results sc) = sc_ttl sc"
    if "?q \<noteq> []"
    using that i(2) by (simp add: cache_put_def Let_def s moveToEndLocked_def AList.update_conv)
qed

subsection \<open>Properties\<close>

text \<open>The caches that the operations can make, with \<open>its\<close> an iteration order over all entries.\<close>

inductive cache_reach :: "'f SearchCache \<Rightarrow> bool" where
  cr_new: "cache_reach (NewSearchCache n ttl)"
| cr_get: "cache_reach sc \<Longrightarrow> set its = fst ` set (sc_entries sc) \<Longrightarrow> cache_reach (fst (cache_get its now query sc))"
| cr_put: "cache_reach sc \<Longrightarrow> cache_reach (cache_put now query results sc)"

lemma cache_reach_inv: "cache_reach sc \<Longrightarrow> cache_inv sc"
  by (induction rule: cache_reach.induct) (simp_all add: cache_inv_new cache_get_inv cache_put_inv(1))

text \<open>(C15) 
  What the similarity cache answers. In every reachable cache a look-up of a non-blank query hits
  exactly when there is an unexpired entry for a query that shares at least seven tenths of its
  three-letter substrings with it (or neither has one), whatever the order of the iteration; the
  answer is the result list of such an entry; and the cache never holds more entries than its limit.
\<close>

theorem cache_get_correct:
  assumes "cache_reach sc" "set its = fst ` set (sc_entries sc)" "normalizeQuery query \<noteq> []"
  shows "(snd (cache_get its now query sc) \<noteq> None \<longleftrightarrow>
           (\<exists>k e. map_of (sc_entries sc) k = Some e \<and> fresh now sc e \<and> jaccard_ok (normalizeQuery query) k)) \<and>
         (\<forall>rs. snd (cache_get its now query sc) = Some rs \<longrightarrow>
           (\<exists>k e. map_of (sc_entries sc) k = Some e \<and> fresh now sc e \<and> jaccard_ok (normalizeQuery query) k \<and>
              rs = ce_results e)) \<and>
         cache_len sc \<le> sc_maxEntries sc"
proof -
  let ?q = "normalizeQuery query"
  note inv = cache_reach_inv [OF assms(1)]
  have len: "cache_len sc \<le> sc_maxEntries sc" using inv by (simp add: cache_inv_def cache_len_def)
  have sim: "snd (cache_similar its now ?q sc) = Some rs \<Longrightarrow>
      \<exists>k e. map_of (sc_entries sc) k = Some e \<and> fresh now sc e \<and> jaccard_ok ?q k \<and> rs = ce_results e" for rs
    using cache_similar_hit(2) [OF inv assms(2), of now ?q _ rs] by (metis prod.collapse)
  show ?thesis
  proof (cases "\<exists>e. map_of (sc_entries sc) ?q = Some e \<and> fresh now sc e")
    case True
    then obtain e where e: "map_of (sc_entries sc) ?q = Some e" "fresh now sc e" by blast
    then have "snd (cache_get its now query sc) = Some (ce_results e)" using assms(3) by (simp add: cache_get_def Let_def)
    then show ?thesis using len jaccard_ok_refl [of ?q] e by auto
  next
    case False
    then have "cache_get its now query sc = cache_similar its now ?q sc"
      using assms(3) by (auto simp: cache_get_def Let_def split: option.splits)
    then show ?thesis using cache_similar_hit(1) [OF inv assms(2), of now ?q] sim len by auto
  qed
qed

definition sample_result :: "int SearchResult" where
  "sample_result = \<lparr>res_Score = 9, res_Slug = ''gh'', res_DisplayName = [], res_Summary = [], res_Version = [],
     res_RegistryName = ''clawhub''\<rparr>"

definition sample_cache :: "int SearchCache" where
  "sample_cache = cache_put 0 ''github issues'' [sample_result] (NewSearchCache 2 0)"

theorem cache_get_correct_witness:
  "(snd (cache_get [''github issues''] 1 ''GitHub issue'' sample_cache) \<noteq> None \<longleftrightarrow>
     (\<exists>k e. map_of (sc_entries sample_cache) k = Some e \<and> fresh 1 sample_cache e \<and>
        jaccard_ok (normalizeQuery ''GitHub issue'') k)) \<and>
   cache_len sample_cache \<le> sc_maxEntries sample_cache"
proof -
  have r: "cache_reach sample_cache" unfolding sample_cache_def by (intro cache_reach.intros)
  have k: "set [''github issues''] = fst ` set (sc_entries sample_cache)" by code_simp
  have q: "normalizeQuery ''GitHub issue'' \<noteq> []" by code_simp
  show ?thesis using cache_get_correct [OF r k q, of 1] by blast
qed

text \<open>
  What was put is found: after \<open>Put\<close>, a look-up of the same query within the time to live returns
  exactly the results that were put, whatever else the cache holds.
\<close>

theorem cache_put_get:
  assumes "cache_reach sc" "normalizeQuery query \<noteq> []" "normalizeQuery query' = normalizeQuery query"
    "time_sub now' now < sc_ttl sc"
  shows "snd (cache_get its now' query' (cache_put now query results sc)) = Some results"
  using cache_put_inv(2) [OF cache_reach_inv [OF assms(1)] assms(2), of now results] assms
  by (simp add: cache_get_def Let_def fresh_def new_cache_entry_def)

theorem cache_put_get_witness:
  "snd (cache_get [] 7 '' Weather '' (cache_put 5 ''weather'' [] sample_cache)) = Some []"
proof (rule cache_put_get)
  show "cache_reach sample_cache" unfolding sample_cache_def by (intro cache_reach.intros)
qed code_simp+

text \<open>
  All short queries are the same to the cache. A query of one or two characters has no trigrams, and
  the similarity of two empty trigram lists is defined to be one: a look-up of \<open>go\<close> returns the results
  that were cached for \<open>ai\<close>.
\<close>

theorem short_queries_collide:
  assumes "cache_reach sc" "normalizeQuery query \<noteq> []" "length (normalizeQuery query) < 3"
    "normalizeQuery query' \<noteq> []" "length (normalizeQuery query') < 3" "time_sub now' now < sc_ttl sc"
    "set its = fst ` set (sc_entries (cache_put now query results sc))"
  shows "snd (cache_get its now' query' (cache_put now query results sc)) \<noteq> None"
proof -
  let ?sc = "cache_put now query results sc" and ?q = "normalizeQuery query"
  have r: "cache_inv ?sc" using assms(1) by (intro cache_put_inv cache_reach_inv)
  have e: "map_of (sc_entries ?sc) ?q = Some (new_cache_entry now ?q results)" "sc_ttl ?sc = sc_ttl sc"
    using cache_put_inv(2) [OF cache_reach_inv [OF assms(1)] assms(2), of now results] by blast+
  have "fresh now' ?sc (new_cache_entry now ?q results)" using e(2) assms(6) by (simp add: fresh_def new_cache_entry_def)
  moreover have "jaccard_ok (normalizeQuery query') ?q"
    using assms(3,5) by (auto simp: jaccard_ok_def substrings3_def dest: sublist_length_le)
  ultimately have "snd (cache_similar its now' (normalizeQuery query') ?sc) \<noteq> None"
    using cache_similar_hit(1) [OF r assms(7)] e(1) by blast
  then show ?thesis using assms(4) by (auto simp: cache_get_def Let_def split: option.splits)
qed

theorem short_queries_collide_witness:
  "snd (cache_get [''github issues'', ''ai''] 1 ''go'' (cache_put 0 ''ai'' [sample_result] sample_cache)) \<noteq> None"
proof (rule short_queries_collide)
  show "cache_reach sample_cache" unfolding sample_cache_def by (intro cache_reach.intros)
qed code_simp+

text \<open>
  The merged search. If at least one registry answers, the result consists of the best results of all
  registries that answered: sorted by descending score, with equal scores in the order of arrival, cut
  to the limit (if it is positive) so that nothing dropped scores higher than anything kept. If every
  registry fails, the error wraps that of the last one to arrive.
\<close>

theorem SearchAll_best:
  "(successes arrivals \<noteq> [] \<longrightarrow>
     (\<exists>kept dropped. SearchAll arrivals limit = Inr kept \<and>
        kept @ dropped = rev (sort_key res_Score (rev (concat (successes arrivals)))) \<and>
        (\<forall>k \<in> set kept. \<forall>d \<in> set dropped. res_Score d \<le> res_Score k) \<and>
        (0 < limit \<longrightarrow> int (length kept) \<le> limit) \<and> (dropped \<noteq> [] \<longrightarrow> int (length kept) = limit))) \<and>
   (arrivals = map Inl errs \<and> errs \<noteq> [] \<longrightarrow>
     SearchAll arrivals limit = Inl (ErrWrap ''all registries failed: '' (last errs)))"
proof (intro conjI impI)
  let ?all = "rev (sort_key res_Score (rev (concat (successes arrivals))))"
  assume ok: "successes arrivals \<noteq> []"
  then have "arrivals \<noteq> []" by auto
  with ok have s: "SearchAll arrivals limit = Inr (clamp limit ?all)"
    by (simp add: SearchAll_def merge_results_eq sortByScoreDesc_stable)
  have "sorted_wrt (\<lambda>a b. res_Score b \<le> res_Score a) ?all"
    using sorted_isort [of "concat (successes arrivals)"] by (simp add: isort_sort_key)
  then have "sorted_wrt (\<lambda>a b. res_Score b \<le> res_Score a) (take n ?all @ drop n ?all)" for n
    by (simp only: append_take_drop_id)
  then have o: "\<forall>k \<in> set (take n ?all). \<forall>d \<in> set (drop n ?all). res_Score d \<le> res_Score k" for n
    unfolding sorted_wrt_append by blast
  show "\<exists>kept dropped. SearchAll arrivals limit = Inr kept \<and> kept @ dropped = ?all \<and>
      (\<forall>k \<in> set kept. \<forall>d \<in> set dropped. res_Score d \<le> res_Score k) \<and>
      (0 < limit \<longrightarrow> int (length kept) \<le> limit) \<and> (dropped \<noteq> [] \<longrightarrow> int (length kept) = limit)"
  proof (cases "limit > 0 \<and> int (length ?all) > limit")
    case True
    then have "clamp limit ?all = take (nat limit) ?all" by (simp add: clamp_def)
    with s o [of "nat limit"] True show ?thesis
      by (intro exI [of _ "take (nat limit) ?all"] exI [of _ "drop (nat limit) ?all"]) auto
  next
    case False
    then have "clamp limit ?all = ?all" by (auto simp: clamp_def)
    with s False show ?thesis by (intro exI [of _ ?all] exI [of _ "[]"]) auto
  qed
next
  assume a: "arrivals = map Inl errs \<and> errs \<noteq> []"
  then show "SearchAll arrivals limit = Inl (ErrWrap ''all registries failed: '' (last errs))"
    by (cases errs) (auto simp: SearchAll_def merge_results_eq all_failed)
qed

theorem SearchAll_best_witness:
  "\<exists>kept dropped. SearchAll [Inl ErrCanceled, Inr [sample_result, sample_result\<lparr>res_Score := 11\<rparr>]] 1 = Inr kept \<and>
     kept @ dropped = rev (sort_key res_Score (rev [sample_result, sample_result\<lparr>res_Score := 11\<rparr>])) \<and>
     (\<forall>k \<in> set kept. \<forall>d \<in> set dropped. res_Score d \<le> res_Score k)"
proof -
  let ?a = "[Inl ErrCanceled, Inr [sample_result, sample_result\<lparr>res_Score := 11\<rparr>]]"
  have "successes ?a \<noteq> []" by simp
  then show ?thesis using SearchAll_best [of ?a 1 "[]"] by fastforce
qed

end
