(* ===== verification/State_Store.thy ===== *)
theory State_Store
  imports Tools
begin

text \<open>
  The workspace state of \<^verbatim>\<open>pkg/state/state.go\<close> and the heartbeat service of
  \<^verbatim>\<open>pkg/heartbeat/service.go\<close> that reads it. The files of the state are the current one, its temporary
  sibling and the one of the old location; what decoding a file gives is part of its content: a file
  that does not decode leaves whatever fields the decoder had set. A save is a sequence of file
  operations, so that a crash can fall between any two of them; the interface \<open>atomic_replace\<close> states
  what such a sequence must guarantee, and the save of the state provides it. A heartbeat is a function
  from what it reads to its effects: the creation of the template, the call of the handler and the
  message it publishes.
\<close>

subsection \<open>Replacing a file atomically\<close>

text \<open>
  \<open>target\<close> is the content under the final name, \<open>steps\<close> the operations that store a value: all but the
  last leave the target alone, and the last one makes it the new value.
\<close>

locale atomic_replace =
  fixes target :: "'d \<Rightarrow> 'f" and steps :: "'v \<Rightarrow> ('d \<Rightarrow> 'd) list" and stored :: "'v \<Rightarrow> 'f"
  assumes steps_nonempty: "steps v \<noteq> []"
    and steps_before: "op \<in> set (butlast (steps v)) \<Longrightarrow> target (op d) = target d"
    and steps_last: "target (fold (\<lambda>op. op) (steps v) d) = stored v"
begin

lemma before_last: "set ops \<subseteq> set (butlast (steps v)) \<Longrightarrow> target (fold (\<lambda>op. op) ops d) = target d"
proof (induction ops arbitrary: d)
  case (Cons op ops)
  then show ?case using steps_before [of op v d] by simp
qed simp

lemma crash_safe:
  "target (fold (\<lambda>op. op) (take n (steps v)) d) = (if n < length (steps v) then target d else stored v)"
proof (cases "n < length (steps v)")
  case True
  then have "set (take n (steps v)) \<subseteq> set (butlast (steps v))"
    using set_take_subset [of n "butlast (steps v)"] by (simp add: take_butlast)
  with True show ?thesis by (simp add: before_last)
qed (simp add: steps_last)

end

subsection \<open>The state manager\<close>

record State =
  ws_LastChannel :: string
  ws_LastChatID :: string
  ws_Timestamp :: time

definition zero_state :: State where
  "zero_state = \<lparr>ws_LastChannel = [], ws_LastChatID = [], ws_Timestamp = 0\<rparr>"

datatype state_file = NoFile | Unreadable GoError | Undecodable GoError State | Stored State

record state_files =
  sf_state :: state_file
  sf_tmp :: state_file
  sf_old :: state_file

record Manager =
  sm_state :: State

datatype write_fault = FailEncode GoError | FailTempWrite GoError state_file | FailTempRename GoError | WriteOk

definition save_ops :: "State \<Rightarrow> (state_files \<Rightarrow> state_files) list" where
  "save_ops st =
     [\<lambda>fs. fs\<lparr>sf_tmp := Undecodable (ErrNew ''unexpected end of JSON input'') zero_state\<rparr>, \<lambda>fs. fs\<lparr>sf_tmp := Stored st\<rparr>,
      \<lambda>fs. fs\<lparr>sf_state := sf_tmp fs, sf_tmp := NoFile\<rparr>]"

text \<open>\<open>saveAtomic\<close>; a failed write can leave any content in the temporary file.\<close>

definition saveAtomic :: "write_fault \<Rightarrow> Manager \<Rightarrow> state_files \<Rightarrow> state_files \<times> GoError option" where
  "saveAtomic fault sm fs =
     (case fault of
        FailEncode err \<Rightarrow> (fs, Some (ErrWrap ''failed to marshal state: '' err))
      | FailTempWrite err left \<Rightarrow> (fs\<lparr>sf_tmp := left\<rparr>, Some (ErrWrap ''failed to write temp file: '' err))
      | FailTempRename err \<Rightarrow> (fs\<lparr>sf_tmp := NoFile\<rparr>, Some (ErrWrap ''failed to rename temp file: '' err))
      | WriteOk \<Rightarrow> (fold (\<lambda>op. op) (save_ops (sm_state sm)) fs, None))"

definition load_state :: "state_files \<Rightarrow> Manager \<Rightarrow> Manager \<times> GoError option" where
  "load_state fs sm =
     (case sf_state fs of
        NoFile \<Rightarrow> (sm, None)
      | Unreadable err \<Rightarrow> (sm, Some (ErrWrap ''failed to read state file: '' err))
      | Undecodable err st \<Rightarrow> (sm\<lparr>sm_state := st\<rparr>, Some (ErrWrap ''failed to unmarshal state: '' err))
      | Stored st \<Rightarrow> (sm\<lparr>sm_state := st\<rparr>, None))"

definition NewManager :: "write_fault \<Rightarrow> state_files \<Rightarrow> state_files \<times> Manager" where
  "NewManager fault fs =
     (let sm = \<lparr>sm_state = zero_state\<rparr> in
      if sf_state fs = NoFile then
        (case sf_old fs of
           Stored st \<Rightarrow> (let sm = sm\<lparr>sm_state := st\<rparr> in (fst (saveAtomic fault sm fs), sm))
         | Undecodable err st \<Rightarrow> (fs, sm\<lparr>sm_state := st\<rparr>)
         | _ \<Rightarrow> (fs, sm))
      else (fs, fst (load_state fs sm)))"

definition SetLastChannel :: "write_fault \<Rightarrow> time \<Rightarrow> string \<Rightarrow> Manager \<Rightarrow> state_files \<Rightarrow>
    (state_files \<times> Manager) \<times> GoError option" where
  "SetLastChannel fault now channel sm fs =
     (let sm = sm\<lparr>sm_state := (sm_state sm)\<lparr>ws_LastChannel := channel, ws_Timestamp := now\<rparr>\<rparr> in
      case saveAtomic fault sm fs of
        (fs, None) \<Rightarrow> ((fs, sm), None)
      | (fs, Some err) \<Rightarrow> ((fs, sm), Some (ErrWrap ''failed to save state atomically: '' err)))"

definition SetLastChatID :: "write_fault \<Rightarrow> time \<Rightarrow> string \<Rightarrow> Manager \<Rightarrow> state_files \<Rightarrow>
    (state_files \<times> Manager) \<times> GoError option" where
  "SetLastChatID fault now chatID sm fs =
     (let sm = sm\<lparr>sm_state := (sm_state sm)\<lparr>ws_LastChatID := chatID, ws_Timestamp := now\<rparr>\<rparr> in
      case saveAtomic fault sm fs of
        (fs, None) \<Rightarrow> ((fs, sm), None)
      | (fs, Some err) \<Rightarrow> ((fs, sm), Some (ErrWrap ''failed to save state atomically: '' err)))"

definition GetLastChannel :: "Manager \<Rightarrow> string" where
  "GetLastChannel sm = ws_LastChannel (sm_state sm)"

definition GetLastChatID :: "Manager \<Rightarrow> string" where
  "GetLastChatID sm = ws_LastChatID (sm_state sm)"

definition GetTimestamp :: "Manager \<Rightarrow> time" where
  "GetTimestamp sm = ws_Timestamp (sm_state sm)"

interpretation state_save: atomic_replace sf_state save_ops Stored
  by unfold_locales (auto simp: save_ops_def)

subsection \<open>The heartbeat service\<close>

record HeartbeatService =
  hs_bus :: bool
  hs_state :: Manager
  hs_handler :: bool
  hs_interval :: duration
  hs_enabled :: bool
  hs_running :: bool

text \<open>\<open>hs_bus\<close> and \<open>hs_handler\<close> say whether the bus and the handler are set; \<open>hs_running\<close> is \<^verbatim>\<open>stopChan != nil\<close>.\<close>

definition NewHeartbeatService :: "write_fault \<Rightarrow> state_files \<Rightarrow> int \<Rightarrow> bool \<Rightarrow> state_files \<times> HeartbeatService" where
  "NewHeartbeatService fault fs intervalMinutes enabled =
     (let intervalMinutes = (if intervalMinutes < 5 \<and> intervalMinutes \<noteq> 0 then 5 else intervalMinutes);
          intervalMinutes = (if intervalMinutes = 0 then 30 else intervalMinutes);
          (fs, sm) = NewManager fault fs
      in (fs, \<lparr>hs_bus = False, hs_state = sm, hs_handler = False, hs_interval = wrap64 (intervalMinutes * minute),
               hs_enabled = enabled, hs_running = False\<rparr>))"

definition SetBus :: "HeartbeatService \<Rightarrow> HeartbeatService" where
  "SetBus hs = hs\<lparr>hs_bus := True\<rparr>"

definition SetHandler :: "HeartbeatService \<Rightarrow> HeartbeatService" where
  "SetHandler hs = hs\<lparr>hs_handler := True\<rparr>"

definition Start :: "HeartbeatService \<Rightarrow> HeartbeatService" where
  "Start hs = (if hs_running hs \<or> \<not> hs_enabled hs then hs else hs\<lparr>hs_running := True\<rparr>)"

definition Stop :: "HeartbeatService \<Rightarrow> HeartbeatService" where
  "Stop hs = hs\<lparr>hs_running := False\<rparr>"

definition IsRunning :: "HeartbeatService \<Rightarrow> bool" where
  "IsRunning hs = hs_running hs"

definition parseLastChannel :: "string \<Rightarrow> string \<times> string" where
  "parseLastChannel lastChannel =
     (if lastChannel = [] then ([], [])
      else case split_n 2 CHR '':'' lastChannel of
             [platform, userID] \<Rightarrow>
               if platform = [] \<or> userID = [] \<or> IsInternalChannel platform then ([], []) else (platform, userID)
           | _ \<Rightarrow> ([], []))"

text \<open>What reading HEARTBEAT.md gives.\<close>

datatype prompt_file = Prompt_Missing | Prompt_Unreadable | Prompt_Text string

datatype heartbeat_effect = Creates_Template | Calls_Handler string string string | Publishes OutboundMessage

definition buildPrompt :: "string \<Rightarrow> prompt_file \<Rightarrow> heartbeat_effect list \<times> string" where
  "buildPrompt now file =
     (case file of
        Prompt_Missing \<Rightarrow> ([Creates_Template], [])
      | Prompt_Unreadable \<Rightarrow> ([], [])
      | Prompt_Text content \<Rightarrow>
          ([], if content = [] then []
               else ''# Heartbeat Check'' @ [nl, nl] @ ''Current time: '' @ now @ [nl, nl] @
                 ''You are a proactive AI assistant. This is a scheduled heartbeat check.'' @ [nl] @
                 ''Review the following tasks and execute any necessary actions using available skills.'' @ [nl] @
                 ''If there is nothing that requires attention, respond ONLY with: HEARTBEAT_OK'' @ [nl, nl] @
                 content @ [nl]))"

definition sendResponse :: "HeartbeatService \<Rightarrow> string \<Rightarrow> heartbeat_effect list" where
  "sendResponse hs response =
     (if \<not> hs_bus hs then []
      else let lastChannel = GetLastChannel (hs_state hs) in
        if lastChannel = [] then []
        else case parseLastChannel lastChannel of
          (platform, userID) \<Rightarrow>
            if platform = [] \<or> userID = [] then []
            else [Publishes \<lparr>om_Channel = platform, om_ChatID = userID, om_Content = response\<rparr>])"

definition handle_result :: "HeartbeatService \<Rightarrow> ToolResult option \<Rightarrow> heartbeat_effect list" where
  "handle_result hs result =
     (case result of
        None \<Rightarrow> []
      | Some r \<Rightarrow>
          if tr_IsError r \<or> tr_Async r \<or> tr_Silent r then []
          else if tr_ForUser r \<noteq> [] then sendResponse hs (tr_ForUser r)
          else if tr_ForLLM r \<noteq> [] then sendResponse hs (tr_ForLLM r)
          else [])"

definition executeHeartbeat :: "string \<Rightarrow> prompt_file \<Rightarrow> (string \<Rightarrow> string \<Rightarrow> string \<Rightarrow> ToolResult option) \<Rightarrow>
    HeartbeatService \<Rightarrow> heartbeat_effect list" where
  "executeHeartbeat now file handler hs =
     (if \<not> hs_enabled hs \<or> \<not> hs_running hs then []
      else case buildPrompt now file of
        (effects, prompt) \<Rightarrow>
          if prompt = [] then effects
          else if \<not> hs_handler hs then effects
          else case parseLastChannel (GetLastChannel (hs_state hs)) of
            (channel, chatID) \<Rightarrow>
              effects @ [Calls_Handler prompt channel chatID] @ handle_result hs (handler prompt channel chatID))"

subsection \<open>Properties\<close>

lemma saved_state: "sf_state (fold (\<lambda>op. op) (save_ops st) fs) = Stored st"
  by (simp add: save_ops_def)

lemma saveAtomic_target:
  "snd (saveAtomic fault sm fs) = None \<Longrightarrow> sf_state (fst (saveAtomic fault sm fs)) = Stored (sm_state sm)"
  "snd (saveAtomic fault sm fs) \<noteq> None \<Longrightarrow> sf_state (fst (saveAtomic fault sm fs)) = sf_state fs"
  by (auto simp: saveAtomic_def saved_state split: write_fault.splits)

lemma load_new: "sf_state fs = Stored st \<Longrightarrow> sm_state (snd (NewManager fault fs)) = st"
  by (simp add: NewManager_def load_state_def Let_def)

text \<open>(C16) 
  The last channel survives. After a successful \<open>SetLastChannel\<close> a new manager of the workspace reads
  that channel, the chat identifier of before and the new time stamp; after a failed one the file still
  holds what it held, while the manager already returns the new channel; and if the process dies after
  any number of the file operations of the save, a new manager has either the old or the new state.
\<close>

theorem last_channel_durable:
  assumes "sf_state fs = Stored old"
  shows "let r = SetLastChannel fault now channel sm fs; new = snd (NewManager fault' (fst (fst r))) in
     (snd r = None \<longrightarrow> GetLastChannel new = channel \<and> GetLastChatID new = GetLastChatID sm \<and> GetTimestamp new = now) \<and>
     (snd r \<noteq> None \<longrightarrow> sm_state new = old) \<and> GetLastChannel (snd (fst r)) = channel \<and>
     sm_state (snd (NewManager fault' (fold (\<lambda>op. op) (take n (save_ops (sm_state (snd (fst r))))) fs)))
       \<in> {old, sm_state (snd (fst r))}"
proof -
  let ?sm = "sm\<lparr>sm_state := (sm_state sm)\<lparr>ws_LastChannel := channel, ws_Timestamp := now\<rparr>\<rparr>"
  obtain fs' err where s: "saveAtomic fault ?sm fs = (fs', err)" by fastforce
  have r: "fst (SetLastChannel fault now channel sm fs) = (fs', ?sm)"
    "snd (SetLastChannel fault now channel sm fs) = None \<longleftrightarrow> err = None"
    using s by (auto simp: SetLastChannel_def Let_def split: option.splits)
  have ok: "err = None \<Longrightarrow> sm_state (snd (NewManager fault' fs')) = sm_state ?sm"
    using saveAtomic_target(1) [of fault ?sm fs] s load_new by simp
  have bad: "err \<noteq> None \<Longrightarrow> sm_state (snd (NewManager fault' fs')) = old"
    using saveAtomic_target(2) [of fault ?sm fs] s load_new assms by simp
  have "sf_state (fold (\<lambda>op. op) (take n (save_ops (sm_state ?sm))) fs) \<in> {Stored old, Stored (sm_state ?sm)}"
    using state_save.crash_safe [of n "sm_state ?sm" fs] assms by simp
  then have crash: "sm_state (snd (NewManager fault' (fold (\<lambda>op. op) (take n (save_ops (sm_state ?sm))) fs)))
      \<in> {old, sm_state ?sm}"
    using load_new by blast
  show ?thesis
    unfolding Let_def r using ok bad crash by (auto simp: GetLastChannel_def GetLastChatID_def GetTimestamp_def)
qed

definition sample_files :: state_files where
  "sample_files = \<lparr>sf_state = Stored \<lparr>ws_LastChannel = ''slack:1'', ws_LastChatID = ''1'', ws_Timestamp = 3\<rparr>,
     sf_tmp = NoFile, sf_old = NoFile\<rparr>"

theorem last_channel_durable_witness:
  "let r = SetLastChannel WriteOk 9 ''telegram:7'' \<lparr>sm_state = zero_state\<rparr> sample_files in
   snd r = None \<and> GetLastChannel (snd (NewManager WriteOk (fst (fst r)))) = ''telegram:7''"
proof -
  have f: "sf_state sample_files = Stored \<lparr>ws_LastChannel = ''slack:1'', ws_LastChatID = ''1'', ws_Timestamp = 3\<rparr>"
    by (simp add: sample_files_def)
  have "snd (SetLastChannel WriteOk 9 ''telegram:7'' \<lparr>sm_state = zero_state\<rparr> sample_files) = None"
    by (simp add: SetLastChannel_def saveAtomic_def Let_def)
  with last_channel_durable [OF f, of WriteOk 9 "''telegram:7''" "\<lparr>sm_state = zero_state\<rparr>" WriteOk 0]
  show ?thesis by (simp add: Let_def)
qed

lemma parseLastChannel_valid:
  "parseLastChannel s = (p, u) \<Longrightarrow> p \<noteq> [] \<Longrightarrow> u \<noteq> [] \<and> \<not> IsInternalChannel p"
  by (auto simp: parseLastChannel_def split: if_splits list.splits)

lemma sendResponse_cases:
  "sendResponse hs text = [] \<or>
   (\<exists>p u. parseLastChannel (GetLastChannel (hs_state hs)) = (p, u) \<and> p \<noteq> [] \<and> u \<noteq> [] \<and> \<not> IsInternalChannel p \<and>
      sendResponse hs text = [Publishes \<lparr>om_Channel = p, om_ChatID = u, om_Content = text\<rparr>])"
proof -
  obtain p u where pu: "parseLastChannel (GetLastChannel (hs_state hs)) = (p, u)" by fastforce
  show ?thesis using parseLastChannel_valid [OF pu] by (simp add: sendResponse_def Let_def pu)
qed

text \<open>
  Where a heartbeat can send. A heartbeat of a stopped or disabled service does nothing at all.
  Otherwise it calls the handler at most once, and publishes at most one message: only for a
  result that is neither an error nor asynchronous nor silent, with the text for the user or else
  the text for the model, to the channel and the chat of the recorded last channel, never to an
  internal channel.
\<close>

theorem heartbeat_effects:
  "(\<not> hs_enabled hs \<or> \<not> hs_running hs \<longrightarrow> executeHeartbeat now file handler hs = []) \<and>
   (\<forall>msg. Publishes msg \<in> set (executeHeartbeat now file handler hs) \<longrightarrow>
      parseLastChannel (GetLastChannel (hs_state hs)) = (om_Channel msg, om_ChatID msg) \<and>
      om_Channel msg \<noteq> [] \<and> om_ChatID msg \<noteq> [] \<and> \<not> IsInternalChannel (om_Channel msg) \<and> hs_bus hs \<and>
      (\<exists>r. handler (snd (buildPrompt now file)) (om_Channel msg) (om_ChatID msg) = Some r \<and>
         \<not> tr_IsError r \<and> \<not> tr_Async r \<and> \<not> tr_Silent r \<and>
         om_Content msg = (if tr_ForUser r \<noteq> [] then tr_ForUser r else tr_ForLLM r))) \<and>
   length (filter (\<lambda>e. \<exists>msg. e = Publishes msg) (executeHeartbeat now file handler hs)) \<le> 1"
proof -
  obtain c u where cu: "parseLastChannel (GetLastChannel (hs_state hs)) = (c, u)" by fastforce
  obtain ef p where bp: "buildPrompt now file = (ef, p)" by fastforce
  then have ef: "ef = [] \<or> ef = [Creates_Template]" by (auto simp: buildPrompt_def split: prompt_file.splits)
  let ?res = "handler p c u"
  have send: "sendResponse hs t = (if hs_bus hs \<and> c \<noteq> [] \<and> u \<noteq> [] then [Publishes \<lparr>om_Channel = c, om_ChatID = u, om_Content = t\<rparr>] else [])" for t
    using cu by (auto simp: sendResponse_def Let_def parseLastChannel_def)
  have hr: "handle_result hs ?res = [] \<or> (\<exists>r. ?res = Some r \<and> \<not> tr_IsError r \<and> \<not> tr_Async r \<and> \<not> tr_Silent r \<and>
      hs_bus hs \<and> c \<noteq> [] \<and> u \<noteq> [] \<and> handle_result hs ?res = [Publishes \<lparr>om_Channel = c, om_ChatID = u,
        om_Content = (if tr_ForUser r \<noteq> [] then tr_ForUser r else tr_ForLLM r)\<rparr>])"
    by (auto simp: handle_result_def send split: option.splits)
  have ex: "executeHeartbeat now file handler hs = [] \<or> executeHeartbeat now file handler hs = ef \<or>
      executeHeartbeat now file handler hs = ef @ [Calls_Handler p c u] @ handle_result hs ?res"
    by (simp add: executeHeartbeat_def bp cu)
  have off: "\<not> hs_enabled hs \<or> \<not> hs_running hs \<longrightarrow> executeHeartbeat now file handler hs = []"
    by (simp add: executeHeartbeat_def)
  have one: "length (filter (\<lambda>e. \<exists>msg. e = Publishes msg) (executeHeartbeat now file handler hs)) \<le> 1"
    using ex ef hr by fastforce
  have msg: "Publishes msg \<in> set (executeHeartbeat now file handler hs) \<Longrightarrow> Publishes msg \<in> set (handle_result hs ?res)" for msg
    using ex ef by auto
  show ?thesis
  proof (intro conjI allI impI)
    fix msg assume "Publishes msg \<in> set (executeHeartbeat now file handler hs)"
    from msg [OF this] hr obtain r where r: "?res = Some r" "\<not> tr_IsError r" "\<not> tr_Async r" "\<not> tr_Silent r"
      "hs_bus hs" "c \<noteq> []" "u \<noteq> []" and m: "msg = \<lparr>om_Channel = c, om_ChatID = u,
        om_Content = (if tr_ForUser r \<noteq> [] then tr_ForUser r else tr_ForLLM r)\<rparr>" by auto
    show "parseLastChannel (GetLastChannel (hs_state hs)) = (om_Channel msg, om_ChatID msg)" using m cu by simp
    show "om_Channel msg \<noteq> []" "om_ChatID msg \<noteq> []" "hs_bus hs" using m r by simp_all
    show "\<not> IsInternalChannel (om_Channel msg)" using m r parseLastChannel_valid [OF cu] by simp
    show "\<exists>r. handler (snd (buildPrompt now file)) (om_Channel msg) (om_ChatID msg) = Some r \<and> \<not> tr_IsError r \<and>
        \<not> tr_Async r \<and> \<not> tr_Silent r \<and> om_Content msg = (if tr_ForUser r \<noteq> [] then tr_ForUser r else tr_ForLLM r)"
      using m r bp by auto
  qed (use off one in simp_all)
qed

definition sample_service :: HeartbeatService where
  "sample_service = \<lparr>hs_bus = True, hs_state = \<lparr>sm_state = zero_state\<lparr>ws_LastChannel := ''telegram:7''\<rparr>\<rparr>,
     hs_handler = True, hs_interval = 5 * minute, hs_enabled = True, hs_running = True\<rparr>"

theorem heartbeat_effects_witness:
  "let es = executeHeartbeat ''t'' (Prompt_Text ''check'') (\<lambda>p c u. Some (UserResult ''done'')) sample_service in
   Publishes \<lparr>om_Channel = ''telegram'', om_ChatID = ''7'', om_Content = ''done''\<rparr> \<in> set es \<and>
   length (filter (\<lambda>e. \<exists>msg. e = Publishes msg) es) \<le> 1"
proof -
  have "Publishes \<lparr>om_Channel = ''telegram'', om_ChatID = ''7'', om_Content = ''done''\<rparr> \<in>
      set (executeHeartbeat ''t'' (Prompt_Text ''check'') (\<lambda>p c u. Some (UserResult ''done'')) sample_service)"
    by code_simp
  then show ?thesis
    using heartbeat_effects [of sample_service "''t''" "Prompt_Text ''check''" "\<lambda>p c u. Some (UserResult ''done'')"]
    by (simp add: Let_def)
qed

text \<open>
  The heartbeat does not see the last channel. The service has a state manager of its own, which reads
  the file when the service is created; the agent loop records the channel of every message through
  another manager. Whatever is recorded while the gateway runs, the heartbeat keeps sending to the
  channel of the time of its start, and to nobody if there was none: it sees the new one only after a
  restart.
\<close>

theorem heartbeat_channel_stale:
  "let (fs, hs) = NewHeartbeatService WriteOk \<lparr>sf_state = NoFile, sf_tmp = NoFile, sf_old = NoFile\<rparr> 30 True;
       (fs, agent) = NewManager WriteOk fs;
       ((fs, agent), err) = SetLastChannel WriteOk 5 ''telegram:7'' agent fs;
       hs = Start (SetHandler (SetBus hs));
       handler = (\<lambda>p c u. Some (UserResult ''news'')) in
   err = None \<and> GetLastChannel agent = ''telegram:7'' \<and>
   (\<forall>msg. Publishes msg \<notin> set (executeHeartbeat ''t'' (Prompt_Text ''check'') handler hs)) \<and>
   Publishes \<lparr>om_Channel = ''telegram'', om_ChatID = ''7'', om_Content = ''news''\<rparr> \<in>
     set (executeHeartbeat ''t'' (Prompt_Text ''check'') handler
       (Start (SetHandler (SetBus (snd (NewHeartbeatService WriteOk fs 30 True))))))"
  by (simp add: NewHeartbeatService_def NewManager_def SetLastChannel_def saveAtomic_def save_ops_def load_state_def
      Start_def SetHandler_def SetBus_def executeHeartbeat_def buildPrompt_def handle_result_def sendResponse_def
      parseLastChannel_def GetLastChannel_def UserResult_def NewToolResult_def zero_state_def IsInternalChannel_def
      internalChannels_def Let_def numeral_2_eq_2)

end
