(* ===== verification/Filepath.thy ===== *)
theory Filepath
  imports Prelude "HOL-Library.Sublist"
begin

text \<open>
  Package \<^verbatim>\<open>path/filepath\<close> on Unix, as far as the tools use it: \<open>Clean\<close>, \<open>Join\<close>, \<open>Abs\<close>, \<open>Dir\<close>, \<open>IsAbs\<close>,
  \<open>IsLocal\<close> and \<open>Rel\<close>. A path is cut into its components at the slashes; \<open>resolve\<close> is the lexical
  processing of \<^verbatim>\<open>Clean\<close>, which drops empty and dot components and lets a dot-dot cancel the component
  before it. The lemmas relate the text that the functions return to the components, so that the
  theorems of the tools can speak of one path lying inside another.
\<close>

subsection \<open>Definitions\<close>

abbreviation slash :: char where "slash \<equiv> CHR ''/''"

definition IsAbs :: "string \<Rightarrow> bool" where
  "IsAbs path \<longleftrightarrow> has_prefix [slash] path"

definition comps :: "string \<Rightarrow> string list" where
  "comps path = filter (\<lambda>c. c \<noteq> [] \<and> c \<noteq> ''.'') (split_on (\<lambda>c. c = slash) path)"

text \<open>\<open>acc\<close> is the output so far, last component first.\<close>

fun resolve :: "bool \<Rightarrow> string list \<Rightarrow> string list \<Rightarrow> string list" where
  "resolve rooted acc [] = rev acc"
| "resolve rooted acc (c # cs) =
     (if c = ''..'' then
        (case acc of
           [] \<Rightarrow> if rooted then resolve rooted [] cs else resolve rooted [''..''] cs
         | a # as \<Rightarrow> if a = ''..'' then resolve rooted (''..'' # acc) cs else resolve rooted as cs)
      else resolve rooted (c # acc) cs)"

definition clean_comps :: "string \<Rightarrow> string list" where
  "clean_comps path = resolve (IsAbs path) [] (comps path)"

definition path_of :: "bool \<Rightarrow> string list \<Rightarrow> string" where
  "path_of rooted cs = (if rooted then slash # join [slash] cs else if cs = [] then ''.'' else join [slash] cs)"

definition Clean :: "string \<Rightarrow> string" where
  "Clean path = path_of (IsAbs path) (clean_comps path)"

definition Join :: "string list \<Rightarrow> string" where
  "Join elems = (let es = filter (\<lambda>e. e \<noteq> []) elems in if es = [] then [] else Clean (join [slash] es))"

text \<open>\<^verbatim>\<open>filepath.Abs\<close> in a process with working directory \<open>wd\<close>.\<close>

definition Abs :: "string \<Rightarrow> string \<Rightarrow> string" where
  "Abs wd path = (if IsAbs path then Clean path else Join [wd, path])"

definition Dir :: "string \<Rightarrow> string" where
  "Dir path = Clean (rev (dropWhile (\<lambda>c. c \<noteq> slash) (rev path)))"

definition IsLocal :: "string \<Rightarrow> bool" where
  "IsLocal path =
     (if IsAbs path \<or> path = [] then False
      else let path = (if list_ex (\<lambda>p. p = ''.'' \<or> p = ''..'') (split_on (\<lambda>c. c = slash) path) then Clean path else path)
           in \<not> (path = ''..'' \<or> has_prefix ''../'' path))"

fun strip_common :: "string list \<Rightarrow> string list \<Rightarrow> string list \<times> string list" where
  "strip_common (a # as) (b # bs) = (if a = b then strip_common as bs else (a # as, b # bs))"
| "strip_common as bs = (as, bs)"

definition Rel :: "string \<Rightarrow> string \<Rightarrow> string option" where
  "Rel basepath targpath =
     (let base = Clean basepath; targ = Clean targpath in
      if base = targ then Some ''.''
      else if IsAbs base \<noteq> IsAbs targ then None
      else case strip_common (clean_comps basepath) (clean_comps targpath) of
        (bs, ts) \<Rightarrow>
          (case bs of
             [] \<Rightarrow> Some (join [slash] ts)
           | b # _ \<Rightarrow> if b = ''..'' then None
                      else Some (join [slash] (replicate (length bs) ''..'' @ ts))))"

subsection \<open>Components and text\<close>

text \<open>The components that \<open>Clean\<close> leaves: proper names, with dot-dots only in front and only in relative paths.\<close>

definition proper :: "string \<Rightarrow> bool" where
  "proper c \<longleftrightarrow> c \<noteq> [] \<and> c \<noteq> ''.'' \<and> slash \<notin> set c"

definition normal :: "bool \<Rightarrow> string list \<Rightarrow> bool" where
  "normal rooted cs \<longleftrightarrow> list_all proper cs \<and>
     (if rooted then ''..'' \<notin> set cs else \<exists>k. ''..'' \<notin> set (drop k cs) \<and> take k cs = replicate k ''..'')"

lemma split_on_no_sep: "slash \<notin> set c \<Longrightarrow> split_on (\<lambda>c. c = slash) c = [c]"
  by (induction c) auto

lemma split_on_append: "slash \<notin> set c \<Longrightarrow> split_on (\<lambda>c. c = slash) (c @ slash # s) = c # split_on (\<lambda>c. c = slash) s"
  by (induction c) auto

lemma split_on_slash_free: "c \<in> set (split_on (\<lambda>c. c = slash) s) \<Longrightarrow> slash \<notin> set c"
proof (induction s arbitrary: c)
  case (Cons d s)
  then show ?case by (auto split: if_splits list.splits)
qed simp

lemma comps_proper: "list_all proper (comps s)"
  by (auto simp: comps_def list_all_iff proper_def dest: split_on_slash_free)

lemma comps_Nil [simp]: "comps [] = []"
  by (simp add: comps_def)

lemma comps_slash: "comps (slash # s) = comps s"
  by (simp add: comps_def)

lemma comps_append: "slash \<notin> set c \<Longrightarrow> comps (c @ slash # s) = (if c \<noteq> [] \<and> c \<noteq> ''.'' then [c] else []) @ comps s"
  by (simp add: comps_def split_on_append)

lemma join_Cons: "cs \<noteq> [] \<Longrightarrow> join sep (c # cs) = c @ sep @ join sep cs"
  by (cases cs) simp_all

lemma split_on_append_sep:
  "split_on (\<lambda>c. c = slash) (a @ slash # b) = split_on (\<lambda>c. c = slash) a @ split_on (\<lambda>c. c = slash) b"
proof (induction a)
  case (Cons c a)
  then show ?case by (cases "split_on (\<lambda>c. c = slash) a") auto
qed simp

lemma comps_join2: "comps (a @ slash # b) = comps a @ comps b"
  by (simp add: comps_def split_on_append_sep)

lemma comps_join: "list_all proper cs \<Longrightarrow> comps (join [slash] cs) = cs"
proof (induction cs)
  case (Cons c cs)
  then show ?case
    by (cases "cs = []") (simp_all add: proper_def comps_append join_Cons, simp add: comps_def split_on_no_sep)
qed simp

lemma IsAbs_join: "list_all proper cs \<Longrightarrow> \<not> IsAbs (join [slash] cs)"
proof (cases cs)
  case (Cons c ds)
  moreover assume "list_all proper cs"
  ultimately show ?thesis
    by (cases "ds = []"; cases c) (auto simp: IsAbs_def proper_def join_Cons)
qed (simp add: IsAbs_def)

lemma join_eq_Nil: "list_all proper cs \<Longrightarrow> join [slash] cs = [] \<longleftrightarrow> cs = []"
proof (cases cs)
  case (Cons c ds)
  moreover assume "list_all proper cs"
  ultimately show ?thesis by (cases "ds = []") (auto simp: proper_def join_Cons)
qed simp

lemma path_of_comps: "list_all proper cs \<Longrightarrow> comps (path_of rooted cs) = cs"
  by (auto simp: path_of_def comps_slash comps_join) (simp add: comps_def)

lemma path_of_abs: "list_all proper cs \<Longrightarrow> IsAbs (path_of rooted cs) = rooted"
  by (auto simp: path_of_def IsAbs_join) (simp_all add: IsAbs_def)

subsection \<open>Cleaning\<close>

lemma normal_snoc: "normal rooted cs \<Longrightarrow> proper c \<Longrightarrow> c \<noteq> ''..'' \<Longrightarrow> normal rooted (cs @ [c])"
proof -
  assume n: "normal rooted cs" and c: "proper c" "c \<noteq> ''..''"
  show ?thesis
  proof (cases rooted)
    case False
    with n obtain k where k: "''..'' \<notin> set (drop k cs)" "take k cs = replicate k ''..''"
      by (auto simp: normal_def)
    then have "k \<le> length cs" by (metis length_replicate length_take min.cobounded1)
    then show ?thesis using n c k False by (auto simp: normal_def intro!: exI [of _ k])
  qed (use n c in \<open>auto simp: normal_def\<close>)
qed

lemma normal_butlast: "normal rooted (cs @ [c]) \<Longrightarrow> normal rooted cs"
proof -
  assume n: "normal rooted (cs @ [c])"
  show ?thesis
  proof (cases rooted)
    case False
    with n obtain k where k: "''..'' \<notin> set (drop k (cs @ [c]))" "take k (cs @ [c]) = replicate k ''..''"
      by (auto simp: normal_def)
    let ?k = "min k (length cs)"
    have "take ?k cs = take ?k (take k (cs @ [c]))" by (simp add: min_def)
    also have "\<dots> = replicate ?k ''..''" unfolding k(2) by (simp add: min_def)
    finally have "take ?k cs = replicate ?k ''..''" .
    moreover have "set (drop ?k cs) \<subseteq> set (drop k (cs @ [c]))" by (auto simp add: min_def)
    ultimately show ?thesis using n k(1) False unfolding normal_def by (auto intro!: exI [of _ ?k])
  qed (use n in \<open>auto simp: normal_def\<close>)
qed

lemma dotdot_proper: "proper ''..''"
  by (simp add: proper_def)

lemma normal_dotdot: "normal False cs \<Longrightarrow> cs = [] \<or> last cs = ''..'' \<Longrightarrow> normal False (cs @ [''..''])"
proof -
  assume n: "normal False cs" and l: "cs = [] \<or> last cs = ''..''"
  from n obtain k where k: "''..'' \<notin> set (drop k cs)" "take k cs = replicate k ''..''"
    by (auto simp: normal_def)
  have "drop k cs = []"
  proof (rule ccontr)
    assume d: "drop k cs \<noteq> []"
    then have "last cs \<in> set (drop k cs)" by (metis last_drop last_in_set drop_all not_le_imp_less)
    with k(1) l d show False by auto
  qed
  then have "cs = replicate (length cs) ''..''" using k(2) by (metis append_Nil2 append_take_drop_id length_replicate)
  then have "cs @ [''..''] = replicate (Suc (length cs)) ''..''" by (metis replicate_append_same replicate_Suc)
  moreover have "list_all proper (cs @ [''..''])" using n dotdot_proper by (simp add: normal_def)
  ultimately show ?thesis unfolding normal_def by (auto intro!: exI [of _ "Suc (length cs)"])
qed

lemma resolve_normal: "list_all proper cs \<Longrightarrow> normal rooted (rev acc) \<Longrightarrow> normal rooted (resolve rooted acc cs)"
proof (induction rooted acc cs rule: resolve.induct)
  case (2 rooted acc c cs)
  show ?case
  proof (cases "c = ''..''")
    case dd: True
    show ?thesis
    proof (cases acc)
      case Nil
      then show ?thesis using 2 dd normal_dotdot [of "[]"] by (cases rooted) auto
    next
      case (Cons a as)
      have up: "normal rooted (rev as)" using 2(7) Cons normal_butlast [of rooted "rev as" a] by simp
      show ?thesis
      proof (cases "a = ''..''")
        case True
        then have "\<not> rooted" using 2(7) Cons by (auto simp: normal_def)
        then have "normal rooted (rev (''..'' # acc))" using 2(7) Cons True normal_dotdot [of "rev acc"] by simp
        then show ?thesis using 2 dd Cons True by simp
      next
        case False
        then show ?thesis using 2 dd Cons up by simp
      qed
    qed
  next
    case False
    then show ?thesis using 2 normal_snoc [of rooted "rev acc" c] by simp
  qed
qed simp

lemma normal_Nil [simp]: "normal rooted []"
  by (auto simp: normal_def)

lemma clean_comps_normal: "normal (IsAbs s) (clean_comps s)"
  unfolding clean_comps_def by (rule resolve_normal) (simp_all add: comps_proper)

lemma normal_proper: "normal rooted cs \<Longrightarrow> list_all proper cs"
  by (simp add: normal_def)

lemma resolve_no_dots: "''..'' \<notin> set cs \<Longrightarrow> resolve rooted acc cs = rev acc @ cs"
  by (induction cs arbitrary: acc) auto

lemma resolve_dots: "resolve False (replicate n ''..'') (replicate k ''..'' @ cs) = resolve False (replicate (n + k) ''..'') cs"
proof (induction k arbitrary: n)
  case (Suc k)
  have "resolve False (replicate n ''..'') (replicate (Suc k) ''..'' @ cs) = resolve False (replicate (Suc n) ''..'') (replicate k ''..'' @ cs)"
    by (cases n) simp_all
  then show ?case using Suc.IH [of "Suc n"] by simp
qed simp

lemma resolve_normal_id: "normal rooted cs \<Longrightarrow> resolve rooted [] cs = cs"
proof (cases rooted)
  case False
  assume "normal rooted cs"
  with False obtain k where k: "''..'' \<notin> set (drop k cs)" "take k cs = replicate k ''..''" by (auto simp: normal_def)
  have "cs = replicate k ''..'' @ drop k cs" using k(2) by (metis append_take_drop_id)
  then have "resolve False [] cs = resolve False (replicate k ''..'') (drop k cs)"
    using resolve_dots [of 0 k "drop k cs"] by simp
  then show ?thesis using False resolve_no_dots [OF k(1)] \<open>cs = replicate k ''..'' @ drop k cs\<close> by simp
qed (simp add: normal_def resolve_no_dots)

lemma Clean_abs [simp]: "IsAbs (Clean s) = IsAbs s"
  by (simp add: Clean_def path_of_abs normal_proper [OF clean_comps_normal])

lemma comps_Clean [simp]: "comps (Clean s) = clean_comps s"
  unfolding Clean_def by (rule path_of_comps) (rule normal_proper [OF clean_comps_normal])

lemma clean_comps_Clean [simp]: "clean_comps (Clean s) = clean_comps s"
  unfolding clean_comps_def [of "Clean s"] Clean_abs comps_Clean by (rule resolve_normal_id) (rule clean_comps_normal)

lemma Clean_Clean [simp]: "Clean (Clean s) = Clean s"
  by (simp add: Clean_def [of "Clean s"]) (simp add: Clean_def)

lemma Clean_eq_iff: "Clean s = Clean t \<longleftrightarrow> IsAbs s = IsAbs t \<and> clean_comps s = clean_comps t"
proof
  assume e: "Clean s = Clean t"
  have "IsAbs s = IsAbs t" using arg_cong [OF e, of IsAbs] by simp
  moreover have "clean_comps s = clean_comps t" using arg_cong [OF e, of clean_comps] by simp
  ultimately show "IsAbs s = IsAbs t \<and> clean_comps s = clean_comps t" by simp
qed (simp add: Clean_def)

subsection \<open>Local paths and paths inside a directory\<close>

lemma starts_with_dotdot:
  assumes "list_all proper cs"
  shows "(path_of False cs = ''..'' \<or> has_prefix ''../'' (path_of False cs)) \<longleftrightarrow> cs \<noteq> [] \<and> hd cs = ''..''"
proof (cases cs)
  case Nil
  then show ?thesis by (simp add: path_of_def)
next
  case (Cons c ds)
  then have c: "slash \<notin> set c" "c \<noteq> []" and ds: "list_all proper ds" using assms by (auto simp: proper_def)
  show ?thesis
  proof (cases "ds = []")
    case True
    have "\<not> has_prefix ''../'' c" using c(1) by (auto simp: has_prefix_iff)
    then show ?thesis using Cons True by (simp add: path_of_def)
  next
    case False
    then have "path_of False cs = c @ slash # join [slash] ds" using Cons by (simp add: path_of_def join_Cons)
    moreover have "(c @ slash # t = ''..'' \<or> has_prefix ''../'' (c @ slash # t)) \<longleftrightarrow> c = ''..''" for t
      using c by (cases c; cases "tl c"; cases "tl (tl c)") (auto simp: has_prefix_def)
    ultimately show ?thesis using Cons by simp
  qed
qed

lemma split_on_comps: "c \<in> set (comps s) \<longleftrightarrow> c \<in> set (split_on (\<lambda>c. c = slash) s) \<and> c \<noteq> [] \<and> c \<noteq> ''.''"
  by (auto simp: comps_def)

lemma IsLocal_iff:
  "IsLocal s \<longleftrightarrow> s \<noteq> [] \<and> \<not> IsAbs s \<and> (clean_comps s = [] \<or> hd (clean_comps s) \<noteq> ''..'')"
proof (cases "IsAbs s \<or> s = []")
  case False
  let ?dots = "list_ex (\<lambda>p. p = ''.'' \<or> p = ''..'') (split_on (\<lambda>c. c = slash) s)"
  show ?thesis
  proof (cases ?dots)
    case True
    have "Clean s = path_of False (clean_comps s)" using False by (simp add: Clean_def)
    then show ?thesis
      using False True starts_with_dotdot [OF normal_proper [OF clean_comps_normal, of s]] by (auto simp: IsLocal_def)
  next
    case nodots: False
    then have nd: "''..'' \<notin> set (split_on (\<lambda>c. c = slash) s)" by (auto simp: list_ex_iff)
    have "s \<noteq> ''..''" using nd by auto
    moreover have "\<not> has_prefix ''../'' s"
    proof
      assume "has_prefix ''../'' s"
      then obtain t where "s = ''..'' @ slash # t" by (auto simp: has_prefix_iff)
      then have "split_on (\<lambda>c. c = slash) s = ''..'' # split_on (\<lambda>c. c = slash) t"
        using split_on_append [of "''..''" t] by simp
      with nd show False by simp
    qed
    moreover have "''..'' \<notin> set (clean_comps s)"
      using nd split_on_comps [of "''..''" s] by (simp add: clean_comps_def resolve_no_dots)
    then have "clean_comps s = [] \<or> hd (clean_comps s) \<noteq> ''..''" by (metis hd_in_set)
    ultimately show ?thesis using False nodots by (simp add: IsLocal_def)
  qed
qed (auto simp: IsLocal_def)

lemma IsLocal_no_dots: "IsLocal s \<Longrightarrow> ''..'' \<notin> set (clean_comps s)"
proof -
  assume l: "IsLocal s"
  have "normal False (clean_comps s)" using l clean_comps_normal [of s] by (simp add: IsLocal_iff)
  then obtain k where k: "''..'' \<notin> set (drop k (clean_comps s))" "take k (clean_comps s) = replicate k ''..''"
    by (auto simp: normal_def)
  then have "k = 0 \<or> clean_comps s \<noteq> [] \<and> hd (clean_comps s) = ''..''"
    by (cases k; cases "clean_comps s") auto
  with l k show ?thesis by (auto simp: IsLocal_iff)
qed

lemma strip_common_prefix:
  "strip_common as bs = (x, y) \<Longrightarrow> \<exists>c. as = c @ x \<and> bs = c @ y \<and> (x = [] \<or> y = [] \<or> hd x \<noteq> hd y)"
proof (induction as bs arbitrary: x y rule: strip_common.induct)
  case (1 a as b bs)
  then show ?case
  proof (cases "a = b")
    case True
    with 1 obtain c where "as = c @ x" "bs = c @ y" "x = [] \<or> y = [] \<or> hd x \<noteq> hd y" by auto
    then show ?thesis using True by (intro exI [of _ "a # c"]) simp
  qed auto
qed auto

text \<open>The text of a list of components that \<open>Clean\<close> would leave as it is.\<close>

lemma clean_comps_join: "normal False cs \<Longrightarrow> clean_comps (join [slash] cs) = cs"
  by (simp add: clean_comps_def IsAbs_join comps_join normal_proper resolve_normal_id)

lemma normal_dots_append:
  assumes "list_all proper ts" "''..'' \<notin> set ts"
  shows "normal False (replicate n ''..'' @ ts)"
proof -
  have "list_all proper (replicate n ''..'')" by (simp add: list_all_iff dotdot_proper)
  then show ?thesis using assms unfolding normal_def by (auto intro!: exI [of _ n])
qed

lemma abs_comps: "IsAbs s \<Longrightarrow> list_all proper (clean_comps s) \<and> ''..'' \<notin> set (clean_comps s)"
  using clean_comps_normal [of s] by (simp add: normal_def)

lemma Rel_below:
  assumes w: "IsAbs w" and p: "IsAbs p" and c: "clean_comps p = clean_comps w @ cs"
  shows "Rel w p = Some (path_of False cs)"
proof (cases "cs = []")
  case True
  then have "Clean w = Clean p" using w p c by (simp add: Clean_eq_iff)
  then show ?thesis using True by (simp add: Rel_def path_of_def)
next
  case False
  have "Clean w \<noteq> Clean p" using False c by (simp add: Clean_eq_iff)
  moreover have "strip_common as (as @ cs) = ([], cs)" for as by (induction as) simp_all
  ultimately show ?thesis using w p c False by (simp add: Rel_def path_of_def Let_def)
qed

lemma Rel_outside:
  assumes w: "IsAbs w" and p: "IsAbs p" and c: "\<not> prefix (clean_comps w) (clean_comps p)"
  obtains n ts where "Rel w p = Some (join [slash] (replicate (Suc n) ''..'' @ ts))" "list_all proper ts"
    "''..'' \<notin> set ts"
proof -
  obtain x y where xy: "strip_common (clean_comps w) (clean_comps p) = (x, y)" by force
  then obtain q where q: "clean_comps w = q @ x" "clean_comps p = q @ y" using strip_common_prefix by blast
  have x: "x \<noteq> []" using c q by auto
  then obtain b bs where b: "x = b # bs" by (cases x) auto
  have "b \<noteq> ''..''" using abs_comps [OF w] q b by auto
  moreover have "Clean w \<noteq> Clean p" using c by (auto simp: Clean_eq_iff)
  ultimately have "Rel w p = Some (join [slash] (replicate (Suc (length bs)) ''..'' @ y))"
    using w p xy b by (simp add: Rel_def Let_def)
  moreover have "list_all proper y" "''..'' \<notin> set y" using abs_comps [OF p] q by auto
  ultimately show ?thesis using that by blast
qed

lemma path_of_local:
  assumes "list_all proper cs" "''..'' \<notin> set cs"
  shows "IsLocal (path_of False cs)" "clean_comps (path_of False cs) = cs"
proof -
  have n: "normal False cs" using normal_dots_append [OF assms, of 0] by simp
  show c: "clean_comps (path_of False cs) = cs"
    using assms n by (simp add: clean_comps_def path_of_abs path_of_comps resolve_normal_id)
  have "path_of False cs \<noteq> []" using assms by (simp add: path_of_def join_eq_Nil)
  moreover have "cs = [] \<or> hd cs \<noteq> ''..''" using assms by (metis hd_in_set)
  ultimately show "IsLocal (path_of False cs)" using assms c by (simp add: IsLocal_iff path_of_abs)
qed

text \<open>For absolute paths, \<open>Rel\<close> gives a local path exactly when the target lies in the base directory.\<close>

lemma Rel_local_iff:
  assumes w: "IsAbs w" and p: "IsAbs p"
  shows "(\<exists>rel. Rel w p = Some rel \<and> IsLocal rel) \<longleftrightarrow> prefix (clean_comps w) (clean_comps p)"
proof
  assume "prefix (clean_comps w) (clean_comps p)"
  then obtain cs where cs: "clean_comps p = clean_comps w @ cs" by (auto simp: prefix_def)
  then have "IsLocal (path_of False cs)" using abs_comps [OF p] by (auto intro!: path_of_local)
  with Rel_below [OF w p cs] show "\<exists>rel. Rel w p = Some rel \<and> IsLocal rel" by blast
next
  assume l: "\<exists>rel. Rel w p = Some rel \<and> IsLocal rel"
  show "prefix (clean_comps w) (clean_comps p)"
  proof (rule ccontr)
    assume "\<not> prefix (clean_comps w) (clean_comps p)"
    then obtain n ts where r: "Rel w p = Some (join [slash] (replicate (Suc n) ''..'' @ ts))" "list_all proper ts"
      "''..'' \<notin> set ts" using Rel_outside [OF w p] by blast
    have "clean_comps (join [slash] (replicate (Suc n) ''..'' @ ts)) = replicate (Suc n) ''..'' @ ts"
      by (rule clean_comps_join [OF normal_dots_append [OF r(2,3)]])
    then have "\<not> IsLocal (join [slash] (replicate (Suc n) ''..'' @ ts))" by (simp add: IsLocal_iff)
    with l r(1) show False by simp
  qed
qed

lemma Rel_local_comps:
  assumes "IsAbs w" "IsAbs p" "Rel w p = Some rel" "IsLocal rel"
  shows "clean_comps p = clean_comps w @ clean_comps rel \<and> comps rel = clean_comps rel"
proof -
  obtain cs where cs: "clean_comps p = clean_comps w @ cs"
    using Rel_local_iff [OF assms(1,2)] assms(3,4) by (auto simp: prefix_def)
  have "list_all proper cs" "''..'' \<notin> set cs" using abs_comps [OF assms(2)] cs by auto
  then have "comps (path_of False cs) = cs" "clean_comps (path_of False cs) = cs"
    by (simp_all add: path_of_comps path_of_local)
  then show ?thesis using Rel_below [OF assms(1,2) cs] assms(3) cs by simp
qed

lemma join_snoc: "join [slash] (ds @ [c]) = (if ds = [] then c else join [slash] ds @ slash # c)"
proof (induction ds)
  case (Cons d ds)
  then show ?case by (cases "ds = []") (simp_all add: join_Cons)
qed simp

lemma path_of_snoc:
  "path_of rooted (ds @ [c]) = (if rooted then [slash] else []) @ (if ds = [] then [] else join [slash] ds @ [slash]) @ c"
  by (simp add: path_of_def join_snoc)

lemma path_of_suffix: "path_of rooted (ds @ [c]) @ s = path_of rooted (ds @ [c @ s])"
  by (simp add: path_of_snoc)

lemma Dir_path_of:
  assumes "list_all proper (ds @ [c])" "''..'' \<notin> set (ds @ [c])"
  shows "Dir (path_of rooted (ds @ [c])) = path_of rooted ds"
proof -
  let ?p = "(if rooted then [slash] else []) @ (if ds = [] then [] else join [slash] ds @ [slash])"
  have c: "slash \<notin> set c" using assms by (simp add: proper_def)
  have "dropWhile (\<lambda>c. c \<noteq> slash) (rev c @ rev ?p) = dropWhile (\<lambda>c. c \<noteq> slash) (rev ?p)"
    by (rule dropWhile_append2) (use c in auto)
  also have "\<dots> = rev ?p" by (cases "ds = []") simp_all
  finally have "Dir (path_of rooted (ds @ [c])) = Clean ?p" by (simp add: Dir_def path_of_snoc)
  moreover have "comps ?p = ds"
    using assms comps_join [of ds] comps_join2 [of "join [slash] ds" "[]"] by (auto simp: comps_slash)
  moreover have "IsAbs ?p = rooted"
  proof (cases "rooted \<or> ds = []")
    case False
    then have "join [slash] ds \<noteq> []" "\<not> IsAbs (join [slash] ds)" using assms join_eq_Nil IsAbs_join by auto
    then show ?thesis using False by (cases "join [slash] ds") (auto simp: IsAbs_def)
  qed (auto simp: IsAbs_def)
  moreover have "resolve rooted [] ds = ds" using assms resolve_no_dots [of ds rooted "[]"] by simp
  ultimately show ?thesis by (simp add: Clean_def clean_comps_def)
qed

end
