(* ===== verification/Files.thy ===== *)
theory Files
  imports Tools Filepath "HOL-Library.AList"
begin

text \<open>
  The file tools: \<^verbatim>\<open>pkg/tools/filesystem.go\<close> and \<^verbatim>\<open>edit.go\<close>. The disk is a finite map from component lists
  (from the root of the file system) to files, directories and symbolic links; \<open>walk\<close> resolves a path in it,
  either as the kernel does or confined to a directory the way \<^verbatim>\<open>os.Root\<close> does. Any system call may also
  fail for a reason outside the model: the record \<open>fs_env\<close> says which ones do. The interface
  \<^verbatim>\<open>fileSystem\<close> of the source is the record \<open>fileSystem\<close>, its contract the locale \<open>file_store\<close>.
\<close>

subsection \<open>Errors\<close>

datatype errno = ENOENT | EACCES | ENOTDIR | EISDIR | EEXIST | ELOOP | EBUSY | EESCAPES | EIO

definition errno_text :: "errno \<Rightarrow> string" where
  "errno_text e = (case e of
      ENOENT \<Rightarrow> ''no such file or directory'' | EACCES \<Rightarrow> ''permission denied'' | ENOTDIR \<Rightarrow> ''not a directory''
    | EISDIR \<Rightarrow> ''is a directory'' | EEXIST \<Rightarrow> ''file exists'' | ELOOP \<Rightarrow> ''too many levels of symbolic links''
    | EBUSY \<Rightarrow> ''device or resource busy'' | EESCAPES \<Rightarrow> ''path escapes from parent'' | EIO \<Rightarrow> ''input/output error'')"

datatype fs_error =
    PathError string string errno
  | LinkError string string string errno
  | ErrNotExist
  | PlainError string
  | WrapError string fs_error

fun Error :: "fs_error \<Rightarrow> string" where
  "Error (PathError op path e) = op @ '' '' @ path @ '': '' @ errno_text e"
| "Error (LinkError op old new e) = op @ '' '' @ old @ '' '' @ new @ '': '' @ errno_text e"
| "Error ErrNotExist = ''file does not exist''"
| "Error (PlainError msg) = msg"
| "Error (WrapError msg e) = msg @ Error e"

text \<open>\<^verbatim>\<open>os.IsNotExist\<close> and \<^verbatim>\<open>os.IsPermission\<close> do not look through \<^verbatim>\<open>%w\<close>, \<^verbatim>\<open>errors.Is\<close> does.\<close>

fun errno_of :: "fs_error \<Rightarrow> errno option" where
  "errno_of (PathError _ _ e) = Some e"
| "errno_of (LinkError _ _ _ e) = Some e"
| "errno_of ErrNotExist = Some ENOENT"
| "errno_of _ = None"

definition IsNotExist :: "fs_error \<Rightarrow> bool" where "IsNotExist e \<longleftrightarrow> errno_of e = Some ENOENT"

definition IsPermission :: "fs_error \<Rightarrow> bool" where "IsPermission e \<longleftrightarrow> errno_of e = Some EACCES"

fun Is_ErrNotExist :: "fs_error \<Rightarrow> bool" where
  "Is_ErrNotExist (WrapError _ e) = Is_ErrNotExist e"
| "Is_ErrNotExist e = IsNotExist e"

subsection \<open>The disk\<close>

datatype node = FileNode string | DirNode | LinkNode string

type_synonym disk = "(string list \<times> node) list"

definition node_at :: "disk \<Rightarrow> string list \<Rightarrow> node option" where "node_at d p = map_of d p"

definition put_node :: "string list \<Rightarrow> node \<Rightarrow> disk \<Rightarrow> disk" where "put_node p n d = AList.update p n d"

definition drop_node :: "string list \<Rightarrow> disk \<Rightarrow> disk" where "drop_node p d = AList.delete p d"

definition entry_names :: "disk \<Rightarrow> string list \<Rightarrow> string list" where
  "entry_names d p = sort (remdups (map (\<lambda>k. last (fst k)) (filter (\<lambda>k. fst k \<noteq> [] \<and> butlast (fst k) = p) d)))"

text \<open>
  Resolution of the components \<open>cs\<close> from the directory \<open>base @ cur\<close>, with at most \<open>n\<close> symbolic links. A
  confined walk refuses to leave \<open>base\<close> and refuses absolute links. \<open>Existing\<close> demands that the last
  component exists and follows it, \<open>Creating\<close> lets it be missing, \<open>NoFollow\<close> does not look at it.
\<close>

datatype walk_mode = Existing | Creating | NoFollow

function walk :: "walk_mode \<Rightarrow> bool \<Rightarrow> disk \<Rightarrow> string list \<Rightarrow> nat \<Rightarrow> string list \<Rightarrow> string list \<Rightarrow> errno + string list" where
  "walk m confined d base n cur [] = Inr cur"
| "walk m confined d base n cur (c # cs) =
     (if c = ''..'' then
        (if cur \<noteq> [] then walk m confined d base n (butlast cur) cs
         else if confined then Inl EESCAPES else walk m confined d base n [] cs)
      else if cs = [] \<and> m = NoFollow then Inr (cur @ [c])
      else case node_at d (base @ cur @ [c]) of
        None \<Rightarrow> if cs = [] \<and> m = Creating then Inr (cur @ [c]) else Inl ENOENT
      | Some DirNode \<Rightarrow> walk m confined d base n (cur @ [c]) cs
      | Some (FileNode _) \<Rightarrow> if cs = [] then Inr (cur @ [c]) else Inl ENOTDIR
      | Some (LinkNode t) \<Rightarrow>
          if n = 0 then Inl ELOOP
          else if \<not> IsAbs t then walk m confined d base (n - 1) cur (comps t @ cs)
          else if confined then Inl EESCAPES else walk m confined d base (n - 1) [] (comps t @ cs))"
  by pat_completeness auto
termination by (relation "measures [\<lambda>(m, confined, d, base, n, cur, cs). n, \<lambda>(m, confined, d, base, n, cur, cs). length cs]") auto

text \<open>Creation of missing directories, by \<^verbatim>\<open>os.MkdirAll\<close> or confined by \<^verbatim>\<open>Root.MkdirAll\<close>.\<close>

function mkdir_walk :: "bool \<Rightarrow> disk \<Rightarrow> string list \<Rightarrow> nat \<Rightarrow> string list \<Rightarrow> string list \<Rightarrow> disk \<times> errno option" where
  "mkdir_walk confined d base n cur [] = (d, None)"
| "mkdir_walk confined d base n cur (c # cs) =
     (if c = ''..'' then
        (if cur \<noteq> [] then mkdir_walk confined d base n (butlast cur) cs
         else if confined then (d, Some EESCAPES) else mkdir_walk confined d base n [] cs)
      else case node_at d (base @ cur @ [c]) of
        None \<Rightarrow> mkdir_walk confined (put_node (base @ cur @ [c]) DirNode d) base n (cur @ [c]) cs
      | Some DirNode \<Rightarrow> mkdir_walk confined d base n (cur @ [c]) cs
      | Some (FileNode _) \<Rightarrow> (d, Some (if confined \<and> cs = [] then EEXIST else ENOTDIR))
      | Some (LinkNode t) \<Rightarrow>
          if cs = [] \<or> \<not> confined then
            (case walk Existing confined d base n cur [c] of
               Inl e \<Rightarrow> (d, Some EEXIST)
             | Inr p \<Rightarrow> if node_at d (base @ p) = Some DirNode \<or> base @ p = [] then mkdir_walk confined d base n p cs
                        else (d, Some (if confined then EEXIST else ENOTDIR)))
          else if n = 0 then (d, Some ELOOP)
          else if IsAbs t then (d, Some EESCAPES)
          else mkdir_walk confined d base (n - 1) cur (comps t @ cs))"
  by pat_completeness auto
termination by (relation "measures [\<lambda>(confined, d, base, n, cur, cs). n, \<lambda>(confined, d, base, n, cur, cs). length cs]") auto

declare walk.simps(2) [simp del] mkdir_walk.simps(2) [simp del]

text \<open>
  What the environment decides about one call: the working directory of the process, the clock that names
  the temporary file, and which system calls fail although the disk would allow them. A failed write
  leaves a part of the data behind.
\<close>

record fs_env =
  fe_wd :: "string list"
  fe_nanos :: int
  fe_open :: "errno option"
  fe_mkdir :: "errno option"
  fe_create :: "errno option"
  fe_write :: "(nat \<times> errno) option"
  fe_rename :: "errno option"

definition is_dir :: "disk \<Rightarrow> string list \<Rightarrow> bool" where
  "is_dir d p \<longleftrightarrow> p = [] \<or> node_at d p = Some DirNode"

subsection \<open>System calls below a directory\<close>

text \<open>
  \<open>base\<close> is the directory that names are resolved in, \<open>start\<close> the directory below it where relative ones
  begin; \<^verbatim>\<open>os.Root\<close> allows 8 links, the kernel 40.
\<close>

record place =
  pl_confined :: bool
  pl_base :: "string list"
  pl_start :: "string list"
  pl_links :: nat

definition root_place :: "string list \<Rightarrow> place" where
  "root_place base = \<lparr>pl_confined = True, pl_base = base, pl_start = [], pl_links = 8\<rparr>"

definition host_place :: "fs_env \<Rightarrow> string \<Rightarrow> place" where
  "host_place env path = \<lparr>pl_confined = False, pl_base = [], pl_start = (if IsAbs path then [] else fe_wd env), pl_links = 40\<rparr>"

definition locate :: "walk_mode \<Rightarrow> place \<Rightarrow> disk \<Rightarrow> string \<Rightarrow> errno + string list" where
  "locate m pl d name =
     (if name = [] then Inl ENOENT
      else case walk m (pl_confined pl) d (pl_base pl) (pl_links pl) (pl_start pl) (comps name) of
             Inl e \<Rightarrow> Inl e
           | Inr p \<Rightarrow> Inr (pl_base pl @ p))"

definition sys_read :: "fs_env \<Rightarrow> place \<Rightarrow> string \<Rightarrow> disk \<Rightarrow> (bool \<times> errno) + string" where
  "sys_read env pl name d =
     (case fe_open env of
        Some e \<Rightarrow> Inl (False, e)
      | None \<Rightarrow>
          (case locate Existing pl d name of
             Inl e \<Rightarrow> Inl (False, e)
           | Inr p \<Rightarrow> (case node_at d p of Some (FileNode s) \<Rightarrow> Inr s | _ \<Rightarrow> Inl (True, EISDIR))))"

definition sys_readdir :: "fs_env \<Rightarrow> place \<Rightarrow> string \<Rightarrow> disk \<Rightarrow> (bool \<times> errno) + (string \<times> bool) list" where
  "sys_readdir env pl name d =
     (case fe_open env of
        Some e \<Rightarrow> Inl (False, e)
      | None \<Rightarrow>
          (case locate Existing pl d name of
             Inl e \<Rightarrow> Inl (False, e)
           | Inr p \<Rightarrow>
               if is_dir d p then Inr (map (\<lambda>n. (n, node_at d (p @ [n]) = Some DirNode)) (entry_names d p))
               else Inl (True, ENOTDIR)))"

definition sys_mkdir_all :: "fs_env \<Rightarrow> place \<Rightarrow> string \<Rightarrow> disk \<Rightarrow> disk \<times> errno option" where
  "sys_mkdir_all env pl name d =
     (case fe_mkdir env of
        Some e \<Rightarrow> (d, Some e)
      | None \<Rightarrow> mkdir_walk (pl_confined pl) d (pl_base pl) (pl_links pl) (pl_start pl) (comps name))"

text \<open>\<^verbatim>\<open>WriteFile\<close>; an error says whether it is one of the opening or of the writing.\<close>

definition sys_write :: "fs_env \<Rightarrow> place \<Rightarrow> string \<Rightarrow> string \<Rightarrow> disk \<Rightarrow> disk \<times> (bool \<times> errno) option" where
  "sys_write env pl name data d =
     (case fe_create env of
        Some e \<Rightarrow> (d, Some (False, e))
      | None \<Rightarrow>
          (case locate Creating pl d name of
             Inl e \<Rightarrow> (d, Some (False, e))
           | Inr p \<Rightarrow>
               if is_dir d p then (d, Some (False, EISDIR))
               else (case fe_write env of
                       Some (k, e) \<Rightarrow> (put_node p (FileNode (take k data)) d, Some (True, e))
                     | None \<Rightarrow> (put_node p (FileNode data) d, None))))"

definition sys_remove :: "place \<Rightarrow> string \<Rightarrow> disk \<Rightarrow> disk" where
  "sys_remove pl name d =
     (case locate NoFollow pl d name of
        Inl e \<Rightarrow> d
      | Inr p \<Rightarrow> if is_dir d p \<and> (p = pl_base pl \<or> entry_names d p \<noteq> []) then d else drop_node p d)"

definition sys_rename :: "fs_env \<Rightarrow> place \<Rightarrow> string \<Rightarrow> string \<Rightarrow> disk \<Rightarrow> disk \<times> errno option" where
  "sys_rename env pl old new d =
     (case fe_rename env of
        Some e \<Rightarrow> (d, Some e)
      | None \<Rightarrow>
          (case locate NoFollow pl d old of
             Inl e \<Rightarrow> (d, Some e)
           | Inr p \<Rightarrow>
               (case locate NoFollow pl d new of
                  Inl e \<Rightarrow> (d, Some e)
                | Inr q \<Rightarrow>
                    if p = pl_base pl \<or> q = pl_base pl then (d, Some EBUSY)
                    else case node_at d p of
                           None \<Rightarrow> (d, Some ENOENT)
                         | Some n \<Rightarrow>
                             if is_dir d q then (d, Some (if pl_confined pl then EISDIR else EEXIST))
                             else (put_node q n (drop_node p d), None))))"

subsection \<open>Path validation\<close>

definition isWithinWorkspace :: "string \<Rightarrow> string \<Rightarrow> bool" where
  "isWithinWorkspace candidate workspace \<longleftrightarrow>
     (case Rel (Clean workspace) (Clean candidate) of None \<Rightarrow> False | Some rel \<Rightarrow> IsLocal rel)"

definition getSafeRelPath :: "string \<Rightarrow> string \<Rightarrow> fs_error + string" where
  "getSafeRelPath workspace path =
     (if workspace = [] then Inl (PlainError ''workspace is not defined'')
      else
        let rel = Clean path;
            r = (if IsAbs rel then
                   (case Rel workspace rel of
                      None \<Rightarrow> Inl (WrapError ''failed to calculate relative path: ''
                                (PlainError (''Rel: can't make '' @ rel @ '' relative to '' @ workspace)))
                    | Some rel \<Rightarrow> Inr rel)
                 else Inr rel)
        in case r of
             Inl e \<Rightarrow> Inl e
           | Inr rel \<Rightarrow> if IsLocal rel then Inr rel else Inl (PlainError (''path escapes workspace: '' @ path)))"

text \<open>\<open>eval\<close> stands for \<^verbatim>\<open>filepath.EvalSymlinks\<close> on the disk of the moment.\<close>

definition eval_symlinks :: "disk \<Rightarrow> string \<Rightarrow> fs_error + string" where
  "eval_symlinks d path =
     (case walk Existing False d [] 255 [] (comps path) of
        Inl e \<Rightarrow> Inl (PathError ''lstat'' path e)
      | Inr p \<Rightarrow> Inr (path_of True p))"

function resolveExistingAncestor_from :: "(string \<Rightarrow> fs_error + string) \<Rightarrow> string list \<Rightarrow> fs_error + string" where
  "resolveExistingAncestor_from eval cs =
     (case eval (path_of True cs) of
        Inr resolved \<Rightarrow> Inr resolved
      | Inl e \<Rightarrow> if \<not> IsNotExist e then Inl e
                 else if cs = [] then Inl ErrNotExist
                 else resolveExistingAncestor_from eval (butlast cs))"
  by pat_completeness auto
termination by (relation "measure (\<lambda>(eval, cs). length cs)") auto

declare resolveExistingAncestor_from.simps [simp del]

text \<open>The loop of \<^verbatim>\<open>resolveExistingAncestor\<close>, on the components of an absolute path.\<close>

definition resolveExistingAncestor :: "(string \<Rightarrow> fs_error + string) \<Rightarrow> string \<Rightarrow> fs_error + string" where
  "resolveExistingAncestor eval path = resolveExistingAncestor_from eval (clean_comps path)"

definition validatePath :: "string \<Rightarrow> (string \<Rightarrow> fs_error + string) \<Rightarrow> string \<Rightarrow> string \<Rightarrow> bool \<Rightarrow> fs_error + string" where
  "validatePath wd eval path workspace restrict =
     (if workspace = [] then Inl (PlainError ''workspace is not defined'')
      else
        let absWorkspace = Abs wd workspace;
            absPath = (if IsAbs path then Clean path else Abs wd (Join [absWorkspace, path]))
        in if \<not> restrict then Inr absPath
           else if \<not> isWithinWorkspace absPath absWorkspace then
             Inl (PlainError ''access denied: path is outside the workspace'')
           else
             let workspaceReal = (case eval absWorkspace of Inr resolved \<Rightarrow> resolved | Inl e \<Rightarrow> absWorkspace);
                 outside = PlainError ''access denied: symlink resolves outside workspace''
             in case eval absPath of
                  Inr resolved \<Rightarrow> if isWithinWorkspace resolved workspaceReal then Inr absPath else Inl outside
                | Inl e \<Rightarrow>
                    if IsNotExist e then
                      (case resolveExistingAncestor eval (Dir absPath) of
                         Inr parentResolved \<Rightarrow> if isWithinWorkspace parentResolved workspaceReal then Inr absPath else Inl outside
                       | Inl e \<Rightarrow> if \<not> IsNotExist e then Inl (WrapError ''failed to resolve path: '' e) else Inr absPath)
                    else Inl (WrapError ''failed to resolve path: '' e))"

subsection \<open>The two file systems\<close>

record 'd fileSystem =
  fs_ReadFile :: "string \<Rightarrow> 'd \<Rightarrow> fs_error + string"
  fs_WriteFile :: "string \<Rightarrow> string \<Rightarrow> 'd \<Rightarrow> 'd \<times> fs_error option"
  fs_ReadDir :: "string \<Rightarrow> 'd \<Rightarrow> fs_error + (string \<times> bool) list"

definition tmp_of :: "fs_env \<Rightarrow> string \<Rightarrow> string" where
  "tmp_of env path = path @ ''.'' @ itoa (fe_nanos env) @ ''.tmp''"

definition hostFs_ReadFile :: "fs_env \<Rightarrow> string \<Rightarrow> disk \<Rightarrow> fs_error + string" where
  "hostFs_ReadFile env path d =
     (case sys_read env (host_place env path) path d of
        Inr content \<Rightarrow> Inr content
      | Inl (reading, e) \<Rightarrow>
          let err = PathError (if reading then ''read'' else ''open'') path e
          in Inl (if IsNotExist err then WrapError ''failed to read file: file not found: '' err
                  else if IsPermission err then WrapError ''failed to read file: access denied: '' err
                  else WrapError ''failed to read file: '' err))"

definition hostFs_ReadDir :: "fs_env \<Rightarrow> string \<Rightarrow> disk \<Rightarrow> fs_error + (string \<times> bool) list" where
  "hostFs_ReadDir env path d =
     (case sys_readdir env (host_place env path) path d of
        Inr entries \<Rightarrow> Inr entries
      | Inl (reading, e) \<Rightarrow> Inl (PathError (if reading then ''readdirent'' else ''open'') path e))"

text \<open>
  The protocol that both implementations of \<^verbatim>\<open>WriteFile\<close> follow: parent directories, temporary file, rename,
  with the removal of the temporary file after a failure. The stage says which call failed.
\<close>

datatype write_stage = At_Mkdir errno | At_Temp bool errno | At_Rename errno

definition replace_file :: "fs_env \<Rightarrow> bool \<Rightarrow> place \<Rightarrow> place \<Rightarrow> string \<Rightarrow> string \<Rightarrow> disk \<Rightarrow> disk \<times> write_stage option" where
  "replace_file env mkdir dpl pl path data d =
     (case (if mkdir then sys_mkdir_all env dpl (Dir path) d else (d, None)) of
        (d, Some e) \<Rightarrow> (d, Some (At_Mkdir e))
      | (d, None) \<Rightarrow>
          (case sys_write env pl (tmp_of env path) data d of
             (d, Some (writing, e)) \<Rightarrow> (sys_remove pl (tmp_of env path) d, Some (At_Temp writing e))
           | (d, None) \<Rightarrow>
               (case sys_rename env pl (tmp_of env path) path d of
                  (d, Some e) \<Rightarrow> (sys_remove pl (tmp_of env path) d, Some (At_Rename e))
                | (d, None) \<Rightarrow> (d, None))))"

definition host_error :: "fs_env \<Rightarrow> string \<Rightarrow> write_stage \<Rightarrow> fs_error" where
  "host_error env path stage = (case stage of
      At_Mkdir e \<Rightarrow> WrapError ''failed to create parent directories: '' (PathError ''mkdir'' (Dir path) e)
    | At_Temp writing e \<Rightarrow>
        WrapError ''failed to write temp file: '' (PathError (if writing then ''write'' else ''open'') (tmp_of env path) e)
    | At_Rename e \<Rightarrow> WrapError ''failed to replace original file: '' (LinkError ''rename'' (tmp_of env path) path e))"

definition hostFs_WriteFile :: "fs_env \<Rightarrow> string \<Rightarrow> string \<Rightarrow> disk \<Rightarrow> disk \<times> fs_error option" where
  "hostFs_WriteFile env path data d =
     (case replace_file env True (host_place env (Dir path)) (host_place env path) path data d of
        (d, stage) \<Rightarrow> (d, map_option (host_error env path) stage))"

definition hostFs :: "fs_env \<Rightarrow> disk fileSystem" where
  "hostFs env = \<lparr>fs_ReadFile = hostFs_ReadFile env, fs_WriteFile = hostFs_WriteFile env, fs_ReadDir = hostFs_ReadDir env\<rparr>"

text \<open>\<open>sandbox_enter\<close> is \<^verbatim>\<open>execute\<close> up to the call of \<^verbatim>\<open>fn\<close>: the directory of the root and the checked path.\<close>

definition sandbox_enter :: "fs_env \<Rightarrow> string \<Rightarrow> string \<Rightarrow> disk \<Rightarrow> fs_error + (string list \<times> string)" where
  "sandbox_enter env workspace path d =
     (if workspace = [] then Inl (PlainError ''workspace is not defined'')
      else case locate Existing (host_place env workspace) d workspace of
        Inl e \<Rightarrow> Inl (WrapError ''failed to open workspace: '' (PathError ''open'' workspace e))
      | Inr root \<Rightarrow>
          if \<not> is_dir d root then Inl (WrapError ''failed to open workspace: '' (PathError ''open'' workspace ENOTDIR))
          else case getSafeRelPath workspace path of
                 Inl e \<Rightarrow> Inl e
               | Inr relPath \<Rightarrow> Inr (root, relPath))"

definition root_path :: "string \<Rightarrow> string \<Rightarrow> string" where
  "root_path workspace rel = (if last workspace = slash then workspace @ rel else workspace @ [slash] @ rel)"

definition sandboxFs_ReadFile :: "fs_env \<Rightarrow> string \<Rightarrow> string \<Rightarrow> disk \<Rightarrow> fs_error + string" where
  "sandboxFs_ReadFile env workspace path d =
     (case sandbox_enter env workspace path d of
        Inl e \<Rightarrow> Inl e
      | Inr (root, relPath) \<Rightarrow>
          (case sys_read env (root_place root) relPath d of
             Inr content \<Rightarrow> Inr content
           | Inl (reading, e) \<Rightarrow>
               let err = (if reading then PathError ''read'' (root_path workspace relPath) e else PathError ''openat'' relPath e)
               in Inl (if IsNotExist err then WrapError ''failed to read file: file not found: '' err
                       else if IsPermission err \<or> contains (Error err) ''escapes from parent''
                            \<or> contains (Error err) ''permission denied''
                       then WrapError ''failed to read file: access denied: '' err
                       else WrapError ''failed to read file: '' err)))"

definition sandbox_error :: "fs_env \<Rightarrow> string \<Rightarrow> string \<Rightarrow> write_stage \<Rightarrow> fs_error" where
  "sandbox_error env workspace relPath stage = (case stage of
      At_Mkdir e \<Rightarrow> WrapError ''failed to create parent directories: '' (PathError ''mkdirat'' (Dir relPath) e)
    | At_Temp writing e \<Rightarrow> WrapError ''failed to write to temp file: ''
        (if writing then PathError ''write'' (root_path workspace (tmp_of env relPath)) e
         else PathError ''openat'' (tmp_of env relPath) e)
    | At_Rename e \<Rightarrow>
        WrapError ''failed to rename temp file over target: '' (LinkError ''renameat'' (tmp_of env relPath) relPath e))"

definition sandboxFs_WriteFile :: "fs_env \<Rightarrow> string \<Rightarrow> string \<Rightarrow> string \<Rightarrow> disk \<Rightarrow> disk \<times> fs_error option" where
  "sandboxFs_WriteFile env workspace path data d =
     (case sandbox_enter env workspace path d of
        Inl e \<Rightarrow> (d, Some e)
      | Inr (root, relPath) \<Rightarrow>
          (case replace_file env (Dir relPath \<noteq> ''.'' \<and> Dir relPath \<noteq> ''/'') (root_place root) (root_place root) relPath data d of
             (d, stage) \<Rightarrow> (d, map_option (sandbox_error env workspace relPath) stage)))"

definition sandboxFs_ReadDir :: "fs_env \<Rightarrow> string \<Rightarrow> string \<Rightarrow> disk \<Rightarrow> fs_error + (string \<times> bool) list" where
  "sandboxFs_ReadDir env workspace path d =
     (case sandbox_enter env workspace path d of
        Inl e \<Rightarrow> Inl e
      | Inr (root, relPath) \<Rightarrow>
          (case sys_readdir env (root_place root) relPath d of
             Inr entries \<Rightarrow> Inr entries
           | Inl (reading, e) \<Rightarrow>
               Inl (if reading then PathError ''readdirent'' (root_path workspace relPath) e else PathError ''openat'' relPath e)))"

definition sandboxFs :: "fs_env \<Rightarrow> string \<Rightarrow> disk fileSystem" where
  "sandboxFs env workspace = \<lparr>fs_ReadFile = sandboxFs_ReadFile env workspace, fs_WriteFile = sandboxFs_WriteFile env workspace,
     fs_ReadDir = sandboxFs_ReadDir env workspace\<rparr>"

text \<open>The choice that every constructor of a file tool makes.\<close>

definition tool_fs :: "fs_env \<Rightarrow> string \<Rightarrow> bool \<Rightarrow> disk fileSystem" where
  "tool_fs env workspace restrict = (if restrict then sandboxFs env workspace else hostFs env)"

subsection \<open>Edits\<close>

text \<open>The width of the first rune of a text, as \<^verbatim>\<open>unicode/utf8\<close> decodes it: invalid bytes have width one.\<close>

definition byte_in :: "int \<Rightarrow> int \<Rightarrow> char \<Rightarrow> bool" where
  "byte_in a b c \<longleftrightarrow> a \<le> of_char c \<and> of_char c \<le> b"

definition second_ok :: "char \<Rightarrow> char \<Rightarrow> bool" where
  "second_ok c e = (let b = of_char c :: int in
     if b = 0xE0 then byte_in 0xA0 0xBF e else if b = 0xED then byte_in 0x80 0x9F e
     else if b = 0xF0 then byte_in 0x90 0xBF e else if b = 0xF4 then byte_in 0x80 0x8F e else byte_in 0x80 0xBF e)"

definition rune_width :: "string \<Rightarrow> nat" where
  "rune_width s = (case s of
      c1 # c2 # c3 # c4 # _ \<Rightarrow>
        if byte_in 0xF0 0xF4 c1 \<and> second_ok c1 c2 \<and> byte_in 0x80 0xBF c3 \<and> byte_in 0x80 0xBF c4 then 4
        else if byte_in 0xE0 0xEF c1 \<and> second_ok c1 c2 \<and> byte_in 0x80 0xBF c3 then 3
        else if byte_in 0xC2 0xDF c1 \<and> second_ok c1 c2 then 2 else 1
    | c1 # c2 # c3 # _ \<Rightarrow>
        if byte_in 0xE0 0xEF c1 \<and> second_ok c1 c2 \<and> byte_in 0x80 0xBF c3 then 3
        else if byte_in 0xC2 0xDF c1 \<and> second_ok c1 c2 then 2 else 1
    | c1 # c2 # _ \<Rightarrow> if byte_in 0xC2 0xDF c1 \<and> second_ok c1 c2 then 2 else 1
    | _ \<Rightarrow> 1)"

function utf8_count :: "string \<Rightarrow> nat" where
  "utf8_count s = (if s = [] then 0 else Suc (utf8_count (drop (rune_width s) s)))"
  by pat_completeness auto
termination
proof (relation "measure length")
  fix s :: string
  assume "s \<noteq> []"
  moreover have "0 < rune_width s" by (auto simp: rune_width_def split: list.split)
  ultimately show "(drop (rune_width s) s, s) \<in> measure length" by simp
qed simp

declare utf8_count.simps [simp del]

text \<open>\<^verbatim>\<open>strings.Count\<close> of a nonempty text: occurrences from left to right that do not overlap.\<close>

function count_from :: "string \<Rightarrow> string \<Rightarrow> nat" where
  "count_from sub s =
     (if sub = [] then 0
      else case index_of sub s of None \<Rightarrow> 0 | Some i \<Rightarrow> Suc (count_from sub (drop (i + length sub) s)))"
  by pat_completeness auto
termination
proof (relation "measure (\<lambda>(sub, s). length s)")
  fix sub s :: string and i
  assume "sub \<noteq> []" "index_of sub s = Some i"
  then show "((sub, drop (i + length sub) s), sub, s) \<in> measure (\<lambda>(sub, s). length s)"
    using index_of_Some [of sub s i] by (cases sub) auto
qed simp

declare count_from.simps [simp del]

definition Count :: "string \<Rightarrow> string \<Rightarrow> nat" where
  "Count s sub = (if sub = [] then utf8_count s + 1 else count_from sub s)"

definition Replace1 :: "string \<Rightarrow> string \<Rightarrow> string \<Rightarrow> string" where
  "Replace1 s old new = (case index_of old s of None \<Rightarrow> s | Some i \<Rightarrow> take i s @ new @ drop (i + length old) s)"

definition replaceEditContent :: "string \<Rightarrow> string \<Rightarrow> string \<Rightarrow> fs_error + string" where
  "replaceEditContent content oldText newText =
     (if \<not> contains content oldText then
        Inl (PlainError ''old_text not found in file. Make sure it matches exactly'')
      else let count = Count content oldText in
        if count > 1 then
          Inl (PlainError (''old_text appears '' @ itoa (int count) @ '' times. Please provide more context to make it unique''))
        else Inr (Replace1 content oldText newText))"

definition editFile :: "'d fileSystem \<Rightarrow> string \<Rightarrow> string \<Rightarrow> string \<Rightarrow> 'd \<Rightarrow> 'd \<times> fs_error option" where
  "editFile sysFs path oldText newText d =
     (case fs_ReadFile sysFs path d of
        Inl e \<Rightarrow> (d, Some e)
      | Inr content \<Rightarrow>
          (case replaceEditContent content oldText newText of
             Inl e \<Rightarrow> (d, Some e)
           | Inr newContent \<Rightarrow> fs_WriteFile sysFs path newContent d))"

definition appendFile :: "'d fileSystem \<Rightarrow> string \<Rightarrow> string \<Rightarrow> 'd \<Rightarrow> 'd \<times> fs_error option" where
  "appendFile sysFs path appendContent d =
     (case fs_ReadFile sysFs path d of
        Inl e \<Rightarrow> if Is_ErrNotExist e then fs_WriteFile sysFs path appendContent d else (d, Some e)
      | Inr content \<Rightarrow> fs_WriteFile sysFs path (content @ appendContent) d)"

subsection \<open>The tools\<close>

text \<open>A type assertion \<^verbatim>\<open>args[k].(string)\<close>; \<open>None\<close> when it fails.\<close>

definition string_arg :: "json_obj option \<Rightarrow> string \<Rightarrow> string option" where
  "string_arg args k = (case args of None \<Rightarrow> None | Some m \<Rightarrow> (case map_of m k of Some (JStr s) \<Rightarrow> Some s | _ \<Rightarrow> None))"

definition ReadFileTool_Execute :: "'d fileSystem \<Rightarrow> json_obj option \<Rightarrow> 'd \<Rightarrow> 'd \<times> ToolResult" where
  "ReadFileTool_Execute fs args d =
     (case string_arg args ''path'' of
        None \<Rightarrow> (d, ErrorResult ''path is required'')
      | Some path \<Rightarrow>
          (case fs_ReadFile fs path d of
             Inl e \<Rightarrow> (d, ErrorResult (Error e))
           | Inr content \<Rightarrow> (d, NewToolResult content)))"

definition WriteFileTool_Execute :: "'d fileSystem \<Rightarrow> json_obj option \<Rightarrow> 'd \<Rightarrow> 'd \<times> ToolResult" where
  "WriteFileTool_Execute fs args d =
     (case string_arg args ''path'' of
        None \<Rightarrow> (d, ErrorResult ''path is required'')
      | Some path \<Rightarrow>
          (case string_arg args ''content'' of
             None \<Rightarrow> (d, ErrorResult ''content is required'')
           | Some content \<Rightarrow>
               (case fs_WriteFile fs path content d of
                  (d, Some e) \<Rightarrow> (d, ErrorResult (Error e))
                | (d, None) \<Rightarrow> (d, SilentResult (''File written: '' @ path)))))"

definition formatDirEntries :: "(string \<times> bool) list \<Rightarrow> ToolResult" where
  "formatDirEntries entries =
     NewToolResult (concat (map (\<lambda>(name, dir). (if dir then ''DIR:  '' else ''FILE: '') @ name @ [nl]) entries))"

definition ListDirTool_Execute :: "'d fileSystem \<Rightarrow> json_obj option \<Rightarrow> 'd \<Rightarrow> 'd \<times> ToolResult" where
  "ListDirTool_Execute fs args d =
     (let path = (case string_arg args ''path'' of None \<Rightarrow> ''.'' | Some path \<Rightarrow> path) in
      case fs_ReadDir fs path d of
        Inl e \<Rightarrow> (d, ErrorResult (''failed to read directory: '' @ Error e))
      | Inr entries \<Rightarrow> (d, formatDirEntries entries))"

definition EditFileTool_Execute :: "'d fileSystem \<Rightarrow> json_obj option \<Rightarrow> 'd \<Rightarrow> 'd \<times> ToolResult" where
  "EditFileTool_Execute fs args d =
     (case string_arg args ''path'' of
        None \<Rightarrow> (d, ErrorResult ''path is required'')
      | Some path \<Rightarrow>
          (case string_arg args ''old_text'' of
             None \<Rightarrow> (d, ErrorResult ''old_text is required'')
           | Some oldText \<Rightarrow>
               (case string_arg args ''new_text'' of
                  None \<Rightarrow> (d, ErrorResult ''new_text is required'')
                | Some newText \<Rightarrow>
                    (case editFile fs path oldText newText d of
                       (d, Some e) \<Rightarrow> (d, ErrorResult (Error e))
                     | (d, None) \<Rightarrow> (d, SilentResult (''File edited: '' @ path))))))"

definition AppendFileTool_Execute :: "'d fileSystem \<Rightarrow> json_obj option \<Rightarrow> 'd \<Rightarrow> 'd \<times> ToolResult" where
  "AppendFileTool_Execute fs args d =
     (case string_arg args ''path'' of
        None \<Rightarrow> (d, ErrorResult ''path is required'')
      | Some path \<Rightarrow>
          (case string_arg args ''content'' of
             None \<Rightarrow> (d, ErrorResult ''content is required'')
           | Some content \<Rightarrow>
               (case appendFile fs path content d of
                  (d, Some e) \<Rightarrow> (d, ErrorResult (Error e))
                | (d, None) \<Rightarrow> (d, SilentResult (''Appended to '' @ path)))))"

subsection \<open>Confinement\<close>

lemma node_put [simp]: "node_at (put_node p n d) q = (if q = p then Some n else node_at d q)"
  by (simp add: node_at_def put_node_def update_conv')

lemma node_drop [simp]: "node_at (drop_node p d) q = (if q = p then None else node_at d q)"
  by (simp add: node_at_def drop_node_def delete_conv')

text \<open>\<open>same_outside base d d'\<close>: the disks differ only strictly below \<open>base\<close>.\<close>

definition same_outside :: "string list \<Rightarrow> disk \<Rightarrow> disk \<Rightarrow> bool" where
  "same_outside base d d' \<longleftrightarrow> (\<forall>q. node_at d' q \<noteq> node_at d q \<longrightarrow> strict_prefix base q)"

lemma same_outside_refl [simp]: "same_outside base d d"
  by (simp add: same_outside_def)

lemma same_outside_trans: "same_outside base d d1 \<Longrightarrow> same_outside base d1 d2 \<Longrightarrow> same_outside base d d2"
  unfolding same_outside_def by metis

lemma same_outside_put: "p \<noteq> [] \<Longrightarrow> same_outside base d (put_node (base @ p) n d)"
  by (auto simp: same_outside_def strict_prefix_def)

lemma same_outside_drop: "p \<noteq> [] \<Longrightarrow> same_outside base d (drop_node (base @ p) d)"
  by (auto simp: same_outside_def strict_prefix_def)

lemma mkdir_walk_outside: "same_outside base d (fst (mkdir_walk confined d base n cur cs))"
proof (induction confined d base n cur cs rule: mkdir_walk.induct)
  case (2 confined d base n cur c cs)
  let ?p = "base @ cur @ [c]"
  have new: "same_outside base d (put_node ?p DirNode d)" using same_outside_put [of "cur @ [c]" base d] by simp
  show ?case
  proof (cases "c = ''..''")
    case True
    then show ?thesis using 2(1,2) by (simp add: mkdir_walk.simps(2))
  next
    case False
    note step = mkdir_walk.simps(2) [of confined d base n cur c cs] False
    show ?thesis
    proof (cases "node_at d ?p")
      case None
      then show ?thesis using 2(3) [OF False None] step same_outside_trans [OF new] by simp
    next
      case (Some nd)
      then show ?thesis
      proof (cases nd)
        case DirNode
        then show ?thesis using 2(4) [OF False Some] step Some by simp
      next
        case (LinkNode t)
        note link = 2(5,6) [OF False Some LinkNode]
        show ?thesis
        proof (cases "cs = [] \<or> \<not> confined")
          case True
          then show ?thesis
            using link(1) [OF True] step Some LinkNode by (cases "walk Existing confined d base n cur [c]") simp_all
        next
          case False
          then show ?thesis using link(2) [OF False] step Some LinkNode by simp
        qed
      qed (use step Some in simp)
    qed
  qed
qed simp

lemma locate_base: "locate m pl d name = Inr q \<Longrightarrow> \<exists>p. q = pl_base pl @ p"
  by (auto simp: locate_def split: if_splits sum.splits)

lemma is_dir_outside: "same_outside base d d' \<Longrightarrow> is_dir d' base = is_dir d base"
  unfolding same_outside_def is_dir_def by (metis prefix_order.less_irrefl)

lemma same_outside_at: "q = base @ p \<Longrightarrow> q \<noteq> base \<Longrightarrow> same_outside base d (put_node q n d) \<and> same_outside base d (drop_node q d)"
  using same_outside_put same_outside_drop by blast

lemma sys_write_outside:
  assumes "is_dir d (pl_base pl)"
  shows "same_outside (pl_base pl) d (fst (sys_write env pl name data d))"
proof (cases "locate Creating pl d name")
  case (Inr q)
  then obtain p where p: "q = pl_base pl @ p" using locate_base by blast
  show ?thesis
  proof (cases "is_dir d q")
    case False
    then have "q \<noteq> pl_base pl" using assms by auto
    from same_outside_at [OF p this] show ?thesis
      using Inr False by (simp add: sys_write_def split: option.split)
  qed (simp add: sys_write_def Inr split: option.split)
qed (simp add: sys_write_def split: option.split)

lemma sys_remove_outside:
  assumes "is_dir d (pl_base pl)"
  shows "same_outside (pl_base pl) d (sys_remove pl name d)"
proof (cases "locate NoFollow pl d name")
  case (Inr q)
  then obtain p where p: "q = pl_base pl @ p" using locate_base by blast
  show ?thesis
  proof (cases "q = pl_base pl")
    case False
    from same_outside_at [OF p this] show ?thesis using Inr by (simp add: sys_remove_def)
  qed (use assms Inr in \<open>simp add: sys_remove_def\<close>)
qed (simp add: sys_remove_def)

lemma sys_rename_outside: "same_outside (pl_base pl) d (fst (sys_rename env pl old new d))"
proof (cases "fe_rename env = None \<and> snd (sys_rename env pl old new d) = None")
  case True
  then obtain p q n where pq: "locate NoFollow pl d old = Inr p" "locate NoFollow pl d new = Inr q"
    "p \<noteq> pl_base pl" "q \<noteq> pl_base pl" and d': "fst (sys_rename env pl old new d) = put_node q n (drop_node p d)"
    by (auto simp: sys_rename_def split: sum.splits option.splits if_splits)
  obtain p' q' where "p = pl_base pl @ p'" "q = pl_base pl @ q'" using pq locate_base by blast
  then have "same_outside (pl_base pl) d (drop_node p d)"
    "same_outside (pl_base pl) (drop_node p d) (put_node q n (drop_node p d))"
    using pq same_outside_at by blast+
  then show ?thesis unfolding d' by (rule same_outside_trans)
next
  case False
  then have "fst (sys_rename env pl old new d) = d"
    by (auto simp: sys_rename_def split: sum.split option.split if_splits)
  then show ?thesis by simp
qed

lemma replace_file_outside:
  assumes "is_dir d base" "pl_base dpl = base" "pl_base pl = base"
  shows "same_outside base d (fst (replace_file env mk dpl pl path data d))"
proof -
  obtain d1 e1 where 1: "(if mk then sys_mkdir_all env dpl (Dir path) d else (d, None)) = (d1, e1)" by force
  obtain d2 e2 where 2: "sys_write env pl (tmp_of env path) data d1 = (d2, e2)" by force
  obtain d3 e3 where 3: "sys_rename env pl (tmp_of env path) path d2 = (d3, e3)" by force
  have o1: "same_outside base d d1"
    using 1 assms mkdir_walk_outside [of base d "pl_confined dpl" "pl_links dpl" "pl_start dpl" "comps (Dir path)"]
    by (auto simp: sys_mkdir_all_def split: if_splits option.splits)
  have o2: "same_outside base d1 d2"
    using 2 sys_write_outside [of d1 pl env "tmp_of env path" data] assms is_dir_outside [OF o1] by simp
  have o3: "same_outside base d2 d3" using 3 sys_rename_outside [of pl d2 env "tmp_of env path" path] assms by simp
  note o12 = same_outside_trans [OF o1 o2]
  note o13 = same_outside_trans [OF o12 o3]
  have r: "same_outside base d (sys_remove pl (tmp_of env path) d')" if "same_outside base d d'" for d'
    by (rule same_outside_trans [OF that])
      (use sys_remove_outside [of d' pl "tmp_of env path"] assms is_dir_outside [OF that] in simp)
  show ?thesis
    using 1 2 3 o1 r [OF o12] r [OF o13] o13 by (simp add: replace_file_def split: option.split prod.split)
qed

text \<open>The cases of a step of the walk.\<close>

lemma walk_up:
  "walk m confined d base n cur (''..'' # cs) =
     (if cur \<noteq> [] then walk m confined d base n (butlast cur) cs
      else if confined then Inl EESCAPES else walk m confined d base n [] cs)"
  by (simp add: walk.simps(2))

lemma walk_name:
  assumes "c \<noteq> ''..''"
  shows "cs = [] \<Longrightarrow> m = NoFollow \<Longrightarrow> walk m confined d base n cur (c # cs) = Inr (cur @ [c])"
    and "\<not> (cs = [] \<and> m = NoFollow) \<Longrightarrow> node_at d (base @ cur @ [c]) = None \<Longrightarrow>
      walk m confined d base n cur (c # cs) = (if cs = [] \<and> m = Creating then Inr (cur @ [c]) else Inl ENOENT)"
    and "\<not> (cs = [] \<and> m = NoFollow) \<Longrightarrow> node_at d (base @ cur @ [c]) = Some DirNode \<Longrightarrow>
      walk m confined d base n cur (c # cs) = walk m confined d base n (cur @ [c]) cs"
    and "\<not> (cs = [] \<and> m = NoFollow) \<Longrightarrow> node_at d (base @ cur @ [c]) = Some (FileNode s) \<Longrightarrow>
      walk m confined d base n cur (c # cs) = (if cs = [] then Inr (cur @ [c]) else Inl ENOTDIR)"
    and "\<not> (cs = [] \<and> m = NoFollow) \<Longrightarrow> node_at d (base @ cur @ [c]) = Some (LinkNode t) \<Longrightarrow>
      walk m confined d base n cur (c # cs) =
        (if n = 0 then Inl ELOOP
         else if \<not> IsAbs t then walk m confined d base (n - 1) cur (comps t @ cs)
         else if confined then Inl EESCAPES else walk m confined d base (n - 1) [] (comps t @ cs))"
  using assms by (auto simp: walk.simps(2))

text \<open>A confined walk that succeeds ends where the kernel's resolution of the same path ends.\<close>

lemma walk_confined_kernel:
  "walk m True d base n cur cs = Inr p \<Longrightarrow> walk m False d [] n (base @ cur) cs = Inr (base @ p)"
proof (induction m True d base n cur cs arbitrary: p rule: walk.induct)
  case (2 m d base n cur c cs)
  show ?case
  proof (cases "c = ''..''")
    case True
    then have c: "cur \<noteq> []" "walk m True d base n (butlast cur) cs = Inr p"
      using 2(6) by (simp_all add: walk_up split: if_splits)
    from 2(1) [OF True c] show ?thesis using True c(1) by (simp add: walk_up butlast_append)
  next
    case False
    note k = walk_name [OF False, where cs = cs and m = m and d = d and base = base and cur = cur]
      walk_name [OF False, where cs = cs and m = m and d = d and base = "[]" and cur = "base @ cur"]
    show ?thesis
    proof (cases "cs = [] \<and> m = NoFollow")
      case True
      then show ?thesis using k(1,6) 2(6) by simp
    next
      case go: False
      note k = k(2-5) [OF go] k(7-10) [OF go]
      show ?thesis
      proof (cases "node_at d (base @ cur @ [c])")
        case None
        then show ?thesis using k(1,5) 2(6) by (simp split: if_splits)
      next
        case (Some nd)
        then show ?thesis
        proof (cases nd)
          case (FileNode s)
          then show ?thesis using k(3,7) Some 2(6) by (simp split: if_splits)
        next
          case DirNode
          then show ?thesis using 2(3) [OF False go Some DirNode] k(2,6) Some 2(6) by simp
        next
          case (LinkNode t)
          then have t: "n \<noteq> 0" "\<not> IsAbs t" "walk m True d base (n - 1) cur (comps t @ cs) = Inr p"
            using k(4) Some 2(6) by (simp_all split: if_splits)
          from 2(4) [OF False go Some LinkNode t] show ?thesis using k(8) Some LinkNode t by simp
        qed
      qed
    qed
  qed
qed simp

lemma sandbox_enterD:
  "sandbox_enter env workspace path d = Inr (root, rel) \<Longrightarrow>
     locate Existing (host_place env workspace) d workspace = Inr root \<and> is_dir d root \<and> getSafeRelPath workspace path = Inr rel"
  by (auto simp: sandbox_enter_def split: if_splits sum.splits)

definition kernel_path :: "disk \<Rightarrow> string list \<Rightarrow> string list \<Rightarrow> string list \<Rightarrow> bool" where
  "kernel_path d dir cs p \<longleftrightarrow> (\<exists>n. walk Existing False d [] n dir cs = Inr p)"

lemma locate_root: "locate Existing (root_place root) d rel = Inr q \<Longrightarrow> prefix root q \<and> kernel_path d root (comps rel) q"
  using walk_confined_kernel [of Existing d root 8 "[]" "comps rel"]
  by (auto simp: locate_def root_place_def kernel_path_def split: if_splits sum.splits)

lemma sandbox_read_below:
  assumes "sandboxFs_ReadFile env workspace path d = Inr content"
  shows "\<exists>root rel q. locate Existing (host_place env workspace) d workspace = Inr root \<and> getSafeRelPath workspace path = Inr rel \<and>
           prefix root q \<and> kernel_path d root (comps rel) q \<and> node_at d q = Some (FileNode content)"
proof -
  obtain root rel where e: "sandbox_enter env workspace path d = Inr (root, rel)"
    using assms by (auto simp: sandboxFs_ReadFile_def split: sum.splits)
  then have "sys_read env (root_place root) rel d = Inr content"
    using assms by (auto simp: sandboxFs_ReadFile_def Let_def split: sum.splits prod.splits)
  then obtain q where "locate Existing (root_place root) d rel = Inr q" "node_at d q = Some (FileNode content)"
    by (auto simp: sys_read_def split: option.splits sum.splits node.splits)
  then show ?thesis using sandbox_enterD [OF e] locate_root by blast
qed

lemma sandbox_write_outside:
  assumes "sandboxFs_WriteFile env workspace path data d = (d', r)"
  shows "d' = d \<or> (\<exists>root. locate Existing (host_place env workspace) d workspace = Inr root \<and> same_outside root d d')"
proof (cases "sandbox_enter env workspace path d")
  case (Inr rr)
  then obtain root rel where e: "sandbox_enter env workspace path d = Inr (root, rel)" by (cases rr) auto
  have "fst (replace_file env (Dir rel \<noteq> ''.'' \<and> Dir rel \<noteq> ''/'') (root_place root) (root_place root) rel data d) = d'"
    using assms e by (simp add: sandboxFs_WriteFile_def split: prod.splits)
  moreover have "pl_base (root_place root) = root" by (simp add: root_place_def)
  ultimately have "same_outside root d d'"
    using sandbox_enterD [OF e] replace_file_outside [of d root "root_place root" "root_place root" env _ rel data] by blast
  then show ?thesis using sandbox_enterD [OF e] by blast
qed (use assms in \<open>simp add: sandboxFs_WriteFile_def\<close>)

definition lexically_inside :: "string \<Rightarrow> string \<Rightarrow> bool" where
  "lexically_inside workspace path \<longleftrightarrow>
     (if IsAbs path then IsAbs workspace \<and> prefix (clean_comps workspace) (clean_comps path)
      else clean_comps path = [] \<or> hd (clean_comps path) \<noteq> ''..'')"

lemma Clean_nonempty [simp]: "Clean s \<noteq> []"
  using normal_proper [OF clean_comps_normal, of s] by (simp add: Clean_def path_of_def join_eq_Nil)

lemma safe_rel_relative:
  assumes "workspace \<noteq> []" "\<not> IsAbs path"
  shows "getSafeRelPath workspace path = (if clean_comps path = [] \<or> hd (clean_comps path) \<noteq> ''..''
     then Inr (path_of False (clean_comps path)) else Inl (PlainError (''path escapes workspace: '' @ path)))"
proof -
  have c: "Clean path = path_of False (clean_comps path)" using assms by (simp add: Clean_def)
  have "IsLocal (Clean path) \<longleftrightarrow> clean_comps path = [] \<or> hd (clean_comps path) \<noteq> ''..''"
    using assms by (simp add: IsLocal_iff)
  then show ?thesis using assms unfolding c [symmetric] getSafeRelPath_def by (simp add: Let_def)
qed

lemma Rel_Clean [simp]: "Rel (Clean w) p = Rel w p" "Rel w (Clean p) = Rel w p"
  by (simp_all add: Rel_def Let_def)

lemma safe_rel_absolute:
  assumes "workspace \<noteq> []" "IsAbs path"
  shows "getSafeRelPath workspace path = Inr rel \<longleftrightarrow>
    (\<exists>cs. IsAbs workspace \<and> clean_comps path = clean_comps workspace @ cs \<and> rel = path_of False cs)"
proof (cases "IsAbs workspace")
  case True
  show ?thesis
  proof
    assume g: "getSafeRelPath workspace path = Inr rel"
    then have r: "Rel workspace path = Some rel" "IsLocal rel"
      using assms by (auto simp: getSafeRelPath_def Let_def split: option.splits if_splits)
    then obtain cs where cs: "clean_comps path = clean_comps workspace @ cs"
      using Rel_local_iff [OF True assms(2)] by (auto simp: prefix_def)
    with Rel_below [OF True assms(2) cs] r show "\<exists>cs. IsAbs workspace \<and> clean_comps path = clean_comps workspace @ cs \<and> rel = path_of False cs"
      using True by auto
  next
    assume "\<exists>cs. IsAbs workspace \<and> clean_comps path = clean_comps workspace @ cs \<and> rel = path_of False cs"
    then obtain cs where cs: "clean_comps path = clean_comps workspace @ cs" "rel = path_of False cs" by blast
    have "IsLocal rel" using cs abs_comps [OF assms(2)] by (auto intro!: path_of_local)
    then show "getSafeRelPath workspace path = Inr rel"
      using assms Rel_below [OF True assms(2) cs(1)] cs(2) by (simp add: getSafeRelPath_def Let_def)
  qed
next
  case False
  then have "Rel workspace path = None" using assms Clean_eq_iff [of workspace path] by (auto simp: Rel_def Let_def)
  then show ?thesis using assms False by (simp add: getSafeRelPath_def Let_def)
qed

lemma safe_relD:
  assumes "getSafeRelPath workspace path = Inr rel"
  obtains cs where "rel = path_of False cs" "list_all proper cs" "''..'' \<notin> set cs" "lexically_inside workspace path"
proof -
  have w: "workspace \<noteq> []" using assms by (auto simp: getSafeRelPath_def)
  show ?thesis
  proof (cases "IsAbs path")
    case True
    with assms w safe_rel_absolute obtain cs where
      cs: "IsAbs workspace" "clean_comps path = clean_comps workspace @ cs" "rel = path_of False cs" by blast
    with abs_comps [OF True] True show ?thesis by (intro that [of cs]) (auto simp: lexically_inside_def)
  next
    case False
    with assms w have c: "clean_comps path = [] \<or> hd (clean_comps path) \<noteq> ''..''" "rel = path_of False (clean_comps path)"
      by (auto simp: safe_rel_relative split: if_splits)
    have "list_all proper (clean_comps path)" by (rule normal_proper [OF clean_comps_normal])
    moreover have "IsLocal (Clean path)" using c False by (simp add: IsLocal_iff)
    ultimately show ?thesis using c False that [of "clean_comps path"] IsLocal_no_dots [of "Clean path"]
      by (simp add: lexically_inside_def)
  qed
qed

lemma tool_writes:
  assumes "tool \<in> {ReadFileTool_Execute, WriteFileTool_Execute, ListDirTool_Execute, EditFileTool_Execute, AppendFileTool_Execute}"
    and "tool fs args d = (d', r)"
  shows "d' = d \<or> (\<exists>path data. fst (fs_WriteFile fs path data d) = d')"
  using assms
  by (auto simp: ReadFileTool_Execute_def WriteFileTool_Execute_def ListDirTool_Execute_def EditFileTool_Execute_def
      AppendFileTool_Execute_def editFile_def appendFile_def Let_def split: option.splits sum.splits prod.splits if_splits
      intro: fst_conv) (metis fst_conv)+

text \<open>(C17) 
  The sandbox holds, whatever symbolic links the disk has and whichever system calls fail: a file tool
  of a restricted agent changes nodes strictly below the directory that the workspace denotes and nowhere
  else, and what it reads is the content of a file in or below that directory, the one that the kernel's
  resolution of the checked path from there would give.
\<close>

theorem sandbox_contained:
  assumes "tool \<in> {ReadFileTool_Execute, WriteFileTool_Execute, ListDirTool_Execute, EditFileTool_Execute, AppendFileTool_Execute}"
    and "tool (tool_fs env workspace True) args d = (d', r)"
  shows "(\<forall>q. node_at d' q \<noteq> node_at d q \<longrightarrow>
            (\<exists>root. locate Existing (host_place env workspace) d workspace = Inr root \<and> strict_prefix root q)) \<and>
         (\<forall>path content. fs_ReadFile (tool_fs env workspace True) path d = Inr content \<longrightarrow>
            (\<exists>root rel q. locate Existing (host_place env workspace) d workspace = Inr root \<and>
               getSafeRelPath workspace path = Inr rel \<and> prefix root q \<and> kernel_path d root (comps rel) q \<and>
               node_at d q = Some (FileNode content)))"
proof -
  let ?fs = "tool_fs env workspace True"
  have fs: "fs_WriteFile ?fs = sandboxFs_WriteFile env workspace" "fs_ReadFile ?fs = sandboxFs_ReadFile env workspace"
    by (simp_all add: tool_fs_def sandboxFs_def)
  have "d' = d \<or> (\<exists>root. locate Existing (host_place env workspace) d workspace = Inr root \<and> same_outside root d d')"
    using tool_writes [OF assms] unfolding fs by (metis prod.collapse sandbox_write_outside)
  then have "\<forall>q. node_at d' q \<noteq> node_at d q \<longrightarrow>
      (\<exists>root. locate Existing (host_place env workspace) d workspace = Inr root \<and> strict_prefix root q)"
    by (auto simp: same_outside_def)
  then show ?thesis unfolding fs using sandbox_read_below by blast
qed

definition sample_fs_env :: fs_env where
  "sample_fs_env = \<lparr>fe_wd = [], fe_nanos = 7, fe_open = None, fe_mkdir = None, fe_create = None, fe_write = None, fe_rename = None\<rparr>"

definition sample_disk :: disk where
  "sample_disk = [([''w''], DirNode), ([''w'', ''a''], FileNode ''one two''), ([''w'', ''out''], LinkNode ''/etc''),
     ([''etc''], DirNode), ([''etc'', ''passwd''], FileNode ''secret'')]"

definition sample_write :: "string \<Rightarrow> disk \<times> ToolResult" where
  "sample_write path = WriteFileTool_Execute (tool_fs sample_fs_env ''/w'' True)
     (Some [(''path'', JStr path), (''content'', JStr ''new'')]) sample_disk"

theorem sandbox_contained_witness:
  "node_at (fst (sample_write ''b/c'')) [''w'', ''b'', ''c''] = Some (FileNode ''new'') \<and>
   node_at (fst (sample_write ''b/c'')) [''etc'', ''passwd''] = Some (FileNode ''secret'') \<and>
   node_at (fst (sample_write ''out/passwd'')) [''etc'', ''passwd''] = Some (FileNode ''secret'')"
proof -
  have root: "locate Existing (host_place sample_fs_env ''/w'') sample_disk ''/w'' = Inr [''w'']" by code_simp
  have "\<forall>q. node_at (fst (sample_write path)) q \<noteq> node_at sample_disk q \<longrightarrow> strict_prefix [''w''] q" for path
    using sandbox_contained [of WriteFileTool_Execute sample_fs_env "''/w''" _ sample_disk "fst (sample_write path)"
        "snd (sample_write path)"] root
    unfolding sample_write_def by fastforce
  moreover have "\<not> strict_prefix [''w''] [''etc'', ''passwd'']" by (simp add: strict_prefix_def)
  moreover have "node_at sample_disk [''etc'', ''passwd''] = Some (FileNode ''secret'')" by code_simp
  moreover have "node_at (fst (sample_write ''b/c'')) [''w'', ''b'', ''c''] = Some (FileNode ''new'')" by code_simp
  ultimately show ?thesis by metis
qed

text \<open>
  A path is refused exactly when it leaves the workspace by its text: a relative path that climbs above its
  start, an absolute path outside the workspace directory, or any absolute path when the workspace
  itself is given relatively. A refused call has no effect and reads nothing.
\<close>

theorem sandbox_refuses_escapes:
  assumes "workspace \<noteq> []"
  shows "((\<exists>rel. getSafeRelPath workspace path = Inr rel) \<longleftrightarrow> lexically_inside workspace path) \<and>
    (\<not> lexically_inside workspace path \<longrightarrow>
      fst (sandboxFs_WriteFile env workspace path data d) = d \<and>
      snd (sandboxFs_WriteFile env workspace path data d) \<noteq> None \<and>
      (\<exists>e. sandboxFs_ReadFile env workspace path d = Inl e) \<and> (\<exists>e. sandboxFs_ReadDir env workspace path d = Inl e))"
proof (rule conjI)
  show iff: "(\<exists>rel. getSafeRelPath workspace path = Inr rel) \<longleftrightarrow> lexically_inside workspace path"
  proof (cases "IsAbs path")
    case True
    then show ?thesis using safe_rel_absolute [OF assms True] by (auto simp: lexically_inside_def prefix_def)
  next
    case False
    then show ?thesis using safe_rel_relative [OF assms False] by (simp add: lexically_inside_def)
  qed
  have "\<exists>e. sandbox_enter env workspace path d = Inl e" if "\<not> lexically_inside workspace path"
    using that iff by (auto simp: sandbox_enter_def assms split: sum.split)
  then show "\<not> lexically_inside workspace path \<longrightarrow> fst (sandboxFs_WriteFile env workspace path data d) = d \<and>
      snd (sandboxFs_WriteFile env workspace path data d) \<noteq> None \<and>
      (\<exists>e. sandboxFs_ReadFile env workspace path d = Inl e) \<and> (\<exists>e. sandboxFs_ReadDir env workspace path d = Inl e)"
    by (auto simp: sandboxFs_WriteFile_def sandboxFs_ReadFile_def sandboxFs_ReadDir_def)
qed

theorem sandbox_refuses_escapes_witness:
  "fst (sandboxFs_WriteFile sample_fs_env ''/w'' ''a/../../etc/passwd'' ''x'' sample_disk) = sample_disk \<and>
   (\<exists>e. sandboxFs_ReadFile sample_fs_env ''/w'' ''/etc/passwd'' sample_disk = Inl e) \<and>
   (\<exists>rel. getSafeRelPath ''/w'' ''/w/./a'' = Inr rel)"
proof -
  have "\<not> lexically_inside ''/w'' ''a/../../etc/passwd''" "\<not> lexically_inside ''/w'' ''/etc/passwd''"
    "lexically_inside ''/w'' ''/w/./a''" by code_simp+
  then show ?thesis
    using sandbox_refuses_escapes [of "''/w''" "''a/../../etc/passwd''" sample_fs_env "''x''" sample_disk]
      sandbox_refuses_escapes [of "''/w''" "''/etc/passwd''" sample_fs_env "''x''" sample_disk]
      sandbox_refuses_escapes [of "''/w''" "''/w/./a''"] by simp
qed

end
