(* ===== verification/File_Tools.thy ===== *)
theory File_Tools
  imports Files
begin

text \<open>
  What the file tools guarantee. Below a directory without symbolic links a path denotes the node of its
  name, and the write protocol of \<^verbatim>\<open>filesystem.go\<close> replaces that node or leaves it alone; this is the
  contract \<open>file_store\<close>, which the sandbox, the host and the file system of every tool provide. The effects of
  \<^verbatim>\<open>edit.go\<close> follow from the contract alone. The last part is the validation of working directories.
\<close>

subsection \<open>Reading what was written\<close>

text \<open>Below a directory without symbolic links a path without dots denotes the node of that name.\<close>

definition no_links :: "string list \<Rightarrow> disk \<Rightarrow> bool" where
  "no_links base d \<longleftrightarrow> (\<forall>q t. prefix base q \<longrightarrow> node_at d q \<noteq> Some (LinkNode t))"

lemma no_linksD: "no_links base d \<Longrightarrow> node_at d (base @ q) \<noteq> Some (LinkNode t)"
  by (simp add: no_links_def)

text \<open>\<open>straight d p cs\<close>: no node on the way from \<open>p\<close> along \<open>cs\<close> is a link; a walk can then only end where its text says.\<close>

definition straight :: "disk \<Rightarrow> string list \<Rightarrow> string list \<Rightarrow> bool" where
  "straight d p cs \<longleftrightarrow> (\<forall>q t. prefix q cs \<longrightarrow> node_at d (p @ q) \<noteq> Some (LinkNode t))"

lemma no_links_straight:
  assumes "no_links base d"
  shows "straight d (base @ cur) cs" "straight d base cs"
  using assms by (simp_all add: straight_def no_links_def)

lemma straight_Cons:
  assumes "straight d p (c # cs)"
  shows "straight d (p @ [c]) cs" "node_at d (p @ [c]) \<noteq> Some (LinkNode t)"
proof -
  have "node_at d (p @ c # q) \<noteq> Some (LinkNode t)" if "prefix q cs" for q t
    using assms that unfolding straight_def by (metis Cons_prefix_Cons)
  then show "straight d (p @ [c]) cs" "node_at d (p @ [c]) \<noteq> Some (LinkNode t)"
    by (auto simp: straight_def)
qed

lemma walk_straight:
  "straight d (base @ cur) cs \<Longrightarrow> ''..'' \<notin> set cs \<Longrightarrow> walk m confined d base n cur cs = Inr p \<Longrightarrow> p = cur @ cs"
proof (induction cs arbitrary: cur)
  case (Cons c cs)
  note s = straight_Cons [OF Cons.prems(1)]
  have c: "c \<noteq> ''..''" using Cons.prems by auto
  note k = walk_name [OF c, where cs = cs and m = m and d = d and base = base and cur = cur]
  show ?case
  proof (cases "cs = [] \<and> m = NoFollow")
    case True
    then show ?thesis using k(1) Cons.prems by simp
  next
    case False
    note k = k(2-5) [OF False]
    show ?thesis
    proof (cases "node_at d (base @ cur @ [c])")
      case None
      then show ?thesis using k(1) Cons.prems by (simp split: if_splits)
    next
      case (Some nd)
      then show ?thesis
      proof (cases nd)
        case (FileNode s)
        then show ?thesis using k(3) Some Cons.prems by (simp split: if_splits)
      next
        case DirNode
        then show ?thesis using k(2) Some Cons.IH [of "cur @ [c]"] Cons.prems s(1) by simp
      next
        case (LinkNode t)
        then show ?thesis using Some s(2) [of t] by simp
      qed
    qed
  qed
qed simp

lemmas walk_plain = walk_straight [OF no_links_straight(1)]

text \<open>\<open>dirs base cs d\<close>: every proper prefix of \<open>cs\<close> names a directory below \<open>base\<close>.\<close>

definition dirs :: "string list \<Rightarrow> string list \<Rightarrow> disk \<Rightarrow> bool" where
  "dirs base cs d \<longleftrightarrow> (\<forall>k. 0 < k \<and> k < length cs \<longrightarrow> node_at d (base @ take k cs) = Some DirNode)"

lemma dirs_Cons:
  "dirs base (c # cs) d \<longleftrightarrow> cs = [] \<or> (node_at d (base @ [c]) = Some DirNode \<and> dirs (base @ [c]) cs d)"
proof
  assume l: "dirs base (c # cs) d"
  have "cs \<noteq> [] \<Longrightarrow> node_at d (base @ [c]) = Some DirNode" using l [unfolded dirs_def, rule_format, of 1] by simp
  moreover have "node_at d ((base @ [c]) @ take k cs) = Some DirNode" if "0 < k \<and> k < length cs" for k
    using l [unfolded dirs_def, rule_format, of "Suc k"] that by simp
  ultimately show "cs = [] \<or> (node_at d (base @ [c]) = Some DirNode \<and> dirs (base @ [c]) cs d)"
    unfolding dirs_def by blast
next
  assume r: "cs = [] \<or> (node_at d (base @ [c]) = Some DirNode \<and> dirs (base @ [c]) cs d)"
  show "dirs base (c # cs) d"
    unfolding dirs_def
  proof (intro allI impI)
    fix k assume k: "0 < k \<and> k < length (c # cs)"
    then obtain j where j: "k = Suc j" by (cases k) auto
    show "node_at d (base @ take k (c # cs)) = Some DirNode"
      using r k j by (cases "j = 0") (auto simp: dirs_def)
  qed
qed

lemma walk_file_iff:
  assumes "no_links base d" "''..'' \<notin> set cs" "cs \<noteq> []"
  shows "(\<exists>p. walk Existing confined d base n cur cs = Inr p \<and> node_at d (base @ p) = Some (FileNode s)) \<longleftrightarrow>
    dirs (base @ cur) cs d \<and> node_at d (base @ cur @ cs) = Some (FileNode s)"
  using assms
proof (induction cs arbitrary: cur)
  case (Cons c cs)
  have c: "c \<noteq> ''..''" using Cons.prems by auto
  have go: "\<not> (cs = [] \<and> Existing = NoFollow)" by simp
  note k = walk_name(2-5) [OF c go, where d = d and base = base and cur = cur]
  show ?case
  proof (cases "node_at d (base @ cur @ [c])")
    case None
    then show ?thesis using k(1) by (cases "cs = []") (simp_all add: dirs_Cons)
  next
    case (Some nd)
    show ?thesis
    proof (cases nd)
      case (FileNode u)
      then show ?thesis using k(3) Some by (cases "cs = []") (auto simp: dirs_Cons)
    next
      case DirNode
      show ?thesis
      proof (cases "cs = []")
        case True
        then show ?thesis using k(2) Some DirNode by simp
      next
        case False
        then show ?thesis using k(2) Some DirNode Cons.IH [of "cur @ [c]"] Cons.prems by (simp add: dirs_Cons)
      qed
    next
      case (LinkNode t)
      then show ?thesis using Some no_linksD [OF Cons.prems(1), of "cur @ [c]" t] by simp
    qed
  qed
qed simp

text \<open>Creating directories only fills gaps.\<close>

definition fills :: "disk \<Rightarrow> disk \<Rightarrow> bool" where
  "fills d d' \<longleftrightarrow> (\<forall>q. node_at d' q = node_at d q \<or> node_at d q = None \<and> node_at d' q = Some DirNode)"

lemma fills_refl [simp]: "fills d d"
  by (simp add: fills_def)

lemma fills_kept: "fills d d' \<Longrightarrow> node_at d q = Some n \<Longrightarrow> node_at d' q = Some n"
  unfolding fills_def by (metis option.distinct(1))

lemma fills_links: "fills d d' \<Longrightarrow> no_links base d \<Longrightarrow> no_links base d'"
  unfolding fills_def no_links_def by (metis node.distinct(5) option.inject)

lemma fills_straight: "fills d d' \<Longrightarrow> straight d p cs \<Longrightarrow> straight d' p cs"
  unfolding fills_def straight_def by (metis node.distinct(5) option.inject)

lemma mkdir_walk_straight:
  assumes "straight d (base @ cur) cs" "''..'' \<notin> set cs" "mkdir_walk confined d base n cur cs = (d', e)"
  shows "fills d d' \<and> (\<forall>q. node_at d' q \<noteq> node_at d q \<longrightarrow> prefix q (base @ cur @ cs)) \<and>
    (e = None \<longrightarrow> dirs (base @ cur) (cs @ [x]) d')"
  using assms
proof (induction cs arbitrary: d cur)
  case Nil
  then show ?case by (simp add: dirs_Cons)
next
  case (Cons c cs)
  have c: "c \<noteq> ''..''" using Cons.prems by auto
  note s = straight_Cons [OF Cons.prems(1)]
  note step = mkdir_walk.simps(2) [of confined d base n cur c cs]
  show ?case
  proof (cases "node_at d (base @ cur @ [c])")
    case None
    let ?d = "put_node (base @ cur @ [c]) DirNode d"
    have f: "fills d ?d" using None by (auto simp: fills_def)
    have st: "straight ?d (base @ cur @ [c]) cs" using fills_straight [OF f] s(1) by simp
    have "mkdir_walk confined ?d base n (cur @ [c]) cs = (d', e)" using step c None Cons.prems by simp
    from Cons.IH [of ?d "cur @ [c]", OF _ _ this] st Cons.prems
    have ih: "fills ?d d'" "\<forall>q. node_at d' q \<noteq> node_at ?d q \<longrightarrow> prefix q (base @ cur @ c # cs)"
      "e = None \<longrightarrow> dirs (base @ cur @ [c]) (cs @ [x]) d'" by simp_all
    then have "fills d d'" using f unfolding fills_def by metis
    moreover have "node_at d' (base @ cur @ [c]) = Some DirNode" using fills_kept [OF ih(1)] by simp
    moreover have "prefix q (base @ cur @ c # cs)" if "node_at d' q \<noteq> node_at d q" for q
      using ih(2) that by (cases "q = base @ cur @ [c]") auto
    ultimately show ?thesis using ih(3) by (simp add: dirs_Cons)
  next
    case (Some nd)
    show ?thesis
    proof (cases nd)
      case (FileNode s)
      then have "d' = d" "e \<noteq> None" using step c Some Cons.prems by auto
      then show ?thesis by auto
    next
      case DirNode
      then have "mkdir_walk confined d base n (cur @ [c]) cs = (d', e)" using step c Some Cons.prems by simp
      from Cons.IH [of d "cur @ [c]", OF _ _ this] s(1) Cons.prems
      have ih: "fills d d'" "\<forall>q. node_at d' q \<noteq> node_at d q \<longrightarrow> prefix q (base @ cur @ c # cs)"
        "e = None \<longrightarrow> dirs (base @ cur @ [c]) (cs @ [x]) d'" by simp_all
      then show ?thesis using fills_kept [OF ih(1) Some] DirNode by (simp add: dirs_Cons)
    next
      case (LinkNode t)
      then show ?thesis using Some s(2) [of t] by simp
    qed
  qed
qed

lemma mkdir_walk_plain:
  "no_links base d \<Longrightarrow> ''..'' \<notin> set cs \<Longrightarrow> mkdir_walk confined d base n cur cs = (d', e) \<Longrightarrow>
     fills d d' \<and> (e = None \<longrightarrow> dirs (base @ cur) (cs @ [x]) d')"
  using mkdir_walk_straight [OF no_links_straight(1)] by blast

lemma locate_straight:
  "straight d (pl_base pl) (comps name) \<Longrightarrow> pl_start pl = [] \<Longrightarrow> ''..'' \<notin> set (comps name) \<Longrightarrow>
     locate m pl d name = Inr q \<Longrightarrow> q = pl_base pl @ comps name"
  using walk_straight [of d "pl_base pl" "[]" "comps name" m "pl_confined pl" "pl_links pl"]
  by (auto simp: locate_def split: if_splits sum.splits)

lemmas locate_plain = locate_straight [OF no_links_straight(2)]

lemma sys_read_plain:
  assumes "no_links (pl_base pl) d" "pl_start pl = []" "''..'' \<notin> set (comps name)" "comps name \<noteq> []" "fe_open env = None"
  shows "sys_read env pl name d = Inr s \<longleftrightarrow>
    dirs (pl_base pl) (comps name) d \<and> node_at d (pl_base pl @ comps name) = Some (FileNode s)"
proof -
  have "name \<noteq> []" using assms(4) by auto
  then have "sys_read env pl name d = Inr s \<longleftrightarrow>
      (\<exists>p. walk Existing (pl_confined pl) d (pl_base pl) (pl_links pl) [] (comps name) = Inr p \<and>
           node_at d (pl_base pl @ p) = Some (FileNode s))"
    using assms(2,5) by (auto simp: sys_read_def locate_def split: sum.split option.split node.split)
  then show ?thesis using walk_file_iff [OF assms(1,3,4), of "pl_confined pl" "pl_links pl" "[]" s] by simp
qed

text \<open>\<open>aside p d d'\<close>: the disks differ at most at \<open>p\<close>, where no link appears.\<close>

definition aside :: "string list \<Rightarrow> disk \<Rightarrow> disk \<Rightarrow> bool" where
  "aside p d d' \<longleftrightarrow> (\<forall>q. q \<noteq> p \<longrightarrow> node_at d' q = node_at d q) \<and>
     (node_at d' p = node_at d p \<or> (\<forall>t. node_at d' p \<noteq> Some (LinkNode t)))"

lemma aside_refl [simp]: "aside p d d"
  by (simp add: aside_def)

lemma aside_trans: "aside p d d1 \<Longrightarrow> aside p d1 d2 \<Longrightarrow> aside p d d2"
  unfolding aside_def by metis

lemma aside_links: "aside p d d' \<Longrightarrow> no_links base d \<Longrightarrow> no_links base d'"
  unfolding aside_def no_links_def by metis

lemma dirs_aside: "aside (base @ ds @ [t]) d d' \<Longrightarrow> dirs base (ds @ [c]) d' = dirs base (ds @ [c]) d"
proof -
  assume a: "aside (base @ ds @ [t]) d d'"
  have "base @ take k (ds @ [c]) \<noteq> base @ ds @ [t]" if "k < length (ds @ [c])" for k
  proof
    assume "base @ take k (ds @ [c]) = base @ ds @ [t]"
    then have "length (take k (ds @ [c])) = length (ds @ [t])" by simp
    with that show False by simp
  qed
  with a show ?thesis unfolding dirs_def aside_def by metis
qed

lemma sys_write_straight:
  assumes "straight d (pl_base pl) (comps name)" "pl_start pl = []" "comps name = ds @ [t]" "''..'' \<notin> set (ds @ [t])"
    and "sys_write env pl name data d = (d', e)"
  shows "aside (pl_base pl @ ds @ [t]) d d' \<and> (e = None \<longrightarrow> node_at d' (pl_base pl @ ds @ [t]) = Some (FileNode data))"
proof (cases "locate Creating pl d name")
  case (Inr q)
  then have "q = pl_base pl @ ds @ [t]" using locate_straight [OF assms(1,2)] assms(3,4) by auto
  then show ?thesis
    using assms(5) Inr by (auto simp: sys_write_def aside_def split: option.splits if_splits prod.splits)
qed (use assms(5) in \<open>auto simp: sys_write_def split: option.splits\<close>)

lemmas sys_write_plain = sys_write_straight [OF no_links_straight(2)]

lemma sys_remove_straight:
  assumes "straight d (pl_base pl) (comps name)" "pl_start pl = []" "comps name = ds @ [t]" "''..'' \<notin> set (ds @ [t])"
  shows "aside (pl_base pl @ ds @ [t]) d (sys_remove pl name d)"
proof (cases "locate NoFollow pl d name")
  case (Inr q)
  then have "q = pl_base pl @ ds @ [t]" using locate_straight [OF assms(1,2)] assms(3,4) by auto
  then show ?thesis using Inr by (auto simp: sys_remove_def aside_def)
qed (simp add: sys_remove_def)

lemmas sys_remove_plain = sys_remove_straight [OF no_links_straight(2)]

lemma sys_rename_plain:
  assumes "no_links (pl_base pl) d" "pl_start pl = []" "comps old = ds @ [t]" "''..'' \<notin> set (ds @ [t])"
    and "comps new = ds @ [c]" "''..'' \<notin> set (ds @ [c])" "t \<noteq> c" "sys_rename env pl old new d = (d', e)"
  shows "(e \<noteq> None \<longrightarrow> d' = d) \<and>
    (e = None \<longrightarrow> node_at d' (pl_base pl @ ds @ [c]) = node_at d (pl_base pl @ ds @ [t]) \<and>
       no_links (pl_base pl) d' \<and> dirs (pl_base pl) (ds @ [c]) d' = dirs (pl_base pl) (ds @ [c]) d)"
proof (cases e)
  case None
  then obtain p q n where pq: "locate NoFollow pl d old = Inr p" "locate NoFollow pl d new = Inr q" "node_at d p = Some n"
    "d' = put_node q n (drop_node p d)"
    using assms(8) by (auto simp: sys_rename_def split: sum.splits option.splits if_splits)
  have pq': "p = pl_base pl @ ds @ [t]" "q = pl_base pl @ ds @ [c]"
    using locate_plain [OF assms(1,2) _ pq(1)] locate_plain [OF assms(1,2) _ pq(2)] assms(3-6) by simp_all
  have nl: "\<forall>u. n \<noteq> LinkNode u" using no_linksD [OF assms(1), of "ds @ [t]"] pq(3) pq' by auto
  have a1: "aside p d (drop_node p d)" by (simp add: aside_def)
  have a2: "aside q (drop_node p d) d'" using pq(4) nl by (simp add: aside_def)
  have "no_links (pl_base pl) d'" by (rule aside_links [OF a2 aside_links [OF a1 assms(1)]])
  moreover have "dirs (pl_base pl) (ds @ [c]) d' = dirs (pl_base pl) (ds @ [c]) d"
    using dirs_aside [OF a1 [unfolded pq'], of c] dirs_aside [OF a2 [unfolded pq'(2)], of c] pq' by simp
  ultimately show ?thesis using None pq pq' by simp
next
  case (Some en)
  then show ?thesis using assms(8) by (auto simp: sys_rename_def split: sum.splits option.splits if_splits)
qed

lemma itoa_slash: "slash \<notin> set (itoa n)"
  by (rule itoa_notin) (simp_all add: is_digit_def less_eq_char_def)

lemma tmp_of_comps:
  assumes "path = path_of rooted (ds @ [c])" "list_all proper (ds @ [c])" "''..'' \<notin> set (ds @ [c])"
  obtains t where "comps (tmp_of env path) = ds @ [t]" "t \<noteq> c" "''..'' \<notin> set (ds @ [t])"
proof -
  let ?s = "''.'' @ itoa (fe_nanos env) @ ''.tmp''"
  have s: "slash \<notin> set ?s" using itoa_slash [of "fe_nanos env"] by auto
  have t: "proper (c @ ?s)" using assms(2) s by (auto simp: proper_def)
  have "tmp_of env path = path_of rooted (ds @ [c @ ?s])" unfolding tmp_of_def assms(1) by (rule path_of_suffix)
  then have "comps (tmp_of env path) = ds @ [c @ ?s]" using t assms(2) path_of_comps by simp
  moreover have "c @ ?s \<noteq> ''..''"
  proof
    assume "c @ ?s = ''..''"
    then have "length (c @ ?s) = 2" by simp
    then show False by simp
  qed
  ultimately show ?thesis using that [of "c @ ?s"] assms(3) by auto
qed

lemma replace_file_plain:
  assumes pl: "pl_start pl = []" "pl_base dpl = pl_base pl" "pl_start dpl = []" "no_links (pl_base pl) d"
    and path: "path = path_of rooted (ds @ [c])" "list_all proper (ds @ [c])" "''..'' \<notin> set (ds @ [c])"
    and mk: "mk \<or> ds = []" and r: "replace_file env mk dpl pl path data d = (d', e)"
  shows "no_links (pl_base pl) d' \<and>
    (e = None \<longrightarrow> dirs (pl_base pl) (ds @ [c]) d' \<and> node_at d' (pl_base pl @ ds @ [c]) = Some (FileNode data)) \<and>
    (e \<noteq> None \<longrightarrow> (\<forall>s. dirs (pl_base pl) (ds @ [c]) d \<and> node_at d (pl_base pl @ ds @ [c]) = Some (FileNode s) \<longrightarrow>
       dirs (pl_base pl) (ds @ [c]) d' \<and> node_at d' (pl_base pl @ ds @ [c]) = Some (FileNode s)))"
proof -
  let ?base = "pl_base pl"
  obtain t where t: "comps (tmp_of env path) = ds @ [t]" "t \<noteq> c" "''..'' \<notin> set (ds @ [t])"
    by (rule tmp_of_comps [OF path])
  have cp: "comps path = ds @ [c]" using path path_of_comps by simp
  have cd: "comps (Dir path) = ds" using Dir_path_of [OF path(2,3)] path path_of_comps [of ds] by simp
  obtain d1 e1 where 1: "(if mk then sys_mkdir_all env dpl (Dir path) d else (d, None)) = (d1, e1)" by force
  obtain d2 e2 where 2: "sys_write env pl (tmp_of env path) data d1 = (d2, e2)" by force
  obtain d3 e3 where 3: "sys_rename env pl (tmp_of env path) path d2 = (d3, e3)" by force
  note mkd = 1
  have 1: "fills d d1 \<and> (e1 = None \<longrightarrow> dirs ?base (ds @ [c]) d1)"
    using 1 mk mkdir_walk_plain [of ?base d ds "pl_confined dpl" "pl_links dpl" "[]" d1 e1 c] pl path(3) cd
    by (auto simp: sys_mkdir_all_def dirs_Cons split: if_splits option.splits)
  show ?thesis
  proof (cases e1)
    case (Some en)
    then have "d' = d1" "e \<noteq> None" using r mkd by (auto simp: replace_file_def)
    then show ?thesis using 1 fills_links [OF _ pl(4), of d1] fills_kept [of d d1] by (auto simp: dirs_def)
  next
    case None
    have l1: "no_links ?base d1" using 1 fills_links pl(4) by blast
    note w = sys_write_plain [OF l1 pl(1) t(1,3) 2]
    have l2: "no_links ?base d2" using w aside_links l1 by blast
    note rn = sys_rename_plain [OF l2 pl(1) t(1,3) cp path(3) t(2) 3]
    have keep: "no_links ?base d' \<and> (\<forall>s. dirs ?base (ds @ [c]) d \<and> node_at d (?base @ ds @ [c]) = Some (FileNode s) \<longrightarrow>
        dirs ?base (ds @ [c]) d' \<and> node_at d' (?base @ ds @ [c]) = Some (FileNode s))"
      if "aside (?base @ ds @ [t]) d1 d'"
      using aside_links [OF that l1] dirs_aside [OF that, of c] that t(2) 1 None fills_kept [of d d1]
      by (auto simp: aside_def)
    have rem: "aside (?base @ ds @ [t]) d2 (sys_remove pl (tmp_of env path) d2)"
      by (rule sys_remove_plain [OF l2 pl(1) t(1,3)])
    show ?thesis
    proof (cases e2)
      case (Some be)
      then have "d' = sys_remove pl (tmp_of env path) d2" "e \<noteq> None"
        using r mkd None 2 by (auto simp: replace_file_def split: prod.splits)
      then show ?thesis using keep aside_trans [OF _ rem] w by auto
    next
      case e2: None
      show ?thesis
      proof (cases e3)
        case (Some en)
        then have "d' = sys_remove pl (tmp_of env path) d2" "e \<noteq> None"
          using r mkd None 2 e2 3 rn by (auto simp: replace_file_def split: prod.splits)
        then show ?thesis using keep aside_trans [OF _ rem] w by auto
      next
        case e3: None
        then have "d' = d3" "e = None" using r mkd None 2 e2 3 by (auto simp: replace_file_def)
        then show ?thesis using rn e3 w e2 1 None dirs_aside [of ?base ds t d1 d2 c] by simp
      qed
    qed
  qed
qed

subsection \<open>The contract of a file system\<close>

text \<open>
  \<open>ok path d\<close> is the state of the world in which the contract holds for a path. A successful write can be
  read back; a failed one leaves a readable file as it was.
\<close>

locale file_store =
  fixes fs :: "'d fileSystem" and ok :: "string \<Rightarrow> 'd \<Rightarrow> bool"
  assumes read_written: "ok path d \<Longrightarrow> fs_WriteFile fs path data d = (d', None) \<Longrightarrow> fs_ReadFile fs path d' = Inr data"
    and read_kept: "ok path d \<Longrightarrow> fs_WriteFile fs path data d = (d', Some e) \<Longrightarrow>
      fs_ReadFile fs path d = Inr s \<Longrightarrow> fs_ReadFile fs path d' = Inr s"
begin

lemma edit_effect:
  assumes "ok path d" "editFile fs path oldText newText d = (d', e)"
  shows "(e = None \<longrightarrow> (\<exists>content result. fs_ReadFile fs path d = Inr content \<and>
            replaceEditContent content oldText newText = Inr result \<and> fs_ReadFile fs path d' = Inr result)) \<and>
         (e \<noteq> None \<longrightarrow> (\<forall>s. fs_ReadFile fs path d = Inr s \<longrightarrow> fs_ReadFile fs path d' = Inr s))"
proof (cases "fs_ReadFile fs path d")
  case (Inl err)
  then show ?thesis using assms by (auto simp: editFile_def)
next
  case (Inr content)
  show ?thesis
  proof (cases "replaceEditContent content oldText newText")
    case (Inl err)
    then show ?thesis using assms Inr by (auto simp: editFile_def)
  next
    case r: (Inr result)
    then have w: "fs_WriteFile fs path result d = (d', e)" using assms Inr by (simp add: editFile_def)
    show ?thesis
    proof (cases e)
      case None
      then show ?thesis using w Inr r read_written [OF assms(1)] by simp
    next
      case (Some err)
      then show ?thesis using w read_kept [OF assms(1)] by simp
    qed
  qed
qed

lemma append_effect:
  assumes "ok path d" "appendFile fs path appended d = (d', e)"
  shows "(e = None \<longrightarrow> fs_ReadFile fs path d' =
            Inr ((case fs_ReadFile fs path d of Inr content \<Rightarrow> content | Inl _ \<Rightarrow> []) @ appended)) \<and>
         (e \<noteq> None \<longrightarrow> (\<forall>s. fs_ReadFile fs path d = Inr s \<longrightarrow> fs_ReadFile fs path d' = Inr s))"
proof (cases "fs_ReadFile fs path d")
  case (Inl err)
  then show ?thesis using assms read_written [OF assms(1), of appended d'] by (auto simp: appendFile_def split: if_splits)
next
  case (Inr content)
  then have w: "fs_WriteFile fs path (content @ appended) d = (d', e)" using assms by (simp add: appendFile_def)
  show ?thesis
  proof (cases e)
    case None
    then show ?thesis using w Inr read_written [OF assms(1)] by simp
  next
    case (Some err)
    then show ?thesis using w read_kept [OF assms(1)] by simp
  qed
qed

end

lemma walk_dirs:
  "dirs (base @ cur) (cs @ [x]) d \<Longrightarrow> ''..'' \<notin> set cs \<Longrightarrow> m \<noteq> NoFollow \<Longrightarrow> walk m confined d base n cur cs = Inr (cur @ cs)"
proof (induction cs arbitrary: cur)
  case (Cons c cs)
  have c: "c \<noteq> ''..''" "\<not> (cs = [] \<and> m = NoFollow)" using Cons.prems by auto
  have "node_at d (base @ cur @ [c]) = Some DirNode" using Cons.prems by (simp add: dirs_Cons)
  from walk_name(3) [OF c this] show ?case using Cons.IH [of "cur @ [c]"] Cons.prems by (simp add: dirs_Cons)
qed simp

text \<open>
  The sandbox keeps the contract when its workspace is an absolute path without dots, a directory reached
  through directories, with no symbolic link inside; and reading does not fail by itself.
\<close>

definition sandbox_ok :: "fs_env \<Rightarrow> string \<Rightarrow> string \<Rightarrow> disk \<Rightarrow> bool" where
  "sandbox_ok env workspace path d \<longleftrightarrow> fe_open env = None \<and> IsAbs workspace \<and> comps workspace \<noteq> [] \<and>
     ''..'' \<notin> set (comps workspace) \<and> dirs [] (comps workspace @ [[]]) d \<and> no_links (comps workspace) d"

lemma sandbox_ok_enter:
  assumes "sandbox_ok env workspace path d"
  shows "sandbox_enter env workspace path d =
    (case getSafeRelPath workspace path of Inl e \<Rightarrow> Inl e | Inr rel \<Rightarrow> Inr (comps workspace, rel))"
    and "node_at d (comps workspace) = Some DirNode"
proof -
  let ?root = "comps workspace"
  have ok: "IsAbs workspace" "?root \<noteq> []" "''..'' \<notin> set ?root" "dirs [] (?root @ [[]]) d"
    using assms by (simp_all add: sandbox_ok_def)
  show dir: "node_at d ?root = Some DirNode"
    using ok(4) [unfolded dirs_def, rule_format, of "length ?root"] ok(2) by simp
  have "workspace \<noteq> []" using ok(2) by auto
  moreover have "walk Existing False d [] 40 [] ?root = Inr ?root" using walk_dirs [of "[]" "[]" ?root "[]" d] ok by simp
  ultimately have "locate Existing (host_place env workspace) d workspace = Inr ?root"
    using ok(1) by (simp add: locate_def host_place_def)
  then show "sandbox_enter env workspace path d =
      (case getSafeRelPath workspace path of Inl e \<Rightarrow> Inl e | Inr rel \<Rightarrow> Inr (?root, rel))"
    using \<open>workspace \<noteq> []\<close> dir by (simp add: sandbox_enter_def is_dir_def split: sum.split)
qed

lemma sandbox_ok_after:
  assumes "sandbox_ok env workspace path d" "same_outside (comps workspace) d d'" "no_links (comps workspace) d'"
  shows "sandbox_ok env workspace path d'"
proof -
  have "\<not> strict_prefix (comps workspace) (take k (comps workspace @ [[]]))" if "k < length (comps workspace @ [[]])" for k
  proof
    assume "strict_prefix (comps workspace) (take k (comps workspace @ [[]]))"
    then have "length (comps workspace) < length (take k (comps workspace @ [[]]))" by (rule prefix_length_less)
    with that show False by simp
  qed
  then have "dirs [] (comps workspace @ [[]]) d'"
    using assms(1,2) unfolding sandbox_ok_def dirs_def same_outside_def by (metis append_Nil)
  then show ?thesis using assms by (simp add: sandbox_ok_def)
qed

lemma sandbox_read_iff:
  assumes ok: "sandbox_ok env workspace path d" and rel: "getSafeRelPath workspace path = Inr (path_of False cs)"
    and cs: "list_all proper cs" "''..'' \<notin> set cs"
  shows "sandboxFs_ReadFile env workspace path d = Inr s \<longleftrightarrow>
    cs \<noteq> [] \<and> dirs (comps workspace) cs d \<and> node_at d (comps workspace @ cs) = Some (FileNode s)"
proof -
  let ?root = "comps workspace"
  have enter: "sandbox_enter env workspace path d = Inr (?root, path_of False cs)" using sandbox_ok_enter(1) [OF ok] rel by simp
  have open': "fe_open env = None" "no_links ?root d" using ok by (simp_all add: sandbox_ok_def)
  have comps: "comps (path_of False cs) = cs" by (rule path_of_comps [OF cs(1)])
  have "sandboxFs_ReadFile env workspace path d = Inr s \<longleftrightarrow> sys_read env (root_place ?root) (path_of False cs) d = Inr s"
    using enter by (auto simp: sandboxFs_ReadFile_def Let_def split: sum.split prod.split)
  also have "\<dots> \<longleftrightarrow> cs \<noteq> [] \<and> dirs ?root cs d \<and> node_at d (?root @ cs) = Some (FileNode s)"
  proof (cases "cs = []")
    case True
    have "path_of False [] \<noteq> []" by (simp add: path_of_def)
    then have "locate Existing (root_place ?root) d (path_of False []) = Inr ?root"
      using comps True by (simp add: locate_def root_place_def)
    then show ?thesis using True sandbox_ok_enter(2) [OF ok] open' by (simp add: sys_read_def)
  next
    case False
    then show ?thesis using sys_read_plain [of "root_place ?root" d "path_of False cs" env s] open' comps cs
      by (simp add: root_place_def)
  qed
  finally show ?thesis .
qed

lemma rename_onto_root: "snd (replace_file env mk (root_place root) (root_place root) (path_of False []) data d) \<noteq> None"
proof -
  have "snd (sys_rename env (root_place root) old (path_of False []) d') \<noteq> None" for old d'
  proof (cases "locate NoFollow (root_place root) d' old")
    case (Inr p)
    have "locate NoFollow (root_place root) d' (path_of False []) = Inr root"
      using path_of_comps [of "[]" False] by (simp add: locate_def root_place_def path_of_def)
    then show ?thesis using Inr by (simp add: sys_rename_def root_place_def split: option.split)
  qed (simp add: sys_rename_def split: option.split)
  then have "e \<noteq> None" if "sys_rename env (root_place root) old (path_of False []) d' = (d'', e)" for old d' d'' e
    using that by (metis snd_conv)
  then show ?thesis by (auto simp: replace_file_def split: prod.split option.split)
qed

lemma sandbox_write_effect:
  assumes ok: "sandbox_ok env workspace path d" and w: "sandboxFs_WriteFile env workspace path data d = (d', e)"
  shows "(e = None \<longrightarrow> sandboxFs_ReadFile env workspace path d' = Inr data) \<and>
    (e \<noteq> None \<longrightarrow> (\<forall>s. sandboxFs_ReadFile env workspace path d = Inr s \<longrightarrow> sandboxFs_ReadFile env workspace path d' = Inr s))"
proof (cases "getSafeRelPath workspace path")
  case (Inl err)
  then show ?thesis using w sandbox_ok_enter(1) [OF ok] by (auto simp: sandboxFs_WriteFile_def)
next
  case (Inr rel)
  let ?root = "comps workspace" and ?mk = "Dir rel \<noteq> ''.'' \<and> Dir rel \<noteq> ''/''"
  from Inr obtain cs where cs: "rel = path_of False cs" "list_all proper cs" "''..'' \<notin> set cs" by (rule safe_relD)
  note rel = Inr [unfolded cs(1)]
  obtain stage where r: "replace_file env ?mk (root_place ?root) (root_place ?root) rel data d = (d', stage)"
    and e: "e = map_option (sandbox_error env workspace rel) stage"
    using w sandbox_ok_enter(1) [OF ok] Inr by (auto simp: sandboxFs_WriteFile_def split: prod.splits)
  show ?thesis
  proof (cases cs rule: rev_cases)
    case Nil
    have "stage \<noteq> None" using rename_onto_root [of env ?mk ?root data d] r cs(1) Nil by auto
    then show ?thesis using sandbox_read_iff [OF ok rel cs(2,3)] Nil e by auto
  next
    case (snoc ds c)
    have base: "pl_base (root_place ?root) = ?root" "pl_start (root_place ?root) = []" by (simp_all add: root_place_def)
    have nl: "no_links ?root d" using ok by (simp add: sandbox_ok_def)
    have dir: "Dir rel = path_of False ds" using Dir_path_of [of ds c False] cs snoc by simp
    have "?mk \<or> ds = []"
    proof (cases "ds = []")
      case False
      have pds: "list_all proper ds" using cs(2) snoc by simp
      have "comps ''.'' = []" "comps ''/'' = []" by (simp_all add: comps_def)
      then show ?thesis using path_of_comps [OF pds, of False] dir False by auto
    qed simp
    note eff = replace_file_plain [of "root_place ?root" "root_place ?root" d rel False ds c ?mk env data d' stage,
        unfolded base, OF refl refl refl nl _ _ _ this r]
    have eff: "no_links ?root d'" "stage = None \<longrightarrow> dirs ?root cs d' \<and> node_at d' (?root @ cs) = Some (FileNode data)"
      "stage \<noteq> None \<longrightarrow> (\<forall>s. dirs ?root cs d \<and> node_at d (?root @ cs) = Some (FileNode s) \<longrightarrow>
         dirs ?root cs d' \<and> node_at d' (?root @ cs) = Some (FileNode s))"
      using eff cs snoc by simp_all
    have "same_outside ?root d d'"
      using replace_file_outside [of d ?root "root_place ?root" "root_place ?root" env ?mk rel data] r base
        sandbox_ok_enter(2) [OF ok] by (simp add: is_dir_def)
    from sandbox_ok_after [OF ok this eff(1)] have ok': "sandbox_ok env workspace path d'" .
    show ?thesis
      using eff(2,3) snoc e sandbox_read_iff [OF ok rel cs(2,3)] sandbox_read_iff [OF ok' rel cs(2,3)] by auto
  qed
qed

interpretation sandbox_store: file_store "sandboxFs env workspace" "sandbox_ok env workspace" for env workspace
proof
  fix path data :: string and d d' :: disk and e :: fs_error and s :: string
  assume ok: "sandbox_ok env workspace path d"
  show "fs_WriteFile (sandboxFs env workspace) path data d = (d', None) \<Longrightarrow> fs_ReadFile (sandboxFs env workspace) path d' = Inr data"
    using sandbox_write_effect [OF ok] by (simp add: sandboxFs_def)
  show "fs_WriteFile (sandboxFs env workspace) path data d = (d', Some e) \<Longrightarrow>
      fs_ReadFile (sandboxFs env workspace) path d = Inr s \<Longrightarrow> fs_ReadFile (sandboxFs env workspace) path d' = Inr s"
    using sandbox_write_effect [OF ok, of data d' "Some e"] by (simp add: sandboxFs_def)
qed

text \<open>The unrestricted file system keeps it for clean absolute paths on a disk without symbolic links.\<close>

definition host_ok :: "fs_env \<Rightarrow> string \<Rightarrow> disk \<Rightarrow> bool" where
  "host_ok env path d \<longleftrightarrow> fe_open env = None \<and> IsAbs path \<and> Clean path = path \<and> comps path \<noteq> [] \<and> no_links [] d"

lemma host_write_effect:
  assumes ok: "host_ok env path d" and w: "hostFs_WriteFile env path data d = (d', e)"
  shows "(e = None \<longrightarrow> hostFs_ReadFile env path d' = Inr data) \<and>
    (e \<noteq> None \<longrightarrow> (\<forall>s. hostFs_ReadFile env path d = Inr s \<longrightarrow> hostFs_ReadFile env path d' = Inr s))"
proof -
  let ?pl = "host_place env path" and ?cs = "clean_comps path"
  have clean: "Clean path = path" and abs: "IsAbs path" using ok by (simp_all add: host_ok_def)
  have eq: "comps path = ?cs" "path = path_of True ?cs"
    using comps_Clean [of path] Clean_def [of path] unfolding clean by (simp_all add: abs)
  have h: "fe_open env = None" "IsAbs path" "no_links [] d" "comps path = ?cs" "?cs \<noteq> []" "path = path_of True ?cs"
    using ok eq by (simp_all add: host_ok_def)
  then obtain ds c where cs: "?cs = ds @ [c]" by (cases ?cs rule: rev_cases) auto
  have p: "list_all proper (ds @ [c])" "''..'' \<notin> set (ds @ [c])" using abs_comps [OF h(2)] cs by auto
  have pl: "pl_base ?pl = []" "pl_start ?pl = []" using h(2) by (simp_all add: host_place_def)
  have path: "path = path_of True (ds @ [c])" using h(6) cs by simp
  have "IsAbs (Dir path)" unfolding path using Dir_path_of [OF p, of True] path_of_abs [of ds True] p by simp
  then have dpl: "pl_base (host_place env (Dir path)) = []" "pl_start (host_place env (Dir path)) = []"
    by (simp_all add: host_place_def)
  obtain stage where r: "replace_file env True (host_place env (Dir path)) ?pl path data d = (d', stage)"
    and e: "e = map_option (host_error env path) stage"
    using w by (auto simp: hostFs_WriteFile_def split: prod.splits)
  note eff = replace_file_plain [of ?pl "host_place env (Dir path)" d path True ds c True env data d' stage,
      unfolded pl dpl, OF refl refl refl h(3) path p _ r]
  have rd: "hostFs_ReadFile env path d0 = Inr s \<longleftrightarrow> dirs [] (ds @ [c]) d0 \<and> node_at d0 (ds @ [c]) = Some (FileNode s)"
    if "no_links [] d0" for d0 s
  proof -
    have "hostFs_ReadFile env path d0 = Inr s \<longleftrightarrow> sys_read env ?pl path d0 = Inr s"
      by (auto simp: hostFs_ReadFile_def Let_def split: sum.split prod.split)
    then show ?thesis using sys_read_plain [of ?pl d0 path env s] that pl h cs p by simp
  qed
  show ?thesis using eff e rd [of d] rd [of d'] h(3) by auto
qed

interpretation host_store: file_store "hostFs env" "host_ok env" for env
proof
  fix path data :: string and d d' :: disk and e :: fs_error and s :: string
  assume ok: "host_ok env path d"
  show "fs_WriteFile (hostFs env) path data d = (d', None) \<Longrightarrow> fs_ReadFile (hostFs env) path d' = Inr data"
    using host_write_effect [OF ok] by (simp add: hostFs_def)
  show "fs_WriteFile (hostFs env) path data d = (d', Some e) \<Longrightarrow>
      fs_ReadFile (hostFs env) path d = Inr s \<Longrightarrow> fs_ReadFile (hostFs env) path d' = Inr s"
    using host_write_effect [OF ok, of data d' "Some e"] by (simp add: hostFs_def)
qed

subsection \<open>Replacing one occurrence\<close>

lemma index_of_first: "index_of sub s = Some i \<longleftrightarrow>
    (\<exists>b. s = take i s @ sub @ b \<and> i \<le> length s) \<and> (\<forall>a b. s = a @ sub @ b \<longrightarrow> i \<le> length a)"
proof (induction s arbitrary: i)
  case Nil
  then show ?case by auto
next
  case (Cons c s)
  show ?case
  proof (cases "has_prefix sub (c # s)")
    case True
    then obtain t where t: "c # s = sub @ t" by (auto simp: has_prefix_iff)
    have "index_of sub (c # s) = Some 0" using True by simp
    moreover have "(\<forall>a b. c # s = a @ sub @ b \<longrightarrow> i \<le> length a) \<longleftrightarrow> i = 0" using t by (metis append_Nil bot_nat_0.extremum le_zero_eq list.size(3))
    ultimately show ?thesis using t by auto
  next
    case False
    have step: "index_of sub (c # s) = Some i \<longleftrightarrow> (\<exists>j. i = Suc j \<and> index_of sub s = Some j)" using False by auto
    have occ: "c # s = a @ sub @ b \<longleftrightarrow> (\<exists>a'. a = c # a' \<and> s = a' @ sub @ b)" for a b
      using False by (cases a) (auto simp: has_prefix_iff)
    show ?thesis
    proof (cases i)
      case 0
      have "\<nexists>b. c # s = sub @ b" using False by (auto simp: has_prefix_iff)
      then show ?thesis using step 0 by simp
    next
      case (Suc j)
      have "(\<forall>a b. c # s = a @ sub @ b \<longrightarrow> Suc j \<le> length a) \<longleftrightarrow> (\<forall>a b. s = a @ sub @ b \<longrightarrow> j \<le> length a)"
      proof -
        have "(\<forall>a b. c # s = a @ sub @ b \<longrightarrow> Suc j \<le> length a) \<longleftrightarrow> (\<forall>a b. s = a @ sub @ b \<longrightarrow> Suc j \<le> length (c # a))"
          by (metis occ)
        then show ?thesis by simp
      qed
      then show ?thesis using step Suc Cons.IH [of j] by simp
    qed
  qed
qed

lemma count_from_pos: "sub \<noteq> [] \<Longrightarrow> 0 < count_from sub s \<longleftrightarrow> contains s sub"
  by (subst count_from.simps) (auto simp: contains_def split: option.split)

lemma replaceEditContent_iff:
  assumes "oldText \<noteq> []"
  shows "replaceEditContent content oldText newText = Inr r \<longleftrightarrow>
    (\<exists>a b. content = a @ oldText @ b \<and> r = a @ newText @ b \<and> \<not> contains b oldText \<and>
       (\<forall>a' b'. content = a' @ oldText @ b' \<longrightarrow> length a \<le> length a'))"
proof (cases "index_of oldText content")
  case None
  then have "\<not> contains content oldText" by (simp add: contains_def)
  then show ?thesis by (auto simp: replaceEditContent_def contains_iff)
next
  case (Some i)
  then obtain b where b: "content = take i content @ oldText @ b" "i \<le> length content"
    "\<forall>a' b'. content = a' @ oldText @ b' \<longrightarrow> i \<le> length a'" using index_of_first [of oldText content i] by blast
  have rest: "drop (i + length oldText) content = b"
  proof -
    have "drop (i + length oldText) (take i content @ oldText @ b) = b" using b(2) by simp
    then show ?thesis using b(1) by metis
  qed
  have cnt: "Count content oldText = Suc (count_from oldText b)"
    using assms Some rest by (simp add: Count_def) (subst count_from.simps, simp)
  have "contains content oldText" using Some by (simp add: contains_def)
  then have l: "replaceEditContent content oldText newText = Inr r \<longleftrightarrow> \<not> contains b oldText \<and> r = take i content @ newText @ b"
    using cnt count_from_pos [OF assms, of b] Some rest by (auto simp: replaceEditContent_def Replace1_def Let_def)
  show ?thesis
  proof
    assume "replaceEditContent content oldText newText = Inr r"
    with l b show "\<exists>a b. content = a @ oldText @ b \<and> r = a @ newText @ b \<and> \<not> contains b oldText \<and>
        (\<forall>a' b'. content = a' @ oldText @ b' \<longrightarrow> length a \<le> length a')"
      by (intro exI [of _ "take i content"] exI [of _ b]) simp
  next
    assume "\<exists>a b. content = a @ oldText @ b \<and> r = a @ newText @ b \<and> \<not> contains b oldText \<and>
        (\<forall>a' b'. content = a' @ oldText @ b' \<longrightarrow> length a \<le> length a')"
    then obtain a b' where a: "content = a @ oldText @ b'" "r = a @ newText @ b'" "\<not> contains b' oldText"
      "\<forall>a' b'. content = a' @ oldText @ b' \<longrightarrow> length a \<le> length a'" by blast
    have "length a = i"
      using a(1) a(4) [rule_format, OF b(1)] b(2) b(3) [rule_format, OF a(1)] by simp
    then have "take i content = a" "b' = b" using a(1) rest by auto
    with a l show "replaceEditContent content oldText newText = Inr r" by simp
  qed
qed

definition store_ok :: "fs_env \<Rightarrow> string \<Rightarrow> bool \<Rightarrow> string \<Rightarrow> disk \<Rightarrow> bool" where
  "store_ok env workspace restrict path d = (if restrict then sandbox_ok env workspace path d else host_ok env path d)"

interpretation tool_store: file_store "tool_fs env workspace restrict" "store_ok env workspace restrict" for env workspace restrict
proof (cases restrict)
  case True
  have "store_ok env workspace True = sandbox_ok env workspace" by (intro ext) (simp add: store_ok_def)
  then show "file_store (tool_fs env workspace restrict) (store_ok env workspace restrict)"
    using True sandbox_store.file_store_axioms [of env workspace] by (simp add: tool_fs_def)
next
  case False
  have "store_ok env workspace False = host_ok env" by (intro ext) (simp add: store_ok_def)
  then show "file_store (tool_fs env workspace restrict) (store_ok env workspace restrict)"
    using False host_store.file_store_axioms [of env] by (simp add: tool_fs_def)
qed

lemma tool_result_simps:
  "tr_IsError (ErrorResult m)" "\<not> tr_IsError (SilentResult m)" "\<not> tr_IsError (NewToolResult m)" "tr_ForLLM (NewToolResult m) = m"
  by (simp_all add: ErrorResult_def SilentResult_def NewToolResult_def)


lemma no_links_list: "list_all (\<lambda>(k, n). \<forall>t. n \<noteq> LinkNode t) d \<Longrightarrow> no_links base d"
  unfolding no_links_def node_at_def list_all_iff by (metis (mono_tags) case_prod_conv map_of_SomeD)

definition plain_disk :: disk where
  "plain_disk = [([''w''], DirNode), ([''w'', ''a''], FileNode ''one two three'')]"

lemma plain_disk_ok: "store_ok sample_fs_env ''/w'' True path plain_disk"
proof -
  have "no_links base plain_disk" for base by (rule no_links_list) (simp add: plain_disk_def)
  moreover have "comps ''/w'' = [''w'']" "IsAbs ''/w''" "fe_open sample_fs_env = None" by code_simp+
  moreover have "dirs [] [''w'', []] plain_disk" by (simp add: dirs_Cons) (simp add: plain_disk_def node_at_def)
  ultimately show ?thesis by (simp add: store_ok_def sandbox_ok_def)
qed

definition edit_args :: "json_obj option" where
  "edit_args = Some [(''path'', JStr ''a''), (''old_text'', JStr ''two''), (''new_text'', JStr ''2''), (''content'', JStr '' four'')]"

lemma edit_args_simps:
  "string_arg edit_args ''path'' = Some ''a''" "string_arg edit_args ''old_text'' = Some ''two''"
  "string_arg edit_args ''new_text'' = Some ''2''" "string_arg edit_args ''content'' = Some '' four''"
  by code_simp+


text \<open>
  Files keep what the tools put there: after a write without error the read tool returns exactly the
  content, after an append the former content (nothing for a missing file) followed by the appended text.
\<close>

theorem write_append_read:
  assumes "store_ok env workspace restrict path d"
    and "string_arg args ''path'' = Some path" "string_arg args ''content'' = Some content"
  shows "(\<forall>d' r. WriteFileTool_Execute (tool_fs env workspace restrict) args d = (d', r) \<and> \<not> tr_IsError r \<longrightarrow>
            ReadFileTool_Execute (tool_fs env workspace restrict) args d' = (d', NewToolResult content)) \<and>
         (\<forall>d' r. AppendFileTool_Execute (tool_fs env workspace restrict) args d = (d', r) \<and> \<not> tr_IsError r \<longrightarrow>
            ReadFileTool_Execute (tool_fs env workspace restrict) args d' =
              (d', NewToolResult ((case fs_ReadFile (tool_fs env workspace restrict) path d of
                                     Inr before \<Rightarrow> before | Inl _ \<Rightarrow> []) @ content)))"
proof -
  let ?fs = "tool_fs env workspace restrict"
  have rd: "ReadFileTool_Execute ?fs args d' = (d', NewToolResult s)" if "fs_ReadFile ?fs path d' = Inr s" for d' s
    using that by (simp add: ReadFileTool_Execute_def assms(2))
  have wr: "fs_WriteFile ?fs path content d = (d', None)"
    if "WriteFileTool_Execute ?fs args d = (d', r)" "\<not> tr_IsError r" for d' r
    using that unfolding WriteFileTool_Execute_def assms(2,3) option.case
    by (auto simp: tool_result_simps split: prod.splits option.splits)
  have ap: "appendFile ?fs path content d = (d', None)"
    if "AppendFileTool_Execute ?fs args d = (d', r)" "\<not> tr_IsError r" for d' r
    using that unfolding AppendFileTool_Execute_def assms(2,3) option.case
    by (auto simp: tool_result_simps split: prod.splits option.splits)
  show ?thesis
    using rd tool_store.read_written [OF assms(1) wr] tool_store.append_effect [OF assms(1) ap] by blast
qed

theorem write_append_read_witness:
  "let fs = tool_fs sample_fs_env ''/w'' True in
   ReadFileTool_Execute fs edit_args (fst (WriteFileTool_Execute fs edit_args plain_disk)) =
     (fst (WriteFileTool_Execute fs edit_args plain_disk), NewToolResult '' four'') \<and>
   snd (ReadFileTool_Execute fs edit_args (fst (AppendFileTool_Execute fs edit_args plain_disk))) = NewToolResult ''one two three four''"
proof -
  let ?fs = "tool_fs sample_fs_env ''/w'' True"
  let ?w = "WriteFileTool_Execute ?fs edit_args plain_disk" and ?a = "AppendFileTool_Execute ?fs edit_args plain_disk"
  have ok: "\<not> tr_IsError (snd ?w)" "\<not> tr_IsError (snd ?a)" "fs_ReadFile ?fs ''a'' plain_disk = Inr ''one two three''"
    by code_simp+
  note t = write_append_read [OF plain_disk_ok edit_args_simps(1,4)]
  have "ReadFileTool_Execute ?fs edit_args (fst ?w) = (fst ?w, NewToolResult '' four'')"
    using t ok(1) by (metis prod.collapse)
  moreover have "ReadFileTool_Execute ?fs edit_args (fst ?a) = (fst ?a, NewToolResult (''one two three'' @ '' four''))"
    using t [THEN conjunct2, rule_format, of "fst ?a" "snd ?a"] ok(2,3) by simp
  ultimately show ?thesis by simp
qed

text \<open>Occurrences that overlap count once: the text appears twice, and the edit is accepted.\<close>

lemma overlapping_edit_accepted:
  "(\<exists>a b. ''aaa'' = a @ ''aa'' @ b \<and> a = []) \<and> (\<exists>a b. ''aaa'' = a @ ''aa'' @ b \<and> a \<noteq> []) \<and>
   replaceEditContent ''aaa'' ''aa'' ''x'' = Inr ''xa''"
proof -
  have "replaceEditContent ''aaa'' ''aa'' ''x'' = Inr ''xa''" by code_simp
  moreover have "''aaa'' = ''a'' @ ''aa'' @ []" "''aaa'' = [] @ ''aa'' @ ''a''" by simp_all
  ultimately show ?thesis by blast
qed

subsection \<open>Validated paths\<close>

lemma within_iff: "IsAbs w \<Longrightarrow> IsAbs p \<Longrightarrow> isWithinWorkspace p w \<longleftrightarrow> prefix (clean_comps w) (clean_comps p)"
  using Rel_local_iff [of w p] by (auto simp: isWithinWorkspace_def split: option.split)

definition resolves :: "disk \<Rightarrow> string list \<Rightarrow> string list \<Rightarrow> bool" where
  "resolves d cs p \<longleftrightarrow> walk Existing False d [] 255 [] cs = Inr p"

lemma walk_proper:
  "walk m confined d base n cur cs = Inr p \<Longrightarrow> list_all proper cs \<Longrightarrow> list_all proper cur \<Longrightarrow> ''..'' \<notin> set cur \<Longrightarrow>
     list_all proper p \<and> ''..'' \<notin> set p"
proof (induction m confined d base n cur cs rule: walk.induct)
  case (2 m confined d base n cur c cs)
  have up: "list_all proper (butlast cur)" "''..'' \<notin> set (butlast cur)"
    using 2(8,9) by (auto simp: list_all_iff dest: in_set_butlastD)
  show ?case
  proof (cases "c = ''..''")
    case True
    then show ?thesis using 2(1,2) [OF True] 2(6-9) up by (simp add: walk_up split: if_splits)
  next
    case False
    note k = walk_name [OF False, where cs = cs and m = m and d = d and base = base and cur = cur]
    have down: "list_all proper (cur @ [c])" "''..'' \<notin> set (cur @ [c])" using 2(7-9) False by simp_all
    show ?thesis
    proof (cases "cs = [] \<and> m = NoFollow")
      case True
      then show ?thesis using k(1) 2(6) down by simp
    next
      case go: False
      note k = k(2-5) [OF go]
      show ?thesis
      proof (cases "node_at d (base @ cur @ [c])")
        case None
        then show ?thesis using k(1) 2(6) down by (auto split: if_splits)
      next
        case (Some nd)
        show ?thesis
        proof (cases nd)
          case (FileNode s)
          then show ?thesis using k(3) Some 2(6) down by (auto split: if_splits)
        next
          case DirNode
          then show ?thesis using 2(3) [OF False go Some DirNode] k(2) Some 2(6,7) down by simp
        next
          case (LinkNode t)
          have "list_all proper (comps t @ cs)" using comps_proper 2(7) by simp
          then show ?thesis
            using 2(4,5) [OF False go Some LinkNode] k(4) Some LinkNode 2(6,8,9) by (simp split: if_splits)
        qed
      qed
    qed
  qed
qed simp

lemma eval_symlinks_ok:
  assumes "IsAbs path" "comps path = cs" "eval_symlinks d path = Inr r"
  obtains p where "resolves d cs p" "IsAbs r" "clean_comps r = p"
proof -
  obtain p where p: "walk Existing False d [] 255 [] cs = Inr p" "r = path_of True p"
    using assms by (auto simp: eval_symlinks_def split: sum.splits)
  then have pp: "list_all proper p" "''..'' \<notin> set p" using walk_proper [OF p(1)] comps_proper [of path] assms(2) by auto
  then have "clean_comps r = p" using p(2) by (simp add: clean_comps_def path_of_abs path_of_comps resolve_no_dots)
  then show ?thesis using that p pp by (simp add: resolves_def path_of_abs)
qed

lemma ancestor_found:
  "resolveExistingAncestor_from eval cs = Inr r \<Longrightarrow>
     \<exists>k \<le> length cs. eval (path_of True (take k cs)) = Inr r \<and>
       (\<forall>j. k < j \<and> j \<le> length cs \<longrightarrow> (\<exists>e. eval (path_of True (take j cs)) = Inl e \<and> IsNotExist e))"
proof (induction cs rule: rev_induct)
  case Nil
  then show ?case by (auto simp: resolveExistingAncestor_from.simps [of eval "[]"] split: sum.splits if_splits)
next
  case (snoc c cs)
  show ?case
  proof (cases "eval (path_of True (cs @ [c]))")
    case (Inr r')
    then show ?thesis using snoc.prems
      by (intro exI [of _ "length (cs @ [c])"]) (auto simp: resolveExistingAncestor_from.simps [of eval "cs @ [c]"])
  next
    case (Inl e)
    then have e: "IsNotExist e" "resolveExistingAncestor_from eval cs = Inr r"
      using snoc.prems by (simp_all add: resolveExistingAncestor_from.simps [of eval "cs @ [c]"] split: if_splits)
    from snoc.IH [OF e(2)] obtain k where k: "k \<le> length cs" "eval (path_of True (take k cs)) = Inr r"
      "\<forall>j. k < j \<and> j \<le> length cs \<longrightarrow> (\<exists>e. eval (path_of True (take j cs)) = Inl e \<and> IsNotExist e)" by blast
    have "\<exists>e. eval (path_of True (take j (cs @ [c]))) = Inl e \<and> IsNotExist e" if "k < j \<and> j \<le> length (cs @ [c])" for j
      using that k(3) Inl e(1) by (cases "j = length (cs @ [c])") auto
    then show ?thesis using k by (intro exI [of _ k]) simp
  qed
qed

lemma ancestor_total: "eval_symlinks d (path_of True []) = Inr (path_of True [])"
  using path_of_comps [of "[]" True] by (simp add: eval_symlinks_def)

lemma ancestor_reported: "resolveExistingAncestor_from (eval_symlinks d) cs = Inl e \<Longrightarrow> \<not> IsNotExist e"
proof (induction cs rule: rev_induct)
  case Nil
  then show ?case by (simp add: resolveExistingAncestor_from.simps [of _ "[]"] ancestor_total)
next
  case (snoc c cs)
  then show ?case
    by (auto simp: resolveExistingAncestor_from.simps [of _ "cs @ [c]"] split: sum.splits if_splits)
qed

lemma eval_symlinks_missing: "IsAbs path \<Longrightarrow> comps path = cs \<Longrightarrow> eval_symlinks d path = Inl e \<Longrightarrow> \<not> resolves d cs p"
  by (auto simp: eval_symlinks_def resolves_def split: sum.splits)

lemma validatePath_accepts:
  assumes "validatePath wd eval path workspace True = Inr absPath"
  shows "absPath = (if IsAbs path then Clean path else Abs wd (Join [Abs wd workspace, path])) \<and>
    isWithinWorkspace absPath (Abs wd workspace) \<and>
    (let workspaceReal = (case eval (Abs wd workspace) of Inr resolved \<Rightarrow> resolved | Inl e \<Rightarrow> Abs wd workspace) in
     case eval absPath of
       Inr resolved \<Rightarrow> isWithinWorkspace resolved workspaceReal
     | Inl e \<Rightarrow> (case resolveExistingAncestor eval (Dir absPath) of
                   Inr resolved \<Rightarrow> isWithinWorkspace resolved workspaceReal
                 | Inl e \<Rightarrow> IsNotExist e))"
proof -
  define ap where "ap = (if IsAbs path then Clean path else Abs wd (Join [Abs wd workspace, path]))"
  show ?thesis
    using assms unfolding validatePath_def Let_def ap_def [symmetric]
    by (cases "eval ap"; cases "resolveExistingAncestor eval (Dir ap)") (auto split: if_splits)
qed

lemma Abs_absolute: "IsAbs wd \<Longrightarrow> IsAbs (Abs wd p) \<and> Clean (Abs wd p) = Abs wd p"
proof -
  assume wd: "IsAbs wd"
  have "IsAbs (join [slash] (filter (\<lambda>e. e \<noteq> []) [wd, p]))" using wd by (cases wd; cases p) (auto simp: IsAbs_def)
  moreover have "filter (\<lambda>e. e \<noteq> []) [wd, p] \<noteq> []" using wd by (auto simp: IsAbs_def)
  ultimately show ?thesis by (simp add: Abs_def Join_def Let_def)
qed

lemma validatePath_lexical:
  assumes "IsAbs wd" "validatePath wd eval path workspace True = Inr absPath"
  shows "IsAbs absPath \<and> Clean absPath = absPath \<and> prefix (clean_comps (Abs wd workspace)) (clean_comps absPath)"
proof -
  have "isWithinWorkspace absPath (Abs wd workspace)" "IsAbs absPath" "Clean absPath = absPath"
    using validatePath_accepts [OF assms(2)] Abs_absolute [OF assms(1)] by (auto split: if_splits)
  then show ?thesis using within_iff Abs_absolute [OF assms(1)] by blast
qed

text \<open>
  A working directory that \<open>validatePath\<close> accepts for a restricted agent lies in the workspace by its text,
  and so does, after resolving symbolic links, the longest part of it that exists: relative to the
  directory the workspace resolves to, no link leads out of it.
\<close>

theorem validatePath_sound:
  assumes wd: "IsAbs wd" and v: "validatePath wd (eval_symlinks d) path workspace True = Inr absPath"
  shows "IsAbs absPath \<and> prefix (clean_comps (Abs wd workspace)) (clean_comps absPath) \<and>
    (\<exists>k \<le> length (clean_comps absPath). \<exists>p. resolves d (take k (clean_comps absPath)) p \<and>
       (\<forall>j. k < j \<and> j \<le> length (clean_comps absPath) \<longrightarrow> (\<forall>q. \<not> resolves d (take j (clean_comps absPath)) q)) \<and>
       (\<forall>q. resolves d (clean_comps (Abs wd workspace)) q \<longrightarrow> prefix q p))"
proof -
  let ?ws = "Abs wd workspace" and ?eval = "eval_symlinks d" and ?cs = "clean_comps absPath"
  let ?real = "case ?eval ?ws of Inr resolved \<Rightarrow> resolved | Inl e \<Rightarrow> ?ws"
  note ws = Abs_absolute [OF wd, of workspace]
  note a = validatePath_accepts [OF v, unfolded Let_def]
  have acc: "isWithinWorkspace absPath ?ws" "IsAbs absPath" "Clean absPath = absPath"
    and lex: "prefix (clean_comps ?ws) ?cs"
    using a validatePath_lexical [OF wd v] by blast+
  have comps: "comps absPath = ?cs" using comps_Clean [of absPath] acc(3) by simp
  have real: "prefix q p" if w: "isWithinWorkspace r ?real" "IsAbs r" "clean_comps r = p" "resolves d (clean_comps ?ws) q" for r p q
  proof -
    have wsc: "comps ?ws = clean_comps ?ws" using comps_Clean [of ?ws] ws by simp
    then obtain r' where r': "?eval ?ws = Inr r'" using w(4) by (auto simp: eval_symlinks_def resolves_def)
    then obtain q' where "resolves d (clean_comps ?ws) q'" "IsAbs r'" "clean_comps r' = q'"
      using eval_symlinks_ok [of ?ws "clean_comps ?ws" d r'] ws wsc by blast
    then have "q' = q" using w(4) by (simp add: resolves_def)
    then show ?thesis using w r' within_iff [of r' r] \<open>IsAbs r'\<close> \<open>clean_comps r' = q'\<close> by simp
  qed
  show ?thesis
  proof (cases "?eval absPath")
    case (Inr r)
    then have w: "isWithinWorkspace r ?real" using a [THEN conjunct2, THEN conjunct2] by simp
    from eval_symlinks_ok [OF acc(2) comps Inr] obtain p where "resolves d ?cs p" "IsAbs r" "clean_comps r = p" by blast
    then show ?thesis using lex acc(2) real [OF w] by (intro conjI exI [of _ "length ?cs"] exI [of _ p]) auto
  next
    case (Inl e)
    have "?cs \<noteq> []"
    proof
      assume "?cs = []"
      then have "absPath = path_of True []" using Clean_def [of absPath] acc(2,3) by simp
      with Inl ancestor_total show False by simp
    qed
    then obtain ds c where cs: "?cs = ds @ [c]" by (cases ?cs rule: rev_cases) auto
    have p: "list_all proper (ds @ [c])" "''..'' \<notin> set (ds @ [c])" using abs_comps [OF acc(2)] cs by auto
    have path: "absPath = path_of True (ds @ [c])" using Clean_def [of absPath] acc(2,3) cs by simp
    have at: "IsAbs (path_of True (take j ds)) \<and> comps (path_of True (take j ds)) = take j ds" for j
    proof -
      have "list_all proper (take j ds)" using p(1) by (auto simp: list_all_iff dest: in_set_takeD)
      then show ?thesis by (simp add: path_of_abs path_of_comps)
    qed
    have "clean_comps (Dir absPath) = ds"
      unfolding path Dir_path_of [OF p] using p
      by (simp add: clean_comps_def path_of_abs path_of_comps resolve_no_dots)
    then obtain r where r: "resolveExistingAncestor_from ?eval ds = Inr r" "isWithinWorkspace r ?real"
      using a [THEN conjunct2, THEN conjunct2] Inl ancestor_reported [of d ds]
      by (cases "resolveExistingAncestor_from ?eval ds") (simp_all add: resolveExistingAncestor_def)
    from ancestor_found [OF r(1)] obtain k where k: "k \<le> length ds" "?eval (path_of True (take k ds)) = Inr r"
      "\<forall>j. k < j \<and> j \<le> length ds \<longrightarrow> (\<exists>e. ?eval (path_of True (take j ds)) = Inl e \<and> IsNotExist e)" by blast
    obtain p where p: "resolves d (take k ds) p" "IsAbs r" "clean_comps r = p"
      using eval_symlinks_ok [OF _ _ k(2)] at by blast
    have "\<not> resolves d (take j ?cs) q" if "k < j \<and> j \<le> length ?cs" for j q
    proof (cases "j = length ?cs")
      case True
      then show ?thesis using eval_symlinks_missing [OF acc(2) comps Inl] by simp
    next
      case False
      then have "j \<le> length ds" "take j ?cs = take j ds" using that cs by auto
      then show ?thesis using k(3) that at eval_symlinks_missing by metis
    qed
    then show ?thesis
      using lex acc(2) real [OF r(2) p(2,3)] p(1) k(1) cs by (intro conjI exI [of _ k] exI [of _ p]) auto
  qed
qed

theorem validatePath_sound_witness:
  "validatePath ''/'' (eval_symlinks sample_disk) ''new/dir'' ''/w'' True = Inr ''/w/new/dir'' \<and>
   prefix (clean_comps (Abs ''/'' ''/w'')) (clean_comps ''/w/new/dir'') \<and>
   (\<exists>e. validatePath ''/'' (eval_symlinks sample_disk) ''out/x'' ''/w'' True = Inl e)"
proof -
  have "IsAbs ''/''" "validatePath ''/'' (eval_symlinks sample_disk) ''new/dir'' ''/w'' True = Inr ''/w/new/dir''"
    "validatePath ''/'' (eval_symlinks sample_disk) ''out/x'' ''/w'' True =
       Inl (PlainError ''access denied: symlink resolves outside workspace'')" by code_simp+
  then show ?thesis using validatePath_sound [of "''/''" sample_disk "''new/dir''" "''/w''" "''/w/new/dir''"] by simp
qed

end
