(* ===== verification/Shell.thy ===== *)
theory Shell
  imports File_Tools Regex
begin

text \<open>
  The exec tool, \<^verbatim>\<open>pkg/tools/shell.go\<close>: its deny list as regular expressions, the guard that a command has
  to pass, the choice of the working directory and the rendering of the output. What the shell does is a
  parameter, as are the patterns of the configuration, which are predicates after compilation.
\<close>

subsection \<open>The deny list\<close>

abbreviation blanks :: "rx list" where "blanks \<equiv> plus rx_space"

abbreviation blanks0 :: "rx list" where "blanks0 \<equiv> [Star rx_space]"

definition one_of :: "string \<Rightarrow> rx" where
  "one_of cs = Cls (\<lambda>c. c \<in> set cs)"

definition whole_word :: "string \<Rightarrow> rx list" where
  "whole_word w = WordB # lit w @ [WordB]"

text \<open>\<open>\b a \s+ b\<close>, with a word boundary at the end or not.\<close>

definition two_words :: "string \<Rightarrow> string \<Rightarrow> rx list" where
  "two_words a b = WordB # lit a @ blanks @ lit b"

definition rf_flag :: rx where "rf_flag = one_of ''rf''"

definition backquote :: char where "backquote = CHR 0x60"

text \<open>Each pattern is a list of alternatives.\<close>

definition defaultDenyPatterns :: "rx list list list" where
  "defaultDenyPatterns =
     [[two_words ''rm'' ''-'' @ [rf_flag, Opt (\<lambda>c. c \<in> set ''rf''), WordB]],
      [two_words ''del'' ''/'' @ [one_of ''fq'', WordB]],
      [two_words ''rmdir'' ''/s'' @ [WordB]],
      map (\<lambda>w. whole_word w @ [Cls rx_space]) [''format'', ''mkfs'', ''diskpart''],
      [two_words ''dd'' ''if=''],
      [lit ''>'' @ blanks0 @ lit ''/dev/sd'' @ [Cls is_lower, WordB]],
      map whole_word [''shutdown'', ''reboot'', ''poweroff''],
      [lit '':()'' @ blanks0 @ lit ''{'' @ [Star rx_any] @ lit ''};'' @ blanks0 @ lit '':''],
      [lit ''$('' @ plus (\<lambda>c. c \<noteq> CHR '')'') @ lit '')''],
      [lit ''${'' @ plus (\<lambda>c. c \<noteq> CHR ''}'') @ lit ''}''],
      [lit [backquote] @ plus (\<lambda>c. c \<noteq> backquote) @ lit [backquote]],
      [lit ''|'' @ blanks0 @ lit ''sh'' @ [WordB]],
      [lit ''|'' @ blanks0 @ lit ''bash'' @ [WordB]],
      [lit '';'' @ blanks0 @ lit ''rm'' @ blanks @ lit ''-'' @ [rf_flag]],
      [lit ''&&'' @ blanks0 @ lit ''rm'' @ blanks @ lit ''-'' @ [rf_flag]],
      [lit ''||'' @ blanks0 @ lit ''rm'' @ blanks @ lit ''-'' @ [rf_flag]],
      [lit ''>'' @ blanks0 @ lit ''/dev/null'' @ blanks0 @ lit ''>'' @ [Opt (\<lambda>c. c = CHR ''&'')] @ blanks0 @ [Opt is_digit]],
      [lit ''<<'' @ blanks0 @ lit ''EOF''],
      [lit ''$('' @ blanks0 @ lit ''cat'' @ blanks],
      [lit ''$('' @ blanks0 @ lit ''curl'' @ blanks],
      [lit ''$('' @ blanks0 @ lit ''wget'' @ blanks],
      [lit ''$('' @ blanks0 @ lit ''which'' @ blanks],
      [whole_word ''sudo''],
      [WordB # lit ''chmod'' @ blanks @ replicate 3 (one_of ''01234567'') @ [Opt (\<lambda>c. c \<in> set ''01234567''), WordB]],
      [whole_word ''chown''],
      [whole_word ''pkill''],
      [whole_word ''killall''],
      [two_words ''kill'' ''-'' @ [one_of ''9'', WordB]],
      map (\<lambda>sh. whole_word ''curl'' @ [Star rx_any] @ lit ''|'' @ blanks0 @ lit sh) [''sh'', ''bash''],
      map (\<lambda>sh. whole_word ''wget'' @ [Star rx_any] @ lit ''|'' @ blanks0 @ lit sh) [''sh'', ''bash''],
      [two_words ''npm'' ''install'' @ blanks @ lit ''-g'' @ [WordB]],
      [two_words ''pip'' ''install'' @ blanks @ lit ''--user'' @ [WordB]],
      map (\<lambda>w. two_words ''apt'' w @ [WordB]) [''install'', ''remove'', ''purge''],
      map (\<lambda>w. two_words ''yum'' w @ [WordB]) [''install'', ''remove''],
      map (\<lambda>w. two_words ''dnf'' w @ [WordB]) [''install'', ''remove''],
      [two_words ''docker'' ''run'' @ [WordB]],
      [two_words ''docker'' ''exec'' @ [WordB]],
      [two_words ''git'' ''push'' @ [WordB]],
      [two_words ''git'' ''force'' @ [WordB]],
      [whole_word ''ssh'' @ [Star rx_any] @ lit ''@''],
      [whole_word ''eval''],
      [WordB # lit ''source'' @ blanks @ [Star rx_any] @ lit ''.sh'' @ [WordB]]]"

type_synonym pattern = "string \<Rightarrow> bool"

definition matches :: "rx list list \<Rightarrow> pattern" where
  "matches alternatives s = list_ex (\<lambda>rs. MatchString rs s) alternatives"

record ExecTool =
  et_workingDir :: string
  et_timeout :: duration
  et_denyPatterns :: "pattern list"
  et_allowPatterns :: "pattern list"
  et_restrictToWorkspace :: bool

text \<open>The part of the configuration that the constructor reads.\<close>

record ExecConfig =
  ec_EnableDenyPatterns :: bool
  ec_CustomDenyPatterns :: "string list"

definition compiled :: "(string \<Rightarrow> GoError + pattern) \<Rightarrow> string list \<Rightarrow> pattern list" where
  "compiled Compile ps = concat (map (\<lambda>p. case Compile p of Inl e \<Rightarrow> [] | Inr re \<Rightarrow> [re]) ps)"

definition NewExecToolWithConfig :: "(string \<Rightarrow> GoError + pattern) \<Rightarrow> string \<Rightarrow> bool \<Rightarrow> ExecConfig option \<Rightarrow> ExecTool" where
  "NewExecToolWithConfig Compile workingDir restrict config =
     \<lparr>et_workingDir = workingDir, et_timeout = 60000000000,
      et_denyPatterns =
        (case config of
           None \<Rightarrow> map matches defaultDenyPatterns
         | Some cfg \<Rightarrow>
             if ec_EnableDenyPatterns cfg
             then map matches defaultDenyPatterns @ compiled Compile (ec_CustomDenyPatterns cfg)
             else []),
      et_allowPatterns = [], et_restrictToWorkspace = restrict\<rparr>"

definition NewExecTool :: "(string \<Rightarrow> GoError + pattern) \<Rightarrow> string \<Rightarrow> bool \<Rightarrow> ExecTool" where
  "NewExecTool Compile workingDir restrict = NewExecToolWithConfig Compile workingDir restrict None"

definition SetTimeout :: "duration \<Rightarrow> ExecTool \<Rightarrow> ExecTool" where
  "SetTimeout timeout t = t\<lparr>et_timeout := timeout\<rparr>"

definition SetRestrictToWorkspace :: "bool \<Rightarrow> ExecTool \<Rightarrow> ExecTool" where
  "SetRestrictToWorkspace restrict t = t\<lparr>et_restrictToWorkspace := restrict\<rparr>"

text \<open>A pattern that does not compile leaves the ones before it in place.\<close>

fun allow_from :: "(string \<Rightarrow> GoError + pattern) \<Rightarrow> pattern list \<Rightarrow> string list \<Rightarrow> pattern list \<times> GoError option" where
  "allow_from Compile acc [] = (acc, None)"
| "allow_from Compile acc (p # ps) =
     (case Compile p of
        Inl err \<Rightarrow> (acc, Some (ErrWrap (''invalid allow pattern '' @ go_quote p @ '': '') err))
      | Inr re \<Rightarrow> allow_from Compile (acc @ [re]) ps)"

definition SetAllowPatterns :: "(string \<Rightarrow> GoError + pattern) \<Rightarrow> string list \<Rightarrow> ExecTool \<Rightarrow> ExecTool \<times> GoError option" where
  "SetAllowPatterns Compile patterns t =
     (case allow_from Compile [] patterns of (ps, err) \<Rightarrow> (t\<lparr>et_allowPatterns := ps\<rparr>, err))"

subsection \<open>The guard\<close>

definition is_letter :: "char \<Rightarrow> bool" where
  "is_letter c \<longleftrightarrow> is_lower c \<or> is_upper c"

definition quotes :: "char set" where
  "quotes = {CHR 0x22, CHR 0x27}"

text \<open>
  The path pattern: a drive letter with a backslash, or a slash, each with the longest nonempty text of
  the class behind it.
\<close>

definition path_at :: "string \<Rightarrow> string option" where
  "path_at s =
     (let drive = (case s of
             a # b # c # t \<Rightarrow>
               if is_letter a \<and> b = CHR '':'' \<and> c = CHR 0x5C
               then a # b # c # takeWhile (\<lambda>c. c \<noteq> CHR 0x5C \<and> c \<notin> quotes) t else []
           | _ \<Rightarrow> []);
          unix = (case s of
             a # t \<Rightarrow> if a = slash then a # takeWhile (\<lambda>c. \<not> rx_space c \<and> c \<notin> quotes) t else []
           | _ \<Rightarrow> [])
      in if 3 < length drive then Some drive else if 1 < length unix then Some unix else None)"

function find_paths :: "string \<Rightarrow> string list" where
  "find_paths s =
     (if s = [] then []
      else case path_at s of
             Some m \<Rightarrow> m # find_paths (drop (length m) s)
           | None \<Rightarrow> find_paths (tl s))"
  by pat_completeness auto
termination
proof (relation "measure length")
  fix s m :: string
  assume "s \<noteq> []" "path_at s = Some m"
  moreover from this have "0 < length m" by (auto simp: path_at_def Let_def split: if_splits)
  ultimately show "(drop (length m) s, s) \<in> measure length" by simp
qed simp_all

declare find_paths.simps [simp del]

fun first_outside :: "string \<Rightarrow> string \<Rightarrow> string list \<Rightarrow> bool" where
  "first_outside wd cwdPath [] = False"
| "first_outside wd cwdPath (raw # ms) =
     (case Rel cwdPath (Abs wd raw) of
        None \<Rightarrow> first_outside wd cwdPath ms
      | Some rel \<Rightarrow> if has_prefix ''..'' rel then True else first_outside wd cwdPath ms)"

definition guardCommand :: "string \<Rightarrow> ExecTool \<Rightarrow> string \<Rightarrow> string \<Rightarrow> string" where
  "guardCommand wd t command cwd =
     (let cmd = trim_space command; lower = to_lower cmd in
      if list_ex (\<lambda>p. p lower) (et_denyPatterns t) then ''Command blocked by safety guard (dangerous pattern detected)''
      else if et_allowPatterns t \<noteq> [] \<and> \<not> list_ex (\<lambda>p. p lower) (et_allowPatterns t) then
        ''Command blocked by safety guard (not in allowlist)''
      else if et_restrictToWorkspace t then
        (if contains cmd [CHR ''.'', CHR ''.'', CHR 0x5C] \<or> contains cmd ''../'' then
           ''Command blocked by safety guard (path traversal detected)''
         else if first_outside wd (Abs wd cwd) (find_paths cmd) then
           ''Command blocked by safety guard (path outside working dir)''
         else [])
      else [])"

subsection \<open>Execution\<close>

text \<open>\<open>exec_plan\<close> is \<^verbatim>\<open>Execute\<close> up to the start of the command: a refusal, or the directory and the command.\<close>

definition exec_plan :: "string \<Rightarrow> (string \<Rightarrow> fs_error + string) \<Rightarrow> ExecTool \<Rightarrow> json_obj option \<Rightarrow> ToolResult + (string \<times> string)" where
  "exec_plan wd eval t args =
     (case string_arg args ''command'' of
        None \<Rightarrow> Inl (ErrorResult ''command is required'')
      | Some command \<Rightarrow>
          let chosen = (case string_arg args ''working_dir'' of
                  Some dir \<Rightarrow>
                    if dir = [] then Inr (et_workingDir t)
                    else if et_restrictToWorkspace t \<and> et_workingDir t \<noteq> [] then validatePath wd eval dir (et_workingDir t) True
                    else Inr dir
                | None \<Rightarrow> Inr (et_workingDir t))
          in case chosen of
               Inl e \<Rightarrow> Inl (ErrorResult (''Command blocked by safety guard ('' @ Error e @ '')''))
             | Inr cwd \<Rightarrow>
                 let cwd = (if cwd = [] then wd else cwd); guardError = guardCommand wd t command cwd
                 in if guardError \<noteq> [] then Inl (ErrorResult guardError) else Inr (cwd, command))"

text \<open>
  What became of a started command: its output, the error of \<^verbatim>\<open>Wait\<close>, and whether the deadline of the
  context had passed.
\<close>

datatype shell_outcome = Not_Started string | Ended (sh_stdout: string) (sh_stderr: string) (sh_error: "string option") (sh_deadline: bool)

definition max_output :: nat where "max_output = 10000"

definition exec_output :: "string \<Rightarrow> string \<Rightarrow> string option \<Rightarrow> string" where
  "exec_output stdout stderr err =
     (let output = stdout @ (if stderr \<noteq> [] then [nl] @ ''STDERR:'' @ [nl] @ stderr else []) @
            (case err of None \<Rightarrow> [] | Some e \<Rightarrow> [nl] @ ''Exit code: '' @ e);
          output = (if output = [] then ''(no output)'' else output)
      in if length output > max_output
         then take max_output output @ [nl] @ ''... (truncated, '' @ itoa (int (length output) - int max_output) @ '' more chars)''
         else output)"

definition exec_result :: "ExecTool \<Rightarrow> shell_outcome \<Rightarrow> ToolResult" where
  "exec_result t r =
     (case r of
        Not_Started err \<Rightarrow> ErrorResult (''failed to start command: '' @ err)
      | Ended stdout stderr err deadline \<Rightarrow>
          let failed = err \<noteq> None;
              text = (if failed \<and> deadline then ''Command timed out after '' @ duration_ms_string (et_timeout t div 1000000)
                      else exec_output stdout stderr err)
          in (NewToolResult text)\<lparr>tr_ForUser := text, tr_IsError := failed\<rparr>)"

definition ExecTool_Execute :: "string \<Rightarrow> (string \<Rightarrow> fs_error + string) \<Rightarrow> (string \<Rightarrow> string \<Rightarrow> 'w \<Rightarrow> 'w \<times> shell_outcome) \<Rightarrow>
    ExecTool \<Rightarrow> json_obj option \<Rightarrow> 'w \<Rightarrow> 'w \<times> ToolResult" where
  "ExecTool_Execute wd eval sh t args w =
     (case exec_plan wd eval t args of
        Inl refusal \<Rightarrow> (w, refusal)
      | Inr (cwd, command) \<Rightarrow> (case sh cwd command w of (w, r) \<Rightarrow> (w, exec_result t r)))"

subsection \<open>The guard on paths\<close>

lemma dotdot_prefix_path:
  assumes "list_all proper cs"
  shows "has_prefix ''..'' (path_of False cs) \<longleftrightarrow> cs \<noteq> [] \<and> has_prefix ''..'' (hd cs)"
proof (cases cs)
  case Nil
  then show ?thesis by (simp add: path_of_def has_prefix_def)
next
  case (Cons c ds)
  then have c: "c \<noteq> []" "c \<noteq> ''.''" "slash \<notin> set c" using assms by (auto simp: proper_def)
  have "has_prefix ''..'' (c @ slash # t) \<longleftrightarrow> has_prefix ''..'' c" for t
    using c by (cases c; cases "tl c") (auto simp: has_prefix_def)
  then show ?thesis using Cons by (cases "ds = []") (simp_all add: path_of_def join_Cons)
qed

text \<open>An absolute path passes when it lies in the directory and the name below it does not begin with two dots.\<close>

definition passes :: "string \<Rightarrow> string \<Rightarrow> bool" where
  "passes dir p \<longleftrightarrow> (\<exists>cs. clean_comps p = clean_comps dir @ cs \<and> (cs = [] \<or> \<not> has_prefix ''..'' (hd cs)))"

lemma guard_path_iff:
  assumes "IsAbs dir" "IsAbs p"
  shows "(\<exists>rel. Rel dir p = Some rel \<and> has_prefix ''..'' rel) \<longleftrightarrow> \<not> passes dir p"
proof (cases "prefix (clean_comps dir) (clean_comps p)")
  case True
  then obtain cs where cs: "clean_comps p = clean_comps dir @ cs" by (auto simp: prefix_def)
  then have "list_all proper cs" using abs_comps [OF assms(2)] by simp
  then show ?thesis using Rel_below [OF assms cs] cs dotdot_prefix_path [of cs] by (auto simp: passes_def)
next
  case False
  then obtain n ts where "Rel dir p = Some (join [slash] (replicate (Suc n) ''..'' @ ts))"
    using Rel_outside [OF assms] by blast
  moreover have "has_prefix ''..'' (join [slash] (replicate (Suc n) ''..'' @ ts))"
    by (cases "replicate n ''..'' @ ts") (simp_all add: has_prefix_def)
  ultimately show ?thesis using False by (auto simp: passes_def prefix_def)
qed

lemma Rel_abs: "IsAbs dir \<Longrightarrow> IsAbs p \<Longrightarrow> Rel dir p \<noteq> None"
  using Rel_below [of dir p] Rel_outside [of dir p] by (metis option.distinct(1) prefixE)

lemma first_outside_iff:
  assumes "IsAbs dir" "\<And>m. IsAbs (Abs wd m)"
  shows "first_outside wd dir ms \<longleftrightarrow> (\<exists>m \<in> set ms. \<not> passes dir (Abs wd m))"
proof (induction ms)
  case (Cons m ms)
  then show ?case using guard_path_iff [OF assms(1), of "Abs wd m"] assms(2) Rel_abs [OF assms(1) assms(2) [of m]] by auto
qed simp

lemma guard_accepts:
  assumes "IsAbs wd"
  shows "guardCommand wd t command cwd = [] \<longleftrightarrow>
    (\<forall>p \<in> set (et_denyPatterns t). \<not> p (to_lower (trim_space command))) \<and>
    (et_allowPatterns t = [] \<or> (\<exists>p \<in> set (et_allowPatterns t). p (to_lower (trim_space command)))) \<and>
    (et_restrictToWorkspace t \<longrightarrow>
       \<not> contains (trim_space command) [CHR ''.'', CHR ''.'', CHR 0x5C] \<and> \<not> contains (trim_space command) ''../'' \<and>
       (\<forall>m \<in> set (find_paths (trim_space command)). passes (Abs wd cwd) (Abs wd m)))"
  using first_outside_iff [of "Abs wd cwd" wd "find_paths (trim_space command)"] Abs_absolute [OF assms]
  by (auto simp: guardCommand_def Let_def list_ex_iff)

lemma exec_planD:
  assumes "exec_plan wd eval t args = Inr (cwd, command)"
  shows "string_arg args ''command'' = Some command \<and> guardCommand wd t command cwd = [] \<and>
    (\<exists>dir. cwd = (if dir = [] then wd else dir) \<and>
       (dir = et_workingDir t \<or>
        (\<exists>asked. string_arg args ''working_dir'' = Some asked \<and> asked \<noteq> [] \<and>
           (if et_restrictToWorkspace t \<and> et_workingDir t \<noteq> [] then validatePath wd eval asked (et_workingDir t) True = Inr dir
            else dir = asked))))"
  using assms unfolding exec_plan_def Let_def
  by (auto split: option.splits sum.splits if_splits)

lemma Clean_Abs: "IsAbs wd \<Longrightarrow> IsAbs p \<Longrightarrow> clean_comps (Abs wd p) = clean_comps p"
  by (simp add: Abs_def)

lemma exec_plan_inside:
  assumes "IsAbs wd" "et_restrictToWorkspace t" "et_workingDir t \<noteq> []" "exec_plan wd eval t args = Inr (cwd, command)"
  shows "prefix (clean_comps (Abs wd (et_workingDir t))) (clean_comps (Abs wd cwd))"
proof -
  obtain dir where dir: "cwd = (if dir = [] then wd else dir)" and c: "dir = et_workingDir t \<or>
      (\<exists>asked. validatePath wd eval asked (et_workingDir t) True = Inr dir)"
    using exec_planD [OF assms(4)] assms(2,3) by auto
  from c show ?thesis
  proof
    assume "dir = et_workingDir t"
    then show ?thesis using dir assms(3) by simp
  next
    assume "\<exists>asked. validatePath wd eval asked (et_workingDir t) True = Inr dir"
    then obtain asked where v: "validatePath wd eval asked (et_workingDir t) True = Inr dir" by blast
    note s = validatePath_lexical [OF assms(1) v]
    have "dir \<noteq> []" using s by (auto simp: IsAbs_def)
    then show ?thesis using s dir Clean_Abs [OF assms(1), of dir] by simp
  qed
qed

text \<open>
  What a restricted exec tool runs. It starts a command only in a directory that lies in the workspace,
  and only when the command, trimmed and lower-cased, matches no pattern of the deny list, does not
  contain a climbing path, and every path it spells out in full lies in that directory.
\<close>

theorem exec_confined:
  assumes "IsAbs wd" "et_restrictToWorkspace t" "et_workingDir t \<noteq> []"
    and "exec_plan wd eval t args = Inr (cwd, command)"
  shows "string_arg args ''command'' = Some command \<and>
    prefix (clean_comps (Abs wd (et_workingDir t))) (clean_comps (Abs wd cwd)) \<and>
    (\<forall>p \<in> set (et_denyPatterns t). \<not> p (to_lower (trim_space command))) \<and>
    \<not> contains (trim_space command) ''../'' \<and>
    (\<forall>m \<in> set (find_paths (trim_space command)). prefix (clean_comps (Abs wd cwd)) (clean_comps (Abs wd m)))"
proof -
  note p = exec_planD [OF assms(4)]
  have g: "guardCommand wd t command cwd = []" using p by blast
  then have "\<forall>m \<in> set (find_paths (trim_space command)). prefix (clean_comps (Abs wd cwd)) (clean_comps (Abs wd m))"
    using assms(2) unfolding guard_accepts [OF assms(1)] by (auto simp: passes_def)
  then show ?thesis using p g assms(2) exec_plan_inside [OF assms] unfolding guard_accepts [OF assms(1)] by blast
qed

subsection \<open>Gaps in the guard\<close>

lemma rx_match_needs: "Cls p \<in> set rs \<Longrightarrow> \<forall>c \<in> set s. \<not> p c \<Longrightarrow> rx_match rs prev s = None"
proof (induction rs prev s rule: rx_match.induct)
  case (9 rs prev s)
  then show ?case by (auto dest: in_set_dropD)
qed auto

lemma rx_find_needs: "Cls p \<in> set rs \<Longrightarrow> \<forall>c \<in> set s. \<not> p c \<Longrightarrow> rx_find rs prev s = None"
proof (induction s arbitrary: prev)
  case Nil
  then show ?case using rx_match_needs [of p rs "[]"] by simp
next
  case (Cons c s)
  then show ?case using rx_match_needs [of p rs "c # s"] by simp
qed

lemma lower_no_E: "CHR ''E'' \<notin> set (to_lower s)"
proof
  assume "CHR ''E'' \<in> set (to_lower s)"
  then obtain c where "CHR ''E'' = lower_char c" by (auto simp: to_lower_def)
  moreover have "is_upper (CHR ''E'')" by code_simp
  ultimately show False using not_is_upper_lower_char [of c] by simp
qed

text \<open>The pattern for here-documents is written in upper case and applied to the lower-cased command.\<close>

lemma heredoc_pattern_dead: "\<not> matches (defaultDenyPatterns ! 17) (to_lower s)"
proof -
  have p: "defaultDenyPatterns ! 17 = [lit ''<<'' @ blanks0 @ lit ''EOF'']" by (simp add: defaultDenyPatterns_def)
  have "Cls (\<lambda>c. c = CHR ''E'') \<in> set (lit ''<<'' @ blanks0 @ lit ''EOF'')" by (simp add: lit_def)
  from rx_find_needs [OF this, of "to_lower s" None] lower_no_E [of s] show ?thesis
    unfolding p by (auto simp: matches_def MatchString_def)
qed

definition no_compile :: "string \<Rightarrow> GoError + pattern" where
  "no_compile p = Inl (ErrNew ''unused'')"

definition shell_args :: "string \<Rightarrow> json_obj option" where
  "shell_args command = Some [(''command'', JStr command)]"

definition guarded :: ExecTool where
  "guarded = NewExecTool no_compile ''/w'' True"

theorem exec_confined_witness:
  "exec_plan ''/'' (eval_symlinks sample_disk) guarded (shell_args ''cat /w/a'') = Inr (''/w'', ''cat /w/a'') \<and>
   find_paths ''cat /w/a'' = [''/w/a''] \<and> prefix (clean_comps (Abs ''/'' ''/w'')) (clean_comps (Abs ''/'' ''/w/a''))"
proof -
  have x: "exec_plan ''/'' (eval_symlinks sample_disk) guarded (shell_args ''cat /w/a'') = Inr (''/w'', ''cat /w/a'')"
    "IsAbs ''/''" "et_restrictToWorkspace guarded" "et_workingDir guarded \<noteq> []"
    "find_paths (trim_space ''cat /w/a'') = [''/w/a'']" "trim_space ''cat /w/a'' = ''cat /w/a''" by code_simp+
  from exec_confined [OF x(2-4,1)] x show ?thesis by simp
qed

text \<open>
  The guard misses and over-reports. A change of directory without a trailing slash contains no climbing
  path and no full path, so the command that follows runs in the parent of the workspace; and a relative
  path with a directory in it is refused, because the pattern for full paths matches its tail.
\<close>

theorem guard_misses_parent:
  "exec_plan ''/'' (eval_symlinks sample_disk) guarded (shell_args ''cd .. && ls'') = Inr (''/w'', ''cd .. && ls'') \<and>
   exec_plan ''/'' (eval_symlinks sample_disk) guarded (shell_args ''cat src/main.go'') =
     Inl (ErrorResult ''Command blocked by safety guard (path outside working dir)'')"
  by code_simp

end
