(* ===== verification/Workspace_Tools.thy ===== *)
theory Workspace_Tools
  imports Shell
begin

text \<open>
  The tools that every agent gets for its workspace (\<^verbatim>\<open>pkg/agent/instance.go\<close>, \<^verbatim>\<open>NewAgentInstance\<close>): the five file
  tools and the exec tool with their schemas, registered in the registry of \<^verbatim>\<open>pkg/tools/registry.go\<close>. The world
  of these tools is the disk.
\<close>

subsection \<open>Schemas\<close>

definition string_param :: "string \<Rightarrow> string \<Rightarrow> string \<times> json" where
  "string_param name description = (name, JObj [(''type'', JStr ''string''), (''description'', JStr description)])"

definition object_schema :: "(string \<times> json) list \<Rightarrow> string list \<Rightarrow> json_obj" where
  "object_schema properties required =
     [(''type'', JStr ''object''), (''properties'', JObj properties), (''required'', JArr (map JStr required))]"

definition plain_tool :: "string \<Rightarrow> string \<Rightarrow> json_obj \<Rightarrow> (json_obj option \<Rightarrow> 'w \<Rightarrow> 'w \<times> ToolResult) \<Rightarrow> 'w Tool" where
  "plain_tool name description parameters execute =
     \<lparr>tl_Name = name, tl_Description = description, tl_Parameters = parameters, tl_SetContext = None, tl_SetCallback = None,
      tl_Execute = execute\<rparr>"

definition ReadFileTool :: "'d fileSystem \<Rightarrow> 'd Tool" where
  "ReadFileTool fs = plain_tool ''read_file'' ''Read the contents of a file''
     (object_schema [string_param ''path'' ''Path to the file to read''] [''path'']) (ReadFileTool_Execute fs)"

definition WriteFileTool :: "'d fileSystem \<Rightarrow> 'd Tool" where
  "WriteFileTool fs = plain_tool ''write_file'' ''Write content to a file''
     (object_schema [string_param ''path'' ''Path to the file to write'', string_param ''content'' ''Content to write to the file'']
        [''path'', ''content'']) (WriteFileTool_Execute fs)"

definition ListDirTool :: "'d fileSystem \<Rightarrow> 'd Tool" where
  "ListDirTool fs = plain_tool ''list_dir'' ''List files and directories in a path''
     (object_schema [string_param ''path'' ''Path to list''] [''path'']) (ListDirTool_Execute fs)"

definition EditFileTool :: "'d fileSystem \<Rightarrow> 'd Tool" where
  "EditFileTool fs = plain_tool ''edit_file''
     ''Edit a file by replacing old_text with new_text. The old_text must exist exactly in the file.''
     (object_schema [string_param ''path'' ''The file path to edit'', string_param ''old_text'' ''The exact text to find and replace'',
        string_param ''new_text'' ''The text to replace with''] [''path'', ''old_text'', ''new_text'']) (EditFileTool_Execute fs)"

definition AppendFileTool :: "'d fileSystem \<Rightarrow> 'd Tool" where
  "AppendFileTool fs = plain_tool ''append_file'' ''Append content to the end of a file''
     (object_schema [string_param ''path'' ''The file path to append to'', string_param ''content'' ''The content to append'']
        [''path'', ''content'']) (AppendFileTool_Execute fs)"

text \<open>Symbolic links are those of the disk at the time of the call.\<close>

definition exec_tool :: "string \<Rightarrow> (string \<Rightarrow> string \<Rightarrow> disk \<Rightarrow> disk \<times> shell_outcome) \<Rightarrow> ExecTool \<Rightarrow> disk Tool" where
  "exec_tool wd sh t = plain_tool ''exec'' ''Execute a shell command and return its output. Use with caution.''
     (object_schema [string_param ''command'' ''The shell command to execute'',
        string_param ''working_dir'' ''Optional working directory for the command''] [''command''])
     (\<lambda>args d. ExecTool_Execute wd (eval_symlinks d) sh t args d)"

definition workspace_tools :: "fs_env \<Rightarrow> (string \<Rightarrow> GoError + pattern) \<Rightarrow> (string \<Rightarrow> string \<Rightarrow> disk \<Rightarrow> disk \<times> shell_outcome) \<Rightarrow>
    string \<Rightarrow> bool \<Rightarrow> ExecConfig option \<Rightarrow> disk ToolRegistry" where
  "workspace_tools env Compile sh workspace restrict cfg =
     (let fs = tool_fs env workspace restrict;
          wd = path_of True (fe_wd env);
          r = NewToolRegistry;
          r = Register r (ReadFileTool fs);
          r = Register r (WriteFileTool fs);
          r = Register r (ListDirTool fs);
          r = Register r (exec_tool wd sh (NewExecToolWithConfig Compile workspace restrict cfg));
          r = Register r (EditFileTool fs)
      in Register r (AppendFileTool fs))"

subsection \<open>Confinement of an agent\<close>

lemma workspace_tools_get:
  "Get (workspace_tools env Compile sh workspace restrict cfg) name =
     (let fs = tool_fs env workspace restrict in
      if name = ''read_file'' then Some (ReadFileTool fs) else if name = ''write_file'' then Some (WriteFileTool fs)
      else if name = ''list_dir'' then Some (ListDirTool fs)
      else if name = ''exec'' then
        Some (exec_tool (path_of True (fe_wd env)) sh (NewExecToolWithConfig Compile workspace restrict cfg))
      else if name = ''edit_file'' then Some (EditFileTool fs) else if name = ''append_file'' then Some (AppendFileTool fs) else None)"
  by (simp add: workspace_tools_def Get_def Register_def NewToolRegistry_def Let_def update_conv' plain_tool_def
      ReadFileTool_def WriteFileTool_def ListDirTool_def exec_tool_def EditFileTool_def AppendFileTool_def)

lemma sandbox_tool_outside:
  assumes "tool \<in> {ReadFileTool_Execute, WriteFileTool_Execute, ListDirTool_Execute, EditFileTool_Execute, AppendFileTool_Execute}"
    and "tool (tool_fs env workspace True) args d = (d', r)" "node_at d' q \<noteq> node_at d q"
  shows "\<exists>root. locate Existing (host_place env workspace) d workspace = Inr root \<and> strict_prefix root q"
proof -
  have "fs_WriteFile (tool_fs env workspace True) = sandboxFs_WriteFile env workspace" by (simp add: tool_fs_def sandboxFs_def)
  then have "d' = d \<or> (\<exists>root. locate Existing (host_place env workspace) d workspace = Inr root \<and> same_outside root d d')"
    using tool_writes [OF assms(1,2)] by (metis prod.collapse sandbox_write_outside)
  with assms(3) show ?thesis by (auto simp: same_outside_def)
qed

lemma plain_tool_run:
  assumes "Get r name = Some (plain_tool n desc params execute)"
  shows "ExecuteWithContext r name args channel chatID cb w = execute args w"
  using assms by (simp add: ExecuteWithContext_def plain_tool_def)

lemma exec_tool_run:
  assumes "ExecTool_Execute wd eval sh t args w = (w', r)" "w' \<noteq> w"
  shows "\<exists>cwd command. exec_plan wd eval t args = Inr (cwd, command) \<and> w' = fst (sh cwd command w)"
  using assms by (auto simp: ExecTool_Execute_def split: sum.splits prod.splits)


definition quiet_shell :: "string \<Rightarrow> string \<Rightarrow> disk \<Rightarrow> disk \<times> shell_outcome" where
  "quiet_shell cwd command d = (d, Ended [] [] None False)"

definition sample_tools :: "disk ToolRegistry" where
  "sample_tools = workspace_tools sample_fs_env no_compile quiet_shell ''/w'' True None"

definition tool_call :: "string \<Rightarrow> string \<Rightarrow> disk \<times> ToolResult" where
  "tool_call name path = ExecuteWithContext sample_tools name (Some [(''path'', JStr path), (''content'', JStr ''new'')]) [] [] False sample_disk"


end
