(* ===== verification/Channels.thy ===== *)
theory Channels
  imports Bus "HOL-Library.AList"
begin

text \<open>
  The common part of the chat channels, \<^verbatim>\<open>pkg/channels/base.go\<close>, and the channel manager,
  \<^verbatim>\<open>pkg/channels/manager.go\<close>: the allow list, the hand-over of messages to the bus, the set-up, start and stop of
  the channels, and the dispatcher that takes outbound messages from the bus. A platform adapter is a
  record of the methods of the interface \<^verbatim>\<open>Channel\<close> over a world \<open>'w\<close>.
\<close>

subsection \<open>The base channel\<close>

record BaseChannel =
  bc_running :: bool
  bc_name :: string
  bc_allowList :: "string list"

definition NewBaseChannel :: "string \<Rightarrow> string list \<Rightarrow> BaseChannel" where
  "NewBaseChannel name allowList = \<lparr>bc_running = False, bc_name = name, bc_allowList = allowList\<rparr>"

definition setRunning :: "bool \<Rightarrow> BaseChannel \<Rightarrow> BaseChannel" where
  "setRunning running c = c\<lparr>bc_running := running\<rparr>"

definition bar :: char where "bar = CHR 0x7C"

text \<open>A compound identity \<^verbatim>\<open>id|user\<close>: its two parts, the second empty when there is no bar behind a first character.\<close>

definition split_identity :: "string \<Rightarrow> string \<times> string" where
  "split_identity s = (case index_of [bar] s of Some idx \<Rightarrow> if 0 < idx then (take idx s, drop (Suc idx) s) else (s, []) | None \<Rightarrow> (s, []))"

definition trim_at :: "string \<Rightarrow> string" where
  "trim_at s = (if has_prefix ''@'' s then tl s else s)"

definition entry_allows :: "string \<Rightarrow> string \<Rightarrow> bool" where
  "entry_allows senderID allowed =
     (case split_identity senderID of
        (idPart, userPart) \<Rightarrow>
          let trimmed = trim_at allowed in
          case split_identity trimmed of
            (allowedID, allowedUser) \<Rightarrow>
              senderID = allowed \<or> idPart = allowed \<or> senderID = trimmed \<or> idPart = trimmed \<or> idPart = allowedID \<or>
              (allowedUser \<noteq> [] \<and> senderID = allowedUser) \<or>
              (userPart \<noteq> [] \<and> (userPart = allowed \<or> userPart = trimmed \<or> userPart = allowedUser)))"

definition IsAllowed :: "BaseChannel \<Rightarrow> string \<Rightarrow> bool" where
  "IsAllowed c senderID \<longleftrightarrow> bc_allowList c = [] \<or> list_ex (entry_allows senderID) (bc_allowList c)"

definition HandleMessage :: "BaseChannel \<Rightarrow> string \<Rightarrow> string \<Rightarrow> string \<Rightarrow> string list \<Rightarrow> (string \<times> string) list \<Rightarrow>
    'h MessageBus \<Rightarrow> 'h MessageBus" where
  "HandleMessage c senderID chatID content media metadata mb =
     (if \<not> IsAllowed c senderID then mb
      else PublishInbound_enter mb \<lparr>im_Channel = bc_name c, im_SenderID = senderID, im_ChatID = chatID, im_Content = content,
             im_Media = media, im_SessionKey = [], im_Metadata = metadata\<rparr>)"

subsection \<open>The manager\<close>

record 'w Channel =
  cn_Start :: "'w \<Rightarrow> 'w \<times> GoError option"
  cn_Stop :: "'w \<Rightarrow> 'w \<times> GoError option"
  cn_Send :: "OutboundMessage \<Rightarrow> 'w \<Rightarrow> 'w \<times> GoError option"
  cn_IsRunning :: "'w \<Rightarrow> bool"

text \<open>
  \<open>cm_dispatchTask\<close> is the dispatcher whose cancel function the manager holds, \<open>cm_live\<close> are the dispatchers
  that were started and not cancelled.
\<close>

record 'w ChannelManager =
  cm_channels :: "(string \<times> 'w Channel) list"
  cm_dispatchTask :: "nat option"
  cm_live :: "nat list"
  cm_started :: nat

text \<open>The switches of \<^verbatim>\<open>ChannelsConfig\<close>: whether a channel is enabled, with the setting it cannot do without.\<close>

record ChannelsConfig =
  cc_WhatsApp :: "bool \<times> string"
  cc_Telegram :: "bool \<times> string"
  cc_Feishu :: bool
  cc_Discord :: "bool \<times> string"
  cc_MaixCam :: bool
  cc_QQ :: bool
  cc_DingTalk :: "bool \<times> string"
  cc_Slack :: "bool \<times> string"
  cc_LINE :: "bool \<times> string"
  cc_OneBot :: "bool \<times> string"
  cc_WeCom :: "bool \<times> string"
  cc_WeComApp :: "bool \<times> string"
  cc_XMPP :: "bool \<times> string"

definition wanted :: "bool \<times> string \<Rightarrow> bool" where
  "wanted s \<longleftrightarrow> fst s \<and> snd s \<noteq> []"

text \<open>\<open>new\<close> stands for the constructors of the adapters; one that fails is logged and left out.\<close>

definition init_channel :: "(string \<Rightarrow> GoError + 'w Channel) \<Rightarrow> string \<Rightarrow> bool \<Rightarrow> (string \<times> 'w Channel) list \<Rightarrow> (string \<times> 'w Channel) list" where
  "init_channel new name want channels =
     (if want then (case new name of Inl err \<Rightarrow> channels | Inr c \<Rightarrow> AList.update name c channels) else channels)"

definition initChineseChannels :: "(string \<Rightarrow> GoError + 'w Channel) \<Rightarrow> ChannelsConfig \<Rightarrow> (string \<times> 'w Channel) list \<Rightarrow> (string \<times> 'w Channel) list" where
  "initChineseChannels new cfg channels =
     init_channel new ''wecom_app'' (wanted (cc_WeComApp cfg))
     (init_channel new ''wecom'' (wanted (cc_WeCom cfg))
     (init_channel new ''onebot'' (wanted (cc_OneBot cfg))
     (init_channel new ''dingtalk'' (wanted (cc_DingTalk cfg))
     (init_channel new ''qq'' (cc_QQ cfg)
     (init_channel new ''feishu'' (cc_Feishu cfg) channels)))))"

definition initChannels :: "bool \<Rightarrow> (string \<Rightarrow> GoError + 'w Channel) \<Rightarrow> ChannelsConfig \<Rightarrow> (string \<times> 'w Channel) list" where
  "initChannels nochinese new cfg =
     (let cs = init_channel new ''telegram'' (wanted (cc_Telegram cfg)) [];
          cs = init_channel new ''whatsapp'' (wanted (cc_WhatsApp cfg)) cs;
          cs = (if nochinese then cs else initChineseChannels new cfg cs);
          cs = init_channel new ''discord'' (wanted (cc_Discord cfg)) cs;
          cs = init_channel new ''maixcam'' (cc_MaixCam cfg) cs;
          cs = init_channel new ''slack'' (wanted (cc_Slack cfg)) cs;
          cs = init_channel new ''line'' (wanted (cc_LINE cfg)) cs
      in init_channel new ''xmpp'' (wanted (cc_XMPP cfg)) cs)"

definition NewChannelManager :: "bool \<Rightarrow> (string \<Rightarrow> GoError + 'w Channel) \<Rightarrow> ChannelsConfig \<Rightarrow> 'w ChannelManager" where
  "NewChannelManager nochinese new cfg =
     \<lparr>cm_channels = initChannels nochinese new cfg, cm_dispatchTask = None, cm_live = [], cm_started = 0\<rparr>"

text \<open>The order of the list is the order of the iteration over the map; errors are logged only.\<close>

definition StartAll :: "'w ChannelManager \<Rightarrow> 'w \<Rightarrow> 'w ChannelManager \<times> 'w" where
  "StartAll m w =
     (if cm_channels m = [] then (m, w)
      else (m\<lparr>cm_dispatchTask := Some (cm_started m), cm_live := cm_live m @ [cm_started m], cm_started := cm_started m + 1\<rparr>,
            foldl (\<lambda>w (name, channel). fst (cn_Start channel w)) w (cm_channels m)))"

definition StopAll :: "'w ChannelManager \<Rightarrow> 'w \<Rightarrow> 'w ChannelManager \<times> 'w" where
  "StopAll m w =
     ((case cm_dispatchTask m of
         None \<Rightarrow> m
       | Some task \<Rightarrow> m\<lparr>cm_dispatchTask := None, cm_live := filter (\<lambda>t. t \<noteq> task) (cm_live m)\<rparr>),
      foldl (\<lambda>w (name, channel). fst (cn_Stop channel w)) w (cm_channels m))"

text \<open>One turn of the dispatcher after a message was received.\<close>

definition dispatch_message :: "'w ChannelManager \<Rightarrow> OutboundMessage \<Rightarrow> 'w \<Rightarrow> 'w" where
  "dispatch_message m msg w =
     (if IsInternalChannel (om_Channel msg) then w
      else case map_of (cm_channels m) (om_Channel msg) of
             None \<Rightarrow> w
           | Some channel \<Rightarrow> fst (cn_Send channel msg w))"

datatype ('h, 'w) dispatch = Next "'h MessageBus" 'w | Waits | Stopped | Crashed

definition dispatchOutbound_turn :: "'w ChannelManager \<Rightarrow> bool \<Rightarrow> bool \<Rightarrow> 'h MessageBus \<Rightarrow> 'w \<Rightarrow> ('h, 'w) dispatch" where
  "dispatchOutbound_turn m ctx_done take_ctx mb w =
     (if ctx_done then Stopped
      else case SubscribeOutbound mb ctx_done take_ctx of
             Done mb (msg, ok) \<Rightarrow> if \<not> ok then Next mb w else Next mb (dispatch_message m msg w)
           | Blocked \<Rightarrow> Waits
           | Panic \<Rightarrow> Crashed)"

definition GetChannel :: "'w ChannelManager \<Rightarrow> string \<Rightarrow> 'w Channel option" where
  "GetChannel m name = map_of (cm_channels m) name"

definition channel_status :: "'w ChannelManager \<Rightarrow> 'w \<Rightarrow> (string \<times> bool) list" where
  "channel_status m w = map (\<lambda>(name, channel). (name, cn_IsRunning channel w)) (cm_channels m)"

definition GetEnabledChannels :: "'w ChannelManager \<Rightarrow> string list" where
  "GetEnabledChannels m = map fst (cm_channels m)"

definition RegisterChannel :: "string \<Rightarrow> 'w Channel \<Rightarrow> 'w ChannelManager \<Rightarrow> 'w ChannelManager" where
  "RegisterChannel name channel m = m\<lparr>cm_channels := AList.update name channel (cm_channels m)\<rparr>"

definition UnregisterChannel :: "string \<Rightarrow> 'w ChannelManager \<Rightarrow> 'w ChannelManager" where
  "UnregisterChannel name m = m\<lparr>cm_channels := AList.delete name (cm_channels m)\<rparr>"

definition SendToChannel :: "string \<Rightarrow> string \<Rightarrow> string \<Rightarrow> 'w ChannelManager \<Rightarrow> 'w \<Rightarrow> 'w \<times> GoError option" where
  "SendToChannel channelName chatID content m w =
     (case map_of (cm_channels m) channelName of
        None \<Rightarrow> (w, Some (ErrNew (''channel '' @ channelName @ '' not found'')))
      | Some channel \<Rightarrow> cn_Send channel \<lparr>om_Channel = channelName, om_ChatID = chatID, om_Content = content\<rparr> w)"

subsection \<open>The allow list\<close>

lemma split_plain: "bar \<notin> set s \<Longrightarrow> split_identity s = (s, [])"
proof -
  assume "bar \<notin> set s"
  then have "index_of [bar] s = None" by (simp only: index_of_single_None not_False_eq_True)
  then show ?thesis by (simp add: split_identity_def)
qed

lemma split_compound: "bar \<notin> set a \<Longrightarrow> a \<noteq> [] \<Longrightarrow> split_identity (a @ bar # b) = (a, b)"
  by (simp add: split_identity_def index_of_single_append)

lemma trim_at_id: "hd s \<noteq> CHR ''@'' \<Longrightarrow> trim_at s = s"
  by (cases s) (auto simp: trim_at_def)

lemma trim_at_cons: "trim_at (CHR ''@'' # s) = s"
  by (simp add: trim_at_def)

text \<open>A name of an account: not empty, without bars, not starting with an at sign.\<close>

definition account_name :: "string \<Rightarrow> bool" where
  "account_name s \<longleftrightarrow> s \<noteq> [] \<and> bar \<notin> set s \<and> hd s \<noteq> CHR ''@''"

lemma no_bar_neq: "bar \<notin> set s \<Longrightarrow> s \<noteq> a @ bar # b" "bar \<notin> set s \<Longrightarrow> a @ bar # b \<noteq> s"
  by auto

lemma append_bar_eq: "bar \<notin> set a \<Longrightarrow> bar \<notin> set c \<Longrightarrow> a @ bar # b = c @ bar # d \<longleftrightarrow> a = c \<and> b = d"
proof
  assume c: "bar \<notin> set a" "bar \<notin> set c" and e: "a @ bar # b = c @ bar # d"
  have "takeWhile (\<lambda>x. x \<noteq> bar) a = a" "takeWhile (\<lambda>x. x \<noteq> bar) c = c" using c by (auto simp: takeWhile_eq_all_conv)
  with arg_cong [OF e, of "takeWhile (\<lambda>x. x \<noteq> bar)"] have "a = c" by (simp add: takeWhile_tail)
  with e show "a = c \<and> b = d" by simp
qed simp

lemma at_sign_neq: "account_name s \<Longrightarrow> s \<noteq> CHR ''@'' # t"
  by (auto simp: account_name_def)

text \<open>(C24) 
  Whom the allow list admits. An account with identifier \<open>i\<close> and user name \<open>u\<close> is admitted by an entry with one
  name (with or without an at sign) when that is its identifier or its user name, and by a compound entry when
  the identifiers agree or the user names agree; an account known by \<open>i\<close> alone, by an entry that names \<open>i\<close> in
  either place. With a nonempty list nobody else gets a message onto the bus.
\<close>

theorem allow_list_meaning:
  assumes "account_name i" "account_name u" "account_name n" "account_name a" "account_name b"
  shows "(entry_allows (i @ bar # u) n \<longleftrightarrow> i = n \<or> u = n) \<and>
    (entry_allows (i @ bar # u) (CHR ''@'' # n) \<longleftrightarrow> i = n \<or> u = n) \<and>
    (entry_allows (i @ bar # u) (a @ bar # b) \<longleftrightarrow> i = a \<or> u = b) \<and>
    (entry_allows i n \<longleftrightarrow> i = n) \<and>
    (entry_allows i (CHR ''@'' # n) \<longleftrightarrow> i = n) \<and>
    (entry_allows i (a @ bar # b) \<longleftrightarrow> i = a \<or> i = b) \<and>
    (\<forall>c senderID chatID content media metadata mb. bc_allowList c \<noteq> [] \<longrightarrow>
       \<not> list_ex (entry_allows senderID) (bc_allowList c) \<longrightarrow>
       HandleMessage c senderID chatID content media metadata (mb :: 'h MessageBus) = mb)"
proof -
  have nb: "bar \<notin> set i" "bar \<notin> set u" "bar \<notin> set n" "bar \<notin> set a" "bar \<notin> set b"
    and ne: "i \<noteq> []" "u \<noteq> []" "n \<noteq> []" "a \<noteq> []" "b \<noteq> []"
    and hd: "hd i \<noteq> CHR ''@''" "hd n \<noteq> CHR ''@''" "hd a \<noteq> CHR ''@''"
    using assms by (auto simp: account_name_def)
  have t: "trim_at n = n" "trim_at (CHR ''@'' # n) = n" "trim_at (a @ bar # b) = a @ bar # b"
    using hd ne by (simp_all add: trim_at_id trim_at_cons)
  have s: "split_identity (i @ bar # u) = (i, u)" "split_identity i = (i, [])" "split_identity n = (n, [])"
    "split_identity (a @ bar # b) = (a, b)" using nb ne by (simp_all add: split_plain split_compound)
  note neq = no_bar_neq [OF nb(1)] no_bar_neq [OF nb(2)] no_bar_neq [OF nb(3)] no_bar_neq [OF nb(5)]
    at_sign_neq [OF assms(1)] at_sign_neq [OF assms(2)]
  have at: "i @ bar # u \<noteq> CHR ''@'' # n" using hd ne by (cases i) auto
  have c: "(entry_allows (i @ bar # u) n \<longleftrightarrow> i = n \<or> u = n)" "(entry_allows i n \<longleftrightarrow> i = n)"
    using ne neq unfolding entry_allows_def t s Let_def by auto
  have d: "(entry_allows (i @ bar # u) (CHR ''@'' # n) \<longleftrightarrow> i = n \<or> u = n)" "(entry_allows i (CHR ''@'' # n) \<longleftrightarrow> i = n)"
    using ne neq at unfolding entry_allows_def t s Let_def prod.case by auto
  have e: "(entry_allows (i @ bar # u) (a @ bar # b) \<longleftrightarrow> i = a \<or> u = b)" "(entry_allows i (a @ bar # b) \<longleftrightarrow> i = a \<or> i = b)"
    using ne neq append_bar_eq [OF nb(1,4)] unfolding entry_allows_def t s Let_def prod.case by auto
  show ?thesis using c d e by (simp add: HandleMessage_def IsAllowed_def)
qed

theorem allow_list_meaning_witness:
  "entry_allows ''123|alice'' ''@alice'' \<and> \<not> entry_allows ''123|alice'' ''9|bob'' \<and> entry_allows ''123'' ''123|alice''"
proof -
  have n: "account_name ''123''" "account_name ''alice''" "account_name ''9''" "account_name ''bob''" by code_simp+
  have e: "''123'' @ bar # ''alice'' = ''123|alice''" "''9'' @ bar # ''bob'' = ''9|bob''" by code_simp+
  show ?thesis
    using allow_list_meaning [OF n(1,2,2,3,4), where 'h = unit] allow_list_meaning [OF n(1,2,2,1,2), where 'h = unit]
    unfolding e by simp
qed

text \<open>An entry that is meant as an identifier also admits an account that carries it as its user name.\<close>

lemma user_name_impersonates_id: "IsAllowed (NewBaseChannel ''telegram'' [''12345'']) ''999|12345''"
  by code_simp

subsection \<open>The dispatcher\<close>

fun dispatch_turns :: "'w ChannelManager \<Rightarrow> nat \<Rightarrow> 'h MessageBus \<Rightarrow> 'w \<Rightarrow> ('h MessageBus \<times> 'w) option" where
  "dispatch_turns m 0 mb w = Some (mb, w)"
| "dispatch_turns m (Suc n) mb w =
     (case dispatchOutbound_turn m False False mb w of Next mb w \<Rightarrow> dispatch_turns m n mb w | _ \<Rightarrow> None)"

definition deliverable :: "'w ChannelManager \<Rightarrow> OutboundMessage \<Rightarrow> bool" where
  "deliverable m msg \<longleftrightarrow> \<not> IsInternalChannel (om_Channel msg) \<and> map_of (cm_channels m) (om_Channel msg) \<noteq> None"

definition deliver :: "'w ChannelManager \<Rightarrow> 'w \<Rightarrow> OutboundMessage \<Rightarrow> 'w" where
  "deliver m w msg = fst (cn_Send (the (map_of (cm_channels m) (om_Channel msg))) msg w)"

lemma dispatch_message_deliver: "dispatch_message m msg w = (if deliverable m msg then deliver m w msg else w)"
  by (auto simp: dispatch_message_def deliverable_def deliver_def split: option.split)

lemma turn_receives:
  "ch_buf (mb_outbound mb) = msg # rest \<Longrightarrow> dispatchOutbound_turn m False take_ctx mb w =
     Next (mb\<lparr>mb_outbound := (mb_outbound mb)\<lparr>ch_buf := rest\<rparr>\<rparr>) (dispatch_message m msg w)"
  by (simp add: dispatchOutbound_turn_def SubscribeOutbound_def chan_recv_def)

text \<open>(C25) 
  The dispatcher delivers. With the messages \<open>xs\<close> waiting on the bus, as many turns hand exactly those that
  are for a registered channel and not for an internal one to the adapter of their channel, each once and in
  the order they were published; the bus is then drained, and the dispatcher waits unless the bus was closed.
\<close>

theorem dispatch_in_order:
  assumes "ch_buf (mb_outbound (mb :: 'h MessageBus)) = xs"
  shows "\<exists>mb'. dispatch_turns m (length xs) mb w = Some (mb', foldl (deliver m) w (filter (deliverable m) xs)) \<and>
    ch_buf (mb_outbound mb') = [] \<and>
    (\<not> ch_closed (mb_outbound mb) \<longrightarrow> dispatchOutbound_turn m False False mb' (w' :: 'w) = Waits)"
  using assms
proof (induction xs arbitrary: mb w)
  case Nil
  then show ?case by (simp add: dispatchOutbound_turn_def SubscribeOutbound_def chan_recv_def)
next
  case (Cons msg rest)
  let ?mb = "mb\<lparr>mb_outbound := (mb_outbound mb)\<lparr>ch_buf := rest\<rparr>\<rparr>"
  from Cons.IH [of ?mb "dispatch_message m msg w"]
  show ?case using turn_receives [OF Cons.prems, of m False w]
    by (cases "deliverable m msg") (simp_all add: dispatch_message_deliver)
qed

definition logging_channel :: "OutboundMessage list Channel" where
  "logging_channel = \<lparr>cn_Start = (\<lambda>w. (w, None)), cn_Stop = (\<lambda>w. (w, None)), cn_Send = (\<lambda>msg w. (w @ [msg], None)),
     cn_IsRunning = (\<lambda>w. True)\<rparr>"

definition sample_channels :: "OutboundMessage list ChannelManager" where
  "sample_channels = \<lparr>cm_channels = [(''telegram'', logging_channel)], cm_dispatchTask = None, cm_live = [], cm_started = 0\<rparr>"

definition outbound :: "string \<Rightarrow> OutboundMessage" where
  "outbound channel = \<lparr>om_Channel = channel, om_ChatID = ''1'', om_Content = ''hi''\<rparr>"

definition sample_out_bus :: "unit MessageBus" where
  "sample_out_bus = NewMessageBus\<lparr>mb_outbound := (make_chan 100)\<lparr>ch_buf := [outbound ''telegram'', outbound ''cli'', outbound ''slack'']\<rparr>\<rparr>"

theorem dispatch_in_order_witness:
  "\<exists>mb'. dispatch_turns sample_channels 3 sample_out_bus [] = Some (mb', [outbound ''telegram'']) \<and> ch_buf (mb_outbound mb') = []"
proof -
  let ?xs = "[outbound ''telegram'', outbound ''cli'', outbound ''slack'']"
  have "ch_buf (mb_outbound sample_out_bus) = ?xs" by (simp add: sample_out_bus_def)
  moreover have "foldl (deliver sample_channels) [] (filter (deliverable sample_channels) ?xs) = [outbound ''telegram'']" by code_simp
  ultimately show ?thesis using dispatch_in_order [of sample_out_bus ?xs sample_channels "[]" "[]"] by (auto simp: eval_nat_numeral)
qed

text \<open>After the bus was closed and drained, the dispatcher turns without waiting until its context ends.\<close>

lemma dispatcher_spins:
  assumes "ch_buf (mb_outbound mb) = []" "ch_closed (mb_outbound mb)" "map_of (cm_channels m) [] = None"
  shows "dispatchOutbound_turn m False False mb w = Next mb w"
proof -
  have "mb\<lparr>mb_outbound := mb_outbound mb\<rparr> = mb" by simp
  then show ?thesis using assms
    by (simp add: dispatchOutbound_turn_def SubscribeOutbound_def chan_recv_def dispatch_message_def zero_outbound_def)
qed

text \<open>A second \<open>StartAll\<close> forgets the first dispatcher: \<open>StopAll\<close> cancels the second one only.\<close>

lemma dispatcher_leaks:
  assumes "cm_channels m \<noteq> []" "cm_live m = []"
  shows "cm_live (fst (StopAll (fst (StartAll (fst (StartAll m w)) w)) w)) = [cm_started m]"
  using assms by (simp add: StartAll_def StopAll_def)

text \<open>The manager keeps one channel per name.\<close>

lemma manager_distinct:
  "distinct (map fst (initChannels nochinese new cfg))"
  "distinct (map fst (cm_channels m)) \<Longrightarrow> distinct (map fst (cm_channels (RegisterChannel name c m)))"
  "distinct (map fst (cm_channels m)) \<Longrightarrow> distinct (map fst (cm_channels (UnregisterChannel name m)))"
proof -
  have i: "distinct (map fst cs) \<Longrightarrow> distinct (map fst (init_channel new name want cs))" for name want cs
    by (auto simp: init_channel_def distinct_update split: sum.split)
  show "distinct (map fst (initChannels nochinese new cfg))"
    unfolding initChannels_def initChineseChannels_def Let_def by (simp add: i)
qed (simp_all add: RegisterChannel_def UnregisterChannel_def distinct_update distinct_delete)

end
