(* ===== verification/Subagent.thy ===== *)
theory Subagent
  imports Agent_Loop Bus
begin

text \<open>
  Background agents: the manager and the synchronous tool of \<^verbatim>\<open>pkg/tools/subagent.go\<close>, the
  spawn tool of \<^verbatim>\<open>spawn.go\<close>, and how \<^verbatim>\<open>registerSharedTools\<close> of
  \<^verbatim>\<open>pkg/agent/loop.go\<close> sets them up.

  \<open>Spawn\<close> starts a goroutine per task. The goroutine is a program counter (\<open>phase\<close>) in \<open>ss_procs\<close>,
  and \<open>runTask\<close> is cut at the points where other goroutines can interfere: \<open>task_start\<close> (up to the
  snapshot of the settings), \<open>task_loop\<close> (the tool loop), \<open>task_finish\<close> (taking the lock and storing
  the result), \<open>task_enter\<close> and \<open>task_send\<close> (the publication, still under the lock) and \<open>task_call\<close>
  (the callback, after the lock is released). \<open>ss_lock\<close> is the task that holds the manager's mutex
  across steps. A history is a sequence of such steps, interleaved with the steps of the other users
  of the bus.
\<close>

subsection \<open>Tasks and the manager\<close>

record SubagentTask =
  st_ID :: string
  st_Task :: string
  st_Label :: string
  st_AgentID :: string
  st_OriginChannel :: string
  st_OriginChatID :: string
  st_Status :: string
  st_Result :: string
  st_Created :: int

record 'w SubagentManager =
  sm_tasks :: "(string \<times> SubagentTask) list"
  sm_provider :: "'w chat"
  sm_defaultModel :: string
  sm_workspace :: string
  sm_tools :: "'w ToolRegistry"
  sm_maxIterations :: int
  sm_maxTokens :: int
  sm_temperature :: string
  sm_hasMaxTokens :: bool
  sm_hasTemperature :: bool
  sm_nextID :: int

definition NewSubagentManager :: "'w chat \<Rightarrow> string \<Rightarrow> string \<Rightarrow> 'w SubagentManager" where
  "NewSubagentManager provider defaultModel workspace =
     \<lparr>sm_tasks = [], sm_provider = provider, sm_defaultModel = defaultModel, sm_workspace = workspace,
      sm_tools = NewToolRegistry, sm_maxIterations = 10, sm_maxTokens = 0, sm_temperature = ''0'',
      sm_hasMaxTokens = False, sm_hasTemperature = False, sm_nextID = 1\<rparr>"

definition SetLLMOptions :: "int \<Rightarrow> string \<Rightarrow> 'w SubagentManager \<Rightarrow> 'w SubagentManager" where
  "SetLLMOptions maxTokens temperature sm =
     sm\<lparr>sm_maxTokens := maxTokens, sm_hasMaxTokens := True, sm_temperature := temperature, sm_hasTemperature := True\<rparr>"

definition SetTools :: "'w ToolRegistry \<Rightarrow> 'w SubagentManager \<Rightarrow> 'w SubagentManager" where
  "SetTools tools sm = sm\<lparr>sm_tools := tools\<rparr>"

definition RegisterTool :: "'w Tool \<Rightarrow> 'w SubagentManager \<Rightarrow> 'w SubagentManager" where
  "RegisterTool tool sm = sm\<lparr>sm_tools := Tools.Register (sm_tools sm) tool\<rparr>"

definition GetTask :: "'w SubagentManager \<Rightarrow> string \<Rightarrow> SubagentTask option" where
  "GetTask sm taskID = map_of (sm_tasks sm) taskID"

definition ListTasks :: "'w SubagentManager \<Rightarrow> SubagentTask list" where
  "ListTasks sm = map snd (sm_tasks sm)"

definition task_id :: "int \<Rightarrow> string" where
  "task_id n = ''subagent-'' @ itoa n"

text \<open>The options and the configuration of the tool loop, which \<open>runTask\<close> and the synchronous tool
  build in the same way.\<close>

definition subagent_options :: "'w SubagentManager \<Rightarrow> json_obj option" where
  "subagent_options sm =
     (if sm_hasMaxTokens sm \<or> sm_hasTemperature sm
      then Some ((if sm_hasMaxTokens sm then [(''max_tokens'', JNum (itoa (sm_maxTokens sm)))] else []) @
                 (if sm_hasTemperature sm then [(''temperature'', JNum (sm_temperature sm))] else []))
      else None)"

definition subagent_config :: "'w SubagentManager \<Rightarrow> 'w ToolLoopConfig" where
  "subagent_config sm =
     \<lparr>tlc_Provider = sm_provider sm, tlc_Model = sm_defaultModel sm, tlc_Tools = Some (sm_tools sm),
      tlc_MaxIterations = sm_maxIterations sm, tlc_LLMOptions = subagent_options sm\<rparr>"

definition task_messages :: "string \<Rightarrow> Message list" where
  "task_messages task =
     [text_message ''system'' (''You are a subagent. Complete the given task independently and report the result.'' @ [nl] @
        ''You have access to tools - use them as needed to complete your task.'' @ [nl] @
        ''After completing the task, provide a clear summary of what was done.''),
      text_message ''user'' task]"

subsection \<open>The goroutines\<close>

datatype 'w phase =
    Starting
  | Looping "'w ToolLoopConfig"
  | Finishing "GoError + ToolLoopResult"
  | Announcing ToolResult
  | Publishing ToolResult InboundMessage
  | Calling ToolResult
  | Ended

record ('w, 'h) sub_sys =
  ss_sm :: "'w SubagentManager"
  ss_bus :: "'h MessageBus option"
  ss_world :: 'w
  ss_procs :: "string \<rightharpoonup> 'w phase"
  ss_callback :: "string \<Rightarrow> bool"
  ss_lock :: "string option"
  ss_called :: "(string \<times> ToolResult) list"

definition map_task :: "string \<Rightarrow> (SubagentTask \<Rightarrow> SubagentTask) \<Rightarrow> 'w SubagentManager \<Rightarrow> 'w SubagentManager" where
  "map_task taskID f sm = sm\<lparr>sm_tasks := map (\<lambda>(k, t). (k, if k = taskID then f t else t)) (sm_tasks sm)\<rparr>"

definition Spawn :: "int \<Rightarrow> string \<Rightarrow> string \<Rightarrow> string \<Rightarrow> string \<Rightarrow> string \<Rightarrow> bool \<Rightarrow> ('w, 'h) sub_sys \<Rightarrow>
    (('w, 'h) sub_sys, string) outcome" where
  "Spawn now task label agentID originChannel originChatID callback s =
     (if ss_lock s \<noteq> None then Blocked
      else let sm = ss_sm s; taskID = task_id (sm_nextID sm);
               subagentTask = \<lparr>st_ID = taskID, st_Task = task, st_Label = label, st_AgentID = agentID,
                 st_OriginChannel = originChannel, st_OriginChatID = originChatID, st_Status = ''running'',
                 st_Result = [], st_Created = now\<rparr>;
               sm = sm\<lparr>sm_nextID := sm_nextID sm + 1, sm_tasks := AList.update taskID subagentTask (sm_tasks sm)\<rparr>
           in Done (s\<lparr>ss_sm := sm, ss_procs := (ss_procs s)(taskID \<mapsto> Starting),
                     ss_callback := (ss_callback s)(taskID := callback)\<rparr>)
                (if label \<noteq> [] then ''Spawned subagent '' @ [CHR 0x27] @ label @ [CHR 0x27] @ '' for task: '' @ task
                 else ''Spawned subagent for task: '' @ task))"

definition task_start :: "string \<Rightarrow> int \<Rightarrow> bool \<Rightarrow> ('w, 'h) sub_sys \<Rightarrow> (('w, 'h) sub_sys, unit) outcome" where
  "task_start taskID now ctx_done s =
     (case ss_procs s taskID of
        Some Starting \<Rightarrow>
          if ss_lock s \<noteq> None then Blocked
          else let sm = map_task taskID (\<lambda>t. t\<lparr>st_Status := ''running'', st_Created := now\<rparr>) (ss_sm s) in
            if ctx_done
            then Done (s\<lparr>ss_sm := map_task taskID
                          (\<lambda>t. t\<lparr>st_Status := ''canceled'', st_Result := ''Task canceled before execution''\<rparr>) sm,
                        ss_procs := (ss_procs s)(taskID \<mapsto> Ended)\<rparr>) ()
            else Done (s\<lparr>ss_sm := sm, ss_procs := (ss_procs s)(taskID \<mapsto> Looping (subagent_config sm))\<rparr>) ()
      | _ \<Rightarrow> Blocked)"

definition task_loop :: "json_codec \<Rightarrow> string \<Rightarrow> ('w, 'h) sub_sys \<Rightarrow> (('w, 'h) sub_sys, unit) outcome" where
  "task_loop codec taskID s =
     (case (ss_procs s taskID, map_of (sm_tasks (ss_sm s)) taskID) of
        (Some (Looping config), Some t) \<Rightarrow>
          (let (w, prompts, r) = RunToolLoop codec config (task_messages (st_Task t))
                 (st_OriginChannel t) (st_OriginChatID t) (ss_world s)
           in Done (s\<lparr>ss_world := w, ss_procs := (ss_procs s)(taskID \<mapsto> Finishing r)\<rparr>) ())
      | _ \<Rightarrow> Blocked)"

definition task_outcome :: "SubagentTask \<Rightarrow> bool \<Rightarrow> GoError + ToolLoopResult \<Rightarrow> SubagentTask \<times> ToolResult" where
  "task_outcome t ctx_err r =
     (case r of
        Inl err \<Rightarrow>
          let t = t\<lparr>st_Status := ''failed'', st_Result := ''Error: '' @ error_text err\<rparr>;
              t = (if ctx_err then t\<lparr>st_Status := ''canceled'', st_Result := ''Task canceled during execution''\<rparr> else t)
          in (t, \<lparr>tr_ForLLM = st_Result t, tr_ForUser = [], tr_Silent = False, tr_IsError = True, tr_Async = False,
                  tr_Err = Some err\<rparr>)
      | Inr loopResult \<Rightarrow>
          (t\<lparr>st_Status := ''completed'', st_Result := tlr_Content loopResult\<rparr>,
           \<lparr>tr_ForLLM = ''Subagent '' @ [CHR 0x27] @ st_Label t @ [CHR 0x27] @ '' completed (iterations: '' @
              itoa (tlr_Iterations loopResult) @ ''): '' @ tlr_Content loopResult,
            tr_ForUser = tlr_Content loopResult, tr_Silent = False, tr_IsError = False, tr_Async = False,
            tr_Err = None\<rparr>))"

definition task_finish :: "string \<Rightarrow> bool \<Rightarrow> ('w, 'h) sub_sys \<Rightarrow> (('w, 'h) sub_sys, unit) outcome" where
  "task_finish taskID ctx_err s =
     (case (ss_procs s taskID, map_of (sm_tasks (ss_sm s)) taskID) of
        (Some (Finishing r), Some t) \<Rightarrow>
          if ss_lock s \<noteq> None then Blocked
          else let (t', result) = task_outcome t ctx_err r in
            Done (s\<lparr>ss_lock := Some taskID, ss_sm := map_task taskID (\<lambda>_. t') (ss_sm s),
                    ss_procs := (ss_procs s)(taskID \<mapsto> Announcing result)\<rparr>) ()
      | _ \<Rightarrow> Blocked)"

definition announcement :: "SubagentTask \<Rightarrow> InboundMessage" where
  "announcement t =
     \<lparr>im_Channel = ''system'', im_SenderID = ''subagent:'' @ st_ID t,
      im_ChatID = st_OriginChannel t @ '':'' @ st_OriginChatID t,
      im_Content = ''Task '' @ [CHR 0x27] @ st_Label t @ [CHR 0x27] @ '' completed.'' @ [nl, nl] @ ''Result:'' @ [nl] @ st_Result t,
      im_Media = [], im_SessionKey = [], im_Metadata = []\<rparr>"

text \<open>The publication. On a closed bus, and without a bus, nothing is published and the lock is
  released; otherwise the task enters the bus and keeps the manager's lock until the send is done.\<close>

definition task_release :: "string \<Rightarrow> ToolResult \<Rightarrow> ('w, 'h) sub_sys \<Rightarrow> ('w, 'h) sub_sys" where
  "task_release taskID result s = s\<lparr>ss_lock := None, ss_procs := (ss_procs s)(taskID \<mapsto> Calling result)\<rparr>"

definition task_enter :: "string \<Rightarrow> ('w, 'h) sub_sys \<Rightarrow> (('w, 'h) sub_sys, unit) outcome" where
  "task_enter taskID s =
     (case (ss_procs s taskID, map_of (sm_tasks (ss_sm s)) taskID) of
        (Some (Announcing result), Some t) \<Rightarrow>
          (case ss_bus s of
             None \<Rightarrow> Done (task_release taskID result s) ()
           | Some mb \<Rightarrow>
               if mb_closed mb then Done (task_release taskID result s) ()
               else Done (s\<lparr>ss_bus := Some (PublishInbound_enter mb (announcement t)),
                           ss_procs := (ss_procs s)(taskID \<mapsto> Publishing result (announcement t))\<rparr>) ())
      | _ \<Rightarrow> Blocked)"

definition task_send :: "string \<Rightarrow> ('w, 'h) sub_sys \<Rightarrow> (('w, 'h) sub_sys, unit) outcome" where
  "task_send taskID s =
     (case (ss_procs s taskID, ss_bus s) of
        (Some (Publishing result m), Some mb) \<Rightarrow>
          (case PublishInbound_send mb m of
             Done mb' _ \<Rightarrow> Done (task_release taskID result (s\<lparr>ss_bus := Some mb'\<rparr>)) ()
           | Blocked \<Rightarrow> Blocked
           | Panic \<Rightarrow> Panic)
      | _ \<Rightarrow> Blocked)"

definition task_call :: "string \<Rightarrow> ('w, 'h) sub_sys \<Rightarrow> (('w, 'h) sub_sys, unit) outcome" where
  "task_call taskID s =
     (case ss_procs s taskID of
        Some (Calling result) \<Rightarrow>
          Done (s\<lparr>ss_called := ss_called s @ (if ss_callback s taskID then [(taskID, result)] else []),
                 ss_procs := (ss_procs s)(taskID \<mapsto> Ended)\<rparr>) ()
      | _ \<Rightarrow> Blocked)"

subsection \<open>Histories\<close>

datatype 'h sub_event =
    SpawnTask int string string string string string bool
  | Start string int bool
  | Loop string
  | Finish string bool
  | Enter string
  | Send string
  | Call string
  | Other "'h bus_event"

text \<open>The other users of the bus publish messages of the chat channels, never of the channel
  \<^verbatim>\<open>system\<close>, which is reserved for announcements.\<close>

fun foreign :: "'h bus_event \<Rightarrow> bool" where
  "foreign (EnterIn m) \<longleftrightarrow> im_Channel m \<noteq> ''system''"
| "foreign (SendIn m) \<longleftrightarrow> im_Channel m \<noteq> ''system''"
| "foreign _ \<longleftrightarrow> True"

definition on_bus :: "('h MessageBus \<Rightarrow> ('h MessageBus, 'r) outcome) \<Rightarrow> ('w, 'h) sub_sys \<Rightarrow> (('w, 'h) sub_sys, unit) outcome" where
  "on_bus f s =
     (case ss_bus s of
        None \<Rightarrow> Blocked
      | Some mb \<Rightarrow> (case f mb of Done mb' _ \<Rightarrow> Done (s\<lparr>ss_bus := Some mb'\<rparr>) () | Blocked \<Rightarrow> Blocked | Panic \<Rightarrow> Panic))"

fun sub_step :: "json_codec \<Rightarrow> ('w, 'h) sub_sys \<Rightarrow> 'h sub_event \<Rightarrow> (('w, 'h) sub_sys, unit) outcome" where
  "sub_step codec s (SpawnTask now task label agentID channel chatID callback) =
     drop_reply (Spawn now task label agentID channel chatID callback s)"
| "sub_step codec s (Start taskID now ctx_done) = task_start taskID now ctx_done s"
| "sub_step codec s (Loop taskID) = task_loop codec taskID s"
| "sub_step codec s (Finish taskID ctx_err) = task_finish taskID ctx_err s"
| "sub_step codec s (Enter taskID) = task_enter taskID s"
| "sub_step codec s (Send taskID) = task_send taskID s"
| "sub_step codec s (Call taskID) = task_call taskID s"
| "sub_step codec s (Other e) = (if foreign e then on_bus (\<lambda>mb. bus_step mb e) s else Blocked)"

definition sub_init :: "'w SubagentManager \<Rightarrow> 'h MessageBus option \<Rightarrow> 'w \<Rightarrow> ('w, 'h) sub_sys" where
  "sub_init sm mb w = \<lparr>ss_sm = sm, ss_bus = mb, ss_world = w, ss_procs = Map.empty, ss_callback = (\<lambda>_. False),
     ss_lock = None, ss_called = []\<rparr>"

text \<open>\<open>sub_reach codec s\<^sub>0 evs s\<close>: the events, oldest first, lead from \<open>s\<^sub>0\<close> to \<open>s\<close>.\<close>

inductive sub_reach :: "json_codec \<Rightarrow> ('w, 'h) sub_sys \<Rightarrow> 'h sub_event list \<Rightarrow> ('w, 'h) sub_sys \<Rightarrow> bool"
  for codec :: json_codec and s0 :: "('w, 'h) sub_sys" where
  sub_start: "sub_reach codec s0 [] s0"
| sub_next: "sub_reach codec s0 evs s \<Longrightarrow> sub_step codec s e = Done s' () \<Longrightarrow> sub_reach codec s0 (evs @ [e]) s'"

subsection \<open>The tools\<close>

record SpawnTool =
  sp_originChannel :: string
  sp_originChatID :: string
  sp_allowlistCheck :: "(string \<Rightarrow> bool) option"
  sp_callback :: bool

definition NewSpawnTool :: SpawnTool where
  "NewSpawnTool = \<lparr>sp_originChannel = ''cli'', sp_originChatID = ''direct'', sp_allowlistCheck = None, sp_callback = False\<rparr>"

definition SpawnTool_SetCallback :: "bool \<Rightarrow> SpawnTool \<Rightarrow> SpawnTool" where
  "SpawnTool_SetCallback cb t = t\<lparr>sp_callback := cb\<rparr>"

definition SpawnTool_SetContext :: "string \<Rightarrow> string \<Rightarrow> SpawnTool \<Rightarrow> SpawnTool" where
  "SpawnTool_SetContext channel chatID t = t\<lparr>sp_originChannel := channel, sp_originChatID := chatID\<rparr>"

definition SetAllowlistChecker :: "(string \<Rightarrow> bool) \<Rightarrow> SpawnTool \<Rightarrow> SpawnTool" where
  "SetAllowlistChecker check t = t\<lparr>sp_allowlistCheck := Some check\<rparr>"

definition spawn_refusal :: "SpawnTool \<Rightarrow> json_obj option \<Rightarrow> string option" where
  "spawn_refusal t args =
     (let arg = (\<lambda>k. case args of None \<Rightarrow> None | Some m \<Rightarrow> map_of m k); agentID = as_string (arg ''agent_id'') in
      case arg ''task'' of
        Some (JStr task) \<Rightarrow>
          if trim_space task = [] then Some ''task is required and must be a non-empty string''
          else if agentID \<noteq> [] \<and> (case sp_allowlistCheck t of None \<Rightarrow> False | Some check \<Rightarrow> \<not> check agentID)
          then Some (''not allowed to spawn agent '' @ [CHR 0x27] @ agentID @ [CHR 0x27])
          else None
      | _ \<Rightarrow> Some ''task is required and must be a non-empty string'')"

definition SpawnTool_Execute :: "SpawnTool \<Rightarrow> int \<Rightarrow> json_obj option \<Rightarrow> ('w, 'h) sub_sys option \<Rightarrow>
    (('w, 'h) sub_sys option, ToolResult) outcome" where
  "SpawnTool_Execute t now args manager =
     (let arg = (\<lambda>k. case args of None \<Rightarrow> None | Some m \<Rightarrow> map_of m k) in
      case spawn_refusal t args of
        Some message \<Rightarrow> Done manager (ErrorResult message)
      | None \<Rightarrow>
          (case manager of
             None \<Rightarrow> Done None (ErrorResult ''Subagent manager not configured'')
           | Some s \<Rightarrow>
               (case Spawn now (as_string (arg ''task'')) (as_string (arg ''label'')) (as_string (arg ''agent_id''))
                       (sp_originChannel t) (sp_originChatID t) (sp_callback t) s of
                  Done s' result \<Rightarrow> Done (Some s') (AsyncResult result)
                | Blocked \<Rightarrow> Blocked
                | Panic \<Rightarrow> Panic)))"

text \<open>What \<open>registerSharedTools\<close> sets up for an agent.\<close>

definition shared_subagents :: "'w chat \<Rightarrow> 'w AgentInstance \<Rightarrow> 'w SubagentManager" where
  "shared_subagents provider agent =
     SetLLMOptions (ai_MaxTokens agent) (ai_Temperature agent)
       (NewSubagentManager provider (ai_Model agent) (ai_Workspace agent))"

definition shared_spawn_tool :: "'w AgentRegistry \<Rightarrow> string \<Rightarrow> SpawnTool" where
  "shared_spawn_tool registry agentID = SetAllowlistChecker (CanSpawnSubagent registry agentID) NewSpawnTool"

record SubagentTool =
  sb_originChannel :: string
  sb_originChatID :: string

definition NewSubagentTool :: SubagentTool where
  "NewSubagentTool = \<lparr>sb_originChannel = ''cli'', sb_originChatID = ''direct''\<rparr>"

definition SubagentTool_SetContext :: "string \<Rightarrow> string \<Rightarrow> SubagentTool \<Rightarrow> SubagentTool" where
  "SubagentTool_SetContext channel chatID t = t\<lparr>sb_originChannel := channel, sb_originChatID := chatID\<rparr>"

definition SubagentTool_Execute :: "json_codec \<Rightarrow> SubagentTool \<Rightarrow> json_obj option \<Rightarrow> 'w SubagentManager option \<Rightarrow> 'w \<Rightarrow>
    'w \<times> ToolResult" where
  "SubagentTool_Execute codec t args manager w =
     (let arg = (\<lambda>k. case args of None \<Rightarrow> None | Some m \<Rightarrow> map_of m k); label = as_string (arg ''label'') in
      case arg ''task'' of
        Some (JStr task) \<Rightarrow>
          (case manager of
             None \<Rightarrow> (w, WithError (ErrorResult ''Subagent manager not configured'') (ErrNew ''manager is nil''))
           | Some sm \<Rightarrow>
               let messages =
                 [text_message ''system''
                    ''You are a subagent. Complete the given task independently and provide a clear, concise result.'',
                  text_message ''user'' task] in
               (case RunToolLoop codec (subagent_config sm) messages (sb_originChannel t) (sb_originChatID t) w of
                  (w, prompts, Inl err) \<Rightarrow>
                    (w, WithError (ErrorResult (''Subagent execution failed: '' @ error_text err)) err)
                | (w, prompts, Inr loopResult) \<Rightarrow>
                    let content = tlr_Content loopResult;
                        userContent = (if length content > 500 then take 500 content @ ''...'' else content);
                        labelStr = (if label = [] then ''(unnamed)'' else label)
                    in (w, \<lparr>tr_ForLLM = ''Subagent task completed:'' @ [nl] @ ''Label: '' @ labelStr @ [nl] @
                              ''Iterations: '' @ itoa (tlr_Iterations loopResult) @ [nl] @ ''Result: '' @ content,
                            tr_ForUser = userContent, tr_Silent = False, tr_IsError = False, tr_Async = False,
                            tr_Err = None\<rparr>)))
      | _ \<Rightarrow> (w, WithError (ErrorResult ''task is required'') (ErrNew ''task parameter is required'')))"

subsection \<open>Task identifiers\<close>

lemma task_id_inj:
  assumes "0 \<le> a" "0 \<le> b"
  shows "task_id a = task_id b \<longleftrightarrow> a = b"
proof
  assume "task_id a = task_id b"
  then have "itoa a = itoa b" unfolding task_id_def by (simp only: same_append_eq)
  moreover have "itoa a = digits10 a" "itoa b = digits10 b" using assms unfolding itoa_def by (simp_all only: not_less [symmetric] if_False)
  ultimately have eq: "digits10 a = digits10 b" by (simp only:)
  have "a = foldl (\<lambda>a c. a * 10 + (of_char c - 48)) 0 (digits10 a)" by (rule digits10_value [OF assms(1), symmetric])
  also have "\<dots> = b" unfolding eq by (rule digits10_value [OF assms(2)])
  finally show "a = b" .
qed (rule arg_cong)

lemma task_id_fresh: "task_id n \<notin> set (map task_id [1..n - 1])"
proof
  assume "task_id n \<in> set (map task_id [1..n - 1])"
  then have "task_id n \<in> task_id ` {1..n - 1}" by (simp only: set_map set_upto)
  then obtain m where "task_id n = task_id m" "m \<in> {1..n - 1}" by (rule imageE)
  then have m: "task_id m = task_id n" "1 \<le> m" "m \<le> n - 1" by (simp_all only: atLeastAtMost_iff)
  then have "m = n" using task_id_inj [of m n] by linarith
  then show False using m(3) by simp
qed

lemma task_ids_distinct: "distinct (map task_id [1..n])"
proof -
  have "inj_on task_id {1..n}" by (rule inj_onI) (simp add: task_id_inj)
  then show ?thesis by (simp add: distinct_map)
qed

subsection \<open>The invariant\<close>

fun early :: "'w phase \<Rightarrow> bool" where
  "early Starting = True" | "early (Looping c) = True" | "early (Finishing r) = True" | "early _ = False"

fun locked :: "'w phase \<Rightarrow> bool" where
  "locked (Announcing r) = True" | "locked (Publishing r m) = True" | "locked _ = False"

definition bus_open :: "'h MessageBus option \<Rightarrow> bool" where
  "bus_open mb = (case mb of None \<Rightarrow> False | Some b \<Rightarrow> \<not> mb_closed b)"

definition bus_ok :: "'h MessageBus option \<Rightarrow> bool" where
  "bus_ok mb = (case mb of None \<Rightarrow> True | Some b \<Rightarrow> bus_inv b)"

definition publishes :: "'h MessageBus option \<Rightarrow> SubagentTask \<Rightarrow> 'w phase \<Rightarrow> bool" where
  "publishes mb t p = (case p of
     Publishing r m \<Rightarrow> m = announcement t \<and> (case mb of None \<Rightarrow> False | Some b \<Rightarrow> m \<in> set (mb_in_pub b))
   | _ \<Rightarrow> True)"

definition statuses :: "string set" where
  "statuses = {''running'', ''completed'', ''failed'', ''canceled''}"

definition task_ok :: "nat \<Rightarrow> nat \<Rightarrow> bool \<Rightarrow> 'h MessageBus option \<Rightarrow> string \<Rightarrow> SubagentTask \<Rightarrow> 'w phase \<Rightarrow> bool" where
  "task_ok sends calls held mb k t p \<longleftrightarrow>
     st_ID t = k \<and> st_Status t \<in> statuses \<and>
     (st_Status t = ''running'' \<longleftrightarrow> early p) \<and> (held \<longleftrightarrow> locked p) \<and> publishes mb t p \<and>
     sends \<le> 1 \<and> (early p \<or> locked p \<longrightarrow> sends = 0) \<and> calls \<le> (if p = Ended then 1 else 0) \<and>
     (\<not> early p \<and> \<not> locked p \<and> bus_open mb \<longrightarrow>
        sends = 1 \<or> p = Ended \<and> st_Status t = ''canceled'' \<and> st_Result t = ''Task canceled before execution'')"

definition sends_of :: "'h sub_event list \<Rightarrow> string \<Rightarrow> nat" where
  "sends_of evs k = length (filter (\<lambda>e. e = Send k) evs)"

definition calls_of :: "(string \<times> ToolResult) list \<Rightarrow> string \<Rightarrow> nat" where
  "calls_of called k = length (filter (\<lambda>(j, _). j = k) called)"

definition tasks_inv :: "'w SubagentManager \<Rightarrow> bool" where
  "tasks_inv sm \<longleftrightarrow> 1 \<le> sm_nextID sm \<and> map fst (sm_tasks sm) = map task_id [1..sm_nextID sm - 1]"

definition sub_inv :: "'h sub_event list \<Rightarrow> ('w, 'h) sub_sys \<Rightarrow> bool" where
  "sub_inv evs s \<longleftrightarrow> tasks_inv (ss_sm s) \<and> bus_ok (ss_bus s) \<and>
     (\<forall>k. ss_procs s k = None \<longleftrightarrow> map_of (sm_tasks (ss_sm s)) k = None) \<and>
     (\<forall>k. ss_lock s = Some k \<longrightarrow> ss_procs s k \<noteq> None) \<and>
     (\<forall>k. ss_procs s k = None \<longrightarrow> sends_of evs k = 0 \<and> calls_of (ss_called s) k = 0) \<and>
     (\<forall>k t p. map_of (sm_tasks (ss_sm s)) k = Some t \<longrightarrow> ss_procs s k = Some p \<longrightarrow>
        task_ok (sends_of evs k) (calls_of (ss_called s) k) (ss_lock s = Some k) (ss_bus s) k t p)"

lemma sub_inv_init:
  assumes "sm_tasks sm = []" "sm_nextID sm = 1" "bus_ok mb"
  shows "sub_inv [] (sub_init sm mb w)"
  using assms by (simp add: sub_inv_def sub_init_def tasks_inv_def sends_of_def calls_of_def)

lemma tasks_map_task: "map fst (sm_tasks (map_task k f sm)) = map fst (sm_tasks sm)"
  by (simp add: map_task_def case_prod_unfold comp_def)

lemma nextID_map_task [simp]: "sm_nextID (map_task k f sm) = sm_nextID sm"
  by (simp add: map_task_def)

lemma map_of_map_task:
  "map_of (sm_tasks (map_task k f sm)) j = (if j = k then map_option f (map_of (sm_tasks sm) k) else map_of (sm_tasks sm) j)"
proof -
  have "map_of (map (\<lambda>(i, t). (i, if i = k then f t else t)) xs) j =
          (if j = k then map_option f (map_of xs k) else map_of xs j)" for xs
    by (induction xs) auto
  then show ?thesis by (simp add: map_task_def)
qed

lemma tasks_inv_map_task: "tasks_inv (map_task k f sm) = tasks_inv sm"
  by (simp add: tasks_inv_def tasks_map_task)

text \<open>A step of task \<open>k\<close> keeps the invariant if it keeps it for \<open>k\<close>, and touches the bus only while
  \<open>k\<close> holds the lock.\<close>

lemma sub_inv_task:
  assumes inv: "sub_inv evs s" and old: "ss_procs s k = Some p"
    and tasks: "tasks_inv (ss_sm s')"
      "\<And>j. map_of (sm_tasks (ss_sm s')) j = (if j = k then Some t' else map_of (sm_tasks (ss_sm s)) j)"
    and procs: "ss_procs s' = (ss_procs s)(k \<mapsto> p')"
    and lock: "\<And>j. j \<noteq> k \<Longrightarrow> (ss_lock s' = Some j) = (ss_lock s = Some j)"
    and called: "\<And>j. j \<noteq> k \<Longrightarrow> calls_of (ss_called s') j = calls_of (ss_called s) j"
    and sends: "\<And>j. j \<noteq> k \<Longrightarrow> e \<noteq> Send j"
    and bus: "bus_ok (ss_bus s')" "bus_open (ss_bus s') \<Longrightarrow> bus_open (ss_bus s)"
      "ss_bus s' = ss_bus s \<or> ss_lock s = Some k"
    and ok: "task_ok (sends_of (evs @ [e]) k) (calls_of (ss_called s') k) (ss_lock s' = Some k) (ss_bus s') k t' p'"
  shows "sub_inv (evs @ [e]) s'"
proof -
  have sends': "sends_of (evs @ [e]) j = sends_of evs j" if "j \<noteq> k" for j
    using sends [OF that] by (simp add: sends_of_def)
  have "task_ok (sends_of (evs @ [e]) j) (calls_of (ss_called s') j) (ss_lock s' = Some j) (ss_bus s') j t q"
    if look: "map_of (sm_tasks (ss_sm s')) j = Some t" "ss_procs s' j = Some q" for j t q
  proof (cases "j = k")
    case True
    then show ?thesis using ok look tasks(2) procs by simp
  next
    case False
    have "task_ok (sends_of evs j) (calls_of (ss_called s) j) (ss_lock s = Some j) (ss_bus s) j t q"
      using inv look False tasks(2) procs unfolding sub_inv_def by (metis fun_upd_other)
    moreover have "publishes (ss_bus s') t q" if "publishes (ss_bus s) t q" "(ss_lock s = Some j) = locked q"
      using bus(3) that False by (cases q) (auto simp: publishes_def)
    ultimately show ?thesis
      using sends' [OF False] called [OF False] lock [OF False] bus(2) unfolding task_ok_def by simp
  qed
  moreover have "ss_procs s' j = None \<longleftrightarrow> map_of (sm_tasks (ss_sm s')) j = None" for j
    using inv tasks(2) procs unfolding sub_inv_def by simp
  moreover have "ss_procs s' j \<noteq> None" if "ss_lock s' = Some j" for j
  proof (cases "j = k")
    case False
    then show ?thesis using inv that lock [OF False] procs unfolding sub_inv_def by (metis fun_upd_other)
  qed (simp add: procs)
  moreover have "sends_of (evs @ [e]) j = 0 \<and> calls_of (ss_called s') j = 0" if "ss_procs s' j = None" for j
    using inv that sends' [of j] called [of j] procs unfolding sub_inv_def by (cases "j = k") auto
  ultimately show ?thesis unfolding sub_inv_def using tasks(1) bus(1) by blast
qed

lemma sub_inv_ok:
  assumes "sub_inv evs s" "ss_procs s k = Some p"
  shows "\<exists>t. map_of (sm_tasks (ss_sm s)) k = Some t \<and>
    task_ok (sends_of evs k) (calls_of (ss_called s) k) (ss_lock s = Some k) (ss_bus s) k t p"
  using assms unfolding sub_inv_def by (metis option.exhaust option.distinct(1))

lemma sub_inv_base:
  assumes "sub_inv evs s"
  shows "tasks_inv (ss_sm s)" "bus_ok (ss_bus s)"
  using assms by (simp_all add: sub_inv_def)

lemma sends_of_snoc: "sends_of (evs @ [e]) k = (if e = Send k then Suc (sends_of evs k) else sends_of evs k)"
  by (simp add: sends_of_def)

lemma calls_of_append: "calls_of (xs @ ys) k = calls_of xs k + calls_of ys k"
  by (simp add: calls_of_def)

lemma status_facts:
  "''running'' \<in> statuses" "''completed'' \<in> statuses" "''failed'' \<in> statuses" "''canceled'' \<in> statuses"
  "''completed'' \<noteq> ''running''" "''failed'' \<noteq> ''running''" "''canceled'' \<noteq> ''running''"
  by (simp_all add: statuses_def)

lemma task_start_inv:
  fixes s :: "('w, 'h) sub_sys"
  assumes inv: "sub_inv evs s" and step: "task_start k now ctx_done s = Done s' ()"
  shows "sub_inv (evs @ [Start k now ctx_done]) s'"
proof -
  have free: "ss_lock s = None" and p: "ss_procs s k = Some Starting"
    using step by (auto simp: task_start_def split: if_splits option.splits phase.splits)
  obtain t where t: "map_of (sm_tasks (ss_sm s)) k = Some t"
    and ok: "task_ok (sends_of evs k) (calls_of (ss_called s) k) (ss_lock s = Some k) (ss_bus s) k t (Starting :: 'w phase)"
    using sub_inv_ok [OF inv p] by blast
  let ?t = "t\<lparr>st_Status := ''running'', st_Created := now\<rparr>"
  note frame = tasks_inv_map_task map_of_map_task t sub_inv_base [OF inv] sends_of_snoc
  show ?thesis
  proof (cases ctx_done)
    case True
    let ?t' = "?t\<lparr>st_Status := ''canceled'', st_Result := ''Task canceled before execution''\<rparr>"
    have s': "s' = s\<lparr>ss_sm := map_task k (\<lambda>t. t\<lparr>st_Status := ''canceled'', st_Result := ''Task canceled before execution''\<rparr>)
        (map_task k (\<lambda>t. t\<lparr>st_Status := ''running'', st_Created := now\<rparr>) (ss_sm s)), ss_procs := (ss_procs s)(k \<mapsto> Ended)\<rparr>"
      using step True free p by (simp add: task_start_def Let_def)
    have "task_ok (sends_of (evs @ [Start k now ctx_done]) k) (calls_of (ss_called s') k) (ss_lock s' = Some k) (ss_bus s') k ?t' (Ended :: 'w phase)"
      using ok unfolding task_ok_def s' by (simp add: status_facts publishes_def free sends_of_snoc)
    then show ?thesis by (intro sub_inv_task [OF inv p]) (simp_all add: s' frame)
  next
    case False
    have s': "s' = s\<lparr>ss_sm := map_task k (\<lambda>t. t\<lparr>st_Status := ''running'', st_Created := now\<rparr>) (ss_sm s),
        ss_procs := (ss_procs s)(k \<mapsto> Looping (subagent_config (map_task k (\<lambda>t. t\<lparr>st_Status := ''running'', st_Created := now\<rparr>) (ss_sm s))))\<rparr>"
      using step False free p by (simp add: task_start_def Let_def)
    have "task_ok (sends_of (evs @ [Start k now ctx_done]) k) (calls_of (ss_called s') k) (ss_lock s' = Some k) (ss_bus s') k ?t
        (Looping (subagent_config (map_task k (\<lambda>t. t\<lparr>st_Status := ''running'', st_Created := now\<rparr>) (ss_sm s))))"
      using ok unfolding task_ok_def s' by (simp add: status_facts publishes_def free sends_of_snoc)
    then show ?thesis by (intro sub_inv_task [OF inv p]) (simp_all add: s' frame)
  qed
qed

lemma task_loop_inv:
  fixes s :: "('w, 'h) sub_sys"
  assumes inv: "sub_inv evs s" and step: "task_loop codec k s = Done s' ()"
  shows "sub_inv (evs @ [Loop k]) s'"
proof -
  obtain c w r where p: "ss_procs s k = Some (Looping c)"
    and s': "s' = s\<lparr>ss_world := w, ss_procs := (ss_procs s)(k \<mapsto> Finishing r)\<rparr>"
    using step by (auto simp: task_loop_def split: option.splits phase.splits prod.splits)
  obtain t where t: "map_of (sm_tasks (ss_sm s)) k = Some t"
    and ok: "task_ok (sends_of evs k) (calls_of (ss_called s) k) (ss_lock s = Some k) (ss_bus s) k t (Looping c)"
    using sub_inv_ok [OF inv p] by blast
  have "task_ok (sends_of (evs @ [Loop k]) k) (calls_of (ss_called s') k) (ss_lock s' = Some k) (ss_bus s') k t (Finishing r :: 'w phase)"
    using ok unfolding task_ok_def s' by (simp add: publishes_def sends_of_snoc status_facts)
  then show ?thesis by (intro sub_inv_task [OF inv p]) (simp_all add: s' t sub_inv_base [OF inv])
qed

lemma task_outcome_final:
  assumes "task_outcome t ctx_err r = (t', result)"
  shows "st_ID t' = st_ID t \<and> st_Status t' \<in> statuses \<and> st_Status t' \<noteq> ''running''"
proof (cases r)
  case (Inl err)
  then have "t' = (if ctx_err then t\<lparr>st_Status := ''canceled'', st_Result := ''Task canceled during execution''\<rparr>
      else t\<lparr>st_Status := ''failed'', st_Result := ''Error: '' @ error_text err\<rparr>)"
    using assms by (cases ctx_err) (simp_all add: task_outcome_def Let_def)
  then show "st_ID t' = st_ID t \<and> st_Status t' \<in> statuses \<and> st_Status t' \<noteq> ''running''"
    by (simp_all add: status_facts)
next
  case (Inr l)
  then have "t' = t\<lparr>st_Status := ''completed'', st_Result := tlr_Content l\<rparr>" using assms by (simp add: task_outcome_def)
  then show "st_ID t' = st_ID t \<and> st_Status t' \<in> statuses \<and> st_Status t' \<noteq> ''running''"
    by (simp_all add: status_facts)
qed

lemma task_finish_inv:
  fixes s :: "('w, 'h) sub_sys"
  assumes inv: "sub_inv evs s" and step: "task_finish k ctx_err s = Done s' ()"
  shows "sub_inv (evs @ [Finish k ctx_err]) s'"
proof -
  obtain r t t' result where p: "ss_procs s k = Some (Finishing r :: 'w phase)" and t: "map_of (sm_tasks (ss_sm s)) k = Some t"
    and out: "task_outcome t ctx_err r = (t', result)" and free: "ss_lock s = None"
    and s': "s' = s\<lparr>ss_lock := Some k, ss_sm := map_task k (\<lambda>_. t') (ss_sm s), ss_procs := (ss_procs s)(k \<mapsto> Announcing result)\<rparr>"
    using step by (auto simp: task_finish_def split: option.splits phase.splits prod.splits if_splits)
  have ok: "task_ok (sends_of evs k) (calls_of (ss_called s) k) (ss_lock s = Some k) (ss_bus s) k t (Finishing r :: 'w phase)"
    using sub_inv_ok [OF inv p] t by (metis option.inject)
  have "task_ok (sends_of (evs @ [Finish k ctx_err]) k) (calls_of (ss_called s') k) (ss_lock s' = Some k) (ss_bus s') k t' (Announcing result :: 'w phase)"
    using ok task_outcome_final [OF out] unfolding task_ok_def s' by (simp add: publishes_def sends_of_snoc)
  then show ?thesis
    by (intro sub_inv_task [OF inv p]) (simp_all add: s' t free tasks_inv_map_task map_of_map_task sub_inv_base [OF inv])
qed

lemma task_call_inv:
  fixes s :: "('w, 'h) sub_sys"
  assumes inv: "sub_inv evs s" and step: "task_call k s = Done s' ()"
  shows "sub_inv (evs @ [Call k]) s'"
proof -
  obtain r where p: "ss_procs s k = Some (Calling r :: 'w phase)"
    and s': "s' = s\<lparr>ss_called := ss_called s @ (if ss_callback s k then [(k, r)] else []), ss_procs := (ss_procs s)(k \<mapsto> Ended)\<rparr>"
    using step by (auto simp: task_call_def split: option.splits phase.splits)
  obtain t where t: "map_of (sm_tasks (ss_sm s)) k = Some t"
    and ok: "task_ok (sends_of evs k) (calls_of (ss_called s) k) (ss_lock s = Some k) (ss_bus s) k t (Calling r :: 'w phase)"
    using sub_inv_ok [OF inv p] by blast
  have "task_ok (sends_of (evs @ [Call k]) k) (calls_of (ss_called s') k) (ss_lock s' = Some k) (ss_bus s') k t (Ended :: 'w phase)"
    using ok unfolding task_ok_def s' by (simp add: publishes_def sends_of_snoc calls_of_append) (simp add: calls_of_def)
  then show ?thesis
    by (intro sub_inv_task [OF inv p]) (simp_all add: s' t calls_of_append sub_inv_base [OF inv], simp add: calls_of_def)
qed

lemma task_enter_inv:
  fixes s :: "('w, 'h) sub_sys"
  assumes inv: "sub_inv evs s" and step: "task_enter k s = Done s' ()"
  shows "sub_inv (evs @ [Enter k]) s'"
proof -
  obtain r t where p: "ss_procs s k = Some (Announcing r)" and t: "map_of (sm_tasks (ss_sm s)) k = Some t"
    using step by (auto simp: task_enter_def split: option.splits phase.splits)
  have ok: "task_ok (sends_of evs k) (calls_of (ss_called s) k) (ss_lock s = Some k) (ss_bus s) k t (Announcing r :: 'w phase)"
    using sub_inv_ok [OF inv p] t by (metis option.inject)
  then have held: "ss_lock s = Some k" by (simp add: task_ok_def)
  note frame = held t sub_inv_base [OF inv]
  show ?thesis
  proof (cases "bus_open (ss_bus s)")
    case False
    then have s': "s' = s\<lparr>ss_lock := None, ss_procs := (ss_procs s)(k \<mapsto> Calling r)\<rparr>"
      using step p t by (auto simp: task_enter_def task_release_def bus_open_def split: option.splits)
    have "task_ok (sends_of (evs @ [Enter k]) k) (calls_of (ss_called s') k) (ss_lock s' = Some k) (ss_bus s') k t (Calling r :: 'w phase)"
      using ok False unfolding task_ok_def s' by (simp add: publishes_def sends_of_snoc)
    then show ?thesis by (intro sub_inv_task [OF inv p]) (simp_all add: s' frame)
  next
    case True
    then obtain mb where mb: "ss_bus s = Some mb" "\<not> mb_closed mb" by (auto simp: bus_open_def split: option.splits)
    define mb' where "mb' = PublishInbound_enter mb (announcement t)"
    have s': "s' = s\<lparr>ss_bus := Some mb', ss_procs := (ss_procs s)(k \<mapsto> Publishing r (announcement t))\<rparr>"
      using step p t mb by (simp add: task_enter_def mb'_def)
    have "bus_inv mb'"
      using bus_inv_step [of mb "EnterIn (announcement t)" mb' "()"] sub_inv_base [OF inv] mb by (simp add: bus_ok_def mb'_def)
    moreover have "\<not> mb_closed mb'" "announcement t \<in> set (mb_in_pub mb')"
      using mb(2) by (simp_all add: mb'_def PublishInbound_enter_def)
    moreover from this have "task_ok (sends_of (evs @ [Enter k]) k) (calls_of (ss_called s') k) (ss_lock s' = Some k) (ss_bus s') k t
        (Publishing r (announcement t) :: 'w phase)"
      using ok unfolding task_ok_def s' by (simp add: publishes_def sends_of_snoc)
    ultimately show ?thesis
      by (intro sub_inv_task [OF inv p]) (simp_all add: s' frame mb bus_ok_def bus_open_def)
  qed
qed

lemma publish_send_step:
  assumes "m \<in> set (mb_in_pub mb)" "bus_inv mb" "PublishInbound_send mb m = Done mb' u"
  shows "bus_inv mb' \<and> mb_closed mb' = mb_closed mb"
proof
  show "bus_inv mb'" using bus_inv_step [of mb "SendIn m" mb' u] assms by simp
  show "mb_closed mb' = mb_closed mb"
    using assms(3) by (auto simp: PublishInbound_send_def chan_send_def split: if_splits)
qed

lemma task_send_inv:
  fixes s :: "('w, 'h) sub_sys"
  assumes inv: "sub_inv evs s" and step: "task_send k s = Done s' ()"
  shows "sub_inv (evs @ [Send k]) s'"
proof -
  obtain r m mb mb' u where p: "ss_procs s k = Some (Publishing r m)" and mb: "ss_bus s = Some mb"
    and send: "PublishInbound_send mb m = Done mb' u"
    and s': "s' = s\<lparr>ss_bus := Some mb', ss_lock := None, ss_procs := (ss_procs s)(k \<mapsto> Calling r)\<rparr>"
    using step by (auto simp: task_send_def task_release_def split: option.splits phase.splits outcome.splits)
  obtain t where t: "map_of (sm_tasks (ss_sm s)) k = Some t"
    and ok: "task_ok (sends_of evs k) (calls_of (ss_called s) k) (ss_lock s = Some k) (ss_bus s) k t (Publishing r m :: 'w phase)"
    using sub_inv_ok [OF inv p] by blast
  have held: "ss_lock s = Some k" using ok by (simp add: task_ok_def)
  have m: "m \<in> set (mb_in_pub mb)" using ok mb unfolding task_ok_def publishes_def by auto
  have bus: "bus_inv mb'" "mb_closed mb' = mb_closed mb"
    using publish_send_step [OF m _ send] sub_inv_base(2) [OF inv] mb by (simp_all add: bus_ok_def)
  have "task_ok (sends_of (evs @ [Send k]) k) (calls_of (ss_called s') k) (ss_lock s' = Some k) (ss_bus s') k t (Calling r :: 'w phase)"
    using ok unfolding task_ok_def s' by (simp add: publishes_def sends_of_snoc)
  then show ?thesis
    by (intro sub_inv_task [OF inv p]) (simp_all add: s' t held mb bus bus_ok_def bus_open_def sub_inv_base [OF inv])
qed

lemma task_spawn_inv:
  assumes inv: "sub_inv evs s" and step: "Spawn now task label agentID channel chatID callback s = Done s' reply"
  shows "sub_inv (evs @ [SpawnTask now task label agentID channel chatID callback]) s'"
proof -
  let ?n = "sm_nextID (ss_sm s)" and ?k = "task_id (sm_nextID (ss_sm s))"
  let ?tasks = "sm_tasks (ss_sm s)"
  define t where "t = \<lparr>st_ID = ?k, st_Task = task, st_Label = label, st_AgentID = agentID, st_OriginChannel = channel,
    st_OriginChatID = chatID, st_Status = ''running'', st_Result = [], st_Created = now\<rparr>"
  have free: "ss_lock s = None"
    and s': "s' = s\<lparr>ss_sm := (ss_sm s)\<lparr>sm_nextID := ?n + 1, sm_tasks := AList.update ?k t ?tasks\<rparr>,
      ss_procs := (ss_procs s)(?k \<mapsto> Starting), ss_callback := (ss_callback s)(?k := callback)\<rparr>"
    using step by (simp_all add: Spawn_def Let_def t_def split: if_splits)
  have tasks: "1 \<le> ?n" "map fst ?tasks = map task_id [1..?n - 1]"
    using sub_inv_base(1) [OF inv] by (simp_all add: tasks_inv_def)
  have new: "?k \<notin> set (map fst ?tasks)" unfolding tasks(2) by (rule task_id_fresh)
  then have none: "map_of ?tasks ?k = None" by (simp add: map_of_eq_None_iff)
  have keys: "map fst (AList.update ?k t ?tasks) = map task_id [1..?n]"
    using new tasks upto_rec2 [of 1 ?n] by (simp add: update_keys)
  have old: "ss_procs s ?k = None" "sends_of evs ?k = 0" "calls_of (ss_called s) ?k = 0"
    using inv none unfolding sub_inv_def by simp_all
  have sends: "sends_of (evs @ [SpawnTask now task label agentID channel chatID callback]) j = sends_of evs j" for j
    by (simp add: sends_of_snoc)
  have ok: "task_ok (sends_of evs j) (calls_of (ss_called s) j) (ss_lock s = Some j) (ss_bus s) j u p"
    if "map_of (AList.update ?k t ?tasks) j = Some u" "((ss_procs s)(?k \<mapsto> Starting)) j = Some p" for j u p
  proof (cases "j = ?k")
    case True
    then have "u = t" "p = Starting" using that by (simp_all add: update_conv')
    then show ?thesis using True old free by (simp add: task_ok_def t_def status_facts publishes_def)
  next
    case False
    then show ?thesis using inv that unfolding sub_inv_def by (simp add: update_conv')
  qed
  have procs: "((ss_procs s)(?k \<mapsto> Starting)) j = None \<longleftrightarrow> map_of (AList.update ?k t ?tasks) j = None" for j
    using inv unfolding sub_inv_def by (simp add: update_conv')
  have unseen: "sends_of evs j = 0 \<and> calls_of (ss_called s) j = 0" if "((ss_procs s)(?k \<mapsto> Starting)) j = None" for j
    using inv that unfolding sub_inv_def by (metis fun_upd_apply option.distinct(1))
  show ?thesis
    unfolding sub_inv_def sends
  proof (intro conjI allI impI)
    show "tasks_inv (ss_sm s')" using keys tasks(1) by (simp add: s' tasks_inv_def)
    show "bus_ok (ss_bus s')" using sub_inv_base(2) [OF inv] by (simp add: s')
    fix j
    show "ss_procs s' j = None \<longleftrightarrow> map_of (sm_tasks (ss_sm s')) j = None" using procs [of j] by (simp add: s')
    show "ss_lock s' = Some j \<Longrightarrow> ss_procs s' j \<noteq> None" using free by (simp add: s')
    show "sends_of evs j = 0" "calls_of (ss_called s') j = 0" if "ss_procs s' j = None"
      using unseen [of j] that by (simp_all add: s')
    show "task_ok (sends_of evs j) (calls_of (ss_called s') j) (ss_lock s' = Some j) (ss_bus s') j u p"
      if "map_of (sm_tasks (ss_sm s')) j = Some u" "ss_procs s' j = Some p" for u p
      using ok [of j u p] that by (simp add: s')
  qed
qed

lemma foreign_bus_step:
  assumes "bus_step mb e = Done mb' u" "foreign e" "bus_inv mb"
  shows "(\<not> mb_closed mb' \<longrightarrow> \<not> mb_closed mb) \<and>
    (im_Channel m = ''system'' \<longrightarrow> m \<in> set (mb_in_pub mb) \<longrightarrow> m \<in> set (mb_in_pub mb'))"
proof (cases e)
  case (SendIn m')
  then have "m \<noteq> m'" if "im_Channel m = ''system''" using assms(2) that by auto
  then show ?thesis using assms(1) SendIn
    by (auto simp: PublishInbound_send_def chan_send_def in_set_remove1 split: if_splits)
qed (use assms(1) in \<open>auto simp: bus_ops readers_def split: if_splits list.splits\<close>)

lemma task_other_inv:
  fixes s :: "('w, 'h) sub_sys"
  assumes inv: "sub_inv evs s" and step: "on_bus (\<lambda>mb. bus_step mb e) s = Done s' ()" and foreign: "foreign e"
  shows "sub_inv (evs @ [Other e]) s'"
proof -
  obtain mb mb' u where mb: "ss_bus s = Some mb" and b: "bus_step mb e = Done mb' u" and s': "s' = s\<lparr>ss_bus := Some mb'\<rparr>"
    using step by (auto simp: on_bus_def split: option.splits outcome.splits)
  have bus: "bus_inv mb" using sub_inv_base(2) [OF inv] mb by (simp add: bus_ok_def)
  have bus': "bus_inv mb'" by (rule bus_inv_step [OF bus b])
  note fb = foreign_bus_step [OF b foreign bus]
  have system: "im_Channel (announcement t) = ''system''" for t by (simp add: announcement_def)
  have pub: "publishes (Some mb') t p" if "publishes (Some mb) t p" for t and p :: "'w phase"
    using that fb [of "announcement t"] system [of t] by (cases p) (auto simp: publishes_def)
  have ok: "task_ok a b c (Some mb') k t p" if "task_ok a b c (Some mb) k t p" for a b c k t and p :: "'w phase"
    using that pub [of t p] fb unfolding task_ok_def bus_open_def by (cases "mb_closed mb'") simp_all
  show ?thesis
    unfolding sub_inv_def
  proof (intro conjI allI impI)
    show "tasks_inv (ss_sm s')" using sub_inv_base(1) [OF inv] by (simp add: s')
    show "bus_ok (ss_bus s')" using bus' by (simp add: s' bus_ok_def)
    fix j
    show "ss_procs s' j = None \<longleftrightarrow> map_of (sm_tasks (ss_sm s')) j = None" using inv by (simp add: s' sub_inv_def)
    show "ss_procs s' j \<noteq> None" if "ss_lock s' = Some j"
    proof -
      have "ss_lock s = Some j" using that by (simp add: s')
      then have "ss_procs s j \<noteq> None" using inv unfolding sub_inv_def by blast
      then show ?thesis by (simp add: s')
    qed
    show "sends_of (evs @ [Other e]) j = 0" "calls_of (ss_called s') j = 0" if "ss_procs s' j = None"
      using inv that unfolding sub_inv_def by (simp_all add: s' sends_of_snoc)
    show "task_ok (sends_of (evs @ [Other e]) j) (calls_of (ss_called s') j) (ss_lock s' = Some j) (ss_bus s') j u p"
      if look: "map_of (sm_tasks (ss_sm s')) j = Some u" "ss_procs s' j = Some p" for u p
    proof -
      have "task_ok (sends_of evs j) (calls_of (ss_called s) j) (ss_lock s = Some j) (Some mb) j u p"
        using inv look mb unfolding sub_inv_def s' by simp
      from ok [OF this] show ?thesis by (simp add: s' sends_of_snoc)
    qed
  qed
qed

lemma sub_step_inv:
  assumes "sub_inv evs s" "sub_step codec s e = Done s' ()"
  shows "sub_inv (evs @ [e]) s'"
proof (cases e)
  case (SpawnTask now task label agentID channel chatID callback)
  then show ?thesis using assms task_spawn_inv [OF assms(1)] by (auto simp: drop_reply_def split: outcome.splits)
next
  case (Other b)
  then show ?thesis using assms(2) task_other_inv [OF assms(1)] by (simp split: if_splits)
qed (use assms in \<open>simp_all add: task_start_inv task_loop_inv task_finish_inv task_enter_inv task_send_inv task_call_inv\<close>)

lemma sub_reach_inv: "sub_reach codec s0 evs s \<Longrightarrow> sub_inv [] s0 \<Longrightarrow> sub_inv evs s"
  by (induction rule: sub_reach.induct) (simp_all add: sub_step_inv)

subsection \<open>What the manager promises\<close>

lemma sub_step_no_panic:
  assumes inv: "sub_inv evs s"
  shows "sub_step codec s e \<noteq> Panic"
proof (cases e)
  case (Send k)
  have "PublishInbound_send mb m \<noteq> Panic" if p: "ss_procs s k = Some (Publishing r m)" and mb: "ss_bus s = Some mb" for r m mb
  proof -
    have "m \<in> set (mb_in_pub mb)" using sub_inv_ok [OF inv p] mb unfolding task_ok_def publishes_def by auto
    moreover have "bus_inv mb" using sub_inv_base(2) [OF inv] mb by (simp add: bus_ok_def)
    ultimately have "\<not> ch_closed (mb_inbound mb)" unfolding bus_inv_def by auto
    then show ?thesis by (simp add: PublishInbound_send_def chan_send_def)
  qed
  then show ?thesis using Send by (auto simp: task_send_def split: option.splits phase.splits outcome.splits)
next
  case (Other b)
  have "bus_step mb b \<noteq> Panic" if mb: "ss_bus s = Some mb" for mb
  proof -
    have "bus_inv mb" using sub_inv_base(2) [OF inv] mb by (simp add: bus_ok_def)
    then show ?thesis by (cases b) (auto simp: bus_inv_def bus_ops split: if_splits list.splits)
  qed
  then show ?thesis using Other by (auto simp: on_bus_def split: option.splits outcome.splits)
qed (auto simp: drop_reply_def Spawn_def task_start_def task_loop_def task_finish_def task_enter_def task_call_def Let_def
  split: option.splits phase.splits prod.splits if_splits)

lemma final_task_kept:
  assumes inv: "sub_inv evs s" and step: "sub_step codec s e = Done s' ()"
    and t: "GetTask (ss_sm s) k = Some t" and final: "st_Status t \<noteq> ''running''"
  shows "GetTask (ss_sm s') k = Some t"
proof -
  obtain p where p: "ss_procs s k = Some p"
    using inv t unfolding sub_inv_def GetTask_def by (metis option.distinct(1) option.exhaust)
  have late: "\<not> early p" using sub_inv_ok [OF inv p] t final unfolding GetTask_def task_ok_def by auto
  have look: "map_of (sm_tasks (ss_sm s)) k = Some t" using t by (simp add: GetTask_def)
  show ?thesis
  proof (cases e)
    case (SpawnTask now task label agentID channel chatID callback)
    have "map_of (sm_tasks (ss_sm s)) (task_id (sm_nextID (ss_sm s))) = None"
      using sub_inv_base(1) [OF inv] task_id_fresh unfolding tasks_inv_def by (metis map_of_eq_None_iff set_map)
    then have "k \<noteq> task_id (sm_nextID (ss_sm s))" using look by auto
    then show ?thesis using step SpawnTask look
      by (auto simp: drop_reply_def Spawn_def Let_def GetTask_def update_conv' split: if_splits)
  next
    case (Start j now ctx_done)
    then have "j \<noteq> k" using step p late by (auto simp: task_start_def split: if_splits phase.splits)
    then show ?thesis using step Start look
      by (auto simp: task_start_def Let_def GetTask_def map_of_map_task split: if_splits option.splits phase.splits)
  next
    case (Finish j ctx_err)
    then have "j \<noteq> k" using step p late by (auto simp: task_finish_def split: option.splits phase.splits)
    then show ?thesis using step Finish look
      by (auto simp: task_finish_def GetTask_def map_of_map_task split: option.splits phase.splits prod.splits if_splits)
  qed (use step look in \<open>auto simp: GetTask_def task_loop_def task_enter_def task_send_def task_call_def task_release_def on_bus_def
    split: option.splits phase.splits prod.splits if_splits outcome.splits\<close>)
qed

text \<open>(C20) The life of background tasks, in every interleaving of the tasks with each other and with the
  other users of the bus. Tasks are numbered consecutively and keep distinct identifiers; a task is
  running until its result is stored, and then its status is one of the three final ones; the manager's lock is held
  by at most the task that announces. The announcement of a task is sent at most once, and its
  callback is called at most once. If the bus is still open when the task has ended, its
  announcement was sent exactly once, unless the task was canceled before it started.\<close>

theorem subagent_lifecycle:
  assumes "sub_reach codec (sub_init sm mb w) evs s"
    and "sm_tasks sm = []" "sm_nextID sm = 1" "bus_ok mb"
  shows "map st_ID (ListTasks (ss_sm s)) = map task_id [1..sm_nextID (ss_sm s) - 1] \<and>
    distinct (map st_ID (ListTasks (ss_sm s))) \<and>
    (\<forall>k t. GetTask (ss_sm s) k = Some t \<longrightarrow>
       (\<exists>p. ss_procs s k = Some p \<and> st_ID t = k \<and> st_Status t \<in> statuses \<and> (st_Status t = ''running'' \<longleftrightarrow> early p) \<and>
          (ss_lock s = Some k \<longleftrightarrow> locked p) \<and> sends_of evs k \<le> 1 \<and> calls_of (ss_called s) k \<le> 1 \<and>
          (p = Ended \<longrightarrow> bus_open (ss_bus s) \<longrightarrow>
             sends_of evs k = 1 \<or> st_Status t = ''canceled'' \<and> st_Result t = ''Task canceled before execution'')))"
proof (intro conjI allI impI)
  have inv: "sub_inv evs s" by (rule sub_reach_inv [OF assms(1) sub_inv_init [OF assms(2-4)]])
  have tasks: "map fst (sm_tasks (ss_sm s)) = map task_id [1..sm_nextID (ss_sm s) - 1]"
    using sub_inv_base(1) [OF inv] by (simp add: tasks_inv_def)
  have dist: "distinct (map fst (sm_tasks (ss_sm s)))" unfolding tasks by (rule task_ids_distinct)
  have ok: "\<exists>p. ss_procs s k = Some p \<and>
      task_ok (sends_of evs k) (calls_of (ss_called s) k) (ss_lock s = Some k) (ss_bus s) k t p"
    if "map_of (sm_tasks (ss_sm s)) k = Some t" for k t
    using inv that unfolding sub_inv_def by (metis option.distinct(1) option.exhaust)
  have ids: "st_ID t = k" if "(k, t) \<in> set (sm_tasks (ss_sm s))" for k t
  proof -
    have "map_of (sm_tasks (ss_sm s)) k = Some t" using dist that by (rule map_of_is_SomeI)
    from ok [OF this] show ?thesis unfolding task_ok_def by blast
  qed
  have "map st_ID (ListTasks (ss_sm s)) = map fst (sm_tasks (ss_sm s))"
    unfolding ListTasks_def map_map by (rule map_cong [OF refl]) (use ids in \<open>auto\<close>)
  then show "map st_ID (ListTasks (ss_sm s)) = map task_id [1..sm_nextID (ss_sm s) - 1]"
    and "distinct (map st_ID (ListTasks (ss_sm s)))" using tasks dist by (simp_all only:)
  show "\<exists>p. ss_procs s k = Some p \<and> st_ID t = k \<and> st_Status t \<in> statuses \<and> (st_Status t = ''running'' \<longleftrightarrow> early p) \<and>
      (ss_lock s = Some k \<longleftrightarrow> locked p) \<and> sends_of evs k \<le> 1 \<and> calls_of (ss_called s) k \<le> 1 \<and>
      (p = Ended \<longrightarrow> bus_open (ss_bus s) \<longrightarrow>
         sends_of evs k = 1 \<or> st_Status t = ''canceled'' \<and> st_Result t = ''Task canceled before execution'')"
    if got: "GetTask (ss_sm s) k = Some t" for k t
  proof -
    obtain p where p: "ss_procs s k = Some p"
      and tok: "task_ok (sends_of evs k) (calls_of (ss_called s) k) (ss_lock s = Some k) (ss_bus s) k t p"
      using ok got unfolding GetTask_def by blast
    have "calls_of (ss_called s) k \<le> 1" using tok unfolding task_ok_def by (simp split: if_splits)
    moreover have "p = Ended \<Longrightarrow> \<not> early p \<and> \<not> locked p" by simp
    ultimately show ?thesis using p tok unfolding task_ok_def by blast
  qed
qed

fun sub_run :: "json_codec \<Rightarrow> ('w, 'h) sub_sys \<Rightarrow> 'h sub_event list \<Rightarrow> ('w, 'h) sub_sys option" where
  "sub_run codec s [] = Some s"
| "sub_run codec s (e # evs) = (case sub_step codec s e of Done s' _ \<Rightarrow> sub_run codec s' evs | _ \<Rightarrow> None)"

lemma sub_run_reach_from: "sub_reach codec s0 evs s \<Longrightarrow> sub_run codec s evs' = Some s' \<Longrightarrow> sub_reach codec s0 (evs @ evs') s'"
proof (induction evs' arbitrary: evs s)
  case (Cons e evs')
  then obtain s1 where s1: "sub_step codec s e = Done s1 ()" "sub_run codec s1 evs' = Some s'"
    by (auto split: outcome.splits)
  show ?case using Cons.IH [OF sub_next [OF Cons.prems(1) s1(1)] s1(2)] by simp
qed simp

lemmas sub_run_reach = sub_run_reach_from [OF sub_start, simplified]

definition sample_codec :: json_codec where
  "sample_codec = \<lparr>jc_marshal = (\<lambda>_. Inr ''{}''), jc_unmarshal = (\<lambda>_. None)\<rparr>"

definition sample_chat :: "'w chat" where
  "sample_chat = (\<lambda>messages defs model opts w. (w, Inr \<lparr>lr_Content = ''done'', lr_ReasoningContent = [], lr_ToolCalls = [],
     lr_FinishReason = ''stop''\<rparr>))"

definition sample_sys :: "(unit, unit) sub_sys" where
  "sample_sys = sub_init (NewSubagentManager sample_chat ''m'' ''/w'') (Some NewMessageBus) ()"

definition sample_events :: "unit sub_event list" where
  "sample_events = [SpawnTask 5 ''count'' ''c'' [] ''telegram'' ''42'' True, Start ''subagent-1'' 6 False, Loop ''subagent-1'',
     Finish ''subagent-1'' False, Enter ''subagent-1'', Send ''subagent-1'', Call ''subagent-1'']"

theorem subagent_lifecycle_witness:
  "\<exists>s t. sub_reach sample_codec sample_sys sample_events s \<and> GetTask (ss_sm s) ''subagent-1'' = Some t \<and>
     st_Status t \<in> statuses \<and> sends_of sample_events ''subagent-1'' \<le> 1 \<and> distinct (map st_ID (ListTasks (ss_sm s)))"
proof -
  have run: "map_option (\<lambda>s. map_option st_Status (GetTask (ss_sm s) ''subagent-1'')) (sub_run sample_codec sample_sys sample_events)
      = Some (Some ''completed'')" by code_simp
  then obtain s where s: "sub_run sample_codec sample_sys sample_events = Some s"
    and st: "map_option st_Status (GetTask (ss_sm s) ''subagent-1'') = Some ''completed''" by blast
  obtain t where t: "GetTask (ss_sm s) ''subagent-1'' = Some t" using st by blast
  note reach = sub_run_reach [OF s]
  note life = subagent_lifecycle [OF reach [unfolded sample_sys_def]]
  have "sm_tasks (NewSubagentManager sample_chat ''m'' ''/w'') = []" "sm_nextID (NewSubagentManager sample_chat ''m'' ''/w'') = 1"
    by (simp_all add: NewSubagentManager_def)
  moreover have "bus_ok (Some NewMessageBus :: unit MessageBus option)" by (simp add: bus_ok_def bus_inv_start)
  ultimately show ?thesis using life t reach by blast
qed

text \<open>A stored result is final: no later step of any task changes a task whose status is final.\<close>

lemma final_result_stable:
  assumes reach: "sub_reach codec s evs s'" and inv: "sub_inv evs0 s"
    and t: "GetTask (ss_sm s) k = Some t" and final: "st_Status t \<noteq> ''running''"
  shows "GetTask (ss_sm s') k = Some t \<and> sub_inv (evs0 @ evs) s'"
  using reach
proof (induction rule: sub_reach.induct)
  case sub_start
  show ?case using inv t by simp
next
  case (sub_next evs s1 e s2)
  then have inv1: "sub_inv (evs0 @ evs) s1" and t1: "GetTask (ss_sm s1) k = Some t" by simp_all
  show ?case using final_task_kept [OF inv1 sub_next.hyps(2) t1 final] sub_step_inv [OF inv1 sub_next.hyps(2)] by simp
qed

subsection \<open>Announcements\<close>

text \<open>The announcement of a task finds its way back: unless the origin channel is empty, internal or
  contains a colon, the agent loop splits the composed chat identifier into the channel and the
  chat of the request that spawned the task (a chat identifier may contain colons), and hands the announcement to the default
  agent for that channel and chat.\<close>

theorem announcement_returns:
  assumes "st_OriginChannel t \<noteq> []" "CHR '':'' \<notin> set (st_OriginChannel t)" "\<not> IsInternalChannel (st_OriginChannel t)"
  shows "origin_of (announcement t) = (st_OriginChannel t, st_OriginChatID t) \<and>
    processSystemMessage env reg (announcement t) st =
      run_with env (GetDefaultAgent reg) (\<lambda>agent.
        \<lparr>po_SessionKey = BuildAgentMainSessionKey (ai_ID agent), po_Channel = st_OriginChannel t, po_ChatID = st_OriginChatID t,
         po_UserMessage = ''[System: subagent:'' @ st_ID t @ ''] '' @ im_Content (announcement t),
         po_DefaultResponse = ''Background task completed.'', po_EnableSummary = False, po_SendResponse = True,
         po_NoHistory = False\<rparr>) st"
proof -
  obtain j where j: "length (st_OriginChannel t) = Suc j" using assms(1) by (cases "st_OriginChannel t") auto
  have "index_of '':'' (im_ChatID (announcement t)) = Some (Suc j)"
    using index_of_sep [OF assms(2)] j by (simp add: announcement_def)
  then have origin: "origin_of (announcement t) = (st_OriginChannel t, st_OriginChatID t)"
    using j by (simp add: origin_of_def announcement_def)
  have "im_Channel (announcement t) = ''system''" "im_SenderID (announcement t) = ''subagent:'' @ st_ID t"
    by (simp_all add: announcement_def)
  then show ?thesis using origin assms(3) unfolding processSystemMessage_def by simp
qed

theorem announcement_returns_witness:
  "origin_of (announcement \<lparr>st_ID = ''subagent-1'', st_Task = ''t'', st_Label = ''l'', st_AgentID = [], st_OriginChannel = ''telegram'',
      st_OriginChatID = ''group:42'', st_Status = ''completed'', st_Result = ''r'', st_Created = 0\<rparr>) = (''telegram'', ''group:42'')"
proof -
  let ?t = "\<lparr>st_ID = ''subagent-1'', st_Task = ''t'', st_Label = ''l'', st_AgentID = [], st_OriginChannel = ''telegram'',
      st_OriginChatID = ''group:42'', st_Status = ''completed'', st_Result = ''r'', st_Created = 0\<rparr>"
  have "st_OriginChannel ?t \<noteq> []" "CHR '':'' \<notin> set (st_OriginChannel ?t)" "\<not> IsInternalChannel (st_OriginChannel ?t)"
    by (simp_all add: IsInternalChannel_def internalChannels_def)
  from announcement_returns [OF this, THEN conjunct1] show ?thesis by (simp only: SubagentTask.select_convs)
qed

subsection \<open>What background agents can do\<close>

lemma sub_step_tools:
  assumes "sub_step codec s e = Done s' ()"
    and "\<And>k c. ss_procs s k = Some (Looping c) \<Longrightarrow> tlc_Tools c = Some (sm_tools (ss_sm s))"
  shows "sm_tools (ss_sm s') = sm_tools (ss_sm s) \<and>
    (\<forall>k c. ss_procs s' k = Some (Looping c) \<longrightarrow> tlc_Tools c = Some (sm_tools (ss_sm s)))"
  using assms
  by (cases e)
    (auto simp: drop_reply_def Spawn_def task_start_def task_loop_def task_finish_def task_enter_def task_send_def
      task_call_def task_release_def on_bus_def Let_def map_task_def subagent_config_def
      split: option.splits phase.splits prod.splits if_splits outcome.splits)


subsection \<open>The lock and the bus\<close>

text \<open>A task of the bus that is blocked keeps the manager's lock.\<close>

definition stuck :: "string \<Rightarrow> ('w, 'h) sub_sys \<Rightarrow> bool" where
  "stuck k s \<longleftrightarrow> ss_lock s = Some k \<and> (\<exists>r m. ss_procs s k = Some (Publishing r m)) \<and>
     (\<exists>mb. ss_bus s = Some mb \<and> length (ch_buf (mb_inbound mb)) = 100)"

fun receives :: "'h sub_event \<Rightarrow> bool" where
  "receives (Other (RecvIn c t)) = True"
| "receives _ = False"

lemma full_bus_step:
  assumes "bus_inv mb" "length (ch_buf (mb_inbound mb)) = 100" "bus_step mb e = Done mb' u" "\<nexists>c t. e = RecvIn c t"
  shows "length (ch_buf (mb_inbound mb')) = 100"
  using assms by (cases e) (auto simp: bus_inv_def bus_ops split: if_splits list.splits)

lemma stuck_step:
  assumes inv: "sub_inv evs s" and stuck: "stuck k s" and step: "sub_step codec s e = Done s' ()" and e: "\<not> receives e"
  shows "stuck k s'"
proof -
  obtain r m mb where lock: "ss_lock s = Some k" and p: "ss_procs s k = Some (Publishing r m)" and mb: "ss_bus s = Some mb"
    and full: "length (ch_buf (mb_inbound mb)) = 100"
    using stuck unfolding stuck_def by blast
  have bus: "bus_inv mb" using sub_inv_base(2) [OF inv] mb by (simp add: bus_ok_def)
  have holder: "j = k" if "ss_procs s j = Some q" "locked q" for j q
    using sub_inv_ok [OF inv that(1)] that(2) lock unfolding task_ok_def by auto
  show ?thesis
  proof (cases e)
    case (Loop j)
    then have "j \<noteq> k" using step p by (auto simp: task_loop_def split: option.splits)
    then show ?thesis using step Loop lock p mb full
      by (auto simp: task_loop_def stuck_def split: option.splits phase.splits prod.splits)
  next
    case (Enter j)
    then have False using step p holder [of j] by (auto simp: task_enter_def split: option.splits phase.splits)
    then show ?thesis ..
  next
    case (Send j)
    then have "j = k" using step holder [of j] by (auto simp: task_send_def split: option.splits phase.splits)
    then have False using step Send p mb full bus
      by (auto simp: task_send_def PublishInbound_send_def chan_send_def bus_inv_def split: if_splits)
    then show ?thesis ..
  next
    case (Call j)
    then have "j \<noteq> k" using step p by (auto simp: task_call_def)
    then show ?thesis using step Call lock p mb full by (auto simp: task_call_def stuck_def split: option.splits phase.splits)
  next
    case (Other b)
    then obtain mb' u where b: "bus_step mb b = Done mb' u" and s': "s' = s\<lparr>ss_bus := Some mb'\<rparr>"
      using step mb by (auto simp: on_bus_def split: if_splits outcome.splits)
    have "\<nexists>c t. b = RecvIn c t" using e Other by auto
    from full_bus_step [OF bus full b this] show ?thesis using lock p by (simp add: stuck_def s')
  qed (use step lock in \<open>auto simp: drop_reply_def Spawn_def task_start_def task_finish_def
    split: option.splits phase.splits if_splits\<close>)
qed

lemma stuck_send:
  assumes "stuck k s" "sub_inv evs s"
  shows "task_send k s = Blocked"
proof -
  obtain r m mb where p: "ss_procs s k = Some (Publishing r m)" and mb: "ss_bus s = Some mb"
    and full: "length (ch_buf (mb_inbound mb)) = 100" using assms(1) unfolding stuck_def by blast
  have bus: "bus_inv mb" using sub_inv_base(2) [OF assms(2)] mb by (simp add: bus_ok_def)
  have "m \<in> set (mb_in_pub mb)" using sub_inv_ok [OF assms(2) p] mb unfolding task_ok_def publishes_def by auto
  then have "\<not> ch_closed (mb_inbound mb)" "ch_cap (mb_inbound mb) = 100" using bus unfolding bus_inv_def by auto
  then show ?thesis using p mb full by (simp add: task_send_def PublishInbound_send_def chan_send_def)
qed

text \<open>The announcement is published while the manager's lock is held. If the inbound buffer is full
  at that moment, then until somebody receives from the bus every attempt to spawn a task is blocked,
  whatever else happens: no refusal, no timeout. The receiver is the agent loop, and it is the agent
  loop that calls the spawn tool, so the two wait for each other.\<close>

theorem full_bus_blocks_spawn:
  assumes "sub_reach codec (sub_init sm mb w) evs s"
    and "sm_tasks sm = []" "sm_nextID sm = 1" "bus_ok mb"
    and "ss_procs s k = Some (Publishing r m)" "ss_bus s = Some b" "length (ch_buf (mb_inbound b)) = 100"
    and "sub_reach codec s evs' s'" "list_all (\<lambda>e. \<not> receives e) evs'"
    and "spawn_refusal tool args = None"
  shows "SpawnTool_Execute tool now args (Some s') = Blocked \<and> task_send k s' = Blocked"
proof -
  have inv: "sub_inv evs s" by (rule sub_reach_inv [OF assms(1) sub_inv_init [OF assms(2-4)]])
  have "ss_lock s = Some k" using sub_inv_ok [OF inv assms(5)] unfolding task_ok_def by auto
  then have start: "stuck k s" using assms(5-7) unfolding stuck_def by blast
  have "stuck k s' \<and> sub_inv (evs @ evs') s'"
    using assms(8,9)
  proof (induction rule: sub_reach.induct)
    case sub_start
    show ?case using inv start by simp
  next
    case (sub_next evs1 s1 e s2)
    then have e: "\<not> receives e" and IH: "stuck k s1" "sub_inv (evs @ evs1) s1" by simp_all
    have "stuck k s2" by (rule stuck_step [OF IH(2,1) sub_next.hyps(2) e])
    moreover have "sub_inv (evs @ evs1 @ [e]) s2" using sub_step_inv [OF IH(2) sub_next.hyps(2)] by simp
    ultimately show ?case by simp
  qed
  then have "ss_lock s' = Some k" "task_send k s' = Blocked" using stuck_send [of k s'] unfolding stuck_def by blast+
  then show ?thesis using assms(10) by (simp add: SpawnTool_Execute_def Spawn_def)
qed

text \<open>A bus whose inbound buffer is full, and a task that finishes on it.\<close>

definition full_bus :: "unit MessageBus" where
  "full_bus = NewMessageBus\<lparr>mb_inbound := \<lparr>ch_buf = replicate 100 zero_inbound, ch_cap = 100, ch_closed = False\<rparr>\<rparr>"

definition full_sys :: "(unit, unit) sub_sys" where
  "full_sys = sub_init (NewSubagentManager sample_chat ''m'' ''/w'') (Some full_bus) ()"

theorem full_bus_blocks_spawn_witness:
  "\<exists>s. sub_reach sample_codec full_sys (take 5 sample_events) s \<and>
     SpawnTool_Execute NewSpawnTool 9 (Some [(''task'', JStr ''again'')]) (Some s) = Blocked \<and> task_send ''subagent-1'' s = Blocked"
proof -
  have run: "map_option (\<lambda>s. (case ss_procs s ''subagent-1'' of Some (Publishing r m) \<Rightarrow> True | _ \<Rightarrow> False,
        map_option (\<lambda>b. length (ch_buf (mb_inbound b))) (ss_bus s)))
      (sub_run sample_codec full_sys (take 5 sample_events)) = Some (True, Some 100)" by code_simp
  then obtain s where s: "sub_run sample_codec full_sys (take 5 sample_events) = Some s"
    and p: "case ss_procs s ''subagent-1'' of Some (Publishing r m) \<Rightarrow> True | _ \<Rightarrow> False"
    and full: "map_option (\<lambda>b. length (ch_buf (mb_inbound b))) (ss_bus s) = Some 100" by blast
  obtain r m where p: "ss_procs s ''subagent-1'' = Some (Publishing r m)" using p by (simp split: option.splits phase.splits)
  obtain b where b: "ss_bus s = Some b" "length (ch_buf (mb_inbound b)) = 100" using full by blast
  have bus: "bus_ok (Some full_bus)" by (simp add: bus_ok_def bus_inv_def full_bus_def NewMessageBus_def make_chan_def)
  have ref: "spawn_refusal NewSpawnTool (Some [(''task'', JStr ''again'')]) = None" by code_simp
  have sm: "sm_tasks (NewSubagentManager sample_chat ''m'' ''/w'') = []" "sm_nextID (NewSubagentManager sample_chat ''m'' ''/w'') = 1"
    by (simp_all add: NewSubagentManager_def)
  note reach = sub_run_reach [OF s]
  from full_bus_blocks_spawn [OF reach [unfolded full_sys_def] sm bus p b sub_start _ ref]
  show ?thesis using reach by (intro exI [of _ s]) simp
qed

text \<open>The spawn tool of an agent, called for a chat, starts a task only for a task text that is not
  blank and for a target that the allow list of the agent permits; it then adds exactly one task, with
  the chat as its origin, and answers at once.\<close>

theorem spawn_tool_guarded:
  assumes "SpawnTool_Execute (SpawnTool_SetContext channel chatID (shared_spawn_tool registry agentID)) now (Some args) (Some s)
      = Done (Some s') result"
  shows "(ss_sm s' = ss_sm s \<and> ss_procs s' = ss_procs s \<and> tr_IsError result) \<or>
    (\<exists>task t. map_of args ''task'' = Some (JStr task) \<and> trim_space task \<noteq> [] \<and>
       (as_string (map_of args ''agent_id'') = [] \<or> CanSpawnSubagent registry agentID (as_string (map_of args ''agent_id''))) \<and>
       sm_tasks (ss_sm s') = AList.update (st_ID t) t (sm_tasks (ss_sm s)) \<and>
       st_ID t = task_id (sm_nextID (ss_sm s)) \<and> st_Task t = task \<and> st_Status t = ''running'' \<and>
       st_OriginChannel t = channel \<and> st_OriginChatID t = chatID \<and> tr_Async result \<and> \<not> tr_IsError result)"
proof (cases "spawn_refusal (SpawnTool_SetContext channel chatID (shared_spawn_tool registry agentID)) (Some args)")
  case (Some message)
  then have "s' = s" "result = ErrorResult message" using assms by (simp_all add: SpawnTool_Execute_def)
  then show ?thesis by (simp add: ErrorResult_def)
next
  case None
  then obtain task where task: "map_of args ''task'' = Some (JStr task)" "trim_space task \<noteq> []"
    and allowed: "as_string (map_of args ''agent_id'') = [] \<or> CanSpawnSubagent registry agentID (as_string (map_of args ''agent_id''))"
    by (auto simp: spawn_refusal_def SpawnTool_SetContext_def shared_spawn_tool_def SetAllowlistChecker_def Let_def
        split: option.splits json.splits if_splits)
  have origin: "sp_originChannel (SpawnTool_SetContext channel chatID (shared_spawn_tool registry agentID)) = channel"
    "sp_originChatID (SpawnTool_SetContext channel chatID (shared_spawn_tool registry agentID)) = chatID"
    by (simp_all add: SpawnTool_SetContext_def)
  have as_task: "as_string (Some (JStr task)) = task" by (simp add: as_string_def)
  obtain reply where spawn: "Spawn now task (as_string (map_of args ''label'')) (as_string (map_of args ''agent_id'')) channel chatID
      (sp_callback (SpawnTool_SetContext channel chatID (shared_spawn_tool registry agentID))) s = Done s' reply"
    and result: "result = AsyncResult reply"
    using assms None task(1) by (auto simp: SpawnTool_Execute_def origin Let_def as_task split: outcome.splits)
  let ?t = "\<lparr>st_ID = task_id (sm_nextID (ss_sm s)), st_Task = task, st_Label = as_string (map_of args ''label''),
    st_AgentID = as_string (map_of args ''agent_id''), st_OriginChannel = channel, st_OriginChatID = chatID,
    st_Status = ''running'', st_Result = [], st_Created = now\<rparr>"
  have "sm_tasks (ss_sm s') = AList.update (st_ID ?t) ?t (sm_tasks (ss_sm s))"
    using spawn by (auto simp: Spawn_def Let_def split: if_splits)
  moreover have "tr_Async result \<and> \<not> tr_IsError result" by (simp add: result AsyncResult_def NewToolResult_def)
  ultimately show ?thesis using task allowed by (intro disjI2 exI [of _ task] exI [of _ ?t]) simp
qed


theorem spawn_tool_guarded_witness:
  "\<exists>s' result. SpawnTool_Execute (SpawnTool_SetContext ''telegram'' ''42'' (shared_spawn_tool ([] :: unit AgentRegistry) ''main'')) 9
      (Some [(''task'', JStr ''x''), (''agent_id'', JStr ''ops'')]) (Some sample_sys) = Done (Some s') result \<and>
      ss_sm s' = ss_sm sample_sys \<and> tr_IsError result"
proof -
  let ?t = "SpawnTool_SetContext ''telegram'' ''42'' (shared_spawn_tool ([] :: unit AgentRegistry) ''main'')"
  let ?args = "[(''task'', JStr ''x''), (''agent_id'', JStr ''ops'')]"
  have no: "\<not> CanSpawnSubagent ([] :: unit AgentRegistry) ''main'' ''ops''" by code_simp
  have "map_option (\<lambda>_. True) (spawn_refusal ?t (Some ?args)) = Some True" by code_simp
  then obtain message where ref: "spawn_refusal ?t (Some ?args) = Some message" by blast
  have run: "SpawnTool_Execute ?t 9 (Some ?args) (Some sample_sys) = Done (Some sample_sys) (ErrorResult message)"
    unfolding SpawnTool_Execute_def by (simp add: ref)
  have "as_string (map_of ?args ''agent_id'') = ''ops''" by (simp add: as_string_def)
  then have "tr_IsError (ErrorResult message)" using spawn_tool_guarded [OF run] no by auto
  then show ?thesis using run by blast
qed

end
