(* ===== verification/Auth.thy ===== *)
theory Auth
  imports Protocol "HOL-Library.List_Lexorder"
begin

text \<open>
  Authentication, \<^verbatim>\<open>pkg/auth\<close>: the credential store (\<^verbatim>\<open>store.go\<close>), pasted tokens
  (\<^verbatim>\<open>token.go\<close>), proof keys (\<^verbatim>\<open>pkce.go\<close>) and the OAuth flows (\<^verbatim>\<open>oauth.go\<close>), with the
  token sources of \<^verbatim>\<open>pkg/providers/claude_provider.go\<close> and \<^verbatim>\<open>codex_provider.go\<close> that use
  them. The store file is its decoded contents; what the network answers, the decoding of a JSON
  body and the hash function are arguments. Base64 is defined here because the padding that
  \<^verbatim>\<open>parseJWTClaims\<close> adds depends on its details.
\<close>

subsection \<open>Base64\<close>

definition alphabet64 :: "string \<Rightarrow> string" where
  "alphabet64 tail = ''ABCDEFGHIJKLMNOPQRSTUVWXYZabcdefghijklmnopqrstuvwxyz0123456789'' @ tail"

definition std64 :: string where "std64 = alphabet64 ''+/''"

definition url64 :: string where "url64 = alphabet64 ''-_''"

definition digit64 :: "string \<Rightarrow> nat \<Rightarrow> char" where
  "digit64 alpha n = alpha ! n"

fun find_index :: "nat \<Rightarrow> char \<Rightarrow> string \<Rightarrow> nat option" where
  "find_index n c [] = None"
| "find_index n c (d # ds) = (if c = d then Some n else find_index (Suc n) c ds)"

definition value64 :: "string \<Rightarrow> char \<Rightarrow> nat option" where
  "value64 alpha c = find_index 0 c alpha"

text \<open>The raw encoding, without padding, and the padded decoding, which skips line breaks.\<close>

fun encode64 :: "string \<Rightarrow> nat list \<Rightarrow> string" where
  "encode64 alpha (a # b # c # bs) =
     [digit64 alpha (a div 4), digit64 alpha (a mod 4 * 16 + b div 16), digit64 alpha (b mod 16 * 4 + c div 64),
      digit64 alpha (c mod 64)] @ encode64 alpha bs"
| "encode64 alpha [a, b] = [digit64 alpha (a div 4), digit64 alpha (a mod 4 * 16 + b div 16), digit64 alpha (b mod 16 * 4)]"
| "encode64 alpha [a] = [digit64 alpha (a div 4), digit64 alpha (a mod 4 * 16)]"
| "encode64 alpha [] = []"

definition eq64 :: char where "eq64 = CHR ''=''"

fun decode_quanta :: "string \<Rightarrow> string \<Rightarrow> nat list option" where
  "decode_quanta alpha [] = Some []"
| "decode_quanta alpha (w # x # y # z # rest) =
     (case (value64 alpha w, value64 alpha x) of
        (Some p, Some q) \<Rightarrow>
          if rest = [] \<and> y = eq64 \<and> z = eq64 then Some [p * 4 + q div 16]
          else (case value64 alpha y of
                  None \<Rightarrow> None
                | Some r \<Rightarrow>
                    if rest = [] \<and> z = eq64 then Some [p * 4 + q div 16, q mod 16 * 16 + r div 4]
                    else (case (value64 alpha z, decode_quanta alpha rest) of
                            (Some t, Some bs) \<Rightarrow> Some ([p * 4 + q div 16, q mod 16 * 16 + r div 4, r mod 4 * 64 + t] @ bs)
                          | _ \<Rightarrow> None))
      | _ \<Rightarrow> None)"
| "decode_quanta alpha _ = None"

definition decode64 :: "string \<Rightarrow> string \<Rightarrow> nat list option" where
  "decode64 alpha s = decode_quanta alpha (filter (\<lambda>c. c \<noteq> nl \<and> c \<noteq> cr) s)"

definition bytes_string :: "nat list \<Rightarrow> string" where
  "bytes_string bs = map char_of bs"

definition string_bytes :: "string \<Rightarrow> nat list" where
  "string_bytes s = map of_char s"

definition decodeBase64 :: "string \<Rightarrow> string" where
  "decodeBase64 s = (case decode64 std64 s of Some bs \<Rightarrow> bytes_string bs | None \<Rightarrow> s)"

definition base64URLDecode :: "string \<Rightarrow> nat list option" where
  "base64URLDecode s = decode64 std64 (map (\<lambda>c. if c = CHR ''-'' then CHR ''+'' else if c = CHR ''_'' then CHR ''/'' else c) s)"

subsection \<open>Proof keys\<close>

record PKCECodes =
  pk_CodeVerifier :: string
  pk_CodeChallenge :: string

text \<open>\<open>random\<close> are the 64 random bytes, \<open>None\<close> when the source fails; \<open>sha256\<close> is the hash.\<close>

definition GeneratePKCE :: "(string \<Rightarrow> nat list) \<Rightarrow> nat list option \<Rightarrow> GoError + PKCECodes" where
  "GeneratePKCE sha256 random =
     (case random of
        None \<Rightarrow> Inl (ErrNew ''rand'')
      | Some buf \<Rightarrow>
          let verifier = encode64 url64 buf in
          Inr \<lparr>pk_CodeVerifier = verifier, pk_CodeChallenge = encode64 url64 (sha256 verifier)\<rparr>)"

subsection \<open>The credential store\<close>

record AuthCredential =
  ac_AccessToken :: string
  ac_RefreshToken :: string
  ac_AccountID :: string
  ac_ExpiresAt :: time
  ac_Provider :: string
  ac_AuthMethod :: string
  ac_Email :: string
  ac_ProjectID :: string

text \<open>The map holds pointers: an entry of the file may be null.\<close>

type_synonym AuthStore = "string \<rightharpoonup> AuthCredential option"

definition IsExpired :: "time \<Rightarrow> AuthCredential \<Rightarrow> bool" where
  "IsExpired now c \<longleftrightarrow> ac_ExpiresAt c \<noteq> 0 \<and> now > ac_ExpiresAt c"

definition NeedsRefresh :: "time \<Rightarrow> AuthCredential \<Rightarrow> bool" where
  "NeedsRefresh now c \<longleftrightarrow> ac_ExpiresAt c \<noteq> 0 \<and> now + 5 * minute > ac_ExpiresAt c"

text \<open>The file: missing, unreadable, not valid JSON, or a store (without the key
  \<^verbatim>\<open>credentials\<close> the map is nil).\<close>

datatype auth_file = NoFile | Unreadable GoError | Damaged GoError | Stored "AuthStore option"

definition LoadStore :: "auth_file \<Rightarrow> GoError + AuthStore" where
  "LoadStore f =
     (case f of
        NoFile \<Rightarrow> Inr Map.empty
      | Unreadable err \<Rightarrow> Inl err
      | Damaged err \<Rightarrow> Inl err
      | Stored None \<Rightarrow> Inr Map.empty
      | Stored (Some creds) \<Rightarrow> Inr creds)"

text \<open>How a save can fail: the directory, the encoding, or the write, which leaves a truncated file.\<close>

datatype save_fault = MkdirFails GoError | MarshalFails GoError | WriteFails GoError GoError

definition SaveStore :: "save_fault option \<Rightarrow> AuthStore \<Rightarrow> auth_file \<Rightarrow> auth_file \<times> GoError option" where
  "SaveStore fault store f =
     (case fault of
        None \<Rightarrow> (Stored (Some store), None)
      | Some (MkdirFails err) \<Rightarrow> (f, Some err)
      | Some (MarshalFails err) \<Rightarrow> (f, Some err)
      | Some (WriteFails err parse_err) \<Rightarrow> (Damaged parse_err, Some err))"

definition ErrCredentialNotFound :: GoError where
  "ErrCredentialNotFound = ErrNew ''credential not found''"

definition GetCredential :: "auth_file \<Rightarrow> string \<Rightarrow> GoError + AuthCredential option" where
  "GetCredential f provider =
     (case LoadStore f of
        Inl err \<Rightarrow> Inl err
      | Inr store \<Rightarrow> (case store provider of None \<Rightarrow> Inl ErrCredentialNotFound | Some cred \<Rightarrow> Inr cred))"

definition SetCredential :: "save_fault option \<Rightarrow> string \<Rightarrow> AuthCredential \<Rightarrow> auth_file \<Rightarrow> auth_file \<times> GoError option" where
  "SetCredential fault provider cred f =
     (case LoadStore f of
        Inl err \<Rightarrow> (f, Some err)
      | Inr store \<Rightarrow> SaveStore fault (store(provider \<mapsto> Some cred)) f)"

definition DeleteCredential :: "save_fault option \<Rightarrow> string \<Rightarrow> auth_file \<Rightarrow> auth_file \<times> GoError option" where
  "DeleteCredential fault provider f =
     (case LoadStore f of
        Inl err \<Rightarrow> (f, Some err)
      | Inr store \<Rightarrow> SaveStore fault (store(provider := None)) f)"

text \<open>\<open>fault\<close> is an error of the removal other than that there is no such file.\<close>

definition DeleteAllCredentials :: "GoError option \<Rightarrow> auth_file \<Rightarrow> auth_file \<times> GoError option" where
  "DeleteAllCredentials fault f = (case fault of Some err \<Rightarrow> (f, Some err) | None \<Rightarrow> (NoFile, None))"

subsection \<open>Pasted tokens\<close>

text \<open>\<open>line\<close> is the first line of the input: \<open>Inl\<close> a read error, \<open>Inr None\<close> at the end of input.\<close>

definition LoginPasteToken :: "string \<Rightarrow> GoError + string option \<Rightarrow> GoError + AuthCredential" where
  "LoginPasteToken provider line =
     (case line of
        Inl err \<Rightarrow> Inl (ErrWrap ''reading token: '' err)
      | Inr None \<Rightarrow> Inl (ErrNew ''no input received'')
      | Inr (Some text) \<Rightarrow>
          let token = trim_space text in
          if token = [] then Inl (ErrNew ''token cannot be empty'')
          else Inr \<lparr>ac_AccessToken = token, ac_RefreshToken = [], ac_AccountID = [], ac_ExpiresAt = 0,
                    ac_Provider = provider, ac_AuthMethod = ''token'', ac_Email = [], ac_ProjectID = []\<rparr>)"

subsection \<open>OAuth\<close>

record OAuthProviderConfig =
  oc_Issuer :: string
  oc_ClientID :: string
  oc_ClientSecret :: string
  oc_TokenURL :: string
  oc_Scopes :: string
  oc_Originator :: string
  oc_Port :: int

definition OpenAIOAuthConfig :: OAuthProviderConfig where
  "OpenAIOAuthConfig = \<lparr>oc_Issuer = ''https://auth.openai.com'', oc_ClientID = ''app_EMoamEEZ73f0CkXaXp7hrann'',
     oc_ClientSecret = [], oc_TokenURL = [], oc_Scopes = ''openid profile email offline_access'',
     oc_Originator = ''codex_cli_rs'', oc_Port = 1455\<rparr>"

text \<open>\<^verbatim>\<open>url.Values.Encode\<close>: the parameters sorted by key, each escaped for a query.\<close>

definition unreserved :: "char \<Rightarrow> bool" where
  "unreserved c \<longleftrightarrow> is_upper c \<or> is_lower c \<or> is_digit c \<or> c \<in> set ''-_.~''"

definition hex_upper :: "nat \<Rightarrow> char" where
  "hex_upper n = ''0123456789ABCDEF'' ! n"

definition escape_char :: "char \<Rightarrow> string" where
  "escape_char c =
     (if unreserved c then [c] else if c = CHR '' '' then ''+''
      else let n = (of_char c :: nat) in CHR ''%'' # [hex_upper (n div 16), hex_upper (n mod 16)])"

definition query_escape :: "string \<Rightarrow> string" where
  "query_escape s = concat (map escape_char s)"

definition encode_params :: "(string \<times> string) list \<Rightarrow> string" where
  "encode_params params = join ''&'' (map (\<lambda>(k, v). query_escape k @ ''='' @ query_escape v) (sort_key fst params))"

definition buildAuthorizeURL :: "OAuthProviderConfig \<Rightarrow> PKCECodes \<Rightarrow> string \<Rightarrow> string \<Rightarrow> string" where
  "buildAuthorizeURL cfg pkce state redirectURI =
     (let params = [(''response_type'', ''code''), (''client_id'', oc_ClientID cfg), (''redirect_uri'', redirectURI),
            (''scope'', oc_Scopes cfg), (''code_challenge'', pk_CodeChallenge pkce), (''code_challenge_method'', ''S256''),
            (''state'', state)];
          isGoogle = contains (to_lower (oc_Issuer cfg)) ''accounts.google.com'';
          originator = (if oc_Originator cfg \<noteq> [] then [(''originator'', oc_Originator cfg)]
                        else if contains (to_lower (oc_Issuer cfg)) ''auth.openai.com'' then [(''originator'', ''tinyclaw'')] else [])
      in if isGoogle
         then oc_Issuer cfg @ ''/auth?'' @ encode_params (params @ [(''access_type'', ''offline''), (''prompt'', ''consent'')])
         else oc_Issuer cfg @ ''/oauth/authorize?'' @
              encode_params (params @ [(''id_token_add_organizations'', ''true''), (''codex_cli_simplified_flow'', ''true'')] @ originator))"

subsubsection \<open>Tokens\<close>

text \<open>Claims of a JSON web token. \<open>unmarshal\<close> decodes a JSON object.\<close>

definition pad64 :: "string \<Rightarrow> string" where
  "pad64 payload =
     (if length payload mod 4 = 2 then payload @ ''=='' else if length payload mod 4 = 3 then payload @ ''='' else payload)"

definition parseJWTClaims :: "json_codec \<Rightarrow> string \<Rightarrow> json_obj option" where
  "parseJWTClaims codec token =
     (let parts = split_on (\<lambda>c. c = CHR ''.'') token in
      if length parts < 2 then None
      else (case base64URLDecode (pad64 (parts ! 1)) of
              None \<Rightarrow> None
            | Some decoded \<Rightarrow> jc_unmarshal codec (bytes_string decoded)))"

definition string_claim :: "json option \<Rightarrow> string option" where
  "string_claim v = (case v of Some (JStr s) \<Rightarrow> if s = [] then None else Some s | _ \<Rightarrow> None)"

fun first_org :: "json list \<Rightarrow> string" where
  "first_org [] = []"
| "first_org (JObj m # rest) = (case string_claim (map_of m ''id'') of Some accountID \<Rightarrow> accountID | None \<Rightarrow> first_org rest)"
| "first_org (_ # rest) = first_org rest"

definition extractAccountID :: "json_codec \<Rightarrow> string \<Rightarrow> string" where
  "extractAccountID codec token =
     (case parseJWTClaims codec token of
        None \<Rightarrow> []
      | Some claims \<Rightarrow>
          (case string_claim (map_of claims ''chatgpt_account_id'') of
             Some accountID \<Rightarrow> accountID
           | None \<Rightarrow>
               (case string_claim (map_of claims ''https://api.openai.com/auth.chatgpt_account_id'') of
                  Some accountID \<Rightarrow> accountID
                | None \<Rightarrow>
                    (case (case map_of claims ''https://api.openai.com/auth'' of
                             Some (JObj m) \<Rightarrow> string_claim (map_of m ''chatgpt_account_id'')
                           | _ \<Rightarrow> None) of
                       Some accountID \<Rightarrow> accountID
                     | None \<Rightarrow> (case map_of claims ''organizations'' of Some (JArr orgs) \<Rightarrow> first_org orgs | _ \<Rightarrow> [])))))"

record TokenResponse =
  tk_AccessToken :: string
  tk_RefreshToken :: string
  tk_ExpiresIn :: int
  tk_IDToken :: string

text \<open>What the token endpoint answers: a transport error, or a status and a body; \<open>decode\<close> decodes the
  body. The lifetime is multiplied as a 64-bit duration.\<close>

record token_env =
  te_codec :: json_codec
  te_decode :: "string \<Rightarrow> GoError + TokenResponse"
  te_post :: "string \<Rightarrow> (string \<times> string) list \<Rightarrow> GoError + (int \<times> string)"
  te_now :: time

definition parseTokenResponse :: "token_env \<Rightarrow> string \<Rightarrow> string \<Rightarrow> GoError + AuthCredential" where
  "parseTokenResponse env body provider =
     (case te_decode env body of
        Inl err \<Rightarrow> Inl (ErrWrap ''parsing token response: '' err)
      | Inr resp \<Rightarrow>
          if tk_AccessToken resp = [] then Inl (ErrNew ''no access token in response'')
          else let fromID = extractAccountID (te_codec env) (tk_IDToken resp);
                   fromAccess = extractAccountID (te_codec env) (tk_AccessToken resp)
               in Inr \<lparr>ac_AccessToken = tk_AccessToken resp, ac_RefreshToken = tk_RefreshToken resp,
                       ac_AccountID = (if fromID \<noteq> [] then fromID else fromAccess),
                       ac_ExpiresAt = (if tk_ExpiresIn resp > 0 then te_now env + wrap64 (tk_ExpiresIn resp * second) else 0),
                       ac_Provider = provider, ac_AuthMethod = ''oauth'', ac_Email = [], ac_ProjectID = []\<rparr>)"

definition token_url :: "OAuthProviderConfig \<Rightarrow> string" where
  "token_url cfg = (if oc_TokenURL cfg \<noteq> [] then oc_TokenURL cfg else oc_Issuer cfg @ ''/oauth/token'')"

definition client_secret :: "OAuthProviderConfig \<Rightarrow> (string \<times> string) list" where
  "client_secret cfg = (if oc_ClientSecret cfg \<noteq> [] then [(''client_secret'', oc_ClientSecret cfg)] else [])"

definition exchangeCodeForTokens :: "token_env \<Rightarrow> OAuthProviderConfig \<Rightarrow> string \<Rightarrow> string \<Rightarrow> string \<Rightarrow> GoError + AuthCredential" where
  "exchangeCodeForTokens env cfg code codeVerifier redirectURI =
     (let data = [(''grant_type'', ''authorization_code''), (''code'', code), (''redirect_uri'', redirectURI),
            (''client_id'', oc_ClientID cfg), (''code_verifier'', codeVerifier)] @ client_secret cfg;
          provider = (if oc_TokenURL cfg \<noteq> [] \<and> contains (oc_TokenURL cfg) ''googleapis.com'' then ''google-antigravity'' else ''openai'')
      in case te_post env (token_url cfg) data of
           Inl err \<Rightarrow> Inl (ErrWrap ''exchanging code for tokens: '' err)
         | Inr (status, body) \<Rightarrow>
             if status \<noteq> 200 then Inl (ErrNew (''token exchange failed: '' @ body))
             else parseTokenResponse env body provider)"

definition keep_fields :: "AuthCredential \<Rightarrow> AuthCredential \<Rightarrow> AuthCredential" where
  "keep_fields cred refreshed =
     (let r = (if ac_RefreshToken refreshed = [] then refreshed\<lparr>ac_RefreshToken := ac_RefreshToken cred\<rparr> else refreshed);
          r = (if ac_AccountID r = [] then r\<lparr>ac_AccountID := ac_AccountID cred\<rparr> else r);
          r = (if ac_Email cred \<noteq> [] \<and> ac_Email r = [] then r\<lparr>ac_Email := ac_Email cred\<rparr> else r)
      in if ac_ProjectID cred \<noteq> [] \<and> ac_ProjectID r = [] then r\<lparr>ac_ProjectID := ac_ProjectID cred\<rparr> else r)"

definition RefreshAccessToken :: "token_env \<Rightarrow> AuthCredential \<Rightarrow> OAuthProviderConfig \<Rightarrow> GoError + AuthCredential" where
  "RefreshAccessToken env cred cfg =
     (if ac_RefreshToken cred = [] then Inl (ErrNew ''no refresh token available'')
      else let data = [(''client_id'', oc_ClientID cfg), (''grant_type'', ''refresh_token''), (''refresh_token'', ac_RefreshToken cred),
                 (''scope'', ''openid profile email'')] @ client_secret cfg
           in case te_post env (token_url cfg) data of
                Inl err \<Rightarrow> Inl (ErrWrap ''refreshing token: '' err)
              | Inr (status, body) \<Rightarrow>
                  if status \<noteq> 200 then Inl (ErrNew (''token refresh failed: '' @ body))
                  else (case parseTokenResponse env body (ac_Provider cred) of
                          Inl err \<Rightarrow> Inl err
                        | Inr refreshed \<Rightarrow> Inr (keep_fields cred refreshed)))"

subsubsection \<open>Logging in\<close>

text \<open>The handler of the redirect, on the query of the request; an absent parameter reads as empty.\<close>

definition oauth_callback :: "string \<Rightarrow> (string \<times> string) list \<Rightarrow> GoError + string" where
  "oauth_callback state query =
     (if map_get query ''state'' \<noteq> state then Inl (ErrNew ''state mismatch'')
      else let code = map_get query ''code'' in
        if code = [] then Inl (ErrNew (''no code received: '' @ map_get query ''error'')) else Inr code)"

text \<open>What arrives first: the redirect, the line that the user pastes, or the time limit.
  \<open>parse_query\<close> is the query of a URL, \<open>None\<close> if it does not parse.\<close>

datatype login_input = Redirect "(string \<times> string) list" | Pasted string | TimedOut

definition pasted_code :: "(string \<Rightarrow> (string \<times> string) list option) \<Rightarrow> string \<Rightarrow> string" where
  "pasted_code parse_query input =
     (if contains input ''?'' then (case parse_query input of Some q \<Rightarrow> map_get q ''code'' | None \<Rightarrow> input) else input)"

definition LoginBrowser :: "token_env \<Rightarrow> (string \<Rightarrow> (string \<times> string) list option) \<Rightarrow> OAuthProviderConfig \<Rightarrow>
    GoError + PKCECodes \<Rightarrow> GoError + string \<Rightarrow> GoError option \<Rightarrow> login_input \<Rightarrow> GoError + AuthCredential" where
  "LoginBrowser env parse_query cfg pkce state listen_error inp =
     (case pkce of
        Inl err \<Rightarrow> Inl (ErrWrap ''generating PKCE: '' err)
      | Inr codes \<Rightarrow>
          (case state of
             Inl err \<Rightarrow> Inl (ErrWrap ''generating state: '' err)
           | Inr st \<Rightarrow>
               let redirectURI = ''http://localhost:'' @ itoa (oc_Port cfg) @ ''/auth/callback'' in
               (case listen_error of
                  Some err \<Rightarrow> Inl (ErrWrap (''starting callback server on port '' @ itoa (oc_Port cfg) @ '': '') err)
                | None \<Rightarrow>
                    (case inp of
                       Redirect query \<Rightarrow>
                         (case oauth_callback st query of
                            Inl err \<Rightarrow> Inl err
                          | Inr code \<Rightarrow> exchangeCodeForTokens env cfg code (pk_CodeVerifier codes) redirectURI)
                     | Pasted line \<Rightarrow>
                         let manualInput = trim_space line; code = pasted_code parse_query manualInput in
                         if manualInput = [] then Inl (ErrNew ''manual input canceled'')
                         else if code = [] then Inl (ErrNew ''could not find authorization code in input'')
                         else exchangeCodeForTokens env cfg code (pk_CodeVerifier codes) redirectURI
                     | TimedOut \<Rightarrow> Inl (ErrNew ''authentication timed out after 5 minutes'')))))"

subsubsection \<open>Token sources\<close>

text \<open>Reading a field of a null entry panics; \<open>nil_deref\<close> stands for that.\<close>

definition nil_deref :: GoError where
  "nil_deref = ErrNew ''invalid memory address or nil pointer dereference''"

definition claude_token :: "auth_file \<Rightarrow> GoError + string" where
  "claude_token f =
     (case GetCredential f ''anthropic'' of
        Inl err \<Rightarrow> Inl (ErrWrap ''loading auth credentials: '' err)
      | Inr None \<Rightarrow> Inl (ErrNew ''no credentials for anthropic. Run: tinyclaw auth login --provider anthropic'')
      | Inr (Some cred) \<Rightarrow> Inr (ac_AccessToken cred))"

definition codex_token :: "token_env \<Rightarrow> save_fault option \<Rightarrow> auth_file \<Rightarrow> auth_file \<times> (GoError + (string \<times> string))" where
  "codex_token env fault f =
     (case GetCredential f ''openai'' of
        Inl err \<Rightarrow> (f, Inl (if err = ErrCredentialNotFound
                              then ErrNew ''no credentials for openai. Run: tinyclaw auth login --provider openai''
                              else ErrWrap ''loading auth credentials: '' err))
      | Inr None \<Rightarrow> (f, Inl nil_deref)
      | Inr (Some cred) \<Rightarrow>
          if ac_AuthMethod cred = ''oauth'' \<and> NeedsRefresh (te_now env) cred \<and> ac_RefreshToken cred \<noteq> []
          then (case RefreshAccessToken env cred OpenAIOAuthConfig of
                  Inl err \<Rightarrow> (f, Inl (ErrWrap ''refreshing token: '' err))
                | Inr refreshed \<Rightarrow>
                    let refreshed = (if ac_AccountID refreshed = [] then refreshed\<lparr>ac_AccountID := ac_AccountID cred\<rparr> else refreshed) in
                    (case SetCredential fault ''openai'' refreshed f of
                       (f', Some err) \<Rightarrow> (f', Inl (ErrWrap ''saving refreshed token: '' err))
                     | (f', None) \<Rightarrow> (f', Inr (ac_AccessToken refreshed, ac_AccountID refreshed))))
          else (f, Inr (ac_AccessToken cred, ac_AccountID cred)))"

subsection \<open>Base64 round trips\<close>

definition url_to_std :: "char \<Rightarrow> char" where
  "url_to_std c = (if c = CHR ''-'' then CHR ''+'' else if c = CHR ''_'' then CHR ''/'' else c)"

definition digit_ok :: "nat \<Rightarrow> bool" where
  "digit_ok n \<longleftrightarrow> url_to_std (digit64 url64 n) = digit64 std64 n \<and> value64 std64 (digit64 std64 n) = Some n \<and>
     digit64 std64 n \<notin> {nl, cr, eq64} \<and> digit64 url64 n \<noteq> CHR ''.'' \<and> unreserved (digit64 url64 n)"

lemma digits_ok: "list_all digit_ok [0..<64]"
  by code_simp

lemma digit64:
  assumes "n < 64"
  shows "url_to_std (digit64 url64 n) = digit64 std64 n" "value64 std64 (digit64 std64 n) = Some n"
    "digit64 std64 n \<noteq> nl" "digit64 std64 n \<noteq> cr" "digit64 std64 n \<noteq> eq64" "digit64 url64 n \<noteq> CHR ''.''"
    "unreserved (digit64 url64 n)"
  using digits_ok assms unfolding list_all_iff digit_ok_def by simp_all

abbreviation bytes :: "nat list \<Rightarrow> bool" where
  "bytes bs \<equiv> list_all (\<lambda>b. b < 256) bs"

lemma sextets:
  fixes a b c :: nat
  assumes "a < 256" "b < 256" "c < 256"
  shows "a div 4 < 64" "a mod 4 * 16 + b div 16 < 64" "b mod 16 * 4 + c div 64 < 64" "c mod 64 < 64"
    "a mod 4 * 16 < 64" "b mod 16 * 4 < 64"
proof -
  have "a div 4 < 64" "b div 16 < 16" "c div 64 < 4"
    using assms by (simp_all add: less_mult_imp_div_less)
  moreover have "a mod 4 < 4" "b mod 16 < 16" "c mod 64 < 64" by simp_all
  ultimately show "a div 4 < 64" "a mod 4 * 16 + b div 16 < 64" "b mod 16 * 4 + c div 64 < 64" "c mod 64 < 64"
    "a mod 4 * 16 < 64" "b mod 16 * 4 < 64" by linarith+
qed

lemma mixed_radix:
  fixes x y n :: nat
  assumes "y < n"
  shows "(x * n + y) div n = x" "(x * n + y) mod n = y"
  using assms by (simp_all add: div_mult_self3)

lemma bytes_back:
  fixes a b c :: nat
  assumes "a < 256" "b < 256" "c < 256"
  shows "a div 4 * 4 + (a mod 4 * 16 + b div 16) div 16 = a"
    "(a mod 4 * 16 + b div 16) mod 16 * 16 + (b mod 16 * 4 + c div 64) div 4 = b"
    "(b mod 16 * 4 + c div 64) mod 4 * 64 + c mod 64 = c"
    "a div 4 * 4 + a mod 4 * 16 div 16 = a"
    "(a mod 4 * 16 + b div 16) mod 16 * 16 + b mod 16 * 4 div 4 = b"
proof -
  have "b div 16 < 16" "c div 64 < 4" using assms by (simp_all add: less_mult_imp_div_less)
  note m = mixed_radix [OF this(1)] mixed_radix [OF this(2)]
  show "a div 4 * 4 + (a mod 4 * 16 + b div 16) div 16 = a"
    "(a mod 4 * 16 + b div 16) mod 16 * 16 + (b mod 16 * 4 + c div 64) div 4 = b"
    "(b mod 16 * 4 + c div 64) mod 4 * 64 + c mod 64 = c"
    "a div 4 * 4 + a mod 4 * 16 div 16 = a"
    "(a mod 4 * 16 + b div 16) mod 16 * 16 + b mod 16 * 4 div 4 = b"
    unfolding m by simp_all
qed

fun padding :: "nat list \<Rightarrow> string" where
  "padding (a # b # c # bs) = padding bs"
| "padding [a, b] = ''=''"
| "padding [a] = ''==''"
| "padding [] = []"

lemma pad64_encode: "pad64 (encode64 alpha bs) = encode64 alpha bs @ padding bs"
proof -
  have "length (encode64 alpha bs) mod 4 = (if padding bs = ''=='' then 2 else if padding bs = ''='' then 3 else 0) \<and>
      padding bs \<in> {[], ''='', ''==''}"
    by (induction alpha bs rule: encode64.induct) auto
  then show ?thesis unfolding pad64_def by auto
qed

lemma decode_encode: "bytes bs \<Longrightarrow> decode_quanta std64 (encode64 std64 bs @ padding bs) = Some bs"
proof (induction std64 bs rule: encode64.induct)
  case (1 a b c bs)
  then have abc: "a < 256" "b < 256" "c < 256" and bs: "bytes bs" by simp_all
  note s = sextets [OF abc] note d = digit64 [OF s(1)] digit64 [OF s(2)] digit64 [OF s(3)] digit64 [OF s(4)]
  show ?case using 1(1) [OF bs] d bytes_back [OF abc] by simp
next
  case (2 a b)
  then have ab: "a < 256" "b < 256" by simp_all
  note s = sextets [OF ab ab(1)] note d = digit64 [OF s(1)] digit64 [OF s(2)] digit64 [OF s(6)]
  show ?case using d bytes_back [OF ab ab(1)] by (simp add: eq64_def)
next
  case (3 a)
  then have a: "a < 256" by simp
  note s = sextets [OF a a a] note d = digit64 [OF s(1)] digit64 [OF s(5)]
  show ?case using d bytes_back [OF a a a] by (simp add: eq64_def)
qed simp

definition digit_of :: "string \<Rightarrow> char \<Rightarrow> bool" where
  "digit_of alpha c \<longleftrightarrow> (\<exists>n < 64. c = digit64 alpha n)"

lemma digit_ofI: "n < 64 \<Longrightarrow> digit_of alpha (digit64 alpha n)"
  by (auto simp: digit_of_def)

lemma digit_ofE:
  assumes "digit_of alpha c"
  obtains n where "n < 64" "c = digit64 alpha n"
  using assms by (auto simp: digit_of_def)

lemma encode64_digits:
  "bytes bs \<Longrightarrow> list_all (digit_of alpha) (encode64 alpha bs)"
proof (induction alpha bs rule: encode64.induct)
  case (1 alpha a b c bs)
  then have s: "a div 4 < 64" "a mod 4 * 16 + b div 16 < 64" "b mod 16 * 4 + c div 64 < 64" "c mod 64 < 64"
    using sextets [of a b c] by simp_all
  have "list_all (digit_of alpha) (encode64 alpha bs)" using 1 by simp
  then show ?case unfolding encode64.simps list_all_append using s by (simp add: digit_ofI)
next
  case (2 alpha a b)
  then have "a div 4 < 64" "a mod 4 * 16 + b div 16 < 64" "b mod 16 * 4 < 64" using sextets [of a b 0] by simp_all
  then show ?case by (simp add: digit_ofI)
next
  case (3 alpha a)
  then have "a div 4 < 64" "a mod 4 * 16 < 64" using sextets [of a 0 0] by simp_all
  then show ?case by (simp add: digit_ofI)
qed simp

lemma encode64_std: "bytes bs \<Longrightarrow> map url_to_std (encode64 url64 bs) = encode64 std64 bs"
proof (induction url64 bs rule: encode64.induct)
  case (1 a b c bs)
  then show ?case using sextets [of a b c] by (simp add: digit64(1))
next
  case (2 a b)
  then show ?case using sextets [of a b 0] by (simp add: digit64(1))
next
  case (3 a)
  then show ?case using sextets [of a 0 0] by (simp add: digit64(1))
qed simp

lemma url_decode_encode:
  assumes "bytes bs"
  shows "base64URLDecode (pad64 (encode64 url64 bs)) = Some bs"
proof -
  have "padding bs \<in> {[], ''='', ''==''}" by (induction bs rule: padding.induct) auto
  then have pad: "map url_to_std (padding bs) = padding bs" "filter (\<lambda>c. c \<noteq> nl \<and> c \<noteq> cr) (padding bs) = padding bs"
    by (auto simp: url_to_std_def)
  have "filter (\<lambda>c. c \<noteq> nl \<and> c \<noteq> cr) (encode64 std64 bs) = encode64 std64 bs"
    using encode64_digits [OF assms, of std64] unfolding filter_id_conv list_all_iff
    by (metis digit64(3) digit64(4) digit_ofE)
  then show ?thesis
    using decode_encode [OF assms] pad encode64_std [OF assms]
    unfolding base64URLDecode_def decode64_def pad64_encode url_to_std_def [symmetric] by simp
qed

lemma encode64_length: "length (encode64 alpha bs) = (4 * length bs + 2) div 3"
  by (induction alpha bs rule: encode64.induct) auto

lemma split_on_sep:
  assumes "\<forall>c \<in> set a. \<not> p c" "p d"
  shows "split_on p (a @ d # b) = a # split_on p b"
  using assms by (induction a) auto

lemma split_on_none: "\<forall>c \<in> set a. \<not> p c \<Longrightarrow> split_on p a = [a]"
  by (induction a) auto

lemma bytes_string_of: "bytes_string (string_bytes s) = s"
  by (induction s) (simp_all add: bytes_string_def string_bytes_def)

lemma string_bytes_ok: "bytes (string_bytes s)"
  by (simp add: string_bytes_def list_all_iff)

lemma encode64_no_dot:
  assumes "bytes bs"
  shows "\<forall>c \<in> set (encode64 url64 bs). c \<noteq> CHR ''.''"
  using encode64_digits [OF assms, of url64] unfolding list_all_iff by (metis digit64(6) digit_ofE)

text \<open>The claims of a JSON web token are found: for a payload that was encoded the way such tokens are
  (URL alphabet, no padding) between two dots, whatever its length, the padding that is added and the
  change of alphabet give back exactly the encoded text, and its claims are the result.\<close>

theorem jwt_claims_roundtrip:
  assumes "\<forall>c \<in> set header. c \<noteq> CHR ''.''"
  shows "parseJWTClaims codec (header @ ''.'' @ encode64 url64 (string_bytes json) @ ''.'' @ signature) = jc_unmarshal codec json"
proof -
  let ?p = "\<lambda>c. c = CHR ''.''" and ?e = "encode64 url64 (string_bytes json)"
  have "split_on ?p (header @ CHR ''.'' # ?e @ CHR ''.'' # signature) = header # ?e # split_on ?p signature"
    using split_on_sep [of header ?p] split_on_sep [of ?e ?p] assms encode64_no_dot [OF string_bytes_ok] by simp
  then show ?thesis
    using url_decode_encode [OF string_bytes_ok, of json] bytes_string_of [of json] unfolding parseJWTClaims_def by simp
qed

theorem jwt_claims_roundtrip_witness:
  "parseJWTClaims \<lparr>jc_marshal = (\<lambda>_. Inr []), jc_unmarshal = (\<lambda>s. if s = ''{}'' then Some [(''k'', JNull)] else None)\<rparr>
     ''h.e30.sig'' = Some [(''k'', JNull)]"
proof -
  have e: "encode64 url64 (string_bytes ''{}'') = ''e30''" by code_simp
  have h: "\<forall>c \<in> set ''h''. c \<noteq> CHR ''.''" by simp
  from jwt_claims_roundtrip [OF h, of _ "''{}''" "''sig''"] show ?thesis unfolding e by simp
qed

text \<open>A proof key is acceptable to an authorisation server: with 64 random bytes the verifier has 86
  characters, all of them unreserved, and it determines the random bytes.\<close>

lemma pkce_verifier:
  assumes "GeneratePKCE sha256 (Some buf) = Inr codes" "length buf = 64" "bytes buf"
  shows "length (pk_CodeVerifier codes) = 86" "\<forall>c \<in> set (pk_CodeVerifier codes). unreserved c"
    "base64URLDecode (pad64 (pk_CodeVerifier codes)) = Some buf"
proof -
  have v: "pk_CodeVerifier codes = encode64 url64 buf" using assms(1) by (auto simp: GeneratePKCE_def Let_def)
  show "length (pk_CodeVerifier codes) = 86" using assms(2) by (simp add: v encode64_length)
  show "\<forall>c \<in> set (pk_CodeVerifier codes). unreserved c"
    using encode64_digits [OF assms(3), of url64] unfolding v list_all_iff by (metis digit64(7) digit_ofE)
  show "base64URLDecode (pad64 (pk_CodeVerifier codes)) = Some buf" unfolding v by (rule url_decode_encode [OF assms(3)])
qed

subsection \<open>The store and the token sources\<close>

text \<open>The interface of a store of credentials: what a lookup returns after a successful update.\<close>

locale credential_store =
  fixes get :: "'s \<Rightarrow> string \<Rightarrow> GoError + 'c option"
    and put :: "string \<Rightarrow> 'c \<Rightarrow> 's \<Rightarrow> 's \<times> GoError option"
    and del :: "string \<Rightarrow> 's \<Rightarrow> 's \<times> GoError option"
    and missing :: GoError
  assumes get_put: "put p c s = (s', None) \<Longrightarrow> get s' q = (if q = p then Inr (Some c) else get s q)"
    and get_del: "del p s = (s', None) \<Longrightarrow> get s' q = (if q = p then Inl missing else get s q)"
begin

lemma put_del_other:
  assumes "put p c s = (s1, None)" "del q s1 = (s2, None)" "p \<noteq> q"
  shows "get s2 p = Inr (Some c)"
  using get_put [OF assms(1)] get_del [OF assms(2)] assms(3) by simp

lemma last_put_wins:
  assumes "put p c s = (s1, None)" "put p d s1 = (s2, None)"
  shows "get s2 p = Inr (Some d)"
  using get_put [OF assms(2)] by simp

end

interpretation auth_store: credential_store GetCredential "SetCredential fault" "DeleteCredential fault" ErrCredentialNotFound
proof
  fix p q c s s'
  show "SetCredential fault p c s = (s', None) \<Longrightarrow> GetCredential s' q = (if q = p then Inr (Some c) else GetCredential s q)"
    by (cases "LoadStore s") (auto simp: SetCredential_def SaveStore_def GetCredential_def LoadStore_def
        split: option.splits save_fault.splits)
  show "DeleteCredential fault p s = (s', None) \<Longrightarrow> GetCredential s' q = (if q = p then Inl ErrCredentialNotFound else GetCredential s q)"
    by (cases "LoadStore s") (auto simp: DeleteCredential_def SaveStore_def GetCredential_def LoadStore_def
        split: option.splits save_fault.splits)
qed

lemma keep_fields_kept:
  "ac_AccessToken (keep_fields cred r) = ac_AccessToken r" "ac_Provider (keep_fields cred r) = ac_Provider r"
  "ac_RefreshToken cred \<noteq> [] \<Longrightarrow> ac_RefreshToken (keep_fields cred r) \<noteq> []"
  "ac_AccountID cred \<noteq> [] \<Longrightarrow> ac_AccountID (keep_fields cred r) \<noteq> []"
  "ac_Email r = [] \<Longrightarrow> ac_Email (keep_fields cred r) = ac_Email cred"
  "ac_ProjectID r = [] \<Longrightarrow> ac_ProjectID (keep_fields cred r) = ac_ProjectID cred"
  by (simp_all add: keep_fields_def Let_def)

lemma parseTokenResponse_ok:
  assumes "parseTokenResponse env body provider = Inr c"
  shows "ac_AccessToken c \<noteq> [] \<and> ac_Provider c = provider \<and> ac_Email c = [] \<and> ac_ProjectID c = [] \<and> ac_AuthMethod c = ''oauth''"
  using assms by (auto simp: parseTokenResponse_def Let_def split: sum.splits if_splits)

lemma RefreshAccessToken_ok:
  assumes "RefreshAccessToken env cred cfg = Inr c"
  shows "ac_AccessToken c \<noteq> [] \<and> ac_Provider c = ac_Provider cred \<and> ac_RefreshToken c \<noteq> [] \<and>
    (ac_AccountID cred \<noteq> [] \<longrightarrow> ac_AccountID c \<noteq> []) \<and> ac_Email c = ac_Email cred \<and> ac_ProjectID c = ac_ProjectID cred"
proof -
  obtain body r where rt: "ac_RefreshToken cred \<noteq> []" and r: "parseTokenResponse env body (ac_Provider cred) = Inr r"
    and c: "c = keep_fields cred r"
    using assms by (auto simp: RefreshAccessToken_def Let_def split: if_splits sum.splits)
  show ?thesis using parseTokenResponse_ok [OF r] rt unfolding c by (simp add: keep_fields_kept)
qed


definition old_credential :: AuthCredential where
  "old_credential = \<lparr>ac_AccessToken = ''old'', ac_RefreshToken = ''refresh'', ac_AccountID = ''acc'', ac_ExpiresAt = 1000,
     ac_Provider = ''openai'', ac_AuthMethod = ''oauth'', ac_Email = ''a@b'', ac_ProjectID = []\<rparr>"

definition sample_token_env :: token_env where
  "sample_token_env = \<lparr>te_codec = \<lparr>jc_marshal = (\<lambda>_. Inr []), jc_unmarshal = (\<lambda>_. None)\<rparr>,
     te_decode = (\<lambda>_. Inr \<lparr>tk_AccessToken = ''new'', tk_RefreshToken = [], tk_ExpiresIn = 3600, tk_IDToken = []\<rparr>),
     te_post = (\<lambda>_ _. Inr (200, ''{}'')), te_now = 2000\<rparr>"

definition sample_store :: auth_file where
  "sample_store = Stored (Some (Map.empty(''openai'' \<mapsto> Some old_credential)))"


text \<open>The file is overwritten in place: a write that fails leaves no readable store, and with it all
  credentials are gone.\<close>

lemma failed_write_loses_credentials:
  assumes "LoadStore f = Inr store" "SetCredential (Some (WriteFails err parse_err)) p c f = (f', e)"
  shows "e = Some err \<and> (\<forall>q. GetCredential f' q = Inl parse_err)"
  using assms by (auto simp: SetCredential_def SaveStore_def GetCredential_def LoadStore_def)

text \<open>An expired credential is still used for Claude, and never refreshed.\<close>

lemma claude_token_may_be_expired:
  "\<exists>f cred. GetCredential f ''anthropic'' = Inr (Some cred) \<and> IsExpired now cred \<and> claude_token f = Inr (ac_AccessToken cred)"
proof -
  define c where "c = old_credential\<lparr>ac_ExpiresAt := (if now \<le> 0 then now - 1 else - 1)\<rparr>"
  have "IsExpired now c" by (simp add: IsExpired_def c_def)
  moreover have "GetCredential (Stored (Some (Map.empty(''anthropic'' \<mapsto> Some c)))) ''anthropic'' = Inr (Some c)"
    by (simp add: GetCredential_def LoadStore_def)
  ultimately show ?thesis by (metis claude_token_def sum.simps(6) option.simps(5))
qed

text \<open>A login by redirect succeeds only for the state of this login and a code; a pasted redirect address
  is accepted whatever its state is.\<close>

lemma redirect_state_checked:
  assumes "LoginBrowser env parse_query cfg pkce (Inr st) listen_error (Redirect query) = Inr cred"
  shows "map_get query ''state'' = st \<and> map_get query ''code'' \<noteq> []"
  using assms by (auto simp: LoginBrowser_def oauth_callback_def Let_def split: sum.splits option.splits if_splits)

lemma pasted_state_unchecked:
  assumes "contains url ''?''" "trim_space url = url" "parse_query url = Some query" "map_get query ''code'' = code" "code \<noteq> []"
  shows "LoginBrowser env parse_query cfg (Inr codes) (Inr st) None (Pasted url) =
    exchangeCodeForTokens env cfg code (pk_CodeVerifier codes) (''http://localhost:'' @ itoa (oc_Port cfg) @ ''/auth/callback'')"
proof -
  have "url \<noteq> []" using assms(1) by (auto simp: contains_def)
  then show ?thesis using assms by (simp add: LoginBrowser_def pasted_code_def Let_def)
qed

end
