(* ===== verification/Models.thy ===== *)
theory Models
  imports Agent Auth "HOL-Library.Word" "HOL-Library.Multiset"
begin

text \<open>
  The model list: its configuration (\<^verbatim>\<open>pkg/config/config.go\<close>, \<^verbatim>\<open>defaults.go\<close>), the migration
  of the old provider sections (\<^verbatim>\<open>migration.go\<close>) and the creation of a provider
  (\<^verbatim>\<open>pkg/providers/factory.go\<close>, \<^verbatim>\<open>factory_provider.go\<close>, \<^verbatim>\<open>legacy_provider.go\<close>). The result of
  the factory is a value that says which provider is built with which settings. The decoding of the
  file is given by the fields it contains; the environment (a third-party package) is an argument.
\<close>

subsection \<open>Configuration\<close>

record ProviderConfig =
  pc_APIKey :: string
  pc_APIBase :: string
  pc_Proxy :: string
  pc_AuthMethod :: string
  pc_ConnectMode :: string

record ProvidersConfig =
  ps_Anthropic :: ProviderConfig
  ps_OpenAI :: ProviderConfig
  ps_WebSearch :: bool
  ps_OpenRouter :: ProviderConfig
  ps_Groq :: ProviderConfig
  ps_Zhipu :: ProviderConfig
  ps_VLLM :: ProviderConfig
  ps_Gemini :: ProviderConfig
  ps_Nvidia :: ProviderConfig
  ps_Ollama :: ProviderConfig
  ps_Moonshot :: ProviderConfig
  ps_ShengSuanYun :: ProviderConfig
  ps_DeepSeek :: ProviderConfig
  ps_Cerebras :: ProviderConfig
  ps_VolcEngine :: ProviderConfig
  ps_GitHubCopilot :: ProviderConfig
  ps_Antigravity :: ProviderConfig
  ps_Qwen :: ProviderConfig
  ps_Mistral :: ProviderConfig

record ModelConfig =
  mo_ModelName :: string
  mo_Model :: string
  mo_APIBase :: string
  mo_APIKey :: string
  mo_Proxy :: string
  mo_AuthMethod :: string
  mo_ConnectMode :: string
  mo_Workspace :: string
  mo_RPM :: int
  mo_MaxTokensField :: string

definition zero_provider :: ProviderConfig where
  "zero_provider = \<lparr>pc_APIKey = [], pc_APIBase = [], pc_Proxy = [], pc_AuthMethod = [], pc_ConnectMode = []\<rparr>"

definition zero_model :: ModelConfig where
  "zero_model = \<lparr>mo_ModelName = [], mo_Model = [], mo_APIBase = [], mo_APIKey = [], mo_Proxy = [], mo_AuthMethod = [],
     mo_ConnectMode = [], mo_Workspace = [], mo_RPM = 0, mo_MaxTokensField = []\<rparr>"

text \<open>The parts of the configuration that the model list depends on.\<close>

record Config =
  cf_Defaults :: AgentDefaults
  cf_Providers :: ProvidersConfig
  cf_ModelList :: "ModelConfig list"

definition provider_sections :: "ProvidersConfig \<Rightarrow> ProviderConfig list" where
  "provider_sections p = [ps_Anthropic p, ps_OpenAI p, ps_OpenRouter p, ps_Groq p, ps_Zhipu p, ps_VLLM p, ps_Gemini p,
     ps_Nvidia p, ps_Ollama p, ps_Moonshot p, ps_ShengSuanYun p, ps_DeepSeek p, ps_Cerebras p, ps_VolcEngine p,
     ps_GitHubCopilot p, ps_Antigravity p, ps_Qwen p, ps_Mistral p]"

definition IsEmpty :: "ProvidersConfig \<Rightarrow> bool" where
  "IsEmpty p \<longleftrightarrow> list_all (\<lambda>s. pc_APIKey s = [] \<and> pc_APIBase s = []) (provider_sections p)"

definition HasProvidersConfig :: "Config \<Rightarrow> bool" where
  "HasProvidersConfig c \<longleftrightarrow> list_ex (\<lambda>s. pc_APIKey s \<noteq> [] \<or> pc_APIBase s \<noteq> []) (provider_sections (cf_Providers c))"

definition Validate :: "ModelConfig \<Rightarrow> GoError option" where
  "Validate c =
     (if mo_ModelName c = [] then Some (ErrNew ''model_name is required'')
      else if mo_Model c = [] then Some (ErrNew ''model is required'')
      else None)"

fun validate_from :: "int \<Rightarrow> ModelConfig list \<Rightarrow> GoError option" where
  "validate_from i [] = None"
| "validate_from i (m # ms) =
     (case Validate m of
        Some err \<Rightarrow> Some (ErrWrap (''model_list['' @ itoa i @ '']: '') err)
      | None \<Rightarrow> validate_from (i + 1) ms)"

definition ValidateModelList :: "Config \<Rightarrow> GoError option" where
  "ValidateModelList c = validate_from 0 (cf_ModelList c)"

definition findMatches :: "Config \<Rightarrow> string \<Rightarrow> ModelConfig list" where
  "findMatches c modelName = filter (\<lambda>m. mo_ModelName m = modelName) (cf_ModelList c)"

text \<open>\<open>rr\<close> is the counter for the whole program, an unsigned 64-bit number.\<close>

definition GetModelConfig :: "Config \<Rightarrow> string \<Rightarrow> 64 word \<Rightarrow> 64 word \<times> (GoError + ModelConfig)" where
  "GetModelConfig c modelName rr =
     (let matches = findMatches c modelName in
      if matches = [] then (rr, Inl (ErrNew (''model '' @ go_quote modelName @ '' not found in model_list or providers'')))
      else if length matches = 1 then (rr, Inr (matches ! 0))
      else let idx = (rr + 1) mod of_nat (length matches) in (rr + 1, Inr (matches ! unat idx)))"

definition WorkspacePath :: "string \<Rightarrow> Config \<Rightarrow> string" where
  "WorkspacePath home c = expandHome home (ad_Workspace (cf_Defaults c))"

fun first_key :: "ProviderConfig list \<Rightarrow> string" where
  "first_key [] = []"
| "first_key (s # ss) = (if pc_APIKey s \<noteq> [] then pc_APIKey s else first_key ss)"

definition GetAPIKey :: "Config \<Rightarrow> string" where
  "GetAPIKey c = (let p = cf_Providers c in
     first_key [ps_OpenRouter p, ps_Anthropic p, ps_OpenAI p, ps_Gemini p, ps_Zhipu p, ps_Groq p, ps_VLLM p, ps_ShengSuanYun p, ps_Cerebras p])"

definition GetAPIBase :: "Config \<Rightarrow> string" where
  "GetAPIBase c = (let p = cf_Providers c in
     if pc_APIKey (ps_OpenRouter p) \<noteq> []
     then (if pc_APIBase (ps_OpenRouter p) \<noteq> [] then pc_APIBase (ps_OpenRouter p) else ''https://openrouter.ai/api/v1'')
     else if pc_APIKey (ps_Zhipu p) \<noteq> [] then pc_APIBase (ps_Zhipu p)
     else if pc_APIKey (ps_VLLM p) \<noteq> [] \<and> pc_APIBase (ps_VLLM p) \<noteq> [] then pc_APIBase (ps_VLLM p)
     else [])"

definition model_entry :: "string \<Rightarrow> string \<Rightarrow> string \<Rightarrow> string \<Rightarrow> string \<Rightarrow> ModelConfig" where
  "model_entry name model base key auth =
     zero_model\<lparr>mo_ModelName := name, mo_Model := model, mo_APIBase := base, mo_APIKey := key, mo_AuthMethod := auth\<rparr>"

definition default_models :: "ModelConfig list" where
  "default_models =
    [model_entry ''glm-4.7'' ''zhipu/glm-4.7'' ''https://open.bigmodel.cn/api/paas/v4'' [] [],
     model_entry ''gpt-5.2'' ''openai/gpt-5.2'' ''https://api.openai.com/v1'' [] [],
     model_entry ''claude-opus-4-6'' ''anthropic/claude-opus-4-6'' ''https://api.anthropic.com/v1'' [] [],
     model_entry ''claude-sonnet-4.6'' ''anthropic/claude-sonnet-4.6'' ''https://api.anthropic.com/v1'' [] [],
     model_entry ''deepseek-chat'' ''deepseek/deepseek-chat'' ''https://api.deepseek.com/v1'' [] [],
     model_entry ''gemini-2.0-flash'' ''gemini/gemini-2.0-flash-exp'' ''https://generativelanguage.googleapis.com/v1beta'' [] [],
     model_entry ''qwen-plus'' ''qwen/qwen-plus'' ''https://dashscope.aliyuncs.com/compatible-mode/v1'' [] [],
     model_entry ''moonshot-v1-8k'' ''moonshot/moonshot-v1-8k'' ''https://api.moonshot.cn/v1'' [] [],
     model_entry ''llama-3.3-70b'' ''groq/llama-3.3-70b-versatile'' ''https://api.groq.com/openai/v1'' [] [],
     model_entry ''openrouter-auto'' ''openrouter/auto'' ''https://openrouter.ai/api/v1'' [] [],
     model_entry ''openrouter-gpt-5.2'' ''openrouter/openai/gpt-5.2'' ''https://openrouter.ai/api/v1'' [] [],
     model_entry ''nemotron-4-340b'' ''nvidia/nemotron-4-340b-instruct'' ''https://integrate.api.nvidia.com/v1'' [] [],
     model_entry ''cerebras-llama-3.3-70b'' ''cerebras/llama-3.3-70b'' ''https://api.cerebras.ai/v1'' [] [],
     model_entry ''doubao-pro'' ''volcengine/doubao-pro-32k'' ''https://ark.cn-beijing.volces.com/api/v3'' [] [],
     model_entry ''deepseek-v3'' ''shengsuanyun/deepseek-v3'' ''https://api.shengsuanyun.com/v1'' [] [],
     model_entry ''gemini-flash'' ''antigravity/gemini-3-flash'' [] [] ''oauth'',
     model_entry ''copilot-gpt-5.2'' ''github-copilot/gpt-5.2'' ''http://localhost:4321'' [] ''oauth'',
     model_entry ''llama3'' ''ollama/llama3'' ''http://localhost:11434/v1'' ''ollama'' [],
     model_entry ''mistral-small'' ''mistral/mistral-small-latest'' ''https://api.mistral.ai/v1'' [] [],
     model_entry ''local-model'' ''vllm/custom-model'' ''http://localhost:8000/v1'' [] []]"

subsection \<open>Migration\<close>

definition buildModelWithProtocol :: "string \<Rightarrow> string \<Rightarrow> string" where
  "buildModelWithProtocol protocol model = (if contains model ''/'' then model else protocol @ ''/'' @ model)"

record providerMigrationConfig =
  pm_providerNames :: "string list"
  pm_protocol :: string
  pm_buildConfig :: "ProvidersConfig \<Rightarrow> ModelConfig option"

text \<open>Fourteen of the rules differ only in the section they read and in the names; two more also copy the
  authentication method.\<close>

definition keyed_model :: "ProviderConfig \<Rightarrow> string \<Rightarrow> string \<Rightarrow> ModelConfig option" where
  "keyed_model s name model =
     (if pc_APIKey s = [] \<and> pc_APIBase s = [] then None
      else Some (zero_model\<lparr>mo_ModelName := name, mo_Model := model, mo_APIKey := pc_APIKey s, mo_APIBase := pc_APIBase s,
                            mo_Proxy := pc_Proxy s\<rparr>))"

definition with_auth :: "ProviderConfig \<Rightarrow> ModelConfig option \<Rightarrow> ModelConfig option" where
  "with_auth s m = map_option (\<lambda>m. m\<lparr>mo_AuthMethod := pc_AuthMethod s\<rparr>) m"

definition copilot_model :: "ProviderConfig \<Rightarrow> ModelConfig option" where
  "copilot_model s =
     (if pc_APIKey s = [] \<and> pc_APIBase s = [] \<and> pc_ConnectMode s = [] then None
      else Some (zero_model\<lparr>mo_ModelName := ''github-copilot'', mo_Model := ''github-copilot/gpt-5.2'',
                            mo_APIBase := pc_APIBase s, mo_ConnectMode := pc_ConnectMode s\<rparr>))"

definition antigravity_model :: "ProviderConfig \<Rightarrow> ModelConfig option" where
  "antigravity_model s =
     (if pc_APIKey s = [] \<and> pc_AuthMethod s = [] then None
      else Some (zero_model\<lparr>mo_ModelName := ''antigravity'', mo_Model := ''antigravity/gemini-2.0-flash'',
                            mo_APIKey := pc_APIKey s, mo_AuthMethod := pc_AuthMethod s\<rparr>))"

definition migration :: "string list \<Rightarrow> string \<Rightarrow> (ProvidersConfig \<Rightarrow> ModelConfig option) \<Rightarrow> providerMigrationConfig" where
  "migration names protocol build = \<lparr>pm_providerNames = names, pm_protocol = protocol, pm_buildConfig = build\<rparr>"

definition first_migrations :: "providerMigrationConfig list" where
  "first_migrations =
    [migration [''openai'', ''gpt''] ''openai'' (\<lambda>p. with_auth (ps_OpenAI p) (keyed_model (ps_OpenAI p) ''openai'' ''openai/gpt-5.2'')),
     migration [''anthropic'', ''claude''] ''anthropic''
       (\<lambda>p. with_auth (ps_Anthropic p) (keyed_model (ps_Anthropic p) ''anthropic'' ''anthropic/claude-sonnet-4.6'')),
     migration [''openrouter''] ''openrouter'' (\<lambda>p. keyed_model (ps_OpenRouter p) ''openrouter'' ''openrouter/auto''),
     migration [''groq''] ''groq'' (\<lambda>p. keyed_model (ps_Groq p) ''groq'' ''groq/llama-3.1-70b-versatile''),
     migration [''zhipu'', ''glm''] ''zhipu'' (\<lambda>p. keyed_model (ps_Zhipu p) ''zhipu'' ''zhipu/glm-4''),
     migration [''vllm''] ''vllm'' (\<lambda>p. keyed_model (ps_VLLM p) ''vllm'' ''vllm/auto''),
     migration [''gemini'', ''google''] ''gemini'' (\<lambda>p. keyed_model (ps_Gemini p) ''gemini'' ''gemini/gemini-pro''),
     migration [''nvidia''] ''nvidia'' (\<lambda>p. keyed_model (ps_Nvidia p) ''nvidia'' ''nvidia/meta/llama-3.1-8b-instruct''),
     migration [''ollama''] ''ollama'' (\<lambda>p. keyed_model (ps_Ollama p) ''ollama'' ''ollama/llama3'')]"

definition later_migrations :: "providerMigrationConfig list" where
  "later_migrations =
    [migration [''moonshot'', ''kimi''] ''moonshot'' (\<lambda>p. keyed_model (ps_Moonshot p) ''moonshot'' ''moonshot/kimi''),
     migration [''shengsuanyun''] ''shengsuanyun'' (\<lambda>p. keyed_model (ps_ShengSuanYun p) ''shengsuanyun'' ''shengsuanyun/auto''),
     migration [''deepseek''] ''deepseek'' (\<lambda>p. keyed_model (ps_DeepSeek p) ''deepseek'' ''deepseek/deepseek-chat''),
     migration [''cerebras''] ''cerebras'' (\<lambda>p. keyed_model (ps_Cerebras p) ''cerebras'' ''cerebras/llama-3.3-70b''),
     migration [''volcengine'', ''doubao''] ''volcengine'' (\<lambda>p. keyed_model (ps_VolcEngine p) ''volcengine'' ''volcengine/doubao-pro''),
     migration [''github_copilot'', ''copilot''] ''github-copilot'' (\<lambda>p. copilot_model (ps_GitHubCopilot p)),
     migration [''antigravity''] ''antigravity'' (\<lambda>p. antigravity_model (ps_Antigravity p)),
     migration [''qwen'', ''tongyi''] ''qwen'' (\<lambda>p. keyed_model (ps_Qwen p) ''qwen'' ''qwen/qwen-max''),
     migration [''mistral''] ''mistral'' (\<lambda>p. keyed_model (ps_Mistral p) ''mistral'' ''mistral/mistral-small-latest'')]"

definition migrations :: "providerMigrationConfig list" where
  "migrations = first_migrations @ later_migrations"

lemmas migrations_defs = migrations_def first_migrations_def later_migrations_def append.simps

fun migrate_from :: "string \<Rightarrow> string \<Rightarrow> ProvidersConfig \<Rightarrow> bool \<Rightarrow> providerMigrationConfig list \<Rightarrow> ModelConfig list" where
  "migrate_from userProvider userModel p legacyModelNameApplied [] = []"
| "migrate_from userProvider userModel p legacyModelNameApplied (m # ms) =
     (case pm_buildConfig m p of
        None \<Rightarrow> migrate_from userProvider userModel p legacyModelNameApplied ms
      | Some mc \<Rightarrow>
          if userProvider \<in> set (pm_providerNames m) \<and> userModel \<noteq> []
          then mc\<lparr>mo_Model := buildModelWithProtocol (pm_protocol m) userModel\<rparr> #
               migrate_from userProvider userModel p legacyModelNameApplied ms
          else if userProvider = [] \<and> userModel \<noteq> [] \<and> \<not> legacyModelNameApplied
          then mc\<lparr>mo_ModelName := userModel, mo_Model := buildModelWithProtocol (pm_protocol m) userModel\<rparr> #
               migrate_from userProvider userModel p True ms
          else mc # migrate_from userProvider userModel p legacyModelNameApplied ms)"

definition ConvertProvidersToModelList :: "Config \<Rightarrow> ModelConfig list" where
  "ConvertProvidersToModelList cfg =
     migrate_from (to_lower (ad_Provider (cf_Defaults cfg))) (GetModelName (cf_Defaults cfg)) (cf_Providers cfg) False migrations"

subsection \<open>Loading\<close>

text \<open>The file: it cannot be read, is not there, does not parse, or parses to a document. Of a document the
  fields that are decoded over the defaults matter: sections that are present replace the default, and
  an empty or null list is a list that is present.\<close>

record config_doc =
  doc_Defaults :: "AgentDefaults \<Rightarrow> AgentDefaults"
  doc_Providers :: "ProvidersConfig \<Rightarrow> ProvidersConfig"
  doc_ModelList :: "ModelConfig list option"

datatype config_file = CannotRead GoError | NotThere | NoParse GoError | Document config_doc

definition decode_doc :: "config_doc \<Rightarrow> Config \<Rightarrow> Config" where
  "decode_doc doc cfg = \<lparr>cf_Defaults = doc_Defaults doc (cf_Defaults cfg), cf_Providers = doc_Providers doc (cf_Providers cfg),
     cf_ModelList = (case doc_ModelList doc of None \<Rightarrow> cf_ModelList cfg | Some ms \<Rightarrow> ms)\<rparr>"

definition migrate_config :: "Config \<Rightarrow> Config" where
  "migrate_config cfg =
     (if cf_ModelList cfg = [] \<and> HasProvidersConfig cfg then cfg\<lparr>cf_ModelList := ConvertProvidersToModelList cfg\<rparr> else cfg)"

definition LoadConfig :: "(Config \<Rightarrow> GoError + Config) \<Rightarrow> Config \<Rightarrow> config_file \<Rightarrow> GoError + Config" where
  "LoadConfig env_parse defaults f =
     (case f of
        CannotRead err \<Rightarrow> Inl err
      | NotThere \<Rightarrow> Inr defaults
      | NoParse err \<Rightarrow> Inl err
      | Document doc \<Rightarrow>
          let cfg = (case doc_ModelList doc of Some (m # ms) \<Rightarrow> defaults\<lparr>cf_ModelList := []\<rparr> | _ \<Rightarrow> defaults) in
          (case env_parse (decode_doc doc cfg) of
             Inl err \<Rightarrow> Inl err
           | Inr cfg \<Rightarrow>
               let cfg = migrate_config cfg in
               (case ValidateModelList cfg of Some err \<Rightarrow> Inl err | None \<Rightarrow> Inr cfg)))"

subsection \<open>Creating a provider\<close>

datatype LLMProvider =
    HTTPProvider string string string string
  | ClaudeTokenProvider string
  | CodexTokenProvider string string
  | AnthropicProvider string string
  | AntigravityProvider
  | ClaudeCliProvider string
  | CodexCliProvider string
  | CopilotProvider string string string

definition ExtractProtocol :: "string \<Rightarrow> string \<times> string" where
  "ExtractProtocol model =
     (let model = trim_space model in
      case index_of ''/'' model of
        None \<Rightarrow> (''openai'', model)
      | Some i \<Rightarrow> (take i model, drop (i + 1) model))"

definition default_bases :: "(string \<times> string) list" where
  "default_bases =
    [(''openai'', ''https://api.openai.com/v1''), (''openrouter'', ''https://openrouter.ai/api/v1''),
     (''groq'', ''https://api.groq.com/openai/v1''), (''zhipu'', ''https://open.bigmodel.cn/api/paas/v4''),
     (''gemini'', ''https://generativelanguage.googleapis.com/v1beta''), (''nvidia'', ''https://integrate.api.nvidia.com/v1''),
     (''ollama'', ''http://localhost:11434/v1''), (''moonshot'', ''https://api.moonshot.cn/v1''),
     (''shengsuanyun'', ''https://router.shengsuanyun.com/api/v1''), (''deepseek'', ''https://api.deepseek.com/v1''),
     (''cerebras'', ''https://api.cerebras.ai/v1''), (''volcengine'', ''https://ark.cn-beijing.volces.com/api/v3''),
     (''qwen'', ''https://dashscope.aliyuncs.com/compatible-mode/v1''), (''vllm'', ''http://localhost:8000/v1''),
     (''mistral'', ''https://api.mistral.ai/v1'')]"

definition getDefaultAPIBase :: "string \<Rightarrow> string" where
  "getDefaultAPIBase protocol = (case map_of default_bases protocol of Some base \<Rightarrow> base | None \<Rightarrow> [])"

definition createClaudeAuthProvider :: "auth_file \<Rightarrow> GoError + LLMProvider" where
  "createClaudeAuthProvider f =
     (case GetCredential f ''anthropic'' of
        Inl err \<Rightarrow> Inl (ErrWrap ''loading auth credentials: '' err)
      | Inr None \<Rightarrow> Inl (ErrNew ''no credentials for anthropic. Run: tinyclaw auth login --provider anthropic'')
      | Inr (Some cred) \<Rightarrow> Inr (ClaudeTokenProvider (ac_AccessToken cred)))"

definition createCodexAuthProvider :: "auth_file \<Rightarrow> GoError + LLMProvider" where
  "createCodexAuthProvider f =
     (case GetCredential f ''openai'' of
        Inl err \<Rightarrow> Inl (ErrWrap ''loading auth credentials: '' err)
      | Inr None \<Rightarrow> Inl (ErrNew ''no credentials for openai. Run: tinyclaw auth login --provider openai'')
      | Inr (Some cred) \<Rightarrow> Inr (CodexTokenProvider (ac_AccessToken cred) (ac_AccountID cred)))"

text \<open>Connecting to Copilot goes through a third-party client: \<open>connect\<close> says whether it succeeds.\<close>

definition NewGitHubCopilotProvider :: "(string \<Rightarrow> string \<Rightarrow> GoError option) \<Rightarrow> string \<Rightarrow> string \<Rightarrow> string \<Rightarrow> GoError + LLMProvider" where
  "NewGitHubCopilotProvider connect uri connectMode model =
     (let connectMode = (if connectMode = [] then ''grpc'' else connectMode) in
      if connectMode = ''stdio'' then Inl (ErrNew ''stdio mode not implemented'')
      else if connectMode = ''grpc''
      then (case connect uri model of Some err \<Rightarrow> Inl err | None \<Rightarrow> Inr (CopilotProvider uri connectMode model))
      else Inl (ErrNew (''unknown connect mode: '' @ connectMode)))"

definition http_protocols :: "string list" where
  "http_protocols = [''openrouter'', ''groq'', ''zhipu'', ''gemini'', ''nvidia'', ''ollama'', ''moonshot'', ''shengsuanyun'', ''deepseek'',
     ''cerebras'', ''volcengine'', ''vllm'', ''qwen'', ''mistral'']"

definition http_provider :: "string \<Rightarrow> string \<Rightarrow> ModelConfig \<Rightarrow> GoError + (LLMProvider \<times> string)" where
  "http_provider protocol modelID cfg =
     (if mo_APIKey cfg = [] \<and> mo_APIBase cfg = []
      then Inl (ErrNew (''api_key or api_base is required for HTTP-based protocol '' @ go_quote protocol))
      else let apiBase = (if mo_APIBase cfg = [] then getDefaultAPIBase protocol else mo_APIBase cfg)
           in Inr (HTTPProvider (mo_APIKey cfg) apiBase (mo_Proxy cfg) (mo_MaxTokensField cfg), modelID))"

definition with_model :: "string \<Rightarrow> GoError + LLMProvider \<Rightarrow> GoError + (LLMProvider \<times> string)" where
  "with_model modelID r = (case r of Inl err \<Rightarrow> Inl err | Inr provider \<Rightarrow> Inr (provider, modelID))"

definition CreateProviderFromConfig :: "auth_file \<Rightarrow> (string \<Rightarrow> string \<Rightarrow> GoError option) \<Rightarrow> ModelConfig option \<Rightarrow>
    GoError + (LLMProvider \<times> string)" where
  "CreateProviderFromConfig f connect mcfg =
     (case mcfg of
        None \<Rightarrow> Inl (ErrNew ''config is nil'')
      | Some cfg \<Rightarrow>
          if mo_Model cfg = [] then Inl (ErrNew ''model is required'')
          else let (protocol, modelID) = ExtractProtocol (mo_Model cfg);
                   tokens = (mo_AuthMethod cfg = ''oauth'' \<or> mo_AuthMethod cfg = ''token'');
                   workspace = (if mo_Workspace cfg = [] then ''.'' else mo_Workspace cfg) in
            if protocol = ''openai''
            then (if tokens then with_model modelID (createCodexAuthProvider f) else http_provider protocol modelID cfg)
            else if protocol \<in> set http_protocols then http_provider protocol modelID cfg
            else if protocol = ''anthropic''
            then (if tokens then with_model modelID (createClaudeAuthProvider f)
                  else if mo_APIKey cfg = []
                  then Inl (ErrNew (''api_key is required for anthropic protocol (model: '' @ mo_Model cfg @ '')''))
                  else Inr (AnthropicProvider (mo_APIKey cfg) (mo_APIBase cfg), modelID))
            else if protocol = ''antigravity'' then Inr (AntigravityProvider, modelID)
            else if protocol \<in> {''claude-cli'', ''claudecli''} then Inr (ClaudeCliProvider workspace, modelID)
            else if protocol \<in> {''codex-cli'', ''codexcli''} then Inr (CodexCliProvider workspace, modelID)
            else if protocol \<in> {''github-copilot'', ''copilot''}
            then with_model modelID (NewGitHubCopilotProvider connect
                   (if mo_APIBase cfg = [] then ''localhost:4321'' else mo_APIBase cfg)
                   (if mo_ConnectMode cfg = [] then ''grpc'' else mo_ConnectMode cfg) modelID)
            else Inl (ErrNew (''unknown protocol '' @ go_quote protocol @ '' in model '' @ go_quote (mo_Model cfg))))"

definition CreateProvider :: "string \<Rightarrow> auth_file \<Rightarrow> (string \<Rightarrow> string \<Rightarrow> GoError option) \<Rightarrow> Config \<Rightarrow> 64 word \<Rightarrow>
    Config \<times> 64 word \<times> (GoError + (LLMProvider \<times> string))" where
  "CreateProvider home f connect cfg rr =
     (let model = GetModelName (cf_Defaults cfg); cfg = migrate_config cfg in
      if cf_ModelList cfg = []
      then (cfg, rr, Inl (ErrNew ''no providers configured. Please add entries to model_list in your config''))
      else case GetModelConfig cfg model rr of
             (rr, Inl err) \<Rightarrow> (cfg, rr, Inl (ErrWrap (''model '' @ go_quote model @ '' not found in model_list: '') err))
           | (rr, Inr modelCfg) \<Rightarrow>
               let modelCfg = (if mo_Workspace modelCfg = [] then modelCfg\<lparr>mo_Workspace := WorkspacePath home cfg\<rparr> else modelCfg) in
               (case CreateProviderFromConfig f connect (Some modelCfg) of
                  Inl err \<Rightarrow> (cfg, rr, Inl (ErrWrap (''failed to create provider for model '' @ go_quote model @ '': '') err))
                | Inr r \<Rightarrow> (cfg, rr, Inr r)))"

subsection \<open>Load balancing\<close>

fun lookups :: "Config \<Rightarrow> string list \<Rightarrow> 64 word \<Rightarrow> (GoError + ModelConfig) list" where
  "lookups c [] rr = []"
| "lookups c (name # names) rr = (let (rr', r) = GetModelConfig c name rr in r # lookups c names rr')"

lemma GetModelConfig_many:
  assumes "1 < length (findMatches c name)" "length (findMatches c name) < 2 ^ 64" "unat rr + 1 < 2 ^ 64"
  shows "GetModelConfig c name rr = (rr + 1, Inr (findMatches c name ! ((unat rr + 1) mod length (findMatches c name)))) \<and>
    unat (rr + 1) = unat rr + 1"
proof -
  let ?n = "length (findMatches c name)"
  have inc: "unat (rr + 1) = unat rr + 1"
    using assms(3) by (subst unat_add_lem [THEN iffD1]) simp_all
  have "unat (of_nat ?n :: 64 word) = ?n" using assms(2) by (simp add: unat_of_nat take_bit_nat_eq_self)
  then have "unat ((rr + 1) mod of_nat ?n) = (unat rr + 1) mod ?n" by (simp add: unat_mod_distrib inc)
  moreover have "findMatches c name \<noteq> []" "length (findMatches c name) \<noteq> 1" using assms(1) by auto
  ultimately show ?thesis using inc unfolding GetModelConfig_def Let_def by simp
qed

lemma lookups_same:
  assumes "1 < length (findMatches c name)" "length (findMatches c name) < 2 ^ 64" "unat rr + k < 2 ^ 64"
  shows "lookups c (replicate k name) rr =
    map (\<lambda>i. Inr (findMatches c name ! ((unat rr + 1 + i) mod length (findMatches c name)))) [0..<k]"
  using assms(3)
proof (induction k arbitrary: rr)
  case (Suc k)
  then have "unat rr + 1 < 2 ^ 64" by simp
  note get = GetModelConfig_many [OF assms(1,2) this]
  have "unat (rr + 1) + k < 2 ^ 64" using Suc.prems get by simp
  from Suc.IH [OF this] get show ?case by (simp add: upt_conv_Cons map_Suc_upt [symmetric] del: upt_Suc)
qed simp

text \<open>Load balancing is fair: among entries with the same name, as many consecutive lookups as there are
  entries use each entry exactly once, from every value of the counter that does not wrap around meanwhile.\<close>

theorem round_robin_fair:
  assumes "1 < length (findMatches c name)" "unat rr + length (findMatches c name) < 2 ^ 64"
  shows "mset (lookups c (replicate (length (findMatches c name)) name) rr) = mset (map Inr (findMatches c name))"
proof -
  let ?xs = "findMatches c name" let ?n = "length ?xs"
  have "lookups c (replicate ?n name) rr = map (\<lambda>i. Inr (?xs ! ((unat rr + 1 + i) mod ?n))) [0..<?n]"
    using assms by (intro lookups_same) simp_all
  also have "\<dots> = map Inr (rotate (unat rr + 1) ?xs)"
  proof (rule nth_equalityI)
    fix i assume "i < length (map (\<lambda>i. Inr (?xs ! ((unat rr + 1 + i) mod ?n))) [0..<?n])"
    then have "i < ?n" by simp
    from nth_rotate [OF this, of "unat rr + 1"]
    show "map (\<lambda>i. Inr (?xs ! ((unat rr + 1 + i) mod ?n))) [0..<?n] ! i = map Inr (rotate (unat rr + 1) ?xs) ! i"
      using \<open>i < ?n\<close> by (simp only: nth_map length_upt length_rotate nth_upt add_0 minus_nat.diff_0)
  qed simp
  finally have "mset (lookups c (replicate ?n name) rr) = image_mset Inr (mset (rotate (unat rr + 1) ?xs))"
    by (simp only: mset_map)
  moreover have "mset (rotate m ys) = mset ys" for m and ys :: "ModelConfig list"
    unfolding rotate_drop_take by (metis append_take_drop_id mset_append union_commute)
  ultimately show ?thesis by (simp only: mset_map)
qed

definition sample_defaults_of :: "string \<Rightarrow> string \<Rightarrow> AgentDefaults" where
  "sample_defaults_of provider model = sample_defaults\<lparr>ad_Provider := provider, ad_ModelName := [], ad_Model := model\<rparr>"

definition zero_providers :: ProvidersConfig where
  "zero_providers = \<lparr>ps_Anthropic = zero_provider, ps_OpenAI = zero_provider, ps_WebSearch = True, ps_OpenRouter = zero_provider,
     ps_Groq = zero_provider, ps_Zhipu = zero_provider, ps_VLLM = zero_provider, ps_Gemini = zero_provider,
     ps_Nvidia = zero_provider, ps_Ollama = zero_provider, ps_Moonshot = zero_provider, ps_ShengSuanYun = zero_provider,
     ps_DeepSeek = zero_provider, ps_Cerebras = zero_provider, ps_VolcEngine = zero_provider, ps_GitHubCopilot = zero_provider,
     ps_Antigravity = zero_provider, ps_Qwen = zero_provider, ps_Mistral = zero_provider\<rparr>"

definition balanced :: Config where
  "balanced = \<lparr>cf_Defaults = sample_defaults_of [] ''a'', cf_Providers = zero_providers,
     cf_ModelList = [model_entry ''a'' ''openai/x'' [] ''key1'' [], model_entry ''b'' ''groq/y'' [] ''key2'' [],
                     model_entry ''a'' ''openai/x'' [] ''key3'' [], model_entry ''b'' ''groq/y'' [] ''key4'' []]\<rparr>"

theorem round_robin_fair_witness:
  "mset (lookups balanced [''a'', ''a''] 6) = mset (map Inr (findMatches balanced ''a''))"
proof -
  have n: "length (findMatches balanced ''a'') = 2" by (simp add: findMatches_def balanced_def model_entry_def zero_model_def)
  then have "1 < length (findMatches balanced ''a'')" "unat (6 :: 64 word) + length (findMatches balanced ''a'') < 2 ^ 64" by simp_all
  from round_robin_fair [OF this] show ?thesis by (simp add: n numeral_2_eq_2)
qed

text \<open>The counter is shared by all names: when two names with two entries each are looked up in turn, each name
  always gets the same entry, and its other entry is never used.\<close>

lemma round_robin_starves:
  "unat rr + 2 * k < 2 ^ 64 \<Longrightarrow> even (unat rr) \<Longrightarrow>
   lookups balanced (concat (replicate k [''a'', ''b''])) rr =
     concat (replicate k [Inr (findMatches balanced ''a'' ! 1), Inr (findMatches balanced ''b'' ! 0)])"
proof (induction k arbitrary: rr)
  case (Suc k)
  have n: "length (findMatches balanced ''a'') = 2" "length (findMatches balanced ''b'') = 2"
    by (simp_all add: findMatches_def balanced_def model_entry_def zero_model_def)
  have "unat rr + 1 < 2 ^ 64" using Suc.prems(1) by simp
  then have a: "GetModelConfig balanced ''a'' rr = (rr + 1, Inr (findMatches balanced ''a'' ! 1))" "unat (rr + 1) = unat rr + 1"
    using GetModelConfig_many [of balanced "''a''" rr] n Suc.prems(2) by (simp_all add: mod2_eq_if)
  have "unat (rr + 1) + 1 < 2 ^ 64" using Suc.prems(1) a(2) by simp
  then have b: "GetModelConfig balanced ''b'' (rr + 1) = (rr + 1 + 1, Inr (findMatches balanced ''b'' ! 0))" "unat (rr + 1 + 1) = unat rr + 2"
    using GetModelConfig_many [of balanced "''b''" "rr + 1"] n Suc.prems(2) a(2) by (simp_all add: mod2_eq_if)
  have "unat (rr + 1 + 1) + 2 * k < 2 ^ 64" "even (unat (rr + 1 + 1))" using Suc.prems b(2) by simp_all
  from Suc.IH [OF this] a b show ?case by simp
qed simp

subsection \<open>What the migration keeps\<close>

definition credentials :: "ModelConfig \<Rightarrow> string \<times> string \<times> string \<times> string" where
  "credentials m = (mo_APIKey m, mo_APIBase m, mo_Proxy m, mo_AuthMethod m)"

definition http_names :: "string list" where
  "http_names = ''openai'' # http_protocols"

text \<open>What every rule promises of the entry it builds.\<close>

definition rule_ok :: "ProvidersConfig \<Rightarrow> providerMigrationConfig \<Rightarrow> bool" where
  "rule_ok p r \<longleftrightarrow> CHR ''/'' \<notin> set (pm_protocol r) \<and> (case pm_protocol r of [] \<Rightarrow> False | c # _ \<Rightarrow> \<not> is_space c) \<and>
     (case pm_buildConfig r p of None \<Rightarrow> True | Some mc \<Rightarrow>
        mo_ModelName mc \<noteq> [] \<and> mo_MaxTokensField mc = [] \<and>
        take (Suc (length (pm_protocol r))) (mo_Model mc) = pm_protocol r @ ''/'' \<and>
        (pm_protocol r \<in> set http_names \<longrightarrow> mo_APIKey mc \<noteq> [] \<or> mo_APIBase mc \<noteq> []))"

lemma keyed_model_Some:
  assumes "keyed_model s name model = Some mc"
  shows "mo_ModelName mc = name" "mo_Model mc = model" "mo_MaxTokensField mc = []" "mo_APIKey mc \<noteq> [] \<or> mo_APIBase mc \<noteq> []"
  using assms by (auto simp: keyed_model_def zero_model_def split: if_splits)

lemma keyed_rule:
  assumes "CHR ''/'' \<notin> set protocol" "case protocol of [] \<Rightarrow> False | c # _ \<Rightarrow> \<not> is_space c"
    "name \<noteq> []" "take (Suc (length protocol)) model = protocol @ ''/''"
  shows "rule_ok p (migration names protocol (\<lambda>p. keyed_model (sel p) name model))"
  using assms keyed_model_Some [of "sel p" name model] by (auto simp: rule_ok_def migration_def split: option.splits)

lemma auth_rule:
  assumes "CHR ''/'' \<notin> set protocol" "case protocol of [] \<Rightarrow> False | c # _ \<Rightarrow> \<not> is_space c"
    "name \<noteq> []" "take (Suc (length protocol)) model = protocol @ ''/''"
  shows "rule_ok p (migration names protocol (\<lambda>p. with_auth (sel p) (keyed_model (sel p) name model)))"
  using assms keyed_model_Some [of "sel p" name model]
  by (cases "keyed_model (sel p) name model") (simp_all add: rule_ok_def migration_def with_auth_def split: list.splits)

lemma migrations_ok: "list_all (rule_ok p) migrations"
proof -
  have "rule_ok p (migration [''github_copilot'', ''copilot''] ''github-copilot'' (\<lambda>p. copilot_model (ps_GitHubCopilot p)))"
    by (simp add: rule_ok_def migration_def copilot_model_def zero_model_def is_space_def http_names_def http_protocols_def)
  moreover have "rule_ok p (migration [''antigravity''] ''antigravity'' (\<lambda>p. antigravity_model (ps_Antigravity p)))"
    by (simp add: rule_ok_def migration_def antigravity_model_def zero_model_def is_space_def http_names_def http_protocols_def)
  ultimately show ?thesis
    unfolding migrations_defs by (simp add: keyed_rule auth_rule is_space_def)
qed

lemma trim_right_keeps: "\<not> p x \<Longrightarrow> trim_right p (a @ x # b) = a @ x # trim_right p b"
  by (simp add: trim_right_def dropWhile_append3)

lemma ExtractProtocol_prefixed:
  assumes "CHR ''/'' \<notin> set protocol" "case protocol of [] \<Rightarrow> False | c # _ \<Rightarrow> \<not> is_space c"
  shows "ExtractProtocol (protocol @ ''/'' @ rest) = (protocol, trim_right is_space rest)"
proof -
  have "\<not> is_space (CHR ''/'')" by (simp add: is_space_def)
  then have "trim_space (protocol @ ''/'' @ rest) = protocol @ CHR ''/'' # trim_right is_space rest"
    using assms(2) trim_right_keeps [of is_space "CHR ''/''" protocol rest]
    by (cases protocol) (simp_all add: trim_space_def)
  then show ?thesis using index_of_sep [OF assms(1)] by (simp add: ExtractProtocol_def)
qed

lemma take_prefix: "take (Suc (length a)) m = a @ ''/'' \<Longrightarrow> m = a @ ''/'' @ drop (Suc (length a)) m"
  by (metis append_assoc append_take_drop_id)

text \<open>An entry of the migrated list comes from a rule, and its model carries a prefix: the one of the rule,
  unless the user's model has a slash.\<close>

lemma migrate_from_entry:
  assumes "m \<in> set (migrate_from up um p leg rules)" "list_all (rule_ok p) rules"
  shows "\<exists>r \<in> set rules. \<exists>mc. pm_buildConfig r p = Some mc \<and> credentials m = credentials mc \<and> mo_ModelName m \<noteq> [] \<and>
    mo_MaxTokensField m = [] \<and> mo_Model m \<noteq> [] \<and>
    (\<not> contains um ''/'' \<longrightarrow> (\<exists>rest. mo_Model m = pm_protocol r @ ''/'' @ rest))"
  using assms
proof (induction rules arbitrary: leg)
  case (Cons r rules)
  show ?case
  proof (cases "pm_buildConfig r p")
    case None
    then show ?thesis using Cons by auto
  next
    case (Some mc)
    have ok: "mo_ModelName mc \<noteq> []" "mo_MaxTokensField mc = []" and pre: "mo_Model mc = pm_protocol r @ ''/'' @ drop (Suc (length (pm_protocol r))) (mo_Model mc)"
      using Cons.prems(2) Some take_prefix [of "pm_protocol r" "mo_Model mc"] by (simp_all add: rule_ok_def)
    have ne: "mo_Model mc \<noteq> []" using pre by (metis append_is_Nil_conv list.distinct(1))
    let ?b = "buildModelWithProtocol (pm_protocol r) um"
    have b: "um \<noteq> [] \<Longrightarrow> ?b \<noteq> []" "\<not> contains um ''/'' \<Longrightarrow> ?b = pm_protocol r @ ''/'' @ um"
      by (simp_all add: buildModelWithProtocol_def)
    have step: "(\<exists>leg'. m \<in> set (migrate_from up um p leg' rules)) \<or> m = mc \<or> m = mc\<lparr>mo_Model := ?b\<rparr> \<and> um \<noteq> [] \<or>
        m = mc\<lparr>mo_ModelName := um, mo_Model := ?b\<rparr> \<and> um \<noteq> []"
      using Cons.prems(1) Some by (auto split: if_splits)
    have found: ?thesis if "credentials m = credentials mc" "mo_ModelName m \<noteq> []" "mo_MaxTokensField m = []" "mo_Model m \<noteq> []"
      "\<not> contains um ''/'' \<Longrightarrow> \<exists>rest. mo_Model m = pm_protocol r @ ''/'' @ rest"
      using that Some by (intro bexI [of _ r] exI [of _ mc]) simp_all
    from step show ?thesis
    proof (elim disjE exE conjE)
      fix leg' assume "m \<in> set (migrate_from up um p leg' rules)"
      then show ?thesis using Cons.IH [of leg'] Cons.prems(2) by auto
    next
      assume "m = mc" then show ?thesis using ok ne pre by (intro found) auto
    next
      assume "m = mc\<lparr>mo_Model := ?b\<rparr>" "um \<noteq> []"
      then show ?thesis using ok b by (intro found) (auto simp: credentials_def)
    next
      assume "m = mc\<lparr>mo_ModelName := um, mo_Model := ?b\<rparr>" "um \<noteq> []"
      then show ?thesis using ok b by (intro found) (auto simp: credentials_def)
    qed
  qed
qed simp

lemma migrate_from_credentials:
  "map credentials (migrate_from up um p leg rules) = map credentials (List.map_filter (\<lambda>r. pm_buildConfig r p) rules)"
  by (induction rules arbitrary: leg) (auto simp: map_filter_simps credentials_def split: option.splits)

lemma migrate_from_legacy:
  "um \<noteq> [] \<Longrightarrow> list_all (\<lambda>r. [] \<notin> set (pm_providerNames r)) rules \<Longrightarrow> migrate_from [] um p False rules \<noteq> [] \<Longrightarrow>
   mo_ModelName (hd (migrate_from [] um p False rules)) = um"
  by (induction rules) (auto split: option.splits)

lemma default_base: "list_all (\<lambda>protocol. getDefaultAPIBase protocol \<noteq> []) http_names"
  by code_simp

lemma http_entry:
  assumes "mo_Model m = protocol @ ''/'' @ rest" "protocol \<in> set http_names" "CHR ''/'' \<notin> set protocol"
    "case protocol of [] \<Rightarrow> False | c # _ \<Rightarrow> \<not> is_space c"
    "mo_APIKey m \<noteq> [] \<or> mo_APIBase m \<noteq> []" "mo_AuthMethod m \<notin> {''oauth'', ''token''}" "mo_MaxTokensField m = []"
  shows "\<exists>base. CreateProviderFromConfig f connect (Some m) =
      Inr (HTTPProvider (mo_APIKey m) base (mo_Proxy m) [], trim_right is_space rest) \<and> base \<noteq> []"
proof -
  have ex: "ExtractProtocol (mo_Model m) = (protocol, trim_right is_space rest)"
    unfolding assms(1) by (rule ExtractProtocol_prefixed [OF assms(3,4)])
  have ne: "mo_Model m \<noteq> []" unfolding assms(1) by simp
  have base: "getDefaultAPIBase protocol \<noteq> []" using default_base assms(2) by (simp add: list_all_iff)
  have create: "CreateProviderFromConfig f connect (Some m) = http_provider protocol (trim_right is_space rest) m"
  proof (cases "protocol = ''openai''")
    case True
    then show ?thesis using ne ex assms(6) unfolding CreateProviderFromConfig_def Let_def by simp
  next
    case False
    then have "protocol \<in> set http_protocols" using assms(2) by (simp add: http_names_def)
    then show ?thesis using ne ex False unfolding CreateProviderFromConfig_def Let_def by simp
  qed
  let ?b = "if mo_APIBase m = [] then getDefaultAPIBase protocol else mo_APIBase m"
  have "http_provider protocol (trim_right is_space rest) m =
      Inr (HTTPProvider (mo_APIKey m) ?b (mo_Proxy m) [], trim_right is_space rest)"
    using assms(5,7) by (auto simp: http_provider_def Let_def)
  then show ?thesis using create base by (intro exI [of _ ?b]) simp
qed


definition old_config :: "string \<Rightarrow> string \<Rightarrow> ProvidersConfig \<Rightarrow> Config" where
  "old_config provider model ps = \<lparr>cf_Defaults = sample_defaults_of provider model, cf_Providers = ps, cf_ModelList = []\<rparr>"


text \<open>Two configurations that the migration breaks. With an explicit provider the entry keeps the provider's name,
  so the model is not found under the name that the rest of the program uses; and a model with a slash keeps its
  own prefix, so a key of OpenRouter is handed to the client of Anthropic.\<close>

theorem migration_breaks:
  "snd (snd (CreateProvider ''/h'' NoFile (\<lambda>_ _. None)
      (old_config ''openai'' ''gpt-4-turbo'' (zero_providers\<lparr>ps_OpenAI := zero_provider\<lparr>pc_APIKey := ''sk''\<rparr>\<rparr>)) 0)) =
     Inl (ErrWrap (''model '' @ go_quote ''gpt-4-turbo'' @ '' not found in model_list: '')
       (ErrNew (''model '' @ go_quote ''gpt-4-turbo'' @ '' not found in model_list or providers''))) \<and>
   snd (snd (CreateProvider ''/h'' NoFile (\<lambda>_ _. None)
      (old_config [] ''anthropic/claude-3'' (zero_providers\<lparr>ps_OpenRouter := zero_provider\<lparr>pc_APIKey := ''sk-or''\<rparr>\<rparr>)) 0)) =
     Inr (AnthropicProvider ''sk-or'' [], ''claude-3'')"
  by (rule conjI; code_simp)

definition DefaultConfig :: Config where
  "DefaultConfig = \<lparr>cf_Defaults = \<lparr>ad_Workspace = ''~/.tinyclaw/workspace'', ad_Provider = [], ad_ModelName = [],
     ad_Model = ''claude-opus-4-6'', ad_ModelFallbacks = [], ad_MaxTokens = 8192, ad_Temperature = None, ad_MaxToolIterations = 20\<rparr>,
     cf_Providers = zero_providers, cf_ModelList = default_models\<rparr>"

text \<open>A file without a model list, whatever its provider sections are, is never migrated: the list of the defaults
  stays in place, so it is not empty when the migration looks at it. The environment does not set the list.\<close>

theorem old_config_not_migrated:
  assumes "doc_ModelList doc = None" "\<And>c c'. env_parse c = Inr c' \<Longrightarrow> cf_ModelList c' = cf_ModelList c"
    "LoadConfig env_parse DefaultConfig (Document doc) = Inr cfg"
  shows "cf_ModelList cfg = default_models"
proof -
  obtain c where c: "env_parse (decode_doc doc DefaultConfig) = Inr c" and cfg: "cfg = migrate_config c"
    using assms(1,3) by (auto simp: LoadConfig_def Let_def split: sum.splits option.splits)
  have "cf_ModelList c = default_models" using assms(2) [OF c] assms(1) by (simp add: decode_doc_def DefaultConfig_def)
  then show ?thesis by (simp add: cfg migrate_config_def default_models_def)
qed

theorem old_config_not_migrated_witness:
  "\<exists>cfg. LoadConfig Inr DefaultConfig (Document \<lparr>doc_Defaults = (\<lambda>d. d\<lparr>ad_Model := ''gpt-4''\<rparr>),
       doc_Providers = (\<lambda>p. p\<lparr>ps_OpenAI := zero_provider\<lparr>pc_APIKey := ''sk''\<rparr>\<rparr>), doc_ModelList = None\<rparr>) = Inr cfg \<and>
     HasProvidersConfig cfg \<and> cf_ModelList cfg = default_models"
proof -
  let ?doc = "\<lparr>doc_Defaults = (\<lambda>d. d\<lparr>ad_Model := ''gpt-4''\<rparr>), doc_Providers = (\<lambda>p. p\<lparr>ps_OpenAI := zero_provider\<lparr>pc_APIKey := ''sk''\<rparr>\<rparr>),
    doc_ModelList = None\<rparr>"
  have "(case LoadConfig Inr DefaultConfig (Document ?doc) of Inl _ \<Rightarrow> False | Inr cfg \<Rightarrow> HasProvidersConfig cfg)" by code_simp
  then obtain cfg where cfg: "LoadConfig Inr DefaultConfig (Document ?doc) = Inr cfg" "HasProvidersConfig cfg"
    by (auto split: sum.splits)
  have "cf_ModelList c' = cf_ModelList c" if "(Inr :: Config \<Rightarrow> GoError + Config) c = Inr c'" for c c' using that by simp
  from old_config_not_migrated [OF _ this cfg(1)] cfg show ?thesis by auto
qed

subsection \<open>Selection from the old sections\<close>

datatype providerType = HTTPCompat | ClaudeAuth | CodexAuth | CodexCLIToken | ClaudeCLI | CodexCLI | GitHubCopilot

record providerSelection =
  sel_providerType :: providerType
  sel_apiKey :: string
  sel_apiBase :: string
  sel_proxy :: string
  sel_model :: string
  sel_workspace :: string
  sel_connectMode :: string
  sel_enableWebSearch :: bool

definition defaultAnthropicAPIBase :: string where
  "defaultAnthropicAPIBase = ''https://api.anthropic.com/v1''"

definition or_default :: "string \<Rightarrow> string \<Rightarrow> string" where
  "or_default s d = (if s = [] then d else s)"

text \<open>Taking over the key, the address and the proxy of a section.\<close>

definition use_section :: "ProviderConfig \<Rightarrow> string \<Rightarrow> providerSelection \<Rightarrow> providerSelection" where
  "use_section s base sel = sel\<lparr>sel_apiKey := pc_APIKey s, sel_apiBase := or_default (pc_APIBase s) base, sel_proxy := pc_Proxy s\<rparr>"

definition when_keyed :: "ProviderConfig \<Rightarrow> string \<Rightarrow> providerSelection \<Rightarrow> providerSelection" where
  "when_keyed s base sel = (if pc_APIKey s \<noteq> [] then use_section s base sel else sel)"

definition openai_selection :: "ProvidersConfig \<Rightarrow> providerSelection \<Rightarrow> bool \<times> providerSelection" where
  "openai_selection p sel =
     (let s = ps_OpenAI p; sel = sel\<lparr>sel_enableWebSearch := ps_WebSearch p\<rparr> in
      if pc_AuthMethod s = ''codex-cli'' then (True, sel\<lparr>sel_providerType := CodexCLIToken\<rparr>)
      else if pc_AuthMethod s = ''oauth'' \<or> pc_AuthMethod s = ''token'' then (True, sel\<lparr>sel_providerType := CodexAuth\<rparr>)
      else (False, use_section s ''https://api.openai.com/v1'' sel))"

definition anthropic_selection :: "ProvidersConfig \<Rightarrow> providerSelection \<Rightarrow> bool \<times> providerSelection" where
  "anthropic_selection p sel =
     (let s = ps_Anthropic p in
      if pc_AuthMethod s = ''oauth'' \<or> pc_AuthMethod s = ''token''
      then (True, sel\<lparr>sel_apiBase := or_default (pc_APIBase s) defaultAnthropicAPIBase, sel_providerType := ClaudeAuth\<rparr>)
      else (False, use_section s defaultAnthropicAPIBase sel))"

definition can_log_in :: "ProviderConfig \<Rightarrow> bool" where
  "can_log_in s \<longleftrightarrow> pc_APIKey s \<noteq> [] \<or> pc_AuthMethod s \<noteq> []"

text \<open>The explicit provider. The first component says that the selection is returned at once.\<close>

definition explicit_selection :: "string \<Rightarrow> Config \<Rightarrow> string \<Rightarrow> string \<Rightarrow> providerSelection \<Rightarrow> bool \<times> providerSelection" where
  "explicit_selection home cfg providerName model sel =
     (let p = cf_Providers cfg; workspace = or_default (WorkspacePath home cfg) ''.'' in
      if providerName = ''groq'' then (False, when_keyed (ps_Groq p) ''https://api.groq.com/openai/v1'' sel)
      else if providerName \<in> {''openai'', ''gpt''} then (if can_log_in (ps_OpenAI p) then openai_selection p sel else (False, sel))
      else if providerName \<in> {''anthropic'', ''claude''} then (if can_log_in (ps_Anthropic p) then anthropic_selection p sel else (False, sel))
      else if providerName = ''openrouter'' then (False, when_keyed (ps_OpenRouter p) ''https://openrouter.ai/api/v1'' sel)
      else if providerName \<in> {''zhipu'', ''glm''} then (False, when_keyed (ps_Zhipu p) ''https://open.bigmodel.cn/api/paas/v4'' sel)
      else if providerName \<in> {''gemini'', ''google''}
      then (False, when_keyed (ps_Gemini p) ''https://generativelanguage.googleapis.com/v1beta'' sel)
      else if providerName = ''vllm'' then (False, if pc_APIBase (ps_VLLM p) \<noteq> [] then use_section (ps_VLLM p) [] sel else sel)
      else if providerName = ''shengsuanyun'' then (False, when_keyed (ps_ShengSuanYun p) ''https://router.shengsuanyun.com/api/v1'' sel)
      else if providerName = ''nvidia'' then (False, when_keyed (ps_Nvidia p) ''https://integrate.api.nvidia.com/v1'' sel)
      else if providerName \<in> {''claude-cli'', ''claude-code'', ''claudecode''}
      then (True, sel\<lparr>sel_providerType := ClaudeCLI, sel_workspace := workspace\<rparr>)
      else if providerName \<in> {''codex-cli'', ''codex-code''} then (True, sel\<lparr>sel_providerType := CodexCLI, sel_workspace := workspace\<rparr>)
      else if providerName = ''deepseek''
      then (False, if pc_APIKey (ps_DeepSeek p) \<noteq> []
                   then (let sel = use_section (ps_DeepSeek p) ''https://api.deepseek.com/v1'' sel
                         in if model \<noteq> ''deepseek-chat'' \<and> model \<noteq> ''deepseek-reasoner'' then sel\<lparr>sel_model := ''deepseek-chat''\<rparr> else sel)
                   else sel)
      else if providerName = ''mistral'' then (False, when_keyed (ps_Mistral p) ''https://api.mistral.ai/v1'' sel)
      else if providerName \<in> {''github_copilot'', ''copilot''}
      then (True, sel\<lparr>sel_providerType := GitHubCopilot, sel_apiBase := or_default (pc_APIBase (ps_GitHubCopilot p)) ''localhost:4321'',
                      sel_connectMode := pc_ConnectMode (ps_GitHubCopilot p)\<rparr>)
      else (False, sel))"

definition no_key :: "string \<Rightarrow> GoError" where
  "no_key model = ErrNew (''no API key configured for model: '' @ model)"

text \<open>The provider that the model and the configured keys suggest.\<close>

definition inferred_selection :: "ProvidersConfig \<Rightarrow> string \<Rightarrow> providerSelection \<Rightarrow> GoError + (bool \<times> providerSelection)" where
  "inferred_selection p model sel =
     (let lowerModel = to_lower model; has = (\<lambda>s. contains lowerModel s); pre = (\<lambda>s. has_prefix s model);
          keyed = (\<lambda>s. pc_APIKey s \<noteq> []); use = (\<lambda>s base. Inr (False, use_section s base sel)) in
      if (has ''kimi'' \<or> has ''moonshot'' \<or> pre ''moonshot/'') \<and> keyed (ps_Moonshot p) then use (ps_Moonshot p) ''https://api.moonshot.cn/v1''
      else if pre ''openrouter/'' \<or> pre ''anthropic/'' \<or> pre ''openai/'' \<or> pre ''meta-llama/'' \<or> pre ''deepseek/'' \<or> pre ''google/''
      then use (ps_OpenRouter p) ''https://openrouter.ai/api/v1''
      else if (has ''claude'' \<or> pre ''anthropic/'') \<and> can_log_in (ps_Anthropic p) then Inr (anthropic_selection p sel)
      else if (has ''gpt'' \<or> pre ''openai/'') \<and> can_log_in (ps_OpenAI p) then Inr (openai_selection p sel)
      else if (has ''gemini'' \<or> pre ''google/'') \<and> keyed (ps_Gemini p) then use (ps_Gemini p) ''https://generativelanguage.googleapis.com/v1beta''
      else if (has ''glm'' \<or> has ''zhipu'' \<or> has ''zai'') \<and> keyed (ps_Zhipu p) then use (ps_Zhipu p) ''https://open.bigmodel.cn/api/paas/v4''
      else if (has ''groq'' \<or> pre ''groq/'') \<and> keyed (ps_Groq p) then use (ps_Groq p) ''https://api.groq.com/openai/v1''
      else if (has ''nvidia'' \<or> pre ''nvidia/'') \<and> keyed (ps_Nvidia p) then use (ps_Nvidia p) ''https://integrate.api.nvidia.com/v1''
      else if (has ''ollama'' \<or> pre ''ollama/'') \<and> keyed (ps_Ollama p) then use (ps_Ollama p) ''http://localhost:11434/v1''
      else if (has ''mistral'' \<or> pre ''mistral/'') \<and> keyed (ps_Mistral p) then use (ps_Mistral p) ''https://api.mistral.ai/v1''
      else if pc_APIBase (ps_VLLM p) \<noteq> [] then use (ps_VLLM p) []
      else if keyed (ps_OpenRouter p) then use (ps_OpenRouter p) ''https://openrouter.ai/api/v1''
      else Inl (no_key model))"

definition check_selection :: "string \<Rightarrow> providerSelection \<Rightarrow> GoError + providerSelection" where
  "check_selection model sel =
     (if sel_providerType sel = HTTPCompat \<and> sel_apiKey sel = [] \<and> \<not> has_prefix ''bedrock/'' model
      then Inl (ErrNew (''no API key configured for provider (model: '' @ model @ '')''))
      else if sel_providerType sel = HTTPCompat \<and> sel_apiBase sel = []
      then Inl (ErrNew (''no API base configured for provider (model: '' @ model @ '')''))
      else Inr sel)"

definition resolveProviderSelection :: "string \<Rightarrow> Config \<Rightarrow> GoError + providerSelection" where
  "resolveProviderSelection home cfg =
     (let model = GetModelName (cf_Defaults cfg); providerName = to_lower (ad_Provider (cf_Defaults cfg));
          sel = \<lparr>sel_providerType = HTTPCompat, sel_apiKey = [], sel_apiBase = [], sel_proxy = [], sel_model = model,
                 sel_workspace = [], sel_connectMode = [], sel_enableWebSearch = False\<rparr>;
          (returned, sel) = (if providerName \<noteq> [] then explicit_selection home cfg providerName model sel else (False, sel))
      in if returned then Inr sel
         else if sel_apiKey sel = [] \<and> sel_apiBase sel = []
         then (case inferred_selection (cf_Providers cfg) model sel of
                 Inl err \<Rightarrow> Inl err
               | Inr (True, sel) \<Rightarrow> Inr sel
               | Inr (False, sel) \<Rightarrow> check_selection model sel)
         else check_selection model sel)"

text \<open>A selection that is returned at once is not an HTTP provider.\<close>

definition early_ok :: "bool \<times> providerSelection \<Rightarrow> bool" where
  "early_ok r \<longleftrightarrow> (fst r \<longrightarrow> sel_providerType (snd r) \<noteq> HTTPCompat)"

lemma early_ok_simps:
  "early_ok (False, sel)" "early_ok (True, sel) \<longleftrightarrow> sel_providerType sel \<noteq> HTTPCompat"
  "early_ok (openai_selection p sel)" "early_ok (anthropic_selection p sel)"
  by (simp_all add: early_ok_def openai_selection_def anthropic_selection_def Let_def)

lemma early_ok_if: "early_ok x \<Longrightarrow> early_ok y \<Longrightarrow> early_ok (if b then x else y)"
  by simp

lemma explicit_early: "early_ok (explicit_selection home cfg name model sel)"
  unfolding explicit_selection_def Let_def by (intro early_ok_if) (simp_all only: early_ok_simps, simp_all)

lemma explicit_returns:
  "explicit_selection home cfg name model sel = (True, sel') \<Longrightarrow> sel_providerType sel' \<noteq> HTTPCompat"
  using explicit_early [of home cfg name model sel] by (simp add: early_ok_def)

definition early_sum :: "GoError + (bool \<times> providerSelection) \<Rightarrow> bool" where
  "early_sum x = (case x of Inl _ \<Rightarrow> True | Inr r \<Rightarrow> early_ok r)"

lemma early_sum_if: "early_sum x \<Longrightarrow> early_sum y \<Longrightarrow> early_sum (if b then x else y)"
  by simp

lemma early_sum_simps: "early_sum (Inl err)" "early_sum (Inr r) = early_ok r"
  by (simp_all add: early_sum_def)

lemma inferred_early: "early_sum (inferred_selection p model sel)"
  unfolding inferred_selection_def Let_def by (intro early_sum_if) (simp_all only: early_sum_simps early_ok_simps)

lemma inferred_returns:
  "inferred_selection p model sel = Inr (True, sel') \<Longrightarrow> sel_providerType sel' \<noteq> HTTPCompat"
  using inferred_early [of p model sel] by (simp add: early_sum_simps early_ok_def)

lemma check_complete:
  assumes "check_selection model sel = Inr sel'" "sel_providerType sel' = HTTPCompat"
  shows "sel_apiBase sel' \<noteq> [] \<and> (sel_apiKey sel' \<noteq> [] \<or> has_prefix ''bedrock/'' model)"
  using assms by (simp add: check_selection_def split: if_splits)

text \<open>A selection is complete: an HTTP provider is selected only with an address, and with a key unless the model is
  one of Bedrock.\<close>

lemma selection_complete:
  assumes "resolveProviderSelection home cfg = Inr sel" "sel_providerType sel = HTTPCompat"
  shows "sel_apiBase sel \<noteq> [] \<and> (sel_apiKey sel \<noteq> [] \<or> has_prefix ''bedrock/'' (GetModelName (cf_Defaults cfg)))"
proof -
  let ?model = "GetModelName (cf_Defaults cfg)" and ?name = "to_lower (ad_Provider (cf_Defaults cfg))"
  let ?sel = "\<lparr>sel_providerType = HTTPCompat, sel_apiKey = [], sel_apiBase = [], sel_proxy = [], sel_model = ?model,
    sel_workspace = [], sel_connectMode = [], sel_enableWebSearch = False\<rparr>"
  obtain returned sel1 where e: "(if ?name \<noteq> [] then explicit_selection home cfg ?name ?model ?sel else (False, ?sel)) = (returned, sel1)"
    by fastforce
  have "returned \<Longrightarrow> sel_providerType sel1 \<noteq> HTTPCompat"
    using e explicit_returns [of home cfg ?name ?model ?sel sel1] by (cases "?name = []") simp_all
  then have nd: "\<not> returned" and rest: "(if sel_apiKey sel1 = [] \<and> sel_apiBase sel1 = []
         then (case inferred_selection (cf_Providers cfg) ?model sel1 of
                 Inl err \<Rightarrow> Inl err | Inr (True, sel) \<Rightarrow> Inr sel | Inr (False, sel) \<Rightarrow> check_selection ?model sel)
         else check_selection ?model sel1) = Inr sel"
    using assms e unfolding resolveProviderSelection_def Let_def by (auto split: if_splits)
  have "\<exists>s. check_selection ?model s = Inr sel"
  proof (cases "sel_apiKey sel1 = [] \<and> sel_apiBase sel1 = []")
    case True
    then show ?thesis using rest inferred_returns [of "cf_Providers cfg" ?model sel1 sel] assms(2)
      by (auto split: sum.splits prod.splits bool.splits)
  qed (use rest in auto)
  then show ?thesis using check_complete assms(2) by blast
qed

end
