(* ===== verification/Cron_Tool.thy ===== *)
theory Cron_Tool
  imports Cron Shell
begin

text \<open>
  The cron tool, \<^verbatim>\<open>pkg/tools/cron.go\<close>: the actions of the agent on the cron service, and what a job
  does when it fires. The service is the one of theory \<^verbatim>\<open>Cron\<close>, and a scheduled command goes through
  the exec tool of theory \<^verbatim>\<open>Shell\<close>. The tool calls the service several times, each call under the
  service's lock: \<open>between\<close> is what other goroutines do to the service between two of them. Numbers
  arrive as \<^verbatim>\<open>float64\<close>; \<open>trunc\<close> is the conversion to \<^verbatim>\<open>int64\<close>. The agent that processes a
  message is the interface \<^verbatim>\<open>JobExecutor\<close>, the argument \<open>process\<close>.
\<close>

record CronTool =
  ct_execTool :: ExecTool
  ct_channel :: string
  ct_chatID :: string

definition NewCronTool :: "(string \<Rightarrow> GoError + pattern) \<Rightarrow> string \<Rightarrow> bool \<Rightarrow> duration \<Rightarrow> ExecConfig option \<Rightarrow> CronTool" where
  "NewCronTool Compile workspace restrict execTimeout config =
     \<lparr>ct_execTool = SetTimeout execTimeout (NewExecToolWithConfig Compile workspace restrict config), ct_channel = [], ct_chatID = []\<rparr>"

definition CronTool_SetContext :: "string \<Rightarrow> string \<Rightarrow> CronTool \<Rightarrow> CronTool" where
  "CronTool_SetContext channel chatID t = t\<lparr>ct_channel := channel, ct_chatID := chatID\<rparr>"

record 'h cron_tool_env =
  cte_tick :: next_tick
  cte_trunc :: "string \<Rightarrow> int"
  cte_now :: int
  cte_created :: int
  cte_updated :: int
  cte_id :: string
  cte_save1 :: save_result
  cte_save2 :: save_result
  cte_between :: "'h CronService \<Rightarrow> 'h CronService"

definition number_arg :: "json_obj \<Rightarrow> string \<Rightarrow> string option" where
  "number_arg args k = (case map_of args k of Some (JNum n) \<Rightarrow> Some n | _ \<Rightarrow> None)"

definition text_arg :: "json_obj \<Rightarrow> string \<Rightarrow> string option" where
  "text_arg args k = (case map_of args k of Some (JStr s) \<Rightarrow> Some s | _ \<Rightarrow> None)"

definition empty_schedule :: CronSchedule where
  "empty_schedule = \<lparr>sch_Kind = [], sch_AtMS = None, sch_EveryMS = None, sch_Expr = [], sch_TZ = []\<rparr>"

text \<open>The schedule that the arguments ask for; the products and the sum are 64-bit.\<close>

definition tool_schedule :: "(string \<Rightarrow> int) \<Rightarrow> int \<Rightarrow> json_obj \<Rightarrow> CronSchedule option" where
  "tool_schedule trunc now args =
     (case number_arg args ''at_seconds'' of
        Some n \<Rightarrow> Some (empty_schedule\<lparr>sch_Kind := ''at'', sch_AtMS := Some (wrap64 (now + wrap64 (trunc n * 1000)))\<rparr>)
      | None \<Rightarrow>
          (case number_arg args ''every_seconds'' of
             Some n \<Rightarrow> Some (empty_schedule\<lparr>sch_Kind := ''every'', sch_EveryMS := Some (wrap64 (trunc n * 1000))\<rparr>)
           | None \<Rightarrow>
               (case text_arg args ''cron_expr'' of
                  Some expr \<Rightarrow> Some (empty_schedule\<lparr>sch_Kind := ''cron'', sch_Expr := expr\<rparr>)
                | None \<Rightarrow> None)))"

definition set_command :: "string \<Rightarrow> CronJob \<Rightarrow> CronJob" where
  "set_command command job = job\<lparr>cj_Payload := (cj_Payload job)\<lparr>pl_Command := command\<rparr>\<rparr>"

definition addJob_tool :: "'h cron_tool_env \<Rightarrow> CronTool \<Rightarrow> json_obj \<Rightarrow> 'h CronService \<Rightarrow> 'h CronService \<times> ToolResult" where
  "addJob_tool env t args cs =
     (if ct_channel t = [] \<or> ct_chatID t = []
      then (cs, ErrorResult ''no session context (channel/chat_id not set). Use this tool in an active conversation.'')
      else case text_arg args ''message'' of
             None \<Rightarrow> (cs, ErrorResult ''message is required for add'')
           | Some message \<Rightarrow>
               if message = [] then (cs, ErrorResult ''message is required for add'')
               else (case tool_schedule (cte_trunc env) (cte_now env) args of
                       None \<Rightarrow> (cs, ErrorResult ''one of at_seconds, every_seconds, or cron_expr is required'')
                     | Some schedule \<Rightarrow>
                         let command = (case text_arg args ''command'' of Some c \<Rightarrow> c | None \<Rightarrow> []);
                             deliver = (if command \<noteq> [] then False
                                        else case map_of args ''deliver'' of Some (JBool d) \<Rightarrow> d | _ \<Rightarrow> True) in
                         (case AddJob (cte_tick env) (cte_created env) (cte_id env) (cte_save1 env) (Truncate message 30) schedule
                                 message deliver (ct_channel t) (ct_chatID t) cs of
                            (cs, Inl err) \<Rightarrow> (cs, ErrorResult (''Error adding job: '' @ error_text err))
                          | (cs, Inr job) \<Rightarrow>
                              let cs = (if command \<noteq> []
                                        then fst (UpdateJob (cte_updated env) (cte_save2 env) (set_command command job) (cte_between env cs))
                                        else cs)
                              in (cs, SilentResult (''Cron job added: '' @ cj_Name job @ '' (id: '' @ cj_ID job @ '')'')))))"

definition schedule_info :: "CronSchedule \<Rightarrow> string" where
  "schedule_info s =
     (if sch_Kind s = ''every'' \<and> sch_EveryMS s \<noteq> None then ''every '' @ itoa (quot (the (sch_EveryMS s)) 1000) @ ''s''
      else if sch_Kind s = ''cron'' then sch_Expr s
      else if sch_Kind s = ''at'' then ''one-time''
      else ''unknown'')"

definition job_line :: "CronJob \<Rightarrow> string" where
  "job_line j = ''- '' @ cj_Name j @ '' (id: '' @ cj_ID j @ '', '' @ schedule_info (cj_Schedule j) @ '')'' @ [nl]"

definition listJobs_tool :: "'h CronService \<Rightarrow> ToolResult" where
  "listJobs_tool cs =
     (let js = ListJobs False cs in
      if js = [] then SilentResult ''No scheduled jobs''
      else SilentResult (''Scheduled jobs:'' @ [nl] @ concat (map job_line js)))"

definition removeJob_tool :: "'h cron_tool_env \<Rightarrow> json_obj \<Rightarrow> 'h CronService \<Rightarrow> 'h CronService \<times> ToolResult" where
  "removeJob_tool env args cs =
     (case text_arg args ''job_id'' of
        None \<Rightarrow> (cs, ErrorResult ''job_id is required for remove'')
      | Some jobID \<Rightarrow>
          if jobID = [] then (cs, ErrorResult ''job_id is required for remove'')
          else (case RemoveJob (cte_save1 env) jobID cs of
                  (cs, True) \<Rightarrow> (cs, SilentResult (''Cron job removed: '' @ jobID))
                | (cs, False) \<Rightarrow> (cs, ErrorResult (''Job '' @ jobID @ '' not found''))))"

definition enableJob_tool :: "'h cron_tool_env \<Rightarrow> json_obj \<Rightarrow> bool \<Rightarrow> 'h CronService \<Rightarrow> 'h CronService \<times> ToolResult" where
  "enableJob_tool env args enable cs =
     (case text_arg args ''job_id'' of
        None \<Rightarrow> (cs, ErrorResult ''job_id is required for enable/disable'')
      | Some jobID \<Rightarrow>
          if jobID = [] then (cs, ErrorResult ''job_id is required for enable/disable'')
          else (case EnableJob (cte_tick env) (cte_created env) (cte_updated env) (cte_save1 env) jobID enable cs of
                  (cs, None) \<Rightarrow> (cs, ErrorResult (''Job '' @ jobID @ '' not found''))
                | (cs, Some job) \<Rightarrow>
                    (cs, SilentResult (''Cron job '' @ [CHR 0x27] @ cj_Name job @ [CHR 0x27] @ '' '' @
                       (if enable then ''enabled'' else ''disabled'')))))"

definition CronTool_Execute :: "'h cron_tool_env \<Rightarrow> CronTool \<Rightarrow> json_obj \<Rightarrow> 'h CronService \<Rightarrow> 'h CronService \<times> ToolResult" where
  "CronTool_Execute env t args cs =
     (case text_arg args ''action'' of
        None \<Rightarrow> (cs, ErrorResult ''action is required'')
      | Some action \<Rightarrow>
          if action = ''add'' then addJob_tool env t args cs
          else if action = ''list'' then (cs, listJobs_tool cs)
          else if action = ''remove'' then removeJob_tool env args cs
          else if action = ''enable'' then enableJob_tool env args True cs
          else if action = ''disable'' then enableJob_tool env args False cs
          else (cs, ErrorResult (''unknown action: '' @ action)))"

subsection \<open>A job fires\<close>

record 'w job_env =
  je_wd :: string
  je_eval :: "string \<Rightarrow> fs_error + string"
  je_shell :: "string \<Rightarrow> string \<Rightarrow> 'w \<Rightarrow> 'w \<times> shell_outcome"
  je_process :: "string \<Rightarrow> string \<Rightarrow> string \<Rightarrow> string \<Rightarrow> 'w \<Rightarrow> 'w \<times> (GoError + string)"

definition job_channel :: "CronJob \<Rightarrow> string" where
  "job_channel job = (if pl_Channel (cj_Payload job) = [] then ''cli'' else pl_Channel (cj_Payload job))"

definition job_chat :: "CronJob \<Rightarrow> string" where
  "job_chat job = (if pl_To (cj_Payload job) = [] then ''direct'' else pl_To (cj_Payload job))"

text \<open>The new world, the messages published on the bus, and the result.\<close>

definition ExecuteJob :: "'w job_env \<Rightarrow> CronTool \<Rightarrow> CronJob \<Rightarrow> 'w \<Rightarrow> 'w \<times> OutboundMessage list \<times> string" where
  "ExecuteJob env t job w =
     (let to_chat = (\<lambda>content. \<lparr>om_Channel = job_channel job, om_ChatID = job_chat job, om_Content = content\<rparr>);
          command = pl_Command (cj_Payload job) in
      if command \<noteq> []
      then (case ExecTool_Execute (je_wd env) (je_eval env) (je_shell env) (ct_execTool t) (Some [(''command'', JStr command)]) w of
              (w, result) \<Rightarrow>
                let output = (if tr_IsError result then ''Error executing scheduled command: '' @ tr_ForLLM result
                              else ''Scheduled command '' @ [CHR 0x27] @ command @ [CHR 0x27] @ '' executed:'' @ [nl] @ tr_ForLLM result)
                in (w, [to_chat output], ''ok''))
      else if pl_Deliver (cj_Payload job) then (w, [to_chat (pl_Message (cj_Payload job))], ''ok'')
      else (case je_process env (pl_Message (cj_Payload job)) (''cron-'' @ cj_ID job) (job_channel job) (job_chat job) w of
              (w, Inl err) \<Rightarrow> (w, [], ''Error: '' @ error_text err)
            | (w, Inr response) \<Rightarrow> (w, [], ''ok'')))"

subsection \<open>What the tool promises\<close>


text \<open>The jobs that the tool adds: the schedule and the message of the arguments, for the chat of the conversation,
  with the next run that the service computes; a command switches the delivery of the message off.\<close>

theorem cron_tool_adds:
  assumes "ct_channel t \<noteq> []" "ct_chatID t \<noteq> []" "text_arg args ''message'' = Some message" "message \<noteq> []"
    and "tool_schedule (cte_trunc env) (cte_now env) args = Some schedule"
    and "cte_save1 env = SaveOk" "\<And>cs. cte_between env cs = cs" "\<forall>j \<in> set (jobs cs). cj_ID j \<noteq> cte_id env"
  shows "\<exists>job. jobs (fst (addJob_tool env t args cs)) = jobs cs @ [job] \<and> cj_ID job = cte_id env \<and> cj_Enabled job \<and>
    cj_Schedule job = schedule \<and> next_run job = computeNextRun (cte_tick env) schedule (cte_created env) \<and>
    pl_Message (cj_Payload job) = message \<and> pl_Channel (cj_Payload job) = ct_channel t \<and> pl_To (cj_Payload job) = ct_chatID t \<and>
    pl_Command (cj_Payload job) = (case text_arg args ''command'' of Some c \<Rightarrow> c | None \<Rightarrow> []) \<and>
    (pl_Command (cj_Payload job) \<noteq> [] \<longrightarrow> \<not> pl_Deliver (cj_Payload job)) \<and>
    \<not> tr_IsError (snd (addJob_tool env t args cs))"
proof -
  define command where "command = (case text_arg args ''command'' of Some c \<Rightarrow> c | None \<Rightarrow> [])"
  define deliver where "deliver = (if command \<noteq> [] then False else case map_of args ''deliver'' of Some (JBool d) \<Rightarrow> d | _ \<Rightarrow> True)"
  define job where "job = new_job (cte_tick env) (cte_created env) (cte_id env) (Truncate message 30) schedule message deliver
    (ct_channel t) (ct_chatID t)"
  define cs1 where "cs1 = fst (saveStoreUnsafe SaveOk (set_jobs cs (jobs cs @ [job])))"
  have jobs1: "jobs cs1 = jobs cs @ [job]" by (simp add: cs1_def)
  have add: "AddJob (cte_tick env) (cte_created env) (cte_id env) (cte_save1 env) (Truncate message 30) schedule message deliver
      (ct_channel t) (ct_chatID t) cs = (cs1, Inr job)"
    by (simp add: AddJob_def assms(6) job_def [symmetric] cs1_def)
  define cs2 where "cs2 = (if command \<noteq> [] then fst (UpdateJob (cte_updated env) (cte_save2 env) (set_command command job) cs1) else cs1)"
  have tool: "addJob_tool env t args cs =
      (cs2, SilentResult (''Cron job added: '' @ cj_Name job @ '' (id: '' @ cj_ID job @ '')''))"
    using assms(1-5,7) add unfolding addJob_tool_def Let_def command_def [symmetric] deliver_def [symmetric]
    by (simp add: cs2_def)
  have id: "cj_ID job = cte_id env" "cj_ID (set_command command job) = cte_id env" by (simp_all add: job_def new_job_def set_command_def)
  have "update_first (\<lambda>j. cj_ID j = cte_id env) f (js @ [job]) = js @ [f job]" if "\<forall>j \<in> set js. cj_ID j \<noteq> cte_id env" for f js
    using that id(1) by (induction js) auto
  note upd = this [OF assms(8)]
  have "jobs cs2 = jobs cs @ [if command \<noteq> [] then (set_command command job)\<lparr>cj_UpdatedAtMS := cte_updated env\<rparr> else job]"
    using jobs1 id upd by (simp add: cs2_def UpdateJob_def)
  then show ?thesis unfolding tool
    by (intro exI [of _ "if command \<noteq> [] then (set_command command job)\<lparr>cj_UpdatedAtMS := cte_updated env\<rparr> else job"])
      (simp add: job_def new_job_def set_command_def next_run_def deliver_def command_def [symmetric] SilentResult_def NewToolResult_def)
qed

definition sample_cron_tool :: CronTool where
  "sample_cron_tool = CronTool_SetContext ''telegram'' ''42'' (NewCronTool no_compile ''/w'' True 0
     (Some \<lparr>ec_EnableDenyPatterns = True, ec_CustomDenyPatterns = []\<rparr>))"

definition sample_cron_env :: "(unit CronService \<Rightarrow> unit CronService) \<Rightarrow> unit cron_tool_env" where
  "sample_cron_env between = \<lparr>cte_tick = (\<lambda>_ _. None), cte_trunc = (\<lambda>n. if n = ''60'' then 60 else 0), cte_now = 1000, cte_created = 1000,
     cte_updated = 1001, cte_id = ''j1'', cte_save1 = SaveOk, cte_save2 = SaveOk, cte_between = between\<rparr>"

definition sample_cron :: "unit CronService" where
  "sample_cron = \<lparr>cs_file = NoFile, cs_store = empty_store, cs_onJob = None, cs_running = True\<rparr>"

definition add_args :: "string \<Rightarrow> json_obj" where
  "add_args seconds = [(''action'', JStr ''add''), (''message'', JStr ''check''), (''command'', JStr ''df -h''), (''at_seconds'', JNum seconds)]"

theorem cron_tool_adds_witness:
  "\<exists>job. jobs (fst (addJob_tool (sample_cron_env (\<lambda>cs. cs)) sample_cron_tool (add_args ''60'') sample_cron)) = [job] \<and>
     next_run job = Some 61000 \<and> pl_Command (cj_Payload job) = ''df -h'' \<and> pl_To (cj_Payload job) = ''42''"
proof -
  let ?env = "sample_cron_env (\<lambda>cs. cs)" and ?s = "empty_schedule\<lparr>sch_Kind := ''at'', sch_AtMS := Some 61000\<rparr>"
  have h: "ct_channel sample_cron_tool \<noteq> []" "ct_chatID sample_cron_tool \<noteq> []" "ct_chatID sample_cron_tool = ''42''"
    by (simp_all add: sample_cron_tool_def CronTool_SetContext_def)
  have a: "text_arg (add_args ''60'') ''message'' = Some ''check''" "text_arg (add_args ''60'') ''command'' = Some ''df -h''"
    "tool_schedule (cte_trunc ?env) (cte_now ?env) (add_args ''60'') = Some ?s"
    by code_simp+
  have e: "cte_save1 ?env = SaveOk" "\<And>cs. cte_between ?env cs = cs" "\<forall>j \<in> set (jobs sample_cron). cj_ID j \<noteq> cte_id ?env"
    "computeNextRun (cte_tick ?env) ?s (cte_created ?env) = Some 61000" "jobs sample_cron = []"
    by (simp_all add: sample_cron_env_def sample_cron_def jobs_def empty_store_def computeNextRun_def)
  have m: "''check'' \<noteq> []" by simp
  from cron_tool_adds [where t = sample_cron_tool and cs = sample_cron, OF h(1,2) a(1) m a(3) e(1-3)] show ?thesis using a(2) e(4,5) h(3) by auto
qed

definition sample_job_env :: "string list job_env" where
  "sample_job_env = \<lparr>je_wd = ''/'', je_eval = (\<lambda>p. Inr p), je_shell = (\<lambda>cwd c w. (w @ [c], Ended ''out'' [] None False)),
     je_process = (\<lambda>_ _ _ _ w. (w, Inr []))\<rparr>"

definition command_job :: "string \<Rightarrow> CronJob" where
  "command_job c = set_command c (new_job (\<lambda>_ _. None) 0 ''j1'' ''n'' empty_schedule ''m'' False ''telegram'' ''42'')"


text \<open>A reminder for now or for the past is accepted, and never fires: the service computes no next run for it.\<close>

lemma past_reminder_never_fires:
  assumes "number_arg args ''at_seconds'' = Some n" "trunc n \<le> 0" "- (2 ^ 63) \<le> trunc n * 1000"
    "0 \<le> now" "now \<le> created" "now < 2 ^ 63"
  shows "\<exists>schedule. tool_schedule trunc now args = Some schedule \<and> computeNextRun tick schedule created = None"
proof -
  have a: "wrap64 (trunc n * 1000) = trunc n * 1000" using assms(2,3) by (intro wrap64_id) simp_all
  have b: "wrap64 (now + trunc n * 1000) = now + trunc n * 1000" using assms by (intro wrap64_id) simp_all
  show ?thesis using assms a b by (simp add: tool_schedule_def computeNextRun_def empty_schedule_def)
qed

text \<open>The command is stored by a second call. A job that fires between the two is given to the agent as a plain
  message, and the command is never run, although the tool reports success.\<close>

definition fire :: "unit CronService \<Rightarrow> unit CronService" where
  "fire cs = (let (cs, due) = collect_due 99999 SaveOk cs in
     fold (executeJobByID (\<lambda>_ _. None) (\<lambda>h job cs. (cs, None)) \<lparr>ee_start = 99999, ee_updated = 99999, ee_next = 99999, ee_save1 = SaveOk,
       ee_save2 = SaveOk\<rparr>) due cs)"

lemma command_lost_in_between:
  "jobs (fst (addJob_tool (sample_cron_env fire) sample_cron_tool (add_args ''60'') sample_cron)) = [] \<and>
   \<not> tr_IsError (snd (addJob_tool (sample_cron_env fire) sample_cron_tool (add_args ''60'') sample_cron))"
  by code_simp

end
