(* ===== verification/Cli_Providers.thy ===== *)
theory Cli_Providers
  imports Tools
begin

text \<open>
  The providers that drive a command line program: \<^verbatim>\<open>pkg/providers/claude_cli_provider.go\<close>,
  \<^verbatim>\<open>codex_cli_provider.go\<close> and the extraction of tool calls from free text,
  \<^verbatim>\<open>tool_call_extract.go\<close>. The decoding of JSON into the structures of the sources is an argument;
  running the program is an argument as well. Token usage is not kept.
\<close>

subsection \<open>Tool calls in text\<close>

text \<open>\<open>brace_end depth text\<close>: the length of the text up to and including the brace that brings the depth back to
  zero.\<close>

fun brace_end :: "int \<Rightarrow> string \<Rightarrow> nat option" where
  "brace_end depth [] = None"
| "brace_end depth (c # s) =
     (if c = CHR ''{'' then map_option Suc (brace_end (depth + 1) s)
      else if c = CHR ''}'' then (if depth - 1 = 0 then Some 1 else map_option Suc (brace_end (depth - 1) s))
      else map_option Suc (brace_end depth s))"

definition findMatchingBrace :: "string \<Rightarrow> nat \<Rightarrow> nat" where
  "findMatchingBrace text pos = (case brace_end 0 (drop pos text) of Some n \<Rightarrow> pos + n | None \<Rightarrow> pos)"

record wire_call =
  wc_ID :: string
  wc_Type :: string
  wc_Name :: string
  wc_Arguments :: string

definition calls_marker :: string where
  "calls_marker = ''{'' @ [dquote] @ ''tool_calls'' @ [dquote]"

definition text_call :: "json_codec \<Rightarrow> wire_call \<Rightarrow> ToolCall" where
  "text_call codec tc =
     \<lparr>tc_ID = wc_ID tc, tc_Type = wc_Type tc,
      tc_Function = Some \<lparr>fn_Name = wc_Name tc, fn_Arguments = wc_Arguments tc, fn_ThoughtSignature = []\<rparr>,
      tc_Name = wc_Name tc, tc_Arguments = jc_unmarshal codec (wc_Arguments tc), tc_ThoughtSignature = [], tc_ExtraContent = None\<rparr>"

definition extractToolCallsFromText :: "json_codec \<Rightarrow> (string \<Rightarrow> wire_call list option) \<Rightarrow> string \<Rightarrow> ToolCall list" where
  "extractToolCallsFromText codec decode text =
     (case index_of calls_marker text of
        None \<Rightarrow> []
      | Some start \<Rightarrow>
          let stop = findMatchingBrace text start in
          if stop = start then []
          else (case decode (take (stop - start) (drop start text)) of
                  None \<Rightarrow> []
                | Some calls \<Rightarrow> map (text_call codec) calls))"

definition stripToolCallsFromText :: "string \<Rightarrow> string" where
  "stripToolCallsFromText text =
     (case index_of calls_marker text of
        None \<Rightarrow> text
      | Some start \<Rightarrow>
          let stop = findMatchingBrace text start in
          if stop = start then text else trim_space (take start text @ drop stop text))"

subsection \<open>Prompts\<close>

definition tool_entry :: "json_codec \<Rightarrow> ToolDefinition \<Rightarrow> string" where
  "tool_entry codec tool =
     (if td_Type tool \<noteq> ''function'' then []
      else let f = td_Function tool in
        ''#### '' @ tfd_Name f @ [nl] @
        (if tfd_Description f \<noteq> [] then ''Description: '' @ tfd_Description f @ [nl] else []) @
        (case tfd_Parameters f of
           None \<Rightarrow> []
         | Some [] \<Rightarrow> []
         | Some (p # ps) \<Rightarrow>
             (case jc_marshal codec (p # ps) of
                Inl err \<Rightarrow> ''Parameters: (marshal error: '' @ error_text err @ '')'' @ [nl]
              | Inr json \<Rightarrow> ''Parameters:'' @ [nl] @ ''```json'' @ [nl] @ json @ [nl] @ ''```'' @ [nl])) @ [nl])"

definition call_example :: string where
  "call_example = calls_marker @ '':[{'' @ [dquote] @ ''id'' @ [dquote] @ '':'' @ [dquote] @ ''call_xxx'' @ [dquote] @ '','' @
     [dquote] @ ''type'' @ [dquote] @ '':'' @ [dquote] @ ''function'' @ [dquote] @ '','' @ [dquote] @ ''function'' @ [dquote] @ '':{'' @
     [dquote] @ ''name'' @ [dquote] @ '':'' @ [dquote] @ ''tool_name'' @ [dquote] @ '','' @ [dquote] @ ''arguments'' @ [dquote] @ '':'' @
     [dquote] @ ''{...}'' @ [dquote] @ ''}}]}''"

definition buildToolsPrompt :: "json_codec \<Rightarrow> ToolDefinition list \<Rightarrow> string" where
  "buildToolsPrompt codec tools =
     ''## Available Tools'' @ [nl, nl] @ ''When you need to use a tool, respond with ONLY a JSON object:'' @ [nl, nl] @
     ''```json'' @ [nl] @ call_example @ [nl] @ ''```'' @ [nl, nl] @
     ''CRITICAL: The '' @ [CHR 0x27] @ ''arguments'' @ [CHR 0x27] @ '' field MUST be a JSON-encoded STRING.'' @ [nl, nl] @
     ''### Tool Definitions:'' @ [nl, nl] @ concat (map (tool_entry codec) tools)"

definition prompt_part :: "Message \<Rightarrow> string list" where
  "prompt_part msg =
     (if msg_Role msg = ''user'' then [''User: '' @ msg_Content msg]
      else if msg_Role msg = ''assistant'' then [''Assistant: '' @ msg_Content msg]
      else if msg_Role msg = ''tool'' then [''[Tool Result for '' @ msg_ToolCallID msg @ '']: '' @ msg_Content msg]
      else [])"

definition messagesToPrompt :: "Message list \<Rightarrow> string" where
  "messagesToPrompt messages =
     (let parts = concat (map prompt_part messages) in
      case parts of
        [p] \<Rightarrow> if has_prefix ''User: '' p then drop 6 p else p
      | _ \<Rightarrow> join [nl] parts)"

definition buildSystemPrompt_cli :: "json_codec \<Rightarrow> Message list \<Rightarrow> ToolDefinition list \<Rightarrow> string" where
  "buildSystemPrompt_cli codec messages tools =
     join [nl, nl] (map msg_Content (filter (\<lambda>m. msg_Role m = ''system'') messages) @
       (if tools \<noteq> [] then [buildToolsPrompt codec tools] else []))"

definition codex_part :: "Message \<Rightarrow> string list" where
  "codex_part msg =
     (if msg_Role msg = ''user'' then [msg_Content msg]
      else if msg_Role msg = ''assistant'' then [''Assistant: '' @ msg_Content msg]
      else if msg_Role msg = ''tool'' then [''[Tool Result for '' @ msg_ToolCallID msg @ '']: '' @ msg_Content msg]
      else [])"

definition codex_buildPrompt :: "json_codec \<Rightarrow> Message list \<Rightarrow> ToolDefinition list \<Rightarrow> string" where
  "codex_buildPrompt codec messages tools =
     (let systemParts = map msg_Content (filter (\<lambda>m. msg_Role m = ''system'') messages);
          conversationParts = concat (map codex_part messages)
      in if length conversationParts = 1 \<and> systemParts = [] \<and> tools = [] then hd conversationParts
         else (if systemParts \<noteq> [] then ''## System Instructions'' @ [nl, nl] @ join [nl, nl] systemParts @ [nl, nl] @ ''## Task'' @ [nl, nl] else []) @
              (if tools \<noteq> [] then buildToolsPrompt codec tools @ [nl, nl] else []) @ join [nl] conversationParts)"

subsection \<open>Responses\<close>

definition text_response :: "json_codec \<Rightarrow> (string \<Rightarrow> wire_call list option) \<Rightarrow> string \<Rightarrow> LLMResponse" where
  "text_response codec decode text =
     (let toolCalls = extractToolCallsFromText codec decode text
      in if toolCalls \<noteq> []
         then \<lparr>lr_Content = trim_space (stripToolCallsFromText text), lr_ReasoningContent = [], lr_ToolCalls = toolCalls, lr_FinishReason = ''tool_calls''\<rparr>
         else \<lparr>lr_Content = trim_space text, lr_ReasoningContent = [], lr_ToolCalls = [], lr_FinishReason = ''stop''\<rparr>)"

record claudeCliJSONResponse =
  cc_IsError :: bool
  cc_Result :: string

definition parseClaudeCliResponse :: "json_codec \<Rightarrow> (string \<Rightarrow> wire_call list option) \<Rightarrow> (string \<Rightarrow> GoError + claudeCliJSONResponse) \<Rightarrow>
    string \<Rightarrow> GoError + LLMResponse" where
  "parseClaudeCliResponse codec decode decode_resp out =
     (case decode_resp out of
        Inl err \<Rightarrow> Inl (ErrWrap ''failed to parse claude cli response: '' err)
      | Inr resp \<Rightarrow>
          if cc_IsError resp then Inl (ErrNew (''claude cli returned error: '' @ cc_Result resp))
          else Inr (text_response codec decode (cc_Result resp)))"

text \<open>The events of Codex. The scanner gives up, without an error that anybody reads, at a line of 65536 bytes.\<close>

record codexEvent =
  ce_Type :: string
  ce_Message :: string
  ce_Item :: "(string \<times> string) option"
  ce_Error :: "string option"

definition max_token :: nat where "max_token = 65536"

definition scan_lines :: "string \<Rightarrow> string list" where
  "scan_lines out =
     (let ls = split_on (\<lambda>c. c = nl) out;
          ls = (if last ls = [] then butlast ls else ls)
      in map (\<lambda>l. if l \<noteq> [] \<and> last l = cr then butlast l else l) (takeWhile (\<lambda>l. length l < max_token) ls))"

definition codex_step :: "(string \<Rightarrow> codexEvent option) \<Rightarrow> string \<Rightarrow> string list \<times> string \<Rightarrow> string list \<times> string" where
  "codex_step decode raw acc =
     (let line = trim_space raw; (contentParts, lastError) = acc in
      if line = [] then acc
      else case decode line of
             None \<Rightarrow> acc
           | Some event \<Rightarrow>
               if ce_Type event = ''item.completed''
               then (case ce_Item event of
                       Some (type, text) \<Rightarrow> if type = ''agent_message'' \<and> text \<noteq> [] then (contentParts @ [text], lastError) else acc
                     | None \<Rightarrow> acc)
               else if ce_Type event = ''error'' then (contentParts, ce_Message event)
               else if ce_Type event = ''turn.failed''
               then (case ce_Error event of Some m \<Rightarrow> (contentParts, m) | None \<Rightarrow> acc)
               else acc)"

definition parseJSONLEvents :: "json_codec \<Rightarrow> (string \<Rightarrow> wire_call list option) \<Rightarrow> (string \<Rightarrow> codexEvent option) \<Rightarrow> string \<Rightarrow>
    GoError + LLMResponse" where
  "parseJSONLEvents codec decode decode_event out =
     (case fold (codex_step decode_event) (scan_lines out) ([], []) of
        (contentParts, lastError) \<Rightarrow>
          if lastError \<noteq> [] \<and> contentParts = [] then Inl (ErrNew (''codex cli: '' @ lastError))
          else Inr (text_response codec decode (join [nl] contentParts)))"

subsection \<open>Running the programs\<close>

record cli_run =
  cr_stdout :: string
  cr_stderr :: string
  cr_error :: "GoError option"

definition claude_args :: "string \<Rightarrow> string \<Rightarrow> string list" where
  "claude_args systemPrompt model =
     [''-p'', ''--output-format'', ''json'', ''--dangerously-skip-permissions'', ''--no-chrome''] @
     (if systemPrompt \<noteq> [] then [''--system-prompt'', systemPrompt] else []) @
     (if model \<noteq> [] \<and> model \<noteq> ''claude-code'' then [''--model'', model] else []) @ [''-'']"

definition run_error :: "string \<Rightarrow> string \<Rightarrow> GoError \<Rightarrow> GoError" where
  "run_error program stderr err =
     (if stderr \<noteq> [] then ErrNew (program @ '' cli error: '' @ stderr) else ErrWrap (program @ '' cli error: '') err)"

definition ClaudeCli_Chat :: "json_codec \<Rightarrow> (string \<Rightarrow> wire_call list option) \<Rightarrow> (string \<Rightarrow> GoError + claudeCliJSONResponse) \<Rightarrow>
    (string list \<Rightarrow> string \<Rightarrow> 'w \<Rightarrow> 'w \<times> cli_run) \<Rightarrow> Message list \<Rightarrow> ToolDefinition list \<Rightarrow> string \<Rightarrow> 'w \<Rightarrow> 'w \<times> (GoError + LLMResponse)" where
  "ClaudeCli_Chat codec decode decode_resp run messages tools model w =
     (case run (claude_args (buildSystemPrompt_cli codec messages tools) model) (messagesToPrompt messages) w of
        (w, r) \<Rightarrow> (case cr_error r of
                      Some err \<Rightarrow> (w, Inl (run_error ''claude'' (cr_stderr r) err))
                    | None \<Rightarrow> (w, parseClaudeCliResponse codec decode decode_resp (cr_stdout r))))"

definition codex_args :: "string \<Rightarrow> string \<Rightarrow> string list" where
  "codex_args model workspace =
     [''exec'', ''--json'', ''--dangerously-bypass-approvals-and-sandbox'', ''--skip-git-repo-check'', ''--color'', ''never''] @
     (if model \<noteq> [] \<and> model \<noteq> ''codex-cli'' then [''-m'', model] else []) @
     (if workspace \<noteq> [] then [''-C'', workspace] else []) @ [''-'']"

text \<open>\<open>canceled\<close>: the context was canceled. Output that holds an answer is used even if the program failed.\<close>

definition CodexCli_Chat :: "json_codec \<Rightarrow> (string \<Rightarrow> wire_call list option) \<Rightarrow> (string \<Rightarrow> codexEvent option) \<Rightarrow>
    (string list \<Rightarrow> string \<Rightarrow> 'w \<Rightarrow> 'w \<times> cli_run) \<Rightarrow> bool \<Rightarrow> string \<Rightarrow> string \<Rightarrow> Message list \<Rightarrow> ToolDefinition list \<Rightarrow> string \<Rightarrow> 'w \<Rightarrow>
    'w \<times> (GoError + LLMResponse)" where
  "CodexCli_Chat codec decode decode_event run canceled program workspace messages tools model w =
     (if program = [] then (w, Inl (ErrNew ''codex command not configured''))
      else case run (codex_args model workspace) (codex_buildPrompt codec messages tools) w of
        (w, r) \<Rightarrow>
          let parsed = parseJSONLEvents codec decode decode_event (cr_stdout r);
              usable = (cr_stdout r \<noteq> [] \<and> (case parsed of Inr resp \<Rightarrow> lr_Content resp \<noteq> [] \<or> lr_ToolCalls resp \<noteq> [] | Inl _ \<Rightarrow> False))
          in if usable then (w, parsed)
             else (case cr_error r of
                     Some err \<Rightarrow> (w, Inl (if canceled then ErrCanceled else run_error ''codex'' (cr_stderr r) err))
                   | None \<Rightarrow> (w, parsed)))"

subsection \<open>Extraction and removal agree\<close>

definition balance :: "string \<Rightarrow> int" where
  "balance s = int (length (filter (\<lambda>c. c = CHR ''{'') s)) - int (length (filter (\<lambda>c. c = CHR ''}'') s))"

lemma balance_simps [simp]:
  "balance [] = 0" "balance (c # s) = (if c = CHR ''{'' then 1 else if c = CHR ''}'' then - 1 else 0) + balance s"
  by (simp_all add: balance_def)

lemma brace_end_sound:
  "brace_end d s = Some n \<Longrightarrow> 0 < n \<and> n \<le> length s \<and> d + balance (take n s) = 0 \<and> s ! (n - 1) = CHR ''}''"
proof (induction d s arbitrary: n rule: brace_end.induct)
  case (2 depth c s)
  consider "c = CHR ''{''" | "c = CHR ''}''" "depth = 1" | "c = CHR ''}''" "depth \<noteq> 1" | "c \<noteq> CHR ''{''" "c \<noteq> CHR ''}''" by blast
  then show ?case
  proof cases
    case 2
    then show ?thesis using "2.prems" by (auto simp: take_Suc_conv_app_nth)
  qed (use 2 in \<open>auto simp: nth_Cons' split: if_splits\<close>)
qed simp

lemma brace_end_append: "brace_end d s = Some n \<Longrightarrow> brace_end d (s @ t) = Some n"
  by (induction d s arbitrary: n rule: brace_end.induct) (auto split: if_splits)

text \<open>An answer with tool calls in it: text around a JSON object that begins with the marker and whose braces match
  at its end, for the first time. What is handed to the decoder is exactly the object, the calls of the response are the decoded
  ones, and the content is exactly the text around it. The same holds for the answers of both programs.\<close>

theorem tool_calls_found:
  assumes first: "index_of calls_marker (pre @ json @ post) = Some (length pre)"
    and braces: "brace_end 0 json = Some (length json)"
    and calls: "decode json = Some calls" "calls \<noteq> []"
  shows "text_response codec decode (pre @ json @ post) =
    \<lparr>lr_Content = trim_space (trim_space (pre @ post)), lr_ReasoningContent = [], lr_ToolCalls = map (text_call codec) calls,
     lr_FinishReason = ''tool_calls''\<rparr>"
proof -
  have stop: "findMatchingBrace (pre @ json @ post) (length pre) = length pre + length json"
    using brace_end_append [OF braces, of post] by (simp add: findMatchingBrace_def)
  have "0 < length json" using brace_end_sound [OF braces] by simp
  then have "extractToolCallsFromText codec decode (pre @ json @ post) = map (text_call codec) calls"
    "stripToolCallsFromText (pre @ json @ post) = trim_space (pre @ post)"
    using first stop calls by (simp_all add: extractToolCallsFromText_def stripToolCallsFromText_def)
  then show ?thesis using calls(2) by (simp add: text_response_def)
qed

definition sample_calls :: string where
  "sample_calls = calls_marker @ '':[{'' @ [dquote] @ ''id'' @ [dquote] @ '':'' @ [dquote] @ ''1'' @ [dquote] @ ''}]}''"

definition sample_decode :: "string \<Rightarrow> string \<Rightarrow> wire_call list option" where
  "sample_decode json s = (if s = json then Some [\<lparr>wc_ID = ''1'', wc_Type = [], wc_Name = ''n'', wc_Arguments = ''{}''\<rparr>] else None)"

theorem tool_calls_found_witness:
  "lr_Content (text_response empty_codec (sample_decode sample_calls) (''Let me see. '' @ sample_calls @ '' ok'')) = ''Let me see.  ok'' \<and>
   length (lr_ToolCalls (text_response empty_codec (sample_decode sample_calls) (''Let me see. '' @ sample_calls @ '' ok''))) = 1"
proof -
  have x: "index_of calls_marker (''Let me see. '' @ sample_calls @ '' ok'') = Some (length ''Let me see. '')"
    "brace_end 0 sample_calls = Some (length sample_calls)"
    "trim_space (trim_space (''Let me see. '' @ '' ok'')) = ''Let me see.  ok''" by code_simp+
  have d: "sample_decode sample_calls sample_calls = Some [\<lparr>wc_ID = ''1'', wc_Type = [], wc_Name = ''n'', wc_Arguments = ''{}''\<rparr>]"
    by (simp add: sample_decode_def)
  let ?calls = "[\<lparr>wc_ID = ''1'', wc_Type = [], wc_Name = ''n'', wc_Arguments = ''{}''\<rparr>]"
  have "?calls \<noteq> []" by simp
  note found = tool_calls_found [where codec = empty_codec and decode = "sample_decode sample_calls" and calls = ?calls, OF x(1,2) d this]
  have "length (map (text_call empty_codec) ?calls) = 1" by simp
  then show ?thesis unfolding found by (simp only: x(3) LLMResponse.select_convs)
qed

text \<open>Braces inside strings are counted: with a closing brace in an argument the object is cut short, does not
  decode, and the call is shown to the user as text instead of being executed.\<close>

definition brace_in_string :: string where
  "brace_in_string = calls_marker @ '':[{'' @ [dquote] @ ''arguments'' @ [dquote] @ '':'' @ [dquote] @ ''}}'' @ [dquote] @ ''}]}''"

lemma brace_in_string_breaks:
  "lr_ToolCalls (text_response empty_codec (sample_decode brace_in_string) brace_in_string) = [] \<and>
   lr_Content (text_response empty_codec (sample_decode brace_in_string) brace_in_string) = brace_in_string"
  by code_simp

text \<open>The calls of earlier turns are not part of the prompt, only their results are.\<close>

lemma prompt_ignores_calls: "messagesToPrompt (map (\<lambda>m. m\<lparr>msg_ToolCalls := []\<rparr>) messages) = messagesToPrompt messages"
proof -
  have "map prompt_part (map (\<lambda>m. m\<lparr>msg_ToolCalls := []\<rparr>) messages) = map prompt_part messages"
    by (induction messages) (simp_all add: prompt_part_def)
  then show ?thesis by (simp only: messagesToPrompt_def)
qed

text \<open>A first line of 65536 bytes or more silences everything after it: the answer is empty, and not an error.\<close>

lemma long_line_silences:
  assumes "split_on (\<lambda>c. c = nl) out = line # rest" "max_token \<le> length line"
  shows "parseJSONLEvents codec decode decode_event out = Inr (text_response codec decode [])"
proof -
  have "line \<noteq> []" using assms(2) by (auto simp: max_token_def)
  then have "scan_lines out = []" using assms by (cases "rest = []") (auto simp: scan_lines_def Let_def)
  then show ?thesis by (simp add: parseJSONLEvents_def)
qed

end
