(* ===== verification/Chat_API.thy ===== *)
theory Chat_API
  imports Agent_Loop
begin

text \<open>
  The provider for servers with an OpenAI-compatible interface, \<^verbatim>\<open>pkg/providers/openai_compat/provider.go\<close>.
  A request is a JSON object; the transport is the argument \<open>http\<close>, the decoding of a response into the
  structure of the source is the argument \<open>decode\<close>, and \<open>trunc\<close> converts a number to an integer. Token usage is
  not kept. The last section follows a tool call from a response through the agent loop into the next
  request.
\<close>

subsection \<open>The provider\<close>

record Provider =
  pr_apiKey :: string
  pr_apiBase :: string
  pr_maxTokensField :: string
  pr_proxy :: string

text \<open>A proxy address that does not parse is ignored.\<close>

definition NewProviderWithMaxTokensField :: "(string \<Rightarrow> bool) \<Rightarrow> string \<Rightarrow> string \<Rightarrow> string \<Rightarrow> string \<Rightarrow> Provider" where
  "NewProviderWithMaxTokensField parses apiKey apiBase proxy maxTokensField =
     \<lparr>pr_apiKey = apiKey, pr_apiBase = trim_right (\<lambda>c. c = CHR ''/'') apiBase, pr_maxTokensField = maxTokensField,
      pr_proxy = (if proxy \<noteq> [] \<and> parses proxy then proxy else [])\<rparr>"

definition NewProvider :: "(string \<Rightarrow> bool) \<Rightarrow> string \<Rightarrow> string \<Rightarrow> string \<Rightarrow> Provider" where
  "NewProvider parses apiKey apiBase proxy = NewProviderWithMaxTokensField parses apiKey apiBase proxy []"

definition vendor_prefixes :: "string list" where
  "vendor_prefixes = [''moonshot'', ''nvidia'', ''groq'', ''ollama'', ''deepseek'', ''google'', ''openrouter'', ''zhipu'', ''mistral'']"

definition normalizeModel :: "string \<Rightarrow> string \<Rightarrow> string" where
  "normalizeModel model apiBase =
     (case index_of ''/'' model of
        None \<Rightarrow> model
      | Some i \<Rightarrow>
          if contains (to_lower apiBase) ''openrouter.ai'' then model
          else if to_lower (take i model) \<in> set vendor_prefixes then drop (i + 1) model
          else model)"

definition asInt :: "(string \<Rightarrow> int) \<Rightarrow> json option \<Rightarrow> int option" where
  "asInt trunc v = (case v of Some (JNum n) \<Rightarrow> Some (trunc n) | _ \<Rightarrow> None)"

definition asFloat :: "json option \<Rightarrow> string option" where
  "asFloat v = (case v of Some (JNum n) \<Rightarrow> Some n | _ \<Rightarrow> None)"

subsection \<open>Requests\<close>

record openaiMessage =
  wm_Role :: string
  wm_Content :: string
  wm_ToolCalls :: "ToolCall list"
  wm_ToolCallID :: string

definition stripSystemParts :: "Message list \<Rightarrow> openaiMessage list" where
  "stripSystemParts messages =
     map (\<lambda>m. \<lparr>wm_Role = msg_Role m, wm_Content = msg_Content m, wm_ToolCalls = msg_ToolCalls m, wm_ToolCallID = msg_ToolCallID m\<rparr>) messages"

text \<open>The JSON of the structures: fields marked \<^verbatim>\<open>omitempty\<close> are left out when empty, and the fields marked
  with a dash always.\<close>

definition function_json :: "FunctionCall \<Rightarrow> json" where
  "function_json f = JObj ([(''name'', JStr (fn_Name f)), (''arguments'', JStr (fn_Arguments f))] @
     (if fn_ThoughtSignature f \<noteq> [] then [(''thought_signature'', JStr (fn_ThoughtSignature f))] else []))"

definition extra_json :: "string option \<Rightarrow> json" where
  "extra_json g = (case g of
      None \<Rightarrow> JObj []
    | Some sig \<Rightarrow> JObj [(''google'', JObj (if sig \<noteq> [] then [(''thought_signature'', JStr sig)] else []))])"

definition call_json :: "ToolCall \<Rightarrow> json" where
  "call_json tc = JObj ([(''id'', JStr (tc_ID tc))] @
     (if tc_Type tc \<noteq> [] then [(''type'', JStr (tc_Type tc))] else []) @
     (case tc_Function tc of Some f \<Rightarrow> [(''function'', function_json f)] | None \<Rightarrow> []) @
     (case tc_ExtraContent tc of Some g \<Rightarrow> [(''extra_content'', extra_json g)] | None \<Rightarrow> []))"

definition message_json :: "openaiMessage \<Rightarrow> json" where
  "message_json m = JObj ([(''role'', JStr (wm_Role m)), (''content'', JStr (wm_Content m))] @
     (if wm_ToolCalls m \<noteq> [] then [(''tool_calls'', JArr (map call_json (wm_ToolCalls m)))] else []) @
     (if wm_ToolCallID m \<noteq> [] then [(''tool_call_id'', JStr (wm_ToolCallID m))] else []))"

definition tool_json :: "ToolDefinition \<Rightarrow> json" where
  "tool_json d = JObj [(''type'', JStr (td_Type d)),
     (''function'', JObj [(''name'', JStr (tfd_Name (td_Function d))), (''description'', JStr (tfd_Description (td_Function d))),
        (''parameters'', case tfd_Parameters (td_Function d) of Some m \<Rightarrow> JObj m | None \<Rightarrow> JNull)])]"

definition max_tokens_field :: "Provider \<Rightarrow> string \<Rightarrow> string" where
  "max_tokens_field p model =
     (if pr_maxTokensField p \<noteq> [] then pr_maxTokensField p
      else let lowerModel = to_lower model in
        if contains lowerModel ''glm'' \<or> contains lowerModel ''o1'' \<or> contains lowerModel ''gpt-5'' then ''max_completion_tokens'' else ''max_tokens'')"

definition request_body :: "(string \<Rightarrow> int) \<Rightarrow> Provider \<Rightarrow> Message list \<Rightarrow> ToolDefinition list \<Rightarrow> string \<Rightarrow> json_obj \<Rightarrow> json_obj" where
  "request_body trunc p messages tools model options =
     [(''model'', JStr model), (''messages'', JArr (map message_json (stripSystemParts messages)))] @
     (if tools \<noteq> [] then [(''tools'', JArr (map tool_json tools)), (''tool_choice'', JStr ''auto'')] else []) @
     (case asInt trunc (map_of options ''max_tokens'') of
        Some n \<Rightarrow> [(max_tokens_field p model, JNum (itoa n))]
      | None \<Rightarrow> []) @
     (case asFloat (map_of options ''temperature'') of
        Some temperature \<Rightarrow>
          let lowerModel = to_lower model
          in [(''temperature'', JNum (if contains lowerModel ''kimi'' \<and> contains lowerModel ''k2'' then ''1'' else temperature))]
      | None \<Rightarrow> []) @
     (case map_of options ''prompt_cache_key'' of
        Some (JStr cacheKey) \<Rightarrow> if cacheKey \<noteq> [] then [(''prompt_cache_key'', JStr cacheKey)] else []
      | _ \<Rightarrow> [])"

subsection \<open>Responses\<close>

record response_call =
  rc_ID :: string
  rc_Type :: string
  rc_Function :: "(string \<times> string) option"
  rc_ExtraContent :: "string option option"

record response_choice =
  ch_Content :: string
  ch_ReasoningContent :: string
  ch_ToolCalls :: "response_call list"
  ch_FinishReason :: string

text \<open>Decoding the arguments into the empty map; the text \<^verbatim>\<open>null\<close> is not an error, but makes the map nil.\<close>

definition decode_arguments :: "json_codec \<Rightarrow> string \<Rightarrow> json_obj option" where
  "decode_arguments codec arguments =
     (if arguments = [] then Some []
      else case jc_unmarshal codec arguments of
             Some m \<Rightarrow> Some m
           | None \<Rightarrow> if trim_space arguments = ''null'' then None else Some [(''raw'', JStr arguments)])"

definition thought_signature :: "response_call \<Rightarrow> string" where
  "thought_signature tc = (case rc_ExtraContent tc of Some (Some sig) \<Rightarrow> sig | _ \<Rightarrow> [])"

definition parse_call :: "json_codec \<Rightarrow> response_call \<Rightarrow> ToolCall" where
  "parse_call codec tc =
     (let sig = thought_signature tc in
      \<lparr>tc_ID = rc_ID tc, tc_Type = [], tc_Function = None,
       tc_Name = (case rc_Function tc of Some (name, _) \<Rightarrow> name | None \<Rightarrow> []),
       tc_Arguments = (case rc_Function tc of Some (_, arguments) \<Rightarrow> decode_arguments codec arguments | None \<Rightarrow> Some []),
       tc_ThoughtSignature = sig, tc_ExtraContent = (if sig \<noteq> [] then Some (Some sig) else None)\<rparr>)"

definition parseResponse :: "json_codec \<Rightarrow> (string \<Rightarrow> GoError + response_choice list) \<Rightarrow> string \<Rightarrow> GoError + LLMResponse" where
  "parseResponse codec decode body =
     (case decode body of
        Inl err \<Rightarrow> Inl (ErrWrap ''failed to unmarshal response: '' err)
      | Inr [] \<Rightarrow> Inr \<lparr>lr_Content = [], lr_ReasoningContent = [], lr_ToolCalls = [], lr_FinishReason = ''stop''\<rparr>
      | Inr (choice # _) \<Rightarrow>
          Inr \<lparr>lr_Content = ch_Content choice, lr_ReasoningContent = ch_ReasoningContent choice,
               lr_ToolCalls = map (parse_call codec) (ch_ToolCalls choice), lr_FinishReason = ch_FinishReason choice\<rparr>)"

text \<open>The transport: an error, or a status and the body, whose reading can fail.\<close>

definition OpenAI_Chat :: "json_codec \<Rightarrow> (string \<Rightarrow> int) \<Rightarrow> (string \<Rightarrow> GoError + response_choice list) \<Rightarrow>
    (string \<Rightarrow> (string \<times> string) list \<Rightarrow> string \<Rightarrow> 'w \<Rightarrow> 'w \<times> (GoError + (int \<times> (GoError + string)))) \<Rightarrow> Provider \<Rightarrow> 'w chat" where
  "OpenAI_Chat codec trunc decode http p messages tools model options w =
     (if pr_apiBase p = [] then (w, Inl (ErrNew ''API base not configured''))
      else let model = normalizeModel model (pr_apiBase p) in
        case jc_marshal codec (request_body trunc p messages tools model options) of
          Inl err \<Rightarrow> (w, Inl (ErrWrap ''failed to marshal request: '' err))
        | Inr jsonData \<Rightarrow>
            (case http (pr_apiBase p @ ''/chat/completions'')
                    ([(''Content-Type'', ''application/json'')] @ (if pr_apiKey p \<noteq> [] then [(''Authorization'', ''Bearer '' @ pr_apiKey p)] else []))
                    jsonData w of
               (w, Inl err) \<Rightarrow> (w, Inl (ErrWrap ''failed to send request: '' err))
             | (w, Inr (status, Inl err)) \<Rightarrow> (w, Inl (ErrWrap ''failed to read response: '' err))
             | (w, Inr (status, Inr body)) \<Rightarrow>
                 if status \<noteq> 200
                 then (w, Inl (ErrNew (''API request failed:'' @ [nl] @ ''  Status: '' @ itoa status @ [nl] @ ''  Body:   '' @ body)))
                 else (w, parseResponse codec decode body)))"

subsection \<open>Tool calls through the agent\<close>

text \<open>What the next request says of a call of the response.\<close>

definition echo_json :: "string \<Rightarrow> string \<Rightarrow> string \<Rightarrow> string \<Rightarrow> json" where
  "echo_json callID name arguments sig =
     JObj ([(''id'', JStr callID), (''type'', JStr ''function''), (''function'', JObj [(''name'', JStr name), (''arguments'', JStr arguments)])] @
       (if sig \<noteq> [] then [(''extra_content'', JObj [(''google'', JObj [(''thought_signature'', JStr sig)])])] else []))"

definition echoes :: "json_codec \<Rightarrow> response_call \<Rightarrow> json \<Rightarrow> bool" where
  "echoes codec rc j \<longleftrightarrow>
     (\<exists>name arguments args text. rc_Function rc = Some (name, arguments) \<and> decode_arguments codec arguments = Some args \<and>
        jc_marshal codec args = Inr text \<and> j = echo_json (rc_ID rc) name text (thought_signature rc))"

lemma parse_call_normalized:
  assumes "rc_Function rc = Some (name, arguments)" "decode_arguments codec arguments = Some args"
  shows "tc_ID (NormalizeToolCall codec (parse_call codec rc)) = rc_ID rc \<and> tc_Name (NormalizeToolCall codec (parse_call codec rc)) = name \<and>
    tc_Arguments (NormalizeToolCall codec (parse_call codec rc)) = Some args \<and>
    (case tc_Function (NormalizeToolCall codec (parse_call codec rc)) of Some f \<Rightarrow> fn_ThoughtSignature f = [] | None \<Rightarrow> True) \<and>
    tc_ExtraContent (NormalizeToolCall codec (parse_call codec rc)) = (if thought_signature rc \<noteq> [] then Some (Some (thought_signature rc)) else None)"
  using assms by (simp add: NormalizeToolCall_def parse_call_def fill_name_def fill_arguments_def fill_function_def Let_def)

lemma agent_call_json:
  assumes "tc_ID tc = callID" "tc_Name tc = name" "case tc_Function tc of Some f \<Rightarrow> fn_ThoughtSignature f = [] | None \<Rightarrow> True"
    "tc_ExtraContent tc = (if sig \<noteq> [] then Some (Some sig) else None)"
  shows "call_json (agent_call tc json) = echo_json callID name json sig"
  using assms by (simp add: call_json_def agent_call_def echo_json_def function_json_def extra_json_def Let_def split: option.splits)


definition sample_wire_codec :: json_codec where
  "sample_wire_codec = \<lparr>jc_marshal = (\<lambda>m. Inr (if m = [] then ''{}'' else ''{x}'')),
     jc_unmarshal = (\<lambda>s. if s = ''{}'' then Some [] else if s = ''{ x }'' then Some [(''x'', JNull)] else None)\<rparr>"

definition sample_response_call :: response_call where
  "sample_response_call = \<lparr>rc_ID = ''c1'', rc_Type = ''function'', rc_Function = Some (''exec'', ''{ x }''), rc_ExtraContent = Some (Some ''sig'')\<rparr>"


text \<open>Fields that are internal to the program do not reach the server: neither the blocks of a system message nor the stored
  reasoning.\<close>

lemma message_json_keys:
  "message_json m = JObj kvs \<Longrightarrow> fst ` set kvs \<subseteq> {''role'', ''content'', ''tool_calls'', ''tool_call_id''}"
  by (auto simp: message_json_def split: if_splits)

lemma reasoning_not_sent:
  "stripSystemParts (map (\<lambda>m. m\<lparr>msg_ReasoningContent := [], msg_SystemParts := []\<rparr>) messages) = stripSystemParts messages"
  by (simp add: stripSystemParts_def)

lemma normalizeModel_keeps_openrouter: "contains (to_lower apiBase) ''openrouter.ai'' \<Longrightarrow> normalizeModel model apiBase = model"
  by (simp add: normalizeModel_def split: option.splits)

lemma normalizeModel_strips:
  assumes "to_lower vendor \<in> set vendor_prefixes" "CHR ''/'' \<notin> set vendor" "\<not> contains (to_lower apiBase) ''openrouter.ai''"
  shows "normalizeModel (vendor @ ''/'' @ model) apiBase = model"
  using assms index_of_sep [OF assms(2)] by (simp add: normalizeModel_def)

end
