(* ===== verification/Archive.thy ===== *)
theory Archive
  imports File_Tools
begin

text \<open>
  Downloads and archives: \<^verbatim>\<open>pkg/utils/download.go\<close> and \<^verbatim>\<open>zip.go\<close>, on the disk of \<open>Files\<close>. The answer of the HTTP
  server and the directory that \<^verbatim>\<open>archive/zip\<close> finds in the bytes of a file are arguments; an entry carries the
  bytes that decompressing it yields and the error after them, if any. The theorem is that an archive, whatever
  its entries are called, changes nothing outside the directory it is extracted to.
\<close>

subsection \<open>Download\<close>

record http_reply =
  hr_Status :: int
  hr_Body :: string
  hr_ReadErr :: "GoError option"

text \<open>
  \<open>tmpPath\<close> is the name that \<^verbatim>\<open>os.CreateTemp\<close> finds. A body that ends with an error has been written as far
  as it came; the limit is in force when it is positive, and the error after a body that exceeds it is not reached.
\<close>

definition limit_reader :: "int \<Rightarrow> string \<Rightarrow> string" where
  "limit_reader maxBytes s = (if maxBytes > 0 \<and> int (length s) > maxBytes then take (nat (maxBytes + 1)) s else s)"

definition within_limit :: "int \<Rightarrow> string \<Rightarrow> bool" where
  "within_limit maxBytes s \<longleftrightarrow> maxBytes \<le> 0 \<or> int (length s) \<le> maxBytes"

definition DownloadToFile :: "fs_env \<Rightarrow> GoError + http_reply \<Rightarrow> string \<Rightarrow> bool \<Rightarrow> int \<Rightarrow> disk \<Rightarrow> disk \<times> (fs_error + string)" where
  "DownloadToFile env reply tmpPath closes maxBytes d =
     (case reply of
        Inl e \<Rightarrow> (d, Inl (WrapError ''request failed: '' (PlainError (error_text e))))
      | Inr resp \<Rightarrow>
          if hr_Status resp < 200 \<or> hr_Status resp \<ge> 300 then
            (d, Inl (PlainError (''HTTP '' @ itoa (hr_Status resp) @ '': '' @ take 512 (hr_Body resp))))
          else
            let pl = host_place env tmpPath; src = limit_reader maxBytes (hr_Body resp) in
              (case sys_write env pl tmpPath src d of
                 (d, Some (False, e)) \<Rightarrow> (d, Inl (WrapError ''failed to create temp file: '' (PathError ''open'' tmpPath e)))
               | (d, Some (True, e)) \<Rightarrow>
                   (sys_remove pl tmpPath d, Inl (WrapError ''download write failed: '' (PathError ''write'' tmpPath e)))
               | (d, None) \<Rightarrow>
                   if hr_ReadErr resp \<noteq> None \<and> within_limit maxBytes (hr_Body resp) then
                     (sys_remove pl tmpPath d, Inl (WrapError ''download write failed: '' (PlainError (error_text (the (hr_ReadErr resp))))))
                   else if \<not> within_limit maxBytes src then
                     (sys_remove pl tmpPath d, Inl (PlainError (''download too large: '' @ itoa (int (length src)) @ '' bytes (max '' @ itoa maxBytes @ '')'')))
                   else if \<not> closes then
                     (sys_remove pl tmpPath d, Inl (WrapError ''failed to close temp file: '' (PathError ''close'' tmpPath EIO)))
                   else (d, Inr tmpPath)))"

subsection \<open>Extraction\<close>

record zip_entry =
  ze_Name :: string
  ze_Symlink :: bool
  ze_Dir :: bool
  ze_Size :: int
  ze_Open :: "GoError option"
  ze_Data :: string
  ze_DataErr :: "GoError option"

definition maxFileSize :: int where "maxFileSize = 5 * 1024 * 1024"

text \<open>
  What the environment decides about one entry: the system calls that fail, and whether the new file can be closed.
  A failing close removes the file but is not reported.
\<close>

record entry_env =
  en_fs :: fs_env
  en_closes :: bool

definition entry_error :: "string \<Rightarrow> zip_entry \<Rightarrow> string \<Rightarrow> string" where
  "entry_error before f after = before @ go_quote (ze_Name f) @ after"

text \<open>\<^verbatim>\<open>io.CopyN\<close> stops after \<open>maxFileSize + 1\<close> bytes, so that it reaches an error of the entry only below the limit.\<close>

definition copied :: "zip_entry \<Rightarrow> string" where
  "copied f = (if int (length (ze_Data f)) \<le> maxFileSize then ze_Data f else take (nat (maxFileSize + 1)) (ze_Data f))"

definition copy_error :: "zip_entry \<Rightarrow> fs_error option" where
  "copy_error f =
     (if int (length (copied f)) \<le> maxFileSize then
        map_option (\<lambda>e. WrapError (entry_error ''failed to extract '' f '': '') (PlainError (error_text e))) (ze_DataErr f)
      else Some (PlainError (entry_error ''zip entry '' f ('' exceeds max size ('' @ itoa (int (length (copied f))) @ '' bytes)''))))"

definition extractSingleFile :: "entry_env \<Rightarrow> zip_entry \<Rightarrow> string \<Rightarrow> disk \<Rightarrow> disk \<times> fs_error option" where
  "extractSingleFile env f destPath d =
     (if ze_Size f > maxFileSize then
        (d, Some (PlainError (entry_error ''zip entry '' f ('' is too large ('' @ itoa (ze_Size f) @ '' bytes)''))))
      else case ze_Open f of
        Some e \<Rightarrow> (d, Some (WrapError (entry_error ''failed to open zip entry '' f '': '') (PlainError (error_text e))))
      | None \<Rightarrow>
          let pl = host_place (en_fs env) destPath; close = (\<lambda>d. if en_closes env then d else sys_remove pl destPath d) in
          (case sys_write (en_fs env) pl destPath (copied f) d of
             (d, Some (False, e)) \<Rightarrow>
               (d, Some (WrapError (''failed to create file '' @ go_quote destPath @ '': '') (PathError ''open'' destPath e)))
           | (d, Some (True, e)) \<Rightarrow>
               (close (sys_remove pl destPath d), Some (WrapError (entry_error ''failed to extract '' f '': '') (PathError ''write'' destPath e)))
           | (d, None) \<Rightarrow>
               (case copy_error f of
                  Some e \<Rightarrow> (close (sys_remove pl destPath d), Some e)
                | None \<Rightarrow> (close d, None))))"

text \<open>The checks on the name of an entry: lexical, then again on the joined path.\<close>

definition dest_path :: "string \<Rightarrow> zip_entry \<Rightarrow> fs_error + string" where
  "dest_path targetDir f =
     (let cleanName = Clean (ze_Name f) in
      if has_prefix ''..'' cleanName \<or> IsAbs cleanName then Inl (PlainError (entry_error ''zip entry has unsafe path: '' f []))
      else
        let destPath = Join [targetDir, cleanName]; targetDirClean = Clean targetDir in
        if \<not> has_prefix (targetDirClean @ [slash]) (Clean destPath) \<and> Clean destPath \<noteq> targetDirClean then
          Inl (PlainError (entry_error ''zip entry escapes target dir: '' f []))
        else if ze_Symlink f then Inl (PlainError (entry_error ''zip contains symlink '' f ''; symlinks are not allowed''))
        else Inr destPath)"

definition mkdir_all :: "fs_env \<Rightarrow> string \<Rightarrow> disk \<Rightarrow> disk \<times> fs_error option" where
  "mkdir_all env path d =
     (case sys_mkdir_all env (host_place env path) path d of (d, e) \<Rightarrow> (d, map_option (PathError ''mkdir'' path) e))"

definition extract_entry :: "entry_env \<Rightarrow> string \<Rightarrow> zip_entry \<Rightarrow> disk \<Rightarrow> disk \<times> fs_error option" where
  "extract_entry env targetDir f d =
     (case dest_path targetDir f of
        Inl e \<Rightarrow> (d, Some e)
      | Inr destPath \<Rightarrow>
          if ze_Dir f then mkdir_all (en_fs env) destPath d
          else case mkdir_all (en_fs env) (Dir destPath) d of
            (d, Some e) \<Rightarrow> (d, Some e)
          | (d, None) \<Rightarrow> extractSingleFile env f destPath d)"

fun extract_entries :: "(nat \<Rightarrow> entry_env) \<Rightarrow> nat \<Rightarrow> string \<Rightarrow> zip_entry list \<Rightarrow> disk \<Rightarrow> disk \<times> fs_error option" where
  "extract_entries env i targetDir [] d = (d, None)"
| "extract_entries env i targetDir (f # fs) d =
     (case extract_entry (env i) targetDir f d of
        (d, Some e) \<Rightarrow> (d, Some e)
      | (d, None) \<Rightarrow> extract_entries env (Suc i) targetDir fs d)"

definition ExtractZipFile :: "(string \<Rightarrow> GoError + zip_entry list) \<Rightarrow> fs_env \<Rightarrow> (nat \<Rightarrow> entry_env) \<Rightarrow> string \<Rightarrow> string \<Rightarrow> disk \<Rightarrow>
    disk \<times> fs_error option" where
  "ExtractZipFile unzip env envs zipPath targetDir d =
     (case sys_read env (host_place env zipPath) zipPath d of
        Inl (reading, e) \<Rightarrow> (d, Some (WrapError ''invalid ZIP: '' (PathError (if reading then ''read'' else ''open'') zipPath e)))
      | Inr content \<Rightarrow>
          (case unzip content of
             Inl e \<Rightarrow> (d, Some (WrapError ''invalid ZIP: '' (PlainError (error_text e))))
           | Inr entries \<Rightarrow>
               (case mkdir_all env targetDir d of
                  (d, Some e) \<Rightarrow> (d, Some (WrapError ''failed to create target dir: '' e))
                | (d, None) \<Rightarrow> extract_entries envs 0 targetDir entries d)))"

subsection \<open>Where an entry goes\<close>

lemma resolve_append: "resolve rooted acc (as @ bs) = resolve rooted (rev (resolve rooted acc as)) bs"
  by (induction rooted acc as rule: resolve.induct) (auto split: list.splits)

lemma clean_comps_below:
  assumes "IsAbs w" "''..'' \<notin> set cs" "comps s = cs"
  shows "IsAbs (w @ slash # s)" "clean_comps (w @ slash # s) = clean_comps w @ cs"
proof -
  show a: "IsAbs (w @ slash # s)" using assms(1) by (cases w) (auto simp: IsAbs_def)
  show "clean_comps (w @ slash # s) = clean_comps w @ cs"
    using assms a by (simp add: clean_comps_def comps_join2 resolve_append resolve_no_dots)
qed

lemma normal_no_dots: "normal False cs \<Longrightarrow> cs = [] \<or> hd cs \<noteq> ''..'' \<Longrightarrow> ''..'' \<notin> set cs"
proof -
  assume n: "normal False cs" and h: "cs = [] \<or> hd cs \<noteq> ''..''"
  from n obtain k where k: "''..'' \<notin> set (drop k cs)" "take k cs = replicate k ''..''" by (auto simp: normal_def)
  have "k = 0 \<or> cs = []" using h k(2) by (cases k; cases cs) auto
  then show ?thesis using k(1) by auto
qed

lemma Join_below:
  assumes "IsAbs w" "clean_comps s = cs" "\<not> IsAbs s" "''..'' \<notin> set cs"
  shows "Join [w, Clean s] = path_of True (clean_comps w @ cs)"
proof -
  have "w \<noteq> []" using assms(1) by (auto simp: IsAbs_def)
  moreover have "comps (Clean s) = cs" using assms(2) by simp
  ultimately show ?thesis
    using clean_comps_below [OF assms(1,4)] by (simp add: Join_def Clean_def [of "w @ slash # Clean s"])
qed

lemma path_below:
  assumes "IsAbs w" "list_all proper cs" "''..'' \<notin> set cs"
  shows "IsAbs (path_of True (clean_comps w @ cs))" "comps (path_of True (clean_comps w @ cs)) = clean_comps w @ cs"
    "''..'' \<notin> set (clean_comps w @ cs)"
  using assms abs_comps [OF assms(1)] by (simp_all add: path_of_abs path_of_comps)

lemma has_prefix_is_prefix: "has_prefix p s \<longleftrightarrow> prefix p s"
  by (metis has_prefix_def append_eq_conv_conj prefix_def)

lemma dest_path_below:
  assumes "IsAbs targetDir" "dest_path targetDir f = Inr p"
  defines "cs \<equiv> clean_comps (ze_Name f)"
  shows "p = path_of True (clean_comps targetDir @ cs) \<and> list_all proper cs \<and> ''..'' \<notin> set cs"
proof -
  have c: "\<not> has_prefix ''..'' (Clean (ze_Name f))" "\<not> IsAbs (ze_Name f)" "p = Join [targetDir, Clean (ze_Name f)]"
    using assms(2) by (auto simp: dest_path_def Let_def split: if_splits)
  have n: "normal False cs" using clean_comps_normal [of "ze_Name f"] c(2) by (simp add: cs_def)
  have "Clean (ze_Name f) = path_of False cs" using c(2) by (simp add: Clean_def cs_def)
  then have "\<not> has_prefix ''..'' (path_of False cs)" using c(1) by simp
  then have "\<not> (path_of False cs = ''..'' \<or> has_prefix ''../'' (path_of False cs))"
    using prefix_order.trans [of "''..''" "''../''" "path_of False cs"] by (auto simp: has_prefix_is_prefix)
  then have "cs = [] \<or> hd cs \<noteq> ''..''" using starts_with_dotdot [OF normal_proper [OF n]] by blast
  then have "''..'' \<notin> set cs" by (rule normal_no_dots [OF n])
  then show ?thesis using Join_below [OF assms(1)] c(2,3) normal_proper [OF n] by (simp add: cs_def)
qed

subsection \<open>Confinement\<close>

text \<open>
  \<open>clear tgt d\<close>: there is no symbolic link on the way to \<open>tgt\<close> nor below it. \<open>inside tgt d d'\<close>: \<open>d'\<close> differs from \<open>d\<close> only
  at and below \<open>tgt\<close>, where no link appears, and in directories on the way to \<open>tgt\<close> that were missing.
\<close>

definition clear :: "string list \<Rightarrow> disk \<Rightarrow> bool" where
  "clear tgt d \<longleftrightarrow> straight d [] tgt \<and> no_links tgt d"

definition inside :: "string list \<Rightarrow> disk \<Rightarrow> disk \<Rightarrow> bool" where
  "inside tgt d d' \<longleftrightarrow> (\<forall>q. node_at d' q = node_at d q \<or>
     prefix tgt q \<and> (\<forall>t. node_at d' q \<noteq> Some (LinkNode t)) \<or>
     prefix q tgt \<and> node_at d q = None \<and> node_at d' q = Some DirNode)"

lemma inside_refl [simp]: "inside tgt d d"
  by (simp add: inside_def)

lemma inside_trans:
  assumes "inside tgt d d1" "inside tgt d1 d2"
  shows "inside tgt d d2"
  unfolding inside_def
proof
  fix q
  show "node_at d2 q = node_at d q \<or> prefix tgt q \<and> (\<forall>t. node_at d2 q \<noteq> Some (LinkNode t)) \<or>
    prefix q tgt \<and> node_at d q = None \<and> node_at d2 q = Some DirNode"
    using assms(1) [unfolded inside_def, rule_format, of q] assms(2) [unfolded inside_def, rule_format, of q]
    by (elim disjE conjE) simp_all
qed

lemma clear_inside: "clear tgt d \<Longrightarrow> inside tgt d d' \<Longrightarrow> clear tgt d'"
  unfolding clear_def inside_def straight_def no_links_def by (metis append_Nil node.distinct(5) option.inject)

lemma clear_straight: "clear tgt d \<Longrightarrow> prefix cs tgt \<or> prefix tgt cs \<Longrightarrow> straight d [] cs"
  unfolding clear_def straight_def no_links_def by (metis append_Nil prefix_order.trans prefix_same_cases)

lemma aside_inside: "aside (tgt @ cs) d d' \<Longrightarrow> clear tgt d \<Longrightarrow> inside tgt d d'"
  unfolding aside_def inside_def clear_def no_links_def by (metis prefix_def)

lemma host_place_abs: "IsAbs p \<Longrightarrow> pl_base (host_place env p) = [] \<and> pl_start (host_place env p) = []"
  by (simp add: host_place_def)

lemma mkdir_all_inside:
  assumes "clear tgt d" "IsAbs p" "comps p = cs" "prefix cs tgt \<or> prefix tgt cs" "''..'' \<notin> set cs" "mkdir_all env p d = (d', e)"
  shows "inside tgt d d' \<and> fills d d' \<and> (e = None \<longrightarrow> dirs [] (cs @ [x]) d')"
proof (cases "fe_mkdir env")
  case None
  then obtain e' where w: "mkdir_walk False d [] 40 [] cs = (d', e')" "e = None \<longleftrightarrow> e' = None"
    using assms(2,3,6) by (auto simp: mkdir_all_def sys_mkdir_all_def host_place_def split: prod.splits)
  note s = mkdir_walk_straight [of d "[]" "[]" cs, OF _ assms(5) w(1), where x = x]
  have "straight d ([] @ []) cs" using clear_straight [OF assms(1,4)] by simp
  note s = s [OF this]
  have "inside tgt d d'"
    unfolding inside_def
  proof
    fix q
    have "prefix q tgt \<or> prefix tgt q" if "prefix q cs"
      using that assms(4) by (metis prefix_order.trans prefix_same_cases)
    then show "node_at d' q = node_at d q \<or> prefix tgt q \<and> (\<forall>t. node_at d' q \<noteq> Some (LinkNode t)) \<or>
        prefix q tgt \<and> node_at d q = None \<and> node_at d' q = Some DirNode"
      using s unfolding fills_def by (cases "node_at d' q = node_at d q") auto
  qed
  then show ?thesis using s w(2) by simp
next
  case (Some en)
  then show ?thesis using assms(6) by (auto simp: mkdir_all_def sys_mkdir_all_def)
qed

text \<open>The new file is named by the last component of its path; a destination that is the target itself has none below it.\<close>

lemma single_file_inside:
  assumes "clear tgt d" "IsAbs p" "comps p = tgt @ cs" "''..'' \<notin> set (tgt @ cs)" "tgt @ cs \<noteq> []" "extractSingleFile env f p d = (d', e)"
  shows "inside tgt d d' \<and> aside (tgt @ cs) d d' \<and>
    (e = None \<and> en_closes env \<longrightarrow> node_at d' (tgt @ cs) = Some (FileNode (ze_Data f)))"
proof -
  obtain ds t where dt: "tgt @ cs = ds @ [t]" using assms(5) by (metis rev_exhaust)
  let ?pl = "host_place (en_fs env) p"
  note pl = host_place_abs [OF assms(2), of "en_fs env"]
  have st: "straight d1 (pl_base ?pl) (comps p)" if "inside tgt d d1" for d1
    using clear_straight [OF clear_inside [OF assms(1) that], of "tgt @ cs"] assms(3) pl by simp
  have rm: "aside (tgt @ cs) d1 (sys_remove ?pl p d1)" if "inside tgt d d1" for d1
    using sys_remove_straight [OF st [OF that], of ds t] pl assms(3,4) dt by simp
  have ins: "inside tgt d d1 \<Longrightarrow> aside (tgt @ cs) d1 d2 \<Longrightarrow> inside tgt d d2" for d1 d2
    by (rule inside_trans [OF _ aside_inside]) (auto intro: clear_inside [OF assms(1)])
  have drop: "inside tgt d (sys_remove ?pl p d1) \<and> aside (tgt @ cs) d (sys_remove ?pl p d1)"
    if "inside tgt d d1" "aside (tgt @ cs) d d1" for d1
    using ins [OF that(1) rm [OF that(1)]] aside_trans [OF that(2) rm [OF that(1)]] by simp
  obtain d1 w where w: "sys_write (en_fs env) ?pl p (copied f) d = (d1, w)" by force
  have "aside (tgt @ cs) d d1 \<and> (w = None \<longrightarrow> node_at d1 (tgt @ cs) = Some (FileNode (copied f)))"
    using sys_write_straight [OF st [OF inside_refl] _ _ _ w, of ds t] pl assms(3,4) dt by simp
  then have a: "aside (tgt @ cs) d d1" "w = None \<Longrightarrow> node_at d1 (tgt @ cs) = Some (FileNode (copied f))" by auto
  have i: "inside tgt d d1" by (rule aside_inside [OF a(1) assms(1)])
  note d = drop [OF i a(1)]
  have data: "copied f = ze_Data f" if "copy_error f = None"
    using that by (auto simp: copy_error_def copied_def maxFileSize_def split: if_splits)
  show ?thesis
    using assms(6) w i a d drop [OF d [THEN conjunct1] d [THEN conjunct2]] data
    by (auto simp: extractSingleFile_def Let_def split: if_splits option.splits prod.splits bool.splits)
qed

text \<open>\<open>kept P d d'\<close>: what \<open>d\<close> has outside \<open>P\<close> is still there.\<close>

definition kept :: "string list set \<Rightarrow> disk \<Rightarrow> disk \<Rightarrow> bool" where
  "kept P d d' \<longleftrightarrow> (\<forall>q n. q \<notin> P \<longrightarrow> node_at d q = Some n \<longrightarrow> node_at d' q = Some n)"

lemma kept_trans: "kept P d d1 \<Longrightarrow> kept Q d1 d2 \<Longrightarrow> kept (P \<union> Q) d d2"
  by (simp add: kept_def)

lemma kept_mono: "kept P d d1 \<Longrightarrow> P \<subseteq> Q \<Longrightarrow> kept Q d d1"
  by (auto simp: kept_def)

lemma fills_keep: "fills d d' \<Longrightarrow> kept {} d d'"
  by (simp add: kept_def fills_kept)

lemma aside_keep: "aside p d d' \<Longrightarrow> kept {p} d d'"
  by (simp add: kept_def aside_def)

text \<open>The file that an entry writes, if any.\<close>

definition file_paths :: "string list \<Rightarrow> zip_entry \<Rightarrow> string list set" where
  "file_paths tgt f = (if ze_Dir f then {} else {tgt @ clean_comps (ze_Name f)})"

lemma extract_entry_inside:
  assumes "IsAbs targetDir" "tgt = clean_comps targetDir" "clear tgt d" "tgt \<noteq> []" "extract_entry env targetDir f d = (d', e)"
  shows "inside tgt d d' \<and> kept (file_paths tgt f) d d' \<and>
    (e = None \<and> en_closes env \<and> \<not> ze_Dir f \<longrightarrow> node_at d' (tgt @ clean_comps (ze_Name f)) = Some (FileNode (ze_Data f)))"
proof (cases "dest_path targetDir f")
  case (Inr p)
  define cs where "cs = clean_comps (ze_Name f)"
  have p: "p = path_of True (tgt @ cs)" "list_all proper cs" "''..'' \<notin> set cs"
    using dest_path_below [OF assms(1) Inr] by (simp_all add: assms(2) cs_def)
  note b = path_below [OF assms(1) p(2,3), folded assms(2)]
  show ?thesis
  proof (cases "ze_Dir f")
    case True
    then have "mkdir_all (en_fs env) p d = (d', e)" using assms(5) Inr by (simp add: extract_entry_def)
    from mkdir_all_inside [OF assms(3) _ _ _ _ this] b p(1) show ?thesis
      using True fills_keep by (simp add: file_paths_def)
  next
    case False
    obtain d1 e1 where m: "mkdir_all (en_fs env) (Dir p) d = (d1, e1)" by force
    obtain ds t where dt: "tgt @ cs = ds @ [t]" using assms(4) by (metis append_is_Nil_conv rev_exhaust)
    have pr: "list_all proper (ds @ [t])" using p(2) abs_comps [OF assms(1)] dt assms(2) by (metis list_all_append)
    have dir: "Dir p = path_of True ds" using Dir_path_of [OF pr] b(3) p(1) dt by simp
    have ds: "IsAbs (Dir p)" "comps (Dir p) = ds" "''..'' \<notin> set ds"
      using dir pr b(3) dt by (simp_all add: path_of_abs path_of_comps)
    have "prefix ds (tgt @ cs)" using dt by simp
    then have "prefix ds tgt \<or> prefix tgt ds" using prefix_same_cases [of tgt "tgt @ cs" ds] by auto
    then have i: "inside tgt d d1" "kept {} d d1"
      using mkdir_all_inside [OF assms(3) ds(1,2) _ ds(3) m] fills_keep by auto
    have fp: "file_paths tgt f = {tgt @ cs}" using False by (simp add: file_paths_def cs_def)
    show ?thesis
    proof (cases e1)
      case None
      then have x: "extractSingleFile env f p d1 = (d', e)" using assms(5) Inr False m by (simp add: extract_entry_def)
      have "clear tgt d1" by (rule clear_inside [OF assms(3) i(1)])
      from single_file_inside [OF this _ _ b(3) _ x] b p(1) dt
      have s: "inside tgt d1 d'" "aside (tgt @ cs) d1 d'"
        "e = None \<and> en_closes env \<longrightarrow> node_at d' (tgt @ cs) = Some (FileNode (ze_Data f))" by simp_all
      have "kept {tgt @ cs} d d'" using kept_trans [OF i(2) aside_keep [OF s(2)]] by simp
      then show ?thesis using inside_trans [OF i(1) s(1)] s(3) fp by (simp add: cs_def)
    next
      case (Some en)
      then show ?thesis
        using assms(5) Inr False m i kept_mono [OF i(2), of "file_paths tgt f"] by (auto simp: extract_entry_def)
    qed
  qed
qed (use assms(5) in \<open>auto simp: extract_entry_def kept_def\<close>)

definition entry_paths :: "zip_entry list \<Rightarrow> string list list" where
  "entry_paths fs = map (\<lambda>f. clean_comps (ze_Name f)) (filter (\<lambda>f. \<not> ze_Dir f) fs)"

lemma extract_entries_inside:
  assumes "IsAbs targetDir" "tgt = clean_comps targetDir" "clear tgt d" "tgt \<noteq> []" "extract_entries env i targetDir fs d = (d', e)"
  shows "inside tgt d d' \<and> kept ((@) tgt ` set (entry_paths fs)) d d'"
  using assms(3,5)
proof (induction fs arbitrary: d i)
  case (Cons f fs)
  obtain d1 e1 where x: "extract_entry (env i) targetDir f d = (d1, e1)" by force
  note one = extract_entry_inside [OF assms(1,2) Cons.prems(1) assms(4) x]
  have sub: "file_paths tgt f \<subseteq> (@) tgt ` set (entry_paths (f # fs))" by (auto simp: file_paths_def entry_paths_def)
  show ?case
  proof (cases e1)
    case None
    have "clear tgt d1" using clear_inside [OF Cons.prems(1)] one by blast
    moreover have "extract_entries env (Suc i) targetDir fs d1 = (d', e)" using Cons.prems(2) x None by simp
    ultimately have ih: "inside tgt d1 d'" "kept ((@) tgt ` set (entry_paths fs)) d1 d'" using Cons.IH by blast+
    have "kept (file_paths tgt f \<union> (@) tgt ` set (entry_paths fs)) d d'" using one ih(2) kept_trans by blast
    then have "kept ((@) tgt ` set (entry_paths (f # fs))) d d'"
      by (rule kept_mono) (use sub in \<open>auto simp: entry_paths_def\<close>)
    then show ?thesis using one ih(1) inside_trans by blast
  next
    case (Some en)
    then show ?thesis using Cons.prems(2) x one kept_mono [OF _ sub] by simp
  qed
qed (simp add: kept_def)

lemma extract_entries_content:
  assumes "IsAbs targetDir" "tgt = clean_comps targetDir" "clear tgt d" "tgt \<noteq> []"
    and "extract_entries env i targetDir fs d = (d', None)" "\<And>k. en_closes (env k)" "distinct (entry_paths fs)"
    and "f \<in> set fs" "\<not> ze_Dir f"
  shows "node_at d' (tgt @ clean_comps (ze_Name f)) = Some (FileNode (ze_Data f))"
  using assms(3,5,7,8)
proof (induction fs arbitrary: d i)
  case (Cons g fs)
  obtain d1 where x: "extract_entry (env i) targetDir g d = (d1, None)" "extract_entries env (Suc i) targetDir fs d1 = (d', None)"
    using Cons.prems(2) by (auto split: prod.splits option.splits)
  note one = extract_entry_inside [OF assms(1,2) Cons.prems(1) assms(4) x(1)]
  have c1: "clear tgt d1" using clear_inside [OF Cons.prems(1)] one by blast
  show ?case
  proof (cases "f = g")
    case True
    then have "node_at d1 (tgt @ clean_comps (ze_Name f)) = Some (FileNode (ze_Data f))" using one assms(6,9) by simp
    moreover have "clean_comps (ze_Name f) \<notin> set (entry_paths fs)"
      using Cons.prems(3) True assms(9) by (simp add: entry_paths_def)
    ultimately show ?thesis
      using extract_entries_inside [OF assms(1,2) c1 assms(4) x(2)] unfolding kept_def by auto
  next
    case False
    then show ?thesis
      using Cons.IH [OF c1 x(2)] Cons.prems(3,4) by (auto simp: entry_paths_def split: if_splits)
  qed
qed simp

text \<open>
  An archive is extracted inside its target directory. When there are no symbolic links on the way to the target
  and below it, then whatever the entries of the archive are called and whichever calls fail, no file outside the target
  changes, missing directories on the way to it at most are created, and no symbolic link appears. When the
  extraction succeeds, no close failed and the entries have different paths, then each of them is there with its contents.
\<close>

theorem archive_confined:
  assumes "IsAbs targetDir" "Clean targetDir = targetDir" "tgt = clean_comps targetDir" "tgt \<noteq> []" "clear tgt d"
    and "ExtractZipFile unzip env envs zipPath targetDir d = (d', e)"
  shows "inside tgt d d' \<and> clear tgt d' \<and>
    (e = None \<longrightarrow> (\<exists>content entries. sys_read env (host_place env zipPath) zipPath d = Inr content \<and> unzip content = Inr entries \<and>
       ((\<forall>k. en_closes (envs k)) \<and> distinct (entry_paths entries) \<longrightarrow>
          (\<forall>f\<in>set entries. \<not> ze_Dir f \<longrightarrow> node_at d' (tgt @ clean_comps (ze_Name f)) = Some (FileNode (ze_Data f))))))"
proof -
  have main: "inside tgt d d' \<and>
    (e = None \<longrightarrow> (\<exists>content entries. sys_read env (host_place env zipPath) zipPath d = Inr content \<and> unzip content = Inr entries \<and>
       ((\<forall>k. en_closes (envs k)) \<and> distinct (entry_paths entries) \<longrightarrow>
          (\<forall>f\<in>set entries. \<not> ze_Dir f \<longrightarrow> node_at d' (tgt @ clean_comps (ze_Name f)) = Some (FileNode (ze_Data f))))))"
  proof (cases "\<exists>content entries. sys_read env (host_place env zipPath) zipPath d = Inr content \<and> unzip content = Inr entries")
    case False
    then have "d' = d \<and> e \<noteq> None" using assms(6) by (auto simp: ExtractZipFile_def split: sum.splits prod.splits)
    then show ?thesis by auto
  next
    case True
    then obtain content entries where r: "sys_read env (host_place env zipPath) zipPath d = Inr content" "unzip content = Inr entries"
      by blast
    obtain d1 e1 where m: "mkdir_all env targetDir d = (d1, e1)" by force
    have t: "comps targetDir = tgt" "''..'' \<notin> set tgt"
      using comps_Clean [of targetDir] abs_comps [OF assms(1)] assms(2,3) by simp_all
    have i: "inside tgt d d1" using mkdir_all_inside [OF assms(5,1) t(1) _ t(2) m] by simp
    note c1 = clear_inside [OF assms(5) i]
    show ?thesis
    proof (cases e1)
      case None
      then have x: "extract_entries envs 0 targetDir entries d1 = (d', e)"
        using assms(6) r m by (simp add: ExtractZipFile_def)
      have "inside tgt d d'"
        using inside_trans [OF i] extract_entries_inside [OF assms(1,3) c1 assms(4) x] by blast
      moreover have "node_at d' (tgt @ clean_comps (ze_Name f)) = Some (FileNode (ze_Data f))"
        if "e = None" "\<forall>k. en_closes (envs k)" "distinct (entry_paths entries)" "f \<in> set entries" "\<not> ze_Dir f" for f
        using extract_entries_content [OF assms(1,3) c1 assms(4) x [unfolded that(1)] _ that(3-5)] that(2) by simp
      ultimately show ?thesis using r by auto
    next
      case (Some en)
      then have "d' = d1 \<and> e \<noteq> None" using assms(6) r m by (auto simp: ExtractZipFile_def)
      then show ?thesis using i by auto
    qed
  qed
  then show ?thesis using clear_inside [OF assms(5)] by blast
qed

definition sample_entry :: "string \<Rightarrow> string \<Rightarrow> zip_entry" where
  "sample_entry name data = \<lparr>ze_Name = name, ze_Symlink = False, ze_Dir = False, ze_Size = int (length data), ze_Open = None,
     ze_Data = data, ze_DataErr = None\<rparr>"

definition sample_zip_disk :: disk where
  "sample_zip_disk = [([''tmp''], DirNode), ([''tmp'', ''z''], FileNode ''PK''), ([''w''], DirNode), ([''w'', ''keep''], FileNode ''old'')]"

definition sample_extract :: "zip_entry list \<Rightarrow> disk \<times> fs_error option" where
  "sample_extract entries = ExtractZipFile (\<lambda>_. Inr entries) sample_fs_env (\<lambda>_. \<lparr>en_fs = sample_fs_env, en_closes = True\<rparr>)
     ''/tmp/z'' ''/w/s'' sample_zip_disk"

lemma clearI:
  assumes "list_all (\<lambda>(q, n). (\<forall>t. n \<noteq> LinkNode t) \<or> \<not> prefix q tgt \<and> \<not> prefix tgt q) d"
  shows "clear tgt d"
proof -
  have "node_at d q \<noteq> Some (LinkNode t)" if "prefix q tgt \<or> prefix tgt q" for q t
    using assms that by (auto simp: node_at_def list_all_iff dest!: map_of_SomeD)
  then show ?thesis by (simp add: clear_def straight_def no_links_def)
qed

theorem archive_confined_witness:
  "case sample_extract [sample_entry ''SKILL.md'' ''hi'', sample_entry ''docs/./a'' ''x''] of (d', e) \<Rightarrow>
     e = None \<and> node_at d' [''w'', ''s'', ''SKILL.md''] = Some (FileNode ''hi'') \<and> node_at d' [''w'', ''s'', ''docs'', ''a''] = Some (FileNode ''x'') \<and>
     node_at d' [''w'', ''keep''] = Some (FileNode ''old'')"
proof -
  let ?es = "[sample_entry ''SKILL.md'' ''hi'', sample_entry ''docs/./a'' ''x'']"
  obtain d' e where r: "sample_extract ?es = (d', e)" by force
  have "snd (sample_extract ?es) = None" by code_simp
  then have e: "e = None" using r by simp
  have c: "clean_comps ''/w/s'' = [''w'', ''s'']" "IsAbs ''/w/s''" "Clean ''/w/s'' = ''/w/s''"
    "clean_comps ''SKILL.md'' = [''SKILL.md'']" "clean_comps ''docs/./a'' = [''docs'', ''a'']" by code_simp+
  have "clear [''w'', ''s''] sample_zip_disk" by (rule clearI) (simp add: sample_zip_disk_def)
  note t = archive_confined [OF c(2,3) c(1) [symmetric] _ this r [unfolded sample_extract_def]]
  have es: "set ?es = {sample_entry ''SKILL.md'' ''hi'', sample_entry ''docs/./a'' ''x''}" "distinct (entry_paths ?es)"
    by (simp_all add: entry_paths_def sample_entry_def c(4,5))
  have i: "inside [''w'', ''s''] sample_zip_disk d'" using t by simp
  have "node_at sample_zip_disk [''w'', ''keep''] = Some (FileNode ''old'')" by (simp add: sample_zip_disk_def node_at_def)
  then have "node_at d' [''w'', ''keep''] = Some (FileNode ''old'')"
    using i [unfolded inside_def, rule_format, of "[''w'', ''keep'']"] by simp
  moreover have "node_at d' ([''w'', ''s''] @ clean_comps (ze_Name f)) = Some (FileNode (ze_Data f))" if "f \<in> set ?es" for f
    using t e es that by (auto simp: sample_entry_def)
  from this [of "sample_entry ''SKILL.md'' ''hi''"] this [of "sample_entry ''docs/./a'' ''x''"]
  have "node_at d' [''w'', ''s'', ''SKILL.md''] = Some (FileNode ''hi'')" "node_at d' [''w'', ''s'', ''docs'', ''a''] = Some (FileNode ''x'')"
    by (simp_all add: sample_entry_def c(4,5))
  ultimately show ?thesis using r e by simp
qed

text \<open>
  An entry that climbs out of the target, and one that starts with two dots without doing so, are refused; a file that could not be
  closed is removed although the extraction reports success.
\<close>

lemma extraction_examples:
  "snd (sample_extract [sample_entry ''docs/../../keep'' ''evil'']) \<noteq> None"
  "snd (sample_extract [sample_entry ''..data'' ''x'']) \<noteq> None"
  by code_simp+

lemma close_failure_unreported:
  "case extractSingleFile \<lparr>en_fs = sample_fs_env, en_closes = False\<rparr> (sample_entry ''a'' ''x'') ''/w/a'' sample_zip_disk of
     (d', e) \<Rightarrow> e = None \<and> node_at d' [''w'', ''a''] = None"
  by code_simp

end
