(* ===== verification/Skill_Install.thy ===== *)
theory Skill_Install
  imports Skills Archive Auth
begin

text \<open>
  The installation of skills: \<^verbatim>\<open>pkg/skills/clawhub_registry.go\<close>, the registry list of \<^verbatim>\<open>registry.go\<close>, \<^verbatim>\<open>installer.go\<close> and the tool
  \<^verbatim>\<open>pkg/tools/skills_install.go\<close>, on the disk of \<open>Files\<close>. The HTTP exchange, the decoding of JSON, the splitting of a URL by
  \<^verbatim>\<open>net/url\<close> and the contents of an archive are arguments. What the tool relies on in a registry is the locale
  \<open>skill_registry\<close>; the client of ClawHub is an instance of it.
\<close>

subsection \<open>The client of ClawHub\<close>

record ClawHubConfig =
  cc_Enabled :: bool
  cc_BaseURL :: string
  cc_AuthToken :: string
  cc_SearchPath :: string
  cc_SkillsPath :: string
  cc_DownloadPath :: string
  cc_MaxZipSize :: int
  cc_MaxResponseSize :: int

record ClawHubRegistry =
  ch_baseURL :: string
  ch_authToken :: string
  ch_searchPath :: string
  ch_skillsPath :: string
  ch_downloadPath :: string
  ch_maxZipSize :: int
  ch_maxResponseSize :: int

definition text_or :: "string \<Rightarrow> string \<Rightarrow> string" where "text_or s def = (if s = [] then def else s)"

definition size_or :: "int \<Rightarrow> int \<Rightarrow> int" where "size_or n def = (if n > 0 then n else def)"

definition NewClawHubRegistry :: "ClawHubConfig \<Rightarrow> ClawHubRegistry" where
  "NewClawHubRegistry cfg = \<lparr>
     ch_baseURL = text_or (cc_BaseURL cfg) ''https://clawhub.ai'',
     ch_authToken = cc_AuthToken cfg,
     ch_searchPath = text_or (cc_SearchPath cfg) ''/api/v1/search'',
     ch_skillsPath = text_or (cc_SkillsPath cfg) ''/api/v1/skills'',
     ch_downloadPath = text_or (cc_DownloadPath cfg) ''/api/v1/download'',
     ch_maxZipSize = size_or (cc_MaxZipSize cfg) (50 * 1024 * 1024),
     ch_maxResponseSize = size_or (cc_MaxResponseSize cfg) (2 * 1024 * 1024)\<rparr>"

type_synonym http = "string \<Rightarrow> (string \<times> string) list \<Rightarrow> GoError + http_reply"

type_synonym url_parser = "string \<Rightarrow> GoError + (string \<times> (string \<times> string) list)"

definition auth_header :: "ClawHubRegistry \<Rightarrow> (string \<times> string) list" where
  "auth_header c = (if ch_authToken c \<noteq> [] then [(''Authorization'', ''Bearer '' @ ch_authToken c)] else [])"

text \<open>A body longer than the limit is cut, not refused; an error behind the limit is not reached.\<close>

definition doGet :: "http \<Rightarrow> ClawHubRegistry \<Rightarrow> string \<Rightarrow> GoError + string" where
  "doGet http c url =
     (case http url ((''Accept'', ''application/json'') # auth_header c) of
        Inl e \<Rightarrow> Inl e
      | Inr resp \<Rightarrow>
          let cut = int (length (hr_Body resp)) \<ge> ch_maxResponseSize c;
              body = (if cut then take (nat (ch_maxResponseSize c)) (hr_Body resp) else hr_Body resp)
          in case (if cut then None else hr_ReadErr resp) of
               Some e \<Rightarrow> Inl (ErrWrap ''failed to read response: '' e)
             | None \<Rightarrow>
                 if hr_Status resp < 200 \<or> hr_Status resp \<ge> 300 then Inl (ErrNew (''HTTP '' @ itoa (hr_Status resp) @ '': '' @ body))
                 else Inr body)"

definition set_param :: "string \<Rightarrow> string \<Rightarrow> (string \<times> string) list \<Rightarrow> (string \<times> string) list" where
  "set_param k v ps = filter (\<lambda>p. fst p \<noteq> k) ps @ [(k, v)]"

definition with_query :: "string \<Rightarrow> (string \<times> string) list \<Rightarrow> string" where
  "with_query base ps = base @ ''?'' @ encode_params ps"

record 'f clawhubSearchResult =
  sr_Score :: 'f
  sr_Slug :: "string option"
  sr_DisplayName :: "string option"
  sr_Summary :: "string option"
  sr_Version :: "string option"

definition hub_result :: "'f clawhubSearchResult \<Rightarrow> 'f SearchResult list" where
  "hub_result r =
     (let slug = DerefStr (sr_Slug r) []; summary = DerefStr (sr_Summary r) []; displayName = DerefStr (sr_DisplayName r) [] in
      if slug = [] \<or> summary = [] then []
      else [\<lparr>res_Score = sr_Score r, res_Slug = slug, res_DisplayName = text_or displayName slug, res_Summary = summary,
             res_Version = DerefStr (sr_Version r) [], res_RegistryName = ''clawhub''\<rparr>])"

definition ClawHub_Search :: "http \<Rightarrow> url_parser \<Rightarrow> (string \<Rightarrow> GoError + 'f clawhubSearchResult list) \<Rightarrow> ClawHubRegistry \<Rightarrow>
    string \<Rightarrow> int \<Rightarrow> GoError + 'f SearchResult list" where
  "ClawHub_Search http parse_url decode c query limit =
     (case parse_url (ch_baseURL c @ ch_searchPath c) of
        Inl e \<Rightarrow> Inl (ErrWrap ''invalid base URL: '' e)
      | Inr (base, q) \<Rightarrow>
          let q = set_param ''q'' query q; q = (if limit > 0 then set_param ''limit'' (itoa limit) q else q) in
          (case doGet http c (with_query base q) of
             Inl e \<Rightarrow> Inl (ErrWrap ''search request failed: '' e)
           | Inr body \<Rightarrow>
               (case decode body of
                  Inl e \<Rightarrow> Inl (ErrWrap ''failed to parse search response: '' e)
                | Inr results \<Rightarrow> Inr (concat (map hub_result results)))))"

record clawhubSkillResponse =
  ks_Slug :: string
  ks_DisplayName :: string
  ks_Summary :: string
  ks_LatestVersion :: "string option"
  ks_Moderation :: "(bool \<times> bool) option"

record SkillMeta =
  me_Slug :: string
  me_DisplayName :: string
  me_Summary :: string
  me_LatestVersion :: string
  me_IsMalwareBlocked :: bool
  me_IsSuspicious :: bool
  me_RegistryName :: string

definition path_escape_char :: "char \<Rightarrow> string" where
  "path_escape_char c =
     (if unreserved c \<or> c \<in> set ''$&+:=@'' then [c]
      else let n = (of_char c :: nat) in CHR ''%'' # [hex_upper (n div 16), hex_upper (n mod 16)])"

definition invalid_slug :: "string \<Rightarrow> string \<Rightarrow> GoError \<Rightarrow> string" where
  "invalid_slug what s e = ''invalid '' @ what @ '' '' @ go_quote s @ '': error: '' @ error_text e"

definition GetSkillMeta :: "http \<Rightarrow> (string \<Rightarrow> GoError + clawhubSkillResponse) \<Rightarrow> ClawHubRegistry \<Rightarrow> string \<Rightarrow> GoError + SkillMeta" where
  "GetSkillMeta http decode c slug =
     (case ValidateSkillIdentifier slug of
        Some e \<Rightarrow> Inl (ErrNew (invalid_slug ''slug'' slug e))
      | None \<Rightarrow>
          (case doGet http c (ch_baseURL c @ ch_skillsPath c @ ''/'' @ concat (map path_escape_char slug)) of
             Inl e \<Rightarrow> Inl (ErrWrap ''skill metadata request failed: '' e)
           | Inr body \<Rightarrow>
               (case decode body of
                  Inl e \<Rightarrow> Inl (ErrWrap ''failed to parse skill metadata: '' e)
                | Inr resp \<Rightarrow> Inr \<lparr>
                    me_Slug = ks_Slug resp, me_DisplayName = ks_DisplayName resp, me_Summary = ks_Summary resp,
                    me_LatestVersion = (case ks_LatestVersion resp of None \<Rightarrow> [] | Some v \<Rightarrow> v),
                    me_IsMalwareBlocked = (case ks_Moderation resp of None \<Rightarrow> False | Some (m, _) \<Rightarrow> m),
                    me_IsSuspicious = (case ks_Moderation resp of None \<Rightarrow> False | Some (_, s) \<Rightarrow> s),
                    me_RegistryName = ''clawhub''\<rparr>)))"

record InstallResult =
  ir_Version :: string
  ir_IsMalwareBlocked :: bool
  ir_IsSuspicious :: bool
  ir_Summary :: string

text \<open>What one installation meets outside the program.\<close>

record hub_env =
  he_http :: http
  he_parse_url :: url_parser
  he_decode_meta :: "string \<Rightarrow> GoError + clawhubSkillResponse"
  he_download :: fs_env
  he_tmp :: string
  he_tmp_closes :: bool
  he_unzip :: "string \<Rightarrow> GoError + zip_entry list"
  he_extract :: fs_env
  he_entries :: "nat \<Rightarrow> entry_env"

definition install_version :: "string \<Rightarrow> SkillMeta option \<Rightarrow> string" where
  "install_version version meta =
     text_or (if version = [] then (case meta of None \<Rightarrow> [] | Some m \<Rightarrow> me_LatestVersion m) else version) ''latest''"

definition DownloadAndInstall :: "hub_env \<Rightarrow> ClawHubRegistry \<Rightarrow> string \<Rightarrow> string \<Rightarrow> string \<Rightarrow> disk \<Rightarrow> disk \<times> (fs_error + InstallResult)" where
  "DownloadAndInstall env c slug version targetDir d =
     (case ValidateSkillIdentifier slug of
        Some e \<Rightarrow> (d, Inl (PlainError (invalid_slug ''slug'' slug e)))
      | None \<Rightarrow>
          let meta = (case GetSkillMeta (he_http env) (he_decode_meta env) c slug of Inl _ \<Rightarrow> None | Inr m \<Rightarrow> Some m);
              installVersion = install_version version meta;
              result = \<lparr>ir_Version = installVersion,
                 ir_IsMalwareBlocked = (case meta of None \<Rightarrow> False | Some m \<Rightarrow> me_IsMalwareBlocked m),
                 ir_IsSuspicious = (case meta of None \<Rightarrow> False | Some m \<Rightarrow> me_IsSuspicious m),
                 ir_Summary = (case meta of None \<Rightarrow> [] | Some m \<Rightarrow> me_Summary m)\<rparr>
          in case he_parse_url env (ch_baseURL c @ ch_downloadPath c) of
               Inl e \<Rightarrow> (d, Inl (WrapError ''invalid base URL: '' (PlainError (error_text e))))
             | Inr (base, q) \<Rightarrow>
                 let q = set_param ''slug'' slug q;
                     q = (if installVersion \<noteq> ''latest'' then set_param ''version'' installVersion q else q)
                 in case DownloadToFile (he_download env) (he_http env (with_query base q) (auth_header c)) (he_tmp env) (he_tmp_closes env)
                           (ch_maxZipSize c) d of
                      (d, Inl e) \<Rightarrow> (d, Inl (WrapError ''download failed: '' e))
                    | (d, Inr tmpPath) \<Rightarrow>
                        (case ExtractZipFile (he_unzip env) (he_extract env) (he_entries env) tmpPath targetDir d of
                           (d, e) \<Rightarrow>
                             (sys_remove (host_place (he_extract env) tmpPath) tmpPath d,
                              case e of Some e \<Rightarrow> Inl e | None \<Rightarrow> Inr result)))"

subsection \<open>The registry list\<close>

record SkillRegistry =
  rg_Name :: string
  rg_DownloadAndInstall :: "string \<Rightarrow> string \<Rightarrow> string \<Rightarrow> disk \<Rightarrow> disk \<times> (fs_error + InstallResult)"

record RegistryManager =
  rm_registries :: "SkillRegistry list"
  rm_maxConcurrent :: int

definition NewRegistryManager :: RegistryManager where
  "NewRegistryManager = \<lparr>rm_registries = [], rm_maxConcurrent = 2\<rparr>"

definition AddRegistry :: "SkillRegistry \<Rightarrow> RegistryManager \<Rightarrow> RegistryManager" where
  "AddRegistry r rm = rm\<lparr>rm_registries := rm_registries rm @ [r]\<rparr>"

definition GetRegistry :: "string \<Rightarrow> RegistryManager \<Rightarrow> SkillRegistry option" where
  "GetRegistry name rm = find (\<lambda>r. rg_Name r = name) (rm_registries rm)"

definition clawhub :: "hub_env \<Rightarrow> ClawHubConfig \<Rightarrow> SkillRegistry" where
  "clawhub env cfg = \<lparr>rg_Name = ''clawhub'', rg_DownloadAndInstall = DownloadAndInstall env (NewClawHubRegistry cfg)\<rparr>"

definition NewRegistryManagerFromConfig :: "hub_env \<Rightarrow> ClawHubConfig \<Rightarrow> int \<Rightarrow> RegistryManager" where
  "NewRegistryManagerFromConfig env cfg maxConcurrentSearches =
     (let rm = NewRegistryManager;
          rm = (if maxConcurrentSearches > 0 then rm\<lparr>rm_maxConcurrent := maxConcurrentSearches\<rparr> else rm)
      in if cc_Enabled cfg then AddRegistry (clawhub env cfg) rm else rm)"

subsection \<open>The tool install\_skill\<close>

text \<open>
  \<^verbatim>\<open>os.RemoveAll\<close> removes a name and what is below it without following it; \<open>resists\<close> are the nodes that the system will not
  remove, and with them their directories stay.
\<close>

definition sys_remove_all :: "(string list \<Rightarrow> bool) \<Rightarrow> place \<Rightarrow> string \<Rightarrow> disk \<Rightarrow> disk" where
  "sys_remove_all resists pl name d =
     (case locate NoFollow pl d name of
        Inl e \<Rightarrow> d
      | Inr p \<Rightarrow> filter (\<lambda>(q, n). \<not> prefix p q \<or> list_ex (\<lambda>(r, n). prefix q r \<and> resists r) d) d)"

definition stat_ok :: "fs_env \<Rightarrow> string \<Rightarrow> disk \<Rightarrow> bool" where
  "stat_ok env path d \<longleftrightarrow> fe_open env = None \<and> (case locate Existing (host_place env path) d path of Inl e \<Rightarrow> False | Inr p \<Rightarrow> True)"

record install_env =
  ie_fs :: fs_env
  ie_resists :: "string list \<Rightarrow> bool"
  ie_origin :: "string \<Rightarrow> string \<Rightarrow> string \<Rightarrow> string"

definition remove_all :: "install_env \<Rightarrow> string \<Rightarrow> disk \<Rightarrow> disk" where
  "remove_all env path d = sys_remove_all (ie_resists env) (host_place (ie_fs env) path) path d"

text \<open>\<open>ie_origin\<close> is the JSON text of the structure \<^verbatim>\<open>originMeta\<close>; an error of the write is only logged.\<close>

definition writeOriginMeta :: "install_env \<Rightarrow> string \<Rightarrow> string \<Rightarrow> string \<Rightarrow> string \<Rightarrow> disk \<Rightarrow> disk" where
  "writeOriginMeta env targetDir registryName slug version d =
     (let path = Join [targetDir, ''.skill-origin.json''] in
      fst (sys_write (ie_fs env) (host_place (ie_fs env) path) path (ie_origin env registryName slug version) d))"

definition text_of :: "json_obj \<Rightarrow> string \<Rightarrow> string" where
  "text_of args k = (case map_of args k of Some (JStr s) \<Rightarrow> s | _ \<Rightarrow> [])"

definition warning_sign :: string where
  "warning_sign = [CHR 0xE2, CHR 0x9A, CHR 0xA0, CHR 0xEF, CHR 0xB8, CHR 0x8F]"

definition install_message :: "string \<Rightarrow> string \<Rightarrow> string \<Rightarrow> InstallResult \<Rightarrow> string" where
  "install_message slug registryName targetDir result =
     (if ir_IsSuspicious result
      then warning_sign @ '' Warning: skill '' @ go_quote slug @ '' is flagged as suspicious (may contain risky patterns).'' @ [nl, nl] else []) @
     ''Successfully installed skill '' @ go_quote slug @ '' v'' @ ir_Version result @ '' from '' @ registryName @ '' registry.'' @ [nl] @
     ''Location: '' @ targetDir @ [nl] @
     (if ir_Summary result \<noteq> [] then ''Description: '' @ ir_Summary result @ [nl] else []) @
     [nl] @ ''The skill is now available and can be loaded in the current session.''"

definition InstallSkillTool_Execute :: "install_env \<Rightarrow> RegistryManager \<Rightarrow> string \<Rightarrow> json_obj \<Rightarrow> disk \<Rightarrow> disk \<times> ToolResult" where
  "InstallSkillTool_Execute env rm workspace args d =
     (let slug = text_of args ''slug''; registryName = text_of args ''registry'' in
      case ValidateSkillIdentifier slug of
        Some e \<Rightarrow> (d, ErrorResult (invalid_slug ''slug'' slug e))
      | None \<Rightarrow>
          (case ValidateSkillIdentifier registryName of
             Some e \<Rightarrow> (d, ErrorResult (invalid_slug ''registry'' registryName e))
           | None \<Rightarrow>
               let version = text_of args ''version''; force = (map_of args ''force'' = Some (JBool True));
                   skillsDir = Join [workspace, ''skills'']; targetDir = Join [skillsDir, slug]
               in if \<not> force \<and> stat_ok (ie_fs env) targetDir d then
                    (d, ErrorResult (''skill '' @ go_quote slug @ '' already installed at '' @ targetDir @ ''. Use force=true to reinstall.''))
                  else
                    let d = (if force then remove_all env targetDir d else d) in
                    (case GetRegistry registryName rm of
                       None \<Rightarrow> (d, ErrorResult (''registry '' @ go_quote registryName @ '' not found''))
                     | Some registry \<Rightarrow>
                         (case mkdir_all (ie_fs env) skillsDir d of
                            (d, Some e) \<Rightarrow> (d, ErrorResult (''failed to create skills directory: '' @ Error e))
                          | (d, None) \<Rightarrow>
                              (case rg_DownloadAndInstall registry slug version targetDir d of
                                 (d, Inl e) \<Rightarrow> (remove_all env targetDir d, ErrorResult (''failed to install '' @ go_quote slug @ '': '' @ Error e))
                               | (d, Inr result) \<Rightarrow>
                                   if ir_IsMalwareBlocked result then
                                     (remove_all env targetDir d,
                                      ErrorResult (''skill '' @ go_quote slug @ '' is flagged as malicious and cannot be installed''))
                                   else
                                     (writeOriginMeta env targetDir (rg_Name registry) slug (ir_Version result) d,
                                      SilentResult (install_message slug (rg_Name registry) targetDir result)))))))"

subsection \<open>Installation without a registry\<close>

definition Base :: "string \<Rightarrow> string" where
  "Base path =
     (if path = [] then ''.''
      else let s = rev (dropWhile (\<lambda>c. c = slash) (rev path)) in
        if s = [] then ''/'' else rev (takeWhile (\<lambda>c. c \<noteq> slash) (rev s)))"

text \<open>The GET request of \<^verbatim>\<open>installer.go\<close>: what \<^verbatim>\<open>NewRequest\<close> refuses, the answer and the reading of its body.\<close>

definition fetch :: "(string \<Rightarrow> GoError option) \<Rightarrow> http \<Rightarrow> string \<Rightarrow> string \<Rightarrow> GoError + string" where
  "fetch bad_request http what url =
     (case bad_request url of
        Some e \<Rightarrow> Inl (ErrWrap ''failed to create request: '' e)
      | None \<Rightarrow>
          (case http url [] of
             Inl e \<Rightarrow> Inl (ErrWrap (''failed to fetch '' @ what @ '': '') e)
           | Inr resp \<Rightarrow>
               if hr_Status resp \<noteq> 200 then Inl (ErrNew (''failed to fetch '' @ what @ '': HTTP '' @ itoa (hr_Status resp)))
               else (case hr_ReadErr resp of
                       Some e \<Rightarrow> Inl (ErrWrap ''failed to read response: '' e)
                     | None \<Rightarrow> Inr (hr_Body resp))))"

definition InstallFromGitHub :: "(string \<Rightarrow> GoError option) \<Rightarrow> http \<Rightarrow> fs_env \<Rightarrow> string \<Rightarrow> string \<Rightarrow> disk \<Rightarrow> disk \<times> fs_error option" where
  "InstallFromGitHub bad_request http env workspace repo d =
     (let skillDir = Join [workspace, ''skills'', Base repo] in
      if stat_ok env skillDir d then (d, Some (PlainError (''skill '' @ [CHR 0x27] @ Base repo @ [CHR 0x27] @ '' already exists'')))
      else case fetch bad_request http ''skill'' (''https://raw.githubusercontent.com/'' @ repo @ ''/main/SKILL.md'') of
        Inl e \<Rightarrow> (d, Some (PlainError (error_text e)))
      | Inr body \<Rightarrow>
          (case mkdir_all env skillDir d of
             (d, Some e) \<Rightarrow> (d, Some (WrapError ''failed to create skill directory: '' e))
           | (d, None) \<Rightarrow>
               let skillPath = Join [skillDir, ''SKILL.md''] in
               (case sys_write env (host_place env skillPath) skillPath body d of
                  (d, Some (writing, e)) \<Rightarrow>
                    (d, Some (WrapError ''failed to write skill file: '' (PathError (if writing then ''write'' else ''open'') skillPath e)))
                | (d, None) \<Rightarrow> (d, None))))"

definition Uninstall :: "install_env \<Rightarrow> string \<Rightarrow> string \<Rightarrow> disk \<Rightarrow> disk \<times> fs_error option" where
  "Uninstall env workspace skillName d =
     (let skillDir = Join [workspace, ''skills'', skillName]; pl = host_place (ie_fs env) skillDir in
      if fe_open (ie_fs env) = None \<and> locate Existing pl d skillDir = Inl ENOENT then
        (d, Some (PlainError (''skill '' @ [CHR 0x27] @ skillName @ [CHR 0x27] @ '' not found'')))
      else
        let failed = (case locate NoFollow pl d skillDir of Inl e \<Rightarrow> if e = ENOENT then None else Some e
                      | Inr p \<Rightarrow> if list_ex (\<lambda>(r, n). prefix p r \<and> ie_resists env r) d then Some EACCES else None)
        in (remove_all env skillDir d, map_option (\<lambda>e. WrapError ''failed to remove skill: '' (PathError ''unlinkat'' skillDir e)) failed))"

record AvailableSkill =
  as_Name :: string
  as_Repository :: string
  as_Description :: string
  as_Author :: string
  as_Tags :: "string list"

definition ListAvailableSkills :: "(string \<Rightarrow> GoError option) \<Rightarrow> http \<Rightarrow> (string \<Rightarrow> GoError + AvailableSkill list) \<Rightarrow> GoError + AvailableSkill list" where
  "ListAvailableSkills bad_request http decode =
     (case fetch bad_request http ''skills list'' ''https://raw.githubusercontent.com/tinyland-inc/tinyclaw-skills/main/skills.json'' of
        Inl e \<Rightarrow> Inl e
      | Inr body \<Rightarrow> (case decode body of Inl e \<Rightarrow> Inl (ErrWrap ''failed to parse skills list: '' e) | Inr skills \<Rightarrow> Inr skills))"

subsection \<open>Removal and the temporary file\<close>

lemma node_filter: "node_at (filter (\<lambda>(q, n). Q q) d) q = (if Q q then node_at d q else None)"
  unfolding node_at_def by (induction d) auto

lemma walk_nofollow:
  "dirs (base @ cur) (cs @ [x]) d \<Longrightarrow> ''..'' \<notin> set (cs @ [x]) \<Longrightarrow> walk NoFollow confined d base n cur (cs @ [x]) = Inr (cur @ cs @ [x])"
proof (induction cs arbitrary: cur)
  case (Cons c cs)
  have c: "c \<noteq> ''..''" "\<not> (cs @ [x] = [] \<and> NoFollow = NoFollow)" using Cons.prems by auto
  have "node_at d (base @ cur @ [c]) = Some DirNode" using Cons.prems by (simp add: dirs_Cons)
  from walk_name(3) [OF c this] show ?case using Cons.IH [of "cur @ [c]"] Cons.prems by (simp add: dirs_Cons)
qed (simp add: walk_name(1))

lemma remove_all_inside:
  assumes "clear tgt d" "IsAbs p" "comps p = tgt" "''..'' \<notin> set tgt"
  shows "inside tgt d (remove_all env p d)"
proof (cases "locate NoFollow (host_place (ie_fs env) p) d p")
  case (Inr q)
  have "straight d (pl_base (host_place (ie_fs env) p)) (comps p)"
    using clear_straight [OF assms(1), of tgt] host_place_abs [OF assms(2)] assms(3) by simp
  from locate_straight [OF this _ _ Inr] have q: "q = tgt" using host_place_abs [OF assms(2)] assms(3,4) by simp
  show ?thesis
    using Inr q node_filter by (simp add: inside_def remove_all_def sys_remove_all_def)
qed (simp add: remove_all_def sys_remove_all_def)

lemma remove_all_gone:
  assumes "dirs [] (sk @ [x]) d" "IsAbs p" "comps p = sk @ [x]" "''..'' \<notin> set (sk @ [x])" "\<And>r. \<not> ie_resists env r" "prefix (sk @ [x]) q"
  shows "node_at (remove_all env p d) q = None"
proof -
  have "p \<noteq> []" using assms(2) by (auto simp: IsAbs_def)
  moreover have "walk NoFollow False d [] 40 [] (sk @ [x]) = Inr (sk @ [x])" using walk_nofollow [of "[]" "[]" sk x d] assms(1,4) by simp
  ultimately have l: "locate NoFollow (host_place (ie_fs env) p) d p = Inr (sk @ [x])"
    using assms(2,3) by (simp add: locate_def host_place_def)
  have none: "list_ex (\<lambda>(r, n). prefix q' r \<and> ie_resists env r) d = False" for q' using assms(5) by (auto simp: list_ex_iff)
  show ?thesis using l assms(6) node_filter [of "\<lambda>q. \<not> prefix (sk @ [x]) q" d q]
    by (simp add: remove_all_def sys_remove_all_def none)
qed

text \<open>\<open>beside tgt p\<close> is \<open>inside tgt\<close> but for the node \<open>p\<close>, where the download is stored.\<close>

definition beside :: "string list \<Rightarrow> string list \<Rightarrow> disk \<Rightarrow> disk \<Rightarrow> bool" where
  "beside tgt p d d' \<longleftrightarrow> inside tgt (drop_node p d) (drop_node p d')"

definition spare :: "string \<Rightarrow> string list \<Rightarrow> disk \<Rightarrow> bool" where
  "spare tmp tgt d \<longleftrightarrow> IsAbs tmp \<and> ''..'' \<notin> set (comps tmp) \<and> straight d [] (comps tmp) \<and>
     \<not> prefix (comps tmp) tgt \<and> \<not> prefix tgt (comps tmp)"

lemma beside_trans: "beside tgt p d d1 \<Longrightarrow> beside tgt p d1 d2 \<Longrightarrow> beside tgt p d d2"
  unfolding beside_def by (rule inside_trans)

lemma inside_beside: "inside tgt d d' \<Longrightarrow> beside tgt p d d'"
  by (simp add: beside_def inside_def)

lemma aside_beside: "aside p d d' \<Longrightarrow> beside tgt p d d'"
  by (simp add: beside_def inside_def aside_def)

lemma aside_straight: "aside p d d' \<Longrightarrow> straight d q cs \<Longrightarrow> straight d' q cs"
  unfolding aside_def straight_def by metis

lemma inside_straight: "inside tgt d d' \<Longrightarrow> straight d q cs \<Longrightarrow> straight d' q cs"
  unfolding inside_def straight_def by (metis node.distinct(5) option.inject)

lemma clear_aside: "aside p d d' \<Longrightarrow> clear tgt d \<Longrightarrow> clear tgt d'"
  unfolding clear_def using aside_straight aside_links by blast

lemma beside_at: "beside tgt p d d' \<Longrightarrow> q \<noteq> p \<Longrightarrow> node_at d' q = node_at d q \<or>
    prefix tgt q \<and> (\<forall>t. node_at d' q \<noteq> Some (LinkNode t)) \<or> prefix q tgt \<and> node_at d q = None \<and> node_at d' q = Some DirNode"
  unfolding beside_def inside_def by (drule spec [of _ q]) simp

lemma clear_beside: "spare tmp tgt d \<Longrightarrow> beside tgt (comps tmp) d d' \<Longrightarrow> clear tgt d \<Longrightarrow> clear tgt d'"
proof -
  assume s: "spare tmp tgt d" and b: "beside tgt (comps tmp) d d'" and c: "clear tgt d"
  have "node_at d' q \<noteq> Some (LinkNode t)" if "prefix q tgt \<or> prefix tgt q" for q t
  proof -
    have "q \<noteq> comps tmp" using that s by (auto simp: spare_def)
    then show ?thesis
      using beside_at [OF b] c that unfolding clear_def straight_def no_links_def by (metis append_Nil node.distinct(5) option.inject)
  qed
  then show ?thesis by (simp add: clear_def straight_def no_links_def)
qed

lemma DownloadToFile_aside:
  assumes "spare tmp tgt d" "DownloadToFile env reply tmp closes maxBytes d = (d', r)"
  shows "aside (comps tmp) d d' \<and> (\<forall>p. r = Inr p \<longrightarrow> p = tmp)"
proof -
  have abs: "IsAbs tmp" "''..'' \<notin> set (comps tmp)" "straight d [] (comps tmp)" "comps tmp \<noteq> []"
    using assms(1) by (auto simp: spare_def)
  obtain ds t where dt: "comps tmp = ds @ [t]" using abs(4) by (metis rev_exhaust)
  let ?pl = "host_place env tmp"
  note pl = host_place_abs [OF abs(1), of env]
  obtain d1 w where w: "sys_write env ?pl tmp (limit_reader maxBytes (hr_Body (projr reply))) d = (d1, w)" by force
  have a: "aside (comps tmp) d d1"
    using sys_write_straight [OF _ _ dt _ w] pl abs dt by simp
  have "straight d1 [] (comps tmp)" by (rule aside_straight [OF a abs(3)])
  then have "aside (comps tmp) d1 (sys_remove ?pl tmp d1)"
    using sys_remove_straight [OF _ _ dt, of d1 ?pl] pl abs(2) dt by simp
  then have "aside (comps tmp) d (sys_remove ?pl tmp d1)" by (rule aside_trans [OF a])
  then show ?thesis
    using assms(2) w a by (auto simp: DownloadToFile_def Let_def split: sum.splits if_splits prod.splits option.splits bool.splits)
qed

text \<open>
  What the tool relies on: an installation changes its target directory, the directories on the way to it, and one
  temporary file.
\<close>

locale skill_registry =
  fixes install :: "string \<Rightarrow> string \<Rightarrow> string \<Rightarrow> disk \<Rightarrow> disk \<times> (fs_error + InstallResult)"
    and tmp :: string
  assumes install_beside: "IsAbs targetDir \<Longrightarrow> Clean targetDir = targetDir \<Longrightarrow> clean_comps targetDir = tgt \<Longrightarrow> tgt \<noteq> [] \<Longrightarrow>
    clear tgt d \<Longrightarrow> spare tmp tgt d \<Longrightarrow> beside tgt (comps tmp) d (fst (install slug version targetDir d))"

lemma DownloadAndInstall_beside:
  assumes "IsAbs targetDir" "Clean targetDir = targetDir" "clean_comps targetDir = tgt" "tgt \<noteq> []" "clear tgt d" "spare (he_tmp env) tgt d"
  shows "beside tgt (comps (he_tmp env)) d (fst (DownloadAndInstall env c slug version targetDir d))"
proof -
  let ?tmp = "he_tmp env"
  have same: "beside tgt (comps ?tmp) d d" by (rule inside_beside) simp
  have step: "beside tgt (comps ?tmp) d (fst (case DownloadToFile (he_download env) reply ?tmp closes maxBytes d of
      (d, Inl e) \<Rightarrow> (d, Inl (WrapError ''download failed: '' e))
    | (d, Inr tmpPath) \<Rightarrow>
        (case ExtractZipFile (he_unzip env) (he_extract env) (he_entries env) tmpPath targetDir d of
           (d, e) \<Rightarrow> (sys_remove (host_place (he_extract env) tmpPath) tmpPath d, case e of Some e \<Rightarrow> Inl e | None \<Rightarrow> Inr result))))"
    for reply closes maxBytes and result :: InstallResult
  proof -
    obtain d1 r where dl: "DownloadToFile (he_download env) reply ?tmp closes maxBytes d = (d1, r)" by force
    have a: "aside (comps ?tmp) d d1" "\<And>p. r = Inr p \<Longrightarrow> p = ?tmp" using DownloadToFile_aside [OF assms(6) dl] by auto
    show ?thesis
    proof (cases r)
      case (Inl e)
      then show ?thesis using dl aside_beside [OF a(1)] by simp
    next
      case (Inr p)
      have p: "p = ?tmp" by (rule a(2) [OF Inr])
      obtain d2 e where x: "ExtractZipFile (he_unzip env) (he_extract env) (he_entries env) ?tmp targetDir d1 = (d2, e)" by force
      have i: "inside tgt d1 d2"
        using archive_confined [OF assms(1,2) assms(3) [symmetric] assms(4) clear_aside [OF a(1) assms(5)] x] by blast
      have s: "IsAbs ?tmp" "''..'' \<notin> set (comps ?tmp)" "straight d2 [] (comps ?tmp)" "comps ?tmp \<noteq> []"
        using assms(6) inside_straight [OF i aside_straight [OF a(1)]] by (auto simp: spare_def)
      obtain ds t where dt: "comps ?tmp = ds @ [t]" using s(4) by (metis rev_exhaust)
      have "aside (comps ?tmp) d2 (sys_remove (host_place (he_extract env) ?tmp) ?tmp d2)"
        using sys_remove_straight [OF _ _ dt, of d2 "host_place (he_extract env) ?tmp"] host_place_abs [OF s(1)] s dt by simp
      then have "beside tgt (comps ?tmp) d (sys_remove (host_place (he_extract env) ?tmp) ?tmp d2)"
        by (intro beside_trans [OF beside_trans [OF aside_beside [OF a(1)] inside_beside [OF i]] aside_beside])
      then show ?thesis using dl Inr p x by simp
    qed
  qed
  show ?thesis
    unfolding DownloadAndInstall_def Let_def
    using same step by (auto split: option.splits sum.splits simp del: split_paired_All)
qed

interpretation hub: skill_registry "DownloadAndInstall env c" "he_tmp env" for env c
  by unfold_locales (rule DownloadAndInstall_beside)

subsection \<open>What the tool changes\<close>

lemma Join_rel:
  assumes "IsAbs w" "s \<noteq> []" "comps s = cs" "''..'' \<notin> set cs"
  shows "Join [w, s] = path_of True (clean_comps w @ cs)"
proof -
  have "w \<noteq> []" using assms(1) by (auto simp: IsAbs_def)
  then show ?thesis
    using clean_comps_below [OF assms(1,4,3)] assms(2) by (simp add: Join_def Clean_def)
qed

lemma trim_space_mem: "c \<in> set s \<Longrightarrow> \<not> is_space c \<Longrightarrow> c \<in> set (trim_space s)"
proof -
  have drop: "c \<in> set (dropWhile is_space xs)" if "c \<in> set xs" "\<not> is_space c" for xs
    using that by (metis Un_iff set_append set_takeWhileD takeWhile_dropWhile_id)
  show "c \<in> set s \<Longrightarrow> \<not> is_space c \<Longrightarrow> c \<in> set (trim_space s)"
    using drop by (simp add: trim_space_def trim_right_def)
qed

lemma valid_identifier:
  assumes "ValidateSkillIdentifier slug = None" "slug \<noteq> ''.''"
  shows "proper slug" "slug \<noteq> ''..''" "comps slug = [slug]"
proof -
  have v: "trim_space slug \<noteq> []" "slash \<notin> set (trim_space slug)" "\<not> contains (trim_space slug) ''..''"
    using assms(1) by (auto simp: ValidateSkillIdentifier_def Let_def split: if_splits)
  have n: "slug \<noteq> []" using v(1) by (auto simp: trim_space_def trim_right_def)
  have s: "slash \<notin> set slug" using trim_space_mem [of slash slug] v(2) by (auto simp: is_space_def)
  show p: "proper slug" using n s assms(2) by (simp add: proper_def)
  have "contains (trim_space ''..'') ''..''" by code_simp
  then show "slug \<noteq> ''..''" using v(3) by auto
  show "comps slug = [slug]" using comps_join [of "[slug]"] p by simp
qed

lemma skill_paths:
  assumes "IsAbs workspace" "ValidateSkillIdentifier slug = None" "slug \<noteq> ''.''"
  defines "skillsDir \<equiv> Join [workspace, ''skills'']"
  defines "targetDir \<equiv> Join [skillsDir, slug]" and "sk \<equiv> clean_comps workspace @ [''skills'']"
  shows "IsAbs skillsDir" "comps skillsDir = sk" "IsAbs targetDir" "Clean targetDir = targetDir"
    "clean_comps targetDir = sk @ [slug]" "comps targetDir = sk @ [slug]" "''..'' \<notin> set (sk @ [slug])"
proof -
  note slug = valid_identifier [OF assms(2,3)]
  have sk: "list_all proper sk" "''..'' \<notin> set sk"
    using abs_comps [OF assms(1)] by (simp_all add: sk_def proper_def)
  have c: "comps ''skills'' = [''skills'']" by code_simp
  have s: "skillsDir = path_of True sk"
    unfolding skillsDir_def sk_def by (rule Join_rel [OF assms(1) _ c]) simp_all
  have resolved: "clean_comps (path_of True cs) = cs" if "list_all proper cs" "''..'' \<notin> set cs" for cs
    using that by (simp add: clean_comps_def path_of_comps path_of_abs resolve_no_dots)
  show "IsAbs skillsDir" "comps skillsDir = sk" using s sk by (simp_all add: path_of_abs path_of_comps)
  then have t: "targetDir = path_of True (sk @ [slug])"
    unfolding targetDir_def using Join_rel [of skillsDir slug "[slug]"] slug s resolved [OF sk] by (auto simp: proper_def)
  have st: "list_all proper (sk @ [slug])" "''..'' \<notin> set (sk @ [slug])" using sk slug by simp_all
  show "IsAbs targetDir" "comps targetDir = sk @ [slug]" "clean_comps targetDir = sk @ [slug]" "Clean targetDir = targetDir"
    using st t resolved [OF st] by (simp_all add: path_of_abs path_of_comps Clean_def)
  show "''..'' \<notin> set (sk @ [slug])" by (rule st(2))
qed

lemma dirs_beside:
  assumes "dirs [] tgt d" "beside tgt p d d'" "\<not> prefix p tgt"
  shows "dirs [] tgt d'"
  unfolding dirs_def
proof (intro allI impI)
  fix k assume k: "0 < k \<and> k < length tgt"
  have "prefix (take k tgt) tgt" by (simp add: take_is_prefix)
  then have ne: "take k tgt \<noteq> p" using assms(3) by auto
  have "\<not> prefix tgt (take k tgt)" using k by (auto dest: prefix_length_le)
  then have "node_at d' (take k tgt) = node_at d (take k tgt) \<or> node_at d (take k tgt) = None"
    using beside_at [OF assms(2) ne] by (elim disjE conjE) simp_all
  then show "node_at d' ([] @ take k tgt) = Some DirNode" using assms(1) k by (auto simp: dirs_def)
qed

text \<open>An error leaves at and below the target what was there, or nothing.\<close>

definition no_news :: "string list \<Rightarrow> disk \<Rightarrow> disk \<Rightarrow> bool" where
  "no_news tgt d d' \<longleftrightarrow> (\<forall>q. prefix tgt q \<longrightarrow> node_at d' q = node_at d q \<or> node_at d' q = None)"

lemma remove_all_no_news: "no_news tgt d (remove_all env p d)"
proof (cases "locate NoFollow (host_place (ie_fs env) p) d p")
  case (Inr q)
  then show ?thesis using node_filter by (simp add: no_news_def remove_all_def sys_remove_all_def)
qed (simp add: no_news_def remove_all_def sys_remove_all_def)

lemma mkdir_no_news:
  assumes "clear tgt d" "IsAbs p" "comps p = sk" "tgt = sk @ [x]" "''..'' \<notin> set sk" "mkdir_all env p d = (d', e)"
  shows "inside tgt d d' \<and> node_at d' (tgt @ q) = node_at d (tgt @ q) \<and> (e = None \<longrightarrow> dirs [] tgt d')"
proof (cases "fe_mkdir env")
  case None
  then obtain e' where w: "mkdir_walk False d [] 40 [] sk = (d', e')"
    using assms(2,3,6) by (auto simp: mkdir_all_def sys_mkdir_all_def host_place_def split: prod.splits)
  have "straight d ([] @ []) sk" using clear_straight [OF assms(1), of sk] assms(4) by simp
  from mkdir_walk_straight [OF this assms(5) w] have "node_at d' (tgt @ q) \<noteq> node_at d (tgt @ q) \<longrightarrow> prefix (tgt @ q) sk" by simp
  then have "node_at d' (tgt @ q) = node_at d (tgt @ q)" using assms(4) by (auto dest: prefix_length_le)
  then show ?thesis using mkdir_all_inside [OF assms(1-3) _ assms(5,6), of x] assms(4) by simp
next
  case (Some en)
  then show ?thesis using assms(6) by (auto simp: mkdir_all_def sys_mkdir_all_def)
qed

context skill_registry
begin

text \<open>From the call of the registry on: the disk \<open>d\<close> has the directory of the skills.\<close>

lemma finish_beside:
  assumes "IsAbs targetDir" "Clean targetDir = targetDir" "clean_comps targetDir = tgt" "comps targetDir = tgt" "''..'' \<notin> set tgt"
    and "tgt \<noteq> []" "clear tgt d" "spare tmp tgt d" "install slug version targetDir d = (d1, r)"
  shows "beside tgt (comps tmp) d (remove_all env targetDir d1)"
    and "beside tgt (comps tmp) d (writeOriginMeta env targetDir name slug v d1)"
    and "dirs [] tgt d \<Longrightarrow> \<forall>r. \<not> ie_resists env r \<Longrightarrow> prefix tgt q \<Longrightarrow> node_at (remove_all env targetDir d1) q = None"
proof -
  have b: "beside tgt (comps tmp) d d1" using install_beside [OF assms(1-3,6-8), of slug version] assms(9) by simp
  have c: "clear tgt d1" by (rule clear_beside [OF assms(8) b assms(7)])
  show "beside tgt (comps tmp) d (remove_all env targetDir d1)"
    by (rule beside_trans [OF b inside_beside [OF remove_all_inside [OF c assms(1,4,5)]]])
  let ?o = "''.skill-origin.json''"
  let ?p = "Join [targetDir, ?o]"
  have o: "comps ?o = [?o]" by code_simp
  have p: "?p = path_of True (tgt @ [?o])" using Join_rel [OF assms(1) _ o] assms(3) by simp
  have po: "list_all proper (tgt @ [?o])" using abs_comps [OF assms(1)] assms(3) by (simp add: proper_def)
  have cp: "IsAbs ?p" "comps ?p = tgt @ [?o]" using p po by (simp_all add: path_of_abs path_of_comps)
  obtain d2 e where w: "sys_write (ie_fs env) (host_place (ie_fs env) ?p) ?p (ie_origin env name slug v) d1 = (d2, e)" by force
  have "aside (tgt @ [?o]) d1 d2"
    using sys_write_straight [OF _ _ cp(2) _ w] host_place_abs [OF cp(1)] clear_straight [OF c, of "tgt @ [?o]"] cp(2) assms(5) by simp
  then have "beside tgt (comps tmp) d d2" using beside_trans [OF b] inside_beside aside_inside [OF _ c] by blast
  then show "beside tgt (comps tmp) d (writeOriginMeta env targetDir name slug v d1)" using w by (simp add: writeOriginMeta_def Let_def)
  show "node_at (remove_all env targetDir d1) q = None" if "dirs [] tgt d" "\<forall>r. \<not> ie_resists env r" "prefix tgt q"
  proof -
    obtain sk x where t: "tgt = sk @ [x]" using assms(6) by (metis rev_exhaust)
    have "dirs [] tgt d1" using dirs_beside [OF that(1) b] assms(8) by (simp add: spare_def)
    then show ?thesis using remove_all_gone [of sk x d1 targetDir env q] assms(1,4,5) that t by simp
  qed
qed
end

lemma spare_inside: "spare tmp tgt d \<Longrightarrow> inside tgt d d' \<Longrightarrow> spare tmp tgt d'"
  using inside_straight by (auto simp: spare_def)

lemma no_news_refl [simp]: "no_news tgt d d"
  by (simp add: no_news_def)

lemma no_news_gone: "(\<And>q. prefix tgt q \<Longrightarrow> node_at d' q = None) \<Longrightarrow> no_news tgt d d'"
  by (simp add: no_news_def)

lemma GetRegistry_mem: "GetRegistry name rm = Some r \<Longrightarrow> r \<in> set (rm_registries rm)"
  by (auto simp: GetRegistry_def find_Some_iff)

context skill_registry
begin

text \<open>The part of the tool that starts with the look-up of the registry.\<close>

lemma install_from:
  assumes "IsAbs workspace" "ValidateSkillIdentifier slug = None" "slug \<noteq> ''.''"
    and "skillsDir = Join [workspace, ''skills'']" "targetDir = Join [skillsDir, slug]" "tgt = clean_comps workspace @ [''skills'', slug]"
    and "rg_DownloadAndInstall registry = install" "clear tgt d" "spare tmp tgt d"
    and "(case mkdir_all (ie_fs env) skillsDir d of
            (d, Some e) \<Rightarrow> (d, ErrorResult (''failed to create skills directory: '' @ Error e))
          | (d, None) \<Rightarrow>
              (case rg_DownloadAndInstall registry slug version targetDir d of
                 (d, Inl e) \<Rightarrow> (remove_all env targetDir d, ErrorResult (''failed to install '' @ go_quote slug @ '': '' @ Error e))
               | (d, Inr result) \<Rightarrow>
                   if ir_IsMalwareBlocked result then
                     (remove_all env targetDir d, ErrorResult (''skill '' @ go_quote slug @ '' is flagged as malicious and cannot be installed''))
                   else
                     (writeOriginMeta env targetDir (rg_Name registry) slug (ir_Version result) d,
                      SilentResult (install_message slug (rg_Name registry) targetDir result)))) = (d', res)"
  shows "beside tgt (comps tmp) d d' \<and> (tr_IsError res \<and> (\<forall>r. \<not> ie_resists env r) \<longrightarrow> no_news tgt d d')"
proof -
  note p = skill_paths [OF assms(1-3), folded assms(4), folded assms(5)]
  have tgt: "tgt = (clean_comps workspace @ [''skills'']) @ [slug]" "tgt \<noteq> []" using assms(6) by simp_all
  note p = p [folded tgt(1)]
  obtain d1 e1 where m: "mkdir_all (ie_fs env) skillsDir d = (d1, e1)" by force
  have nd: "''..'' \<notin> set (clean_comps workspace @ [''skills''])" using p(7) tgt(1) by simp
  note made = mkdir_no_news [OF assms(8) p(1,2) tgt(1) nd m]
  have i: "inside tgt d d1" and same: "no_news tgt d d1" and dirs: "e1 = None \<Longrightarrow> dirs [] tgt d1"
    using made by (auto simp: no_news_def prefix_def)
  show ?thesis
  proof (cases e1)
    case (Some en)
    then show ?thesis using assms(10) m inside_beside [OF i] same by simp
  next
    case None
    obtain d2 r where x: "install slug version targetDir d1 = (d2, r)" by force
    note f = finish_beside [OF p(3-5,6,7) tgt(2) clear_inside [OF assms(8) i] spare_inside [OF assms(9) i] x]
    note b = beside_trans [OF inside_beside [OF i] f(1)] beside_trans [OF inside_beside [OF i] f(2)]
    have gone: "no_news tgt d (remove_all env targetDir d2)" if "\<forall>r. \<not> ie_resists env r"
      by (rule no_news_gone) (rule f(3) [OF dirs [OF None] that])
    show ?thesis
      using assms(10) m None x b gone assms(7)
      by (auto simp: ErrorResult_def SilentResult_def NewToolResult_def split: sum.splits if_splits)
  qed
qed

lemma tool_safe:
  assumes "IsAbs workspace" "text_of args ''slug'' = slug" "slug \<noteq> ''.''"
    and "\<forall>r\<in>set (rm_registries rm). rg_DownloadAndInstall r = install"
    and "tgt = clean_comps workspace @ [''skills'', slug]" "clear tgt d" "spare tmp tgt d"
    and "InstallSkillTool_Execute env rm workspace args d = (d', res)"
  shows "beside tgt (comps tmp) d d' \<and> (tr_IsError res \<and> (\<forall>r. \<not> ie_resists env r) \<longrightarrow> no_news tgt d d')"
proof (cases "ValidateSkillIdentifier slug = None \<and> ValidateSkillIdentifier (text_of args ''registry'') = None")
  case True
  define skillsDir targetDir where "skillsDir = Join [workspace, ''skills'']" and "targetDir = Join [skillsDir, slug]"
  define force where "force \<longleftrightarrow> map_of args ''force'' = Some (JBool True)"
  define d0 where "d0 = (if force then remove_all env targetDir d else d)"
  have p: "IsAbs targetDir" "comps targetDir = tgt" "''..'' \<notin> set tgt"
    using skill_paths [OF assms(1) _ assms(3)] True assms(5) by (simp_all add: skillsDir_def targetDir_def)
  have i: "inside tgt d d0" using remove_all_inside [OF assms(6) p] by (simp add: d0_def)
  have n: "no_news tgt d d0" using remove_all_no_news by (simp add: d0_def)
  show ?thesis
  proof (cases "\<not> force \<and> stat_ok (ie_fs env) targetDir d")
    case True2: True
    then have "d' = d" using assms(2,8) True
      by (auto simp: InstallSkillTool_Execute_def Let_def force_def targetDir_def skillsDir_def)
    then show ?thesis using inside_beside by simp
  next
    case go: False
    show ?thesis
    proof (cases "GetRegistry (text_of args ''registry'') rm")
      case None
      then have "d' = d0" using assms(2,8) True go
        by (auto simp: InstallSkillTool_Execute_def Let_def force_def targetDir_def skillsDir_def d0_def)
      then show ?thesis using inside_beside [OF i] n by simp
    next
      case (Some registry)
      have reg: "rg_DownloadAndInstall registry = install" using GetRegistry_mem [OF Some] assms(4) by blast
      have run: "beside tgt (comps tmp) d0 d' \<and> (tr_IsError res \<and> (\<forall>r. \<not> ie_resists env r) \<longrightarrow> no_news tgt d0 d')"
      proof (rule install_from [OF assms(1) _ assms(3) skillsDir_def targetDir_def assms(5) reg])
        show "ValidateSkillIdentifier slug = None" using True by simp
        show "clear tgt d0" by (rule clear_inside [OF assms(6) i])
        show "spare tmp tgt d0" by (rule spare_inside [OF assms(7) i])
        show "(case mkdir_all (ie_fs env) skillsDir d0 of
            (d, Some e) \<Rightarrow> (d, ErrorResult (''failed to create skills directory: '' @ Error e))
          | (d, None) \<Rightarrow>
              (case rg_DownloadAndInstall registry slug (text_of args ''version'') targetDir d of
                 (d, Inl e) \<Rightarrow> (remove_all env targetDir d, ErrorResult (''failed to install '' @ go_quote slug @ '': '' @ Error e))
               | (d, Inr result) \<Rightarrow>
                   if ir_IsMalwareBlocked result then
                     (remove_all env targetDir d, ErrorResult (''skill '' @ go_quote slug @ '' is flagged as malicious and cannot be installed''))
                   else
                     (writeOriginMeta env targetDir (rg_Name registry) slug (ir_Version result) d,
                      SilentResult (install_message slug (rg_Name registry) targetDir result)))) = (d', res)"
          using assms(2,8) True go Some unfolding InstallSkillTool_Execute_def Let_def d0_def force_def targetDir_def skillsDir_def
          by (simp only: option.case if_False if_True)
      qed
      have "no_news tgt d0 d' \<Longrightarrow> no_news tgt d d'" using n unfolding no_news_def by metis
      then show ?thesis using run beside_trans [OF inside_beside [OF i]] by blast
    qed
  qed
next
  case False
  then have "d' = d" using assms(2,8) by (auto simp: InstallSkillTool_Execute_def Let_def split: option.splits)
  then show ?thesis using inside_beside by simp
qed
end


definition sample_hub :: "zip_entry list \<Rightarrow> bool \<Rightarrow> hub_env" where
  "sample_hub entries malware = \<lparr>he_http = (\<lambda>url headers. Inr \<lparr>hr_Status = 200, hr_Body = ''PK'', hr_ReadErr = None\<rparr>),
     he_parse_url = (\<lambda>u. Inr (u, [])),
     he_decode_meta = (\<lambda>b. Inr \<lparr>ks_Slug = ''s'', ks_DisplayName = ''S'', ks_Summary = [], ks_LatestVersion = Some ''1.0'', ks_Moderation = Some (malware, False)\<rparr>),
     he_download = sample_fs_env, he_tmp = ''/tmp/z'', he_tmp_closes = True, he_unzip = (\<lambda>_. Inr entries), he_extract = sample_fs_env,
     he_entries = (\<lambda>_. \<lparr>en_fs = sample_fs_env, en_closes = True\<rparr>)\<rparr>"

definition sample_hub_config :: ClawHubConfig where
  "sample_hub_config = \<lparr>cc_Enabled = True, cc_BaseURL = [], cc_AuthToken = [], cc_SearchPath = [], cc_SkillsPath = [], cc_DownloadPath = [],
     cc_MaxZipSize = 0, cc_MaxResponseSize = 0\<rparr>"

definition sample_install_env :: install_env where
  "sample_install_env = \<lparr>ie_fs = sample_fs_env, ie_resists = (\<lambda>_. False), ie_origin = (\<lambda>r s v. ''{}'')\<rparr>"

definition sample_workspace :: disk where
  "sample_workspace = [([''tmp''], DirNode), ([''w''], DirNode), ([''w'', ''keep''], FileNode ''old''), ([''w'', ''skills''], DirNode),
     ([''w'', ''skills'', ''s''], DirNode), ([''w'', ''skills'', ''s'', ''SKILL.md''], FileNode ''v0''),
     ([''w'', ''skills'', ''t''], DirNode), ([''w'', ''skills'', ''t'', ''SKILL.md''], FileNode ''t'')]"

definition install_args :: "string \<Rightarrow> bool \<Rightarrow> json_obj" where
  "install_args slug force = [(''slug'', JStr slug), (''registry'', JStr ''clawhub''), (''force'', JBool force)]"

definition sample_install :: "string \<Rightarrow> bool \<Rightarrow> zip_entry list \<Rightarrow> bool \<Rightarrow> disk \<times> ToolResult" where
  "sample_install slug force entries malware = InstallSkillTool_Execute sample_install_env
     (NewRegistryManagerFromConfig (sample_hub entries malware) sample_hub_config 0) ''/w'' (install_args slug force) sample_workspace"


text \<open>An installation that succeeds.\<close>

lemma sample_install_runs:
  "tr_IsError (snd (sample_install ''s'' True [sample_entry ''SKILL.md'' ''v1''] False)) = False"
  "node_at (fst (sample_install ''s'' True [sample_entry ''SKILL.md'' ''v1''] False)) [''w'', ''skills'', ''s'', ''SKILL.md''] = Some (FileNode ''v1'')"
  by code_simp+

text \<open>The slug that the theorem leaves out: a dot is a valid identifier, and its directory is that of all skills.\<close>

lemma dot_slug_erases_skills:
  "ValidateSkillIdentifier ''.'' = None"
  "node_at (fst (sample_install ''.'' True [] False)) [''w'', ''skills'', ''t'', ''SKILL.md''] = None"
  by code_simp+

text \<open>A forced installation removes the installed version before anything is downloaded.\<close>

lemma failed_update_loses_skill:
  "tr_IsError (snd (sample_install ''s'' True [sample_entry ''../x'' ''y''] False))"
  "node_at (fst (sample_install ''s'' True [sample_entry ''../x'' ''y''] False)) [''w'', ''skills'', ''s'', ''SKILL.md''] = None"
  by code_simp+

text \<open>The name that \<open>Uninstall\<close> gets is not validated.\<close>

lemma uninstall_escapes:
  "snd (Uninstall sample_install_env ''/w'' ''..'' sample_workspace) = None"
  "node_at (fst (Uninstall sample_install_env ''/w'' ''..'' sample_workspace)) [''w'', ''keep''] = None"
  by code_simp+

end
