(* ===== verification/Skill_Loader.thy ===== *)
theory Skill_Loader
  imports Skill_Install
begin

text \<open>
  The skill loader: \<^verbatim>\<open>pkg/skills/loader.go\<close>, on the disk of \<open>Files\<close>. The regular expressions for front matter are written as the
  search they describe: the alternatives for a line ending are tried in the order of the expression, and the shortest block wins.
  \<open>env path\<close> says which system calls on \<open>path\<close> fail; \<open>decode\<close> stands for the decoding of a JSON object into the structure of a skill's metadata.
\<close>

subsection \<open>Metadata\<close>

record SkillMetadata =
  md_Name :: string
  md_Description :: string

record SkillInfo =
  si_Name :: string
  si_Path :: string
  si_Source :: string
  si_Description :: string

definition alnum :: "char \<Rightarrow> bool" where "alnum c \<longleftrightarrow> is_upper c \<or> is_lower c \<or> is_digit c"

definition namePattern :: "string \<Rightarrow> bool" where
  "namePattern s \<longleftrightarrow> list_all (\<lambda>w. w \<noteq> [] \<and> list_all alnum w) (split_on (\<lambda>c. c = CHR ''-'') s)"

definition MaxNameLength :: int where "MaxNameLength = 64"

definition MaxDescriptionLength :: int where "MaxDescriptionLength = 1024"

text \<open>The errors that \<^verbatim>\<open>errors.Join\<close> collects; none means that the skill is valid.\<close>

definition validate_skill :: "SkillInfo \<Rightarrow> string list" where
  "validate_skill info =
     (if si_Name info = [] then [''name is required'']
      else (if int (length (si_Name info)) > MaxNameLength then [''name exceeds 64 characters''] else []) @
           (if \<not> namePattern (si_Name info) then [''name must be alphanumeric with hyphens''] else [])) @
     (if si_Description info = [] then [''description is required'']
      else if int (length (si_Description info)) > MaxDescriptionLength then [''description exceeds 1024 character''] else [])"

subsection \<open>Front matter\<close>

abbreviation cr :: char where "cr \<equiv> CHR 0x0D"

abbreviation dashes :: string where "dashes \<equiv> ''---''"

text \<open>What remains after a line ending at the front of a text, one way of reading it after the other.\<close>

definition after_eol :: "string \<Rightarrow> string list" where
  "after_eol s =
     (if has_prefix [cr, nl] s then [drop 2 s] else []) @ (if has_prefix [nl] s then [drop 1 s] else []) @
     (if has_prefix [cr] s then [drop 1 s] else [])"

fun find_close :: "string \<Rightarrow> (string \<times> string) option" where
  "find_close s =
     (case find (has_prefix dashes) (after_eol s) of
        Some r \<Rightarrow> Some ([], drop 3 r)
      | None \<Rightarrow> (case s of [] \<Rightarrow> None | c # t \<Rightarrow> map_option (\<lambda>(block, rest). (c # block, rest)) (find_close t)))"

declare find_close.simps [simp del]

fun first_some :: "'a option list \<Rightarrow> 'a option" where
  "first_some [] = None"
| "first_some (Some x # xs) = Some x"
| "first_some (None # xs) = first_some xs"

definition match_frontmatter :: "string \<Rightarrow> (string \<times> string) option" where
  "match_frontmatter content =
     (if has_prefix dashes content then first_some (map find_close (after_eol (drop 3 content))) else None)"

definition extractFrontmatter :: "string \<Rightarrow> string" where
  "extractFrontmatter content = (case match_frontmatter content of None \<Rightarrow> [] | Some (block, rest) \<Rightarrow> block)"

definition stripFrontmatter :: "string \<Rightarrow> string" where
  "stripFrontmatter content =
     (case match_frontmatter content of None \<Rightarrow> content | Some (block, rest) \<Rightarrow> dropWhile (\<lambda>c. c = cr \<or> c = nl) rest)"

fun normalize_eol :: "string \<Rightarrow> string" where
  "normalize_eol [] = []"
| "normalize_eol (c # s) =
     (if c = cr then nl # (case s of d # t \<Rightarrow> if d = nl then normalize_eol t else normalize_eol s | [] \<Rightarrow> []) else c # normalize_eol s)"

definition trim_quotes :: "string \<Rightarrow> string" where
  "trim_quotes s = trim_right (\<lambda>c. c = dquote \<or> c = CHR 0x27) (dropWhile (\<lambda>c. c = dquote \<or> c = CHR 0x27) s)"

definition yaml_line :: "string \<Rightarrow> (string \<times> string) option" where
  "yaml_line l =
     (let line = trim_space l in
      if line = [] \<or> has_prefix ''#'' line then None
      else case split_n 2 (CHR '':'') line of
        [k, v] \<Rightarrow> Some (trim_space k, trim_quotes (trim_space v))
      | _ \<Rightarrow> None)"

definition parseSimpleYAML :: "string \<Rightarrow> string \<rightharpoonup> string" where
  "parseSimpleYAML content =
     foldl (\<lambda>m l. (case yaml_line l of None \<Rightarrow> m | Some (k, v) \<Rightarrow> m(k \<mapsto> v))) Map.empty (split_on (\<lambda>c. c = nl) (normalize_eol content))"

definition yaml_get :: "(string \<rightharpoonup> string) \<Rightarrow> string \<Rightarrow> string" where
  "yaml_get m k = (case m k of None \<Rightarrow> [] | Some v \<Rightarrow> v)"

type_synonym loader_env = "string \<Rightarrow> fs_env"

definition read_path :: "loader_env \<Rightarrow> string \<Rightarrow> disk \<Rightarrow> string option" where
  "read_path env path d = (case sys_read (env path) (host_place (env path) path) path d of Inl e \<Rightarrow> None | Inr content \<Rightarrow> Some content)"

definition getSkillMetadata :: "loader_env \<Rightarrow> (string \<Rightarrow> SkillMetadata option) \<Rightarrow> string \<Rightarrow> disk \<Rightarrow> SkillMetadata option" where
  "getSkillMetadata env decode skillPath d =
     (case read_path env skillPath d of
        None \<Rightarrow> None
      | Some content \<Rightarrow>
          let frontmatter = extractFrontmatter content in
          if frontmatter = [] then Some \<lparr>md_Name = Base (Dir skillPath), md_Description = []\<rparr>
          else case decode frontmatter of
            Some m \<Rightarrow> Some m
          | None \<Rightarrow>
              let m = parseSimpleYAML frontmatter in
              Some \<lparr>md_Name = yaml_get m ''name'', md_Description = yaml_get m ''description''\<rparr>)"

subsection \<open>Loading\<close>

record SkillsLoader =
  sl_workspace :: string
  sl_workspaceSkills :: string
  sl_globalSkills :: string
  sl_builtinSkills :: string

definition NewSkillsLoader :: "string \<Rightarrow> string \<Rightarrow> string \<Rightarrow> SkillsLoader" where
  "NewSkillsLoader workspace globalSkills builtinSkills =
     \<lparr>sl_workspace = workspace, sl_workspaceSkills = Join [workspace, ''skills''], sl_globalSkills = globalSkills, sl_builtinSkills = builtinSkills\<rparr>"

definition skill_file :: "string \<Rightarrow> string \<Rightarrow> string" where "skill_file dir name = Join [dir, name, ''SKILL.md'']"

text \<open>One entry of a directory of skills, up to the validation.\<close>

definition skill_info :: "loader_env \<Rightarrow> (string \<Rightarrow> SkillMetadata option) \<Rightarrow> string \<Rightarrow> string \<Rightarrow> disk \<Rightarrow> string \<times> bool \<Rightarrow> SkillInfo option" where
  "skill_info env decode source dir d entry =
     (case entry of (name, isDir) \<Rightarrow>
        let skillFile = skill_file dir name in
        if \<not> isDir \<or> \<not> stat_ok (env skillFile) skillFile d then None
        else let info = \<lparr>si_Name = name, si_Path = skillFile, si_Source = source, si_Description = []\<rparr> in
          Some (case getSkillMetadata env decode skillFile d of
                  None \<Rightarrow> info
                | Some m \<Rightarrow> info\<lparr>si_Description := md_Description m, si_Name := md_Name m\<rparr>))"

definition add_skill :: "SkillInfo list \<Rightarrow> SkillInfo option \<Rightarrow> SkillInfo list" where
  "add_skill skills info =
     (case info of
        None \<Rightarrow> skills
      | Some i \<Rightarrow> if validate_skill i \<noteq> [] \<or> si_Name i \<in> si_Name ` set skills then skills else skills @ [i])"

definition place_skills :: "loader_env \<Rightarrow> (string \<Rightarrow> SkillMetadata option) \<Rightarrow> disk \<Rightarrow> string \<times> string \<Rightarrow> SkillInfo option list" where
  "place_skills env decode d place =
     (let dir = fst place in
      if dir = [] then []
      else case sys_readdir (env dir) (host_place (env dir) dir) dir d of
        Inl e \<Rightarrow> []
      | Inr entries \<Rightarrow> map (skill_info env decode (snd place) dir d) entries)"

definition addSkills :: "loader_env \<Rightarrow> (string \<Rightarrow> SkillMetadata option) \<Rightarrow> disk \<Rightarrow> string \<times> string \<Rightarrow> SkillInfo list \<Rightarrow> SkillInfo list" where
  "addSkills env decode d place skills = foldl add_skill skills (place_skills env decode d place)"

definition skill_places :: "SkillsLoader \<Rightarrow> (string \<times> string) list" where
  "skill_places sl = [(sl_workspaceSkills sl, ''workspace''), (sl_globalSkills sl, ''global''), (sl_builtinSkills sl, ''builtin'')]"

definition ListSkills :: "loader_env \<Rightarrow> (string \<Rightarrow> SkillMetadata option) \<Rightarrow> SkillsLoader \<Rightarrow> disk \<Rightarrow> SkillInfo list" where
  "ListSkills env decode sl d = foldl (\<lambda>skills place. addSkills env decode d place skills) [] (skill_places sl)"

fun load_from :: "loader_env \<Rightarrow> string \<Rightarrow> disk \<Rightarrow> string list \<Rightarrow> string option" where
  "load_from env name d [] = None"
| "load_from env name d (dir # rest) =
     (case (if dir = [] then None else read_path env (skill_file dir name) d) of
        Some content \<Rightarrow> Some (stripFrontmatter content)
      | None \<Rightarrow> load_from env name d rest)"

definition LoadSkill :: "loader_env \<Rightarrow> SkillsLoader \<Rightarrow> string \<Rightarrow> disk \<Rightarrow> string option" where
  "LoadSkill env sl name d = load_from env name d [sl_workspaceSkills sl, sl_globalSkills sl, sl_builtinSkills sl]"

definition LoadSkillsForContext :: "loader_env \<Rightarrow> SkillsLoader \<Rightarrow> string list \<Rightarrow> disk \<Rightarrow> string" where
  "LoadSkillsForContext env sl skillNames d =
     join ([nl, nl] @ dashes @ [nl, nl])
       (List.map_filter (\<lambda>name. map_option (\<lambda>content. ''### Skill: '' @ name @ [nl, nl] @ content) (LoadSkill env sl name d)) skillNames)"

fun replace_with :: "char \<Rightarrow> string \<Rightarrow> string \<Rightarrow> string" where
  "replace_with c r [] = []"
| "replace_with c r (d # s) = (if d = c then r else [d]) @ replace_with c r s"

definition escapeXML :: "string \<Rightarrow> string" where
  "escapeXML s = replace_with (CHR ''>'') ''&gt;'' (replace_with (CHR ''<'') ''&lt;'' (replace_with (CHR ''&'') ''&amp;'' s))"

definition summary_lines :: "SkillInfo \<Rightarrow> string list" where
  "summary_lines s =
     [''  <skill>'', ''    <name>'' @ escapeXML (si_Name s) @ ''</name>'', ''    <description>'' @ escapeXML (si_Description s) @ ''</description>'',
      ''    <location>'' @ escapeXML (si_Path s) @ ''</location>'', ''    <source>'' @ si_Source s @ ''</source>'', ''  </skill>'']"

definition BuildSkillsSummary :: "loader_env \<Rightarrow> (string \<Rightarrow> SkillMetadata option) \<Rightarrow> SkillsLoader \<Rightarrow> disk \<Rightarrow> string" where
  "BuildSkillsSummary env decode sl d =
     (let allSkills = ListSkills env decode sl d in
      if allSkills = [] then [] else join [nl] ([''<skills>''] @ concat (map summary_lines allSkills) @ [''</skills>'']))"

subsection \<open>The list of skills\<close>

lemma find_append: "find P (xs @ ys) = (case find P xs of Some x \<Rightarrow> Some x | None \<Rightarrow> find P ys)"
  by (induction xs) simp_all

abbreviation named :: "string \<Rightarrow> SkillInfo list \<Rightarrow> SkillInfo option" where
  "named n \<equiv> find (\<lambda>i. si_Name i = n)"

lemma named_None: "named n xs = None \<longleftrightarrow> n \<notin> si_Name ` set xs"
  by (auto simp: find_None_iff)

text \<open>The valid skills among the candidates, in their order.\<close>

definition valid_skills :: "SkillInfo option list \<Rightarrow> SkillInfo list" where
  "valid_skills os = filter (\<lambda>i. validate_skill i = []) (List.map_filter id os)"

lemma valid_skills_Cons: "valid_skills (x # os) = (case x of None \<Rightarrow> [] | Some i \<Rightarrow> if validate_skill i = [] then [i] else []) @ valid_skills os"
  by (simp add: valid_skills_def List.map_filter_simps split: option.split)

lemma foldl_add_skill:
  assumes "distinct (map si_Name skills)" "list_all (\<lambda>i. validate_skill i = []) skills" "result = foldl add_skill skills os"
  shows "distinct (map si_Name result) \<and> list_all (\<lambda>i. validate_skill i = []) result \<and> named n result = named n (skills @ valid_skills os)"
  using assms(1,2) unfolding assms(3)
proof (induction os arbitrary: skills)
  case (Cons x os)
  have step: "distinct (map si_Name (add_skill skills x))" "list_all (\<lambda>i. validate_skill i = []) (add_skill skills x)"
    using Cons.prems by (auto simp: add_skill_def split: option.splits)
  have "named n (add_skill skills x @ valid_skills os) = named n (skills @ valid_skills (x # os))"
  proof (cases x)
    case (Some i)
    show ?thesis
    proof (cases "si_Name i \<in> si_Name ` set skills")
      case True
      then have "n = si_Name i \<Longrightarrow> named n skills \<noteq> None" using named_None by blast
      then show ?thesis using Some True
        by (auto simp: add_skill_def valid_skills_Cons find_append split: option.splits)
    qed (use Some in \<open>simp add: add_skill_def valid_skills_Cons find_append split: option.splits\<close>)
  qed (simp add: add_skill_def valid_skills_Cons)
  then show ?case using Cons.IH [OF step] by simp
qed (simp add: valid_skills_def List.map_filter_simps)

text \<open>(C33) 
  The list of skills: every name occurs once and every skill is valid, and under a name the list shows the first valid skill
  of that name in the order workspace, global, builtin, and within each of these in the order of the directory.
\<close>

theorem ListSkills_priority:
  "distinct (map si_Name (ListSkills env decode sl d)) \<and>
   list_all (\<lambda>i. validate_skill i = []) (ListSkills env decode sl d) \<and>
   (\<forall>n. named n (ListSkills env decode sl d) =
     named n (valid_skills (concat (map (place_skills env decode d)
       [(sl_workspaceSkills sl, ''workspace''), (sl_globalSkills sl, ''global''), (sl_builtinSkills sl, ''builtin'')]))))"
proof -
  have "ListSkills env decode sl d = foldl add_skill [] (concat (map (place_skills env decode d) (skill_places sl)))"
    by (simp add: ListSkills_def addSkills_def skill_places_def)
  from foldl_add_skill [OF _ _ this] show ?thesis by (simp add: skill_places_def)
qed

lemma replace_with_concat: "replace_with c r s = concat (map (\<lambda>d. if d = c then r else [d]) s)"
  by (induction s) simp_all

lemma escapeXML_eq:
  "escapeXML s = concat (map (\<lambda>c. if c = CHR ''&'' then ''&amp;'' else if c = CHR ''<'' then ''&lt;'' else if c = CHR ''>'' then ''&gt;'' else [c]) s)"
  unfolding escapeXML_def replace_with_concat by (induction s) simp_all

text \<open>What is put into the summary cannot open or close an element.\<close>

lemma escapeXML_no_markup: "CHR ''<'' \<notin> set (escapeXML s)" "CHR ''>'' \<notin> set (escapeXML s)"
  unfolding escapeXML_eq by (induction s) simp_all

subsection \<open>Front matter\<close>

lemma after_eol_nl: "after_eol (nl # s) = [s]"
  by (simp add: after_eol_def has_prefix_def)

lemma after_eol_crnl: "after_eol (cr # nl # s) = [s, nl # s]"
  by (simp add: after_eol_def has_prefix_def)

lemma after_eol_other: "c \<noteq> nl \<Longrightarrow> c \<noteq> cr \<Longrightarrow> after_eol (c # s) = []"
  by (simp add: after_eol_def has_prefix_def)

lemma no_dashes:
  assumes "\<not> contains block dashes" "eol = [nl] \<or> eol = [cr, nl]"
  shows "\<not> has_prefix dashes (block @ eol @ s)"
proof
  assume p: "has_prefix dashes (block @ eol @ s)"
  consider "block = []" | a where "block = [a]" | a b where "block = [a, b]" | a b c t where "block = a # b # c # t"
    by (cases block; cases "tl block"; cases "tl (tl block)") auto
  then show False
  proof cases
    case (4 a b c t)
    then have "block = [] @ dashes @ t" using p by (simp add: has_prefix_def)
    then show False using assms(1) contains_iff by blast
  qed (use p assms(2) in \<open>auto simp: has_prefix_def\<close>)
qed

lemma find_close_block:
  assumes "eol = [nl] \<or> eol = [cr, nl]" "\<not> contains block dashes" "eol = [nl] \<Longrightarrow> block = [] \<or> last block \<noteq> cr"
  shows "find_close (block @ eol @ dashes @ rest) = Some (block, rest)"
  using assms(2,3)
proof (induction block)
  case Nil
  have "find (has_prefix dashes) (after_eol (eol @ dashes @ rest)) = Some (dashes @ rest)"
    using assms(1) by (auto simp: after_eol_nl after_eol_crnl)
  then show ?case by (subst find_close.simps) simp
next
  case (Cons c block)
  let ?s = "block @ eol @ dashes @ rest"
  have tails: "\<not> contains block dashes" "\<And>d b. block = d # b \<Longrightarrow> \<not> contains b dashes"
    using Cons.prems(1) unfolding contains_iff by (metis append_Cons)+
  have s: "\<not> has_prefix dashes ?s" by (rule no_dashes [OF tails(1) assms(1)])
  have "find (has_prefix dashes) (after_eol (c # ?s)) = None"
  proof (cases "c = cr \<and> has_prefix [nl] ?s")
    case True
    then have "block \<noteq> []" using Cons.prems(2) assms(1) by (auto simp: has_prefix_def)
    then obtain b where b: "block = nl # b" using True by (cases block) (auto simp: has_prefix_def)
    have "\<not> has_prefix dashes (b @ eol @ dashes @ rest)" by (rule no_dashes [OF tails(2) [OF b] assms(1)])
    then show ?thesis using True s b by (simp add: after_eol_crnl)
  next
    case False
    then show ?thesis using s by (auto simp: after_eol_def has_prefix_def)
  qed
  moreover have "find_close ?s = Some (block, rest)"
    using Cons.IH [OF tails(1)] Cons.prems(2) by (cases "block = []") auto
  ultimately show ?case by (subst find_close.simps) simp
qed

text \<open>A front matter block that the documentation describes is read back exactly, and the rest of the file is what is loaded.\<close>

lemma frontmatter_read:
  assumes "eol = [nl] \<or> eol = [cr, nl]" "\<not> contains block dashes" "eol = [nl] \<Longrightarrow> block = [] \<or> last block \<noteq> cr"
  shows "extractFrontmatter (dashes @ eol @ block @ eol @ dashes @ rest) = block"
    and "stripFrontmatter (dashes @ eol @ block @ eol @ dashes @ rest) = dropWhile (\<lambda>c. c = cr \<or> c = nl) rest"
proof -
  note f = find_close_block [OF assms, where rest = rest]
  let ?s = "block @ eol @ dashes @ rest"
  have d: "drop 3 (dashes @ s) = s" for s by simp
  obtain more where m: "after_eol (eol @ ?s) = ?s # more" using assms(1) by (auto simp: after_eol_nl after_eol_crnl)
  have "first_some (map find_close (after_eol (eol @ ?s))) = Some (block, rest)" by (simp only: m list.map f first_some.simps)
  moreover have "has_prefix dashes (dashes @ eol @ ?s)" by (rule has_prefix_append)
  ultimately have "match_frontmatter (dashes @ eol @ ?s) = Some (block, rest)"
    by (simp only: match_frontmatter_def d if_True)
  then show "extractFrontmatter (dashes @ eol @ block @ eol @ dashes @ rest) = block"
    "stripFrontmatter (dashes @ eol @ block @ eol @ dashes @ rest) = dropWhile (\<lambda>c. c = cr \<or> c = nl) rest"
    by (simp_all only: extractFrontmatter_def stripFrontmatter_def option.case prod.case)
qed

text \<open>A value that the simple YAML reader leaves as it is.\<close>

definition plain_value :: "string \<Rightarrow> bool" where
  "plain_value s \<longleftrightarrow> s \<noteq> [] \<and> nl \<notin> set s \<and> cr \<notin> set s \<and>
     (\<forall>c \<in> {hd s, last s}. \<not> is_space c \<and> c \<noteq> dquote \<and> c \<noteq> CHR 0x27)"

definition yaml_block :: "string \<Rightarrow> string \<Rightarrow> string" where
  "yaml_block name description = ''name: '' @ name @ [nl] @ ''description: '' @ description"

definition skill_document :: "string \<Rightarrow> string \<Rightarrow> string \<Rightarrow> string" where
  "skill_document name description body =
     dashes @ [nl] @ yaml_block name description @ [nl] @ dashes @ [nl] @ body"

lemma trim_id: "s \<noteq> [] \<Longrightarrow> \<not> p (hd s) \<Longrightarrow> \<not> p (last s) \<Longrightarrow> trim_right p (dropWhile p s) = s"
  using trim_right_id [of s p] by (cases s) simp_all

lemma yaml_line_plain:
  assumes "plain_value v" "k \<noteq> []" "CHR '':'' \<notin> set k" "\<not> is_space (hd k)" "\<not> is_space (last k)" "hd k \<noteq> CHR ''#''"
  shows "yaml_line (k @ '': '' @ v) = Some (k, v)"
proof -
  have v: "v \<noteq> []" "\<not> is_space (hd v)" "\<not> is_space (last v)" using assms(1) by (auto simp: plain_value_def)
  let ?l = "k @ '': '' @ v"
  have t: "trim_space ?l = ?l" by (rule trim_space_id) (use assms v in simp)
  have n: "\<not> (?l = [] \<or> has_prefix ''#'' ?l)" using assms(2,6) by (cases k) (auto simp: has_prefix_def)
  have "split_n 2 (CHR '':'') ?l = [k, '' '' @ v]"
    using index_of_sep [OF assms(3), of "'' '' @ v"] by (simp add: numeral_2_eq_2)
  moreover have "trim_space k = k" by (rule trim_space_id) (use assms in simp)
  moreover have "trim_space ('' '' @ v) = v"
    using trim_id [of v is_space] v by (simp add: trim_space_def is_space_def)
  moreover have "trim_quotes v = v" unfolding trim_quotes_def by (rule trim_id) (use assms(1) in \<open>auto simp: plain_value_def\<close>)
  ultimately show ?thesis using t n by (simp add: yaml_line_def Let_def)
qed

lemma normalize_eol_id: "cr \<notin> set s \<Longrightarrow> normalize_eol s = s"
  by (induction s) auto

lemma split_on_free: "\<forall>c \<in> set s. \<not> p c \<Longrightarrow> split_on p s = [s]"
  by (induction s) simp_all

lemma split_on_two: "\<forall>c \<in> set s. \<not> p c \<Longrightarrow> p x \<Longrightarrow> split_on p (s @ x # t) = s # split_on p t"
  by (induction s) simp_all

lemma yaml_block_read:
  assumes "plain_value name" "plain_value description"
  shows "parseSimpleYAML (yaml_block name description) = [''name'' \<mapsto> name, ''description'' \<mapsto> description]"
proof -
  have free: "cr \<notin> set (yaml_block name description)" "\<forall>c \<in> set (''name: '' @ name). c \<noteq> nl" "\<forall>c \<in> set (''description: '' @ description). c \<noteq> nl"
    using assms by (auto simp: yaml_block_def plain_value_def)
  have "split_on (\<lambda>c. c = nl) (normalize_eol (yaml_block name description)) = [''name: '' @ name, ''description: '' @ description]"
    using split_on_two [of "''name: '' @ name" "\<lambda>c. c = nl" nl "''description: '' @ description"] free
      split_on_free [of "''description: '' @ description" "\<lambda>c. c = nl"]
    by (simp add: normalize_eol_id yaml_block_def)
  moreover have "yaml_line (''name: '' @ name) = Some (''name'', name)"
    using yaml_line_plain [OF assms(1), of "''name''"] by (simp add: is_space_def)
  moreover have "yaml_line (''description: '' @ description) = Some (''description'', description)"
    using yaml_line_plain [OF assms(2), of "''description''"] by (simp add: is_space_def)
  ultimately show ?thesis by (simp add: parseSimpleYAML_def)
qed

text \<open>
  A skill file that has the documented form, with a name and a description in front of the text, is read back: the loader reports
  this name and description, and loads the text, without the front matter and the blank lines after it.
\<close>

theorem skill_document_read:
  assumes "plain_value name" "plain_value description" "\<not> contains (yaml_block name description) dashes"
    and "read_path env path d = Some (skill_document name description body)" "decode (yaml_block name description) = None"
  shows "getSkillMetadata env decode path d = Some \<lparr>md_Name = name, md_Description = description\<rparr>"
    and "stripFrontmatter (skill_document name description body) = dropWhile (\<lambda>c. c = cr \<or> c = nl) body"
proof -
  have l: "[nl] = [nl] \<Longrightarrow> yaml_block name description = [] \<or> last (yaml_block name description) \<noteq> cr"
    using assms(2) by (auto simp: yaml_block_def plain_value_def is_space_def)
  note f = frontmatter_read [OF disjI1 [OF refl] assms(3) l, of "[nl] @ body"]
  have e: "extractFrontmatter (skill_document name description body) = yaml_block name description"
    unfolding skill_document_def by (rule f(1))
  have "yaml_block name description \<noteq> []" by (simp add: yaml_block_def)
  then show "getSkillMetadata env decode path d = Some \<lparr>md_Name = name, md_Description = description\<rparr>"
    using yaml_block_read [OF assms(1,2)] assms(4,5) e by (simp add: getSkillMetadata_def Let_def yaml_get_def)
  show "stripFrontmatter (skill_document name description body) = dropWhile (\<lambda>c. c = cr \<or> c = nl) body"
    using f(2) unfolding skill_document_def by simp
qed

subsection \<open>From installation to loading\<close>

lemma walk_file:
  assumes "dirs (base @ cur) (cs @ [x]) d" "''..'' \<notin> set (cs @ [x])" "node_at d (base @ cur @ cs @ [x]) = Some (FileNode s)"
  shows "walk Existing confined d base n cur (cs @ [x]) = Inr (cur @ cs @ [x])"
  using assms
proof (induction cs arbitrary: cur)
  case Nil
  have "x \<noteq> ''..''" "\<not> ([] = ([] :: string list) \<and> Existing = NoFollow)" using Nil by auto
  from walk_name(4) [OF this] show ?case using Nil by simp
next
  case (Cons c cs)
  have c: "c \<noteq> ''..''" "\<not> (cs @ [x] = [] \<and> Existing = NoFollow)" using Cons.prems by auto
  have "node_at d (base @ cur @ [c]) = Some DirNode" using Cons.prems by (simp add: dirs_Cons)
  from walk_name(3) [OF c this] show ?case using Cons.IH [of "cur @ [c]"] Cons.prems by (simp add: dirs_Cons)
qed

lemma read_path_file:
  assumes "IsAbs p" "comps p = cs @ [x]" "''..'' \<notin> set (cs @ [x])" "dirs [] (cs @ [x]) d" "node_at d (cs @ [x]) = Some (FileNode s)"
    and "fe_open (env p) = None"
  shows "read_path env p d = Some s"
proof -
  have "p \<noteq> []" using assms(1) by (auto simp: IsAbs_def)
  moreover have "walk Existing False d [] 40 [] (cs @ [x]) = Inr (cs @ [x])" using walk_file [of "[]" "[]" cs x d s] assms(3-5) by simp
  ultimately show ?thesis using assms(1,2,5,6) by (simp add: read_path_def sys_read_def locate_def host_place_def)
qed

lemma dirs_kept:
  assumes "dirs [] cs d" "kept P d d'" "\<And>q. q \<in> P \<Longrightarrow> \<not> strict_prefix q cs"
  shows "dirs [] cs d'"
  unfolding dirs_def
proof (intro allI impI)
  fix k assume k: "0 < k \<and> k < length cs"
  then have "strict_prefix (take k cs) cs" by (metis length_take linorder_not_less min.absorb4 prefix_length_less strict_prefix_def take_is_prefix take_all_iff less_irrefl)
  then have "take k cs \<notin> P" using assms(3) by blast
  then show "node_at d' ([] @ take k cs) = Some DirNode" using assms(1,2) k by (simp add: dirs_def kept_def)
qed

lemma archive_dirs:
  assumes "IsAbs targetDir" "Clean targetDir = targetDir" "tgt = clean_comps targetDir" "tgt \<noteq> []" "clear tgt d"
    and "ExtractZipFile unzip env envs zipPath targetDir d = (d', None)" "\<And>content es. unzip content = Inr es \<Longrightarrow> [] \<notin> set (entry_paths es)"
  shows "dirs [] (tgt @ [x]) d'"
proof -
  obtain content es d1 where r: "unzip content = Inr es" "mkdir_all env targetDir d = (d1, None)" "extract_entries envs 0 targetDir es d1 = (d', None)"
    using assms(6) by (auto simp: ExtractZipFile_def split: sum.splits prod.splits option.splits)
  have t: "comps targetDir = tgt" "''..'' \<notin> set tgt"
    using comps_Clean [of targetDir] abs_comps [OF assms(1)] assms(2,3) by simp_all
  note m = mkdir_all_inside [OF assms(5,1) t(1) _ t(2) r(2), of x]
  have k: "kept ((@) tgt ` set (entry_paths es)) d1 d'"
    using extract_entries_inside [OF assms(1,3) clear_inside [OF assms(5)] assms(4) r(3)] m by simp
  have "\<not> strict_prefix q (tgt @ [x])" if "q \<in> (@) tgt ` set (entry_paths es)" for q
  proof -
    from that obtain cs where cs: "q = tgt @ cs" "cs \<in> set (entry_paths es)" by (elim imageE)
    then have "cs \<noteq> []" using assms(7) [OF r(1)] by auto
    then show ?thesis using cs(1) by (auto simp: strict_prefix_def dest: prefix_length_le)
  qed
  then show ?thesis using dirs_kept [OF _ k] m by simp
qed

text \<open>What a successful download leaves on the disk: the files of the archive and the directories above them.\<close>

definition unpacked :: "zip_entry list \<Rightarrow> string list \<Rightarrow> disk \<Rightarrow> bool" where
  "unpacked entries tgt d \<longleftrightarrow> (\<forall>x. dirs [] (tgt @ [x]) d) \<and>
     list_all (\<lambda>f. ze_Dir f \<or> node_at d (tgt @ clean_comps (ze_Name f)) = Some (FileNode (ze_Data f))) entries"

definition proper_archive :: "hub_env \<Rightarrow> zip_entry list \<Rightarrow> bool" where
  "proper_archive env entries \<longleftrightarrow> (\<forall>content es. he_unzip env content = Inr es \<longrightarrow> es = entries) \<and> (\<forall>k. en_closes (he_entries env k)) \<and>
     distinct (entry_paths entries) \<and> [] \<notin> set (entry_paths entries)"

lemma unpacked_aside:
  assumes "unpacked entries tgt d" "aside p d d'" "\<not> prefix p tgt" "\<And>f. f \<in> set entries \<Longrightarrow> \<not> ze_Dir f \<Longrightarrow> tgt @ clean_comps (ze_Name f) \<noteq> p"
  shows "unpacked entries tgt d'"
proof -
  have "dirs [] (tgt @ [x]) d'" for x
    using assms(1) by (intro dirs_kept [OF _ aside_keep [OF assms(2)]]) (use assms(3) in \<open>auto simp: unpacked_def strict_prefix_def\<close>)
  moreover have "node_at d' (tgt @ clean_comps (ze_Name f)) = Some (FileNode (ze_Data f))" if "f \<in> set entries" "\<not> ze_Dir f" for f
    using assms(1,2) assms(4) [OF that] that unfolding unpacked_def list_all_iff aside_def by metis
  ultimately show ?thesis by (auto simp: unpacked_def list_all_iff)
qed

lemma download_success:
  assumes "spare tmp tgt d"
    and "(case DownloadToFile env reply tmp closes maxBytes d of
           (d, Inl e) \<Rightarrow> (d, Inl (W e))
         | (d, Inr p) \<Rightarrow>
             (case ExtractZipFile unzip xenv envs p targetDir d of
                (d, e) \<Rightarrow> (sys_remove (host_place xenv p) p d, case e of Some e \<Rightarrow> Inl e | None \<Rightarrow> Inr r0))) = (d', Inr r)"
  shows "\<exists>d1 d2. aside (comps tmp) d d1 \<and> ExtractZipFile unzip xenv envs tmp targetDir d1 = (d2, None) \<and>
    d' = sys_remove (host_place xenv tmp) tmp d2"
proof -
  obtain d1 s where x: "DownloadToFile env reply tmp closes maxBytes d = (d1, s)" by force
  note a = DownloadToFile_aside [OF assms(1) x]
  obtain d2 e where z: "ExtractZipFile unzip xenv envs tmp targetDir d1 = (d2, e)" by force
  show ?thesis using assms(2) x a z by (cases s; cases e) auto
qed

lemma DownloadAndInstall_unpacks:
  assumes "IsAbs targetDir" "Clean targetDir = targetDir" "clean_comps targetDir = tgt" "tgt \<noteq> []" "clear tgt d" "spare (he_tmp env) tgt d"
    and "proper_archive env entries" "DownloadAndInstall env c slug version targetDir d = (d', Inr result)"
  shows "unpacked entries tgt d'"
proof -
  let ?tmp = "he_tmp env"
  have v: "ValidateSkillIdentifier slug = None"
    using assms(8) by (cases "ValidateSkillIdentifier slug") (simp_all add: DownloadAndInstall_def)
  obtain u where "he_parse_url env (ch_baseURL c @ ch_downloadPath c) = Inr u"
    using assms(8) v by (cases "he_parse_url env (ch_baseURL c @ ch_downloadPath c)") (simp_all add: DownloadAndInstall_def Let_def)
  then obtain base q where u: "he_parse_url env (ch_baseURL c @ ch_downloadPath c) = Inr (base, q)" by (cases u) simp
  note run = assms(8) [unfolded DownloadAndInstall_def Let_def v option.case u sum.case prod.case]
  from download_success [OF assms(6) run]
  obtain d1 d2 where dl: "aside (comps ?tmp) d d1"
    and x: "ExtractZipFile (he_unzip env) (he_extract env) (he_entries env) ?tmp targetDir d1 = (d2, None)"
    and d': "d' = sys_remove (host_place (he_extract env) ?tmp) ?tmp d2" by (elim exE conjE)
  note c1 = clear_aside [OF dl assms(5)]
  note a = archive_confined [OF assms(1,2) assms(3) [symmetric] assms(4) c1 x]
  have "dirs [] (tgt @ [x]) d2" for x
    by (rule archive_dirs [OF assms(1,2) assms(3) [symmetric] assms(4) c1 x]) (use assms(7) in \<open>auto simp: proper_archive_def\<close>)
  then have un: "unpacked entries tgt d2" using a assms(7) by (auto simp: unpacked_def proper_archive_def list_all_iff)
  have s: "IsAbs ?tmp" "''..'' \<notin> set (comps ?tmp)" "straight d2 [] (comps ?tmp)" "\<not> prefix tgt (comps ?tmp)" "\<not> prefix (comps ?tmp) tgt"
    using assms(6) inside_straight [OF a [THEN conjunct1] aside_straight [OF dl]] by (auto simp: spare_def)
  then obtain ds t where dt: "comps ?tmp = ds @ [t]" by (metis Nil_prefix rev_exhaust)
  have "aside (comps ?tmp) d2 d'"
    using sys_remove_straight [OF _ _ dt, of d2 "host_place (he_extract env) ?tmp"] host_place_abs [OF s(1)] s dt d' by simp
  then show ?thesis by (rule unpacked_aside [OF un _ s(5)]) (use s(4) in \<open>metis prefixI\<close>)
qed

lemma tool_success:
  assumes "IsAbs workspace" "text_of args ''slug'' = slug" "slug \<noteq> ''.''"
    and "\<forall>r\<in>set (rm_registries rm). rg_DownloadAndInstall r = install"
    and "tgt = clean_comps workspace @ [''skills'', slug]" "clear tgt d" "spare tmp tgt d"
    and "InstallSkillTool_Execute env rm workspace args d = (d', res)" "\<not> tr_IsError res"
  shows "ValidateSkillIdentifier slug = None \<and> (\<exists>d1 d2 name version result. clear tgt d1 \<and> spare tmp tgt d1 \<and>
    install slug version (Join [Join [workspace, ''skills''], slug]) d1 = (d2, Inr result) \<and>
    d' = writeOriginMeta env (Join [Join [workspace, ''skills''], slug]) name slug (ir_Version result) d2)"
proof -
  define skillsDir targetDir where "skillsDir = Join [workspace, ''skills'']" and "targetDir = Join [skillsDir, slug]"
  define force where "force \<longleftrightarrow> map_of args ''force'' = Some (JBool True)"
  define d0 where "d0 = (if force then remove_all env targetDir d else d)"
  have err: "tr_IsError (ErrorResult m)" for m by (simp add: ErrorResult_def)
  have v: "ValidateSkillIdentifier slug = None" "ValidateSkillIdentifier (text_of args ''registry'') = None"
    using assms(2,8,9) err by (auto simp: InstallSkillTool_Execute_def Let_def split: option.splits)
  note p = skill_paths [OF assms(1) v(1) assms(3), folded skillsDir_def, folded targetDir_def]
  have t: "tgt = (clean_comps workspace @ [''skills'']) @ [slug]" using assms(5) by simp
  have i: "inside tgt d d0" using remove_all_inside [OF assms(6) p(3)] p(6,7) t by (simp add: d0_def)
  have go: "\<not> (\<not> force \<and> stat_ok (ie_fs env) targetDir d)"
    using assms(2,8,9) v err by (auto simp: InstallSkillTool_Execute_def Let_def force_def targetDir_def skillsDir_def)
  obtain registry where r: "GetRegistry (text_of args ''registry'') rm = Some registry"
    using assms(2,8,9) v go err
    by (cases "GetRegistry (text_of args ''registry'') rm") (auto simp: InstallSkillTool_Execute_def Let_def force_def targetDir_def skillsDir_def)
  have run: "(case mkdir_all (ie_fs env) skillsDir d0 of
            (d, Some e) \<Rightarrow> (d, ErrorResult (''failed to create skills directory: '' @ Error e))
          | (d, None) \<Rightarrow>
              (case rg_DownloadAndInstall registry slug (text_of args ''version'') targetDir d of
                 (d, Inl e) \<Rightarrow> (remove_all env targetDir d, ErrorResult (''failed to install '' @ go_quote slug @ '': '' @ Error e))
               | (d, Inr result) \<Rightarrow>
                   if ir_IsMalwareBlocked result then
                     (remove_all env targetDir d, ErrorResult (''skill '' @ go_quote slug @ '' is flagged as malicious and cannot be installed''))
                   else
                     (writeOriginMeta env targetDir (rg_Name registry) slug (ir_Version result) d,
                      SilentResult (install_message slug (rg_Name registry) targetDir result)))) = (d', res)"
    using assms(2,8) v go r unfolding InstallSkillTool_Execute_def Let_def d0_def force_def targetDir_def skillsDir_def
    by (simp only: option.case if_False if_True)
  obtain d1 e1 where m: "mkdir_all (ie_fs env) skillsDir d0 = (d1, e1)" by force
  have nd: "''..'' \<notin> set (clean_comps workspace @ [''skills''])" using p(7) by simp
  note made = mkdir_no_news [OF clear_inside [OF assms(6) i] p(1,2) t nd m]
  obtain d2 x where x: "rg_DownloadAndInstall registry slug (text_of args ''version'') targetDir d1 = (d2, x)" by force
  have reg: "rg_DownloadAndInstall registry = install" using GetRegistry_mem [OF r] assms(4) by blast
  have e1: "e1 = None" using run m err assms(9) by (cases e1) auto
  obtain result where x2: "x = Inr result" using run m e1 x err assms(9) by (cases x) auto
  have "d' = writeOriginMeta env targetDir (rg_Name registry) slug (ir_Version result) d2"
    using run m e1 x x2 err assms(9) by (auto split: if_splits)
  moreover have "inside tgt d d1" using made inside_trans [OF i] by simp
  ultimately show ?thesis
    using v(1) x x2 reg clear_inside [OF assms(6)] spare_inside [OF assms(7)] unfolding targetDir_def skillsDir_def by blast
qed

lemma origin_aside:
  assumes "IsAbs targetDir" "clean_comps targetDir = tgt" "''..'' \<notin> set tgt" "clear tgt d"
  shows "aside (tgt @ [''.skill-origin.json'']) d (writeOriginMeta env targetDir name slug v d)"
proof -
  let ?o = "''.skill-origin.json''"
  let ?p = "Join [targetDir, ?o]"
  have o: "comps ?o = [?o]" by code_simp
  have p: "?p = path_of True (tgt @ [?o])" using Join_rel [OF assms(1) _ o] assms(2) by simp
  have po: "list_all proper (tgt @ [?o])" using abs_comps [OF assms(1)] assms(2) by (simp add: proper_def)
  have cp: "IsAbs ?p" "comps ?p = tgt @ [?o]" using p po by (simp_all add: path_of_abs path_of_comps)
  obtain d2 e where w: "sys_write (ie_fs env) (host_place (ie_fs env) ?p) ?p (ie_origin env name slug v) d = (d2, e)" by force
  have "aside (tgt @ [?o]) d d2"
    using sys_write_straight [OF _ _ cp(2) _ w] host_place_abs [OF cp(1)] clear_straight [OF assms(4), of "tgt @ [?o]"] cp(2) assms(3) by simp
  then show ?thesis using w by (simp add: writeOriginMeta_def Let_def)
qed

lemma skill_file_path:
  assumes "IsAbs workspace" "ValidateSkillIdentifier slug = None" "slug \<noteq> ''.''"
  defines "p \<equiv> skill_file (Join [workspace, ''skills'']) slug" and "tgt \<equiv> clean_comps workspace @ [''skills'', slug]"
  shows "IsAbs p" "comps p = tgt @ [''SKILL.md'']" "''..'' \<notin> set (tgt @ [''SKILL.md''])"
proof -
  note s = skill_paths [OF assms(1-3)]
  note slug = valid_identifier [OF assms(2,3)]
  let ?s = "slug @ slash # ''SKILL.md''"
  have k: "comps ''SKILL.md'' = [''SKILL.md'']" by code_simp
  have cs: "comps ?s = [slug, ''SKILL.md'']" using comps_join2 [of slug "''SKILL.md''"] slug(3) k by simp
  have sd: "Join [workspace, ''skills''] \<noteq> []" using s(1) by (auto simp: IsAbs_def)
  have "p = Join [Join [workspace, ''skills''], ?s]"
    using sd slug(1) by (simp add: p_def skill_file_def Join_def proper_def)
  also have "\<dots> = path_of True (clean_comps (Join [workspace, ''skills'']) @ [slug, ''SKILL.md''])"
    using Join_rel [OF s(1) _ cs] slug(2) by simp
  also have "clean_comps (Join [workspace, ''skills'']) = clean_comps workspace @ [''skills'']"
    using s(1,2,7) by (simp add: clean_comps_def resolve_no_dots)
  finally have p: "p = path_of True (tgt @ [''SKILL.md''])" by (simp add: tgt_def)
  have "list_all proper (tgt @ [''SKILL.md''])" "''..'' \<notin> set (tgt @ [''SKILL.md''])"
    using abs_comps [OF assms(1)] slug by (simp_all add: tgt_def proper_def)
  then show "IsAbs p" "comps p = tgt @ [''SKILL.md'']" "''..'' \<notin> set (tgt @ [''SKILL.md''])"
    using p by (simp_all add: path_of_abs path_of_comps)
qed


definition sample_skill :: zip_entry where
  "sample_skill = sample_entry ''SKILL.md'' (skill_document ''greet'' ''Says hello'' ''Say hello.'')"


text \<open>A skill without front matter has no description and fails the validation: it can be loaded by its name, but no list shows it.\<close>

lemma no_frontmatter_never_listed:
  assumes "match_frontmatter content = None" "read_path env (skill_file dir name) d = Some content"
    and "skill_info env decode source dir d (name, isDir) = Some info"
  shows "add_skill skills (Some info) = skills"
proof -
  have "getSkillMetadata env decode (skill_file dir name) d = Some \<lparr>md_Name = Base (Dir (skill_file dir name)), md_Description = []\<rparr>"
    using assms(1,2) by (simp add: getSkillMetadata_def extractFrontmatter_def Let_def)
  then have "si_Description info = []" using assms(3) by (auto simp: skill_info_def Let_def split: if_splits)
  then have "validate_skill info \<noteq> []" by (simp add: validate_skill_def)
  then show ?thesis by (simp add: add_skill_def)
qed

end
