(* ===== verification/Antigravity.thy ===== *)
theory Antigravity
  imports Cli_Providers Auth Chat_API
begin

text \<open>
  The provider for Google's Cloud Code Assist, \<^verbatim>\<open>pkg/providers/antigravity_provider.go\<close>: the translation of a conversation
  into a Gemini request, the clean-up of tool schemas, the parsing of the event stream and of errors, and the token source. The HTTP
  exchanges, the JSON decoder, the clock and the random part of a request's identifier are arguments; numbers are the text of their
  literals, read by \<open>trunc\<close> (the conversion to an integer) and \<open>sign\<close>. Token usage and the logging are not kept.
\<close>

subsection \<open>Schemas\<close>

definition geminiUnsupportedKeywords :: "string list" where
  "geminiUnsupportedKeywords =
     [''patternProperties'', ''additionalProperties'', ''$schema'', ''$id'', ''$ref'', ''$defs'', ''definitions'', ''examples'',
      ''minLength'', ''maxLength'', ''minimum'', ''maximum'', ''multipleOf'', ''pattern'', ''format'', ''minItems'', ''maxItems'',
      ''uniqueItems'', ''minProperties'', ''maxProperties'']"

definition is_object :: "json \<Rightarrow> bool" where "is_object v = (case v of JObj m \<Rightarrow> True | _ \<Rightarrow> False)"

text \<open>The type of an object that has properties and no type.\<close>

definition with_type :: "json_obj \<Rightarrow> json_obj" where
  "with_type result =
     (if ''properties'' \<in> fst ` set result \<and> ''type'' \<notin> fst ` set result then result @ [(''type'', JStr ''object'')] else result)"

fun sanitize_value :: "json \<Rightarrow> json" where
  "sanitize_value (JObj schema) =
     JObj (with_type (map (\<lambda>(k, v). (k, sanitize_value v)) (filter (\<lambda>(k, v). k \<notin> set geminiUnsupportedKeywords) schema)))"
| "sanitize_value (JArr val) = JArr (map (\<lambda>item. if is_object item then sanitize_value item else item) val)"
| "sanitize_value v = v"

definition sanitizeSchemaForGemini :: "json_obj option \<Rightarrow> json_obj option" where
  "sanitizeSchemaForGemini schema =
     map_option (\<lambda>m. with_type (map (\<lambda>(k, v). (k, sanitize_value v)) (filter (\<lambda>(k, v). k \<notin> set geminiUnsupportedKeywords) m))) schema"

subsection \<open>Requests\<close>

record antigravityFunctionCall =
  af_Name :: string
  af_Args :: "json_obj option"

record antigravityFunctionResponse =
  ar_Name :: string
  ar_Response :: json_obj

record antigravityPart =
  ap_Text :: string
  ap_ThoughtSignature :: string
  ap_ThoughtSignatureSnake :: string
  ap_FunctionCall :: "antigravityFunctionCall option"
  ap_FunctionResponse :: "antigravityFunctionResponse option"

record antigravityContent =
  an_Role :: string
  an_Parts :: "antigravityPart list"

record antigravityFuncDecl =
  ad_Name :: string
  ad_Description :: string
  ad_Parameters :: "json_obj option"

record antigravityGenConfig =
  ag_MaxOutputTokens :: int
  ag_Temperature :: "string option"

text \<open>A list of tools is one tool with its declarations; the system prompt is the parts of the instruction.\<close>

record antigravityRequest =
  aq_Contents :: "antigravityContent list"
  aq_Tools :: "antigravityFuncDecl list list"
  aq_SystemPrompt :: "antigravityPart list option"
  aq_Config :: "antigravityGenConfig option"

record number_env =
  ne_trunc :: "string \<Rightarrow> int"
  ne_sign :: "string \<Rightarrow> int"

definition text_part :: "string \<Rightarrow> antigravityPart" where
  "text_part content = \<lparr>ap_Text = content, ap_ThoughtSignature = [], ap_ThoughtSignatureSnake = [], ap_FunctionCall = None, ap_FunctionResponse = None\<rparr>"

definition call_part :: "string \<Rightarrow> json_obj \<Rightarrow> string \<Rightarrow> antigravityPart" where
  "call_part name args sig =
     \<lparr>ap_Text = [], ap_ThoughtSignature = sig, ap_ThoughtSignatureSnake = sig,
      ap_FunctionCall = Some \<lparr>af_Name = name, af_Args = Some args\<rparr>, ap_FunctionResponse = None\<rparr>"

definition result_content :: "string \<Rightarrow> string \<Rightarrow> antigravityContent" where
  "result_content toolName content =
     \<lparr>an_Role = ''user'', an_Parts = [\<lparr>ap_Text = [], ap_ThoughtSignature = [], ap_ThoughtSignatureSnake = [], ap_FunctionCall = None,
        ap_FunctionResponse = Some \<lparr>ar_Name = toolName, ar_Response = [(''result'', JStr content)]\<rparr>\<rparr>]\<rparr>"

definition normalizeStoredToolCall :: "json_codec \<Rightarrow> ToolCall \<Rightarrow> string \<times> json_obj \<times> string" where
  "normalizeStoredToolCall codec tc =
     (let name = (case tc_Function tc of Some f \<Rightarrow> if tc_Name tc = [] then fn_Name f else tc_Name tc | None \<Rightarrow> tc_Name tc);
          sig = (case tc_Function tc of Some f \<Rightarrow> fn_ThoughtSignature f | None \<Rightarrow> []);
          args = (case tc_Arguments tc of None \<Rightarrow> [] | Some m \<Rightarrow> m)
      in (name,
          (case tc_Function tc of
             Some f \<Rightarrow>
               if args = [] \<and> fn_Arguments f \<noteq> []
               then (case jc_unmarshal codec (fn_Arguments f) of Some parsed \<Rightarrow> parsed | None \<Rightarrow> args)
               else args
           | None \<Rightarrow> args),
          sig))"

text \<open>Everything before the last underscore, if there is something.\<close>

definition before_last :: "char \<Rightarrow> string \<Rightarrow> string option" where
  "before_last c s = (if c \<in> set s then Some (rev (drop 1 (dropWhile (\<lambda>x. x \<noteq> c) (rev s)))) else None)"

definition inferToolNameFromCallID :: "string \<Rightarrow> string" where
  "inferToolNameFromCallID toolCallID =
     (if \<not> has_prefix ''call_'' toolCallID then toolCallID
      else case before_last (CHR ''_'') (drop 5 toolCallID) of
        Some candidate \<Rightarrow> if candidate \<noteq> [] then candidate else toolCallID
      | None \<Rightarrow> toolCallID)"

definition resolveToolResponseName :: "string \<Rightarrow> (string \<rightharpoonup> string) \<Rightarrow> string" where
  "resolveToolResponseName toolCallID toolCallNames =
     (if toolCallID = [] then []
      else case toolCallNames toolCallID of
        Some name \<Rightarrow> if name \<noteq> [] then name else inferToolNameFromCallID toolCallID
      | None \<Rightarrow> inferToolNameFromCallID toolCallID)"

text \<open>One stored call: the parts of the content so far and the names of the calls.\<close>

definition add_call :: "json_codec \<Rightarrow> ToolCall \<Rightarrow> antigravityPart list \<times> (string \<rightharpoonup> string) \<Rightarrow> antigravityPart list \<times> (string \<rightharpoonup> string)" where
  "add_call codec tc st =
     (case st of (parts, names) \<Rightarrow>
      case normalizeStoredToolCall codec tc of (toolName, toolArgs, sig) \<Rightarrow>
        if toolName = [] then (parts, names)
        else (parts @ [call_part toolName toolArgs sig], if tc_ID tc \<noteq> [] then names(tc_ID tc \<mapsto> toolName) else names))"

record request_state =
  rs_Contents :: "antigravityContent list"
  rs_System :: "antigravityPart list option"
  rs_Names :: "string \<rightharpoonup> string"

definition add_content :: "json_codec \<Rightarrow> Message \<Rightarrow> request_state \<Rightarrow> request_state" where
  "add_content codec msg rs =
     (let add = (\<lambda>c. rs\<lparr>rs_Contents := rs_Contents rs @ [c]\<rparr>);
          result = result_content (resolveToolResponseName (msg_ToolCallID msg) (rs_Names rs)) (msg_Content msg)
      in if msg_Role msg = ''system'' then rs\<lparr>rs_System := Some [text_part (msg_Content msg)]\<rparr>
         else if msg_Role msg = ''user'' then
           add (if msg_ToolCallID msg \<noteq> [] then result else \<lparr>an_Role = ''user'', an_Parts = [text_part (msg_Content msg)]\<rparr>)
         else if msg_Role msg = ''assistant'' then
           (case fold (add_call codec) (msg_ToolCalls msg) (if msg_Content msg \<noteq> [] then [text_part (msg_Content msg)] else [], rs_Names rs) of
              (parts, names) \<Rightarrow>
                rs\<lparr>rs_Contents := rs_Contents rs @ (if parts \<noteq> [] then [\<lparr>an_Role = ''model'', an_Parts = parts\<rparr>] else []), rs_Names := names\<rparr>)
         else if msg_Role msg = ''tool'' then add result
         else rs)"

definition request_contents :: "json_codec \<Rightarrow> Message list \<Rightarrow> request_state" where
  "request_contents codec messages =
     fold (add_content codec) messages \<lparr>rs_Contents = [], rs_System = None, rs_Names = Map.empty\<rparr>"

definition func_decls :: "ToolDefinition list \<Rightarrow> antigravityFuncDecl list" where
  "func_decls tools =
     map (\<lambda>t. \<lparr>ad_Name = tfd_Name (td_Function t), ad_Description = tfd_Description (td_Function t),
               ad_Parameters = sanitizeSchemaForGemini (tfd_Parameters (td_Function t))\<rparr>)
       (filter (\<lambda>t. td_Type t = ''function'') tools)"

definition gen_config :: "number_env \<Rightarrow> json_obj \<Rightarrow> antigravityGenConfig option" where
  "gen_config num options =
     (let maxTokens = (case map_of options ''max_tokens'' of Some (JNum n) \<Rightarrow> max 0 (ne_trunc num n) | _ \<Rightarrow> 0);
          temperature = (case map_of options ''temperature'' of Some (JNum t) \<Rightarrow> if ne_sign num t \<noteq> 0 then Some t else None | _ \<Rightarrow> None);
          warm = (case temperature of Some t \<Rightarrow> ne_sign num t > 0 | None \<Rightarrow> False)
      in if maxTokens > 0 \<or> warm then Some \<lparr>ag_MaxOutputTokens = maxTokens, ag_Temperature = temperature\<rparr> else None)"

definition buildRequest :: "json_codec \<Rightarrow> number_env \<Rightarrow> Message list \<Rightarrow> ToolDefinition list \<Rightarrow> json_obj \<Rightarrow> antigravityRequest" where
  "buildRequest codec num messages tools options =
     (let rs = request_contents codec messages; decls = func_decls tools in
      \<lparr>aq_Contents = rs_Contents rs, aq_Tools = (if decls \<noteq> [] then [decls] else []),
       aq_SystemPrompt = rs_System rs, aq_Config = gen_config num options\<rparr>)"

text \<open>The JSON of the request: fields marked \<^verbatim>\<open>omitempty\<close> are left out when empty; a nil list or map is null.\<close>

definition text_field :: "string \<Rightarrow> string \<Rightarrow> json_obj" where
  "text_field name value = (if value \<noteq> [] then [(name, JStr value)] else [])"

definition object_json :: "json_obj option \<Rightarrow> json" where
  "object_json m = (case m of Some m \<Rightarrow> JObj m | None \<Rightarrow> JNull)"

definition part_json :: "antigravityPart \<Rightarrow> json" where
  "part_json p = JObj (text_field ''text'' (ap_Text p) @ text_field ''thoughtSignature'' (ap_ThoughtSignature p) @
     text_field ''thought_signature'' (ap_ThoughtSignatureSnake p) @
     (case ap_FunctionCall p of
        Some c \<Rightarrow> [(''functionCall'', JObj [(''name'', JStr (af_Name c)), (''args'', object_json (af_Args c))])]
      | None \<Rightarrow> []) @
     (case ap_FunctionResponse p of
        Some r \<Rightarrow> [(''functionResponse'', JObj [(''name'', JStr (ar_Name r)), (''response'', JObj (ar_Response r))])]
      | None \<Rightarrow> []))"

definition content_json :: "antigravityContent \<Rightarrow> json" where
  "content_json c = JObj [(''role'', JStr (an_Role c)), (''parts'', JArr (map part_json (an_Parts c)))]"

definition decl_json :: "antigravityFuncDecl \<Rightarrow> json" where
  "decl_json d = JObj ([(''name'', JStr (ad_Name d))] @ text_field ''description'' (ad_Description d) @
     [(''parameters'', object_json (ad_Parameters d))])"

definition request_json :: "antigravityRequest \<Rightarrow> json" where
  "request_json q = JObj (
     [(''contents'', if aq_Contents q = [] then JNull else JArr (map content_json (aq_Contents q)))] @
     (if aq_Tools q \<noteq> [] then [(''tools'', JArr (map (\<lambda>ds. JObj [(''functionDeclarations'', JArr (map decl_json ds))]) (aq_Tools q)))] else []) @
     (case aq_SystemPrompt q of Some ps \<Rightarrow> [(''systemInstruction'', JObj [(''parts'', JArr (map part_json ps))])] | None \<Rightarrow> []) @
     (case aq_Config q of
        Some c \<Rightarrow> [(''generationConfig'', JObj (
          (if ag_MaxOutputTokens c \<noteq> 0 then [(''maxOutputTokens'', JNum (itoa (ag_MaxOutputTokens c)))] else []) @
          (case ag_Temperature c of Some t \<Rightarrow> [(''temperature'', JNum t)] | None \<Rightarrow> [])))]
      | None \<Rightarrow> []))"

subsection \<open>Responses\<close>

record sse_part =
  sp_Text :: string
  sp_ThoughtSignature :: string
  sp_ThoughtSignatureSnake :: string
  sp_FunctionCall :: "antigravityFunctionCall option"

record sse_candidate =
  sc_Parts :: "sse_part list"
  sc_FinishReason :: string

record sse_state =
  ss_contentParts :: "string list"
  ss_toolCalls :: "ToolCall list"
  ss_finishReason :: string

definition extractPartThoughtSignature :: "string \<Rightarrow> string \<Rightarrow> string" where
  "extractPartThoughtSignature sig sigSnake = (if sig \<noteq> [] then sig else if sigSnake \<noteq> [] then sigSnake else [])"

text \<open>A call of the stream, with the instant at which it is read and the text of its arguments.\<close>

definition call_id :: "string \<Rightarrow> int \<Rightarrow> string" where
  "call_id name nano = ''call_'' @ name @ ''_'' @ itoa nano"

definition sse_call :: "int \<Rightarrow> antigravityFunctionCall \<Rightarrow> string \<Rightarrow> string \<Rightarrow> ToolCall" where
  "sse_call nano c argumentsJSON sig =
     \<lparr>tc_ID = call_id (af_Name c) nano, tc_Type = [],
      tc_Function = Some \<lparr>fn_Name = af_Name c, fn_Arguments = argumentsJSON, fn_ThoughtSignature = sig\<rparr>,
      tc_Name = af_Name c, tc_Arguments = af_Args c, tc_ThoughtSignature = [], tc_ExtraContent = None\<rparr>"

definition sse_part_step :: "json_codec \<Rightarrow> (nat \<Rightarrow> int) \<Rightarrow> sse_part \<Rightarrow> sse_state \<Rightarrow> GoError + sse_state" where
  "sse_part_step codec nanos part ss =
     (let ss = (if sp_Text part \<noteq> [] then ss\<lparr>ss_contentParts := ss_contentParts ss @ [sp_Text part]\<rparr> else ss) in
      case sp_FunctionCall part of
        None \<Rightarrow> Inr ss
      | Some c \<Rightarrow>
          (case (case af_Args c of None \<Rightarrow> Inr ''null'' | Some m \<Rightarrow> jc_marshal codec m) of
             Inl err \<Rightarrow> Inl (ErrWrap ''marshal function call args: '' err)
           | Inr argumentsJSON \<Rightarrow>
               Inr (ss\<lparr>ss_toolCalls := ss_toolCalls ss @
                 [sse_call (nanos (length (ss_toolCalls ss))) c argumentsJSON
                    (extractPartThoughtSignature (sp_ThoughtSignature part) (sp_ThoughtSignatureSnake part))]\<rparr>)))"

fun sse_parts :: "json_codec \<Rightarrow> (nat \<Rightarrow> int) \<Rightarrow> sse_part list \<Rightarrow> sse_state \<Rightarrow> GoError + sse_state" where
  "sse_parts codec nanos [] ss = Inr ss"
| "sse_parts codec nanos (p # ps) ss =
     (case sse_part_step codec nanos p ss of Inl err \<Rightarrow> Inl err | Inr ss \<Rightarrow> sse_parts codec nanos ps ss)"

fun sse_candidates :: "json_codec \<Rightarrow> (nat \<Rightarrow> int) \<Rightarrow> sse_candidate list \<Rightarrow> sse_state \<Rightarrow> GoError + sse_state" where
  "sse_candidates codec nanos [] ss = Inr ss"
| "sse_candidates codec nanos (c # cs) ss =
     (case sse_parts codec nanos (sc_Parts c) ss of
        Inl err \<Rightarrow> Inl err
      | Inr ss \<Rightarrow> sse_candidates codec nanos cs (if sc_FinishReason c \<noteq> [] then ss\<lparr>ss_finishReason := sc_FinishReason c\<rparr> else ss))"

text \<open>The lines of the stream; a chunk that does not decode is skipped.\<close>

fun sse_lines :: "json_codec \<Rightarrow> (string \<Rightarrow> sse_candidate list option) \<Rightarrow> (nat \<Rightarrow> int) \<Rightarrow> string list \<Rightarrow> sse_state \<Rightarrow> GoError + sse_state" where
  "sse_lines codec decode nanos [] ss = Inr ss"
| "sse_lines codec decode nanos (line # lines) ss =
     (if \<not> has_prefix ''data: '' line then sse_lines codec decode nanos lines ss
      else let data = drop 6 line in
        if data = ''[DONE]'' then Inr ss
        else case decode data of
          None \<Rightarrow> sse_lines codec decode nanos lines ss
        | Some cands \<Rightarrow>
            (case sse_candidates codec nanos cands ss of Inl err \<Rightarrow> Inl err | Inr ss \<Rightarrow> sse_lines codec decode nanos lines ss))"

definition parseSSEResponse :: "json_codec \<Rightarrow> (string \<Rightarrow> sse_candidate list option) \<Rightarrow> (nat \<Rightarrow> int) \<Rightarrow> string \<Rightarrow> GoError + LLMResponse" where
  "parseSSEResponse codec decode nanos body =
     (case sse_lines codec decode nanos (scan_lines body) \<lparr>ss_contentParts = [], ss_toolCalls = [], ss_finishReason = []\<rparr> of
        Inl err \<Rightarrow> Inl err
      | Inr ss \<Rightarrow>
          Inr \<lparr>lr_Content = concat (ss_contentParts ss), lr_ReasoningContent = [], lr_ToolCalls = ss_toolCalls ss,
               lr_FinishReason = (if ss_finishReason ss = ''MAX_TOKENS'' then ''length''
                                  else if ss_toolCalls ss \<noteq> [] then ''tool_calls'' else ''stop'')\<rparr>)"

subsection \<open>Errors\<close>

definition truncateString :: "string \<Rightarrow> nat \<Rightarrow> string" where
  "truncateString s maxLen = (if length s \<le> maxLen then s else take maxLen s @ ''...'')"

text \<open>The body of an error: message, status and details.\<close>

record gemini_error =
  ge_Message :: string
  ge_Status :: string
  ge_Details :: "json_obj list"

definition has_suffix :: "string \<Rightarrow> string \<Rightarrow> bool" where
  "has_suffix p s \<longleftrightarrow> has_prefix (rev p) (rev s)"

definition reset_delay :: "json_obj \<Rightarrow> string option" where
  "reset_delay detail =
     (case map_of detail ''@type'' of
        Some (JStr typeVal) \<Rightarrow>
          if has_suffix ''ErrorInfo'' typeVal
          then (case map_of detail ''metadata'' of
                  Some (JObj metadata) \<Rightarrow> (case map_of metadata ''quotaResetDelay'' of Some (JStr delay) \<Rightarrow> Some delay | _ \<Rightarrow> None)
                | _ \<Rightarrow> None)
          else None
      | _ \<Rightarrow> None)"

fun first_delay :: "json_obj list \<Rightarrow> string option" where
  "first_delay [] = None"
| "first_delay (d # ds) = (case reset_delay d of Some delay \<Rightarrow> Some delay | None \<Rightarrow> first_delay ds)"

definition parseAntigravityError :: "(string \<Rightarrow> gemini_error option) \<Rightarrow> int \<Rightarrow> string \<Rightarrow> GoError" where
  "parseAntigravityError decode statusCode body =
     (case decode body of
        None \<Rightarrow> ErrNew (''antigravity API error (HTTP '' @ itoa statusCode @ ''): '' @ truncateString body 500)
      | Some e \<Rightarrow>
          let msg = ge_Message e in
          if statusCode = 429 then
            (case first_delay (ge_Details e) of
               Some delay \<Rightarrow> ErrNew (''antigravity rate limit exceeded: '' @ msg @ '' (reset in '' @ delay @ '')'')
             | None \<Rightarrow> ErrNew (''antigravity rate limit exceeded: '' @ msg))
          else ErrNew (''antigravity API error ('' @ ge_Status e @ ''): '' @ msg))"

subsection \<open>The provider\<close>

definition antigravityBaseURL :: string where "antigravityBaseURL = ''https://cloudcode-pa.googleapis.com''"
definition antigravityDefaultModel :: string where "antigravityDefaultModel = ''gemini-3-flash''"
definition antigravityUserAgent :: string where "antigravityUserAgent = ''antigravity''"
definition antigravityXGoogClient :: string where "antigravityXGoogClient = ''google-cloud-sdk vscode_cloudshelleditor/0.1''"
definition antigravityVersion :: string where "antigravityVersion = ''1.15.8''"

definition strip_prefix :: "string \<Rightarrow> string \<Rightarrow> string" where
  "strip_prefix p s = (if has_prefix p s then drop (length p) s else s)"

definition antigravity_model :: "string \<Rightarrow> string" where
  "antigravity_model model =
     (let model = (if model \<in> {[], ''antigravity'', ''google-antigravity''} then antigravityDefaultModel else model)
      in strip_prefix ''antigravity/'' (strip_prefix ''google-antigravity/'' model))"

definition client_metadata :: json_obj where
  "client_metadata = [(''ideType'', JStr ''IDE_UNSPECIFIED''), (''platform'', JStr ''PLATFORM_UNSPECIFIED''), (''pluginType'', JStr ''GEMINI'')]"

text \<open>The surroundings of an exchange: the codec, the numbers, the decoders of a chunk and of an error, the clock of the calls
  and the identifier of the request.\<close>

record gemini_env =
  gv_codec :: json_codec
  gv_num :: number_env
  gv_decode :: "string \<Rightarrow> sse_candidate list option"
  gv_decode_error :: "string \<Rightarrow> gemini_error option"
  gv_nanos :: "nat \<Rightarrow> int"
  gv_requestId :: string

definition envelope :: "gemini_env \<Rightarrow> string \<Rightarrow> string \<Rightarrow> antigravityRequest \<Rightarrow> json_obj" where
  "envelope env projectID model innerRequest =
     [(''project'', JStr projectID), (''model'', JStr model), (''request'', request_json innerRequest), (''requestType'', JStr ''agent''),
      (''userAgent'', JStr antigravityUserAgent), (''requestId'', JStr (gv_requestId env))]"

definition Antigravity_Chat :: "gemini_env \<Rightarrow> ('w \<Rightarrow> 'w \<times> (GoError + (string \<times> string))) \<Rightarrow>
    (string \<Rightarrow> (string \<times> string) list \<Rightarrow> string \<Rightarrow> 'w \<Rightarrow> 'w \<times> (GoError + (int \<times> (GoError + string)))) \<Rightarrow> 'w chat" where
  "Antigravity_Chat env tokenSource http messages tools model options w =
     (case tokenSource w of
        (w, Inl err) \<Rightarrow> (w, Inl (ErrWrap ''antigravity auth: '' err))
      | (w, Inr (accessToken, projectID)) \<Rightarrow>
          let model = antigravity_model model;
              innerRequest = buildRequest (gv_codec env) (gv_num env) messages tools options
          in case jc_marshal (gv_codec env) (envelope env projectID model innerRequest) of
               Inl err \<Rightarrow> (w, Inl (ErrWrap ''marshaling request: '' err))
             | Inr bodyBytes \<Rightarrow>
                 (case jc_marshal (gv_codec env) client_metadata of
                    Inl err \<Rightarrow> (w, Inl (ErrWrap ''marshal client metadata: '' err))
                  | Inr clientMetadata \<Rightarrow>
                      (case http (antigravityBaseURL @ ''/v1internal:streamGenerateContent?alt=sse'')
                              [(''Authorization'', ''Bearer '' @ accessToken), (''Content-Type'', ''application/json''), (''Accept'', ''text/event-stream''),
                               (''User-Agent'', ''antigravity/'' @ antigravityVersion @ '' linux/amd64''),
                               (''X-Goog-Api-Client'', antigravityXGoogClient), (''Client-Metadata'', clientMetadata)] bodyBytes w of
                         (w, Inl err) \<Rightarrow> (w, Inl (ErrWrap ''antigravity API call: '' err))
                       | (w, Inr (status, Inl err)) \<Rightarrow> (w, Inl (ErrWrap ''reading response: '' err))
                       | (w, Inr (status, Inr respBody)) \<Rightarrow>
                           if status \<noteq> 200 then (w, Inl (parseAntigravityError (gv_decode_error env) status respBody))
                           else (case parseSSEResponse (gv_codec env) (gv_decode env) (gv_nanos env) respBody of
                                   Inl err \<Rightarrow> (w, Inl err)
                                 | Inr llmResp \<Rightarrow>
                                     if lr_Content llmResp = [] \<and> lr_ToolCalls llmResp = []
                                     then (w, Inl (ErrNew ''antigravity: model returned an empty response (this model might be invalid or restricted)''))
                                     else (w, Inr llmResp)))))"

subsection \<open>The account\<close>

definition GoogleAntigravityOAuthConfig :: OAuthProviderConfig where
  "GoogleAntigravityOAuthConfig =
     \<lparr>oc_Issuer = ''https://accounts.google.com/o/oauth2/v2'',
      oc_ClientID = decodeBase64
        ''MTA3MTAwNjA2MDU5MS10bWhzc2luMmgyMWxjcmUyMzV2dG9sb2poNGc0MDNlcC5hcHBzLmdvb2dsZXVzZXJjb250ZW50LmNvbQ=='',
      oc_ClientSecret = decodeBase64 ''R09DU1BYLUs1OEZXUjQ4NkxkTEoxbUxCOHNYQzR6NnFEQWY='',
      oc_TokenURL = ''https://oauth2.googleapis.com/token'',
      oc_Scopes = ''https://www.googleapis.com/auth/cloud-platform https://www.googleapis.com/auth/userinfo.email https://www.googleapis.com/auth/userinfo.profile https://www.googleapis.com/auth/cclog https://www.googleapis.com/auth/experimentsandconfigs'',
      oc_Originator = [], oc_Port = 51121\<rparr>"

definition account_headers :: "string \<Rightarrow> (string \<times> string) list" where
  "account_headers accessToken =
     [(''Authorization'', ''Bearer '' @ accessToken), (''Content-Type'', ''application/json''), (''User-Agent'', antigravityUserAgent),
      (''X-Goog-Api-Client'', antigravityXGoogClient)]"

text \<open>The requests of the account: an error of the body's reading is ignored, so the answer is an error, or a status and what was read.\<close>

type_synonym post = "string \<Rightarrow> (string \<times> string) list \<Rightarrow> string \<Rightarrow> GoError + (int \<times> string)"

definition FetchAntigravityProjectID :: "json_codec \<Rightarrow> (string \<Rightarrow> GoError + string) \<Rightarrow> post \<Rightarrow> string \<Rightarrow> GoError + string" where
  "FetchAntigravityProjectID codec decode post accessToken =
     (case jc_marshal codec [(''metadata'', JObj client_metadata)] of
        Inl err \<Rightarrow> Inl (ErrWrap ''marshal loadCodeAssist request: '' err)
      | Inr reqBody \<Rightarrow>
          (case post (antigravityBaseURL @ ''/v1internal:loadCodeAssist'') (account_headers accessToken) reqBody of
             Inl err \<Rightarrow> Inl err
           | Inr (status, body) \<Rightarrow>
               if status \<noteq> 200 then Inl (ErrNew (''loadCodeAssist failed: '' @ body))
               else (case decode body of
                       Inl err \<Rightarrow> Inl err
                     | Inr project \<Rightarrow> if project = [] then Inl (ErrNew ''no project ID in loadCodeAssist response'') else Inr project)))"

record AntigravityModelInfo =
  mi_ID :: string
  mi_DisplayName :: string
  mi_IsExhausted :: bool

text \<open>The decoded map is a list in the order of its iteration.\<close>

definition FetchAntigravityModels :: "json_codec \<Rightarrow> (string \<Rightarrow> GoError + (string \<times> string \<times> bool) list) \<Rightarrow> post \<Rightarrow> string \<Rightarrow> string \<Rightarrow>
    GoError + AntigravityModelInfo list" where
  "FetchAntigravityModels codec decode post accessToken projectID =
     (case jc_marshal codec [(''project'', JStr projectID)] of
        Inl err \<Rightarrow> Inl (ErrWrap ''marshal fetchAvailableModels request: '' err)
      | Inr reqBody \<Rightarrow>
          (case post (antigravityBaseURL @ ''/v1internal:fetchAvailableModels'') (account_headers accessToken) reqBody of
             Inl err \<Rightarrow> Inl err
           | Inr (status, body) \<Rightarrow>
               if status \<noteq> 200 then Inl (ErrNew (''fetchAvailableModels failed (HTTP '' @ itoa status @ ''): '' @ truncateString body 200))
               else (case decode body of
                       Inl err \<Rightarrow> Inl (ErrWrap ''parsing models response: '' err)
                     | Inr decoded \<Rightarrow>
                         let models = map (\<lambda>(i, name, exhausted). \<lparr>mi_ID = i, mi_DisplayName = name, mi_IsExhausted = exhausted\<rparr>) decoded
                         in Inr (models @
                              (if ''gemini-3-flash-preview'' \<in> mi_ID ` set models then []
                               else [\<lparr>mi_ID = ''gemini-3-flash-preview'', mi_DisplayName = ''Gemini 3 Flash (Preview)'', mi_IsExhausted = False\<rparr>]) @
                              (if ''gemini-3-flash'' \<in> mi_ID ` set models then []
                               else [\<lparr>mi_ID = ''gemini-3-flash'', mi_DisplayName = ''Gemini 3 Flash'', mi_IsExhausted = False\<rparr>])))))"

text \<open>The refresh of a credential, with the fields that the answer does not have.\<close>

definition refreshed_credential :: "token_env \<Rightarrow> AuthCredential \<Rightarrow> GoError + AuthCredential" where
  "refreshed_credential env cred =
     (case RefreshAccessToken env cred GoogleAntigravityOAuthConfig of
        Inl err \<Rightarrow> Inl (ErrWrap ''refreshing token: '' err)
      | Inr refreshed \<Rightarrow>
          let r = refreshed\<lparr>ac_Email := ac_Email cred\<rparr>
          in Inr (if ac_ProjectID r = [] then r\<lparr>ac_ProjectID := ac_ProjectID cred\<rparr> else r))"

text \<open>The rest of the token source, with the credential in use; \<open>fetch\<close> is \<open>FetchAntigravityProjectID\<close>.\<close>

definition token_with_project :: "token_env \<Rightarrow> Auth.save_fault option \<Rightarrow> (string \<Rightarrow> GoError + string) \<Rightarrow> AuthCredential \<Rightarrow> auth_file \<Rightarrow>
    auth_file \<times> (GoError + (string \<times> string))" where
  "token_with_project env fault fetch cred f =
     (if IsExpired (te_now env) cred
      then (f, Inl (ErrNew ''antigravity credentials expired. Run: tinyclaw auth login --provider google-antigravity''))
      else if ac_ProjectID cred \<noteq> [] then (f, Inr (ac_AccessToken cred, ac_ProjectID cred))
      else case fetch (ac_AccessToken cred) of
             Inl err \<Rightarrow> (f, Inr (ac_AccessToken cred, ''rising-fact-p41fc''))
           | Inr fetchedID \<Rightarrow>
               (fst (SetCredential fault ''google-antigravity'' (cred\<lparr>ac_ProjectID := fetchedID\<rparr>) f), Inr (ac_AccessToken cred, fetchedID)))"

definition antigravity_token :: "token_env \<Rightarrow> Auth.save_fault option \<Rightarrow> Auth.save_fault option \<Rightarrow> (string \<Rightarrow> GoError + string) \<Rightarrow> auth_file \<Rightarrow>
    auth_file \<times> (GoError + (string \<times> string))" where
  "antigravity_token env fault1 fault2 fetch f =
     (case GetCredential f ''google-antigravity'' of
        Inl err \<Rightarrow> (f, Inl (if err = ErrCredentialNotFound
                              then ErrNew ''no credentials for google-antigravity. Run: tinyclaw auth login --provider google-antigravity''
                              else ErrWrap ''loading auth credentials: '' err))
      | Inr None \<Rightarrow> (f, Inl nil_deref)
      | Inr (Some cred) \<Rightarrow>
          if NeedsRefresh (te_now env) cred \<and> ac_RefreshToken cred \<noteq> []
          then (case refreshed_credential env cred of
                  Inl err \<Rightarrow> (f, Inl err)
                | Inr refreshed \<Rightarrow>
                    (case SetCredential fault1 ''google-antigravity'' refreshed f of
                       (f', Some err) \<Rightarrow> (f', Inl (ErrWrap ''saving refreshed token: '' err))
                     | (f', None) \<Rightarrow> token_with_project env fault2 fetch refreshed f'))
          else token_with_project env fault2 fetch cred f)"

subsection \<open>What the schemas keep\<close>

fun gemini_ok :: "json \<Rightarrow> bool" where
  "gemini_ok (JObj m) = (list_all (\<lambda>(k, v). k \<notin> set geminiUnsupportedKeywords \<and> gemini_ok v) m \<and>
     (''properties'' \<in> fst ` set m \<longrightarrow> ''type'' \<in> fst ` set m))"
| "gemini_ok (JArr vs) = list_all (\<lambda>v. is_object v \<longrightarrow> gemini_ok v) vs"
| "gemini_ok v = True"

lemma type_supported: "''type'' \<notin> set geminiUnsupportedKeywords"
  by (simp add: geminiUnsupportedKeywords_def)

lemma with_type_ok:
  assumes "list_all (\<lambda>(k, v). k \<notin> set geminiUnsupportedKeywords \<and> gemini_ok v) m"
  shows "gemini_ok (JObj (with_type m))"
  using assms type_supported by (auto simp: with_type_def)

lemma sanitize_ok: "gemini_ok (sanitize_value v)"
proof (induction v rule: sanitize_value.induct)
  case (1 schema)
  have "list_all (\<lambda>(k, v). k \<notin> set geminiUnsupportedKeywords \<and> gemini_ok v)
      (map (\<lambda>(k, v). (k, sanitize_value v)) (filter (\<lambda>(k, v). k \<notin> set geminiUnsupportedKeywords) schema))"
    using 1 by (fastforce simp: list_all_iff)
  then show ?case using with_type_ok by simp
next
  case (2 val)
  then show ?case by (auto simp: list_all_iff)
qed simp_all

lemma with_type_id: "(''properties'' \<in> fst ` set m \<longrightarrow> ''type'' \<in> fst ` set m) \<Longrightarrow> with_type m = m"
  by (auto simp: with_type_def)

lemma sanitize_id: "gemini_ok v \<Longrightarrow> sanitize_value v = v"
proof (induction v rule: sanitize_value.induct)
  case (1 schema)
  have f: "filter (\<lambda>(k, v). k \<notin> set geminiUnsupportedKeywords) schema = schema"
    using 1(2) by (auto simp: list_all_iff intro!: filter_True)
  have "map (\<lambda>(k, v). (k, sanitize_value v)) schema = schema"
    using 1 f by (fastforce simp: list_all_iff intro!: map_idI)
  then show ?case using f 1(2) with_type_id by simp
next
  case (2 val)
  then show ?case by (auto simp: list_all_iff intro!: map_idI)
qed simp_all

lemma map_of_sanitized:
  "map_of (map (\<lambda>(k, v). (k, f v)) (filter (\<lambda>(k, v). P k) m)) k = (if P k then map_option f (map_of m k) else None)"
  by (induction m) auto

lemma map_of_with_type:
  "map_of (with_type m) k = (if k = ''type'' \<and> map_of m ''type'' = None \<and> map_of m ''properties'' \<noteq> None then Some (JStr ''object'') else map_of m k)"
  using map_of_eq_None_iff [of m "''type''"] map_of_eq_None_iff [of m "''properties''"]
  by (auto simp: with_type_def map_add_def split: option.splits)


text \<open>The names of parameters are taken for keywords: a parameter called like one loses its schema, although it may be required.\<close>

definition format_tool :: json_obj where
  "format_tool = [(''type'', JStr ''object''), (''properties'', JObj [(''format'', JObj [(''type'', JStr ''string'')])]), (''required'', JArr [JStr ''format''])]"

lemma parameter_named_like_keyword:
  "sanitizeSchemaForGemini (Some format_tool) =
     Some [(''type'', JStr ''object''), (''properties'', JObj []), (''required'', JArr [JStr ''format''])]"
  by code_simp

subsection \<open>A turn of the agent\<close>

text \<open>The name of a call can be read off its identifier.\<close>

lemma itoa_no_underscore: "CHR ''_'' \<notin> set (itoa n)"
  by (rule itoa_notin) (simp_all add: is_digit_def less_eq_char_def)

lemma before_last_app: "c \<notin> set t \<Longrightarrow> before_last c (s @ c # t) = Some s"
proof -
  assume c: "c \<notin> set t"
  have "dropWhile (\<lambda>x. x \<noteq> c) (rev t @ c # rev s) = c # rev s"
    using c by (subst dropWhile_append2) auto
  then show ?thesis by (simp add: before_last_def)
qed

lemma infer_call_id: "name \<noteq> [] \<Longrightarrow> inferToolNameFromCallID (call_id name nano) = name"
proof -
  assume n: "name \<noteq> []"
  have "before_last (CHR ''_'') (name @ CHR ''_'' # itoa nano) = Some name"
    by (rule before_last_app [OF itoa_no_underscore])
  then show ?thesis using n by (simp add: inferToolNameFromCallID_def call_id_def has_prefix_def)
qed

lemma call_id_name: "call_id a i = call_id b j \<Longrightarrow> a = b"
proof -
  assume "call_id a i = call_id b j"
  then have e: "a @ CHR ''_'' # itoa i = b @ CHR ''_'' # itoa j" by (simp add: call_id_def)
  have "before_last (CHR ''_'') (a @ CHR ''_'' # itoa i) = Some a" "before_last (CHR ''_'') (b @ CHR ''_'' # itoa j) = Some b"
    by (rule before_last_app [OF itoa_no_underscore])+
  then show ?thesis using e by simp
qed

text \<open>The calls of a parsed response.\<close>

definition gemini_call :: "json_codec \<Rightarrow> ToolCall \<Rightarrow> bool" where
  "gemini_call codec tc \<longleftrightarrow>
     (\<exists>nano c text sig. tc = sse_call nano c text sig \<and> (case af_Args c of None \<Rightarrow> Inr ''null'' | Some m \<Rightarrow> jc_marshal codec m) = Inr text)"

lemma gemini_callI:
  "(case af_Args c of None \<Rightarrow> Inr ''null'' | Some m \<Rightarrow> jc_marshal codec m) = Inr text \<Longrightarrow> gemini_call codec (sse_call nano c text sig)"
  unfolding gemini_call_def by blast

lemma sse_part_calls:
  assumes "sse_part_step codec nanos p ss = Inr ss'" "list_all (gemini_call codec) (ss_toolCalls ss)"
  shows "list_all (gemini_call codec) (ss_toolCalls ss')"
  using assms by (auto simp: sse_part_step_def Let_def split: option.splits sum.splits if_splits intro!: gemini_callI)

lemma sse_parts_calls:
  "sse_parts codec nanos ps ss = Inr ss' \<Longrightarrow> list_all (gemini_call codec) (ss_toolCalls ss) \<Longrightarrow> list_all (gemini_call codec) (ss_toolCalls ss')"
  by (induction ps arbitrary: ss) (auto split: sum.splits dest: sse_part_calls)

lemma sse_candidates_calls:
  "sse_candidates codec nanos cs ss = Inr ss' \<Longrightarrow> list_all (gemini_call codec) (ss_toolCalls ss) \<Longrightarrow> list_all (gemini_call codec) (ss_toolCalls ss')"
  by (induction cs arbitrary: ss) (force split: sum.splits if_splits dest: sse_parts_calls)+

lemma sse_lines_calls:
  "sse_lines codec decode nanos ls ss = Inr ss' \<Longrightarrow> list_all (gemini_call codec) (ss_toolCalls ss) \<Longrightarrow> list_all (gemini_call codec) (ss_toolCalls ss')"
  by (induction ls arbitrary: ss) (auto simp: Let_def split: sum.splits if_splits option.splits dest: sse_candidates_calls)

lemma parsed_calls:
  assumes "parseSSEResponse codec decode nanos body = Inr r"
  shows "list_all (gemini_call codec) (lr_ToolCalls r)"
  using assms by (auto simp: parseSSEResponse_def split: sum.splits dest: sse_lines_calls)

text \<open>\<open>wire_args codec args\<close>: the codec gives back the arguments that it encodes.\<close>

definition args_of :: "ToolCall \<Rightarrow> json_obj" where
  "args_of tc = (case tc_Arguments tc of None \<Rightarrow> [] | Some m \<Rightarrow> m)"

definition signature_of :: "ToolCall \<Rightarrow> string" where
  "signature_of tc = (case tc_Function tc of Some f \<Rightarrow> fn_ThoughtSignature f | None \<Rightarrow> [])"

definition wire_args :: "json_codec \<Rightarrow> json_obj \<Rightarrow> bool" where
  "wire_args codec m = (case jc_marshal codec m of Inl err \<Rightarrow> False | Inr text \<Rightarrow> text \<noteq> [] \<and> jc_unmarshal codec text = Some m)"

definition stored_as :: "json_codec \<Rightarrow> ToolCall \<Rightarrow> ToolCall \<Rightarrow> bool" where
  "stored_as codec tc c \<longleftrightarrow>
     normalizeStoredToolCall codec c = (tc_Name tc, args_of tc, signature_of tc) \<and> tc_ID c = tc_ID tc \<and>
     tc_Name tc \<noteq> [] \<and> (\<exists>nano. tc_ID tc = call_id (tc_Name tc) nano)"

lemma normalized_call:
  assumes "gemini_call codec tc" "tc_Name tc \<noteq> []" "wire_args codec (args_of tc)" "jc_unmarshal codec ''null'' = None"
  shows "NormalizeToolCall codec tc = tc\<lparr>tc_Arguments := Some (args_of tc)\<rparr>"
proof -
  obtain nano c enc sig where tc: "tc = sse_call nano c enc sig"
    and t: "(case af_Args c of None \<Rightarrow> Inr ''null'' | Some m \<Rightarrow> jc_marshal codec m) = Inr enc"
    using assms(1) by (auto simp: gemini_call_def)
  have n: "af_Name c \<noteq> []" using assms(2) tc by (simp add: sse_call_def)
  have x: "enc \<noteq> []" and u: "args_of tc = [] \<Longrightarrow> jc_unmarshal codec enc = None \<or> jc_unmarshal codec enc = Some []"
    using t tc assms(3,4) by (auto simp: wire_args_def args_of_def sse_call_def split: option.splits)
  show ?thesis
    using n x u tc by (cases "af_Args c")
      (auto simp: NormalizeToolCall_def fill_name_def fill_arguments_def fill_function_def args_of_def sse_call_def Let_def split: option.splits)
qed

lemma call_stored:
  assumes "gemini_call codec tc" "tc_Name tc \<noteq> []" "wire_args codec (args_of tc)" "jc_unmarshal codec ''null'' = None"
    and "marshal_arguments codec (NormalizeToolCall codec tc) = Inr enc"
  shows "stored_as codec tc (agent_call (NormalizeToolCall codec tc) enc)"
proof -
  note n = normalized_call [OF assms(1-4)]
  have m: "jc_marshal codec (args_of tc) = Inr enc" using assms(5) n by (simp add: marshal_arguments_def)
  then have u: "enc \<noteq> []" "jc_unmarshal codec enc = Some (args_of tc)" using assms(3) by (simp_all add: wire_args_def)
  have f: "\<exists>f. tc_Function tc = Some f" "\<exists>nano. tc_ID tc = call_id (tc_Name tc) nano"
    using assms(1) by (auto simp: gemini_call_def sse_call_def)
  then show ?thesis
    using u assms(2) by (auto simp: stored_as_def normalizeStoredToolCall_def n agent_call_def signature_of_def Let_def)
qed

lemma calls_stored:
  assumes "list_all (gemini_call codec) tcs" "list_all (\<lambda>tc. tc_Name tc \<noteq> [] \<and> wire_args codec (args_of tc)) tcs"
    and "jc_unmarshal codec ''null'' = None" "build_calls codec agent_call (map (NormalizeToolCall codec) tcs) = Inr calls"
  shows "list_all2 (stored_as codec) tcs calls"
  using assms(1,2,4)
proof (induction tcs arbitrary: calls)
  case (Cons tc tcs)
  from Cons.prems(3) obtain enc cs where t: "marshal_arguments codec (NormalizeToolCall codec tc) = Inr enc"
    and cs: "build_calls codec agent_call (map (NormalizeToolCall codec) tcs) = Inr cs"
    and c: "calls = agent_call (NormalizeToolCall codec tc) enc # cs"
    by (auto split: sum.splits)
  have "stored_as codec tc (agent_call (NormalizeToolCall codec tc) enc)"
    by (rule call_stored [OF _ _ _ assms(3) t]) (use Cons.prems in simp_all)
  then show ?case using Cons.IH [OF _ _ cs] Cons.prems c by simp
qed simp

definition echo_part :: "ToolCall \<Rightarrow> antigravityPart" where
  "echo_part tc = call_part (tc_Name tc) (args_of tc) (signature_of tc)"

lemma add_calls:
  assumes "list_all2 (stored_as codec) tcs calls"
  shows "\<exists>names'. fold (add_call codec) calls (parts, names) = (parts @ map echo_part tcs, names') \<and>
    (\<forall>k. (k \<notin> tc_ID ` set tcs \<longrightarrow> names' k = names k)) \<and> (\<forall>tc\<in>set tcs. names' (tc_ID tc) = Some (tc_Name tc))"
  using assms
proof (induction tcs calls arbitrary: parts names rule: list_all2_induct)
  case (Cons tc tcs c calls)
  have s: "normalizeStoredToolCall codec c = (tc_Name tc, args_of tc, signature_of tc)" "tc_ID c = tc_ID tc" "tc_Name tc \<noteq> []"
    and "\<exists>nano. tc_ID tc = call_id (tc_Name tc) nano" using Cons.hyps(1) by (auto simp: stored_as_def)
  then obtain nano where i: "tc_ID tc = call_id (tc_Name tc) nano" by blast
  have "tc_ID tc \<noteq> []" using i by (simp add: call_id_def)
  then have a: "add_call codec c (parts, names) = (parts @ [echo_part tc], names(tc_ID tc \<mapsto> tc_Name tc))"
    using s by (simp add: add_call_def echo_part_def)
  obtain names' where n: "fold (add_call codec) calls (parts @ [echo_part tc], names(tc_ID tc \<mapsto> tc_Name tc)) =
      ((parts @ [echo_part tc]) @ map echo_part tcs, names')"
    "\<forall>k. k \<notin> tc_ID ` set tcs \<longrightarrow> names' k = (names(tc_ID tc \<mapsto> tc_Name tc)) k" "\<forall>t\<in>set tcs. names' (tc_ID t) = Some (tc_Name t)"
    using Cons.IH [of "parts @ [echo_part tc]" "names(tc_ID tc \<mapsto> tc_Name tc)"] by blast
  have same: "tc_Name t = tc_Name tc" if "t \<in> set tcs" "tc_ID t = tc_ID tc" for t
  proof -
    have "\<exists>nano. tc_ID t = call_id (tc_Name t) nano" using Cons.hyps(2) that(1) by (auto simp: list_all2_conv_all_nth in_set_conv_nth stored_as_def)
    then obtain k where "tc_ID t = call_id (tc_Name t) k" by blast
    then have "call_id (tc_Name t) k = call_id (tc_Name tc) nano" using i that(2) by simp
    then show ?thesis by (rule call_id_name)
  qed
  have "names' (tc_ID tc) = Some (tc_Name tc)"
  proof (cases "tc_ID tc \<in> tc_ID ` set tcs")
    case True
    then obtain t where t: "t \<in> set tcs" "tc_ID t = tc_ID tc" by auto
    then show ?thesis using n(3) same [OF t] by metis
  next
    case False
    then show ?thesis using n(2) by simp
  qed
  then have "\<forall>t\<in>set (tc # tcs). names' (tc_ID t) = Some (tc_Name t)" using n(3) by simp
  moreover have "\<forall>k. k \<notin> tc_ID ` set (tc # tcs) \<longrightarrow> names' k = names k" using n(2) by simp
  ultimately show ?case using a n(1) by simp
qed simp

lemma add_results:
  assumes "list_all2 (stored_as codec) tcs calls" "\<forall>tc\<in>set tcs. rs_Names rs (tc_ID tc) = Some (tc_Name tc)" "length results = length calls"
  shows "fold (add_content codec) (map2 (\<lambda>c res. tool_message res (tc_ID c)) calls results) rs =
    rs\<lparr>rs_Contents := rs_Contents rs @ map2 (\<lambda>tc res. result_content (tc_Name tc) res) tcs results\<rparr>"
  using assms
proof (induction tcs calls arbitrary: rs results rule: list_all2_induct)
  case (Cons tc tcs c calls)
  obtain res rest where r: "results = res # rest" using Cons.prems(2) by (cases results) auto
  have i: "tc_ID c = tc_ID tc" "tc_Name tc \<noteq> []" "tc_ID tc \<noteq> []" using Cons.hyps(1) by (auto simp: stored_as_def call_id_def)
  let ?rs = "rs\<lparr>rs_Contents := rs_Contents rs @ [result_content (tc_Name tc) res]\<rparr>"
  have "add_content codec (tool_message res (tc_ID c)) rs = ?rs"
    using i Cons.prems(1) by (simp add: add_content_def tool_message_def text_message_def resolveToolResponseName_def)
  then show ?case using Cons.IH [of ?rs rest] Cons.prems r by simp
qed simp

text \<open>(C34) 
  A turn with tool calls reaches Gemini as it happened. When a response of the stream is stored by the agent loop and its calls are answered, the next
  request is the earlier one followed by one message of the model, with the text of the response and every call in its order, with its
  name, its arguments and its thought signature, and by one answer for each call, under the name of the function that was called, also when two calls
  were read in the same instant and share their identifier.
\<close>

theorem gemini_turn_echoed:
  assumes "parseSSEResponse codec decode nanos body = Inr r" "lr_ToolCalls r \<noteq> []" "jc_unmarshal codec ''null'' = None"
    and "list_all (\<lambda>tc. tc_Name tc \<noteq> [] \<and> wire_args codec (args_of tc)) (lr_ToolCalls r)"
    and "build_calls codec agent_call (map (NormalizeToolCall codec) (lr_ToolCalls r)) = Inr calls" "length results = length calls"
  shows "aq_Contents (buildRequest codec num
      (messages @ assistant_message r calls # map2 (\<lambda>c res. tool_message res (tc_ID c)) calls results) tools options) =
    aq_Contents (buildRequest codec num messages tools options) @
    \<lparr>an_Role = ''model'', an_Parts = (if lr_Content r \<noteq> [] then [text_part (lr_Content r)] else []) @
      map (\<lambda>tc. call_part (tc_Name tc) (args_of tc) (signature_of tc)) (lr_ToolCalls r)\<rparr> #
    map2 (\<lambda>tc res. result_content (tc_Name tc) res) (lr_ToolCalls r) results"
proof -
  let ?tcs = "lr_ToolCalls r"
  let ?text = "if lr_Content r \<noteq> [] then [text_part (lr_Content r)] else []"
  note st = calls_stored [OF parsed_calls [OF assms(1)] assms(4,3,5)]
  define rs where "rs = request_contents codec messages"
  obtain names' where n: "fold (add_call codec) calls (?text, rs_Names rs) = (?text @ map echo_part ?tcs, names')"
    "\<forall>tc\<in>set ?tcs. names' (tc_ID tc) = Some (tc_Name tc)"
    using add_calls [OF st, of ?text "rs_Names rs"] by blast
  let ?c = "\<lparr>an_Role = ''model'', an_Parts = ?text @ map echo_part ?tcs\<rparr>"
  let ?rs = "rs\<lparr>rs_Contents := rs_Contents rs @ [?c], rs_Names := names'\<rparr>"
  have "add_content codec (assistant_message r calls) rs = ?rs"
    using n(1) assms(2) by (cases "lr_Content r = []") (simp_all add: add_content_def assistant_message_def text_message_def)
  moreover have "fold (add_content codec) (map2 (\<lambda>c res. tool_message res (tc_ID c)) calls results) ?rs =
      ?rs\<lparr>rs_Contents := rs_Contents ?rs @ map2 (\<lambda>tc res. result_content (tc_Name tc) res) ?tcs results\<rparr>"
    by (rule add_results [OF st _ assms(6)]) (use n(2) in simp)
  ultimately have "rs_Contents (request_contents codec (messages @ assistant_message r calls #
      map2 (\<lambda>c res. tool_message res (tc_ID c)) calls results)) =
    rs_Contents rs @ ?c # map2 (\<lambda>tc res. result_content (tc_Name tc) res) ?tcs results"
    by (simp add: request_contents_def rs_def)
  then show ?thesis by (simp add: buildRequest_def Let_def rs_def echo_part_def [abs_def])
qed

definition sample_gemini_codec :: json_codec where
  "sample_gemini_codec = \<lparr>jc_marshal = (\<lambda>m. Inr (if m = [] then ''{}'' else ''{x}'')),
     jc_unmarshal = (\<lambda>s. if s = ''{}'' then Some [] else if s = ''{x}'' then Some [(''x'', JNull)] else None)\<rparr>"

text \<open>A stream with a text and two calls of the same function, read in the same instant.\<close>

definition sample_chunk :: "string \<Rightarrow> sse_candidate list option" where
  "sample_chunk data = (if data = ''1''
     then Some [\<lparr>sc_Parts = [\<lparr>sp_Text = ''Ok'', sp_ThoughtSignature = [], sp_ThoughtSignatureSnake = [], sp_FunctionCall = None\<rparr>,
       \<lparr>sp_Text = [], sp_ThoughtSignature = [], sp_ThoughtSignatureSnake = ''sig'',
        sp_FunctionCall = Some \<lparr>af_Name = ''read_file'', af_Args = Some [(''x'', JNull)]\<rparr>\<rparr>,
       \<lparr>sp_Text = [], sp_ThoughtSignature = [], sp_ThoughtSignatureSnake = [], sp_FunctionCall = Some \<lparr>af_Name = ''read_file'', af_Args = None\<rparr>\<rparr>],
       sc_FinishReason = ''STOP''\<rparr>] else None)"

definition sample_stream :: "GoError + LLMResponse" where
  "sample_stream = parseSSEResponse sample_gemini_codec sample_chunk (\<lambda>_. 7) (''data: 1'' @ [nl] @ ''data: [DONE]'')"

definition no_numbers :: number_env where "no_numbers = \<lparr>ne_trunc = (\<lambda>_. 0), ne_sign = (\<lambda>_. 0)\<rparr>"

definition sample_calls_of :: "ToolCall list" where
  "sample_calls_of = [sse_call 7 \<lparr>af_Name = ''read_file'', af_Args = Some [(''x'', JNull)]\<rparr> ''{x}'' ''sig'',
    sse_call 7 \<lparr>af_Name = ''read_file'', af_Args = None\<rparr> ''null'' []]"

lemma sample_stream_parsed:
  "sample_stream = Inr \<lparr>lr_Content = ''Ok'', lr_ReasoningContent = [], lr_ToolCalls = sample_calls_of, lr_FinishReason = ''tool_calls''\<rparr>"
proof -
  have "split_on (\<lambda>c. c = nl) (''data: 1'' @ [nl] @ ''data: [DONE]'') = [''data: 1'', ''data: [DONE]'']" by code_simp
  then have l: "scan_lines (''data: 1'' @ [nl] @ ''data: [DONE]'') = [''data: 1'', ''data: [DONE]'']"
    by (simp add: scan_lines_def max_token_def)
  have "sse_lines sample_gemini_codec sample_chunk (\<lambda>_. 7) [''data: 1'', ''data: [DONE]''] \<lparr>ss_contentParts = [], ss_toolCalls = [], ss_finishReason = []\<rparr> =
    Inr \<lparr>ss_contentParts = [''Ok''], ss_toolCalls = sample_calls_of, ss_finishReason = ''STOP''\<rparr>" by code_simp
  then show ?thesis unfolding sample_stream_def parseSSEResponse_def l by (simp add: sample_calls_of_def)
qed

lemma sample_calls_wire: "list_all (\<lambda>tc. tc_Name tc \<noteq> [] \<and> wire_args sample_gemini_codec (args_of tc)) sample_calls_of"
  by code_simp

lemma sample_calls_built:
  "case build_calls sample_gemini_codec agent_call (map (NormalizeToolCall sample_gemini_codec) sample_calls_of) of Inl e \<Rightarrow> False | Inr cs \<Rightarrow> length cs = 2"
  by code_simp

theorem gemini_turn_echoed_witness:
  "case sample_stream of Inl err \<Rightarrow> False | Inr r \<Rightarrow>
     (case build_calls sample_gemini_codec agent_call (map (NormalizeToolCall sample_gemini_codec) (lr_ToolCalls r)) of Inl err \<Rightarrow> False | Inr calls \<Rightarrow>
        aq_Contents (buildRequest sample_gemini_codec no_numbers
          (assistant_message r calls # map2 (\<lambda>c res. tool_message res (tc_ID c)) calls [''a'', ''b'']) [] []) =
        [\<lparr>an_Role = ''model'', an_Parts = [text_part ''Ok'', call_part ''read_file'' [(''x'', JNull)] ''sig'', call_part ''read_file'' [] []]\<rparr>,
         result_content ''read_file'' ''a'', result_content ''read_file'' ''b''])"
proof -
  obtain r where r: "sample_stream = Inr r" "lr_Content r = ''Ok''" "lr_ToolCalls r = sample_calls_of"
    using sample_stream_parsed by simp
  have u: "jc_unmarshal sample_gemini_codec ''null'' = None" by code_simp
  note w = sample_calls_wire [folded r(3)]
  let ?b = "build_calls sample_gemini_codec agent_call (map (NormalizeToolCall sample_gemini_codec) (lr_ToolCalls r))"
  obtain calls where b: "?b = Inr calls" "length calls = 2"
    using sample_calls_built [folded r(3)] by (cases ?b) simp_all
  have ne: "lr_ToolCalls r \<noteq> []" by (simp add: r(3) sample_calls_of_def)
  have l: "length [''a'', ''b''] = length calls" using b(2) by simp
  note t = gemini_turn_echoed [OF r(1) [unfolded sample_stream_def] ne u w b(1) l, of no_numbers "[]" "[]" "[]", unfolded append.append_Nil]
  have z: "aq_Contents (buildRequest sample_gemini_codec no_numbers [] [] []) = []"
    by (simp add: buildRequest_def request_contents_def Let_def)
  have ok: "(if lr_Content r \<noteq> [] then [text_part (lr_Content r)] else []) = [text_part ''Ok'']" by (simp add: r(2))
  have parts: "map (\<lambda>tc. call_part (tc_Name tc) (args_of tc) (signature_of tc)) (lr_ToolCalls r) =
      [call_part ''read_file'' [(''x'', JNull)] ''sig'', call_part ''read_file'' [] []]"
    by (simp add: r(3) sample_calls_of_def sse_call_def args_of_def signature_of_def)
  have results: "map2 (\<lambda>tc res. result_content (tc_Name tc) res) (lr_ToolCalls r) [''a'', ''b''] =
      [result_content ''read_file'' ''a'', result_content ''read_file'' ''b'']"
    by (simp add: r(3) sample_calls_of_def sse_call_def)
  show ?thesis unfolding r(1) sum.case b(1) t z ok parts results append.append_Nil append.append_Cons by (rule refl)
qed

subsection \<open>Errors and the fallback chain\<close>

text \<open>A quota error that decodes is always a rate limit for the patterns of the classifier.\<close>

lemma quota_error_is_rate_limit:
  assumes "decode body = Some e"
  shows "classifyByMessage (to_lower (error_text (parseAntigravityError decode 429 body))) = FailoverRateLimit"
proof -
  obtain rest where t: "error_text (parseAntigravityError decode 429 body) = ''antigravity rate limit exceeded: '' @ rest"
  proof (cases "first_delay (ge_Details e)")
    case None
    then show ?thesis using assms that [of "ge_Message e"] by (simp add: parseAntigravityError_def Let_def)
  next
    case (Some delay)
    then show ?thesis using assms that [of "ge_Message e @ '' (reset in '' @ delay @ '')''"] by (simp add: parseAntigravityError_def Let_def)
  qed
  have l: "to_lower ''antigravity rate limit exceeded: '' = ''antigravity rate limit exceeded: ''" by code_simp
  have "MatchString (ilit ''rate'' @ [Cls (\<lambda>c. c = CHR ''_'' \<or> c = CHR '' '')] @ ilit ''limit'') (''antigravity rate limit exceeded: '' @ s)" for s
    by (simp add: MatchString_def ilit_def to_lower_def lower_char_def)
  then have "matchesAny (''antigravity rate limit exceeded: '' @ s) rateLimitPatterns" for s
    by (simp add: matchesAny_def rateLimitPatterns_def pattern_matches_def del: append_Cons append.simps)
  then show ?thesis unfolding t to_lower_append l classifyByMessage_def by (simp only: if_True)
qed

text \<open>An error of the server loses its status code on the way and is not classified, so the fallback chain
  gives up instead of trying the next candidate.\<close>

definition internal_error :: "string \<Rightarrow> gemini_error option" where
  "internal_error body = Some \<lparr>ge_Message = ''Internal error.'', ge_Status = ''INTERNAL'', ge_Details = []\<rparr>"

lemma server_error_unclassified:
  "ClassifyError (Some (parseAntigravityError internal_error 500 ''{}'')) ''antigravity'' ''gemini-3-flash'' = None"
  "classifyByStatus 500 = FailoverTimeout"
  by code_simp+

text \<open>
  The token source: what it returns is the access token of an unexpired credential, which the store holds when nothing fails, together with a
  project; a refresh keeps the refresh token, the e-mail address and the project.
\<close>

lemma antigravity_token_valid:
  assumes "antigravity_token env None fault fetch f = (f', Inr (token, project))" "GetCredential f ''google-antigravity'' = Inr (Some cred)"
    and "\<And>t p. fetch t = Inr p \<Longrightarrow> p \<noteq> []"
  shows "project \<noteq> [] \<and> (\<exists>c. ac_AccessToken c = token \<and> \<not> IsExpired (te_now env) c \<and> ac_Email c = ac_Email cred \<and>
    (ac_ProjectID cred \<noteq> [] \<longrightarrow> ac_ProjectID c \<noteq> []) \<and> (ac_RefreshToken cred \<noteq> [] \<longrightarrow> ac_RefreshToken c \<noteq> []))"
proof -
  have rest: "project \<noteq> [] \<and> ac_AccessToken c = token \<and> \<not> IsExpired (te_now env) c"
    if "token_with_project env fault fetch c g = (f', Inr (token, project))" for c g
    using that assms(3) by (auto simp: token_with_project_def split: if_splits sum.splits)
  show ?thesis
  proof (cases "NeedsRefresh (te_now env) cred \<and> ac_RefreshToken cred \<noteq> []")
    case False
    then have "token_with_project env fault fetch cred f = (f', Inr (token, project))" using assms(1,2) by (simp add: antigravity_token_def split: if_splits)
    then show ?thesis using rest by (intro conjI exI [of _ cred]) auto
  next
    case True
    then obtain c where c: "refreshed_credential env cred = Inr c"
      using assms(1,2) by (cases "refreshed_credential env cred") (simp_all add: antigravity_token_def)
    obtain g e where g: "SetCredential None ''google-antigravity'' c f = (g, e)" by force
    have "token_with_project env fault fetch c g = (f', Inr (token, project))"
      using assms(1,2) True c g by (cases e) (simp_all add: antigravity_token_def)
    note r = rest [OF this]
    obtain a where a: "RefreshAccessToken env cred GoogleAntigravityOAuthConfig = Inr a"
      and ca: "c = (if ac_ProjectID a = [] then a\<lparr>ac_Email := ac_Email cred, ac_ProjectID := ac_ProjectID cred\<rparr> else a\<lparr>ac_Email := ac_Email cred\<rparr>)"
      using c by (auto simp: refreshed_credential_def Let_def split: sum.splits)
    show ?thesis using r RefreshAccessToken_ok [OF a] ca by (intro conjI exI [of _ c]) auto
  qed
qed

end
