(* ===== verification/Migrate.thy ===== *)
theory Migrate
  imports Skill_Loader Models
begin

text \<open>
  The migration of an installation of the predecessor: \<^verbatim>\<open>pkg/migrate/migrate.go\<close>, \<^verbatim>\<open>workspace.go\<close> and \<^verbatim>\<open>config.go\<close>, on the
  disk of \<open>Files\<close>. A decoded JSON object is an association list in the order in which its map is iterated; keys are text in ASCII. The
  sections of the channels are named by their keys and their settings by their JSON names. What is printed is left out.
\<close>

subsection \<open>The old configuration\<close>

definition supportedProviders :: "string list" where
  "supportedProviders =
     [''anthropic'', ''openai'', ''openrouter'', ''groq'', ''zhipu'', ''vllm'', ''gemini'', ''qwen'', ''deepseek'', ''github_copilot'', ''mistral'']"

definition supportedChannels :: "string list" where
  "supportedChannels = [''telegram'', ''discord'', ''whatsapp'', ''feishu'', ''qq'', ''dingtalk'', ''maixcam'']"

definition underscore :: char where "underscore = CHR ''_''"

text \<open>The word boundary before an upper-case letter, from the characters around it.\<close>

definition word_break :: "char option \<Rightarrow> string \<Rightarrow> bool" where
  "word_break prev s =
     (case prev of
        None \<Rightarrow> False
      | Some p \<Rightarrow> is_lower p \<or> is_digit p \<or> is_upper p \<and> s \<noteq> [] \<and> is_lower (hd s))"

fun snake_from :: "char option \<Rightarrow> string \<Rightarrow> string" where
  "snake_from prev [] = []"
| "snake_from prev (r # s) =
     (if is_upper r then (if word_break prev s then [underscore] else []) @ [lower_char r] else [r]) @ snake_from (Some r) s"

definition camelToSnake :: "string \<Rightarrow> string" where "camelToSnake s = snake_from None s"

definition put_all :: "(string \<times> json) list \<Rightarrow> json_obj" where
  "put_all kvs = foldl (\<lambda>m (k, v). AList.update k v m) [] kvs"

fun convertKeysToSnake :: "json \<Rightarrow> json" where
  "convertKeysToSnake (JObj v) = JObj (put_all (map (\<lambda>(key, val). (camelToSnake key, convertKeysToSnake val)) v))"
| "convertKeysToSnake (JArr v) = JArr (map convertKeysToSnake v)"
| "convertKeysToSnake data = data"

definition rewriteWorkspacePath :: "string \<Rightarrow> string" where
  "rewriteWorkspacePath path = Replace1 path ''.openclaw'' ''.tinyclaw''"

definition getMap :: "json_obj \<Rightarrow> string \<Rightarrow> json_obj option" where
  "getMap data key = (case map_of data key of Some (JObj m) \<Rightarrow> Some m | _ \<Rightarrow> None)"

definition getString :: "json_obj \<Rightarrow> string \<Rightarrow> string option" where
  "getString data key = (case map_of data key of Some (JStr s) \<Rightarrow> Some s | _ \<Rightarrow> None)"

definition getFloat :: "json_obj \<Rightarrow> string \<Rightarrow> string option" where
  "getFloat data key = (case map_of data key of Some (JNum n) \<Rightarrow> Some n | _ \<Rightarrow> None)"

definition getBool :: "json_obj \<Rightarrow> string \<Rightarrow> bool option" where
  "getBool data key = (case map_of data key of Some (JBool b) \<Rightarrow> Some b | _ \<Rightarrow> None)"

definition getBoolOrDefault :: "json_obj \<Rightarrow> string \<Rightarrow> bool \<Rightarrow> bool" where
  "getBoolOrDefault data key defaultVal = (case getBool data key of Some v \<Rightarrow> v | None \<Rightarrow> defaultVal)"

definition getStringSlice :: "json_obj \<Rightarrow> string \<Rightarrow> string list" where
  "getStringSlice data key =
     (case map_of data key of
        Some (JArr arr) \<Rightarrow> List.map_filter (\<lambda>item. case item of JStr s \<Rightarrow> Some s | _ \<Rightarrow> None) arr
      | _ \<Rightarrow> [])"

text \<open>The part of the new configuration that a migration fills in.\<close>

record channel_section =
  ch_Enabled :: bool
  ch_AllowFrom :: "string list"
  ch_Settings :: "(string \<times> string) list"
  ch_Port :: int

record WebConfig =
  wc_BraveEnabled :: bool
  wc_BraveAPIKey :: string
  wc_BraveMaxResults :: int
  wc_DuckDuckGoMaxResults :: int

record full_config =
  fc_Config :: Config
  fc_Channels :: "(string \<times> channel_section) list"
  fc_GatewayHost :: string
  fc_GatewayPort :: int
  fc_Web :: WebConfig

definition convert_defaults :: "(string \<Rightarrow> int) \<Rightarrow> json_obj \<Rightarrow> AgentDefaults \<Rightarrow> AgentDefaults" where
  "convert_defaults trunc defaults ad =
     (let ad = (case getString defaults ''model_name'' of
                  Some v \<Rightarrow> ad\<lparr>ad_ModelName := v\<rparr>
                | None \<Rightarrow> (case getString defaults ''model'' of Some v \<Rightarrow> ad\<lparr>ad_Model := v\<rparr> | None \<Rightarrow> ad));
          ad = (case getFloat defaults ''max_tokens'' of Some v \<Rightarrow> ad\<lparr>ad_MaxTokens := trunc v\<rparr> | None \<Rightarrow> ad);
          ad = (case getFloat defaults ''temperature'' of Some v \<Rightarrow> ad\<lparr>ad_Temperature := Some v\<rparr> | None \<Rightarrow> ad);
          ad = (case getFloat defaults ''max_tool_iterations'' of Some v \<Rightarrow> ad\<lparr>ad_MaxToolIterations := trunc v\<rparr> | None \<Rightarrow> ad)
      in case getString defaults ''workspace'' of Some v \<Rightarrow> ad\<lparr>ad_Workspace := rewriteWorkspacePath v\<rparr> | None \<Rightarrow> ad)"

definition set_provider :: "string \<Rightarrow> ProviderConfig \<Rightarrow> bool \<Rightarrow> ProvidersConfig \<Rightarrow> ProvidersConfig" where
  "set_provider name pc webSearch ps =
     (if name = ''anthropic'' then ps\<lparr>ps_Anthropic := pc\<rparr>
      else if name = ''openai'' then ps\<lparr>ps_OpenAI := pc, ps_WebSearch := webSearch\<rparr>
      else if name = ''openrouter'' then ps\<lparr>ps_OpenRouter := pc\<rparr>
      else if name = ''groq'' then ps\<lparr>ps_Groq := pc\<rparr>
      else if name = ''zhipu'' then ps\<lparr>ps_Zhipu := pc\<rparr>
      else if name = ''vllm'' then ps\<lparr>ps_VLLM := pc\<rparr>
      else if name = ''gemini'' then ps\<lparr>ps_Gemini := pc\<rparr>
      else ps)"

definition convert_provider :: "string \<times> json \<Rightarrow> ProvidersConfig \<times> string list \<Rightarrow> ProvidersConfig \<times> string list" where
  "convert_provider entry st =
     (case (entry, st) of
        ((name, JObj pMap), (ps, warnings)) \<Rightarrow>
          let apiKey = (case getString pMap ''api_key'' of Some v \<Rightarrow> v | None \<Rightarrow> []);
              apiBase = (case getString pMap ''api_base'' of Some v \<Rightarrow> v | None \<Rightarrow> [])
          in if name \<notin> set supportedProviders
             then (ps, if apiKey \<noteq> [] \<or> apiBase \<noteq> []
                       then warnings @ [''Provider '' @ [CHR 0x27] @ name @ [CHR 0x27] @ '' not supported in TinyClaw, skipping''] else warnings)
             else (set_provider name (zero_provider\<lparr>pc_APIKey := apiKey, pc_APIBase := apiBase\<rparr>) (getBoolOrDefault pMap ''web_search'' True) ps, warnings)
      | (_, st) \<Rightarrow> st)"

text \<open>The settings of each channel.\<close>

definition channel_settings :: "string \<Rightarrow> string list" where
  "channel_settings name =
     (if name = ''telegram'' \<or> name = ''discord'' then [''token'']
      else if name = ''whatsapp'' then [''bridge_url'']
      else if name = ''feishu'' then [''app_id'', ''app_secret'', ''encrypt_key'', ''verification_token'']
      else if name = ''qq'' then [''app_id'', ''app_secret'']
      else if name = ''dingtalk'' then [''client_id'', ''client_secret'']
      else if name = ''maixcam'' then [''host'']
      else [])"

definition convert_section :: "(string \<Rightarrow> int) \<Rightarrow> string \<Rightarrow> json_obj \<Rightarrow> channel_section \<Rightarrow> channel_section" where
  "convert_section trunc name cMap sec =
     (let sec = sec\<lparr>ch_Enabled := (getBool cMap ''enabled'' = Some True), ch_AllowFrom := getStringSlice cMap ''allow_from'',
            ch_Settings := foldl (\<lambda>m key. (case getString cMap key of Some v \<Rightarrow> AList.update key v m | None \<Rightarrow> m)) (ch_Settings sec) (channel_settings name)\<rparr>
      in if name = ''maixcam'' then (case getFloat cMap ''port'' of Some v \<Rightarrow> sec\<lparr>ch_Port := trunc v\<rparr> | None \<Rightarrow> sec) else sec)"

definition convert_channel :: "(string \<Rightarrow> int) \<Rightarrow> string \<times> json \<Rightarrow> (string \<times> channel_section) list \<times> string list \<Rightarrow>
    (string \<times> channel_section) list \<times> string list" where
  "convert_channel trunc entry st =
     (case (entry, st) of
        ((name, JObj cMap), (secs, warnings)) \<Rightarrow>
          if name \<notin> set supportedChannels
          then (secs, warnings @ [''Channel '' @ [CHR 0x27] @ name @ [CHR 0x27] @ '' not supported in TinyClaw, skipping''])
          else (map (\<lambda>(n, sec). (n, if n = name then convert_section trunc name cMap sec else sec)) secs, warnings)
      | (_, st) \<Rightarrow> st)"

definition convert_web :: "(string \<Rightarrow> int) \<Rightarrow> json_obj \<Rightarrow> WebConfig \<Rightarrow> WebConfig" where
  "convert_web trunc search w =
     (let w = (case getString search ''api_key'' of
                 Some v \<Rightarrow> w\<lparr>wc_BraveAPIKey := v, wc_BraveEnabled := (if v \<noteq> [] then True else wc_BraveEnabled w)\<rparr> | None \<Rightarrow> w)
      in case getFloat search ''max_results'' of Some v \<Rightarrow> w\<lparr>wc_BraveMaxResults := trunc v, wc_DuckDuckGoMaxResults := trunc v\<rparr> | None \<Rightarrow> w)"

text \<open>\<open>ConvertConfig\<close> starts from the default configuration and never fails.\<close>

definition ConvertConfig :: "(string \<Rightarrow> int) \<Rightarrow> full_config \<Rightarrow> json_obj \<Rightarrow> full_config \<times> string list" where
  "ConvertConfig trunc defaults data =
     (let cfg = defaults;
          cfg = (case getMap data ''agents'' of
                   Some agents \<Rightarrow>
                     (case getMap agents ''defaults'' of
                        Some defs \<Rightarrow> cfg\<lparr>fc_Config := (fc_Config cfg)\<lparr>cf_Defaults := convert_defaults trunc defs (cf_Defaults (fc_Config cfg))\<rparr>\<rparr>
                      | None \<Rightarrow> cfg)
                 | None \<Rightarrow> cfg);
          (ps, warnings) = (case getMap data ''providers'' of
                   Some providers \<Rightarrow> fold convert_provider providers (cf_Providers (fc_Config cfg), [])
                 | None \<Rightarrow> (cf_Providers (fc_Config cfg), []));
          cfg = cfg\<lparr>fc_Config := (fc_Config cfg)\<lparr>cf_Providers := ps\<rparr>\<rparr>;
          (secs, warnings) = (case getMap data ''channels'' of
                   Some channels \<Rightarrow> fold (convert_channel trunc) channels (fc_Channels cfg, warnings)
                 | None \<Rightarrow> (fc_Channels cfg, warnings));
          cfg = cfg\<lparr>fc_Channels := secs\<rparr>;
          cfg = (case getMap data ''gateway'' of
                   Some gateway \<Rightarrow>
                     let cfg = (case getString gateway ''host'' of Some v \<Rightarrow> cfg\<lparr>fc_GatewayHost := v\<rparr> | None \<Rightarrow> cfg)
                     in (case getFloat gateway ''port'' of Some v \<Rightarrow> cfg\<lparr>fc_GatewayPort := trunc v\<rparr> | None \<Rightarrow> cfg)
                 | None \<Rightarrow> cfg);
          cfg = (case Option.bind (Option.bind (getMap data ''tools'') (\<lambda>t. getMap t ''web'')) (\<lambda>w. getMap w ''search'') of
                   Some search \<Rightarrow> cfg\<lparr>fc_Web := convert_web trunc search (fc_Web cfg)\<rparr>
                 | None \<Rightarrow> cfg)
      in (cfg, warnings))"

definition merge_section :: "string \<Rightarrow> (string \<times> channel_section) list \<Rightarrow> (string \<times> channel_section) list \<Rightarrow> (string \<times> channel_section) list" where
  "merge_section name incoming existing =
     map (\<lambda>(n, sec). (n, case map_of incoming n of
                        Some new \<Rightarrow> if n = name \<and> \<not> ch_Enabled sec \<and> ch_Enabled new then new else sec
                      | None \<Rightarrow> sec)) existing"

definition keep_keyed :: "ProviderConfig \<Rightarrow> ProviderConfig \<Rightarrow> ProviderConfig" where
  "keep_keyed existing incoming = (if pc_APIKey existing = [] then incoming else existing)"

definition merge_providers :: "ProvidersConfig \<Rightarrow> ProvidersConfig \<Rightarrow> ProvidersConfig" where
  "merge_providers e i =
     e\<lparr>ps_Anthropic := keep_keyed (ps_Anthropic e) (ps_Anthropic i),
       ps_OpenAI := keep_keyed (ps_OpenAI e) (ps_OpenAI i),
       ps_WebSearch := (if pc_APIKey (ps_OpenAI e) = [] then ps_WebSearch i else ps_WebSearch e),
       ps_OpenRouter := keep_keyed (ps_OpenRouter e) (ps_OpenRouter i),
       ps_Groq := keep_keyed (ps_Groq e) (ps_Groq i),
       ps_Zhipu := keep_keyed (ps_Zhipu e) (ps_Zhipu i),
       ps_VLLM := (if pc_APIKey (ps_VLLM e) = [] \<and> pc_APIBase (ps_VLLM e) = [] then ps_VLLM i else ps_VLLM e),
       ps_Gemini := keep_keyed (ps_Gemini e) (ps_Gemini i),
       ps_DeepSeek := keep_keyed (ps_DeepSeek e) (ps_DeepSeek i),
       ps_GitHubCopilot := (if pc_APIBase (ps_GitHubCopilot e) = [] then ps_GitHubCopilot i else ps_GitHubCopilot e),
       ps_Qwen := keep_keyed (ps_Qwen e) (ps_Qwen i)\<rparr>"

definition MergeConfig :: "full_config \<Rightarrow> full_config \<Rightarrow> full_config" where
  "MergeConfig existing incoming =
     existing\<lparr>fc_Config := (fc_Config existing)\<lparr>cf_Providers := merge_providers (cf_Providers (fc_Config existing)) (cf_Providers (fc_Config incoming))\<rparr>,
       fc_Channels := fold (\<lambda>name. merge_section name (fc_Channels incoming)) supportedChannels (fc_Channels existing),
       fc_Web := (if wc_BraveAPIKey (fc_Web existing) = []
                  then (fc_Web existing)\<lparr>wc_BraveEnabled := wc_BraveEnabled (fc_Web incoming), wc_BraveAPIKey := wc_BraveAPIKey (fc_Web incoming),
                         wc_BraveMaxResults := wc_BraveMaxResults (fc_Web incoming)\<rparr>
                  else fc_Web existing)\<rparr>"

subsection \<open>Planning\<close>

datatype ActionType = ActionCopy | ActionSkip | ActionBackup | ActionConvertConfig | ActionCreateDir | ActionMergeConfig

record Action =
  ac_Type :: ActionType
  ac_Source :: string
  ac_Destination :: string
  ac_Description :: string

record Options =
  op_DryRun :: bool
  op_ConfigOnly :: bool
  op_WorkspaceOnly :: bool
  op_Force :: bool
  op_Refresh :: bool
  op_OpenClawHome :: string
  op_TinyClawHome :: string

text \<open>\<^verbatim>\<open>os.Stat\<close> reports that a path does not exist.\<close>

definition stat_missing :: "fs_env \<Rightarrow> string \<Rightarrow> disk \<Rightarrow> bool" where
  "stat_missing env path d \<longleftrightarrow> fe_open env = None \<and> locate Existing (host_place env path) d path = Inl ENOENT"

definition migrateableFiles :: "string list" where
  "migrateableFiles = [''AGENTS.md'', ''SOUL.md'', ''USER.md'', ''TOOLS.md'', ''HEARTBEAT.md'']"

definition migrateableDirs :: "string list" where "migrateableDirs = [''memory'', ''skills'']"

definition planFileCopy :: "fs_env \<Rightarrow> string \<Rightarrow> string \<Rightarrow> bool \<Rightarrow> disk \<Rightarrow> Action" where
  "planFileCopy env src dst force d =
     (if stat_missing env src d then \<lparr>ac_Type = ActionSkip, ac_Source = src, ac_Destination = dst, ac_Description = ''source file not found''\<rparr>
      else if stat_ok env dst d \<and> \<not> force
      then \<lparr>ac_Type = ActionBackup, ac_Source = src, ac_Destination = dst, ac_Description = ''destination exists, will backup and overwrite''\<rparr>
      else \<lparr>ac_Type = ActionCopy, ac_Source = src, ac_Destination = dst, ac_Description = ''copy file''\<rparr>)"

text \<open>
  \<^verbatim>\<open>filepath.Walk\<close> from the node \<open>p\<close>: the names below it, parents first and in lexical order; it does not follow links. A directory is
  entered at most \<open>n\<close> levels deep, and \<open>tree_fuel\<close> levels are always enough.
\<close>

fun walk_tree :: "nat \<Rightarrow> disk \<Rightarrow> string list \<Rightarrow> string list \<Rightarrow> (string list \<times> bool) list" where
  "walk_tree 0 d p rel = [(rel, is_dir d p)]"
| "walk_tree (Suc n) d p rel =
     (rel, is_dir d p) # (if is_dir d p then concat (map (\<lambda>name. walk_tree n d (p @ [name]) (rel @ [name])) (entry_names d p)) else [])"

definition tree_fuel :: "disk \<Rightarrow> nat" where "tree_fuel d = Max (insert 0 (set (map (length \<circ> fst) d)))"

definition walk_action :: "fs_env \<Rightarrow> string \<Rightarrow> string \<Rightarrow> bool \<Rightarrow> disk \<Rightarrow> string list \<times> bool \<Rightarrow> fs_error + Action" where
  "walk_action env srcDir dstDir force d entry =
     (let path = foldl (\<lambda>p name. Join [p, name]) srcDir (fst entry) in
      case Rel srcDir path of
        None \<Rightarrow> Inl (PlainError (''Rel: can't make '' @ path @ '' relative to '' @ srcDir))
      | Some relPath \<Rightarrow>
          let dst = Join [dstDir, relPath] in
          Inr (if snd entry then \<lparr>ac_Type = ActionCreateDir, ac_Source = [], ac_Destination = dst, ac_Description = ''create directory''\<rparr>
               else planFileCopy env path dst force d))"

fun all_right :: "('e + 'a) list \<Rightarrow> 'e + 'a list" where
  "all_right [] = Inr []"
| "all_right (Inl e # xs) = Inl e"
| "all_right (Inr x # xs) = (case all_right xs of Inl e \<Rightarrow> Inl e | Inr ys \<Rightarrow> Inr (x # ys))"

definition planDirCopy :: "fs_env \<Rightarrow> string \<Rightarrow> string \<Rightarrow> bool \<Rightarrow> disk \<Rightarrow> fs_error + Action list" where
  "planDirCopy env srcDir dstDir force d =
     (case locate NoFollow (host_place env srcDir) d srcDir of
        Inl e \<Rightarrow> Inl (PathError ''lstat'' srcDir e)
      | Inr p \<Rightarrow>
          if \<not> is_dir d p \<and> node_at d p = None then Inl (PathError ''lstat'' srcDir ENOENT)
          else case fe_open env of
            Some e \<Rightarrow> Inl (PathError ''open'' srcDir e)
          | None \<Rightarrow> all_right (map (walk_action env srcDir dstDir force d) (walk_tree (tree_fuel d) d p [])))"

fun plan_dirs :: "fs_env \<Rightarrow> string \<Rightarrow> string \<Rightarrow> bool \<Rightarrow> disk \<Rightarrow> string list \<Rightarrow> fs_error + Action list" where
  "plan_dirs env srcWorkspace dstWorkspace force d [] = Inr []"
| "plan_dirs env srcWorkspace dstWorkspace force d (dirname # rest) =
     (let srcDir = Join [srcWorkspace, dirname] in
      if stat_missing env srcDir d then plan_dirs env srcWorkspace dstWorkspace force d rest
      else case planDirCopy env srcDir (Join [dstWorkspace, dirname]) force d of
        Inl e \<Rightarrow> Inl e
      | Inr actions \<Rightarrow>
          (case plan_dirs env srcWorkspace dstWorkspace force d rest of Inl e \<Rightarrow> Inl e | Inr others \<Rightarrow> Inr (actions @ others)))"

definition PlanWorkspaceMigration :: "fs_env \<Rightarrow> string \<Rightarrow> string \<Rightarrow> bool \<Rightarrow> disk \<Rightarrow> fs_error + Action list" where
  "PlanWorkspaceMigration env srcWorkspace dstWorkspace force d =
     (let files = filter (\<lambda>a. ac_Type a \<noteq> ActionSkip \<or> ac_Description a \<noteq> [])
            (map (\<lambda>filename. planFileCopy env (Join [srcWorkspace, filename]) (Join [dstWorkspace, filename]) force d) migrateableFiles)
      in case plan_dirs env srcWorkspace dstWorkspace force d migrateableDirs of
           Inl e \<Rightarrow> Inl e
         | Inr others \<Rightarrow> Inr (files @ others))"

definition resolveWorkspace :: "string \<Rightarrow> string" where "resolveWorkspace homeDir = Join [homeDir, ''workspace'']"

definition findOpenClawConfig :: "fs_env \<Rightarrow> string \<Rightarrow> disk \<Rightarrow> fs_error + string" where
  "findOpenClawConfig env openclawHome d =
     (case find (\<lambda>p. stat_ok env p d) [Join [openclawHome, ''openclaw.json''], Join [openclawHome, ''config.json'']] of
        Some p \<Rightarrow> Inr p
      | None \<Rightarrow> Inl (PlainError (''no config file found in '' @ openclawHome @ '' (tried openclaw.json, config.json)'')))"

text \<open>
  What surrounds the conversion: the decoder of a JSON object, whose failure is an error, the conversion of numbers, the default
  configuration, the loading of an existing one and the encoding of the result.
\<close>

record convert_env =
  ce_decode :: "string \<Rightarrow> fs_error + json_obj"
  ce_trunc :: "string \<Rightarrow> int"
  ce_defaults :: full_config
  ce_load :: "string \<Rightarrow> fs_error + full_config"
  ce_encode :: "full_config \<Rightarrow> fs_error + string"

definition LoadOpenClawConfig :: "convert_env \<Rightarrow> fs_env \<Rightarrow> string \<Rightarrow> disk \<Rightarrow> fs_error + json_obj" where
  "LoadOpenClawConfig ce env configPath d =
     (case sys_read env (host_place env configPath) configPath d of
        Inl (reading, e) \<Rightarrow> Inl (WrapError ''reading OpenClaw config: '' (PathError (if reading then ''read'' else ''open'') configPath e))
      | Inr data \<Rightarrow>
          (case ce_decode ce data of
             Inl e \<Rightarrow> Inl (WrapError ''parsing OpenClaw config: '' e)
           | Inr raw \<Rightarrow> (case convertKeysToSnake (JObj raw) of JObj result \<Rightarrow> Inr result | _ \<Rightarrow> Inl (PlainError ''unexpected config format''))))"

definition Plan :: "convert_env \<Rightarrow> fs_env \<Rightarrow> Options \<Rightarrow> string \<Rightarrow> string \<Rightarrow> disk \<Rightarrow> fs_error + (Action list \<times> string list)" where
  "Plan ce env opts openclawHome tinyClawHome d =
     (let force = (op_Force opts \<or> op_Refresh opts);
          config = (if op_WorkspaceOnly opts then Inr ([], [])
            else case findOpenClawConfig env openclawHome d of
              Inl e \<Rightarrow> if op_ConfigOnly opts then Inl e else Inr ([], [''Config migration skipped: '' @ Error e])
            | Inr configPath \<Rightarrow>
                Inr ([\<lparr>ac_Type = ActionConvertConfig, ac_Source = configPath, ac_Destination = Join [tinyClawHome, ''config.json''],
                       ac_Description = ''convert OpenClaw config to TinyClaw format''\<rparr>],
                     (case LoadOpenClawConfig ce env configPath d of
                        Inl e \<Rightarrow> []
                      | Inr data \<Rightarrow> snd (ConvertConfig (ce_trunc ce) (ce_defaults ce) data))))
      in case config of
           Inl e \<Rightarrow> Inl e
         | Inr (actions, warnings) \<Rightarrow>
             if op_ConfigOnly opts then Inr (actions, warnings)
             else let srcWorkspace = resolveWorkspace openclawHome; dstWorkspace = resolveWorkspace tinyClawHome in
               if stat_ok env srcWorkspace d
               then (case PlanWorkspaceMigration env srcWorkspace dstWorkspace force d of
                       Inl e \<Rightarrow> Inl (WrapError ''planning workspace migration: '' e)
                     | Inr wsActions \<Rightarrow> Inr (actions @ wsActions, warnings))
               else Inr (actions, warnings @ [''OpenClaw workspace directory not found, skipping workspace migration'']))"

subsection \<open>Execution\<close>

text \<open>The destination is truncated before the source is read; the source may be a directory, which is noticed then.\<close>

definition copyFile :: "fs_env \<Rightarrow> string \<Rightarrow> string \<Rightarrow> disk \<Rightarrow> disk \<times> fs_error option" where
  "copyFile env src dst d =
     (case (case fe_open env of Some e \<Rightarrow> Inl e | None \<Rightarrow> locate Existing (host_place env src) d src) of
        Inl e \<Rightarrow> (d, Some (PathError ''open'' src e))
      | Inr p \<Rightarrow>
          (case sys_write (env\<lparr>fe_write := None\<rparr>) (host_place env dst) dst [] d of
             (d, Some (writing, e)) \<Rightarrow> (d, Some (PathError ''open'' dst e))
           | (d, None) \<Rightarrow>
               (case node_at d p of
                  Some (FileNode s) \<Rightarrow>
                    (case sys_write env (host_place env dst) dst s d of
                       (d, e) \<Rightarrow> (d, map_option (\<lambda>(writing, e). PathError ''write'' dst e) e))
                | _ \<Rightarrow> (d, Some (PathError ''read'' src EISDIR)))))"

record Result =
  re_FilesCopied :: nat
  re_FilesSkipped :: nat
  re_BackupsCreated :: nat
  re_ConfigMigrated :: bool
  re_DirsCreated :: nat
  re_Warnings :: "string list"
  re_Errors :: "fs_error list"

definition zero_result :: Result where
  "zero_result = \<lparr>re_FilesCopied = 0, re_FilesSkipped = 0, re_BackupsCreated = 0, re_ConfigMigrated = False, re_DirsCreated = 0,
     re_Warnings = [], re_Errors = []\<rparr>"

definition failed :: "fs_error \<Rightarrow> Result \<Rightarrow> Result" where "failed e r = r\<lparr>re_Errors := re_Errors r @ [e]\<rparr>"

text \<open>The system calls of one action: those of a backup and those of the copy may fare differently.\<close>

record action_env =
  ae_backup :: fs_env
  ae_fs :: fs_env

definition executeConfigMigration :: "convert_env \<Rightarrow> fs_env \<Rightarrow> string \<Rightarrow> string \<Rightarrow> disk \<Rightarrow> disk \<times> fs_error option" where
  "executeConfigMigration ce env srcConfigPath dstConfigPath d =
     (case LoadOpenClawConfig ce env srcConfigPath d of
        Inl e \<Rightarrow> (d, Some e)
      | Inr data \<Rightarrow>
          let incoming = fst (ConvertConfig (ce_trunc ce) (ce_defaults ce) data);
              merged = (if stat_ok env dstConfigPath d
                        then (case (case sys_read env (host_place env dstConfigPath) dstConfigPath d of
                                      Inl (reading, e) \<Rightarrow> Inl (PathError (if reading then ''read'' else ''open'') dstConfigPath e)
                                    | Inr s \<Rightarrow> ce_load ce s) of
                                Inl e \<Rightarrow> Inl (WrapError ''loading existing TinyClaw config: '' e)
                              | Inr existing \<Rightarrow> Inr (MergeConfig existing incoming))
                        else Inr incoming)
          in case merged of
               Inl e \<Rightarrow> (d, Some e)
             | Inr cfg \<Rightarrow>
                 (case mkdir_all env (Dir dstConfigPath) d of
                    (d, Some e) \<Rightarrow> (d, Some e)
                  | (d, None) \<Rightarrow>
                      (case ce_encode ce cfg of
                         Inl e \<Rightarrow> (d, Some e)
                       | Inr data \<Rightarrow>
                           (case sys_write env (host_place env dstConfigPath) dstConfigPath data d of
                              (d, e) \<Rightarrow> (d, map_option (\<lambda>(writing, e). PathError (if writing then ''write'' else ''open'') dstConfigPath e) e)))))"

definition copy_step :: "fs_env \<Rightarrow> Action \<Rightarrow> disk \<Rightarrow> Result \<Rightarrow> disk \<times> Result" where
  "copy_step env a d r =
     (case mkdir_all env (Dir (ac_Destination a)) d of
        (d, Some e) \<Rightarrow> (d, failed e r)
      | (d, None) \<Rightarrow>
          (case copyFile env (ac_Source a) (ac_Destination a) d of
             (d, Some e) \<Rightarrow> (d, failed (WrapError (''copy '' @ ac_Source a @ '': '') e) r)
           | (d, None) \<Rightarrow> (d, r\<lparr>re_FilesCopied := re_FilesCopied r + 1\<rparr>)))"

definition execute_action :: "convert_env \<Rightarrow> action_env \<Rightarrow> Action \<Rightarrow> disk \<times> Result \<Rightarrow> disk \<times> Result" where
  "execute_action ce env a st =
     (case st of (d, r) \<Rightarrow>
      case ac_Type a of
        ActionConvertConfig \<Rightarrow>
          (case executeConfigMigration ce (ae_fs env) (ac_Source a) (ac_Destination a) d of
             (d, Some e) \<Rightarrow> (d, failed (WrapError ''config migration: '' e) r)
           | (d, None) \<Rightarrow> (d, r\<lparr>re_ConfigMigrated := True\<rparr>))
      | ActionCreateDir \<Rightarrow>
          (case mkdir_all (ae_fs env) (ac_Destination a) d of
             (d, Some e) \<Rightarrow> (d, failed e r)
           | (d, None) \<Rightarrow> (d, r\<lparr>re_DirsCreated := re_DirsCreated r + 1\<rparr>))
      | ActionBackup \<Rightarrow>
          (case copyFile (ae_backup env) (ac_Destination a) (ac_Destination a @ ''.bak'') d of
             (d, Some e) \<Rightarrow> (d, failed (WrapError (''backup '' @ ac_Destination a @ '': '') e) r)
           | (d, None) \<Rightarrow> copy_step (ae_fs env) a d (r\<lparr>re_BackupsCreated := re_BackupsCreated r + 1\<rparr>))
      | ActionCopy \<Rightarrow> copy_step (ae_fs env) a d r
      | ActionSkip \<Rightarrow> (d, r\<lparr>re_FilesSkipped := re_FilesSkipped r + 1\<rparr>)
      | ActionMergeConfig \<Rightarrow> (d, r))"

fun Execute_actions :: "convert_env \<Rightarrow> (nat \<Rightarrow> action_env) \<Rightarrow> nat \<Rightarrow> Action list \<Rightarrow> disk \<times> Result \<Rightarrow> disk \<times> Result" where
  "Execute_actions ce envs i [] st = st"
| "Execute_actions ce envs i (a # as) st = Execute_actions ce envs (Suc i) as (execute_action ce (envs i) a st)"

definition Execute :: "convert_env \<Rightarrow> (nat \<Rightarrow> action_env) \<Rightarrow> Action list \<Rightarrow> disk \<Rightarrow> disk \<times> Result" where
  "Execute ce envs actions d = Execute_actions ce envs 0 actions (d, zero_result)"

text \<open>The whole run: the homes from the options, the environment and the user's home, and the answer to the question.\<close>

definition expandHome :: "string \<Rightarrow> string \<Rightarrow> string" where
  "expandHome home path =
     (case path of
        [] \<Rightarrow> path
      | c # rest \<Rightarrow> if c = CHR ''~'' then (if rest \<noteq> [] \<and> hd rest = slash then home @ rest else home) else path)"

text \<open>\<open>user_home\<close> is the home directory of the user, or the error of looking it up; \<open>expandHome\<close> ignores that error.\<close>

definition resolve_home :: "fs_error + string \<Rightarrow> string \<Rightarrow> string \<Rightarrow> string \<Rightarrow> fs_error + string" where
  "resolve_home user_home override envHome name =
     (let home = (case user_home of Inl e \<Rightarrow> [] | Inr h \<Rightarrow> h) in
      if override \<noteq> [] then Inr (expandHome home override)
      else if envHome \<noteq> [] then Inr (expandHome home envHome)
      else case user_home of
        Inl e \<Rightarrow> Inl (WrapError ''resolving home directory: '' e)
      | Inr h \<Rightarrow> Inr (Join [h, name]))"

definition Confirm :: "string \<Rightarrow> bool" where "Confirm response \<longleftrightarrow> to_lower (trim_space response) = ''y''"

record run_env =
  rv_user_home :: "fs_error + string"
  rv_openclaw :: string
  rv_tinyclaw :: string
  rv_response :: string
  rv_fs :: fs_env

definition Run :: "convert_env \<Rightarrow> run_env \<Rightarrow> (nat \<Rightarrow> action_env) \<Rightarrow> Options \<Rightarrow> disk \<Rightarrow> disk \<times> (fs_error + Result)" where
  "Run ce rv envs opts d =
     (if op_ConfigOnly opts \<and> op_WorkspaceOnly opts then (d, Inl (PlainError ''--config-only and --workspace-only are mutually exclusive''))
      else
        let opts = (if op_Refresh opts then opts\<lparr>op_WorkspaceOnly := True\<rparr> else opts) in
        case resolve_home (rv_user_home rv) (op_OpenClawHome opts) (rv_openclaw rv) ''.openclaw'' of
          Inl e \<Rightarrow> (d, Inl e)
        | Inr openclawHome \<Rightarrow>
            (case resolve_home (rv_user_home rv) (op_TinyClawHome opts) (rv_tinyclaw rv) ''.tinyclaw'' of
               Inl e \<Rightarrow> (d, Inl e)
             | Inr tinyClawHome \<Rightarrow>
                 if stat_missing (rv_fs rv) openclawHome d then (d, Inl (PlainError (''OpenClaw installation not found at '' @ openclawHome)))
                 else (case Plan ce (rv_fs rv) opts openclawHome tinyClawHome d of
                         Inl e \<Rightarrow> (d, Inl e)
                       | Inr (actions, warnings) \<Rightarrow>
                           if op_DryRun opts \<or> \<not> op_Force opts \<and> \<not> Confirm (rv_response rv)
                           then (d, Inr (zero_result\<lparr>re_Warnings := warnings\<rparr>))
                           else (case Execute ce envs actions d of (d, r) \<Rightarrow> (d, Inr (r\<lparr>re_Warnings := warnings\<rparr>))))))"

subsection \<open>Keys\<close>

lemma lower_char_not_upper: "\<not> is_upper (lower_char c)"
  using not_upper_to_lower [of "lower_char c" "[c]"] by (simp add: to_lower_def)

lemma snake_from_no_upper: "c \<in> set (snake_from prev s) \<Longrightarrow> \<not> is_upper c"
proof (induction prev s rule: snake_from.induct)
  case (2 prev r s)
  have "\<not> is_upper underscore" by code_simp
  then show ?case using 2 lower_char_not_upper by (auto split: if_splits)
qed simp

lemma snake_from_id: "list_all (\<lambda>c. \<not> is_upper c) s \<Longrightarrow> snake_from prev s = s"
  by (induction prev s rule: snake_from.induct) auto

text \<open>A converted key has no upper-case letter, and converting it again does not change it.\<close>

lemma camelToSnake_idem: "camelToSnake (camelToSnake s) = camelToSnake s"
  using snake_from_no_upper [of _ None s] snake_from_id by (simp add: camelToSnake_def list_all_iff)

lemma camelToSnake_examples:
  "camelToSnake ''apiKey'' = ''api_key''" "camelToSnake ''modelName'' = ''model_name''" "camelToSnake ''bridgeURL'' = ''bridge_url''"
  "camelToSnake ''HTTPServer'' = ''http_server''" "camelToSnake ''allow_from'' = ''allow_from''"
  by code_simp+

subsection \<open>The walk is complete\<close>

lemma entry_names_mem: "name \<in> set (entry_names d p) \<Longrightarrow> p @ [name] \<in> fst ` set d"
  by (force simp: entry_names_def)

lemma tree_fuel_max: "q \<in> fst ` set d \<Longrightarrow> length q \<le> tree_fuel d"
  unfolding tree_fuel_def by (rule Max_ge) auto

text \<open>More levels than the longest path of the disk do not find more.\<close>

lemma walk_tree_enough:
  "tree_fuel d \<le> length p + n \<Longrightarrow> walk_tree (n + k) d p rel = walk_tree n d p rel"
proof (induction n arbitrary: p rel)
  case 0
  have "entry_names d p = []"
  proof (rule ccontr)
    assume "entry_names d p \<noteq> []"
    then obtain name where "name \<in> set (entry_names d p)" by (cases "entry_names d p") auto
    then show False using tree_fuel_max [OF entry_names_mem] 0 by fastforce
  qed
  then show ?case by (cases k) simp_all
next
  case (Suc n)
  have "walk_tree (n + k) d (p @ [name]) (rel @ [name]) = walk_tree n d (p @ [name]) (rel @ [name])" for name
    by (rule Suc.IH) (use Suc.prems in simp)
  then show ?case by simp
qed

subsection \<open>What an action changes\<close>

text \<open>\<open>spares P d d'\<close>: outside \<open>P\<close> every node stays, directories stay everywhere, and no link appears.\<close>

definition spares :: "string list set \<Rightarrow> disk \<Rightarrow> disk \<Rightarrow> bool" where
  "spares P d d' \<longleftrightarrow> kept P d d' \<and> kept {q. node_at d q \<noteq> Some DirNode} d d' \<and> (no_links [] d \<longrightarrow> no_links [] d')"

lemma spares_refl [simp]: "spares P d d"
  by (simp add: spares_def kept_def)

lemma spares_trans: "spares P d d1 \<Longrightarrow> spares Q d1 d2 \<Longrightarrow> spares (P \<union> Q) d d2"
  unfolding spares_def kept_def by blast

lemma spares_mono: "spares P d d' \<Longrightarrow> P \<subseteq> Q \<Longrightarrow> spares Q d d'"
  using kept_mono [of P d d' Q] by (simp add: spares_def)

lemma spares_links: "spares P d d' \<Longrightarrow> no_links [] d \<Longrightarrow> no_links [] d'"
  by (simp add: spares_def)

lemma fills_spares: "fills d d' \<Longrightarrow> spares {} d d'"
  using fills_keep fills_links by (auto simp: spares_def kept_def fills_kept)

text \<open>A file at the path \<open>c\<close>, with directories above it.\<close>

definition holds :: "disk \<Rightarrow> string list \<Rightarrow> string \<Rightarrow> bool" where
  "holds d c s \<longleftrightarrow> dirs [] c d \<and> node_at d c = Some (FileNode s)"

lemma spares_dir: "spares P d d' \<Longrightarrow> node_at d q = Some DirNode \<Longrightarrow> node_at d' q = Some DirNode"
  by (simp add: spares_def kept_def)

lemma spares_node: "spares P d d' \<Longrightarrow> q \<notin> P \<Longrightarrow> node_at d q = Some n \<Longrightarrow> node_at d' q = Some n"
  by (simp add: spares_def kept_def)

lemma dirs_spared: "dirs [] c d \<Longrightarrow> spares P d d' \<Longrightarrow> dirs [] c d'"
  unfolding dirs_def by (auto intro: spares_dir)

lemma holds_spared: "holds d c s \<Longrightarrow> spares P d d' \<Longrightarrow> c \<notin> P \<Longrightarrow> holds d' c s"
  using dirs_spared [of c d P d'] spares_node [of P d d' c] by (simp add: holds_def)

definition plain_path :: "string \<Rightarrow> bool" where
  "plain_path p \<longleftrightarrow> IsAbs p \<and> ''..'' \<notin> set (comps p)"

lemma locate_abs:
  assumes "plain_path p" "no_links [] d" "locate m (host_place env p) d p = Inr q"
  shows "q = comps p"
  using locate_plain [of "host_place env p" d p m q] host_place_abs [of p env] assms by (simp add: plain_path_def)

lemma write_spares:
  assumes "plain_path p" "no_links [] d" "sys_write env (host_place env' p) p data d = (d', e)"
  shows "spares {comps p} d d' \<and> (e = None \<longrightarrow> node_at d' (comps p) = Some (FileNode data))"
proof (cases "locate Creating (host_place env' p) d p")
  case (Inr r)
  have r: "r = comps p" by (rule locate_abs [OF assms(1,2) Inr])
  have put: "spares {r} d (put_node r (FileNode x) d)" if "\<not> is_dir d r" for x
    using that by (auto simp: spares_def kept_def no_links_def is_dir_def)
  have "spares {r} d d' \<and> (e = None \<longrightarrow> node_at d' r = Some (FileNode data))"
    using assms(3) Inr put by (auto simp: sys_write_def split: option.splits if_splits prod.splits)
  then show ?thesis using r by simp
qed (use assms(3) in \<open>auto simp: sys_write_def split: option.splits\<close>)

lemma mkdir_spares:
  assumes "plain_path p" "no_links [] d" "mkdir_all env p d = (d', e)"
  shows "spares {} d d'"
proof (cases "fe_mkdir env")
  case None
  then obtain e' where w: "mkdir_walk False d [] 40 [] (comps p) = (d', e')"
    using assms by (auto simp: mkdir_all_def sys_mkdir_all_def host_place_def plain_path_def split: prod.splits)
  then show ?thesis using mkdir_walk_plain [OF assms(2)] assms(1) fills_spares by (auto simp: plain_path_def)
qed (use assms(3) in \<open>simp add: mkdir_all_def sys_mkdir_all_def\<close>)

lemma copy_spares:
  assumes "plain_path dst" "no_links [] d" "copyFile env src dst d = (d', e)"
  shows "spares {comps dst} d d' \<and> (e = None \<and> plain_path src \<and> holds d (comps src) s \<and> comps src \<noteq> comps dst \<longrightarrow> node_at d' (comps dst) = Some (FileNode s))"
proof (cases "case fe_open env of Some e \<Rightarrow> Inl e | None \<Rightarrow> locate Existing (host_place env src) d src")
  case (Inr p)
  then have p: "locate Existing (host_place env src) d src = Inr p" by (simp split: option.splits)
  obtain d1 e1 where w1: "sys_write (env\<lparr>fe_write := None\<rparr>) (host_place env dst) dst [] d = (d1, e1)" by force
  note s1 = write_spares [OF assms(1,2) w1]
  show ?thesis
  proof (cases e1)
    case None
    obtain data where d1: "node_at d1 p = Some (FileNode data) \<or> d' = d1 \<and> e \<noteq> None"
      using assms(3) Inr w1 None by (auto simp: copyFile_def split: option.splits node.splits)
    show ?thesis
    proof (cases "\<exists>data. node_at d1 p = Some (FileNode data)")
      case True
      then obtain data where data: "node_at d1 p = Some (FileNode data)" by blast
      obtain d2 e2 where w2: "sys_write env (host_place env dst) dst data d1 = (d2, e2)" by force
      have r: "d' = d2" "e = None \<longleftrightarrow> e2 = None" using assms(3) Inr w1 None data w2 by (auto simp: copyFile_def)
      note s2 = write_spares [OF assms(1) spares_links [OF s1 [THEN conjunct1] assms(2)] w2]
      have "data = s" if "plain_path src" "holds d (comps src) s" "comps src \<noteq> comps dst"
      proof -
        have "p = comps src" by (rule locate_abs [OF that(1) assms(2) p])
        then show ?thesis using spares_node [OF s1 [THEN conjunct1], of "comps src"] that data by (simp add: holds_def)
      qed
      then show ?thesis using s2 spares_trans [OF s1 [THEN conjunct1] s2 [THEN conjunct1]] r by auto
    next
      case False
      then show ?thesis using d1 s1 by auto
    qed
  next
    case (Some x)
    then have "d' = d1 \<and> e \<noteq> None" using assms(3) Inr w1 by (auto simp: copyFile_def split: prod.splits)
    then show ?thesis using s1 by auto
  qed
qed (use assms(3) in \<open>auto simp: copyFile_def\<close>)

definition good_action :: "Action \<Rightarrow> bool" where
  "good_action a \<longleftrightarrow> IsAbs (ac_Destination a) \<and> Clean (ac_Destination a) = ac_Destination a \<and> comps (ac_Destination a) \<noteq> []"

definition dest :: "Action \<Rightarrow> string list" where "dest a = comps (ac_Destination a)"

definition backup :: "Action \<Rightarrow> string list" where "backup a = comps (ac_Destination a @ ''.bak'')"

lemma good_paths:
  assumes "good_action a"
  shows "plain_path (ac_Destination a)" "plain_path (Dir (ac_Destination a))" "plain_path (ac_Destination a @ ''.bak'')"
    "\<exists>ds t. dest a = ds @ [t] \<and> backup a = ds @ [t @ ''.bak'']" "dest a \<noteq> backup a"
proof -
  let ?p = "ac_Destination a"
  have a: "IsAbs ?p" "Clean ?p = ?p" "comps ?p \<noteq> []" using assms by (simp_all add: good_action_def)
  have n: "''..'' \<notin> set (comps ?p)" "list_all proper (comps ?p)"
    using abs_comps [OF a(1)] comps_Clean [of ?p] a(2) by simp_all
  obtain ds t where dt: "comps ?p = ds @ [t]" using a(3) by (metis rev_exhaust)
  have p: "?p = path_of True (ds @ [t])" using a comps_Clean [of ?p] dt by (metis Clean_def)
  have bak: "?p @ ''.bak'' = path_of True (ds @ [t @ ''.bak''])" unfolding p by (rule path_of_suffix)
  have pr: "list_all proper (ds @ [t @ ''.bak''])" using n(2) dt by (auto simp: proper_def)
  have len: "t @ ''.bak'' \<noteq> ''..''"
  proof
    assume "t @ ''.bak'' = ''..''"
    then have "length (t @ ''.bak'') = 2" by simp
    then show False by simp
  qed
  have b: "backup a = ds @ [t @ ''.bak'']" using bak pr by (simp add: backup_def path_of_comps)
  show "plain_path ?p" using a(1) n(1) by (simp add: plain_path_def)
  have "Dir ?p = path_of True ds" using Dir_path_of [of ds t] n dt p by simp
  then show "plain_path (Dir ?p)" using n dt by (simp add: plain_path_def path_of_abs path_of_comps)
  show "plain_path (?p @ ''.bak'')" using bak pr n dt len by (simp add: plain_path_def path_of_abs path_of_comps)
  show "\<exists>ds t. dest a = ds @ [t] \<and> backup a = ds @ [t @ ''.bak'']" using dt b by (auto simp: dest_def)
  show "dest a \<noteq> backup a" using dt b by (simp add: dest_def)
qed

text \<open>The paths that an action may write to.\<close>

definition touched :: "Action \<Rightarrow> string list set" where
  "touched a = (case ac_Type a of ActionBackup \<Rightarrow> {dest a, backup a} | ActionCopy \<Rightarrow> {dest a} | ActionConvertConfig \<Rightarrow> {dest a} | _ \<Rightarrow> {})"

lemma copy_step_spares:
  assumes "good_action a" "no_links [] d" "copy_step env a d r = (d', r')"
  shows "spares {dest a} d d'"
proof -
  obtain d1 e1 where m: "mkdir_all env (Dir (ac_Destination a)) d = (d1, e1)" by force
  note s1 = mkdir_spares [OF good_paths(2) [OF assms(1)] assms(2) m]
  obtain d2 e2 where c: "copyFile env (ac_Source a) (ac_Destination a) d1 = (d2, e2)" by force
  note s2 = copy_spares [OF good_paths(1) [OF assms(1)] spares_links [OF s1 assms(2)] c, THEN conjunct1]
  have "d' = d1 \<or> d' = d2" using assms(3) m c by (auto simp: copy_step_def split: option.splits)
  then show ?thesis using spares_mono [OF s1, of "{dest a}"] spares_trans [OF s1 s2] by (auto simp: dest_def)
qed

lemma config_spares:
  assumes "good_action a" "no_links [] d" "executeConfigMigration ce env (ac_Source a) (ac_Destination a) d = (d', e)"
  shows "spares {dest a} d d'"
proof -
  obtain d1 e1 where m: "mkdir_all env (Dir (ac_Destination a)) d = (d1, e1)" by force
  note s1 = mkdir_spares [OF good_paths(2) [OF assms(1)] assms(2) m]
  have s2: "spares {dest a} d d2" if "sys_write env (host_place env (ac_Destination a)) (ac_Destination a) data d1 = (d2, e2)" for data d2 e2
    using spares_trans [OF s1 write_spares [OF good_paths(1) [OF assms(1)] spares_links [OF s1 assms(2)] that, THEN conjunct1]] by (simp add: dest_def)
  have "d' = d \<or> d' = d1 \<or> (\<exists>data e2. sys_write env (host_place env (ac_Destination a)) (ac_Destination a) data d1 = (d', e2))"
    using assms(3) m by (auto simp: executeConfigMigration_def Let_def split: sum.splits option.splits prod.splits if_splits)
  then show ?thesis using spares_mono [OF s1, of "{dest a}"] s2 by auto
qed

lemma action_spares:
  assumes "good_action a" "no_links [] d" "execute_action ce env a (d, r) = (d', r')"
  shows "spares (touched a) d d'"
proof (cases "ac_Type a")
  case ActionCopy
  then show ?thesis using copy_step_spares [OF assms(1,2)] assms(3) by (simp add: execute_action_def touched_def)
next
  case ActionBackup
  obtain d1 e1 where c: "copyFile (ae_backup env) (ac_Destination a) (ac_Destination a @ ''.bak'') d = (d1, e1)" by force
  note s1 = copy_spares [OF good_paths(3) [OF assms(1)] assms(2) c, THEN conjunct1, folded backup_def]
  show ?thesis
  proof (cases e1)
    case None
    then have "copy_step (ae_fs env) a d1 (r\<lparr>re_BackupsCreated := re_BackupsCreated r + 1\<rparr>) = (d', r')"
      using assms(3) ActionBackup c by (simp add: execute_action_def)
    from spares_trans [OF s1 copy_step_spares [OF assms(1) spares_links [OF s1 assms(2)] this]] show ?thesis
      using ActionBackup by (simp add: touched_def insert_commute)
  next
    case (Some x)
    then have "d' = d1" using assms(3) ActionBackup c by (simp add: execute_action_def)
    then show ?thesis using spares_mono [OF s1] ActionBackup by (simp add: touched_def)
  qed
next
  case ActionConvertConfig
  obtain d1 e1 where c: "executeConfigMigration ce (ae_fs env) (ac_Source a) (ac_Destination a) d = (d1, e1)" by force
  then have "d' = d1" using assms(3) ActionConvertConfig by (auto simp: execute_action_def split: option.splits)
  then show ?thesis using config_spares [OF assms(1,2) c] ActionConvertConfig by (simp add: touched_def)
next
  case ActionCreateDir
  obtain d1 e1 where c: "mkdir_all (ae_fs env) (ac_Destination a) d = (d1, e1)" by force
  then have "d' = d1" using assms(3) ActionCreateDir by (auto simp: execute_action_def split: option.splits)
  then show ?thesis using mkdir_spares [OF good_paths(1) [OF assms(1)] assms(2) c] ActionCreateDir by (simp add: touched_def)
qed (use assms(3) in \<open>simp_all add: execute_action_def touched_def\<close>)

text \<open>A backup action leaves the old content at the destination or next to it.\<close>

lemma backup_keeps:
  assumes "good_action a" "no_links [] d" "ac_Type a = ActionBackup" "holds d (dest a) s" "execute_action ce env a (d, r) = (d', r')"
  shows "holds d' (dest a) s \<or> holds d' (backup a) s"
proof -
  obtain d1 e1 where c: "copyFile (ae_backup env) (ac_Destination a) (ac_Destination a @ ''.bak'') d = (d1, e1)" by force
  note s1 = copy_spares [OF good_paths(3) [OF assms(1)] assms(2) c]
  have k: "spares {backup a} d d1" using s1 by (simp add: backup_def)
  note old = holds_spared [OF assms(4) k]
  show ?thesis
  proof (cases e1)
    case None
    then have run: "copy_step (ae_fs env) a d1 (r\<lparr>re_BackupsCreated := re_BackupsCreated r + 1\<rparr>) = (d', r')"
      using assms(3,5) c by (simp add: execute_action_def)
    have "node_at d1 (backup a) = Some (FileNode s)"
      using s1 [of s] None good_paths(1,5) [OF assms(1)] assms(4) by (auto simp: dest_def backup_def)
    moreover obtain ds t where dt: "dest a = ds @ [t]" "backup a = ds @ [t @ ''.bak'']" using good_paths(4) [OF assms(1)] by blast
    have "dirs [] (backup a) d1" using old dt good_paths(5) [OF assms(1)] by (auto simp: holds_def dirs_def)
    ultimately have "holds d1 (backup a) s" by (simp add: holds_def)
    from holds_spared [OF this copy_step_spares [OF assms(1) spares_links [OF k assms(2)] run]] show ?thesis
      using good_paths(5) [OF assms(1)] by auto
  next
    case (Some x)
    then have "d' = d1" using assms(3,5) c by (simp add: execute_action_def)
    then show ?thesis using old good_paths(5) [OF assms(1)] by auto
  qed
qed

lemma actions_spare:
  assumes "list_all good_action as" "no_links [] d" "Execute_actions ce envs i as (d, r) = (d', r')"
  shows "spares (\<Union>(touched ` set as)) d d'"
  using assms
proof (induction as arbitrary: i d r)
  case (Cons a as)
  obtain d1 r1 where x: "execute_action ce (envs i) a (d, r) = (d1, r1)" by force
  have s1: "spares (touched a) d d1" by (rule action_spares [OF _ _ x]) (use Cons.prems in simp_all)
  have "spares (\<Union>(touched ` set as)) d1 d'"
    by (rule Cons.IH) (use Cons.prems x spares_links [OF s1] in simp_all)
  from spares_trans [OF s1 this] show ?case by simp
qed simp

lemma Execute_actions_append: "Execute_actions ce envs i (as @ bs) st = Execute_actions ce envs (i + length as) bs (Execute_actions ce envs i as st)"
  by (induction as arbitrary: i st) simp_all

subsection \<open>What a plan says\<close>

lemma Join_abs: "IsAbs w \<Longrightarrow> IsAbs (Join (w # xs)) \<and> Clean (Join (w # xs)) = Join (w # xs)"
proof -
  assume w: "IsAbs w"
  then have "w \<noteq> []" by (auto simp: IsAbs_def)
  moreover have "IsAbs (join [slash] (w # ys))" for ys using w by (cases w; cases ys) (auto simp: IsAbs_def)
  ultimately show ?thesis by (simp add: Join_def)
qed

text \<open>An entry of a plan without force, below an absolute workspace: a copy means that there was nothing at the destination.\<close>

definition planned :: "fs_env \<Rightarrow> disk \<Rightarrow> Action \<Rightarrow> bool" where
  "planned env d a \<longleftrightarrow> IsAbs (ac_Destination a) \<and> Clean (ac_Destination a) = ac_Destination a \<and>
     ac_Type a \<in> {ActionCopy, ActionSkip, ActionBackup, ActionCreateDir} \<and> (ac_Type a = ActionCopy \<longrightarrow> \<not> stat_ok env (ac_Destination a) d)"

lemma planFileCopy_planned: "IsAbs w \<Longrightarrow> planned env d (planFileCopy env src (Join (w # xs)) False d)"
  using Join_abs [of w xs] by (simp add: planned_def planFileCopy_def)

lemma all_right_map: "all_right (map f xs) = Inr ys \<Longrightarrow> y \<in> set ys \<Longrightarrow> \<exists>x\<in>set xs. f x = Inr y"
proof (induction xs arbitrary: ys)
  case (Cons x xs)
  then show ?case by (cases "f x") (auto split: sum.splits)
qed simp

lemma planDirCopy_planned:
  assumes "IsAbs dstDir" "planDirCopy env srcDir dstDir False d = Inr as" "a \<in> set as"
  shows "planned env d a"
proof -
  obtain p where "all_right (map (walk_action env srcDir dstDir False d) (walk_tree (tree_fuel d) d p [])) = Inr as"
    using assms(2) by (auto simp: planDirCopy_def split: sum.splits if_splits option.splits)
  from all_right_map [OF this assms(3)] obtain e where e: "walk_action env srcDir dstDir False d e = Inr a" by blast
  then show ?thesis
    using planFileCopy_planned [OF assms(1)] Join_abs [OF assms(1)]
    by (auto simp: walk_action_def Let_def planned_def split: option.splits if_splits)
qed

lemma plan_dirs_planned:
  "IsAbs dstWorkspace \<Longrightarrow> plan_dirs env srcWorkspace dstWorkspace False d ns = Inr as \<Longrightarrow> a \<in> set as \<Longrightarrow> planned env d a"
proof (induction ns arbitrary: as)
  case (Cons n ns)
  have "IsAbs (Join [dstWorkspace, n])" using Join_abs [OF Cons.prems(1)] by simp
  then show ?case
    using Cons planDirCopy_planned [of "Join [dstWorkspace, n]"] by (auto simp: Let_def split: if_splits sum.splits)
qed simp

lemma plan_planned:
  assumes "IsAbs dstWorkspace" "PlanWorkspaceMigration env srcWorkspace dstWorkspace False d = Inr as" "a \<in> set as"
  shows "planned env d a"
  using assms(2,3) planFileCopy_planned [OF assms(1)] plan_dirs_planned [OF assms(1)]
  by (auto simp: PlanWorkspaceMigration_def Let_def split: sum.splits)

lemma holds_stat_ok:
  assumes "plain_path p" "comps p \<noteq> []" "fe_open env = None" "holds d (comps p) s"
  shows "stat_ok env p d"
proof -
  obtain cs x where c: "comps p = cs @ [x]" using assms(2) by (metis rev_exhaust)
  have "walk Existing False d [] 40 [] (comps p) = Inr (comps p)"
    using walk_file [of "[]" "[]" cs x d s] assms(1,4) c by (simp add: holds_def plain_path_def)
  moreover have "p \<noteq> []" using assms(2) by auto
  ultimately show ?thesis using assms(1,3) by (simp add: stat_ok_def locate_def host_place_def plain_path_def)
qed

definition written :: "Action \<Rightarrow> string list list" where
  "written a = (case ac_Type a of ActionBackup \<Rightarrow> [dest a, backup a] | ActionCopy \<Rightarrow> [dest a] | _ \<Rightarrow> [])"

lemma planned_touched: "planned env d a \<Longrightarrow> touched a = set (written a)"
  by (auto simp: planned_def touched_def written_def)


definition sample_claw :: disk where
  "sample_claw = [([''old''], DirNode), ([''old'', ''workspace''], DirNode), ([''old'', ''workspace'', ''SOUL.md''], FileNode ''old soul''),
     ([''old'', ''workspace'', ''memory''], DirNode), ([''old'', ''workspace'', ''memory'', ''MEMORY.md''], FileNode ''old memory''),
     ([''new''], DirNode), ([''new'', ''workspace''], DirNode), ([''new'', ''workspace'', ''SOUL.md''], FileNode ''my soul'')]"

definition sample_actions :: "Action list" where
  "sample_actions = (case PlanWorkspaceMigration sample_fs_env ''/old/workspace'' ''/new/workspace'' False sample_claw of Inl e \<Rightarrow> [] | Inr as \<Rightarrow> as)"

definition sample_convert :: convert_env where
  "sample_convert = \<lparr>ce_decode = (\<lambda>_. Inr []), ce_trunc = (\<lambda>_. 0),
     ce_defaults = \<lparr>fc_Config = DefaultConfig, fc_Channels = [], fc_GatewayHost = [], fc_GatewayPort = 0,
       fc_Web = \<lparr>wc_BraveEnabled = False, wc_BraveAPIKey = [], wc_BraveMaxResults = 5, wc_DuckDuckGoMaxResults = 5\<rparr>\<rparr>,
     ce_load = (\<lambda>_. Inl (PlainError [])), ce_encode = (\<lambda>_. Inr ''{}'')\<rparr>"

definition sample_migration :: "Action list \<Rightarrow> disk \<Rightarrow> disk \<times> Result" where
  "sample_migration actions d = Execute sample_convert (\<lambda>_. \<lparr>ae_backup = sample_fs_env, ae_fs = sample_fs_env\<rparr>) actions d"

lemma sample_plan:
  "PlanWorkspaceMigration sample_fs_env ''/old/workspace'' ''/new/workspace'' False sample_claw = Inr sample_actions"
  "map dest sample_actions = [[''new'', ''workspace'', ''AGENTS.md''], [''new'', ''workspace'', ''SOUL.md''], [''new'', ''workspace'', ''USER.md''],
     [''new'', ''workspace'', ''TOOLS.md''], [''new'', ''workspace'', ''HEARTBEAT.md''], [''new'', ''workspace'', ''memory''], [''new'', ''workspace'', ''memory'', ''MEMORY.md'']]"
  "concat (map written sample_actions) = [[''new'', ''workspace'', ''SOUL.md''], [''new'', ''workspace'', ''SOUL.md.bak''], [''new'', ''workspace'', ''memory'', ''MEMORY.md'']]"
  by code_simp+


text \<open>A second migration backs up the files of the first one over the user's own, which are lost.\<close>

lemma second_migration_loses_backup:
  "case sample_migration sample_actions sample_claw of (d1, r1) \<Rightarrow>
   case PlanWorkspaceMigration sample_fs_env ''/old/workspace'' ''/new/workspace'' False d1 of
     Inl e \<Rightarrow> False
   | Inr actions \<Rightarrow>
       (case sample_migration actions d1 of (d2, r2) \<Rightarrow>
          node_at d1 [''new'', ''workspace'', ''SOUL.md.bak''] = Some (FileNode ''my soul'') \<and>
          node_at d2 [''new'', ''workspace'', ''SOUL.md''] = Some (FileNode ''old soul'') \<and>
          node_at d2 [''new'', ''workspace'', ''SOUL.md.bak''] = Some (FileNode ''old soul''))"
  by code_simp

text \<open>With force and the same directory for both installations the files are emptied: the destination is truncated before the source is read.\<close>

lemma same_home_empties_files:
  "case PlanWorkspaceMigration sample_fs_env ''/new/workspace'' ''/new/workspace'' True sample_claw of
     Inl e \<Rightarrow> False
   | Inr actions \<Rightarrow> node_at (fst (sample_migration actions sample_claw)) [''new'', ''workspace'', ''SOUL.md''] = Some (FileNode [])"
  by code_simp

text \<open>Some providers count as supported, but their keys are dropped, without a warning.\<close>

lemma supported_provider_dropped:
  assumes "name \<in> {''qwen'', ''deepseek'', ''github_copilot'', ''mistral''}"
  shows "name \<in> set supportedProviders \<and> convert_provider (name, JObj pMap) (ps, warnings) = (ps, warnings)"
proof -
  have s: "name \<in> set supportedProviders" using assms by (elim insertE emptyE) (simp_all add: supportedProviders_def)
  have "set_provider name pc b ps = ps" for pc b using assms by (elim insertE emptyE) (simp_all add: set_provider_def)
  then show ?thesis using s by (simp add: convert_provider_def)
qed

text \<open>The refresh of the workspace together with the switch for the configuration only passes the check of exclusive options and does nothing.\<close>

lemma refresh_with_config_only:
  assumes "op_ConfigOnly opts" "op_WorkspaceOnly opts"
  shows "Plan ce env opts openclawHome tinyClawHome d = Inr ([], [])"
  using assms by (simp add: Plan_def Let_def)

end
