(* ===== verification/Claude_API.thy ===== *)
theory Claude_API
  imports Antigravity
begin

text \<open>
  The provider for Anthropic's API, \<^verbatim>\<open>pkg/providers/anthropic/provider.go\<close>, and its wrapper
  \<^verbatim>\<open>pkg/providers/claude_provider.go\<close>. The vendor's SDK is not modelled: its request and response types
  are the records below, with the fields that the source sets and reads, and sending a request is the argument \<open>send\<close>.
  The Go types behind a \<^verbatim>\<open>map[string]any\<close> (an \<^verbatim>\<open>int\<close> or a \<^verbatim>\<open>float64\<close>, a list of anything or of
  strings), on which the source asserts, are the argument \<open>dynamic_types\<close>. Token usage and the logging are not kept.
\<close>

subsection \<open>The types of the SDK\<close>

record dynamic_types =
  dt_int :: "string \<Rightarrow> int option"
  dt_float :: "string \<Rightarrow> bool"
  dt_any_slice :: "json list \<Rightarrow> bool"

record TextBlockParam =
  tb_Text :: string
  tb_Ephemeral :: bool

datatype ContentBlockParam =
    NewTextBlock string
  | NewToolUseBlock string string string
  | NewToolResultBlock string string bool

record MessageParam =
  mp_Role :: string
  mp_Blocks :: "ContentBlockParam list"

definition NewUserMessage :: "ContentBlockParam \<Rightarrow> MessageParam" where
  "NewUserMessage block = \<lparr>mp_Role = ''user'', mp_Blocks = [block]\<rparr>"

definition NewAssistantMessage :: "ContentBlockParam list \<Rightarrow> MessageParam" where
  "NewAssistantMessage blocks = \<lparr>mp_Role = ''assistant'', mp_Blocks = blocks\<rparr>"

record ToolParam =
  tp_Name :: string
  tp_Properties :: "json option"
  tp_Description :: "string option"
  tp_Required :: "string list"

record MessageNewParams =
  np_Model :: string
  np_Messages :: "MessageParam list"
  np_MaxTokens :: int
  np_System :: "TextBlockParam list"
  np_Temperature :: "string option"
  np_Tools :: "ToolParam list"

text \<open>A block of a response: its text, a call with its identifier, name and encoded input, or another kind.\<close>

datatype reply_block = ReplyText string | ReplyToolUse string string string | ReplyOther

record claude_reply =
  cr_Content :: "reply_block list"
  cr_StopReason :: string

subsection \<open>Addresses\<close>

definition defaultBaseURL :: string where "defaultBaseURL = ''https://api.anthropic.com''"

definition cut_suffix :: "string \<Rightarrow> string \<Rightarrow> string" where
  "cut_suffix s suf = (if has_suffix suf s then take (length s - length suf) s else s)"

definition normalizeBaseURL :: "string \<Rightarrow> string" where
  "normalizeBaseURL apiBase =
     (let base = trim_space apiBase
      in if base = [] then defaultBaseURL
         else let base = cut_suffix (trim_right (\<lambda>c. c = CHR ''/'') base) ''/v1''
              in if base = [] then defaultBaseURL else base)"

subsection \<open>Requests\<close>

definition system_blocks :: "Message \<Rightarrow> TextBlockParam list" where
  "system_blocks msg =
     (if msg_SystemParts msg \<noteq> []
      then map (\<lambda>part. \<lparr>tb_Text = cb_Text part, tb_Ephemeral = (cb_CacheControl part = Some ''ephemeral'')\<rparr>) (msg_SystemParts msg)
      else [\<lparr>tb_Text = msg_Content msg, tb_Ephemeral = False\<rparr>])"

text \<open>The encoded input of a call: the text of the function, else the arguments encoded, else an empty object.\<close>

definition tool_use_input :: "json_codec \<Rightarrow> ToolCall \<Rightarrow> GoError + string" where
  "tool_use_input codec tc =
     (case tc_Function tc of
        Some f \<Rightarrow> if fn_Arguments f \<noteq> [] then Inr (fn_Arguments f)
                  else (case tc_Arguments tc of
                          Some m \<Rightarrow> (case jc_marshal codec m of Inl err \<Rightarrow> Inl (ErrWrap ''marshal tool_use input: '' err) | Inr s \<Rightarrow> Inr s)
                        | None \<Rightarrow> Inr ''{}'')
      | None \<Rightarrow> (case tc_Arguments tc of
                   Some m \<Rightarrow> (case jc_marshal codec m of Inl err \<Rightarrow> Inl (ErrWrap ''marshal tool_use input: '' err) | Inr s \<Rightarrow> Inr s)
                 | None \<Rightarrow> Inr ''{}''))"

definition call_name :: "ToolCall \<Rightarrow> string" where
  "call_name tc = (if tc_Name tc = [] then (case tc_Function tc of Some f \<Rightarrow> fn_Name f | None \<Rightarrow> []) else tc_Name tc)"

fun tool_use_blocks :: "json_codec \<Rightarrow> ToolCall list \<Rightarrow> GoError + ContentBlockParam list" where
  "tool_use_blocks codec [] = Inr []"
| "tool_use_blocks codec (tc # tcs) =
     (case tool_use_input codec tc of
        Inl err \<Rightarrow> Inl err
      | Inr inputJSON \<Rightarrow>
          (case tool_use_blocks codec tcs of
             Inl err \<Rightarrow> Inl err
           | Inr blocks \<Rightarrow> Inr (NewToolUseBlock (tc_ID tc) inputJSON (call_name tc) # blocks)))"

text \<open>The messages that one message becomes; a system message becomes none, nor does one with another role.\<close>

definition message_params :: "json_codec \<Rightarrow> Message \<Rightarrow> GoError + MessageParam list" where
  "message_params codec msg =
     (if msg_Role msg = ''user'' then
        Inr [NewUserMessage (if msg_ToolCallID msg \<noteq> [] then NewToolResultBlock (msg_ToolCallID msg) (msg_Content msg) False
                             else NewTextBlock (msg_Content msg))]
      else if msg_Role msg = ''assistant'' then
        (if msg_ToolCalls msg \<noteq> [] then
           (case tool_use_blocks codec (msg_ToolCalls msg) of
              Inl err \<Rightarrow> Inl err
            | Inr blocks \<Rightarrow> Inr [NewAssistantMessage ((if msg_Content msg \<noteq> [] then [NewTextBlock (msg_Content msg)] else []) @ blocks)])
         else Inr [NewAssistantMessage [NewTextBlock (msg_Content msg)]])
      else if msg_Role msg = ''tool'' then
        Inr [NewUserMessage (NewToolResultBlock (msg_ToolCallID msg) (msg_Content msg) False)]
      else Inr [])"

fun build_messages :: "json_codec \<Rightarrow> Message list \<Rightarrow> GoError + (TextBlockParam list \<times> MessageParam list)" where
  "build_messages codec [] = Inr ([], [])"
| "build_messages codec (msg # msgs) =
     (case message_params codec msg of
        Inl err \<Rightarrow> Inl err
      | Inr ps \<Rightarrow>
          (case build_messages codec msgs of
             Inl err \<Rightarrow> Inl err
           | Inr (sys, rest) \<Rightarrow> Inr ((if msg_Role msg = ''system'' then system_blocks msg else []) @ sys, ps @ rest)))"

definition translate_tool :: "dynamic_types \<Rightarrow> ToolDefinition \<Rightarrow> ToolParam" where
  "translate_tool dt t =
     (let f = td_Function t; parameters = (case tfd_Parameters f of Some m \<Rightarrow> m | None \<Rightarrow> [])
      in \<lparr>tp_Name = tfd_Name f, tp_Properties = map_of parameters ''properties'',
          tp_Description = (if tfd_Description f \<noteq> [] then Some (tfd_Description f) else None),
          tp_Required = (case map_of parameters ''required'' of
             Some (JArr req) \<Rightarrow> if dt_any_slice dt req then List.map_filter (\<lambda>r. case r of JStr s \<Rightarrow> Some s | _ \<Rightarrow> None) req else []
           | _ \<Rightarrow> [])\<rparr>)"

definition translateTools :: "dynamic_types \<Rightarrow> ToolDefinition list \<Rightarrow> ToolParam list" where
  "translateTools dt tools = map (translate_tool dt) tools"

definition buildParams :: "json_codec \<Rightarrow> dynamic_types \<Rightarrow> Message list \<Rightarrow> ToolDefinition list \<Rightarrow> string \<Rightarrow> json_obj \<Rightarrow> GoError + MessageNewParams" where
  "buildParams codec dt messages tools model options =
     (case build_messages codec messages of
        Inl err \<Rightarrow> Inl err
      | Inr (sys, anthropicMessages) \<Rightarrow>
          Inr \<lparr>np_Model = model, np_Messages = anthropicMessages,
               np_MaxTokens = (case map_of options ''max_tokens'' of
                  Some (JNum n) \<Rightarrow> (case dt_int dt n of Some mt \<Rightarrow> mt | None \<Rightarrow> 4096)
                | _ \<Rightarrow> 4096),
               np_System = sys,
               np_Temperature = (case map_of options ''temperature'' of
                  Some (JNum t) \<Rightarrow> if dt_float dt t then Some t else None
                | _ \<Rightarrow> None),
               np_Tools = (if tools \<noteq> [] then translateTools dt tools else [])\<rparr>)"

subsection \<open>Responses\<close>

text \<open>The input decoded; the text \<^verbatim>\<open>null\<close> is not an error, but makes the map nil.\<close>

definition decode_input :: "json_codec \<Rightarrow> string \<Rightarrow> json_obj option" where
  "decode_input codec input =
     (case jc_unmarshal codec input of
        Some m \<Rightarrow> Some m
      | None \<Rightarrow> if trim_space input = ''null'' then None else Some [(''raw'', JStr input)])"

definition wire_call_of :: "json_codec \<Rightarrow> string \<Rightarrow> string \<Rightarrow> string \<Rightarrow> ToolCall" where
  "wire_call_of codec callID name input =
     \<lparr>tc_ID = callID, tc_Type = [], tc_Function = None, tc_Name = name, tc_Arguments = decode_input codec input,
      tc_ThoughtSignature = [], tc_ExtraContent = None\<rparr>"

definition finish_reason :: "string \<Rightarrow> string" where
  "finish_reason stop =
     (if stop = ''tool_use'' then ''tool_calls'' else if stop = ''max_tokens'' then ''length'' else ''stop'')"

definition parse_reply :: "json_codec \<Rightarrow> claude_reply \<Rightarrow> LLMResponse" where
  "parse_reply codec resp =
     \<lparr>lr_Content = concat (map (\<lambda>b. case b of ReplyText t \<Rightarrow> t | _ \<Rightarrow> []) (cr_Content resp)), lr_ReasoningContent = [],
      lr_ToolCalls = List.map_filter (\<lambda>b. case b of ReplyToolUse i n inp \<Rightarrow> Some (wire_call_of codec i n inp) | _ \<Rightarrow> None) (cr_Content resp),
      lr_FinishReason = finish_reason (cr_StopReason resp)\<rparr>"

subsection \<open>The provider\<close>

record 'w ClaudeProvider =
  cp_token :: string
  cp_baseURL :: string
  cp_tokenSource :: "('w \<Rightarrow> 'w \<times> (GoError + string)) option"

definition NewProviderWithBaseURL :: "string \<Rightarrow> string \<Rightarrow> 'w ClaudeProvider" where
  "NewProviderWithBaseURL token apiBase = \<lparr>cp_token = token, cp_baseURL = normalizeBaseURL apiBase, cp_tokenSource = None\<rparr>"

definition NewProviderWithTokenSourceAndBaseURL :: "string \<Rightarrow> ('w \<Rightarrow> 'w \<times> (GoError + string)) \<Rightarrow> string \<Rightarrow> 'w ClaudeProvider" where
  "NewProviderWithTokenSourceAndBaseURL token source apiBase = (NewProviderWithBaseURL token apiBase)\<lparr>cp_tokenSource := Some source\<rparr>"

definition claude_default_model :: string where "claude_default_model = ''claude-opus-4-6''"

definition current_token :: "'w ClaudeProvider \<Rightarrow> 'w \<Rightarrow> 'w \<times> (GoError + string)" where
  "current_token p w =
     (case cp_tokenSource p of
        None \<Rightarrow> (w, Inr (cp_token p))
      | Some source \<Rightarrow>
          (case source w of
             (w, Inl err) \<Rightarrow> (w, Inl (ErrWrap ''refreshing token: '' err))
           | (w, Inr tok) \<Rightarrow> (w, Inr tok)))"

definition Claude_Chat :: "json_codec \<Rightarrow> dynamic_types \<Rightarrow> (string \<Rightarrow> string \<Rightarrow> MessageNewParams \<Rightarrow> 'w \<Rightarrow> 'w \<times> (GoError + claude_reply)) \<Rightarrow>
    'w ClaudeProvider \<Rightarrow> 'w chat" where
  "Claude_Chat codec dt send p messages tools model options w =
     (case current_token p w of
        (w, Inl err) \<Rightarrow> (w, Inl err)
      | (w, Inr tok) \<Rightarrow>
          (case buildParams codec dt messages tools model options of
             Inl err \<Rightarrow> (w, Inl err)
           | Inr params \<Rightarrow>
               (case send (cp_baseURL p) tok params w of
                  (w, Inl err) \<Rightarrow> (w, Inl (ErrWrap ''claude API call: '' err))
                | (w, Inr resp) \<Rightarrow> (w, Inr (parse_reply codec resp)))))"

subsection \<open>Tool calls and their results\<close>

definition block_uses :: "MessageParam \<Rightarrow> string list" where
  "block_uses m = List.map_filter (\<lambda>b. case b of NewToolUseBlock i _ _ \<Rightarrow> Some i | _ \<Rightarrow> None) (mp_Blocks m)"

definition block_results :: "MessageParam \<Rightarrow> string list" where
  "block_results m = List.map_filter (\<lambda>b. case b of NewToolResultBlock i _ _ \<Rightarrow> Some i | _ \<Rightarrow> None) (mp_Blocks m)"

text \<open>What the API asks of a conversation: after a message with tool uses, the user's messages carry exactly their results, in order,
  and no other message carries a result. (The API joins consecutive messages of the user.)\<close>

fun tool_turns :: "string list \<Rightarrow> MessageParam list \<Rightarrow> bool" where
  "tool_turns pend [] = (pend = [])"
| "tool_turns (i # pend) (m # ms) = (mp_Role m = ''user'' \<and> block_results m = [i] \<and> length (mp_Blocks m) = 1 \<and> tool_turns pend ms)"
| "tool_turns [] (m # ms) =
     (block_results m = [] \<and> (if block_uses m \<noteq> [] then mp_Role m = ''assistant'' else True) \<and> tool_turns (block_uses m) ms)"

definition plain_user :: "Message \<Rightarrow> bool" where
  "plain_user m = (if msg_Role m = ''user'' then msg_ToolCallID m = [] else True)"

lemmas block_simps = block_uses_def block_results_def NewUserMessage_def NewAssistantMessage_def map_filter_simps

lemma map_filter_append: "List.map_filter f (xs @ ys) = List.map_filter f xs @ List.map_filter f ys"
  by (simp add: List.map_filter_def)

lemma tool_use_blocks_ids:
  assumes "tool_use_blocks codec tcs = Inr blocks"
  shows "List.map_filter (\<lambda>b. case b of NewToolUseBlock i _ _ \<Rightarrow> Some i | _ \<Rightarrow> None) blocks = map tc_ID tcs"
    and "List.map_filter (\<lambda>b. case b of NewToolResultBlock i _ _ \<Rightarrow> Some i | _ \<Rightarrow> None) blocks = []"
  using assms by (induction tcs arbitrary: blocks) (auto simp: map_filter_simps split: sum.splits)

lemma assistant_params:
  assumes "message_params codec m = Inr ps" "msg_Role m = ''assistant''"
  shows "\<exists>a. ps = [a] \<and> mp_Role a = ''assistant'' \<and> block_uses a = map tc_ID (msg_ToolCalls m) \<and> block_results a = []"
proof (cases "msg_ToolCalls m = []")
  case True
  then show ?thesis using assms by (simp add: message_params_def block_simps) (auto simp: block_simps)
next
  case False
  then obtain blocks where b: "tool_use_blocks codec (msg_ToolCalls m) = Inr blocks"
    using assms by (auto simp: message_params_def split: sum.splits)
  show ?thesis using assms False b tool_use_blocks_ids [OF b]
    by (cases "msg_Content m") (auto simp: message_params_def block_simps map_filter_append)
qed

lemma build_messages_turns:
  assumes "build_messages codec msgs = Inr (sys, ps)" "answered pend msgs" "list_all plain_user msgs"
  shows "tool_turns pend ps"
  using assms
proof (induction pend msgs arbitrary: sys ps rule: answered.induct)
  case (2 i pend m ms)
  obtain sys' rest where r: "build_messages codec ms = Inr (sys', rest)"
    and ps: "ps = NewUserMessage (NewToolResultBlock i (msg_Content m) False) # rest"
    using 2(2,3) by (auto simp: message_params_def split: sum.splits)
  have "tool_turns pend rest" using 2(1) [OF r] 2(3,4) by simp
  then show ?case by (simp add: ps block_simps)
next
  case (3 m ms)
  obtain p sys' rest where p: "message_params codec m = Inr p" and r: "build_messages codec ms = Inr (sys', rest)"
    and ps: "ps = p @ rest" using 3(2) by (auto split: sum.splits)
  have ih: "tool_turns (if msg_Role m = ''assistant'' then map tc_ID (msg_ToolCalls m) else []) rest"
    using 3(1) [OF r] 3(3,4) by simp
  show ?case
  proof (cases "msg_Role m = ''assistant''")
    case True
    then show ?thesis using assistant_params [OF p True] ih by (auto simp: ps)
  next
    case False
    then show ?thesis using p ih 3(3,4) by (auto simp: ps message_params_def plain_user_def block_simps split: if_splits)
  qed
qed auto

lemma build_messages_roles:
  assumes "build_messages codec msgs = Inr (sys, ps)"
  shows "map mp_Role ps = map (\<lambda>m. if msg_Role m = ''assistant'' then ''assistant'' else ''user'')
           (filter (\<lambda>m. msg_Role m \<in> {''user'', ''assistant'', ''tool''}) msgs)"
  using assms
proof (induction msgs arbitrary: sys ps)
  case (Cons m ms)
  obtain p sys' rest where p: "message_params codec m = Inr p" and r: "build_messages codec ms = Inr (sys', rest)"
    and ps: "ps = p @ rest" using Cons.prems by (auto split: sum.splits)
  show ?case
    using Cons.IH [OF r] p by (auto simp: ps message_params_def NewUserMessage_def NewAssistantMessage_def split: if_splits sum.splits)
qed simp


definition sample_asked_call :: ToolCall where
  "sample_asked_call = \<lparr>tc_ID = ''t1'', tc_Type = ''function'',
     tc_Function = Some \<lparr>fn_Name = ''exec'', fn_Arguments = ''{}'', fn_ThoughtSignature = []\<rparr>, tc_Name = ''exec'', tc_Arguments = None,
     tc_ThoughtSignature = [], tc_ExtraContent = None\<rparr>"

definition sample_claude_messages :: "Message list" where
  "sample_claude_messages =
     [(text_message ''system'' ''S D'')\<lparr>msg_SystemParts :=
        [\<lparr>cb_Type = ''text'', cb_Text = ''S'', cb_CacheControl = Some ''ephemeral''\<rparr>, \<lparr>cb_Type = ''text'', cb_Text = ''D'', cb_CacheControl = None\<rparr>]\<rparr>,
      text_message ''user'' ''hi'', (text_message ''assistant'' ''ok'')\<lparr>msg_ToolCalls := [sample_asked_call, sample_asked_call\<lparr>tc_ID := ''t2''\<rparr>]\<rparr>,
      tool_message ''a'' ''t1'', tool_message ''b'' ''t2'', text_message ''assistant'' ''bye'']"

definition go_types :: dynamic_types where
  "go_types = \<lparr>dt_int = (\<lambda>n. if n = ''8192'' then Some 8192 else None), dt_float = (\<lambda>n. n = ''0.7''), dt_any_slice = (\<lambda>_. False)\<rparr>"


subsection \<open>A call through the agent\<close>

lemma normalized_wire_call:
  assumes "tc_Function tc = None"
  shows "tc_ID (NormalizeToolCall codec tc) = tc_ID tc" "tc_Name (NormalizeToolCall codec tc) = tc_Name tc"
    "tc_Arguments (NormalizeToolCall codec tc) = Some (args_of tc)"
  using assms by (cases "tc_Arguments tc", simp_all add: NormalizeToolCall_def fill_name_def fill_arguments_def fill_function_def args_of_def Let_def)+

text \<open>\<open>asked_again codec tc b\<close>: the block says what the call said.\<close>

definition asked_again :: "json_codec \<Rightarrow> ToolCall \<Rightarrow> ContentBlockParam \<Rightarrow> bool" where
  "asked_again codec tc b = (case b of
      NewToolUseBlock i inp name \<Rightarrow> i = tc_ID tc \<and> name = tc_Name tc \<and> jc_unmarshal codec inp = Some (args_of tc)
    | _ \<Rightarrow> False)"

lemma calls_asked_again:
  assumes "list_all (\<lambda>tc. tc_Function tc = None \<and> tc_Name tc \<noteq> [] \<and> wire_args codec (args_of tc)) tcs"
    "build_calls codec agent_call (map (NormalizeToolCall codec) tcs) = Inr calls"
  shows "\<exists>blocks. tool_use_blocks codec calls = Inr blocks \<and> list_all2 (asked_again codec) tcs blocks"
  using assms
proof (induction tcs arbitrary: calls)
  case (Cons tc tcs)
  from Cons.prems(2) obtain enc cs where t: "marshal_arguments codec (NormalizeToolCall codec tc) = Inr enc"
    and cs: "build_calls codec agent_call (map (NormalizeToolCall codec) tcs) = Inr cs"
    and c: "calls = agent_call (NormalizeToolCall codec tc) enc # cs"
    by (auto split: sum.splits)
  obtain blocks where b: "tool_use_blocks codec cs = Inr blocks" "list_all2 (asked_again codec) tcs blocks"
    using Cons.IH [OF _ cs] Cons.prems(1) by auto
  have f: "tc_Function tc = None" "tc_Name tc \<noteq> []" "wire_args codec (args_of tc)" using Cons.prems(1) by auto
  note n = normalized_wire_call [OF f(1), of codec]
  have m: "jc_marshal codec (args_of tc) = Inr enc" using t by (simp add: marshal_arguments_def n)
  then have u: "enc \<noteq> []" "jc_unmarshal codec enc = Some (args_of tc)" using f(3) by (simp_all add: wire_args_def)
  have "tool_use_blocks codec calls = Inr (NewToolUseBlock (tc_ID tc) enc (tc_Name tc) # blocks)"
    unfolding c using u f(2) b(1) by (simp add: agent_call_def tool_use_input_def call_name_def n Let_def)
  moreover have "asked_again codec tc (NewToolUseBlock (tc_ID tc) enc (tc_Name tc))" using u by (simp add: asked_again_def)
  ultimately show ?case using b(2) by simp
qed simp

lemma parsed_wire_calls: "list_all (\<lambda>tc. tc_Function tc = None) (lr_ToolCalls (parse_reply codec resp))"
  by (auto simp: parse_reply_def List.map_filter_def list_all_iff wire_call_of_def split: reply_block.splits)

theorem claude_turn_echoed:
  assumes "list_all (\<lambda>tc. tc_Name tc \<noteq> [] \<and> wire_args codec (args_of tc)) (lr_ToolCalls (parse_reply codec resp))"
    "build_calls codec agent_call (map (NormalizeToolCall codec) (lr_ToolCalls (parse_reply codec resp))) = Inr calls"
  shows "\<exists>blocks. tool_use_blocks codec calls = Inr blocks \<and> list_all2 (asked_again codec) (lr_ToolCalls (parse_reply codec resp)) blocks"
  using calls_asked_again [OF _ assms(2)] assms(1) parsed_wire_calls [of codec resp] by (simp add: list_all_iff)

subsection \<open>Other facts\<close>

text \<open>The tools of the program write the list of required parameters as a list of strings, which is not a list of anything:
  the request then says of no parameter that it is required.\<close>

lemma required_not_sent:
  assumes "\<And>req. map_of (case tfd_Parameters (td_Function t) of Some m \<Rightarrow> m | None \<Rightarrow> []) ''required'' = Some (JArr req) \<Longrightarrow> \<not> dt_any_slice dt req"
  shows "tp_Required (translate_tool dt t) = []"
  using assms unfolding translate_tool_def Let_def by (auto split: option.splits json.splits)

lemma normalizeBaseURL_nonempty: "normalizeBaseURL apiBase \<noteq> []"
  by (simp add: normalizeBaseURL_def defaultBaseURL_def Let_def)

lemma normalizeBaseURL_examples:
  "normalizeBaseURL ''  https://proxy.example/v1/ '' = ''https://proxy.example''" "normalizeBaseURL '' /v1'' = defaultBaseURL"
  by code_simp+

text \<open>A token that cannot be refreshed stops the call before a request is built.\<close>

lemma no_request_without_token:
  "cp_tokenSource p = Some source \<Longrightarrow> source w = (w', Inl err) \<Longrightarrow>
   Claude_Chat codec dt send p messages tools model options w = (w', Inl (ErrWrap ''refreshing token: '' err))"
  by (simp add: Claude_Chat_def current_token_def)

end
