(* ===== verification/Codex_API.thy ===== *)
theory Codex_API
  imports Claude_API
begin

text \<open>
  The provider for OpenAI's Responses interface, \<^verbatim>\<open>pkg/providers/codex_provider.go\<close>: the choice of the model, the translation
  of a conversation, the reading of the event stream. The vendor's SDK is not modelled: its types are the records below, with the fields
  that the source sets and reads, and the stream is the argument \<open>stream\<close>: the events in order and the error it ends
  with. Token usage and the logging are not kept.
\<close>

subsection \<open>Models\<close>

definition codexDefaultModel :: string where "codexDefaultModel = ''gpt-5.2''"
definition defaultCodexInstructions :: string where "defaultCodexInstructions = ''You are Codex, a coding assistant.''"

definition unsupportedPrefixes :: "string list" where
  "unsupportedPrefixes = [''glm'', ''claude'', ''anthropic'', ''gemini'', ''google'', ''moonshot'', ''kimi'', ''qwen'', ''deepseek'',
     ''llama'', ''meta-llama'', ''mistral'', ''grok'', ''xai'', ''zhipu'']"

definition family_of :: "string \<Rightarrow> string \<times> string" where
  "family_of m =
     (if list_ex (\<lambda>prefix. has_prefix prefix m) unsupportedPrefixes then (codexDefaultModel, ''unsupported model prefix'')
      else if has_prefix ''gpt-'' m \<or> has_prefix ''o3'' m \<or> has_prefix ''o4'' m then (m, [])
      else (codexDefaultModel, ''unsupported model family''))"

definition resolveCodexModel :: "string \<Rightarrow> string \<times> string" where
  "resolveCodexModel model =
     (let m = to_lower (trim_space model)
      in if m = [] then (codexDefaultModel, ''empty model'')
         else if has_prefix ''openai/'' m then family_of (drop 7 m)
         else if contains m ''/'' then (codexDefaultModel, ''non-openai model namespace'')
         else family_of m)"

subsection \<open>Requests\<close>

datatype input_item = InMessage string string | InCall string string string | InOutput string string

datatype codex_tool = FunctionTool string "json_obj option" "string option" | WebSearchTool

record ResponseNewParams =
  rp_Model :: string
  rp_Input :: "input_item list"
  rp_Instructions :: string
  rp_PromptCacheKey :: "string option"
  rp_Tools :: "codex_tool list"

definition resolveCodexToolCall :: "json_codec \<Rightarrow> ToolCall \<Rightarrow> (string \<times> string) option" where
  "resolveCodexToolCall codec tc =
     (let name = call_name tc
      in if name = [] then None
         else if args_of tc \<noteq> [] then (case jc_marshal codec (args_of tc) of Inl err \<Rightarrow> None | Inr argsJSON \<Rightarrow> Some (name, argsJSON))
         else (case tc_Function tc of
                 Some f \<Rightarrow> if fn_Arguments f \<noteq> [] then Some (name, fn_Arguments f) else Some (name, ''{}'')
               | None \<Rightarrow> Some (name, ''{}'')))"

text \<open>Calls without a name or whose arguments cannot be encoded are left out.\<close>

definition call_items :: "json_codec \<Rightarrow> ToolCall list \<Rightarrow> input_item list" where
  "call_items codec tcs =
     List.map_filter (\<lambda>tc. case resolveCodexToolCall codec tc of Some (name, args) \<Rightarrow> Some (InCall (tc_ID tc) name args) | None \<Rightarrow> None) tcs"

definition message_items :: "json_codec \<Rightarrow> Message \<Rightarrow> input_item list" where
  "message_items codec msg =
     (if msg_Role msg = ''user'' then
        [if msg_ToolCallID msg \<noteq> [] then InOutput (msg_ToolCallID msg) (msg_Content msg) else InMessage ''user'' (msg_Content msg)]
      else if msg_Role msg = ''assistant'' then
        (if msg_ToolCalls msg \<noteq> []
         then (if msg_Content msg \<noteq> [] then [InMessage ''assistant'' (msg_Content msg)] else []) @ call_items codec (msg_ToolCalls msg)
         else [InMessage ''assistant'' (msg_Content msg)])
      else if msg_Role msg = ''tool'' then [InOutput (msg_ToolCallID msg) (msg_Content msg)]
      else [])"

text \<open>The last system message gives the instructions.\<close>

definition instructions_of :: "Message list \<Rightarrow> string" where
  "instructions_of messages = fold (\<lambda>msg instructions. if msg_Role msg = ''system'' then msg_Content msg else instructions) messages []"

definition translateToolsForCodex :: "ToolDefinition list \<Rightarrow> bool \<Rightarrow> codex_tool list" where
  "translateToolsForCodex tools enableWebSearch =
     map (\<lambda>t. FunctionTool (tfd_Name (td_Function t)) (tfd_Parameters (td_Function t))
               (if tfd_Description (td_Function t) \<noteq> [] then Some (tfd_Description (td_Function t)) else None))
       (filter (\<lambda>t. td_Type t = ''function'' \<and> \<not> (enableWebSearch \<and> equal_fold (tfd_Name (td_Function t)) ''web_search'')) tools) @
     (if enableWebSearch then [WebSearchTool] else [])"

definition buildCodexParams :: "json_codec \<Rightarrow> Message list \<Rightarrow> ToolDefinition list \<Rightarrow> string \<Rightarrow> json_obj \<Rightarrow> bool \<Rightarrow> ResponseNewParams" where
  "buildCodexParams codec messages tools model options enableWebSearch =
     (let instructions = instructions_of messages
      in \<lparr>rp_Model = model, rp_Input = concat (map (message_items codec) messages),
          rp_Instructions = (if instructions \<noteq> [] then instructions else defaultCodexInstructions),
          rp_PromptCacheKey = (case map_of options ''prompt_cache_key'' of
             Some (JStr cacheKey) \<Rightarrow> if cacheKey \<noteq> [] then Some cacheKey else None
           | _ \<Rightarrow> None),
          rp_Tools = (if tools \<noteq> [] \<or> enableWebSearch then translateToolsForCodex tools enableWebSearch else [])\<rparr>)"

subsection \<open>Responses\<close>

datatype output_item = OutMessage "(string \<times> string) list" | OutCall string string string | OutOther

record codex_response =
  xr_ID :: string
  xr_Status :: string
  xr_Output :: "output_item list"

record codex_event =
  xe_Type :: string
  xe_Response :: codex_response

definition parseCodexResponse :: "json_codec \<Rightarrow> codex_response \<Rightarrow> LLMResponse" where
  "parseCodexResponse codec resp =
     (let toolCalls = List.map_filter (\<lambda>i. case i of OutCall c n a \<Rightarrow> Some (wire_call_of codec c n a) | _ \<Rightarrow> None) (xr_Output resp)
      in \<lparr>lr_Content = concat (map (\<lambda>i. case i of OutMessage parts \<Rightarrow> concat (map snd (filter (\<lambda>(t, _). t = ''output_text'') parts)) | _ \<Rightarrow> [])
                                (xr_Output resp)),
          lr_ReasoningContent = [], lr_ToolCalls = toolCalls,
          lr_FinishReason = (if xr_Status resp = ''incomplete'' then ''length'' else if toolCalls \<noteq> [] then ''tool_calls'' else ''stop'')\<rparr>)"

definition final_response :: "codex_event list \<Rightarrow> codex_response option" where
  "final_response evts =
     fold (\<lambda>evt resp.
         if xe_Type evt \<in> {''response.completed'', ''response.failed'', ''response.incomplete''} \<and> xr_ID (xe_Response evt) \<noteq> []
         then Some (xe_Response evt) else resp) evts None"

subsection \<open>The provider\<close>

record 'w CodexProvider =
  xp_token :: string
  xp_accountID :: string
  xp_tokenSource :: "('w \<Rightarrow> 'w \<times> (GoError + (string \<times> string))) option"
  xp_enableWebSearch :: bool

definition NewCodexProvider :: "string \<Rightarrow> string \<Rightarrow> 'w CodexProvider" where
  "NewCodexProvider token accountID = \<lparr>xp_token = token, xp_accountID = accountID, xp_tokenSource = None, xp_enableWebSearch = True\<rparr>"

definition NewCodexProviderWithTokenSource :: "string \<Rightarrow> string \<Rightarrow> ('w \<Rightarrow> 'w \<times> (GoError + (string \<times> string))) \<Rightarrow> 'w CodexProvider" where
  "NewCodexProviderWithTokenSource token accountID source = (NewCodexProvider token accountID)\<lparr>xp_tokenSource := Some source\<rparr>"

definition account_header :: "string \<Rightarrow> (string \<times> string) list" where
  "account_header accountID = (if accountID \<noteq> [] then [(''Chatgpt-Account-Id'', accountID)] else [])"

definition codex_credentials :: "'w CodexProvider \<Rightarrow> 'w \<Rightarrow> 'w \<times> (GoError + (string \<times> string))" where
  "codex_credentials p w =
     (case xp_tokenSource p of
        None \<Rightarrow> (w, Inr (xp_token p, xp_accountID p))
      | Some source \<Rightarrow>
          (case source w of
             (w, Inl err) \<Rightarrow> (w, Inl (ErrWrap ''refreshing token: '' err))
           | (w, Inr (tok, accID)) \<Rightarrow> (w, Inr (tok, if accID \<noteq> [] then accID else xp_accountID p))))"

definition Codex_Chat :: "json_codec \<Rightarrow> (string \<Rightarrow> (string \<times> string) list \<Rightarrow> ResponseNewParams \<Rightarrow> 'w \<Rightarrow> 'w \<times> codex_event list \<times> GoError option) \<Rightarrow>
    'w CodexProvider \<Rightarrow> 'w chat" where
  "Codex_Chat codec stream p messages tools model options w =
     (let resolvedModel = fst (resolveCodexModel model) in
      case codex_credentials p w of
        (w, Inl err) \<Rightarrow> (w, Inl err)
      | (w, Inr (tok, accountID)) \<Rightarrow>
          (case stream tok (account_header accountID) (buildCodexParams codec messages tools resolvedModel options (xp_enableWebSearch p)) w of
             (w, evts, Some err) \<Rightarrow> (w, Inl (ErrWrap ''codex API call: '' err))
           | (w, evts, None) \<Rightarrow>
               (case final_response evts of
                  None \<Rightarrow> (w, Inl (ErrNew ''codex API call: stream ended without completed response''))
                | Some resp \<Rightarrow> (w, Inr (parseCodexResponse codec resp)))))"

subsection \<open>Facts\<close>

definition codex_model :: "string \<Rightarrow> bool" where
  "codex_model m \<longleftrightarrow> has_prefix ''gpt-'' m \<or> has_prefix ''o3'' m \<or> has_prefix ''o4'' m"

lemma family_of_model: "codex_model (fst (family_of m))"
  by (auto simp: family_of_def codex_model_def codexDefaultModel_def has_prefix_def)

text \<open>Whatever model is asked for, the request names one of the backend's families.\<close>

theorem codex_model_supported: "codex_model (fst (resolveCodexModel model))"
  using family_of_model by (auto simp: resolveCodexModel_def Let_def codex_model_def codexDefaultModel_def has_prefix_def)

lemma resolveCodexModel_examples:
  "resolveCodexModel '' OpenAI/GPT-5-mini '' = (''gpt-5-mini'', [])" "fst (resolveCodexModel ''anthropic/claude'') = codexDefaultModel"
  "fst (resolveCodexModel ''claude-3'') = codexDefaultModel" "fst (resolveCodexModel []) = codexDefaultModel"
  by code_simp+

text \<open>The pairing of calls and outputs in the input of a request.\<close>

fun paired :: "string list \<Rightarrow> input_item list \<Rightarrow> bool" where
  "paired pend [] = (pend = [])"
| "paired pend (InCall i n a # xs) = paired (pend @ [i]) xs"
| "paired (i # pend) (InOutput j c # xs) = (i = j \<and> paired pend xs)"
| "paired [] (InOutput j c # xs) = False"
| "paired pend (InMessage r c # xs) = (pend = [] \<and> paired [] xs)"

definition resolvable :: "json_codec \<Rightarrow> Message \<Rightarrow> bool" where
  "resolvable codec m = list_all (\<lambda>tc. resolveCodexToolCall codec tc \<noteq> None) (msg_ToolCalls m)"

lemma paired_calls:
  assumes "list_all (\<lambda>tc. resolveCodexToolCall codec tc \<noteq> None) tcs"
  shows "paired pend (call_items codec tcs @ xs) = paired (pend @ map tc_ID tcs) xs"
  using assms by (induction tcs arbitrary: pend) (auto simp: call_items_def map_filter_simps)

lemma paired_items:
  assumes "answered pend msgs" "list_all plain_user msgs" "list_all (resolvable codec) msgs"
  shows "paired pend (concat (map (message_items codec) msgs))"
  using assms
proof (induction pend msgs rule: answered.induct)
  case (3 m ms)
  then have ih: "paired (if msg_Role m = ''assistant'' then map tc_ID (msg_ToolCalls m) else []) (concat (map (message_items codec) ms))" by simp
  have r: "list_all (\<lambda>tc. resolveCodexToolCall codec tc \<noteq> None) (msg_ToolCalls m)" using 3(4) by (simp add: resolvable_def)
  show ?case
  proof (cases "msg_Role m = ''assistant''")
    case True
    define xs where "xs = concat (map (message_items codec) ms)"
    have "paired (map tc_ID (msg_ToolCalls m)) xs" using ih True by (simp add: xs_def)
    then have "paired [] (message_items codec m @ xs)"
      using True by (auto simp: message_items_def paired_calls [OF r])
    then show ?thesis by (simp add: xs_def)
  next
    case False
    define xs where "xs = concat (map (message_items codec) ms)"
    have "paired [] xs" using ih False by (simp add: xs_def)
    then have "paired [] (message_items codec m @ xs)" using False 3(2,3) by (auto simp: message_items_def plain_user_def)
    then show ?thesis by (simp add: xs_def)
  qed
qed (auto simp: message_items_def)

text \<open>Calls are paired with their outputs. When every call of the conversation is answered (as in every request of
  the agent loop) and every call has a name and arguments that can be encoded, the input of the request lists after each group of
  calls exactly their outputs, in order.\<close>

theorem codex_input_paired:
  assumes "answered [] messages" "list_all plain_user messages" "list_all (resolvable codec) messages"
  shows "paired [] (rp_Input (buildCodexParams codec messages tools model options web))"
  using paired_items [OF assms] by (simp add: buildCodexParams_def Let_def)

lemma skipped_call_leaves_output:
  "paired [] (rp_Input (buildCodexParams empty_codec
     [(text_message ''assistant'' [])\<lparr>msg_ToolCalls := [sample_asked_call\<lparr>tc_Name := [], tc_Function := None\<rparr>]\<rparr>, tool_message ''a'' ''t1'']
     [] codexDefaultModel [] False)) = False"
  by code_simp

theorem codex_input_paired_witness:
  "paired [] (rp_Input (buildCodexParams empty_codec sample_claude_messages [] codexDefaultModel [] True)) \<and>
   length (rp_Input (buildCodexParams empty_codec sample_claude_messages [] codexDefaultModel [] True)) = 7"
proof -
  have "answered [] sample_claude_messages" "list_all plain_user sample_claude_messages" "list_all (resolvable empty_codec) sample_claude_messages"
    "length (rp_Input (buildCodexParams empty_codec sample_claude_messages [] codexDefaultModel [] True)) = 7" by code_simp+
  then show ?thesis using codex_input_paired by blast
qed

text \<open>A failed response is an answer. The last response event counts whatever it reports: when the backend says that
  the response failed, the call still succeeds, with whatever output there is (usually none) and the finish reason of a normal end, so no
  fallback is tried.\<close>

theorem failed_response_is_answer:
  assumes "codex_credentials p w = (w1, Inr (tok, acc))"
    and "stream tok (account_header acc) (buildCodexParams codec messages tools (fst (resolveCodexModel model)) options (xp_enableWebSearch p)) w1 =
      (w2, evts @ [\<lparr>xe_Type = ''response.failed'', xe_Response = \<lparr>xr_ID = i, xr_Status = ''failed'', xr_Output = []\<rparr>\<rparr>], None)"
    and "i \<noteq> []"
  shows "Codex_Chat codec stream p messages tools model options w =
    (w2, Inr \<lparr>lr_Content = [], lr_ReasoningContent = [], lr_ToolCalls = [], lr_FinishReason = ''stop''\<rparr>)"
proof -
  have "final_response (evts @ [\<lparr>xe_Type = ''response.failed'', xe_Response = \<lparr>xr_ID = i, xr_Status = ''failed'', xr_Output = []\<rparr>\<rparr>]) =
      Some \<lparr>xr_ID = i, xr_Status = ''failed'', xr_Output = []\<rparr>"
    using assms(3) by (simp add: final_response_def)
  then show ?thesis using assms(1,2) by (simp add: Codex_Chat_def Let_def parseCodexResponse_def map_filter_simps)
qed

theorem failed_response_is_answer_witness:
  "snd (Codex_Chat empty_codec (\<lambda>_ _ _ w. (w, [\<lparr>xe_Type = ''response.failed'', xe_Response = \<lparr>xr_ID = ''r'', xr_Status = ''failed'', xr_Output = []\<rparr>\<rparr>], None))
     (NewCodexProvider ''t'' ''a'') [] [] ''gpt-5'' [] ()) =
   Inr \<lparr>lr_Content = [], lr_ReasoningContent = [], lr_ToolCalls = [], lr_FinishReason = ''stop''\<rparr>"
  using failed_response_is_answer [of "NewCodexProvider ''t'' ''a''" "()" "()" "''t''" "''a''"
      "\<lambda>_ _ _ w. (w, [\<lparr>xe_Type = ''response.failed'', xe_Response = \<lparr>xr_ID = ''r'', xr_Status = ''failed'', xr_Output = []\<rparr>\<rparr>], None)"
      empty_codec "[]" "[]" "''gpt-5''" "[]" "()" "[]" "''r''"]
  by (simp add: codex_credentials_def NewCodexProvider_def)

lemma own_search_replaced:
  "FunctionTool ''web_search'' d ps \<notin> set (translateToolsForCodex tools True) \<and> WebSearchTool \<in> set (translateToolsForCodex tools True)"
proof -
  have "equal_fold ''web_search'' ''web_search''" by (simp add: equal_fold_def)
  then show ?thesis by (auto simp: translateToolsForCodex_def)
qed

lemma instructions_never_empty: "rp_Instructions (buildCodexParams codec messages tools model options web) \<noteq> []"
  by (simp add: buildCodexParams_def Let_def defaultCodexInstructions_def)


end
