(* ===== verification/MCP.thy ===== *)
theory MCP
  imports Tools
begin

text \<open>
  Tools of MCP servers, \<^verbatim>\<open>pkg/tools/mcp_client.go\<close> and \<^verbatim>\<open>pkg/tools/mcp_registry.go\<close>: the client that
  speaks JSON-RPC with a subprocess, the tool that stands for one tool of the server, and the registration of a server's tools. The
  subprocess is the argument \<open>srv\<close>, the decoding of its lines the argument \<open>dec\<close>; the association list of a client stands for
  its Go map in the order of an iteration. The logging is not kept, and the calls of one client are made one after another, under its lock.
\<close>

subsection \<open>The client\<close>

record MCPToolInfo =
  ti_Name :: string
  ti_Description :: string
  ti_InputSchema :: "json_obj option"

record MCPClientTool =
  mc_name :: string
  mc_description :: string
  mc_params :: json_obj
  mc_running :: bool
  mc_nextID :: int
  mc_mcpTools :: "(string \<times> MCPToolInfo) list"

record jsonRPCResponse =
  jr_ID :: int
  jr_Result :: string
  jr_Error :: "(int \<times> string) option"

record mcp_decoders =
  md_response :: "string \<Rightarrow> GoError + jsonRPCResponse"
  md_tools :: "string \<Rightarrow> GoError + MCPToolInfo list"
  md_result :: "string \<Rightarrow> GoError + ((string \<times> string) list \<times> bool)"

record 'w subprocess =
  sp_stdin :: "'w \<Rightarrow> GoError option"
  sp_stdout :: "'w \<Rightarrow> GoError option"
  sp_start :: "string \<Rightarrow> string list \<Rightarrow> 'w \<Rightarrow> 'w \<times> GoError option"
  sp_write :: "string \<Rightarrow> 'w \<Rightarrow> 'w \<times> GoError option"
  sp_read :: "'w \<Rightarrow> 'w \<times> (GoError + string)"
  sp_kill :: "'w \<Rightarrow> 'w"

definition NewMCPClientTool :: "string \<Rightarrow> string \<Rightarrow> MCPClientTool" where
  "NewMCPClientTool name description =
     \<lparr>mc_name = name, mc_description = description,
      mc_params = [(''type'', JStr ''object''),
        (''properties'', JObj [
           (''tool_name'', JObj [(''type'', JStr ''string''), (''description'', JStr ''Name of the MCP tool to call'')]),
           (''arguments'', JObj [(''type'', JStr ''object''), (''description'', JStr ''Arguments for the MCP tool'')])]),
        (''required'', JArr [JStr ''tool_name''])],
      mc_running = False, mc_nextID = 0, mc_mcpTools = []\<rparr>"

text \<open>The envelope of a request; parameters that are nil are left out.\<close>

definition rpc_request :: "int \<Rightarrow> string \<Rightarrow> json option \<Rightarrow> json_obj" where
  "rpc_request callID method params =
     [(''jsonrpc'', JStr ''2.0''), (''id'', JNum (itoa callID)), (''method'', JStr method)] @
     (case params of Some v \<Rightarrow> [(''params'', v)] | None \<Rightarrow> [])"

definition line_result :: "mcp_decoders \<Rightarrow> string \<Rightarrow> GoError + string" where
  "line_result dec line =
     (case md_response dec line of
        Inl err \<Rightarrow> Inl (ErrWrap ''parse response: '' err)
      | Inr resp \<Rightarrow>
          (case jr_Error resp of
             Some (code, message) \<Rightarrow> Inl (ErrNew (''JSON-RPC error '' @ itoa code @ '': '' @ message))
           | None \<Rightarrow> Inr (jr_Result resp)))"

definition rpc_call :: "json_codec \<Rightarrow> mcp_decoders \<Rightarrow> 'w subprocess \<Rightarrow> string \<Rightarrow> json option \<Rightarrow> MCPClientTool \<times> 'w \<Rightarrow>
    (MCPClientTool \<times> 'w) \<times> (GoError + string)" where
  "rpc_call codec dec srv method params cw =
     (let (t, w) = cw in
      if \<not> mc_running t then ((t, w), Inl (ErrNew ''MCP server not running''))
      else let callID = wrap64 (mc_nextID t + 1); t = t\<lparr>mc_nextID := callID\<rparr> in
        case jc_marshal codec (rpc_request callID method params) of
          Inl err \<Rightarrow> ((t, w), Inl (ErrWrap ''marshal request: '' err))
        | Inr data \<Rightarrow>
            (case sp_write srv (data @ [nl]) w of
               (w, Some err) \<Rightarrow> ((t, w), Inl (ErrWrap ''write request: '' err))
             | (w, None) \<Rightarrow>
                 (case sp_read srv w of
                    (w, Inl err) \<Rightarrow> ((t, w), Inl (ErrWrap ''read response: '' err))
                  | (w, Inr line) \<Rightarrow> ((t, w), line_result dec line))))"

definition rpc_notify :: "json_codec \<Rightarrow> 'w subprocess \<Rightarrow> string \<Rightarrow> json option \<Rightarrow> MCPClientTool \<times> 'w \<Rightarrow>
    (MCPClientTool \<times> 'w) \<times> GoError option" where
  "rpc_notify codec srv method params cw =
     (let (t, w) = cw in
      if \<not> mc_running t then ((t, w), Some (ErrNew ''MCP server not running''))
      else case jc_marshal codec ([(''jsonrpc'', JStr ''2.0''), (''method'', JStr method)] @ (case params of Some v \<Rightarrow> [(''params'', v)] | None \<Rightarrow> [])) of
          Inl err \<Rightarrow> ((t, w), Some (ErrWrap ''marshal notification: '' err))
        | Inr data \<Rightarrow> (case sp_write srv (data @ [nl]) w of (w, r) \<Rightarrow> ((t, w), r)))"

definition stop_client :: "'w subprocess \<Rightarrow> MCPClientTool \<times> 'w \<Rightarrow> MCPClientTool \<times> 'w" where
  "stop_client srv cw = (let (t, w) = cw in (t\<lparr>mc_running := False\<rparr>, if mc_running t then sp_kill srv w else w))"

definition discoverTools :: "json_codec \<Rightarrow> mcp_decoders \<Rightarrow> 'w subprocess \<Rightarrow> MCPClientTool \<times> 'w \<Rightarrow> (MCPClientTool \<times> 'w) \<times> GoError option" where
  "discoverTools codec dec srv cw =
     (case rpc_call codec dec srv ''tools/list'' None cw of
        (cw, Inl err) \<Rightarrow> (cw, Some err)
      | ((t, w), Inr result) \<Rightarrow>
          (case md_tools dec result of
             Inl err \<Rightarrow> ((t, w), Some (ErrWrap ''parse tools/list: '' err))
           | Inr infos \<Rightarrow> ((t\<lparr>mc_mcpTools := fold (\<lambda>info m. AList.update (ti_Name info) info m) infos []\<rparr>, w), None)))"

definition initialize_params :: json where
  "initialize_params =
     JObj [(''protocolVersion'', JStr ''2024-11-05''), (''capabilities'', JObj []),
           (''clientInfo'', JObj [(''name'', JStr ''tinyclaw''), (''version'', JStr ''1.0.0'')])]"

definition start_client :: "json_codec \<Rightarrow> mcp_decoders \<Rightarrow> 'w subprocess \<Rightarrow> string \<Rightarrow> string list \<Rightarrow> MCPClientTool \<times> 'w \<Rightarrow>
    (MCPClientTool \<times> 'w) \<times> GoError option" where
  "start_client codec dec srv command args cw =
     (let (t, w) = cw in
      case sp_stdin srv w of Some err \<Rightarrow> ((t, w), Some (ErrWrap ''mcp stdin pipe: '' err)) | None \<Rightarrow>
      case sp_stdout srv w of Some err \<Rightarrow> ((t, w), Some (ErrWrap ''mcp stdout pipe: '' err)) | None \<Rightarrow>
      (case sp_start srv command args w of
         (w, Some err) \<Rightarrow> ((t, w), Some (ErrWrap ''mcp start: '' err))
       | (w, None) \<Rightarrow>
           (case rpc_call codec dec srv ''initialize'' (Some initialize_params) (t\<lparr>mc_running := True\<rparr>, w) of
              (cw, Inl err) \<Rightarrow> (stop_client srv cw, Some (ErrWrap ''mcp initialize: '' err))
            | (cw, Inr _) \<Rightarrow>
                (case discoverTools codec dec srv (fst (rpc_notify codec srv ''notifications/initialized'' None cw)) of
                   (cw, Some err) \<Rightarrow> (stop_client srv cw, Some (ErrWrap ''mcp discover tools: '' err))
                 | (cw, None) \<Rightarrow> (cw, None)))))"

subsection \<open>Executing a tool of the server\<close>

definition text_of_blocks :: "(string \<times> string) list \<Rightarrow> string" where
  "text_of_blocks blocks =
     fold (\<lambda>(kind, t) sb. if kind = ''text'' then (if sb \<noteq> [] then sb @ [nl] @ t else sb @ t) else sb) blocks []"

definition tool_reply :: "mcp_decoders \<Rightarrow> string \<Rightarrow> ToolResult" where
  "tool_reply dec result =
     (case md_result dec result of
        Inl err \<Rightarrow> NewToolResult result
      | Inr (blocks, isError) \<Rightarrow>
          let t = (if text_of_blocks blocks = [] then result else text_of_blocks blocks)
          in if isError then ErrorResult t else NewToolResult t)"

definition object_or_null :: "json_obj option \<Rightarrow> json" where
  "object_or_null m = (case m of Some m \<Rightarrow> JObj m | None \<Rightarrow> JNull)"

definition call_params :: "string \<Rightarrow> json_obj option \<Rightarrow> json" where
  "call_params toolName toolArgs = JObj [(''name'', JStr toolName), (''arguments'', object_or_null toolArgs)]"

definition mcp_not_found :: "string \<Rightarrow> MCPClientTool \<Rightarrow> ToolResult" where
  "mcp_not_found toolName t =
     ErrorResult (''MCP tool '' @ go_quote toolName @ '' not found. Available: '' @ join '', '' (map fst (mc_mcpTools t)))"

definition MCP_Execute :: "json_codec \<Rightarrow> mcp_decoders \<Rightarrow> 'w subprocess \<Rightarrow> json_obj option \<Rightarrow> MCPClientTool \<times> 'w \<Rightarrow> (MCPClientTool \<times> 'w) \<times> ToolResult" where
  "MCP_Execute codec dec srv args cw =
     (let m = (case args of Some m \<Rightarrow> m | None \<Rightarrow> []); toolName = as_string (map_of m ''tool_name'') in
      if toolName = [] then (cw, ErrorResult ''tool_name is required and must be a non-empty string'')
      else if map_of (mc_mcpTools (fst cw)) toolName = None then (cw, mcp_not_found toolName (fst cw))
      else case rpc_call codec dec srv ''tools/call'' (Some (call_params toolName (as_object (map_of m ''arguments'')))) cw of
          (cw, Inl err) \<Rightarrow> (cw, ErrorResult (''MCP call '' @ go_quote toolName @ '' failed: '' @ error_text err))
        | (cw, Inr result) \<Rightarrow> (cw, tool_reply dec result))"

subsection \<open>The registry's tools\<close>

definition proxy_parameters :: "MCPToolInfo \<Rightarrow> json_obj" where
  "proxy_parameters info =
     (case ti_InputSchema info of Some s \<Rightarrow> s | None \<Rightarrow> [(''type'', JStr ''object''), (''properties'', JObj [])])"

definition MCPProxyTool :: "json_codec \<Rightarrow> mcp_decoders \<Rightarrow> 'w subprocess \<Rightarrow> MCPToolInfo \<Rightarrow> (MCPClientTool \<times> 'w) Tool" where
  "MCPProxyTool codec dec srv info =
     \<lparr>tl_Name = ti_Name info, tl_Description = ti_Description info, tl_Parameters = proxy_parameters info,
      tl_SetContext = None, tl_SetCallback = None,
      tl_Execute = (\<lambda>args. MCP_Execute codec dec srv
        (Some [(''tool_name'', JStr (ti_Name info)), (''arguments'', object_or_null args)]))\<rparr>"

definition prefixed :: "string \<Rightarrow> MCPToolInfo \<Rightarrow> MCPToolInfo" where
  "prefixed pre info = info\<lparr>ti_Name := (if pre \<noteq> [] then pre @ ti_Name info else ti_Name info)\<rparr>"

definition register_infos :: "json_codec \<Rightarrow> mcp_decoders \<Rightarrow> 'w subprocess \<Rightarrow> string \<Rightarrow> MCPToolInfo list \<Rightarrow>
    (MCPClientTool \<times> 'w) ToolRegistry \<Rightarrow> (MCPClientTool \<times> 'w) ToolRegistry" where
  "register_infos codec dec srv pre infos registry =
     fold (\<lambda>info r. Register r (MCPProxyTool codec dec srv (prefixed pre info))) infos registry"

definition RegisterMCPServer :: "json_codec \<Rightarrow> mcp_decoders \<Rightarrow> 'w subprocess \<Rightarrow> (MCPClientTool \<times> 'w) ToolRegistry \<Rightarrow> string \<Rightarrow> string \<Rightarrow>
    string list \<Rightarrow> string \<Rightarrow> 'w \<Rightarrow> (MCPClientTool \<times> 'w) \<times> (MCPClientTool \<times> 'w) ToolRegistry \<times> (GoError + int)" where
  "RegisterMCPServer codec dec srv registry name command args pre w =
     (case start_client codec dec srv command args (NewMCPClientTool name (''MCP server: '' @ name), w) of
        (cw, Some err) \<Rightarrow> (cw, registry, Inl (ErrWrap (''start MCP server '' @ go_quote name @ '': '') err))
      | (cw, None) \<Rightarrow>
          let discovered = map snd (mc_mcpTools (fst cw))
          in (cw, register_infos codec dec srv pre discovered registry, Inr (int (length discovered))))"

subsection \<open>Registered tools\<close>

definition named_infos :: "(string \<times> MCPToolInfo) list \<Rightarrow> bool" where
  "named_infos m \<longleftrightarrow> distinct (map fst m) \<and> list_all (\<lambda>(k, i). ti_Name i = k) m"

lemma named_infos_update: "named_infos m \<Longrightarrow> named_infos (AList.update (ti_Name info) info m)"
proof -
  assume m: "named_infos m"
  have "list_all (\<lambda>(k, i). ti_Name i = k) m \<Longrightarrow> list_all (\<lambda>(k, i). ti_Name i = k) (AList.update (ti_Name info) info m)"
    by (induction m) auto
  then show ?thesis using m by (simp add: named_infos_def distinct_update)
qed

lemma named_infos_fold: "named_infos m \<Longrightarrow> named_infos (fold (\<lambda>info m. AList.update (ti_Name info) info m) infos m)"
  by (induction infos arbitrary: m) (simp_all add: named_infos_update)

lemma rpc_call_tools: "rpc_call codec dec srv method params cw = (cw', r) \<Longrightarrow> mc_mcpTools (fst cw') = mc_mcpTools (fst cw)"
  by (auto simp: rpc_call_def Let_def split: prod.splits if_splits sum.splits option.splits)

lemma discovered_named:
  assumes "start_client codec dec srv command args cw = (cw', None)"
  shows "named_infos (mc_mcpTools (fst cw'))"
proof -
  have d: "discoverTools codec dec srv cw1 = (cw2, None) \<Longrightarrow> named_infos (mc_mcpTools (fst cw2))" for cw1 cw2
    using named_infos_fold [of "[]"]
    by (auto simp: discoverTools_def named_infos_def split: prod.splits sum.splits)
  show ?thesis using assms unfolding start_client_def Let_def
    by (auto split: prod.splits option.splits sum.splits dest: d)
qed

lemma registered_infos:
  "Get (register_infos codec dec srv pre infos r) n =
     (case find (\<lambda>info. ti_Name (prefixed pre info) = n) (rev infos) of
        Some info \<Rightarrow> Some (MCPProxyTool codec dec srv (prefixed pre info)) | None \<Rightarrow> Get r n)"
proof (induction infos arbitrary: r rule: rev_induct)
  case (snoc info infos)
  have s: "register_infos codec dec srv pre (infos @ [info]) r =
      Register (register_infos codec dec srv pre infos r) (MCPProxyTool codec dec srv (prefixed pre info))"
    by (simp add: register_infos_def)
  show ?case unfolding s using snoc by (auto simp: Get_def Register_def update_conv' MCPProxyTool_def)
qed (simp add: register_infos_def)

lemma prefixed_name [simp]: "ti_Name (prefixed pre info) = pre @ ti_Name info"
  by (simp add: prefixed_def)

lemma find_named:
  assumes "named_infos m" "map_of m n = Some info"
  shows "find (\<lambda>i. pre @ ti_Name i = pre @ n) (rev (map snd m)) = Some info"
proof -
  have info: "info \<in> set (map snd m)" "ti_Name info = n"
    using assms by (auto simp: named_infos_def list_all_iff dest!: map_of_SomeD intro: rev_image_eqI)
  have only: "i = info" if i: "i \<in> set (map snd m)" "ti_Name i = n" for i
  proof -
    obtain k where k: "(k, i) \<in> set m" using i(1) by auto
    then have "(n, i) \<in> set m" using assms(1) i(2) by (auto simp: named_infos_def list_all_iff)
    then have "map_of m n = Some i" using assms(1) by (simp add: named_infos_def)
    then show ?thesis using assms(2) by simp
  qed
  obtain j where j: "find (\<lambda>i. pre @ ti_Name i = pre @ n) (rev (map snd m)) = Some j"
    using info by (cases "find (\<lambda>i. pre @ ti_Name i = pre @ n) (rev (map snd m))") (auto simp: find_None_iff)
  then have "j \<in> set (map snd m)" "ti_Name j = n" by (auto simp: find_Some_iff) (metis nth_mem length_rev length_map set_map set_rev)
  then show ?thesis using j only by simp
qed

lemma registered_tool:
  assumes "RegisterMCPServer codec dec srv registry name command args pre w = (cw, r, Inr k)"
    and "map_of (mc_mcpTools (fst cw)) n = Some info"
  shows "Get r (pre @ n) = Some (MCPProxyTool codec dec srv (prefixed pre info))"
proof -
  obtain cw' where st: "start_client codec dec srv command args (NewMCPClientTool name (''MCP server: '' @ name), w) = (cw', None)"
    and r: "cw' = cw" "r = register_infos codec dec srv pre (map snd (mc_mcpTools (fst cw))) registry"
    using assms(1) by (auto simp: RegisterMCPServer_def Let_def split: prod.splits option.splits)
  have f: "find (\<lambda>i. pre @ ti_Name i = pre @ n) (rev (map snd (mc_mcpTools (fst cw)))) = Some info"
    using find_named [OF _ assms(2)] discovered_named [OF st] r(1) by simp
  show ?thesis unfolding r(2) registered_infos prefixed_name f by simp
qed

lemma proxy_execute:
  assumes "Get r n = Some (MCPProxyTool codec dec srv info)"
  shows "Execute r n args cw = MCP_Execute codec dec srv (Some [(''tool_name'', JStr (ti_Name info)), (''arguments'', object_or_null args)]) cw"
  using assms by (simp add: Execute_def ExecuteWithContext_def MCPProxyTool_def)

text \<open>Without a prefix every tool of the server is in the registry under its name, and executing it asks the server for that tool with
  the arguments given.\<close>

theorem mcp_tool_forwarded:
  assumes "RegisterMCPServer codec dec srv registry name command cmd_args [] w = (cw, r, Inr k)"
    and "map_of (mc_mcpTools (fst cw)) n = Some info" "n \<noteq> []" "map_of (mc_mcpTools (fst cw1)) n \<noteq> None"
  shows "Execute r n args cw1 =
    (case rpc_call codec dec srv ''tools/call'' (Some (call_params n args)) cw1 of
       (cw, Inl err) \<Rightarrow> (cw, ErrorResult (''MCP call '' @ go_quote n @ '' failed: '' @ error_text err))
     | (cw, Inr result) \<Rightarrow> (cw, tool_reply dec result))"
proof -
  have "named_infos (mc_mcpTools (fst cw))"
    using assms(1) by (auto simp: RegisterMCPServer_def Let_def split: prod.splits option.splits dest: discovered_named)
  then have i: "ti_Name info = n" using assms(2) by (auto simp: named_infos_def list_all_iff dest!: map_of_SomeD)
  have a: "as_object (Some (object_or_null args)) = args" by (cases args) (simp_all add: as_object_def object_or_null_def)
  have "Get r n = Some (MCPProxyTool codec dec srv (prefixed [] info))" using registered_tool [OF assms(1,2)] by simp
  then have e: "Execute r n args cw1 = MCP_Execute codec dec srv (Some [(''tool_name'', JStr n), (''arguments'', object_or_null args)]) cw1"
    using proxy_execute i by fastforce
  obtain y where y: "map_of (mc_mcpTools (fst cw1)) n = Some y" using assms(4) by auto
  obtain cw2 res where c: "rpc_call codec dec srv ''tools/call'' (Some (call_params n args)) cw1 = (cw2, res)" by fastforce
  show ?thesis unfolding e MCP_Execute_def using assms(3) y c by (cases res) (simp_all add: as_string_def a)
qed

text \<open>With a prefix the tools are registered under names that the client does not know: a tool whose prefixed name is not
  itself the name of a tool of the server answers every call with an error, and the server is not asked. (The names of a server are
  finitely many, so at least the longest one fails.)\<close>

theorem prefixed_mcp_tool_fails:
  assumes "RegisterMCPServer codec dec srv registry name command cmd_args pre w = (cw, r, Inr k)"
    and "map_of (mc_mcpTools (fst cw)) n = Some info" "pre \<noteq> []" "map_of (mc_mcpTools (fst cw1)) (pre @ n) = None"
  shows "Execute r (pre @ n) args cw1 = (cw1, mcp_not_found (pre @ n) (fst cw1)) \<and> tr_IsError (mcp_not_found (pre @ n) (fst cw1))"
proof -
  have "named_infos (mc_mcpTools (fst cw))"
    using assms(1) by (auto simp: RegisterMCPServer_def Let_def split: prod.splits option.splits dest: discovered_named)
  then have i: "ti_Name info = n" using assms(2) by (auto simp: named_infos_def list_all_iff dest!: map_of_SomeD)
  have e: "Execute r (pre @ n) args cw1 =
      MCP_Execute codec dec srv (Some [(''tool_name'', JStr (pre @ n)), (''arguments'', object_or_null args)]) cw1"
    using proxy_execute [OF registered_tool [OF assms(1,2)], of args cw1] i by simp
  show ?thesis unfolding e MCP_Execute_def using assms(3,4)
    by (simp add: as_string_def Let_def) (simp add: mcp_not_found_def ErrorResult_def)
qed

definition sample_mcp_codec :: json_codec where
  "sample_mcp_codec = \<lparr>jc_marshal = (\<lambda>m. Inr (case map_of m ''method'' of Some (JStr s) \<Rightarrow> s | _ \<Rightarrow> [])), jc_unmarshal = (\<lambda>_. None)\<rparr>"

text \<open>A server in the state \<open>(unread, s)\<close>: the lines it wrote that were not read yet, and its own state; it answers each line it gets with one
  line.\<close>

definition answering :: "(string \<Rightarrow> 's \<Rightarrow> 's \<times> string) \<Rightarrow> (string list \<times> 's) subprocess" where
  "answering answer =
     \<lparr>sp_stdin = (\<lambda>_. None), sp_stdout = (\<lambda>_. None), sp_start = (\<lambda>_ _ w. (w, None)),
      sp_write = (\<lambda>line (unread, s). (case answer line s of (s, reply) \<Rightarrow> ((unread @ [reply], s), None))),
      sp_read = (\<lambda>(unread, s). (case unread of [] \<Rightarrow> ((unread, s), Inl (ErrNew ''EOF'')) | l # ls \<Rightarrow> ((ls, s), Inr l))),
      sp_kill = (\<lambda>w. w)\<rparr>"

fun run_calls :: "json_codec \<Rightarrow> mcp_decoders \<Rightarrow> 'w subprocess \<Rightarrow> (string \<times> json option) list \<Rightarrow> MCPClientTool \<times> 'w \<Rightarrow> (GoError + string) list" where
  "run_calls codec dec srv [] cw = []"
| "run_calls codec dec srv ((method, params) # reqs) cw =
     (case rpc_call codec dec srv method params cw of (cw, r) \<Rightarrow> r # run_calls codec dec srv reqs cw)"

text \<open>The lines with which the server answers the requests.\<close>

fun replies :: "(string \<Rightarrow> 's \<Rightarrow> 's \<times> string) \<Rightarrow> (json_obj \<Rightarrow> string) \<Rightarrow> int \<Rightarrow> (string \<times> json option) list \<Rightarrow> 's \<Rightarrow> string list" where
  "replies answer enc n [] s = []"
| "replies answer enc n ((method, params) # reqs) s =
     (let callID = wrap64 (n + 1) in
      case answer (enc (rpc_request callID method params) @ [nl]) s of (s, reply) \<Rightarrow> reply # replies answer enc callID reqs s)"

text \<open>(C38) Answers are taken in order, not by their identifiers. A server that answers each request with one line: when nothing it
  wrote is unread, the k-th call returns the answer to the k-th request; but with unread lines (a notification of the server, an answer that
  was late) every later call returns an earlier line, and the client stays behind for good.\<close>

theorem mcp_answers_in_order:
  assumes "\<And>m. jc_marshal codec m = Inr (enc m)" "mc_running t"
  shows "run_calls codec dec (answering answer) reqs (t, (unread, s)) =
    map (line_result dec) (take (length reqs) (unread @ replies answer enc (mc_nextID t) reqs s))"
  using assms(2)
proof (induction reqs arbitrary: t unread s)
  case (Cons req reqs)
  obtain mname ps where req: "req = (mname, ps)" by fastforce
  let ?i = "wrap64 (mc_nextID t + 1)"
  obtain s' reply where a: "answer (enc (rpc_request ?i mname ps) @ [nl]) s = (s', reply)" by fastforce
  obtain l ls where l: "unread @ [reply] = l # ls" by (cases unread) auto
  have c: "rpc_call codec dec (answering answer) mname ps (t, (unread, s)) = ((t\<lparr>mc_nextID := ?i\<rparr>, (ls, s')), line_result dec l)"
    using Cons.prems a l by (simp add: rpc_call_def Let_def assms(1) answering_def)
  have "unread @ replies answer enc (mc_nextID t) (req # reqs) s = l # ls @ replies answer enc ?i reqs s'"
    using a l by (simp add: req Let_def)
  then show ?case using c Cons.IH [of "t\<lparr>mc_nextID := ?i\<rparr>" ls s'] Cons.prems by (simp add: req)
qed simp

definition plain_decoders :: mcp_decoders where
  "plain_decoders = \<lparr>md_response = (\<lambda>line. Inr \<lparr>jr_ID = 0, jr_Result = line, jr_Error = None\<rparr>),
     md_tools = (\<lambda>line. Inr [\<lparr>ti_Name = ''echo'', ti_Description = ''e'', ti_InputSchema = None\<rparr>]), md_result = (\<lambda>line. Inr ([], False))\<rparr>"

definition echo_server :: "(string list \<times> unit) subprocess" where
  "echo_server = answering (\<lambda>line s. (s, line))"

theorem mcp_answers_in_order_witness:
  "run_calls sample_mcp_codec plain_decoders (answering (\<lambda>line s. (s, line))) [(''a'', None), (''b'', None)]
     ((NewMCPClientTool ''m'' [])\<lparr>mc_running := True\<rparr>, ([''stray''], ())) = [Inr ''stray'', Inr (''a'' @ [nl])]"
proof -
  have m: "jc_marshal sample_mcp_codec m = Inr (case map_of m ''method'' of Some (JStr s) \<Rightarrow> s | _ \<Rightarrow> [])" for m
    by (simp add: sample_mcp_codec_def)
  show ?thesis
    by (subst mcp_answers_in_order [OF m])
      (simp_all add: NewMCPClientTool_def plain_decoders_def line_result_def rpc_request_def Let_def)
qed

definition sample_registration where
  "sample_registration pre = RegisterMCPServer sample_mcp_codec plain_decoders echo_server NewToolRegistry ''m'' ''mcp'' [] pre ([], ())"

lemma sample_registration_facts:
  "\<exists>cw r. sample_registration pre = (cw, r, Inr 1) \<and>
     mc_mcpTools (fst cw) = [(''echo'', \<lparr>ti_Name = ''echo'', ti_Description = ''e'', ti_InputSchema = None\<rparr>)]"
  by (simp add: sample_registration_def RegisterMCPServer_def start_client_def discoverTools_def rpc_call_def rpc_notify_def echo_server_def
      answering_def plain_decoders_def sample_mcp_codec_def NewMCPClientTool_def rpc_request_def line_result_def Let_def)

theorem prefixed_mcp_tool_fails_witness:
  "case sample_registration ''x_'' of (cw, r, res) \<Rightarrow>
     ListTools r = [''x_echo''] \<and> Execute r (''x_'' @ ''echo'') None cw = (cw, mcp_not_found ''x_echo'' (fst cw))"
proof -
  obtain cw r where f: "sample_registration ''x_'' = (cw, r, Inr 1)"
      "mc_mcpTools (fst cw) = [(''echo'', \<lparr>ti_Name = ''echo'', ti_Description = ''e'', ti_InputSchema = None\<rparr>)]"
    using sample_registration_facts by blast
  have "r = register_infos sample_mcp_codec plain_decoders echo_server ''x_''
      [\<lparr>ti_Name = ''echo'', ti_Description = ''e'', ti_InputSchema = None\<rparr>] NewToolRegistry"
    using f by (auto simp: sample_registration_def RegisterMCPServer_def Let_def split: prod.splits option.splits)
  then have l: "ListTools r = [''x_echo'']"
    by (simp add: register_infos_def Register_def NewToolRegistry_def ListTools_def sortedToolNames_def MCPProxyTool_def prefixed_def)
  have "Execute r (''x_'' @ ''echo'') None cw = (cw, mcp_not_found (''x_'' @ ''echo'') (fst cw))"
    using prefixed_mcp_tool_fails [OF f(1) [unfolded sample_registration_def], of "''echo''" _ cw None] f(2) by simp
  then show ?thesis using l by (simp add: f(1))
qed

end
