(* ===== verification/Core_Proxy.thy ===== *)
theory Core_Proxy
  imports Protocol "HOL-Library.AList"
begin

text \<open>
  The proxy of the verified core, \<^verbatim>\<open>pkg/core/proxy.go\<close>: JSON-RPC over the pipes of a subprocess, with a goroutine that reads
  the responses. A pipe is the string of its bytes, which ends at the end of the file. The first part is the framing of the messages; the
  second the table of the calls that wait, as a transition system of the callers and of the reader. The encoding of the structures is the
  argument \<open>codec\<close> or \<open>decode\<close>, and \<open>alloc\<close> says which sizes can be allocated; the logging is not kept.
\<close>

subsection \<open>Framing\<close>

definition crlf :: string where "crlf = [cr, nl]"

text \<open>\<^verbatim>\<open>strconv.Atoi\<close>: an optional sign and decimal digits, in the range of \<^verbatim>\<open>int64\<close>.\<close>

definition atoi :: "string \<Rightarrow> int option" where
  "atoi s =
     (let neg = has_prefix ''-'' s; ds = (if neg \<or> has_prefix ''+'' s then drop 1 s else s)
      in if ds = [] \<or> \<not> list_all is_digit ds then None
         else let v = foldl (\<lambda>a c. a * 10 + (of_char c - 48)) 0 ds; v = (if neg then - v else v)
              in if - (2 ^ 63) \<le> v \<and> v < 2 ^ 63 then Some v else None)"

definition frame :: "string \<Rightarrow> string" where
  "frame data = ''Content-Length: '' @ itoa (int (length data)) @ crlf @ crlf @ data"

text \<open>A line with its newline, and the rest; none when the pipe ends first.\<close>

definition read_string :: "string \<Rightarrow> (string \<times> string) option" where
  "read_string s = (case index_of [nl] s of None \<Rightarrow> None | Some i \<Rightarrow> Some (take (i + 1) s, drop (i + 1) s))"

datatype read_outcome = Payload string string | Skipped string | Ended | Panics

definition read_frame :: "(int \<Rightarrow> bool) \<Rightarrow> string \<Rightarrow> read_outcome" where
  "read_frame alloc pipe =
     (case read_string pipe of
        None \<Rightarrow> Ended
      | Some (line, rest) \<Rightarrow>
          let header = trim_space line in
          if \<not> has_prefix ''Content-Length:'' header then Skipped rest
          else case atoi (trim_space (drop 15 header)) of
              None \<Rightarrow> Skipped rest
            | Some contentLength \<Rightarrow>
                (case read_string rest of
                   None \<Rightarrow> Ended
                 | Some (_, rest) \<Rightarrow>
                     if contentLength < 0 \<or> \<not> alloc contentLength then Panics
                     else if contentLength \<le> int (length rest)
                       then Payload (take (nat contentLength) rest) (drop (nat contentLength) rest)
                       else Ended))"

lemma read_string_shorter: "read_string s = Some (line, rest) \<Longrightarrow> length rest < length s"
proof -
  assume "read_string s = Some (line, rest)"
  then obtain i where i: "index_of [nl] s = Some i" "rest = drop (i + 1) s" by (auto simp: read_string_def split: option.splits)
  show ?thesis using index_of_Some [OF i(1)] i(2) by auto
qed

lemma read_frame_shorter:
  "read_frame alloc pipe = Skipped rest \<Longrightarrow> length rest < length pipe"
  "read_frame alloc pipe = Payload data rest \<Longrightarrow> length rest < length pipe"
  by (auto simp: read_frame_def Let_def split: option.splits if_splits prod.splits dest!: read_string_shorter)

text \<open>The payloads that the reader takes off a pipe, and whether it ends in a panic.\<close>

function read_all :: "(int \<Rightarrow> bool) \<Rightarrow> string \<Rightarrow> string list \<times> bool" where
  "read_all alloc pipe =
     (case read_frame alloc pipe of
        Payload data rest \<Rightarrow> (case read_all alloc rest of (ds, panic) \<Rightarrow> (data # ds, panic))
      | Skipped rest \<Rightarrow> read_all alloc rest
      | Ended \<Rightarrow> ([], False)
      | Panics \<Rightarrow> ([], True))"
  by pat_completeness auto
termination
  by (relation "measure (\<lambda>(alloc, pipe). length pipe)") (auto dest: read_frame_shorter)

declare read_all.simps [simp del]

lemma atoi_itoa:
  assumes "0 \<le> n" "n < 2 ^ 63"
  shows "atoi (itoa n) = Some n"
proof -
  have i: "itoa n = digits10 n" using assms(1) by (simp add: itoa_def)
  obtain c cs where c: "digits10 n = c # cs" by (cases "digits10 n") simp_all
  have d: "list_all is_digit (digits10 n)" by (rule digits10_digits [OF assms(1)])
  then have "is_digit c" by (simp add: c)
  then have "c \<noteq> CHR ''-''" "c \<noteq> CHR ''+''" by (auto simp: is_digit_def less_eq_char_def)
  then have p: "\<not> has_prefix ''-'' (digits10 n)" "\<not> has_prefix ''+'' (digits10 n)" by (simp_all add: c)
  show ?thesis using p d digits10_value [OF assms(1)] assms by (simp add: atoi_def i Let_def)
qed

lemma read_line: "nl \<notin> set line \<Longrightarrow> read_string (line @ nl # rest) = Some (line @ [nl], rest)"
  by (simp add: read_string_def index_of_single_append)

lemma read_frame_frame:
  assumes "int (length data) < 2 ^ 63" "alloc (int (length data))"
  shows "read_frame alloc (frame data @ rest) = Payload data rest"
proof -
  let ?n = "int (length data)"
  have ds: "list_all is_digit (itoa ?n)" "itoa ?n \<noteq> []" using digits10_digits [of ?n] by (simp_all add: itoa_def)
  have sp: "\<not> is_space c" if "is_digit c" for c using that by (auto simp: is_digit_def is_space_def less_eq_char_def)
  have l: "is_digit (last (itoa ?n))" "is_digit (hd (itoa ?n))" using ds by (auto simp: list_all_iff)
  define h where "h = ''Content-Length: '' @ itoa ?n"
  have n: "nl \<notin> set (h @ [cr])" using itoa_notin [of nl ?n] by (simp add: h_def is_digit_def less_eq_char_def)
  have a: "read_string (frame data @ rest) = Some ((h @ [cr]) @ [nl], [cr] @ nl # data @ rest)"
    using read_line [OF n, of "[cr] @ nl # data @ rest"] by (simp add: frame_def crlf_def h_def)
  have b: "read_string ([cr] @ nl # data @ rest) = Some ([cr] @ [nl], data @ rest)"
    by (rule read_line) simp
  have t: "trim_space ((h @ [cr]) @ [nl]) = h"
  proof -
    have "trim_space ((h @ [cr]) @ [nl]) = trim_right is_space h"
      by (simp add: trim_space_def h_def trim_right_def is_space_def)
    also have "\<dots> = h" using l(1) sp ds(2) by (intro trim_right_id) (simp add: h_def)
    finally show ?thesis .
  qed
  have u: "trim_space (drop 15 h) = itoa ?n"
  proof -
    have "trim_space (drop 15 h) = trim_space (itoa ?n)" by (simp add: h_def trim_space_def trim_right_def is_space_def)
    also have "\<dots> = itoa ?n" using l sp ds(2) by (intro trim_space_id) auto
    finally show ?thesis .
  qed
  have p: "has_prefix ''Content-Length:'' h" by (simp add: h_def)
  have at: "atoi (itoa ?n) = Some ?n" using atoi_itoa [of ?n] assms(1) by simp
  show ?thesis unfolding read_frame_def a by (simp only: option.case prod.case t u p b at Let_def not_True_eq_False if_False) (use assms(2) in simp)
qed

text \<open>(C40) Messages survive the pipe. The reader takes off a pipe exactly the messages that were written on it, in the framing
  of the requests, one after another, in order and whole.\<close>

theorem frames_read_back:
  assumes "list_all (\<lambda>d. int (length d) < 2 ^ 63 \<and> alloc (int (length d))) ds"
  shows "read_all alloc (concat (map frame ds)) = (ds, False)"
  using assms
proof (induction ds)
  case Nil
  have "read_frame alloc [] = Ended" by (simp add: read_frame_def read_string_def)
  then show ?case by (subst read_all.simps) simp
next
  case (Cons d ds)
  have "read_frame alloc (frame d @ concat (map frame ds)) = Payload d (concat (map frame ds))"
    using Cons.prems by (intro read_frame_frame) simp_all
  then show ?case using Cons by (subst read_all.simps) simp
qed

theorem frames_read_back_witness:
  "read_all (\<lambda>n. n < 1000) (frame ''{}'' @ frame (''a'' @ [nl] @ ''Content-Length: 9'') @ []) =
   ([''{}'', ''a'' @ [nl] @ ''Content-Length: 9''], False)"
  using frames_read_back [of "\<lambda>n. n < 1000" "[''{}'', ''a'' @ [nl] @ ''Content-Length: 9'']"] by simp

text \<open>A header that announces a negative length stops the program.\<close>

lemma negative_length_panics: "read_all alloc (''Content-Length: -1'' @ crlf @ crlf) = ([], True)"
proof -
  have a: "read_string (''Content-Length: -1'' @ crlf @ crlf) = Some (''Content-Length: -1'' @ crlf, crlf)" "read_string crlf = Some (crlf, [])"
    by code_simp+
  have b: "has_prefix ''Content-Length:'' (trim_space (''Content-Length: -1'' @ crlf))"
    "atoi (trim_space (drop 15 (trim_space (''Content-Length: -1'' @ crlf)))) = Some (- 1)" by code_simp+
  have "read_frame alloc (''Content-Length: -1'' @ crlf @ crlf) = Panics"
    unfolding read_frame_def a by (simp only: option.case prod.case Let_def a b not_True_eq_False if_False) simp
  then show ?thesis by (subst read_all.simps) simp
qed

subsection \<open>Calls\<close>

record response_chan =
  rch_buffer :: "string option"
  rch_closed :: bool

record CoreProxy =
  cx_running :: bool
  cx_nextID :: int
  cx_callbacks :: "(int \<times> response_chan) list"

record RPCResponse =
  rr_ID :: int
  rr_Result :: string
  rr_Error :: "(int \<times> string) option"

definition NewCoreProxy :: CoreProxy where
  "NewCoreProxy = \<lparr>cx_running = False, cx_nextID = 0, cx_callbacks = []\<rparr>"

text \<open>The arguments are the errors of the two pipes and of the start of the process.\<close>

definition core_start :: "GoError option \<Rightarrow> GoError option \<Rightarrow> GoError option \<Rightarrow> CoreProxy \<Rightarrow> CoreProxy \<times> GoError option" where
  "core_start stdin_pipe stdout_pipe spawn p =
     (if cx_running p then (p, Some (ErrNew ''core proxy already running''))
      else case stdin_pipe of Some err \<Rightarrow> (p, Some (ErrWrap ''failed to create stdin pipe: '' err))
      | None \<Rightarrow> (case stdout_pipe of Some err \<Rightarrow> (p, Some (ErrWrap ''failed to create stdout pipe: '' err))
      | None \<Rightarrow> (case spawn of Some err \<Rightarrow> (p, Some (ErrWrap ''failed to start core binary: '' err))
      | None \<Rightarrow> (p\<lparr>cx_running := True\<rparr>, None))))"

definition core_stop :: "GoError option \<Rightarrow> CoreProxy \<Rightarrow> CoreProxy \<times> GoError option" where
  "core_stop exit_status p = (if \<not> cx_running p then (p, None) else (p\<lparr>cx_running := False\<rparr>, exit_status))"

definition begin_call :: "CoreProxy \<Rightarrow> CoreProxy \<times> int" where
  "begin_call p =
     (let callID = (cx_nextID p + 1) mod 2 ^ 64
      in (p\<lparr>cx_nextID := callID, cx_callbacks := AList.update callID \<lparr>rch_buffer = None, rch_closed = False\<rparr> (cx_callbacks p)\<rparr>, callID))"

definition end_call :: "int \<Rightarrow> CoreProxy \<Rightarrow> CoreProxy" where
  "end_call callID p = p\<lparr>cx_callbacks := AList.delete callID (cx_callbacks p)\<rparr>"

text \<open>The reader with a response: a second error for a call closes a closed channel, a result for a closed channel is sent on it,
  both of which panic; a second result waits for room in the channel.\<close>

datatype delivery = Delivered CoreProxy | Blocked | Crash

definition dispatch :: "RPCResponse \<Rightarrow> CoreProxy \<Rightarrow> delivery" where
  "dispatch resp p =
     (case map_of (cx_callbacks p) (rr_ID resp) of
        None \<Rightarrow> Delivered p
      | Some ch \<Rightarrow>
          if rch_closed ch then Crash
          else if rr_Error resp \<noteq> None
            then Delivered (p\<lparr>cx_callbacks := AList.update (rr_ID resp) (ch\<lparr>rch_closed := True\<rparr>) (cx_callbacks p)\<rparr>)
          else if rch_buffer ch \<noteq> None then Blocked
          else Delivered (p\<lparr>cx_callbacks := AList.update (rr_ID resp) (ch\<lparr>rch_buffer := Some (rr_Result resp)\<rparr>) (cx_callbacks p)\<rparr>))"

text \<open>The payloads of a pipe in order; one that does not decode is skipped.\<close>

fun deliver_all :: "(string \<Rightarrow> RPCResponse option) \<Rightarrow> string list \<Rightarrow> CoreProxy \<Rightarrow> delivery" where
  "deliver_all decode [] p = Delivered p"
| "deliver_all decode (buf # bufs) p =
     (case decode buf of
        None \<Rightarrow> deliver_all decode bufs p
      | Some resp \<Rightarrow>
          (case dispatch resp p of
             Delivered p \<Rightarrow> deliver_all decode bufs p
           | Blocked \<Rightarrow> Blocked
           | Crash \<Rightarrow> Crash))"

text \<open>Receiving from a channel: the buffered result, the nil result of a closed channel, or nothing yet.\<close>

definition receive :: "response_chan \<Rightarrow> string option option" where
  "receive ch = (case rch_buffer ch of Some r \<Rightarrow> Some (Some r) | None \<Rightarrow> if rch_closed ch then Some None else None)"

record ProcessMessageParams =
  pp_Channel :: string
  pp_AccountID :: string
  pp_SenderID :: string
  pp_ChatID :: string
  pp_Content :: string
  pp_RequestID :: string
  pp_MaxIterations :: int

record ProcessMessageResult =
  pm_Content :: string
  pm_AgentID :: string
  pm_SessionKey :: string
  pm_AuditLog :: string

definition params_json :: "ProcessMessageParams \<Rightarrow> json_obj" where
  "params_json ps =
     [(''channel'', JStr (pp_Channel ps)), (''account_id'', JStr (pp_AccountID ps)), (''sender_id'', JStr (pp_SenderID ps)),
      (''chat_id'', JStr (pp_ChatID ps)), (''content'', JStr (pp_Content ps)), (''request_id'', JStr (pp_RequestID ps)),
      (''max_iterations'', JNum (itoa (pp_MaxIterations ps)))]"

definition core_request :: "int \<Rightarrow> string \<Rightarrow> json \<Rightarrow> json_obj" where
  "core_request callID method params =
     [(''jsonrpc'', JStr ''2.0''), (''id'', JNum (itoa callID)), (''method'', JStr method), (''params'', params)]"

text \<open>The header and the body are written one after the other.\<close>

definition sendRequest :: "json_codec \<Rightarrow> (string \<Rightarrow> 'w \<Rightarrow> 'w \<times> GoError option) \<Rightarrow> json_obj \<Rightarrow> 'w \<Rightarrow> 'w \<times> GoError option" where
  "sendRequest codec write req w =
     (case jc_marshal codec req of
        Inl err \<Rightarrow> (w, Some (ErrWrap ''failed to marshal request: '' err))
      | Inr data \<Rightarrow>
          (case write (''Content-Length: '' @ itoa (int (length data)) @ crlf @ crlf) w of
             (w, Some err) \<Rightarrow> (w, Some (ErrWrap ''failed to write header: '' err))
           | (w, None) \<Rightarrow>
               (case write data w of
                  (w, Some err) \<Rightarrow> (w, Some (ErrWrap ''failed to write request: '' err))
                | (w, None) \<Rightarrow> (w, None))))"

text \<open>While a call waits the reader and other calls run: \<open>wait\<close> gives the proxy afterwards and what the call sees first,
  a value of its channel or the end of its context. \<open>decode\<close> decodes the result; a nil result is the empty text.\<close>

definition core_call :: "json_codec \<Rightarrow> (string \<Rightarrow> 'w \<Rightarrow> 'w \<times> GoError option) \<Rightarrow>
    (int \<Rightarrow> CoreProxy \<times> 'w \<Rightarrow> (CoreProxy \<times> 'w) \<times> (GoError + string option)) \<Rightarrow> string \<Rightarrow> json \<Rightarrow> CoreProxy \<times> 'w \<Rightarrow>
    (CoreProxy \<times> 'w) \<times> (GoError + string option)" where
  "core_call codec write wait method params pw =
     (let (p, w) = pw; (p, callID) = begin_call p in
      case sendRequest codec write (core_request callID method params) w of
        (w, Some err) \<Rightarrow> ((end_call callID p, w), Inl err)
      | (w, None) \<Rightarrow> (case wait callID (p, w) of ((p, w), r) \<Rightarrow> ((end_call callID p, w), r)))"

definition ProcessMessage :: "json_codec \<Rightarrow> (string \<Rightarrow> GoError + ProcessMessageResult) \<Rightarrow> (string \<Rightarrow> 'w \<Rightarrow> 'w \<times> GoError option) \<Rightarrow>
    (int \<Rightarrow> CoreProxy \<times> 'w \<Rightarrow> (CoreProxy \<times> 'w) \<times> (GoError + string option)) \<Rightarrow> ProcessMessageParams \<Rightarrow> CoreProxy \<times> 'w \<Rightarrow>
    (CoreProxy \<times> 'w) \<times> (GoError + ProcessMessageResult)" where
  "ProcessMessage codec decode write wait params pw =
     (case jc_marshal codec (params_json params) of
        Inl err \<Rightarrow> (pw, Inl (ErrWrap ''failed to marshal params: '' err))
      | Inr _ \<Rightarrow>
          (case core_call codec write wait ''process_message'' (JObj (params_json params)) pw of
             (pw, Inl err) \<Rightarrow> (pw, Inl err)
           | (pw, Inr resultJSON) \<Rightarrow>
               (pw, case decode (case resultJSON of Some s \<Rightarrow> s | None \<Rightarrow> []) of
                      Inl err \<Rightarrow> Inl (ErrWrap ''failed to unmarshal result: '' err)
                    | Inr result \<Rightarrow> Inr result)))"

subsection \<open>Every interleaving\<close>

text \<open>The proxy with what happened so far: the responses that arrived and the results that calls returned.\<close>

record core_state =
  cs_proxy :: CoreProxy
  cs_received :: "RPCResponse list"
  cs_returned :: "(int \<times> string option) list"

definition core_init :: core_state where
  "core_init = \<lparr>cs_proxy = NewCoreProxy, cs_received = [], cs_returned = []\<rparr>"

text \<open>A call begins (fewer than \<^verbatim>\<open>2^64\<close> of them), a response is dispatched, a call takes the value of its channel, a call ends
  without one (its request was not written, or its context ended).\<close>

inductive core_step :: "core_state \<Rightarrow> core_state \<Rightarrow> bool" where
  begin_step: "cx_nextID (cs_proxy s) + 1 < 2 ^ 64 \<Longrightarrow> begin_call (cs_proxy s) = (p, callID) \<Longrightarrow> core_step s (s\<lparr>cs_proxy := p\<rparr>)"
| deliver_step: "dispatch resp (cs_proxy s) = Delivered p \<Longrightarrow>
     core_step s (s\<lparr>cs_proxy := p, cs_received := cs_received s @ [resp]\<rparr>)"
| return_step: "map_of (cx_callbacks (cs_proxy s)) callID = Some ch \<Longrightarrow> receive ch = Some r \<Longrightarrow>
     core_step s (s\<lparr>cs_proxy := end_call callID (cs_proxy s), cs_returned := (callID, r) # cs_returned s\<rparr>)"
| give_up_step: "core_step s (s\<lparr>cs_proxy := end_call callID (cs_proxy s)\<rparr>)"

inductive core_reach :: "core_state \<Rightarrow> bool" where
  core_reach_init: "core_reach core_init"
| core_reach_step: "core_reach s \<Longrightarrow> core_step s s' \<Longrightarrow> core_reach s'"

text \<open>\<open>came rs callID r\<close>: a response with this identifier arrived, with the result \<open>r\<close> or, when that is nil, with an error.\<close>

definition came :: "RPCResponse list \<Rightarrow> int \<Rightarrow> string option \<Rightarrow> bool" where
  "came rs callID r =
     list_ex (\<lambda>resp. rr_ID resp = callID \<and> (case r of Some s \<Rightarrow> rr_Error resp = None \<and> rr_Result resp = s | None \<Rightarrow> rr_Error resp \<noteq> None)) rs"

definition core_inv :: "core_state \<Rightarrow> bool" where
  "core_inv s \<longleftrightarrow>
     0 \<le> cx_nextID (cs_proxy s) \<and>
     (\<forall>i ch. map_of (cx_callbacks (cs_proxy s)) i = Some ch \<longrightarrow>
        1 \<le> i \<and> i \<le> cx_nextID (cs_proxy s) \<and> i \<notin> fst ` set (cs_returned s) \<and>
        (\<forall>r. rch_buffer ch = Some r \<longrightarrow> came (cs_received s) i (Some r)) \<and> (rch_closed ch \<longrightarrow> came (cs_received s) i None)) \<and>
     (\<forall>(i, r) \<in> set (cs_returned s). 1 \<le> i \<and> i \<le> cx_nextID (cs_proxy s) \<and> came (cs_received s) i r) \<and>
     distinct (map fst (cs_returned s))"

lemma came_more: "came rs i r \<Longrightarrow> came (rs @ [resp]) i r"
  by (simp add: came_def)

lemma core_inv_begin:
  assumes "core_inv s" "cx_nextID (cs_proxy s) + 1 < 2 ^ 64" "begin_call (cs_proxy s) = (p, callID)"
  shows "core_inv (s\<lparr>cs_proxy := p\<rparr>)"
proof -
  have i: "callID = cx_nextID (cs_proxy s) + 1"
    and p: "p = (cs_proxy s)\<lparr>cx_nextID := callID, cx_callbacks := AList.update callID \<lparr>rch_buffer = None, rch_closed = False\<rparr> (cx_callbacks (cs_proxy s))\<rparr>"
    using assms by (auto simp: begin_call_def Let_def core_inv_def)
  have "callID \<notin> fst ` set (cs_returned s)" using assms(1) i by (force simp: core_inv_def)
  then show ?thesis using assms(1) i unfolding p core_inv_def by (auto simp: update_conv') (metis add_increasing2 zero_le_one)
qed

lemma core_inv_deliver:
  assumes "core_inv s" "dispatch resp (cs_proxy s) = Delivered p"
  shows "core_inv (s\<lparr>cs_proxy := p, cs_received := cs_received s @ [resp]\<rparr>)"
proof (cases "map_of (cx_callbacks (cs_proxy s)) (rr_ID resp)")
  case None
  then show ?thesis using assms by (auto simp: dispatch_def core_inv_def intro: came_more)
next
  case (Some ch)
  have new: "came (cs_received s @ [resp]) (rr_ID resp) (if rr_Error resp = None then Some (rr_Result resp) else None)"
    by (simp add: came_def)
  obtain ch' where p: "p = (cs_proxy s)\<lparr>cx_callbacks := AList.update (rr_ID resp) ch' (cx_callbacks (cs_proxy s))\<rparr>"
    and ch': "ch' = (if rr_Error resp \<noteq> None then ch\<lparr>rch_closed := True\<rparr> else ch\<lparr>rch_buffer := Some (rr_Result resp)\<rparr>)"
    using assms(2) Some by (auto simp: dispatch_def split: if_splits)
  show ?thesis using assms(1) Some new unfolding p core_inv_def by (auto simp: update_conv' ch' intro: came_more split: if_splits)
qed

lemma delete_conv_map: "map_of (AList.delete k m) i = (if i = k then None else map_of m i)"
  by (simp add: delete_conv')

lemma core_step_inv: "core_step s s' \<Longrightarrow> core_inv s \<Longrightarrow> core_inv s'"
proof (induction rule: core_step.induct)
  case (return_step s callID ch r)
  have c: "0 \<le> cx_nextID (cs_proxy s)" "1 \<le> callID" "callID \<le> cx_nextID (cs_proxy s)" "callID \<notin> fst ` set (cs_returned s)"
    using return_step by (auto simp: core_inv_def)
  have "came (cs_received s) callID r"
    using return_step by (cases "rch_buffer ch") (auto simp: core_inv_def receive_def split: if_splits)
  then show ?case using return_step.prems c unfolding core_inv_def end_call_def by (simp add: delete_conv_map)
next
  case (give_up_step s callID)
  then show ?case unfolding core_inv_def end_call_def by (simp add: delete_conv_map)
qed (simp_all only: core_inv_begin core_inv_deliver)

lemma core_reach_inv: "core_reach s \<Longrightarrow> core_inv s"
proof (induction rule: core_reach.induct)
  case core_reach_init
  show ?case by (simp add: core_inv_def core_init_def NewCoreProxy_def)
qed (rule core_step_inv)

lemma deliver_all_reach:
  assumes "core_reach s" "deliver_all decode bufs (cs_proxy s) = Delivered p"
  shows "core_reach (s\<lparr>cs_proxy := p, cs_received := cs_received s @ List.map_filter decode bufs\<rparr>)"
  using assms
proof (induction bufs arbitrary: s)
  case (Cons buf bufs)
  show ?case
  proof (cases "decode buf")
    case None
    then show ?thesis using Cons by (simp add: map_filter_simps)
  next
    case (Some resp)
    then obtain p1 where p1: "dispatch resp (cs_proxy s) = Delivered p1" and d: "deliver_all decode bufs p1 = Delivered p"
      using Cons.prems(2) by (auto split: delivery.splits)
    have "core_reach (s\<lparr>cs_proxy := p1, cs_received := cs_received s @ [resp]\<rparr>)"
      by (rule core_reach_step [OF Cons.prems(1) deliver_step [OF p1]])
    from Cons.IH [OF this] d Some show ?thesis by (simp add: map_filter_simps)
  qed
next
  case Nil
  then have "p = cs_proxy s" by simp
  then show ?case using Nil by (simp add: map_filter_simps)
qed


definition sample_core :: core_state where
  "sample_core =
     (let (p1, a) = begin_call NewCoreProxy; (p2, b) = begin_call p1
      in case dispatch \<lparr>rr_ID = b, rr_Result = ''two'', rr_Error = None\<rparr> p2 of
           Delivered p3 \<Rightarrow> \<lparr>cs_proxy = end_call b p3, cs_received = [\<lparr>rr_ID = b, rr_Result = ''two'', rr_Error = None\<rparr>],
                             cs_returned = [(b, Some ''two'')]\<rparr>
         | _ \<Rightarrow> core_init)"

lemma sample_core_reach: "core_reach sample_core"
proof -
  define p1 where "p1 = fst (begin_call NewCoreProxy)"
  define p2 where "p2 = fst (begin_call p1)"
  define resp :: RPCResponse where "resp = \<lparr>rr_ID = 2, rr_Result = ''two'', rr_Error = None\<rparr>"
  define p3 where "p3 = p2\<lparr>cx_callbacks := AList.update 2 \<lparr>rch_buffer = Some ''two'', rch_closed = False\<rparr> (cx_callbacks p2)\<rparr>"
  have b: "begin_call NewCoreProxy = (p1, 1)" "begin_call p1 = (p2, 2)" by (simp_all add: p1_def p2_def begin_call_def NewCoreProxy_def Let_def)
  have n: "cx_nextID p1 = 1" by (simp add: p1_def begin_call_def NewCoreProxy_def Let_def)
  have d: "dispatch resp p2 = Delivered p3" by (simp add: dispatch_def resp_def p3_def p2_def p1_def begin_call_def NewCoreProxy_def Let_def)
  have "core_reach (core_init\<lparr>cs_proxy := p1\<rparr>)"
    using core_reach_step [OF core_reach_init begin_step [of core_init p1 1]] b(1) by (simp add: core_init_def NewCoreProxy_def)
  then have "core_reach (core_init\<lparr>cs_proxy := p2\<rparr>)"
    using core_reach_step [OF _ begin_step [of "core_init\<lparr>cs_proxy := p1\<rparr>" p2 2]] b(2) n by simp
  then have "core_reach (core_init\<lparr>cs_proxy := p3, cs_received := [resp]\<rparr>)"
    using core_reach_step [OF _ deliver_step [of resp "core_init\<lparr>cs_proxy := p2\<rparr>" p3]] d by (simp add: core_init_def)
  moreover have "map_of (cx_callbacks p3) 2 = Some \<lparr>rch_buffer = Some ''two'', rch_closed = False\<rparr>"
    by (simp add: p3_def update_conv')
  ultimately have "core_reach (core_init\<lparr>cs_proxy := end_call 2 p3, cs_received := [resp], cs_returned := [(2, Some ''two'')]\<rparr>)"
    using core_reach_step [OF _ return_step [of "core_init\<lparr>cs_proxy := p3, cs_received := [resp]\<rparr>" 2 "\<lparr>rch_buffer = Some ''two'', rch_closed = False\<rparr>" "Some ''two''"]]
    by (simp add: receive_def core_init_def)
  also have "core_init\<lparr>cs_proxy := end_call 2 p3, cs_received := [resp], cs_returned := [(2, Some ''two'')]\<rparr> = sample_core"
    using b d [unfolded resp_def] by (simp add: sample_core_def core_init_def resp_def)
  finally show ?thesis .
qed


text \<open>An error of the core is not told to the caller: whatever it says, the caller sees the failure to decode an empty text.\<close>

lemma core_error_hidden:
  assumes "jc_marshal codec (params_json params) = Inr s"
    and "core_call codec write wait ''process_message'' (JObj (params_json params)) pw = (pw', Inr None)" "decode [] = Inl err"
  shows "ProcessMessage codec decode write wait params pw = (pw', Inl (ErrWrap ''failed to unmarshal result: '' err))"
  using assms by (simp add: ProcessMessage_def)

text \<open>A second error for a call that has not yet left the table stops the program.\<close>

lemma second_error_crashes:
  assumes "map_of (cx_callbacks p) callID = Some \<lparr>rch_buffer = None, rch_closed = False\<rparr>"
  shows "\<exists>p'. dispatch \<lparr>rr_ID = callID, rr_Result = [], rr_Error = Some e\<rparr> p = Delivered p' \<and>
    dispatch \<lparr>rr_ID = callID, rr_Result = [], rr_Error = Some e\<rparr> p' = Crash"
  using assms by (simp add: dispatch_def update_conv')

text \<open>A call leaves nothing behind: its entry is gone however it ends.\<close>

lemma call_cleans_up:
  assumes "core_call codec write wait method params (p, w) = ((p', w'), r)"
  shows "map_of (cx_callbacks p') (snd (begin_call p)) = None"
  using assms by (auto simp: core_call_def Let_def end_call_def delete_conv_map split: prod.splits option.splits)

end
