(* ===== verification/Copilot.thy ===== *)
theory Copilot
  imports Codex_API Models Filepath
begin

text \<open>
  The remaining providers: GitHub Copilot, \<^verbatim>\<open>pkg/providers/github_copilot_provider.go\<close> (its construction is in \<open>Models\<close>), the wrapper
  \<^verbatim>\<open>pkg/providers/http_provider.go\<close> and the credentials of the Codex program, \<^verbatim>\<open>pkg/providers/codex_cli_credentials.go\<close>.
  The vendor's session is the argument \<open>send\<close>; the encoding of the conversation is the argument \<open>encode\<close>.
\<close>

subsection \<open>Copilot\<close>

record GitHubCopilotProvider =
  gc_uri :: string
  gc_connectMode :: string
  gc_session :: bool

text \<open>Closing: the client is stopped once.\<close>

definition copilot_close :: "('w \<Rightarrow> 'w) \<Rightarrow> GitHubCopilotProvider \<Rightarrow> 'w \<Rightarrow> GitHubCopilotProvider \<times> 'w" where
  "copilot_close stop p w = (if gc_session p then (p\<lparr>gc_session := False\<rparr>, stop w) else (p, w))"

definition temp_messages :: "Message list \<Rightarrow> json list" where
  "temp_messages messages = map (\<lambda>msg. JObj [(''role'', JStr (msg_Role msg)), (''content'', JStr (msg_Content msg))]) messages"

text \<open>The reply: nothing, a reply without content, or its content; the error that comes with it is not looked at.\<close>

definition Copilot_Chat :: "(json list \<Rightarrow> GoError + string) \<Rightarrow> (string \<Rightarrow> 'w \<Rightarrow> 'w \<times> string option option \<times> GoError option) \<Rightarrow>
    GitHubCopilotProvider \<Rightarrow> 'w chat" where
  "Copilot_Chat encode send p messages tools model options w =
     (case encode (temp_messages messages) of
        Inl err \<Rightarrow> (w, Inl (ErrWrap ''marshal messages: '' err))
      | Inr fullcontent \<Rightarrow>
          if \<not> gc_session p then (w, Inl (ErrNew ''provider closed''))
          else (case send fullcontent w of
                  (w, None, _) \<Rightarrow> (w, Inl (ErrNew ''empty response from copilot''))
                | (w, Some None, _) \<Rightarrow> (w, Inl (ErrNew ''no content in copilot response''))
                | (w, Some (Some content), _) \<Rightarrow>
                    (w, Inr \<lparr>lr_Content = content, lr_ReasoningContent = [], lr_ToolCalls = [], lr_FinishReason = ''stop''\<rparr>)))"

text \<open>The model never sees the tools, nor the calls of the conversation.\<close>

lemma copilot_without_tools:
  "Copilot_Chat encode send p messages tools model options w =
   Copilot_Chat encode send p (map (\<lambda>m. text_message (msg_Role m) (msg_Content m)) messages) [] model' options' w"
  by (simp add: Copilot_Chat_def temp_messages_def text_message_def comp_def)

text \<open>The error of the session is lost: whatever failed, the caller sees the same text, which no rule of the classifier knows.\<close>

lemma copilot_error_lost:
  assumes "encode (temp_messages messages) = Inr s" "gc_session p" "send s w = (w', None, Some err)"
  shows "Copilot_Chat encode send p messages tools model options w = (w', Inl (ErrNew ''empty response from copilot''))"
  using assms by (simp add: Copilot_Chat_def)

lemma copilot_error_unclassified: "ClassifyError (Some (ErrNew ''empty response from copilot'')) ''github-copilot'' ''gpt-4.1'' = None"
  by code_simp

subsection \<open>The wrapper for servers with an OpenAI-compatible interface\<close>

definition NewHTTPProviderWithMaxTokensField :: "(string \<Rightarrow> bool) \<Rightarrow> string \<Rightarrow> string \<Rightarrow> string \<Rightarrow> string \<Rightarrow> Provider" where
  "NewHTTPProviderWithMaxTokensField parses apiKey apiBase proxy maxTokensField = NewProviderWithMaxTokensField parses apiKey apiBase proxy maxTokensField"

definition NewHTTPProvider :: "(string \<Rightarrow> bool) \<Rightarrow> string \<Rightarrow> string \<Rightarrow> string \<Rightarrow> Provider" where
  "NewHTTPProvider parses apiKey apiBase proxy = NewProvider parses apiKey apiBase proxy"

subsection \<open>The credentials of the Codex program\<close>

record CodexCliAuth =
  cx_AccessToken :: string
  cx_RefreshToken :: string
  cx_AccountID :: string

text \<open>The environment: the variable \<^verbatim>\<open>CODEX_HOME\<close>, the home directory, the file and its modification time, the decoder and the clock.\<close>

record codex_home_env =
  ce_CODEX_HOME :: string
  ce_home :: "GoError + string"
  ce_read :: "string \<Rightarrow> GoError + string"
  ce_decode :: "string \<Rightarrow> GoError + CodexCliAuth"
  ce_mod_time :: "string \<Rightarrow> time option"
  ce_now :: time

definition resolveCodexAuthPath :: "codex_home_env \<Rightarrow> GoError + string" where
  "resolveCodexAuthPath env =
     (if ce_CODEX_HOME env = []
      then (case ce_home env of
              Inl err \<Rightarrow> Inl (ErrWrap ''getting home dir: '' err)
            | Inr home \<Rightarrow> Inr (Join [Join [home, ''.codex''], ''auth.json'']))
      else Inr (Join [ce_CODEX_HOME env, ''auth.json'']))"

definition ReadCodexCliCredentials :: "codex_home_env \<Rightarrow> GoError + (string \<times> string \<times> time)" where
  "ReadCodexCliCredentials env =
     (case resolveCodexAuthPath env of
        Inl err \<Rightarrow> Inl err
      | Inr authPath \<Rightarrow>
          (case ce_read env authPath of
             Inl err \<Rightarrow> Inl (ErrWrap (''reading '' @ authPath @ '': '') err)
           | Inr data \<Rightarrow>
               (case ce_decode env data of
                  Inl err \<Rightarrow> Inl (ErrWrap (''parsing '' @ authPath @ '': '') err)
                | Inr auth \<Rightarrow>
                    if cx_AccessToken auth = [] then Inl (ErrNew (''no access_token in '' @ authPath))
                    else Inr (cx_AccessToken auth, cx_AccountID auth,
                              (case ce_mod_time env authPath of Some t \<Rightarrow> t | None \<Rightarrow> ce_now env) + hour))))"

definition CreateCodexCliTokenSource :: "codex_home_env \<Rightarrow> GoError + (string \<times> string)" where
  "CreateCodexCliTokenSource env =
     (case ReadCodexCliCredentials env of
        Inl err \<Rightarrow> Inl (ErrWrap ''reading codex cli credentials: '' err)
      | Inr (token, accountID, expiresAt) \<Rightarrow>
          if ce_now env > expiresAt
          then Inl (ErrNew ''codex cli credentials expired (auth.json last modified > 1h ago). Run: codex login'')
          else Inr (token, accountID))"

text \<open>A token is given out only while the file is at most an hour old.\<close>

lemma codex_cli_token_fresh:
  assumes "CreateCodexCliTokenSource env = Inr (token, accountID)" "resolveCodexAuthPath env = Inr path" "ce_mod_time env path = Some t"
  shows "token \<noteq> [] \<and> ce_now env \<le> t + hour"
  using assms by (auto simp: CreateCodexCliTokenSource_def ReadCodexCliCredentials_def split: sum.splits if_splits)

end
