(* ===== verification/Edge.thy ===== *)
theory Edge
  imports Agent_Loop
begin

text \<open>
  The services at the edge of the gateway: tool authorisation (\<^verbatim>\<open>pkg/aperture/cerbos.go\<close>), the Aperture client with its metering
  (\<^verbatim>\<open>pkg/aperture/client.go\<close>), the HTTP endpoints (\<^verbatim>\<open>pkg/api/handlers.go\<close>) and the health server (\<^verbatim>\<open>pkg/health/server.go\<close>). A request is the part of it that the handler reads; the
  decoding of bodies, the clock and the inner transport are arguments. A duration in milliseconds is a floating-point number, of which only
  the addition \<open>fadd\<close> and the zero \<open>fzero\<close> are used. The logging is not kept; a mutex makes every operation one step.
\<close>

subsection \<open>Authorisation of tool calls\<close>

record CerbosConfig =
  cc_Enabled :: bool
  cc_PDPURL :: string

record CerbosDecision =
  cd_Allowed :: bool
  cd_Reason :: string
  cd_PolicyID :: string
  cd_Timestamp :: time

record ToolAccessRequest =
  ta_AgentID :: string
  ta_SessionKey :: string
  ta_Channel :: string
  ta_ToolName :: string
  ta_Action :: string

record CerbosClient =
  cb_config :: CerbosConfig
  cb_cache :: "(string \<times> CerbosDecision) list"

definition NewCerbosClient :: "CerbosConfig \<Rightarrow> CerbosClient" where
  "NewCerbosClient cfg = \<lparr>cb_config = cfg, cb_cache = []\<rparr>"

definition access_key :: "ToolAccessRequest \<Rightarrow> string" where
  "access_key req = ta_AgentID req @ '':'' @ ta_ToolName req @ '':'' @ ta_Action req"

definition CheckToolAccess :: "time \<Rightarrow> ToolAccessRequest \<Rightarrow> CerbosClient \<Rightarrow> CerbosClient \<times> CerbosDecision" where
  "CheckToolAccess now req c =
     (if \<not> cc_Enabled (cb_config c)
      then (c, \<lparr>cd_Allowed = True, cd_Reason = ''cerbos_disabled'', cd_PolicyID = [], cd_Timestamp = now\<rparr>)
      else case map_of (cb_cache c) (access_key req) of
          Some cached \<Rightarrow> (c, cached)
        | None \<Rightarrow>
            let decision = \<lparr>cd_Allowed = True, cd_Reason = ''cerbos_stub_allow'', cd_PolicyID = ''default'', cd_Timestamp = now\<rparr>
            in (c\<lparr>cb_cache := AList.update (access_key req) decision (cb_cache c)\<rparr>, decision))"

definition InvalidateCache :: "string \<Rightarrow> CerbosClient \<Rightarrow> CerbosClient" where
  "InvalidateCache agentID c =
     c\<lparr>cb_cache := filter (\<lambda>(key, _). \<not> (length agentID < length key \<and> take (length agentID + 1) key = agentID @ '':'')) (cb_cache c)\<rparr>"

datatype cerbos_op = Check time ToolAccessRequest | Invalidate string

definition cerbos_apply :: "cerbos_op \<Rightarrow> CerbosClient \<Rightarrow> CerbosClient" where
  "cerbos_apply op c = (case op of Check now req \<Rightarrow> fst (CheckToolAccess now req c) | Invalidate agentID \<Rightarrow> InvalidateCache agentID c)"

lemma update_values: "set (map snd (AList.update k v m)) \<subseteq> insert v (set (map snd m))"
  by (induction m) auto

lemma cerbos_cache_allows:
  "list_all (\<lambda>(k, d). cd_Allowed d) (cb_cache c) \<Longrightarrow> list_all (\<lambda>(k, d). cd_Allowed d) (cb_cache (cerbos_apply op c))"
proof -
  assume c: "list_all (\<lambda>(k, d). cd_Allowed d) (cb_cache c)"
  have u: "cd_Allowed v \<Longrightarrow> list_all (\<lambda>(k, d). cd_Allowed d) m \<Longrightarrow> list_all (\<lambda>(k, d). cd_Allowed d) (AList.update k v m)" for k v m
    by (induction m) auto
  show ?thesis
  proof (cases op)
    case (Check now req)
    then show ?thesis using c u [OF _ c]
      by (simp add: cerbos_apply_def CheckToolAccess_def Let_def split: option.split)
  next
    case (Invalidate agentID)
    then show ?thesis using c by (simp add: cerbos_apply_def InvalidateCache_def list_all_iff)
  qed
qed

text \<open>Nothing is ever denied. Whatever was asked and invalidated before, also when the authorisation is enabled, every tool call
  of every agent is allowed.\<close>

theorem cerbos_never_denies:
  "cd_Allowed (snd (CheckToolAccess now req (fold cerbos_apply ops (NewCerbosClient cfg))))"
proof -
  have "list_all (\<lambda>(k, d). cd_Allowed d) (cb_cache c) \<Longrightarrow> list_all (\<lambda>(k, d). cd_Allowed d) (cb_cache (fold cerbos_apply ops c))" for c
    by (induction ops arbitrary: c) (simp_all add: cerbos_cache_allows)
  then have "list_all (\<lambda>(k, d). cd_Allowed d) (cb_cache (fold cerbos_apply ops (NewCerbosClient cfg)))"
    by (simp add: NewCerbosClient_def)
  then show ?thesis by (auto simp: CheckToolAccess_def Let_def list_all_iff split: option.splits dest!: map_of_SomeD)
qed

lemma invalidated_gone:
  assumes "ta_AgentID req = agentID"
  shows "map_of (cb_cache (InvalidateCache agentID c)) (access_key req) = None"
  using assms by (auto simp: InvalidateCache_def access_key_def map_of_eq_None_iff)

text \<open>The parts of a key are not kept apart: two different requests can share a decision.\<close>

lemma access_keys_collide:
  "access_key \<lparr>ta_AgentID = ''a:b'', ta_SessionKey = [], ta_Channel = [], ta_ToolName = ''c'', ta_Action = ''d''\<rparr> =
   access_key \<lparr>ta_AgentID = ''a'', ta_SessionKey = [], ta_Channel = [], ta_ToolName = ''b:c'', ta_Action = ''d''\<rparr>"
  by (simp add: access_key_def)

subsection \<open>Metering\<close>

record 'f UsageEvent =
  ue_RequestID :: string
  ue_Model :: string
  ue_InputTokens :: int
  ue_OutputTokens :: int
  ue_TotalTokens :: int
  ue_Duration :: 'f
  ue_Timestamp :: time
  ue_Status :: int

record 'f SessionMeter =
  sm_SessionKey :: string
  sm_Calls :: int
  sm_InputTokens :: int
  sm_OutputTokens :: int
  sm_ToolCalls :: int
  sm_Duration :: 'f
  sm_LastActivity :: time

record 'f AgentMeter =
  am_AgentID :: string
  am_TotalCalls :: int
  am_TotalTokens :: int
  am_TotalLatency :: 'f
  am_Errors :: int
  am_Sessions :: "(string \<times> 'f SessionMeter) list"

type_synonym 'f MeterStore = "(string \<times> 'f AgentMeter) list"

definition NewMeterStore :: "'f MeterStore" where "NewMeterStore = []"

definition new_meter :: "'f \<Rightarrow> string \<Rightarrow> 'f AgentMeter" where
  "new_meter fzero agentID =
     \<lparr>am_AgentID = agentID, am_TotalCalls = 0, am_TotalTokens = 0, am_TotalLatency = fzero, am_Errors = 0, am_Sessions = []\<rparr>"

definition new_session_meter :: "'f \<Rightarrow> string \<Rightarrow> 'f SessionMeter" where
  "new_session_meter fzero sessionKey =
     \<lparr>sm_SessionKey = sessionKey, sm_Calls = 0, sm_InputTokens = 0, sm_OutputTokens = 0, sm_ToolCalls = 0, sm_Duration = fzero,
      sm_LastActivity = 0\<rparr>"

definition session_record :: "('f \<Rightarrow> 'f \<Rightarrow> 'f) \<Rightarrow> 'f UsageEvent \<Rightarrow> 'f SessionMeter \<Rightarrow> 'f SessionMeter" where
  "session_record fadd event sess =
     sess\<lparr>sm_Calls := wrap64 (sm_Calls sess + 1), sm_InputTokens := wrap64 (sm_InputTokens sess + ue_InputTokens event),
          sm_OutputTokens := wrap64 (sm_OutputTokens sess + ue_OutputTokens event), sm_Duration := fadd (sm_Duration sess) (ue_Duration event),
          sm_LastActivity := ue_Timestamp event\<rparr>"

definition agent_record :: "('f \<Rightarrow> 'f \<Rightarrow> 'f) \<Rightarrow> 'f \<Rightarrow> string \<Rightarrow> 'f UsageEvent \<Rightarrow> 'f AgentMeter \<Rightarrow> 'f AgentMeter" where
  "agent_record fadd fzero sessionKey event meter =
     (let sess = (case map_of (am_Sessions meter) sessionKey of Some s \<Rightarrow> s | None \<Rightarrow> new_session_meter fzero sessionKey)
      in meter\<lparr>am_TotalCalls := wrap64 (am_TotalCalls meter + 1), am_TotalTokens := wrap64 (am_TotalTokens meter + ue_TotalTokens event),
               am_TotalLatency := fadd (am_TotalLatency meter) (ue_Duration event),
               am_Errors := (if ue_Status event \<ge> 400 then wrap64 (am_Errors meter + 1) else am_Errors meter),
               am_Sessions := AList.update sessionKey (session_record fadd event sess) (am_Sessions meter)\<rparr>)"

definition Record :: "('f \<Rightarrow> 'f \<Rightarrow> 'f) \<Rightarrow> 'f \<Rightarrow> string \<Rightarrow> string \<Rightarrow> 'f UsageEvent \<Rightarrow> 'f MeterStore \<Rightarrow> 'f MeterStore" where
  "Record fadd fzero agentID sessionKey event s =
     AList.update agentID (agent_record fadd fzero sessionKey event (case map_of s agentID of Some m \<Rightarrow> m | None \<Rightarrow> new_meter fzero agentID)) s"

definition GetAgentMeter :: "'f MeterStore \<Rightarrow> string \<Rightarrow> 'f AgentMeter option" where
  "GetAgentMeter s agentID = map_of s agentID"

definition GetAllMeters :: "'f MeterStore \<Rightarrow> 'f MeterStore" where
  "GetAllMeters s = s"

definition HandleEvent :: "('f \<Rightarrow> 'f \<Rightarrow> 'f) \<Rightarrow> 'f \<Rightarrow> string \<Rightarrow> string \<Rightarrow> 'f UsageEvent \<Rightarrow> 'f MeterStore \<Rightarrow> 'f MeterStore" where
  "HandleEvent fadd fzero agentID sessionKey event s = Record fadd fzero agentID sessionKey event s"

text \<open>What the meters should say after a history of events, each with its agent and session.\<close>

definition record_all :: "('f \<Rightarrow> 'f \<Rightarrow> 'f) \<Rightarrow> 'f \<Rightarrow> (string \<times> string \<times> 'f UsageEvent) list \<Rightarrow> 'f MeterStore" where
  "record_all fadd fzero history = foldl (\<lambda>s (a, k, e). Record fadd fzero a k e s) NewMeterStore history"

definition events_of :: "(string \<times> string \<times> 'f UsageEvent) list \<Rightarrow> string \<Rightarrow> 'f UsageEvent list" where
  "events_of history agentID = map (snd \<circ> snd) (filter (\<lambda>(a, _, _). a = agentID) history)"

definition session_events :: "(string \<times> string \<times> 'f UsageEvent) list \<Rightarrow> string \<Rightarrow> string \<Rightarrow> 'f UsageEvent list" where
  "session_events history agentID sessionKey = map (snd \<circ> snd) (filter (\<lambda>(a, k, _). a = agentID \<and> k = sessionKey) history)"

definition session_of :: "('f \<Rightarrow> 'f \<Rightarrow> 'f) \<Rightarrow> 'f \<Rightarrow> string \<Rightarrow> 'f UsageEvent list \<Rightarrow> 'f SessionMeter option" where
  "session_of fadd fzero sessionKey es =
     (if es = [] then None
      else Some \<lparr>sm_SessionKey = sessionKey, sm_Calls = wrap64 (int (length es)), sm_InputTokens = wrap64 (sum_list (map ue_InputTokens es)),
        sm_OutputTokens = wrap64 (sum_list (map ue_OutputTokens es)), sm_ToolCalls = 0, sm_Duration = foldl fadd fzero (map ue_Duration es),
        sm_LastActivity = ue_Timestamp (last es)\<rparr>)"

lemma wrap64_add: "wrap64 (wrap64 a + b) = wrap64 (a + b)"
proof -
  have e: "wrap64 a + b + 2 ^ 63 = (a + 2 ^ 63) mod 2 ^ 64 + b" by (simp add: wrap64_def)
  have "(wrap64 a + b + 2 ^ 63) mod 2 ^ 64 = ((a + 2 ^ 63) + b) mod 2 ^ 64" unfolding e by (rule mod_add_left_eq)
  also have "(a + 2 ^ 63) + b = a + b + 2 ^ 63" by simp
  finally show ?thesis by (simp only: wrap64_def)
qed

lemma wrap64_add': "wrap64 (b + wrap64 a) = wrap64 (b + a)"
  using wrap64_add [of a b] by (simp add: add.commute)

lemma wrap64_0 [simp]: "wrap64 0 = 0"
  by (simp add: wrap64_def)

definition meter_of :: "('f \<Rightarrow> 'f \<Rightarrow> 'f) \<Rightarrow> 'f \<Rightarrow> (string \<times> string \<times> 'f UsageEvent) list \<Rightarrow> string \<Rightarrow> 'f AgentMeter \<Rightarrow> bool" where
  "meter_of fadd fzero history agentID m \<longleftrightarrow>
     (let es = events_of history agentID
      in am_AgentID m = agentID \<and> am_TotalCalls m = wrap64 (int (length es)) \<and> am_TotalTokens m = wrap64 (sum_list (map ue_TotalTokens es)) \<and>
         am_TotalLatency m = foldl fadd fzero (map ue_Duration es) \<and>
         am_Errors m = wrap64 (int (length (filter (\<lambda>e. ue_Status e \<ge> 400) es))) \<and>
         map_of (am_Sessions m) = (\<lambda>k. session_of fadd fzero k (session_events history agentID k)))"

lemma session_record_of:
  "session_record fadd e (case session_of fadd fzero k es of Some s \<Rightarrow> s | None \<Rightarrow> new_session_meter fzero k) = the (session_of fadd fzero k (es @ [e]))"
  by (auto simp: session_of_def session_record_def new_session_meter_def wrap64_add wrap64_add' add.commute)

lemma agent_record_of:
  assumes "case mo of Some m \<Rightarrow> meter_of fadd fzero history a m | None \<Rightarrow> events_of history a = []"
  shows "meter_of fadd fzero (history @ [(a, k, e)]) a (agent_record fadd fzero k e (case mo of Some m \<Rightarrow> m | None \<Rightarrow> new_meter fzero a))"
proof -
  have none: "events_of history a = [] \<Longrightarrow> session_events history a k' = []" for k'
    by (auto simp: events_of_def session_events_def filter_empty_conv)
  have m: "meter_of fadd fzero history a (case mo of Some m \<Rightarrow> m | None \<Rightarrow> new_meter fzero a)"
    using assms none by (cases mo) (auto simp: meter_of_def new_meter_def session_of_def fun_eq_iff Let_def)
  define m0 where "m0 = (case mo of Some m \<Rightarrow> m | None \<Rightarrow> new_meter fzero a)"
  have s: "map_of (am_Sessions m0) = (\<lambda>k. session_of fadd fzero k (session_events history a k))"
    using m by (simp add: m0_def meter_of_def Let_def)
  have e: "events_of (history @ [(a, k, e)]) a = events_of history a @ [e]" by (simp add: events_of_def)
  have se: "session_events (history @ [(a, k, e)]) a k' = session_events history a k' @ (if k' = k then [e] else [])" for k'
    by (simp add: session_events_def)
  have "session_of fadd fzero k (session_events history a k @ [e]) = Some (session_record fadd e
      (case session_of fadd fzero k (session_events history a k) of Some s \<Rightarrow> s | None \<Rightarrow> new_session_meter fzero k))"
    unfolding session_record_of by (simp add: session_of_def)
  then have "map_of (am_Sessions (agent_record fadd fzero k e m0)) = (\<lambda>k'. session_of fadd fzero k' (session_events (history @ [(a, k, e)]) a k'))"
    by (auto simp: agent_record_def Let_def update_conv' s se fun_eq_iff)
  moreover have "am_AgentID m0 = a" "am_TotalCalls m0 = wrap64 (int (length (events_of history a)))"
    "am_TotalTokens m0 = wrap64 (sum_list (map ue_TotalTokens (events_of history a)))"
    "am_TotalLatency m0 = foldl fadd fzero (map ue_Duration (events_of history a))"
    "am_Errors m0 = wrap64 (int (length (filter (\<lambda>e. ue_Status e \<ge> 400) (events_of history a))))"
    using m by (simp_all add: m0_def meter_of_def Let_def)
  ultimately show ?thesis unfolding m0_def [symmetric] meter_of_def Let_def e
    by (simp add: agent_record_def Let_def wrap64_add wrap64_add' add.commute)
qed

text \<open>Meters are exact. After any history of events, the meter of an agent exists when it has an event, and counts its calls,
  tokens and errors and adds up its latencies; and so for every session of every agent, up to the wrap-around of 64-bit counters.\<close>

theorem meters_exact:
  "case GetAgentMeter (record_all fadd fzero history) agentID of
     None \<Rightarrow> events_of history agentID = []
   | Some m \<Rightarrow> meter_of fadd fzero history agentID m \<and> events_of history agentID \<noteq> []"
proof (induction history rule: rev_induct)
  case Nil
  show ?case by (simp add: record_all_def NewMeterStore_def GetAgentMeter_def events_of_def)
next
  case (snoc x history)
  obtain a k e where x: "x = (a, k, e)" by (cases x)
  let ?s = "record_all fadd fzero history"
  have r: "record_all fadd fzero (history @ [x]) = Record fadd fzero a k e ?s" by (simp add: record_all_def x)
  show ?case
  proof (cases "a = agentID")
    case True
    have x': "x = (agentID, k, e)" and r': "record_all fadd fzero (history @ [x]) = Record fadd fzero agentID k e ?s"
      using x r True by simp_all
    have ih: "case map_of ?s agentID of Some m \<Rightarrow> meter_of fadd fzero history agentID m | None \<Rightarrow> events_of history agentID = []"
      using snoc by (auto simp: GetAgentMeter_def split: option.splits)
    have g: "GetAgentMeter (Record fadd fzero agentID k e ?s) agentID =
        Some (agent_record fadd fzero k e (case map_of ?s agentID of Some m \<Rightarrow> m | None \<Rightarrow> new_meter fzero agentID))"
      by (simp add: GetAgentMeter_def Record_def update_conv')
    show ?thesis unfolding r' g using agent_record_of [OF ih, of k e] by (simp add: x' events_of_def)
  next
    case False
    have "GetAgentMeter (Record fadd fzero a k e ?s) agentID = GetAgentMeter ?s agentID"
      using False by (simp add: GetAgentMeter_def Record_def update_conv')
    moreover have "events_of (history @ [x]) agentID = events_of history agentID"
      "session_events (history @ [x]) agentID = session_events history agentID"
      using False by (auto simp: events_of_def session_events_def x fun_eq_iff)
    ultimately show ?thesis using snoc by (simp add: r meter_of_def split: option.splits)
  qed
qed

subsection \<open>The Aperture client\<close>

record proxy_url =
  pu_Scheme :: string
  pu_Host :: string

record ApertureConfig =
  ap_Enabled :: bool
  ap_ProxyURL :: string
  ap_WebhookURL :: string
  ap_WebhookKey :: string

record ApertureClient =
  ac_config :: ApertureConfig
  ac_proxyURL :: "proxy_url option"

definition NewClient :: "(string \<Rightarrow> GoError + proxy_url) \<Rightarrow> ApertureConfig \<Rightarrow> GoError + ApertureClient" where
  "NewClient parse cfg =
     (if ap_ProxyURL cfg \<noteq> []
      then (case parse (ap_ProxyURL cfg) of
              Inl err \<Rightarrow> Inl (ErrWrap ''invalid aperture proxy URL: '' err)
            | Inr parsed \<Rightarrow> Inr \<lparr>ac_config = cfg, ac_proxyURL = Some parsed\<rparr>)
      else Inr \<lparr>ac_config = cfg, ac_proxyURL = None\<rparr>)"

definition ProxyURL :: "ApertureClient \<Rightarrow> string" where
  "ProxyURL c = (if ap_Enabled (ac_config c) then ap_ProxyURL (ac_config c) else [])"

text \<open>An outgoing request, as far as the transport rewrites it: \<open>or_Target\<close> is the text of its address.\<close>

record out_request =
  or_Scheme :: string
  or_Host :: string
  or_HostHeader :: string
  or_Target :: string
  or_Headers :: "(string \<times> string) list"

definition RoundTrip :: "proxy_url \<Rightarrow> out_request \<Rightarrow> out_request" where
  "RoundTrip p req =
     req\<lparr>or_Headers := AList.update ''X-Aperture-Target'' (or_Target req) (or_Headers req), or_Scheme := pu_Scheme p, or_Host := pu_Host p,
         or_HostHeader := pu_Host p\<rparr>"

definition ProxyTransport :: "ApertureClient \<Rightarrow> out_request \<Rightarrow> out_request" where
  "ProxyTransport c =
     (case ac_proxyURL c of
        Some p \<Rightarrow> if ap_Enabled (ac_config c) then RoundTrip p else (\<lambda>req. req)
      | None \<Rightarrow> (\<lambda>req. req))"

text \<open>The web hook: the method, the key of the header and the decoded body; the status and what the handler did.\<close>

definition WebhookHandler :: "ApertureClient \<Rightarrow> ('f UsageEvent \<Rightarrow> 'w \<Rightarrow> 'w) option \<Rightarrow> string \<Rightarrow> string \<Rightarrow> 'f UsageEvent option \<Rightarrow> 'w \<Rightarrow> 'w \<times> int" where
  "WebhookHandler c eventHandler verb key body w =
     (if verb \<noteq> ''POST'' then (w, 405)
      else if ap_WebhookKey (ac_config c) \<noteq> [] \<and> key \<noteq> ap_WebhookKey (ac_config c) then (w, 401)
      else case body of
          None \<Rightarrow> (w, 400)
        | Some event \<Rightarrow> (case eventHandler of Some handler \<Rightarrow> handler event w | None \<Rightarrow> w, 200))"

text \<open>When a key is configured, an event is recorded only for a request that carries it.\<close>

lemma webhook_guarded:
  assumes "ap_WebhookKey (ac_config c) \<noteq> []" "WebhookHandler c h verb key body w = (w', st)" "w' \<noteq> w"
  shows "key = ap_WebhookKey (ac_config c) \<and> verb = ''POST'' \<and> st = 200"
  using assms by (auto simp: WebhookHandler_def split: if_splits option.splits)

lemma webhook_open_without_key:
  "ap_WebhookKey (ac_config c) = [] \<Longrightarrow> WebhookHandler c (Some h) ''POST'' key (Some event) w = (h event w, 200)"
  by (simp add: WebhookHandler_def)

text \<open>A proxied request goes to the proxy, which is told where it was going.\<close>

lemma proxied_request:
  assumes "ac_proxyURL c = Some p" "ap_Enabled (ac_config c)"
  shows "or_Host (ProxyTransport c req) = pu_Host p \<and> map_of (or_Headers (ProxyTransport c req)) ''X-Aperture-Target'' = Some (or_Target req)"
  using assms by (simp add: ProxyTransport_def RoundTrip_def update_conv')

subsection \<open>The HTTP endpoints\<close>

record dispatchRequest =
  dr_Content :: string
  dr_SessionKey :: string
  dr_Channel :: string
  dr_ChatID :: string

record dispatchResponse =
  ds_Content :: string
  ds_FinishReason :: string
  ds_Error :: string

definition or_default :: "string \<Rightarrow> string \<Rightarrow> string" where
  "or_default s d = (if s = [] then d else s)"

definition dispatch_defaults :: "dispatchRequest \<Rightarrow> dispatchRequest" where
  "dispatch_defaults req =
     (let chat = or_default (dr_ChatID req) ''dispatch''
      in req\<lparr>dr_Channel := or_default (dr_Channel req) ''api'', dr_ChatID := chat, dr_SessionKey := or_default (dr_SessionKey req) (''api:'' @ chat)\<rparr>)"

text \<open>The dispatcher is given the content, the session key, the channel and the chat.\<close>

definition handleDispatch :: "(string \<Rightarrow> string \<Rightarrow> string \<Rightarrow> string \<Rightarrow> 'w \<Rightarrow> 'w \<times> (GoError + string)) \<Rightarrow> dispatchRequest option \<Rightarrow> 'w \<Rightarrow>
    'w \<times> int \<times> dispatchResponse" where
  "handleDispatch process body w =
     (case body of
        None \<Rightarrow> (w, 400, \<lparr>ds_Content = [], ds_FinishReason = [], ds_Error = ''invalid request body''\<rparr>)
      | Some req \<Rightarrow>
          if dr_Content req = [] then (w, 400, \<lparr>ds_Content = [], ds_FinishReason = [], ds_Error = ''content is required''\<rparr>)
          else let req = dispatch_defaults req in
            (case process (dr_Content req) (dr_SessionKey req) (dr_Channel req) (dr_ChatID req) w of
               (w, Inl err) \<Rightarrow> (w, 500, \<lparr>ds_Content = [], ds_FinishReason = ''error'', ds_Error = error_text err\<rparr>)
             | (w, Inr result) \<Rightarrow> (w, 200, \<lparr>ds_Content = result, ds_FinishReason = ''stop'', ds_Error = []\<rparr>)))"

definition dispatch_json :: "dispatchResponse \<Rightarrow> json_obj" where
  "dispatch_json r =
     [(''content'', JStr (ds_Content r)), (''finish_reason'', JStr (ds_FinishReason r))] @
     (if ds_Error r \<noteq> [] then [(''error'', JStr (ds_Error r))] else [])"

definition handleTools :: "json_obj list option \<Rightarrow> int \<times> json_obj" where
  "handleTools defs =
     (let defs = (case defs of Some ds \<Rightarrow> ds | None \<Rightarrow> []) in (200, [(''tools'', JArr (map JObj defs)), (''count'', JNum (itoa (int (length defs))))]))"

definition handleStatus :: "json_obj option \<Rightarrow> int \<times> json_obj" where
  "handleStatus info = (200, case info of Some m \<Rightarrow> m | None \<Rightarrow> [])"

text \<open>The endpoint over the agent loop of the model.\<close>

definition api_dispatch :: "env \<Rightarrow> RouteConfig \<Rightarrow> string list option \<Rightarrow> dispatchRequest option \<Rightarrow> 'w AgentRegistry \<times> 'w LoopState \<Rightarrow>
    ('w AgentRegistry \<times> 'w LoopState) \<times> int \<times> dispatchResponse" where
  "api_dispatch env cfg channels = handleDispatch (ProcessDirectWithChannel env cfg channels)"

lemma dispatch_bad_request: "fst (snd (handleDispatch process body w)) = 400 \<Longrightarrow> fst (handleDispatch process body w) = w"
  by (auto simp: handleDispatch_def Let_def split: option.splits if_splits prod.splits sum.splits)

text \<open>Every answer of the endpoint is one of four, and only a request with content reaches the agent.\<close>

lemma dispatch_outcomes:
  "case handleDispatch process body w of (w', st, r) \<Rightarrow>
     (st = 400 \<and> w' = w \<and> ds_Error r \<noteq> []) \<or>
     (\<exists>req res. body = Some req \<and> dr_Content req \<noteq> [] \<and>
        process (dr_Content req) (dr_SessionKey (dispatch_defaults req)) (dr_Channel (dispatch_defaults req)) (dr_ChatID (dispatch_defaults req)) w = (w', res) \<and>
        (case res of Inl err \<Rightarrow> st = 500 \<and> ds_Error r = error_text err | Inr c \<Rightarrow> st = 200 \<and> ds_Content r = c))"
proof (cases body)
  case None
  then show ?thesis by (simp add: handleDispatch_def)
next
  case (Some req)
  obtain w' res where p: "process (dr_Content req) (dr_SessionKey (dispatch_defaults req)) (dr_Channel (dispatch_defaults req))
      (dr_ChatID (dispatch_defaults req)) w = (w', res)" by fastforce
  have c: "dr_Content (dispatch_defaults req) = dr_Content req" by (simp add: dispatch_defaults_def Let_def)
  show ?thesis using Some p c by (cases res) (auto simp: handleDispatch_def Let_def)
qed

subsection \<open>Health\<close>

record Check =
  hc_Name :: string
  hc_Status :: string
  hc_Message :: string
  hc_Timestamp :: time

record Server =
  hs_ready :: bool
  hs_checks :: "(string \<times> Check) list"
  hs_startTime :: time

record StatusResponse =
  hr_Status :: string
  hr_Uptime :: string
  hr_Checks :: "(string \<times> Check) list"

definition NewServer :: "time \<Rightarrow> Server" where
  "NewServer now = \<lparr>hs_ready = False, hs_checks = [], hs_startTime = now\<rparr>"

definition statusString :: "bool \<Rightarrow> string" where
  "statusString ok = (if ok then ''ok'' else ''fail'')"

definition SetReady :: "bool \<Rightarrow> Server \<Rightarrow> Server" where
  "SetReady ready s = s\<lparr>hs_ready := ready\<rparr>"

text \<open>\<open>listen\<close> is what listening returns: the error it ends with.\<close>

definition Server_Start :: "GoError option \<Rightarrow> Server \<Rightarrow> Server \<times> GoError option" where
  "Server_Start listen s = (s\<lparr>hs_ready := True\<rparr>, listen)"

definition Server_Stop :: "GoError option \<Rightarrow> Server \<Rightarrow> Server \<times> GoError option" where
  "Server_Stop shutdown s = (s\<lparr>hs_ready := False\<rparr>, shutdown)"

text \<open>Until its context ends the server listens; \<open>ended\<close> says which came first.\<close>

definition StartContext :: "bool \<Rightarrow> GoError option \<Rightarrow> GoError option \<Rightarrow> Server \<Rightarrow> Server \<times> GoError option" where
  "StartContext ended listen shutdown s = (s\<lparr>hs_ready := True\<rparr>, if ended then shutdown else listen)"

definition RegisterCheck :: "time \<Rightarrow> string \<Rightarrow> bool \<times> string \<Rightarrow> Server \<Rightarrow> Server" where
  "RegisterCheck now name result s =
     s\<lparr>hs_checks := AList.update name \<lparr>hc_Name = name, hc_Status = statusString (fst result), hc_Message = snd result, hc_Timestamp = now\<rparr> (hs_checks s)\<rparr>"

definition healthHandler :: "(duration \<Rightarrow> string) \<Rightarrow> time \<Rightarrow> Server \<Rightarrow> int \<times> StatusResponse" where
  "healthHandler show_duration now s =
     (200, \<lparr>hr_Status = ''ok'', hr_Uptime = show_duration (time_sub now (hs_startTime s)), hr_Checks = []\<rparr>)"

definition readyHandler :: "(duration \<Rightarrow> string) \<Rightarrow> time \<Rightarrow> Server \<Rightarrow> int \<times> StatusResponse" where
  "readyHandler show_duration now s =
     (if \<not> hs_ready s \<or> list_ex (\<lambda>(_, check). hc_Status check = ''fail'') (hs_checks s)
      then (503, \<lparr>hr_Status = ''not ready'', hr_Uptime = [], hr_Checks = hs_checks s\<rparr>)
      else (200, \<lparr>hr_Status = ''ready'', hr_Uptime = show_duration (time_sub now (hs_startTime s)), hr_Checks = hs_checks s\<rparr>))"

text \<open>The server is ready exactly when it was set so and no registered check failed.\<close>

lemma ready_iff:
  "fst (readyHandler show_duration now s) = 200 \<longleftrightarrow> hs_ready s \<and> \<not> list_ex (\<lambda>(_, check). hc_Status check = ''fail'') (hs_checks s)"
  by (auto simp: readyHandler_def)

text \<open>A check runs when it is registered and never again: whatever happens later (other registrations, changes of the flag, time), the
  status reported for it is the one of that moment, unless it is registered anew.\<close>

datatype health_op = Set_ready bool | Register_check time string "bool \<times> string" | Serve "GoError option" | Shut_down "GoError option"

definition health_apply :: "health_op \<Rightarrow> Server \<Rightarrow> Server" where
  "health_apply op s = (case op of Set_ready b \<Rightarrow> SetReady b s | Register_check now name res \<Rightarrow> RegisterCheck now name res s
     | Serve e \<Rightarrow> fst (Server_Start e s) | Shut_down e \<Rightarrow> fst (Server_Stop e s))"

definition registers :: "string \<Rightarrow> health_op \<Rightarrow> bool" where
  "registers name op = (case op of Register_check _ n _ \<Rightarrow> n = name | _ \<Rightarrow> False)"

lemma check_runs_once:
  assumes "list_all (\<lambda>op. \<not> registers name op) ops"
  shows "map_of (hs_checks (fold health_apply ops (RegisterCheck now name res s))) name =
    Some \<lparr>hc_Name = name, hc_Status = statusString (fst res), hc_Message = snd res, hc_Timestamp = now\<rparr>"
proof -
  have keep: "list_all (\<lambda>op. \<not> registers name op) ops \<Longrightarrow>
      map_of (hs_checks (fold health_apply ops s1)) name = map_of (hs_checks s1) name" for s1
  proof (induction ops arbitrary: s1)
    case (Cons op ops)
    have "map_of (hs_checks (health_apply op s1)) name = map_of (hs_checks s1) name"
      using Cons.prems by (cases op)
        (auto simp: health_apply_def registers_def SetReady_def Server_Start_def Server_Stop_def RegisterCheck_def update_conv')
    then show ?case using Cons by simp
  qed simp
  show ?thesis using keep [OF assms, of "RegisterCheck now name res s"] by (simp add: RegisterCheck_def update_conv')
qed

text \<open>A server whose listening failed still reports that it is ready.\<close>

lemma ready_after_failed_start: "hs_ready (fst (Server_Start (Some err) s))"
  by (simp add: Server_Start_def)

end
