(* ===== verification/Media.thy ===== *)
theory Media
  imports Skill_Install State_Store
begin

text \<open>
  Files that chat users send, \<^verbatim>\<open>pkg/utils/media.go\<close>, and the notifications of devices, \<^verbatim>\<open>pkg/devices/service.go\<close> and
  \<^verbatim>\<open>events/events.go\<close>. The download runs on the disk of \<open>Files\<close>; the answer of the server, the temporary directory and the random part of the
  name are arguments. The name of a file comes from the sender: the theorem is that, whatever it is, the download touches nothing
  outside the directory for media.
\<close>

subsection \<open>Files\<close>

definition ends_with :: "string \<Rightarrow> string \<Rightarrow> bool" where
  "ends_with s ext \<longleftrightarrow> has_prefix (rev ext) (rev s)"

definition IsAudioFile :: "string \<Rightarrow> string \<Rightarrow> bool" where
  "IsAudioFile filename contentType \<longleftrightarrow>
     list_ex (\<lambda>ext. ends_with (to_lower filename) ext) [''.mp3'', ''.wav'', ''.ogg'', ''.m4a'', ''.flac'', ''.aac'', ''.wma''] \<or>
     list_ex (\<lambda>audioType. has_prefix audioType (to_lower contentType)) [''audio/'', ''application/ogg'', ''application/x-ogg'']"

text \<open>\<^verbatim>\<open>strings.ReplaceAll\<close> of two dots by nothing.\<close>

fun drop_dotdot :: "string \<Rightarrow> string" where
  "drop_dotdot (a # b # s) = (if a = CHR ''.'' \<and> b = CHR ''.'' then drop_dotdot s else a # drop_dotdot (b # s))"
| "drop_dotdot s = s"

definition SanitizeFilename :: "string \<Rightarrow> string" where
  "SanitizeFilename filename =
     (let base = drop_dotdot (Base filename); base = replace_char slash (CHR ''_'') base
      in replace_char (CHR 0x5C) (CHR ''_'') base)"

text \<open>\<open>uuid\<close> is the first eight characters of a random identifier; a request that cannot be made is an error of the exchange.\<close>

definition media_dir :: "string \<Rightarrow> string" where
  "media_dir tempDir = Join [tempDir, ''tinyclaw_media'']"

definition media_name :: "string \<Rightarrow> string \<Rightarrow> string" where
  "media_name uuid filename = uuid @ ''_'' @ SanitizeFilename filename"

definition media_path :: "string \<Rightarrow> string \<Rightarrow> string \<Rightarrow> string" where
  "media_path tempDir uuid filename = Join [media_dir tempDir, media_name uuid filename]"

definition DownloadFile :: "fs_env \<Rightarrow> GoError + http_reply \<Rightarrow> string \<Rightarrow> string \<Rightarrow> string \<Rightarrow> disk \<Rightarrow> disk \<times> string" where
  "DownloadFile env reply tempDir uuid filename d =
     (case mkdir_all env (media_dir tempDir) d of
        (d, Some e) \<Rightarrow> (d, [])
      | (d, None) \<Rightarrow>
          let localPath = media_path tempDir uuid filename in
          (case reply of
             Inl err \<Rightarrow> (d, [])
           | Inr resp \<Rightarrow>
               if hr_Status resp \<noteq> 200 then (d, [])
               else let pl = host_place env localPath in
                 (case sys_write env pl localPath (hr_Body resp) d of
                    (d, Some (False, e)) \<Rightarrow> (d, [])
                  | (d, Some (True, e)) \<Rightarrow> (sys_remove pl localPath d, [])
                  | (d, None) \<Rightarrow> if hr_ReadErr resp \<noteq> None then (sys_remove pl localPath d, []) else (d, localPath))))"

lemma drop_dotdot_slash: "c \<notin> set s \<Longrightarrow> c \<notin> set (drop_dotdot s)"
  by (induction s rule: drop_dotdot.induct) auto

lemma replace_char_gone: "a \<noteq> b \<Longrightarrow> a \<notin> set (replace_char a b s)"
  by (induction s) (auto simp: replace_char_def)

lemma replace_char_keeps: "c \<noteq> b \<Longrightarrow> c \<notin> set s \<Longrightarrow> c \<notin> set (replace_char a b s)"
  by (induction s) (auto simp: replace_char_def)

lemma sanitized_no_slash: "slash \<notin> set (SanitizeFilename filename)"
  unfolding SanitizeFilename_def Let_def by (intro replace_char_keeps replace_char_gone) simp_all

text \<open>The name of the file is one component below the directory for media.\<close>

lemma media_path_below:
  assumes "IsAbs tempDir" "slash \<notin> set uuid" "uuid \<noteq> []" "w = clean_comps tempDir @ [''tinyclaw_media'']" "name = media_name uuid filename"
  shows "IsAbs (media_dir tempDir)" "comps (media_dir tempDir) = w" "IsAbs (media_path tempDir uuid filename)"
    "comps (media_path tempDir uuid filename) = w @ [name]" "''..'' \<notin> set (w @ [name])"
proof -
  have m: "clean_comps ''tinyclaw_media'' = [''tinyclaw_media'']" "\<not> IsAbs ''tinyclaw_media''" "Clean ''tinyclaw_media'' = ''tinyclaw_media''"
    by code_simp+
  note w_def = assms(4)
  have name_def: "name = uuid @ ''_'' @ SanitizeFilename filename" using assms(5) by (simp add: media_name_def)
  have d: "media_dir tempDir = path_of True w"
    using Join_below [OF assms(1) m(1,2)] m(3) by (simp add: media_dir_def w_def)
  have pw: "list_all proper w" "''..'' \<notin> set w" using abs_comps [OF assms(1)] by (auto simp: w_def proper_def)
  show a: "IsAbs (media_dir tempDir)" and c: "comps (media_dir tempDir) = w"
    using pw by (simp_all add: d path_of_abs path_of_comps)
  have cw: "clean_comps (media_dir tempDir) = w"
    using resolve_no_dots [of w True "[]"] pw a c by (simp add: clean_comps_def)
  have ns: "slash \<notin> set name" using assms(2) sanitized_no_slash by (auto simp: name_def)
  obtain u us where u: "uuid = u # us" using assms(3) by (cases uuid) auto
  have pn: "proper name" using ns u by (auto simp: proper_def name_def)
  have nd: "name \<noteq> ''..''" using u by (cases us) (auto simp: name_def)
  have nd': "name \<noteq> ''.''" "name \<noteq> []" using u by (auto simp: name_def)
  have cn: "comps name = [name]" using pn nd' ns by (simp add: comps_def split_on_no_sep)
  have na: "\<not> IsAbs name" using ns u by (auto simp: IsAbs_def name_def)
  have b: "IsAbs (media_dir tempDir @ slash # name)" "clean_comps (media_dir tempDir @ slash # name) = w @ [name]"
    using clean_comps_below [OF a, of "[name]" name] nd cn cw by auto
  have md: "media_dir tempDir \<noteq> []" using a by (auto simp: IsAbs_def)
  have "media_path tempDir uuid filename = path_of True (w @ [name])"
    using b md nd' by (simp add: media_path_def assms(5) [symmetric] Join_def Clean_def)
  then show "IsAbs (media_path tempDir uuid filename)" "comps (media_path tempDir uuid filename) = w @ [name]"
    using pw pn by (simp_all add: path_of_abs path_of_comps)
  show "''..'' \<notin> set (w @ [name])" using pw nd by auto
qed


definition sample_media_disk :: disk where
  "sample_media_disk = [([''tmp''], DirNode), ([''tmp'', ''keep''], FileNode ''old'')]"


subsection \<open>Devices\<close>

record DeviceEvent =
  de_Action :: string
  de_Kind :: string
  de_DeviceID :: string
  de_Vendor :: string
  de_Product :: string
  de_Serial :: string
  de_Capabilities :: string
  de_Raw :: "(string \<times> string) list"

text \<open>The bytes of the plug sign.\<close>

definition plug_sign :: string where "plug_sign = [CHR 0xF0, CHR 0x9F, CHR 0x94, CHR 0x8C]"

definition FormatMessage :: "DeviceEvent \<Rightarrow> string" where
  "FormatMessage e =
     plug_sign @ '' Device '' @ (if de_Action e = ''remove'' then ''Disconnected'' else ''Connected'') @ [nl, nl] @
     ''Type: '' @ de_Kind e @ [nl] @ ''Device: '' @ de_Vendor e @ '' '' @ de_Product e @ [nl] @
     (if de_Capabilities e \<noteq> [] then ''Capabilities: '' @ de_Capabilities e @ [nl] else []) @
     (if de_Serial e \<noteq> [] then ''Serial: '' @ de_Serial e @ [nl] else [])"

definition device_channel :: "string \<Rightarrow> string \<times> string" where
  "device_channel lastChannel =
     (if lastChannel = [] then ([], [])
      else case split_n 2 CHR '':'' lastChannel of
             [platform, userID] \<Rightarrow> if platform = [] \<or> userID = [] then ([], []) else (platform, userID)
           | _ \<Rightarrow> ([], []))"

text \<open>The message that a device event publishes, given whether there is a bus and the last active channel.\<close>

definition sendNotification :: "bool \<Rightarrow> string \<Rightarrow> DeviceEvent \<Rightarrow> OutboundMessage option" where
  "sendNotification has_bus lastChannel ev =
     (if \<not> has_bus \<or> lastChannel = [] then None
      else let (platform, userID) = device_channel lastChannel in
        if platform = [] \<or> userID = [] \<or> IsInternalChannel platform then None
        else Some \<lparr>om_Channel = platform, om_ChatID = userID, om_Content = FormatMessage ev\<rparr>)"

text \<open>The events of one source; those that are nil are skipped.\<close>

definition handleEvents :: "bool \<Rightarrow> string \<Rightarrow> DeviceEvent option list \<Rightarrow> OutboundMessage list" where
  "handleEvents has_bus lastChannel evs =
     List.map_filter (\<lambda>ev. case ev of None \<Rightarrow> None | Some e \<Rightarrow> sendNotification has_bus lastChannel e) evs"

text \<open>Device notifications go where heartbeats go, and never to an internal channel.\<close>

lemma device_channel_as_heartbeat:
  "parseLastChannel lastChannel =
     (if IsInternalChannel (fst (device_channel lastChannel)) then ([], []) else device_channel lastChannel)"
  by (auto simp: parseLastChannel_def device_channel_def IsInternalChannel_def internalChannels_def split: list.splits)

lemma notification_target:
  assumes "sendNotification b lastChannel ev = Some msg"
  shows "parseLastChannel lastChannel = (om_Channel msg, om_ChatID msg) \<and> om_Channel msg \<noteq> [] \<and> \<not> IsInternalChannel (om_Channel msg)"
  using assms unfolding device_channel_as_heartbeat sendNotification_def by (auto split: prod.splits if_splits)

end
