(* ===== verification/Web.thy ===== *)
theory Web
  imports Tools Regex
begin

text \<open>
  The web tools, \<^verbatim>\<open>pkg/tools/web.go\<close>: the search providers, the choice among them, the search tool, and the tool that fetches a page
  and extracts its text. The HTTP exchange, the parsing of addresses and the JSON codec are arguments; the fragment of
  Go's regular expressions that the file uses is a matcher below.
\<close>

subsection \<open>Regular expressions\<close>

text \<open>Classes of characters, repeated greedily or lazily, and the borders of capture groups. A match gives the rest of the text at every border
  and at its end, the first in the order of preference of the source's package.\<close>

datatype wx = WCls "char \<Rightarrow> bool" | WStar "char \<Rightarrow> bool" | WLazy "char \<Rightarrow> bool" | WMark

fun wx_match :: "wx list \<Rightarrow> string \<Rightarrow> (string list \<times> string) option" where
  "wx_match [] s = Some ([], s)"
| "wx_match (WCls p # rs) [] = None"
| "wx_match (WCls p # rs) (c # s) = (if p c then wx_match rs s else None)"
| "wx_match (WStar p # rs) [] = wx_match rs []"
| "wx_match (WStar p # rs) (c # s) = or_else (if p c then wx_match (WStar p # rs) s else None) (wx_match rs (c # s))"
| "wx_match (WLazy p # rs) [] = wx_match rs []"
| "wx_match (WLazy p # rs) (c # s) = or_else (wx_match rs (c # s)) (if p c then wx_match (WLazy p # rs) s else None)"
| "wx_match (WMark # rs) s = map_option (\<lambda>(ms, r). (s # ms, r)) (wx_match rs s)"

fun wx_find :: "wx list \<Rightarrow> string \<Rightarrow> (string list \<times> string) option" where
  "wx_find rs [] = wx_match rs []"
| "wx_find rs (c # s) = or_else (wx_match rs (c # s)) (wx_find rs s)"

text \<open>The texts between the borders, two by two.\<close>

fun groups :: "string list \<Rightarrow> string list" where
  "groups (a # b # ms) = take (length a - length b) a # groups ms"
| "groups ms = []"

fun find_all :: "nat \<Rightarrow> wx list \<Rightarrow> string \<Rightarrow> string list list" where
  "find_all 0 rs s = []"
| "find_all (Suc n) rs s = (case wx_find rs s of None \<Rightarrow> [] | Some (ms, rest) \<Rightarrow> groups ms # find_all n rs rest)"

text \<open>Replacing every match by a text; the expressions of the file match no empty text.\<close>

function replace_all :: "wx list \<Rightarrow> string \<Rightarrow> string \<Rightarrow> string" where
  "replace_all rs repl [] = []"
| "replace_all rs repl (c # s) =
     (case wx_match rs (c # s) of
        Some (ms, rest) \<Rightarrow> if length rest \<le> length s then repl @ replace_all rs repl rest else c # replace_all rs repl s
      | None \<Rightarrow> c # replace_all rs repl s)"
  by pat_completeness auto
termination
  by (relation "measure (\<lambda>(rs, repl, s). length s)") auto

declare replace_all.simps(2) [simp del]

definition wlit :: "string \<Rightarrow> wx list" where "wlit s = map (\<lambda>a. WCls (\<lambda>c. c = a)) s"
definition wplus :: "(char \<Rightarrow> bool) \<Rightarrow> wx list" where "wplus p = [WCls p, WStar p]"
definition not_gt :: "char \<Rightarrow> bool" where "not_gt c \<longleftrightarrow> c \<noteq> CHR ''>''"
definition not_quote :: "char \<Rightarrow> bool" where "not_quote c \<longleftrightarrow> c \<noteq> dquote"
definition any_char :: "char \<Rightarrow> bool" where "any_char c \<longleftrightarrow> True"
definition blank :: "char \<Rightarrow> bool" where "blank c \<longleftrightarrow> rx_space c \<and> c \<noteq> nl"

definition reLink :: "wx list" where
  "reLink = wlit ''<a'' @ [WStar not_gt] @ wlit (''class='' @ [dquote]) @ [WStar not_quote] @ wlit ''result__a'' @ [WStar not_quote] @ wlit [dquote] @
     [WStar not_gt] @ wlit (''href='' @ [dquote]) @ [WMark] @ wplus not_quote @ [WMark] @ wlit [dquote] @ [WStar not_gt] @ wlit ''>'' @
     [WMark, WLazy any_char, WMark] @ wlit ''</a>''"

definition reSnippet :: "wx list" where
  "reSnippet = wlit (''<a class='' @ [dquote] @ ''result__snippet'') @ [WStar not_quote] @ wlit [dquote] @ [WLazy rx_any] @ wlit ''>'' @
     [WMark, WLazy any_char, WMark] @ wlit ''</a>''"

definition reTag :: "wx list" where "reTag = wlit ''<'' @ wplus not_gt @ wlit ''>''"
definition reScript :: "wx list" where "reScript = wlit ''<script'' @ [WLazy any_char] @ wlit ''</script>''"
definition reStyle :: "wx list" where "reStyle = wlit ''<style'' @ [WLazy any_char] @ wlit ''</style>''"
definition reBlank :: "wx list" where "reBlank = wplus blank"
definition reLines :: "wx list" where "reLines = wlit [nl, nl, nl] @ [WStar (\<lambda>c. c = nl)]"

definition stripTags :: "string \<Rightarrow> string" where
  "stripTags content = replace_all reTag [] content"

definition extractText :: "string \<Rightarrow> string" where
  "extractText htmlContent =
     (let result = stripTags (replace_all reStyle [] (replace_all reScript [] htmlContent));
          result = trim_space result;
          result = replace_all reLines [nl, nl] (replace_all reBlank '' '' result)
      in join [nl] (filter (\<lambda>line. line \<noteq> []) (map trim_space (split_on (\<lambda>c. c = nl) result))))"

subsection \<open>Addresses\<close>

definition unreserved :: "char \<Rightarrow> bool" where
  "unreserved c \<longleftrightarrow> is_lower c \<or> is_upper c \<or> is_digit c \<or> c \<in> {CHR ''-'', CHR ''_'', CHR ''.'', CHR ''~''}"

definition hex_upper :: "int \<Rightarrow> char" where
  "hex_upper n = (if n < 10 then char_of (48 + n) else char_of (55 + n))"

definition QueryEscape :: "string \<Rightarrow> string" where
  "QueryEscape s =
     concat (map (\<lambda>c. if unreserved c then [c] else if c = CHR '' '' then ''+''
                      else [CHR ''%'', hex_upper (of_char c div 16), hex_upper (of_char c mod 16)]) s)"

definition unhex :: "char \<Rightarrow> int option" where
  "unhex c =
     (if is_digit c then Some (of_char c - 48)
      else if CHR ''a'' \<le> c \<and> c \<le> CHR ''f'' then Some (of_char c - 87)
      else if CHR ''A'' \<le> c \<and> c \<le> CHR ''F'' then Some (of_char c - 55) else None)"

fun QueryUnescape :: "string \<Rightarrow> string option" where
  "QueryUnescape [] = Some []"
| "QueryUnescape (c # s) =
     (if c = CHR ''%'' then
        (case s of
           a # b # t \<Rightarrow>
             (case (unhex a, unhex b) of
                (Some x, Some y) \<Rightarrow> map_option (\<lambda>u. char_of (16 * x + y) # u) (QueryUnescape t)
              | _ \<Rightarrow> None)
         | _ \<Rightarrow> None)
      else map_option (\<lambda>u. (if c = CHR ''+'' then CHR '' '' else c) # u) (QueryUnescape s))"

record parsed_url =
  ur_Scheme :: string
  ur_Host :: string

text \<open>The proxy of a client: none when the environment decides.\<close>

definition createHTTPClient :: "(string \<Rightarrow> GoError + parsed_url) \<Rightarrow> string \<Rightarrow> GoError + parsed_url option" where
  "createHTTPClient parse proxyURL =
     (if proxyURL = [] then Inr None
      else case parse proxyURL of
          Inl err \<Rightarrow> Inl (ErrWrap ''invalid proxy URL: '' err)
        | Inr proxy \<Rightarrow>
            if to_lower (ur_Scheme proxy) \<notin> {''http'', ''https'', ''socks5'', ''socks5h''}
            then Inl (ErrNew (''unsupported proxy scheme '' @ go_quote (ur_Scheme proxy) @ '' (supported: http, https, socks5, socks5h)''))
            else if ur_Host proxy = [] then Inl (ErrNew ''invalid proxy URL: missing host'')
            else Inr (Some proxy))"

subsection \<open>Search\<close>

datatype SearchProvider =
    BraveSearchProvider string string
  | TavilySearchProvider string string string
  | DuckDuckGoSearchProvider string
  | PerplexitySearchProvider string string

record web_request =
  wr_Method :: string
  wr_URL :: string
  wr_Headers :: "(string \<times> string) list"
  wr_Body :: string

text \<open>The environment: what \<^verbatim>\<open>NewRequest\<close> refuses, the exchange with the reading of the body, and the decoders of the answers (title,
  address and description of each result, or the contents of the choices).\<close>

record web_env =
  we_refuses :: "web_request \<Rightarrow> GoError option"
  we_parse :: "string \<Rightarrow> GoError + parsed_url"
  we_do :: "parsed_url option \<Rightarrow> web_request \<Rightarrow> GoError + (int \<times> (GoError + string))"
  we_marshal :: "json_obj \<Rightarrow> GoError + string"
  we_results :: "string \<Rightarrow> GoError + (string \<times> string \<times> string) list"
  we_choices :: "string \<Rightarrow> GoError + string list"

definition userAgent :: string where
  "userAgent = ''Mozilla/5.0 (Windows NT 10.0; Win64; x64) AppleWebKit/537.36 (KHTML, like Gecko) Chrome/120.0.0.0 Safari/537.36''"

definition exchange :: "web_env \<Rightarrow> string \<Rightarrow> web_request \<Rightarrow> GoError + (int \<times> string)" where
  "exchange env proxy req =
     (case we_refuses env req of
        Some err \<Rightarrow> Inl (ErrWrap ''failed to create request: '' err)
      | None \<Rightarrow>
          (case createHTTPClient (we_parse env) proxy of
             Inl err \<Rightarrow> Inl (ErrWrap ''failed to create HTTP client: '' err)
           | Inr client \<Rightarrow>
               (case we_do env client req of
                  Inl err \<Rightarrow> Inl (ErrWrap ''request failed: '' err)
                | Inr (status, Inl err) \<Rightarrow> Inl (ErrWrap ''failed to read response: '' err)
                | Inr (status, Inr body) \<Rightarrow> Inr (status, body))))"

text \<open>The lines of at most \<open>count\<close> results, numbered from one.\<close>

fun result_lines :: "int \<Rightarrow> int \<Rightarrow> (string \<times> string \<times> string) list \<Rightarrow> string list" where
  "result_lines i count [] = []"
| "result_lines i count ((title, url, desc) # results) =
     (if i \<ge> count then []
      else (itoa (i + 1) @ ''. '' @ title @ [nl] @ ''   '' @ url) # (if desc \<noteq> [] then [''   '' @ desc] else []) @ result_lines (i + 1) count results)"

definition list_results :: "string \<Rightarrow> string \<Rightarrow> int \<Rightarrow> (string \<times> string \<times> string) list \<Rightarrow> string" where
  "list_results query via count results =
     (if results = [] then ''No results for: '' @ query
      else join [nl] ((''Results for: '' @ query @ via) # result_lines 0 count results))"

definition decoded_results :: "web_env \<Rightarrow> string \<Rightarrow> string \<Rightarrow> int \<Rightarrow> string \<Rightarrow> GoError + string" where
  "decoded_results env query via count body =
     (case we_results env body of
        Inl err \<Rightarrow> Inl (ErrWrap ''failed to parse response: '' err)
      | Inr results \<Rightarrow> Inr (list_results query via count results))"

definition Brave_Search :: "web_env \<Rightarrow> string \<Rightarrow> string \<Rightarrow> string \<Rightarrow> int \<Rightarrow> GoError + string" where
  "Brave_Search env apiKey proxy query count =
     (case exchange env proxy \<lparr>wr_Method = ''GET'',
             wr_URL = ''https://api.search.brave.com/res/v1/web/search?q='' @ QueryEscape query @ ''&count='' @ itoa count,
             wr_Headers = [(''Accept'', ''application/json''), (''X-Subscription-Token'', apiKey)], wr_Body = []\<rparr> of
        Inl err \<Rightarrow> Inl err
      | Inr (status, body) \<Rightarrow> decoded_results env query [] count body)"

definition Tavily_Search :: "web_env \<Rightarrow> string \<Rightarrow> string \<Rightarrow> string \<Rightarrow> string \<Rightarrow> int \<Rightarrow> GoError + string" where
  "Tavily_Search env apiKey baseURL proxy query count =
     (let searchURL = (if baseURL = [] then ''https://api.tavily.com/search'' else baseURL);
          payload = [(''api_key'', JStr apiKey), (''query'', JStr query), (''search_depth'', JStr ''advanced''), (''include_answer'', JBool False),
            (''include_images'', JBool False), (''include_raw_content'', JBool False), (''max_results'', JNum (itoa count))]
      in case we_marshal env payload of
          Inl err \<Rightarrow> Inl (ErrWrap ''failed to marshal payload: '' err)
        | Inr bodyBytes \<Rightarrow>
            (case exchange env proxy \<lparr>wr_Method = ''POST'', wr_URL = searchURL,
                    wr_Headers = [(''Content-Type'', ''application/json''), (''User-Agent'', userAgent)], wr_Body = bodyBytes\<rparr> of
               Inl err \<Rightarrow> Inl err
             | Inr (status, body) \<Rightarrow>
                 if status \<noteq> 200 then Inl (ErrNew (''tavily api error (status '' @ itoa status @ ''): '' @ body))
                 else decoded_results env query '' (via Tavily)'' count body))"

text \<open>The address behind a redirect of DuckDuckGo.\<close>

definition after_text :: "string \<Rightarrow> string \<Rightarrow> string option" where
  "after_text sep s = map_option (\<lambda>i. drop (i + length sep) s) (index_of sep s)"

definition link_address :: "string \<Rightarrow> string" where
  "link_address urlStr =
     (if contains urlStr ''uddg='' then
        (case QueryUnescape urlStr of
           Some u \<Rightarrow> (case after_text ''uddg='' u of Some after \<Rightarrow> after | None \<Rightarrow> urlStr)
         | None \<Rightarrow> urlStr)
      else urlStr)"

definition link_lines :: "string list list \<Rightarrow> string list list \<Rightarrow> nat \<Rightarrow> string list" where
  "link_lines matches snippetMatches i =
     (itoa (int i + 1) @ ''. '' @ trim_space (stripTags (matches ! i ! 1)) @ [nl] @ ''   '' @ link_address (matches ! i ! 0)) #
     (if i < length snippetMatches \<and> trim_space (stripTags (snippetMatches ! i ! 0)) \<noteq> []
      then [''   '' @ trim_space (stripTags (snippetMatches ! i ! 0))] else [])"

definition extractResults :: "string \<Rightarrow> int \<Rightarrow> string \<Rightarrow> string" where
  "extractResults html count query =
     (let matches = find_all (nat (count + 5)) reLink html; snippetMatches = find_all (nat (count + 5)) reSnippet html
      in if matches = [] then ''No results found or extraction failed. Query: '' @ query
         else join [nl] ((''Results for: '' @ query @ '' (via DuckDuckGo)'') #
                concat (map (link_lines matches snippetMatches) [0..<nat (min (int (length matches)) count)])))"

definition DuckDuckGo_Search :: "web_env \<Rightarrow> string \<Rightarrow> string \<Rightarrow> int \<Rightarrow> GoError + string" where
  "DuckDuckGo_Search env proxy query count =
     (case exchange env proxy \<lparr>wr_Method = ''GET'', wr_URL = ''https://html.duckduckgo.com/html/?q='' @ QueryEscape query,
             wr_Headers = [(''User-Agent'', userAgent)], wr_Body = []\<rparr> of
        Inl err \<Rightarrow> Inl err
      | Inr (status, body) \<Rightarrow> Inr (extractResults body count query))"

definition perplexity_prompt :: string where
  "perplexity_prompt =
     ''You are a search assistant. Provide concise search results with titles, URLs, and brief descriptions in the following format:'' @ [nl] @
     ''1. Title'' @ [nl] @ ''   URL'' @ [nl] @ ''   Description'' @ [nl, nl] @ ''Do not add extra commentary.''"

definition Perplexity_Search :: "web_env \<Rightarrow> string \<Rightarrow> string \<Rightarrow> string \<Rightarrow> int \<Rightarrow> GoError + string" where
  "Perplexity_Search env apiKey proxy query count =
     (let payload = [(''model'', JStr ''sonar''),
            (''messages'', JArr [JObj [(''role'', JStr ''system''), (''content'', JStr perplexity_prompt)],
               JObj [(''role'', JStr ''user''),
                  (''content'', JStr (''Search for: '' @ query @ ''. Provide up to '' @ itoa count @ '' relevant results.''))]]),
            (''max_tokens'', JNum ''1000'')]
      in case we_marshal env payload of
          Inl err \<Rightarrow> Inl (ErrWrap ''failed to marshal request: '' err)
        | Inr payloadBytes \<Rightarrow>
            (case exchange env proxy \<lparr>wr_Method = ''POST'', wr_URL = ''https://api.perplexity.ai/chat/completions'',
                    wr_Headers = [(''Content-Type'', ''application/json''), (''Authorization'', ''Bearer '' @ apiKey), (''User-Agent'', userAgent)],
                    wr_Body = payloadBytes\<rparr> of
               Inl err \<Rightarrow> Inl err
             | Inr (status, body) \<Rightarrow>
                 if status \<noteq> 200 then Inl (ErrNew (''perplexity API error: '' @ body))
                 else case we_choices env body of
                     Inl err \<Rightarrow> Inl (ErrWrap ''failed to parse response: '' err)
                   | Inr [] \<Rightarrow> Inr (''No results for: '' @ query)
                   | Inr (c # cs) \<Rightarrow> Inr (''Results for: '' @ query @ '' (via Perplexity)'' @ [nl] @ c)))"

definition provider_Search :: "web_env \<Rightarrow> SearchProvider \<Rightarrow> string \<Rightarrow> int \<Rightarrow> GoError + string" where
  "provider_Search env p query count =
     (case p of
        BraveSearchProvider apiKey proxy \<Rightarrow> Brave_Search env apiKey proxy query count
      | TavilySearchProvider apiKey baseURL proxy \<Rightarrow> Tavily_Search env apiKey baseURL proxy query count
      | DuckDuckGoSearchProvider proxy \<Rightarrow> DuckDuckGo_Search env proxy query count
      | PerplexitySearchProvider apiKey proxy \<Rightarrow> Perplexity_Search env apiKey proxy query count)"

subsection \<open>The search tool\<close>

record WebSearchToolOptions =
  wo_BraveAPIKey :: string
  wo_BraveMaxResults :: int
  wo_BraveEnabled :: bool
  wo_TavilyAPIKey :: string
  wo_TavilyBaseURL :: string
  wo_TavilyMaxResults :: int
  wo_TavilyEnabled :: bool
  wo_DuckDuckGoMaxResults :: int
  wo_DuckDuckGoEnabled :: bool
  wo_PerplexityAPIKey :: string
  wo_PerplexityMaxResults :: int
  wo_PerplexityEnabled :: bool
  wo_Proxy :: string

record WebSearchTool =
  ws_provider :: SearchProvider
  ws_maxResults :: int

definition max_or_five :: "int \<Rightarrow> int" where
  "max_or_five n = (if n > 0 then n else 5)"

definition NewWebSearchTool :: "WebSearchToolOptions \<Rightarrow> WebSearchTool option" where
  "NewWebSearchTool opts =
     (if wo_PerplexityEnabled opts \<and> wo_PerplexityAPIKey opts \<noteq> [] then
        Some \<lparr>ws_provider = PerplexitySearchProvider (wo_PerplexityAPIKey opts) (wo_Proxy opts), ws_maxResults = max_or_five (wo_PerplexityMaxResults opts)\<rparr>
      else if wo_BraveEnabled opts \<and> wo_BraveAPIKey opts \<noteq> [] then
        Some \<lparr>ws_provider = BraveSearchProvider (wo_BraveAPIKey opts) (wo_Proxy opts), ws_maxResults = max_or_five (wo_BraveMaxResults opts)\<rparr>
      else if wo_TavilyEnabled opts \<and> wo_TavilyAPIKey opts \<noteq> [] then
        Some \<lparr>ws_provider = TavilySearchProvider (wo_TavilyAPIKey opts) (wo_TavilyBaseURL opts) (wo_Proxy opts),
              ws_maxResults = max_or_five (wo_TavilyMaxResults opts)\<rparr>
      else if wo_DuckDuckGoEnabled opts then
        Some \<lparr>ws_provider = DuckDuckGoSearchProvider (wo_Proxy opts), ws_maxResults = max_or_five (wo_DuckDuckGoMaxResults opts)\<rparr>
      else None)"

text \<open>\<open>trunc\<close> converts a number to an integer.\<close>

definition search_count :: "(string \<Rightarrow> int) \<Rightarrow> WebSearchTool \<Rightarrow> json_obj \<Rightarrow> int" where
  "search_count trunc t args =
     (case map_of args ''count'' of
        Some (JNum c) \<Rightarrow> if trunc c > 0 \<and> trunc c \<le> 10 then trunc c else ws_maxResults t
      | _ \<Rightarrow> ws_maxResults t)"

definition WebSearchTool_Execute :: "web_env \<Rightarrow> (string \<Rightarrow> int) \<Rightarrow> WebSearchTool \<Rightarrow> json_obj \<Rightarrow> ToolResult" where
  "WebSearchTool_Execute env trunc t args =
     (case map_of args ''query'' of
        Some (JStr query) \<Rightarrow>
          (case provider_Search env (ws_provider t) query (search_count trunc t args) of
             Inl err \<Rightarrow> ErrorResult (''search failed: '' @ error_text err)
           | Inr result \<Rightarrow> (NewToolResult result)\<lparr>tr_ForUser := result\<rparr>)
      | _ \<Rightarrow> ErrorResult ''query is required'')"

subsection \<open>The fetch tool\<close>

record WebFetchTool =
  wf_maxChars :: int
  wf_proxy :: string

definition NewWebFetchToolWithProxy :: "int \<Rightarrow> string \<Rightarrow> WebFetchTool" where
  "NewWebFetchToolWithProxy maxChars proxy = \<lparr>wf_maxChars = (if maxChars \<le> 0 then 50000 else maxChars), wf_proxy = proxy\<rparr>"

definition NewWebFetchTool :: "int \<Rightarrow> WebFetchTool" where
  "NewWebFetchTool maxChars = NewWebFetchToolWithProxy maxChars []"

text \<open>An answer: the status, the content type and the reading of the body. \<open>redirect_limit\<close> is passed to the exchange.\<close>

record fetch_env =
  fe_parse :: "string \<Rightarrow> GoError + parsed_url"
  fe_refuses :: "string \<Rightarrow> GoError option"
  fe_do :: "parsed_url option \<Rightarrow> nat \<Rightarrow> string \<Rightarrow> GoError + (int \<times> string \<times> (GoError + string))"
  fe_indent :: "string \<Rightarrow> (GoError + string) option"
  fe_marshal :: "json_obj \<Rightarrow> GoError + string"

definition redirect_limit :: nat where "redirect_limit = 5"

text \<open>The text of a body and how it was extracted; \<open>fe_indent\<close> gives nothing for a body that is no JSON.\<close>

definition page_text :: "fetch_env \<Rightarrow> string \<Rightarrow> string \<Rightarrow> string \<times> string" where
  "page_text env contentType body =
     (if contains contentType ''application/json'' then
        (case fe_indent env body of
           Some (Inr formatted) \<Rightarrow> (formatted, ''json'')
         | _ \<Rightarrow> (body, ''raw''))
      else if contains contentType ''text/html'' \<or> (body \<noteq> [] \<and> (has_prefix ''<!DOCTYPE'' body \<or> has_prefix ''<html'' (to_lower body)))
        then (extractText body, ''text'')
      else (body, ''raw''))"

definition max_chars :: "(string \<Rightarrow> int) \<Rightarrow> WebFetchTool \<Rightarrow> json_obj \<Rightarrow> int" where
  "max_chars trunc t args =
     (case map_of args ''maxChars'' of Some (JNum mc) \<Rightarrow> if trunc mc > 100 then trunc mc else wf_maxChars t | _ \<Rightarrow> wf_maxChars t)"

definition fetch_json :: "string \<Rightarrow> int \<Rightarrow> string \<Rightarrow> bool \<Rightarrow> string \<Rightarrow> json_obj" where
  "fetch_json urlStr status extractor truncated t =
     [(''url'', JStr urlStr), (''status'', JNum (itoa status)), (''extractor'', JStr extractor), (''truncated'', JBool truncated),
      (''length'', JNum (itoa (int (length t)))), (''text'', JStr t)]"

definition cut_text :: "int \<Rightarrow> string \<Rightarrow> bool \<times> string" where
  "cut_text maxChars t = (let truncated = int (length t) > maxChars in (truncated, if truncated then take (nat maxChars) t else t))"

definition fetch_result :: "fetch_env \<Rightarrow> string \<Rightarrow> int \<Rightarrow> string \<Rightarrow> bool \<Rightarrow> string \<Rightarrow> ToolResult" where
  "fetch_result env urlStr status extractor truncated t =
     (case fe_marshal env (fetch_json urlStr status extractor truncated t) of
        Inl err \<Rightarrow> ErrorResult (''failed to marshal fetch result: '' @ error_text err)
      | Inr resultJSON \<Rightarrow>
          (NewToolResult (''Fetched '' @ itoa (int (length t)) @ '' bytes from '' @ urlStr @ '' (extractor: '' @ extractor @ '', truncated: '' @
             (if truncated then ''true'' else ''false'') @ '')''))\<lparr>tr_ForUser := resultJSON\<rparr>)"

definition WebFetchTool_Execute :: "fetch_env \<Rightarrow> (string \<Rightarrow> int) \<Rightarrow> WebFetchTool \<Rightarrow> json_obj \<Rightarrow> ToolResult" where
  "WebFetchTool_Execute env trunc t args =
     (case map_of args ''url'' of
        Some (JStr urlStr) \<Rightarrow>
          (case fe_parse env urlStr of
             Inl err \<Rightarrow> ErrorResult (''invalid URL: '' @ error_text err)
           | Inr parsedURL \<Rightarrow>
               if ur_Scheme parsedURL \<noteq> ''http'' \<and> ur_Scheme parsedURL \<noteq> ''https'' then ErrorResult ''only http/https URLs are allowed''
               else if ur_Host parsedURL = [] then ErrorResult ''missing domain in URL''
               else case fe_refuses env urlStr of
                   Some err \<Rightarrow> ErrorResult (''failed to create request: '' @ error_text err)
                 | None \<Rightarrow>
                     (case createHTTPClient (fe_parse env) (wf_proxy t) of
                        Inl err \<Rightarrow> ErrorResult (''failed to create HTTP client: '' @ error_text err)
                      | Inr client \<Rightarrow>
                          (case fe_do env client redirect_limit urlStr of
                             Inl err \<Rightarrow> ErrorResult (''request failed: '' @ error_text err)
                           | Inr (status, contentType, Inl err) \<Rightarrow> ErrorResult (''failed to read response: '' @ error_text err)
                           | Inr (status, contentType, Inr body) \<Rightarrow>
                               let (page, extractor) = page_text env contentType body; (truncated, page) = cut_text (max_chars trunc t args) page
                               in fetch_result env urlStr status extractor truncated page)))
      | _ \<Rightarrow> ErrorResult ''url is required'')"

subsection \<open>Extraction\<close>

text \<open>Text without markup: after every opening bracket comes a closing one at once, or none at all.\<close>

fun tagless :: "string \<Rightarrow> bool" where
  "tagless [] = True"
| "tagless (c # s) = ((if c = CHR ''<'' then has_prefix ''>'' s \<or> CHR ''>'' \<notin> set s else True) \<and> tagless s)"

lemma wx_match_plus_gt:
  "wx_match (WStar not_gt # wlit ''>'') s = (if CHR ''>'' \<in> set s then Some ([], drop 1 (dropWhile not_gt s)) else None)"
proof (induction s)
  case (Cons a s)
  have "not_gt a = (a \<noteq> CHR ''>'')" by (simp add: not_gt_def)
  then show ?case using Cons by (cases "CHR ''>'' \<in> set s") (auto simp: wlit_def or_else_def)
qed (simp add: wlit_def)

lemma wx_match_tag:
  "wx_match reTag (c # s) =
     (if c = CHR ''<'' \<and> \<not> has_prefix ''>'' s \<and> CHR ''>'' \<in> set s then Some ([], drop 1 (dropWhile not_gt s)) else None)"
proof (cases s)
  case (Cons d t)
  have d: "not_gt d = (d \<noteq> CHR ''>'')" by (simp add: not_gt_def)
  have "wx_match reTag (c # s) = (if c = CHR ''<'' then if not_gt d then wx_match (WStar not_gt # wlit ''>'') t else None else None)"
    by (simp add: reTag_def wlit_def wplus_def Cons)
  then show ?thesis unfolding wx_match_plus_gt using d by (auto simp: Cons)
qed (simp add: reTag_def wlit_def wplus_def)

lemma stripTags_Nil [simp]: "stripTags [] = []"
  by (simp add: stripTags_def)

lemma stripTags_Cons:
  "stripTags (c # s) =
     (if c = CHR ''<'' \<and> \<not> has_prefix ''>'' s \<and> CHR ''>'' \<in> set s then stripTags (drop 1 (dropWhile not_gt s)) else c # stripTags s)"
proof -
  have "length (drop 1 (dropWhile not_gt s)) \<le> length s" by (simp add: le_trans [OF diff_le_self length_dropWhile_le])
  then show ?thesis unfolding stripTags_def by (subst replace_all.simps(2)) (simp only: wx_match_tag, simp)
qed

lemma stripTags_set: "set (stripTags s) \<subseteq> set s"
proof (induction s rule: length_induct)
  case (1 s)
  show ?case
  proof (cases s)
    case (Cons c t)
    let ?u = "drop 1 (dropWhile not_gt t)"
    have u: "length ?u < length s" "set ?u \<subseteq> set t"
      using Cons by (auto simp: less_Suc_eq_le le_trans [OF diff_le_self length_dropWhile_le] dest!: set_dropWhileD in_set_dropD)
    show ?thesis using 1 [rule_format, OF u(1)] 1 [rule_format, of t] u(2) Cons by (auto simp: stripTags_Cons)
  qed simp
qed

lemma stripTags_tagless: "tagless (stripTags s)"
proof (induction s rule: length_induct)
  case (1 s)
  show ?case
  proof (cases s)
    case (Cons c t)
    let ?u = "drop 1 (dropWhile not_gt t)"
    have u: "length ?u < length s" using Cons by (simp add: less_Suc_eq_le le_trans [OF diff_le_self length_dropWhile_le])
    have gt: "has_prefix ''>'' t \<Longrightarrow> has_prefix ''>'' (stripTags t)" by (cases t) (auto simp: stripTags_Cons)
    show ?thesis
    proof (cases "c = CHR ''<'' \<and> \<not> has_prefix ''>'' t \<and> CHR ''>'' \<in> set t")
      case True
      then show ?thesis using 1 [rule_format, OF u] by (simp add: Cons stripTags_Cons)
    next
      case False
      then have e: "stripTags s = c # stripTags t" by (simp only: Cons stripTags_Cons if_False)
      have "has_prefix ''>'' (stripTags t) \<or> CHR ''>'' \<notin> set (stripTags t)" if "c = CHR ''<''"
        using False that gt stripTags_set [of t] by blast
      then show ?thesis using 1 [rule_format, of t] Cons unfolding e by simp
    qed
  qed simp
qed

text \<open>\<open>squeezed s t\<close>: \<open>t\<close> is \<open>s\<close> with some white space dropped and some replaced by other white space.\<close>

inductive squeezed :: "string \<Rightarrow> string \<Rightarrow> bool" where
  squeezed_nil: "squeezed [] []"
| squeezed_keep: "squeezed s t \<Longrightarrow> squeezed (c # s) (c # t)"
| squeezed_drop: "is_space w \<Longrightarrow> squeezed s t \<Longrightarrow> squeezed (w # s) t"
| squeezed_subst: "is_space w \<Longrightarrow> is_space v \<Longrightarrow> squeezed s t \<Longrightarrow> squeezed (w # s) (v # t)"

lemma squeezed_refl: "squeezed s s"
  by (induction s) (auto intro: squeezed.intros)

lemma squeezed_append: "squeezed a b \<Longrightarrow> squeezed c d \<Longrightarrow> squeezed (a @ c) (b @ d)"
  by (induction rule: squeezed.induct) (auto intro: squeezed.intros)

lemma squeezed_spaces: "list_all is_space ws \<Longrightarrow> squeezed ws []"
  by (induction ws) (auto intro: squeezed.intros)

lemma squeezed_mem: "squeezed s t \<Longrightarrow> c \<in> set t \<Longrightarrow> \<not> is_space c \<Longrightarrow> c \<in> set s"
  by (induction rule: squeezed.induct) auto

lemma gt_not_space: "\<not> is_space (CHR ''>'')"
  by (simp add: is_space_def)

lemma squeezed_head: "squeezed s t \<Longrightarrow> has_prefix ''>'' s \<Longrightarrow> has_prefix ''>'' t"
  by (induction rule: squeezed.induct) (auto simp: gt_not_space)

lemma tagless_squeezed: "squeezed s t \<Longrightarrow> tagless s \<Longrightarrow> tagless t"
proof (induction rule: squeezed.induct)
  case (squeezed_keep s t c)
  then show ?case using squeezed_head squeezed_mem gt_not_space by (auto split: if_splits)
next
  case (squeezed_subst w v s t)
  have "v \<noteq> CHR ''<''" using squeezed_subst(2) by (auto simp: is_space_def)
  then show ?case using squeezed_subst by simp
qed auto

lemma squeezed_trim_right: "squeezed s (trim_right is_space s)"
proof -
  obtain t where t: "s = trim_right is_space s @ t" "\<forall>c \<in> set t. is_space c" using prefix_trim_right by blast
  have "squeezed (trim_right is_space s @ t) (trim_right is_space s @ [])"
    using t(2) by (intro squeezed_append squeezed_refl squeezed_spaces) (simp add: list_all_iff)
  then show ?thesis using t(1) by simp
qed

lemma squeezed_trim: "squeezed s (trim_space s)"
proof -
  have "list_all is_space (takeWhile is_space s)" by (auto simp: list_all_iff dest: set_takeWhileD)
  then have "squeezed (takeWhile is_space s @ dropWhile is_space s) ([] @ trim_right is_space (dropWhile is_space s))"
    by (intro squeezed_append squeezed_spaces squeezed_trim_right)
  then show ?thesis by (simp add: trim_space_def)
qed

lemma wx_match_star_end: "wx_match [WStar p] s = Some ([], dropWhile p s)"
  by (induction s) (simp_all add: or_else_def)

lemma blank_space: "blank c \<Longrightarrow> is_space c"
  by (auto simp: blank_def rx_space_def is_space_def)

lemma squeezed_dropWhile:
  assumes "\<And>c. p c \<Longrightarrow> is_space c" "squeezed (dropWhile p s) t"
  shows "squeezed s t"
proof -
  have "list_all is_space (takeWhile p s)" using assms(1) by (auto simp: list_all_iff dest: set_takeWhileD)
  then have "squeezed (takeWhile p s @ dropWhile p s) ([] @ t)" by (intro squeezed_append squeezed_spaces assms(2))
  then show ?thesis by simp
qed

lemma squeezed_blanks: "squeezed s (replace_all reBlank '' '' s)"
proof (induction s rule: length_induct)
  case (1 s)
  show ?case
  proof (cases s)
    case (Cons c t)
    have m: "wx_match reBlank (c # t) = (if blank c then Some ([], dropWhile blank t) else None)"
      by (simp add: reBlank_def wplus_def wx_match_star_end)
    have l: "length (dropWhile blank t) \<le> length t" by (rule length_dropWhile_le)
    show ?thesis
    proof (cases "blank c")
      case True
      have "squeezed t (replace_all reBlank '' '' (dropWhile blank t))"
      proof (rule squeezed_dropWhile [of blank])
        show "squeezed (dropWhile blank t) (replace_all reBlank '' '' (dropWhile blank t))"
          using 1 [rule_format, of "dropWhile blank t"] l Cons by simp
      qed (rule blank_space)
      then have "squeezed (c # t) (CHR '' '' # replace_all reBlank '' '' (dropWhile blank t))"
        using blank_space [OF True] by (intro squeezed_subst) (simp_all add: is_space_def)
      moreover have "replace_all reBlank '' '' (c # t) = CHR '' '' # replace_all reBlank '' '' (dropWhile blank t)"
        using True l by (subst replace_all.simps(2)) (simp only: m if_True, simp)
      ultimately show ?thesis unfolding Cons by simp
    next
      case False
      have "squeezed t (replace_all reBlank '' '' t)" using 1 Cons by simp
      moreover have "replace_all reBlank '' '' (c # t) = c # replace_all reBlank '' '' t"
        using False by (subst replace_all.simps(2)) (simp only: m if_False, simp)
      ultimately show ?thesis unfolding Cons by (simp only: squeezed_keep)
    qed
  qed (simp add: squeezed_nil)
qed

lemma nl_space: "is_space nl"
  by (simp add: is_space_def)

lemma squeezed_lines: "squeezed s (replace_all reLines [nl, nl] s)"
proof (induction s rule: length_induct)
  case (1 s)
  show ?case
  proof (cases s)
    case (Cons c t)
    show ?thesis
    proof (cases "\<exists>u. s = nl # nl # nl # u")
      case True
      then obtain u where u: "s = nl # nl # nl # u" by blast
      let ?v = "dropWhile (\<lambda>c. c = nl) u"
      have m: "wx_match reLines (nl # nl # nl # u) = Some ([], ?v)" by (simp add: reLines_def wlit_def wx_match_star_end)
      have l: "length ?v \<le> length u" by (rule length_dropWhile_le)
      have "squeezed u (replace_all reLines [nl, nl] ?v)"
      proof (rule squeezed_dropWhile [of "\<lambda>c. c = nl"])
        show "squeezed ?v (replace_all reLines [nl, nl] ?v)" using 1 [rule_format, of ?v] l u by simp
      qed (simp add: nl_space)
      then have "squeezed (nl # nl # nl # u) (nl # nl # replace_all reLines [nl, nl] ?v)"
        by (intro squeezed_keep squeezed_drop nl_space)
      moreover have "replace_all reLines [nl, nl] (nl # nl # nl # u) = nl # nl # replace_all reLines [nl, nl] ?v"
        using l by (subst replace_all.simps(2)) (simp only: m, simp)
      ultimately show ?thesis unfolding u by simp
    next
      case False
      have m: "wx_match reLines (c # t) = None"
        using False unfolding Cons reLines_def wlit_def by (cases t; cases "tl t") simp_all
      have "squeezed t (replace_all reLines [nl, nl] t)" using 1 Cons by simp
      moreover have "replace_all reLines [nl, nl] (c # t) = c # replace_all reLines [nl, nl] t"
        by (subst replace_all.simps(2)) (simp only: m, simp)
      ultimately show ?thesis unfolding Cons by (simp only: squeezed_keep)
    qed
  qed (simp add: squeezed_nil)
qed

lemma join_split_nl: "join [nl] (split_on (\<lambda>c. c = nl) s) = s"
proof (induction s)
  case (Cons c s)
  obtain x xs where x: "split_on (\<lambda>c. c = nl) s = x # xs" by (cases "split_on (\<lambda>c. c = nl) s") simp_all
  show ?case using Cons x by (cases xs) auto
qed simp

lemma squeezed_clean_lines: "squeezed (join [nl] ls) (join [nl] (filter (\<lambda>l. l \<noteq> []) (map trim_space ls)))"
proof (induction ls)
  case (Cons x ls)
  let ?r = "filter (\<lambda>l. l \<noteq> []) (map trim_space ls)"
  show ?case
  proof (cases ls)
    case Nil
    show ?thesis using squeezed_trim [of x] by (cases "trim_space x = []") (simp_all add: Nil)
  next
    case (Cons y ys)
    have j: "join [nl] (x # ls) = x @ nl # join [nl] ls" by (simp add: Cons)
    have rest: "squeezed (nl # join [nl] ls) (if ?r = [] then [] else nl # join [nl] ?r)"
      using Cons.IH by (auto intro: squeezed_keep squeezed_drop nl_space)
    have drop: "squeezed (nl # join [nl] ls) (join [nl] ?r)" by (intro squeezed_drop nl_space Cons.IH)
    show ?thesis
    proof (cases "trim_space x = []")
      case True
      have "squeezed (x @ nl # join [nl] ls) ([] @ join [nl] ?r)"
        using squeezed_trim [of x] True by (intro squeezed_append drop) simp
      then show ?thesis using True by (simp add: j)
    next
      case False
      have "squeezed (x @ nl # join [nl] ls) (trim_space x @ (if ?r = [] then [] else nl # join [nl] ?r))"
        by (intro squeezed_append squeezed_trim rest)
      moreover have "join [nl] (trim_space x # ?r) = trim_space x @ (if ?r = [] then [] else nl # join [nl] ?r)"
        by (cases ?r) simp_all
      ultimately show ?thesis using False by (simp add: j)
    qed
  qed
qed (simp add: squeezed_nil)

lemma extractText_tagless: "tagless (extractText htmlContent)"
proof -
  define a where "a = trim_space (stripTags (replace_all reStyle [] (replace_all reScript [] htmlContent)))"
  define b where "b = replace_all reLines [nl, nl] (replace_all reBlank '' '' a)"
  have "tagless a" unfolding a_def by (rule tagless_squeezed [OF squeezed_trim stripTags_tagless])
  then have "tagless b" unfolding b_def by (intro tagless_squeezed [OF squeezed_lines] tagless_squeezed [OF squeezed_blanks])
  then have "tagless (join [nl] (filter (\<lambda>l. l \<noteq> []) (map trim_space (split_on (\<lambda>c. c = nl) b))))"
    using squeezed_clean_lines [of "split_on (\<lambda>c. c = nl) b"] by (auto simp: join_split_nl intro: tagless_squeezed)
  then show ?thesis by (simp add: extractText_def Let_def a_def b_def)
qed

lemma tagless_prefix: "tagless (s @ t) \<Longrightarrow> tagless s"
proof (induction s)
  case (Cons c s)
  have "has_prefix ''>'' (s @ t) \<Longrightarrow> has_prefix ''>'' s \<or> CHR ''>'' \<notin> set s" by (cases s) auto
  then show ?case using Cons by (auto split: if_splits)
qed simp

lemma cut_text_bounds:
  assumes "cut_text m t = (b, u)" "0 \<le> m"
  shows "int (length u) \<le> m \<and> (\<exists>v. t = u @ v) \<and> (tagless t \<longrightarrow> tagless u)"
proof -
  have "\<exists>v. t = u @ v" and "int (length u) \<le> m"
    using assms by (auto simp: cut_text_def Let_def intro: append_take_drop_id [symmetric] split: if_splits)
  then show ?thesis using tagless_prefix by blast
qed

text \<open>(C22) What a fetch returns. A result that is no error stems from an answer of the server to the address of the argument, over HTTP or
  HTTPS; its text is the beginning of the text of the page, is no longer than the limit (of the argument, when that is above
  100, else of the tool), and contains no tag when it was extracted from a page.\<close>

theorem fetch_result_text:
  assumes "WebFetchTool_Execute env trunc (NewWebFetchToolWithProxy n proxy) args = r" "tr_IsError r = False"
  shows "\<exists>urlStr parsed status contentType body rest t.
    map_of args ''url'' = Some (JStr urlStr) \<and> fe_parse env urlStr = Inr parsed \<and> ur_Scheme parsed \<in> {''http'', ''https''} \<and>
    (\<exists>client. fe_do env client redirect_limit urlStr = Inr (status, contentType, Inr body)) \<and>
    fst (page_text env contentType body) = t @ rest \<and> int (length t) \<le> max_chars trunc (NewWebFetchToolWithProxy n proxy) args \<and>
    (if snd (page_text env contentType body) = ''text'' then tagless t else True) \<and>
    r = fetch_result env urlStr status (snd (page_text env contentType body)) (rest \<noteq> []) t"
proof -
  let ?tool = "NewWebFetchToolWithProxy n proxy"
  have e: "tr_IsError (ErrorResult x)" for x by (simp add: ErrorResult_def)
  obtain urlStr parsed client status contentType body where
    u: "map_of args ''url'' = Some (JStr urlStr)" "fe_parse env urlStr = Inr parsed" "ur_Scheme parsed = ''http'' \<or> ur_Scheme parsed = ''https''"
      "fe_do env client redirect_limit urlStr = Inr (status, contentType, Inr body)"
    and r: "r = (let (page, extractor) = page_text env contentType body; (truncated, page) = cut_text (max_chars trunc ?tool args) page
        in fetch_result env urlStr status extractor truncated page)"
    using assms e unfolding WebFetchTool_Execute_def
    by (auto split: option.splits json.splits sum.splits if_splits prod.splits)
  obtain page extractor where p: "page_text env contentType body = (page, extractor)" by fastforce
  obtain b t where c: "cut_text (max_chars trunc ?tool args) page = (b, t)" by fastforce
  have m: "0 \<le> max_chars trunc ?tool args"
    by (auto simp: max_chars_def NewWebFetchToolWithProxy_def split: option.splits json.splits)
  obtain rest where rest: "page = t @ rest" using cut_text_bounds [OF c m] by blast
  have b: "b = (rest \<noteq> [])" using c rest m by (auto simp: cut_text_def Let_def split: if_splits)
  have tl: "tagless t" if "extractor = ''text''"
  proof -
    have "page = extractText body" using that p by (auto simp: page_text_def split: if_splits option.splits sum.splits)
    then have "tagless (t @ rest)" using extractText_tagless [of body] rest by simp
    then show ?thesis by (rule tagless_prefix)
  qed
  have rr: "r = fetch_result env urlStr status extractor (rest \<noteq> []) t" unfolding r p c b Let_def prod.case by (rule refl)
  have cl: "\<exists>client. fe_do env client redirect_limit urlStr = Inr (status, contentType, Inr body)" using u(4) by (rule exI)
  show ?thesis
    by (rule exI [of _ urlStr], rule exI [of _ parsed], rule exI [of _ status], rule exI [of _ contentType], rule exI [of _ body],
        rule exI [of _ rest], rule exI [of _ t]) (use u cl rr rest tl cut_text_bounds [OF c m] in \<open>simp add: p\<close>)
qed

definition sample_fetch :: fetch_env where
  "sample_fetch = \<lparr>fe_parse = (\<lambda>u. Inr \<lparr>ur_Scheme = ''https'', ur_Host = ''a.example''\<rparr>), fe_refuses = (\<lambda>_. None),
     fe_do = (\<lambda>_ _ _. Inr (200, ''text/html'', Inr ''<html><script>x<b></script><p>Hi  <i>you</i></p> </html>'')), fe_indent = (\<lambda>_. None),
     fe_marshal = (\<lambda>m. Inr (as_string (map_of m ''text'')))\<rparr>"

lemma sample_fetch_runs:
  "WebFetchTool_Execute sample_fetch (\<lambda>_. 0) (NewWebFetchToolWithProxy 0 []) [(''url'', JStr ''https://a.example'')] =
     (NewToolResult ''Fetched 6 bytes from https://a.example (extractor: text, truncated: false)'')\<lparr>tr_ForUser := ''Hi you''\<rparr>"
  by code_simp

theorem fetch_result_text_witness:
  "\<exists>t. tr_ForUser (WebFetchTool_Execute sample_fetch (\<lambda>_. 0) (NewWebFetchToolWithProxy 0 []) [(''url'', JStr ''https://a.example'')]) = t \<and>
     tagless t \<and> int (length t) \<le> 50000 \<and> t \<noteq> []"
proof -
  let ?r = "WebFetchTool_Execute sample_fetch (\<lambda>_. 0) (NewWebFetchToolWithProxy 0 []) [(''url'', JStr ''https://a.example'')]"
  have "tr_IsError ?r = False" by (simp add: sample_fetch_runs NewToolResult_def)
  from fetch_result_text [OF refl this] obtain urlStr parsed status contentType body rest t where
    g: "map_of [(''url'', JStr ''https://a.example'')] ''url'' = Some (JStr urlStr) \<and>
      fe_parse sample_fetch urlStr = Inr parsed \<and> ur_Scheme parsed \<in> {''http'', ''https''} \<and>
      (\<exists>client. fe_do sample_fetch client redirect_limit urlStr = Inr (status, contentType, Inr body)) \<and>
      fst (page_text sample_fetch contentType body) = t @ rest \<and>
      int (length t) \<le> max_chars (\<lambda>_. 0) (NewWebFetchToolWithProxy 0 []) [(''url'', JStr ''https://a.example'')] \<and>
      (if snd (page_text sample_fetch contentType body) = ''text'' then tagless t else True) \<and>
      ?r = fetch_result sample_fetch urlStr status (snd (page_text sample_fetch contentType body)) (rest \<noteq> []) t"
    by (elim exE) (rule that)
  note f = g [THEN conjunct2, THEN conjunct2, THEN conjunct2]
  have ct: "contentType = ''text/html''" using f [THEN conjunct1] by (auto simp: sample_fetch_def)
  have c: "contains ''text/html'' ''application/json'' = False" "contains ''text/html'' ''text/html''" by code_simp+
  have "snd (page_text sample_fetch contentType body) = ''text''" unfolding ct by (simp add: page_text_def c)
  with f have x: "tagless t" by simp
  have "?r = fetch_result sample_fetch urlStr status (snd (page_text sample_fetch contentType body)) (rest \<noteq> []) t" using f by (elim conjE)
  moreover have "tr_ForUser (fetch_result sample_fetch u s k b t) = t" for u s k b
    by (simp add: fetch_result_def sample_fetch_def fetch_json_def as_string_def NewToolResult_def)
  ultimately have r: "tr_ForUser ?r = t" by simp
  moreover have "max_chars (\<lambda>_. 0) (NewWebFetchToolWithProxy 0 []) [(''url'', JStr ''https://a.example'')] = 50000"
    by (simp add: max_chars_def NewWebFetchToolWithProxy_def)
  moreover have "tr_ForUser ?r \<noteq> []" by (simp add: sample_fetch_runs)
  ultimately show ?thesis using x f by (intro exI [of _ t]) simp
qed

text \<open>The model does not see the page: what it is told of a fetch is the number of bytes only.\<close>

lemma fetched_text_not_for_model:
  assumes "length t = length t'" "fe_marshal env (fetch_json u st x b t) = Inr j" "fe_marshal env (fetch_json u st x b t') = Inr j'"
  shows "tr_ForLLM (fetch_result env u st x b t) = tr_ForLLM (fetch_result env u st x b t')"
  using assms by (simp add: fetch_result_def NewToolResult_def)

subsection \<open>Search results\<close>

text \<open>No more results are listed than asked for.\<close>

lemma result_lines_take: "result_lines i count results = result_lines i count (take (nat (count - i)) results)"
proof (induction i count results rule: result_lines.induct)
  case (2 i count title url desc results)
  show ?case
  proof (cases "i < count")
    case True
    have n: "nat (count - i) = Suc (nat (count - (i + 1)))" using True by simp
    have ih: "result_lines (i + 1) count results = result_lines (i + 1) count (take (nat (count - (i + 1))) results)"
      by (rule 2) (use True in simp)
    show ?thesis unfolding n take_Suc_Cons result_lines.simps(2) by (subst ih) (rule refl)
  next
    case False
    then show ?thesis by simp
  qed
qed simp

lemma search_count_bounds: "0 < ws_maxResults t \<Longrightarrow> 0 < search_count trunc t args \<and> search_count trunc t args \<le> max 10 (ws_maxResults t)"
  by (auto simp: search_count_def split: option.splits json.splits)

lemma no_search_provider:
  "NewWebSearchTool opts = None \<longleftrightarrow>
     \<not> (wo_PerplexityEnabled opts \<and> wo_PerplexityAPIKey opts \<noteq> []) \<and> \<not> (wo_BraveEnabled opts \<and> wo_BraveAPIKey opts \<noteq> []) \<and>
     \<not> (wo_TavilyEnabled opts \<and> wo_TavilyAPIKey opts \<noteq> []) \<and> \<not> wo_DuckDuckGoEnabled opts"
  by (simp add: NewWebSearchTool_def)

lemma duckduckgo_page:
  "extractResults (''<a class='' @ [dquote] @ ''result__a'' @ [dquote] @ '' href='' @ [dquote] @ ''/l?uddg=x%2Fy'' @ [dquote] @ ''>T<b>i</b></a>'') 5 ''q'' =
   ''Results for: q (via DuckDuckGo)'' @ [nl] @ ''1. Ti'' @ [nl] @ ''   x/y''"
  by code_simp

end
