(* ===== verification/Spec2Isabelle.thy ===== *)
theory Spec2Isabelle
  imports Agent_Loop Bus Cron Split_Message Campaign Skills State_Store File_Tools Shell Workspace_Tools Channels Subagent Auth Models Cron_Tool Cli_Providers Chat_API Archive Skill_Install Skill_Loader Antigravity Migrate Claude_API Codex_API MCP Core_Proxy Copilot Edge Media Web
begin

text \<open>
  A verification development of tinyclaw, an agent gateway written in Go. Paths below are relative to
  the root of the repository.

  \<^bold>\<open>The program.\<close> Chat platforms (\<^verbatim>\<open>pkg/channels\<close>) publish inbound messages on a bus (\<^verbatim>\<open>pkg/bus\<close>). The agent
  loop (\<^verbatim>\<open>pkg/agent\<close>) takes them one at a time, asks the router (\<^verbatim>\<open>pkg/routing\<close>) which configured agent and
  which session a message belongs to, builds a prompt from the session history (\<^verbatim>\<open>pkg/session\<close>) and the
  files of the workspace, and calls a language model through a chain of fallback providers
  (\<^verbatim>\<open>pkg/providers\<close>) until it asks for no more tools (\<^verbatim>\<open>pkg/tools\<close>). The answer goes back through the bus
  and is cut to the length a platform allows (\<^verbatim>\<open>pkg/utils\<close>). Beside the loop run the scheduled jobs
  (\<^verbatim>\<open>pkg/cron\<close>), the heartbeat (\<^verbatim>\<open>pkg/heartbeat\<close>) with the state of the workspace (\<^verbatim>\<open>pkg/state\<close>), and
  campaigns (\<^verbatim>\<open>pkg/campaign\<close>), which send a list of steps to agent backends under guardrails. Around them: the
  configuration and the choice of providers (\<^verbatim>\<open>pkg/config\<close>, \<^verbatim>\<open>pkg/providers\<close>), credentials (\<^verbatim>\<open>pkg/auth\<close>), skills
  that are installed from registries (\<^verbatim>\<open>pkg/skills\<close>), tools of external servers (\<^verbatim>\<open>pkg/tools/mcp_client.go\<close>), the pipe to
  a verified core (\<^verbatim>\<open>pkg/core\<close>) and the migration from the predecessor (\<^verbatim>\<open>pkg/migrate\<close>).

  \<^bold>\<open>The theories\<close>, in the order of their dependencies.
  \<^item> \<open>Prelude\<close>: Go strings as byte lists (trimming, folding, splitting, joining), times and durations with
    saturation and 64-bit wrap-around, truncating division, and the lemmas on lists and maps that the
    components share. \<open>Regex\<close>: a matcher for the regular expressions of the sources. \<open>Filepath\<close>: the lexical path
    functions of the standard library.
  \<^item> \<open>Agent_Id\<close>, \<open>Session_Key\<close>, \<open>Route\<close> (\<^verbatim>\<open>pkg/routing\<close>): identifiers, session keys with their parser, and the
    cascade of bindings. \<open>Route\<close> states the cascade as a list of levels and proves that \<open>ResolveRoute\<close> refines it.
  \<^item> \<open>Errors\<close>, \<open>Cooldown\<close>, \<open>Fallback\<close> (\<^verbatim>\<open>pkg/providers\<close>): the classifier of provider errors, the cooldown state of
    every provider, and the chain that tries candidates in order. The clock is an argument of each operation.
  \<^item> \<open>Protocol\<close> (\<^verbatim>\<open>pkg/providers/protocoltypes\<close>, \<^verbatim>\<open>pkg/bus/types.go\<close>): messages, tool calls and their
    normalisation. JSON encoding and decoding are parameters.
  \<^item> \<open>Session\<close> (\<^verbatim>\<open>pkg/session\<close>): sessions in memory and on disk; a save is a sequence of directory operations, so
    that a crash can fall between two of them.
  \<^item> \<open>Bus\<close> (\<^verbatim>\<open>pkg/bus\<close>): the two bounded channels, the lock that publishers hold while they send and the closing
    of the bus, as an inductive relation over interleaved atomic steps.
  \<^item> \<open>Cron\<close> (\<^verbatim>\<open>pkg/cron\<close>): every operation of the job service, and its loop interleaved with the callers.
  \<^item> \<open>Tools\<close> (\<^verbatim>\<open>pkg/tools\<close>: registry, results, message tool, tool loop); the tools and the model are parameters.
  \<^item> \<open>Context\<close>, \<open>Agent\<close>, \<open>Agent_Loop\<close> (\<^verbatim>\<open>pkg/agent\<close>): prompt building with its cache, the repair of histories,
    memory files, the construction of agents from the configuration, and the loop itself: routing of a message,
    tool iterations, retries after context errors, summarisation and emergency compression.
  \<^item> \<open>Split_Message\<close> (\<^verbatim>\<open>pkg/utils/message.go\<close>): the cutting of long messages at lines, words and code blocks.
  \<^item> \<open>Campaign\<close> (\<^verbatim>\<open>pkg/campaign\<close>): the runner, with the goroutine of each campaign as a program counter that
    interleaves with starts, stops and the expiry of contexts.
  \<^item> \<open>Skills\<close> (\<^verbatim>\<open>pkg/skills\<close>, \<^verbatim>\<open>pkg/tools/skills_search.go\<close>): the search cache with trigram similarity and eviction,
    and the merge of the answers of several registries.
  \<^item> \<open>State_Store\<close> (\<^verbatim>\<open>pkg/state\<close>, \<^verbatim>\<open>pkg/heartbeat\<close>): the last active channel with its atomic save, and one heartbeat
    as a function from what it reads to its effects.
  \<^item> \<open>Files\<close>, \<open>File_Tools\<close> (\<^verbatim>\<open>pkg/tools/filesystem.go\<close>, \<^verbatim>\<open>edit.go\<close>): the sandboxed and the host file system on a disk
    with symbolic links and failing system calls, the file tools, and the validation of working directories.
  \<^item> \<open>Shell\<close> (\<^verbatim>\<open>pkg/tools/shell.go\<close>), \<open>Workspace_Tools\<close>: the guard of the shell tool, and the file and shell tools together in
    the registry of an agent. \<open>Subagent\<close> (\<^verbatim>\<open>subagent.go\<close>, \<^verbatim>\<open>spawn.go\<close>): background tasks as goroutines that share a mutex and the
    bus. \<open>Cron_Tool\<close> (\<^verbatim>\<open>cron.go\<close>): the tool over the cron service, and what a job does when it fires. \<open>MCP\<close>
    (\<^verbatim>\<open>mcp_client.go\<close>, \<^verbatim>\<open>mcp_registry.go\<close>): the JSON-RPC client of an external server and the tools registered for it.
  \<^item> \<open>Channels\<close> (\<^verbatim>\<open>pkg/channels/base.go\<close>, \<^verbatim>\<open>manager.go\<close>): allow lists, message intake, the manager and its outbound dispatcher.
  \<^item> \<open>Auth\<close> (\<^verbatim>\<open>pkg/auth\<close>): the credential store, PKCE, tokens and their refresh, the browser login.
  \<^item> \<open>Models\<close> (\<^verbatim>\<open>pkg/config\<close>, \<^verbatim>\<open>pkg/providers/factory.go\<close>, \<^verbatim>\<open>factory_provider.go\<close>, \<^verbatim>\<open>legacy_provider.go\<close>): the list of models, its
    migration from the old sections, and the choice of a provider.
  \<^item> The providers: \<open>Chat_API\<close> (\<^verbatim>\<open>openai_compat\<close>), \<open>Claude_API\<close> (\<^verbatim>\<open>anthropic\<close>), \<open>Codex_API\<close> (\<^verbatim>\<open>codex_provider.go\<close>), \<open>Antigravity\<close>
    (\<^verbatim>\<open>antigravity_provider.go\<close>), \<open>Copilot\<close> (\<^verbatim>\<open>github_copilot_provider.go\<close>, \<^verbatim>\<open>http_provider.go\<close>, \<^verbatim>\<open>codex_cli_credentials.go\<close>) and
    \<open>Cli_Providers\<close> (programs that run as a child process): the request built from a conversation, the response read
    back, errors and tokens.
  \<^item> \<open>Archive\<close> (\<^verbatim>\<open>pkg/utils/download.go\<close>, \<^verbatim>\<open>zip.go\<close>), \<open>Skill_Install\<close> (\<^verbatim>\<open>pkg/skills/clawhub_registry.go\<close>, \<^verbatim>\<open>installer.go\<close>,
    \<^verbatim>\<open>pkg/tools/skills_install.go\<close>), \<open>Skill_Loader\<close> (\<^verbatim>\<open>pkg/skills/loader.go\<close>): downloads, the extraction of archives, the installation
    of a skill on the disk, and the loader that finds skills in three places.
  \<^item> \<open>Core_Proxy\<close> (\<^verbatim>\<open>pkg/core\<close>): the framing of the messages on the pipe, and calls and responses as interleaved steps.
  \<^item> \<open>Migrate\<close> (\<^verbatim>\<open>pkg/migrate\<close>): the conversion and merge of the predecessor's configuration, and the copy of its workspace.

  \<^bold>\<open>How the code is represented.\<close> A struct is a record whose fields carry a short prefix, a Go map is a HOL map
  or an association list when the order of iteration shows, an error is a value of \<open>GoError\<close> that keeps what it
  wraps, and a method on a pointer takes and returns the record. A mutex makes an operation one step of the
  model. Wherever Go iterates over a map, the order is an argument, and the theorems hold for every order.
  What the outside world does (clocks, models, tools, file faults, cancellation) is an argument or an event.

  \<^bold>\<open>What is shown.\<close> Invariants: every request that the agent loop sends is a well-formed conversation, whatever
  truncation, summaries and compression did to the history; the bus never sends on a closed channel; the results of a campaign
  follow its steps in order and stay within the iteration guardrail; the life cycle of background tasks; a call to the core
  gets its own answer under every interleaving. Refinement and equivalence: routing against
  its list of levels, the listing of skills against the priority of their places, the cached prompt against a fresh one, the migrated
  model list against the old provider sections. Safety: sessions of different peers never share a key, a turn touches no other
  session, a one-shot job runs at most once, the tools of a restricted agent and the installation of a skill change
  nothing outside their directory, a scheduled command passes the guard of the shell, the migration keeps every file or a
  backup of it. Termination: the tool loop, the retries and a campaign are bounded by numbers taken from the configuration; message
  splitting ends for every text whose fence lines are shorter than the limit. Types: a cleaned schema has only keywords that the
  server accepts. Round trips: sessions, the workspace state, tool calls from a response through the agent into the next request for
  each provider, messages on the pipe of the core. Liveness: an installed skill can be loaded; when a spawn does not return. Error
  behaviour: every branch of the fallback chain, and the defects listed with the theorems that exhibit them.

  \<^bold>\<open>Loops and fuel.\<close> The loops of the sources are structural recursions or have a termination proof. The tool loops
  recurse on the number of iterations left, which the configuration bounds as in the code. The loop of
  \<open>SplitMessage\<close> need not end and is a partial function into options; that it returns is proved with the
  hypothesis it needs, and that it runs for ever is proved where the hypothesis fails. Runs of concurrent
  components are lists of events of any length.

  \<^bold>\<open>Not modelled.\<close> The adapters to chat platforms, the web and hardware tools, the killing of process groups,
  the Aperture client and the HTTP handlers, health checks, devices, networking, transcription, the printing of a configuration as
  Dhall and the command line: input and output to code outside the repository. Logging and token counts have no
  effect on the state and are left out everywhere. JSON, HTTP exchanges, the SDKs of vendors, the unzip library, the cron expression
  library and file contents beyond what the code inspects are parameters. Of the agent loop the registration of the
  concrete tools is left out, of the configuration the formats of the file and the environment, of the login the device
  code and the Google client.
\<close>

end
